(* ===== verification/Prelude.thy ===== *)
theory Prelude
  imports Main "HOL-Library.Word"
begin

unbundle bit_operations_syntax

text \<open>
  What the component theories share: the machine types of the C code, the result type that
  separates an ordinary return from a run that never returns or leaves its memory, byte buffers
  with in-place copies (memcpy, memset), little-endian words, C strings, and two small interfaces
  (operations that keep an invariant; a flag word with set, clear and test) that several components
  provide.
\<close>

section \<open>Machine types and collections of facts\<close>

type_synonym u8 = "8 word"
type_synonym u16 = "16 word"
type_synonym u32 = "32 word"

named_theorems buf_simps "length, lookup and update of byte buffers"

section \<open>Outcomes\<close>

text \<open>
  A C call returns a value, or it does not return at all: it waits on a lock its own thread holds,
  it loops for ever, or it touches memory outside the object it was given. Error codes are ordinary
  return values and are not part of this type.
\<close>

datatype stuck = Deadlock | Livelock | MemFault

type_synonym 'a outcome = "stuck + 'a"

definition rbind :: "'a outcome \<Rightarrow> ('a \<Rightarrow> 'b outcome) \<Rightarrow> 'b outcome" where
  "rbind m f = (case m of Inl e \<Rightarrow> Inl e | Inr x \<Rightarrow> f x)"

lemma rbind_simps [simp]:
  "rbind (Inl e) f = Inl e"
  "rbind (Inr x) f = f x"
  by (simp_all add: rbind_def)

lemma rbind_return [simp]: "rbind m Inr = m"
  by (cases m) simp_all

lemma rbind_cong [fundef_cong]:
  assumes "m = m'" and "\<And>x. m' = Inr x \<Longrightarrow> f x = g x"
  shows "rbind m f = rbind m' g"
  using assms by (cases m') auto

lemma rbind_Inr_iff:
  "rbind m f = Inr y \<longleftrightarrow> (\<exists>x. m = Inr x \<and> f x = Inr y)"
  by (cases m) auto

lemma rbind_Inl_iff:
  "rbind m f = Inl e \<longleftrightarrow> m = Inl e \<or> (\<exists>x. m = Inr x \<and> f x = Inl e)"
  by (cases m) auto

lemma rbind_InrE:
  assumes "rbind m f = Inr y"
  obtains x where "m = Inr x" and "f x = Inr y"
  using assms by (auto simp: rbind_Inr_iff)

lemma rbind_assoc: "rbind (rbind m f) g = rbind m (\<lambda>x. rbind (f x) g)"
  by (cases m) simp_all

text \<open>A loop written with \<open>partial_function (option)\<close> has the value None when it never ends.\<close>

definition returns :: "'a outcome option \<Rightarrow> 'a outcome" where
  "returns m = (case m of None \<Rightarrow> Inl Livelock | Some r \<Rightarrow> r)"

lemma returns_simps [simp]:
  "returns None = Inl Livelock"
  "returns (Some r) = r"
  by (simp_all add: returns_def)

text \<open>
  \<open>always P m\<close>: if the call returns, the state it returns satisfies \<open>P\<close>. The rules
  follow the shape of the definitions, so invariants of straight-line operations are proved by
  applying them.
\<close>

definition always :: "('s \<Rightarrow> bool) \<Rightarrow> ('r \<times> 's) outcome \<Rightarrow> bool" where
  "always P m \<longleftrightarrow> (\<forall>r s. m = Inr (r, s) \<longrightarrow> P s)"

named_theorems always_intros "invariants of operations, by their shape"

lemma alwaysD: "always P m \<Longrightarrow> m = Inr (r, s) \<Longrightarrow> P s"
  by (simp add: always_def)

lemma always_Inr [always_intros]: "P s \<Longrightarrow> always P (Inr (r, s))"
  by (simp add: always_def)

lemma always_Inl [always_intros]: "always P (Inl e)"
  by (simp add: always_def)

lemma always_rbind [always_intros]:
  "always P m \<Longrightarrow> (\<And>r s. P s \<Longrightarrow> always P (f r s)) \<Longrightarrow> always P (rbind m (\<lambda>(r, s). f r s))"
  by (auto simp: always_def rbind_Inr_iff)

lemma always_if [always_intros]:
  "(b \<Longrightarrow> always P x) \<Longrightarrow> (\<not> b \<Longrightarrow> always P y) \<Longrightarrow> always P (if b then x else y)"
  by simp

lemma always_case_prod [always_intros]:
  "(\<And>a b. x = (a, b) \<Longrightarrow> always P (f a b)) \<Longrightarrow> always P (case x of (a, b) \<Rightarrow> f a b)"
  by (cases x) simp

lemma always_case_prod_app [always_intros]:
  "(\<And>a b. x = (a, b) \<Longrightarrow> always P (f a b s)) \<Longrightarrow> always P ((case x of (a, b) \<Rightarrow> f a b) s)"
  by (cases x) simp

lemma always_case_option [always_intros]:
  "always P x \<Longrightarrow> (\<And>a. always P (f a)) \<Longrightarrow> always P (case opt of None \<Rightarrow> x | Some a \<Rightarrow> f a)"
  by (cases opt) simp_all

text \<open>\<open>reaches P m\<close>: the call returns, with a state that satisfies \<open>P\<close>.\<close>

definition reaches :: "('s \<Rightarrow> bool) \<Rightarrow> ('r \<times> 's) outcome \<Rightarrow> bool" where
  "reaches P m \<longleftrightarrow> (\<exists>r s. m = Inr (r, s) \<and> P s)"

lemma reaches_Inr: "P s \<Longrightarrow> reaches P (Inr (r, s))"
  by (simp add: reaches_def)

lemma reaches_bind: "reaches P m \<Longrightarrow> (\<And>r s. P s \<Longrightarrow> reaches Q (f r s)) \<Longrightarrow> reaches Q (rbind m (\<lambda>(r, s). f r s))"
  by (fastforce simp: reaches_def)

lemma reaches_if: "(b \<Longrightarrow> reaches P x) \<Longrightarrow> (\<not> b \<Longrightarrow> reaches P y) \<Longrightarrow> reaches P (if b then x else y)"
  by simp

section \<open>Byte buffers\<close>

definition slice :: "nat \<Rightarrow> nat \<Rightarrow> 'a list \<Rightarrow> 'a list" where
  "slice off n xs = take n (drop off xs)"

text \<open>\<open>blit off src dst\<close> is the buffer \<open>dst\<close> after \<open>memcpy(dst + off, src, length src)\<close>.\<close>

definition blit :: "nat \<Rightarrow> 'a list \<Rightarrow> 'a list \<Rightarrow> 'a list" where
  "blit off src dst = take off dst @ src @ drop (off + length src) dst"

lemma length_slice [buf_simps]: "off + n \<le> length xs \<Longrightarrow> length (slice off n xs) = n"
  by (simp add: slice_def)

lemma nth_slice [buf_simps]: "i < n \<Longrightarrow> off + n \<le> length xs \<Longrightarrow> slice off n xs ! i = xs ! (off + i)"
  by (simp add: slice_def)

lemma length_blit [buf_simps]: "off + length src \<le> length dst \<Longrightarrow> length (blit off src dst) = length dst"
  by (simp add: blit_def)

lemma nth_blit [buf_simps]:
  assumes "off + length src \<le> length dst" and "i < length dst"
  shows "blit off src dst ! i =
    (if off \<le> i \<and> i < off + length src then src ! (i - off) else dst ! i)"
  using assms by (auto simp: blit_def nth_append min_def not_less)

lemma slice_blit_same [buf_simps]:
  "off + length src \<le> length dst \<Longrightarrow> n = length src \<Longrightarrow> slice off n (blit off src dst) = src"
  by (simp add: slice_def blit_def)

lemma slice_blit_apart [buf_simps]:
  assumes "off + length src \<le> length dst" and "o' + n \<le> length dst"
    and "o' + n \<le> off \<or> off + length src \<le> o'"
  shows "slice o' n (blit off src dst) = slice o' n dst"
  using assms
  by (intro nth_equalityI) (auto simp: length_slice length_blit nth_slice nth_blit)

lemma blit_slice_same: "off + n \<le> length xs \<Longrightarrow> blit off (slice off n xs) xs = xs"
  by (intro nth_equalityI) (auto simp: length_blit length_slice nth_blit nth_slice)

lemma blit_all: "length src = length dst \<Longrightarrow> blit 0 src dst = src"
  by (simp add: blit_def)

lemma slice_full [simp]: "slice 0 (length xs) xs = xs"
  by (simp add: slice_def)

lemma slice_append_left: "n \<le> length xs \<Longrightarrow> slice 0 n (xs @ ys) = take n xs"
  by (simp add: slice_def)

lemma slice_append_skip: "length xs \<le> off \<Longrightarrow> slice off n (xs @ ys) = slice (off - length xs) n ys"
  by (simp add: slice_def)

text \<open>Reads and writes inside one object: outside it the run has no defined behaviour.\<close>

definition load_at :: "nat \<Rightarrow> nat \<Rightarrow> 'a list \<Rightarrow> 'a list outcome" where
  "load_at off n buf = (if off + n \<le> length buf then Inr (slice off n buf) else Inl MemFault)"

definition store_at :: "nat \<Rightarrow> 'a list \<Rightarrow> 'a list \<Rightarrow> 'a list outcome" where
  "store_at off src buf = (if off + length src \<le> length buf then Inr (blit off src buf) else Inl MemFault)"

lemma load_at_in [simp]: "off + n \<le> length buf \<Longrightarrow> load_at off n buf = Inr (slice off n buf)"
  by (simp add: load_at_def)

lemma store_at_in [simp]: "off + length src \<le> length buf \<Longrightarrow> store_at off src buf = Inr (blit off src buf)"
  by (simp add: store_at_def)

lemma store_at_length: "store_at off src buf = Inr buf' \<Longrightarrow> length buf' = length buf"
  by (auto simp: store_at_def length_blit split: if_splits)

section \<open>Little-endian words in memory\<close>

definition le16 :: "u16 \<Rightarrow> u8 list" where
  "le16 w = [ucast w, ucast (drop_bit 8 w)]"

definition le32 :: "u32 \<Rightarrow> u8 list" where
  "le32 w = [ucast w, ucast (drop_bit 8 w), ucast (drop_bit 16 w), ucast (drop_bit 24 w)]"

fun de16 :: "u8 list \<Rightarrow> u16" where
  "de16 (a # b # _) = ucast a OR push_bit 8 (ucast b)"
| "de16 _ = 0"

fun de32 :: "u8 list \<Rightarrow> u32" where
  "de32 (a # b # c # d # _) =
     ucast a OR push_bit 8 (ucast b) OR push_bit 16 (ucast c) OR push_bit 24 (ucast d)"
| "de32 _ = 0"

lemma length_le [simp]: "length (le16 v) = 2" "length (le32 w) = 4"
  by (simp_all add: le16_def le32_def)

lemma de16_le16 [simp]: "de16 (le16 w @ xs) = w"
  by (rule bit_word_eqI) (auto simp: le16_def bit_simps)

lemma de32_le32_append [simp]: "de32 (le32 w @ xs) = w"
proof (rule bit_word_eqI)
  fix n assume "n < LENGTH(32)"
  then have n: "n < 32" by simp
  have "n < 8 \<or> 8 \<le> n \<and> n < 16 \<or> 16 \<le> n \<and> n < 24 \<or> 24 \<le> n" by arith
  then show "bit (de32 (le32 w @ xs)) n \<longleftrightarrow> bit w n"
    using n by (auto simp: le32_def bit_simps)
qed

lemma de32_le32 [simp]: "de32 (le32 w) = w"
  using de32_le32_append [of w "[]"] by simp

lemma de32_take: "de32 (take 4 bs) = de32 bs"
  by (cases bs rule: de32.cases) (simp_all add: numeral_eq_Suc)

lemma le32_de32:
  assumes "length xs = 4"
  shows "le32 (de32 xs) = xs"
proof -
  obtain a b c d where xs: "xs = [a, b, c, d]"
    using assms by (auto simp: numeral_eq_Suc length_Suc_conv)
  have hi: "\<not> bit (x :: u8) (k + n)" if "8 \<le> k" for x k n
    using that by (auto dest: bit_imp_le_length)
  show ?thesis
    unfolding xs le32_def
    by (auto intro!: bit_word_eqI simp: bit_simps hi)
qed

section \<open>C strings\<close>

text \<open>The characters of a NUL-terminated string stored in a buffer, and what \<open>strlen\<close> counts.\<close>

definition cstr :: "u8 list \<Rightarrow> u8 list" where
  "cstr xs = takeWhile (\<lambda>c. c \<noteq> 0) xs"

definition cstrlen :: "u8 list \<Rightarrow> nat" where
  "cstrlen xs = length (cstr xs)"

lemma cstr_append_nul [simp]: "0 \<notin> set xs \<Longrightarrow> cstr (xs @ 0 # ys) = xs"
  unfolding cstr_def by (induction xs) auto

lemma zero_notin_cstr [simp]: "0 \<notin> set (cstr xs)"
  by (auto simp: cstr_def dest: set_takeWhileD)

lemma cstrlen_le: "cstrlen xs \<le> length xs"
  by (simp add: cstrlen_def cstr_def length_takeWhile_le)

section \<open>Machine arithmetic\<close>

lemma unat_add_small:
  fixes x y :: u32
  assumes "unat x + unat y < 4294967296"
  shows "unat (x + y) = unat x + unat y"
  using assms unat_add_lem [of x y] by simp

lemma unat_u32_less: "unat (x :: u32) < 4294967296"
proof -
  have "unat x < 2 ^ LENGTH(32)" by (rule unsigned_less)
  then show ?thesis by simp
qed

lemma aligned_next:
  fixes a b u :: nat
  assumes "a mod u = 0" and "b mod u = 0" and "a < b"
  shows "a + u \<le> b"
proof -
  obtain k l where a: "a = u * k" and b: "b = u * l"
    using assms(1,2) by (auto simp: mod_eq_0_iff_dvd elim!: dvdE)
  have "k < l" using assms(3) a b by simp
  then have "u * (k + 1) \<le> u * l" by (intro mult_le_mono2) simp
  then show ?thesis using a b by simp
qed

lemma unat_sub_le:
  fixes x y :: "'a::len word"
  assumes "y \<le> x"
  shows "unat (x - y) = unat x - unat y"
  using assms by (simp add: unat_sub)

lemma u8_ones_and [simp]: "(255 :: u8) AND x = x" "x AND (255 :: u8) = x"
proof -
  have ones: "(255 :: u8) = - 1" by simp
  show "(255 :: u8) AND x = x" "x AND (255 :: u8) = x" unfolding ones by simp_all
qed

lemma sector_page_aligned: "(a :: nat) mod 4096 = 0 \<Longrightarrow> a mod 256 = 0"
proof -
  have "a mod 4096 mod 256 = a mod 256" by (rule mod_mod_cancel) simp
  then show "a mod 4096 = 0 \<Longrightarrow> a mod 256 = 0" by simp
qed

lemma unat_minus_u32:
  fixes x :: u32
  assumes "x \<noteq> 0"
  shows "unat (- x) = 4294967296 - unat x"
proof -
  have x: "0 < unat x" using assms by (simp add: unat_gt_0)
  have "unat (- 1 :: u32) = 4294967295" by (simp add: unsigned_minus_1_eq_mask mask_eq_exp_minus_1)
  then have "unat (- 1 - x) = 4294967295 - unat x"
    by (subst unat_sub_le) simp_all
  moreover have "- x = (- 1 - x) + 1" by simp
  ultimately show ?thesis using x unat_add_small [of "- 1 - x" 1] unat_u32_less [of x] by simp
qed

section \<open>Interface: operations that keep an invariant\<close>

text \<open>
  A component is a state and a family of operations on it. Where every operation that returns
  keeps an invariant, a run of any sequence of operations keeps it.
\<close>

fun run_ops :: "('op \<Rightarrow> 's \<Rightarrow> ('r \<times> 's) outcome) \<Rightarrow> 'op list \<Rightarrow> 's \<Rightarrow> ('r list \<times> 's) outcome" where
  "run_ops step [] s = Inr ([], s)"
| "run_ops step (p # ps) s =
     rbind (step p s) (\<lambda>(r, s'). rbind (run_ops step ps s') (\<lambda>(rs, t). Inr (r # rs, t)))"

locale kept_invariant =
  fixes step :: "'op \<Rightarrow> 's \<Rightarrow> ('r \<times> 's) outcome"
    and inv :: "'s \<Rightarrow> bool"
  assumes step_inv: "inv s \<Longrightarrow> step p s = Inr (r, s') \<Longrightarrow> inv s'"
begin

lemma run_inv: "inv s \<Longrightarrow> run_ops step ps s = Inr (rs, t) \<Longrightarrow> inv t"
proof (induction ps arbitrary: s rs)
  case (Cons p ps)
  then show ?case
    by (auto simp: rbind_Inr_iff split: prod.splits dest: step_inv)
qed simp

end

text \<open>A component whose operations return from every state of the invariant is never stuck.\<close>

locale live_invariant = kept_invariant +
  assumes step_returns: "inv s \<Longrightarrow> \<exists>r s'. step p s = Inr (r, s')"
begin

lemma run_returns: "inv s \<Longrightarrow> \<exists>rs t. run_ops step ps s = Inr (rs, t) \<and> inv t \<and> length rs = length ps"
proof (induction ps arbitrary: s)
  case (Cons p ps)
  obtain r s' where p: "step p s = Inr (r, s')"
    using step_returns [OF Cons.prems] by blast
  have "inv s'" using step_inv [OF Cons.prems p] .
  then show ?case using Cons.IH [of s'] p by force
qed simp

end

text \<open>Operations that return and keep the invariant when they are asked for something they allow.\<close>

locale guarded_invariant =
  fixes step :: "'op \<Rightarrow> 's \<Rightarrow> ('r \<times> 's) outcome"
    and inv :: "'s \<Rightarrow> bool"
    and allowed :: "'op \<Rightarrow> bool"
  assumes step_safe: "inv s \<Longrightarrow> allowed p \<Longrightarrow> reaches inv (step p s)"
begin

lemma run_safe: "inv s \<Longrightarrow> list_all allowed ps \<Longrightarrow> \<exists>rs t. run_ops step ps s = Inr (rs, t) \<and> inv t"
proof (induction ps arbitrary: s)
  case (Cons p ps)
  then obtain r s' where p: "step p s = Inr (r, s')" "inv s'" using step_safe [of s p] by (auto simp: reaches_def)
  then show ?case using Cons.IH [of s'] Cons.prems by force
qed simp

end

section \<open>Interface: a word of flags\<close>

text \<open>
  A flag is named, set or cleared, and tested. The laws are stated once; the communication word of
  the flash table and the slot map of the face database interpret them.
\<close>

locale flag_word =
  fixes get :: "'m \<Rightarrow> 'w \<Rightarrow> bool"
    and put :: "'m \<Rightarrow> bool \<Rightarrow> 'w \<Rightarrow> 'w"
    and single :: "'m \<Rightarrow> bool"
    and apart :: "'m \<Rightarrow> 'm \<Rightarrow> bool"
  assumes get_put_same: "single m \<Longrightarrow> get m (put m v w) = v"
    and get_put_apart: "apart m n \<Longrightarrow> get n (put m v w) = get n w"
    and put_put_same: "put m v (put m u w) = put m v w"
begin

lemma put_idem: "put m v (put m v w) = put m v w"
  by (rule put_put_same)

lemma get_put_put:
  "single m \<Longrightarrow> apart n m \<Longrightarrow> get m (put n u (put m v w)) = v"
  by (simp add: get_put_apart get_put_same)

end

section \<open>The operating system\<close>

text \<open>
  What the code asks of the operating system beside its mutexes, as oracles indexed by the number of
  calls made before: the block \<open>pvPortMalloc\<close> returns for a size, and whether a semaphore or timer
  can be created.
\<close>

record os_if =
  heap_block :: "nat \<Rightarrow> nat \<Rightarrow> u8 list option"
  sem_ok :: "nat \<Rightarrow> bool"

section \<open>Interface: operations that implement a specification\<close>

locale implements =
  fixes step :: "'op \<Rightarrow> 's \<Rightarrow> ('r \<times> 's) outcome"
    and inv :: "'s \<Rightarrow> bool"
    and allowed :: "'op \<Rightarrow> bool"
    and abs :: "'s \<Rightarrow> 'a"
    and spec :: "'op \<Rightarrow> 'a \<Rightarrow> 'a"
  assumes simulates: "inv s \<Longrightarrow> allowed p \<Longrightarrow> \<exists>r s'. step p s = Inr (r, s') \<and> inv s' \<and> abs s' = spec p (abs s)"
begin

lemma run_implements:
  "inv s \<Longrightarrow> list_all allowed ps \<Longrightarrow>
    \<exists>rs t. run_ops step ps s = Inr (rs, t) \<and> inv t \<and> abs t = fold spec ps (abs s)"
proof (induction ps arbitrary: s)
  case (Cons p ps)
  then obtain r s' where p: "step p s = Inr (r, s')" "inv s'" "abs s' = spec p (abs s)"
    using simulates [of s p] by auto
  then show ?case using Cons.IH [of s'] Cons.prems by force
qed simp

end

end
