(* ===== verification/Flexspi_Nor.thy ===== *)
theory Flexspi_Nor
  imports Prelude
begin

text \<open>
  The NOR flash commands of \<open>source/flash_config/flexspi_nor_flash_ops.c\<close>: write enable, busy
  polling, sector and block erase, page program, vendor id and start-up, over the FLEXSPI driver of
  the vendor SDK. The driver's calls and the memory-mapped view of the chip are the record
  \<open>flexspi_if\<close>, an argument of every definition; its documented behaviour is the locale
  \<open>spi_device\<close> (and \<open>spi_live\<close> for a chip that answers and becomes ready). The
  interface the rest of the flash code relies on is the locale \<open>page_store\<close>, which these
  commands provide.
\<close>

section \<open>Geometry of the chip and status codes\<close>

definition FLASH_SIZE :: nat where [simp]: "FLASH_SIZE = 0x1000000"
definition FLASH_PAGE_SIZE :: u32 where [simp]: "FLASH_PAGE_SIZE = 256"
definition FLASH_SECTOR_SIZE :: u32 where [simp]: "FLASH_SECTOR_SIZE = 0x1000"
definition FLASH_BLOCK_SIZE :: u32 where [simp]: "FLASH_BLOCK_SIZE = 0x10000"
definition FLASH_VENDOR_ID :: u8 where [simp]: "FLASH_VENDOR_ID = 0xEF"
definition FLASH_QUAD_ENABLE :: u32 where [simp]: "FLASH_QUAD_ENABLE = 0x2"
definition FLASH_BUSY_STATUS_POL :: bool where [simp]: "FLASH_BUSY_STATUS_POL = True"
definition FLASH_BUSY_STATUS_OFFSET :: nat where [simp]: "FLASH_BUSY_STATUS_OFFSET = 0"

definition FLEXSPI_AMBA_BASE :: u32 where "FLEXSPI_AMBA_BASE = 0x60000000"
definition kStatus_Success :: int where [simp]: "kStatus_Success = 0"
definition kStatus_Fail :: int where [simp]: "kStatus_Fail = 1"

definition NOR_CMD_LUT_SEQ_IDX_WRITEENABLE :: nat where
  [simp]: "NOR_CMD_LUT_SEQ_IDX_WRITEENABLE = 2"
definition NOR_CMD_LUT_SEQ_IDX_PAGEPROGRAM_QUAD :: nat where
  [simp]: "NOR_CMD_LUT_SEQ_IDX_PAGEPROGRAM_QUAD = 3"
definition NOR_CMD_LUT_SEQ_IDX_READID :: nat where
  [simp]: "NOR_CMD_LUT_SEQ_IDX_READID = 5"
definition NOR_CMD_LUT_SEQ_IDX_READSTATUSREG :: nat where
  [simp]: "NOR_CMD_LUT_SEQ_IDX_READSTATUSREG = 6"
definition NOR_CMD_LUT_SEQ_IDX_WRITESTATUSREG :: nat where
  [simp]: "NOR_CMD_LUT_SEQ_IDX_WRITESTATUSREG = 9"
definition NOR_CMD_LUT_SEQ_IDX_ERASESECTOR :: nat where
  [simp]: "NOR_CMD_LUT_SEQ_IDX_ERASESECTOR = 10"
definition NOR_CMD_LUT_SEQ_IDX_ERASEBLOCK :: nat where
  [simp]: "NOR_CMD_LUT_SEQ_IDX_ERASEBLOCK = 14"

section \<open>The driver of the SDK, a parameter\<close>

datatype flexspi_command_type = kFLEXSPI_Command | kFLEXSPI_Read | kFLEXSPI_Write

record flexspi_transfer_t =
  deviceAddress :: u32
  cmdType :: flexspi_command_type
  seqIndex :: nat
  xfer_data :: "u8 list"
  dataSize :: nat

text \<open>
  \<open>fx_transfer\<close> is \<open>FLEXSPI_TransferBlocking\<close>: the status, the content of the data buffer
  afterwards, and the new state of controller and chip. \<open>fx_setup\<close> is the start-up
  (\<open>FLEXSPI_Init\<close>, \<open>FLEXSPI_SetFlashConfig\<close>, \<open>FLEXSPI_UpdateLUT\<close>),
  \<open>fx_reset\<close> is \<open>FLEXSPI_SoftwareReset\<close>, and \<open>fx_byte\<close> the byte the processor
  reads at an address of the memory-mapped region.
\<close>

record 'd flexspi_if =
  fx_transfer :: "flexspi_transfer_t \<Rightarrow> 'd \<Rightarrow> int \<times> u8 list \<times> 'd"
  fx_reset :: "'d \<Rightarrow> 'd"
  fx_setup :: "'d \<Rightarrow> 'd"
  fx_byte :: "'d \<Rightarrow> nat \<Rightarrow> u8"

text \<open>The content of the flash, by offset, as the processor sees it.\<close>

definition flash :: "'d flexspi_if \<Rightarrow> 'd \<Rightarrow> nat \<Rightarrow> u8" where
  "flash X d n = (if n < FLASH_SIZE then fx_byte X d (unat FLEXSPI_AMBA_BASE + n) else 0)"

section \<open>Commands\<close>

definition command_xfer :: "u32 \<Rightarrow> nat \<Rightarrow> flexspi_transfer_t" where
  "command_xfer a seq = \<lparr>deviceAddress = a, cmdType = kFLEXSPI_Command, seqIndex = seq,
     xfer_data = [], dataSize = 0\<rparr>"

definition read_xfer :: "nat \<Rightarrow> flexspi_transfer_t" where
  "read_xfer seq = \<lparr>deviceAddress = 0, cmdType = kFLEXSPI_Read, seqIndex = seq,
     xfer_data = [], dataSize = 1\<rparr>"

definition write_xfer :: "u32 \<Rightarrow> nat \<Rightarrow> u8 list \<Rightarrow> nat \<Rightarrow> flexspi_transfer_t" where
  "write_xfer a seq bs k = \<lparr>deviceAddress = a, cmdType = kFLEXSPI_Write, seqIndex = seq,
     xfer_data = bs, dataSize = k\<rparr>"

definition flexspi_nor_write_enable :: "'d flexspi_if \<Rightarrow> u32 \<Rightarrow> 'd \<Rightarrow> int \<times> 'd" where
  "flexspi_nor_write_enable X baseAddr d =
    (case fx_transfer X (command_xfer baseAddr NOR_CMD_LUT_SEQ_IDX_WRITEENABLE) d of
       (status, _, d') \<Rightarrow> (status, d'))"

text \<open>The byte a one-byte read leaves in the word it is stored to; only this byte is examined.\<close>

definition first_byte :: "u8 list \<Rightarrow> u8" where
  "first_byte bs = (case bs of b # _ \<Rightarrow> b | [] \<Rightarrow> 0)"

definition status_busy :: "u8 \<Rightarrow> bool" where
  "status_busy b = (if FLASH_BUSY_STATUS_POL
     then b AND push_bit FLASH_BUSY_STATUS_OFFSET 1 \<noteq> 0
     else \<not> (b AND push_bit FLASH_BUSY_STATUS_OFFSET 1 \<noteq> 0))"

partial_function (option) nor_busy_loop ::
    "'d flexspi_if \<Rightarrow> 'd \<Rightarrow> (int \<times> 'd) outcome option" where
  "nor_busy_loop X d =
    (case fx_transfer X (read_xfer NOR_CMD_LUT_SEQ_IDX_READSTATUSREG) d of
       (status, bs, d') \<Rightarrow>
         if status \<noteq> kStatus_Success then Some (Inr (status, d'))
         else if status_busy (first_byte bs) then nor_busy_loop X d'
         else Some (Inr (status, d')))"

definition flexspi_nor_wait_bus_busy :: "'d flexspi_if \<Rightarrow> 'd \<Rightarrow> (int \<times> 'd) outcome" where
  "flexspi_nor_wait_bus_busy X d = returns (nor_busy_loop X d)"

definition flexspi_nor_enable_quad_mode :: "'d flexspi_if \<Rightarrow> 'd \<Rightarrow> (int \<times> 'd) outcome" where
  "flexspi_nor_enable_quad_mode X d =
    (case flexspi_nor_write_enable X 0 d of (status, d1) \<Rightarrow>
     if status \<noteq> kStatus_Success then Inr (status, d1) else
     case fx_transfer X (write_xfer 0 NOR_CMD_LUT_SEQ_IDX_WRITESTATUSREG
                           (le32 FLASH_QUAD_ENABLE) 1) d1 of (status, _, d2) \<Rightarrow>
     if status \<noteq> kStatus_Success then Inr (status, d2) else
     rbind (flexspi_nor_wait_bus_busy X d2) (\<lambda>(status, d3).
     Inr (status, fx_reset X d3)))"

definition flexspi_nor_flash_erase_sector ::
    "'d flexspi_if \<Rightarrow> u32 \<Rightarrow> 'd \<Rightarrow> (int \<times> 'd) outcome" where
  "flexspi_nor_flash_erase_sector X address d =
    (case flexspi_nor_write_enable X address d of (status, d1) \<Rightarrow>
     if status \<noteq> kStatus_Success then Inr (status, d1) else
     case fx_transfer X (command_xfer address NOR_CMD_LUT_SEQ_IDX_ERASESECTOR) d1 of
       (status, _, d2) \<Rightarrow>
     if status \<noteq> kStatus_Success then Inr (status, d2) else
     rbind (flexspi_nor_wait_bus_busy X d2) (\<lambda>(status, d3).
     Inr (status, fx_reset X d3)))"

definition flexspi_nor_flash_erase_block ::
    "'d flexspi_if \<Rightarrow> u32 \<Rightarrow> 'd \<Rightarrow> (int \<times> 'd) outcome" where
  "flexspi_nor_flash_erase_block X address d =
    (case flexspi_nor_write_enable X address d of (status, d1) \<Rightarrow>
     if status \<noteq> kStatus_Success then Inr (status, d1) else
     case fx_transfer X (command_xfer address NOR_CMD_LUT_SEQ_IDX_ERASEBLOCK) d1 of
       (status, _, d2) \<Rightarrow>
     if status \<noteq> kStatus_Success then Inr (status, d2) else
     flexspi_nor_wait_bus_busy X d2)"

text \<open>The source is a page buffer: the transfer reads \<open>FLASH_PAGE_SIZE\<close> bytes from it.\<close>

definition flexspi_nor_flash_page_program ::
    "'d flexspi_if \<Rightarrow> u32 \<Rightarrow> u8 list \<Rightarrow> 'd \<Rightarrow> (int \<times> 'd) outcome" where
  "flexspi_nor_flash_page_program X dstAddr src d =
    (case flexspi_nor_write_enable X dstAddr d of (status, d1) \<Rightarrow>
     if status \<noteq> kStatus_Success then Inr (status, d1) else
     if length src < unat FLASH_PAGE_SIZE then Inl MemFault else
     case fx_transfer X (write_xfer dstAddr NOR_CMD_LUT_SEQ_IDX_PAGEPROGRAM_QUAD
            (take (unat FLASH_PAGE_SIZE) src) (unat FLASH_PAGE_SIZE)) d1 of (status, _, d2) \<Rightarrow>
     if status \<noteq> kStatus_Success then Inr (status, d2) else
     rbind (flexspi_nor_wait_bus_busy X d2) (\<lambda>(status, d3).
     Inr (status, fx_reset X d3)))"

definition flexspi_nor_get_vendor_id :: "'d flexspi_if \<Rightarrow> 'd \<Rightarrow> int \<times> u8 \<times> 'd" where
  "flexspi_nor_get_vendor_id X d =
    (case fx_transfer X (read_xfer NOR_CMD_LUT_SEQ_IDX_READID) d of (status, bs, d1) \<Rightarrow>
       (status, first_byte bs, fx_reset X d1))"

definition flexspi_nor_flash_init :: "'d flexspi_if \<Rightarrow> 'd \<Rightarrow> (int \<times> 'd) outcome" where
  "flexspi_nor_flash_init X d =
    rbind (flexspi_nor_enable_quad_mode X (fx_setup X d)) (\<lambda>(status, d').
    Inr (status, fx_reset X d'))"

lemmas nor_defs = flexspi_nor_flash_erase_sector_def flexspi_nor_flash_erase_block_def
  flexspi_nor_flash_page_program_def flexspi_nor_enable_quad_mode_def flexspi_nor_flash_init_def

lemma nor_busy_loop_keeps:
  assumes "nor_busy_loop X d = Some r"
    and "\<And>d st bs d'. fx_transfer X (read_xfer NOR_CMD_LUT_SEQ_IDX_READSTATUSREG) d = (st, bs, d') \<Longrightarrow>
      P d \<Longrightarrow> P d'"
    and "P d"
  shows "\<exists>st d'. r = Inr (st, d') \<and> P d'"
proof -
  have "(\<forall>d st bs d'. fx_transfer X (read_xfer NOR_CMD_LUT_SEQ_IDX_READSTATUSREG) d = (st, bs, d') \<longrightarrow>
      P d \<longrightarrow> P d') \<longrightarrow> P d \<longrightarrow> (\<exists>st d'. r = Inr (st, d') \<and> P d')"
    by (rule nor_busy_loop.raw_induct [OF _ assms(1)])
      (fastforce split: prod.splits if_splits)
  then show ?thesis using assms(2,3) by blast
qed

section \<open>Effects on the content\<close>

text \<open>An erase sets the aligned unit that holds the address; a program clears bits.\<close>

definition wipe :: "nat \<Rightarrow> nat \<Rightarrow> (nat \<Rightarrow> u8) \<Rightarrow> nat \<Rightarrow> u8" where
  "wipe unit a m = (\<lambda>n. if n div unit = a div unit then 0xFF else m n)"

definition burn :: "nat \<Rightarrow> u8 list \<Rightarrow> (nat \<Rightarrow> u8) \<Rightarrow> nat \<Rightarrow> u8" where
  "burn a bs m = (\<lambda>n. if a \<le> n \<and> n < a + length bs then m n AND bs ! (n - a) else m n)"

definition peek :: "(nat \<Rightarrow> u8) \<Rightarrow> nat \<Rightarrow> nat \<Rightarrow> u8 list" where
  "peek m a k = map (\<lambda>i. m (a + i)) [0..<k]"

lemma length_peek [simp]: "length (peek m a k) = k"
  by (simp add: peek_def)

lemma nth_peek [simp]: "i < k \<Longrightarrow> peek m a k ! i = m (a + i)"
  by (simp add: peek_def)

lemma burn_append: "burn (a + length bs) cs (burn a bs m) = burn a (bs @ cs) m"
  by (rule ext) (auto simp: burn_def nth_append)

lemma burn_Nil [simp]: "burn a [] m = m"
  by (rule ext) (auto simp: burn_def)

lemma burn_outside: "n < a \<or> a + length bs \<le> n \<Longrightarrow> burn a bs m n = m n"
  by (auto simp: burn_def)

lemma peek_burn_erased:
  assumes "\<And>i. i < length bs \<Longrightarrow> m (a + i) = 0xFF" and "k \<le> length bs"
  shows "peek (burn a bs m) a k = take k bs"
proof (rule nth_equalityI)
  fix i assume "i < length (peek (burn a bs m) a k)"
  then have i: "i < k" by simp
  have ff: "(0xFF :: u8) = - 1" by simp
  show "peek (burn a bs m) a k ! i = take k bs ! i"
    using assms(1) [of i] assms(2) i by (simp add: burn_def ff)
qed (use assms in simp)

lemma peek_cong: "(\<And>i. i < k \<Longrightarrow> m (a + i) = m' (a + i)) \<Longrightarrow> peek m a k = peek m' a k"
  by (simp add: peek_def)

lemma wipe_inside: "n div u = a div u \<Longrightarrow> wipe u a m n = 0xFF"
  by (simp add: wipe_def)

lemma wipe_outside: "n div u \<noteq> a div u \<Longrightarrow> wipe u a m n = m n"
  by (simp add: wipe_def)

section \<open>Interface: a store of pages in erasable sectors\<close>

text \<open>
  What every client of the flash relies on: a successful erase sets one sector, a successful
  program of an aligned page clears bits in that page, and whatever the status, nothing outside the
  sector or the page changes.
\<close>

locale page_store =
  fixes erase :: "u32 \<Rightarrow> 's \<Rightarrow> (int \<times> 's) outcome"
    and program :: "u32 \<Rightarrow> u8 list \<Rightarrow> 's \<Rightarrow> (int \<times> 's) outcome"
    and content :: "'s \<Rightarrow> nat \<Rightarrow> u8"
  assumes erase_ok: "erase a s = Inr (0, s') \<Longrightarrow> unat a < FLASH_SIZE \<Longrightarrow>
      content s' = wipe 0x1000 (unat a) (content s)"
    and erase_frame: "erase a s = Inr (st, s') \<Longrightarrow> unat a < FLASH_SIZE \<Longrightarrow>
      n div 0x1000 \<noteq> unat a div 0x1000 \<Longrightarrow> content s' n = content s n"
    and program_ok: "program a pg s = Inr (0, s') \<Longrightarrow> unat a < FLASH_SIZE \<Longrightarrow> unat a mod 256 = 0 \<Longrightarrow>
      content s' = burn (unat a) (take 256 pg) (content s)"
    and program_frame: "program a pg s = Inr (st, s') \<Longrightarrow> unat a < FLASH_SIZE \<Longrightarrow>
      unat a mod 256 = 0 \<Longrightarrow> n div 256 \<noteq> unat a div 256 \<Longrightarrow> content s' n = content s n"
    and program_length: "program a pg s = Inr (0, s') \<Longrightarrow> 256 \<le> length pg"

text \<open>Programming consecutive pages, the loop the clients write.\<close>

fun program_run :: "(u32 \<Rightarrow> u8 list \<Rightarrow> 's \<Rightarrow> (int \<times> 's) outcome) \<Rightarrow>
    u32 \<Rightarrow> u8 list list \<Rightarrow> 's \<Rightarrow> (int \<times> 's) outcome" where
  "program_run prog a [] s = Inr (0, s)"
| "program_run prog a (pg # pgs) s = rbind (prog a pg s) (\<lambda>(st, s').
     if st \<noteq> kStatus_Success then Inr (st, s') else program_run prog (a + FLASH_PAGE_SIZE) pgs s')"

lemma program_run_total:
  assumes "\<And>a pg s. length pg = 256 \<Longrightarrow> \<exists>s'. prog a pg s = Inr (0, s')"
    and "\<forall>pg\<in>set pgs. length pg = 256"
  shows "\<exists>s'. program_run prog a pgs s = Inr (0, s')"
  using assms(2)
proof (induction pgs arbitrary: a s)
  case (Cons pg pgs)
  then obtain s1 where "prog a pg s = Inr (0, s1)" using assms(1) by fastforce
  then show ?case using Cons by simp
qed simp

context page_store begin

lemma program_run_ok:
  assumes "program_run program a pgs s = Inr (0, s')"
    and "unat a + 256 * length pgs \<le> FLASH_SIZE" and "unat a mod 256 = 0"
    and "\<forall>pg\<in>set pgs. length pg = 256"
  shows "content s' = burn (unat a) (concat pgs) (content s)"
  using assms
proof (induction pgs arbitrary: a s)
  case (Cons pg pgs)
  then obtain s1 where p: "program a pg s = Inr (0, s1)"
    and r: "program_run program (a + 256) pgs s1 = Inr (0, s')"
    by (auto simp: rbind_Inr_iff split: if_splits)
  have c1: "content s1 = burn (unat a) pg (content s)"
    using program_ok [OF p] Cons.prems by simp
  show ?case
  proof (cases pgs)
    case Nil
    then show ?thesis using r c1 by simp
  next
    case (Cons pg' pgs')
    have ua: "unat (a + 256) = unat a + 256"
      using unat_add_small [of a 256] \<open>unat a + 256 * length (pg # pgs) \<le> FLASH_SIZE\<close> by simp
    have "content s' = burn (unat (a + 256)) (concat pgs) (content s1)"
      using Cons.IH [OF r] \<open>unat a + 256 * length (pg # pgs) \<le> FLASH_SIZE\<close> \<open>unat a mod 256 = 0\<close>
        \<open>\<forall>pg\<in>set (pg # pgs). length pg = 256\<close> ua by simp
    then show ?thesis
      using burn_append [of "unat a" pg "concat pgs" "content s"] c1 ua
        \<open>\<forall>pg\<in>set (pg # pgs). length pg = 256\<close> by simp
  qed
qed simp

lemma program_run_frame:
  assumes "program_run program a pgs s = Inr (st, s')"
    and "unat a + 256 * length pgs \<le> FLASH_SIZE" and "unat a mod 256 = 0"
    and "n < unat a \<or> unat a + 256 * length pgs \<le> n"
  shows "content s' n = content s n"
  using assms
proof (induction pgs arbitrary: a s)
  case (Cons pg pgs)
  then obtain st1 s1 where p: "program a pg s = Inr (st1, s1)"
    and r: "st1 = 0 \<longrightarrow> program_run program (a + 256) pgs s1 = Inr (st, s')"
    and e: "st1 \<noteq> 0 \<longrightarrow> s1 = s'"
    by (auto simp: rbind_Inr_iff split: if_splits)
  have "n div 256 \<noteq> unat a div 256"
    using Cons.prems(3,4) by auto
  then have n1: "content s1 n = content s n"
    using program_frame [OF p] Cons.prems by simp
  show ?case
  proof (cases "st1 = 0 \<and> pgs \<noteq> []")
    case True
    then have ua: "unat (a + 256) = unat a + 256"
      using unat_add_small [of a 256] Cons.prems(2) by (cases pgs) auto
    show ?thesis
      using Cons.IH [of "a + 256" s1] True r Cons.prems(2,3,4) ua n1 by auto
  next
    case False
    then show ?thesis using e r n1 by (cases pgs) auto
  qed
qed simp

end

section \<open>Interface: the SDK driver and the chip behind it\<close>

text \<open>
  The documented behaviour of the chip under the driver. The write-enable latch is a ghost view of
  the state: a program or erase takes effect only after a write enable. Commands that address a
  sector, block or page leave the rest of the flash alone even when the transfer reports an error.
\<close>

locale spi_device =
  fixes X :: "'d flexspi_if" and wel :: "'d \<Rightarrow> bool"
  assumes reset_flash: "flash X (fx_reset X d) = flash X d"
    and setup_flash: "flash X (fx_setup X d) = flash X d"
    and enable_wel: "fx_transfer X (command_xfer a NOR_CMD_LUT_SEQ_IDX_WRITEENABLE) d = (0, bs, d') \<Longrightarrow> wel d'"
    and quiet_flash: "fx_transfer X x d = (st, bs, d') \<Longrightarrow>
      seqIndex x \<notin> {NOR_CMD_LUT_SEQ_IDX_PAGEPROGRAM_QUAD, NOR_CMD_LUT_SEQ_IDX_ERASESECTOR,
        NOR_CMD_LUT_SEQ_IDX_ERASEBLOCK} \<Longrightarrow> flash X d' = flash X d"
    and sector_ok: "fx_transfer X (command_xfer a NOR_CMD_LUT_SEQ_IDX_ERASESECTOR) d = (0, bs, d') \<Longrightarrow>
      wel d \<Longrightarrow> unat a < FLASH_SIZE \<Longrightarrow> flash X d' = wipe 0x1000 (unat a) (flash X d)"
    and sector_frame: "fx_transfer X (command_xfer a NOR_CMD_LUT_SEQ_IDX_ERASESECTOR) d = (st, bs, d') \<Longrightarrow>
      unat a < FLASH_SIZE \<Longrightarrow> n div 0x1000 \<noteq> unat a div 0x1000 \<Longrightarrow> flash X d' n = flash X d n"
    and block_ok: "fx_transfer X (command_xfer a NOR_CMD_LUT_SEQ_IDX_ERASEBLOCK) d = (0, bs, d') \<Longrightarrow>
      wel d \<Longrightarrow> unat a < FLASH_SIZE \<Longrightarrow> flash X d' = wipe 0x10000 (unat a) (flash X d)"
    and block_frame: "fx_transfer X (command_xfer a NOR_CMD_LUT_SEQ_IDX_ERASEBLOCK) d = (st, bs, d') \<Longrightarrow>
      unat a < FLASH_SIZE \<Longrightarrow> n div 0x10000 \<noteq> unat a div 0x10000 \<Longrightarrow> flash X d' n = flash X d n"
    and page_ok: "fx_transfer X (write_xfer a NOR_CMD_LUT_SEQ_IDX_PAGEPROGRAM_QUAD pg 256) d = (0, bs, d') \<Longrightarrow>
      wel d \<Longrightarrow> unat a < FLASH_SIZE \<Longrightarrow> unat a mod 256 = 0 \<Longrightarrow> length pg = 256 \<Longrightarrow>
      flash X d' = burn (unat a) pg (flash X d)"
    and page_frame: "fx_transfer X (write_xfer a NOR_CMD_LUT_SEQ_IDX_PAGEPROGRAM_QUAD pg 256) d = (st, bs, d') \<Longrightarrow>
      unat a < FLASH_SIZE \<Longrightarrow> unat a mod 256 = 0 \<Longrightarrow> length pg = 256 \<Longrightarrow>
      n div 256 \<noteq> unat a div 256 \<Longrightarrow> flash X d' n = flash X d n"
begin

lemma write_enable_flash:
  "flexspi_nor_write_enable X a d = (st, d') \<Longrightarrow> flash X d' = flash X d"
  by (auto simp: flexspi_nor_write_enable_def command_xfer_def split: prod.splits
      dest!: quiet_flash)

lemma write_enable_wel: "flexspi_nor_write_enable X a d = (0, d') \<Longrightarrow> wel d'"
  by (auto simp: flexspi_nor_write_enable_def split: prod.splits dest: enable_wel [simplified])

lemma busy_flash:
  assumes "flexspi_nor_wait_bus_busy X d = Inr (st, d')"
  shows "flash X d' = flash X d"
proof -
  obtain r where r: "nor_busy_loop X d = Some r" and "r = Inr (st, d')"
    using assms by (auto simp: flexspi_nor_wait_bus_busy_def returns_def split: option.splits)
  moreover have "\<exists>st d'. r = Inr (st, d') \<and> flash X d' = flash X d"
    by (rule nor_busy_loop_keeps [OF r, where P = "\<lambda>e. flash X e = flash X d"])
      (auto simp: read_xfer_def dest!: quiet_flash)
  ultimately show ?thesis by auto
qed

lemma erase_sector_ok:
  assumes "flexspi_nor_flash_erase_sector X a d = Inr (0, d')" and "unat a < FLASH_SIZE"
  shows "flash X d' = wipe 0x1000 (unat a) (flash X d)"
proof -
  obtain d1 bs d2 where w: "flexspi_nor_write_enable X a d = (0, d1)"
    and t: "fx_transfer X (command_xfer a NOR_CMD_LUT_SEQ_IDX_ERASESECTOR) d1 = (0, bs, d2)"
    and f: "flash X d' = flash X d2"
    using assms(1) by (auto simp: flexspi_nor_flash_erase_sector_def rbind_Inr_iff reset_flash
        split: prod.splits if_splits dest!: busy_flash)
  show ?thesis
    using sector_ok [OF t write_enable_wel [OF w] assms(2)] write_enable_flash [OF w] f by simp
qed

lemma erase_sector_frame:
  assumes "flexspi_nor_flash_erase_sector X a d = Inr (st, d')" and "unat a < FLASH_SIZE"
    and "n div 0x1000 \<noteq> unat a div 0x1000"
  shows "flash X d' n = flash X d n"
  using assms by (auto simp: flexspi_nor_flash_erase_sector_def rbind_Inr_iff reset_flash
      split: prod.splits if_splits dest!: busy_flash write_enable_flash dest: sector_frame [simplified])

lemma erase_block_ok:
  assumes "flexspi_nor_flash_erase_block X a d = Inr (0, d')" and "unat a < FLASH_SIZE"
  shows "flash X d' = wipe 0x10000 (unat a) (flash X d)"
proof -
  obtain d1 bs d2 where w: "flexspi_nor_write_enable X a d = (0, d1)"
    and t: "fx_transfer X (command_xfer a NOR_CMD_LUT_SEQ_IDX_ERASEBLOCK) d1 = (0, bs, d2)"
    and f: "flash X d' = flash X d2"
    using assms(1) by (auto simp: flexspi_nor_flash_erase_block_def
        split: prod.splits if_splits dest!: busy_flash)
  show ?thesis
    using block_ok [OF t write_enable_wel [OF w] assms(2)] write_enable_flash [OF w] f by simp
qed

lemma erase_block_frame:
  assumes "flexspi_nor_flash_erase_block X a d = Inr (st, d')" and "unat a < FLASH_SIZE"
    and "n div 0x10000 \<noteq> unat a div 0x10000"
  shows "flash X d' n = flash X d n"
  using assms by (auto simp: flexspi_nor_flash_erase_block_def
      split: prod.splits if_splits dest!: busy_flash write_enable_flash dest: block_frame [simplified])

lemma page_program_ok:
  assumes "flexspi_nor_flash_page_program X a pg d = Inr (0, d')" and "unat a < FLASH_SIZE"
    and "unat a mod 256 = 0"
  shows "flash X d' = burn (unat a) (take 256 pg) (flash X d)"
proof -
  obtain d1 bs d2 where w: "flexspi_nor_write_enable X a d = (0, d1)"
    and l: "256 \<le> length pg"
    and t: "fx_transfer X (write_xfer a NOR_CMD_LUT_SEQ_IDX_PAGEPROGRAM_QUAD (take 256 pg) 256) d1
        = (0, bs, d2)"
    and f: "flash X d' = flash X d2"
    using assms(1) by (auto simp: flexspi_nor_flash_page_program_def rbind_Inr_iff reset_flash
        split: prod.splits if_splits dest!: busy_flash)
  show ?thesis
    using page_ok [OF t write_enable_wel [OF w] assms(2,3)] write_enable_flash [OF w] f l by simp
qed

lemma page_program_length:
  "flexspi_nor_flash_page_program X a pg d = Inr (0, d') \<Longrightarrow> 256 \<le> length pg"
  by (auto simp: flexspi_nor_flash_page_program_def not_less split: prod.splits if_splits)

lemma page_program_frame:
  assumes "flexspi_nor_flash_page_program X a pg d = Inr (st, d')" and "unat a < FLASH_SIZE"
    and "unat a mod 256 = 0" and "n div 256 \<noteq> unat a div 256"
  shows "flash X d' n = flash X d n"
  using assms by (auto simp: flexspi_nor_flash_page_program_def rbind_Inr_iff reset_flash
      split: prod.splits if_splits dest!: busy_flash write_enable_flash dest: page_frame [simplified])

lemma vendor_id_flash:
  "flexspi_nor_get_vendor_id X d = (st, v, d') \<Longrightarrow> flash X d' = flash X d"
  by (auto simp: flexspi_nor_get_vendor_id_def read_xfer_def reset_flash split: prod.splits
      dest!: quiet_flash)

lemma quad_mode_flash:
  "flexspi_nor_enable_quad_mode X d = Inr (st, d') \<Longrightarrow> flash X d' = flash X d"
  by (auto simp: flexspi_nor_enable_quad_mode_def write_xfer_def rbind_Inr_iff reset_flash
      split: prod.splits if_splits dest!: busy_flash write_enable_flash quiet_flash)

lemma init_flash:
  "flexspi_nor_flash_init X d = Inr (st, d') \<Longrightarrow> flash X d' = flash X d"
  by (auto simp: flexspi_nor_flash_init_def rbind_Inr_iff reset_flash setup_flash
      dest!: quad_mode_flash)

end

sublocale spi_device \<subseteq> nor: page_store "flexspi_nor_flash_erase_sector X"
    "flexspi_nor_flash_page_program X" "flash X"
  by unfold_locales (fact erase_sector_ok erase_sector_frame page_program_ok page_program_frame
      page_program_length)+

text \<open>
  A chip that answers: every transfer succeeds, and the busy bit goes away after finitely many
  polls. Then no command waits for ever.
\<close>

locale spi_live = spi_device X wel for X :: "'d flexspi_if" and wel +
  fixes polls :: "'d \<Rightarrow> nat"
  assumes transfer_ok: "fst (fx_transfer X x d) = 0"
    and poll_bit: "fx_transfer X (read_xfer NOR_CMD_LUT_SEQ_IDX_READSTATUSREG) d = (st, bs, d') \<Longrightarrow>
      status_busy (first_byte bs) = (0 < polls d)"
    and poll_step: "fx_transfer X (read_xfer NOR_CMD_LUT_SEQ_IDX_READSTATUSREG) d = (st, bs, d') \<Longrightarrow>
      polls d' = polls d - 1"
begin

lemma busy_loop_returns: "\<exists>d'. nor_busy_loop X d = Some (Inr (0, d'))"
proof (induction "polls d" arbitrary: d rule: less_induct)
  case less
  obtain bs d' where t: "fx_transfer X (read_xfer NOR_CMD_LUT_SEQ_IDX_READSTATUSREG) d = (0, bs, d')"
    using transfer_ok [of "read_xfer NOR_CMD_LUT_SEQ_IDX_READSTATUSREG" d]
    by (cases "fx_transfer X (read_xfer NOR_CMD_LUT_SEQ_IDX_READSTATUSREG) d") auto
  show ?case
    using less.hyps [of d'] t poll_bit [OF t] poll_step [OF t]
    by (subst nor_busy_loop.simps) auto
qed

lemma busy_returns: "\<exists>d'. flexspi_nor_wait_bus_busy X d = Inr (0, d')"
  using busy_loop_returns [of d] by (auto simp: flexspi_nor_wait_bus_busy_def)

lemma transfer_eq: "\<exists>bs d'. fx_transfer X x d = (0, bs, d')"
  using transfer_ok [of x d] by (cases "fx_transfer X x d") auto

lemma write_enable_returns: "\<exists>d'. flexspi_nor_write_enable X a d = (0, d')"
  using transfer_eq [of "command_xfer a NOR_CMD_LUT_SEQ_IDX_WRITEENABLE" d]
  by (auto simp: flexspi_nor_write_enable_def)

lemma erase_sector_returns: "\<exists>d'. flexspi_nor_flash_erase_sector X a d = Inr (0, d')"
proof -
  obtain d1 bs d2 d3 where "flexspi_nor_write_enable X a d = (0, d1)"
    and "fx_transfer X (command_xfer a NOR_CMD_LUT_SEQ_IDX_ERASESECTOR) d1 = (0, bs, d2)"
    and "flexspi_nor_wait_bus_busy X d2 = Inr (0, d3)"
    using write_enable_returns transfer_eq busy_returns by metis
  then show ?thesis by (simp add: flexspi_nor_flash_erase_sector_def)
qed

lemma erase_block_returns: "\<exists>d'. flexspi_nor_flash_erase_block X a d = Inr (0, d')"
proof -
  obtain d1 bs d2 d3 where "flexspi_nor_write_enable X a d = (0, d1)"
    and "fx_transfer X (command_xfer a NOR_CMD_LUT_SEQ_IDX_ERASEBLOCK) d1 = (0, bs, d2)"
    and "flexspi_nor_wait_bus_busy X d2 = Inr (0, d3)"
    using write_enable_returns transfer_eq busy_returns by metis
  then show ?thesis by (simp add: flexspi_nor_flash_erase_block_def)
qed

lemma page_program_returns:
  assumes "256 \<le> length pg"
  shows "\<exists>d'. flexspi_nor_flash_page_program X a pg d = Inr (0, d')"
proof -
  obtain d1 bs d2 d3 where "flexspi_nor_write_enable X a d = (0, d1)"
    and "fx_transfer X (write_xfer a NOR_CMD_LUT_SEQ_IDX_PAGEPROGRAM_QUAD (take 256 pg) 256) d1
      = (0, bs, d2)"
    and "flexspi_nor_wait_bus_busy X d2 = Inr (0, d3)"
    using write_enable_returns transfer_eq busy_returns by metis
  then show ?thesis using assms by (simp add: flexspi_nor_flash_page_program_def)
qed

lemma init_returns: "\<exists>d'. flexspi_nor_flash_init X d = Inr (0, d')"
proof -
  obtain d1 bs d2 d3 where "flexspi_nor_write_enable X 0 (fx_setup X d) = (0, d1)"
    and "fx_transfer X (write_xfer 0 NOR_CMD_LUT_SEQ_IDX_WRITESTATUSREG
                           (le32 FLASH_QUAD_ENABLE) 1) d1 = (0, bs, d2)"
    and "flexspi_nor_wait_bus_busy X d2 = Inr (0, d3)"
    using write_enable_returns transfer_eq busy_returns by metis
  then show ?thesis
    by (simp add: flexspi_nor_flash_init_def flexspi_nor_enable_quad_mode_def)
qed

end

section \<open>A chip\<close>

text \<open>
  A simulated chip on which the properties are evaluated: its cells, the write-enable latch, and
  the number of polls for which the last command keeps it busy. Its vendor id is a parameter.
\<close>

record nor_chip =
  cells :: "nat \<Rightarrow> u8"
  latch :: bool
  busy :: nat

definition sim_transfer :: "u8 \<Rightarrow> flexspi_transfer_t \<Rightarrow> nor_chip \<Rightarrow> int \<times> u8 list \<times> nor_chip" where
  "sim_transfer vendor x d =
    (let a = unat (deviceAddress x); seq = seqIndex x in
     if seq = NOR_CMD_LUT_SEQ_IDX_WRITEENABLE then (0, [], d\<lparr>latch := True\<rparr>)
     else if seq = NOR_CMD_LUT_SEQ_IDX_READSTATUSREG then
       (0, [if 0 < busy d then 1 else 0], d\<lparr>busy := busy d - 1\<rparr>)
     else if seq = NOR_CMD_LUT_SEQ_IDX_READID then (0, [vendor], d)
     else if seq = NOR_CMD_LUT_SEQ_IDX_ERASESECTOR \<and> latch d then
       (0, [], d\<lparr>cells := wipe 0x1000 a (cells d), latch := False, busy := 3\<rparr>)
     else if seq = NOR_CMD_LUT_SEQ_IDX_ERASEBLOCK \<and> latch d then
       (0, [], d\<lparr>cells := wipe 0x10000 a (cells d), latch := False, busy := 5\<rparr>)
     else if seq = NOR_CMD_LUT_SEQ_IDX_PAGEPROGRAM_QUAD \<and> latch d then
       (0, [], d\<lparr>cells := burn a (xfer_data x) (cells d), latch := False, busy := 1\<rparr>)
     else (0, [], d))"

definition nor_sim :: "u8 \<Rightarrow> nor_chip flexspi_if" where
  "nor_sim vendor = \<lparr>fx_transfer = sim_transfer vendor, fx_reset = id, fx_setup = id,
     fx_byte = (\<lambda>d n. cells d (n - unat FLEXSPI_AMBA_BASE))\<rparr>"

lemma sim_flash: "flash (nor_sim v) d n = (if n < FLASH_SIZE then cells d n else 0)"
  by (simp add: flash_def nor_sim_def)

lemma sim_xfer [simp]: "fx_transfer (nor_sim v) = sim_transfer v" "fx_reset (nor_sim v) = id" "fx_setup (nor_sim v) = id"
  by (simp_all add: nor_sim_def)

lemma unit_in_flash:
  fixes a n :: nat
  assumes "n div u = a div u" and "0 < u" and "a < k * u"
  shows "n < k * u"
  using assms div_less_iff_less_mult [of u n k] div_less_iff_less_mult [of u a k] by simp

lemmas sector_in_flash = unit_in_flash [where u = "0x1000" and k = "0x1000", simplified]
lemmas block_in_flash = unit_in_flash [where u = "0x10000" and k = "0x100", simplified]

lemma page_unit:
  fixes a n :: nat
  assumes "a mod 256 = 0" and "a \<le> n" and "n < a + 256"
  shows "n div 256 = a div 256"
proof -
  obtain k where k: "a = 256 * k" using assms(1) by auto
  have "n div 256 = k" by (rule div_nat_eqI) (use assms(2,3) k in simp_all)
  then show ?thesis using k by simp
qed

lemma page_in_flash:
  fixes a n :: nat
  assumes "a < 16777216" and "a mod 256 = 0" and "n < a + 256"
  shows "n < 16777216"
proof (cases "n < a")
  case False
  then have "n div 256 = a div 256" by (intro page_unit assms(2,3)) simp
  then show ?thesis using unit_in_flash [of n 256 a 65536] assms(1) by simp
qed (use assms in simp)

lemma sim_wipe_sector:
  "a < FLASH_SIZE \<Longrightarrow> flash (nor_sim v) (d\<lparr>cells := wipe 0x1000 a (cells d), latch := l, busy := b\<rparr>) =
   wipe 0x1000 a (flash (nor_sim v) d)"
proof (rule ext)
  fix n
  assume a: "a < FLASH_SIZE"
  show "flash (nor_sim v) (d\<lparr>cells := wipe 0x1000 a (cells d), latch := l, busy := b\<rparr>) n =
      wipe 0x1000 a (flash (nor_sim v) d) n"
  proof (cases "n div 0x1000 = a div 0x1000")
    case True
    moreover have "n < FLASH_SIZE" using a True sector_in_flash [of n a] by simp
    ultimately show ?thesis by (simp add: sim_flash wipe_def del: FLASH_SIZE_def)
  qed (simp add: sim_flash wipe_def del: FLASH_SIZE_def)
qed

lemma sim_wipe_block:
  "a < FLASH_SIZE \<Longrightarrow> flash (nor_sim v) (d\<lparr>cells := wipe 0x10000 a (cells d), latch := l, busy := b\<rparr>) =
   wipe 0x10000 a (flash (nor_sim v) d)"
proof (rule ext)
  fix n
  assume a: "a < FLASH_SIZE"
  show "flash (nor_sim v) (d\<lparr>cells := wipe 0x10000 a (cells d), latch := l, busy := b\<rparr>) n =
      wipe 0x10000 a (flash (nor_sim v) d) n"
  proof (cases "n div 0x10000 = a div 0x10000")
    case True
    moreover have "n < FLASH_SIZE" using a True block_in_flash [of n a] by simp
    ultimately show ?thesis by (simp add: sim_flash wipe_def del: FLASH_SIZE_def)
  qed (simp add: sim_flash wipe_def del: FLASH_SIZE_def)
qed

lemma sim_burn:
  assumes "a < FLASH_SIZE" and "a mod 256 = 0" and "length bs = 256"
  shows "flash (nor_sim v) (d\<lparr>cells := burn a bs (cells d), latch := l, busy := b\<rparr>) =
   burn a bs (flash (nor_sim v) d)"
  using assms page_in_flash [of a] by (auto simp: sim_flash burn_def fun_eq_iff)

lemma sim_unchanged: "cells d' = cells d \<Longrightarrow> flash (nor_sim v) d' = flash (nor_sim v) d"
  by (rule ext) (simp add: sim_flash)

lemma burn_unit:
  "a mod 256 = 0 \<Longrightarrow> length bs = 256 \<Longrightarrow> n div 256 \<noteq> a div 256 \<Longrightarrow> burn a bs m n = m n"
  by (metis burn_outside not_le page_unit)

lemmas sim_transfer_simps = sim_transfer_def command_xfer_def read_xfer_def write_xfer_def Let_def

interpretation sim: spi_live "nor_sim v" latch busy for v
proof (unfold_locales, goal_cases)
  case (4 x d st bs d')
  then show ?case by (auto simp: sim_transfer_def Let_def intro!: sim_unchanged split: if_splits)
next
  case (5 a d bs d')
  then show ?case by (auto simp: sim_transfer_simps sim_wipe_sector)
next
  case (6 a d st bs d' n)
  then show ?case
    by (cases "latch d") (auto simp: sim_transfer_simps sim_wipe_sector wipe_outside)
next
  case (7 a d bs d')
  then show ?case by (auto simp: sim_transfer_simps sim_wipe_block)
next
  case (8 a d st bs d' n)
  then show ?case
    by (cases "latch d") (auto simp: sim_transfer_simps sim_wipe_block wipe_outside)
next
  case (9 a pg d bs d')
  then show ?case by (auto simp: sim_transfer_simps sim_burn)
next
  case (10 a pg d st bs d' n)
  then show ?case
    by (cases "latch d") (auto simp: sim_transfer_simps sim_burn burn_unit)
qed (auto simp: sim_transfer_simps status_busy_def first_byte_def)

text \<open>A chip whose vendor id is the one the driver expects.\<close>

locale spi_genuine = spi_live X wel polls for X :: "'d flexspi_if" and wel and polls +
  assumes vendor_id: "fx_transfer X (read_xfer NOR_CMD_LUT_SEQ_IDX_READID) d = (st, bs, d') \<Longrightarrow>
    first_byte bs = FLASH_VENDOR_ID"

interpretation sim_ef: spi_genuine "nor_sim FLASH_VENDOR_ID" latch busy
  by unfold_locales (auto simp: sim_transfer_simps first_byte_def)

end
