(* ===== verification/Sln_Flash.thy ===== *)
theory Sln_Flash
  imports Flexspi_Nor
begin

text \<open>
  The flash library of the bootloader, \<open>source/sln_flash.c\<close>: RAM copies, page and sector
  writes, sector and block erase, and reads through the memory-mapped region. Every operation runs
  its flash commands with interrupts masked and the data cache off and restores both. The state is
  the board: the device behind the FLEXSPI driver, the PRIMASK register and the data-cache switch.
  The file shows that the library provides \<open>page_store\<close> over boards, that a sector write
  puts the data into the flash, and what it does on the empty buffer.
\<close>

section \<open>RAM buffers\<close>

fun SLN_ram_memset :: "u8 list \<Rightarrow> u8 \<Rightarrow> nat \<Rightarrow> u8 list outcome" where
  "SLN_ram_memset dst data 0 = Inr dst"
| "SLN_ram_memset (_ # ds) data (Suc len) = rbind (SLN_ram_memset ds data len) (\<lambda>r. Inr (data # r))"
| "SLN_ram_memset [] data (Suc len) = Inl MemFault"

fun SLN_ram_memcpy :: "u8 list \<Rightarrow> u8 list \<Rightarrow> nat \<Rightarrow> u8 list outcome" where
  "SLN_ram_memcpy dst src 0 = Inr dst"
| "SLN_ram_memcpy (_ # ds) (s # ss) (Suc len) = rbind (SLN_ram_memcpy ds ss len) (\<lambda>r. Inr (s # r))"
| "SLN_ram_memcpy _ _ (Suc len) = Inl MemFault"

lemma memset_eq:
  "SLN_ram_memset dst v n =
    (if n \<le> length dst then Inr (replicate n v @ drop n dst) else Inl MemFault)"
  by (induction dst v n rule: SLN_ram_memset.induct) auto

lemma memcpy_eq:
  "SLN_ram_memcpy dst src n =
    (if n \<le> length dst \<and> n \<le> length src then Inr (take n src @ drop n dst) else Inl MemFault)"
  by (induction dst src n rule: SLN_ram_memcpy.induct) (auto split: list.splits)

section \<open>The board\<close>

record 'd board =
  bd_dev :: 'd
  bd_primask :: u32
  bd_dcache :: bool

definition SLN_ram_disable_irq :: "'d board \<Rightarrow> u32 \<times> 'd board" where
  "SLN_ram_disable_irq b = (bd_primask b, b\<lparr>bd_primask := 1\<rparr>)"

definition SLN_ram_enable_irq :: "u32 \<Rightarrow> 'd board \<Rightarrow> 'd board" where
  "SLN_ram_enable_irq priMask b = b\<lparr>bd_primask := priMask\<rparr>"

definition SLN_ram_disable_d_cache :: "'d board \<Rightarrow> 'd board" where
  "SLN_ram_disable_d_cache b = b\<lparr>bd_dcache := False\<rparr>"

definition SLN_ram_enable_d_cache :: "'d board \<Rightarrow> 'd board" where
  "SLN_ram_enable_d_cache b = b\<lparr>bd_dcache := True\<rparr>"

definition on_dev :: "('d \<Rightarrow> ('r \<times> 'd) outcome) \<Rightarrow> 'd board \<Rightarrow> ('r \<times> 'd board) outcome" where
  "on_dev f b = rbind (f (bd_dev b)) (\<lambda>(r, d). Inr (r, b\<lparr>bd_dev := d\<rparr>))"

definition soft_reset :: "'d flexspi_if \<Rightarrow> 'd board \<Rightarrow> 'd board" where
  "soft_reset X b = b\<lparr>bd_dev := fx_reset X (bd_dev b)\<rparr>"

text \<open>The content of the flash on a board.\<close>

definition bflash :: "'d flexspi_if \<Rightarrow> 'd board \<Rightarrow> nat \<Rightarrow> u8" where
  "bflash X b = flash X (bd_dev b)"

lemmas board_defs = SLN_ram_disable_irq_def SLN_ram_enable_irq_def SLN_ram_disable_d_cache_def
  SLN_ram_enable_d_cache_def soft_reset_def

section \<open>Operations\<close>

definition SLN_Flash_Init :: "'d flexspi_if \<Rightarrow> 'd board \<Rightarrow> 'd board outcome" where
  "SLN_Flash_Init X b =
    (case SLN_ram_disable_irq b of (irqState, b) \<Rightarrow>
     let b = SLN_ram_disable_d_cache b in
     rbind (on_dev (flexspi_nor_flash_init X) b) (\<lambda>(_, b).
     let b = soft_reset X b;
         b = SLN_ram_enable_d_cache b;
         b = SLN_ram_enable_irq irqState b
     in Inr b))"

definition SLN_Write_Flash_Page ::
    "'d flexspi_if \<Rightarrow> u32 \<Rightarrow> u8 list \<Rightarrow> u32 \<Rightarrow> 'd board \<Rightarrow> (int \<times> 'd board) outcome" where
  "SLN_Write_Flash_Page X address data len b =
    (case SLN_ram_disable_irq b of (irqState, b) \<Rightarrow>
     let b = SLN_ram_disable_d_cache b; tempPage = replicate (unat FLASH_PAGE_SIZE) 0 in
     rbind (SLN_ram_memset tempPage 0xFF (unat FLASH_PAGE_SIZE)) (\<lambda>tempPage.
     rbind (SLN_ram_memcpy tempPage data (unat len)) (\<lambda>tempPage.
     rbind (on_dev (flexspi_nor_flash_page_program X address tempPage) b) (\<lambda>(status, b).
     let b = SLN_ram_enable_d_cache b;
         b = SLN_ram_enable_irq irqState b
     in Inr (status, b)))))"

definition SLN_Write_Flash_Page2 ::
    "'d flexspi_if \<Rightarrow> u32 \<Rightarrow> u8 list \<Rightarrow> u32 \<Rightarrow> 'd board \<Rightarrow> (int \<times> 'd board) outcome" where
  "SLN_Write_Flash_Page2 X address data len b =
    (let tempPage = replicate (unat FLASH_PAGE_SIZE) 0 in
     rbind (SLN_ram_memset tempPage 0xFF (unat FLASH_PAGE_SIZE)) (\<lambda>tempPage.
     rbind (SLN_ram_memcpy tempPage data (unat len)) (\<lambda>tempPage.
     on_dev (flexspi_nor_flash_page_program X address tempPage) b)))"

definition SLN_Erase_Sector2 :: "'d flexspi_if \<Rightarrow> u32 \<Rightarrow> 'd board \<Rightarrow> (int \<times> 'd board) outcome" where
  "SLN_Erase_Sector2 X address b =
    rbind (on_dev (flexspi_nor_flash_erase_sector X address) b) (\<lambda>(status, b).
    Inr (status, soft_reset X b))"

text \<open>
  The loop of \<open>SLN_Write_Sector\<close> after the erase: one page per turn, the pointer into the
  data advanced by a page, and a page counter that is decremented before it is tested.
\<close>

function sector_loop :: "'d flexspi_if \<Rightarrow> u32 \<Rightarrow> u8 list \<Rightarrow> u32 \<Rightarrow> u32 \<Rightarrow> 'd board \<Rightarrow>
    (int \<times> 'd board) outcome" where
  "sector_loop X address buf len pageCount b =
    (let toCopy = (if FLASH_PAGE_SIZE < len then FLASH_PAGE_SIZE else len) in
     rbind (SLN_Write_Flash_Page2 X address buf toCopy b) (\<lambda>(status, b).
     if status \<noteq> kStatus_Success then Inr (status, b)
     else if pageCount - 1 = 0 then Inr (status, b)
     else sector_loop X (address + FLASH_PAGE_SIZE) (drop (unat FLASH_PAGE_SIZE) buf)
            (len - FLASH_PAGE_SIZE) (pageCount - 1) b))"
  by pat_completeness auto
termination
  by (relation "measure (\<lambda>(X, a, buf, len, pc, b). unat (pc - 1))")
    (auto intro!: measure_unat [of "p - 1" for p :: u32, simplified])

declare sector_loop.simps [simp del]

definition SLN_Write_Sector ::
    "'d flexspi_if \<Rightarrow> u32 \<Rightarrow> u8 list \<Rightarrow> u32 \<Rightarrow> 'd board \<Rightarrow> (int \<times> 'd board) outcome" where
  "SLN_Write_Sector X address buf len b =
    (case SLN_ram_disable_irq b of (irqState, b) \<Rightarrow>
     let b = SLN_ram_disable_d_cache b in
     rbind (SLN_Erase_Sector2 X address b) (\<lambda>(status, b).
     rbind (if kStatus_Success = status then
              let len = (if FLASH_SECTOR_SIZE < len then FLASH_SECTOR_SIZE else len);
                  pageCount = len div FLASH_PAGE_SIZE;
                  pageMod = len mod FLASH_PAGE_SIZE;
                  pageCount = (if pageMod \<noteq> 0 then pageCount + 1 else pageCount)
              in sector_loop X address buf len pageCount b
            else Inr (status, b)) (\<lambda>(status, b).
     let b = SLN_ram_enable_d_cache b;
         b = SLN_ram_enable_irq irqState b
     in Inr (status, b))))"

definition SLN_Erase_Sector :: "'d flexspi_if \<Rightarrow> u32 \<Rightarrow> 'd board \<Rightarrow> (int \<times> 'd board) outcome" where
  "SLN_Erase_Sector X address b =
    (case SLN_ram_disable_irq b of (irqState, b) \<Rightarrow>
     let b = SLN_ram_disable_d_cache b in
     rbind (on_dev (flexspi_nor_flash_erase_sector X address) b) (\<lambda>(status, b).
     let b = soft_reset X b;
         b = SLN_ram_enable_d_cache b;
         b = SLN_ram_enable_irq irqState b
     in Inr (status, b)))"

definition SLN_Erase_Block :: "'d flexspi_if \<Rightarrow> u32 \<Rightarrow> 'd board \<Rightarrow> (int \<times> 'd board) outcome" where
  "SLN_Erase_Block X address b =
    (case SLN_ram_disable_irq b of (irqState, b) \<Rightarrow>
     let b = SLN_ram_disable_d_cache b in
     rbind (on_dev (flexspi_nor_flash_erase_block X address) b) (\<lambda>(status, b).
     let b = soft_reset X b;
         b = SLN_ram_enable_d_cache b;
         b = SLN_ram_enable_irq irqState b
     in Inr (status, b)))"

definition SLN_Write_Flash_At_Address ::
    "'d flexspi_if \<Rightarrow> u32 \<Rightarrow> u8 list \<Rightarrow> 'd board \<Rightarrow> (int \<times> 'd board) outcome" where
  "SLN_Write_Flash_At_Address X address data b =
    (case SLN_ram_disable_irq b of (irqState, b) \<Rightarrow>
     let b = SLN_ram_disable_d_cache b;
         b = soft_reset X b in
     rbind (on_dev (flexspi_nor_flash_page_program X address data) b) (\<lambda>(status, b).
     let b = SLN_ram_enable_d_cache b;
         b = SLN_ram_enable_irq irqState b
     in Inr (status, b)))"

text \<open>The bytes the processor reads through the memory-mapped region from an address on.\<close>

definition amba_read :: "'d flexspi_if \<Rightarrow> 'd \<Rightarrow> nat \<Rightarrow> nat \<Rightarrow> u8 list" where
  "amba_read X d p n = map (\<lambda>i. fx_byte X d (p + i)) [0..<n]"

definition SLN_Flash_Get_Read_Address :: "u32 \<Rightarrow> u32" where
  "SLN_Flash_Get_Read_Address address = FLEXSPI_AMBA_BASE + address"

definition SLN_Read_Flash_At_Address ::
    "'d flexspi_if \<Rightarrow> u32 \<Rightarrow> u8 list \<Rightarrow> u32 \<Rightarrow> 'd board \<Rightarrow> (int \<times> u8 list) outcome" where
  "SLN_Read_Flash_At_Address X address data sz b =
    rbind (SLN_ram_memcpy data
             (amba_read X (bd_dev b) (unat (FLEXSPI_AMBA_BASE + address)) (unat sz)) (unat sz))
      (\<lambda>data. Inr (kStatus_Success, data))"

section \<open>Operations as board-level commands\<close>

definition guarded :: "('d \<Rightarrow> (int \<times> 'd) outcome) \<Rightarrow> 'd board \<Rightarrow> (int \<times> 'd board) outcome" where
  "guarded f b = rbind (f (bd_dev b)) (\<lambda>(st, d). Inr (st, b\<lparr>bd_dev := d, bd_dcache := True\<rparr>))"

lemma guarded_InrE:
  assumes "guarded f b = Inr (st, b')"
  obtains d where "f (bd_dev b) = Inr (st, d)" and "b' = b\<lparr>bd_dev := d, bd_dcache := True\<rparr>"
  using assms by (auto simp: guarded_def rbind_Inr_iff)

definition then_reset :: "'d flexspi_if \<Rightarrow> ('d \<Rightarrow> (int \<times> 'd) outcome) \<Rightarrow> 'd \<Rightarrow> (int \<times> 'd) outcome" where
  "then_reset X f d = rbind (f d) (\<lambda>(st, d'). Inr (st, fx_reset X d'))"

lemma SLN_Erase_Sector_eq:
  "SLN_Erase_Sector X a = guarded (then_reset X (flexspi_nor_flash_erase_sector X a))"
  by (rule ext)
    (auto simp: SLN_Erase_Sector_def board_defs guarded_def then_reset_def on_dev_def Let_def
      rbind_assoc intro!: rbind_cong)

lemma SLN_Erase_Block_eq:
  "SLN_Erase_Block X a = guarded (then_reset X (flexspi_nor_flash_erase_block X a))"
  by (rule ext)
    (auto simp: SLN_Erase_Block_def board_defs guarded_def then_reset_def on_dev_def Let_def
      rbind_assoc intro!: rbind_cong)

lemma SLN_Write_Flash_At_Address_eq:
  "SLN_Write_Flash_At_Address X a pg =
     guarded (\<lambda>d. flexspi_nor_flash_page_program X a pg (fx_reset X d))"
  by (rule ext)
    (auto simp: SLN_Write_Flash_At_Address_def board_defs guarded_def on_dev_def Let_def
      rbind_assoc intro!: rbind_cong)

definition padded :: "nat \<Rightarrow> u8 list \<Rightarrow> u8 list" where
  "padded n data = take n data @ replicate (256 - n) 0xFF"

lemma length_padded [simp]: "n \<le> 256 \<Longrightarrow> n \<le> length data \<Longrightarrow> length (padded n data) = 256"
  by (simp add: padded_def)

lemma SLN_Write_Flash_Page_eq:
  "SLN_Write_Flash_Page X a data len b =
    (if unat len \<le> 256 \<and> unat len \<le> length data
     then guarded (flexspi_nor_flash_page_program X a (padded (unat len) data)) b
     else Inl MemFault)"
  by (auto simp: SLN_Write_Flash_Page_def memset_eq memcpy_eq board_defs guarded_def on_dev_def
      padded_def Let_def rbind_assoc intro!: rbind_cong)

lemma SLN_Write_Flash_Page2_eq:
  "SLN_Write_Flash_Page2 X a data len b =
    (if unat len \<le> 256 \<and> unat len \<le> length data
     then on_dev (flexspi_nor_flash_page_program X a (padded (unat len) data)) b
     else Inl MemFault)"
  by (simp add: SLN_Write_Flash_Page2_def memset_eq memcpy_eq padded_def Let_def)

lemma amba_read_flash:
  assumes "unat a + n \<le> FLASH_SIZE"
  shows "amba_read X d (unat (FLEXSPI_AMBA_BASE + a)) n = peek (flash X d) (unat a) n"
proof -
  have "unat (FLEXSPI_AMBA_BASE + a) = unat FLEXSPI_AMBA_BASE + unat a"
    using assms by (intro unat_add_small) (simp add: FLEXSPI_AMBA_BASE_def)
  then show ?thesis using assms by (simp add: amba_read_def peek_def flash_def add.assoc)
qed

lemma read_flash:
  assumes "unat a + unat sz \<le> FLASH_SIZE" and "unat sz \<le> length data"
  shows "SLN_Read_Flash_At_Address X a data sz b =
    Inr (0, peek (bflash X b) (unat a) (unat sz) @ drop (unat sz) data)"
  using assms amba_read_flash [OF assms(1), of X "bd_dev b"]
  by (simp add: SLN_Read_Flash_At_Address_def memcpy_eq bflash_def)

lemma read_flash_returns:
  assumes "SLN_Read_Flash_At_Address X a data sz b = Inr (st, data')"
  shows "st = 0" and "length data' = length data"
  using assms
  by (auto simp: SLN_Read_Flash_At_Address_def memcpy_eq amba_read_def split: if_splits)

lemma length_amba_read [simp]: "length (amba_read X d p n) = n"
  by (simp add: amba_read_def)

section \<open>A buffer as a run of pages\<close>

text \<open>The pages a write loop programs: the last ones are filled up with ones.\<close>

fun chop :: "nat \<Rightarrow> nat \<Rightarrow> u8 list \<Rightarrow> u8 list list" where
  "chop 0 n buf = []"
| "chop (Suc k) n buf = padded (min n 256) buf # chop k (n - 256) (drop 256 buf)"

lemma length_chop [simp]: "length (chop k n buf) = k"
  by (induction k n buf rule: chop.induct) auto

lemma chop_pages: "n \<le> length buf \<Longrightarrow> pg \<in> set (chop k n buf) \<Longrightarrow> length pg = 256"
  by (induction k n buf rule: chop.induct) auto

lemma concat_chop:
  "n \<le> 256 * k \<Longrightarrow> n \<le> length buf \<Longrightarrow>
   concat (chop k n buf) = take n buf @ replicate (256 * k - n) 0xFF"
proof (induction k n buf rule: chop.induct)
  case (2 k n buf)
  show ?case
  proof (cases "n \<le> 256")
    case True
    then show ?thesis
      using 2 by (simp add: padded_def replicate_add [symmetric])
  next
    case False
    then have "take n buf = take 256 buf @ take (n - 256) (drop 256 buf)"
      by (metis add_diff_inverse_nat linorder_not_le nat_le_linear take_add)
    then show ?thesis
      using 2 False by (simp add: padded_def)
  qed
qed simp

text \<open>
  The two page loops of the code (the sector write here, the table write of the FICA driver) have
  the same shape: a page writer, a page counter decremented before its test, and an own treatment
  of the error code. Any function with that equation programs the chopped buffer.
\<close>

lemma page_loop_run:
  fixes L :: "u32 \<Rightarrow> u8 list \<Rightarrow> u32 \<Rightarrow> u32 \<Rightarrow> 's \<Rightarrow> (int \<times> 's) outcome"
  assumes loop: "\<And>a buf len pc s. L a buf len pc s =
      rbind (W a buf (if 256 < len then 256 else len) s) (\<lambda>(st, s).
      if st \<noteq> 0 then Inr (err st, s) else if pc - 1 = 0 then Inr (st, s)
      else L (a + 256) (drop 256 buf) (len - 256) (pc - 1) s)"
    and page: "\<And>a buf len s. unat len \<le> 256 \<Longrightarrow> unat len \<le> length buf \<Longrightarrow>
      W a buf len s = P a (padded (unat len) buf) s"
    and "0 < len" and "unat len \<le> 256 * unat pc" and "256 * (unat pc - 1) < unat len"
    and "unat len \<le> length buf"
  shows "L a buf len pc s = rbind (program_run P a (chop (unat pc) (unat len) buf) s)
    (\<lambda>(st, s). Inr (if st = 0 then 0 else err st, s))"
  using assms(3-)
proof (induction "unat pc" arbitrary: a buf len pc s)
  case (Suc k)
  have k: "unat (pc - 1) = k" using Suc.hyps(2) by (metis diff_Suc_1 unat_minus_one unat_0 nat.distinct(1))
  show ?case
  proof (cases "k = 0")
    case True
    then have pc: "pc = 1" using Suc.hyps(2) by (simp add: word_unat_eq_iff)
    have "unat len \<le> 256" using Suc.prems(2) pc by simp
    then have "\<not> 256 < len" by (simp add: word_less_nat_alt)
    with \<open>unat len \<le> 256\<close> show ?thesis
      using Suc.prems(4) pc by (subst loop)
        (auto simp: page min_def rbind_assoc intro!: rbind_cong split: prod.splits)
  next
    case False
    have big: "256 < unat len" using Suc.prems(3) Suc.hyps(2) False by (cases k) auto
    then have "256 < len" and l: "unat (len - 256) = unat len - 256"
      by (simp_all add: word_less_nat_alt unat_sub_le word_le_nat_alt)
    moreover have "pc - 1 \<noteq> 0" using k False by auto
    moreover have "L (a + 256) (drop 256 buf) (len - 256) (pc - 1) s' =
        rbind (program_run P (a + 256) (chop k (unat len - 256) (drop 256 buf)) s')
          (\<lambda>(st, s). Inr (if st = 0 then 0 else err st, s))" for s'
      using Suc.hyps(1) [of "pc - 1" "len - 256" "drop 256 buf" "a + 256" s'] k l big Suc.prems
        Suc.hyps(2) by (simp add: word_less_nat_alt)
    ultimately show ?thesis
      using Suc.prems(4) big by (subst loop, unfold Suc.hyps(2) [symmetric])
        (auto simp: page min_def rbind_assoc intro!: rbind_cong split: prod.splits)
  qed
qed simp

lemma sector_loop_run:
  assumes "0 < len" and "unat len \<le> 256 * unat pc" and "256 * (unat pc - 1) < unat len"
    and "unat len \<le> length buf"
  shows "sector_loop X a buf len pc b =
    program_run (\<lambda>a pg. on_dev (flexspi_nor_flash_page_program X a pg)) a
      (chop (unat pc) (unat len) buf) b"
proof -
  have "sector_loop X a buf len pc b =
    rbind (program_run (\<lambda>a pg. on_dev (flexspi_nor_flash_page_program X a pg)) a
      (chop (unat pc) (unat len) buf) b) (\<lambda>(st, s). Inr (if st = 0 then 0 else st, s))"
    by (rule page_loop_run [OF _ _ assms, where W = "SLN_Write_Flash_Page2 X"])
      (subst sector_loop.simps, auto simp: SLN_Write_Flash_Page2_eq intro!: rbind_cong)
  then show ?thesis by simp
qed

section \<open>The library provides the page store\<close>

lemma unit_iff:
  fixes a n u :: nat
  assumes "a mod u = 0" and "0 < u"
  shows "n div u = a div u \<longleftrightarrow> a \<le> n \<and> n < a + u"
proof -
  obtain k where a: "a = u * k" using assms(1) by (auto simp: mod_eq_0_iff_dvd elim!: dvdE)
  have "n div u = k \<longleftrightarrow> u * k \<le> n \<and> n < u * k + u"
    using assms(2) by (auto simp: div_nat_eqI dividend_less_times_div add.commute)
  then show ?thesis using a assms(2) by simp
qed

lemma peek_burn_wiped:
  assumes "a mod u = 0" and "length bs \<le> u" and "k \<le> length bs"
  shows "peek (burn a bs (wipe u a m)) a k = take k bs"
  using assms by (intro peek_burn_erased) (auto simp: wipe_def unit_iff)

lemma bflash_dev [simp]:
  "bflash X (b\<lparr>bd_dev := d, bd_dcache := c\<rparr>) = flash X d"
  "bflash X (b\<lparr>bd_dev := d\<rparr>) = flash X d"
  "bflash X (b\<lparr>bd_dcache := c\<rparr>) = bflash X b"
  "bflash X (b\<lparr>bd_primask := m\<rparr>) = bflash X b"
  by (simp_all add: bflash_def)

lemma on_dev_InrE:
  assumes "on_dev f b = Inr (st, b')"
  obtains d where "f (bd_dev b) = Inr (st, d)" and "b' = b\<lparr>bd_dev := d\<rparr>"
  using assms by (auto simp: on_dev_def rbind_Inr_iff)

lemma then_reset_InrE:
  assumes "then_reset X f d = Inr (st, d')"
  obtains e where "f d = Inr (st, e)" and "d' = fx_reset X e"
  using assms by (auto simp: then_reset_def rbind_Inr_iff)

sublocale spi_device \<subseteq> raw: page_store "\<lambda>a. on_dev (flexspi_nor_flash_erase_sector X a)"
    "\<lambda>a pg. on_dev (flexspi_nor_flash_page_program X a pg)" "bflash X"
  by unfold_locales (auto elim!: on_dev_InrE simp: bflash_def
      dest: nor.erase_ok nor.erase_frame nor.program_ok nor.program_frame nor.program_length)

sublocale spi_device \<subseteq> paged: page_store "SLN_Erase_Sector X"
    "\<lambda>a pg. guarded (flexspi_nor_flash_page_program X a pg)" "bflash X"
  by unfold_locales (auto elim!: guarded_InrE then_reset_InrE simp: bflash_def SLN_Erase_Sector_eq reset_flash
      dest: nor.erase_ok nor.erase_frame nor.program_ok nor.program_frame nor.program_length)

sublocale spi_device \<subseteq> sln: page_store "SLN_Erase_Sector X" "SLN_Write_Flash_At_Address X" "bflash X"
  by unfold_locales (auto elim!: guarded_InrE then_reset_InrE simp: bflash_def SLN_Erase_Sector_eq
      SLN_Write_Flash_At_Address_eq reset_flash
      dest: nor.erase_ok nor.erase_frame nor.program_ok nor.program_frame nor.program_length)

section \<open>Sector writes\<close>

text \<open>The page counter that \<open>SLN_Write_Sector\<close> computes covers the data.\<close>

definition page_count :: "u32 \<Rightarrow> u32" where
  "page_count len = (if len mod 256 \<noteq> 0 then len div 256 + 1 else len div 256)"

lemma page_count_bounds:
  assumes "0 < len" and "unat len \<le> 4096"
  shows "unat len \<le> 256 * unat (page_count len)" and "256 * (unat (page_count len) - 1) < unat len"
    and "unat (page_count len) \<le> 16"
proof -
  let ?n = "unat len"
  have n: "0 < ?n" using assms(1) by (simp add: word_less_nat_alt)
  have d: "unat (len div 256) = ?n div 256" by (simp add: unat_div)
  have m: "len mod 256 = 0 \<longleftrightarrow> ?n mod 256 = 0" by (simp add: word_unat_eq_iff unat_mod)
  have "unat (len div 256 + 1) = ?n div 256 + 1"
    using assms(2) d unat_add_small [of "len div 256" 1] by simp
  then have pc: "unat (page_count len) = (if ?n mod 256 = 0 then ?n div 256 else ?n div 256 + 1)"
    using d m by (simp add: page_count_def)
  have split: "?n = 256 * (?n div 256) + ?n mod 256" and "?n mod 256 < 256" by simp_all
  then show "?n \<le> 256 * unat (page_count len)"
    using pc by (auto simp del: mod_mult_div_eq)
  show "256 * (unat (page_count len) - 1) < ?n"
    using pc split n by (cases "?n div 256"; cases "?n mod 256 = 0") auto
  have "?n mod 256 \<noteq> 0 \<Longrightarrow> ?n < 256 * 16"
    using assms(2) by (cases "?n = 4096") auto
  then have "?n mod 256 \<noteq> 0 \<Longrightarrow> ?n div 256 < 16"
    by (simp add: div_less_iff_less_mult)
  then show "unat (page_count len) \<le> 16"
    using pc assms(2) by (cases "?n mod 256 = 0") auto
qed

lemma SLN_Write_Sector_run:
  assumes "0 < len" and "min (unat len) 4096 \<le> length buf"
  defines "n \<equiv> min (unat len) 4096"
  shows "SLN_Write_Sector X a buf len b =
    rbind (then_reset X (flexspi_nor_flash_erase_sector X a) (bd_dev b)) (\<lambda>(st, d).
    rbind (if st = 0
      then program_run (\<lambda>a pg. on_dev (flexspi_nor_flash_page_program X a pg)) a
        (chop (unat (page_count (of_nat n))) n buf) (b\<lparr>bd_primask := 1, bd_dcache := False, bd_dev := d\<rparr>)
      else Inr (st, b\<lparr>bd_primask := 1, bd_dcache := False, bd_dev := d\<rparr>)) (\<lambda>(st, b').
    Inr (st, b'\<lparr>bd_dcache := True, bd_primask := bd_primask b\<rparr>)))"
proof -
  let ?len = "if FLASH_SECTOR_SIZE < len then FLASH_SECTOR_SIZE else len"
  have len: "?len = of_nat n"
    by (simp add: n_def min_def word_less_nat_alt)
  have un: "unat (of_nat n :: u32) = n"
    by (simp add: unat_of_nat n_def)
  have pos: "0 < (of_nat n :: u32)"
    using assms(1) un by (simp add: word_less_nat_alt n_def)
  have run: "sector_loop X a buf (of_nat n) (page_count (of_nat n)) b' =
      program_run (\<lambda>a pg. on_dev (flexspi_nor_flash_page_program X a pg)) a
        (chop (unat (page_count (of_nat n))) n buf) b'" for b'
    using sector_loop_run [OF pos, of "page_count (of_nat n)" buf X a b']
      page_count_bounds [OF pos] un assms(2) by (simp add: n_def)
  show ?thesis
    unfolding SLN_Write_Sector_def SLN_Erase_Sector2_def Let_def len page_count_def [symmetric]
      FLASH_PAGE_SIZE_def run then_reset_def on_dev_def board_defs rbind_assoc
    by (auto intro!: rbind_cong split: prod.splits)
qed

context spi_device begin

lemma write_sector_ok:
  assumes "SLN_Write_Sector X a buf len b = Inr (0, b')"
    and "0 < len" and "min (unat len) 4096 \<le> length buf"
    and "unat a < FLASH_SIZE" and "unat a mod 0x1000 = 0"
  shows "bflash X b' = (\<lambda>n. if n div 0x1000 = unat a div 0x1000
      then (if n - unat a < min (unat len) 4096 then buf ! (n - unat a) else 0xFF)
      else bflash X b n)"
proof -
  define n where "n = min (unat len) 4096"
  let ?k = "unat (page_count (of_nat n))"
  obtain d b1 where e: "then_reset X (flexspi_nor_flash_erase_sector X a) (bd_dev b) = Inr (0, d)"
    and r: "program_run (\<lambda>a pg. on_dev (flexspi_nor_flash_page_program X a pg)) a (chop ?k n buf)
        (b\<lparr>bd_primask := 1, bd_dcache := False, bd_dev := d\<rparr>) = Inr (0, b1)"
    and b': "bflash X b' = bflash X b1"
    using assms(1) unfolding SLN_Write_Sector_run [OF assms(2,3)] n_def [symmetric]
    by (auto elim!: rbind_InrE split: if_splits prod.splits)
  have un: "unat (of_nat n :: u32) = n" by (simp add: unat_of_nat n_def)
  have pos: "0 < (of_nat n :: u32)"
    using assms(2) un by (simp add: word_less_nat_alt n_def)
  have k: "n \<le> 256 * ?k" "?k \<le> 16"
    using page_count_bounds [OF pos] un by (simp_all add: n_def)
  have room: "unat a + 4096 \<le> FLASH_SIZE" using assms(4,5) by auto
  have ed: "flash X d = wipe 0x1000 (unat a) (bflash X b)"
    using e assms(4) by (auto elim!: then_reset_InrE simp: reset_flash bflash_def dest: nor.erase_ok)
  have "bflash X b1 = burn (unat a) (take n buf @ replicate (256 * ?k - n) 0xFF)
      (wipe 0x1000 (unat a) (bflash X b))"
    using raw.program_run_ok [OF r] k room assms(3,5) chop_pages [of n buf] concat_chop [OF k(1), of buf]
    by (auto simp: ed n_def mod_mod_cancel)
  moreover have "n \<le> length buf" using assms(3) by (simp add: n_def)
  ultimately show ?thesis
    using k by (auto simp: b' burn_def wipe_def unit_iff [OF assms(5)] nth_append n_def [symmetric] fun_eq_iff)
qed

lemma write_sector_frame:
  assumes "SLN_Write_Sector X a buf len b = Inr (st, b')"
    and "0 < len" and "min (unat len) 4096 \<le> length buf"
    and "unat a < FLASH_SIZE" and "unat a mod 0x1000 = 0" and "n div 0x1000 \<noteq> unat a div 0x1000"
  shows "bflash X b' n = bflash X b n"
proof -
  define m where "m = min (unat len) 4096"
  let ?k = "unat (page_count (of_nat m))"
  obtain st1 d b1 where e: "then_reset X (flexspi_nor_flash_erase_sector X a) (bd_dev b) = Inr (st1, d)"
    and r: "st1 = 0 \<longrightarrow> program_run (\<lambda>a pg. on_dev (flexspi_nor_flash_page_program X a pg)) a (chop ?k m buf)
        (b\<lparr>bd_primask := 1, bd_dcache := False, bd_dev := d\<rparr>) = Inr (st, b1)"
    and b': "st1 = 0 \<longrightarrow> bflash X b' = bflash X b1" and f: "st1 \<noteq> 0 \<longrightarrow> bflash X b' = flash X d"
    using assms(1) unfolding SLN_Write_Sector_run [OF assms(2,3)] m_def [symmetric]
    by (auto elim!: rbind_InrE split: if_splits prod.splits)
  have um: "unat (of_nat m :: u32) = m" by (simp add: unat_of_nat m_def)
  have "0 < (of_nat m :: u32)"
    using assms(2) um by (simp add: word_less_nat_alt m_def)
  then have k: "?k \<le> 16" using page_count_bounds um by (simp add: m_def)
  have room: "unat a + 4096 \<le> FLASH_SIZE" using assms(4,5) by auto
  have ed: "flash X d n = bflash X b n"
    using e assms(4,6) by (auto elim!: then_reset_InrE simp: reset_flash bflash_def dest: nor.erase_frame)
  show ?thesis
  proof (cases "st1 = 0")
    case True
    have out: "n < unat a \<or> unat a + 256 * length (chop ?k m buf) \<le> n"
      using assms(6) k by (auto simp: unit_iff [OF assms(5)])
    have "unat a mod 256 = 0" by (rule sector_page_aligned) (fact assms(5))
    with True r k room out ed show ?thesis
      using raw.program_run_frame [of a "chop ?k m buf" _ st b1 n] b' by simp
  qed (use f ed in simp)
qed

end

text \<open>
  With an empty buffer the page counter is zero when the loop starts, and the loop decrements it
  before testing it: after one page of ones it goes on reading past the data.
\<close>

lemma sector_loop_empty:
  assumes "SLN_Write_Flash_Page2 X a buf 0 b = Inr (0, b1)" and "length buf < 512"
  shows "sector_loop X a buf 0 0 b = Inl MemFault"
proof -
  have "SLN_Write_Flash_Page2 X (a + 256) (drop 256 buf) 256 b1 = Inl MemFault"
    using assms(2) by (auto simp: SLN_Write_Flash_Page2_eq)
  then have "sector_loop X (a + 256) (drop 256 buf) (0 - 256) (- 1) b1 = Inl MemFault"
    by (subst sector_loop.simps) (simp add: word_less_nat_alt)
  then show ?thesis using assms(1) by (subst sector_loop.simps) simp
qed

lemma write_sector_restores:
  "SLN_Write_Sector X a buf len b = Inr (st, b') \<Longrightarrow> bd_primask b' = bd_primask b \<and> bd_dcache b'"
  by (auto simp: SLN_Write_Sector_def board_defs Let_def elim!: rbind_InrE split: prod.splits)

lemma erase_sector_restores:
  "SLN_Erase_Sector X a b = Inr (st, b') \<Longrightarrow> bd_primask b' = bd_primask b \<and> bd_dcache b'"
  by (auto simp: SLN_Erase_Sector_eq elim!: guarded_InrE)

lemma erase_block_restores:
  "SLN_Erase_Block X a b = Inr (st, b') \<Longrightarrow> bd_primask b' = bd_primask b \<and> bd_dcache b'"
  by (auto simp: SLN_Erase_Block_eq elim!: guarded_InrE)

lemma write_page_restores:
  "SLN_Write_Flash_Page X a data len b = Inr (st, b') \<Longrightarrow> bd_primask b' = bd_primask b \<and> bd_dcache b'"
  by (auto simp: SLN_Write_Flash_Page_eq elim!: guarded_InrE split: if_splits)

lemma write_at_address_restores:
  "SLN_Write_Flash_At_Address X a data b = Inr (st, b') \<Longrightarrow> bd_primask b' = bd_primask b \<and> bd_dcache b'"
  by (auto simp: SLN_Write_Flash_At_Address_eq elim!: guarded_InrE)

lemma flash_init_restores:
  "SLN_Flash_Init X b = Inr b' \<Longrightarrow> bd_primask b' = bd_primask b \<and> bd_dcache b'"
  by (auto simp: SLN_Flash_Init_def board_defs Let_def elim!: rbind_InrE split: prod.splits)

section \<open>A live chip\<close>

context spi_live begin

lemma SLN_Erase_Sector_returns: "\<exists>b'. SLN_Erase_Sector X a b = Inr (0, b')"
  using erase_sector_returns [of a "bd_dev b"]
  by (auto simp: SLN_Erase_Sector_eq guarded_def then_reset_def)

lemma SLN_Erase_Block_returns: "\<exists>b'. SLN_Erase_Block X a b = Inr (0, b')"
  using erase_block_returns [of a "bd_dev b"]
  by (auto simp: SLN_Erase_Block_eq guarded_def then_reset_def)

lemma SLN_Write_Flash_At_Address_returns:
  "256 \<le> length pg \<Longrightarrow> \<exists>b'. SLN_Write_Flash_At_Address X a pg b = Inr (0, b')"
  using page_program_returns [of pg a "fx_reset X (bd_dev b)"]
  by (auto simp: SLN_Write_Flash_At_Address_eq guarded_def)

lemma SLN_Write_Flash_Page_returns:
  "unat len \<le> 256 \<Longrightarrow> unat len \<le> length data \<Longrightarrow> \<exists>b'. SLN_Write_Flash_Page X a data len b = Inr (0, b')"
  using page_program_returns [of "padded (unat len) data" a "bd_dev b"]
  by (auto simp: SLN_Write_Flash_Page_eq guarded_def)

lemma program_run_returns:
  assumes "\<forall>pg\<in>set pgs. length pg = 256"
  shows "\<exists>b'. program_run (\<lambda>a pg. on_dev (flexspi_nor_flash_page_program X a pg)) a pgs b = Inr (0, b')"
    and "\<exists>b'. program_run (\<lambda>a pg. guarded (flexspi_nor_flash_page_program X a pg)) a pgs b = Inr (0, b')"
proof -
  have "\<exists>b'. on_dev (flexspi_nor_flash_page_program X a pg) b = Inr (0, b')"
    and "\<exists>b'. guarded (flexspi_nor_flash_page_program X a pg) b = Inr (0, b')"
    if "length pg = 256" for a pg and b :: "'d board"
    using page_program_returns [of pg a "bd_dev b"] that by (auto simp: on_dev_def guarded_def)
  then show "\<exists>b'. program_run (\<lambda>a pg. on_dev (flexspi_nor_flash_page_program X a pg)) a pgs b = Inr (0, b')"
    and "\<exists>b'. program_run (\<lambda>a pg. guarded (flexspi_nor_flash_page_program X a pg)) a pgs b = Inr (0, b')"
    by (intro program_run_total assms; simp)+
qed

lemma SLN_Write_Sector_returns:
  assumes "0 < len" and "min (unat len) 4096 \<le> length buf"
  shows "\<exists>b'. SLN_Write_Sector X a buf len b = Inr (0, b')"
proof -
  define n where "n = min (unat len) 4096"
  let ?pgs = "chop (unat (page_count (of_nat n))) n buf"
  obtain d where "flexspi_nor_flash_erase_sector X a (bd_dev b) = Inr (0, d)"
    using erase_sector_returns by blast
  moreover obtain b1 where "program_run (\<lambda>a pg. on_dev (flexspi_nor_flash_page_program X a pg)) a ?pgs
      (b\<lparr>bd_primask := 1, bd_dcache := False, bd_dev := fx_reset X d\<rparr>) = Inr (0, b1)"
    using program_run_returns(1) chop_pages [of n buf] assms(2) unfolding n_def by blast
  ultimately show ?thesis
    unfolding SLN_Write_Sector_run [OF assms] n_def [symmetric] by (simp add: then_reset_def)
qed

lemma SLN_Write_Sector_empty:
  assumes "length buf < 512"
  shows "SLN_Write_Sector X a buf 0 b = Inl MemFault"
proof -
  obtain d where d: "flexspi_nor_flash_erase_sector X a (bd_dev b) = Inr (0, d)"
    using erase_sector_returns by blast
  let ?b = "b\<lparr>bd_primask := 1, bd_dcache := False, bd_dev := fx_reset X d\<rparr>"
  obtain b1 where "SLN_Write_Flash_Page2 X a buf 0 ?b = Inr (0, b1)"
    using page_program_returns [of "padded 0 buf" a "bd_dev ?b"]
    by (auto simp: SLN_Write_Flash_Page2_eq on_dev_def)
  from sector_loop_empty [OF this assms] show ?thesis
    using d by (simp add: SLN_Write_Sector_def SLN_Erase_Sector2_def board_defs on_dev_def)
qed

end

end
