(* ===== verification/Fica_Types.thy ===== *)
theory Fica_Types
  imports Flexspi_Nor
begin

text \<open>
  The Flash Image Configuration Area (FICA), \<open>source/fica_definition.h\<close>: the image bank
  layout of a 16 MB flash, the communication bits, and the table with its header and one record per
  image, as the packed structs of the C code with their byte layout (948 bytes, little endian). The
  file shows that the layout is a bijection between well-formed tables and 948-byte buffers.
\<close>

section \<open>Constants\<close>

definition FICA_VER :: u32 where [simp]: "FICA_VER = 3"
definition FICA_ICA_DESC :: u32 where [simp]: "FICA_ICA_DESC = 0xA5A5A5A5"
definition FICA_IMG_DESC_ID :: u32 where [simp]: "FICA_IMG_DESC_ID = 0x5A5A5A5A"

definition FICA_COMM_AIS_OTA_BIT :: u32 where [simp]: "FICA_COMM_AIS_OTA_BIT = 0x10"
definition FICA_COMM_FWUPDATE_BIT :: u32 where [simp]: "FICA_COMM_FWUPDATE_BIT = 0x20"
definition FICA_COMM_FWUPDATE_METHOD_BIT :: u32 where [simp]: "FICA_COMM_FWUPDATE_METHOD_BIT = 0x40"
definition FICA_COMM_AIS_NAV_BIT :: u32 where [simp]: "FICA_COMM_AIS_NAV_BIT = 0x100"
definition FICA_COMM_AIS_NAP_BIT :: u32 where [simp]: "FICA_COMM_AIS_NAP_BIT = 0x200"
definition FICA_COMM_AIS_NAI_BIT :: u32 where [simp]: "FICA_COMM_AIS_NAI_BIT = 0x400"
definition FICA_COMM_AIS_USB_BIT :: u32 where [simp]: "FICA_COMM_AIS_USB_BIT = 0x800"

definition FICA_IMG_TYPE_NONE :: int where [simp]: "FICA_IMG_TYPE_NONE = -1"
definition FICA_IMG_TYPE_BOOTLOADER :: int where [simp]: "FICA_IMG_TYPE_BOOTLOADER = 0"
definition FICA_IMG_TYPE_APP_A :: int where [simp]: "FICA_IMG_TYPE_APP_A = 1"
definition FICA_IMG_TYPE_APP_B :: int where [simp]: "FICA_IMG_TYPE_APP_B = 2"
definition FICA_NUM_IMG_TYPES :: int where [simp]: "FICA_NUM_IMG_TYPES = 3"
definition FICA_IMG_FMT_NONE :: u32 where [simp]: "FICA_IMG_FMT_NONE = 0"
definition FICA_IMG_FMT_BIN :: u32 where [simp]: "FICA_IMG_FMT_BIN = 1"

text \<open>Bank sizes and addresses, derived from each other as in the header file.\<close>

definition FICA_IMG_BOOTSTRAP_SIZE :: u32 where [simp]: "FICA_IMG_BOOTSTRAP_SIZE = 0"
definition FICA_IMG_BOOTLOADER_SIZE :: u32 where [simp]: "FICA_IMG_BOOTLOADER_SIZE = 0x00100000"
definition FICA_IMG_RESERVED_SIZE :: u32 where [simp]: "FICA_IMG_RESERVED_SIZE = 0"
definition FICA_IMG_APP_A_SIZE :: u32 where [simp]: "FICA_IMG_APP_A_SIZE = 0x00680000"
definition FICA_IMG_APP_B_SIZE :: u32 where [simp]: "FICA_IMG_APP_B_SIZE = 0x00680000"
definition FICA_FILE_SYS_SIZE :: u32 where [simp]: "FICA_FILE_SYS_SIZE = 0x100000"
definition FICA_TABLE_SIZE :: u32 where [simp]: "FICA_TABLE_SIZE = FLASH_SECTOR_SIZE"
definition FICA_CRYPTO_BACKUP_SIZE :: u32 where [simp]: "FICA_CRYPTO_BACKUP_SIZE = FLASH_SECTOR_SIZE"

definition FICA_IMG_BOOTSTRAP_ADDR :: u32 where [simp]: "FICA_IMG_BOOTSTRAP_ADDR = 0"
definition FICA_IMG_BOOTLOADER_ADDR :: u32 where
  [simp]: "FICA_IMG_BOOTLOADER_ADDR = FICA_IMG_BOOTSTRAP_ADDR + FICA_IMG_BOOTSTRAP_SIZE"
definition FICA_IMG_RESERVED_ADDR :: u32 where
  [simp]: "FICA_IMG_RESERVED_ADDR = FICA_IMG_BOOTLOADER_ADDR + FICA_IMG_BOOTLOADER_SIZE"
definition FICA_IMG_APP_A_ADDR :: u32 where
  [simp]: "FICA_IMG_APP_A_ADDR = FICA_IMG_RESERVED_ADDR + FICA_IMG_RESERVED_SIZE"
definition FICA_IMG_APP_B_ADDR :: u32 where
  [simp]: "FICA_IMG_APP_B_ADDR = FICA_IMG_APP_A_ADDR + FICA_IMG_APP_A_SIZE"
definition FICA_IMG_FILE_SYS_ADDR :: u32 where
  [simp]: "FICA_IMG_FILE_SYS_ADDR = FICA_IMG_APP_B_ADDR + FICA_IMG_APP_B_SIZE"
definition FICA_IMG_INVALID_ADDR :: u32 where [simp]: "FICA_IMG_INVALID_ADDR = 0xFFFFFFFF"
definition FICA_START_ADDR :: u32 where [simp]: "FICA_START_ADDR = of_nat FLASH_SIZE - FICA_TABLE_SIZE"
definition FICA_CRYPTO_BACKUP_ADDR :: u32 where
  [simp]: "FICA_CRYPTO_BACKUP_ADDR = FICA_START_ADDR - FICA_CRYPTO_BACKUP_SIZE"

section \<open>The table\<close>

record fica_header_t =
  descriptor :: u32
  version :: u32
  communication :: u32
  currType :: u32
  newType :: u32
  currBootType :: u32

record fica_record_t =
  rec_descriptor :: u32
  imgType :: u32
  imgAddr :: u32
  imgLen :: u32
  imgFmt :: u32
  imgHashType :: u32
  imgHashLoc :: u32
  imgEncType :: u32
  imgPkiType :: u32
  imgPkiLoc :: u32
  imgPkiSig :: "u8 list"
  rec_res :: "u8 list"

record fica_t =
  header :: fica_header_t
  records :: "fica_record_t list"

text \<open>The arrays of the structs have their declared lengths.\<close>

definition record_wf :: "fica_record_t \<Rightarrow> bool" where
  "record_wf r \<longleftrightarrow> length (imgPkiSig r) = 256 \<and> length (rec_res r) = 12"

definition fica_wf :: "fica_t \<Rightarrow> bool" where
  "fica_wf f \<longleftrightarrow> length (records f) = 3 \<and> (\<forall>r\<in>set (records f). record_wf r)"

definition fica_size :: nat where [simp]: "fica_size = 948"

definition encode_header :: "fica_header_t \<Rightarrow> u8 list" where
  "encode_header h = le32 (descriptor h) @ le32 (version h) @ le32 (communication h) @
     le32 (currType h) @ le32 (newType h) @ le32 (currBootType h)"

definition encode_record :: "fica_record_t \<Rightarrow> u8 list" where
  "encode_record r = le32 (rec_descriptor r) @ le32 (imgType r) @ le32 (imgAddr r) @ le32 (imgLen r) @
     le32 (imgFmt r) @ le32 (imgHashType r) @ le32 (imgHashLoc r) @ le32 (imgEncType r) @
     le32 (imgPkiType r) @ le32 (imgPkiLoc r) @ imgPkiSig r @ rec_res r"

definition encode_fica :: "fica_t \<Rightarrow> u8 list" where
  "encode_fica f = encode_header (header f) @ concat (map encode_record (records f))"

definition word_at :: "nat \<Rightarrow> u8 list \<Rightarrow> u32" where
  "word_at off bs = de32 (drop off bs)"

definition decode_header :: "u8 list \<Rightarrow> fica_header_t" where
  "decode_header bs = \<lparr>descriptor = word_at 0 bs, version = word_at 4 bs, communication = word_at 8 bs,
     currType = word_at 12 bs, newType = word_at 16 bs, currBootType = word_at 20 bs\<rparr>"

definition decode_record :: "u8 list \<Rightarrow> fica_record_t" where
  "decode_record bs = \<lparr>rec_descriptor = word_at 0 bs, imgType = word_at 4 bs, imgAddr = word_at 8 bs,
     imgLen = word_at 12 bs, imgFmt = word_at 16 bs, imgHashType = word_at 20 bs,
     imgHashLoc = word_at 24 bs, imgEncType = word_at 28 bs, imgPkiType = word_at 32 bs,
     imgPkiLoc = word_at 36 bs, imgPkiSig = slice 40 256 bs, rec_res = slice 296 12 bs\<rparr>"

definition decode_fica :: "u8 list \<Rightarrow> fica_t" where
  "decode_fica bs = \<lparr>header = decode_header bs,
     records = [decode_record (slice 24 308 bs), decode_record (slice 332 308 bs),
                decode_record (slice 640 308 bs)]\<rparr>"

text \<open>The zero-initialised table of a fresh start.\<close>

definition fica_zero :: fica_t where
  "fica_zero = decode_fica (replicate fica_size 0)"

section \<open>The layout is a bijection\<close>

lemma le32_word_at: "off + 4 \<le> length bs \<Longrightarrow> le32 (word_at off bs) = slice off 4 bs"
  by (simp add: word_at_def slice_def de32_take [symmetric, of "drop off bs"] le32_de32)

lemma word_at_le32 [simp]:
  "word_at 0 (le32 w @ bs) = w"
  "4 \<le> off \<Longrightarrow> word_at off (le32 w @ bs) = word_at (off - 4) bs"
  by (simp_all add: word_at_def)

lemma slice_after_le32 [simp]: "4 \<le> off \<Longrightarrow> slice off n (le32 w @ bs) = slice (off - 4) n bs"
  by (simp add: slice_append_skip)

lemma slice_join: "off' = off + m \<Longrightarrow> slice off m xs @ slice off' n xs = slice off (m + n) xs"
  by (simp add: slice_def take_add add.commute)

lemma slice_join_append:
  "off' = off + m \<Longrightarrow> slice off m xs @ slice off' n xs @ ys = slice off (m + n) xs @ ys"
  by (simp add: slice_join [symmetric])

lemma length_encode_header [simp]: "length (encode_header h) = 24"
  by (simp add: encode_header_def)

lemma length_encode_record [simp]: "record_wf r \<Longrightarrow> length (encode_record r) = 308"
  by (simp add: encode_record_def record_wf_def)

lemma decode_encode_header: "decode_header (encode_header h @ bs) = h"
  by (simp add: decode_header_def encode_header_def)

lemma decode_encode_record: "record_wf r \<Longrightarrow> decode_record (encode_record r) = r"
  by (simp add: decode_record_def encode_record_def record_wf_def slice_def)

lemma encode_decode_header: "24 \<le> length bs \<Longrightarrow> encode_header (decode_header bs) = take 24 bs"
  by (simp add: encode_header_def decode_header_def le32_word_at slice_join slice_join_append)
    (simp add: slice_def)

lemma encode_decode_record: "length bs = 308 \<Longrightarrow> encode_record (decode_record bs) = bs"
  by (simp add: encode_record_def decode_record_def le32_word_at slice_join slice_join_append)
    (simp add: slice_def)

lemma decode_record_wf: "length bs = 308 \<Longrightarrow> record_wf (decode_record bs)"
  by (simp add: record_wf_def decode_record_def buf_simps)

lemma fica_records:
  assumes "fica_wf f"
  obtains r0 r1 r2 where "records f = [r0, r1, r2]" and "record_wf r0" and "record_wf r1" and "record_wf r2"
  using assms by (auto simp: fica_wf_def numeral_3_eq_3 length_Suc_conv)

lemma length_encode_fica: "fica_wf f \<Longrightarrow> length (encode_fica f) = fica_size"
  by (elim fica_records) (simp add: encode_fica_def)

lemma decode_encode_fica: "fica_wf f \<Longrightarrow> decode_fica (encode_fica f) = f"
  by (elim fica_records, cases f)
    (simp add: encode_fica_def decode_fica_def decode_encode_header slice_append_skip
      slice_append_left slice_def [of 0] decode_encode_record)

lemma encode_decode_fica:
  assumes "length bs = fica_size"
  shows "encode_fica (decode_fica bs) = bs"
proof -
  have "encode_fica (decode_fica bs) = take 24 bs @ slice 24 308 bs @ slice 332 308 bs @ slice 640 308 bs"
    using assms by (simp add: encode_fica_def decode_fica_def encode_decode_header
        encode_decode_record buf_simps)
  also have "\<dots> = slice 0 948 bs"
    by (simp add: slice_def [of 0 24, simplified, symmetric] slice_join slice_join_append)
  finally show ?thesis using assms by (simp add: slice_def)
qed

lemma decode_fica_wf: "length bs = fica_size \<Longrightarrow> fica_wf (decode_fica bs)"
  by (simp add: fica_wf_def decode_fica_def decode_record_wf buf_simps)

lemma fica_zero_wf: "fica_wf fica_zero"
  by (simp add: fica_zero_def decode_fica_wf)

end
