(* ===== verification/Fica_Driver.thy ===== *)
theory Fica_Driver
  imports Sln_Flash Fica_Types
begin

text \<open>
  The driver of the flash image configuration area, \<open>source/flash_ica_driver.c\<close>: the RAM
  copy of the table and its write-back, the communication flags, the image records, and the
  initialisation. The state is the board and the file's static variables. Pointers the code checks
  for NULL are options; a pointee that is an output is passed and returned.
\<close>

section \<open>State\<close>

definition SLN_FLASH_NO_ERROR :: int where [simp]: "SLN_FLASH_NO_ERROR = 0"
definition SLN_FLASH_ERROR :: int where [simp]: "SLN_FLASH_ERROR = -1"
definition EXT_FLASH_PROGRAM_PAGE :: u32 where [simp]: "EXT_FLASH_PROGRAM_PAGE = FLASH_PAGE_SIZE"
definition EXT_FLASH_ERASE_PAGE :: u32 where [simp]: "EXT_FLASH_ERASE_PAGE = FLASH_SECTOR_SIZE"
definition EXT_FLASH_ERASE_BLOCK :: u32 where [simp]: "EXT_FLASH_ERASE_BLOCK = FLASH_BLOCK_SIZE"

record 'd fica_st =
  board :: "'d board"
  s_fica :: fica_t
  s_appImgBuffer :: "u8 list"
  s_newAppImgType :: int
  s_newAppImgStartAddr :: u32
  s_newAppImgMaxSize :: u32
  s_newAppCurrLen :: u32
  ErrorCnt :: u32

definition drv_wf :: "'d fica_st \<Rightarrow> bool" where
  "drv_wf s \<longleftrightarrow> fica_wf (s_fica s) \<and> length (s_appImgBuffer s) = 4096"

definition on_board :: "('d board \<Rightarrow> ('r \<times> 'd board) outcome) \<Rightarrow> 'd fica_st \<Rightarrow> ('r \<times> 'd fica_st) outcome" where
  "on_board f s = rbind (f (board s)) (\<lambda>(r, b). Inr (r, s\<lparr>board := b\<rparr>))"

definition upd_header :: "(fica_header_t \<Rightarrow> fica_header_t) \<Rightarrow> 'd fica_st \<Rightarrow> 'd fica_st" where
  "upd_header g s = s\<lparr>s_fica := (s_fica s)\<lparr>header := g (header (s_fica s))\<rparr>\<rparr>"

definition upd_record :: "nat \<Rightarrow> (fica_record_t \<Rightarrow> fica_record_t) \<Rightarrow> 'd fica_st \<Rightarrow> 'd fica_st" where
  "upd_record i g s = s\<lparr>s_fica := (s_fica s)\<lparr>records := (records (s_fica s))[i := g (records (s_fica s) ! i)]\<rparr>\<rparr>"

section \<open>Buffers\<close>

fun clear_loop :: "nat \<Rightarrow> nat \<Rightarrow> u8 \<Rightarrow> u8 list \<Rightarrow> u8 list outcome" where
  "clear_loop i 0 v buf = Inr buf"
| "clear_loop i (Suc k) v buf =
     (if i < length buf then clear_loop (Suc i) k v (buf[i := v]) else Inl MemFault)"

definition FICA_clear_buf :: "u8 list option \<Rightarrow> u8 \<Rightarrow> u32 \<Rightarrow> (int \<times> u8 list option) outcome" where
  "FICA_clear_buf pbuf initval len =
    (case pbuf of None \<Rightarrow> Inr (SLN_FLASH_ERROR, None)
     | Some buf \<Rightarrow> rbind (clear_loop 0 (unat len) initval buf) (\<lambda>buf. Inr (SLN_FLASH_NO_ERROR, Some buf)))"

text \<open>The only caller passes the image buffer of the driver.\<close>

definition clear_app_buffer :: "'d fica_st \<Rightarrow> 'd fica_st outcome" where
  "clear_app_buffer s = rbind (FICA_clear_buf (Some (s_appImgBuffer s)) 0xFF FLASH_SECTOR_SIZE)
     (\<lambda>(_, buf). Inr (s\<lparr>s_appImgBuffer := (case buf of Some b \<Rightarrow> b | None \<Rightarrow> s_appImgBuffer s)\<rparr>))"

fun write_buf_loop :: "u32 \<Rightarrow> nat \<Rightarrow> nat \<Rightarrow> u8 list \<Rightarrow> u8 list \<Rightarrow> (int \<times> u8 list) outcome" where
  "write_buf_loop offset i 0 pbuf app = Inr (SLN_FLASH_NO_ERROR, app)"
| "write_buf_loop offset i (Suc k) pbuf app =
     (if EXT_FLASH_ERASE_PAGE \<le> offset + of_nat i then Inr (SLN_FLASH_ERROR, app)
      else case pbuf of [] \<Rightarrow> Inl MemFault
        | v # rest \<Rightarrow> write_buf_loop offset (Suc i) k rest (app[unat (offset + of_nat i) := v]))"

definition FICA_write_buf :: "u32 \<Rightarrow> u32 \<Rightarrow> u8 list option \<Rightarrow> 'd fica_st \<Rightarrow> (int \<times> 'd fica_st) outcome" where
  "FICA_write_buf offset len buf s =
    (let offset = offset - FICA_START_ADDR in
     case buf of None \<Rightarrow> Inr (SLN_FLASH_ERROR, s)
     | Some pbuf \<Rightarrow> rbind (write_buf_loop offset 0 (unat len) pbuf (s_appImgBuffer s))
         (\<lambda>(status, app). Inr (status, s\<lparr>s_appImgBuffer := app\<rparr>)))"

fun read_buf_loop :: "u32 \<Rightarrow> nat \<Rightarrow> nat \<Rightarrow> u8 list \<Rightarrow> u8 list \<Rightarrow> (int \<times> u8 list) outcome" where
  "read_buf_loop offset i 0 app pbuf = Inr (SLN_FLASH_NO_ERROR, pbuf)"
| "read_buf_loop offset i (Suc k) app pbuf =
     (if EXT_FLASH_ERASE_PAGE \<le> offset + of_nat i then Inr (SLN_FLASH_ERROR, pbuf)
      else if length pbuf \<le> i then Inl MemFault
      else read_buf_loop offset (Suc i) k app (pbuf[i := app ! unat (offset + of_nat i)]))"

definition FICA_read_buf :: "u32 \<Rightarrow> u32 \<Rightarrow> u8 list option \<Rightarrow> 'd fica_st \<Rightarrow> (int \<times> u8 list option) outcome" where
  "FICA_read_buf offset len buf s =
    (case buf of None \<Rightarrow> Inr (SLN_FLASH_ERROR, None)
     | Some pbuf \<Rightarrow> rbind (read_buf_loop offset 0 (unat len) (s_appImgBuffer s) pbuf)
         (\<lambda>(status, pbuf). Inr (status, Some pbuf)))"

text \<open>\<open>FICA_read_db\<close>: the sector of the table into the image buffer, a page at a time.\<close>

lemma unat_step_page:
  fixes r :: u32
  assumes "unat r < 16777216"
  shows "unat (r + 256) = unat r + 256"
  using assms unat_add_small [of r 256] by simp

function read_db_loop :: "'d flexspi_if \<Rightarrow> u32 \<Rightarrow> nat \<Rightarrow> 'd fica_st \<Rightarrow> (int \<times> 'd fica_st) outcome" where
  "read_db_loop X runaddr off s =
     (if runaddr < FICA_START_ADDR + FICA_TABLE_SIZE then
        rbind (SLN_Read_Flash_At_Address X runaddr (drop off (s_appImgBuffer s)) EXT_FLASH_PROGRAM_PAGE (board s))
          (\<lambda>(status, tl). let s = s\<lparr>s_appImgBuffer := take off (s_appImgBuffer s) @ tl\<rparr> in
            if status \<noteq> SLN_FLASH_NO_ERROR then Inr (SLN_FLASH_ERROR, s)
            else read_db_loop X (runaddr + EXT_FLASH_PROGRAM_PAGE) (off + unat EXT_FLASH_PROGRAM_PAGE) s)
      else Inr (SLN_FLASH_NO_ERROR, s))"
  by pat_completeness auto
termination
  by (relation "measure (\<lambda>(X, a, off, s). 16777216 - unat a)")
    (auto simp: word_less_nat_alt unat_step_page)

declare read_db_loop.simps [simp del]

definition FICA_read_db :: "'d flexspi_if \<Rightarrow> 'd fica_st \<Rightarrow> (int \<times> 'd fica_st) outcome" where
  "FICA_read_db X s = read_db_loop X FICA_START_ADDR 0 s"

section \<open>The table in RAM and in flash\<close>

text \<open>The read of the table into \<open>s_fica\<close> that most operations start with.\<close>

definition load_fica :: "'d flexspi_if \<Rightarrow> 'd fica_st \<Rightarrow> (int \<times> 'd fica_st) outcome" where
  "load_fica X s =
    rbind (SLN_Read_Flash_At_Address X FICA_START_ADDR (encode_fica (s_fica s)) (of_nat fica_size) (board s))
      (\<lambda>(status, bs). Inr (status, s\<lparr>s_fica := decode_fica bs\<rparr>))"

function db_loop :: "'d flexspi_if \<Rightarrow> u32 \<Rightarrow> u8 list \<Rightarrow> u32 \<Rightarrow> u32 \<Rightarrow> 'd board \<Rightarrow> (int \<times> 'd board) outcome" where
  "db_loop X runaddr bufptr len pageCount b =
    (let toCopy = (if FLASH_PAGE_SIZE < len then FLASH_PAGE_SIZE else len) in
     rbind (SLN_Write_Flash_Page X runaddr bufptr toCopy b) (\<lambda>(status, b).
     if SLN_FLASH_NO_ERROR \<noteq> status then Inr (SLN_FLASH_ERROR, b)
     else if pageCount - 1 = 0 then Inr (status, b)
     else db_loop X (runaddr + FLASH_PAGE_SIZE) (drop (unat FLASH_PAGE_SIZE) bufptr)
            (len - FLASH_PAGE_SIZE) (pageCount - 1) b))"
  by pat_completeness auto
termination
  by (relation "measure (\<lambda>(X, a, buf, len, pc, b). unat (pc - 1))")
    (auto intro!: measure_unat [of "p - 1" for p :: u32, simplified])

declare db_loop.simps [simp del]

definition FICA_write_db :: "'d flexspi_if \<Rightarrow> 'd fica_st \<Rightarrow> (int \<times> 'd fica_st) outcome" where
  "FICA_write_db X s =
    (let bufptr = encode_fica (s_fica s) in
     rbind (on_board (SLN_Erase_Sector X FICA_START_ADDR) s) (\<lambda>(status, s).
     rbind (if SLN_FLASH_NO_ERROR = status then
              let runaddr = FICA_START_ADDR;
                  endaddr = FICA_START_ADDR + of_nat fica_size;
                  len = endaddr - runaddr;
                  pageCount = len div FLASH_PAGE_SIZE;
                  pageMod = len mod FLASH_PAGE_SIZE;
                  pageCount = (if pageMod \<noteq> 0 then pageCount + 1 else pageCount)
              in on_board (db_loop X runaddr bufptr len pageCount) s
            else Inr (status, s)) (\<lambda>(status, s).
     if SLN_FLASH_NO_ERROR = status then load_fica X s else Inr (status, s))))"

text \<open>The data pointer is a \<open>uint32_t *\<close>: a step of a page moves it by four pages of bytes.\<close>

function full_page_loop :: "'d flexspi_if \<Rightarrow> u32 \<Rightarrow> u32 \<Rightarrow> u8 list \<Rightarrow> 'd fica_st \<Rightarrow> (int \<times> 'd fica_st) outcome" where
  "full_page_loop X offset run_offset pdatabuf s =
     (if run_offset < EXT_FLASH_ERASE_PAGE then
        rbind (on_board (SLN_Write_Flash_At_Address X (offset + run_offset) pdatabuf) s) (\<lambda>(status, s).
        if status \<noteq> SLN_FLASH_NO_ERROR then Inr (SLN_FLASH_ERROR, s)
        else full_page_loop X offset (run_offset + EXT_FLASH_PROGRAM_PAGE)
               (drop (4 * unat EXT_FLASH_PROGRAM_PAGE) pdatabuf) s)
      else Inr (SLN_FLASH_NO_ERROR, s))"
  by pat_completeness auto
termination
  by (relation "measure (\<lambda>(X, a, r, buf, s). 16777216 - unat r)")
    (auto simp: word_less_nat_alt unat_step_page)

declare full_page_loop.simps [simp del]

definition FICA_write_full_page ::
    "'d flexspi_if \<Rightarrow> u32 \<Rightarrow> u32 \<Rightarrow> u32 \<Rightarrow> u8 list \<Rightarrow> 'd fica_st \<Rightarrow> (int \<times> 'd fica_st) outcome" where
  "FICA_write_full_page X offset progpagesize erasepagersize pdatabuf s =
    rbind (on_board (SLN_Erase_Sector X offset) s) (\<lambda>(status, s).
    if status \<noteq> SLN_FLASH_NO_ERROR then Inr (SLN_FLASH_ERROR, s)
    else full_page_loop X offset 0 pdatabuf s)"

text \<open>Without the debug build this only reports the error counter.\<close>

definition FICA_read_for_debug :: "u32 \<Rightarrow> u32 \<Rightarrow> 'd fica_st \<Rightarrow> int" where
  "FICA_read_for_debug addr len s = (if ErrorCnt s \<noteq> 0 then SLN_FLASH_ERROR else SLN_FLASH_NO_ERROR)"

section \<open>Image banks\<close>

definition FICA_get_app_img_start_addr :: "int \<Rightarrow> u32 option \<Rightarrow> int \<times> u32 option" where
  "FICA_get_app_img_start_addr imgtype startaddr =
    (case startaddr of None \<Rightarrow> (SLN_FLASH_ERROR, None)
     | Some _ \<Rightarrow>
       let a = (if imgtype = FICA_IMG_TYPE_BOOTLOADER then FICA_IMG_BOOTLOADER_ADDR
                else if imgtype = FICA_IMG_TYPE_APP_A then FICA_IMG_APP_A_ADDR
                else if imgtype = FICA_IMG_TYPE_APP_B then FICA_IMG_APP_B_ADDR
                else FICA_IMG_INVALID_ADDR)
       in (if a \<noteq> FICA_IMG_INVALID_ADDR then SLN_FLASH_NO_ERROR else SLN_FLASH_ERROR, Some a))"

definition FICA_get_app_img_max_size :: "int \<Rightarrow> u32 option \<Rightarrow> int \<times> u32 option" where
  "FICA_get_app_img_max_size imgtype maximgsize =
    (case maximgsize of None \<Rightarrow> (SLN_FLASH_ERROR, None)
     | Some _ \<Rightarrow>
       let a = (if imgtype = FICA_IMG_TYPE_BOOTLOADER then FICA_IMG_BOOTLOADER_SIZE
                else if imgtype = FICA_IMG_TYPE_APP_A then FICA_IMG_APP_A_SIZE
                else if imgtype = FICA_IMG_TYPE_APP_B then FICA_IMG_APP_B_SIZE
                else 0)
       in (if a \<noteq> 0 then SLN_FLASH_NO_ERROR else SLN_FLASH_ERROR, Some a))"

definition FICA_GetImgTypeFromAddr :: "u32 \<Rightarrow> int \<Rightarrow> int \<times> int" where
  "FICA_GetImgTypeFromAddr appaddr imgtype =
    (if appaddr = FICA_IMG_APP_A_ADDR then (SLN_FLASH_NO_ERROR, FICA_IMG_TYPE_APP_A)
     else if appaddr = FICA_IMG_APP_B_ADDR then (SLN_FLASH_NO_ERROR, FICA_IMG_TYPE_APP_B)
     else if appaddr = FICA_IMG_BOOTLOADER_ADDR then (SLN_FLASH_NO_ERROR, FICA_IMG_TYPE_BOOTLOADER)
     else (SLN_FLASH_ERROR, imgtype))"

text \<open>
  The reset handler is read from the vector table in use; its address as a parameter. The offsets
  are signed 32-bit values.
\<close>

definition in_bank :: "u32 \<Rightarrow> u32 \<Rightarrow> u32 \<Rightarrow> bool" where
  "in_bank isr addr sz = (let resetIsrOffset = sint (isr - addr) in 0 \<le> resetIsrOffset \<and> resetIsrOffset < sint sz)"

definition FICA_GetImgTypeFromResetISRAddr :: "u32 \<Rightarrow> int option \<Rightarrow> int \<times> int option" where
  "FICA_GetImgTypeFromResetISRAddr resetISR ptype =
    (case ptype of None \<Rightarrow> (SLN_FLASH_ERROR, None)
     | Some t \<Rightarrow>
       let resetISRAddress = resetISR - FLEXSPI_AMBA_BASE in
       if in_bank resetISRAddress FICA_IMG_BOOTLOADER_ADDR FICA_IMG_BOOTLOADER_SIZE
         then (SLN_FLASH_NO_ERROR, Some FICA_IMG_TYPE_BOOTLOADER)
       else if in_bank resetISRAddress FICA_IMG_APP_A_ADDR FICA_IMG_APP_A_SIZE
         then (SLN_FLASH_NO_ERROR, Some FICA_IMG_TYPE_APP_A)
       else if in_bank resetISRAddress FICA_IMG_APP_B_ADDR FICA_IMG_APP_B_SIZE
         then (SLN_FLASH_NO_ERROR, Some FICA_IMG_TYPE_APP_B)
       else (SLN_FLASH_ERROR, Some t))"

section \<open>Records, flags and boot types\<close>

definition valid_img_type :: "int \<Rightarrow> bool" where
  "valid_img_type t \<longleftrightarrow> \<not> (t \<le> FICA_IMG_TYPE_NONE \<or> FICA_NUM_IMG_TYPES \<le> t)"

definition FICA_write_image_info ::
    "'d flexspi_if \<Rightarrow> int \<Rightarrow> u32 \<Rightarrow> u32 \<Rightarrow> 'd fica_st \<Rightarrow> (int \<times> 'd fica_st) outcome" where
  "FICA_write_image_info X imgtype imgfmt len s =
    (let status = (if \<not> valid_img_type imgtype then SLN_FLASH_ERROR else SLN_FLASH_NO_ERROR);
         (status, startaddr) = (if SLN_FLASH_NO_ERROR = status
            then FICA_get_app_img_start_addr imgtype (Some 0) else (status, Some 0))
     in if SLN_FLASH_NO_ERROR = status then
          FICA_write_db X (upd_record (nat imgtype) (\<lambda>r. r\<lparr>rec_descriptor := FICA_IMG_DESC_ID,
            imgType := word_of_int imgtype, imgAddr := the startaddr, imgLen := len, imgFmt := imgfmt\<rparr>) s)
        else Inr (status, s))"

definition FICA_write_image_record ::
    "'d flexspi_if \<Rightarrow> int \<Rightarrow> u32 \<Rightarrow> u32 \<Rightarrow> u8 list option \<Rightarrow> 'd fica_st \<Rightarrow> (int \<times> 'd fica_st) outcome" where
  "FICA_write_image_record X imgtype imgaddr imglen imgsig s =
    (let status = (if imgsig = None then SLN_FLASH_ERROR else SLN_FLASH_NO_ERROR);
         status = (if SLN_FLASH_NO_ERROR = status \<and> \<not> valid_img_type imgtype then SLN_FLASH_ERROR else status)
     in if SLN_FLASH_NO_ERROR = status then
          FICA_write_db X (upd_record (nat imgtype) (\<lambda>r. r\<lparr>rec_descriptor := FICA_IMG_DESC_ID,
            imgType := word_of_int imgtype, imgAddr := imgaddr, imgLen := imglen, imgFmt := FICA_IMG_FMT_BIN\<rparr>) s)
        else Inr (status, s))"

definition is_FICA_initialized :: "'d fica_st \<Rightarrow> bool" where
  "is_FICA_initialized s \<longleftrightarrow>
    descriptor (header (s_fica s)) = FICA_ICA_DESC \<and> version (header (s_fica s)) = FICA_VER"

definition FICA_read_flash_id :: "'d flexspi_if \<Rightarrow> u8 \<Rightarrow> 'd fica_st \<Rightarrow> int \<times> 'd fica_st" where
  "FICA_read_flash_id X pid s =
    (case SLN_ram_disable_irq (board s) of (irqState, b) \<Rightarrow>
     let b = SLN_ram_disable_d_cache b in
     case flexspi_nor_get_vendor_id X (bd_dev b) of (ret, fid, d) \<Rightarrow>
     let b = b\<lparr>bd_dev := d\<rparr>;
         ret = (if SLN_FLASH_NO_ERROR \<noteq> ret then SLN_FLASH_ERROR else ret);
         ret = (if SLN_FLASH_NO_ERROR = ret then if pid \<noteq> fid then SLN_FLASH_ERROR else ret else ret);
         b = SLN_ram_enable_d_cache b;
         b = SLN_ram_enable_irq irqState b
     in (ret, s\<lparr>board := b\<rparr>))"

definition FICA_verify_ext_flash :: "'d flexspi_if \<Rightarrow> 'd fica_st \<Rightarrow> int \<times> 'd fica_st" where
  "FICA_verify_ext_flash X s =
    (case FICA_read_flash_id X FLASH_VENDOR_ID s of (r, s) \<Rightarrow>
     (if r \<noteq> SLN_FLASH_NO_ERROR then SLN_FLASH_ERROR else SLN_FLASH_NO_ERROR, s))"

text \<open>The loop of the initialisation over the image types, stopped by the first failure.\<close>

fun init_records :: "'d flexspi_if \<Rightarrow> int list \<Rightarrow> int \<Rightarrow> 'd fica_st \<Rightarrow> (int \<times> 'd fica_st) outcome" where
  "init_records X [] status s = Inr (status, s)"
| "init_records X (imgtype # ts) status s =
     rbind (FICA_write_image_info X imgtype FICA_IMG_FMT_NONE 0 s) (\<lambda>(status, s).
     if SLN_FLASH_NO_ERROR \<noteq> status then Inr (SLN_FLASH_ERROR, s) else init_records X ts status s)"

text \<open>The branch of \<open>FICA_initialize\<close> that writes a fresh table.\<close>

definition write_default_table :: "'d flexspi_if \<Rightarrow> 'd fica_st \<Rightarrow> (int \<times> 'd fica_st) outcome" where
  "write_default_table X s =
    (let s = s\<lparr>s_fica := fica_zero\<rparr> in
     rbind (on_board (SLN_Erase_Sector X FICA_START_ADDR) s) (\<lambda>(status, s).
     if kStatus_Success = status then
       let s = upd_header (\<lambda>h. h\<lparr>descriptor := FICA_ICA_DESC, version := FICA_VER,
                 currType := word_of_int FICA_IMG_TYPE_APP_A,
                 communication := FICA_COMM_AIS_OTA_BIT OR FICA_COMM_FWUPDATE_BIT
                   OR FICA_COMM_FWUPDATE_METHOD_BIT\<rparr>) s
       in init_records X [FICA_IMG_TYPE_BOOTLOADER, FICA_IMG_TYPE_APP_A, FICA_IMG_TYPE_APP_B] status s
     else Inr (status, s)))"

definition FICA_initialize :: "'d flexspi_if \<Rightarrow> 'd fica_st \<Rightarrow> (int \<times> 'd fica_st) outcome" where
  "FICA_initialize X s =
    (case FICA_verify_ext_flash X s of (status, s) \<Rightarrow>
     let status = (if SLN_FLASH_NO_ERROR \<noteq> status then SLN_FLASH_ERROR else status) in
     rbind (if SLN_FLASH_NO_ERROR = status then load_fica X s else Inr (status, s)) (\<lambda>(status, s).
     let isInitialized = (if SLN_FLASH_NO_ERROR = status then is_FICA_initialized s else False) in
     if \<not> isInitialized then write_default_table X s else Inr (status, s)))"

definition FICA_get_comm_flag :: "'d flexspi_if \<Rightarrow> u32 \<Rightarrow> bool \<Rightarrow> 'd fica_st \<Rightarrow> ((int \<times> bool) \<times> 'd fica_st) outcome" where
  "FICA_get_comm_flag X comflag flagstate s =
    rbind (load_fica X s) (\<lambda>(status, s).
    if SLN_FLASH_NO_ERROR = status
    then Inr ((status, communication (header (s_fica s)) AND comflag \<noteq> 0), s)
    else Inr ((status, flagstate), s))"

definition FICA_set_comm_flag :: "'d flexspi_if \<Rightarrow> u32 \<Rightarrow> 'd fica_st \<Rightarrow> (int \<times> 'd fica_st) outcome" where
  "FICA_set_comm_flag X comflag s =
    rbind (load_fica X s) (\<lambda>(status, s).
    if SLN_FLASH_NO_ERROR = status then
      if \<not> (comflag AND communication (header (s_fica s)) \<noteq> 0)
      then FICA_write_db X (upd_header (\<lambda>h. h\<lparr>communication := communication h OR comflag\<rparr>) s)
      else Inr (status, s)
    else Inr (status, s))"

definition FICA_clr_comm_flag :: "'d flexspi_if \<Rightarrow> u32 \<Rightarrow> 'd fica_st \<Rightarrow> (int \<times> 'd fica_st) outcome" where
  "FICA_clr_comm_flag X comflag s =
    rbind (load_fica X s) (\<lambda>(status, s).
    if SLN_FLASH_NO_ERROR = status then
      if comflag AND communication (header (s_fica s)) \<noteq> 0
      then FICA_write_db X (upd_header (\<lambda>h. h\<lparr>communication := communication h AND NOT comflag\<rparr>) s)
      else Inr (status, s)
    else Inr (status, s))"

definition FICA_get_new_app_img_type :: "'d flexspi_if \<Rightarrow> int \<Rightarrow> 'd fica_st \<Rightarrow> ((int \<times> int) \<times> 'd fica_st) outcome" where
  "FICA_get_new_app_img_type X imgtype s =
    rbind (load_fica X s) (\<lambda>(status, s).
    Inr ((status, if SLN_FLASH_NO_ERROR = status then sint (newType (header (s_fica s))) else imgtype), s))"

text \<open>The boot type of the table indexes the array of records without a check.\<close>

definition FICA_GetCurBootStartAddr :: "'d flexspi_if \<Rightarrow> u32 \<Rightarrow> 'd fica_st \<Rightarrow> ((int \<times> u32) \<times> 'd fica_st) outcome" where
  "FICA_GetCurBootStartAddr X paddr s =
    rbind (load_fica X s) (\<lambda>(status, s).
    if SLN_FLASH_NO_ERROR = status then
      let i = unat (currBootType (header (s_fica s))) in
      if i < length (records (s_fica s)) then Inr ((status, imgAddr (records (s_fica s) ! i)), s)
      else Inl MemFault
    else Inr ((status, paddr), s))"

definition FICA_GetCurAppStartType ::
    "'d flexspi_if \<Rightarrow> int option \<Rightarrow> 'd fica_st \<Rightarrow> ((int \<times> int option) \<times> 'd fica_st) outcome" where
  "FICA_GetCurAppStartType X pimgtype s =
    (case pimgtype of None \<Rightarrow> Inr ((SLN_FLASH_ERROR, None), s)
     | Some _ \<Rightarrow>
       rbind (FICA_initialize X s) (\<lambda>(status, s).
       if SLN_FLASH_NO_ERROR = status then
         let t = sint (currType (header (s_fica s))) in
         if t \<noteq> FICA_IMG_TYPE_APP_A \<and> t \<noteq> FICA_IMG_TYPE_APP_B then
           rbind (FICA_write_db X (upd_header (\<lambda>h. h\<lparr>currType := word_of_int FICA_IMG_TYPE_APP_A\<rparr>) s))
             (\<lambda>(status, s). Inr ((status, Some FICA_IMG_TYPE_APP_A), s))
         else Inr ((status, Some t), s)
       else Inr ((status, Some FICA_IMG_TYPE_NONE), s)))"

definition FICA_GetNewAppStartAddr :: "'d fica_st \<Rightarrow> int \<times> u32" where
  "FICA_GetNewAppStartAddr s = (SLN_FLASH_NO_ERROR, s_newAppImgStartAddr s)"

definition FICA_SetCurBootType :: "'d flexspi_if \<Rightarrow> int \<Rightarrow> 'd fica_st \<Rightarrow> (int \<times> 'd fica_st) outcome" where
  "FICA_SetCurBootType X imgtype s =
    FICA_write_db X (upd_header (\<lambda>h. h\<lparr>currBootType := word_of_int imgtype\<rparr>) s)"

definition FICA_SetCurAppStartType :: "'d flexspi_if \<Rightarrow> int \<Rightarrow> 'd fica_st \<Rightarrow> (int \<times> 'd fica_st) outcome" where
  "FICA_SetCurAppStartType X imgtype s =
    FICA_write_db X (upd_header (\<lambda>h. h\<lparr>currType := word_of_int imgtype\<rparr>) s)"

section \<open>The update flag and the USB mode\<close>

definition FICA_is_OTA_FlashBitCleared :: "'d flexspi_if \<Rightarrow> 'd fica_st \<Rightarrow> (bool \<times> 'd fica_st) outcome" where
  "FICA_is_OTA_FlashBitCleared X s =
    rbind (FICA_initialize X s) (\<lambda>(status, s).
    if status \<noteq> SLN_FLASH_NO_ERROR then Inr (False, s) else
    rbind (FICA_get_comm_flag X FICA_COMM_AIS_OTA_BIT False s) (\<lambda>((status, otaflag), s).
    if status \<noteq> SLN_FLASH_NO_ERROR then Inr (False, s)
    else if otaflag = False then Inr (True, s) else Inr (False, s)))"

definition FICA_Set_OTA_FlashBit :: "'d flexspi_if \<Rightarrow> 'd fica_st \<Rightarrow> (int \<times> 'd fica_st) outcome" where
  "FICA_Set_OTA_FlashBit X s =
    rbind (FICA_initialize X s) (\<lambda>(status, s).
    if SLN_FLASH_NO_ERROR = status then FICA_set_comm_flag X FICA_COMM_AIS_OTA_BIT s else Inr (status, s))"

definition FICA_Clear_OTA_FlashBit :: "'d flexspi_if \<Rightarrow> 'd fica_st \<Rightarrow> (int \<times> 'd fica_st) outcome" where
  "FICA_Clear_OTA_FlashBit X s =
    rbind (FICA_initialize X s) (\<lambda>(status, s).
    if SLN_FLASH_NO_ERROR = status then FICA_clr_comm_flag X FICA_COMM_AIS_OTA_BIT s else Inr (status, s))"

definition FICA_set_usb_mode :: "'d flexspi_if \<Rightarrow> 'd fica_st \<Rightarrow> (int \<times> 'd fica_st) outcome" where
  "FICA_set_usb_mode X s =
    rbind (FICA_initialize X s) (\<lambda>(status, s).
    if SLN_FLASH_NO_ERROR = status then FICA_set_comm_flag X FICA_COMM_AIS_USB_BIT s else Inr (status, s))"

definition FICA_clr_usb_mode :: "'d flexspi_if \<Rightarrow> 'd fica_st \<Rightarrow> (int \<times> 'd fica_st) outcome" where
  "FICA_clr_usb_mode X s =
    rbind (FICA_initialize X s) (\<lambda>(status, s).
    if SLN_FLASH_NO_ERROR = status then FICA_clr_comm_flag X FICA_COMM_AIS_USB_BIT s else Inr (status, s))"

definition FICA_get_usb_mode :: "'d flexspi_if \<Rightarrow> bool \<Rightarrow> 'd fica_st \<Rightarrow> ((int \<times> bool) \<times> 'd fica_st) outcome" where
  "FICA_get_usb_mode X isUSB s =
    rbind (FICA_initialize X s) (\<lambda>(status, s).
    rbind (if SLN_FLASH_NO_ERROR = status then FICA_get_comm_flag X FICA_COMM_AIS_USB_BIT False s
           else Inr ((status, False), s)) (\<lambda>((status, temp), s).
    Inr ((status, if SLN_FLASH_NO_ERROR = status then temp else isUSB), s)))"

section \<open>Erasing a bank\<close>

partial_function (option) erase_bank_loop ::
    "(u32 \<Rightarrow> 'd board \<Rightarrow> (int \<times> 'd board) outcome) \<Rightarrow> u32 \<Rightarrow> u32 \<Rightarrow> u32 \<Rightarrow> 'd board \<Rightarrow>
      (int \<times> 'd board) outcome option" where
  "erase_bank_loop erase_fun sizeIncrement endaddr runaddr b =
    (if runaddr < endaddr then
       (case erase_fun runaddr b of Inl e \<Rightarrow> Some (Inl e)
        | Inr (status, b) \<Rightarrow>
            if status \<noteq> kStatus_Success then Some (Inr (SLN_FLASH_ERROR, b))
            else erase_bank_loop erase_fun sizeIncrement endaddr (runaddr + sizeIncrement) b)
     else Some (Inr (SLN_FLASH_NO_ERROR, b)))"

definition FICA_Erase_Bank :: "'d flexspi_if \<Rightarrow> u32 \<Rightarrow> u32 \<Rightarrow> 'd fica_st \<Rightarrow> (int \<times> 'd fica_st) outcome" where
  "FICA_Erase_Bank X startaddr banksize s =
    (let sizeIncrement = (if startaddr AND (EXT_FLASH_ERASE_BLOCK - 1) \<noteq> 0
                          then EXT_FLASH_ERASE_PAGE else EXT_FLASH_ERASE_BLOCK);
         erase_fun = (if startaddr AND (EXT_FLASH_ERASE_BLOCK - 1) \<noteq> 0
                      then SLN_Erase_Sector X else SLN_Erase_Block X)
     in on_board (\<lambda>b. returns (erase_bank_loop erase_fun sizeIncrement (startaddr + banksize) startaddr b)) s)"

end
