(* ===== verification/Fica_Spec.thy ===== *)
theory Fica_Spec
  imports Fica_Driver
begin

text \<open>
  What the FICA driver promises. The abstract state is the table stored in the flash,
  \<open>table X b\<close>: loading the RAM copy reads it, a successful write-back replaces it and
  changes no byte outside its sector, and the flag operations are bit operations on its
  communication word. The file also shows that every operation keeps the RAM structures well
  formed, and that the operations return on a chip that answers.
\<close>

section \<open>The stored table\<close>

definition table :: "'d flexspi_if \<Rightarrow> 'd board \<Rightarrow> fica_t" where
  "table X b = decode_fica (peek (bflash X b) 0xFFF000 fica_size)"

definition outside_table :: "nat \<Rightarrow> bool" where
  "outside_table n \<longleftrightarrow> n div 0x1000 \<noteq> 0xFFF"

lemma fica_start [simp]: "unat FICA_START_ADDR = 0xFFF000"
  by simp

text \<open>What every operation on the table keeps: only the board and the RAM copy of the table change,
  and no byte of the flash outside the sector of the table.\<close>

definition table_op :: "'d flexspi_if \<Rightarrow> 'd fica_st \<Rightarrow> 'd fica_st \<Rightarrow> bool" where
  "table_op X s s' \<longleftrightarrow> s' = s\<lparr>board := board s', s_fica := s_fica s'\<rparr> \<and> fica_wf (s_fica s') \<and>
     (\<forall>n. outside_table n \<longrightarrow> bflash X (board s') n = bflash X (board s) n)"

lemma table_op_trans: "table_op X s t \<Longrightarrow> table_op X t u \<Longrightarrow> table_op X s u"
  by (cases s; cases t; cases u) (simp add: table_op_def)

lemma table_wf: "fica_wf (table X b)"
  by (simp add: table_def decode_fica_wf)

lemma table_cong: "bflash X b = bflash X b' \<Longrightarrow> table X b = table X b'"
  by (simp add: table_def)

lemma load_fica_eq:
  assumes "fica_wf (s_fica s)"
  shows "load_fica X s = Inr (0, s\<lparr>s_fica := table X (board s)\<rparr>)"
  using assms read_flash [of FICA_START_ADDR "of_nat fica_size" "encode_fica (s_fica s)" X "board s"]
  by (simp add: load_fica_def table_def length_encode_fica)

lemma db_loop_run:
  assumes "length buf = fica_size"
  shows "db_loop X FICA_START_ADDR buf (of_nat fica_size) 4 b =
    rbind (program_run (\<lambda>a pg. guarded (flexspi_nor_flash_page_program X a pg)) FICA_START_ADDR
      (chop 4 fica_size buf) b) (\<lambda>(st, b). Inr (if st = 0 then 0 else -1, b))"
proof -
  have "db_loop X FICA_START_ADDR buf (of_nat fica_size) 4 b =
    rbind (program_run (\<lambda>a pg. guarded (flexspi_nor_flash_page_program X a pg)) FICA_START_ADDR
      (chop (unat (4 :: u32)) (unat (of_nat fica_size :: u32)) buf) b)
      (\<lambda>(st, b). Inr (if st = 0 then 0 else -1, b))"
    by (rule page_loop_run [where W = "SLN_Write_Flash_Page X" and err = "\<lambda>_. - 1"])
      (use assms in \<open>(subst db_loop.simps)?, auto simp: SLN_Write_Flash_Page_eq word_less_nat_alt
        intro!: rbind_cong\<close>)
  then show ?thesis by simp
qed

lemma FICA_write_db_run:
  assumes "fica_wf (s_fica s)"
  shows "FICA_write_db X s =
    rbind (SLN_Erase_Sector X FICA_START_ADDR (board s)) (\<lambda>(st, b).
    if st \<noteq> 0 then Inr (st, s\<lparr>board := b\<rparr>) else
    rbind (program_run (\<lambda>a pg. guarded (flexspi_nor_flash_page_program X a pg)) FICA_START_ADDR
      (chop 4 fica_size (encode_fica (s_fica s))) b) (\<lambda>(st, b).
    if st \<noteq> 0 then Inr (-1, s\<lparr>board := b\<rparr>)
    else Inr (0, s\<lparr>board := b, s_fica := table X b\<rparr>)))"
proof -
  have pc: "(let pageCount = (of_nat fica_size :: u32) div FLASH_PAGE_SIZE in
      if (of_nat fica_size :: u32) mod FLASH_PAGE_SIZE \<noteq> 0 then pageCount + 1 else pageCount) = 4"
    by simp
  show ?thesis
    using db_loop_run [OF length_encode_fica [OF assms], of X] assms
    by (auto simp: FICA_write_db_def on_board_def rbind_assoc load_fica_eq Let_def
        intro!: rbind_cong split: prod.splits)
qed

context spi_device begin

lemma write_db_ok:
  assumes "FICA_write_db X s = Inr (0, s')" and "fica_wf (s_fica s)"
  shows "s' = s\<lparr>board := board s'\<rparr>" and "table X (board s') = s_fica s" and "s_fica s' = s_fica s"
proof -
  let ?buf = "encode_fica (s_fica s)"
  obtain b b' where e: "SLN_Erase_Sector X FICA_START_ADDR (board s) = Inr (0, b)"
    and r: "program_run (\<lambda>a pg. guarded (flexspi_nor_flash_page_program X a pg)) FICA_START_ADDR
      (chop 4 fica_size ?buf) b = Inr (0, b')"
    and s': "s' = s\<lparr>board := b', s_fica := table X b'\<rparr>"
    using assms(1) unfolding FICA_write_db_run [OF assms(2)]
    by (auto elim!: rbind_InrE split: if_splits prod.splits)
  have l: "length ?buf = fica_size" by (rule length_encode_fica [OF assms(2)])
  have c: "concat (chop 4 fica_size ?buf) = ?buf @ replicate 76 0xFF"
    using concat_chop [of fica_size 4 ?buf] l by simp
  have b: "bflash X b = wipe 0x1000 0xFFF000 (bflash X (board s))"
    using paged.erase_ok [OF e] by simp
  have "bflash X b' = burn 0xFFF000 (?buf @ replicate 76 0xFF) (bflash X b)"
    using paged.program_run_ok [OF r] chop_pages [of fica_size ?buf] l c by simp
  then have "peek (bflash X b') 0xFFF000 fica_size = ?buf"
    using peek_burn_wiped [of "0xFFF000" "0x1000" "?buf @ replicate 76 0xFF" fica_size] l
    by (simp add: b)
  then have t: "table X b' = s_fica s"
    using decode_encode_fica [OF assms(2)] by (simp add: table_def)
  show "s' = s\<lparr>board := board s'\<rparr>" and "table X (board s') = s_fica s" and "s_fica s' = s_fica s"
    using s' t by simp_all
qed

lemma write_db_table_op:
  assumes "FICA_write_db X s = Inr (st, s')" and "fica_wf (s_fica s)"
  shows "table_op X s s'"
proof -
  obtain st1 b where e: "SLN_Erase_Sector X FICA_START_ADDR (board s) = Inr (st1, b)"
    and r: "st1 = 0 \<longrightarrow> (\<exists>st2 b'. program_run (\<lambda>a pg. guarded (flexspi_nor_flash_page_program X a pg))
        FICA_START_ADDR (chop 4 fica_size (encode_fica (s_fica s))) b = Inr (st2, b') \<and>
        (s' = s\<lparr>board := b'\<rparr> \<or> s' = s\<lparr>board := b', s_fica := table X b'\<rparr>))"
    and f: "st1 \<noteq> 0 \<longrightarrow> s' = s\<lparr>board := b\<rparr>"
    using assms(1) unfolding FICA_write_db_run [OF assms(2)]
    by (auto elim!: rbind_InrE split: if_splits prod.splits)
  have eb: "outside_table n \<Longrightarrow> bflash X b n = bflash X (board s) n" for n
    using paged.erase_frame [OF e] by (simp add: outside_table_def)
  show ?thesis
  proof (cases "st1 = 0")
    case True
    then obtain st2 b' where p: "program_run (\<lambda>a pg. guarded (flexspi_nor_flash_page_program X a pg))
        FICA_START_ADDR (chop 4 fica_size (encode_fica (s_fica s))) b = Inr (st2, b')"
      and s': "s' = s\<lparr>board := b'\<rparr> \<or> s' = s\<lparr>board := b', s_fica := table X b'\<rparr>"
      using r by blast
    have "outside_table n \<Longrightarrow> bflash X b' n = bflash X b n" for n
      using paged.program_run_frame [OF p, of n] unit_iff [of "0xFFF000" "0x1000" n]
      by (auto simp: outside_table_def)
    then show ?thesis using s' eb assms(2) by (auto simp: table_op_def table_wf)
  qed (use f eb assms(2) in \<open>auto simp: table_op_def\<close>)
qed

end

section \<open>Abstract operations on the table\<close>

definition comm_get :: "nat \<Rightarrow> fica_t \<Rightarrow> bool" where
  "comm_get n t = bit (communication (header t)) n"

definition comm_put :: "nat \<Rightarrow> bool \<Rightarrow> fica_t \<Rightarrow> fica_t" where
  "comm_put n v t = t\<lparr>header := (header t)\<lparr>communication :=
     (if v then set_bit n (communication (header t)) else unset_bit n (communication (header t)))\<rparr>\<rparr>"

text \<open>The communication word of the table is a word of flags.\<close>

interpretation comm: flag_word comm_get comm_put "\<lambda>n. n < 32" "\<lambda>m n. m \<noteq> n"
proof (unfold_locales, goal_cases)
  case (1 m v w)
  then show ?case by (simp add: comm_get_def comm_put_def bit_simps)
next
  case (2 m n v w)
  then show ?case by (simp add: comm_get_def comm_put_def bit_simps)
next
  case (3 m v u w)
  have "set_bit m (set_bit m c) = set_bit m c" "set_bit m (unset_bit m c) = set_bit m c"
    "unset_bit m (set_bit m c) = unset_bit m c" "unset_bit m (unset_bit m c) = unset_bit m c"
    for c :: u32
    by (rule bit_word_eqI; auto simp: bit_simps)+
  then show ?case by (simp add: comm_put_def)
qed

lemma comm_put_noop:
  "n < 32 \<Longrightarrow> comm_get n t = v \<Longrightarrow> comm_put n v t = t"
proof -
  assume "n < 32" and "comm_get n t = v"
  then have "(if v then set_bit n (communication (header t)) else unset_bit n (communication (header t))) =
      communication (header t)"
    by (intro bit_word_eqI) (auto simp: bit_simps comm_get_def)
  then show ?thesis by (simp add: comm_put_def)
qed

lemma comm_put_wf: "fica_wf (comm_put n v t) = fica_wf t"
  by (simp add: comm_put_def fica_wf_def)

lemma flag_test: "push_bit n 1 AND c \<noteq> (0 :: u32) \<longleftrightarrow> bit c n"
  by (simp add: bit_iff_and_push_bit_not_eq_0 and.commute)

context spi_device begin

text \<open>After a successful write-back the RAM copy and the stored table are the same.\<close>

lemma stored:
  assumes "FICA_write_db X (s\<lparr>s_fica := t\<rparr>) = Inr (0, s')" and "fica_wf t"
  shows "table X (board s') = t" and "s_fica s' = t"
  using write_db_ok [OF assms(1)] assms(2) by simp_all

lemma upd_header_load:
  "upd_header g (s\<lparr>s_fica := t\<rparr>) = s\<lparr>s_fica := t\<lparr>header := g (header t)\<rparr>\<rparr>"
  by (simp add: upd_header_def)

lemma set_comm_flag_ok:
  assumes "FICA_set_comm_flag X (push_bit n 1) s = Inr (0, s')" and "fica_wf (s_fica s)" and "n < 32"
  shows "table X (board s') = comm_put n True (table X (board s)) \<and> s_fica s' = table X (board s')"
proof (cases "comm_get n (table X (board s))")
  case True
  then have "s' = s\<lparr>s_fica := table X (board s)\<rparr>"
    using assms(1) by (simp add: FICA_set_comm_flag_def load_fica_eq [OF assms(2)] flag_test
        comm_get_def del: push_bit_of_1)
  then show ?thesis using comm_put_noop [OF assms(3), of "table X (board s)" True] True by simp
next
  case False
  then have "FICA_write_db X (s\<lparr>s_fica := comm_put n True (table X (board s))\<rparr>) = Inr (0, s')"
    using assms(1) by (simp add: FICA_set_comm_flag_def load_fica_eq [OF assms(2)] flag_test
        comm_get_def upd_header_load comm_put_def set_bit_eq_or del: push_bit_of_1)
  from stored [OF this] show ?thesis by (simp add: comm_put_wf table_wf)
qed

lemma clr_comm_flag_ok:
  assumes "FICA_clr_comm_flag X (push_bit n 1) s = Inr (0, s')" and "fica_wf (s_fica s)" and "n < 32"
  shows "table X (board s') = comm_put n False (table X (board s)) \<and> s_fica s' = table X (board s')"
proof (cases "comm_get n (table X (board s))")
  case False
  then have "s' = s\<lparr>s_fica := table X (board s)\<rparr>"
    using assms(1) by (simp add: FICA_clr_comm_flag_def load_fica_eq [OF assms(2)] flag_test
        comm_get_def del: push_bit_of_1)
  then show ?thesis using comm_put_noop [OF assms(3), of "table X (board s)" False] False by simp
next
  case True
  then have "FICA_write_db X (s\<lparr>s_fica := comm_put n False (table X (board s))\<rparr>) = Inr (0, s')"
    using assms(1) by (simp add: FICA_clr_comm_flag_def load_fica_eq [OF assms(2)] flag_test
        comm_get_def upd_header_load comm_put_def unset_bit_eq_and_not del: push_bit_of_1)
  from stored [OF this] show ?thesis by (simp add: comm_put_wf table_wf)
qed

lemma get_comm_flag_eq:
  assumes "fica_wf (s_fica s)"
  shows "FICA_get_comm_flag X (push_bit n 1) v s =
    Inr ((0, comm_get n (table X (board s))), s\<lparr>s_fica := table X (board s)\<rparr>)"
  using flag_test [of n "communication (header (table X (board s)))"]
  by (simp add: FICA_get_comm_flag_def load_fica_eq [OF assms] comm_get_def and.commute
      del: push_bit_of_1)

end

section \<open>Every table operation stays in its sector\<close>

lemma table_op_refl: "fica_wf (s_fica s) \<Longrightarrow> table_op X s s"
  by (simp add: table_op_def)

lemma table_op_load: "table_op X s (s\<lparr>s_fica := table X (board s)\<rparr>)"
  by (simp add: table_op_def table_wf)

lemma table_op_wf: "table_op X s s' \<Longrightarrow> fica_wf (s_fica s')"
  by (simp add: table_op_def)

lemma upd_header_wf [simp]: "fica_wf (s_fica (upd_header g s)) = fica_wf (s_fica s)"
  by (simp add: upd_header_def fica_wf_def)

lemma table_op_header: "fica_wf (s_fica s) \<Longrightarrow> table_op X s (upd_header g s)"
  by (simp add: table_op_def upd_header_def fica_wf_def)

lemma upd_record_wf:
  assumes "fica_wf (s_fica s)" and "\<And>r. record_wf r \<Longrightarrow> record_wf (g r)"
  shows "fica_wf (s_fica (upd_record i g s))"
proof (cases "i < length (records (s_fica s))")
  case True
  then have "set ((records (s_fica s))[i := g (records (s_fica s) ! i)]) \<subseteq>
      insert (g (records (s_fica s) ! i)) (set (records (s_fica s)))"
    by (simp add: set_update_subset_insert)
  then show ?thesis
    using assms True by (auto simp: fica_wf_def upd_record_def dest!: subsetD)
qed (use assms(1) in \<open>simp add: fica_wf_def upd_record_def list_update_beyond\<close>)

lemma table_op_record:
  "fica_wf (s_fica s) \<Longrightarrow> (\<And>r. record_wf r \<Longrightarrow> record_wf (g r)) \<Longrightarrow> table_op X s (upd_record i g s)"
  using upd_record_wf [of s g i] by (simp add: table_op_def upd_record_def)

context spi_device begin

lemma write_db_after:
  "FICA_write_db X s1 = Inr (st, s') \<Longrightarrow> table_op X s s1 \<Longrightarrow> table_op X s s'"
  by (blast intro: write_db_table_op table_op_trans table_op_wf)

lemma set_comm_flag_table_op:
  "FICA_set_comm_flag X m s = Inr (st, s') \<Longrightarrow> fica_wf (s_fica s) \<Longrightarrow> table_op X s s'"
  by (auto simp: FICA_set_comm_flag_def load_fica_eq table_op_load split: if_splits
      intro!: table_op_trans [OF table_op_load table_op_header] table_wf elim!: write_db_after)

lemma clr_comm_flag_table_op:
  "FICA_clr_comm_flag X m s = Inr (st, s') \<Longrightarrow> fica_wf (s_fica s) \<Longrightarrow> table_op X s s'"
  by (auto simp: FICA_clr_comm_flag_def load_fica_eq table_op_load split: if_splits
      intro!: table_op_trans [OF table_op_load table_op_header] table_wf elim!: write_db_after)

lemma get_comm_flag_table_op:
  "FICA_get_comm_flag X m v s = Inr (r, s') \<Longrightarrow> fica_wf (s_fica s) \<Longrightarrow> table_op X s s'"
  by (auto simp: FICA_get_comm_flag_def load_fica_eq table_op_load)

lemma write_image_info_table_op:
  "FICA_write_image_info X t fmt len s = Inr (st, s') \<Longrightarrow> fica_wf (s_fica s) \<Longrightarrow> table_op X s s'"
  by (auto simp: FICA_write_image_info_def Let_def record_wf_def split: if_splits prod.splits
      intro!: table_op_refl table_op_record elim!: write_db_after)

lemma write_image_record_table_op:
  "FICA_write_image_record X t a len sig s = Inr (st, s') \<Longrightarrow> fica_wf (s_fica s) \<Longrightarrow> table_op X s s'"
  by (auto simp: FICA_write_image_record_def Let_def record_wf_def split: if_splits prod.splits
      intro!: table_op_refl table_op_record elim!: write_db_after)

lemma init_records_table_op:
  "init_records X ts st0 s = Inr (st, s') \<Longrightarrow> fica_wf (s_fica s) \<Longrightarrow> table_op X s s'"
proof (induction ts arbitrary: st0 s)
  case (Cons t ts)
  obtain st1 s1 where w: "FICA_write_image_info X t FICA_IMG_FMT_NONE 0 s = Inr (st1, s1)"
    and r: "st1 = 0 \<longrightarrow> init_records X ts st1 s1 = Inr (st, s')" and "st1 \<noteq> 0 \<longrightarrow> s1 = s'"
    using Cons.prems(1) by (auto elim!: rbind_InrE split: if_splits)
  then show ?case
    using write_image_info_table_op [OF w Cons.prems(2)] Cons.IH [of st1 s1]
    by (cases "st1 = 0") (auto intro: table_op_trans dest: table_op_wf)
qed (auto intro: table_op_refl)

lemma read_flash_id_table_op:
  "FICA_read_flash_id X v s = (st, s') \<Longrightarrow> fica_wf (s_fica s) \<Longrightarrow>
   table_op X s s' \<and> s_fica s' = s_fica s \<and> bflash X (board s') = bflash X (board s)"
  by (auto simp: FICA_read_flash_id_def board_defs table_op_def bflash_def Let_def
      dest: vendor_id_flash split: prod.splits)

lemma verify_table_op:
  "FICA_verify_ext_flash X s = (st, s') \<Longrightarrow> fica_wf (s_fica s) \<Longrightarrow>
   table_op X s s' \<and> s_fica s' = s_fica s \<and> bflash X (board s') = bflash X (board s)"
  by (auto simp: FICA_verify_ext_flash_def split: prod.splits dest: read_flash_id_table_op)

lemma erase_table_op:
  assumes "on_board (SLN_Erase_Sector X FICA_START_ADDR) s = Inr (st, s')" and "fica_wf (s_fica s)"
  shows "table_op X s s'"
  using assms paged.erase_frame [of FICA_START_ADDR "board s" st "board s'"]
  by (auto simp: on_board_def table_op_def outside_table_def elim!: rbind_InrE)

lemma fresh_table_op: "table_op X s s' \<Longrightarrow> table_op X s (s'\<lparr>s_fica := fica_zero\<rparr>)"
  by (cases s; cases s') (simp add: table_op_def fica_zero_wf)

lemma default_table_op:
  assumes "write_default_table X s1 = Inr (st, s')" and "table_op X s s1"
  shows "table_op X s s'"
proof -
  obtain st2 s2 g where e: "on_board (SLN_Erase_Sector X FICA_START_ADDR) (s1\<lparr>s_fica := fica_zero\<rparr>) = Inr (st2, s2)"
    and r: "st2 \<noteq> 0 \<and> s' = s2 \<or> st2 = 0 \<and> init_records X [0, 1, 2] st2 (upd_header g s2) = Inr (st, s')"
    using assms(1) by (auto simp: write_default_table_def Let_def elim!: rbind_InrE split: if_splits)
  have t2: "table_op X s s2"
    using erase_table_op [OF e] fresh_table_op [OF assms(2)] by (auto simp: fica_zero_wf intro: table_op_trans)
  have "table_op X s (upd_header g s2)"
    by (rule table_op_trans [OF t2 table_op_header [OF table_op_wf [OF t2]]])
  then show ?thesis
    using r t2 init_records_table_op [of "[0, 1, 2]" st2 "upd_header g s2" st s'] table_op_wf [OF t2]
    by (auto intro: table_op_trans)
qed

lemma initialize_eq:
  assumes "fica_wf (s_fica s)" and "FICA_verify_ext_flash X s = (st0, s0)"
  shows "FICA_initialize X s =
    (if st0 = 0 then
       if is_FICA_initialized (s0\<lparr>s_fica := table X (board s0)\<rparr>)
       then Inr (0, s0\<lparr>s_fica := table X (board s0)\<rparr>)
       else write_default_table X (s0\<lparr>s_fica := table X (board s0)\<rparr>)
     else write_default_table X s0)"
proof -
  have "load_fica X s0 = Inr (0, s0\<lparr>s_fica := table X (board s0)\<rparr>)"
    by (rule load_fica_eq) (use verify_table_op [OF assms(2,1)] assms(1) in simp)
  then show ?thesis by (simp add: FICA_initialize_def assms(2))
qed

lemma initialize_table_op:
  assumes "FICA_initialize X s = Inr (st, s')" and "fica_wf (s_fica s)"
  shows "table_op X s s'"
proof -
  obtain st0 s0 where v: "FICA_verify_ext_flash X s = (st0, s0)" by fastforce
  have t0: "table_op X s s0" using verify_table_op [OF v assms(2)] by simp
  show ?thesis
    using assms(1) t0 table_op_trans [OF t0 table_op_load]
    by (auto simp: initialize_eq [OF assms(2) v] intro: default_table_op split: if_splits)
qed

lemma cur_app_table_op:
  assumes "FICA_GetCurAppStartType X p s = Inr (r, s')" and "fica_wf (s_fica s)"
  shows "table_op X s s'"
proof (cases p)
  case None
  then show ?thesis using assms by (simp add: FICA_GetCurAppStartType_def table_op_refl)
next
  case (Some t)
  then obtain st s1 where i: "FICA_initialize X s = Inr (st, s1)"
    and w: "s' = s1 \<or> (\<exists>g st'. FICA_write_db X (upd_header g s1) = Inr (st', s'))"
    using assms(1)
    by (auto simp: FICA_GetCurAppStartType_def Let_def elim!: rbind_InrE split: if_splits) blast
  have t1: "table_op X s s1" by (rule initialize_table_op [OF i assms(2)])
  then show ?thesis
    using w write_db_after table_op_trans [OF t1 table_op_header [OF table_op_wf [OF t1]]] by blast
qed

lemma new_type_table_op:
  "FICA_get_new_app_img_type X t s = Inr (r, s') \<Longrightarrow> fica_wf (s_fica s) \<Longrightarrow> table_op X s s'"
  by (auto simp: FICA_get_new_app_img_type_def load_fica_eq table_op_load)

lemma boot_addr_table_op:
  "FICA_GetCurBootStartAddr X a s = Inr (r, s') \<Longrightarrow> fica_wf (s_fica s) \<Longrightarrow> table_op X s s'"
  by (auto simp: FICA_GetCurBootStartAddr_def load_fica_eq table_op_load Let_def split: if_splits)

lemma set_boot_table_op:
  "FICA_SetCurBootType X t s = Inr (st, s') \<Longrightarrow> fica_wf (s_fica s) \<Longrightarrow> table_op X s s'"
  by (auto simp: FICA_SetCurBootType_def elim!: write_db_after intro: table_op_header)

lemma set_app_table_op:
  "FICA_SetCurAppStartType X t s = Inr (st, s') \<Longrightarrow> fica_wf (s_fica s) \<Longrightarrow> table_op X s s'"
  by (auto simp: FICA_SetCurAppStartType_def elim!: write_db_after intro: table_op_header)

text \<open>The wrappers that initialise first and then work on one flag.\<close>

lemma init_then_table_op:
  assumes "rbind (FICA_initialize X s) (\<lambda>(st, s). if 0 = st then k s else Inr (h st s)) = Inr (r, s')"
    and "fica_wf (s_fica s)"
    and "\<And>s1. k s1 = Inr (r, s') \<Longrightarrow> fica_wf (s_fica s1) \<Longrightarrow> table_op X s1 s'"
    and "\<And>st s. snd (h st s) = s"
  shows "table_op X s s'"
proof -
  obtain st s1 where i: "FICA_initialize X s = Inr (st, s1)"
    and k: "(if 0 = st then k s1 else Inr (h st s1)) = Inr (r, s')"
    using assms(1) by (auto elim!: rbind_InrE)
  have t: "table_op X s s1" by (rule initialize_table_op [OF i assms(2)])
  show ?thesis
  proof (cases "st = 0")
    case True
    then show ?thesis using k t assms(3) table_op_wf [OF t] table_op_trans by fastforce
  next
    case False
    then show ?thesis using k t assms(4) [of st s1] by auto
  qed
qed

lemma Set_OTA_table_op:
  "FICA_Set_OTA_FlashBit X s = Inr (st, s') \<Longrightarrow> fica_wf (s_fica s) \<Longrightarrow> table_op X s s'"
  unfolding FICA_Set_OTA_FlashBit_def SLN_FLASH_NO_ERROR_def
  by (erule init_then_table_op) (auto dest: set_comm_flag_table_op)

lemma Clear_OTA_table_op:
  "FICA_Clear_OTA_FlashBit X s = Inr (st, s') \<Longrightarrow> fica_wf (s_fica s) \<Longrightarrow> table_op X s s'"
  unfolding FICA_Clear_OTA_FlashBit_def SLN_FLASH_NO_ERROR_def
  by (erule init_then_table_op) (auto dest: clr_comm_flag_table_op)

lemma set_usb_table_op:
  "FICA_set_usb_mode X s = Inr (st, s') \<Longrightarrow> fica_wf (s_fica s) \<Longrightarrow> table_op X s s'"
  unfolding FICA_set_usb_mode_def SLN_FLASH_NO_ERROR_def
  by (erule init_then_table_op) (auto dest: set_comm_flag_table_op)

lemma clr_usb_table_op:
  "FICA_clr_usb_mode X s = Inr (st, s') \<Longrightarrow> fica_wf (s_fica s) \<Longrightarrow> table_op X s s'"
  unfolding FICA_clr_usb_mode_def SLN_FLASH_NO_ERROR_def
  by (erule init_then_table_op) (auto dest: clr_comm_flag_table_op)

end

section \<open>Image records and the default table\<close>

definition bank_addr :: "int \<Rightarrow> u32" where
  "bank_addr t = (if t = 0 then FICA_IMG_BOOTLOADER_ADDR else if t = 1 then FICA_IMG_APP_A_ADDR
     else FICA_IMG_APP_B_ADDR)"

definition bank_size :: "int \<Rightarrow> u32" where
  "bank_size t = (if t = 0 then FICA_IMG_BOOTLOADER_SIZE else if t = 1 then FICA_IMG_APP_A_SIZE
     else FICA_IMG_APP_B_SIZE)"

lemma valid_cases: "valid_img_type t \<longleftrightarrow> t = 0 \<or> t = 1 \<or> t = 2"
  by (auto simp: valid_img_type_def)

lemma start_addr_eq: "valid_img_type t \<Longrightarrow> FICA_get_app_img_start_addr t (Some a) = (0, Some (bank_addr t))"
  by (auto simp: valid_cases FICA_get_app_img_start_addr_def bank_addr_def)

lemma max_size_eq: "valid_img_type t \<Longrightarrow> FICA_get_app_img_max_size t (Some a) = (0, Some (bank_size t))"
  by (auto simp: valid_cases FICA_get_app_img_max_size_def bank_size_def)

lemma start_addr_invalid:
  "\<not> valid_img_type t \<Longrightarrow> FICA_get_app_img_start_addr t (Some a) = (-1, Some FICA_IMG_INVALID_ADDR)"
  by (auto simp: valid_cases FICA_get_app_img_start_addr_def)

definition info_record :: "int \<Rightarrow> u32 \<Rightarrow> u32 \<Rightarrow> fica_t \<Rightarrow> fica_t" where
  "info_record t fmt len f = f\<lparr>records := (records f)[nat t := (records f ! nat t)
     \<lparr>rec_descriptor := FICA_IMG_DESC_ID, imgType := word_of_int t, imgAddr := bank_addr t,
       imgLen := len, imgFmt := fmt\<rparr>]\<rparr>"

definition default_record :: "int \<Rightarrow> fica_record_t" where
  "default_record t = (decode_record (replicate 308 0))\<lparr>rec_descriptor := FICA_IMG_DESC_ID,
     imgType := word_of_int t, imgAddr := bank_addr t, imgLen := 0, imgFmt := FICA_IMG_FMT_NONE\<rparr>"

definition fica_default :: fica_t where
  "fica_default = \<lparr>header = \<lparr>descriptor = FICA_ICA_DESC, version = FICA_VER, communication = 0x70,
     currType = 1, newType = 0, currBootType = 0\<rparr>, records = map default_record [0, 1, 2]\<rparr>"

text \<open>
  The initialisation finds a valid table and leaves the flash alone, or writes the default one. The
  second happens too when the flash does not identify itself.
\<close>

definition genuine :: "'d flexspi_if \<Rightarrow> 'd fica_st \<Rightarrow> bool" where
  "genuine X s \<longleftrightarrow> (case flexspi_nor_get_vendor_id X (bd_dev (board s)) of (st, v, _) \<Rightarrow>
     st = 0 \<and> v = FLASH_VENDOR_ID)"

definition initialized :: "fica_t \<Rightarrow> bool" where
  "initialized t \<longleftrightarrow> descriptor (header t) = FICA_ICA_DESC \<and> version (header t) = FICA_VER"

text \<open>The boot type names a record.\<close>

definition boot_ok :: "fica_t \<Rightarrow> bool" where
  "boot_ok t \<longleftrightarrow> unat (currBootType (header t)) < 3"

lemma word_at_zeros: "word_at off (replicate n 0) = 0"
proof -
  have "set xs \<subseteq> {0} \<Longrightarrow> de32 xs = 0" for xs
    by (cases xs rule: de32.cases) auto
  then show ?thesis by (simp add: word_at_def set_replicate_conv_if)
qed

lemma fica_zero_eq:
  "fica_zero = \<lparr>header = \<lparr>descriptor = 0, version = 0, communication = 0, currType = 0, newType = 0,
     currBootType = 0\<rparr>, records = replicate 3 (decode_record (replicate 308 0))\<rparr>"
  by (simp add: fica_zero_def decode_fica_def decode_header_def word_at_zeros slice_def numeral_3_eq_3)

lemma initialized_simps [simp]:
  "initialized fica_default"
  "initialized (comm_put n v t) = initialized t"
  "initialized (info_record ty fmt len t) = initialized t"
  "initialized (t\<lparr>header := (header t)\<lparr>currType := w\<rparr>\<rparr>) = initialized t"
  "initialized (t\<lparr>header := (header t)\<lparr>newType := w\<rparr>\<rparr>) = initialized t"
  by (simp_all add: initialized_def fica_default_def comm_put_def info_record_def)

lemma boot_ok_simps [simp]:
  "boot_ok fica_default"
  "boot_ok (comm_put n v t) = boot_ok t"
  "boot_ok (info_record ty fmt len t) = boot_ok t"
  "boot_ok (t\<lparr>header := (header t)\<lparr>currType := w\<rparr>\<rparr>) = boot_ok t"
  "boot_ok (t\<lparr>header := (header t)\<lparr>newType := w\<rparr>\<rparr>) = boot_ok t"
  by (simp_all add: boot_ok_def fica_default_def comm_put_def info_record_def)

context spi_device begin

lemma write_image_info_ok:
  assumes "FICA_write_image_info X t fmt len s = Inr (0, s')" and "fica_wf (s_fica s)"
  shows "valid_img_type t \<and> table X (board s') = info_record t fmt len (s_fica s) \<and>
    s_fica s' = table X (board s')"
proof -
  have t: "valid_img_type t"
    using assms(1) by (auto simp: FICA_write_image_info_def split: if_splits)
  let ?u = "upd_record (nat t) (\<lambda>r. r\<lparr>rec_descriptor := FICA_IMG_DESC_ID,
      imgType := word_of_int t, imgAddr := bank_addr t, imgLen := len, imgFmt := fmt\<rparr>) s"
  have w: "FICA_write_db X ?u = Inr (0, s')"
    using assms(1) t by (simp add: FICA_write_image_info_def start_addr_eq)
  have "fica_wf (s_fica ?u)"
    by (rule upd_record_wf [OF assms(2)]) (simp add: record_wf_def)
  from write_db_ok [OF w this] t show ?thesis
    by (simp add: upd_record_def info_record_def)
qed

lemma init_records_ok:
  assumes "init_records X ts 0 s = Inr (0, s')" and "fica_wf (s_fica s)" and "ts \<noteq> []"
  shows "table X (board s') = fold (\<lambda>t. info_record t FICA_IMG_FMT_NONE 0) ts (s_fica s) \<and>
    s_fica s' = table X (board s')"
  using assms
proof (induction ts arbitrary: s)
  case (Cons t ts)
  obtain s1 where w: "FICA_write_image_info X t FICA_IMG_FMT_NONE 0 s = Inr (0, s1)"
    and r: "init_records X ts 0 s1 = Inr (0, s')"
    using Cons.prems(1) by (auto elim!: rbind_InrE split: if_splits)
  have wf: "fica_wf (s_fica s1)"
    using write_image_info_table_op [OF w Cons.prems(2)] by (rule table_op_wf)
  show ?case
    using write_image_info_ok [OF w Cons.prems(2)] r Cons.IH [OF r wf]
    by (cases ts) auto
qed simp

lemma write_default_table_ok:
  assumes "write_default_table X s = Inr (0, s')"
  shows "table X (board s') = fica_default \<and> s_fica s' = fica_default"
proof -
  obtain s2 where e: "on_board (SLN_Erase_Sector X FICA_START_ADDR) (s\<lparr>s_fica := fica_zero\<rparr>) = Inr (0, s2)"
    and r: "init_records X [0, 1, 2] 0 (upd_header (\<lambda>h. h\<lparr>descriptor := FICA_ICA_DESC, version := FICA_VER,
        currType := 1, communication := 0x70\<rparr>) s2) = Inr (0, s')"
    using assms by (auto simp: write_default_table_def Let_def elim!: rbind_InrE split: if_splits)
  have s2: "s_fica s2 = fica_zero" using e by (auto simp: on_board_def elim!: rbind_InrE)
  show ?thesis
    using init_records_ok [OF r] s2 fica_zero_wf
    by (simp add: upd_header_def info_record_def fica_default_def default_record_def fica_zero_eq
        numeral_3_eq_3 fica_wf_def)
qed

lemma verify_genuine: "fst (FICA_verify_ext_flash X s) = 0 \<longleftrightarrow> genuine X s"
  by (auto simp: FICA_verify_ext_flash_def FICA_read_flash_id_def genuine_def board_defs Let_def
      split: prod.splits)

lemma initialize_ok:
  assumes "FICA_initialize X s = Inr (0, s')" and "fica_wf (s_fica s)"
  shows "table X (board s') =
      (if genuine X s \<and> initialized (table X (board s)) then table X (board s) else fica_default) \<and>
    s_fica s' = table X (board s')"
proof -
  obtain st0 s0 where v: "FICA_verify_ext_flash X s = (st0, s0)" by fastforce
  have t0: "table X (board s0) = table X (board s)" and "s_fica s0 = s_fica s"
    using verify_table_op [OF v assms(2)] by (auto intro: table_cong)
  moreover have "st0 = 0 \<longleftrightarrow> genuine X s" using verify_genuine [of s] v by simp
  ultimately show ?thesis
    using assms(1) by (auto simp: initialize_eq [OF assms(2) v] is_FICA_initialized_def initialized_def
        split: if_splits dest!: write_default_table_ok)
qed

lemma initialize_valid:
  assumes "fica_wf (s_fica s)" and "genuine X s" and "initialized (table X (board s))"
  shows "\<exists>s'. FICA_initialize X s = Inr (0, s') \<and> bflash X (board s') = bflash X (board s) \<and>
    s_fica s' = table X (board s)"
proof -
  obtain st0 s0 where v: "FICA_verify_ext_flash X s = (st0, s0)" by fastforce
  have f: "bflash X (board s0) = bflash X (board s)"
    using verify_table_op [OF v assms(1)] by simp
  then have t0: "table X (board s0) = table X (board s)" by (rule table_cong)
  have "st0 = 0" using verify_genuine [of s] v assms(2) by simp
  then show ?thesis
    using assms(3) t0 f by (simp add: initialize_eq [OF assms(1) v] is_FICA_initialized_def initialized_def)
qed

lemma cur_app_ok:
  assumes "FICA_GetCurAppStartType X (Some v) s = Inr ((0, r), s')" and "fica_wf (s_fica s)"
    and "genuine X s" and "initialized (table X (board s))"
  shows "s_fica s' = table X (board s')"
    and "sint (currType (header (table X (board s)))) \<in> {1, 2} \<Longrightarrow>
      table X (board s') = table X (board s) \<and> r = Some (sint (currType (header (table X (board s)))))"
    and "sint (currType (header (table X (board s)))) \<notin> {1, 2} \<Longrightarrow>
      table X (board s') = (table X (board s))\<lparr>header := (header (table X (board s)))\<lparr>currType := 1\<rparr>\<rparr> \<and> r = Some 1"
proof -
  obtain s1 where i: "FICA_initialize X s = Inr (0, s1)" and f: "bflash X (board s1) = bflash X (board s)"
    and s1: "s_fica s1 = table X (board s)"
    using initialize_valid [OF assms(2-4)] by blast
  have t1: "table X (board s1) = table X (board s)" by (rule table_cong [OF f])
  let ?u = "upd_header (\<lambda>h. h\<lparr>currType := 1\<rparr>) s1"
  have w: "fica_wf (s_fica ?u)" using s1 by (simp add: table_wf)
  have *: "s_fica s' = table X (board s') \<and>
    (if sint (currType (header (table X (board s)))) \<in> {1, 2}
     then table X (board s') = table X (board s) \<and> r = Some (sint (currType (header (table X (board s)))))
     else table X (board s') = s_fica ?u \<and> r = Some 1)"
    using assms(1) i s1 t1 write_db_ok [of ?u s'] w
    by (auto simp: FICA_GetCurAppStartType_def Let_def elim!: rbind_InrE split: if_splits)
  then show "s_fica s' = table X (board s')"
    "sint (currType (header (table X (board s)))) \<in> {1, 2} \<Longrightarrow>
      table X (board s') = table X (board s) \<and> r = Some (sint (currType (header (table X (board s)))))"
    "sint (currType (header (table X (board s)))) \<notin> {1, 2} \<Longrightarrow>
      table X (board s') = (table X (board s))\<lparr>header := (header (table X (board s)))\<lparr>currType := 1\<rparr>\<rparr> \<and> r = Some 1"
    using s1 by (auto simp: upd_header_def)
qed

lemma set_app_ok:
  assumes "FICA_SetCurAppStartType X t s = Inr (0, s')" and "fica_wf (s_fica s)"
  shows "table X (board s') = (s_fica s)\<lparr>header := (header (s_fica s))\<lparr>currType := word_of_int t\<rparr>\<rparr> \<and>
    s_fica s' = table X (board s')"
  using write_db_ok [of "upd_header (\<lambda>h. h\<lparr>currType := word_of_int t\<rparr>) s" s'] assms
  by (simp add: FICA_SetCurAppStartType_def upd_header_def fica_wf_def)

end

section \<open>A live chip\<close>

context spi_live begin

lemma write_db_returns:
  assumes "fica_wf (s_fica s)"
  shows "\<exists>s'. FICA_write_db X s = Inr (0, s')"
proof -
  obtain b where e: "SLN_Erase_Sector X FICA_START_ADDR (board s) = Inr (0, b)"
    using SLN_Erase_Sector_returns by blast
  obtain b' where "program_run (\<lambda>a pg. guarded (flexspi_nor_flash_page_program X a pg)) FICA_START_ADDR
      (chop 4 fica_size (encode_fica (s_fica s))) b = Inr (0, b')"
    using program_run_returns(2) [of "chop 4 fica_size (encode_fica (s_fica s))" FICA_START_ADDR b]
      chop_pages [of fica_size "encode_fica (s_fica s)"] length_encode_fica [OF assms] by auto
  then show ?thesis using e by (simp add: FICA_write_db_run [OF assms])
qed

lemma set_comm_flag_returns: "fica_wf (s_fica s) \<Longrightarrow> \<exists>s'. FICA_set_comm_flag X m s = Inr (0, s')"
  using write_db_returns by (simp add: FICA_set_comm_flag_def load_fica_eq table_wf)

lemma clr_comm_flag_returns: "fica_wf (s_fica s) \<Longrightarrow> \<exists>s'. FICA_clr_comm_flag X m s = Inr (0, s')"
  using write_db_returns by (simp add: FICA_clr_comm_flag_def load_fica_eq table_wf)

lemma write_image_info_returns:
  assumes "fica_wf (s_fica s)" and "valid_img_type t"
  shows "\<exists>s'. FICA_write_image_info X t fmt len s = Inr (0, s')"
  using assms by (auto simp: FICA_write_image_info_def start_addr_eq record_wf_def
      intro!: write_db_returns upd_record_wf)

lemma init_records_returns:
  assumes "fica_wf (s_fica s)" and "\<forall>t\<in>set ts. valid_img_type t"
  shows "\<exists>s'. init_records X ts 0 s = Inr (0, s')"
  using assms
proof (induction ts arbitrary: s)
  case (Cons t ts)
  obtain s1 where w: "FICA_write_image_info X t FICA_IMG_FMT_NONE 0 s = Inr (0, s1)"
    using write_image_info_returns Cons.prems by fastforce
  have "fica_wf (s_fica s1)"
    using write_image_info_table_op [OF w Cons.prems(1)] by (rule table_op_wf)
  then show ?case using w Cons by simp
qed simp

lemma write_default_table_returns: "\<exists>s'. write_default_table X s = Inr (0, s')"
proof -
  obtain b where e: "SLN_Erase_Sector X FICA_START_ADDR (board s) = Inr (0, b)"
    using SLN_Erase_Sector_returns by blast
  show ?thesis
    using e init_records_returns [of "upd_header g (s\<lparr>s_fica := fica_zero, board := b\<rparr>)" "[0, 1, 2]" for g]
    by (simp add: write_default_table_def on_board_def valid_img_type_def fica_zero_wf del: init_records.simps)
qed

lemma initialize_returns:
  assumes "fica_wf (s_fica s)"
  shows "\<exists>s'. FICA_initialize X s = Inr (0, s')"
proof -
  obtain st0 s0 where v: "FICA_verify_ext_flash X s = (st0, s0)" by fastforce
  show ?thesis using write_default_table_returns by (simp add: initialize_eq [OF assms v])
qed

lemma cur_app_returns:
  assumes "fica_wf (s_fica s)"
  shows "\<exists>t s'. FICA_GetCurAppStartType X (Some v) s = Inr ((0, Some t), s')"
proof -
  obtain s1 where i: "FICA_initialize X s = Inr (0, s1)" using initialize_returns [OF assms] by blast
  have wf: "fica_wf (s_fica s1)" using initialize_table_op [OF i assms] by (rule table_op_wf)
  obtain s2 where "FICA_write_db X (upd_header (\<lambda>h. h\<lparr>currType := word_of_int FICA_IMG_TYPE_APP_A\<rparr>) s1) = Inr (0, s2)"
    using write_db_returns wf by fastforce
  then show ?thesis using i by (simp add: FICA_GetCurAppStartType_def Let_def)
qed

lemma set_app_returns: "fica_wf (s_fica s) \<Longrightarrow> \<exists>s'. FICA_SetCurAppStartType X t s = Inr (0, s')"
  by (simp add: FICA_SetCurAppStartType_def write_db_returns)

end

context spi_genuine begin

lemma always_genuine: "genuine X s"
proof -
  obtain bs d' where "fx_transfer X (read_xfer NOR_CMD_LUT_SEQ_IDX_READID) (bd_dev (board s)) = (0, bs, d')"
    using transfer_eq by blast
  then show ?thesis
    using vendor_id by (simp add: genuine_def flexspi_nor_get_vendor_id_def)
qed

end

end
