(* ===== verification/Fica_Program.thy ===== *)
theory Fica_Program
  imports Fica_Spec
begin

text \<open>
  Programming a new image, the first part of \<open>source/flash_ica_driver.c\<close>: opening a bank
  (\<open>ext_init\<close>), writing chunks at any offset through a page buffer (\<open>ext_abs\<close>),
  recording the image and handing it to the boot loader (\<open>ext_finalize\<close>,
  \<open>ext_set_reset_vector\<close>), and the check of its entry point. The file shows that a chunk
  programs exactly its bytes, that the write loop ends, and how the flags in the table gate the
  steps.
\<close>

section \<open>Operations\<close>

definition FICA_app_program_ext_init ::
    "'d flexspi_if \<Rightarrow> int \<Rightarrow> bool \<Rightarrow> 'd fica_st \<Rightarrow> (int \<times> 'd fica_st) outcome" where
  "FICA_app_program_ext_init X newimgtype erase s =
    (let s = s\<lparr>s_newAppImgType := newimgtype\<rparr> in
     rbind (FICA_initialize X s) (\<lambda>(status, s).
     rbind (if SLN_FLASH_NO_ERROR = status then
              rbind (FICA_GetCurAppStartType X (Some FICA_IMG_TYPE_NONE) s) (\<lambda>((status, _), s). Inr (status, s))
            else Inr (status, s)) (\<lambda>(status, s).
     let (status, s) = (if SLN_FLASH_NO_ERROR = status then
           (case FICA_get_app_img_start_addr (s_newAppImgType s) (Some (s_newAppImgStartAddr s)) of
              (st, a) \<Rightarrow> (st, s\<lparr>s_newAppImgStartAddr := the a\<rparr>))
         else (status, s));
         (status, s) = (if SLN_FLASH_NO_ERROR = status then
           (case FICA_get_app_img_max_size (s_newAppImgType s) (Some (s_newAppImgMaxSize s)) of
              (st, a) \<Rightarrow> (st, s\<lparr>s_newAppImgMaxSize := the a\<rparr>))
         else (status, s));
         s = s\<lparr>s_newAppCurrLen := 0\<rparr>
     in rbind (clear_app_buffer s) (\<lambda>s.
     rbind (if SLN_FLASH_NO_ERROR = status \<and> erase
            then FICA_Erase_Bank X (s_newAppImgStartAddr s) (s_newAppImgMaxSize s) s
            else Inr (status, s)) (\<lambda>(status, s).
     if SLN_FLASH_NO_ERROR = status then FICA_set_comm_flag X FICA_COMM_AIS_NAI_BIT s
     else Inr (status, s))))))"

text \<open>Reading flash into the image buffer from index \<open>k\<close> on, and \<open>memcpy\<close> into it.\<close>

definition read_into :: "'d flexspi_if \<Rightarrow> u32 \<Rightarrow> u32 \<Rightarrow> u32 \<Rightarrow> 'd fica_st \<Rightarrow> (int \<times> 'd fica_st) outcome" where
  "read_into X address k len s =
    rbind (SLN_Read_Flash_At_Address X address (drop (unat k) (s_appImgBuffer s)) len (board s)) (\<lambda>(st, tl).
    Inr (st, s\<lparr>s_appImgBuffer := take (unat k) (s_appImgBuffer s) @ tl\<rparr>))"

definition copy_into :: "u32 \<Rightarrow> u8 list \<Rightarrow> u32 \<Rightarrow> 'd fica_st \<Rightarrow> 'd fica_st outcome" where
  "copy_into k src len s =
    (if unat k + unat len \<le> length (s_appImgBuffer s) \<and> unat len \<le> length src
     then Inr (s\<lparr>s_appImgBuffer := blit (unat k) (take (unat len) src) (s_appImgBuffer s)\<rparr>)
     else Inl MemFault)"

text \<open>One turn of the write loop: keep what follows the chunk in its page, copy, program.\<close>

definition ext_abs_step ::
    "'d flexspi_if \<Rightarrow> u32 \<Rightarrow> u32 \<Rightarrow> u32 \<Rightarrow> u8 list \<Rightarrow> 'd fica_st \<Rightarrow> (int \<times> 'd fica_st) outcome" where
  "ext_abs_step X curwriteaddr prestartlen curwritelen bufptr s =
    rbind (if prestartlen + curwritelen < EXT_FLASH_PROGRAM_PAGE then
             let remainpagelen = EXT_FLASH_PROGRAM_PAGE - prestartlen - curwritelen;
                 tempaddr = curwriteaddr + prestartlen + curwritelen
             in read_into X (s_newAppImgStartAddr s + tempaddr) (prestartlen + curwritelen) remainpagelen s
           else Inr (SLN_FLASH_NO_ERROR, s)) (\<lambda>(status, s).
    if status \<noteq> SLN_FLASH_NO_ERROR then Inr (SLN_FLASH_ERROR, s) else
    rbind (copy_into prestartlen bufptr curwritelen s) (\<lambda>s.
    rbind (on_board (SLN_Write_Flash_At_Address X (s_newAppImgStartAddr s + curwriteaddr) (s_appImgBuffer s)) s)
      (\<lambda>(status, s).
    if status \<noteq> SLN_FLASH_NO_ERROR then Inr (SLN_FLASH_ERROR, s) else Inr (SLN_FLASH_NO_ERROR, s))))"

partial_function (option) ext_abs_loop ::
    "'d flexspi_if \<Rightarrow> u32 \<Rightarrow> u32 \<Rightarrow> u32 \<Rightarrow> u32 \<Rightarrow> u32 \<Rightarrow> u8 list \<Rightarrow> 'd fica_st \<Rightarrow>
      (int \<times> 'd fica_st) outcome option" where
  "ext_abs_loop X writelen pagestartaddr curextlen curextpage prestartlen bufptr s =
    (if curextlen < writelen then
       (let curwritelen = (if EXT_FLASH_PROGRAM_PAGE \<le> prestartlen + (writelen - curextlen)
                           then EXT_FLASH_PROGRAM_PAGE - prestartlen else writelen - curextlen);
            curwriteaddr = pagestartaddr + curextpage * EXT_FLASH_PROGRAM_PAGE
        in case ext_abs_step X curwriteaddr prestartlen curwritelen bufptr s of
             Inl e \<Rightarrow> Some (Inl e)
           | Inr (status, s) \<Rightarrow>
               if status \<noteq> SLN_FLASH_NO_ERROR then Some (Inr (status, s))
               else ext_abs_loop X writelen pagestartaddr (curextlen + curwritelen) (curextpage + 1) 0
                      (drop (unat curwritelen) bufptr) s)
     else Some (Inr (SLN_FLASH_NO_ERROR, s)))"

definition raise_len :: "u32 \<Rightarrow> 'd fica_st \<Rightarrow> 'd fica_st" where
  "raise_len n s = (if s_newAppCurrLen s < n then s\<lparr>s_newAppCurrLen := n\<rparr> else s)"

definition FICA_app_program_ext_abs ::
    "'d flexspi_if \<Rightarrow> u32 \<Rightarrow> u8 list option \<Rightarrow> u32 \<Rightarrow> 'd fica_st \<Rightarrow> (int \<times> 'd fica_st) outcome" where
  "FICA_app_program_ext_abs X offset bufptr writelen s =
    (let pagenumrem = offset mod EXT_FLASH_PROGRAM_PAGE;
         pagestartaddr = (offset div EXT_FLASH_PROGRAM_PAGE) * EXT_FLASH_PROGRAM_PAGE;
         prestartlen = offset - pagestartaddr
     in case bufptr of None \<Rightarrow> Inr (SLN_FLASH_ERROR, s)
     | Some buf \<Rightarrow>
       if writelen = 0 then Inr (SLN_FLASH_ERROR, s)
       else if s_newAppImgMaxSize s < offset + writelen then Inr (SLN_FLASH_ERROR, s)
       else rbind (FICA_get_comm_flag X FICA_COMM_AIS_NAI_BIT False s) (\<lambda>((status, commflag), s).
       if status \<noteq> SLN_FLASH_NO_ERROR then Inr (SLN_FLASH_ERROR, s)
       else if \<not> commflag then Inr (SLN_FLASH_ERROR, s)
       else rbind (clear_app_buffer s) (\<lambda>s.
       let s = raise_len (offset + writelen) s in
       rbind (if 0 < pagenumrem then read_into X (s_newAppImgStartAddr s + pagestartaddr) 0 prestartlen s
              else Inr (SLN_FLASH_NO_ERROR, s)) (\<lambda>(status, s).
       if status \<noteq> SLN_FLASH_NO_ERROR then Inr (SLN_FLASH_ERROR, s)
       else returns (ext_abs_loop X writelen pagestartaddr 0 0 prestartlen buf s)))))"

definition FICA_app_program_ext_finalize :: "'d flexspi_if \<Rightarrow> 'd fica_st \<Rightarrow> (int \<times> 'd fica_st) outcome" where
  "FICA_app_program_ext_finalize X s =
    rbind (FICA_write_image_info X (s_newAppImgType s) FICA_IMG_FMT_BIN (s_newAppCurrLen s) s) (\<lambda>(status, s).
    rbind (if SLN_FLASH_NO_ERROR = status then FICA_set_comm_flag X FICA_COMM_AIS_NAV_BIT s
           else Inr (status, s)) (\<lambda>(status, s).
    rbind (if SLN_FLASH_NO_ERROR = status
           then FICA_write_db X (upd_header (\<lambda>h. h\<lparr>newType := word_of_int (s_newAppImgType s)\<rparr>) s)
           else Inr (status, s)) (\<lambda>(status, s).
    rbind (if SLN_FLASH_NO_ERROR = status then FICA_set_comm_flag X FICA_COMM_AIS_NAP_BIT s
           else Inr (status, s)) (\<lambda>(status, s).
    if SLN_FLASH_NO_ERROR = status then FICA_clr_comm_flag X FICA_COMM_AIS_NAI_BIT s
    else Inr (status, s)))))"

definition FICA_app_program_ext_set_reset_vector :: "'d flexspi_if \<Rightarrow> 'd fica_st \<Rightarrow> (int \<times> 'd fica_st) outcome" where
  "FICA_app_program_ext_set_reset_vector X s =
    rbind (FICA_initialize X s) (\<lambda>(status, s).
    rbind (if SLN_FLASH_NO_ERROR = status then FICA_get_comm_flag X FICA_COMM_AIS_NAP_BIT False s
           else Inr ((status, False), s)) (\<lambda>((status, commflag), s).
    if commflag then
      let s = s\<lparr>s_newAppImgType := sint (newType (header (s_fica s)))\<rparr>;
          status = (if \<not> valid_img_type (s_newAppImgType s) then SLN_FLASH_ERROR else status)
      in rbind (if SLN_FLASH_NO_ERROR = status then FICA_SetCurAppStartType X (s_newAppImgType s) s
                else Inr (status, s)) (\<lambda>(status, s).
         rbind (if SLN_FLASH_NO_ERROR = status then FICA_clr_comm_flag X FICA_COMM_AIS_NAV_BIT s
                else Inr (status, s)) (\<lambda>(status, s).
         rbind (if SLN_FLASH_NO_ERROR = status then FICA_clr_comm_flag X FICA_COMM_AIS_NAP_BIT s
                else Inr (status, s)) (\<lambda>(status, s).
         if SLN_FLASH_NO_ERROR = status then FICA_set_comm_flag X FICA_COMM_AIS_OTA_BIT s
         else Inr (status, s))))
    else Inr (SLN_FLASH_ERROR, s)))"

text \<open>The entry point is the second word of the image's vector table.\<close>

definition FICA_Verify_OTA_Image_Entry_Point :: "'d flexspi_if \<Rightarrow> int \<Rightarrow> 'd fica_st \<Rightarrow> int" where
  "FICA_Verify_OTA_Image_Entry_Point X ptype s =
    (if \<not> valid_img_type ptype then SLN_FLASH_ERROR else
     let appVectorTable = SLN_Flash_Get_Read_Address (imgAddr (records (s_fica s) ! nat ptype));
         appEntryPointAddr = de32 (amba_read X (bd_dev (board s)) (unat (appVectorTable + 4)) 4)
     in if appEntryPointAddr = 0xFFFFFFFF \<or> appEntryPointAddr = 0 \<or> appEntryPointAddr \<le> appVectorTable
          \<or> 0x10000 < appEntryPointAddr - appVectorTable
        then SLN_FLASH_ERROR else SLN_FLASH_NO_ERROR)"

section \<open>Chunks\<close>

lemma clear_loop_eq:
  "i + k \<le> length buf \<Longrightarrow> clear_loop i k v buf = Inr (take i buf @ replicate k v @ drop (i + k) buf)"
proof (induction i k v buf rule: clear_loop.induct)
  case (2 i k v buf)
  then have "take (Suc i) (buf[i := v]) = take i buf @ [v]"
    by (simp add: take_Suc_conv_app_nth)
  then show ?case using 2 by simp
qed simp

lemma clear_app_buffer_eq:
  "length (s_appImgBuffer s) = 4096 \<Longrightarrow>
   clear_app_buffer s = Inr (s\<lparr>s_appImgBuffer := replicate 4096 0xFF\<rparr>)"
  by (simp add: clear_app_buffer_def FICA_clear_buf_def clear_loop_eq)

lemma read_into_eq:
  assumes "unat a + unat n \<le> FLASH_SIZE" and "unat k + unat n \<le> length (s_appImgBuffer s)"
  shows "read_into X a k n s =
    Inr (0, s\<lparr>s_appImgBuffer := blit (unat k) (peek (bflash X (board s)) (unat a) (unat n)) (s_appImgBuffer s)\<rparr>)"
  using read_flash [OF assms(1), of "drop (unat k) (s_appImgBuffer s)" X "board s"] assms(2)
  by (simp add: read_into_def blit_def add.commute)

lemma burn_page:
  assumes "length bs + p + q = 256"
  shows "burn a (peek m a p @ bs @ peek m (a + p + length bs) q) m = burn (a + p) bs m"
  using assms by (intro ext) (auto simp: burn_def nth_append not_less)

lemma take_blits:
  assumes "length b = 4096" and "take p b = xs" and "p + length bs + length q = 256"
  shows "take 256 (blit p bs (blit (p + length bs) q b)) = xs @ bs @ q"
  using assms by (intro nth_equalityI) (auto simp: nth_blit length_blit nth_append)

lemma take_blit_full:
  assumes "length b = 4096" and "take p b = xs" and "p + length bs = 256"
  shows "take 256 (blit p bs b) = xs @ bs"
  using assms by (intro nth_equalityI) (auto simp: nth_blit length_blit nth_append)

text \<open>A write changes the board and the image buffer, nothing else of the driver.\<close>

definition page_op :: "'d fica_st \<Rightarrow> 'd fica_st \<Rightarrow> bool" where
  "page_op s s' \<longleftrightarrow> s' = s\<lparr>board := board s', s_appImgBuffer := s_appImgBuffer s'\<rparr> \<and>
     length (s_appImgBuffer s') = 4096"

lemma page_op_trans: "page_op s t \<Longrightarrow> page_op t u \<Longrightarrow> page_op s u"
  by (cases s; cases t; cases u) (simp add: page_op_def)

lemma page_op_fields:
  assumes "page_op s s'"
  shows "s_newAppImgStartAddr s' = s_newAppImgStartAddr s" and "s_newAppImgMaxSize s' = s_newAppImgMaxSize s"
    and "s_newAppCurrLen s' = s_newAppCurrLen s" and "s_fica s' = s_fica s"
    and "s_newAppImgType s' = s_newAppImgType s" and "length (s_appImgBuffer s') = 4096"
  using assms by (cases s; cases s'; simp add: page_op_def)+

text \<open>The page image that one turn of the loop programs.\<close>

definition page_image :: "(nat \<Rightarrow> u8) \<Rightarrow> nat \<Rightarrow> nat \<Rightarrow> u8 list \<Rightarrow> u8 list" where
  "page_image m P p bs = peek m P p @ bs @ peek m (P + p + length bs) (256 - p - length bs)"

lemma small_sum:
  fixes x y :: u32
  assumes "unat x + unat y \<le> 256"
  shows "unat (x + y) = unat x + unat y" and "x + y < 256 \<longleftrightarrow> unat x + unat y < 256"
    and "unat (256 - x - y) = 256 - unat x - unat y"
proof -
  show s: "unat (x + y) = unat x + unat y" using assms by (intro unat_add_small) simp
  show "x + y < 256 \<longleftrightarrow> unat x + unat y < 256" by (simp add: word_less_nat_alt s)
  have "unat (256 - x) = 256 - unat x" using assms by (subst unat_sub_le) (simp_all add: word_le_nat_alt)
  then show "unat (256 - x - y) = 256 - unat x - unat y"
    using assms by (subst unat_sub_le) (simp_all add: word_le_nat_alt)
qed

lemma ext_abs_step_eq:
  fixes wa pre n :: u32 and s :: "'d fica_st"
  defines "P \<equiv> unat (s_newAppImgStartAddr s + wa)"
  assumes "length (s_appImgBuffer s) = 4096" and "P mod 256 = 0" and "P < FLASH_SIZE"
    and "unat pre + unat n \<le> 256"
    and "take (unat pre) (s_appImgBuffer s) = peek (bflash X (board s)) P (unat pre)"
  shows "\<exists>buf. length buf = 4096 \<and>
    (unat n \<le> length data \<longrightarrow>
      take 256 buf = page_image (bflash X (board s)) P (unat pre) (take (unat n) data)) \<and>
    ext_abs_step X wa pre n data s = (if unat n \<le> length data then
      rbind (SLN_Write_Flash_At_Address X (s_newAppImgStartAddr s + wa) buf (board s)) (\<lambda>(st, b).
      Inr (if st \<noteq> 0 then -1 else 0, s\<lparr>s_appImgBuffer := buf, board := b\<rparr>)) else Inl MemFault)"
proof -
  note sums = small_sum [OF assms(5)]
  let ?m = "bflash X (board s)" and ?b = "s_appImgBuffer s" and ?bs = "take (unat n) data"
  let ?q = "256 - unat pre - unat n"
  define b1 where "b1 = (if unat pre + unat n < 256
      then blit (unat pre + unat n) (peek ?m (P + unat pre + unat n) ?q) ?b else ?b)"
  define buf where "buf = blit (unat pre) ?bs b1"
  have l1: "length b1 = 4096" using assms(2,5) by (simp add: b1_def length_blit)
  have lb: "unat n \<le> length data \<Longrightarrow> length buf = 4096"
    using l1 assms(5) by (simp add: buf_def length_blit)
  have room: "P + 256 \<le> FLASH_SIZE" using assms(3,4) by auto
  have img: "take 256 buf = page_image ?m P (unat pre) ?bs" if "unat n \<le> length data"
  proof -
    define bs where "bs = ?bs"
    have bs: "length bs = unat n" using that by (simp add: bs_def)
    show ?thesis
    proof (cases "unat pre + unat n < 256")
      case True
      then show ?thesis
        using take_blits [OF assms(2,6), of bs "peek ?m (P + unat pre + unat n) ?q"] assms(5)
        by (simp add: buf_def b1_def page_image_def bs_def [symmetric] bs add.assoc)
    next
      case False
      then have "unat pre + unat n = 256" using assms(5) by simp
      then show ?thesis
        using take_blit_full [OF assms(2,6), of bs]
        by (simp add: buf_def b1_def page_image_def bs_def [symmetric] bs peek_def)
    qed
  qed
  have rd: "(if pre + n < 256 then
       read_into X (s_newAppImgStartAddr s + (wa + pre + n)) (pre + n) (256 - pre - n) s else Inr (0, s)) =
     Inr (0, s\<lparr>s_appImgBuffer := b1\<rparr>)"
  proof (cases "unat pre + unat n < 256")
    case True
    have "unat (s_newAppImgStartAddr s + (wa + pre + n)) = P + (unat pre + unat n)"
      using unat_add_small [of "s_newAppImgStartAddr s + wa" "pre + n"] room assms(5)
      by (simp add: P_def sums add.assoc)
    then show ?thesis
      using True read_into_eq [of "s_newAppImgStartAddr s + (wa + pre + n)" "256 - pre - n" "pre + n" s X]
        room assms(2,5) by (simp add: sums b1_def add.assoc)
  qed (simp add: sums b1_def)
  have "ext_abs_step X wa pre n data s = (if unat n \<le> length data then
      rbind (SLN_Write_Flash_At_Address X (s_newAppImgStartAddr s + wa) buf (board s)) (\<lambda>(st, b).
      Inr (if st \<noteq> 0 then -1 else 0, s\<lparr>s_appImgBuffer := buf, board := b\<rparr>)) else Inl MemFault)"
    unfolding ext_abs_step_def Let_def EXT_FLASH_PROGRAM_PAGE_def FLASH_PAGE_SIZE_def
      SLN_FLASH_NO_ERROR_def rd
    using l1 assms(5) by (auto simp: copy_into_def on_board_def buf_def rbind_assoc intro!: rbind_cong)
  with lb img show ?thesis
    by (cases "unat n \<le> length data") (auto intro: exI [of _ buf] exI [of _ ?b] simp: assms(2))
qed

context spi_device begin

lemma ext_abs_step_ok:
  fixes wa pre n :: u32 and s :: "'d fica_st"
  defines "P \<equiv> unat (s_newAppImgStartAddr s + wa)"
  assumes "ext_abs_step X wa pre n data s = Inr (st, s')"
    and "length (s_appImgBuffer s) = 4096" and "P mod 256 = 0" and "P < FLASH_SIZE"
    and "unat pre + unat n \<le> 256"
    and "take (unat pre) (s_appImgBuffer s) = peek (bflash X (board s)) P (unat pre)"
  shows "page_op s s'" and "unat n \<le> length data"
    and "k div 256 \<noteq> P div 256 \<Longrightarrow> bflash X (board s') k = bflash X (board s) k"
    and "st = 0 \<Longrightarrow> bflash X (board s') = burn (P + unat pre) (take (unat n) data) (bflash X (board s))"
proof -
  obtain buf where l: "length buf = 4096"
    and img: "unat n \<le> length data \<longrightarrow>
      take 256 buf = page_image (bflash X (board s)) P (unat pre) (take (unat n) data)"
    and e: "ext_abs_step X wa pre n data s = (if unat n \<le> length data then
      rbind (SLN_Write_Flash_At_Address X (s_newAppImgStartAddr s + wa) buf (board s)) (\<lambda>(st, b).
      Inr (if st \<noteq> 0 then -1 else 0, s\<lparr>s_appImgBuffer := buf, board := b\<rparr>)) else Inl MemFault)"
    using ext_abs_step_eq [of s wa pre n X data] assms(3-) unfolding P_def by blast
  show n: "unat n \<le> length data" using e assms(2) by (auto split: if_splits)
  have "rbind (SLN_Write_Flash_At_Address X (s_newAppImgStartAddr s + wa) buf (board s)) (\<lambda>(st, b).
      Inr (if st \<noteq> 0 then -1 else 0, s\<lparr>s_appImgBuffer := buf, board := b\<rparr>)) = Inr (st, s')"
    using e assms(2) n by simp
  then obtain st1 b where w: "SLN_Write_Flash_At_Address X (s_newAppImgStartAddr s + wa) buf (board s) = Inr (st1, b)"
    and s': "s' = s\<lparr>s_appImgBuffer := buf, board := b\<rparr>" and st: "st = 0 \<longleftrightarrow> st1 = 0"
    by (auto elim!: rbind_InrE split: if_splits)
  show "page_op s s'" using s' l by (simp add: page_op_def)
  show "k div 256 \<noteq> P div 256 \<Longrightarrow> bflash X (board s') k = bflash X (board s) k"
    using sln.program_frame [OF w] assms(4,5) s' by (simp add: P_def)
  show "st = 0 \<Longrightarrow> bflash X (board s') = burn (P + unat pre) (take (unat n) data) (bflash X (board s))"
  proof -
    assume "st = 0"
    then have "bflash X b = burn P (take 256 buf) (bflash X (board s))"
      using sln.program_ok [of "s_newAppImgStartAddr s + wa" buf "board s" b] w st assms(4,5)
      by (simp add: P_def)
    moreover have "burn P (take 256 buf) (bflash X (board s)) =
        burn (P + unat pre) (take (unat n) data) (bflash X (board s))"
      using burn_page [of "take (unat n) data" "unat pre" "256 - unat pre - unat n" P] img n assms(6)
      by (simp add: page_image_def)
    ultimately show ?thesis using s' by simp
  qed
qed

end

section \<open>The write loop\<close>

text \<open>The length of one turn, and the flash address of its page, in natural numbers.\<close>

definition turn_len :: "u32 \<Rightarrow> u32 \<Rightarrow> u32 \<Rightarrow> u32" where
  "turn_len len c pre = (if 256 \<le> pre + (len - c) then 256 - pre else len - c)"

lemma turn_numbers:
  fixes len c pre pg k start :: u32
  defines "P \<equiv> unat start + unat pg + 256 * unat k"
  assumes "unat c < unat len" and "unat pre < 256" and "P + unat pre + (unat len - unat c) \<le> FLASH_SIZE"
  shows "unat (turn_len len c pre) = min (256 - unat pre) (unat len - unat c)"
    and "unat (c + turn_len len c pre) = unat c + min (256 - unat pre) (unat len - unat c)"
    and "unat (start + (pg + k * 256)) = P"
    and "unat (k + 1) = unat k + 1"
proof -
  have d: "unat (len - c) = unat len - unat c"
    using assms(2) by (simp add: unat_sub_le word_le_nat_alt)
  have "unat (pre + (len - c)) = unat pre + (unat len - unat c)"
    using assms(4) d by (subst unat_add_small) simp_all
  moreover have "unat (256 - pre) = 256 - unat pre"
    using assms(3) by (subst unat_sub_le) (simp_all add: word_le_nat_alt)
  ultimately show t: "unat (turn_len len c pre) = min (256 - unat pre) (unat len - unat c)"
    using assms(3) d by (auto simp: turn_len_def word_le_nat_alt)
  show "unat (c + turn_len len c pre) = unat c + min (256 - unat pre) (unat len - unat c)"
    using t assms(2) unat_u32_less [of len] by (subst unat_add_small) (auto simp: min_def)
  have k: "unat (k * 256) = 256 * unat k"
    using assms(4) unat_mult_lem [of k 256] by (simp add: P_def)
  then have "unat (pg + k * 256) = unat pg + 256 * unat k"
    using assms(4) by (subst unat_add_small) (simp_all add: P_def)
  then show "unat (start + (pg + k * 256)) = P"
    using assms(4) by (subst unat_add_small) (simp_all add: P_def)
  show "unat (k + 1) = unat k + 1"
    using assms(4) by (subst unat_add_small) (simp_all add: P_def)
qed

lemma ext_abs_loop_done:
  "\<not> c < len \<Longrightarrow> ext_abs_loop X len pg c k pre data s = Some (Inr (0, s))"
  by (subst ext_abs_loop.simps) simp

lemma ext_abs_loop_turn:
  "c < len \<Longrightarrow> ext_abs_loop X len pg c k pre data s =
    (case ext_abs_step X (pg + k * 256) pre (turn_len len c pre) data s of
       Inl e \<Rightarrow> Some (Inl e)
     | Inr (st, s) \<Rightarrow> if st \<noteq> 0 then Some (Inr (st, s))
         else ext_abs_loop X len pg (c + turn_len len c pre) (k + 1) 0
                (drop (unat (turn_len len c pre)) data) s)"
  by (subst ext_abs_loop.simps) (simp only: if_True Let_def turn_len_def EXT_FLASH_PROGRAM_PAGE_def
      FLASH_PAGE_SIZE_def SLN_FLASH_NO_ERROR_def)

context spi_device begin

lemma ext_abs_loop_ok:
  fixes s :: "'d fica_st"
  assumes "ext_abs_loop X len pg c k pre data s = Some (Inr (st, s'))"
    and "length (s_appImgBuffer s) = 4096" and "unat c \<le> unat len" and "unat pre < 256"
    and "(unat (s_newAppImgStartAddr s) + unat pg + 256 * unat k) mod 256 = 0"
    and "unat (s_newAppImgStartAddr s) + unat pg + 256 * unat k + unat pre + (unat len - unat c) \<le> U"
    and "U \<le> FLASH_SIZE" and "U mod 256 = 0"
    and "take (unat pre) (s_appImgBuffer s) = peek (bflash X (board s))
      (unat (s_newAppImgStartAddr s) + unat pg + 256 * unat k) (unat pre)"
  shows "page_op s s' \<and>
    (\<forall>n. n < unat (s_newAppImgStartAddr s) + unat pg + 256 * unat k \<or> U \<le> n \<longrightarrow>
      bflash X (board s') n = bflash X (board s) n) \<and>
    (st = 0 \<longrightarrow> unat len - unat c \<le> length data \<and> bflash X (board s') =
      burn (unat (s_newAppImgStartAddr s) + unat pg + 256 * unat k + unat pre)
        (take (unat len - unat c) data) (bflash X (board s)))"
  using assms
proof (induction "unat len - unat c" arbitrary: c k pre data s rule: less_induct)
  case less
  show ?case
  proof (cases "unat c < unat len")
    case False
    then show ?thesis
      using less.prems(1,2,3) ext_abs_loop_done [of c len X pg k pre data s]
      by (simp add: word_less_nat_alt page_op_def)
  next
    case True
    define P where "P = unat (s_newAppImgStartAddr s) + unat pg + 256 * unat k"
    define n where "n = turn_len len c pre"
    note num = turn_numbers [OF True less.prems(4), of "s_newAppImgStartAddr s" pg k, folded P_def n_def]
    have room: "P + unat pre + (unat len - unat c) \<le> FLASH_SIZE"
      using less.prems(6,7) by (simp add: P_def)
    note num = num [OF room]
    have al: "P mod 256 = 0" using less.prems(5) by (simp add: P_def)
    have lt: "P < U" using less.prems(6) True by (simp add: P_def)
    have page: "P + 256 \<le> U" by (rule aligned_next [OF al less.prems(8) lt])
    have Pf: "P < FLASH_SIZE" using lt less.prems(7) by simp
    have "c < len" using True by (simp add: word_less_nat_alt)
    then have unf: "(case ext_abs_step X (pg + k * 256) pre n data s of
         Inl e \<Rightarrow> Some (Inl e)
       | Inr (st, s) \<Rightarrow> if st \<noteq> 0 then Some (Inr (st, s))
           else ext_abs_loop X len pg (c + n) (k + 1) 0 (drop (unat n) data) s) = Some (Inr (st, s'))"
      using less.prems(1) unfolding n_def by (simp only: ext_abs_loop_turn)
    then obtain st1 s1 where st1: "ext_abs_step X (pg + k * 256) pre n data s = Inr (st1, s1)"
      by (cases "ext_abs_step X (pg + k * 256) pre n data s") auto
    have pren: "unat pre + unat n \<le> 256" using num(1) less.prems(4) by simp
    note step = ext_abs_step_ok [OF st1 less.prems(2), unfolded num(3), OF al Pf pren
        less.prems(9) [folded P_def]]
    have out: "\<forall>m. m < P \<or> U \<le> m \<longrightarrow> bflash X (board s1) m = bflash X (board s) m"
    proof (intro allI impI)
      fix m assume "m < P \<or> U \<le> m"
      then have "m div 256 \<noteq> P div 256" using page by (auto simp: unit_iff [OF al])
      then show "bflash X (board s1) m = bflash X (board s) m" by (rule step(3))
    qed
    show ?thesis
    proof (cases "st1 = 0")
      case False
      then have "s' = s1" and "st = st1" using unf st1 by simp_all
      then show ?thesis using step(1) out False by (simp add: P_def)
    next
      case True
      note shape = page_op_fields(1) [OF step(1)]
      have loop: "ext_abs_loop X len pg (c + n) (k + 1) 0 (drop (unat n) data) s1 = Some (Inr (st, s'))"
        using unf st1 True by simp
      have next_page: "unat (s_newAppImgStartAddr s1) + unat pg + 256 * unat (k + 1) = P + 256"
        using num(4) shape by (simp add: P_def)
      have room': "P + 256 + unat (0 :: u32) + (unat len - unat (c + n)) \<le> U"
        using num(1,2) less.prems(6) page by (simp add: P_def min_def split: if_splits)
      have dec: "unat len - unat (c + n) < unat len - unat c" and le: "unat (c + n) \<le> unat len"
        using num(2) \<open>unat c < unat len\<close> less.prems(4) by auto
      have al': "(P + 256) mod 256 = 0" using al by simp
      note IH = less.hyps [OF dec loop page_op_fields(6) [OF step(1)] le, unfolded next_page,
          OF _ al' room' less.prems(7,8)]
      have n_le: "unat n \<le> unat len - unat c" using num(1) by simp
      have rest: "unat len - unat (c + n) = unat len - unat c - unat n"
        using num(1,2) by simp
      have joined: "burn (P + 256) (take (unat len - unat (c + n)) (drop (unat n) data))
          (burn (P + unat pre) (take (unat n) data) m) = burn (P + unat pre) (take (unat len - unat c) data) m" for m
      proof (cases "unat n = unat len - unat c")
        case True
        then show ?thesis by (simp add: rest)
      next
        case False
        then have n: "unat n = 256 - unat pre" "unat n < unat len - unat c" using num(1) by auto
        have "take (unat len - unat c) data =
            take (unat n) data @ take (unat len - unat (c + n)) (drop (unat n) data)"
          using n(2) by (simp add: rest take_add [symmetric])
        moreover have "P + 256 = P + unat pre + length (take (unat n) data)"
          using n(1) step(2) less.prems(4) by simp
        ultimately show ?thesis using burn_append by metis
      qed
      have IH: "page_op s1 s'"
        "\<And>n. n < P + 256 \<or> U \<le> n \<Longrightarrow> bflash X (board s') n = bflash X (board s1) n"
        "st = 0 \<Longrightarrow> unat len - unat (c + n) \<le> length (drop (unat n) data)"
        "st = 0 \<Longrightarrow> bflash X (board s') =
          burn (P + 256) (take (unat len - unat (c + n)) (drop (unat n) data)) (bflash X (board s1))"
        using IH by (auto simp: peek_def)
      have "st = 0 \<Longrightarrow> unat len - unat c \<le> length data"
        using IH(3) step(2) n_le unfolding rest length_drop by linarith
      moreover have "st = 0 \<Longrightarrow> bflash X (board s') =
          burn (P + unat pre) (take (unat len - unat c) data) (bflash X (board s))"
        using IH(4) joined step(4) [OF True] by simp
      ultimately show ?thesis
        using page_op_trans [OF step(1) IH(1)] IH(2) out by (simp add: P_def [symmetric])
    qed
  qed
qed

end

section \<open>Chunk writes\<close>

text \<open>The open bank is page aligned and lies below the sector of the table.\<close>

definition bank_ok :: "'d fica_st \<Rightarrow> bool" where
  "bank_ok s \<longleftrightarrow> unat (s_newAppImgStartAddr s) mod 256 = 0 \<and> unat (s_newAppImgMaxSize s) mod 256 = 0 \<and>
     unat (s_newAppImgStartAddr s) + unat (s_newAppImgMaxSize s) \<le> 0xFFF000"

text \<open>The state in which the write loop starts.\<close>

definition chunk_start :: "'d flexspi_if \<Rightarrow> u32 \<Rightarrow> u32 \<Rightarrow> 'd fica_st \<Rightarrow> 'd fica_st" where
  "chunk_start X offset len s = s\<lparr>s_fica := table X (board s),
     s_appImgBuffer := blit 0 (peek (bflash X (board s))
       (unat (s_newAppImgStartAddr s + offset div 256 * 256)) (unat offset mod 256)) (replicate 4096 0xFF),
     s_newAppCurrLen := max (s_newAppCurrLen s) (offset + len)\<rparr>"

lemma page_split:
  fixes offset :: u32
  shows "unat (offset div 256 * 256) = unat offset div 256 * 256"
    and "unat (offset - offset div 256 * 256) = unat offset mod 256"
    and "0 < offset mod 256 \<longleftrightarrow> 0 < unat offset mod 256"
proof -
  have "unat offset div 256 * 256 \<le> unat offset" by simp
  then show d: "unat (offset div 256 * 256) = unat offset div 256 * 256"
    using unat_u32_less [of offset] unat_mult_lem [of "offset div 256" 256]
    by (simp add: unat_div div_less_iff_less_mult)
  have "unat (offset - offset div 256 * 256) = unat offset - unat offset div 256 * 256"
    using d by (subst unat_sub_le) (simp_all add: word_le_nat_alt)
  then show "unat (offset - offset div 256 * 256) = unat offset mod 256"
    by (simp add: minus_div_mult_eq_mod)
  show "0 < offset mod 256 \<longleftrightarrow> 0 < unat offset mod 256"
    by (simp add: word_less_nat_alt unat_mod)
qed

lemma raise_len_eq: "raise_len n s = s\<lparr>s_newAppCurrLen := max (s_newAppCurrLen s) n\<rparr>"
  by (cases s) (auto simp: raise_len_def max_def)

lemma blit_none [simp]: "blit 0 [] b = b"
  by (simp add: blit_def)

lemma burn_within: "burn a bs m n \<noteq> m n \<Longrightarrow> a \<le> n \<and> n < a + length bs"
  by (auto simp: burn_def split: if_splits)

context spi_device begin

lemma ext_abs_eq:
  assumes "drv_wf s"
    and "\<not> s_newAppImgMaxSize s < offset + len \<Longrightarrow> len \<noteq> 0 \<Longrightarrow>
      unat (s_newAppImgStartAddr s + offset div 256 * 256) + 256 \<le> FLASH_SIZE"
  shows "FICA_app_program_ext_abs X offset (Some data) len s =
    (if len = 0 \<or> s_newAppImgMaxSize s < offset + len then Inr (-1, s)
     else if \<not> comm_get 10 (table X (board s)) then Inr (-1, s\<lparr>s_fica := table X (board s)\<rparr>)
     else returns (ext_abs_loop X len (offset div 256 * 256) 0 0 (offset - offset div 256 * 256) data
            (chunk_start X offset len s)))"
proof -
  have wf: "fica_wf (s_fica s)" and l: "length (s_appImgBuffer s) = 4096"
    using assms(1) by (simp_all add: drv_wf_def)
  have flag: "FICA_get_comm_flag X 1024 False s =
      Inr ((0, comm_get 10 (table X (board s))), s\<lparr>s_fica := table X (board s)\<rparr>)"
    using get_comm_flag_eq [OF wf, of 10 False] by simp
  let ?s = "\<lambda>n. s\<lparr>s_fica := table X (board s), s_appImgBuffer := replicate 4096 0xFF, s_newAppCurrLen := n\<rparr>"
  have rd: "(if 0 < offset mod 256
      then read_into X (s_newAppImgStartAddr s + offset div 256 * 256) 0 (offset - offset div 256 * 256) (?s n)
      else Inr (0, ?s n)) =
    Inr (0, s\<lparr>s_fica := table X (board s), s_appImgBuffer := blit 0 (peek (bflash X (board s))
       (unat (s_newAppImgStartAddr s + offset div 256 * 256)) (unat offset mod 256)) (replicate 4096 0xFF),
       s_newAppCurrLen := n\<rparr>)"
    if "\<not> s_newAppImgMaxSize s < offset + len" and "len \<noteq> 0" for n
  proof (cases "0 < unat offset mod 256")
    case True
    have "unat offset mod 256 < 256" by simp
    then show ?thesis
      using True assms(2) [OF that] by (simp add: read_into_eq page_split del: mod_less_divisor)
  qed (simp add: page_split peek_def)
  show ?thesis
  proof (cases "len = 0 \<or> s_newAppImgMaxSize s < offset + len \<or> \<not> comm_get 10 (table X (board s))")
    case True
    then show ?thesis by (auto simp: FICA_app_program_ext_abs_def Let_def flag)
  next
    case False
    then show ?thesis
      using l rd [of "max (s_newAppCurrLen s) (offset + len)"]
      by (cases "0 < unat (offset mod 256)")
        (simp_all add: FICA_app_program_ext_abs_def word_less_nat_alt flag clear_app_buffer_eq
          chunk_start_def raise_len_eq Let_def)
  qed
qed

text \<open>Inside the bank no sum wraps.\<close>

lemma in_bank_sums:
  assumes "bank_ok s" and "unat offset + unat len < 4294967296"
  shows "s_newAppImgMaxSize s < offset + len \<longleftrightarrow> unat (s_newAppImgMaxSize s) < unat offset + unat len"
    and "\<not> s_newAppImgMaxSize s < offset + len \<Longrightarrow> len \<noteq> 0 \<Longrightarrow>
      unat (s_newAppImgStartAddr s + offset div 256 * 256) =
        unat (s_newAppImgStartAddr s) + unat offset div 256 * 256 \<and>
      unat (s_newAppImgStartAddr s + offset div 256 * 256) + 256 \<le> FLASH_SIZE"
proof -
  show lt: "s_newAppImgMaxSize s < offset + len \<longleftrightarrow> unat (s_newAppImgMaxSize s) < unat offset + unat len"
    by (simp add: word_less_nat_alt unat_add_small [OF assms(2)])
  assume "\<not> s_newAppImgMaxSize s < offset + len" and "len \<noteq> 0"
  moreover have "0 < unat len" using \<open>len \<noteq> 0\<close> by (simp add: unat_gt_0)
  ultimately have "unat (s_newAppImgStartAddr s) + unat offset < 0xFFF000"
    using assms(1) lt by (simp add: bank_ok_def)
  moreover have "unat offset div 256 * 256 \<le> unat offset" by simp
  ultimately show "unat (s_newAppImgStartAddr s + offset div 256 * 256) =
        unat (s_newAppImgStartAddr s) + unat offset div 256 * 256 \<and>
      unat (s_newAppImgStartAddr s + offset div 256 * 256) + 256 \<le> FLASH_SIZE"
    using page_split(1) [of offset] by (subst unat_add_small) (simp_all, subst unat_add_small, simp_all)
qed

lemma ext_abs_bank_eq:
  assumes "drv_wf s" and "bank_ok s" and "unat offset + unat len < 4294967296"
  shows "FICA_app_program_ext_abs X offset (Some data) len s =
    (if len = 0 \<or> unat (s_newAppImgMaxSize s) < unat offset + unat len then Inr (-1, s)
     else if \<not> comm_get 10 (table X (board s)) then Inr (-1, s\<lparr>s_fica := table X (board s)\<rparr>)
     else returns (ext_abs_loop X len (offset div 256 * 256) 0 0 (offset - offset div 256 * 256) data
            (chunk_start X offset len s)))"
  by (subst ext_abs_eq [OF assms(1)])
    (use in_bank_sums [OF assms(2,3)] in \<open>simp_all del: FLASH_SIZE_def\<close>)

lemma chunk_start_facts:
  "length (s_appImgBuffer (chunk_start X offset len s)) = 4096"
  "board (chunk_start X offset len s) = board s"
  "s_newAppImgStartAddr (chunk_start X offset len s) = s_newAppImgStartAddr s"
  "take (unat offset mod 256) (s_appImgBuffer (chunk_start X offset len s)) = peek (bflash X (board s))
      (unat (s_newAppImgStartAddr s + offset div 256 * 256)) (unat offset mod 256)"
proof -
  have "unat offset mod 256 \<le> 4096" by (rule order.trans [OF less_imp_le [OF mod_less_divisor]]) simp_all
  then show "length (s_appImgBuffer (chunk_start X offset len s)) = 4096"
    "board (chunk_start X offset len s) = board s"
    "s_newAppImgStartAddr (chunk_start X offset len s) = s_newAppImgStartAddr s"
    "take (unat offset mod 256) (s_appImgBuffer (chunk_start X offset len s)) = peek (bflash X (board s))
      (unat (s_newAppImgStartAddr s + offset div 256 * 256)) (unat offset mod 256)"
    by (simp_all add: chunk_start_def length_blit, simp add: blit_def)
qed

lemma ext_abs_ok:
  assumes "FICA_app_program_ext_abs X offset (Some data) len s = Inr (st, s')"
    and "drv_wf s" and "bank_ok s" and "unat offset + unat len < 4294967296"
  shows "n < unat (s_newAppImgStartAddr s) \<or>
      unat (s_newAppImgStartAddr s) + unat (s_newAppImgMaxSize s) \<le> n \<Longrightarrow>
      bflash X (board s') n = bflash X (board s) n" (is "?out n \<Longrightarrow> _")
    and "st = 0 \<Longrightarrow> comm_get 10 (table X (board s)) \<and> unat len \<le> length data \<and>
      unat offset + unat len \<le> unat (s_newAppImgMaxSize s) \<and>
      bflash X (board s') = burn (unat (s_newAppImgStartAddr s) + unat offset) (take (unat len) data) (bflash X (board s)) \<and>
      s_newAppCurrLen s' = max (s_newAppCurrLen s) (offset + len) \<and>
      s_fica s' = table X (board s) \<and> s_newAppImgType s' = s_newAppImgType s \<and>
      s_newAppImgStartAddr s' = s_newAppImgStartAddr s \<and> s_newAppImgMaxSize s' = s_newAppImgMaxSize s"
proof -
  have *: "(?out n \<longrightarrow> bflash X (board s') n = bflash X (board s) n) \<and>
    (st = 0 \<longrightarrow> comm_get 10 (table X (board s)) \<and> unat len \<le> length data \<and>
      unat offset + unat len \<le> unat (s_newAppImgMaxSize s) \<and>
      bflash X (board s') = burn (unat (s_newAppImgStartAddr s) + unat offset) (take (unat len) data) (bflash X (board s)) \<and>
      s_newAppCurrLen s' = max (s_newAppCurrLen s) (offset + len) \<and>
      s_fica s' = table X (board s) \<and> s_newAppImgType s' = s_newAppImgType s \<and>
      s_newAppImgStartAddr s' = s_newAppImgStartAddr s \<and> s_newAppImgMaxSize s' = s_newAppImgMaxSize s)"
  proof (cases "len = 0 \<or> unat (s_newAppImgMaxSize s) < unat offset + unat len \<or> \<not> comm_get 10 (table X (board s))")
    case True
    then show ?thesis using assms(1) by (auto simp: ext_abs_bank_eq [OF assms(2-4)] split: if_splits)
  next
    case False
    then have fits: "unat offset + unat len \<le> unat (s_newAppImgMaxSize s)" by simp
    let ?t = "chunk_start X offset len s"
    have "\<not> s_newAppImgMaxSize s < offset + len" and "len \<noteq> 0"
      using in_bank_sums(1) [OF assms(3,4)] fits False by simp_all
    note sums = in_bank_sums(2) [OF assms(3,4) this]
    note t = chunk_start_facts [of offset len s]
    have loop: "ext_abs_loop X len (offset div 256 * 256) 0 0 (offset - offset div 256 * 256) data ?t = Some (Inr (st, s'))"
      using assms(1) False
      by (cases "ext_abs_loop X len (offset div 256 * 256) 0 0 (offset - offset div 256 * 256) data ?t")
        (auto simp: ext_abs_bank_eq [OF assms(2-4)])
    have le: "unat offset div 256 * 256 + unat offset mod 256 = unat offset"
      by (rule div_mult_mod_eq)
    have b: "unat (s_newAppImgStartAddr s) mod 256 = 0" "unat (s_newAppImgMaxSize s) mod 256 = 0"
      "unat (s_newAppImgStartAddr s) + unat (s_newAppImgMaxSize s) \<le> 0xFFF000"
      using assms(3) by (simp_all add: bank_ok_def)
    have "page_op ?t s' \<and>
      (\<forall>n. n < unat (s_newAppImgStartAddr s) + unat offset div 256 * 256 \<or>
          unat (s_newAppImgStartAddr s) + unat (s_newAppImgMaxSize s) \<le> n \<longrightarrow>
        bflash X (board s') n = bflash X (board s) n) \<and>
      (st = 0 \<longrightarrow> unat len \<le> length data \<and> bflash X (board s') =
        burn (unat (s_newAppImgStartAddr s) + unat offset div 256 * 256 + unat offset mod 256)
          (take (unat len) data) (bflash X (board s)))"
      using ext_abs_loop_ok [OF loop t(1), of "unat (s_newAppImgStartAddr s) + unat (s_newAppImgMaxSize s)"]
        b fits le t sums by (simp add: page_split mod_add_eq [symmetric])
    moreover have "unat (s_newAppImgStartAddr s) + unat offset div 256 * 256 + unat offset mod 256 =
        unat (s_newAppImgStartAddr s) + unat offset"
      using le by simp
    moreover have "page_op ?t s' \<Longrightarrow> s_newAppCurrLen s' = max (s_newAppCurrLen s) (offset + len) \<and>
        s_fica s' = table X (board s) \<and> s_newAppImgType s' = s_newAppImgType s \<and>
      s_newAppImgStartAddr s' = s_newAppImgStartAddr s \<and> s_newAppImgMaxSize s' = s_newAppImgMaxSize s"
      using page_op_fields [of ?t s'] by (simp add: chunk_start_def)
    ultimately show ?thesis using False fits by auto
  qed
  show "?out n \<Longrightarrow> bflash X (board s') n = bflash X (board s) n" using * by simp
  show "st = 0 \<Longrightarrow> comm_get 10 (table X (board s)) \<and> unat len \<le> length data \<and>
      unat offset + unat len \<le> unat (s_newAppImgMaxSize s) \<and>
      bflash X (board s') = burn (unat (s_newAppImgStartAddr s) + unat offset) (take (unat len) data) (bflash X (board s)) \<and>
      s_newAppCurrLen s' = max (s_newAppCurrLen s) (offset + len) \<and>
      s_fica s' = table X (board s) \<and> s_newAppImgType s' = s_newAppImgType s \<and>
      s_newAppImgStartAddr s' = s_newAppImgStartAddr s \<and> s_newAppImgMaxSize s' = s_newAppImgMaxSize s"
    using * by simp
qed

end

section \<open>The write loop ends\<close>

context spi_live begin

lemma ext_abs_step_returns:
  assumes "length (s_appImgBuffer s) = 4096" and "unat (s_newAppImgStartAddr s + wa) mod 256 = 0"
    and "unat (s_newAppImgStartAddr s + wa) < FLASH_SIZE" and "unat pre + unat n \<le> 256"
    and "take (unat pre) (s_appImgBuffer s) =
      peek (bflash X (board s)) (unat (s_newAppImgStartAddr s + wa)) (unat pre)"
    and "unat n \<le> length data"
  shows "\<exists>s'. ext_abs_step X wa pre n data s = Inr (0, s')"
proof -
  obtain buf where l: "length buf = 4096"
    and e: "ext_abs_step X wa pre n data s =
      rbind (SLN_Write_Flash_At_Address X (s_newAppImgStartAddr s + wa) buf (board s)) (\<lambda>(st, b).
      Inr (if st \<noteq> 0 then -1 else 0, s\<lparr>s_appImgBuffer := buf, board := b\<rparr>))"
    using ext_abs_step_eq [OF assms(1-5), of data] assms(6) by auto
  obtain b where "SLN_Write_Flash_At_Address X (s_newAppImgStartAddr s + wa) buf (board s) = Inr (0, b)"
    using SLN_Write_Flash_At_Address_returns [of buf] l by fastforce
  then show ?thesis using e by simp
qed

lemma ext_abs_loop_returns:
  fixes s :: "'d fica_st"
  assumes "length (s_appImgBuffer s) = 4096" and "unat c \<le> unat len" and "unat pre < 256"
    and "(unat (s_newAppImgStartAddr s) + unat pg + 256 * unat k) mod 256 = 0"
    and "unat (s_newAppImgStartAddr s) + unat pg + 256 * unat k + unat pre + (unat len - unat c) \<le> FLASH_SIZE"
    and "take (unat pre) (s_appImgBuffer s) = peek (bflash X (board s))
      (unat (s_newAppImgStartAddr s) + unat pg + 256 * unat k) (unat pre)"
    and "unat len - unat c \<le> length data"
  shows "\<exists>s'. ext_abs_loop X len pg c k pre data s = Some (Inr (0, s'))"
  using assms
proof (induction "unat len - unat c" arbitrary: c k pre data s rule: less_induct)
  case less
  show ?case
  proof (cases "unat c < unat len")
    case False
    then show ?thesis using ext_abs_loop_done [of c len X pg k pre data s] by (simp add: word_less_nat_alt)
  next
    case True
    define P where "P = unat (s_newAppImgStartAddr s) + unat pg + 256 * unat k"
    define n where "n = turn_len len c pre"
    note room = less.prems(5) [folded P_def]
    note num = turn_numbers [OF True less.prems(3), of "s_newAppImgStartAddr s" pg k, folded P_def n_def, OF room]
    have al: "P mod 256 = 0" using less.prems(4) by (simp add: P_def)
    have lt: "P < FLASH_SIZE" using room True by simp
    have pren: "unat pre + unat n \<le> 256" using num(1) less.prems(3) by simp
    have nd: "unat n \<le> length data" using num(1) less.prems(7) by simp
    obtain s1 where st1: "ext_abs_step X (pg + k * 256) pre n data s = Inr (0, s1)"
      using ext_abs_step_returns [of s "pg + k * 256" pre n data, unfolded num(3),
          OF less.prems(1) al lt pren less.prems(6) [folded P_def] nd] by blast
    note step = ext_abs_step_ok [OF st1 less.prems(1), unfolded num(3), OF al lt pren
        less.prems(6) [folded P_def]]
    have next_page: "unat (s_newAppImgStartAddr s1) + unat pg + 256 * unat (k + 1) = P + 256"
      using num(4) page_op_fields(1) [OF step(1)] by (simp add: P_def)
    have page: "P + 256 \<le> FLASH_SIZE" by (rule aligned_next [OF al _ lt]) simp
    have room': "P + 256 + unat (0 :: u32) + (unat len - unat (c + n)) \<le> FLASH_SIZE"
      using num(1,2) room page by (simp add: min_def split: if_splits)
    have dec: "unat len - unat (c + n) < unat len - unat c" and le: "unat (c + n) \<le> unat len"
      using num(2) True less.prems(3) by auto
    have rest: "unat len - unat (c + n) = unat len - unat c - unat n"
      using num(1,2) by simp
    then have data: "unat len - unat (c + n) \<le> length (drop (unat n) data)"
      using less.prems(7) by simp
    have "\<exists>s'. ext_abs_loop X len pg (c + n) (k + 1) 0 (drop (unat n) data) s1 = Some (Inr (0, s'))"
      by (rule less.hyps [OF dec page_op_fields(6) [OF step(1)] le]; (unfold next_page)?)
        (use al room' data in \<open>simp_all add: peek_def\<close>)
    then show ?thesis
      using True st1 by (simp add: ext_abs_loop_turn word_less_nat_alt n_def)
  qed
qed

lemma ext_abs_returns:
  assumes "drv_wf s" and "bank_ok s" and "unat offset + unat len \<le> unat (s_newAppImgMaxSize s)"
    and "comm_get 10 (table X (board s))" and "0 < unat len" and "unat len \<le> length data"
  shows "\<exists>s'. FICA_app_program_ext_abs X offset (Some data) len s = Inr (0, s')"
proof -
  have nowrap: "unat offset + unat len < 4294967296"
    using assms(3) unat_u32_less [of "s_newAppImgMaxSize s"] by simp
  let ?t = "chunk_start X offset len s"
  have "\<not> s_newAppImgMaxSize s < offset + len" and "len \<noteq> 0"
    using in_bank_sums(1) [OF assms(2) nowrap] assms(3,5) by auto
  note sums = in_bank_sums(2) [OF assms(2) nowrap this]
  note t = chunk_start_facts [of offset len s]
  have le: "unat offset div 256 * 256 + unat offset mod 256 = unat offset"
    by (rule div_mult_mod_eq)
  have b: "unat (s_newAppImgStartAddr s) mod 256 = 0"
    "unat (s_newAppImgStartAddr s) + unat (s_newAppImgMaxSize s) \<le> 0xFFF000"
    using assms(2) by (simp_all add: bank_ok_def)
  have "\<exists>s'. ext_abs_loop X len (offset div 256 * 256) 0 0 (offset - offset div 256 * 256) data ?t = Some (Inr (0, s'))"
    by (rule ext_abs_loop_returns [OF t(1)])
      (use t b le sums assms(3,6) in \<open>simp_all add: page_split mod_add_eq [symmetric]\<close>)
  moreover have "len \<noteq> 0" using assms(5) by auto
  ultimately show ?thesis
    using assms(3,4) by (auto simp: ext_abs_bank_eq [OF assms(1,2) nowrap])
qed

end

section \<open>Erasing a bank\<close>

context spi_device begin

lemma SLN_Erase_Block_ok:
  "SLN_Erase_Block X a b = Inr (0, b') \<Longrightarrow> unat a < FLASH_SIZE \<Longrightarrow>
   bflash X b' = wipe 0x10000 (unat a) (bflash X b)"
  by (auto simp: SLN_Erase_Block_eq reset_flash bflash_def elim!: guarded_InrE then_reset_InrE
      dest: erase_block_ok)

lemma SLN_Erase_Block_frame:
  "SLN_Erase_Block X a b = Inr (st, b') \<Longrightarrow> unat a < FLASH_SIZE \<Longrightarrow>
   n div 0x10000 \<noteq> unat a div 0x10000 \<Longrightarrow> bflash X b' n = bflash X b n"
  by (auto simp: SLN_Erase_Block_eq reset_flash bflash_def elim!: guarded_InrE then_reset_InrE
      dest: erase_block_frame)

lemmas sector_eraser = paged.erase_ok paged.erase_frame
lemmas block_eraser = SLN_Erase_Block_ok SLN_Erase_Block_frame

end

text \<open>
  The erase loop over units of any size: it erases whole units up to the end address, so it stays
  below the next unit boundary \<open>r\<close>.
\<close>

lemma erase_units_ok:
  fixes inc :: u32
  assumes "erase_bank_loop E inc e a b = Some (Inr (st, b'))"
    and ok: "\<And>a b b'. E a b = Inr (0, b') \<Longrightarrow> unat a < FLASH_SIZE \<Longrightarrow>
      bflash X b' = wipe (unat inc) (unat a) (bflash X b)"
    and frame: "\<And>a b st b' n. E a b = Inr (st, b') \<Longrightarrow> unat a < FLASH_SIZE \<Longrightarrow>
      n div unat inc \<noteq> unat a div unat inc \<Longrightarrow> bflash X b' n = bflash X b n"
    and "0 < inc" and "unat a mod unat inc = 0" and "r mod unat inc = 0" and "unat e \<le> r" and "r \<le> FLASH_SIZE"
  shows "(\<forall>n. n < unat a \<or> r \<le> n \<longrightarrow> bflash X b' n = bflash X b n) \<and>
    (st = 0 \<longrightarrow> (\<forall>n. unat a \<le> n \<and> n < unat e \<longrightarrow> bflash X b' n = 0xFF))"
  using assms(1,5)
proof (induction "r - unat a" arbitrary: a b rule: less_induct)
  case less
  let ?u = "unat inc"
  have u: "0 < ?u" using assms(4) by (simp add: unat_gt_0 word_neq_0_conv)
  show ?case
  proof (cases "unat a < unat e")
    case False
    then show ?thesis
      using less.prems(1) by (subst (asm) erase_bank_loop.simps) (auto simp: word_less_nat_alt)
  next
    case True
    then have lt: "a < e" and ar: "unat a < r" and af: "unat a < FLASH_SIZE"
      using assms(7,8) by (simp_all add: word_less_nat_alt)
    have step: "unat a + ?u \<le> r"
      by (rule aligned_next [OF less.prems(2) assms(6) ar])
    then have ua: "unat (a + inc) = unat a + ?u"
      using assms(8) by (subst unat_add_small) simp_all
    obtain st1 b1 where er: "E a b = Inr (st1, b1)"
      and rest: "st1 = 0 \<longrightarrow> erase_bank_loop E inc e (a + inc) b1 = Some (Inr (st, b'))"
      and f: "st1 \<noteq> 0 \<longrightarrow> st \<noteq> 0 \<and> b' = b1"
      using less.prems(1) lt
      by (subst (asm) erase_bank_loop.simps) (auto split: sum.splits prod.splits if_splits)
    have out: "n < unat a \<or> unat a + ?u \<le> n \<Longrightarrow> bflash X b1 n = bflash X b n" for n
      using frame [OF er af, of n] unit_iff [OF less.prems(2) u, of n] by auto
    show ?thesis
    proof (cases "st1 = 0")
      case False
      then show ?thesis using f out step by auto
    next
      case True
      have ff: "unat a \<le> n \<Longrightarrow> n < unat a + ?u \<Longrightarrow> bflash X b1 n = 0xFF" for n
        using ok [of a b b1] er True af unit_iff [OF less.prems(2) u, of n]
        by (simp add: wipe_def)
      have dec: "r - unat (a + inc) < r - unat a" using ua ar u by simp
      have al: "unat (a + inc) mod ?u = 0" using ua less.prems(2) by simp
      have c1: "n < unat a + ?u \<or> r \<le> n \<Longrightarrow> bflash X b' n = bflash X b1 n"
        and c2: "st = 0 \<Longrightarrow> unat a + ?u \<le> n \<Longrightarrow> n < unat e \<Longrightarrow> bflash X b' n = 0xFF" for n
        using less.hyps [OF dec _ al, of b1] rest True ua by auto
      have "n < unat a \<or> r \<le> n \<Longrightarrow> bflash X b' n = bflash X b n" for n
        using c1 [of n] out [of n] step by auto
      moreover have "st = 0 \<Longrightarrow> unat a \<le> n \<Longrightarrow> n < unat e \<Longrightarrow> bflash X b' n = 0xFF" for n
        using c1 [of n] c2 [of n] ff [of n] by (cases "n < unat a + ?u") auto
      ultimately show ?thesis by blast
    qed
  qed
qed

lemma erase_units_return:
  fixes inc :: u32
  assumes total: "\<And>a b. \<exists>b'. E a b = Inr (0, b')"
    and "0 < inc" and "unat a mod unat inc = 0" and "r mod unat inc = 0" and "unat e \<le> r" and "r \<le> FLASH_SIZE"
  shows "\<exists>b'. erase_bank_loop E inc e a b = Some (Inr (0, b'))"
  using assms(3)
proof (induction "r - unat a" arbitrary: a b rule: less_induct)
  case less
  have u: "0 < unat inc" using assms(2) by (simp add: unat_gt_0 word_neq_0_conv)
  show ?case
  proof (cases "unat a < unat e")
    case False
    then show ?thesis by (subst erase_bank_loop.simps) (simp add: word_less_nat_alt)
  next
    case True
    then have ar: "unat a < r" using assms(5) by simp
    have step: "unat a + unat inc \<le> r"
      by (rule aligned_next [OF less.prems assms(4) ar])
    then have ua: "unat (a + inc) = unat a + unat inc"
      using assms(6) by (subst unat_add_small) simp_all
    obtain b1 where "E a b = Inr (0, b1)" using total by blast
    moreover have "\<exists>b'. erase_bank_loop E inc e (a + inc) b1 = Some (Inr (0, b'))"
      using less.hyps [of "a + inc" b1] less.prems ua ar u by simp
    ultimately show ?thesis
      using True by (subst erase_bank_loop.simps) (simp add: word_less_nat_alt)
  qed
qed

lemma block_mask: "(a :: u32) AND 0xFFFF = 0 \<longleftrightarrow> unat a mod 0x10000 = 0"
proof -
  have "a AND 0xFFFF = take_bit 16 a" by (simp add: take_bit_eq_mask mask_eq_exp_minus_1)
  moreover have "unat (take_bit 16 a) = unat a mod 0x10000"
    by (simp add: take_bit_eq_mod unat_mod)
  ultimately show ?thesis by (metis unat_eq_zero)
qed

text \<open>Erasing from a sector boundary on: the unit is a block exactly when the start is on a block boundary.\<close>

context spi_device begin

lemma erase_from_ok:
  assumes "FICA_Erase_Bank X a k s = Inr (st, s')" and "unat a mod 0x1000 = 0"
    and "unat a + unat k \<le> r" and "r mod 0x10000 = 0" and "r \<le> FLASH_SIZE"
  shows "s' = s\<lparr>board := board s'\<rparr>"
    and "n < unat a \<or> r \<le> n \<Longrightarrow> bflash X (board s') n = bflash X (board s) n"
    and "st = 0 \<Longrightarrow> unat a \<le> n \<Longrightarrow> n < unat a + unat k \<Longrightarrow> bflash X (board s') n = 0xFF"
proof -
  have e: "unat (a + k) = unat a + unat k" using assms(3,5) by (subst unat_add_small) simp_all
  have r: "r mod 0x1000 = 0"
    using assms(4) mod_mod_cancel [of "0x1000" "0x10000" r] by simp
  define E where "E = (if a AND 0xFFFF \<noteq> 0 then SLN_Erase_Sector X else SLN_Erase_Block X)"
  define inc :: u32 where "inc = (if a AND 0xFFFF \<noteq> 0 then 0x1000 else 0x10000)"
  obtain b' where l: "erase_bank_loop E inc (a + k) a (board s) = Some (Inr (st, b'))"
    and s': "s' = s\<lparr>board := b'\<rparr>"
    using assms(1) unfolding FICA_Erase_Bank_def Let_def E_def inc_def
    by (auto simp: on_board_def returns_def elim!: rbind_InrE split: option.splits if_splits)
  have "(\<forall>n. n < unat a \<or> r \<le> n \<longrightarrow> bflash X b' n = bflash X (board s) n) \<and>
    (st = 0 \<longrightarrow> (\<forall>n. unat a \<le> n \<and> n < unat (a + k) \<longrightarrow> bflash X b' n = 0xFF))"
  proof (rule erase_units_ok [OF l])
    show "E a b = Inr (0, b') \<Longrightarrow> unat a < FLASH_SIZE \<Longrightarrow> bflash X b' = wipe (unat inc) (unat a) (bflash X b)"
      for a b b'
      using sector_eraser(1) [of a b b'] block_eraser(1) [of a b b'] by (simp add: E_def inc_def split: if_splits)
    show "E a b = Inr (st, b') \<Longrightarrow> unat a < FLASH_SIZE \<Longrightarrow> n div unat inc \<noteq> unat a div unat inc \<Longrightarrow>
        bflash X b' n = bflash X b n" for a b st b' n
      using sector_eraser(2) [of a b st b' n] block_eraser(2) [of a b st b' n] by (simp add: E_def inc_def split: if_splits)
    show "unat a mod unat inc = 0" using assms(2) block_mask [of a] by (simp add: inc_def)
  qed (use assms r e in \<open>simp_all add: inc_def\<close>)
  then show "s' = s\<lparr>board := board s'\<rparr>"
    and "n < unat a \<or> r \<le> n \<Longrightarrow> bflash X (board s') n = bflash X (board s) n"
    and "st = 0 \<Longrightarrow> unat a \<le> n \<Longrightarrow> n < unat a + unat k \<Longrightarrow> bflash X (board s') n = 0xFF"
    using s' e by auto
qed

end

context spi_live begin

lemma erase_from_returns:
  assumes "unat a mod 0x1000 = 0" and "unat a + unat k \<le> r" and "r mod 0x10000 = 0" and "r \<le> FLASH_SIZE"
  shows "\<exists>s'. FICA_Erase_Bank X a k s = Inr (0, s')"
proof -
  have e: "unat (a + k) = unat a + unat k" using assms(2,4) by (subst unat_add_small) simp_all
  have r: "r mod 0x1000 = 0"
    using assms(3) mod_mod_cancel [of "0x1000" "0x10000" r] by simp
  define E where "E = (if a AND 0xFFFF \<noteq> 0 then SLN_Erase_Sector X else SLN_Erase_Block X)"
  define inc :: u32 where "inc = (if a AND 0xFFFF \<noteq> 0 then 0x1000 else 0x10000)"
  have "\<exists>b'. erase_bank_loop E inc (a + k) a (board s) = Some (Inr (0, b'))"
  proof (rule erase_units_return [where r = r])
    show "\<exists>b'. E a b = Inr (0, b')" for a b
      using SLN_Erase_Sector_returns [of a b] SLN_Erase_Block_returns [of a b] by (simp add: E_def)
    show "unat a mod unat inc = 0" using assms(1) block_mask [of a] by (simp add: inc_def)
  qed (use assms r e in \<open>simp_all add: inc_def\<close>)
  then show ?thesis
    unfolding FICA_Erase_Bank_def Let_def E_def inc_def by (auto simp: on_board_def)
qed

end

text \<open>The banks of the layout are made of whole erase blocks, so a bank is erased exactly.\<close>

lemma bank_blocks:
  assumes "valid_img_type t"
  shows "unat (bank_addr t) mod 0x10000 = 0" and "unat (bank_addr t + bank_size t) mod 0x10000 = 0"
    and "unat (bank_addr t + bank_size t) = unat (bank_addr t) + unat (bank_size t)"
    and "unat (bank_addr t) + unat (bank_size t) \<le> 0xE00000"
    and "bank_addr t AND 0xFFFF = 0" and "unat (bank_size t) mod 256 = 0" and "unat (bank_addr t) mod 256 = 0"
  using assms by (auto simp: valid_cases bank_addr_def bank_size_def)

context spi_device begin

lemma erase_bank_ok:
  assumes "FICA_Erase_Bank X (bank_addr t) (bank_size t) s = Inr (st, s')" and "valid_img_type t"
  shows "s' = s\<lparr>board := board s'\<rparr>"
    and "n < unat (bank_addr t) \<or> unat (bank_addr t) + unat (bank_size t) \<le> n \<Longrightarrow>
      bflash X (board s') n = bflash X (board s) n"
    and "st = 0 \<Longrightarrow> unat (bank_addr t) \<le> n \<Longrightarrow> n < unat (bank_addr t) + unat (bank_size t) \<Longrightarrow>
      bflash X (board s') n = 0xFF"
  using bank_blocks [OF assms(2)] erase_from_ok [OF assms(1) _ order_refl]
    mod_mod_cancel [of "0x1000" "0x10000" "unat (bank_addr t)"] by simp_all

end

section \<open>Recording the image and switching to it\<close>

definition with_newType :: "int \<Rightarrow> fica_t \<Rightarrow> fica_t" where
  "with_newType t f = f\<lparr>header := (header f)\<lparr>newType := word_of_int t\<rparr>\<rparr>"

definition with_currType :: "int \<Rightarrow> fica_t \<Rightarrow> fica_t" where
  "with_currType t f = f\<lparr>header := (header f)\<lparr>currType := word_of_int t\<rparr>\<rparr>"

lemma table_op_fields:
  assumes "table_op X s s'"
  shows "s_newAppImgType s' = s_newAppImgType s" and "s_newAppCurrLen s' = s_newAppCurrLen s"
    and "s_newAppImgStartAddr s' = s_newAppImgStartAddr s" and "s_newAppImgMaxSize s' = s_newAppImgMaxSize s"
    and "s_appImgBuffer s' = s_appImgBuffer s" and "fica_wf (s_fica s')"
  using assms by (cases s; cases s'; simp add: table_op_def)+

context spi_device begin

lemma set_flag_step:
  assumes "FICA_set_comm_flag X (push_bit n 1) s = Inr (0, s')" and "fica_wf (s_fica s)" and "n < 32"
    and "s_fica s = table X (board s)"
  shows "s_fica s' = comm_put n True (s_fica s)" and "table X (board s') = s_fica s'"
    and "table_op X s s'"
  using set_comm_flag_ok [OF assms(1-3)] set_comm_flag_table_op [OF assms(1,2)] assms(4) by simp_all

lemma clr_flag_step:
  assumes "FICA_clr_comm_flag X (push_bit n 1) s = Inr (0, s')" and "fica_wf (s_fica s)" and "n < 32"
    and "s_fica s = table X (board s)"
  shows "s_fica s' = comm_put n False (s_fica s)" and "table X (board s') = s_fica s'"
    and "table_op X s s'"
  using clr_comm_flag_ok [OF assms(1-3)] clr_comm_flag_table_op [OF assms(1,2)] assms(4) by simp_all

lemma finalize_ok:
  assumes "FICA_app_program_ext_finalize X s = Inr (0, s')" and "fica_wf (s_fica s)"
  shows "valid_img_type (s_newAppImgType s) \<and> s_fica s' = table X (board s') \<and>
    table X (board s') = comm_put 10 False (comm_put 9 True (with_newType (s_newAppImgType s)
      (comm_put 8 True (info_record (s_newAppImgType s) FICA_IMG_FMT_BIN (s_newAppCurrLen s) (s_fica s)))))"
proof -
  obtain s1 s2 s3 s4
    where a1: "FICA_write_image_info X (s_newAppImgType s) FICA_IMG_FMT_BIN (s_newAppCurrLen s) s = Inr (0, s1)"
    and a2: "FICA_set_comm_flag X (push_bit 8 1) s1 = Inr (0, s2)"
    and a3: "FICA_write_db X (upd_header (\<lambda>h. h\<lparr>newType := word_of_int (s_newAppImgType s2)\<rparr>) s2) = Inr (0, s3)"
    and a4: "FICA_set_comm_flag X (push_bit 9 1) s3 = Inr (0, s4)"
    and a5: "FICA_clr_comm_flag X (push_bit 10 1) s4 = Inr (0, s')"
    using assms(1) by (auto simp: FICA_app_program_ext_finalize_def elim!: rbind_InrE split: if_splits)
  note i = write_image_info_ok [OF a1 assms(2)] and t1 = write_image_info_table_op [OF a1 assms(2)]
  note w1 = table_op_wf [OF t1]
  note f2 = set_flag_step [OF a2 w1] and w2 = set_comm_flag_table_op [OF a2 w1, THEN table_op_wf]
  have s2: "s_fica s2 = comm_put 8 True (s_fica s1)" and t2: "table_op X s1 s2" using f2 i by simp_all
  have w2': "fica_wf (s_fica (upd_header (\<lambda>h. h\<lparr>newType := word_of_int (s_newAppImgType s2)\<rparr>) s2))"
    using w2 by simp
  note w3 = write_db_ok [OF a3 w2'] and t3 = write_db_table_op [OF a3 w2']
  have s3: "s_fica s3 = with_newType (s_newAppImgType s) (s_fica s2)" and "s_fica s3 = table X (board s3)"
    using w3 table_op_fields(1) [OF t1] table_op_fields(1) [OF t2]
    by (simp_all add: upd_header_def with_newType_def)
  note f4 = set_flag_step [OF a4 table_op_wf [OF t3] _ this(2)]
  have s4: "s_fica s4 = comm_put 9 True (s_fica s3)" "s_fica s4 = table X (board s4)"
    using f4 by simp_all
  have "fica_wf (s_fica s4)" using f4(3) by (simp add: table_op_wf)
  then show ?thesis using clr_flag_step [OF a5 _ _ s4(2)] i s2 s3 s4 by simp
qed

lemma reset_vector_ok:
  assumes "FICA_app_program_ext_set_reset_vector X s = Inr (0, s')" and "fica_wf (s_fica s)"
  shows "\<exists>t. valid_img_type t \<and> genuine X s \<and> initialized (table X (board s)) \<and>
    comm_get 9 (table X (board s)) \<and> t = sint (newType (header (table X (board s)))) \<and>
    s_fica s' = table X (board s') \<and>
    table X (board s') = comm_put 4 True (comm_put 9 False (comm_put 8 False (with_currType t (table X (board s)))))"
proof -
  obtain s0 where i: "FICA_initialize X s = Inr (0, s0)"
    using assms(1) by (auto simp: FICA_app_program_ext_set_reset_vector_def Let_def
        elim!: rbind_InrE split: if_splits)
  note wf0 = table_op_wf [OF initialize_table_op [OF i assms(2)]]
  note t0 = initialize_ok [OF i assms(2)]
  define t where "t = sint (newType (header (table X (board s0))))"
  define s1 where "s1 = s0\<lparr>s_fica := table X (board s0), s_newAppImgType := t\<rparr>"
  have flag: "FICA_get_comm_flag X 0x200 False s0 =
      Inr ((0, comm_get 9 (table X (board s0))), s0\<lparr>s_fica := table X (board s0)\<rparr>)"
    using get_comm_flag_eq [OF wf0, of 9 False] by simp
  have g: "comm_get 9 (table X (board s0))"
    using assms(1) by (rule_tac ccontr)
      (simp add: FICA_app_program_ext_set_reset_vector_def i flag)
  moreover have "\<not> comm_get 9 fica_default" by (simp add: comm_get_def fica_default_def)
  ultimately have init: "genuine X s \<and> initialized (table X (board s))" and tt: "table X (board s0) = table X (board s)"
    using t0 by (auto split: if_splits)
  obtain s2 s3 s4 where v: "valid_img_type t"
    and a1: "FICA_SetCurAppStartType X t s1 = Inr (0, s2)"
    and a2: "FICA_clr_comm_flag X (push_bit 8 1) s2 = Inr (0, s3)"
    and a3: "FICA_clr_comm_flag X (push_bit 9 1) s3 = Inr (0, s4)"
    and a4: "FICA_set_comm_flag X (push_bit 4 1) s4 = Inr (0, s')"
    using assms(1) g by (auto simp: FICA_app_program_ext_set_reset_vector_def i flag Let_def
        t_def s1_def elim!: rbind_InrE split: if_splits)
  have w1: "fica_wf (s_fica s1)" by (simp add: s1_def table_wf)
  have s2: "s_fica s2 = with_currType t (table X (board s))" "s_fica s2 = table X (board s2)"
    using set_app_ok [OF a1 w1] by (simp_all add: s1_def with_currType_def tt)
  note w2 = table_op_wf [OF set_app_table_op [OF a1 w1]]
  note f3 = clr_flag_step [OF a2 w2 _ s2(2), simplified]
  note f4 = clr_flag_step [OF a3 table_op_wf [OF f3(3)] _ f3(2) [symmetric], simplified]
  note f5 = set_flag_step [OF a4 table_op_wf [OF f4(3)] _ f4(2) [symmetric], simplified]
  show ?thesis using v init g f5 f4 f3 s2 tt by (auto simp: t_def)
qed

text \<open>The boot selection changes only when the new image was recorded as present.\<close>

lemma reset_vector_gate:
  assumes "fica_wf (s_fica s)" and "FICA_app_program_ext_set_reset_vector X s = Inr (st, s')"
    and "initialized (table X (board s))" and "genuine X s" and "\<not> comm_get 9 (table X (board s))"
  shows "st = -1 \<and> bflash X (board s') = bflash X (board s)"
proof -
  obtain s0 where i: "FICA_initialize X s = Inr (0, s0)" and f: "bflash X (board s0) = bflash X (board s)"
    using initialize_valid [OF assms(1,4,3)] by blast
  note wf0 = table_op_wf [OF initialize_table_op [OF i assms(1)]]
  have "FICA_get_comm_flag X 0x200 False s0 =
      Inr ((0, comm_get 9 (table X (board s0))), s0\<lparr>s_fica := table X (board s0)\<rparr>)"
    using get_comm_flag_eq [OF wf0, of 9 False] by simp
  then show ?thesis
    using assms(2,5) f table_cong [OF f] by (auto simp: FICA_app_program_ext_set_reset_vector_def i)
qed

end

section \<open>Opening a bank\<close>

lemma bank_blocks_ok:
  "valid_img_type t \<Longrightarrow> s_newAppImgStartAddr s = bank_addr t \<Longrightarrow> s_newAppImgMaxSize s = bank_size t \<Longrightarrow> bank_ok s"
  using bank_blocks [of t] by (simp add: bank_ok_def)

lemma outside_table_bank:
  assumes "valid_img_type t" and "unat (bank_addr t) \<le> n" and "n < unat (bank_addr t) + unat (bank_size t)"
  shows "outside_table n"
proof -
  have "n < 0xFFF * 0x1000" using assms bank_blocks(4) [OF assms(1)] by simp
  then have "n div 0x1000 < 0xFFF" by (subst div_less_iff_less_mult) simp_all
  then show ?thesis by (simp add: outside_table_def)
qed

lemma table_above:
  assumes "\<And>n. 0xFFF000 \<le> n \<Longrightarrow> bflash X b n = bflash X b' n"
  shows "table X b = table X b'"
  using assms by (auto simp: table_def intro!: arg_cong [where f = decode_fica] peek_cong)

context spi_device begin

lemma ext_init_ok:
  assumes "FICA_app_program_ext_init X t erase s = Inr (0, s')" and "drv_wf s"
  shows "valid_img_type t" and "s_newAppImgType s' = t" and "s_newAppImgStartAddr s' = bank_addr t"
    and "s_newAppImgMaxSize s' = bank_size t" and "s_newAppCurrLen s' = 0" and "drv_wf s'"
    and "comm_get 10 (table X (board s'))"
    and "erase \<Longrightarrow> unat (bank_addr t) \<le> n \<Longrightarrow> n < unat (bank_addr t) + unat (bank_size t) \<Longrightarrow>
      bflash X (board s') n = 0xFF"
    and "outside_table n \<Longrightarrow> n < unat (bank_addr t) \<or> unat (bank_addr t) + unat (bank_size t) \<le> n \<Longrightarrow>
      bflash X (board s') n = bflash X (board s) n"
    and "(\<And>s. genuine X s) \<Longrightarrow> initialized (table X (board s')) \<and>
      (boot_ok (table X (board s)) \<longrightarrow> boot_ok (table X (board s')))"
proof -
  let ?s0 = "s\<lparr>s_newAppImgType := t\<rparr>"
  have wf: "fica_wf (s_fica ?s0)" and l: "length (s_appImgBuffer s) = 4096"
    using assms(2) by (simp_all add: drv_wf_def)
  obtain s1 where i: "FICA_initialize X ?s0 = Inr (0, s1)"
    using assms(1) by (auto simp: FICA_app_program_ext_init_def Let_def clear_app_buffer_def
        FICA_clear_buf_def elim!: rbind_InrE split: if_splits prod.splits)
  note t1 = initialize_table_op [OF i wf]
  obtain a s2 where c: "FICA_GetCurAppStartType X (Some (-1)) s1 = Inr ((0, a), s2)"
    using assms(1) i by (auto simp: FICA_app_program_ext_init_def Let_def clear_app_buffer_def
        FICA_clear_buf_def elim!: rbind_InrE split: if_splits prod.splits)
  note t2 = table_op_trans [OF t1 cur_app_table_op [OF c table_op_wf [OF t1]]]
  note fields = table_op_fields [OF t2, simplified]
  have v: "valid_img_type t"
  proof (rule ccontr)
    assume n: "\<not> valid_img_type t"
    then show False
      using assms(1) start_addr_invalid [OF n] i c fields l
      by (simp add: FICA_app_program_ext_init_def Let_def clear_app_buffer_eq)
  qed
  define s3 where "s3 = s2\<lparr>s_newAppImgStartAddr := bank_addr t, s_newAppImgMaxSize := bank_size t,
      s_newAppCurrLen := 0, s_appImgBuffer := replicate 4096 0xFF\<rparr>"
  obtain s4 where e: "(if erase then FICA_Erase_Bank X (bank_addr t) (bank_size t) s3 else Inr (0, s3)) = Inr (0, s4)"
    and f: "FICA_set_comm_flag X (push_bit 10 1) s4 = Inr (0, s')"
    using assms(1) start_addr_eq [OF v] max_size_eq [OF v] i c fields l
    by (auto simp: FICA_app_program_ext_init_def Let_def clear_app_buffer_eq s3_def
        elim!: rbind_InrE split: if_splits)
  have s4: "s4 = s3\<lparr>board := board s4\<rparr>"
    using e erase_bank_ok(1) [OF _ v] by (cases erase) auto
  have w4: "fica_wf (s_fica s4)" using fields(6) by (subst s4) (simp add: s3_def)
  note t5 = set_comm_flag_table_op [OF f w4]
  note fields5 = table_op_fields [OF t5]
  have s4f: "s_newAppImgType s4 = t" "s_newAppImgStartAddr s4 = bank_addr t" "s_newAppImgMaxSize s4 = bank_size t"
    "s_newAppCurrLen s4 = 0" "s_appImgBuffer s4 = replicate 4096 0xFF"
    by (subst s4, simp add: s3_def fields)+
  show "valid_img_type t" by (rule v)
  show "s_newAppImgType s' = t" "s_newAppImgStartAddr s' = bank_addr t" "s_newAppImgMaxSize s' = bank_size t"
    "s_newAppCurrLen s' = 0" "drv_wf s'"
    using fields5 s4f by (simp_all add: drv_wf_def)
  show "comm_get 10 (table X (board s'))"
    using set_comm_flag_ok [OF f w4] comm.get_put_same [of 10] by simp
  have b5: "outside_table n \<Longrightarrow> bflash X (board s') n = bflash X (board s4) n" for n
    using t5 by (simp add: table_op_def)
  show "erase \<Longrightarrow> unat (bank_addr t) \<le> n \<Longrightarrow> n < unat (bank_addr t) + unat (bank_size t) \<Longrightarrow>
      bflash X (board s') n = 0xFF"
    using b5 outside_table_bank [OF v, of n] e erase_bank_ok(3) [OF _ v, of s3 0 s4 n] by simp
  have b4: "n < unat (bank_addr t) \<or> unat (bank_addr t) + unat (bank_size t) \<le> n \<Longrightarrow>
      bflash X (board s4) n = bflash X (board s2) n"
    using e erase_bank_ok(2) [OF _ v, of s3 0 s4 n] by (auto simp: s3_def split: if_splits)
  have b2: "outside_table n \<Longrightarrow> bflash X (board s2) n = bflash X (board s) n"
    using t2 by (simp add: table_op_def)
  show "outside_table n \<Longrightarrow> n < unat (bank_addr t) \<or> unat (bank_addr t) + unat (bank_size t) \<le> n \<Longrightarrow>
      bflash X (board s') n = bflash X (board s) n"
    using b5 b4 b2 by simp
  assume g: "\<And>s. genuine X s"
  have "initialized (table X (board s1)) \<and> (boot_ok (table X (board s)) \<longrightarrow> boot_ok (table X (board s1)))"
    using initialize_ok [OF i wf] g by auto
  then have "initialized (table X (board s2)) \<and> (boot_ok (table X (board s)) \<longrightarrow> boot_ok (table X (board s2)))"
    using cur_app_ok [OF c table_op_wf [OF t1] g]
    by (cases "sint (currType (header (table X (board s1)))) \<in> {1, 2}") simp_all
  moreover have "table X (board s4) = table X (board s2)"
    using bank_blocks(4) [OF v] e erase_bank_ok(2) [OF _ v, of s3 0 s4]
    by (intro table_above) (auto simp: s3_def split: if_splits)
  ultimately show "initialized (table X (board s')) \<and>
      (boot_ok (table X (board s)) \<longrightarrow> boot_ok (table X (board s')))"
    using set_comm_flag_ok [OF f w4] by simp
qed

end

section \<open>The bounds check wraps\<close>

text \<open>
  \<open>offset + writelen\<close> is a 32-bit sum. An offset just below \<open>2^32\<close> with the length that
  makes the sum zero passes the check, and the write lands below the start of the bank.
\<close>

context spi_live begin

lemma ext_abs_wrap:
  assumes "drv_wf s" and "bank_ok s" and "comm_get 10 (table X (board s))"
    and "256 \<le> unat (s_newAppImgStartAddr s)" and "0 < l" and "l \<le> 256" and "l \<le> length data"
  shows "\<exists>s'. FICA_app_program_ext_abs X (- of_nat l) (Some data) (of_nat l) s = Inr (0, s') \<and>
    bflash X (board s') = burn (unat (s_newAppImgStartAddr s) - l) (take l data) (bflash X (board s))"
proof -
  define offset len :: u32 where "offset = - of_nat l" and "len = of_nat l"
  let ?a = "s_newAppImgStartAddr s" and ?t = "chunk_start X offset len s"
  define P where "P = unat ?a - 256"
  have ul: "unat len = l" using assms(6) by (simp add: len_def unat_of_nat)
  have "len \<noteq> 0" using ul assms(5) by auto
  have uo: "unat offset = 4294967296 - l"
    using ul unat_minus_u32 [OF \<open>len \<noteq> 0\<close>] by (simp add: offset_def len_def)
  have "unat offset div 256 = 16777215" using assms(5,6) by (intro div_nat_eqI) (simp_all add: uo)
  then have pg: "offset div 256 * 256 = - 256"
    using page_split(1) [of offset] by (simp add: word_unat_eq_iff)
  have pre: "unat (offset - offset div 256 * 256) = 256 - l"
    using page_split(2) [of offset] \<open>unat offset div 256 = 16777215\<close> uo assms(5,6)
    by (simp add: minus_div_mult_eq_mod [symmetric])
  have ua: "unat (?a + offset div 256 * 256) = P"
    using assms(4) by (simp add: pg P_def unat_sub_le word_le_nat_alt)
  have al: "P mod 256 = 0" and Pf: "P + 256 \<le> FLASH_SIZE"
    using assms(2,4) by (auto simp: bank_ok_def P_def mod_eq_0_iff_dvd)
  have check: "\<not> s_newAppImgMaxSize s < offset + len" by (simp add: offset_def len_def)
  note t = chunk_start_facts [of offset len s]
  have "unat (256 - (offset - offset div 256 * 256)) = l"
    using pre assms(5,6) by (subst unat_sub_le) (simp_all add: word_le_nat_alt)
  then have tl: "turn_len len 0 (offset - offset div 256 * 256) = len"
    using pre ul assms(5,6) by (auto simp: turn_len_def word_unat_eq_iff word_le_nat_alt
        small_sum [of "offset - offset div 256 * 256" len])
  have pl: "unat (offset - offset div 256 * 256) + unat len \<le> 256" using pre ul assms(6) by simp
  have prefix: "take (unat (offset - offset div 256 * 256)) (s_appImgBuffer ?t) =
      peek (bflash X (board ?t)) P (unat (offset - offset div 256 * 256))"
    using t ua by (simp add: page_split)
  have addr: "unat (s_newAppImgStartAddr ?t + offset div 256 * 256) = P" using t ua by simp
  have Pl: "P < FLASH_SIZE" using Pf by simp
  have dl: "unat len \<le> length data" using ul assms(7) by simp
  obtain s1 where st: "ext_abs_step X (offset div 256 * 256) (offset - offset div 256 * 256) len data ?t = Inr (0, s1)"
    using ext_abs_step_returns [of ?t "offset div 256 * 256", unfolded addr, OF t(1) al Pl pl prefix dl] by blast
  note step = ext_abs_step_ok [OF st t(1), unfolded addr, OF al Pl pl prefix]
  have pos: "0 < len" using \<open>len \<noteq> 0\<close> by (simp add: word_gt_0)
  have "ext_abs_loop X len (offset div 256 * 256) 0 0 (offset - offset div 256 * 256) data ?t = Some (Inr (0, s1))"
    using st by (simp add: ext_abs_loop_turn [OF pos] tl ext_abs_loop_done)
  then have "FICA_app_program_ext_abs X offset (Some data) len s = Inr (0, s1)"
    using ext_abs_eq [OF assms(1), of offset len data] check \<open>len \<noteq> 0\<close> assms(3) ua Pf by simp
  moreover have "P + unat (offset - offset div 256 * 256) = unat ?a - l"
    using pre assms(4,6) by (simp add: P_def)
  ultimately show ?thesis
    using step(4) ul t(2) by (auto simp: offset_def len_def)
qed

end

end
