(* ===== verification/Fica_Update.thy ===== *)
theory Fica_Update
  imports Fica_Program
begin

text \<open>
  The FICA driver as a whole: its operations as one step function whose runs keep the driver's
  structures well formed, a complete image update on a chip that answers, and the properties of the
  flash library and of the driver.
\<close>

section \<open>The update steps return\<close>

context spi_live begin

lemma erase_bank_returns:
  assumes "valid_img_type t"
  shows "\<exists>s'. FICA_Erase_Bank X (bank_addr t) (bank_size t) s = Inr (0, s')"
  using bank_blocks [OF assms] mod_mod_cancel [of "0x1000" "0x10000" "unat (bank_addr t)"]
  by (intro erase_from_returns [OF _ order_refl]) simp_all

lemma ext_init_returns:
  assumes "drv_wf s" and "valid_img_type t"
  shows "\<exists>s'. FICA_app_program_ext_init X t erase s = Inr (0, s')"
proof -
  let ?s0 = "s\<lparr>s_newAppImgType := t\<rparr>"
  have wf: "fica_wf (s_fica ?s0)" and l: "length (s_appImgBuffer s) = 4096"
    using assms(1) by (simp_all add: drv_wf_def)
  obtain s1 where i: "FICA_initialize X ?s0 = Inr (0, s1)" using initialize_returns [OF wf] by blast
  note t1 = initialize_table_op [OF i wf]
  obtain a s2 where c: "FICA_GetCurAppStartType X (Some (-1)) s1 = Inr ((0, Some a), s2)"
    using cur_app_returns [OF table_op_wf [OF t1]] by blast
  note t2 = table_op_trans [OF t1 cur_app_table_op [OF c table_op_wf [OF t1]]]
  note fields = table_op_fields [OF t2, simplified]
  define s3 where "s3 = s2\<lparr>s_newAppImgStartAddr := bank_addr t, s_newAppImgMaxSize := bank_size t,
      s_newAppCurrLen := 0, s_appImgBuffer := replicate 4096 0xFF\<rparr>"
  obtain s4 where e: "(if erase then FICA_Erase_Bank X (bank_addr t) (bank_size t) s3 else Inr (0, s3)) = Inr (0, s4)"
    using erase_bank_returns [OF assms(2)] by (cases erase) auto
  have "s4 = s3\<lparr>board := board s4\<rparr>"
    using e erase_bank_ok(1) [OF _ assms(2)] by (cases erase) auto
  then have "s_fica s4 = s_fica s3" by (metis fica_st.select_convs(2) fica_st.surjective fica_st.update_convs(1))
  then have "fica_wf (s_fica s4)" using fields(6) by (simp add: s3_def)
  then obtain s' where "FICA_set_comm_flag X 0x400 s4 = Inr (0, s')"
    using set_comm_flag_returns by blast
  then show ?thesis
    using i c e fields l start_addr_eq [OF assms(2)] max_size_eq [OF assms(2)]
    by (cases erase) (simp_all add: FICA_app_program_ext_init_def clear_app_buffer_eq s3_def)
qed

lemma finalize_returns:
  assumes "fica_wf (s_fica s)" and "valid_img_type (s_newAppImgType s)"
  shows "\<exists>s'. FICA_app_program_ext_finalize X s = Inr (0, s')"
proof -
  obtain s1 where a1: "FICA_write_image_info X (s_newAppImgType s) FICA_IMG_FMT_BIN (s_newAppCurrLen s) s = Inr (0, s1)"
    using write_image_info_returns [OF assms] by blast
  note w1 = table_op_wf [OF write_image_info_table_op [OF a1 assms(1)]]
  obtain s2 where a2: "FICA_set_comm_flag X FICA_COMM_AIS_NAV_BIT s1 = Inr (0, s2)"
    using set_comm_flag_returns [OF w1] by blast
  note w2 = table_op_wf [OF set_comm_flag_table_op [OF a2 w1]]
  let ?u = "upd_header (\<lambda>h. h\<lparr>newType := word_of_int (s_newAppImgType s2)\<rparr>) s2"
  obtain s3 where a3: "FICA_write_db X ?u = Inr (0, s3)"
    using write_db_returns [of ?u] w2 by auto
  have w3: "fica_wf (s_fica s3)"
    using write_db_table_op [OF a3] w2 by (simp add: table_op_wf)
  obtain s4 where a4: "FICA_set_comm_flag X FICA_COMM_AIS_NAP_BIT s3 = Inr (0, s4)"
    using set_comm_flag_returns [OF w3] by blast
  note w4 = table_op_wf [OF set_comm_flag_table_op [OF a4 w3]]
  obtain s5 where "FICA_clr_comm_flag X FICA_COMM_AIS_NAI_BIT s4 = Inr (0, s5)"
    using clr_comm_flag_returns [OF w4] by blast
  with a1 a2 a3 a4 show ?thesis by (simp add: FICA_app_program_ext_finalize_def)
qed

lemma reset_vector_returns:
  assumes "fica_wf (s_fica s)" and "genuine X s" and "initialized (table X (board s))"
    and "comm_get 9 (table X (board s))" and "valid_img_type (sint (newType (header (table X (board s)))))"
  shows "\<exists>s'. FICA_app_program_ext_set_reset_vector X s = Inr (0, s')"
proof -
  obtain s0 where i: "FICA_initialize X s = Inr (0, s0)" and f: "bflash X (board s0) = bflash X (board s)"
    using initialize_valid [OF assms(1-3)] by blast
  have t0: "table X (board s0) = table X (board s)" by (rule table_cong [OF f])
  note wf0 = table_op_wf [OF initialize_table_op [OF i assms(1)]]
  have flag: "FICA_get_comm_flag X 0x200 False s0 = Inr ((0, True), s0\<lparr>s_fica := table X (board s)\<rparr>)"
    using get_comm_flag_eq [OF wf0, of 9 False] assms(4) t0 by simp
  let ?t = "sint (newType (header (table X (board s))))"
  let ?s1 = "s0\<lparr>s_fica := table X (board s), s_newAppImgType := ?t\<rparr>"
  have w1: "fica_wf (s_fica ?s1)" by (simp add: table_wf)
  obtain s2 where a2: "FICA_SetCurAppStartType X ?t ?s1 = Inr (0, s2)" using set_app_returns [OF w1] by blast
  note w2 = table_op_wf [OF set_app_table_op [OF a2 w1]]
  obtain s3 where a3: "FICA_clr_comm_flag X 0x100 s2 = Inr (0, s3)" using clr_comm_flag_returns [OF w2] by blast
  note w3 = table_op_wf [OF clr_comm_flag_table_op [OF a3 w2]]
  obtain s4 where a4: "FICA_clr_comm_flag X 0x200 s3 = Inr (0, s4)" using clr_comm_flag_returns [OF w3] by blast
  note w4 = table_op_wf [OF clr_comm_flag_table_op [OF a4 w3]]
  obtain s5 where "FICA_set_comm_flag X 0x10 s4 = Inr (0, s5)" using set_comm_flag_returns [OF w4] by blast
  with i flag a2 a3 a4 assms(5) show ?thesis
    by (simp add: FICA_app_program_ext_set_reset_vector_def)
qed

end

section \<open>The driver as one machine\<close>

datatype fica_op = Op_initialize | Op_set_flag u32 | Op_clr_flag u32 | Op_get_flag u32
  | Op_image_info int u32 u32 | Op_image_record int u32 u32 "u8 list option"
  | Op_cur_app | Op_set_app int | Op_set_boot int | Op_boot_addr | Op_new_type
  | Op_set_ota | Op_clr_ota | Op_set_usb | Op_clr_usb
  | Op_ext_init int bool | Op_ext_abs u32 "u8 list option" u32 | Op_finalize | Op_set_reset

definition drop_result :: "(('r \<times> 's) outcome) \<Rightarrow> (unit \<times> 's) outcome" where
  "drop_result m = rbind m (\<lambda>(_, s). Inr ((), s))"

fun fica_step :: "'d flexspi_if \<Rightarrow> fica_op \<Rightarrow> 'd fica_st \<Rightarrow> (unit \<times> 'd fica_st) outcome" where
  "fica_step X Op_initialize s = drop_result (FICA_initialize X s)"
| "fica_step X (Op_set_flag m) s = drop_result (FICA_set_comm_flag X m s)"
| "fica_step X (Op_clr_flag m) s = drop_result (FICA_clr_comm_flag X m s)"
| "fica_step X (Op_get_flag m) s = drop_result (FICA_get_comm_flag X m False s)"
| "fica_step X (Op_image_info t f l) s = drop_result (FICA_write_image_info X t f l s)"
| "fica_step X (Op_image_record t a l g) s = drop_result (FICA_write_image_record X t a l g s)"
| "fica_step X Op_cur_app s = drop_result (FICA_GetCurAppStartType X (Some FICA_IMG_TYPE_NONE) s)"
| "fica_step X (Op_set_app t) s = drop_result (FICA_SetCurAppStartType X t s)"
| "fica_step X (Op_set_boot t) s = drop_result (FICA_SetCurBootType X t s)"
| "fica_step X Op_boot_addr s = drop_result (FICA_GetCurBootStartAddr X 0 s)"
| "fica_step X Op_new_type s = drop_result (FICA_get_new_app_img_type X 0 s)"
| "fica_step X Op_set_ota s = drop_result (FICA_Set_OTA_FlashBit X s)"
| "fica_step X Op_clr_ota s = drop_result (FICA_Clear_OTA_FlashBit X s)"
| "fica_step X Op_set_usb s = drop_result (FICA_set_usb_mode X s)"
| "fica_step X Op_clr_usb s = drop_result (FICA_clr_usb_mode X s)"
| "fica_step X (Op_ext_init t e) s = drop_result (FICA_app_program_ext_init X t e s)"
| "fica_step X (Op_ext_abs off d l) s = drop_result (FICA_app_program_ext_abs X off d l s)"
| "fica_step X Op_finalize s = drop_result (FICA_app_program_ext_finalize X s)"
| "fica_step X Op_set_reset s = drop_result (FICA_app_program_ext_set_reset_vector X s)"

lemma always_drop: "always P m \<Longrightarrow> always P (drop_result m)"
  by (auto simp: always_def drop_result_def rbind_Inr_iff)

text \<open>Buffers keep their size.\<close>

lemma read_into_wf: "drv_wf s \<Longrightarrow> always drv_wf (read_into X a k n s)"
  by (auto simp: always_def read_into_def drv_wf_def elim!: rbind_InrE dest: read_flash_returns(2))

lemma on_board_wf: "drv_wf s \<Longrightarrow> always drv_wf (on_board f s)"
  by (auto simp: always_def on_board_def drv_wf_def elim!: rbind_InrE)

lemma copy_into_wf: "copy_into k src n s = Inr t \<Longrightarrow> drv_wf s \<Longrightarrow> drv_wf t"
  by (auto simp: copy_into_def drv_wf_def length_blit split: if_splits)

lemma clear_app_buffer_wf: "clear_app_buffer s = Inr t \<Longrightarrow> drv_wf s \<Longrightarrow> drv_wf t"
  using clear_app_buffer_eq [of s] by (auto simp: drv_wf_def)

lemma step_wf: "drv_wf s \<Longrightarrow> always drv_wf (ext_abs_step X wa pre n data s)"
proof -
  assume wf: "drv_wf s"
  have copy: "always drv_wf (rbind (copy_into pre data n t) f)"
    if "drv_wf t" and "\<And>u. drv_wf u \<Longrightarrow> always drv_wf (f u)" for t f
    using that copy_into_wf [of pre data n t] by (auto simp: always_def rbind_Inr_iff)
  show ?thesis
    unfolding ext_abs_step_def Let_def
    by (intro always_intros copy read_into_wf on_board_wf wf)
qed

lemma loop_wf:
  assumes "ext_abs_loop X len pg c k pre data s = Some r"
  shows "drv_wf s \<longrightarrow> (\<forall>st s'. r = Inr (st, s') \<longrightarrow> drv_wf s')"
proof (rule ext_abs_loop.raw_induct [OF _ assms])
  fix loop X len pg c k pre data s r
  assume IH: "\<And>X len pg c k pre data s r. loop X len pg c k pre data s = Some r \<Longrightarrow>
      drv_wf s \<longrightarrow> (\<forall>st s'. r = Inr (st, s') \<longrightarrow> drv_wf s')"
    and eq: "(if c < len then
       (let curwritelen = (if EXT_FLASH_PROGRAM_PAGE \<le> pre + (len - c) then EXT_FLASH_PROGRAM_PAGE - pre else len - c);
            curwriteaddr = pg + k * EXT_FLASH_PROGRAM_PAGE
        in case ext_abs_step X curwriteaddr pre curwritelen data s of
             Inl e \<Rightarrow> Some (Inl e)
           | Inr (status, s) \<Rightarrow> if status \<noteq> SLN_FLASH_NO_ERROR then Some (Inr (status, s))
               else loop X len pg (c + curwritelen) (k + 1) 0 (drop (unat curwritelen) data) s)
     else Some (Inr (SLN_FLASH_NO_ERROR, s))) = Some r"
  show "drv_wf s \<longrightarrow> (\<forall>st s'. r = Inr (st, s') \<longrightarrow> drv_wf s')"
    using eq by (auto simp: Let_def split: sum.splits prod.splits if_splits
        dest!: IH dest: alwaysD [OF step_wf])
qed

context spi_device begin

text \<open>Operations on the table keep the driver well formed.\<close>

lemma table_op_drv: "drv_wf s \<Longrightarrow> table_op X s s' \<Longrightarrow> drv_wf s'"
  using table_op_fields [of X s s'] by (simp add: drv_wf_def)

lemma drv_always [always_intros]:
  assumes "drv_wf s"
  shows "always drv_wf (FICA_initialize X s)" "always drv_wf (FICA_set_comm_flag X m s)"
    "always drv_wf (FICA_clr_comm_flag X m s)" "always drv_wf (FICA_get_comm_flag X m v s)"
    "always drv_wf (FICA_write_image_info X t f l s)" "always drv_wf (FICA_write_image_record X t a l g s)"
    "always drv_wf (FICA_GetCurAppStartType X p s)" "always drv_wf (FICA_SetCurAppStartType X t s)"
    "always drv_wf (FICA_SetCurBootType X t s)" "always drv_wf (FICA_GetCurBootStartAddr X v32 s)"
    "always drv_wf (FICA_get_new_app_img_type X t s)" "always drv_wf (FICA_Set_OTA_FlashBit X s)"
    "always drv_wf (FICA_Clear_OTA_FlashBit X s)" "always drv_wf (FICA_set_usb_mode X s)"
    "always drv_wf (FICA_clr_usb_mode X s)" "always drv_wf (FICA_write_db X (upd_header g' s))"
  using assms table_op_header [of s X g']
  by (auto simp: always_def drv_wf_def intro!: table_op_drv [OF assms, unfolded drv_wf_def, THEN conjunct1]
      table_op_drv [OF assms, unfolded drv_wf_def, THEN conjunct2]
      dest: initialize_table_op set_comm_flag_table_op clr_comm_flag_table_op get_comm_flag_table_op
        write_image_info_table_op write_image_record_table_op cur_app_table_op set_app_table_op
        set_boot_table_op boot_addr_table_op new_type_table_op Set_OTA_table_op Clear_OTA_table_op
        set_usb_table_op clr_usb_table_op write_db_after)

lemma erase_bank_wf [always_intros]: "drv_wf s \<Longrightarrow> always drv_wf (FICA_Erase_Bank X a n s)"
  by (simp add: FICA_Erase_Bank_def on_board_wf)

lemma field_wf:
  "drv_wf (s\<lparr>s_newAppImgType := t\<rparr>) = drv_wf s" "drv_wf (s\<lparr>s_newAppImgStartAddr := a\<rparr>) = drv_wf s"
  "drv_wf (s\<lparr>s_newAppImgMaxSize := a\<rparr>) = drv_wf s" "drv_wf (s\<lparr>s_newAppCurrLen := a\<rparr>) = drv_wf s"
  "drv_wf (raise_len n s) = drv_wf s"
  by (simp_all add: drv_wf_def raise_len_eq)

lemma always_clear:
  "drv_wf s \<Longrightarrow> (\<And>t. drv_wf t \<Longrightarrow> always drv_wf (f t)) \<Longrightarrow> always drv_wf (rbind (clear_app_buffer s) f)"
  by (auto simp: always_def rbind_Inr_iff dest: clear_app_buffer_wf)

lemma ext_init_wf [always_intros]: "drv_wf s \<Longrightarrow> always drv_wf (FICA_app_program_ext_init X t e s)"
  unfolding FICA_app_program_ext_init_def Let_def
  by (intro always_intros always_clear; (assumption | auto simp: field_wf split: prod.splits if_splits))

lemma loop_always: "drv_wf s \<Longrightarrow> always drv_wf (returns (ext_abs_loop X len pg c k pre data s))"
  by (cases "ext_abs_loop X len pg c k pre data s") (auto simp: always_def dest!: loop_wf)

lemma ext_abs_wf [always_intros]: "drv_wf s \<Longrightarrow> always drv_wf (FICA_app_program_ext_abs X off d len s)"
  unfolding FICA_app_program_ext_abs_def Let_def
  by (intro always_intros always_clear read_into_wf loop_always; (assumption | simp add: field_wf))

lemma finalize_wf [always_intros]: "drv_wf s \<Longrightarrow> always drv_wf (FICA_app_program_ext_finalize X s)"
  unfolding FICA_app_program_ext_finalize_def
  by (intro always_intros; assumption)

lemma set_reset_wf [always_intros]: "drv_wf s \<Longrightarrow> always drv_wf (FICA_app_program_ext_set_reset_vector X s)"
  unfolding FICA_app_program_ext_set_reset_vector_def Let_def
  by (intro always_intros; (assumption | simp add: field_wf))

lemma fica_step_wf: "drv_wf s \<Longrightarrow> always drv_wf (fica_step X p s)"
  by (cases p) (simp_all add: always_drop always_intros)

end

text \<open>Every operation of the driver keeps its structures well formed, on every chip.\<close>

sublocale spi_device \<subseteq> fica: kept_invariant "fica_step X" drv_wf
  by unfold_locales (blast dest: fica_step_wf alwaysD)

context spi_device begin

lemma driver_run: "drv_wf s \<Longrightarrow> run_ops (fica_step X) ps s = Inr (rs, s') \<Longrightarrow> drv_wf s'"
  by (rule fica.run_inv)

end

interpretation fica_sim: kept_invariant "fica_step (nor_sim v)" drv_wf for v
  by (rule sim.fica.kept_invariant_axioms)

section \<open>The table operations and the rest of the flash\<close>

definition tframe :: "'d flexspi_if \<Rightarrow> 'd board \<Rightarrow> 'd fica_st \<Rightarrow> bool" where
  "tframe X b u \<longleftrightarrow> fica_wf (s_fica u) \<and> (\<forall>n. outside_table n \<longrightarrow> bflash X (board u) n = bflash X b n)"

lemma tframe_start: "fica_wf (s_fica s) \<Longrightarrow> tframe X (board s) s"
  by (simp add: tframe_def)

lemma tframe_op: "tframe X b u \<Longrightarrow> table_op X u u' \<Longrightarrow> tframe X b u'"
  by (simp add: tframe_def table_op_def)

lemma tframe_field: "tframe X b (s\<lparr>s_newAppImgType := t\<rparr>) = tframe X b s"
  by (simp add: tframe_def)

context spi_device begin

lemma tframe_always:
  assumes "tframe X b s"
  shows "always (tframe X b) (FICA_initialize X s)" "always (tframe X b) (FICA_set_comm_flag X m s)"
    "always (tframe X b) (FICA_clr_comm_flag X m s)" "always (tframe X b) (FICA_get_comm_flag X m v s)"
    "always (tframe X b) (FICA_write_image_info X t f l s)"
    "always (tframe X b) (FICA_write_image_record X t a l g s)"
    "always (tframe X b) (FICA_GetCurAppStartType X p s)"
    "always (tframe X b) (FICA_SetCurAppStartType X t s)" "always (tframe X b) (FICA_SetCurBootType X t s)"
    "always (tframe X b) (FICA_GetCurBootStartAddr X v32 s)"
    "always (tframe X b) (FICA_get_new_app_img_type X t s)" "always (tframe X b) (FICA_Set_OTA_FlashBit X s)"
    "always (tframe X b) (FICA_Clear_OTA_FlashBit X s)" "always (tframe X b) (FICA_set_usb_mode X s)"
    "always (tframe X b) (FICA_clr_usb_mode X s)" "always (tframe X b) (FICA_write_db X (upd_header g' s))"
  using assms table_op_header [of s X g']
  by (auto simp: always_def tframe_def intro!: tframe_op [OF assms, unfolded tframe_def, THEN conjunct1]
      tframe_op [OF assms, unfolded tframe_def, THEN conjunct2, rule_format]
      dest: initialize_table_op set_comm_flag_table_op clr_comm_flag_table_op get_comm_flag_table_op
        write_image_info_table_op write_image_record_table_op cur_app_table_op set_app_table_op
        set_boot_table_op boot_addr_table_op new_type_table_op Set_OTA_table_op Clear_OTA_table_op
        set_usb_table_op clr_usb_table_op write_db_after)

lemma finalize_tframe: "tframe X b s \<Longrightarrow> always (tframe X b) (FICA_app_program_ext_finalize X s)"
  unfolding FICA_app_program_ext_finalize_def
  by (intro always_intros tframe_always; assumption)

lemma set_reset_tframe: "tframe X b s \<Longrightarrow> always (tframe X b) (FICA_app_program_ext_set_reset_vector X s)"
  unfolding FICA_app_program_ext_set_reset_vector_def Let_def
  by (intro always_intros tframe_always; (assumption | simp add: tframe_field))

end

section \<open>A complete update\<close>

lemma comm_put_header [simp]:
  "currType (header (comm_put n v t)) = currType (header t)"
  "newType (header (comm_put n v t)) = newType (header t)"
  "records (comm_put n v t) = records t"
  by (simp_all add: comm_put_def)

lemma with_type_simps [simp]:
  "newType (header (with_newType t f)) = word_of_int t"
  "currType (header (with_newType t f)) = currType (header f)"
  "records (with_newType t f) = records f"
  "currType (header (with_currType t f)) = word_of_int t"
  "records (with_currType t f) = records f"
  "comm_get n (with_newType t f) = comm_get n f"
  "comm_get n (with_currType t f) = comm_get n f"
  "initialized (with_newType t f) = initialized f"
  "initialized (with_currType t f) = initialized f"
  "boot_ok (with_newType t f) = boot_ok f"
  "boot_ok (with_currType t f) = boot_ok f"
  by (simp_all add: with_newType_def with_currType_def comm_get_def)

lemma comm_get_put_same [simp]: "n < 32 \<Longrightarrow> comm_get n (comm_put n v t) = v"
  by (rule comm.get_put_same)

lemma comm_get_put_apart [simp]: "m \<noteq> n \<Longrightarrow> comm_get n (comm_put m v t) = comm_get n t"
  by (rule comm.get_put_apart)

lemma sint_img_type: "valid_img_type t \<Longrightarrow> sint (word_of_int t :: u32) = t"
  by (auto simp: valid_cases)

context spi_genuine begin

lemma install_ok:
  assumes "fica_wf (s_fica s2)" and "s_fica s2 = table X (board s2)" and "initialized (table X (board s2))"
    and "s_newAppImgType s2 = t" and "t = 1 \<or> t = 2"
  shows "\<exists>s3 s4. FICA_app_program_ext_finalize X s2 = Inr (0, s3) \<and>
    FICA_app_program_ext_set_reset_vector X s3 = Inr (0, s4) \<and>
    (\<forall>n. outside_table n \<longrightarrow> bflash X (board s4) n = bflash X (board s2) n) \<and>
    fica_wf (s_fica s4) \<and> initialized (table X (board s4)) \<and>
    (boot_ok (table X (board s2)) \<longrightarrow> boot_ok (table X (board s4))) \<and>
    sint (currType (header (table X (board s4)))) = t \<and>
    imgLen (records (table X (board s4)) ! nat t) = s_newAppCurrLen s2 \<and>
    comm_get 4 (table X (board s4)) \<and> \<not> comm_get 8 (table X (board s4)) \<and>
    \<not> comm_get 9 (table X (board s4)) \<and> \<not> comm_get 10 (table X (board s4))"
proof -
  have v: "valid_img_type t" using assms(5) by (auto simp: valid_cases)
  obtain s3 where f: "FICA_app_program_ext_finalize X s2 = Inr (0, s3)"
    using finalize_returns [OF assms(1)] v assms(4) by auto
  note fin = finalize_ok [OF f assms(1), unfolded assms(4)]
  have w3: "fica_wf (s_fica s3)" using fin table_wf by metis
  have t3: "table X (board s3) = comm_put 10 False (comm_put 9 True (with_newType t
      (comm_put 8 True (info_record t FICA_IMG_FMT_BIN (s_newAppCurrLen s2) (table X (board s2))))))"
    using fin assms(2) by simp
  have in3: "initialized (table X (board s3))" and nap: "comm_get 9 (table X (board s3))"
    and ty: "sint (newType (header (table X (board s3)))) = t"
    using t3 assms(3) by (simp_all add: sint_img_type [OF v])
  obtain s4 where r: "FICA_app_program_ext_set_reset_vector X s3 = Inr (0, s4)"
    using reset_vector_returns [OF w3 always_genuine in3 nap] ty v by auto
  note rv = reset_vector_ok [OF r w3]
  have t4: "table X (board s4) = comm_put 4 True (comm_put 9 False (comm_put 8 False (with_currType t (table X (board s3)))))"
    using rv ty by auto
  have k3: "tframe X (board s2) s3"
    by (rule alwaysD [OF finalize_tframe [OF tframe_start [OF assms(1)]] f])
  have k4: "tframe X (board s2) s4" by (rule alwaysD [OF set_reset_tframe [OF k3] r])
  have "length (records (table X (board s2))) = 3" using table_wf [of X "board s2"] by (simp add: fica_wf_def)
  then have "imgLen (records (table X (board s4)) ! nat t) = s_newAppCurrLen s2"
    using t4 t3 assms(5) by (auto simp: info_record_def)
  moreover have "sint (currType (header (table X (board s4)))) = t"
    using t4 by (simp add: sint_img_type [OF v])
  moreover have "comm_get 4 (table X (board s4)) \<and> \<not> comm_get 8 (table X (board s4)) \<and>
      \<not> comm_get 9 (table X (board s4)) \<and> \<not> comm_get 10 (table X (board s4))"
    using t4 t3 by simp
  moreover have "initialized (table X (board s4))"
    and "boot_ok (table X (board s2)) \<longrightarrow> boot_ok (table X (board s4))"
    using t4 in3 t3 by simp_all
  ultimately show ?thesis using f r k4 unfolding tframe_def by blast
qed

lemma update_run:
  assumes "drv_wf s" and "t = 1 \<or> t = 2" and "0 < length data" and "length data \<le> unat (bank_size t)"
  shows "\<exists>s1 s2 s3 s4.
    FICA_app_program_ext_init X t True s = Inr (0, s1) \<and>
    FICA_app_program_ext_abs X 0 (Some data) (of_nat (length data)) s1 = Inr (0, s2) \<and>
    FICA_app_program_ext_finalize X s2 = Inr (0, s3) \<and>
    FICA_app_program_ext_set_reset_vector X s3 = Inr (0, s4) \<and>
    peek (bflash X (board s4)) (unat (bank_addr t)) (length data) = data \<and>
    sint (currType (header (table X (board s4)))) = t \<and>
    imgLen (records (table X (board s4)) ! nat t) = of_nat (length data) \<and>
    comm_get 4 (table X (board s4)) \<and> \<not> comm_get 8 (table X (board s4)) \<and>
    \<not> comm_get 9 (table X (board s4)) \<and> \<not> comm_get 10 (table X (board s4))"
proof -
  have v: "valid_img_type t" using assms(2) by (auto simp: valid_cases)
  define len :: u32 where "len = of_nat (length data)"
  have ul: "unat len = length data"
    using assms(4) unat_u32_less [of "bank_size t"] by (simp add: len_def unat_of_nat)
  obtain s1 where i: "FICA_app_program_ext_init X t True s = Inr (0, s1)"
    using ext_init_returns [OF assms(1) v] by blast
  note init = ext_init_ok [OF i assms(1)]
  have b1: "bank_ok s1" using bank_blocks_ok [OF v init(3,4)] .
  have fits: "unat (0 :: u32) + unat len \<le> unat (s_newAppImgMaxSize s1)" using assms(4) ul init(4) by simp
  obtain s2 where a: "FICA_app_program_ext_abs X 0 (Some data) len s1 = Inr (0, s2)"
    using ext_abs_returns [OF init(6) b1 fits init(7)] ul assms(3) by auto
  have nowrap: "unat (0 :: u32) + unat len < 4294967296" using unat_u32_less [of len] by simp
  note abs = ext_abs_ok [OF a init(6) b1 nowrap]
  have t2: "table X (board s2) = table X (board s1)"
    using abs(1) bank_blocks(4) [OF v] init(3,4) by (intro table_above) simp
  have s2: "s_fica s2 = table X (board s2)" "s_newAppImgType s2 = t" "s_newAppCurrLen s2 = len"
    using abs(2) t2 init(2,5) by simp_all
  have w2: "fica_wf (s_fica s2)" by (simp add: s2 table_wf)
  have data2: "bflash X (board s2) = burn (unat (bank_addr t)) data (bflash X (board s1))"
    using abs(2) init(3) ul by simp
  have in2: "initialized (table X (board s2))" using t2 init(10) always_genuine by simp
  obtain s3 s4 where f: "FICA_app_program_ext_finalize X s2 = Inr (0, s3)"
    and r: "FICA_app_program_ext_set_reset_vector X s3 = Inr (0, s4)"
    and keep: "\<forall>n. outside_table n \<longrightarrow> bflash X (board s4) n = bflash X (board s2) n"
    and res: "sint (currType (header (table X (board s4)))) = t"
      "imgLen (records (table X (board s4)) ! nat t) = len"
      "comm_get 4 (table X (board s4)) \<and> \<not> comm_get 8 (table X (board s4)) \<and>
       \<not> comm_get 9 (table X (board s4)) \<and> \<not> comm_get 10 (table X (board s4))"
    using install_ok [OF w2 s2(1) in2 s2(2) assms(2)] unfolding s2(3) by blast
  have "peek (bflash X (board s4)) (unat (bank_addr t)) (length data) =
      peek (bflash X (board s2)) (unat (bank_addr t)) (length data)"
    using keep outside_table_bank [OF v] assms(4) by (intro peek_cong) simp
  also have "\<dots> = data"
    using init(8) assms(4) by (simp add: data2 peek_burn_erased)
  finally show ?thesis using i a f r res unfolding len_def by blast
qed

end

end
