(* ===== verification/Flash_Props.thy ===== *)
theory Flash_Props
  imports Fica_Update
begin

text \<open>
  The properties of the flash library and of the FICA driver, each with a witness on the simulated
  chip. The first is the purpose of the two components: an update written through the driver is
  in its bank and is what the boot loader starts next.
\<close>

section \<open>States for the witnesses\<close>

definition sim_board :: "nor_chip board" where
  "sim_board = \<lparr>bd_dev = \<lparr>cells = (\<lambda>_. 0xFF), latch = False, busy = 0\<rparr>, bd_primask = 0, bd_dcache = True\<rparr>"

definition sim_drv :: "nor_chip fica_st" where
  "sim_drv = \<lparr>board = sim_board, s_fica = fica_zero, s_appImgBuffer = replicate 4096 0,
     s_newAppImgType = -1, s_newAppImgStartAddr = 0, s_newAppImgMaxSize = 0, s_newAppCurrLen = 0,
     ErrorCnt = 0\<rparr>"

lemma sim_drv_wf: "drv_wf sim_drv"
  by (simp add: drv_wf_def sim_drv_def fica_zero_wf)

lemma sim_genuine: "spi_genuine (nor_sim FLASH_VENDOR_ID) latch busy"
  by (rule sim_ef.spi_genuine_axioms)

lemma sim_live: "spi_live (nor_sim v) latch busy"
  by (rule sim.spi_live_axioms)

lemma sim_device: "spi_device (nor_sim v) latch"
  by (rule sim.spi_device_axioms)

text \<open>A driver with bank B opened on the simulated chip.\<close>

lemma sim_opened:
  obtains s where "FICA_app_program_ext_init (nor_sim FLASH_VENDOR_ID) 2 True sim_drv = Inr (0, s)"
    and "drv_wf s" and "bank_ok s" and "comm_get 10 (table (nor_sim FLASH_VENDOR_ID) (board s))"
    and "s_newAppImgStartAddr s = 0x780000" and "s_newAppImgMaxSize s = 0x680000"
proof -
  have v: "valid_img_type 2" by (simp add: valid_cases)
  obtain s where i: "FICA_app_program_ext_init (nor_sim FLASH_VENDOR_ID) 2 True sim_drv = Inr (0, s)"
    using spi_live.ext_init_returns [OF sim_live sim_drv_wf v] by blast
  note f = spi_device.ext_init_ok [OF sim_device i sim_drv_wf]
  show ?thesis
    by (rule that [OF i f(6) bank_blocks_ok [OF v f(3,4)] f(7)])
      (use f(3,4) in \<open>simp_all add: bank_addr_def bank_size_def\<close>)
qed

text \<open>The blank simulated chip gets the default table.\<close>

lemma take_peek: "k \<le> n \<Longrightarrow> take k (peek m a n) = peek m a k"
  by (simp add: peek_def take_map)

lemma blank_word:
  "word_at 0 (peek (bflash (nor_sim v) (board sim_drv)) 0xFFF000 948) = de32 [0xFF, 0xFF, 0xFF, 0xFF]"
proof -
  have ff: "bflash (nor_sim v) (board sim_drv) n = 0xFF" if "n < 0x1000000" for n
    using that by (simp add: bflash_def sim_flash sim_drv_def sim_board_def)
  have "take 4 (peek (bflash (nor_sim v) (board sim_drv)) 0xFFF000 948) =
      peek (bflash (nor_sim v) (board sim_drv)) 0xFFF000 4" by (rule take_peek) simp
  also have "\<dots> = replicate 4 0xFF"
    by (rule nth_equalityI) (simp_all add: ff)
  also have "\<dots> = [0xFF, 0xFF, 0xFF, 0xFF]"
    by (simp add: numeral_eq_Suc)
  finally have "de32 (take 4 (peek (bflash (nor_sim v) (board sim_drv)) 0xFFF000 948)) = de32 [0xFF, 0xFF, 0xFF, 0xFF]"
    by (rule arg_cong)
  then show ?thesis unfolding word_at_def drop_0 de32_take .
qed

lemma sim_initialized:
  obtains s where "FICA_initialize (nor_sim FLASH_VENDOR_ID) sim_drv = Inr (0, s)" and "drv_wf s"
    and "table (nor_sim FLASH_VENDOR_ID) (board s) = fica_default"
    and "s_fica s = table (nor_sim FLASH_VENDOR_ID) (board s)"
proof -
  let ?X = "nor_sim FLASH_VENDOR_ID"
  have wf: "fica_wf (s_fica sim_drv)" using sim_drv_wf by (simp add: drv_wf_def)
  have desc: "descriptor (header (table ?X b)) = word_at 0 (peek (bflash ?X b) 0xFFF000 948)" for b
    by (simp only: table_def decode_fica_def decode_header_def fica_t.simps fica_header_t.simps fica_size_def)
  have "de32 [0xFF, 0xFF, 0xFF, 0xFF] \<noteq> FICA_ICA_DESC" by simp
  then have blank: "\<not> initialized (table ?X (board sim_drv))"
    unfolding initialized_def desc blank_word by blast
  obtain s where i: "FICA_initialize ?X sim_drv = Inr (0, s)"
    using spi_live.initialize_returns [OF sim_live wf] by blast
  have "table ?X (board s) = fica_default" and "s_fica s = table ?X (board s)"
    using spi_device.initialize_ok [OF sim_device i wf] blank by (simp_all del: FLASH_VENDOR_ID_def)
  moreover have "drv_wf s"
    by (rule alwaysD [OF spi_device.drv_always(1) [OF sim_device sim_drv_wf] i])
  ultimately show ?thesis using that i by blast
qed

section \<open>Properties\<close>

text \<open>C1: An update on a chip that answers installs the image: opening the bank of application A or
  B, writing the image, finalising and setting the reset vector all succeed; then the bank holds
  the image, the table names it as the current application with its length, the OTA flag is set,
  and the flags of the update in progress are cleared.\<close>
theorem update_installs:
  assumes "spi_genuine X wel polls" and "drv_wf s" and "t = 1 \<or> t = 2"
    and "0 < length data" and "length data \<le> unat (bank_size t)"
  shows "\<exists>s1 s2 s3 s4.
    FICA_app_program_ext_init X t True s = Inr (0, s1) \<and>
    FICA_app_program_ext_abs X 0 (Some data) (of_nat (length data)) s1 = Inr (0, s2) \<and>
    FICA_app_program_ext_finalize X s2 = Inr (0, s3) \<and>
    FICA_app_program_ext_set_reset_vector X s3 = Inr (0, s4) \<and>
    peek (bflash X (board s4)) (unat (bank_addr t)) (length data) = data \<and>
    sint (currType (header (table X (board s4)))) = t \<and>
    imgLen (records (table X (board s4)) ! nat t) = of_nat (length data) \<and>
    comm_get 4 (table X (board s4)) \<and> \<not> comm_get 8 (table X (board s4)) \<and>
    \<not> comm_get 9 (table X (board s4)) \<and> \<not> comm_get 10 (table X (board s4))"
  by (rule spi_genuine.update_run [OF assms])

theorem update_installs_witness:
  "\<exists>s1 s2 s3 s4. FICA_app_program_ext_init (nor_sim FLASH_VENDOR_ID) 2 True sim_drv = Inr (0, s1) \<and>
    FICA_app_program_ext_abs (nor_sim FLASH_VENDOR_ID) 0 (Some [1, 2, 3]) 3 s1 = Inr (0, s2) \<and>
    FICA_app_program_ext_finalize (nor_sim FLASH_VENDOR_ID) s2 = Inr (0, s3) \<and>
    FICA_app_program_ext_set_reset_vector (nor_sim FLASH_VENDOR_ID) s3 = Inr (0, s4) \<and>
    peek (bflash (nor_sim FLASH_VENDOR_ID) (board s4)) 0x780000 3 = [1, 2, 3] \<and>
    sint (currType (header (table (nor_sim FLASH_VENDOR_ID) (board s4)))) = 2"
proof -
  have "length [1, 2, 3 :: u8] \<le> unat (bank_size 2)" by (simp add: bank_size_def)
  note run = update_installs [OF sim_genuine sim_drv_wf _ _ this, simplified bank_addr_def]
  show ?thesis using run by (auto simp: numeral_3_eq_3)
qed

text \<open>C13: Writing a chunk of an image whose offset and length do not overflow 32 bits when they are added
  programs exactly its bytes: on success the open bank has the new bytes programmed at the chunk's offset
  and nothing else has changed; whatever the status, no byte outside the open bank changes. A write succeeds
  only while the table says that a new image is being written, and only inside the bank. (The code does not
  check that the sum does not overflow; what happens when it does is the property about the wrapping sum
  below.)\<close>
theorem chunk_programs_exactly:
  assumes "spi_device X wel" and "drv_wf s" and "bank_ok s"
    and "FICA_app_program_ext_abs X offset (Some data) len s = Inr (st, s')"
    and "unat offset + unat len < 4294967296"
  shows "(st = 0 \<longrightarrow> comm_get 10 (table X (board s)) \<and>
      unat offset + unat len \<le> unat (s_newAppImgMaxSize s) \<and>
      bflash X (board s') =
        burn (unat (s_newAppImgStartAddr s) + unat offset) (take (unat len) data) (bflash X (board s))) \<and>
    (\<forall>n. n < unat (s_newAppImgStartAddr s) \<or>
      unat (s_newAppImgStartAddr s) + unat (s_newAppImgMaxSize s) \<le> n \<longrightarrow>
      bflash X (board s') n = bflash X (board s) n)"
  using spi_device.ext_abs_ok [OF assms(1,4,2,3,5)] by simp

theorem chunk_programs_exactly_witness:
  "\<exists>s s'. FICA_app_program_ext_abs (nor_sim FLASH_VENDOR_ID) 300 (Some [7, 8]) 2 s = Inr (0, s') \<and>
    bflash (nor_sim FLASH_VENDOR_ID) (board s') =
      burn (0x780000 + 300) [7, 8] (bflash (nor_sim FLASH_VENDOR_ID) (board s))"
proof -
  obtain s where s: "drv_wf s" "bank_ok s" "comm_get 10 (table (nor_sim FLASH_VENDOR_ID) (board s))"
    "s_newAppImgStartAddr s = 0x780000" "s_newAppImgMaxSize s = 0x680000"
    using sim_opened by blast
  obtain s' where a: "FICA_app_program_ext_abs (nor_sim FLASH_VENDOR_ID) 300 (Some [7, 8]) 2 s = Inr (0, s')"
    using spi_live.ext_abs_returns [OF sim_live s(1,2), where offset = 300 and len = 2 and data = "[7, 8]"] s by auto
  show ?thesis
    using chunk_programs_exactly [OF sim_device s(1,2) a] a s(4) by (intro exI [of _ s] exI [of _ s']) simp
qed

text \<open>C32: The write loop ends: a chunk that lies in the open bank, with enough data behind the
  pointer, is written with success on every chip that answers and becomes ready.\<close>
theorem chunk_write_returns:
  assumes "spi_live X wel polls" and "drv_wf s" and "bank_ok s"
    and "unat offset + unat len \<le> unat (s_newAppImgMaxSize s)"
    and "comm_get 10 (table X (board s))" and "0 < unat len" and "unat len \<le> length data"
  shows "\<exists>s'. FICA_app_program_ext_abs X offset (Some data) len s = Inr (0, s')"
  by (rule spi_live.ext_abs_returns [OF assms])

theorem chunk_write_returns_witness:
  "\<exists>s s'. FICA_app_program_ext_abs (nor_sim FLASH_VENDOR_ID) 0x67FFFF (Some [9]) 1 s = Inr (0, s')"
proof -
  obtain s where s: "drv_wf s" "bank_ok s" "comm_get 10 (table (nor_sim FLASH_VENDOR_ID) (board s))"
    "s_newAppImgStartAddr s = 0x780000" "s_newAppImgMaxSize s = 0x680000"
    using sim_opened by blast
  show ?thesis
    using chunk_write_returns [OF sim_live s(1,2) _ s(3), where offset = "0x67FFFF" and len = 1 and data = "[9]"] s(5) by auto
qed

text \<open>C33: The bounds check of a chunk write is a 32-bit sum that wraps: when the offset is 2^32 less the
  length (of at most a page) the check passes, and the write succeeds and programs, below the start of the
  open bank, as many bytes as the chunk has.\<close>
theorem chunk_bounds_wrap:
  assumes "spi_live X wel polls" and "drv_wf s" and "bank_ok s" and "comm_get 10 (table X (board s))"
    and "256 \<le> unat (s_newAppImgStartAddr s)" and "0 < l" and "l \<le> 256" and "l \<le> length data"
  shows "\<exists>s'. FICA_app_program_ext_abs X (- of_nat l) (Some data) (of_nat l) s = Inr (0, s') \<and>
    bflash X (board s') = burn (unat (s_newAppImgStartAddr s) - l) (take l data) (bflash X (board s))"
  by (rule spi_live.ext_abs_wrap [OF assms])

theorem chunk_bounds_wrap_witness:
  "\<exists>s s'. s_newAppImgStartAddr s = 0x780000 \<and>
    FICA_app_program_ext_abs (nor_sim FLASH_VENDOR_ID) 0xFFFFFFFF (Some [0]) 1 s = Inr (0, s') \<and>
    bflash (nor_sim FLASH_VENDOR_ID) (board s') 0x77FFFF = 0"
proof -
  obtain s where s: "drv_wf s" "bank_ok s" "comm_get 10 (table (nor_sim FLASH_VENDOR_ID) (board s))"
    "s_newAppImgStartAddr s = 0x780000" "s_newAppImgMaxSize s = 0x680000"
    using sim_opened by blast
  have ones: "(0xFFFFFFFF :: u32) = - of_nat 1" by simp
  obtain s' where "FICA_app_program_ext_abs (nor_sim FLASH_VENDOR_ID) (- of_nat 1) (Some [0]) (of_nat 1) s = Inr (0, s')"
    and "bflash (nor_sim FLASH_VENDOR_ID) (board s') = burn (0x780000 - 1) [0] (bflash (nor_sim FLASH_VENDOR_ID) (board s))"
    using chunk_bounds_wrap [OF sim_live s(1-3), of 1 "[0]"] s(4) by auto
  then show ?thesis
    by (intro exI [of _ s] exI [of _ s']) (simp only: ones, simp add: s(4) burn_def)
qed

section \<open>The table\<close>

text \<open>The write-back of the table: when it succeeds, the flash holds the RAM copy of the table
  and the RAM copy is unchanged; whatever the status, no byte outside the sector of the table
  changes.\<close>
theorem table_write_back:
  assumes "spi_device X wel" and "fica_wf (s_fica s)" and "FICA_write_db X s = Inr (st, s')"
  shows "(st = 0 \<longrightarrow> table X (board s') = s_fica s \<and> s_fica s' = s_fica s) \<and>
    (\<forall>n. n div 0x1000 \<noteq> 0xFFF \<longrightarrow> bflash X (board s') n = bflash X (board s) n)"
  using spi_device.write_db_ok [OF assms(1) _ assms(2)] spi_device.write_db_table_op [OF assms(1,3,2)] assms(3)
  by (auto simp: table_op_def outside_table_def)

lemma sim_drv_fica [simp]: "s_fica sim_drv = fica_zero" "fica_wf fica_zero"
  by (simp_all add: sim_drv_def fica_zero_wf)

theorem table_write_back_witness:
  "\<exists>s'. FICA_write_db (nor_sim FLASH_VENDOR_ID) sim_drv = Inr (0, s') \<and>
    table (nor_sim FLASH_VENDOR_ID) (board s') = fica_zero"
proof -
  obtain s' where w: "FICA_write_db (nor_sim FLASH_VENDOR_ID) sim_drv = Inr (0, s')"
    using spi_live.write_db_returns [OF sim_live, of sim_drv FLASH_VENDOR_ID] by auto
  show ?thesis using table_write_back [OF sim_device _ w] w by auto
qed

text \<open>The byte layout of the table is a bijection between well-formed tables and buffers of
  948 bytes: what is written is what a later read decodes, and reading a table and writing it back
  changes no byte.\<close>
theorem table_layout_roundtrip:
  "(fica_wf f \<longrightarrow> length (encode_fica f) = fica_size \<and> decode_fica (encode_fica f) = f) \<and>
   (length bs = fica_size \<longrightarrow> fica_wf (decode_fica bs) \<and> encode_fica (decode_fica bs) = bs)"
  by (simp add: length_encode_fica decode_encode_fica encode_decode_fica decode_fica_wf del: fica_size_def)

theorem table_layout_roundtrip_witness:
  "decode_fica (encode_fica fica_zero) = fica_zero \<and>
   encode_fica (decode_fica (replicate 948 7)) = replicate 948 7"
  using table_layout_roundtrip [of fica_zero "replicate 948 7"] by simp

text \<open>C24: The flag operations implement a word of flags on the stored table: setting and clearing a
  flag are the two updates of the abstract word, nothing else in the table changes, and a query
  returns the stored flag.\<close>
theorem flags_refine:
  assumes "spi_device X wel" and "fica_wf (s_fica s)" and "n < 32"
  shows "(\<forall>s'. FICA_set_comm_flag X (push_bit n 1) s = Inr (0, s') \<longrightarrow>
      table X (board s') = comm_put n True (table X (board s)) \<and> s_fica s' = table X (board s')) \<and>
    (\<forall>s'. FICA_clr_comm_flag X (push_bit n 1) s = Inr (0, s') \<longrightarrow>
      table X (board s') = comm_put n False (table X (board s)) \<and> s_fica s' = table X (board s')) \<and>
    FICA_get_comm_flag X (push_bit n 1) v s =
      Inr ((0, comm_get n (table X (board s))), s\<lparr>s_fica := table X (board s)\<rparr>)"
  using spi_device.set_comm_flag_ok [OF assms(1) _ assms(2,3)]
    spi_device.clr_comm_flag_ok [OF assms(1) _ assms(2,3)] spi_device.get_comm_flag_eq [OF assms(1,2)]
  by blast

theorem flags_refine_witness:
  "\<exists>s'. FICA_set_comm_flag (nor_sim FLASH_VENDOR_ID) (push_bit 8 1) sim_drv = Inr (0, s') \<and>
    comm_get 8 (table (nor_sim FLASH_VENDOR_ID) (board s'))"
proof -
  have wf: "fica_wf (s_fica sim_drv)" by simp
  obtain s' where s: "FICA_set_comm_flag (nor_sim FLASH_VENDOR_ID) (push_bit 8 1) sim_drv = Inr (0, s')"
    using spi_live.set_comm_flag_returns [OF sim_live wf] by blast
  show ?thesis using flags_refine [OF sim_device wf, of 8] s by auto
qed

text \<open>The initialisation returns success on every chip that answers, with the RAM copy equal to
  the stored table: the table found if it is valid, the default table otherwise. The default is
  also written over a valid table when the chip does not report the vendor the code expects.\<close>
theorem initialize_outcome:
  assumes "spi_live X wel polls" and "fica_wf (s_fica s)"
  shows "\<exists>s'. FICA_initialize X s = Inr (0, s') \<and> s_fica s' = table X (board s') \<and>
    table X (board s') = (if genuine X s \<and> initialized (table X (board s)) then table X (board s)
      else fica_default)"
proof -
  have d: "spi_device X wel" using assms(1) by (rule spi_live.axioms(1))
  obtain s' where i: "FICA_initialize X s = Inr (0, s')"
    using spi_live.initialize_returns [OF assms] by blast
  then show ?thesis using spi_device.initialize_ok [OF d i assms(2)] by blast
qed

lemma sim_other: "\<not> genuine (nor_sim 0) s"
  by (simp add: genuine_def flexspi_nor_get_vendor_id_def sim_transfer_simps first_byte_def)

theorem initialize_outcome_witness:
  "\<exists>s'. FICA_initialize (nor_sim 0) sim_drv = Inr (0, s') \<and> table (nor_sim 0) (board s') = fica_default"
  using initialize_outcome [OF sim_live [of 0], of sim_drv] by (auto simp: sim_other)

section \<open>Banks and the boot loader's choice\<close>

text \<open>Erasing a bank: on success every byte of the bank reads as ones; whatever the status,
  nothing outside the bank changes; and on a chip that answers the loop ends with success.\<close>
theorem erase_bank_exact:
  assumes "spi_live X wel polls" and "valid_img_type t"
  shows "(\<exists>s'. FICA_Erase_Bank X (bank_addr t) (bank_size t) s = Inr (0, s')) \<and>
    (\<forall>st s'. FICA_Erase_Bank X (bank_addr t) (bank_size t) s = Inr (st, s') \<longrightarrow>
      s' = s\<lparr>board := board s'\<rparr> \<and>
      (\<forall>n. unat (bank_addr t) \<le> n \<and> n < unat (bank_addr t) + unat (bank_size t) \<longrightarrow>
        st = 0 \<longrightarrow> bflash X (board s') n = 0xFF) \<and>
      (\<forall>n. n < unat (bank_addr t) \<or> unat (bank_addr t) + unat (bank_size t) \<le> n \<longrightarrow>
        bflash X (board s') n = bflash X (board s) n))"
proof -
  have d: "spi_device X wel" using assms(1) by (rule spi_live.axioms(1))
  show ?thesis
    using spi_live.erase_bank_returns [OF assms] spi_device.erase_bank_ok [OF d _ assms(2)] by blast
qed

theorem erase_bank_exact_witness:
  "\<exists>s'. FICA_Erase_Bank (nor_sim 7) (bank_addr 1) (bank_size 1) sim_drv = Inr (0, s') \<and>
    bflash (nor_sim 7) (board s') 0x100000 = 0xFF"
proof -
  have v: "valid_img_type 1" by (simp add: valid_cases)
  obtain s' where e: "FICA_Erase_Bank (nor_sim 7) (bank_addr 1) (bank_size 1) sim_drv = Inr (0, s')"
    using erase_bank_exact [OF sim_live v] by blast
  show ?thesis
    using erase_bank_exact [OF sim_live v, of 7 sim_drv] e by (auto simp: bank_addr_def bank_size_def)
qed

text \<open>C26: The boot loader is pointed at a new image only when one is pending: without the pending
  flag in a valid table the call fails and changes no byte of the flash; with success, the current
  application is the recorded new type, and the flags say that the update is over.\<close>
theorem reset_vector_gated:
  assumes "spi_device X wel" and "fica_wf (s_fica s)" and "genuine X s"
    and "initialized (table X (board s))" and "FICA_app_program_ext_set_reset_vector X s = Inr (st, s')"
  shows "(\<not> comm_get 9 (table X (board s)) \<longrightarrow> st = -1 \<and> bflash X (board s') = bflash X (board s)) \<and>
    (st = 0 \<longrightarrow> valid_img_type (sint (newType (header (table X (board s))))) \<and>
      table X (board s') = comm_put 4 True (comm_put 9 False (comm_put 8 False
        (with_currType (sint (newType (header (table X (board s))))) (table X (board s))))))"
  using spi_device.reset_vector_ok [OF assms(1) _ assms(2), of s']
    spi_device.reset_vector_gate [OF assms(1,2,5,4,3)] assms(5) by auto

theorem reset_vector_gated_witness:
  "\<exists>s s'. FICA_app_program_ext_set_reset_vector (nor_sim FLASH_VENDOR_ID) s = Inr (-1, s') \<and>
    initialized (table (nor_sim FLASH_VENDOR_ID) (board s)) \<and>
    bflash (nor_sim FLASH_VENDOR_ID) (board s') = bflash (nor_sim FLASH_VENDOR_ID) (board s)"
proof -
  let ?X = "nor_sim FLASH_VENDOR_ID"
  have g: "genuine ?X s" for s by (rule spi_genuine.always_genuine [OF sim_genuine])
  obtain s where "drv_wf s" and s: "s_fica s = table ?X (board s)" and t: "table ?X (board s) = fica_default"
    using sim_initialized by blast
  then have wf: "fica_wf (s_fica s)" by (simp add: drv_wf_def)
  have flag: "\<not> comm_get 9 (table ?X (board s))" unfolding t by (simp add: comm_get_def fica_default_def bit_simps)
  have init: "initialized (table ?X (board s))" unfolding t by simp
  obtain s0 where i0: "FICA_initialize ?X s = Inr (0, s0)" and b0: "bflash ?X (board s0) = bflash ?X (board s)"
    and f0: "s_fica s0 = table ?X (board s)"
    using spi_device.initialize_valid [OF sim_device wf g init] by blast
  have "FICA_get_comm_flag ?X 0x200 False s0 = Inr ((0, False), s0\<lparr>s_fica := table ?X (board s)\<rparr>)"
    using spi_device.get_comm_flag_eq [OF sim_device, of s0 FLASH_VENDOR_ID 9 False] f0 flag table_cong [OF b0]
    by (simp add: table_wf)
  then have r: "FICA_app_program_ext_set_reset_vector ?X s = Inr (-1, s0\<lparr>s_fica := table ?X (board s)\<rparr>)"
    using i0 by (simp add: FICA_app_program_ext_set_reset_vector_def)
  show ?thesis using reset_vector_gated [OF sim_device wf g init r] r flag init by blast
qed

section \<open>The driver over any run\<close>

text \<open>Any sequence of driver operations, with any arguments and on any chip, leaves the driver
  well formed: the RAM copy of the table has its three records with arrays of the declared sizes,
  and the image buffer keeps its sector of bytes.\<close>
theorem driver_runs_keep_shape:
  assumes "spi_device X wel" and "drv_wf s" and "run_ops (fica_step X) ps s = Inr (rs, s')"
  shows "length (records (s_fica s')) = 3 \<and> length (s_appImgBuffer s') = 4096 \<and>
    length (encode_fica (s_fica s')) = fica_size"
proof -
  have "drv_wf s'" using spi_device.driver_run [OF assms] .
  then have "fica_wf (s_fica s')" and "length (s_appImgBuffer s') = 4096" by (simp_all add: drv_wf_def)
  then show ?thesis using length_encode_fica by (simp add: fica_wf_def del: fica_size_def)
qed

theorem driver_runs_keep_shape_witness:
  "\<exists>rs s'. run_ops (fica_step (nor_sim FLASH_VENDOR_ID)) [Op_set_flag 0x10, Op_new_type] sim_drv = Inr (rs, s') \<and>
    length (records (s_fica s')) = 3"
proof -
  have wf: "fica_wf (s_fica sim_drv)" by simp
  obtain s1 where a: "FICA_set_comm_flag (nor_sim FLASH_VENDOR_ID) 0x10 sim_drv = Inr (0, s1)"
    using spi_live.set_comm_flag_returns [OF sim_live wf] by blast
  have "fica_wf (s_fica s1)"
    using spi_device.set_comm_flag_table_op [OF sim_device a wf] by (rule table_op_wf)
  then have "\<exists>rs s'. run_ops (fica_step (nor_sim FLASH_VENDOR_ID)) [Op_set_flag 0x10, Op_new_type] sim_drv = Inr (rs, s')"
    using a by (simp add: drop_result_def FICA_get_new_app_img_type_def load_fica_eq)
  then show ?thesis using driver_runs_keep_shape [OF sim_device sim_drv_wf] by blast
qed

lemma sint_wi: "- 2147483648 \<le> k \<Longrightarrow> k < 2147483648 \<Longrightarrow> sint (word_of_int k :: u32) = k"
  by (simp add: signed_of_int signed_take_bit_int_eq_self)

lemma in_bank_int:
  assumes "- 2147483648 \<le> x - a" and "x - a < 2147483648" and "0 \<le> z" and "z < 2147483648"
  shows "in_bank (word_of_int x) (word_of_int a) (word_of_int z) \<longleftrightarrow> 0 \<le> x - a \<and> x - a < z"
proof -
  have "sint (word_of_int x - word_of_int a :: u32) = x - a"
    unfolding wi_hom_sub using assms(1,2) by (intro sint_wi)
  moreover have "sint (word_of_int z :: u32) = z"
    using assms(3,4) by (intro sint_wi) simp_all
  ultimately show ?thesis by (simp add: in_bank_def)
qed

lemma bank_ints:
  "bank_addr t = word_of_int (if t = 0 then 0 else if t = 1 then 0x100000 else 0x780000)"
  "FICA_IMG_BOOTLOADER_ADDR = word_of_int 0" "FICA_IMG_BOOTLOADER_SIZE = word_of_int 0x100000"
  "FICA_IMG_APP_A_ADDR = word_of_int 0x100000" "FICA_IMG_APP_A_SIZE = word_of_int 0x680000"
  "FICA_IMG_APP_B_ADDR = word_of_int 0x780000" "FICA_IMG_APP_B_SIZE = word_of_int 0x680000"
  by (simp_all add: bank_addr_def)

text \<open>The start address and the type of a bank determine each other, and an address of a reset
  handler inside a bank of the flash window is attributed to that bank.\<close>
theorem bank_lookup_inverse:
  assumes "valid_img_type t" and "off < unat (bank_size t)"
  shows "FICA_get_app_img_start_addr t (Some a) = (0, Some (bank_addr t)) \<and>
    FICA_GetImgTypeFromAddr (bank_addr t) u = (0, t) \<and>
    FICA_GetImgTypeFromResetISRAddr (FLEXSPI_AMBA_BASE + bank_addr t + of_nat off) (Some u) = (0, Some t)"
proof -
  have t: "t = 0 \<or> t = 1 \<or> t = 2" using assms(1) by (simp add: valid_cases)
  define x where "x = (if t = 0 then 0 else if t = 1 then 0x100000 else 0x780000) + int off"
  have isr: "FLEXSPI_AMBA_BASE + bank_addr t + of_nat off - FLEXSPI_AMBA_BASE = word_of_int x"
    by (simp add: bank_ints x_def)
  have x: "0 \<le> x" "x < 0xE00000" "t = 0 \<longrightarrow> x < 0x100000" "t = 1 \<longrightarrow> 0x100000 \<le> x \<and> x < 0x780000"
    "t = 2 \<longrightarrow> 0x780000 \<le> x"
    using t assms(2) by (auto simp: x_def bank_size_def)
  have b: "in_bank (word_of_int x) FICA_IMG_BOOTLOADER_ADDR FICA_IMG_BOOTLOADER_SIZE \<longleftrightarrow> x < 0x100000"
    "in_bank (word_of_int x) FICA_IMG_APP_A_ADDR FICA_IMG_APP_A_SIZE \<longleftrightarrow> 0x100000 \<le> x \<and> x < 0x780000"
    "in_bank (word_of_int x) FICA_IMG_APP_B_ADDR FICA_IMG_APP_B_SIZE \<longleftrightarrow> 0x780000 \<le> x \<and> x < 0xE00000"
    unfolding bank_ints using x(1,2) by (subst in_bank_int; auto)+
  have "FICA_GetImgTypeFromResetISRAddr (FLEXSPI_AMBA_BASE + bank_addr t + of_nat off) (Some u) = (0, Some t)"
    unfolding FICA_GetImgTypeFromResetISRAddr_def Let_def option.case isr b using t x by auto
  then show ?thesis
    using t assms(1) by (auto simp: start_addr_eq FICA_GetImgTypeFromAddr_def bank_addr_def)
qed

theorem bank_lookup_inverse_witness:
  "FICA_GetImgTypeFromAddr (bank_addr 2) 7 = (0, 2) \<and>
   FICA_GetImgTypeFromResetISRAddr (FLEXSPI_AMBA_BASE + bank_addr 2 + of_nat 0x2000) (Some 7) = (0, Some 2)"
  using bank_lookup_inverse [of 2 "0x2000" 0 7] by (simp add: valid_cases bank_size_def)

text \<open>The current boot type of the table is used as an index without a check: when it is not a
  record number, the query of the boot address reads outside the table.\<close>
theorem boot_type_unchecked:
  assumes "fica_wf (s_fica s)"
  shows "FICA_GetCurBootStartAddr X a s =
    (let t = table X (board s) in
     if unat (currBootType (header t)) < 3
     then Inr ((0, imgAddr (records t ! unat (currBootType (header t)))), s\<lparr>s_fica := t\<rparr>)
     else Inl MemFault)"
  using table_wf [of X "board s"] load_fica_eq [OF assms, of X]
  by (simp add: FICA_GetCurBootStartAddr_def Let_def fica_wf_def)

theorem boot_type_unchecked_witness:
  "\<exists>s'. FICA_SetCurBootType (nor_sim FLASH_VENDOR_ID) 3 sim_drv = Inr (0, s') \<and>
    FICA_GetCurBootStartAddr (nor_sim FLASH_VENDOR_ID) 0 s' = Inl MemFault"
proof -
  let ?u = "upd_header (\<lambda>h. h\<lparr>currBootType := word_of_int 3\<rparr>) sim_drv"
  have wf: "fica_wf (s_fica ?u)" by simp
  obtain s' where w: "FICA_write_db (nor_sim FLASH_VENDOR_ID) ?u = Inr (0, s')"
    using spi_live.write_db_returns [OF sim_live wf] by blast
  have t: "table (nor_sim FLASH_VENDOR_ID) (board s') = s_fica ?u" and f: "s_fica s' = s_fica ?u"
    using spi_device.write_db_ok [OF sim_device w wf] by blast+
  have "fica_wf (s_fica s')" unfolding f by (rule wf)
  from boot_type_unchecked [OF this, of "nor_sim FLASH_VENDOR_ID" 0]
  have "FICA_GetCurBootStartAddr (nor_sim FLASH_VENDOR_ID) 0 s' = Inl MemFault"
    unfolding Let_def t by (simp add: upd_header_def)
  then show ?thesis using w by (auto simp: FICA_SetCurBootType_def)
qed

section \<open>Sector writes and the wait for the chip\<close>

text \<open>A sector write puts the data at the start of its sector and ones behind it: on a chip
  that answers it succeeds, at most one sector of the data is used, and no byte outside the sector
  changes.\<close>
theorem sector_write_exact:
  assumes "spi_live X wel polls" and "0 < len" and "min (unat len) 4096 \<le> length buf"
    and "unat a < FLASH_SIZE" and "unat a mod 0x1000 = 0"
  shows "\<exists>b'. SLN_Write_Sector X a buf len b = Inr (0, b') \<and>
    bflash X b' = (\<lambda>n. if n div 0x1000 = unat a div 0x1000
      then (if n - unat a < min (unat len) 4096 then buf ! (n - unat a) else 0xFF)
      else bflash X b n)"
proof -
  have d: "spi_device X wel" using assms(1) by (rule spi_live.axioms(1))
  show ?thesis
    using spi_live.SLN_Write_Sector_returns [OF assms(1-3)] spi_device.write_sector_ok [OF d _ assms(2-5)]
    by blast
qed

theorem sector_write_exact_witness:
  "\<exists>b'. SLN_Write_Sector (nor_sim 1) 0x2000 [5, 6] 2 sim_board = Inr (0, b') \<and>
    bflash (nor_sim 1) b' 0x2001 = 6 \<and> bflash (nor_sim 1) b' 0x2002 = 0xFF"
  using sector_write_exact [OF sim_live [of 1], of 2 "[5, 6]" "0x2000" sim_board] by auto

text \<open>The page counter of the sector write is decremented before it is tested: with length zero
  it wraps, and the write erases the sector, programs one page of ones and then reads past the
  data.\<close>
theorem sector_write_empty:
  assumes "spi_live X wel polls" and "length buf < 512"
  shows "SLN_Write_Sector X a buf 0 b = Inl MemFault"
  by (rule spi_live.SLN_Write_Sector_empty [OF assms])

theorem sector_write_empty_witness: "SLN_Write_Sector (nor_sim 1) 0x2000 [5, 6] 0 sim_board = Inl MemFault"
  by (rule sector_write_empty [OF sim_live]) simp

definition chip_hung :: "'d flexspi_if \<Rightarrow> bool" where
  "chip_hung X \<longleftrightarrow> (\<forall>x d. fst (fx_transfer X x d) = 0) \<and>
    (\<forall>d. status_busy (first_byte (fst (snd (fx_transfer X (read_xfer NOR_CMD_LUT_SEQ_IDX_READSTATUSREG) d)))))"

lemma busy_loop_hung:
  assumes "nor_busy_loop X d = Some r"
  shows "\<not> chip_hung X"
proof (rule nor_busy_loop.raw_induct [OF _ assms])
  fix loop X d r
  assume IH: "\<And>X d r. loop X d = Some r \<Longrightarrow> \<not> chip_hung X"
    and eq: "(case fx_transfer X (read_xfer NOR_CMD_LUT_SEQ_IDX_READSTATUSREG) d of (status, bs, d') \<Rightarrow>
      if status \<noteq> kStatus_Success then Some (Inr (status, d'))
      else if status_busy (first_byte bs) then loop X d' else Some (Inr (status, d'))) = Some r"
  obtain st bs d' where t: "fx_transfer X (read_xfer NOR_CMD_LUT_SEQ_IDX_READSTATUSREG) d = (st, bs, d')"
    by (rule prod_cases3)
  show "\<not> chip_hung X"
  proof
    assume h: "chip_hung X"
    then have "st = 0" and "status_busy (first_byte bs)"
      using t unfolding chip_hung_def by (metis fst_conv, metis fst_conv snd_conv)
    then have "loop X d' = Some r" using eq t by simp
    then show False using IH h by blast
  qed
qed

text \<open>The wait for the chip has no bound: if the status register reads busy at every poll and the
  transfers succeed, a sector erase never returns, and it runs with interrupts masked.\<close>
theorem busy_wait_unbounded:
  assumes "\<And>x d. fst (fx_transfer X x d) = 0"
    and "\<And>d. status_busy (first_byte (fst (snd (fx_transfer X (read_xfer NOR_CMD_LUT_SEQ_IDX_READSTATUSREG) d))))"
  shows "SLN_Erase_Sector X a b = Inl Livelock"
proof -
  have "chip_hung X" using assms by (simp add: chip_hung_def)
  then have "nor_busy_loop X d = None" for d by (cases "nor_busy_loop X d") (auto dest: busy_loop_hung)
  then have w: "flexspi_nor_wait_bus_busy X d = Inl Livelock" for d
    by (simp add: flexspi_nor_wait_bus_busy_def)
  have t: "\<exists>bs d'. fx_transfer X x d = (0, bs, d')" for x d
    using assms(1) [of x d] by (cases "fx_transfer X x d") auto
  obtain bs d1 where e: "fx_transfer X (command_xfer a NOR_CMD_LUT_SEQ_IDX_WRITEENABLE) (bd_dev b) = (0, bs, d1)"
    using t by blast
  obtain bs' d2 where "fx_transfer X (command_xfer a NOR_CMD_LUT_SEQ_IDX_ERASESECTOR) d1 = (0, bs', d2)"
    using t by blast
  then show ?thesis
    using e w by (simp add: SLN_Erase_Sector_eq guarded_def then_reset_def
        flexspi_nor_flash_erase_sector_def flexspi_nor_write_enable_def)
qed

text \<open>A chip whose write-in-progress bit never clears.\<close>

definition nor_hung :: "nor_chip flexspi_if" where
  "nor_hung = (nor_sim 0xEF)\<lparr>fx_transfer := (\<lambda>x d. (0, [1], d))\<rparr>"

theorem busy_wait_unbounded_witness: "SLN_Erase_Sector nor_hung 0 sim_board = Inl Livelock"
  by (rule busy_wait_unbounded) (simp_all add: nor_hung_def status_busy_def first_byte_def)

text \<open>Interrupts and cache: every flash operation that returns leaves the interrupt mask as it
  found it and the data cache on, whatever the status of the flash command.\<close>
theorem interrupts_restored:
  "(SLN_Write_Sector X a buf len b = Inr (st, b') \<or> SLN_Erase_Sector X a b = Inr (st, b') \<or>
    SLN_Erase_Block X a b = Inr (st, b') \<or> SLN_Write_Flash_Page X a buf len b = Inr (st, b') \<or>
    SLN_Write_Flash_At_Address X a buf b = Inr (st, b') \<or> SLN_Flash_Init X b = Inr b') \<Longrightarrow>
   bd_primask b' = bd_primask b \<and> bd_dcache b'"
  by (elim disjE) (fact write_sector_restores erase_sector_restores erase_block_restores
      write_page_restores write_at_address_restores flash_init_restores)+

theorem interrupts_restored_witness:
  "\<exists>b'. SLN_Erase_Block (nor_sim 1) 0 (sim_board\<lparr>bd_primask := 1\<rparr>) = Inr (0, b') \<and> bd_primask b' = 1"
proof -
  obtain b' where "SLN_Erase_Block (nor_sim 1) 0 (sim_board\<lparr>bd_primask := 1\<rparr>) = Inr (0, b')"
    using spi_live.SLN_Erase_Block_returns [OF sim_live] by blast
  note e = this
  show ?thesis
    using interrupts_restored [OF disjI2, OF disjI2, OF disjI1, OF e] e by (intro exI [of _ b']) simp
qed

text \<open>The data pointer of the full-page write is a pointer to words, so each page moves it by
  four pages of bytes: a buffer of one sector, the size of the region that is written, is left
  after four of the sixteen pages.\<close>
theorem full_page_overruns:
  assumes "spi_live X wel polls" and "length buf \<le> 4096"
  shows "FICA_write_full_page X a p e buf s = Inl MemFault"
proof -
  have short: "SLN_Write_Flash_At_Address X a pg b = Inl MemFault" if "length pg < 256" for a pg b
    using spi_live.write_enable_returns [OF assms(1), of a "fx_reset X (bd_dev b)"] that
    by (auto simp: SLN_Write_Flash_At_Address_eq guarded_def flexspi_nor_flash_page_program_def)
  have loop: "length pg \<le> 1024 * k \<Longrightarrow> unat r + 256 * k < 4096 \<Longrightarrow> full_page_loop X a r pg s = Inl MemFault"
    for k pg r s
  proof (induction k arbitrary: pg r s)
    case 0
    then show ?case
      using short by (subst full_page_loop.simps) (simp add: on_board_def word_less_nat_alt)
  next
    case (Suc k)
    have r: "r < 0x1000" using Suc.prems(2) by (simp add: word_less_nat_alt)
    have ur: "unat (r + 256) = unat r + 256" using Suc.prems(2) by (intro unat_step_page) simp
    show ?case
    proof (cases "length pg < 256")
      case True
      then show ?thesis using short r by (subst full_page_loop.simps) (simp add: on_board_def)
    next
      case False
      then obtain b where "SLN_Write_Flash_At_Address X (a + r) pg (board s) = Inr (0, b)"
        using spi_live.SLN_Write_Flash_At_Address_returns [OF assms(1), of pg "a + r" "board s"] by auto
      moreover have "full_page_loop X a (r + 256) (drop 1024 pg) (s\<lparr>board := b\<rparr>) = Inl MemFault"
        using Suc ur by simp
      ultimately show ?thesis using r by (subst full_page_loop.simps) (simp add: on_board_def)
    qed
  qed
  obtain b where "SLN_Erase_Sector X a (board s) = Inr (0, b)"
    using spi_live.SLN_Erase_Sector_returns [OF assms(1)] by blast
  then show ?thesis
    using loop [of buf 4 0] assms(2) by (simp add: FICA_write_full_page_def on_board_def)
qed

theorem full_page_overruns_witness:
  "FICA_write_full_page (nor_sim 1) 0x2000 256 4096 (replicate 4096 0) sim_drv = Inl MemFault"
  by (rule full_page_overruns [OF sim_live]) simp

end
