(* ===== verification/Msc_Vfs.thy ===== *)
theory Msc_Vfs
  imports Fica_Update
begin

text \<open>
  The USB mass-storage update of the bootloader, \<open>source/sln_msc_vfs.c\<close> and the transfer
  part of \<open>source/disk.c\<close>: a fake FAT volume whose writes are watched for a directory entry
  of a BIN file, then for the vector table of an image, and from then on programmed into the bank
  the image was linked for. The state is the FICA driver, the variables of the file and whether the
  application task has been resumed. A buffer is the memory from the packet's pointer to the end of
  the disk buffer; a failed assertion never returns.
\<close>

section \<open>State\<close>


definition FLASH_BYTE4_UPPER_NIBBLE :: u32 where "FLASH_BYTE4_UPPER_NIBBLE = 0xF0000000"
definition FLASH_BYTE3 :: u32 where "FLASH_BYTE3 = 0x00FF0000"

datatype msc_vfs_state_t = TRANSFER_IDLE | TRANSFER_START | TRANSFER_ACTIVE | TRANSFER_FINAL | TRANSFER_ERROR

text \<open>The values of the C enumeration order the states.\<close>

fun state_value :: "msc_vfs_state_t \<Rightarrow> nat" where
  "state_value TRANSFER_IDLE = 0"
| "state_value TRANSFER_START = 1"
| "state_value TRANSFER_ACTIVE = 2"
| "state_value TRANSFER_FINAL = 3"
| "state_value TRANSFER_ERROR = 4"

instantiation msc_vfs_state_t :: linorder
begin

definition "s \<le> t \<longleftrightarrow> state_value s \<le> state_value t"
definition "s < t \<longleftrightarrow> state_value s < state_value t"

instance
proof (standard, goal_cases)
  case (4 s t)
  then show ?case by (cases s; cases t) (simp_all add: less_eq_msc_vfs_state_t_def)
qed (auto simp: less_eq_msc_vfs_state_t_def less_msc_vfs_state_t_def)

end

record 'd msc_st =
  fica :: "'d fica_st"
  s_startOffset :: u32
  s_fileLength :: u32
  s_dataWritten :: u32
  s_lbaLength :: u32
  s_transferState :: msc_vfs_state_t
  app_resumed :: bool

section \<open>Start\<close>

text \<open>The boot sector of the volume, packed.\<close>

definition s_fatMbrInit :: "u8 list" where
  "s_fatMbrInit =
     [0xEB, 0x3C, 0x90] @ [0x4D, 0x53, 0x44, 0x30, 0x53, 0x35, 0x2E, 0x30] @ le16 0x0200 @ [0x08] @
     le16 0x0008 @ [0x02] @ le16 0x0200 @ le16 0x5000 @ [0xF0] @ le16 0x0008 @ le16 0x003F @ le16 0x00FF @
     le32 0 @ le32 0 @ [0x08, 0x00, 0x29] @ le32 0x3FF6BD53 @
     [0x53, 0x4C, 0x4E, 0x2D, 0x42, 0x4F, 0x4F, 0x54, 0, 0, 0] @
     [0x46, 0x41, 0x54, 0x31, 0x36, 0x20, 0x20, 0x20] @ replicate 448 0 @ le16 0xAA55"

text \<open>The pointer to the task handle is only compared with NULL here.\<close>

definition MSC_VFS_Init ::
    "u8 list option \<Rightarrow> bool \<Rightarrow> u32 \<Rightarrow> 'd msc_st \<Rightarrow> ((int \<times> u8 list option) \<times> 'd msc_st) outcome" where
  "MSC_VFS_Init storageDisk usbAppTask lbaLength s =
    (case storageDisk of None \<Rightarrow> Inr ((kStatus_Fail, None), s)
     | Some disk \<Rightarrow>
       if usbAppTask \<and> lbaLength \<noteq> 0 then
         if length s_fatMbrInit \<le> length disk then
           Inr ((kStatus_Success, Some (blit 0 s_fatMbrInit disk)),
             s\<lparr>s_fileLength := 0, s_dataWritten := 0, s_lbaLength := lbaLength,
               s_transferState := TRANSFER_IDLE\<rparr>)
         else Inl MemFault
       else Inr ((kStatus_Fail, Some disk), s))"

definition MSC_VFS_GetTransferState :: "'d msc_st \<Rightarrow> msc_vfs_state_t" where
  "MSC_VFS_GetTransferState s = s_transferState s"

definition MSC_VFS_SetTransferState :: "msc_vfs_state_t \<Rightarrow> 'd msc_st \<Rightarrow> 'd msc_st" where
  "MSC_VFS_SetTransferState t s = s\<lparr>s_transferState := t\<rparr>"

section \<open>The write response\<close>

definition s_BinFileExtensionStr :: "u8 list" where
  "s_BinFileExtensionStr = [0x42, 0x49, 0x4E]"

text \<open>The search for a directory entry: the extension, eight name bytes in front of it and a string of
  eleven characters at least; the file size is the last word of the entry.\<close>

fun find_file :: "u8 list \<Rightarrow> nat \<Rightarrow> nat \<Rightarrow> u32 option outcome" where
  "find_file buffer idx 0 = Inr None"
| "find_file buffer idx (Suc k) =
    (if length buffer < idx + 3 then Inl MemFault
     else if slice idx 3 buffer = s_BinFileExtensionStr \<and> 8 \<le> idx then
       if 0 \<notin> set (drop (idx - 8) buffer) then Inl MemFault
       else if 11 \<le> cstrlen (drop (idx - 8) buffer) then
         if length buffer < idx - 8 + 32 then Inl MemFault
         else
           let sz = word_at (idx - 8 + 28) buffer
           in if 0 < sz \<and> sz \<le> FICA_IMG_APP_A_SIZE \<and> sz \<le> FICA_IMG_APP_B_SIZE then Inr (Some sz)
              else find_file buffer (Suc idx) k
       else find_file buffer (Suc idx) k
     else find_file buffer (Suc idx) k)"

text \<open>The code at the label \<open>write_packet\<close>: program the packet, then look whether the file is complete.\<close>

definition save_packet ::
    "'d flexspi_if \<Rightarrow> u32 \<Rightarrow> u32 \<Rightarrow> u8 list \<Rightarrow> 'd msc_st \<Rightarrow> (int \<times> 'd msc_st) outcome" where
  "save_packet X offset len buffer s =
    (let imgOffset = (offset - s_startOffset s) * s_lbaLength s in
     if imgOffset mod EXT_FLASH_ERASE_PAGE \<noteq> 0 then Inl Livelock else
     let imgBaseAddr = snd (FICA_GetNewAppStartAddr (fica s)) in
     rbind (FICA_Erase_Bank X (imgBaseAddr + imgOffset) len (fica s)) (\<lambda>(flashError, f).
     rbind (if SLN_FLASH_NO_ERROR = flashError
            then FICA_app_program_ext_abs X imgOffset (Some buffer) len f
            else Inr (flashError, f)) (\<lambda>(flashError, f).
     if SLN_FLASH_NO_ERROR \<noteq> flashError
     then Inr (kStatus_Fail, s\<lparr>fica := f, s_transferState := TRANSFER_ERROR, app_resumed := True\<rparr>)
     else Inr (kStatus_Success, s\<lparr>fica := f, s_dataWritten := s_dataWritten s + len\<rparr>))))"

definition check_complete :: "'d msc_st \<Rightarrow> 'd msc_st" where
  "check_complete s = (if 0 < s_fileLength s \<and> s_fileLength s \<le> s_dataWritten s
     then s\<lparr>s_transferState := TRANSFER_FINAL, app_resumed := True\<rparr> else s)"

definition write_packet ::
    "'d flexspi_if \<Rightarrow> u32 \<Rightarrow> u32 \<Rightarrow> u8 list \<Rightarrow> 'd msc_st \<Rightarrow> (int \<times> 'd msc_st) outcome" where
  "write_packet X offset len buffer s =
    rbind (if s_startOffset s \<le> offset then save_packet X offset len buffer s
           else Inr (kStatus_Success, s)) (\<lambda>(error, s). Inr (error, check_complete s))"

text \<open>The first packet of an image names its bank by the reset handler of the vector table.\<close>

definition start_packet ::
    "'d flexspi_if \<Rightarrow> u32 \<Rightarrow> u32 \<Rightarrow> u8 list \<Rightarrow> 'd msc_st \<Rightarrow> (int \<times> 'd msc_st) outcome" where
  "start_packet X offset len buffer s =
    (if length buffer < 8 then Inl MemFault else
     let resetHandler = word_at 4 buffer;
         isFlash = (FLASH_BYTE4_UPPER_NIBBLE AND resetHandler = FLEXSPI_AMBA_BASE);
         isValid = (FLASH_BYTE3 AND resetHandler = FICA_IMG_APP_A_ADDR \<or>
                    FLASH_BYTE3 AND resetHandler = FICA_IMG_APP_B_ADDR)
     in if isFlash \<and> isValid then
          case FICA_GetImgTypeFromAddr (resetHandler AND FLASH_BYTE3) FICA_IMG_TYPE_NONE of
            (flashError, currImgType) \<Rightarrow>
          let flashError = (if \<not> valid_img_type currImgType then SLN_FLASH_ERROR else flashError) in
          rbind (if SLN_FLASH_NO_ERROR = flashError then
                   rbind (FICA_app_program_ext_init X currImgType False (fica s)) (\<lambda>(flashError, f).
                   Inr (flashError, s\<lparr>fica := f, s_startOffset := offset\<rparr>))
                 else Inr (flashError, s)) (\<lambda>(flashError, s).
          if SLN_FLASH_NO_ERROR \<noteq> flashError
          then Inr (kStatus_Fail, s\<lparr>s_transferState := TRANSFER_ERROR, app_resumed := True\<rparr>)
          else write_packet X offset len buffer (s\<lparr>s_transferState := TRANSFER_ACTIVE\<rparr>))
        else Inr (kStatus_Success, s))"

definition MSC_VFS_WriteResponse ::
    "'d flexspi_if \<Rightarrow> u32 \<Rightarrow> u32 \<Rightarrow> u8 list \<Rightarrow> 'd msc_st \<Rightarrow> (int \<times> 'd msc_st) outcome" where
  "MSC_VFS_WriteResponse X offset len buffer s =
    (if len \<noteq> 0 then
       case s_transferState s of
         TRANSFER_IDLE \<Rightarrow>
           rbind (find_file buffer 0 (unat len)) (\<lambda>found. Inr (kStatus_Success, case found of None \<Rightarrow> s
             | Some sz \<Rightarrow> s\<lparr>s_fileLength := sz, s_transferState := TRANSFER_START\<rparr>))
       | TRANSFER_START \<Rightarrow> start_packet X offset len buffer s
       | TRANSFER_ACTIVE \<Rightarrow> write_packet X offset len buffer s
       | TRANSFER_FINAL \<Rightarrow> Inr (kStatus_Success, s)
       | TRANSFER_ERROR \<Rightarrow> Inr (kStatus_Success, s)
     else Inr (kStatus_Success, s))"

section \<open>The transfer states\<close>

text \<open>What each state means for the counters; an error or a complete file has woken the application task.\<close>

definition msc_inv :: "'d msc_st \<Rightarrow> bool" where
  "msc_inv s \<longleftrightarrow> (case s_transferState s of
      TRANSFER_IDLE \<Rightarrow> s_dataWritten s = 0
    | TRANSFER_START \<Rightarrow> s_dataWritten s = 0 \<and> 0 < s_fileLength s \<and> s_fileLength s \<le> FICA_IMG_APP_A_SIZE
    | TRANSFER_ACTIVE \<Rightarrow> s_dataWritten s < s_fileLength s \<and> s_fileLength s \<le> FICA_IMG_APP_A_SIZE
    | TRANSFER_FINAL \<Rightarrow> 0 < s_fileLength s \<and> s_fileLength s \<le> s_dataWritten s \<and>
        s_fileLength s \<le> FICA_IMG_APP_A_SIZE \<and> app_resumed s
    | TRANSFER_ERROR \<Rightarrow> app_resumed s)"

lemma find_file_size:
  "find_file buf idx k = Inr (Some sz) \<Longrightarrow> 0 < sz \<and> sz \<le> FICA_IMG_APP_A_SIZE"
  by (induction buf idx k rule: find_file.induct) (auto simp: Let_def split: if_splits)

text \<open>A packet that returns was written, or failed and woke the task.\<close>

lemma save_packet_cases:
  assumes "save_packet X offset len buf s = Inr (r, t)"
  obtains f where "r = kStatus_Success" and "t = s\<lparr>fica := f, s_dataWritten := s_dataWritten s + len\<rparr>"
  | f where "r = kStatus_Fail" and "t = s\<lparr>fica := f, s_transferState := TRANSFER_ERROR, app_resumed := True\<rparr>"
  using assms by (auto simp: save_packet_def Let_def elim!: rbind_InrE split: if_splits prod.splits)

lemma check_complete_inv:
  assumes "s_transferState s = TRANSFER_ACTIVE \<or> s_transferState s = TRANSFER_ERROR \<and> app_resumed s \<and> s_dataWritten s < s_fileLength s"
    and "0 < s_fileLength s" and "s_fileLength s \<le> FICA_IMG_APP_A_SIZE"
  shows "msc_inv (check_complete s) \<and> TRANSFER_ACTIVE \<le> s_transferState (check_complete s)"
  using assms by (auto simp: check_complete_def msc_inv_def less_eq_msc_vfs_state_t_def not_le)

lemma write_packet_inv:
  assumes "s_transferState s = TRANSFER_ACTIVE" and "s_dataWritten s < s_fileLength s"
    and "s_fileLength s \<le> FICA_IMG_APP_A_SIZE"
  shows "always (\<lambda>t. msc_inv t \<and> TRANSFER_ACTIVE \<le> s_transferState t) (write_packet X offset len buf s)"
proof -
  have pos: "0 < s_fileLength s" using assms(2) by (rule le_less_trans [OF word_zero_le])
  have "msc_inv (check_complete t) \<and> TRANSFER_ACTIVE \<le> s_transferState (check_complete t)"
    if "save_packet X offset len buf s = Inr (r, t)" for r t
    using that by (rule save_packet_cases) (intro check_complete_inv; use assms pos in simp)+
  moreover have "msc_inv (check_complete s) \<and> TRANSFER_ACTIVE \<le> s_transferState (check_complete s)"
    by (intro check_complete_inv) (use assms pos in simp_all)
  ultimately show ?thesis
    unfolding always_def write_packet_def by (auto elim!: rbind_InrE split: if_splits)
qed

lemma start_packet_cases:
  assumes "start_packet X offset len buf s = Inr (r, t)"
  obtains "t = s"
  | u where "t = u\<lparr>s_transferState := TRANSFER_ERROR, app_resumed := True\<rparr>"
  | f where "write_packet X offset len buf
      (s\<lparr>fica := f, s_startOffset := offset, s_transferState := TRANSFER_ACTIVE\<rparr>) = Inr (r, t)"
  using assms by (fastforce simp: start_packet_def Let_def elim!: rbind_InrE split: if_splits prod.splits)

lemma start_packet_inv:
  assumes "s_transferState s = TRANSFER_START" and "msc_inv s"
  shows "always (\<lambda>t. msc_inv t \<and> TRANSFER_START \<le> s_transferState t) (start_packet X offset len buf s)"
proof -
  have inv: "s_dataWritten s = 0" "0 < s_fileLength s" "s_fileLength s \<le> FICA_IMG_APP_A_SIZE"
    using assms by (simp_all add: msc_inv_def)
  have "msc_inv t \<and> TRANSFER_START \<le> s_transferState t"
    if "start_packet X offset len buf s = Inr (r, t)" for r t
    using that
  proof (rule start_packet_cases, goal_cases)
    case (3 f)
    let ?u = "s\<lparr>fica := f, s_startOffset := offset, s_transferState := TRANSFER_ACTIVE\<rparr>"
    have "msc_inv t \<and> TRANSFER_ACTIVE \<le> s_transferState t"
      by (rule alwaysD [OF write_packet_inv 3(1)]) (use inv in simp_all)
    then show ?case by (simp add: less_eq_msc_vfs_state_t_def)
  qed (use assms inv in \<open>simp_all add: msc_inv_def less_eq_msc_vfs_state_t_def\<close>)
  then show ?thesis by (simp add: always_def)
qed

lemma WriteResponse_inv:
  assumes "msc_inv s"
  shows "always (\<lambda>t. msc_inv t \<and> s_transferState s \<le> s_transferState t) (MSC_VFS_WriteResponse X offset len buf s)"
proof (cases "s_transferState s")
  case TRANSFER_IDLE
  then show ?thesis
    using assms by (auto simp: MSC_VFS_WriteResponse_def always_def msc_inv_def rbind_Inr_iff
        less_eq_msc_vfs_state_t_def simp del: FICA_IMG_APP_A_SIZE_def
        dest: find_file_size split: option.splits if_splits)
next
  case TRANSFER_START
  then show ?thesis
    using start_packet_inv [OF TRANSFER_START assms, of X offset len buf] assms
    by (auto simp: MSC_VFS_WriteResponse_def always_def)
next
  case TRANSFER_ACTIVE
  then show ?thesis
    using write_packet_inv [of s X offset len buf] assms
    by (auto simp: MSC_VFS_WriteResponse_def always_def msc_inv_def)
qed (use assms in \<open>auto simp: MSC_VFS_WriteResponse_def always_def msc_inv_def\<close>)

text \<open>Host packets are the operations of the component: sector, length and buffer.\<close>

type_synonym msc_packet = "u32 \<times> u32 \<times> u8 list"

definition msc_step :: "'d flexspi_if \<Rightarrow> msc_packet \<Rightarrow> 'd msc_st \<Rightarrow> (int \<times> 'd msc_st) outcome" where
  "msc_step X p s = (case p of (offset, len, buf) \<Rightarrow> MSC_VFS_WriteResponse X offset len buf s)"

interpretation msc: kept_invariant "msc_step X" "\<lambda>s. msc_inv s \<and> lo \<le> s_transferState s" for X lo
  by unfold_locales
    (auto simp: msc_step_def split: prod.splits dest: alwaysD [OF WriteResponse_inv] intro: order_trans)

section \<open>An image in consecutive packets\<close>

text \<open>After the packets \<open>W\<close> of an image for bank \<open>t\<close>.\<close>

definition uploading :: "'d flexspi_if \<Rightarrow> int \<Rightarrow> u32 \<Rightarrow> u32 \<Rightarrow> u8 list \<Rightarrow> 'd msc_st \<Rightarrow> bool" where
  "uploading X t off0 L W s \<longleftrightarrow> drv_wf (fica s) \<and> s_newAppImgType (fica s) = t \<and>
     s_newAppImgStartAddr (fica s) = bank_addr t \<and> s_newAppImgMaxSize (fica s) = bank_size t \<and>
     s_newAppCurrLen (fica s) = of_nat (length W) \<and> length W \<le> unat (bank_size t) \<and>
     comm_get 10 (table X (board (fica s))) \<and> initialized (table X (board (fica s))) \<and>
     boot_ok (table X (board (fica s))) \<and> (W \<noteq> [] \<longrightarrow> s_fica (fica s) = table X (board (fica s))) \<and>
     peek (bflash X (board (fica s))) (unat (bank_addr t)) (length W) = W \<and>
     s_startOffset s = off0 \<and> s_fileLength s = L \<and> s_dataWritten s = of_nat (length W) \<and> s_lbaLength s = 512"

lemma bank_size_small: "unat (bank_size t) \<le> 0x680000"
  by (simp add: bank_size_def)

lemma sector_offset:
  assumes "length W mod 4096 = 0" and "length W \<le> 0x680000"
  shows "(of_nat (length W div 512) * 512 :: u32) = of_nat (length W)"
    and "(of_nat (length W) :: u32) mod 4096 = 0" and "unat (of_nat (length W) :: u32) = length W"
proof -
  have "length W mod 512 = 0" using assms(1) mod_mod_cancel [of 512 4096 "length W"] by simp
  then have "length W div 512 * 512 = length W" by auto
  then show "(of_nat (length W div 512) * 512 :: u32) = of_nat (length W)"
    by (metis of_nat_mult of_nat_numeral)
  show u: "unat (of_nat (length W) :: u32) = length W" using assms(2) by (simp add: unat_of_nat)
  then show "(of_nat (length W) :: u32) mod 4096 = 0"
    using assms(1) by (simp add: word_unat_eq_iff unat_mod)
qed

lemma packet_len: "p \<noteq> [] \<Longrightarrow> length p \<le> 0x680000 \<Longrightarrow> (of_nat (length p) :: u32) \<noteq> 0"
  by (auto simp: word_unat_eq_iff unat_of_nat)

lemma peek_split: "peek m a (j + k) = peek m a j @ peek m (a + j) k"
  by (rule nth_equalityI) (auto simp: nth_append)

context spi_live begin

lemma save_packet_ok:
  assumes up: "uploading X t off0 L W s" and t: "valid_img_type t" and al: "length W mod 4096 = 0"
    and p: "p \<noteq> []" and fit: "length W + length p \<le> unat (bank_size t)"
    and off: "offset = off0 + of_nat (length W div 512)"
  shows "\<exists>s'. save_packet X offset (of_nat (length p)) (p @ rest) s = Inr (0, s') \<and>
    uploading X t off0 L (W @ p) s' \<and> s_transferState s' = s_transferState s"
proof -
  let ?f = "fica s" and ?n = "of_nat (length p) :: u32" and ?o = "of_nat (length W) :: u32"
  have small: "length W \<le> 0x680000" "length p \<le> 0x680000" using fit bank_size_small [of t] by simp_all
  note so = sector_offset [OF al small(1)]
  have un: "unat ?n = length p" using small by (simp add: unat_of_nat)
  have o: "(offset - s_startOffset s) * s_lbaLength s = ?o"
    using up off so(1) by (simp add: uploading_def)
  note bank = bank_blocks [OF t]
  have addr: "unat (bank_addr t + ?o) = unat (bank_addr t) + length W"
    using so(3) fit bank(4) by (subst unat_add_small) simp_all
  have wf: "drv_wf ?f" and fields: "s_newAppImgStartAddr ?f = bank_addr t" "s_newAppImgMaxSize ?f = bank_size t"
    "s_newAppImgType ?f = t" "s_newAppCurrLen ?f = ?o" and nai: "comm_get 10 (table X (board ?f))"
    and old: "peek (bflash X (board ?f)) (unat (bank_addr t)) (length W) = W"
    using up by (simp_all add: uploading_def)
  let ?r = "unat (bank_addr t) + unat (bank_size t)"
  have r: "?r mod 0x10000 = 0" "?r \<le> FLASH_SIZE" using bank(2-4) by simp_all
  have am: "unat (bank_addr t + ?o) mod 0x1000 = 0"
    using addr al bank(1) mod_mod_cancel [of "0x1000" "0x10000" "unat (bank_addr t)"]
    by (simp add: mod_add_eq [symmetric])
  have fits: "unat (bank_addr t + ?o) + unat ?n \<le> ?r" using addr un fit by simp
  obtain f1 where e: "FICA_Erase_Bank X (bank_addr t + ?o) ?n ?f = Inr (0, f1)"
    using erase_from_returns [OF am fits r] by blast
  note er = erase_from_ok [OF e am fits r]
  have f1: "f1 = ?f\<lparr>board := board f1\<rparr>" by (rule er(1))
  have f1s: "drv_wf f1" "s_newAppImgStartAddr f1 = bank_addr t" "s_newAppImgMaxSize f1 = bank_size t"
    "s_newAppImgType f1 = t" "s_newAppCurrLen f1 = ?o"
    by (subst f1, use wf fields in \<open>simp add: drv_wf_def\<close>)+
  have t1: "table X (board f1) = table X (board ?f)"
    using er(2) bank(4) by (intro table_above) simp
  have b1: "bank_ok f1" using bank_blocks_ok [OF t f1s(2,3)] .
  have fit1: "unat ?o + unat ?n \<le> unat (s_newAppImgMaxSize f1)" using so(3) un fit f1s(3) by simp
  obtain f2 where a: "FICA_app_program_ext_abs X ?o (Some (p @ rest)) ?n f1 = Inr (0, f2)"
    using ext_abs_returns [OF f1s(1) b1 fit1, of "p @ rest"] nai t1 p un by auto
  have nowrap: "unat ?o + unat ?n < 4294967296" using so(3) un small by simp
  note abs = ext_abs_ok [OF a f1s(1) b1 nowrap]
  have wf2: "drv_wf f2" by (rule alwaysD [OF ext_abs_wf [OF f1s(1)] a])
  have t2: "table X (board f2) = table X (board f1)"
    using abs(1) f1s bank(4) by (intro table_above) simp
  have data: "bflash X (board f2) = burn (unat (bank_addr t) + length W) p (bflash X (board f1))"
    using abs(2) f1s so(3) un by simp
  have "peek (bflash X (board f2)) (unat (bank_addr t)) (length W) = W"
    using old er(2) by (auto simp: data addr burn_def intro!: nth_equalityI dest: arg_cong [where f = "\<lambda>xs. xs ! _"])
      (metis nth_peek)
  moreover have "peek (bflash X (board f2)) (unat (bank_addr t) + length W) (length p) = p"
    using er(3) addr un by (simp add: data peek_burn_erased)
  ultimately have img: "peek (bflash X (board f2)) (unat (bank_addr t)) (length (W @ p)) = W @ p"
    by (simp add: peek_split)
  have len: "max ?o (?o + ?n) = ?o + ?n"
    using so(3) un small by (simp add: max_def word_le_nat_alt unat_add_small)
  have "save_packet X offset ?n (p @ rest) s = Inr (0, s\<lparr>fica := f2, s_dataWritten := s_dataWritten s + ?n\<rparr>)"
    using so(2) e a by (simp add: save_packet_def Let_def o FICA_GetNewAppStartAddr_def fields)
  moreover have "uploading X t off0 L (W @ p) (s\<lparr>fica := f2, s_dataWritten := s_dataWritten s + ?n\<rparr>)"
    using up wf2 abs(2) f1s t1 t2 img fit len by (simp add: uploading_def)
  ultimately show ?thesis by auto
qed

lemma check_complete_uploading: "uploading X t off0 L W (check_complete s) = uploading X t off0 L W s"
  by (simp add: uploading_def check_complete_def)

lemma write_packet_ok:
  assumes up: "uploading X t off0 L W s" and t: "valid_img_type t" and al: "length W mod 4096 = 0"
    and p: "p \<noteq> []" and fit: "length W + length p \<le> unat (bank_size t)"
    and off: "offset = off0 + of_nat (length W div 512)" and nowrap: "unat off0 + length W div 512 < 4294967296"
    and L: "0 < L"
  shows "\<exists>s'. write_packet X offset (of_nat (length p)) (p @ rest) s = Inr (0, s') \<and>
    uploading X t off0 L (W @ p) s' \<and>
    s_transferState s' = (if unat L \<le> length (W @ p) then TRANSFER_FINAL else s_transferState s)"
proof -
  obtain s1 where s1: "save_packet X offset (of_nat (length p)) (p @ rest) s = Inr (0, s1)"
    and up1: "uploading X t off0 L (W @ p) s1" and st: "s_transferState s1 = s_transferState s"
    using save_packet_ok [OF up t al p fit off] by blast
  have small: "length W div 512 \<le> length W" "length W \<le> 0x680000"
    using fit bank_size_small [of t] by simp_all
  have "unat offset = unat off0 + length W div 512"
    unfolding off using nowrap small by (subst unat_add_small) (simp_all add: unat_of_nat)
  then have "s_startOffset s \<le> offset"
    using up by (simp add: uploading_def word_le_nat_alt)
  moreover have "unat (of_nat (length (W @ p)) :: u32) = length (W @ p)"
    using fit bank_size_small [of t] by (subst unat_of_nat) simp
  then have "L \<le> of_nat (length (W @ p)) \<longleftrightarrow> unat L \<le> length (W @ p)" by (simp add: word_le_nat_alt)
  ultimately show ?thesis
    using s1 up1 st L check_complete_uploading
    by (auto simp: write_packet_def uploading_def check_complete_def)
qed

end

text \<open>The packets of an image, cut at sector boundaries except for the end, at consecutive sectors of the volume.\<close>

fun packet_ops :: "u32 \<Rightarrow> u8 list list \<Rightarrow> msc_packet list" where
  "packet_ops off [] = []"
| "packet_ops off (p # ps) = (off, of_nat (length p), p) # packet_ops (off + of_nat (length p div 512)) ps"

text \<open>The reset handler of an image linked for bank \<open>t\<close>.\<close>

definition linked_for :: "int \<Rightarrow> u8 list \<Rightarrow> bool" where
  "linked_for t p \<longleftrightarrow> 8 \<le> length p \<and> FLASH_BYTE4_UPPER_NIBBLE AND word_at 4 p = FLEXSPI_AMBA_BASE \<and>
     FLASH_BYTE3 AND word_at 4 p = bank_addr t"

context spi_live begin

lemma upload_rest:
  assumes "uploading X t off0 L W s" and "s_transferState s = TRANSFER_ACTIVE" and "valid_img_type t"
    and "length W mod 4096 = 0" and "0 < L" and "ps \<noteq> []" and "[] \<notin> set ps"
    and "\<forall>p\<in>set (butlast ps). length p mod 4096 = 0"
    and "length W + length (concat (butlast ps)) < unat L" and "unat L \<le> length W + length (concat ps)"
    and "length W + length (concat ps) \<le> unat (bank_size t)"
    and "unat off0 + unat (bank_size t) < 4294967296"
    and "off = off0 + of_nat (length W div 512)"
  shows "\<exists>rs s'. run_ops (msc_step X) (packet_ops off ps) s = Inr (rs, s') \<and> set rs \<subseteq> {0} \<and>
    uploading X t off0 L (W @ concat ps) s' \<and> s_transferState s' = TRANSFER_FINAL"
  using assms
proof (induction ps arbitrary: W s off)
  case (Cons p ps)
  have ne: "p \<noteq> []" and fit: "length W + length p \<le> unat (bank_size t)"
    using Cons.prems(7,11) by auto
  have "length W div 512 \<le> length W" by simp
  then have nw: "unat off0 + length W div 512 < 4294967296" using Cons.prems(12) fit by linarith
  have small: "length p \<le> 0x680000" using fit bank_size_small [of t] by simp
  obtain s1 where w: "write_packet X off (of_nat (length p)) (p @ []) s = Inr (0, s1)"
    and up: "uploading X t off0 L (W @ p) s1"
    and st: "s_transferState s1 = (if unat L \<le> length (W @ p) then TRANSFER_FINAL else s_transferState s)"
    using write_packet_ok [OF Cons.prems(1,3,4) ne fit Cons.prems(13) nw Cons.prems(5), of "[]"] by blast
  have step: "msc_step X (off, of_nat (length p), p) s = Inr (0, s1)"
    using w Cons.prems(2) packet_len [OF ne small] by (simp add: msc_step_def MSC_VFS_WriteResponse_def)
  show ?case
  proof (cases "ps = []")
    case True
    then show ?thesis using step up st Cons.prems(10) by simp
  next
    case False
    then have pal: "length p mod 4096 = 0" and rest: "length (W @ p) + length (concat (butlast ps)) < unat L"
      using Cons.prems(8,9) by simp_all
    have act: "s_transferState s1 = TRANSFER_ACTIVE" using st Cons.prems(2) rest by simp
    have p512: "length p mod 512 = 0" "length W mod 512 = 0"
      using pal Cons.prems(4) mod_mod_cancel [of 512 4096 "length p"] mod_mod_cancel [of 512 4096 "length W"] by simp_all
    then have "length (W @ p) div 512 = length W div 512 + length p div 512"
      by (simp add: div_plus_div_distrib_dvd_right mod_eq_0_iff_dvd)
    then have off: "off + of_nat (length p div 512) = off0 + of_nat (length (W @ p) div 512)"
      using Cons.prems(13) by simp
    have "\<exists>rs s'. run_ops (msc_step X) (packet_ops (off + of_nat (length p div 512)) ps) s1 = Inr (rs, s') \<and>
        set rs \<subseteq> {0} \<and> uploading X t off0 L ((W @ p) @ concat ps) s' \<and> s_transferState s' = TRANSFER_FINAL"
      by (rule Cons.IH [OF up act Cons.prems(3) _ Cons.prems(5) False _ _ rest _ _ Cons.prems(12) off])
        (use Cons.prems False pal in \<open>auto simp: mod_add_eq [symmetric]\<close>)
    then show ?thesis using step by auto
  qed
qed simp

end

context spi_genuine begin

lemma start_packet_opens:
  assumes "drv_wf (fica s) \<and> boot_ok (table X (board (fica s)))"
    and "s_transferState s = TRANSFER_START" and "s_dataWritten s = 0" and "s_lbaLength s = 512" and "t = 1 \<or> t = 2" and "linked_for t p"
  shows "\<exists>f. uploading X t off (s_fileLength s) []
      (s\<lparr>fica := f, s_startOffset := off, s_transferState := TRANSFER_ACTIVE\<rparr>) \<and>
    start_packet X off len p s = write_packet X off len p
      (s\<lparr>fica := f, s_startOffset := off, s_transferState := TRANSFER_ACTIVE\<rparr>)"
proof -
  have v: "valid_img_type t" using assms(5) by (auto simp: valid_cases)
  obtain f where i: "FICA_app_program_ext_init X t False (fica s) = Inr (0, f)"
    using ext_init_returns [OF _ v] assms(1) by blast
  note init = ext_init_ok [OF i conjunct1 [OF assms(1)]]
  have "uploading X t off (s_fileLength s) []
      (s\<lparr>fica := f, s_startOffset := off, s_transferState := TRANSFER_ACTIVE\<rparr>)"
    using init(2-7) init(10) always_genuine assms(1,3,4) by (simp add: uploading_def peek_def)
  moreover have lk: "8 \<le> length p" "FLASH_BYTE4_UPPER_NIBBLE AND word_at 4 p = FLEXSPI_AMBA_BASE"
    "FLASH_BYTE3 AND word_at 4 p = bank_addr t"
    using assms(6) by (simp_all add: linked_for_def)
  moreover have ty: "FICA_GetImgTypeFromAddr (bank_addr t) (-1) = (0, t)"
    using assms(5) by (auto simp: FICA_GetImgTypeFromAddr_def bank_addr_def)
  moreover have "word_at 4 p AND FLASH_BYTE3 = bank_addr t"
    using lk(3) by (simp add: and.commute)
  moreover have "bank_addr t = FICA_IMG_APP_A_ADDR \<or> bank_addr t = FICA_IMG_APP_B_ADDR"
    using assms(5) by (auto simp: bank_addr_def)
  ultimately show ?thesis
    using i v by (auto simp: start_packet_def Let_def intro!: exI [of _ f])
qed

lemma upload_ok:
  assumes "drv_wf (fica s) \<and> boot_ok (table X (board (fica s)))"
    and "s_transferState s = TRANSFER_START" and "s_dataWritten s = 0" and "s_lbaLength s = 512" and "0 < s_fileLength s" and "t = 1 \<or> t = 2" and "linked_for t p"
    and "[] \<notin> set ps" and "\<forall>q\<in>set (butlast (p # ps)). length q mod 4096 = 0"
    and "length (concat (butlast (p # ps))) < unat (s_fileLength s)"
    and "unat (s_fileLength s) \<le> length (concat (p # ps))"
    and "length (concat (p # ps)) \<le> unat (bank_size t)"
    and "unat off + unat (bank_size t) < 4294967296"
  shows "\<exists>rs s'. run_ops (msc_step X) (packet_ops off (p # ps)) s = Inr (rs, s') \<and> set rs \<subseteq> {0} \<and>
    uploading X t off (s_fileLength s) (concat (p # ps)) s' \<and> s_transferState s' = TRANSFER_FINAL"
proof -
  obtain f where opened: "uploading X t off (s_fileLength s) []
      (s\<lparr>fica := f, s_startOffset := off, s_transferState := TRANSFER_ACTIVE\<rparr>)"
    "start_packet X off (of_nat (length p)) p s = write_packet X off (of_nat (length p)) p
      (s\<lparr>fica := f, s_startOffset := off, s_transferState := TRANSFER_ACTIVE\<rparr>)"
    using start_packet_opens [OF assms(1-4,6,7), of off "of_nat (length p)"] by blast
  let ?u = "s\<lparr>fica := f, s_startOffset := off, s_transferState := TRANSFER_ACTIVE\<rparr>"
  note up = opened(1) and st = opened(2)
  have v: "valid_img_type t" using assms(6) by (auto simp: valid_cases)
  have ne: "p \<noteq> []" using assms(7) by (auto simp: linked_for_def)
  have "\<exists>rs s'. run_ops (msc_step X) (packet_ops off (p # ps)) ?u = Inr (rs, s') \<and> set rs \<subseteq> {0} \<and>
    uploading X t off (s_fileLength s) ([] @ concat (p # ps)) s' \<and> s_transferState s' = TRANSFER_FINAL"
    by (rule upload_rest [OF up _ v]) (use assms(5,8-13) ne in \<open>auto simp del: butlast.simps\<close>)
  moreover have "msc_step X (off, of_nat (length p), p) s = msc_step X (off, of_nat (length p), p) ?u"
    using st assms(2,12) packet_len [OF ne] bank_size_small [of t] by (simp add: msc_step_def MSC_VFS_WriteResponse_def)
  ultimately show ?thesis by simp
qed

end

end
