(* ===== verification/Boot.thy ===== *)
theory Boot
  imports Fica_Update
begin

text \<open>
  The hand-over of the bootloader, \<open>source/bootloader.c\<close>: choosing the application to start
  from the FICA table, jumping back into the bootloader, and the jump itself. A jump does not
  return; its model is the state of the processor it leaves: the vector table register, the entry
  point and the stack pointer. The vector table in use at the call is an argument.
\<close>

record boot_jump =
  VTOR :: u32
  appEntry :: u32
  stack_top :: u32

definition TEMP_STACK_TOP :: u32 where "TEMP_STACK_TOP = 0x20208000"

definition SET_THUMB_ADDRESS :: "u32 \<Rightarrow> u32" where "SET_THUMB_ADDRESS x = x OR 1"

definition JumpToAddr :: "'d flexspi_if \<Rightarrow> u32 \<Rightarrow> 'd fica_st \<Rightarrow> boot_jump" where
  "JumpToAddr X appaddr s =
    (let appaddr = appaddr + FLEXSPI_AMBA_BASE
     in \<lparr>VTOR = appaddr,
         appEntry = SET_THUMB_ADDRESS (de32 (amba_read X (bd_dev (board s)) (unat (appaddr + 4)) 4)),
         stack_top = TEMP_STACK_TOP\<rparr>)"

definition jumpToMainAppTask :: "'d flexspi_if \<Rightarrow> u32 \<Rightarrow> 'd fica_st \<Rightarrow> (boot_jump \<times> 'd fica_st) outcome" where
  "jumpToMainAppTask X vtor s =
    rbind (FICA_GetCurAppStartType X (Some FICA_IMG_TYPE_NONE) s) (\<lambda>((status, pimgtype), s).
    let imgtype = the pimgtype;
        (status, appaddr) = (if SLN_FLASH_NO_ERROR = status
           then (case FICA_get_app_img_start_addr imgtype (Some 0) of (st, a) \<Rightarrow> (st, the a)) else (status, 0))
    in rbind (if SLN_FLASH_NO_ERROR = status then
           rbind (FICA_GetCurAppStartType X (Some FICA_IMG_TYPE_NONE) s) (\<lambda>((imgStatus, tmpImageType), s).
           rbind (if the tmpImageType \<noteq> imgtype \<and> SLN_FLASH_NO_ERROR = imgStatus
                  then FICA_SetCurAppStartType X imgtype s else Inr (status, s)) (\<lambda>(status, s).
           case FICA_get_app_img_start_addr imgtype (Some appaddr) of (st, a) \<Rightarrow> Inr ((st, the a), s)))
         else Inr ((status, appaddr), s)) (\<lambda>((status, appaddr), s).
       let appaddr = (if SLN_FLASH_NO_ERROR \<noteq> status then vtor - FLEXSPI_AMBA_BASE else appaddr)
       in Inr (JumpToAddr X appaddr s, s)))"

definition ReRunBootloader :: "'d flexspi_if \<Rightarrow> u32 \<Rightarrow> 'd fica_st \<Rightarrow> (boot_jump \<times> 'd fica_st) outcome" where
  "ReRunBootloader X vtor s =
    rbind (FICA_GetCurBootStartAddr X 0 s) (\<lambda>((status, appaddr), s).
    let appaddr = (if SLN_FLASH_NO_ERROR \<noteq> status then vtor else appaddr)
    in Inr (JumpToAddr X appaddr s, s))"

section \<open>The application that is started\<close>

lemma JumpToAddr_bank:
  assumes "valid_img_type t"
  shows "JumpToAddr X (bank_addr t) s = \<lparr>VTOR = FLEXSPI_AMBA_BASE + bank_addr t,
    appEntry = de32 (peek (bflash X (board s)) (unat (bank_addr t) + 4) 4) OR 1, stack_top = TEMP_STACK_TOP\<rparr>"
proof -
  have a: "unat (bank_addr t + 4) = unat (bank_addr t) + 4"
    using bank_blocks(4) [OF assms] by (subst unat_add_small) simp_all
  then have "unat (bank_addr t + 4) + 4 \<le> FLASH_SIZE"
    using bank_blocks [OF assms] assms by (auto simp: bank_addr_def valid_cases)
  from amba_read_flash [OF this, of X "bd_dev (board s)"] show ?thesis
    using a by (simp add: JumpToAddr_def Let_def SET_THUMB_ADDRESS_def bflash_def add.assoc add.commute)
qed

context spi_genuine begin

lemma jump_to_app:
  assumes "fica_wf (s_fica s)" and "initialized (table X (board s))"
    and "sint (currType (header (table X (board s)))) = t" and "t = 1 \<or> t = 2"
  shows "\<exists>s'. jumpToMainAppTask X vtor s = Inr (JumpToAddr X (bank_addr t) s', s') \<and>
    bflash X (board s') = bflash X (board s)"
proof -
  have v: "valid_img_type t" using assms(4) by (auto simp: valid_cases)
  have cur: "\<exists>s'. FICA_GetCurAppStartType X (Some (-1)) u = Inr ((0, Some t), s') \<and>
      bflash X (board s') = bflash X (board u) \<and> fica_wf (s_fica s')"
    if "fica_wf (s_fica u)" and "bflash X (board u) = bflash X (board s)" for u
  proof -
    have tu: "table X (board u) = table X (board s)" by (rule table_cong [OF that(2)])
    note wfu = that(1)
    obtain u' where "FICA_initialize X u = Inr (0, u')" and "bflash X (board u') = bflash X (board u)"
      and "s_fica u' = table X (board u)"
      using initialize_valid [OF wfu always_genuine] assms(2) tu by auto
    then show ?thesis
      using assms(3,4) tu by (auto simp: FICA_GetCurAppStartType_def Let_def table_wf)
  qed
  obtain s1 where c1: "FICA_GetCurAppStartType X (Some (-1)) s = Inr ((0, Some t), s1)"
    and b1: "bflash X (board s1) = bflash X (board s)" and w1: "fica_wf (s_fica s1)"
    using cur [OF assms(1) refl] by blast
  obtain s2 where "FICA_GetCurAppStartType X (Some (-1)) s1 = Inr ((0, Some t), s2)"
    and "bflash X (board s2) = bflash X (board s1)"
    using cur [OF w1 b1] by blast
  then show ?thesis
    using c1 b1 by (simp add: jumpToMainAppTask_def start_addr_eq [OF v])
qed

text \<open>A table without a valid application falls back to application A, and is corrected.\<close>

lemma jump_to_default:
  assumes "fica_wf (s_fica s)" and "\<not> (initialized (table X (board s)) \<and>
      sint (currType (header (table X (board s)))) \<in> {1, 2})"
  shows "\<exists>s'. jumpToMainAppTask X vtor s = Inr (JumpToAddr X (bank_addr 1) s', s') \<and>
    initialized (table X (board s')) \<and> sint (currType (header (table X (board s')))) = 1"
proof -
  obtain t s1 where c1: "FICA_GetCurAppStartType X (Some (-1)) s = Inr ((0, Some t), s1)"
    using cur_app_returns [OF assms(1)] by blast
  obtain u where i: "FICA_initialize X s = Inr (0, u)" using initialize_returns [OF assms(1)] by blast
  note iu = initialize_ok [OF i assms(1)]
  have wu: "fica_wf (s_fica u)" using iu table_wf by metis
  define y where "y = sint (currType (header (s_fica u)))"
  let ?w = "upd_header (\<lambda>h. h\<lparr>currType := word_of_int 1\<rparr>) u"
  have ww: "fica_wf (s_fica ?w)" using wu by simp
  have c: "t = 1 \<and> s_fica s1 = table X (board s1) \<and> initialized (table X (board s1)) \<and>
      sint (currType (header (table X (board s1)))) = 1"
  proof (cases "y \<in> {1, 2}")
    case True
    then have "s1 = u" and "t = y" using c1 i by (auto simp: FICA_GetCurAppStartType_def Let_def y_def)
    moreover have "table X (board u) = fica_default"
      using iu assms(2) True always_genuine by (auto simp: y_def split: if_splits)
    moreover have "y = 1" using calculation iu by (simp add: y_def fica_default_def)
    ultimately show ?thesis using iu by (simp add: y_def)
  next
    case False
    then have w: "FICA_write_db X ?w = Inr (0, s1)" and "t = 1"
      using c1 i by (auto simp: FICA_GetCurAppStartType_def Let_def y_def elim!: rbind_InrE)
    moreover have "initialized (table X (board u))" using iu always_genuine by (auto split: if_splits)
    ultimately show ?thesis
      using write_db_ok [OF w ww] iu by (simp add: upd_header_def initialized_def)
  qed
  have w1: "fica_wf (s_fica s1)" using c table_wf by metis
  obtain s2 where c2: "FICA_GetCurAppStartType X (Some (-1)) s1 = Inr ((0, Some 1), s2)"
    and b2: "bflash X (board s2) = bflash X (board s1)"
  proof -
    obtain u' where "FICA_initialize X s1 = Inr (0, u')" and "bflash X (board u') = bflash X (board s1)"
      and "s_fica u' = table X (board s1)"
      using initialize_valid [OF w1 always_genuine] c by auto
    then show ?thesis using that c by (auto simp: FICA_GetCurAppStartType_def Let_def)
  qed
  have v: "valid_img_type 1" by (simp add: valid_cases)
  have "jumpToMainAppTask X vtor s = Inr (JumpToAddr X (bank_addr 1) s2, s2)"
    using c1 c2 c by (simp add: jumpToMainAppTask_def start_addr_eq [OF v])
  moreover have "table X (board s2) = table X (board s1)" by (rule table_cong [OF b2])
  ultimately show ?thesis using c by auto
qed

end

end
