(* ===== verification/Usb_Disk.thy ===== *)
theory Usb_Disk
  imports Msc_Vfs Boot
begin

text \<open>
  The USB disk of the bootloader, \<open>source/disk.c\<close>, and the choice between update and start in
  \<open>BootloaderMain\<close>: the mass-storage and device callbacks of the USB stack, the task that
  finalises a transfer, and the check of the update button. The stack is outside the model: its
  calls are the operations, the arguments it passes their parameters.
\<close>

section \<open>State\<close>

definition LENGTH_OF_EACH_LBA :: u32 where [simp]: "LENGTH_OF_EACH_LBA = 512"
definition TOTAL_LOGICAL_ADDRESS_BLOCKS_NORMAL :: u32 where "TOTAL_LOGICAL_ADDRESS_BLOCKS_NORMAL = 0x5000"
definition TOTAL_PHYSICAL_ADDRESS_BLOCKS_NORMAL :: u32 where "TOTAL_PHYSICAL_ADDRESS_BLOCKS_NORMAL = 0x100"
definition DISK_LOGICAL_SIZE_NORMAL :: u32 where
  "DISK_LOGICAL_SIZE_NORMAL = TOTAL_LOGICAL_ADDRESS_BLOCKS_NORMAL * LENGTH_OF_EACH_LBA"
definition DISK_PHYSICAL_SIZE_NORMAL :: u32 where
  "DISK_PHYSICAL_SIZE_NORMAL = TOTAL_PHYSICAL_ADDRESS_BLOCKS_NORMAL * LENGTH_OF_EACH_LBA"
definition LOGICAL_UNIT_SUPPORTED :: u32 where "LOGICAL_UNIT_SUPPORTED = 1"
definition USB_MSC_INTERFACE_COUNT :: u8 where [simp]: "USB_MSC_INTERFACE_COUNT = 1"
definition USB_INTERFACE_COUNT :: u8 where [simp]: "USB_INTERFACE_COUNT = 1"
definition USB_MSC_CONFIGURE_INDEX :: u8 where [simp]: "USB_MSC_CONFIGURE_INDEX = 1"

text \<open>The disk buffer and the device state of \<open>g_msc\<close>, with the transfer state of the volume.\<close>

record 'd usb_st =
  vfs :: "'d msc_st"
  s_StorageDisk :: "u8 list"
  currentConfiguration :: u8
  currentInterfaceAlternateSetting :: "u8 list"
  usb_speed :: u8
  attach :: u8

definition kStatus_USB_Success :: int where [simp]: "kStatus_USB_Success = 0"
definition kStatus_USB_Error :: int where [simp]: "kStatus_USB_Error = 1"
definition kStatus_USB_InvalidRequest :: int where [simp]: "kStatus_USB_InvalidRequest = 5"

section \<open>The mass-storage callback\<close>

datatype msc_event =
    kUSB_DeviceMscEventReadResponse
  | kUSB_DeviceMscEventWriteResponse u32 u32 nat
  | kUSB_DeviceMscEventWriteRequest u32
  | kUSB_DeviceMscEventReadRequest u32
  | kUSB_DeviceMscEventGetLbaInformation
  | kUSB_DeviceMscEventTestUnitReady
  | kUSB_DeviceMscEventInquiry
  | kUSB_DeviceMscEventModeSense
  | kUSB_DeviceMscEventModeSelect
  | kUSB_DeviceMscEventModeSelectResponse
  | kUSB_DeviceMscEventFormatComplete
  | kUSB_DeviceMscEventRemovalRequest
  | kUSB_DeviceMscEventOther

datatype msc_reply = No_Reply | Disk_Buffer nat | Lba_Information "u32 list" | Ufi_Data "u8 list"

definition g_InquiryInfo :: "u8 list" where
  "g_InquiryInfo = [0x00, 0x80, 0x04, 0x02, 0x20, 0x00, 0x00, 0x00,
     0x4E, 0x58, 0x50, 0x20, 0x53, 0x45, 0x4D, 0x49,
     0x4E, 0x58, 0x50, 0x20, 0x4D, 0x41, 0x53, 0x53, 0x20, 0x53, 0x54, 0x4F, 0x52, 0x41, 0x47, 0x45,
     0x30, 0x30, 0x30, 0x31]"

definition g_ModeParametersHeader :: "u8 list" where
  "g_ModeParametersHeader = [0, 0, 0, 0, 0, 0, 0, 0]"

text \<open>A request names a sector; its buffer is one of the first 32 sectors of the disk buffer.\<close>

definition request_buffer :: "u32 \<Rightarrow> nat" where
  "request_buffer offset = unat ((offset mod 0x20) * LENGTH_OF_EACH_LBA)"

fun USB_DeviceMscCallback ::
    "'d flexspi_if \<Rightarrow> msc_event \<Rightarrow> 'd usb_st \<Rightarrow> ((int \<times> msc_reply) \<times> 'd usb_st) outcome" where
  "USB_DeviceMscCallback X (kUSB_DeviceMscEventWriteResponse offset len pos) s =
     rbind (MSC_VFS_WriteResponse X offset len (drop pos (s_StorageDisk s)) (vfs s)) (\<lambda>(error, m).
     Inr ((error, No_Reply), s\<lparr>vfs := m\<rparr>))"
| "USB_DeviceMscCallback X (kUSB_DeviceMscEventWriteRequest offset) s =
     Inr ((kStatus_USB_Success, Disk_Buffer (request_buffer offset)), s)"
| "USB_DeviceMscCallback X (kUSB_DeviceMscEventReadRequest offset) s =
     Inr ((kStatus_USB_Success, Disk_Buffer (request_buffer offset)), s)"
| "USB_DeviceMscCallback X kUSB_DeviceMscEventGetLbaInformation s =
     Inr ((kStatus_USB_Success, Lba_Information [LOGICAL_UNIT_SUPPORTED, LENGTH_OF_EACH_LBA,
       TOTAL_LOGICAL_ADDRESS_BLOCKS_NORMAL, DISK_LOGICAL_SIZE_NORMAL, DISK_LOGICAL_SIZE_NORMAL]), s)"
| "USB_DeviceMscCallback X kUSB_DeviceMscEventInquiry s = Inr ((kStatus_USB_Success, Ufi_Data g_InquiryInfo), s)"
| "USB_DeviceMscCallback X kUSB_DeviceMscEventModeSense s =
     Inr ((kStatus_USB_Success, Ufi_Data g_ModeParametersHeader), s)"
| "USB_DeviceMscCallback X event s = Inr ((kStatus_USB_Success, No_Reply), s)"

section \<open>The device callback\<close>

text \<open>
  The events of the USB specification. The value behind the parameter pointer is an option where the
  code checks the pointer. \<open>BusReset\<close> has the speed the controller reports, the descriptor
  events the result of the descriptor function.
\<close>

datatype usb_event =
    kUSB_DeviceEventBusReset "u8 option"
  | kUSB_DeviceEventSetConfiguration u8
  | kUSB_DeviceEventSetInterface u16
  | kUSB_DeviceEventGetConfiguration "u8 option"
  | kUSB_DeviceEventGetInterface "u16 option"
  | kUSB_DeviceEventGetDeviceDescriptor "int option"
  | kUSB_DeviceEventGetConfigurationDescriptor "int option"
  | kUSB_DeviceEventGetDeviceQualifierDescriptor "int option"
  | kUSB_DeviceEventGetStringDescriptor "int option"
  | kUSB_DeviceEventOther

definition descriptor_status :: "int option \<Rightarrow> int" where
  "descriptor_status r = (case r of None \<Rightarrow> kStatus_USB_Error | Some e \<Rightarrow> e)"

fun USB_DeviceCallback :: "usb_event \<Rightarrow> 'd usb_st \<Rightarrow> ((int \<times> u16 option) \<times> 'd usb_st) outcome" where
  "USB_DeviceCallback (kUSB_DeviceEventBusReset reported) s =
     (let s = s\<lparr>currentConfiguration := 0, attach := 0\<rparr> in
      Inr ((kStatus_USB_Success, None), case reported of None \<Rightarrow> s | Some v \<Rightarrow> s\<lparr>usb_speed := v\<rparr>))"
| "USB_DeviceCallback (kUSB_DeviceEventSetConfiguration temp8) s =
     (if temp8 = 0 then Inr ((kStatus_USB_Error, None), s\<lparr>currentConfiguration := 0, attach := 0\<rparr>)
      else if temp8 = USB_MSC_CONFIGURE_INDEX
      then Inr ((kStatus_USB_Error, None), s\<lparr>currentConfiguration := temp8, attach := 1\<rparr>)
      else Inr ((kStatus_USB_InvalidRequest, None), s))"
| "USB_DeviceCallback (kUSB_DeviceEventSetInterface temp16) s =
     (let iface = (ucast (drop_bit 8 (temp16 AND 0xFF00)) :: u8); alt = (ucast (temp16 AND 0x00FF) :: u8) in
      Inr ((kStatus_USB_Error, None),
        if attach s \<noteq> 0 \<and> iface < USB_MSC_INTERFACE_COUNT
        then s\<lparr>currentInterfaceAlternateSetting := (currentInterfaceAlternateSetting s)[unat iface := alt]\<rparr>
        else s))"
| "USB_DeviceCallback (kUSB_DeviceEventGetConfiguration param) s =
     (case param of None \<Rightarrow> Inr ((kStatus_USB_Error, None), s)
      | Some _ \<Rightarrow> Inr ((kStatus_USB_Success, Some (ucast (currentConfiguration s))), s))"
| "USB_DeviceCallback (kUSB_DeviceEventGetInterface param) s =
     (case param of None \<Rightarrow> Inr ((kStatus_USB_Error, None), s)
      | Some temp16 \<Rightarrow>
        let iface = (ucast (drop_bit 8 (temp16 AND 0xFF00)) :: u8) in
        if iface < USB_INTERFACE_COUNT then
          if unat iface < length (currentInterfaceAlternateSetting s) then
            Inr ((kStatus_USB_Success,
              Some ((temp16 AND 0xFF00) OR ucast (currentInterfaceAlternateSetting s ! unat iface))), s)
          else Inl MemFault
        else Inr ((kStatus_USB_InvalidRequest, None), s))"
| "USB_DeviceCallback (kUSB_DeviceEventGetDeviceDescriptor r) s = Inr ((descriptor_status r, None), s)"
| "USB_DeviceCallback (kUSB_DeviceEventGetConfigurationDescriptor r) s = Inr ((descriptor_status r, None), s)"
| "USB_DeviceCallback (kUSB_DeviceEventGetDeviceQualifierDescriptor r) s = Inr ((descriptor_status r, None), s)"
| "USB_DeviceCallback (kUSB_DeviceEventGetStringDescriptor r) s = Inr ((descriptor_status r, None), s)"
| "USB_DeviceCallback kUSB_DeviceEventOther s = Inr ((kStatus_USB_Error, None), s)"

definition USB_DeviceApplicationInit :: "'d usb_st \<Rightarrow> 'd usb_st outcome" where
  "USB_DeviceApplicationInit s =
    (let s = s\<lparr>usb_speed := 0, attach := 0\<rparr> in
     rbind (MSC_VFS_Init (Some (s_StorageDisk s)) True LENGTH_OF_EACH_LBA (vfs s)) (\<lambda>((_, disk), m).
     Inr (s\<lparr>vfs := m, s_StorageDisk := the disk\<rparr>)))"

section \<open>The end of a transfer and the start of the bootloader\<close>

text \<open>The result is whether the error LED blinks, and the jump back into the bootloader.\<close>

definition USB_Transfer_Finalize ::
    "'d flexspi_if \<Rightarrow> u32 \<Rightarrow> 'd msc_st \<Rightarrow> ((bool \<times> boot_jump) \<times> 'd msc_st) outcome" where
  "USB_Transfer_Finalize X vtor s =
    (let transferState = MSC_VFS_GetTransferState s in
     rbind (if TRANSFER_FINAL = transferState then
         rbind (FICA_app_program_ext_finalize X (fica s)) (\<lambda>(status, f).
         rbind (if SLN_FLASH_NO_ERROR = status then FICA_app_program_ext_set_reset_vector X f
                else Inr (status, f)) (\<lambda>(status, f).
         let s = s\<lparr>fica := f\<rparr> in
         Inr (if SLN_FLASH_ERROR = status then MSC_VFS_SetTransferState TRANSFER_ERROR s else s)))
       else Inr s) (\<lambda>s.
     rbind (ReRunBootloader X vtor (fica s)) (\<lambda>(j, f).
     Inr ((TRANSFER_ERROR = transferState, j), s\<lparr>fica := f\<rparr>))))"

definition CheckForMSDMode :: "'d flexspi_if \<Rightarrow> bool \<Rightarrow> 'd fica_st \<Rightarrow> (bool \<times> 'd fica_st) outcome" where
  "CheckForMSDMode X pressed s =
    (if pressed then rbind (FICA_set_usb_mode X s) (\<lambda>(_, s). Inr (True, s)) else Inr (False, s))"

definition SLN_CheckForUpdate :: "'d flexspi_if \<Rightarrow> bool \<Rightarrow> 'd fica_st \<Rightarrow> (bool \<times> 'd fica_st) outcome" where
  "SLN_CheckForUpdate X pressed s = CheckForMSDMode X pressed s"

text \<open>None: the task is suspended and the USB task has taken over.\<close>

definition BootloaderMain ::
    "'d flexspi_if \<Rightarrow> bool \<Rightarrow> u32 \<Rightarrow> 'd fica_st \<Rightarrow> (boot_jump option \<times> 'd fica_st) outcome" where
  "BootloaderMain X pressed vtor s =
    rbind (SLN_CheckForUpdate X pressed s) (\<lambda>(update, s).
    if update then Inr (None, s)
    else rbind (jumpToMainAppTask X vtor s) (\<lambda>(j, s). Inr (Some j, s)))"

section \<open>Device state\<close>

definition usb_inv :: "'d usb_st \<Rightarrow> bool" where
  "usb_inv s \<longleftrightarrow> length (currentInterfaceAlternateSetting s) = 1 \<and>
     (attach s = 1 \<and> currentConfiguration s = USB_MSC_CONFIGURE_INDEX \<or>
      attach s = 0 \<and> currentConfiguration s = 0)"

text \<open>The device callback always returns and keeps the state consistent.\<close>

interpretation usb: live_invariant USB_DeviceCallback usb_inv
proof (unfold_locales, goal_cases)
  case (1 s p r s')
  then show ?case by (cases p) (auto simp: usb_inv_def Let_def split: if_splits option.splits)
next
  case (2 s p)
  then show ?case
    by (cases p) (auto simp: usb_inv_def Let_def word_less_nat_alt split: option.splits)
qed

lemma request_buffer_bound: "request_buffer offset \<le> 31 * 512"
proof -
  have "unat (offset mod 0x20) \<le> 31" by (simp add: unat_mod less_Suc_eq_le [symmetric])
  then show ?thesis
    using unat_mult_lem [of "offset mod 0x20" 512] by (simp add: request_buffer_def)
qed

end
