(* ===== verification/Update_Props.thy ===== *)
theory Update_Props
  imports Flash_Props Usb_Disk
begin

text \<open>
  The properties of the bootloader's components above the FICA driver: the update over USB, the
  states of a transfer, the choice of the image that is started, and the USB device state.
\<close>

lemma word_at_take:
  assumes "off + 4 \<le> n"
  shows "word_at off (take n xs) = word_at off xs"
proof -
  have "take 4 (drop off (take n xs)) = take 4 (drop off xs)"
    using assms by (simp add: drop_take min_def)
  then show ?thesis unfolding word_at_def by (metis de32_take)
qed

lemma word_at_append: "off + 4 \<le> length xs \<Longrightarrow> word_at off (xs @ ys) = word_at off xs"
  using word_at_take [of off "length xs" "xs @ ys"] by simp

lemma de32_peek:
  assumes "peek m a k = img" and "off + 4 \<le> k"
  shows "de32 (peek m (a + off) 4) = word_at off img"
proof -
  have "peek m (a + off) 4 = take 4 (drop off img)"
    using assms by (intro nth_equalityI) (auto simp: add.assoc)
  then show ?thesis by (simp add: word_at_def de32_take)
qed

context spi_device begin

lemma rerun_ok:
  assumes "fica_wf (s_fica s)" and "boot_ok (table X (board s))"
  shows "\<exists>j. ReRunBootloader X v s = Inr (j, s\<lparr>s_fica := table X (board s)\<rparr>)"
  using assms table_wf [of X "board s"]
  by (simp add: ReRunBootloader_def FICA_GetCurBootStartAddr_def load_fica_eq Let_def boot_ok_def fica_wf_def)

end

context spi_genuine begin

lemma finalize_boots:
  assumes up: "uploading X t off L img s" and "s_transferState s = TRANSFER_FINAL" and t: "t = 1 \<or> t = 2"
    and img: "8 \<le> length img"
  shows "\<exists>j s'. USB_Transfer_Finalize X v s = Inr ((False, j), s') \<and>
    (\<exists>k f. jumpToMainAppTask X v' (fica s') = Inr (k, f) \<and> VTOR k = FLEXSPI_AMBA_BASE + bank_addr t \<and>
      appEntry k = word_at 4 img OR 1 \<and>
      peek (bflash X (board f)) (unat (bank_addr t)) (length img) = img)"
proof -
  have v: "valid_img_type t" using t by (auto simp: valid_cases)
  let ?f = "fica s"
  have f: "fica_wf (s_fica ?f)" "s_fica ?f = table X (board ?f)" "initialized (table X (board ?f))"
    "s_newAppImgType ?f = t" "boot_ok (table X (board ?f))" "length img \<le> unat (bank_size t)"
    "peek (bflash X (board ?f)) (unat (bank_addr t)) (length img) = img"
    using up img by (auto simp: uploading_def drv_wf_def)
  obtain s3 s4 where a: "FICA_app_program_ext_finalize X ?f = Inr (0, s3)"
    "FICA_app_program_ext_set_reset_vector X s3 = Inr (0, s4)"
    and keep: "\<forall>n. outside_table n \<longrightarrow> bflash X (board s4) n = bflash X (board ?f) n"
    and s4: "fica_wf (s_fica s4)" "initialized (table X (board s4))" "boot_ok (table X (board s4))"
      "sint (currType (header (table X (board s4)))) = t"
    using install_ok [OF f(1-4) t] f(5) by blast
  obtain j where r: "ReRunBootloader X v s4 = Inr (j, s4\<lparr>s_fica := table X (board s4)\<rparr>)"
    using rerun_ok [OF s4(1,3)] by blast
  let ?s5 = "s4\<lparr>s_fica := table X (board s4)\<rparr>"
  have fin: "USB_Transfer_Finalize X v s = Inr ((False, j), s\<lparr>fica := ?s5\<rparr>)"
    using a r assms(2) by (simp add: USB_Transfer_Finalize_def MSC_VFS_GetTransferState_def)
  have w5: "fica_wf (s_fica ?s5)" by (simp add: table_wf)
  obtain g where g: "jumpToMainAppTask X v' ?s5 = Inr (JumpToAddr X (bank_addr t) g, g)"
    and bg: "bflash X (board g) = bflash X (board s4)"
    using jump_to_app [OF w5, of t v'] s4 t by auto
  have "peek (bflash X (board g)) (unat (bank_addr t)) (length img) =
      peek (bflash X (board ?f)) (unat (bank_addr t)) (length img)"
    using keep outside_table_bank [OF v] f(6) by (intro peek_cong) (simp add: bg)
  then have p: "peek (bflash X (board g)) (unat (bank_addr t)) (length img) = img" using f(7) by simp
  have "appEntry (JumpToAddr X (bank_addr t) g) = word_at 4 img OR 1"
    using de32_peek [OF p, of 4] img by (simp add: JumpToAddr_bank [OF v])
  then show ?thesis
    using fin g p by (auto simp: JumpToAddr_bank [OF v])
qed

end

section \<open>The update over USB\<close>

definition sim_msc :: "nor_chip fica_st \<Rightarrow> u32 \<Rightarrow> nor_chip msc_st" where
  "sim_msc f len = \<lparr>fica = f, s_startOffset = 0, s_fileLength = len, s_dataWritten = 0, s_lbaLength = 512,
     s_transferState = TRANSFER_START, app_resumed = False\<rparr>"

text \<open>C2: The update over USB: once the directory entry of the file has been seen, the packets of an
  image linked for application A or B, in order and cut at sector boundaries, are all accepted; the
  transfer becomes final; finalising it succeeds; and the boot loader then starts the image that was
  sent, from its bank and at its reset handler.\<close>
theorem usb_update_boots:
  assumes "spi_genuine X wel polls" and "drv_wf (fica s)" and "boot_ok (table X (board (fica s)))"
    and "s_transferState s = TRANSFER_START" and "s_dataWritten s = 0" and "s_lbaLength s = 512"
    and "0 < s_fileLength s" and "t = 1 \<or> t = 2" and "linked_for t p" and "[] \<notin> set ps"
    and "\<forall>q\<in>set (butlast (p # ps)). length q mod 4096 = 0"
    and "length (concat (butlast (p # ps))) < unat (s_fileLength s)"
    and "unat (s_fileLength s) \<le> length (concat (p # ps))"
    and "length (concat (p # ps)) \<le> unat (bank_size t)"
    and "unat off + unat (bank_size t) < 4294967296"
  shows "\<exists>rs u j u' k f. run_ops (msc_step X) (packet_ops off (p # ps)) s = Inr (rs, u) \<and> set rs \<subseteq> {0} \<and>
    s_transferState u = TRANSFER_FINAL \<and> USB_Transfer_Finalize X v u = Inr ((False, j), u') \<and>
    jumpToMainAppTask X v' (fica u') = Inr (k, f) \<and> VTOR k = FLEXSPI_AMBA_BASE + bank_addr t \<and>
    appEntry k = word_at 4 p OR 1 \<and>
    peek (bflash X (board f)) (unat (bank_addr t)) (length (concat (p # ps))) = concat (p # ps)"
proof -
  have g: "drv_wf (fica s) \<and> boot_ok (table X (board (fica s)))" using assms(2,3) by blast
  have l: "8 \<le> length p" using assms(9) by (simp add: linked_for_def)
  obtain rs u where run: "run_ops (msc_step X) (packet_ops off (p # ps)) s = Inr (rs, u)" "set rs \<subseteq> {0}"
    and up: "uploading X t off (s_fileLength s) (concat (p # ps)) u" and fin: "s_transferState u = TRANSFER_FINAL"
    using spi_genuine.upload_ok [OF assms(1) g assms(4-15)] by blast
  have w: "word_at 4 (concat (p # ps)) = word_at 4 p" using l word_at_append [of 4 p "concat ps"] by simp
  have l': "8 \<le> length (concat (p # ps))" using l by simp
  show ?thesis
    using spi_genuine.finalize_boots [OF assms(1) up fin assms(8) l', of v v'] run fin unfolding w by blast
qed

theorem usb_update_boots_witness:
  "\<exists>s rs u j u' k f. run_ops (msc_step (nor_sim FLASH_VENDOR_ID))
      [(40, 8, [0, 0, 0, 0, 1, 1, 0x78, 0x60])] (sim_msc s 8) = Inr (rs, u) \<and>
    USB_Transfer_Finalize (nor_sim FLASH_VENDOR_ID) 0 u = Inr ((False, j), u') \<and>
    jumpToMainAppTask (nor_sim FLASH_VENDOR_ID) 0 (fica u') = Inr (k, f) \<and> appEntry k = 0x60780101"
proof -
  obtain s where s: "drv_wf s" "table (nor_sim FLASH_VENDOR_ID) (board s) = fica_default"
    using sim_initialized by blast
  let ?p = "[0, 0, 0, 0, 1, 1, 0x78, 0x60] :: u8 list"
  have "linked_for 2 ?p"
    by (simp add: linked_for_def word_at_def bank_addr_def FLASH_BYTE4_UPPER_NIBBLE_def FLASH_BYTE3_def
        FLEXSPI_AMBA_BASE_def)
  then obtain rs u j u' k f where
    run: "run_ops (msc_step (nor_sim FLASH_VENDOR_ID)) (packet_ops 40 [?p]) (sim_msc s 8) = Inr (rs, u)"
    and fin: "USB_Transfer_Finalize (nor_sim FLASH_VENDOR_ID) 0 u = Inr ((False, j), u')"
    and jump: "jumpToMainAppTask (nor_sim FLASH_VENDOR_ID) 0 (fica u') = Inr (k, f)"
    and entry: "appEntry k = word_at 4 ?p OR 1"
    using usb_update_boots [OF sim_genuine, of "sim_msc s 8" 2 ?p "[]" 40 0 0] s
    by (auto simp: sim_msc_def bank_size_def simp del: FLASH_VENDOR_ID_def run_ops.simps packet_ops.simps)
  have "packet_ops 40 [?p] = [(40, 8, ?p)]" by simp
  then show ?thesis
    using run fin jump entry
    by (intro exI [of _ s] exI [of _ rs] exI [of _ u] exI [of _ j] exI [of _ u'] exI [of _ k] exI [of _ f] conjI)
      (simp_all add: word_at_def del: run_ops.simps)
qed

text \<open>C15: The states of a transfer: whatever packets the host sends, the state only advances in the
  order of the enumeration; a file length is accepted once and fits the application banks; a
  transfer is final only when at least the announced number of bytes has been programmed; and a
  final or failed transfer has woken the application task.\<close>
theorem transfer_states:
  assumes "msc_inv s" and "run_ops (msc_step X) ps s = Inr (rs, s')"
  shows "s_transferState s \<le> s_transferState s' \<and>
    (s_transferState s' = TRANSFER_FINAL \<longrightarrow> 0 < s_fileLength s' \<and> s_fileLength s' \<le> s_dataWritten s' \<and>
      s_fileLength s' \<le> FICA_IMG_APP_A_SIZE \<and> app_resumed s') \<and>
    (s_transferState s' = TRANSFER_ACTIVE \<longrightarrow> s_dataWritten s' < s_fileLength s') \<and>
    (s_transferState s' = TRANSFER_ERROR \<longrightarrow> app_resumed s')"
  using msc.run_inv [of s "s_transferState s" X ps rs s'] assms
  by (cases "s_transferState s'") (simp_all add: msc_inv_def)

theorem transfer_states_witness:
  "\<exists>rs s'. run_ops (msc_step (nor_sim 0)) [(3, 1, [0x42, 0, 0])] ((sim_msc sim_drv 8)\<lparr>s_transferState := TRANSFER_FINAL,
      s_dataWritten := 9, app_resumed := True\<rparr>) = Inr (rs, s') \<and> TRANSFER_FINAL \<le> s_transferState s'"
proof -
  let ?s = "(sim_msc sim_drv 8)\<lparr>s_transferState := TRANSFER_FINAL, s_dataWritten := 9, app_resumed := True\<rparr>"
  have "msc_inv ?s" by (simp add: msc_inv_def sim_msc_def)
  moreover have "run_ops (msc_step (nor_sim 0)) [(3, 1, [0x42, 0, 0])] ?s = Inr ([0], ?s)"
    by (simp add: msc_step_def MSC_VFS_WriteResponse_def)
  ultimately show ?thesis
    using transfer_states [of ?s "nor_sim 0" "[(3, 1, [0x42, 0, 0])]" "[0]" ?s] by (intro exI) auto
qed

text \<open>The result of finalising a transfer is compared with one error code and the error is stored
  after the state has been read: whatever the finalisation returns, the error LED stays off.\<close>
theorem finalize_error_silent:
  assumes "s_transferState s = TRANSFER_FINAL" and "USB_Transfer_Finalize X v s = Inr ((blink, j), s')"
  shows "\<not> blink"
  using assms by (auto simp: USB_Transfer_Finalize_def MSC_VFS_GetTransferState_def elim!: rbind_InrE)

theorem finalize_error_silent_witness:
  "\<exists>s j s'. FICA_app_program_ext_finalize (nor_sim 1) (fica s) = Inr (-1, fica s) \<and>
    USB_Transfer_Finalize (nor_sim 1) 0 s = Inr ((False, j), s') \<and> s_transferState s' = TRANSFER_ERROR"
proof -
  let ?X = "nor_sim 1"
  obtain f where i: "FICA_initialize ?X sim_drv = Inr (0, f)" and w: "fica_wf (s_fica f)" and b: "boot_ok (table ?X (board f))"
  proof -
    obtain f where i: "FICA_initialize ?X sim_drv = Inr (0, f)"
      using spi_live.initialize_returns [OF sim_live, of sim_drv 1] by auto
    have "\<not> genuine ?X sim_drv"
      by (simp add: genuine_def flexspi_nor_get_vendor_id_def sim_transfer_simps first_byte_def)
    then have "table ?X (board f) = fica_default" "s_fica f = table ?X (board f)"
      using spi_device.initialize_ok [OF sim_device i] by simp_all
    then show ?thesis using that i table_wf by (metis boot_ok_simps(1))
  qed
  let ?f = "f\<lparr>s_newAppImgType := 5\<rparr>"
  let ?s = "(sim_msc ?f 8)\<lparr>s_transferState := TRANSFER_FINAL\<rparr>"
  have e: "FICA_app_program_ext_finalize ?X ?f = Inr (-1, ?f)"
    by (simp add: FICA_app_program_ext_finalize_def FICA_write_image_info_def valid_img_type_def)
  obtain j where r: "ReRunBootloader ?X 0 ?f = Inr (j, ?f\<lparr>s_fica := table ?X (board ?f)\<rparr>)"
    using spi_device.rerun_ok [OF sim_device, of ?f] w b by auto
  obtain s' where fin: "USB_Transfer_Finalize ?X 0 ?s = Inr ((False, j), s')" and st: "s_transferState s' = TRANSFER_ERROR"
    using e r by (simp add: USB_Transfer_Finalize_def MSC_VFS_GetTransferState_def MSC_VFS_SetTransferState_def sim_msc_def)
  then have "\<not> False" using finalize_error_silent [of ?s ?X 0 False j s'] by simp
  then show ?thesis
    using e fin st by (intro exI [of _ ?s] exI [of _ j] exI [of _ s']) (simp add: sim_msc_def)
qed

section \<open>The start\<close>

lemma usb_mode_set:
  assumes "spi_live X wel polls" and "fica_wf (s_fica s)"
  shows "\<exists>s'. FICA_set_usb_mode X s = Inr (0, s') \<and> comm_get 11 (table X (board s'))"
proof -
  have d: "spi_device X wel" using assms(1) by (rule spi_live.axioms(1))
  obtain s1 where i: "FICA_initialize X s = Inr (0, s1)" using spi_live.initialize_returns [OF assms] by blast
  have w: "fica_wf (s_fica s1)" using spi_device.initialize_table_op [OF d i assms(2)] by (rule table_op_wf)
  obtain s2 where f: "FICA_set_comm_flag X (push_bit 11 1) s1 = Inr (0, s2)"
    using spi_live.set_comm_flag_returns [OF assms(1) w] by blast
  have "comm_get 11 (table X (board s2))"
    using spi_device.set_comm_flag_ok [OF d f w] by simp
  moreover have "FICA_set_usb_mode X s = Inr (0, s2)"
    using i f by (simp add: FICA_set_usb_mode_def)
  ultimately show ?thesis by blast
qed

text \<open>C14: The start of the board: without the update button the bootloader always hands over to an
  application, the one the table names if the table is valid and names one, application A otherwise,
  at the entry point stored in its bank; with the button it stays in the update mode and has recorded
  that mode in the table.\<close>
theorem boot_choice:
  assumes "spi_genuine X wel polls" and "fica_wf (s_fica s)"
    and "t = (if initialized (table X (board s)) \<and> sint (currType (header (table X (board s)))) \<in> {1, 2}
      then sint (currType (header (table X (board s)))) else 1)"
  shows "(\<exists>s'. BootloaderMain X False vtor s = Inr (Some \<lparr>VTOR = FLEXSPI_AMBA_BASE + bank_addr t,
      appEntry = de32 (peek (bflash X (board s')) (unat (bank_addr t) + 4) 4) OR 1,
      stack_top = TEMP_STACK_TOP\<rparr>, s')) \<and>
    (\<exists>s'. BootloaderMain X True vtor s = Inr (None, s') \<and> comm_get 11 (table X (board s')))"
proof -
  have l: "spi_live X wel polls" using assms(1) by (rule spi_genuine.axioms(1))
  have v: "valid_img_type t" using assms(3) by (auto simp: valid_cases split: if_splits)
  have "\<exists>s'. jumpToMainAppTask X vtor s = Inr (JumpToAddr X (bank_addr t) s', s')"
    using spi_genuine.jump_to_app [OF assms(1,2), of t vtor] spi_genuine.jump_to_default [OF assms(1,2), of vtor] assms(3)
    by (auto split: if_splits)
  then show ?thesis
    using usb_mode_set [OF l assms(2)]
    by (auto simp: BootloaderMain_def SLN_CheckForUpdate_def CheckForMSDMode_def JumpToAddr_bank [OF v])
qed

theorem boot_choice_witness:
  "\<exists>s k s'. BootloaderMain (nor_sim FLASH_VENDOR_ID) False 0 s = Inr (Some k, s') \<and>
    VTOR k = FLEXSPI_AMBA_BASE + 0x100000"
proof -
  obtain s where "drv_wf s" and t: "table (nor_sim FLASH_VENDOR_ID) (board s) = fica_default"
    using sim_initialized by blast
  then have w: "fica_wf (s_fica s)" by (simp add: drv_wf_def)
  have one: "1 = (if initialized (table (nor_sim FLASH_VENDOR_ID) (board s)) \<and>
      sint (currType (header (table (nor_sim FLASH_VENDOR_ID) (board s)))) \<in> {1, 2}
      then sint (currType (header (table (nor_sim FLASH_VENDOR_ID) (board s)))) else 1)"
    unfolding t by (simp add: fica_default_def)
  obtain e st s' where "BootloaderMain (nor_sim FLASH_VENDOR_ID) False 0 s =
      Inr (Some \<lparr>VTOR = FLEXSPI_AMBA_BASE + bank_addr 1, appEntry = e, stack_top = st\<rparr>, s')"
    using boot_choice [OF sim_genuine w one, of 0] by blast
  then show ?thesis
    by (intro exI conjI, assumption) (simp add: bank_addr_def)
qed

text \<open>The USB device answers every sequence of events and stays consistent: it is attached exactly
  while it is configured, and its one interface has an alternate setting; a sector request of the
  mass-storage class gets a buffer in which the longest transfer of the class driver fits.\<close>
theorem usb_device_consistent:
  assumes "usb_inv s"
  shows "\<exists>rs s'. run_ops USB_DeviceCallback evs s = Inr (rs, s') \<and> length rs = length evs \<and>
    (attach s' = 1 \<longleftrightarrow> currentConfiguration s' = USB_MSC_CONFIGURE_INDEX) \<and>
    length (currentInterfaceAlternateSetting s') = 1 \<and>
    request_buffer offset + 65536 \<le> unat DISK_PHYSICAL_SIZE_NORMAL"
proof -
  obtain rs s' where r: "run_ops USB_DeviceCallback evs s = Inr (rs, s')" "length rs = length evs" and i: "usb_inv s'"
    using usb.run_returns [OF assms, of evs] by blast
  have "request_buffer offset + 65536 \<le> unat DISK_PHYSICAL_SIZE_NORMAL"
    using request_buffer_bound [of offset]
    by (simp add: DISK_PHYSICAL_SIZE_NORMAL_def TOTAL_PHYSICAL_ADDRESS_BLOCKS_NORMAL_def)
  then show ?thesis using r i by (auto simp: usb_inv_def)
qed

definition sim_usb :: "nor_chip usb_st" where
  "sim_usb = \<lparr>vfs = sim_msc sim_drv 0, s_StorageDisk = [], currentConfiguration = 0,
     currentInterfaceAlternateSetting = [0], usb_speed = 0, attach = 0\<rparr>"

theorem usb_device_consistent_witness:
  "\<exists>rs s'. run_ops USB_DeviceCallback [kUSB_DeviceEventBusReset None, kUSB_DeviceEventSetConfiguration 1] sim_usb
      = Inr (rs, s') \<and> attach s' = 1"
proof -
  have "usb_inv sim_usb" by (simp add: usb_inv_def sim_usb_def)
  from usb_device_consistent [OF this, of "[kUSB_DeviceEventBusReset None, kUSB_DeviceEventSetConfiguration 1]" 0]
  show ?thesis by (auto simp: sim_usb_def)
qed

end
