(* ===== verification/Lfs_Blockdev.thy ===== *)
theory Lfs_Blockdev
  imports Sln_Flash Fica_Types
begin

text \<open>
  The block device that \<open>source/filesystem/sln_flash_littlefs.c\<close> gives to littlefs: reads,
  page programs and sector erases inside the file system area of the flash, with a bit field in RAM
  that remembers which blocks are erased already. The flash library of the smart lock
  (\<open>source/sln_flash.c\<close>) has the text of the boot loader's for these operations, so the
  definitions of \<open>Sln_Flash\<close> are used. Client callbacks are function pointers whose calls are
  recorded. The file shows that the bit field is a set of block numbers, and that on a working chip
  a block marked as erased holds only ones.
\<close>

section \<open>Geometry, status codes, state\<close>

definition LFS_BASE_ADDR :: u32 where "LFS_BASE_ADDR = FICA_IMG_FILE_SYS_ADDR"
definition LFS_SECTORS :: nat where [simp]: "LFS_SECTORS = unat (FICA_FILE_SYS_SIZE div FLASH_SECTOR_SIZE)"

definition LFS_ERR_OK :: int where [simp]: "LFS_ERR_OK = 0"
definition LFS_ERR_IO :: int where [simp]: "LFS_ERR_IO = -5"
definition LFS_ERR_CORRUPT :: int where [simp]: "LFS_ERR_CORRUPT = -84"
definition LFS_ERR_NOENT :: int where [simp]: "LFS_ERR_NOENT = -2"
definition LFS_ERR_EXIST :: int where [simp]: "LFS_ERR_EXIST = -17"

definition prog_size :: u32 where [simp]: "prog_size = FLASH_PAGE_SIZE"
definition block_size :: u32 where [simp]: "block_size = FLASH_SECTOR_SIZE"

record sln_flash_fs_cbs_t =
  post_lock_cb :: "nat option"
  post_unlock_cb :: "nat option"
  pre_sector_erase_cb :: "nat option"
  post_sector_erase_cb :: "nat option"

record 'd blockdev =
  blk_board :: "'d board"
  s_ErasedBlocks :: "u32 list"
  s_flashLittlefsCbs :: sln_flash_fs_cbs_t
  called :: "nat list"

definition run_cb :: "nat option \<Rightarrow> 'd blockdev \<Rightarrow> 'd blockdev" where
  "run_cb cb s = (case cb of None \<Rightarrow> s | Some f \<Rightarrow> s\<lparr>called := called s @ [f]\<rparr>)"

section \<open>The bit field of blocks\<close>

definition is_blockBitSet :: "u32 list \<Rightarrow> u32 \<Rightarrow> bool outcome" where
  "is_blockBitSet blockBitfield block =
    (if unat (block div 32) < length blockBitfield
     then Inr (blockBitfield ! unat (block div 32) AND push_bit (unat (block mod 32)) 1 \<noteq> 0)
     else Inl MemFault)"

definition set_blockBit :: "u32 list \<Rightarrow> u32 \<Rightarrow> u32 list outcome" where
  "set_blockBit blockBitfield block =
    (let i = unat (block div 32) in
     if i < length blockBitfield
     then Inr (blockBitfield[i := blockBitfield ! i OR push_bit (unat (block mod 32)) 1])
     else Inl MemFault)"

definition clear_blockBit :: "u32 list \<Rightarrow> u32 \<Rightarrow> u32 list outcome" where
  "clear_blockBit blockBitfield block =
    (let i = unat (block div 32) in
     if i < length blockBitfield
     then Inr (blockBitfield[i := blockBitfield ! i AND NOT (push_bit (unat (block mod 32)) 1)])
     else Inl MemFault)"

text \<open>The callback of a traversal marks the block it is given.\<close>

definition lfs_traverse_create_used_blocks :: "u32 list \<Rightarrow> u32 \<Rightarrow> (int \<times> u32 list) outcome" where
  "lfs_traverse_create_used_blocks usedBlocks block =
    rbind (set_blockBit usedBlocks block) (\<lambda>u. Inr (0, u))"

section \<open>Block operations\<close>

fun check_loop :: "'d flexspi_if \<Rightarrow> u32 \<Rightarrow> nat \<Rightarrow> 'd board \<Rightarrow> bool outcome" where
  "check_loop X src 0 b = Inr True"
| "check_loop X src (Suc n) b =
     rbind (SLN_Read_Flash_At_Address X src (replicate 4 0) 4 b) (\<lambda>(_, dst).
     if de32 dst \<noteq> 0xFFFFFFFF then Inr False else check_loop X (src + 4) n b)"

definition lfs_checkBlockEmpty :: "'d flexspi_if \<Rightarrow> u32 \<Rightarrow> 'd board \<Rightarrow> bool outcome" where
  "lfs_checkBlockEmpty X block b = check_loop X (LFS_BASE_ADDR + block * block_size) 1024 b"

text \<open>The buffer address decides about alignment; the data is copied before the test.\<close>

definition LFS_FlashRead ::
    "'d flexspi_if \<Rightarrow> u32 \<Rightarrow> u32 \<Rightarrow> u32 \<Rightarrow> u8 list \<Rightarrow> u32 \<Rightarrow> 'd blockdev \<Rightarrow> (int \<times> u8 list) outcome" where
  "LFS_FlashRead X block off dst buffer sz s =
    (let src = LFS_BASE_ADDR + block * block_size + off in
     rbind (SLN_Read_Flash_At_Address X src buffer sz (blk_board s)) (\<lambda>(_, buffer).
     Inr (if src AND 3 \<noteq> 0 \<or> dst AND 3 \<noteq> 0 \<or> sz AND 3 \<noteq> 0 then LFS_ERR_IO else LFS_ERR_OK, buffer)))"

text \<open>
  The loop of a program request. The status is None before the first page has been programmed: it is
  read uninitialised after a request of size zero, which has no defined behaviour.
\<close>

partial_function (option) prog_loop ::
    "'d flexspi_if \<Rightarrow> u32 \<Rightarrow> u8 list \<Rightarrow> u32 \<Rightarrow> u32 \<Rightarrow> int option \<Rightarrow> 'd board \<Rightarrow>
      (int option \<times> 'd board) outcome option" where
  "prog_loop X prog_addr buffer sz pos status b =
    (if pos < sz then
       (case SLN_Write_Flash_Page X (prog_addr + pos) (drop (unat pos) buffer) prog_size b of
          Inl e \<Rightarrow> Some (Inl e)
        | Inr (st, b) \<Rightarrow>
            if st \<noteq> kStatus_Success then Some (Inr (Some st, b))
            else prog_loop X prog_addr buffer sz (pos + prog_size) (Some st) b)
     else Some (Inr (status, b)))"


definition LFS_FlashProg ::
    "'d flexspi_if \<Rightarrow> u32 \<Rightarrow> u32 \<Rightarrow> u8 list \<Rightarrow> u32 \<Rightarrow> 'd blockdev \<Rightarrow> (int \<times> 'd blockdev) outcome" where
  "LFS_FlashProg X block off buffer sz s =
    (let prog_addr = LFS_BASE_ADDR + block * block_size + off in
     rbind (returns (prog_loop X prog_addr buffer sz 0 None (blk_board s))) (\<lambda>(status, b).
     let s = s\<lparr>blk_board := b\<rparr> in
     case status of None \<Rightarrow> Inl MemFault
     | Some status \<Rightarrow>
         if status = kStatus_Fail then Inr (LFS_ERR_CORRUPT, s)
         else if status \<noteq> kStatus_Success then Inr (LFS_ERR_IO, s)
         else rbind (clear_blockBit (s_ErasedBlocks s) block) (\<lambda>bits.
           Inr (LFS_ERR_OK, s\<lparr>s_ErasedBlocks := bits\<rparr>))))"

definition LFS_FlashErase :: "'d flexspi_if \<Rightarrow> u32 \<Rightarrow> 'd blockdev \<Rightarrow> (int \<times> 'd blockdev) outcome" where
  "LFS_FlashErase X block s =
    (let erase_addr = LFS_BASE_ADDR + block * block_size in
     rbind (is_blockBitSet (s_ErasedBlocks s) block) (\<lambda>erased.
     if erased then Inr (LFS_ERR_OK, s)
     else
       rbind (lfs_checkBlockEmpty X block (blk_board s)) (\<lambda>empty.
       rbind (if \<not> empty then
                let s = run_cb (pre_sector_erase_cb (s_flashLittlefsCbs s)) s
                in rbind (SLN_Erase_Sector X erase_addr (blk_board s)) (\<lambda>(status, b).
                   Inr (status, run_cb (post_sector_erase_cb (s_flashLittlefsCbs s)) (s\<lparr>blk_board := b\<rparr>)))
              else Inr (kStatus_Success, s)) (\<lambda>(status, s).
       if status = kStatus_Fail then Inr (LFS_ERR_CORRUPT, s)
       else if status \<noteq> kStatus_Success then Inr (LFS_ERR_IO, s)
       else rbind (set_blockBit (s_ErasedBlocks s) block) (\<lambda>bits.
         Inr (LFS_ERR_OK, s\<lparr>s_ErasedBlocks := bits\<rparr>))))))"

definition LFS_FlashSync :: "'d blockdev \<Rightarrow> int \<times> 'd blockdev" where
  "LFS_FlashSync s = (LFS_ERR_OK, s)"

section \<open>The bit field is a set of blocks\<close>

definition blocks_of :: "u32 list \<Rightarrow> nat set" where
  "blocks_of bits = {b. b < 32 * length bits \<and> bit (bits ! (b div 32)) (b mod 32)}"

lemma block_index: "unat (block div 32 :: u32) = unat block div 32" "unat (block mod 32 :: u32) = unat block mod 32"
  by (simp_all add: unat_div unat_mod)

lemma block_in_field: "unat block < 32 * length bits \<longleftrightarrow> unat block div 32 < length bits"
  by (simp add: less_mult_imp_div_less div_less_iff_less_mult mult.commute)

lemma is_blockBitSet_eq:
  "is_blockBitSet bits block =
    (if unat block < 32 * length bits then Inr (unat block \<in> blocks_of bits) else Inl MemFault)"
  by (simp add: is_blockBitSet_def blocks_of_def block_index block_in_field bit_iff_and_push_bit_not_eq_0)

lemma bit_update:
  fixes x :: u32
  assumes "k < 32"
  shows "bit (x OR push_bit k 1) m \<longleftrightarrow> bit x m \<or> m = k"
    and "m < 32 \<Longrightarrow> bit (x AND NOT (push_bit k 1)) m \<longleftrightarrow> bit x m \<and> m \<noteq> k"
  using assms by (auto simp: bit_simps)

lemma blocks_of_list_update:
  assumes "b < 32 * length bits" and "\<And>m. m < 32 \<Longrightarrow> bit w m \<longleftrightarrow> (if m = b mod 32 then v else bit (bits ! (b div 32)) m)"
  shows "blocks_of (bits[b div 32 := w]) = (if v then insert b (blocks_of bits) else blocks_of bits - {b})"
proof (rule set_eqI)
  fix n
  have b: "b div 32 < length bits" using assms(1) by (simp add: less_mult_imp_div_less mult.commute)
  have "n div 32 = b div 32 \<Longrightarrow> n mod 32 = b mod 32 \<Longrightarrow> n = b" by (metis div_mod_decomp)
  then show "n \<in> blocks_of (bits[b div 32 := w]) \<longleftrightarrow>
      n \<in> (if v then insert b (blocks_of bits) else blocks_of bits - {b})"
    using assms b by (cases "n = b"; cases "n div 32 = b div 32") (auto simp: blocks_of_def)
qed

lemmas blocks_of_update =
  blocks_of_list_update [where v = True, simplified if_True]
  blocks_of_list_update [where v = False, simplified if_False]

lemma set_blockBit_eq:
  "set_blockBit bits block =
    (if unat block < 32 * length bits
     then Inr (bits[unat block div 32 := bits ! (unat block div 32) OR push_bit (unat block mod 32) 1])
     else Inl MemFault)"
  by (simp add: set_blockBit_def block_index block_in_field Let_def)

lemma clear_blockBit_eq:
  "clear_blockBit bits block =
    (if unat block < 32 * length bits
     then Inr (bits[unat block div 32 := bits ! (unat block div 32) AND NOT (push_bit (unat block mod 32) 1)])
     else Inl MemFault)"
  by (simp add: clear_blockBit_def block_index block_in_field Let_def)

lemma set_blockBit_ok:
  assumes "set_blockBit bits block = Inr bits'"
  shows "length bits' = length bits" and "blocks_of bits' = insert (unat block) (blocks_of bits)"
proof -
  have lt: "unat block < 32 * length bits"
    and eq: "bits' = bits[unat block div 32 := bits ! (unat block div 32) OR push_bit (unat block mod 32) 1]"
    using assms by (simp_all only: set_blockBit_eq sum.inject sum.distinct split: if_splits)
  show "length bits' = length bits" unfolding eq by (rule length_list_update)
  show "blocks_of bits' = insert (unat block) (blocks_of bits)"
    unfolding eq by (rule blocks_of_update(1) [OF lt], subst bit_update(1)) auto
qed

lemma clear_blockBit_ok:
  assumes "clear_blockBit bits block = Inr bits'"
  shows "length bits' = length bits" and "blocks_of bits' = blocks_of bits - {unat block}"
proof -
  have lt: "unat block < 32 * length bits"
    and eq: "bits' = bits[unat block div 32 := bits ! (unat block div 32) AND NOT (push_bit (unat block mod 32) 1)]"
    using assms by (simp_all only: clear_blockBit_eq sum.inject sum.distinct split: if_splits)
  show "length bits' = length bits" unfolding eq by (rule length_list_update)
  show "blocks_of bits' = blocks_of bits - {unat block}"
    unfolding eq by (rule blocks_of_update(2) [OF lt], subst bit_update(2)) auto
qed

lemma block_bit_returns:
  "unat block < 32 * length bits \<Longrightarrow> \<exists>bits'. set_blockBit bits block = Inr bits'"
  "unat block < 32 * length bits \<Longrightarrow> \<exists>bits'. clear_blockBit bits block = Inr bits'"
  by (simp_all add: set_blockBit_eq clear_blockBit_eq)

section \<open>Erased blocks\<close>

definition block_addr :: "nat \<Rightarrow> nat" where
  "block_addr n = 0xE00000 + 0x1000 * n"

definition blank :: "'d flexspi_if \<Rightarrow> 'd blockdev \<Rightarrow> nat \<Rightarrow> bool" where
  "blank X s n \<longleftrightarrow> (\<forall>i<0x1000. bflash X (blk_board s) (block_addr n + i) = 0xFF)"

definition erased_ok :: "'d flexspi_if \<Rightarrow> 'd blockdev \<Rightarrow> bool" where
  "erased_ok X s \<longleftrightarrow> length (s_ErasedBlocks s) = 8 \<and> (\<forall>n\<in>blocks_of (s_ErasedBlocks s). blank X s n)"

lemma block_base:
  assumes "unat block < 256"
  shows "unat (LFS_BASE_ADDR + block * block_size) = block_addr (unat block)"
proof -
  have "unat (block * 0x1000) = unat block * 0x1000"
    using assms by (subst unat_mult_lem [THEN iffD1]) auto
  then show ?thesis
    using assms unat_add_small [of "0xE00000" "block * 0x1000"]
    by (simp add: LFS_BASE_ADDR_def block_addr_def)
qed

lemma block_addr_facts:
  assumes "n < 256"
  shows "block_addr n + 0x1000 \<le> FLASH_SIZE" "block_addr n < FLASH_SIZE" "block_addr n mod 0x1000 = 0"
    and "i < 0x1000 \<Longrightarrow> (block_addr n + i) div 0x1000 = 0xE00 + n"
  using assms by (auto simp: block_addr_def)

lemma de32_ones:
  assumes "length xs = 4"
  shows "de32 xs = 0xFFFFFFFF \<longleftrightarrow> (\<forall>i<4. xs ! i = 0xFF)"
proof -
  have ones: "le32 0xFFFFFFFF = replicate 4 0xFF" by code_simp
  have "de32 xs = 0xFFFFFFFF \<longleftrightarrow> xs = replicate 4 0xFF"
  proof
    assume w: "de32 xs = 0xFFFFFFFF"
    show "xs = replicate 4 0xFF" using le32_de32 [OF assms] unfolding w ones by (rule sym)
  next
    assume xs: "xs = replicate 4 0xFF"
    show "de32 xs = 0xFFFFFFFF" using de32_le32 [of "0xFFFFFFFF"] unfolding xs ones .
  qed
  also have "\<dots> \<longleftrightarrow> (\<forall>i<4. xs ! i = 0xFF)"
    using assms by (simp add: list_eq_iff_nth_eq)
  finally show ?thesis .
qed

lemma check_loop_eq:
  assumes "unat src + 4 * n \<le> FLASH_SIZE"
  shows "check_loop X src n b = Inr (\<forall>i<4 * n. bflash X b (unat src + i) = 0xFF)"
  using assms
proof (induction n arbitrary: src)
  case (Suc n)
  have rd: "SLN_Read_Flash_At_Address X src (replicate 4 0) 4 b = Inr (0, peek (bflash X b) (unat src) 4)"
    using read_flash [of src 4 "replicate 4 0" X b] Suc.prems by simp
  have src: "unat (src + 4) = unat src + 4"
    using Suc.prems by (subst unat_add_small) auto
  have word: "de32 (peek (bflash X b) (unat src) 4) = 0xFFFFFFFF \<longleftrightarrow> (\<forall>i<4. bflash X b (unat src + i) = 0xFF)"
    by (subst de32_ones) auto
  have IH: "check_loop X (src + 4) n b = Inr (\<forall>i<4 * n. bflash X b (unat src + 4 + i) = 0xFF)"
    using Suc src by simp
  have split: "(\<forall>i<4 * Suc n. bflash X b (unat src + i) = 0xFF) \<longleftrightarrow>
      (\<forall>i<4. bflash X b (unat src + i) = 0xFF) \<and> (\<forall>i<4 * n. bflash X b (unat src + 4 + i) = 0xFF)"
  proof -
    have "bflash X b (unat src + i) = 0xFF"
      if "\<forall>i<4. bflash X b (unat src + i) = 0xFF" "\<forall>i<4 * n. bflash X b (unat src + 4 + i) = 0xFF" "i < 4 * Suc n" for i
    proof (cases "i < 4")
      case False
      then show ?thesis using that(2) [rule_format, of "i - 4"] that(3) by simp
    qed (use that in simp)
    then show ?thesis by (auto simp: add.assoc)
  qed
  show ?case using rd word IH split by auto
qed simp

lemma checkBlockEmpty_eq:
  assumes "unat block < 256"
  shows "lfs_checkBlockEmpty X block (blk_board s) = Inr (blank X s (unat block))"
  using check_loop_eq [of "LFS_BASE_ADDR + block * block_size" 1024 X "blk_board s"]
    block_base [OF assms] block_addr_facts(1) [OF assms]
  by (simp add: lfs_checkBlockEmpty_def blank_def)

lemma run_cb_simps [simp]:
  "blk_board (run_cb c s) = blk_board s" "s_ErasedBlocks (run_cb c s) = s_ErasedBlocks s"
  "s_flashLittlefsCbs (run_cb c s) = s_flashLittlefsCbs s"
  by (simp_all add: run_cb_def split: option.split)

lemma blank_board: "blk_board s' = blk_board s \<Longrightarrow> blank X s' n = blank X s n"
  by (simp add: blank_def)

section \<open>Programming a block\<close>

abbreviation page_writer :: "'d flexspi_if \<Rightarrow> u32 \<Rightarrow> u8 list \<Rightarrow> 'd board \<Rightarrow> (int \<times> 'd board) outcome" where
  "page_writer X \<equiv> \<lambda>a pg. guarded (flexspi_nor_flash_page_program X a pg)"

lemma prog_loop_run:
  assumes "unat sz = unat pos + 256 * k" and "unat pos + 256 * k \<le> length buf"
  shows "prog_loop X a buf sz pos status b =
    Some (rbind (program_run (page_writer X) (a + pos) (chop k (256 * k) (drop (unat pos) buf)) b)
      (\<lambda>(st, b'). Inr (if k = 0 then status else Some st, b')))"
  using assms
proof (induction k arbitrary: pos status b)
  case 0
  then have "\<not> pos < sz" by (simp add: word_less_nat_alt)
  then show ?case by (subst prog_loop.simps) simp
next
  case (Suc k)
  have pos: "pos < sz" using Suc.prems by (simp add: word_less_nat_alt)
  have next_pos: "unat (pos + 256) = unat pos + 256"
    using Suc.prems unat_u32_less [of sz] by (subst unat_add_small) auto
  have IH: "prog_loop X a buf sz (pos + 256) (Some 0) b' =
    Some (rbind (program_run (page_writer X) (a + pos + 256) (chop k (256 * k) (drop (unat pos + 256) buf)) b')
      (\<lambda>(st, b'). Inr (Some st, b')))" for b'
    using Suc.IH [of "pos + 256" "Some 0" b'] Suc.prems next_pos
    by (cases "k = 0") (simp_all add: add.assoc)
  have page: "SLN_Write_Flash_Page X (a + pos) (drop (unat pos) buf) 256 b =
      page_writer X (a + pos) (padded 256 (drop (unat pos) buf)) b"
  proof -
    have "256 \<le> length buf - unat pos" using Suc.prems(2) by simp
    then show ?thesis by (simp add: SLN_Write_Flash_Page_eq)
  qed
  show ?case
    using pos IH Suc.prems(2)
    by (subst prog_loop.simps, cases "page_writer X (a + pos) (padded 256 (drop (unat pos) buf)) b")
       (auto simp: page add.commute split: prod.splits)
qed

definition pages_of :: "u8 list \<Rightarrow> u32 \<Rightarrow> u8 list list" where
  "pages_of buf sz = chop (unat sz div 256) (unat sz) buf"

lemma FlashProg_run:
  assumes "unat sz mod 256 = 0" and "0 < unat sz" and "unat sz \<le> length buf"
  shows "LFS_FlashProg X block off buf sz s =
    rbind (program_run (page_writer X) (LFS_BASE_ADDR + block * block_size + off) (pages_of buf sz) (blk_board s))
      (\<lambda>(st, b). if st = kStatus_Fail then Inr (LFS_ERR_CORRUPT, s\<lparr>blk_board := b\<rparr>)
         else if st \<noteq> 0 then Inr (LFS_ERR_IO, s\<lparr>blk_board := b\<rparr>)
         else rbind (clear_blockBit (s_ErasedBlocks s) block) (\<lambda>bits.
           Inr (LFS_ERR_OK, s\<lparr>blk_board := b, s_ErasedBlocks := bits\<rparr>)))"
proof -
  have "unat sz = unat (0 :: u32) + 256 * (unat sz div 256)" "unat sz div 256 \<noteq> 0"
    using assms(1,2) by auto
  with assms(3) have "prog_loop X (LFS_BASE_ADDR + block * block_size + off) buf sz 0 None (blk_board s) =
    Some (rbind (program_run (page_writer X) (LFS_BASE_ADDR + block * block_size + off) (pages_of buf sz) (blk_board s))
      (\<lambda>(st, b'). Inr (Some st, b')))"
    using prog_loop_run [of sz 0 "unat sz div 256" buf X _ None "blk_board s"] by (simp add: pages_of_def)
  then show ?thesis
    unfolding LFS_FlashProg_def Let_def by (auto simp: rbind_assoc intro!: rbind_cong)
qed

text \<open>A request that littlefs makes: whole pages inside one block.\<close>

definition prog_request :: "u32 \<Rightarrow> u32 \<Rightarrow> u8 list \<Rightarrow> u32 \<Rightarrow> bool" where
  "prog_request block off buf sz \<longleftrightarrow> unat block < 256 \<and> unat off mod 256 = 0 \<and> unat sz mod 256 = 0 \<and>
     0 < unat sz \<and> unat off + unat sz \<le> 0x1000 \<and> unat sz \<le> length buf"

lemma request_addr:
  assumes "prog_request block off buf sz"
  shows "unat (LFS_BASE_ADDR + block * block_size + off) = block_addr (unat block) + unat off"
    and "unat (LFS_BASE_ADDR + block * block_size + off) mod 256 = 0"
    and "unat (LFS_BASE_ADDR + block * block_size + off) + 256 * length (pages_of buf sz) \<le> FLASH_SIZE"
    and "256 * length (pages_of buf sz) = unat sz"
    and "\<forall>pg\<in>set (pages_of buf sz). length pg = 256"
    and "concat (pages_of buf sz) = take (unat sz) buf"
proof -
  note a = assms [unfolded prog_request_def]
  have base: "unat (LFS_BASE_ADDR + block * block_size) = block_addr (unat block)"
    using block_base a by blast
  show addr: "unat (LFS_BASE_ADDR + block * block_size + off) = block_addr (unat block) + unat off"
    using a base block_addr_facts(1) [of "unat block"] by (subst unat_add_small) auto
  show "unat (LFS_BASE_ADDR + block * block_size + off) mod 256 = 0"
    unfolding addr using a by (simp add: block_addr_def mod_add_eq [symmetric])
  show len: "256 * length (pages_of buf sz) = unat sz" using a by (auto simp: pages_of_def elim: dvdE)
  show "unat (LFS_BASE_ADDR + block * block_size + off) + 256 * length (pages_of buf sz) \<le> FLASH_SIZE"
    unfolding addr len using a block_addr_facts(1) [of "unat block"] by simp
  show "\<forall>pg\<in>set (pages_of buf sz). length pg = 256"
    unfolding pages_of_def using a chop_pages by blast
  show "concat (pages_of buf sz) = take (unat sz) buf"
    unfolding pages_of_def using a by (subst concat_chop) auto
qed

lemma request_outside:
  assumes "prog_request block off buf sz" and "n div 0x1000 \<noteq> 0xE00 + unat block"
  shows "n < block_addr (unat block) + unat off \<or> block_addr (unat block) + unat off + unat sz \<le> n"
proof -
  have "unat off + unat sz \<le> 0x1000" using assms(1) by (simp add: prog_request_def)
  then show ?thesis using assms(2) by (auto simp: block_addr_def)
qed

lemma marked_in_range: "erased_ok X s \<Longrightarrow> n \<in> blocks_of (s_ErasedBlocks s) \<Longrightarrow> n < 256 \<and> blank X s n"
  by (auto simp: erased_ok_def blocks_of_def)

lemma blank_frame:
  assumes "n < 256" and "\<And>i. i div 0x1000 = 0xE00 + n \<Longrightarrow> bflash X (blk_board s') i = bflash X (blk_board s) i"
  shows "blank X s' n = blank X s n"
  using assms block_addr_facts(4) [OF assms(1)] by (simp add: blank_def)

lemma FlashErase_cases:
  assumes "LFS_FlashErase X block s = Inr (st, s')" and "unat block < 256" and "length (s_ErasedBlocks s) = 8"
  obtains (marked) "unat block \<in> blocks_of (s_ErasedBlocks s)" "st = 0" "s' = s"
  | (set) bits where "unat block \<notin> blocks_of (s_ErasedBlocks s)" "blank X s (unat block)" "st = 0"
      "set_blockBit (s_ErasedBlocks s) block = Inr bits" "s' = s\<lparr>s_ErasedBlocks := bits\<rparr>"
  | (erased) b bits where "\<not> blank X s (unat block)" "st = 0"
      "SLN_Erase_Sector X (LFS_BASE_ADDR + block * block_size) (blk_board s) = Inr (0, b)"
      "set_blockBit (s_ErasedBlocks s) block = Inr bits" "blk_board s' = b" "s_ErasedBlocks s' = bits"
  | (failed) st' b where "\<not> blank X s (unat block)" "st \<noteq> 0" "blk_board s' = b"
      "SLN_Erase_Sector X (LFS_BASE_ADDR + block * block_size) (blk_board s) = Inr (st', b)"
      "s_ErasedBlocks s' = s_ErasedBlocks s"
  using assms
  by (auto simp: LFS_FlashErase_def Let_def is_blockBitSet_eq checkBlockEmpty_eq elim!: rbind_InrE
      split: if_splits)

context spi_device begin

lemma flash_erase_ok:
  assumes "LFS_FlashErase X block s = Inr (st, s')" and "unat block < 256" and "erased_ok X s"
  shows "erased_ok X s' \<and>
    (\<forall>n. n div 0x1000 \<noteq> 0xE00 + unat block \<longrightarrow> bflash X (blk_board s') n = bflash X (blk_board s) n) \<and>
    (st = 0 \<longrightarrow> blank X s' (unat block) \<and> unat block \<in> blocks_of (s_ErasedBlocks s')) \<and>
    blocks_of (s_ErasedBlocks s) \<subseteq> blocks_of (s_ErasedBlocks s')"
proof -
  let ?a = "LFS_BASE_ADDR + block * block_size"
  have len: "length (s_ErasedBlocks s) = 8" using assms(3) by (simp add: erased_ok_def)
  have a: "unat ?a = block_addr (unat block)" "unat ?a < FLASH_SIZE"
    using block_base [OF assms(2)] block_addr_facts(2) [OF assms(2)] by simp_all
  have unit: "n div 0x1000 \<noteq> 0xE00 + unat block \<Longrightarrow> n div 0x1000 \<noteq> unat ?a div 0x1000" for n
    unfolding a by (simp add: block_addr_def)
  from assms(1,2) len show ?thesis
  proof (cases rule: FlashErase_cases)
    case marked
    then show ?thesis using assms(3) marked_in_range by blast
  next
    case set
    then show ?thesis using assms(3) set_blockBit_ok [OF set(4)]
      by (auto simp: erased_ok_def blank_def)
  next
    case erased
    have fl: "bflash X (blk_board s') = wipe 0x1000 (unat ?a) (bflash X (blk_board s))"
      using sln.erase_ok [OF erased(3) a(2)] erased(5) by simp
    have new: "blank X s' (unat block)"
      using block_addr_facts(4) [OF assms(2)] unfolding blank_def fl a
      by (auto intro!: wipe_inside simp: block_addr_def)
    have frame: "n div 0x1000 \<noteq> 0xE00 + unat block \<Longrightarrow> bflash X (blk_board s') n = bflash X (blk_board s) n" for n
      unfolding fl using unit by (intro wipe_outside)
    have "blank X s' n" if "n \<in> blocks_of (s_ErasedBlocks s)" for n
      using marked_in_range [OF assms(3) that] new blank_frame [of n X s' s] frame
      by (cases "n = unat block") auto
    then show ?thesis
      using new frame set_blockBit_ok [OF erased(4)] erased(6) len by (auto simp: erased_ok_def)
  next
    case failed
    have frame: "n div 0x1000 \<noteq> 0xE00 + unat block \<Longrightarrow> bflash X (blk_board s') n = bflash X (blk_board s) n" for n
      using sln.erase_frame [OF failed(4) a(2) unit] failed(3) by simp
    have "blank X s' n" if "n \<in> blocks_of (s_ErasedBlocks s)" for n
      using marked_in_range [OF assms(3) that] failed(1) blank_frame [of n X s' s] frame
      by (cases "n = unat block") auto
    then show ?thesis using failed(2,5) frame len by (auto simp: erased_ok_def)
  qed
qed

lemma flash_prog_ok:
  assumes "LFS_FlashProg X block off buf sz s = Inr (0, s')" and "prog_request block off buf sz" and "erased_ok X s"
  shows "erased_ok X s' \<and>
    bflash X (blk_board s') = burn (block_addr (unat block) + unat off) (take (unat sz) buf) (bflash X (blk_board s))"
proof -
  note r = request_addr [OF assms(2)]
  have blk: "unat block < 256" using assms(2) by (simp add: prog_request_def)
  have len: "length (s_ErasedBlocks s) = 8" using assms(3) by (simp add: erased_ok_def)
  have sz: "unat sz mod 256 = 0" "0 < unat sz" "unat sz \<le> length buf" using assms(2) by (auto simp: prog_request_def)
  obtain b bits where p: "program_run (page_writer X) (LFS_BASE_ADDR + block * block_size + off) (pages_of buf sz) (blk_board s) = Inr (0, b)"
    and c: "clear_blockBit (s_ErasedBlocks s) block = Inr bits"
    and s': "s' = s\<lparr>blk_board := b, s_ErasedBlocks := bits\<rparr>"
    using assms(1) unfolding FlashProg_run [OF sz] by (auto elim!: rbind_InrE split: if_splits)
  have fl: "bflash X (blk_board s') = burn (block_addr (unat block) + unat off) (take (unat sz) buf) (bflash X (blk_board s))"
    using paged.program_run_ok [OF p r(3,2,5)] r(1,6) s' by simp
  have frame: "bflash X (blk_board s') n = bflash X (blk_board s) n" if "n div 0x1000 \<noteq> 0xE00 + unat block" for n
    unfolding fl using request_outside [OF assms(2) that] sz(3) by (intro burn_outside) auto
  have "blank X s' n" if "n \<in> blocks_of (s_ErasedBlocks s)" "n \<noteq> unat block" for n
    using marked_in_range [OF assms(3) that(1)] that(2) blank_frame [of n X s' s] frame by auto
  then show ?thesis using fl clear_blockBit_ok [OF c] s' len by (auto simp: erased_ok_def)
qed

end

context spi_live begin

lemma flash_erase_returns:
  assumes "unat block < 256" and "length (s_ErasedBlocks s) = 8"
  shows "\<exists>s'. LFS_FlashErase X block s = Inr (0, s')"
proof -
  obtain b where "SLN_Erase_Sector X (LFS_BASE_ADDR + block * block_size) (blk_board s) = Inr (0, b)"
    using SLN_Erase_Sector_returns by blast
  moreover obtain bits where "set_blockBit (s_ErasedBlocks s) block = Inr bits"
    using block_bit_returns(1) [of block "s_ErasedBlocks s"] assms by auto
  ultimately show ?thesis
    using assms by (auto simp: LFS_FlashErase_def Let_def is_blockBitSet_eq checkBlockEmpty_eq)
qed

lemma flash_prog_returns:
  assumes "prog_request block off buf sz" and "length (s_ErasedBlocks s) = 8"
  shows "\<exists>s'. LFS_FlashProg X block off buf sz s = Inr (0, s')"
proof -
  obtain b where "program_run (page_writer X) (LFS_BASE_ADDR + block * block_size + off) (pages_of buf sz) (blk_board s) = Inr (0, b)"
    using program_run_returns(2) request_addr(5) [OF assms(1)] by blast
  moreover obtain bits where "clear_blockBit (s_ErasedBlocks s) block = Inr bits"
    using block_bit_returns(2) [of block "s_ErasedBlocks s"] assms by (auto simp: prog_request_def)
  ultimately show ?thesis
    using assms(1) by (simp add: FlashProg_run prog_request_def)
qed

end

section \<open>The block device as a component\<close>

text \<open>The requests littlefs makes: inside the volume, programs by whole pages of one block.\<close>

datatype bd_op = Bd_Read u32 u32 u32 "u8 list" u32 | Bd_Prog u32 u32 "u8 list" u32 | Bd_Erase u32

fun bd_request :: "bd_op \<Rightarrow> bool" where
  "bd_request (Bd_Read block off dst buf sz) = (unat block < 256 \<and> unat sz \<le> length buf)"
| "bd_request (Bd_Prog block off buf sz) = prog_request block off buf sz"
| "bd_request (Bd_Erase block) = (unat block < 256)"

fun bd_step :: "'d flexspi_if \<Rightarrow> bd_op \<Rightarrow> 'd blockdev \<Rightarrow> (int \<times> 'd blockdev) outcome" where
  "bd_step X (Bd_Read block off dst buf sz) s = rbind (LFS_FlashRead X block off dst buf sz s) (\<lambda>(st, _). Inr (st, s))"
| "bd_step X (Bd_Prog block off buf sz) s = LFS_FlashProg X block off buf sz s"
| "bd_step X (Bd_Erase block) s = LFS_FlashErase X block s"

definition bd_serve :: "'d flexspi_if \<Rightarrow> bd_op \<Rightarrow> 'd blockdev \<Rightarrow> (int \<times> 'd blockdev) outcome" where
  "bd_serve X p s = (if bd_request p then bd_step X p s else Inr (LFS_ERR_OK, s))"

lemma flash_read_returns:
  "unat sz \<le> length buf \<Longrightarrow> \<exists>st buf'. LFS_FlashRead X block off dst buf sz s = Inr (st, buf')"
  by (auto simp: LFS_FlashRead_def SLN_Read_Flash_At_Address_def memcpy_eq Let_def)

context spi_live begin

lemma bd_serve_sound:
  assumes "erased_ok X s"
  shows "\<exists>r s'. bd_serve X p s = Inr (r, s') \<and> erased_ok X s'"
proof -
  have len: "length (s_ErasedBlocks s) = 8" using assms by (simp add: erased_ok_def)
  show ?thesis
  proof (cases "bd_request p")
    case True
    then show ?thesis
    proof (cases p)
      case (Bd_Read block off dst buf sz)
      then show ?thesis
        using True assms flash_read_returns [of sz buf X block off dst s] by (auto simp: bd_serve_def)
    next
      case (Bd_Prog block off buf sz)
      with True have r: "prog_request block off buf sz" by simp
      obtain s' where p: "LFS_FlashProg X block off buf sz s = Inr (0, s')" using flash_prog_returns [OF r len] by blast
      then show ?thesis using flash_prog_ok [OF p r assms] True Bd_Prog by (auto simp: bd_serve_def)
    next
      case (Bd_Erase block)
      with True have r: "unat block < 256" by simp
      obtain s' where p: "LFS_FlashErase X block s = Inr (0, s')" using flash_erase_returns [OF r len] by blast
      then show ?thesis using flash_erase_ok [OF p r assms] True Bd_Erase by (auto simp: bd_serve_def)
    qed
  qed (use assms in \<open>simp add: bd_serve_def\<close>)
qed

lemma bd_serve_inv: "erased_ok X s \<Longrightarrow> bd_serve X p s = Inr (r, s') \<Longrightarrow> erased_ok X s'"
  using bd_serve_sound [of s p] by auto

lemma bd_serve_total: "erased_ok X s \<Longrightarrow> \<exists>r s'. bd_serve X p s = Inr (r, s')"
  using bd_serve_sound [of s p] by auto

end

sublocale spi_live \<subseteq> bd: live_invariant "bd_serve X" "erased_ok X"
  by unfold_locales (fact bd_serve_inv bd_serve_total)+

context spi_live begin

lemma bd_run_returns:
  "erased_ok X s \<Longrightarrow> \<exists>rs t. run_ops (bd_serve X) ps s = Inr (rs, t) \<and> erased_ok X t \<and> length rs = length ps"
  by (rule bd.run_returns)

end

end
