(* ===== verification/Sln_Encrypt.thy ===== *)
theory Sln_Encrypt
  imports Prelude
begin

text \<open>
  \<open>source/filesystem/sln_encrypt.c\<close> of the smart lock: the table of key slots, and AES-CBC with
  a padded last block over the DCP coprocessor. The coprocessor driver is third-party code: a record
  of its functions, with CBC over an invertible block cipher as the contract of a locale. A context
  is passed by its address; \<open>C\<close> is the memory of the (constant) contexts.
\<close>

section \<open>Types\<close>

definition SLN_ENCRYPT_SLOTS :: nat where [simp]: "SLN_ENCRYPT_SLOTS = 3"
definition AES_BLOCK_SIZE :: nat where [simp]: "AES_BLOCK_SIZE = 16"

definition SLN_ENCRYPT_STATUS_OK :: int where [simp]: "SLN_ENCRYPT_STATUS_OK = 0"
definition SLN_ENCRYPT_NULL_CTX :: int where [simp]: "SLN_ENCRYPT_NULL_CTX = -1"
definition SLN_ENCRYPT_NULL_PARAM :: int where [simp]: "SLN_ENCRYPT_NULL_PARAM = -3"
definition SLN_ENCRYPT_INVALID_KEY :: int where [simp]: "SLN_ENCRYPT_INVALID_KEY = -4"
definition SLN_ENCRYPT_KEYSLOT_BUSY :: int where [simp]: "SLN_ENCRYPT_KEYSLOT_BUSY = -5"
definition SLN_ENCRYPT_KEYSLOT_INVALID :: int where [simp]: "SLN_ENCRYPT_KEYSLOT_INVALID = -6"
definition SLN_ENCRYPT_ENCRYPT_ERROR_1 :: int where [simp]: "SLN_ENCRYPT_ENCRYPT_ERROR_1 = -6"
definition SLN_ENCRYPT_CRC_ERROR_1 :: int where [simp]: "SLN_ENCRYPT_CRC_ERROR_1 = -10"
definition SLN_ENCRYPT_WRONG_OUT_BUFSIZE :: int where [simp]: "SLN_ENCRYPT_WRONG_OUT_BUFSIZE = -13"

record sln_encrypt_ctx_t =
  key :: "u8 list"
  iv :: "u8 list"
  keySize :: u16
  keySlot :: u8

record 'h dcp_if =
  DCP_Init :: "'h \<Rightarrow> 'h"
  DCP_Deinit :: "'h \<Rightarrow> 'h"
  DCP_AES_SetKey :: "nat \<Rightarrow> u8 list \<Rightarrow> u32 \<Rightarrow> 'h \<Rightarrow> int \<times> 'h"
  DCP_AES_EncryptCbc :: "nat \<Rightarrow> u8 list \<Rightarrow> u8 list \<Rightarrow> 'h \<Rightarrow> (int \<times> u8 list) \<times> 'h"
  DCP_AES_DecryptCbc :: "nat \<Rightarrow> u8 list \<Rightarrow> u8 list \<Rightarrow> 'h \<Rightarrow> (int \<times> u8 list) \<times> 'h"
  DCP_HASH :: "nat \<Rightarrow> u8 list \<Rightarrow> 'h \<Rightarrow> (int \<times> u8 list) \<times> 'h"

record 'h encrypt_st =
  s_SNL_EncryptCtx :: "nat option list"
  s_caamUsers :: u16
  dcp :: 'h

section \<open>Key slots\<close>

definition SLN_Encrypt_Attach_Key :: "nat option \<Rightarrow> u8 \<Rightarrow> 'h encrypt_st \<Rightarrow> 'h encrypt_st outcome" where
  "SLN_Encrypt_Attach_Key ctx slot s =
    (if unat slot < SLN_ENCRYPT_SLOTS
     then Inr (s\<lparr>s_SNL_EncryptCtx := (s_SNL_EncryptCtx s)[unat slot := ctx]\<rparr>) else Inl MemFault)"

fun detach_loop :: "nat option \<Rightarrow> nat option list \<Rightarrow> nat option list" where
  "detach_loop ctx [] = []"
| "detach_loop ctx (p # ps) = (if ctx = p then None # ps else p # detach_loop ctx ps)"

definition SLN_Encrypt_Detach_Key :: "nat option \<Rightarrow> 'h encrypt_st \<Rightarrow> 'h encrypt_st" where
  "SLN_Encrypt_Detach_Key ctx s = s\<lparr>s_SNL_EncryptCtx := detach_loop ctx (s_SNL_EncryptCtx s)\<rparr>"

definition SLN_Encrypt_Key_Loaded :: "nat option \<Rightarrow> 'h encrypt_st \<Rightarrow> bool" where
  "SLN_Encrypt_Key_Loaded ctx s = list_ex (\<lambda>p. ctx = p) (s_SNL_EncryptCtx s)"

definition SLN_Encrypt_KeySlot_Busy ::
    "(nat \<Rightarrow> sln_encrypt_ctx_t) \<Rightarrow> u8 \<Rightarrow> 'h encrypt_st \<Rightarrow> bool" where
  "SLN_Encrypt_KeySlot_Busy C slot s =
    list_ex (\<lambda>p. case p of None \<Rightarrow> False | Some c \<Rightarrow> slot = keySlot (C c)) (s_SNL_EncryptCtx s)"

definition SLN_Encrypt_Init_Slot ::
    "'h dcp_if \<Rightarrow> (nat \<Rightarrow> sln_encrypt_ctx_t) \<Rightarrow> nat option \<Rightarrow> 'h encrypt_st \<Rightarrow> (int \<times> 'h encrypt_st) outcome" where
  "SLN_Encrypt_Init_Slot D C ctx s =
    (case ctx of None \<Rightarrow> Inr (SLN_ENCRYPT_NULL_CTX, s)
     | Some c \<Rightarrow>
       if keySize (C c) \<noteq> 16 \<and> keySize (C c) \<noteq> 24 \<and> keySize (C c) \<noteq> 32
       then Inr (SLN_ENCRYPT_INVALID_KEY, s)
       else if SLN_Encrypt_KeySlot_Busy C (keySlot (C c)) s then Inr (SLN_ENCRYPT_KEYSLOT_BUSY, s)
       else rbind (SLN_Encrypt_Attach_Key ctx (keySlot (C c)) s) (\<lambda>s.
         let s = (if s_caamUsers s = 0 then s\<lparr>dcp := DCP_Init D (dcp s)\<rparr> else s)
         in Inr (SLN_ENCRYPT_STATUS_OK, s\<lparr>s_caamUsers := s_caamUsers s + 1\<rparr>)))"

definition SLN_Encrypt_Deinit_Slot :: "'h dcp_if \<Rightarrow> nat option \<Rightarrow> 'h encrypt_st \<Rightarrow> int \<times> 'h encrypt_st" where
  "SLN_Encrypt_Deinit_Slot D ctx s =
    (if s_caamUsers s = 0 then (SLN_ENCRYPT_STATUS_OK, s)
     else case ctx of None \<Rightarrow> (SLN_ENCRYPT_NULL_CTX, s)
     | Some c \<Rightarrow>
       let s = (if SLN_Encrypt_Key_Loaded ctx s then SLN_Encrypt_Detach_Key ctx s else s);
           s = s\<lparr>s_caamUsers := s_caamUsers s - 1\<rparr>;
           s = (if s_caamUsers s = 0 then s\<lparr>dcp := DCP_Deinit D (dcp s)\<rparr> else s)
       in (SLN_ENCRYPT_STATUS_OK, s))"

section \<open>Encryption and decryption\<close>

text \<open>
  The handle of a channel is one of four; the key is loaded again before every call and the status
  of the loading is overwritten by the status of the operation.
\<close>

definition dcp_call ::
    "(nat \<Rightarrow> u8 list \<Rightarrow> u8 list \<Rightarrow> 'h \<Rightarrow> (int \<times> u8 list) \<times> 'h) \<Rightarrow> 'h dcp_if \<Rightarrow> sln_encrypt_ctx_t \<Rightarrow>
      u8 list \<Rightarrow> 'h encrypt_st \<Rightarrow> ((int \<times> u8 list) \<times> 'h encrypt_st) outcome" where
  "dcp_call run D c data s =
    (if unat (keySlot c) < 4 then
       let (_, h) = DCP_AES_SetKey D (unat (keySlot c)) (key c) (ucast (keySize c)) (dcp s);
           (r, h) = run (unat (keySlot c)) data (iv c) h
       in Inr (r, s\<lparr>dcp := h\<rparr>)
     else Inl MemFault)"

definition SLN_Encrypt_Get_Crypt_Length :: "u32 \<Rightarrow> u32" where
  "SLN_Encrypt_Get_Crypt_Length plainLen =
    (plainLen div 16) * 16 + (if plainLen mod 16 \<noteq> 0 then 16 else 0)"

text \<open>The last block: the rest of the text, and its padding (memset of the remaining bytes).\<close>

definition with_pad :: "nat \<Rightarrow> u8 list \<Rightarrow> u8 list" where
  "with_pad pad tail = tail @ replicate pad (of_nat pad)"

definition SLN_Encrypt_AES_CBC_PKCS7 ::
    "'h dcp_if \<Rightarrow> (nat \<Rightarrow> sln_encrypt_ctx_t) \<Rightarrow> nat \<Rightarrow> u8 list \<Rightarrow> u32 \<Rightarrow> u8 list \<Rightarrow> u32 \<Rightarrow> 'h encrypt_st \<Rightarrow>
      ((int \<times> u8 list) \<times> 'h encrypt_st) outcome" where
  "SLN_Encrypt_AES_CBC_PKCS7 D C ctx src inSize out outSize s =
    (if outSize mod 16 \<noteq> 0 \<and> outSize < inSize then Inr ((SLN_ENCRYPT_WRONG_OUT_BUFSIZE, out), s)
     else if \<not> SLN_Encrypt_Key_Loaded (Some ctx) s then Inr ((SLN_ENCRYPT_KEYSLOT_INVALID, out), s)
     else
       let alignedSize = (unat inSize div AES_BLOCK_SIZE) * AES_BLOCK_SIZE;
           lastSize = unat inSize mod AES_BLOCK_SIZE
       in rbind (if alignedSize \<noteq> 0 then
              rbind (load_at 0 alignedSize src) (\<lambda>data.
              rbind (dcp_call (DCP_AES_EncryptCbc D) D (C ctx) data s) (\<lambda>((status, bytes), s).
              rbind (store_at 0 bytes out) (\<lambda>out. Inr (status, out, s))))
            else Inr (0, out, s)) (\<lambda>(status, out, s).
          if status \<noteq> 0 then Inr ((SLN_ENCRYPT_ENCRYPT_ERROR_1, out), s)
          else if lastSize \<noteq> 0 then
            let pad = AES_BLOCK_SIZE - lastSize
            in rbind (load_at alignedSize lastSize src) (\<lambda>tail.
               rbind (dcp_call (DCP_AES_EncryptCbc D) D (C ctx) (with_pad pad tail) s)
                 (\<lambda>((status, bytes), s).
               rbind (store_at alignedSize bytes out) (\<lambda>out.
               Inr ((if status \<noteq> 0 then SLN_ENCRYPT_ENCRYPT_ERROR_1 else SLN_ENCRYPT_STATUS_OK, out), s))))
          else Inr ((SLN_ENCRYPT_STATUS_OK, out), s)))"

text \<open>The scan of the padding runs down from the last byte of the block.\<close>

fun pad_scan :: "u8 \<Rightarrow> nat \<Rightarrow> u8 list \<Rightarrow> u8" where
  "pad_scan pad 0 rest = pad"
| "pad_scan pad (Suc n) (b # rest) = (if b \<noteq> pad then 0 else pad_scan pad n rest)"
| "pad_scan pad (Suc n) [] = 0"

definition plain_tail :: "u8 list \<Rightarrow> nat" where
  "plain_tail block =
    (let pad = block ! (AES_BLOCK_SIZE - 1)
     in if unat pad < AES_BLOCK_SIZE
        then AES_BLOCK_SIZE - unat (pad_scan pad (unat pad) (rev block))
        else AES_BLOCK_SIZE)"

definition SLN_Decrypt_AES_CBC_PKCS7 ::
    "'h dcp_if \<Rightarrow> (nat \<Rightarrow> sln_encrypt_ctx_t) \<Rightarrow> nat \<Rightarrow> u8 list \<Rightarrow> u32 \<Rightarrow> u8 list \<Rightarrow> u32 \<Rightarrow> 'h encrypt_st \<Rightarrow>
      ((int \<times> u8 list \<times> u32) \<times> 'h encrypt_st) outcome" where
  "SLN_Decrypt_AES_CBC_PKCS7 D C ctx src inSize out outSize s =
    (if inSize mod 16 \<noteq> 0 \<and> outSize < inSize then Inr ((SLN_ENCRYPT_STATUS_OK, out, outSize), s)
     else if \<not> SLN_Encrypt_Key_Loaded (Some ctx) s then Inr ((SLN_ENCRYPT_STATUS_OK, out, outSize), s)
     else
       let alignedSize = (if 16 < inSize then unat inSize - AES_BLOCK_SIZE else 0)
       in rbind (if alignedSize \<noteq> 0 then
              rbind (load_at 0 (unat inSize) src) (\<lambda>data.
              rbind (dcp_call (DCP_AES_DecryptCbc D) D (C ctx) data s) (\<lambda>((status, bytes), s).
              rbind (store_at 0 bytes out) (\<lambda>out. Inr (status, out, s))))
            else Inr (0, out, s)) (\<lambda>(status, out, s).
          if status \<noteq> 0 then Inr ((SLN_ENCRYPT_STATUS_OK, out, outSize), s)
          else
            rbind (load_at alignedSize AES_BLOCK_SIZE src) (\<lambda>data.
            rbind (dcp_call (DCP_AES_DecryptCbc D) D (C ctx) data s) (\<lambda>((status, block), s).
            if status \<noteq> 0 then Inr ((SLN_ENCRYPT_STATUS_OK, out, outSize), s)
            else
              rbind (store_at alignedSize (take (plain_tail block) block) out) (\<lambda>out.
              Inr ((SLN_ENCRYPT_STATUS_OK, out, of_nat (alignedSize + plain_tail block)), s))))))"

text \<open>The context is read before it is tested for NULL.\<close>

definition SLN_Crc ::
    "'h dcp_if \<Rightarrow> (nat \<Rightarrow> sln_encrypt_ctx_t) \<Rightarrow> nat option \<Rightarrow> u8 list option \<Rightarrow> u32 \<Rightarrow> u8 list option \<Rightarrow>
      u32 option \<Rightarrow> 'h encrypt_st \<Rightarrow> ((int \<times> u8 list option) \<times> 'h encrypt_st) outcome" where
  "SLN_Crc D C ctx src inSize out outSize s =
    (case ctx of None \<Rightarrow> Inl MemFault
     | Some c \<Rightarrow>
       if \<not> SLN_Encrypt_Key_Loaded ctx s then Inr ((SLN_ENCRYPT_KEYSLOT_INVALID, out), s)
       else case (src, out, outSize) of
         (Some data, Some buf, Some _) \<Rightarrow>
           if 4 \<le> unat (keySlot (C c)) then Inl MemFault
           else rbind (load_at 0 (unat inSize) data) (\<lambda>data.
             let ((status, digest), h) = DCP_HASH D (unat (keySlot (C c))) data (dcp s)
             in rbind (store_at 0 digest buf) (\<lambda>buf.
                Inr ((if status \<noteq> 0 then SLN_ENCRYPT_CRC_ERROR_1 else SLN_ENCRYPT_STATUS_OK, Some buf),
                  s\<lparr>dcp := h\<rparr>)))
       | _ \<Rightarrow> Inr ((SLN_ENCRYPT_NULL_PARAM, out), s))"

section \<open>The contract of the coprocessor: CBC over an invertible block cipher\<close>

definition xor_block :: "u8 list \<Rightarrow> u8 list \<Rightarrow> u8 list" where
  "xor_block xs ys = map2 (\<lambda>x y. x XOR y) xs ys"

lemma length_xor_block [simp]: "length (xor_block xs ys) = min (length xs) (length ys)"
  by (simp add: xor_block_def)

lemma xor_block_twice [simp]: "length xs \<le> length ys \<Longrightarrow> xor_block (xor_block xs ys) ys = xs"
proof (induction xs ys rule: list_induct2')
  case (4 x xs y ys)
  have "(x XOR y) XOR y = x" by (simp add: xor.assoc)
  then show ?case using 4 by (simp add: xor_block_def)
qed (simp_all add: xor_block_def)

function cbc_enc :: "(u8 list \<Rightarrow> u8 list) \<Rightarrow> u8 list \<Rightarrow> u8 list \<Rightarrow> u8 list" where
  "cbc_enc e v xs = (if length xs < 16 then [] else
     let c = e (xor_block (take 16 xs) v) in c @ cbc_enc e c (drop 16 xs))"
  by pat_completeness auto
termination by (relation "measure (\<lambda>(e, v, xs). length xs)") auto

function cbc_dec :: "(u8 list \<Rightarrow> u8 list) \<Rightarrow> u8 list \<Rightarrow> u8 list \<Rightarrow> u8 list" where
  "cbc_dec d v xs = (if length xs < 16 then [] else
     xor_block (d (take 16 xs)) v @ cbc_dec d (take 16 xs) (drop 16 xs))"
  by pat_completeness auto
termination by (relation "measure (\<lambda>(d, v, xs). length xs)") auto

declare cbc_enc.simps [simp del] cbc_dec.simps [simp del]

definition block_cipher :: "(u8 list \<Rightarrow> u8 list) \<Rightarrow> (u8 list \<Rightarrow> u8 list) \<Rightarrow> bool" where
  "block_cipher e d \<longleftrightarrow> (\<forall>b. length b = 16 \<longrightarrow> length (e b) = 16 \<and> length (d b) = 16 \<and> d (e b) = b)"

lemma block_cipherD:
  assumes "block_cipher e d" and "length b = 16"
  shows "length (e b) = 16" and "length (d b) = 16" and "d (e b) = b"
  using assms by (auto simp: block_cipher_def)

lemma cbc_enc_short: "length xs < 16 \<Longrightarrow> cbc_enc e v xs = []"
  by (subst cbc_enc.simps) simp

lemma cbc_enc_block: "16 \<le> length xs \<Longrightarrow>
  cbc_enc e v xs = e (xor_block (take 16 xs) v) @ cbc_enc e (e (xor_block (take 16 xs) v)) (drop 16 xs)"
  by (subst cbc_enc.simps) (simp add: Let_def)

lemma cbc_dec_short: "length xs < 16 \<Longrightarrow> cbc_dec d v xs = []"
  by (subst cbc_dec.simps) simp

lemma cbc_dec_block: "16 \<le> length xs \<Longrightarrow>
  cbc_dec d v xs = xor_block (d (take 16 xs)) v @ cbc_dec d (take 16 xs) (drop 16 xs)"
  by (subst cbc_dec.simps) simp

lemma length_cbc_enc:
  assumes "block_cipher e d"
  shows "length v = 16 \<Longrightarrow> length (cbc_enc e v xs) = (length xs div 16) * 16"
  using assms
proof (induction e v xs rule: cbc_enc.induct)
  case (1 e v xs)
  show ?case
  proof (cases "length xs < 16")
    case False
    let ?c = "e (xor_block (take 16 xs) v)"
    have "length ?c = 16" using block_cipherD(1) [OF 1(3)] False 1(2) by simp
    then have "length (cbc_enc e ?c (drop 16 xs)) = (length xs - 16) div 16 * 16"
      using 1(1) [OF False refl] 1(3) by simp
    then show ?thesis using False \<open>length ?c = 16\<close>
      by (simp add: cbc_enc_block le_div_geq)
  qed (simp add: cbc_enc_short)
qed

lemma length_cbc_dec:
  assumes "block_cipher e d"
  shows "length v = 16 \<Longrightarrow> length (cbc_dec d v xs) = (length xs div 16) * 16"
  using assms
proof (induction d v xs rule: cbc_dec.induct)
  case (1 d v xs)
  then show ?case
    by (cases "length xs < 16")
       (simp_all add: cbc_dec_short cbc_dec_block block_cipherD le_div_geq)
qed

lemma cbc_inverse:
  assumes "block_cipher e d"
  shows "length v = 16 \<Longrightarrow> length xs mod 16 = 0 \<Longrightarrow> cbc_dec d v (cbc_enc e v xs) = xs"
  using assms
proof (induction e v xs rule: cbc_enc.induct)
  case (1 e v xs)
  show ?case
  proof (cases "length xs < 16")
    case True
    then show ?thesis using 1(3) by (simp add: cbc_enc_short cbc_dec_short)
  next
    case False
    let ?b = "xor_block (take 16 xs) v"
    have b: "length ?b = 16" using False 1(2) by simp
    have c: "length (e ?b) = 16" "d (e ?b) = ?b" using block_cipherD [OF 1(4) b] by auto
    have "cbc_dec d (e ?b) (cbc_enc e (e ?b) (drop 16 xs)) = drop 16 xs"
      using 1(1) [OF False refl] c False 1(3,4) by (simp add: le_mod_geq)
    then show ?thesis using False c 1(2)
      by (simp add: cbc_enc_block cbc_dec_block)
  qed
qed

lemma cbc_dec_append:
  assumes "block_cipher e d" and "length xs mod 16 = 0"
  shows "length v = 16 \<Longrightarrow>
    cbc_dec d v (xs @ ys) = cbc_dec d v xs @ cbc_dec d (if xs = [] then v else drop (length xs - 16) xs) ys"
  using assms
proof (induction d v xs rule: cbc_dec.induct)
  case (1 d v xs)
  show ?case
  proof (cases "length xs < 16")
    case True
    then show ?thesis using 1(4) by (simp add: cbc_dec_short)
  next
    case False
    have "cbc_dec d (take 16 xs) (drop 16 xs @ ys) = cbc_dec d (take 16 xs) (drop 16 xs) @
        cbc_dec d (if drop 16 xs = [] then take 16 xs else drop (length (drop 16 xs) - 16) (drop 16 xs)) ys"
      using 1(1) [OF False] 1(3,4) False by (simp add: le_mod_geq)
    moreover have "(if drop 16 xs = [] then take 16 xs else drop (length (drop 16 xs) - 16) (drop 16 xs))
        = drop (length xs - 16) xs"
    proof -
      have l: "length xs = 16 \<or> 32 \<le> length xs" using False 1(4) by presburger
      show ?thesis
      proof (cases "length xs = 16")
        case False
        then have "length xs - 32 + 16 = length xs - 16" using l by linarith
        then show ?thesis using False l by simp
      qed simp
    qed
    moreover have "cbc_dec d v (xs @ ys) = xor_block (d (take 16 xs)) v @ cbc_dec d (take 16 xs) (drop 16 xs @ ys)"
      using False cbc_dec_block [of "xs @ ys" d v] by simp
    moreover have "cbc_dec d v xs = xor_block (d (take 16 xs)) v @ cbc_dec d (take 16 xs) (drop 16 xs)"
      using False cbc_dec_block [of xs d v] by simp
    moreover have "xs \<noteq> []" using False by auto
    ultimately show ?thesis by simp
  qed
qed

lemma cbc_enc_append:
  assumes "block_cipher e d" and "length xs mod 16 = 0"
  shows "length v = 16 \<Longrightarrow> cbc_enc e v (xs @ ys) =
    cbc_enc e v xs @ cbc_enc e (if xs = [] then v else drop (length xs - 16) (cbc_enc e v xs)) ys"
  using assms
proof (induction e v xs rule: cbc_enc.induct)
  case (1 e v xs)
  show ?case
  proof (cases "length xs < 16")
    case True
    then show ?thesis using 1(4) by (simp add: cbc_enc_short)
  next
    case False
    define c where "c = e (xor_block (take 16 xs) v)"
    have lc: "length c = 16" unfolding c_def using block_cipherD(1) [OF 1(3)] False 1(2) by simp
    have m: "length (drop 16 xs) mod 16 = 0" using 1(4) False by (simp add: le_mod_geq)
    have IH: "cbc_enc e c (drop 16 xs @ ys) = cbc_enc e c (drop 16 xs) @
        cbc_enc e (if drop 16 xs = [] then c else drop (length (drop 16 xs) - 16) (cbc_enc e c (drop 16 xs))) ys"
      using 1(1) [OF False c_def lc 1(3) m] .
    have len: "length (cbc_enc e c (drop 16 xs)) = length xs - 16"
      using length_cbc_enc [OF 1(3) lc, of "drop 16 xs"] m by (simp add: div_mult_mod_eq [symmetric] mult.commute) presburger
    have "(if drop 16 xs = [] then c else drop (length (drop 16 xs) - 16) (cbc_enc e c (drop 16 xs)))
        = drop (length xs - 16) (c @ cbc_enc e c (drop 16 xs))"
    proof -
      have l: "length xs = 16 \<or> 32 \<le> length xs" using False 1(4) by presburger
      show ?thesis
      proof (cases "length xs = 16")
        case True
        then show ?thesis using lc by (simp add: cbc_enc_short)
      next
        case False
        then have "length xs - 16 - 16 = length xs - 32" "16 \<le> length xs - 16" using l by linarith+
        then show ?thesis using False l lc by simp
      qed
    qed
    moreover have "cbc_enc e v (xs @ ys) = c @ cbc_enc e c (drop 16 xs @ ys)"
      using False cbc_enc_block [of "xs @ ys" e v] by (simp add: c_def)
    moreover have "cbc_enc e v xs = c @ cbc_enc e c (drop 16 xs)"
      using False cbc_enc_block [of xs e v] by (simp add: c_def)
    moreover have "xs \<noteq> []" using False by auto
    ultimately show ?thesis using IH by simp
  qed
qed

definition ctx_ok :: "sln_encrypt_ctx_t \<Rightarrow> bool" where
  "ctx_ok c \<longleftrightarrow> length (key c) = 16 \<and> length (iv c) = 16 \<and> keySize c = 16 \<and> unat (keySlot c) < 3"

locale dcp_cbc =
  fixes D :: "'h dcp_if"
    and e d :: "u8 list \<Rightarrow> u8 list \<Rightarrow> u8 list"
    and loaded :: "'h \<Rightarrow> nat \<Rightarrow> u8 list"
  assumes cipher: "length k = 16 \<Longrightarrow> block_cipher (e k) (d k)"
    and set_key: "length k = 16 \<Longrightarrow> DCP_AES_SetKey D slot k 16 h = (st, h') \<Longrightarrow> loaded h' slot = k"
    and encrypt: "length (loaded h slot) = 16 \<Longrightarrow> length v = 16 \<Longrightarrow> length xs mod 16 = 0 \<Longrightarrow>
      \<exists>h'. DCP_AES_EncryptCbc D slot xs v h = ((0, cbc_enc (e (loaded h slot)) v xs), h')"
    and decrypt: "length (loaded h slot) = 16 \<Longrightarrow> length v = 16 \<Longrightarrow> length xs mod 16 = 0 \<Longrightarrow>
      \<exists>h'. DCP_AES_DecryptCbc D slot xs v h = ((0, cbc_dec (d (loaded h slot)) v xs), h')"
begin

lemma call_encrypt:
  assumes "ctx_ok c" and "length xs mod 16 = 0"
  shows "\<exists>h. dcp_call (DCP_AES_EncryptCbc D) D c xs s = Inr ((0, cbc_enc (e (key c)) (iv c) xs), s\<lparr>dcp := h\<rparr>)"
proof -
  obtain st h where k: "DCP_AES_SetKey D (unat (keySlot c)) (key c) 16 (dcp s) = (st, h)" by fastforce
  have "loaded h (unat (keySlot c)) = key c" using set_key [OF _ k] assms(1) by (simp add: ctx_ok_def)
  then obtain h' where "DCP_AES_EncryptCbc D (unat (keySlot c)) xs (iv c) h =
      ((0, cbc_enc (e (key c)) (iv c) xs), h')"
    using encrypt [of h "unat (keySlot c)" "iv c" xs] assms by (auto simp: ctx_ok_def)
  then show ?thesis using assms(1) k by (auto simp: dcp_call_def ctx_ok_def)
qed

lemma call_decrypt:
  assumes "ctx_ok c" and "length xs mod 16 = 0"
  shows "\<exists>h. dcp_call (DCP_AES_DecryptCbc D) D c xs s = Inr ((0, cbc_dec (d (key c)) (iv c) xs), s\<lparr>dcp := h\<rparr>)"
proof -
  obtain st h where k: "DCP_AES_SetKey D (unat (keySlot c)) (key c) 16 (dcp s) = (st, h)" by fastforce
  have "loaded h (unat (keySlot c)) = key c" using set_key [OF _ k] assms(1) by (simp add: ctx_ok_def)
  then obtain h' where "DCP_AES_DecryptCbc D (unat (keySlot c)) xs (iv c) h =
      ((0, cbc_dec (d (key c)) (iv c) xs), h')"
    using decrypt [of h "unat (keySlot c)" "iv c" xs] assms by (auto simp: ctx_ok_def)
  then show ?thesis using assms(1) k by (auto simp: dcp_call_def ctx_ok_def)
qed

end

text \<open>What is stored for a plain text: the whole blocks, and the rest padded in a block of its own.\<close>

definition pad_block :: "u8 list \<Rightarrow> u8 list" where
  "pad_block tail = with_pad (16 - length tail) tail"

definition sealed :: "(u8 list \<Rightarrow> u8 list) \<Rightarrow> u8 list \<Rightarrow> u8 list \<Rightarrow> u8 list" where
  "sealed e v xs = cbc_enc e v (take (length xs div 16 * 16) xs) @
     (if length xs mod 16 \<noteq> 0 then cbc_enc e v (pad_block (drop (length xs div 16 * 16) xs)) else [])"

definition sealed_len :: "nat \<Rightarrow> nat" where
  "sealed_len n = n div 16 * 16 + (if n mod 16 \<noteq> 0 then 16 else 0)"

lemma sealed_len_mod [simp]: "sealed_len n mod 16 = 0"
  by (simp add: sealed_len_def)

lemma le_sealed_len: "n \<le> sealed_len n"
  unfolding sealed_len_def by presburger

lemma length_pad_block: "length t \<le> 16 \<Longrightarrow> length (pad_block t) = 16"
  by (simp add: pad_block_def with_pad_def)

lemma length_sealed: "block_cipher e d \<Longrightarrow> length v = 16 \<Longrightarrow> length (sealed e v xs) = sealed_len (length xs)"
  by (simp add: sealed_def sealed_len_def length_cbc_enc length_pad_block minus_div_mult_eq_mod less_imp_le)

lemma crypt_length:
  assumes "unat n < 4294967280"
  shows "unat (SLN_Encrypt_Get_Crypt_Length n) = sealed_len (unat n)"
proof -
  have d: "unat (n div 16 * 16) = unat n div 16 * 16"
  proof -
    have "unat n div 16 * 16 < 4294967296"
      using div_times_less_eq_dividend [of "unat n" 16] unat_u32_less [of n] by linarith
    then show ?thesis by (simp add: unat_word_ariths unat_div)
  qed
  have m: "n mod 16 = 0 \<longleftrightarrow> unat n mod 16 = 0"
    by (simp add: unat_eq_zero [symmetric] unat_mod del: unat_eq_zero)
  show ?thesis
    using assms unat_add_small [of "n div 16 * 16" 16]
    by (auto simp: SLN_Encrypt_Get_Crypt_Length_def sealed_len_def d m)
qed

lemma pad_scan_replicate: "pad_scan p n (replicate n p @ ys) = p"
  by (induction n) simp_all

lemma plain_tail_pad:
  assumes "0 < length t" and "length t < 16"
  shows "plain_tail (pad_block t) = length t"
proof -
  define k where "k = 16 - length t"
  have k: "0 < k" "k < 16" using assms by (auto simp: k_def)
  have u: "unat (of_nat k :: u8) = k" using k by (simp add: unat_of_nat)
  have b: "pad_block t = t @ replicate k (of_nat k)" by (simp add: pad_block_def with_pad_def k_def)
  have last: "pad_block t ! 15 = of_nat k"
    unfolding b using assms by (simp add: nth_append k_def)
  have "pad_scan (of_nat k) k (rev (pad_block t)) = of_nat k"
    unfolding b by (simp add: pad_scan_replicate)
  then show ?thesis using last u k by (simp add: plain_tail_def k_def)
qed

lemma loaded_dcp_update [simp]: "SLN_Encrypt_Key_Loaded c (s\<lparr>dcp := h\<rparr>) = SLN_Encrypt_Key_Loaded c s"
  by (simp add: SLN_Encrypt_Key_Loaded_def)

context dcp_cbc
begin

lemma encrypt_ok:
  assumes c: "ctx_ok (C c)" "SLN_Encrypt_Key_Loaded (Some c) s"
    and n: "unat n = length xs" and l: "length out = sealed_len (length xs)" "unat m = sealed_len (length xs)"
  shows "\<exists>h. SLN_Encrypt_AES_CBC_PKCS7 D C c xs n out m s =
    Inr ((SLN_ENCRYPT_STATUS_OK, sealed (e (key (C c))) (iv (C c)) xs), s\<lparr>dcp := h\<rparr>)"
proof -
  define E where "E = cbc_enc (e (key (C c))) (iv (C c))"
  let ?A = "length xs div 16 * 16" and ?L = "length xs mod 16"
  have bc: "block_cipher (e (key (C c))) (d (key (C c)))" and v: "length (iv (C c)) = 16"
    using c(1) cipher by (auto simp: ctx_ok_def)
  have lenE: "length (E ys) = length ys div 16 * 16" for ys
    unfolding E_def by (rule length_cbc_enc [OF bc v])
  have E0: "E [] = []" by (simp add: E_def cbc_enc_short)
  have m: "m mod 16 = 0" using l(2) by (simp add: unat_eq_zero [symmetric] unat_mod del: unat_eq_zero)
  have al: "?A \<le> length xs" "?A + ?L = length xs" by simp_all
  obtain h1 where h1: "dcp_call (DCP_AES_EncryptCbc D) D (C c) (take ?A xs) s = Inr ((0, E (take ?A xs)), s\<lparr>dcp := h1\<rparr>)"
    using call_encrypt [OF c(1), of "take ?A xs" s] by (auto simp: E_def)
  have first: "(if ?A \<noteq> 0 then
              rbind (load_at 0 ?A xs) (\<lambda>data.
              rbind (dcp_call (DCP_AES_EncryptCbc D) D (C c) data s) (\<lambda>((status, bytes), s).
              rbind (store_at 0 bytes out) (\<lambda>out. Inr (status, out, s))))
            else Inr (0, out, s)) = Inr (0, E (take ?A xs) @ drop ?A out, if ?A \<noteq> 0 then s\<lparr>dcp := h1\<rparr> else s)"
    (is "?first = _")
    using h1 l(1) E0 by (auto simp: lenE sealed_len_def slice_def blit_def)
  show ?thesis
  proof (cases "?L = 0")
    case True
    then have "E (take ?A xs) @ drop ?A out = sealed (e (key (C c))) (iv (C c)) xs"
      using l(1) by (simp add: sealed_def E_def sealed_len_def)
    then show ?thesis using c(2) m n True first
      by (auto simp: SLN_Encrypt_AES_CBC_PKCS7_def Let_def intro: exI [of _ "dcp s"])
  next
    case False
    let ?s = "if ?A \<noteq> 0 then s\<lparr>dcp := h1\<rparr> else s"
    let ?P = "pad_block (drop ?A xs)"
    have lP: "length ?P = 16" by (rule length_pad_block) (simp add: minus_div_mult_eq_mod less_imp_le)
    obtain h2 where h2: "dcp_call (DCP_AES_EncryptCbc D) D (C c) ?P ?s = Inr ((0, E ?P), s\<lparr>dcp := h2\<rparr>)"
      using call_encrypt [OF c(1), of ?P ?s] lP by (auto simp: E_def split: if_splits)
    have P: "with_pad (16 - ?L) (drop ?A xs) = ?P"
      by (simp add: pad_block_def minus_div_mult_eq_mod)
    have ld: "load_at ?A ?L xs = Inr (drop ?A xs)" using al by (simp add: slice_def minus_div_mult_eq_mod)
    have lo: "length (E ?P) = 16" "length (E (take ?A xs)) = ?A" using lP by (simp_all add: lenE)
    have "store_at ?A (E ?P) (E (take ?A xs) @ drop ?A out) = Inr (sealed (e (key (C c))) (iv (C c)) xs)"
      using l(1) False lo by (simp add: sealed_def E_def [symmetric] sealed_len_def blit_def)
    then show ?thesis using c(2) m False h2 ld P
      unfolding SLN_Encrypt_AES_CBC_PKCS7_def Let_def n AES_BLOCK_SIZE_def first
      by (simp add: exI [of _ h2] del: store_at_in)
  qed
qed

lemma decrypt_ok:
  assumes c: "ctx_ok (C c)" "SLN_Encrypt_Key_Loaded (Some c) s"
    and n: "unat n = length ys" "length ys mod 16 = 0" "16 \<le> length ys" and l: "length out = length ys"
    and block: "block = cbc_dec (d (key (C c))) (iv (C c)) (drop (length ys - 16) ys)"
  shows "\<exists>h. SLN_Decrypt_AES_CBC_PKCS7 D C c ys n out m s =
    Inr ((SLN_ENCRYPT_STATUS_OK,
      blit (length ys - 16) (take (plain_tail block) block)
        (if 16 < length ys then cbc_dec (d (key (C c))) (iv (C c)) ys else out),
      of_nat (length ys - 16 + plain_tail block)), s\<lparr>dcp := h\<rparr>)"
proof -
  define F where "F = cbc_dec (d (key (C c))) (iv (C c))"
  have bc: "block_cipher (e (key (C c))) (d (key (C c)))" and v: "length (iv (C c)) = 16"
    using c(1) cipher by (auto simp: ctx_ok_def)
  have lenF: "length (F zs) = length zs div 16 * 16" for zs
    unfolding F_def by (rule length_cbc_dec [OF bc v])
  have lys: "length ys div 16 * 16 = length ys" and l16: "16 \<le> length ys"
    using n(2,3) by (auto simp: Suc_le_eq dvd_imp_le)
  have m: "n mod 16 = 0" using n(1,2) by (simp add: unat_eq_zero [symmetric] unat_mod del: unat_eq_zero)
  have gt: "16 < n \<longleftrightarrow> 16 < length ys" using n(1) by (simp add: word_less_nat_alt)
  obtain h1 where h1: "dcp_call (DCP_AES_DecryptCbc D) D (C c) ys s = Inr ((0, F ys), s\<lparr>dcp := h1\<rparr>)"
    using call_decrypt [OF c(1) n(2), of s] by (auto simp: F_def)
  let ?A = "length ys - 16"
  let ?s = "if 16 < length ys then s\<lparr>dcp := h1\<rparr> else s" and ?out = "if 16 < length ys then F ys else out"
  have A: "(if 16 < n then unat n - AES_BLOCK_SIZE else 0) = ?A" using gt n(1) l16 by auto
  have first: "(if ?A \<noteq> 0 then
              rbind (load_at 0 (unat n) ys) (\<lambda>data.
              rbind (dcp_call (DCP_AES_DecryptCbc D) D (C c) data s) (\<lambda>((status, bytes), s).
              rbind (store_at 0 bytes out) (\<lambda>out. Inr (status, out, s))))
            else Inr (0, out, s)) = Inr (0, ?out, ?s)"
    using h1 l n(1) by (auto simp: lenF lys blit_def)
  have d16: "length (drop ?A ys) = 16" using l16 by simp
  obtain h2 where h2: "dcp_call (DCP_AES_DecryptCbc D) D (C c) (drop ?A ys) ?s = Inr ((0, block), s\<lparr>dcp := h2\<rparr>)"
    using call_decrypt [OF c(1), of "drop ?A ys" ?s] d16 by (auto simp: block split: if_splits)
  have ld: "load_at ?A 16 ys = Inr (drop ?A ys)" using l16 by (simp add: slice_def)
  have "length block = 16" using d16 by (simp add: block lenF [unfolded F_def])
  moreover have "length ?out = length ys" using l by (simp add: lenF lys)
  ultimately have "store_at ?A (take (plain_tail block) block) ?out = Inr (blit ?A (take (plain_tail block) block) ?out)"
    using l16 by (intro store_at_in) auto
  then have "SLN_Decrypt_AES_CBC_PKCS7 D C c ys n out m s = Inr ((SLN_ENCRYPT_STATUS_OK,
      blit ?A (take (plain_tail block) block) ?out, of_nat (?A + plain_tail block)), s\<lparr>dcp := h2\<rparr>)"
    using c(2) m h2 ld first unfolding SLN_Decrypt_AES_CBC_PKCS7_def A Let_def by simp
  then show ?thesis unfolding F_def by blast
qed

text \<open>A stored text that does not end on a block boundary is read back from its sealed bytes.\<close>

lemma decrypt_sealed:
  assumes c: "ctx_ok (C c)" "SLN_Encrypt_Key_Loaded (Some c) s"
    and n: "unat m = sealed_len (length xs)" "length xs mod 16 \<noteq> 0"
    and l: "length plain = sealed_len (length xs)"
  shows "\<exists>p h. SLN_Decrypt_AES_CBC_PKCS7 D C c (sealed (e (key (C c))) (iv (C c)) xs) m plain m' s =
      Inr ((SLN_ENCRYPT_STATUS_OK, p, of_nat (length xs)), s\<lparr>dcp := h\<rparr>) \<and>
    length p = sealed_len (length xs) \<and> take (length xs) p = xs"
proof -
  let ?e = "e (key (C c))" and ?d = "d (key (C c))" and ?v = "iv (C c)"
  define A where "A = length xs div 16 * 16"
  define t where "t = drop A xs"
  have A: "A mod 16 = 0" "A \<le> length xs" "A + length t = length xs" "0 < length t" "length t < 16"
    using n(2) by (simp_all add: A_def t_def minus_div_mult_eq_mod)
  have L: "sealed_len (length xs) = A + 16" using n(2) by (simp add: sealed_len_def A_def)
  have bc: "block_cipher ?e ?d" and v: "length ?v = 16"
    using c(1) cipher by (auto simp: ctx_ok_def)
  define cA where "cA = cbc_enc ?e ?v (take A xs)"
  define cB where "cB = cbc_enc ?e ?v (pad_block t)"
  have lP: "length (pad_block t) = 16" using A(5) by (simp add: length_pad_block)
  have lc: "length cA = A" "length cB = 16"
    unfolding cA_def cB_def by (subst length_cbc_enc [OF bc v]; use A lP in \<open>simp add: min_def A_def\<close>)+
  have ct: "sealed ?e ?v xs = cA @ cB" using n(2) by (simp add: sealed_def cA_def cB_def t_def A_def)
  have dB: "cbc_dec ?d ?v (drop (length (cA @ cB) - 16) (cA @ cB)) = pad_block t"
    using cbc_inverse [OF bc v, of "pad_block t"] lc lP by (simp add: cB_def)
  have pt: "plain_tail (pad_block t) = length t" by (rule plain_tail_pad [OF A(4,5)])
  have tk: "take (length t) (pad_block t) = t" by (simp add: pad_block_def with_pad_def)
  define q where "q = (if 16 < A + 16 then cbc_dec ?d ?v (cA @ cB) else plain)"
  define p where "p = blit A t q"
  have lq: "length q = A + 16"
    using lc A(1) l L length_cbc_dec [OF bc v, of "cA @ cB"] by (auto simp: q_def)
  have "\<exists>h. SLN_Decrypt_AES_CBC_PKCS7 D C c (cA @ cB) m plain m' s =
      Inr ((SLN_ENCRYPT_STATUS_OK, p, of_nat (A + length t)), s\<lparr>dcp := h\<rparr>)"
    using decrypt_ok [where C = C and c = c, OF c, of m "cA @ cB" plain "pad_block t" m'] n(1) lc l L A(1) dB
    unfolding pt tk p_def q_def by auto
  moreover have "take (length xs) p = xs"
  proof (cases "A = 0")
    case True
    then show ?thesis using A(3) by (simp add: p_def blit_def t_def)
  next
    case False
    have "cbc_dec ?d ?v (cA @ cB) = cbc_dec ?d ?v cA @ cbc_dec ?d (if cA = [] then ?v else drop (length cA - 16) cA) cB"
      by (rule cbc_dec_append [OF bc _ v]) (use lc A(1) in simp)
    also have "cbc_dec ?d ?v cA = take A xs"
      unfolding cA_def by (rule cbc_inverse [OF bc v]) (use A in simp)
    finally have "take A (cbc_dec ?d ?v (cA @ cB)) = take A xs" using A(2) by simp
    then show ?thesis using False A(3) by (simp add: p_def q_def blit_def t_def)
  qed
  moreover have "length p = sealed_len (length xs)" using lq L A by (simp add: p_def length_blit)
  ultimately show ?thesis using ct A(3) by auto
qed

end

section \<open>What is read back\<close>

definition sim_cipher :: "u8 list \<Rightarrow> u8 list \<Rightarrow> u8 list" where
  "sim_cipher k b = xor_block b k"

definition dcp_sim :: "(nat \<Rightarrow> u8 list) dcp_if" where
  "dcp_sim = \<lparr>DCP_Init = id, DCP_Deinit = id,
     DCP_AES_SetKey = (\<lambda>slot k n h. (0, h(slot := k))),
     DCP_AES_EncryptCbc = (\<lambda>slot xs v h. ((0, cbc_enc (sim_cipher (h slot)) v xs), h)),
     DCP_AES_DecryptCbc = (\<lambda>slot xs v h. ((0, cbc_dec (sim_cipher (h slot)) v xs), h)),
     DCP_HASH = (\<lambda>slot xs h. ((0, replicate 32 0), h))\<rparr>"

lemma sim_cbc: "dcp_cbc dcp_sim sim_cipher sim_cipher (\<lambda>h. h)"
  by unfold_locales (auto simp: dcp_sim_def block_cipher_def sim_cipher_def)

interpretation sim_dcp: dcp_cbc dcp_sim sim_cipher sim_cipher "\<lambda>h. h"
  by (rule sim_cbc)

definition sim_ctx :: sln_encrypt_ctx_t where
  "sim_ctx = \<lparr>key = replicate 16 7, iv = replicate 16 9, keySize = 16, keySlot = 1\<rparr>"

definition sim_crypt :: "(nat \<Rightarrow> u8 list) encrypt_st" where
  "sim_crypt = \<lparr>s_SNL_EncryptCtx = [None, Some 0, None], s_caamUsers = 1, dcp = (\<lambda>_. [])\<rparr>"

lemma sim_ctx_ok: "ctx_ok sim_ctx" "SLN_Encrypt_Key_Loaded (Some 0) sim_crypt"
  by (simp_all add: ctx_ok_def sim_ctx_def sim_crypt_def SLN_Encrypt_Key_Loaded_def)

text \<open>C22: What is encrypted is read back: for a text that does not end on a block boundary the
  decryption of the stored bytes returns the text and its length.\<close>
theorem encrypt_roundtrip:
  assumes D: "dcp_cbc D e d loaded"
    and c: "ctx_ok (C c)" "SLN_Encrypt_Key_Loaded (Some c) s"
    and n: "unat n = length xs" "length xs mod 16 \<noteq> 0" "length xs < 4294967280"
    and l: "length out = sealed_len (length xs)" "length plain = sealed_len (length xs)"
  shows "\<exists>ct s1 p s2.
    SLN_Encrypt_AES_CBC_PKCS7 D C c xs n out (SLN_Encrypt_Get_Crypt_Length n) s = Inr ((SLN_ENCRYPT_STATUS_OK, ct), s1) \<and>
    SLN_Decrypt_AES_CBC_PKCS7 D C c ct (SLN_Encrypt_Get_Crypt_Length n) plain (SLN_Encrypt_Get_Crypt_Length n) s1 =
      Inr ((SLN_ENCRYPT_STATUS_OK, p, n), s2) \<and>
    take (length xs) p = xs"
proof -
  let ?m = "SLN_Encrypt_Get_Crypt_Length n"
  have m: "unat ?m = sealed_len (length xs)" using crypt_length [of n] n by simp
  obtain h where enc: "SLN_Encrypt_AES_CBC_PKCS7 D C c xs n out ?m s =
      Inr ((SLN_ENCRYPT_STATUS_OK, sealed (e (key (C c))) (iv (C c)) xs), s\<lparr>dcp := h\<rparr>)"
    using dcp_cbc.encrypt_ok [where C = C and c = c, OF D c n(1) l(1) m] by auto
  have "of_nat (length xs) = n" using n(1) by (metis of_nat_unat ucast_id)
  then show ?thesis
    using dcp_cbc.decrypt_sealed [where C = C and c = c, OF D c(1) _ m n(2) l(2), of "s\<lparr>dcp := h\<rparr>" ?m] c(2) enc
    by auto
qed

theorem encrypt_roundtrip_witness:
  "\<exists>ct s1 p s2.
    SLN_Encrypt_AES_CBC_PKCS7 dcp_sim (\<lambda>_. sim_ctx) 0 (replicate 3 5) 3 (replicate 16 0) (SLN_Encrypt_Get_Crypt_Length 3) sim_crypt =
      Inr ((SLN_ENCRYPT_STATUS_OK, ct), s1) \<and>
    SLN_Decrypt_AES_CBC_PKCS7 dcp_sim (\<lambda>_. sim_ctx) 0 ct (SLN_Encrypt_Get_Crypt_Length 3) (replicate 16 0)
        (SLN_Encrypt_Get_Crypt_Length 3) s1 = Inr ((SLN_ENCRYPT_STATUS_OK, p, 3), s2) \<and>
    take 3 p = replicate 3 5"
  using encrypt_roundtrip [OF sim_cbc, of "\<lambda>_. sim_ctx" 0 sim_crypt 3 "replicate 3 5" "replicate 16 0" "replicate 16 0"]
    sim_ctx_ok by (simp add: sealed_len_def)

text \<open>C38: Of a text of two or more whole blocks the last block is decrypted with the initialisation vector in
  place of the cipher block before it: what comes back for it is the block combined with both, cut as if it
  were padded. So it is garbled, but for the case that the two are equal.\<close>
theorem whole_blocks_garbled:
  assumes D: "dcp_cbc D e d loaded"
    and c: "ctx_ok (C c)" "SLN_Encrypt_Key_Loaded (Some c) s"
    and n: "unat n = length xs" "length xs mod 16 = 0" "32 \<le> length xs" "length xs < 4294967280"
    and l: "length out = length xs" "length plain = length xs"
    and prev: "prev = slice (length xs - 32) 16 (cbc_enc (e (key (C c))) (iv (C c)) xs)"
    and blk: "blk = xor_block (xor_block (drop (length xs - 16) xs) prev) (iv (C c))"
  shows "\<exists>ct s1 p s2.
    SLN_Encrypt_AES_CBC_PKCS7 D C c xs n out (SLN_Encrypt_Get_Crypt_Length n) s = Inr ((SLN_ENCRYPT_STATUS_OK, ct), s1) \<and>
    SLN_Decrypt_AES_CBC_PKCS7 D C c ct (SLN_Encrypt_Get_Crypt_Length n) plain (SLN_Encrypt_Get_Crypt_Length n) s1 =
      Inr ((SLN_ENCRYPT_STATUS_OK, p, of_nat (length xs - 16 + plain_tail blk)), s2) \<and>
    take (length xs - 16 + plain_tail blk) p = take (length xs - 16) xs @ take (plain_tail blk) blk"
proof -
  let ?e = "e (key (C c))" and ?d = "d (key (C c))" and ?v = "iv (C c)" and ?m = "SLN_Encrypt_Get_Crypt_Length n"
  let ?A = "length xs - 16"
  have bc: "block_cipher ?e ?d" and v: "length ?v = 16"
    using c(1) dcp_cbc.cipher [OF D] by (auto simp: ctx_ok_def)
  have len: "length xs div 16 * 16 = length xs" "sealed_len (length xs) = length xs"
    using n(2) by (auto simp: sealed_len_def)
  have m: "unat ?m = length xs" using crypt_length [of n] n len by simp
  define ct where "ct = cbc_enc ?e ?v xs"
  have lct: "length ct = length xs" unfolding ct_def by (simp add: length_cbc_enc [OF bc v] len)
  have sd: "sealed ?e ?v xs = ct" using n(2) len by (simp add: sealed_def ct_def)
  obtain h where enc: "SLN_Encrypt_AES_CBC_PKCS7 D C c xs n out ?m s = Inr ((SLN_ENCRYPT_STATUS_OK, ct), s\<lparr>dcp := h\<rparr>)"
    using dcp_cbc.encrypt_ok [where C = C and c = c, OF D c n(1), of out ?m] m len sd l by auto
  have Am: "length (take ?A xs) mod 16 = 0" "length (take ?A xs) = ?A" "take ?A xs \<noteq> []"
    using n(2,3) by (auto simp: le_mod_geq)
  define cA where "cA = cbc_enc ?e ?v (take ?A xs)"
  have lcA: "length cA = ?A"
    unfolding cA_def by (subst length_cbc_enc [OF bc v]) (use Am in presburger)
  have split: "ct = cA @ cbc_enc ?e (drop (?A - 16) cA) (drop ?A xs)"
    using cbc_enc_append [OF bc Am(1) v, of "drop ?A xs"] Am(2,3) by (simp add: ct_def cA_def)
  have pv: "prev = drop (?A - 16) cA"
    using lcA n(3) unfolding prev ct_def [symmetric] split by (simp add: slice_def)
  have l16: "length (drop ?A xs) = 16" "length prev = 16" using n(3) lcA by (auto simp: pv)
  have cl: "drop ?A ct = ?e (xor_block (drop ?A xs) prev)"
    using lcA l16 unfolding split pv [symmetric] by (simp add: cbc_enc_block cbc_enc_short)
  have x16: "length (xor_block (drop ?A xs) prev) = 16" using l16 by simp
  have "cbc_dec ?d ?v (drop (length ct - 16) ct) = blk"
    unfolding lct cl blk using block_cipherD [OF bc x16] by (simp add: cbc_dec_block cbc_dec_short)
  then have "\<exists>h'. SLN_Decrypt_AES_CBC_PKCS7 D C c ct ?m plain ?m (s\<lparr>dcp := h\<rparr>) =
      Inr ((SLN_ENCRYPT_STATUS_OK, blit ?A (take (plain_tail blk) blk) (cbc_dec ?d ?v ct),
        of_nat (?A + plain_tail blk)), s\<lparr>dcp := h\<rparr>\<lparr>dcp := h'\<rparr>)"
    using dcp_cbc.decrypt_ok [where C = C and c = c, OF D c(1), of "s\<lparr>dcp := h\<rparr>" ?m ct plain blk ?m] c(2) m n(2,3) l(2) lct by auto
  moreover have "cbc_dec ?d ?v ct = xs" unfolding ct_def by (rule cbc_inverse [OF bc v n(2)])
  moreover have "plain_tail blk \<le> 16" by (simp add: plain_tail_def Let_def)
  moreover have "length blk = 16" using x16 v by (simp add: blk)
  ultimately show ?thesis using enc n(3) by (auto simp: blit_def)
qed

theorem whole_blocks_garbled_witness:
  "\<exists>ct s1 p s2.
    SLN_Encrypt_AES_CBC_PKCS7 dcp_sim (\<lambda>_. sim_ctx) 0 (replicate 32 1) 32 (replicate 32 0)
        (SLN_Encrypt_Get_Crypt_Length 32) sim_crypt = Inr ((SLN_ENCRYPT_STATUS_OK, ct), s1) \<and>
    SLN_Decrypt_AES_CBC_PKCS7 dcp_sim (\<lambda>_. sim_ctx) 0 ct (SLN_Encrypt_Get_Crypt_Length 32) (replicate 32 0)
        (SLN_Encrypt_Get_Crypt_Length 32) s1 = Inr ((SLN_ENCRYPT_STATUS_OK, p, 25), s2) \<and>
    take 25 p = replicate 16 1 @ replicate 9 7"
proof -
  have enc: "slice 0 16 (cbc_enc (sim_cipher (key sim_ctx)) (iv sim_ctx) (replicate 32 1)) = replicate 16 15"
    by code_simp
  have blk: "replicate 16 7 = xor_block (xor_block (replicate 16 1) (replicate 16 15)) (iv sim_ctx)"
    by code_simp
  have pt: "plain_tail (replicate 16 7) = 9" by code_simp
  show ?thesis
    using whole_blocks_garbled [OF sim_cbc, of "\<lambda>_. sim_ctx" 0 sim_crypt 32 "replicate 32 1" "replicate 32 0"
      "replicate 32 0" "replicate 16 15" "replicate 16 7"] sim_ctx_ok enc pt by (simp add: blk [symmetric])
qed

end
