(* ===== verification/Sln_Littlefs.thy ===== *)
theory Sln_Littlefs
  imports Lfs_Blockdev Sln_Encrypt
begin

text \<open>
  The file store of the smart lock, \<open>source/filesystem/sln_flash_littlefs.c\<close>: named files
  over littlefs, guarded by a mutex, optionally encrypted. littlefs and FreeRTOS are third-party
  code: \<open>lfs_if\<close> is the record of the littlefs functions the file calls, on the mounted volume
  together with the block device below it; the heap, the creation of a mutex and the tick counter are
  oracles over the number of such calls made so far. A path is the list of its characters before the
  NUL, NULL is None. The attribute buffer of a file is passed to the littlefs calls that read or
  write it.
\<close>

section \<open>Types and status codes\<close>

definition SLN_FLASH_FS_OK :: int where [simp]: "SLN_FLASH_FS_OK = 0"
definition SLN_FLASH_FS_FAIL :: int where [simp]: "SLN_FLASH_FS_FAIL = -0x01"
definition SLN_FLASH_FS_ENOLOCK :: int where [simp]: "SLN_FLASH_FS_ENOLOCK = -0x02"
definition SLN_FLASH_FS_ENOMEM :: int where [simp]: "SLN_FLASH_FS_ENOMEM = -0x20"
definition SLN_FLASH_FS_ENOMEM3 :: int where [simp]: "SLN_FLASH_FS_ENOMEM3 = -0x22"
definition SLN_FLASH_FS_EINVAL :: int where [simp]: "SLN_FLASH_FS_EINVAL = -0x40"
definition SLN_FLASH_FS_EINVAL3 :: int where [simp]: "SLN_FLASH_FS_EINVAL3 = -0x42"
definition SLN_FLASH_FS_ENOENTRY :: int where [simp]: "SLN_FLASH_FS_ENOENTRY = -0x50"
definition SLN_FLASH_FS_ENOENTRY2 :: int where [simp]: "SLN_FLASH_FS_ENOENTRY2 = -0x51"
definition SLN_FLASH_FS_EENCRYPT :: int where [simp]: "SLN_FLASH_FS_EENCRYPT = -0x70"
definition SLN_FLASH_FS_CORRUPTED :: int where [simp]: "SLN_FLASH_FS_CORRUPTED = -0x72"
definition SLN_FLASH_FS_FILEEXIST :: int where [simp]: "SLN_FLASH_FS_FILEEXIST = -0x73"

definition LFS_O_RDONLY :: u32 where [simp]: "LFS_O_RDONLY = 1"
definition LFS_O_WRONLY :: u32 where [simp]: "LFS_O_WRONLY = 2"
definition LFS_O_RDWR :: u32 where [simp]: "LFS_O_RDWR = 3"
definition LFS_O_CREAT :: u32 where [simp]: "LFS_O_CREAT = 0x100"
definition LFS_O_APPEND :: u32 where [simp]: "LFS_O_APPEND = 0x800"

record file_encypt_info_t =
  dataEncLen :: u32
  dataPlainLen :: u32
  useEncryption :: bool

record ('f, 'd) volume =
  lfs :: 'f
  bdev :: "'d blockdev"

type_synonym ('f, 'd, 'r) vol_op = "('f, 'd) volume \<Rightarrow> ('r \<times> ('f, 'd) volume) outcome"

record ('o, 'f, 'd) lfs_if =
  lfs_format :: "('f, 'd, int) vol_op"
  lfs_mount :: "('f, 'd, int) vol_op"
  lfs_unmount :: "('f, 'd, int) vol_op"
  lfs_dir_open :: "u8 list \<Rightarrow> ('f, 'd, int) vol_op"
  lfs_dir_close :: "('f, 'd, int) vol_op"
  lfs_file_opencfg :: "u8 list \<Rightarrow> u32 \<Rightarrow> file_encypt_info_t \<Rightarrow> ('f, 'd, int \<times> 'o \<times> file_encypt_info_t) vol_op"
  lfs_file_close :: "'o \<Rightarrow> file_encypt_info_t \<Rightarrow> ('f, 'd, int) vol_op"
  lfs_file_write :: "'o \<Rightarrow> u8 list \<Rightarrow> ('f, 'd, int \<times> 'o) vol_op"
  lfs_file_read :: "'o \<Rightarrow> u32 \<Rightarrow> ('f, 'd, int \<times> u8 list \<times> 'o) vol_op"
  lfs_file_seek :: "'o \<Rightarrow> u32 \<Rightarrow> ('f, 'd, int \<times> 'o) vol_op"
  lfs_getattr :: "u8 list \<Rightarrow> file_encypt_info_t \<Rightarrow> ('f, 'd, int \<times> file_encypt_info_t) vol_op"
  lfs_setattr :: "u8 list \<Rightarrow> file_encypt_info_t \<Rightarrow> ('f, 'd, int) vol_op"
  lfs_remove :: "u8 list \<Rightarrow> ('f, 'd, int) vol_op"
  lfs_mkdir :: "u8 list \<Rightarrow> ('f, 'd, int) vol_op"
  lfs_rename :: "u8 list \<Rightarrow> u8 list \<Rightarrow> ('f, 'd, int) vol_op"
  lfs_fs_traverse :: "('f, 'd, int \<times> u32 list) vol_op"
  ctz_size :: "'o \<Rightarrow> u32"

record ('o, 'f, 'd, 'h) platform =
  fs_api :: "('o, 'f, 'd) lfs_if"
  flexspi :: "'d flexspi_if"
  aes :: "'h dcp_if"
  heap_ok :: "nat \<Rightarrow> nat \<Rightarrow> bool"
  mutex_ok :: "nat \<Rightarrow> bool"
  ticks :: "nat \<Rightarrow> u32"

record ('f, 'd, 'h) lfs_st =
  vol :: "('f, 'd) volume"
  lfs_lock :: "bool option"
  lfsMounted :: bool
  crypt :: "'h encrypt_st"
  os_calls :: nat

type_synonym ('f, 'd, 'h, 'r) lfs_op = "('f, 'd, 'h) lfs_st \<Rightarrow> ('r \<times> ('f, 'd, 'h) lfs_st) outcome"

definition s_flashLittlefsEncCtx :: sln_encrypt_ctx_t where
  "s_flashLittlefsEncCtx = \<lparr>
     key = [0x2c, 0x7d, 0x13, 0x18, 0x26, 0xb0, 0xd0, 0xaa, 0xab, 0xf7, 0x16, 0x88, 0x09, 0xcf, 0x4f, 0x3e],
     iv = [0xef, 0xf0, 0xf9, 0xec, 0xfc, 0xf1, 0xf4, 0xf9, 0xf8, 0xf9, 0xfa, 0x02, 0xfc, 0xfd, 0xfe, 0xff],
     keySize = 16, keySlot = 1\<rparr>"

text \<open>The only encryption context of the program, at its address.\<close>

definition enc_ctx :: nat where "enc_ctx = 0"
definition enc_mem :: "nat \<Rightarrow> sln_encrypt_ctx_t" where "enc_mem = (\<lambda>_. s_flashLittlefsEncCtx)"

definition LFS_GetDefaultFileConfig :: file_encypt_info_t where
  "LFS_GetDefaultFileConfig = \<lparr>dataEncLen = 0, dataPlainLen = 0, useEncryption = False\<rparr>"

section \<open>Calls of littlefs and of the operating system\<close>

definition on_vol :: "('f, 'd, 'r) vol_op \<Rightarrow> ('f, 'd, 'h, 'r) lfs_op" where
  "on_vol f s = rbind (f (vol s)) (\<lambda>(r, v). Inr (r, s\<lparr>vol := v\<rparr>))"

definition on_crypt :: "('h encrypt_st \<Rightarrow> ('r \<times> 'h encrypt_st) outcome) \<Rightarrow> ('f, 'd, 'h, 'r) lfs_op" where
  "on_crypt f s = rbind (f (crypt s)) (\<lambda>(r, c). Inr (r, s\<lparr>crypt := c\<rparr>))"

definition pvPortMalloc :: "('o, 'f, 'd, 'h) platform \<Rightarrow> nat \<Rightarrow> ('f, 'd, 'h) lfs_st \<Rightarrow> u8 list option \<times> ('f, 'd, 'h) lfs_st" where
  "pvPortMalloc P n s =
    (if heap_ok P (os_calls s) n then Some (replicate n 0) else None, s\<lparr>os_calls := os_calls s + 1\<rparr>)"

definition volume_cb :: "(sln_flash_fs_cbs_t \<Rightarrow> nat option) \<Rightarrow> ('f, 'd, 'h) lfs_st \<Rightarrow> ('f, 'd, 'h) lfs_st" where
  "volume_cb cb s =
    s\<lparr>vol := vol s\<lparr>bdev := run_cb (cb (s_flashLittlefsCbs (bdev (vol s)))) (bdev (vol s))\<rparr>\<rparr>"

text \<open>A take without a time limit of a mutex that is held waits for ever: one task is modelled.\<close>

definition lock_store :: "('f, 'd, 'h, int) lfs_op" where
  "lock_store s = (case lfs_lock s of None \<Rightarrow> Inr (-1, s)
     | Some True \<Rightarrow> Inl Deadlock
     | Some False \<Rightarrow> Inr (0, volume_cb post_lock_cb (s\<lparr>lfs_lock := Some True\<rparr>)))"

definition unlock_store :: "('f, 'd, 'h) lfs_st \<Rightarrow> int \<times> ('f, 'd, 'h) lfs_st" where
  "unlock_store s = (case lfs_lock s of None \<Rightarrow> (-1, s)
     | Some False \<Rightarrow> (-1, s)
     | Some True \<Rightarrow> (0, volume_cb post_unlock_cb (s\<lparr>lfs_lock := Some False\<rparr>)))"

section \<open>Content of files\<close>

fun base_offset :: "u8 list \<Rightarrow> nat \<Rightarrow> nat" where
  "base_offset name 0 = 0"
| "base_offset name (Suc n) = (if (name @ [0]) ! Suc n \<noteq> 47 then base_offset name n else Suc n)"

definition LFS_CheckBasePath :: "('o, 'f, 'd, 'h) platform \<Rightarrow> u8 list \<Rightarrow> ('f, 'd, 'h, int) lfs_op" where
  "LFS_CheckBasePath P name s =
    (let offset = base_offset name (length name mod 256) in
     if offset \<noteq> 0 then
       (case pvPortMalloc P (offset + 1) s of (None, s) \<Rightarrow> Inr (SLN_FLASH_FS_ENOMEM, s)
        | (Some _, s) \<Rightarrow>
          rbind (on_vol (lfs_dir_open (fs_api P) (take offset name)) s) (\<lambda>(r, s).
          if r \<noteq> 0 then Inr (SLN_FLASH_FS_ENOENTRY, s)
          else rbind (on_vol (lfs_dir_close (fs_api P)) s) (\<lambda>(_, s). Inr (SLN_FLASH_FS_OK, s))))
     else Inr (SLN_FLASH_FS_OK, s))"

definition LFS_SaveFileContent ::
    "('o, 'f, 'd, 'h) platform \<Rightarrow> 'o \<Rightarrow> file_encypt_info_t \<Rightarrow> u8 list \<Rightarrow> u32 \<Rightarrow>
      ('f, 'd, 'h, int \<times> 'o \<times> file_encypt_info_t) lfs_op" where
  "LFS_SaveFileContent P file info dataIn dataLenIn s =
    rbind (if useEncryption info then
       let len = SLN_Encrypt_Get_Crypt_Length dataLenIn in
       case pvPortMalloc P (unat len) s of (None, s) \<Rightarrow> Inr ((SLN_FLASH_FS_ENOMEM3, [], len, info), s)
       | (Some out, s) \<Rightarrow>
         rbind (on_crypt (SLN_Encrypt_AES_CBC_PKCS7 (aes P) enc_mem enc_ctx dataIn dataLenIn out len) s)
           (\<lambda>((status, out), s).
         if status = SLN_ENCRYPT_STATUS_OK
         then Inr ((SLN_FLASH_FS_OK, out, len, info\<lparr>dataPlainLen := dataLenIn, dataEncLen := len\<rparr>), s)
         else Inr ((SLN_FLASH_FS_EENCRYPT, out, len, info), s))
     else Inr ((SLN_FLASH_FS_OK, dataIn, dataLenIn, info), s)) (\<lambda>((ret, data, len, info), s).
     if ret = SLN_FLASH_FS_OK then
       rbind (load_at 0 (unat len) data) (\<lambda>bytes.
       rbind (on_vol (lfs_file_write (fs_api P) file bytes) s) (\<lambda>((r, file), s).
       Inr ((if r < 0 then SLN_FLASH_FS_FAIL else ret, file, info), s)))
     else Inr ((ret, file, info), s))"

partial_function (option) read_loop ::
    "('o, 'f, 'd, 'h) platform \<Rightarrow> 'o \<Rightarrow> u8 list \<Rightarrow> u32 \<Rightarrow> u32 \<Rightarrow> ('f, 'd, 'h) lfs_st \<Rightarrow>
      ((int \<times> 'o \<times> u8 list \<times> u32) \<times> ('f, 'd, 'h) lfs_st) outcome option" where
  "read_loop plat file data realSize len s =
    (case on_vol (lfs_file_read (fs_api plat) file len) s of
       Inl e \<Rightarrow> Some (Inl e)
     | Inr ((r, bytes, file), s) \<Rightarrow>
         if r < 0 then Some (Inr ((SLN_FLASH_FS_FAIL, file, data, realSize), s))
         else if r = 0 then Some (Inr ((SLN_FLASH_FS_OK, file, data, realSize), s))
         else (case store_at (unat realSize) bytes data of
             Inl e \<Rightarrow> Some (Inl e)
           | Inr data \<Rightarrow>
               let realSize = realSize + of_int r; len = len - of_int r
               in if 0 < len then read_loop plat file data realSize len s
                  else Some (Inr ((SLN_FLASH_FS_OK, file, data, realSize), s))))"

definition read_all ::
    "('o, 'f, 'd, 'h) platform \<Rightarrow> 'o \<Rightarrow> u8 list \<Rightarrow> u32 \<Rightarrow> ('f, 'd, 'h, int \<times> 'o \<times> u8 list \<times> u32) lfs_op" where
  "read_all P file data len s = returns (read_loop P file data 0 len s)"

text \<open>A plain file is read from the offset into the buffer of the caller.\<close>

definition get_plain ::
    "('o, 'f, 'd, 'h) platform \<Rightarrow> 'o \<Rightarrow> u32 \<Rightarrow> u8 list \<Rightarrow> u32 \<Rightarrow>
      ('f, 'd, 'h, int \<times> 'o \<times> u8 list \<times> u32) lfs_op" where
  "get_plain P file offset dataOut dataLenOut s =
    rbind (if offset \<noteq> 0 then
             if ctz_size (fs_api P) file < offset then Inr ((SLN_FLASH_FS_EINVAL3, file), s)
             else rbind (on_vol (lfs_file_seek (fs_api P) file offset) s) (\<lambda>((_, file), s).
               Inr ((SLN_FLASH_FS_OK, file), s))
           else Inr ((SLN_FLASH_FS_OK, file), s)) (\<lambda>((ret, file), s).
     if ret = SLN_FLASH_FS_OK then
       rbind (read_all P file dataOut dataLenOut s) (\<lambda>((ret, file, dataOut, len), s).
       Inr ((ret, file, dataOut, if ret = SLN_FLASH_FS_OK then len else dataLenOut), s))
     else Inr ((ret, file, dataOut, dataLenOut), s))"

text \<open>An encrypted file is read as a whole, decrypted, and copied from the offset on.\<close>

definition get_encrypted ::
    "('o, 'f, 'd, 'h) platform \<Rightarrow> 'o \<Rightarrow> file_encypt_info_t \<Rightarrow> u32 \<Rightarrow> u8 list \<Rightarrow> u32 \<Rightarrow>
      ('f, 'd, 'h, int \<times> 'o \<times> u8 list \<times> u32) lfs_op" where
  "get_encrypted P file info offset dataOut dataLenOut s =
    (let len = dataEncLen info in
     case pvPortMalloc P (unat len) s of
       (None, s) \<Rightarrow> Inr ((SLN_FLASH_FS_ENOMEM3, file, dataOut, dataLenOut), s)
     | (Some data, s) \<Rightarrow> (case pvPortMalloc P (unat len) s of
         (None, s) \<Rightarrow> Inr ((SLN_FLASH_FS_ENOMEM3, file, dataOut, dataLenOut), s)
       | (Some dataPlain, s) \<Rightarrow>
         rbind (read_all P file data len s) (\<lambda>((ret, file, data, len), s).
         if ret \<noteq> SLN_FLASH_FS_OK then Inr ((ret, file, dataOut, dataLenOut), s)
         else rbind (on_crypt (SLN_Decrypt_AES_CBC_PKCS7 (aes P) enc_mem enc_ctx data len dataPlain len) s)
           (\<lambda>((status, dataPlain, len), s).
         if status = SLN_ENCRYPT_STATUS_OK then
           if len \<le> offset then Inr ((SLN_FLASH_FS_EINVAL3, file, dataOut, dataLenOut), s)
           else
             let len = len - offset;
                 dataLenOut = (if len < dataLenOut then len else dataLenOut)
             in rbind (load_at (unat offset) (unat dataLenOut) dataPlain) (\<lambda>bytes.
                rbind (store_at 0 bytes dataOut) (\<lambda>dataOut.
                Inr ((SLN_FLASH_FS_OK, file, dataOut, dataLenOut), s)))
         else Inr ((SLN_FLASH_FS_EENCRYPT, file, dataOut, dataLenOut), s)))))"

definition LFS_GetFileContent ::
    "('o, 'f, 'd, 'h) platform \<Rightarrow> 'o \<Rightarrow> file_encypt_info_t \<Rightarrow> u32 \<Rightarrow> u8 list \<Rightarrow> u32 \<Rightarrow>
      ('f, 'd, 'h, int \<times> 'o \<times> u8 list \<times> u32) lfs_op" where
  "LFS_GetFileContent P file info offset dataOut dataLenOut s =
    (if useEncryption info then get_encrypted P file info offset dataOut dataLenOut s
     else get_plain P file offset dataOut dataLenOut s)"

section \<open>Operations\<close>

text \<open>The frame of the operations: take the mutex, run, give it back. \<open>nolock\<close> is
  the result of a call that did not get the mutex.\<close>

definition locked :: "'r \<Rightarrow> ('f, 'd, 'h, 'r) lfs_op \<Rightarrow> ('f, 'd, 'h, 'r) lfs_op" where
  "locked nolock body s =
    rbind (lock_store s) (\<lambda>(r, s).
    if r \<noteq> 0 then Inr (nolock, s)
    else rbind (body s) (\<lambda>(ret, s). Inr (ret, snd (unlock_store s))))"

definition close_file ::
    "('o, 'f, 'd, 'h) platform \<Rightarrow> 'o \<Rightarrow> file_encypt_info_t \<Rightarrow> ('f, 'd, 'h, int) lfs_op" where
  "close_file P file info = on_vol (lfs_file_close (fs_api P) file info)"

definition open_file ::
    "('o, 'f, 'd, 'h) platform \<Rightarrow> u8 list \<Rightarrow> u32 \<Rightarrow> ('f, 'd, 'h, int \<times> 'o \<times> file_encypt_info_t) lfs_op" where
  "open_file P name flags = on_vol (lfs_file_opencfg (fs_api P) name flags LFS_GetDefaultFileConfig)"

definition SLN_FLASH_LITTLEFS_Init :: "('o, 'f, 'd, 'h) platform \<Rightarrow> bool \<Rightarrow> ('f, 'd, 'h, int) lfs_op" where
  "SLN_FLASH_LITTLEFS_Init P erase s =
    (if lfsMounted s then Inr (SLN_FLASH_FS_OK, s)
     else
       let s = s\<lparr>lfs_lock := (if mutex_ok P (os_calls s) then Some False else None), os_calls := os_calls s + 1\<rparr>
       in if lfs_lock s = None then Inr (SLN_FLASH_FS_ENOLOCK, s)
       else
         rbind (if erase then on_vol (lfs_format (fs_api P)) s else Inr (0, s)) (\<lambda>(_, s).
         rbind (on_vol (lfs_mount (fs_api P)) s) (\<lambda>(r, s).
         rbind (if r = 0 then Inr (SLN_FLASH_FS_OK, s\<lparr>lfsMounted := True\<rparr>)
                else if r = LFS_ERR_CORRUPT then
                  rbind (on_vol (lfs_format (fs_api P)) s) (\<lambda>(_, s).
                  rbind (on_vol (lfs_mount (fs_api P)) s) (\<lambda>(r, s).
                  Inr (if r = 0 then SLN_FLASH_FS_OK else SLN_FLASH_FS_CORRUPTED, s)))
                else Inr (SLN_FLASH_FS_FAIL, s)) (\<lambda>(ret, s).
         if ret \<noteq> SLN_FLASH_FS_OK then Inr (ret, s\<lparr>lfs_lock := None\<rparr>)
         else rbind (on_crypt (SLN_Encrypt_Init_Slot (aes P) enc_mem (Some enc_ctx)) s) (\<lambda>(_, s).
           Inr (ret, s))))))"

text \<open>The result of \<open>lfs_getattr\<close>, and the result of closing the file, are not looked at.\<close>

definition load_attr ::
    "('o, 'f, 'd, 'h) platform \<Rightarrow> u8 list \<Rightarrow> file_encypt_info_t \<Rightarrow> ('f, 'd, 'h, file_encypt_info_t) lfs_op" where
  "load_attr P name info s =
    rbind (on_vol (lfs_getattr (fs_api P) name info) s) (\<lambda>((_, info), s). Inr (info, s))"

definition write_and_close ::
    "('o, 'f, 'd, 'h) platform \<Rightarrow> 'o \<Rightarrow> file_encypt_info_t \<Rightarrow> u8 list \<Rightarrow> u32 \<Rightarrow> ('f, 'd, 'h, int) lfs_op" where
  "write_and_close P file info data len s =
    rbind (LFS_SaveFileContent P file info data len s) (\<lambda>((ret, file, info), s).
    rbind (close_file P file info s) (\<lambda>(_, s). Inr (ret, s)))"

definition SLN_FLASH_LITTLEFS_Save ::
    "('o, 'f, 'd, 'h) platform \<Rightarrow> u8 list option \<Rightarrow> u8 list option \<Rightarrow> u32 \<Rightarrow> ('f, 'd, 'h, int) lfs_op" where
  "SLN_FLASH_LITTLEFS_Save P name data len s =
    (case (name, data) of
       (Some name, Some data) \<Rightarrow>
         if len = 0 then Inr (SLN_FLASH_FS_EINVAL, s)
         else locked SLN_FLASH_FS_ENOLOCK (\<lambda>s.
           rbind (LFS_CheckBasePath P name s) (\<lambda>(ret, s).
           if ret = SLN_FLASH_FS_OK then
             rbind (open_file P name (LFS_O_CREAT OR LFS_O_WRONLY) s) (\<lambda>((r, file, info), s).
             if r < 0 then Inr (SLN_FLASH_FS_FAIL, s)
             else rbind (load_attr P name info s) (\<lambda>(info, s).
               write_and_close P file info data len s))
           else Inr (ret, s))) s
     | _ \<Rightarrow> Inr (SLN_FLASH_FS_EINVAL, s))"

definition SLN_FLASH_LITTLEFS_Append ::
    "('o, 'f, 'd, 'h) platform \<Rightarrow> u8 list option \<Rightarrow> u8 list option \<Rightarrow> u32 \<Rightarrow> ('f, 'd, 'h, int) lfs_op" where
  "SLN_FLASH_LITTLEFS_Append P name data len s =
    (case (name, data) of
       (Some name, Some data) \<Rightarrow>
         if len = 0 then Inr (SLN_FLASH_FS_EINVAL, s)
         else locked SLN_FLASH_FS_ENOLOCK (\<lambda>s.
           rbind (LFS_CheckBasePath P name s) (\<lambda>(ret, s).
           if ret = SLN_FLASH_FS_OK then
             rbind (open_file P name (LFS_O_APPEND OR LFS_O_WRONLY) s) (\<lambda>((r, file, info), s).
             if r = LFS_ERR_NOENT then Inr (SLN_FLASH_FS_ENOENTRY2, s)
             else if r < 0 then Inr (SLN_FLASH_FS_FAIL, s)
             else rbind (load_attr P name info s) (\<lambda>(info, s).
               if useEncryption info then
                 rbind (close_file P file info s) (\<lambda>(_, s). Inr (SLN_FLASH_FS_FAIL, s))
               else write_and_close P file info data len s))
           else Inr (ret, s))) s
     | _ \<Rightarrow> Inr (SLN_FLASH_FS_EINVAL, s))"

definition SLN_FLASH_LITTLEFS_Update ::
    "('o, 'f, 'd, 'h) platform \<Rightarrow> u8 list option \<Rightarrow> u8 list option \<Rightarrow> u32 option \<Rightarrow> ('f, 'd, 'h, int) lfs_op" where
  "SLN_FLASH_LITTLEFS_Update P name data len s =
    (case (name, data, len) of
       (Some name, Some data, Some len) \<Rightarrow>
         locked SLN_FLASH_FS_ENOLOCK (\<lambda>s.
           rbind (LFS_CheckBasePath P name s) (\<lambda>(ret, s).
           if ret = SLN_FLASH_FS_OK then
             rbind (open_file P name LFS_O_RDWR s) (\<lambda>((r, file, info), s).
             if r = LFS_ERR_NOENT then Inr (SLN_FLASH_FS_ENOENTRY2, s)
             else if r < 0 then Inr (SLN_FLASH_FS_FAIL, s)
             else rbind (load_attr P name info s) (\<lambda>(info, s).
               write_and_close P file info data len s))
           else Inr (ret, s))) s
     | _ \<Rightarrow> Inr (SLN_FLASH_FS_EINVAL, s))"

text \<open>With no buffer a read asks for the size of the file.\<close>

definition read_file ::
    "('o, 'f, 'd, 'h) platform \<Rightarrow> u8 list \<Rightarrow> u8 list option \<Rightarrow> u32 \<Rightarrow> u32 \<Rightarrow>
      ('f, 'd, 'h, int \<times> u8 list option \<times> u32) lfs_op" where
  "read_file P name data offset len s =
    rbind (LFS_CheckBasePath P name s) (\<lambda>(ret, s).
    if ret \<noteq> SLN_FLASH_FS_OK then Inr ((ret, data, len), s)
    else rbind (open_file P name LFS_O_RDONLY s) (\<lambda>((r, file, info), s).
      if r = LFS_ERR_NOENT then Inr ((SLN_FLASH_FS_ENOENTRY2, data, len), s)
      else if r < 0 then Inr ((SLN_FLASH_FS_FAIL, data, len), s)
      else if r = 0 \<and> data = None then
        rbind (close_file P file info s) (\<lambda>(_, s).
        Inr ((SLN_FLASH_FS_OK, data, if useEncryption info then dataPlainLen info else ctz_size (fs_api P) file), s))
      else (case data of None \<Rightarrow> Inl MemFault
        | Some buf \<Rightarrow>
          if ctz_size (fs_api P) file = 0 then
            rbind (close_file P file info s) (\<lambda>(_, s).
            rbind (store_at 0 (replicate (unat len) 0) buf) (\<lambda>buf.
            Inr ((SLN_FLASH_FS_OK, Some buf, 0), s)))
          else
            rbind (LFS_GetFileContent P file info offset buf len s) (\<lambda>((ret, file, buf, len), s).
            rbind (on_vol (lfs_file_seek (fs_api P) file 0) s) (\<lambda>((_, file), s).
            rbind (close_file P file info s) (\<lambda>(_, s). Inr ((ret, Some buf, len), s)))))))"

definition SLN_FLASH_LITTLEFS_Read ::
    "('o, 'f, 'd, 'h) platform \<Rightarrow> u8 list option \<Rightarrow> u8 list option \<Rightarrow> u32 \<Rightarrow> u32 option \<Rightarrow>
      ('f, 'd, 'h, int \<times> u8 list option \<times> u32 option) lfs_op" where
  "SLN_FLASH_LITTLEFS_Read P name data offset len s =
    (case (name, len) of
       (Some name, Some len) \<Rightarrow>
         locked (SLN_FLASH_FS_ENOLOCK, data, Some len) (\<lambda>s.
           rbind (read_file P name data offset len s) (\<lambda>((ret, data, len), s).
           Inr ((ret, data, Some len), s))) s
     | _ \<Rightarrow> Inr ((SLN_FLASH_FS_EINVAL, data, len), s))"

definition SLN_FLASH_LITTLEFS_Erase :: "('o, 'f, 'd, 'h) platform \<Rightarrow> u8 list option \<Rightarrow> ('f, 'd, 'h, int) lfs_op" where
  "SLN_FLASH_LITTLEFS_Erase P name s =
    (case name of None \<Rightarrow> Inr (SLN_FLASH_FS_EINVAL, s)
     | Some name \<Rightarrow> locked SLN_FLASH_FS_ENOLOCK (\<lambda>s.
         rbind (LFS_CheckBasePath P name s) (\<lambda>(ret, s).
         if ret = SLN_FLASH_FS_OK then
           rbind (on_vol (lfs_remove (fs_api P) name) s) (\<lambda>(r, s).
           Inr (if r = LFS_ERR_NOENT then SLN_FLASH_FS_ENOENTRY2
                else if r \<noteq> 0 then SLN_FLASH_FS_FAIL else ret, s))
         else Inr (ret, s))) s)"

text \<open>After a failed unmount the mutex stays taken.\<close>

definition SLN_FLASH_LITTLEFS_Deinit :: "('o, 'f, 'd, 'h) platform \<Rightarrow> bool \<Rightarrow> ('f, 'd, 'h, int) lfs_op" where
  "SLN_FLASH_LITTLEFS_Deinit P erase s =
    rbind (lock_store s) (\<lambda>(r, s).
    if r \<noteq> 0 then Inr (SLN_FLASH_FS_ENOLOCK, s)
    else
      rbind (if erase then on_vol (lfs_format (fs_api P)) s else Inr (0, s)) (\<lambda>(_, s).
      rbind (on_vol (lfs_unmount (fs_api P)) s) (\<lambda>(r, s).
      if r \<noteq> 0 then Inr (SLN_FLASH_FS_FAIL, s)
      else
        let s = s\<lparr>crypt := snd (SLN_Encrypt_Deinit_Slot (aes P) (Some enc_ctx) (crypt s))\<rparr>
        in Inr (SLN_FLASH_FS_OK, s\<lparr>lfsMounted := False, lfs_lock := None\<rparr>))))"

definition SLN_FLASH_LITTLEFS_SetCbs :: "sln_flash_fs_cbs_t option \<Rightarrow> ('f, 'd, 'h, int) lfs_op" where
  "SLN_FLASH_LITTLEFS_SetCbs cbs s =
    (case cbs of None \<Rightarrow> Inr (SLN_FLASH_FS_EINVAL, s)
     | Some c \<Rightarrow> locked SLN_FLASH_FS_ENOLOCK (\<lambda>s.
         Inr (SLN_FLASH_FS_OK, s\<lparr>vol := vol s\<lparr>bdev := bdev (vol s)\<lparr>s_flashLittlefsCbs := c\<rparr>\<rparr>\<rparr>)) s)"

definition SLN_FLASH_LITTLEFS_Mkdir :: "('o, 'f, 'd, 'h) platform \<Rightarrow> u8 list option \<Rightarrow> ('f, 'd, 'h, int) lfs_op" where
  "SLN_FLASH_LITTLEFS_Mkdir P name s =
    (case name of None \<Rightarrow> Inr (SLN_FLASH_FS_EINVAL, s)
     | Some name \<Rightarrow> locked SLN_FLASH_FS_ENOLOCK (\<lambda>s.
         rbind (LFS_CheckBasePath P name s) (\<lambda>(ret, s).
         if ret = SLN_FLASH_FS_OK then
           rbind (on_vol (lfs_mkdir (fs_api P) name) s) (\<lambda>(r, s).
           Inr (if r = LFS_ERR_EXIST then SLN_FLASH_FS_FILEEXIST
                else if r \<noteq> 0 then SLN_FLASH_FS_FAIL else ret, s))
         else Inr (ret, s))) s)"

text \<open>The result of setting the encryption attribute is not looked at.\<close>

definition SLN_FLASH_LITTLEFS_Mkfile ::
    "('o, 'f, 'd, 'h) platform \<Rightarrow> u8 list option \<Rightarrow> bool \<Rightarrow> ('f, 'd, 'h, int) lfs_op" where
  "SLN_FLASH_LITTLEFS_Mkfile P name encrypt s =
    (case name of None \<Rightarrow> Inr (SLN_FLASH_FS_EINVAL, s)
     | Some name \<Rightarrow> locked SLN_FLASH_FS_ENOLOCK (\<lambda>s.
         rbind (LFS_CheckBasePath P name s) (\<lambda>(ret, s).
         if ret \<noteq> SLN_FLASH_FS_OK then Inr (ret, s)
         else
           rbind (open_file P name LFS_O_RDONLY s) (\<lambda>((r, file, info), s).
           if r = LFS_ERR_NOENT then
             rbind (open_file P name LFS_O_CREAT s) (\<lambda>((r, file, info), s).
             if r = 0 then
               let info = info\<lparr>useEncryption := encrypt\<rparr>
               in rbind (on_vol (lfs_setattr (fs_api P) name info) s) (\<lambda>(_, s).
                  rbind (close_file P file info s) (\<lambda>(_, s). Inr (SLN_FLASH_FS_OK, s)))
             else Inr (SLN_FLASH_FS_FAIL, s))
           else if r < 0 then Inr (SLN_FLASH_FS_FAIL, s)
           else rbind (close_file P file info s) (\<lambda>(_, s).
             Inr (if r = 0 then SLN_FLASH_FS_FILEEXIST else SLN_FLASH_FS_OK, s))))) s)"

definition SLN_FLASH_LITTLEFS_Format :: "('o, 'f, 'd, 'h) platform \<Rightarrow> ('f, 'd, 'h, int) lfs_op" where
  "SLN_FLASH_LITTLEFS_Format P = locked SLN_FLASH_FS_ENOLOCK (\<lambda>s.
    rbind (on_vol (lfs_format (fs_api P)) s) (\<lambda>(r, s).
    Inr (if r \<noteq> 0 then SLN_FLASH_FS_FAIL else SLN_FLASH_FS_OK, s)))"

definition SLN_FLASH_LITTLEFS_Rename ::
    "('o, 'f, 'd, 'h) platform \<Rightarrow> u8 list option \<Rightarrow> u8 list option \<Rightarrow> ('f, 'd, 'h, int) lfs_op" where
  "SLN_FLASH_LITTLEFS_Rename P oldName newName s =
    (case (oldName, newName) of
       (Some oldName, Some newName) \<Rightarrow> locked SLN_FLASH_FS_ENOLOCK (\<lambda>s.
         rbind (LFS_CheckBasePath P oldName s) (\<lambda>(ret, s).
         rbind (if ret = SLN_FLASH_FS_OK then LFS_CheckBasePath P newName s else Inr (ret, s)) (\<lambda>(ret, s).
         if ret \<noteq> SLN_FLASH_FS_OK then Inr (ret, s)
         else
           rbind (open_file P oldName LFS_O_RDONLY s) (\<lambda>((r, file, info), s).
           if r = LFS_ERR_NOENT then Inr (SLN_FLASH_FS_ENOENTRY2, s)
           else if r < 0 then Inr (SLN_FLASH_FS_FAIL, s)
           else
             rbind (close_file P file info s) (\<lambda>(_, s).
             rbind (on_vol (lfs_rename (fs_api P) oldName newName) s) (\<lambda>(r, s).
             Inr (if r \<noteq> 0 then SLN_FLASH_FS_FAIL else ret, s))))))) s
     | _ \<Rightarrow> Inr (SLN_FLASH_FS_EINVAL, s))"

fun mark_used :: "u32 list \<Rightarrow> u32 list \<Rightarrow> u32 list outcome" where
  "mark_used [] usedBlocks = Inr usedBlocks"
| "mark_used (b # bs) usedBlocks =
     rbind (lfs_traverse_create_used_blocks usedBlocks b) (\<lambda>(_, u). mark_used bs u)"

text \<open>The loop of a clean-up: blocks \<open>block\<close> to 255, left when the time is over.\<close>

fun cleanup_loop ::
    "('o, 'f, 'd, 'h) platform \<Rightarrow> u32 list \<Rightarrow> u32 \<Rightarrow> u32 \<Rightarrow> nat \<Rightarrow> nat \<Rightarrow>
      ('f, 'd, 'h) lfs_st \<Rightarrow> ('f, 'd, 'h) lfs_st outcome" where
  "cleanup_loop P usedBlocks startTime timeout_ms 0 block s = Inr s"
| "cleanup_loop P usedBlocks startTime timeout_ms (Suc n) block s =
     (let currentTime = ticks P (os_calls s); s = s\<lparr>os_calls := os_calls s + 1\<rparr>
      in if timeout_ms \<noteq> 0 \<and> startTime + timeout_ms \<le> currentTime then Inr s
      else
        rbind (is_blockBitSet usedBlocks (of_nat block)) (\<lambda>used.
        rbind (if used then Inr s
               else rbind (LFS_FlashErase (flexspi P) (of_nat block) (bdev (vol s))) (\<lambda>(_, d).
                 Inr (s\<lparr>vol := vol s\<lparr>bdev := d\<rparr>\<rparr>)))
          (cleanup_loop P usedBlocks startTime timeout_ms n (block + 1))))"

definition SLN_FLASH_LITTLEFS_Cleanup :: "('o, 'f, 'd, 'h) platform \<Rightarrow> u32 \<Rightarrow> ('f, 'd, 'h, int) lfs_op" where
  "SLN_FLASH_LITTLEFS_Cleanup P timeout_ms = locked SLN_FLASH_FS_ENOLOCK (\<lambda>s.
    rbind (on_vol (lfs_fs_traverse (fs_api P)) s) (\<lambda>((r, blocks), s).
    rbind (mark_used blocks (replicate (LFS_SECTORS div 32) 0)) (\<lambda>usedBlocks.
    if r \<noteq> 0 then Inr (SLN_FLASH_FS_FAIL, s)
    else
      let startTime = ticks P (os_calls s); s = s\<lparr>os_calls := os_calls s + 1\<rparr>
      in rbind (cleanup_loop P usedBlocks startTime timeout_ms LFS_SECTORS 0 s) (\<lambda>s.
         Inr (SLN_FLASH_FS_OK, s)))))"

section \<open>The mutex\<close>

text \<open>Calls of littlefs, of the coprocessor and of the heap leave the mutex alone.\<close>

definition holds :: "bool option \<Rightarrow> ('f, 'd, 'h) lfs_st \<Rightarrow> bool" where
  "holds l s \<longleftrightarrow> lfs_lock s = l"

lemma holds_simps [simp]:
  "holds l (s\<lparr>vol := v\<rparr>) = holds l s" "holds l (s\<lparr>crypt := c\<rparr>) = holds l s"
  "holds l (s\<lparr>os_calls := n\<rparr>) = holds l s" "holds l (s\<lparr>lfsMounted := m\<rparr>) = holds l s"
  "holds l (volume_cb cb s) = holds l s" "holds l (s\<lparr>lfs_lock := k\<rparr>) = (k = l)"
  by (simp_all add: holds_def volume_cb_def)

lemma volume_cb_lock [simp]: "lfs_lock (volume_cb cb s) = lfs_lock s"
  by (simp add: volume_cb_def)

lemma keeps_on_vol [always_intros]: "holds l s \<Longrightarrow> always (holds l) (on_vol f s)"
  by (auto simp: on_vol_def always_def rbind_Inr_iff)

lemma keeps_on_crypt [always_intros]: "holds l s \<Longrightarrow> always (holds l) (on_crypt f s)"
  by (auto simp: on_crypt_def always_def rbind_Inr_iff)

lemma always_rbind_pure: "(\<And>x. always Q (f x)) \<Longrightarrow> always Q (rbind m f)"
  by (cases m) (auto simp: always_def)

lemmas always_memory [always_intros] =
  always_rbind_pure [where m = "load_at off n buf" for off n buf]
  always_rbind_pure [where m = "store_at off src buf" for off src buf]
  always_rbind_pure [where m = "mark_used bs u" for bs u]

lemma keeps_close [always_intros]: "holds l s \<Longrightarrow> always (holds l) (close_file P file info s)"
  by (simp add: close_file_def keeps_on_vol)

lemma keeps_open [always_intros]: "holds l s \<Longrightarrow> always (holds l) (open_file P name flags s)"
  by (simp add: open_file_def keeps_on_vol)

lemma keeps_malloc [always_intros]:
  assumes "holds l s" and "\<And>s. holds l s \<Longrightarrow> always (holds l) (f s)" and "\<And>x s. holds l s \<Longrightarrow> always (holds l) (g x s)"
  shows "always (holds l) (case pvPortMalloc P n s of (None, s) \<Rightarrow> f s | (Some x, s) \<Rightarrow> g x s)"
  using assms(1) assms(2) [of "s\<lparr>os_calls := os_calls s + 1\<rparr>"]
    assms(3) [of "s\<lparr>os_calls := os_calls s + 1\<rparr>"] by (simp add: pvPortMalloc_def)

lemma keeps_base_path [always_intros]: "holds l s \<Longrightarrow> always (holds l) (LFS_CheckBasePath P name s)"
  unfolding LFS_CheckBasePath_def Let_def by (intro always_intros) assumption+

lemma keeps_save_content [always_intros]:
  "holds l s \<Longrightarrow> always (holds l) (LFS_SaveFileContent P file info data len s)"
  unfolding LFS_SaveFileContent_def Let_def by (intro always_intros) assumption+

lemma on_vol_lock: "on_vol f s = Inr (r, s') \<Longrightarrow> lfs_lock s' = lfs_lock s"
  by (auto simp: on_vol_def rbind_Inr_iff)

lemma read_loop_holds:
  assumes "read_loop P f data real len s = Some r"
  shows "holds l s \<longrightarrow> (\<forall>x s'. r = Inr (x, s') \<longrightarrow> holds l s')"
proof (rule read_loop.raw_induct [OF _ assms])
  fix loop P f data real len s r
  assume IH: "\<And>P f data real len s r. loop P f data real len s = Some r \<Longrightarrow>
      holds l s \<longrightarrow> (\<forall>x s'. r = Inr (x, s') \<longrightarrow> holds l s')"
    and eq: "(case on_vol (lfs_file_read (fs_api P) f len) s of
       Inl e \<Rightarrow> Some (Inl e)
     | Inr ((r, bytes, f), s) \<Rightarrow>
         if r < 0 then Some (Inr ((SLN_FLASH_FS_FAIL, f, data, real), s))
         else if r = 0 then Some (Inr ((SLN_FLASH_FS_OK, f, data, real), s))
         else (case store_at (unat real) bytes data of
             Inl e \<Rightarrow> Some (Inl e)
           | Inr data \<Rightarrow>
               let realSize = real + of_int r; len = len - of_int r
               in if 0 < len then loop P f data realSize len s
                  else Some (Inr ((SLN_FLASH_FS_OK, f, data, realSize), s)))) = Some r"
  show "holds l s \<longrightarrow> (\<forall>x s'. r = Inr (x, s') \<longrightarrow> holds l s')"
  proof (cases "on_vol (lfs_file_read (fs_api P) f len) s")
    case (Inr c)
    obtain n bytes f' s1 where c: "c = ((n, bytes, f'), s1)" by (metis prod.exhaust)
    have h1: "holds l s \<Longrightarrow> holds l s1"
      using Inr c keeps_on_vol [of l s "lfs_file_read (fs_api P) f len"] by (simp add: always_def)
    show ?thesis
    proof (cases "n \<le> 0")
      case True
      then show ?thesis using eq h1 unfolding Inr c by (auto split: if_splits)
    next
      case False
      show ?thesis
      proof (cases "store_at (unat real) bytes data")
        case (Inl e)
        then show ?thesis using eq False unfolding Inr c by auto
      next
        case st: (Inr data')
        show ?thesis
        proof (cases "0 < len - of_int n")
          case True
          then have "loop P f' data' (real + of_int n) (len - of_int n) s1 = Some r"
            using eq False st unfolding Inr c by (simp add: Let_def)
          from IH [OF this] h1 show ?thesis by blast
        next
          case no: False
          then show ?thesis using eq False st h1 unfolding Inr c by (auto simp: Let_def)
        qed
      qed
    qed
  next
    case (Inl e)
    then have "r = Inl e" using eq by auto
    then show ?thesis by blast
  qed
qed

lemma keeps_read_all [always_intros]: "holds l s \<Longrightarrow> always (holds l) (read_all P f data len s)"
  using read_loop_holds [where P = P and f = f and data = data and real = 0 and len = len and s = s and l = l]
  by (cases "read_loop P f data 0 len s") (auto simp: read_all_def always_def)

lemma keeps_get_content [always_intros]:
  "holds l s \<Longrightarrow> always (holds l) (LFS_GetFileContent P file info offset buf len s)"
  unfolding LFS_GetFileContent_def get_encrypted_def get_plain_def Let_def
  by (intro always_intros) assumption+

lemma keeps_write_and_close [always_intros]:
  "holds l s \<Longrightarrow> always (holds l) (write_and_close P file info data len s)"
  unfolding write_and_close_def by (intro always_intros) assumption+

lemma keeps_load_attr [always_intros]: "holds l s \<Longrightarrow> always (holds l) (load_attr P name info s)"
  unfolding load_attr_def by (intro always_intros) assumption+

lemma keeps_read_file [always_intros]:
  "holds l s \<Longrightarrow> always (holds l) (read_file P name data offset len s)"
  unfolding read_file_def Let_def by (intro always_intros) assumption+

lemma cleanup_lock:
  "cleanup_loop P used start timeout n block s = Inr s' \<Longrightarrow> holds l s \<Longrightarrow> holds l s'"
proof (induction n arbitrary: block s)
  case (Suc n)
  let ?s = "s\<lparr>os_calls := os_calls s + 1\<rparr>"
  show ?case
  proof (cases "timeout \<noteq> 0 \<and> start + timeout \<le> ticks P (os_calls s)")
    case False
    then obtain s1 where "cleanup_loop P used start timeout n (block + 1) s1 = Inr s'"
      and "holds l s1"
      using Suc.prems by (auto simp: Let_def elim!: rbind_InrE split: if_splits)
    then show ?thesis using Suc.IH [of "block + 1" s1] by simp
  qed (use Suc.prems in auto)
qed simp

lemma keeps_cleanup [always_intros]:
  assumes "holds l s" and "\<And>s. holds l s \<Longrightarrow> always (holds l) (f s)"
  shows "always (holds l) (rbind (cleanup_loop P used start timeout n block s) f)"
  using assms cleanup_lock [of P used start timeout n block s _ l]
  by (cases "cleanup_loop P used start timeout n block s") (auto intro: always_intros)

text \<open>An operation returns with the mutex free, whatever it does in between.\<close>

abbreviation idle :: "('f, 'd, 'h) lfs_st \<Rightarrow> bool" where
  "idle s \<equiv> lfs_lock s \<noteq> Some True"

lemma locked_idle [always_intros]:
  assumes "idle s" and "\<And>s. holds (Some True) s \<Longrightarrow> always (holds (Some True)) (body s)"
  shows "always idle (locked r body s)"
proof (cases "lfs_lock s")
  case (Some h)
  then have h: "\<not> h" using assms(1) by simp
  let ?s = "volume_cb post_lock_cb (s\<lparr>lfs_lock := Some True\<rparr>)"
  have "always (holds (Some True)) (body ?s)" by (rule assms(2)) simp
  then show ?thesis using Some h
    by (auto simp: locked_def lock_store_def always_def rbind_Inr_iff unlock_store_def holds_def)
qed (simp add: locked_def lock_store_def always_def)

datatype fs_op =
    Fs_Init bool
  | Fs_Save "u8 list option" "u8 list option" u32
  | Fs_Append "u8 list option" "u8 list option" u32
  | Fs_Update "u8 list option" "u8 list option" "u32 option"
  | Fs_Read "u8 list option" "u8 list option" u32 "u32 option"
  | Fs_Erase "u8 list option"
  | Fs_SetCbs "sln_flash_fs_cbs_t option"
  | Fs_Mkdir "u8 list option"
  | Fs_Mkfile "u8 list option" bool
  | Fs_Format
  | Fs_Rename "u8 list option" "u8 list option"
  | Fs_Cleanup u32

fun fs_step :: "('o, 'f, 'd, 'h) platform \<Rightarrow> fs_op \<Rightarrow> ('f, 'd, 'h, int) lfs_op" where
  "fs_step P (Fs_Init erase) = SLN_FLASH_LITTLEFS_Init P erase"
| "fs_step P (Fs_Save name data len) = SLN_FLASH_LITTLEFS_Save P name data len"
| "fs_step P (Fs_Append name data len) = SLN_FLASH_LITTLEFS_Append P name data len"
| "fs_step P (Fs_Update name data len) = SLN_FLASH_LITTLEFS_Update P name data len"
| "fs_step P (Fs_Read name data offset len) = (\<lambda>s.
     rbind (SLN_FLASH_LITTLEFS_Read P name data offset len s) (\<lambda>((ret, _), s). Inr (ret, s)))"
| "fs_step P (Fs_Erase name) = SLN_FLASH_LITTLEFS_Erase P name"
| "fs_step P (Fs_SetCbs cbs) = SLN_FLASH_LITTLEFS_SetCbs cbs"
| "fs_step P (Fs_Mkdir name) = SLN_FLASH_LITTLEFS_Mkdir P name"
| "fs_step P (Fs_Mkfile name encrypt) = SLN_FLASH_LITTLEFS_Mkfile P name encrypt"
| "fs_step P Fs_Format = SLN_FLASH_LITTLEFS_Format P"
| "fs_step P (Fs_Rename old new) = SLN_FLASH_LITTLEFS_Rename P old new"
| "fs_step P (Fs_Cleanup timeout) = SLN_FLASH_LITTLEFS_Cleanup P timeout"

lemma on_vol_idle [always_intros]: "idle s \<Longrightarrow> always idle (on_vol f s)"
  by (auto simp: always_def on_vol_def rbind_Inr_iff)

lemma on_crypt_idle [always_intros]: "idle s \<Longrightarrow> always idle (on_crypt f s)"
  by (auto simp: on_crypt_def always_def rbind_Inr_iff)

lemma init_idle: "idle s \<Longrightarrow> always idle (SLN_FLASH_LITTLEFS_Init P erase s)"
  unfolding SLN_FLASH_LITTLEFS_Init_def Let_def
  by (intro always_intros; (assumption | simp))

lemmas locked_ops = SLN_FLASH_LITTLEFS_Save_def SLN_FLASH_LITTLEFS_Append_def SLN_FLASH_LITTLEFS_Update_def
  SLN_FLASH_LITTLEFS_Read_def SLN_FLASH_LITTLEFS_Erase_def SLN_FLASH_LITTLEFS_SetCbs_def
  SLN_FLASH_LITTLEFS_Mkdir_def SLN_FLASH_LITTLEFS_Mkfile_def SLN_FLASH_LITTLEFS_Format_def
  SLN_FLASH_LITTLEFS_Rename_def SLN_FLASH_LITTLEFS_Cleanup_def

lemma locked_ops_idle:
  assumes "idle s"
  shows "always idle (SLN_FLASH_LITTLEFS_Save P name data len s)"
    and "always idle (SLN_FLASH_LITTLEFS_Append P name data len s)"
    and "always idle (SLN_FLASH_LITTLEFS_Update P name data lenp s)"
    and "always idle (SLN_FLASH_LITTLEFS_Read P name data offset lenp s)"
    and "always idle (SLN_FLASH_LITTLEFS_Erase P name s)"
    and "always idle (SLN_FLASH_LITTLEFS_SetCbs cbs s)"
    and "always idle (SLN_FLASH_LITTLEFS_Mkdir P name s)"
    and "always idle (SLN_FLASH_LITTLEFS_Mkfile P name encrypt s)"
    and "always idle (SLN_FLASH_LITTLEFS_Format P s)"
    and "always idle (SLN_FLASH_LITTLEFS_Rename P name name' s)"
    and "always idle (SLN_FLASH_LITTLEFS_Cleanup P timeout s)"
  unfolding locked_ops Let_def by (intro always_intros; (rule assms | assumption | simp add: assms))+

lemma fs_step_idle: "idle s \<Longrightarrow> always idle (fs_step P p s)"
  by (cases p; simp only: fs_step.simps)
     (intro always_intros locked_ops_idle init_idle; (assumption | simp))+

interpretation fs: kept_invariant "fs_step P" idle for P
  by unfold_locales (auto dest: alwaysD [OF fs_step_idle])

end
