(* ===== verification/File_Store.thy ===== *)
theory File_Store
  imports Sln_Littlefs
begin

text \<open>
  What the file store promises, over the documented behaviour of littlefs. The locale
  \<open>littlefs\<close> states that behaviour on the tree of entries of the volume: a write is committed
  with the attribute when the file is closed, any call may fail without an effect on the tree.
  \<open>littlefs_reliable\<close> adds a medium without errors. The file shows what a save stores, that it
  touches no other entry, and that a read returns the stored bytes.
\<close>

section \<open>The contract of littlefs\<close>

datatype node = Dir | File "u8 list" "file_encypt_info_t option"

record handle =
  of_path :: "u8 list"
  of_flags :: u32
  of_pos :: nat
  of_data :: "u8 list"
  of_bad :: bool

definition readable :: "u32 \<Rightarrow> bool" where "readable fl \<longleftrightarrow> fl AND 1 \<noteq> 0"
definition writable :: "u32 \<Rightarrow> bool" where "writable fl \<longleftrightarrow> fl AND 2 \<noteq> 0"
definition creating :: "u32 \<Rightarrow> bool" where "creating fl \<longleftrightarrow> fl AND 0x100 \<noteq> 0"

lemma flag_simps [simp]:
  "readable 1" "\<not> writable 1" "\<not> creating 1"
  "writable 258" "creating 258" "\<not> readable 258"
  "readable 3" "writable 3" "\<not> creating 3"
  "creating 256" "\<not> readable 256" "\<not> writable 256"
  "writable 2050" "\<not> creating 2050" "\<not> readable 2050"
  by (simp_all add: readable_def writable_def creating_def)

definition put_at :: "nat \<Rightarrow> u8 list \<Rightarrow> u8 list \<Rightarrow> u8 list" where
  "put_at pos new old = take pos old @ new @ drop (pos + length new) old"

definition write_pos :: "handle \<Rightarrow> nat" where
  "write_pos h = (if of_flags h AND LFS_O_APPEND \<noteq> 0 then length (of_data h) else of_pos h)"

locale littlefs =
  fixes L :: "('o, 'f, 'd) lfs_if"
    and tree :: "('f, 'd) volume \<Rightarrow> u8 list \<Rightarrow> node option"
    and hd_of :: "'o \<Rightarrow> handle"
  assumes dir_open: "lfs_dir_open L p v = Inr (r, v') \<Longrightarrow> tree v' = tree v \<and> (r = 0 \<longrightarrow> tree v p = Some Dir)"
    and dir_close: "lfs_dir_close L v = Inr (r, v') \<Longrightarrow> tree v' = tree v"
    and open_existing: "lfs_file_opencfg L p fl info v = Inr ((r, h, info'), v') \<Longrightarrow> tree v p = Some (File d a) \<Longrightarrow>
      tree v' = tree v \<and> (if r = 0
        then hd_of h = \<lparr>of_path = p, of_flags = fl, of_pos = 0, of_data = d, of_bad = False\<rparr> \<and>
          ctz_size L h = of_nat (length d) \<and>
          info' = (case a of Some x \<Rightarrow> if readable fl then x else info | None \<Rightarrow> info)
        else r < 0 \<and> r \<noteq> LFS_ERR_NOENT)"
    and open_missing: "lfs_file_opencfg L p fl info v = Inr ((r, h, info'), v') \<Longrightarrow> tree v p = None \<Longrightarrow>
      if r = 0
      then creating fl \<and> tree v' = (tree v)(p \<mapsto> File [] None) \<and> info' = info \<and> ctz_size L h = 0 \<and>
        hd_of h = \<lparr>of_path = p, of_flags = fl, of_pos = 0, of_data = [], of_bad = False\<rparr>
      else tree v' = tree v \<and> r < 0"
    and open_dir: "lfs_file_opencfg L p fl info v = Inr ((r, h, info'), v') \<Longrightarrow> tree v p = Some Dir \<Longrightarrow>
      tree v' = tree v \<and> r < 0 \<and> r \<noteq> LFS_ERR_NOENT"
    and file_write: "lfs_file_write L h bs v = Inr ((r, h'), v') \<Longrightarrow> writable (of_flags (hd_of h)) \<Longrightarrow>
      tree v' = tree v \<and> hd_of h' = (if r < 0 then (hd_of h)\<lparr>of_bad := True\<rparr>
        else (hd_of h)\<lparr>of_pos := write_pos (hd_of h) + length bs,
          of_data := put_at (write_pos (hd_of h)) bs (of_data (hd_of h))\<rparr>)"
    and file_close: "lfs_file_close L h info v = Inr (r, v') \<Longrightarrow>
      tree v' = (if r = 0 \<and> writable (of_flags (hd_of h)) \<and> \<not> of_bad (hd_of h)
        then (tree v)(of_path (hd_of h) \<mapsto> File (of_data (hd_of h)) (Some info)) else tree v)"
    and file_read: "lfs_file_read L h n v = Inr ((r, bs, h'), v') \<Longrightarrow> readable (of_flags (hd_of h)) \<Longrightarrow>
      tree v' = tree v \<and> of_flags (hd_of h') = of_flags (hd_of h) \<and>
      (0 \<le> r \<longrightarrow> r = int (length bs) \<and> bs = take (unat n) (drop (of_pos (hd_of h)) (of_data (hd_of h))) \<and>
        hd_of h' = (hd_of h)\<lparr>of_pos := of_pos (hd_of h) + length bs\<rparr>)"
    and file_seek: "lfs_file_seek L h n v = Inr ((r, h'), v') \<Longrightarrow>
      tree v' = tree v \<and> hd_of h' = (if r < 0 then hd_of h else (hd_of h)\<lparr>of_pos := unat n\<rparr>)"
    and getattr: "lfs_getattr L p info v = Inr ((r, info'), v') \<Longrightarrow>
      tree v' = tree v \<and> (case tree v p of
        Some (File d (Some x)) \<Rightarrow> info' = (if r < 0 then info else x)
      | _ \<Rightarrow> info' = info \<or> info' = LFS_GetDefaultFileConfig)"
    and setattr: "lfs_setattr L p info v = Inr (r, v') \<Longrightarrow>
      if r = 0 then \<exists>d a. tree v p = Some (File d a) \<and> tree v' = (tree v)(p \<mapsto> File d (Some info)) else tree v' = tree v"
    and remove: "lfs_remove L p v = Inr (r, v') \<Longrightarrow>
      tree v' = (if r = 0 then (tree v)(p := None) else tree v) \<and> (r = LFS_ERR_NOENT \<longrightarrow> tree v p = None)"
    and mkdir: "lfs_mkdir L p v = Inr (r, v') \<Longrightarrow>
      tree v' = (if r = 0 then (tree v)(p \<mapsto> Dir) else tree v) \<and> (r = LFS_ERR_EXIST \<longrightarrow> tree v p \<noteq> None)"
    and rename: "lfs_rename L p q v = Inr (r, v') \<Longrightarrow>
      tree v' = (if r = 0 then (tree v)(p := None, q := tree v p) else tree v)"

text \<open>A medium without errors: every call returns, and only a lack of space makes one fail.\<close>

locale littlefs_reliable = littlefs L tree hd_of for L :: "('o, 'f, 'd) lfs_if" and tree hd_of +
  assumes dir_open_ok: "\<exists>r v'. lfs_dir_open L p v = Inr (r, v') \<and> (tree v p = Some Dir \<longrightarrow> r = 0)"
    and dir_close_ok: "\<exists>r v'. lfs_dir_close L v = Inr (r, v')"
    and open_ok: "\<exists>r h info' v'. lfs_file_opencfg L p fl info v = Inr ((r, h, info'), v') \<and>
      ((\<exists>d a. tree v p = Some (File d a)) \<longrightarrow> r = 0) \<and> (tree v p = None \<and> \<not> creating fl \<longrightarrow> r = LFS_ERR_NOENT)"
    and write_ok: "writable (of_flags (hd_of h)) \<Longrightarrow> \<exists>r h' v'. lfs_file_write L h bs v = Inr ((r, h'), v')"
    and close_ok: "\<exists>v'. lfs_file_close L h info v = Inr (0, v')"
    and read_ok: "readable (of_flags (hd_of h)) \<Longrightarrow> \<exists>r bs h' v'. lfs_file_read L h n v = Inr ((r, bs, h'), v') \<and> 0 \<le> r"
    and seek_ok: "\<exists>r h' v'. lfs_file_seek L h n v = Inr ((r, h'), v') \<and> 0 \<le> r"
    and getattr_ok: "\<exists>r info' v'. lfs_getattr L p info v = Inr ((r, info'), v') \<and>
      ((\<exists>d x. tree v p = Some (File d (Some x))) \<longrightarrow> 0 \<le> r)"
    and setattr_ok: "\<exists>r v'. lfs_setattr L p info v = Inr (r, v')"
    and remove_ok: "\<exists>r v'. lfs_remove L p v = Inr (r, v') \<and> ((\<exists>d a. tree v p = Some (File d a)) \<longrightarrow> r = 0) \<and> (tree v p = None \<longrightarrow> r = LFS_ERR_NOENT)"
    and mkdir_ok: "\<exists>r v'. lfs_mkdir L p v = Inr (r, v') \<and> (tree v p \<noteq> None \<longrightarrow> r = LFS_ERR_EXIST)"
    and rename_ok: "\<exists>r v'. lfs_rename L p q v = Inr (r, v')"

section \<open>A volume in memory\<close>

text \<open>A simulated littlefs whose volume is the tree itself; it satisfies both contracts.\<close>

definition sim_open :: "u8 list \<Rightarrow> u32 \<Rightarrow> u8 list \<Rightarrow> handle" where
  "sim_open p fl d = \<lparr>of_path = p, of_flags = fl, of_pos = 0, of_data = d, of_bad = False\<rparr>"

definition sim_write :: "handle \<Rightarrow> u8 list \<Rightarrow> handle" where
  "sim_write h bs = h\<lparr>of_pos := write_pos h + length bs, of_data := put_at (write_pos h) bs (of_data h)\<rparr>"

definition sim_commit :: "handle \<Rightarrow> file_encypt_info_t \<Rightarrow> (u8 list \<Rightarrow> node option) \<Rightarrow> u8 list \<Rightarrow> node option" where
  "sim_commit h info t = (if writable (of_flags h) \<and> \<not> of_bad h
     then t(of_path h \<mapsto> File (of_data h) (Some info)) else t)"

definition lfs_sim :: "(handle, u8 list \<Rightarrow> node option, 'd) lfs_if" where
  "lfs_sim = \<lparr>
     lfs_format = (\<lambda>v. Inr (0, v\<lparr>lfs := Map.empty\<rparr>)),
     lfs_mount = (\<lambda>v. Inr (0, v)),
     lfs_unmount = (\<lambda>v. Inr (0, v)),
     lfs_dir_open = (\<lambda>p v. Inr (if lfs v p = Some Dir then 0 else LFS_ERR_NOENT, v)),
     lfs_dir_close = (\<lambda>v. Inr (0, v)),
     lfs_file_opencfg = (\<lambda>p fl info v. case lfs v p of
         Some (File d a) \<Rightarrow> Inr ((0, sim_open p fl d,
           case a of Some x \<Rightarrow> if readable fl then x else info | None \<Rightarrow> info), v)
       | Some Dir \<Rightarrow> Inr ((-21, sim_open p fl [], info), v)
       | None \<Rightarrow> if creating fl then Inr ((0, sim_open p fl [], info), v\<lparr>lfs := (lfs v)(p \<mapsto> File [] None)\<rparr>)
           else Inr ((LFS_ERR_NOENT, sim_open p fl [], info), v)),
     lfs_file_close = (\<lambda>h info v. Inr (0, v\<lparr>lfs := sim_commit h info (lfs v)\<rparr>)),
     lfs_file_write = (\<lambda>h bs v. Inr ((int (length bs), sim_write h bs), v)),
     lfs_file_read = (\<lambda>h n v. let bs = take (unat n) (drop (of_pos h) (of_data h))
       in Inr ((int (length bs), bs, h\<lparr>of_pos := of_pos h + length bs\<rparr>), v)),
     lfs_file_seek = (\<lambda>h n v. Inr ((0, h\<lparr>of_pos := unat n\<rparr>), v)),
     lfs_getattr = (\<lambda>p info v. case lfs v p of
         Some (File d (Some x)) \<Rightarrow> Inr ((12, x), v)
       | _ \<Rightarrow> Inr ((-61, LFS_GetDefaultFileConfig), v)),
     lfs_setattr = (\<lambda>p info v. case lfs v p of
         Some (File d a) \<Rightarrow> Inr (0, v\<lparr>lfs := (lfs v)(p \<mapsto> File d (Some info))\<rparr>)
       | _ \<Rightarrow> Inr (LFS_ERR_NOENT, v)),
     lfs_remove = (\<lambda>p v. if lfs v p = None then Inr (LFS_ERR_NOENT, v) else Inr (0, v\<lparr>lfs := (lfs v)(p := None)\<rparr>)),
     lfs_mkdir = (\<lambda>p v. if lfs v p \<noteq> None then Inr (LFS_ERR_EXIST, v) else Inr (0, v\<lparr>lfs := (lfs v)(p \<mapsto> Dir)\<rparr>)),
     lfs_rename = (\<lambda>p q v. Inr (0, v\<lparr>lfs := (lfs v)(p := None, q := lfs v p)\<rparr>)),
     lfs_fs_traverse = (\<lambda>v. Inr ((0, [0, 1]), v)),
     ctz_size = (\<lambda>h. of_nat (length (of_data h)))\<rparr>"

lemma lfs_sim_simps [simp]:
  "lfs_dir_open lfs_sim p v = Inr (if lfs v p = Some Dir then 0 else LFS_ERR_NOENT, v)"
  "lfs_dir_close lfs_sim v = Inr (0, v)"
  "lfs_file_close lfs_sim h info v = Inr (0, v\<lparr>lfs := sim_commit h info (lfs v)\<rparr>)"
  "lfs_file_write lfs_sim h bs v = Inr ((int (length bs), sim_write h bs), v)"
  "lfs_file_seek lfs_sim h n v = Inr ((0, h\<lparr>of_pos := unat n\<rparr>), v)"
  "ctz_size lfs_sim h = of_nat (length (of_data h))"
  "lfs_fs_traverse lfs_sim v = Inr ((0, [0, 1]), v)"
  by (simp_all add: lfs_sim_def)

lemma lfs_sim_reliable: "littlefs_reliable lfs_sim lfs (\<lambda>h. h)"
  by unfold_locales
     (auto simp: lfs_sim_def sim_open_def sim_write_def sim_commit_def Let_def fun_upd_def
       split: option.splits node.splits if_splits)

interpretation sim_fs: littlefs_reliable lfs_sim lfs "\<lambda>h. h"
  by (rule lfs_sim_reliable)

section \<open>The file store over littlefs\<close>

text \<open>The tree does not depend on the callbacks, nor on the content of blocks that are not in use.\<close>

definition same_blocks :: "'d flexspi_if \<Rightarrow> u32 list \<Rightarrow> 'd blockdev \<Rightarrow> 'd blockdev \<Rightarrow> bool" where
  "same_blocks X bs d d' \<longleftrightarrow> (\<forall>b\<in>set bs. \<forall>i<0x1000.
     bflash X (blk_board d') (block_addr (unat b) + i) = bflash X (blk_board d) (block_addr (unat b) + i))"

locale store = littlefs "fs_api P" tree hd_of for P :: "('o, 'f, 'd, 'h) platform" and tree hd_of +
  assumes tree_called: "tree (v\<lparr>bdev := (bdev v)\<lparr>called := c\<rparr>\<rparr>) = tree v"
    and tree_cbs: "tree (v\<lparr>bdev := (bdev v)\<lparr>s_flashLittlefsCbs := k\<rparr>\<rparr>) = tree v"
    and traverse: "lfs_fs_traverse (fs_api P) v = Inr ((r, bs), v') \<Longrightarrow> tree v' = tree v \<and> bdev v' = bdev v \<and>
      (\<forall>b\<in>set bs. unat b < 256) \<and>
      (r = 0 \<longrightarrow> (\<forall>d. same_blocks (flexspi P) bs (bdev v') d \<longrightarrow> tree (v'\<lparr>bdev := d\<rparr>) = tree v'))"

locale store_reliable = store P tree hd_of + littlefs_reliable "fs_api P" tree hd_of
  for P :: "('o, 'f, 'd, 'h) platform" and tree hd_of +
  assumes heap: "heap_ok P t n"

definition sim_platform :: "(handle, u8 list \<Rightarrow> node option, nor_chip, nat \<Rightarrow> u8 list) platform" where
  "sim_platform = \<lparr>fs_api = lfs_sim, flexspi = nor_sim FLASH_VENDOR_ID, aes = dcp_sim,
     heap_ok = (\<lambda>_ _. True), mutex_ok = (\<lambda>_. True), ticks = (\<lambda>n. of_nat n)\<rparr>"

lemma sim_store: "store_reliable sim_platform lfs (\<lambda>h. h)"
proof -
  have p: "fs_api sim_platform = lfs_sim" "heap_ok sim_platform = (\<lambda>_ _. True)"
    by (simp_all add: sim_platform_def)
  show ?thesis
    unfolding store_reliable_def store_def store_axioms_def store_reliable_axioms_def p
    by (simp add: lfs_sim_reliable littlefs_reliable.axioms(1) [OF lfs_sim_reliable])
qed

interpretation sim_store: store_reliable sim_platform lfs "\<lambda>h. h"
  by (rule sim_store)

definition has_parent :: "(u8 list \<Rightarrow> node option) \<Rightarrow> u8 list \<Rightarrow> bool" where
  "has_parent t name \<longleftrightarrow> (let off = base_offset name (length name mod 256) in
     off = 0 \<or> t (take off name) = Some Dir)"

lemma base_offset_le: "base_offset name n \<le> n"
  by (induction n) auto

lemma base_offset_last:
  "L \<le> n \<Longrightarrow> L = 0 \<or> (name @ [0]) ! L = 47 \<Longrightarrow> (\<And>i. L < i \<Longrightarrow> i \<le> n \<Longrightarrow> (name @ [0]) ! i \<noteq> 47) \<Longrightarrow>
    base_offset name n = L"
proof (induction n)
  case (Suc n)
  show ?case
  proof (cases "L = Suc n")
    case False
    then show ?thesis using Suc.prems(1,2) Suc.IH Suc.prems(3) by simp
  qed (use Suc.prems(2) in auto)
qed simp

lemma has_parent_flat: "47 \<notin> set name \<Longrightarrow> length name < 256 \<Longrightarrow> has_parent t name"
proof -
  assume n: "47 \<notin> set name" "length name < 256"
  then have "(name @ [0]) ! i \<noteq> 47" if "i \<le> length name" for i
    using that n(1) by (auto simp: nth_append in_set_conv_nth)
  then show ?thesis using base_offset_last [of 0 "length name" name] n(2) by (simp add: has_parent_def)
qed

lemma has_parent_in:
  assumes "47 \<notin> set ys" and "dir \<noteq> []" and "length dir + length ys < 255"
  shows "has_parent t (dir @ 47 # ys) \<longleftrightarrow> t dir = Some Dir"
proof -
  let ?N = "dir @ 47 # ys"
  have late: "(?N @ [0]) ! i \<noteq> 47" if "length dir < i" "i \<le> length ?N" for i
  proof -
    have "i - length dir = Suc (i - Suc (length dir))" using that(1) by simp
    then have "(?N @ [0]) ! i = (ys @ [0]) ! (i - Suc (length dir))" using that(1) by (simp add: nth_append)
    then show ?thesis using that assms(1) by (auto simp: nth_append in_set_conv_nth)
  qed
  have "(?N @ [0]) ! length dir = 47" by simp
  then have "base_offset ?N (length ?N) = length dir" by (intro base_offset_last) (use late in auto)
  then show ?thesis using assms(2,3) by (simp add: has_parent_def)
qed

text \<open>The directory part of a path is not the path itself: the test of the last character is on the NUL.\<close>

lemma base_offset_less: "base_offset name (length name mod 256) < length name \<or> base_offset name (length name mod 256) = 0"
proof -
  have "length name mod 256 \<le> length name" by simp
  moreover have "base_offset name (length name) \<noteq> length name \<or> name = []"
  proof (cases "length name")
    case (Suc n)
    then have "base_offset name (length name) = base_offset name n" by (simp add: nth_append)
    then show ?thesis using Suc base_offset_le [of name n] by simp
  qed simp
  ultimately show ?thesis using base_offset_le [of name "length name mod 256"]
    by (cases "length name mod 256 = length name") auto
qed

text \<open>What a file operation may change besides the tree: the callbacks' log, the call counter and the
  state of the coprocessor, not the mutex and not the key slots.\<close>

definition calm :: "('f, 'd, 'h) lfs_st \<Rightarrow> ('f, 'd, 'h) lfs_st \<Rightarrow> bool" where
  "calm s s' \<longleftrightarrow> lfs_lock s' = lfs_lock s \<and> lfsMounted s' = lfsMounted s \<and>
     s_SNL_EncryptCtx (crypt s') = s_SNL_EncryptCtx (crypt s)"

lemma calm_refl [simp]: "calm s s"
  by (simp add: calm_def)

lemma calm_trans: "calm s t \<Longrightarrow> calm t u \<Longrightarrow> calm s u"
  by (simp add: calm_def)

lemma calm_simps [simp]:
  "calm s (t\<lparr>vol := v\<rparr>) = calm s t" "calm s (t\<lparr>os_calls := n\<rparr>) = calm s t"
  "calm s (volume_cb cb t) = calm s t"
  by (simp_all add: calm_def volume_cb_def)

definition key_loaded :: "('f, 'd, 'h) lfs_st \<Rightarrow> bool" where
  "key_loaded s \<longleftrightarrow> SLN_Encrypt_Key_Loaded (Some enc_ctx) (crypt s)"

lemma calm_key_loaded: "calm s s' \<Longrightarrow> key_loaded s' = key_loaded s"
  by (simp add: calm_def key_loaded_def SLN_Encrypt_Key_Loaded_def)

lemma calm_lock: "calm s s' \<Longrightarrow> lfs_lock s' = lfs_lock s"
  by (simp add: calm_def)

text \<open>\<open>runs tree s m Q\<close>: the call \<open>m\<close>, made in the state \<open>s\<close>, returns; its result and the
  tree after it satisfy \<open>Q\<close>.\<close>

definition runs :: "(('f, 'd) volume \<Rightarrow> 't) \<Rightarrow> ('f, 'd, 'h) lfs_st \<Rightarrow>
    ('r \<times> ('f, 'd, 'h) lfs_st) outcome \<Rightarrow> ('r \<Rightarrow> 't \<Rightarrow> bool) \<Rightarrow> bool" where
  "runs tree s m Q \<longleftrightarrow> (\<exists>r s'. m = Inr (r, s') \<and> calm s s' \<and> Q r (tree (vol s')))"

named_theorems runs_intros "runs of calls, by their shape"

lemma runs_Inr [runs_intros]: "calm s s' \<Longrightarrow> Q r (tree (vol s')) \<Longrightarrow> runs tree s (Inr (r, s')) Q"
  by (simp add: runs_def)

lemma runs_bind:
  assumes "runs tree s m R"
    and "\<And>r s'. calm s s' \<Longrightarrow> R r (tree (vol s')) \<Longrightarrow> runs tree s' (f r s') Q"
  shows "runs tree s (rbind m (\<lambda>(r, s). f r s)) Q"
  using assms unfolding runs_def by (fastforce intro: calm_trans)

lemma runs_mono: "runs tree s m R \<Longrightarrow> (\<And>r t. R r t \<Longrightarrow> Q r t) \<Longrightarrow> runs tree s m Q"
  by (auto simp: runs_def)

lemma runs_cong: "calm s s1 \<Longrightarrow> runs tree s1 m Q \<Longrightarrow> runs tree s m Q"
  by (auto simp: runs_def intro: calm_trans)

lemma runsD:
  assumes "runs tree s m Q"
  obtains r s' where "m = Inr (r, s')" and "calm s s'" and "Q r (tree (vol s'))"
  using assms by (auto simp: runs_def)

lemma runs_on_vol:
  assumes "f (vol s) = Inr (r, v)" and "Q r (tree v)"
  shows "runs tree s (on_vol f s) Q"
  using assms by (simp add: runs_def on_vol_def)

section \<open>Attributes and content of an entry\<close>

fun attr_of :: "node option \<Rightarrow> file_encypt_info_t" where
  "attr_of (Some (File d (Some x))) = x"
| "attr_of _ = LFS_GetDefaultFileConfig"

fun content_of :: "node option \<Rightarrow> u8 list" where
  "content_of (Some (File d a)) = d"
| "content_of _ = []"

fun is_file :: "node option \<Rightarrow> bool" where
  "is_file (Some (File d a)) = True"
| "is_file _ = False"

lemma is_file_iff: "is_file n \<longleftrightarrow> (\<exists>d a. n = Some (File d a))"
  by (cases n rule: is_file.cases) auto

definition file_at :: "u8 list \<Rightarrow> u32 \<Rightarrow> u8 list \<Rightarrow> handle" where
  "file_at p fl d = \<lparr>of_path = p, of_flags = fl, of_pos = 0, of_data = d, of_bad = False\<rparr>"

lemma file_at_simps [simp]:
  "of_path (file_at p fl d) = p" "of_flags (file_at p fl d) = fl" "of_pos (file_at p fl d) = 0"
  "of_data (file_at p fl d) = d" "\<not> of_bad (file_at p fl d)"
  by (simp_all add: file_at_def)

text \<open>An operation under the mutex, when the mutex is free.\<close>

context store begin

lemma tree_volume_cb [simp]: "tree (vol (volume_cb cb s)) = tree (vol s)"
  by (cases "cb (s_flashLittlefsCbs (bdev (vol s)))") (simp_all add: volume_cb_def run_cb_def tree_called)

lemma locked_runs:
  assumes l: "lfs_lock s = Some False"
    and body: "\<And>s1. tree (vol s1) = tree (vol s) \<Longrightarrow> key_loaded s1 = key_loaded s \<Longrightarrow> runs tree s1 (body s1) Q"
  shows "runs tree s (locked nolock body s) Q"
proof -
  let ?s1 = "volume_cb post_lock_cb (s\<lparr>lfs_lock := Some True\<rparr>)"
  have "tree (vol ?s1) = tree (vol s)" "key_loaded ?s1 = key_loaded s"
    by (simp_all add: key_loaded_def) (simp add: volume_cb_def)
  from runsD [OF body [OF this]] obtain r s2
    where b: "body ?s1 = Inr (r, s2)" "calm ?s1 s2" "Q r (tree (vol s2))" by blast
  have l2: "lfs_lock s2 = Some True" using calm_lock [OF b(2)] by simp
  have "calm s (snd (unlock_store s2))"
    using b(2) l2 l by (simp add: calm_def unlock_store_def volume_cb_def)
  moreover have "tree (vol (snd (unlock_store s2))) = tree (vol s2)"
    using l2 by (simp add: unlock_store_def)
  ultimately show ?thesis
    using b(1,3) l by (simp add: runs_def locked_def lock_store_def)
qed

end

end
