(* ===== verification/File_Contents.thy ===== *)
theory File_Contents
  imports File_Store
begin

text \<open>
  What the operations of the file store do to the tree of entries, when littlefs meets its contract
  on a medium without errors and the mutex is free: the total behaviour of every operation on
  plain files, and of save and read on encrypted files. The properties of saved files rest on it.
\<close>

section \<open>The steps of an operation\<close>

context store_reliable begin

lemma malloc_ok: "pvPortMalloc P n s = (Some (replicate n 0), s\<lparr>os_calls := os_calls s + 1\<rparr>)"
  by (simp add: pvPortMalloc_def heap)

lemma base_path_runs:
  "runs tree s (LFS_CheckBasePath P name s)
    (\<lambda>ret t. t = tree (vol s) \<and>
       ret = (if has_parent (tree (vol s)) name then SLN_FLASH_FS_OK else SLN_FLASH_FS_ENOENTRY))"
proof (cases "base_offset name (length name mod 256) = 0")
  case True
  then show ?thesis by (simp add: LFS_CheckBasePath_def has_parent_def runs_intros)
next
  case False
  let ?p = "take (base_offset name (length name mod 256)) name"
  let ?s = "s\<lparr>os_calls := os_calls s + 1\<rparr>"
  obtain r v where o: "lfs_dir_open (fs_api P) ?p (vol s) = Inr (r, v)" "tree (vol s) ?p = Some Dir \<longrightarrow> r = 0"
    using dir_open_ok by blast
  obtain r2 v2 where c: "lfs_dir_close (fs_api P) v = Inr (r2, v2)" using dir_close_ok by blast
  have "tree v = tree (vol s)" "r = 0 \<longleftrightarrow> tree (vol s) ?p = Some Dir" "tree v2 = tree v"
    using dir_open [OF o(1)] o(2) dir_close [OF c] by auto
  then show ?thesis using False o(1) c
    by (simp add: LFS_CheckBasePath_def malloc_ok on_vol_def has_parent_def runs_def)
qed

lemma open_file_runs:
  assumes "tree (vol s) name = Some (File d a)"
  shows "runs tree s (open_file P name fl s)
    (\<lambda>(r, h, info) t. t = tree (vol s) \<and> r = 0 \<and> hd_of h = file_at name fl d \<and>
       ctz_size (fs_api P) h = of_nat (length d) \<and>
       info = (if readable fl then attr_of (tree (vol s) name) else LFS_GetDefaultFileConfig))"
proof -
  obtain r h info v where o: "lfs_file_opencfg (fs_api P) name fl LFS_GetDefaultFileConfig (vol s) = Inr ((r, h, info), v)"
    "r = 0" using open_ok assms by blast
  show ?thesis unfolding open_file_def
    by (rule runs_on_vol, rule o(1))
       (use open_existing [OF o(1) assms] o(2) assms in \<open>auto simp: file_at_def split: option.splits\<close>)
qed

lemma open_new_runs:
  assumes "tree (vol s) name = None" and "creating fl"
  shows "runs tree s (open_file P name fl s)
    (\<lambda>(r, h, info) t. r = 0 \<and> t = (tree (vol s))(name \<mapsto> File [] None) \<and> hd_of h = file_at name fl [] \<and>
         ctz_size (fs_api P) h = 0 \<and> info = LFS_GetDefaultFileConfig
       \<or> r < 0 \<and> t = tree (vol s))"
proof -
  obtain r h info v where o: "lfs_file_opencfg (fs_api P) name fl LFS_GetDefaultFileConfig (vol s) = Inr ((r, h, info), v)"
    using open_ok by blast
  show ?thesis unfolding open_file_def
    by (rule runs_on_vol, rule o)
       (use open_missing [OF o assms(1)] in \<open>auto simp: file_at_def split: if_splits\<close>)
qed

lemma open_absent_runs:
  assumes "tree (vol s) name = None" and "\<not> creating fl"
  shows "runs tree s (open_file P name fl s) (\<lambda>(r, h, info) t. r = LFS_ERR_NOENT \<and> t = tree (vol s))"
proof -
  obtain r h info v where o: "lfs_file_opencfg (fs_api P) name fl LFS_GetDefaultFileConfig (vol s) = Inr ((r, h, info), v)"
    "r = LFS_ERR_NOENT" using open_ok assms by blast
  show ?thesis unfolding open_file_def
    by (rule runs_on_vol, rule o(1)) (use open_missing [OF o(1) assms(1)] o(2) in \<open>auto split: if_splits\<close>)
qed

lemma open_dir_runs:
  assumes "tree (vol s) name = Some Dir"
  shows "runs tree s (open_file P name fl s) (\<lambda>(r, h, info) t. r < 0 \<and> r \<noteq> LFS_ERR_NOENT \<and> t = tree (vol s))"
proof -
  obtain r h info v where o: "lfs_file_opencfg (fs_api P) name fl LFS_GetDefaultFileConfig (vol s) = Inr ((r, h, info), v)"
    using open_ok by blast
  show ?thesis unfolding open_file_def
    by (rule runs_on_vol, rule o) (use open_dir [OF o assms] in auto)
qed

lemma load_attr_runs:
  assumes "info = LFS_GetDefaultFileConfig \<or> info = attr_of (tree (vol s) name)"
  shows "runs tree s (load_attr P name info s) (\<lambda>info' t. t = tree (vol s) \<and> info' = attr_of (tree (vol s) name))"
proof -
  obtain r info' v where g: "lfs_getattr (fs_api P) name info (vol s) = Inr ((r, info'), v)"
    "(\<exists>d x. tree (vol s) name = Some (File d (Some x))) \<longrightarrow> 0 \<le> r"
    using getattr_ok by blast
  have "tree v = tree (vol s) \<and> info' = attr_of (tree (vol s) name)"
    using getattr [OF g(1)] g(2) assms by (cases "tree (vol s) name" rule: attr_of.cases) auto
  then show ?thesis using g(1) by (simp add: load_attr_def on_vol_def runs_def)
qed

lemma close_runs:
  "runs tree s (close_file P h info s) (\<lambda>_ t.
     t = (if writable (of_flags (hd_of h)) \<and> \<not> of_bad (hd_of h)
       then (tree (vol s))(of_path (hd_of h) \<mapsto> File (of_data (hd_of h)) (Some info)) else tree (vol s)))"
proof -
  obtain v where c: "lfs_file_close (fs_api P) h info (vol s) = Inr (0, v)" using close_ok by blast
  show ?thesis unfolding close_file_def by (rule runs_on_vol, rule c) (use file_close [OF c] in simp)
qed

lemma seek_runs:
  "runs tree s (on_vol (lfs_file_seek (fs_api P) h n) s)
    (\<lambda>(r, h') t. t = tree (vol s) \<and> hd_of h' = (hd_of h)\<lparr>of_pos := unat n\<rparr>)"
proof -
  obtain r h' v where k: "lfs_file_seek (fs_api P) h n (vol s) = Inr ((r, h'), v)" "0 \<le> r" using seek_ok by blast
  show ?thesis by (rule runs_on_vol, rule k(1)) (use file_seek [OF k(1)] k(2) in auto)
qed

text \<open>Bytes written at the position of the handle are committed by the close, with the attribute.\<close>

lemma write_close_runs:
  assumes w: "writable (of_flags (hd_of h))" "\<not> of_bad (hd_of h)"
  shows "runs tree s
    (rbind (on_vol (lfs_file_write (fs_api P) h bytes) s) (\<lambda>((r, h'), s).
     rbind (close_file P h' info s) (\<lambda>(_, s). Inr (if r < 0 then SLN_FLASH_FS_FAIL else SLN_FLASH_FS_OK, s))))
    (\<lambda>ret t. ret = SLN_FLASH_FS_OK \<and> t = (tree (vol s))(of_path (hd_of h) \<mapsto>
         File (put_at (write_pos (hd_of h)) bytes (of_data (hd_of h))) (Some info))
       \<or> ret = SLN_FLASH_FS_FAIL \<and> t = tree (vol s))"
proof -
  obtain r h' v where k: "lfs_file_write (fs_api P) h bytes (vol s) = Inr ((r, h'), v)"
    using write_ok [OF w(1)] by blast
  let ?s = "s\<lparr>vol := v\<rparr>"
  have wr: "tree v = tree (vol s)" "hd_of h' = (if r < 0 then (hd_of h)\<lparr>of_bad := True\<rparr>
        else (hd_of h)\<lparr>of_pos := write_pos (hd_of h) + length bytes,
          of_data := put_at (write_pos (hd_of h)) bytes (of_data (hd_of h))\<rparr>)"
    using file_write [OF k w(1)] by auto
  obtain u s' where c: "close_file P h' info ?s = Inr (u, s')" "calm ?s s'"
    "tree (vol s') = (if writable (of_flags (hd_of h')) \<and> \<not> of_bad (hd_of h')
       then (tree (vol ?s))(of_path (hd_of h') \<mapsto> File (of_data (hd_of h')) (Some info)) else tree (vol ?s))"
    using close_runs [of ?s h' info] by (auto elim: runsD)
  have "calm s s'" using c(2) by (simp add: calm_def)
  then show ?thesis using k c(1,3) wr w by (simp add: on_vol_def runs_def)
qed

lemma save_plain_content_runs:
  assumes "writable (of_flags (hd_of h))" "\<not> of_bad (hd_of h)" "\<not> useEncryption info" "unat len \<le> length data"
  shows "runs tree s (write_and_close P h info data len s)
    (\<lambda>ret t. ret = SLN_FLASH_FS_OK \<and> t = (tree (vol s))(of_path (hd_of h) \<mapsto>
         File (put_at (write_pos (hd_of h)) (take (unat len) data) (of_data (hd_of h))) (Some info))
       \<or> ret = SLN_FLASH_FS_FAIL \<and> t = tree (vol s))"
proof -
  have eq: "write_and_close P h info data len s =
      rbind (on_vol (lfs_file_write (fs_api P) h (take (unat len) data)) s) (\<lambda>((r, h'), s).
     rbind (close_file P h' info s) (\<lambda>(_, s). Inr (if r < 0 then SLN_FLASH_FS_FAIL else SLN_FLASH_FS_OK, s)))"
    using assms(3,4)
    by (cases "on_vol (lfs_file_write (fs_api P) h (take (unat len) data)) s")
       (auto simp: write_and_close_def LFS_SaveFileContent_def slice_def)
  show ?thesis unfolding eq by (rule write_close_runs [OF assms(1,2)])
qed

text \<open>A read of a handle fills the buffer with what is left of the file, at most the length asked for.\<close>

lemma one_read:
  assumes "readable (of_flags (hd_of h))"
  obtains h' v where "lfs_file_read (fs_api P) h n (vol s) =
      Inr ((int (length (take (unat n) (drop (of_pos (hd_of h)) (of_data (hd_of h))))),
        take (unat n) (drop (of_pos (hd_of h)) (of_data (hd_of h))), h'), v)"
    and "tree v = tree (vol s)"
    and "hd_of h' = (hd_of h)\<lparr>of_pos := of_pos (hd_of h) + length (take (unat n) (drop (of_pos (hd_of h)) (of_data (hd_of h))))\<rparr>"
proof -
  obtain r bs h' v where k: "lfs_file_read (fs_api P) h n (vol s) = Inr ((r, bs, h'), v)" "0 \<le> r"
    using read_ok [OF assms] by blast
  then show thesis using file_read [OF k(1) assms] by (intro that [of h' v]) auto
qed

lemma read_all_runs:
  assumes rd: "readable (of_flags (hd_of h))" and n: "0 < len"
    and bytes: "bytes = take (unat len) (drop (of_pos (hd_of h)) (of_data (hd_of h)))" "length bytes \<le> length data"
  shows "runs tree s (read_all P h data len s)
    (\<lambda>(ret, h', buf, n) t. t = tree (vol s) \<and> ret = SLN_FLASH_FS_OK \<and> of_flags (hd_of h') = of_flags (hd_of h) \<and>
       buf = blit 0 bytes data \<and> n = of_nat (length bytes))"
proof -
  have len0: "unat len \<noteq> 0" using n by (simp add: word_less_nat_alt)
  obtain h1 v1 where r1: "lfs_file_read (fs_api P) h len (vol s) = Inr ((int (length bytes), bytes, h1), v1)"
    "tree v1 = tree (vol s)" "hd_of h1 = (hd_of h)\<lparr>of_pos := of_pos (hd_of h) + length bytes\<rparr>"
    using one_read [OF rd, of len s] unfolding bytes(1) [symmetric] by metis
  have ub: "unat (of_nat (length bytes) :: u32) = length bytes"
    using unat_u32_less [of len] bytes(1) by (simp add: unat_of_nat min_def)
  have le: "(of_nat (length bytes) :: u32) \<le> len"
    unfolding word_le_nat_alt ub by (simp add: bytes(1))
  show ?thesis
  proof (cases "length bytes = 0 \<or> length bytes = unat len")
    case True
    then have "length bytes \<noteq> 0 \<Longrightarrow> len - of_nat (length bytes) = 0"
      using ub by (auto simp: of_nat_unat)
    then show ?thesis using r1 True bytes(2)
      by (auto simp: read_all_def read_loop.simps [of P h data] on_vol_def runs_def blit_def)
  next
    case False
    define len1 where "len1 = len - of_nat (length bytes)"
    have "unat len1 = unat len - length bytes" unfolding len1_def by (simp add: unat_sub_le [OF le] ub)
    moreover have "length bytes < unat len" using False bytes(1) by auto
    ultimately have l1: "0 < len1" by (simp add: word_less_nat_alt)
    have e: "drop (of_pos (hd_of h1)) (of_data (hd_of h1)) = []"
      using False r1(3) unfolding bytes(1) by auto
    have rd1: "readable (of_flags (hd_of h1))" using rd r1(3) by simp
    obtain h2 v2 where r2: "lfs_file_read (fs_api P) h1 len1 v1 = Inr ((0, [], h2), v2)"
      "tree v2 = tree v1" "of_flags (hd_of h2) = of_flags (hd_of h1)"
      by (rule one_read [OF rd1, of len1 "s\<lparr>vol := v1\<rparr>", unfolded e]) (auto intro: that)
    have "read_loop P h data 0 len s = Some (Inr ((SLN_FLASH_FS_OK, h2, blit 0 bytes data, of_nat (length bytes)),
        s\<lparr>vol := v2\<rparr>))"
      using r1(1) r2(1) l1 False bytes(2)
      by (simp add: read_loop.simps [of P h data] read_loop.simps [of P h1] on_vol_def len1_def [symmetric])
    then show ?thesis using r1 r2 by (simp add: read_all_def runs_def)
  qed
qed

section \<open>Operations on plain files\<close>

text \<open>A save overwrites the front of the file and keeps the rest: the file is not truncated.\<close>

lemma put_at_front [simp]: "put_at 0 new old = new @ drop (length new) old"
  by (simp add: put_at_def)

end

text \<open>The outcome of a save: the file with its attribute, or an error that at most has created
  an empty file.\<close>

definition saved :: "(u8 list \<Rightarrow> node option) \<Rightarrow> u8 list \<Rightarrow> u8 list \<Rightarrow> file_encypt_info_t \<Rightarrow>
    int \<Rightarrow> (u8 list \<Rightarrow> node option) \<Rightarrow> bool" where
  "saved t0 name d info ret t \<longleftrightarrow>
     (if \<not> has_parent t0 name then ret = SLN_FLASH_FS_ENOENTRY \<and> t = t0
      else ret = SLN_FLASH_FS_OK \<and> t = t0(name \<mapsto> File d (Some info))
        \<or> ret = SLN_FLASH_FS_FAIL \<and> (t = t0 \<or> t0 name = None \<and> t = t0(name \<mapsto> File [] None)))"

definition created :: "(u8 list \<Rightarrow> node option) \<Rightarrow> u8 list \<Rightarrow> (u8 list \<Rightarrow> node option) \<Rightarrow> bool" where
  "created t0 name t \<longleftrightarrow> t = t0 \<or> t0 name = None \<and> t = t0(name \<mapsto> File [] None)"

lemma created_attr: "created t0 name t \<Longrightarrow> attr_of (t name) = attr_of (t0 name)"
  by (auto simp: created_def)

lemma created_refl [simp]: "created t0 name t0"
  by (simp add: created_def)

text \<open>What a read returns: the bytes from the offset on, at most as many as asked for.\<close>

definition read_back :: "u8 list \<Rightarrow> u32 \<Rightarrow> u8 list \<Rightarrow> u32 \<Rightarrow> int \<times> u8 list option \<times> u32 \<Rightarrow> bool" where
  "read_back xs offset buf len r \<longleftrightarrow> r =
     (SLN_FLASH_FS_OK, Some (blit 0 (slice (unat offset) (unat len) xs) buf),
      of_nat (length (slice (unat offset) (unat len) xs)))"

lemma open_flags: "LFS_O_CREAT OR LFS_O_WRONLY = 258" "LFS_O_APPEND OR LFS_O_WRONLY = 2050"
  by simp_all

lemmas op_consts = open_flags LFS_O_RDONLY_def LFS_O_RDWR_def SLN_FLASH_FS_OK_def SLN_FLASH_FS_FAIL_def

context store_reliable begin

text \<open>The frame of the operations: the mutex, and the check of the directory of the path.\<close>

lemma guarded_runs:
  assumes l: "lfs_lock s = Some False"
    and no: "\<not> has_parent (tree (vol s)) name \<Longrightarrow> Q SLN_FLASH_FS_ENOENTRY (tree (vol s))"
    and body: "\<And>s1. has_parent (tree (vol s)) name \<Longrightarrow> tree (vol s1) = tree (vol s) \<Longrightarrow>
      key_loaded s1 = key_loaded s \<Longrightarrow> runs tree s1 (body 0 s1) Q"
  shows "runs tree s (locked nolock (\<lambda>s. rbind (LFS_CheckBasePath P name s) (\<lambda>(ret, s).
    if ret = 0 then body ret s else Inr (ret, s))) s) Q"
proof (rule locked_runs [OF l], goal_cases)
  case (1 s1)
  show ?case
  proof (rule runs_bind [OF base_path_runs], goal_cases)
    case (1 ret s2)
    then show ?case using no body [of s2] \<open>tree (vol s1) = tree (vol s)\<close> \<open>key_loaded s1 = key_loaded s\<close>
      by (cases "has_parent (tree (vol s)) name") (auto simp: runs_Inr calm_key_loaded)
  qed
qed

lemma open_save_runs:
  assumes "tree (vol s) name \<noteq> Some Dir"
  shows "runs tree s (open_file P name 258 s) (\<lambda>(r, h, info) t.
    r = 0 \<and> hd_of h = file_at name 258 (content_of (tree (vol s) name)) \<and> info = LFS_GetDefaultFileConfig \<and>
      created (tree (vol s)) name t
    \<or> r < 0 \<and> t = tree (vol s))"
proof (cases "tree (vol s) name")
  case None
  then show ?thesis using open_new_runs [of s name 258] by (auto simp: created_def elim!: runs_mono)
next
  case (Some nd)
  then obtain d a where nd: "tree (vol s) name = Some (File d a)" using assms by (cases nd) auto
  then show ?thesis using open_file_runs [of s name d a 258] by (auto elim!: runs_mono)
qed

lemma save_runs:
  assumes l: "lfs_lock s = Some False" and n: "0 < len" and f: "tree (vol s) name \<noteq> Some Dir"
    and wr: "\<And>h s1. hd_of h = file_at name 258 (content_of (tree (vol s) name)) \<Longrightarrow>
      created (tree (vol s)) name (tree (vol s1)) \<Longrightarrow> key_loaded s1 = key_loaded s \<Longrightarrow>
      runs tree s1 (write_and_close P h (attr_of (tree (vol s) name)) data len s1)
        (\<lambda>ret t. ret = SLN_FLASH_FS_OK \<and> t = (tree (vol s))(name \<mapsto> File d (Some info))
           \<or> ret = SLN_FLASH_FS_FAIL \<and> created (tree (vol s)) name t)"
  shows "runs tree s (SLN_FLASH_LITTLEFS_Save P (Some name) (Some data) len s) (saved (tree (vol s)) name d info)"
proof -
  let ?T = "tree (vol s)"
  have tail: "runs tree s1 (rbind (open_file P name 258 s1) (\<lambda>((r, file, info), s).
      if r < 0 then Inr (-1, s)
      else rbind (load_attr P name info s) (\<lambda>(info, s). write_and_close P file info data len s))) (saved ?T name d info)"
    if t1: "tree (vol s1) = ?T" "key_loaded s1 = key_loaded s" and p: "has_parent ?T name" for s1
  proof (rule runs_bind [OF open_save_runs], use f t1 in simp, goal_cases)
    case (1 x s2)
    obtain r h i where x: "x = (r, h, i)" by (cases x)
    show ?case
    proof (cases "r < 0")
      case True
      then show ?thesis using 1 t1 p by (auto simp: x runs_Inr saved_def)
    next
      case False
      then have h: "hd_of h = file_at name 258 (content_of (?T name))" "i = LFS_GetDefaultFileConfig"
        "created ?T name (tree (vol s2))" using 1 t1 by (auto simp: x)
      have "runs tree s2 (rbind (load_attr P name i s2) (\<lambda>(info, s). write_and_close P h info data len s)) (saved ?T name d info)"
      proof (rule runs_bind [OF load_attr_runs], use h in simp, goal_cases)
        case (1 i' s3)
        have "runs tree s3 (write_and_close P h (attr_of (?T name)) data len s3)
           (\<lambda>ret t. ret = SLN_FLASH_FS_OK \<and> t = (tree (vol s))(name \<mapsto> File d (Some info))
              \<or> ret = SLN_FLASH_FS_FAIL \<and> created (tree (vol s)) name t)"
          by (rule wr) (use 1 h t1 \<open>calm s1 s2\<close> in \<open>auto simp: calm_key_loaded\<close>)
        moreover have "i' = attr_of (?T name)" using 1 h by (simp add: created_attr)
        ultimately show ?case using p by (auto simp: saved_def created_def elim!: runs_mono)
      qed
      then show ?thesis using False by (simp add: x)
    qed
  qed
  have "len \<noteq> 0" using n by auto
  show ?thesis
    unfolding SLN_FLASH_LITTLEFS_Save_def prod.case option.case op_consts if_not_P [OF \<open>len \<noteq> 0\<close>]
    by (rule guarded_runs [OF l]) (simp add: saved_def, rule tail)
qed

lemma save_plain_runs:
  assumes "lfs_lock s = Some False" "0 < len" "unat len \<le> length data"
    and f: "tree (vol s) name \<noteq> Some Dir" "\<not> useEncryption (attr_of (tree (vol s) name))"
  shows "runs tree s (SLN_FLASH_LITTLEFS_Save P (Some name) (Some data) len s)
    (saved (tree (vol s)) name (take (unat len) data @ drop (unat len) (content_of (tree (vol s) name)))
      (attr_of (tree (vol s) name)))"
proof (rule save_runs [OF assms(1,2) f(1)], goal_cases)
  case (1 h s1)
  then show ?case using assms(3)
    by (intro runs_mono [OF save_plain_content_runs]) (use f(2) in \<open>auto simp: write_pos_def created_def\<close>)
qed

lemma length_slice_le: "length (slice off n xs) \<le> n"
  by (simp add: slice_def)

lemma get_plain_runs:
  assumes h: "hd_of h = file_at name 1 d" "ctz_size (fs_api P) h = of_nat (length d)"
    and d: "length d < 4294967296" and n: "0 < len" "unat len \<le> length buf"
    and o: "unat offset \<le> length d"
  shows "runs tree s (get_plain P h offset buf len s)
    (\<lambda>(ret, h', buf', n) t. t = tree (vol s) \<and> of_flags (hd_of h') = 1 \<and> read_back d offset buf len (ret, Some buf', n))"
proof -
  have "runs tree s1 (rbind (read_all P h1 buf len s1) (\<lambda>((ret, file, dataOut, n), s).
       Inr ((ret, file, dataOut, if ret = SLN_FLASH_FS_OK then n else len), s)))
     (\<lambda>(ret, h', buf', n) t. t = tree (vol s) \<and> of_flags (hd_of h') = 1 \<and> read_back d offset buf len (ret, Some buf', n))"
    if "tree (vol s1) = tree (vol s)" "hd_of h1 = (file_at name 1 d)\<lparr>of_pos := unat offset\<rparr>" for s1 h1
  proof (rule runs_bind [OF read_all_runs [OF _ n(1) refl]], goal_cases)
    case 1 then show ?case using that by simp
  next
    case 2 then show ?case using that n(2) by simp
  next
    case (3 r s2)
    then show ?case using that
      by (auto simp: runs_Inr read_back_def slice_def split: prod.splits)
  qed
  note rd = this
  show ?thesis
  proof (cases "offset = 0")
    case True
    then show ?thesis using rd [of s h] h(1) by (simp add: get_plain_def file_at_def)
  next
    case False
    have "\<not> of_nat (length d) < offset"
      using o d by (simp add: word_less_nat_alt unat_of_nat)
    moreover have "runs tree s (rbind (on_vol (lfs_file_seek (fs_api P) h offset) s) (\<lambda>((_, file), s).
        rbind (read_all P file buf len s) (\<lambda>((ret, file, dataOut, n), s).
       Inr ((ret, file, dataOut, if ret = SLN_FLASH_FS_OK then n else len), s))))
     (\<lambda>(ret, h', buf', n) t. t = tree (vol s) \<and> of_flags (hd_of h') = 1 \<and> read_back d offset buf len (ret, Some buf', n))"
    proof (rule runs_bind [OF seek_runs], goal_cases)
      case (1 r s1)
      then show ?case using rd [of s1 "snd r"] h(1) by (auto split: prod.splits)
    qed
    ultimately show ?thesis using False h(2)
      by (simp add: get_plain_def rbind_assoc case_prod_unfold)
  qed
qed

text \<open>The frame of a read: the file is opened, its content fetched, and the file closed unchanged.\<close>

lemma read_file_runs:
  assumes T: "tree (vol s) name = Some (File d a)" "has_parent (tree (vol s)) name"
    and d: "d \<noteq> []" "length d < 4294967296"
    and get: "\<And>h s1. hd_of h = file_at name 1 d \<Longrightarrow> ctz_size (fs_api P) h = of_nat (length d) \<Longrightarrow>
      tree (vol s1) = tree (vol s) \<Longrightarrow> key_loaded s1 = key_loaded s \<Longrightarrow>
      runs tree s1 (LFS_GetFileContent P h (attr_of (tree (vol s) name)) offset buf len s1)
        (\<lambda>(ret, h', buf', n) t. t = tree (vol s) \<and> of_flags (hd_of h') = 1 \<and> Q (ret, Some buf', n))"
  shows "runs tree s (read_file P name (Some buf) offset len s) (\<lambda>r t. t = tree (vol s) \<and> Q r)"
proof -
  let ?T = "tree (vol s)"
  have size: "(of_nat (length d) :: u32) \<noteq> 0"
    using d by (simp add: unat_eq_zero [symmetric] unat_of_nat del: unat_eq_zero)
  have fetch: "runs tree s2 (rbind (LFS_GetFileContent P h (attr_of (?T name)) offset buf len s2) (\<lambda>((ret, file, buf, len), s).
            rbind (on_vol (lfs_file_seek (fs_api P) file 0) s) (\<lambda>((_, file), s).
            rbind (close_file P file (attr_of (?T name)) s) (\<lambda>(_, s). Inr ((ret, Some buf, len), s)))))
     (\<lambda>r t. t = ?T \<and> Q r)"
    if h: "hd_of h = file_at name 1 d" "ctz_size (fs_api P) h = of_nat (length d)"
      and t: "tree (vol s2) = ?T" "key_loaded s2 = key_loaded s" for h s2
  proof (rule runs_bind [OF get [OF h t]], clarsimp, goal_cases)
    case (1 ret h3 buf3 n3 s3)
    note got = 1
    show ?case
    proof (rule runs_bind [OF seek_runs], simp only: split_paired_all prod.case, goal_cases)
      case (1 r h4 s4)
      note sought = 1
      show ?case
      proof (rule runs_bind [OF close_runs], goal_cases)
        case (1 u s5)
        then show ?case using got sought by (simp add: runs_Inr)
      qed
    qed
  qed
  show ?thesis unfolding read_file_def op_consts
  proof (rule runs_bind [OF base_path_runs], clarsimp simp: T(2), goal_cases)
    case (1 s1)
    have T1: "tree (vol s1) name = Some (File d a)" using 1 T(1) by simp
    show ?case
    proof (rule runs_bind [OF open_file_runs [OF T1]], clarsimp simp: size, goal_cases)
      case (1 h s2)
      then show ?case using fetch [of h s2] \<open>tree (vol s1) = ?T\<close> \<open>calm s s1\<close> size
        by (simp add: calm_key_loaded)
    qed
  qed
qed

section \<open>The other operations\<close>

lemma erase_runs:
  assumes l: "lfs_lock s = Some False"
  shows "runs tree s (SLN_FLASH_LITTLEFS_Erase P (Some name) s) (\<lambda>ret t.
    if \<not> has_parent (tree (vol s)) name then ret = SLN_FLASH_FS_ENOENTRY \<and> t = tree (vol s)
    else if tree (vol s) name = None then ret = SLN_FLASH_FS_ENOENTRY2 \<and> t = tree (vol s)
    else ret = SLN_FLASH_FS_OK \<and> t = (tree (vol s))(name := None)
      \<or> ret = SLN_FLASH_FS_FAIL \<and> t = tree (vol s) \<and> tree (vol s) name = Some Dir)"
  unfolding SLN_FLASH_LITTLEFS_Erase_def prod.case option.case op_consts
proof (rule guarded_runs [OF l], goal_cases)
  case (2 s1)
  obtain r v where rm: "lfs_remove (fs_api P) name (vol s1) = Inr (r, v)"
    "(\<exists>d a. tree (vol s1) name = Some (File d a)) \<longrightarrow> r = 0" "tree (vol s1) name = None \<longrightarrow> r = LFS_ERR_NOENT"
    using remove_ok by blast
  have "tree (vol s1) name = Some nd \<Longrightarrow> r \<noteq> 0 \<Longrightarrow> nd = Dir" for nd using rm(2) by (cases nd) auto
  then show ?case using remove [OF rm(1)] rm(1,3) 2
    by (cases "tree (vol s1) name") (auto simp: on_vol_def runs_def)
qed simp

lemma mkdir_runs:
  assumes l: "lfs_lock s = Some False"
  shows "runs tree s (SLN_FLASH_LITTLEFS_Mkdir P (Some name) s) (\<lambda>ret t.
    if \<not> has_parent (tree (vol s)) name then ret = SLN_FLASH_FS_ENOENTRY \<and> t = tree (vol s)
    else if tree (vol s) name \<noteq> None then ret = SLN_FLASH_FS_FILEEXIST \<and> t = tree (vol s)
    else ret = SLN_FLASH_FS_OK \<and> t = (tree (vol s))(name \<mapsto> Dir)
      \<or> ret = SLN_FLASH_FS_FAIL \<and> t = tree (vol s))"
  unfolding SLN_FLASH_LITTLEFS_Mkdir_def prod.case option.case op_consts
proof (rule guarded_runs [OF l], goal_cases)
  case (2 s1)
  obtain r v where mk: "lfs_mkdir (fs_api P) name (vol s1) = Inr (r, v)" "tree (vol s1) name \<noteq> None \<longrightarrow> r = LFS_ERR_EXIST"
    using mkdir_ok by blast
  then show ?case using mkdir [OF mk(1)] 2 by (auto simp: on_vol_def runs_def)
qed simp

lemma mkfile_runs:
  assumes l: "lfs_lock s = Some False"
  shows "runs tree s (SLN_FLASH_LITTLEFS_Mkfile P (Some name) encrypt s) (\<lambda>ret t.
    if \<not> has_parent (tree (vol s)) name then ret = SLN_FLASH_FS_ENOENTRY \<and> t = tree (vol s)
    else if is_file (tree (vol s) name) then ret = SLN_FLASH_FS_FILEEXIST \<and> t = tree (vol s)
    else if tree (vol s) name = Some Dir then ret = SLN_FLASH_FS_FAIL \<and> t = tree (vol s)
    else ret = SLN_FLASH_FS_OK \<and> (\<exists>a. t = (tree (vol s))(name \<mapsto> File [] a) \<and>
        (a = None \<or> a = Some (LFS_GetDefaultFileConfig\<lparr>useEncryption := encrypt\<rparr>)))
      \<or> ret = SLN_FLASH_FS_FAIL \<and> t = tree (vol s))"
    (is "runs _ _ _ ?Q")
proof -
  let ?T = "tree (vol s)" and ?info = "LFS_GetDefaultFileConfig\<lparr>useEncryption := encrypt\<rparr>"
  let ?body = "\<lambda>s. rbind (open_file P name 1 s) (\<lambda>((r, file, info), s).
           if r = LFS_ERR_NOENT then
             rbind (open_file P name LFS_O_CREAT s) (\<lambda>((r, file, info), s).
             if r = 0 then
               let info = info\<lparr>useEncryption := encrypt\<rparr>
               in rbind (on_vol (lfs_setattr (fs_api P) name info) s) (\<lambda>(_, s).
                  rbind (close_file P file info s) (\<lambda>(_, s). Inr (0, s)))
             else Inr (-1, s))
           else if r < 0 then Inr (-1, s)
           else rbind (close_file P file info s) (\<lambda>(_, s).
             Inr (if r = 0 then SLN_FLASH_FS_FILEEXIST else 0, s)))"
  have eq: "(if ret \<noteq> 0 then Inr (ret, s) else ?body s) = (if ret = 0 then ?body s else Inr (ret, s))" for ret s
    by simp
  have "runs tree s1 (?body s1) ?Q" if p: "has_parent ?T name" and t1: "tree (vol s1) = ?T" for s1
  proof (cases "?T name")
    case None
    have o1: "runs tree s1 (open_file P name 1 s1) (\<lambda>(r, h, info) t. r = LFS_ERR_NOENT \<and> t = ?T)"
      using open_absent_runs [of s1 name 1] None t1 by simp
    show ?thesis
    proof (rule runs_bind [OF o1], clarsimp, goal_cases)
      case (1 s2)
      have o2: "runs tree s2 (open_file P name 256 s2) (\<lambda>(r, h, info) t.
          r = 0 \<and> t = ?T(name \<mapsto> File [] None) \<and> hd_of h = file_at name 256 [] \<and>
          ctz_size (fs_api P) h = 0 \<and> info = LFS_GetDefaultFileConfig \<or> r < 0 \<and> t = ?T)"
        using open_new_runs [of s2 name 256] None 1 by simp
      show ?case
      proof (rule runs_bind [OF o2], goal_cases)
        case (1 x s3)
        obtain r h i where x: "x = (r, h, i)" by (cases x)
        show ?case
        proof (cases "r = 0")
          case False
          then show ?thesis using 1 p None by (auto simp: x runs_Inr)
        next
          case True
          obtain r4 v where sa: "lfs_setattr (fs_api P) name ?info (vol s3) = Inr (r4, v)" using setattr_ok by blast
          have t3: "tree (vol s3) = ?T(name \<mapsto> File [] None)" "\<not> writable (of_flags (hd_of h))" "i = LFS_GetDefaultFileConfig"
            using 1 True by (auto simp: x)
          have v: "tree v = ?T(name \<mapsto> File [] None) \<or> tree v = ?T(name \<mapsto> File [] (Some ?info))"
            using setattr [OF sa] t3 by (auto split: if_splits)
          obtain u s4 where cl: "close_file P h ?info (s3\<lparr>vol := v\<rparr>) = Inr (u, s4)" "calm (s3\<lparr>vol := v\<rparr>) s4" "tree (vol s4) = tree v"
            using close_runs [of "s3\<lparr>vol := v\<rparr>" h ?info] t3(2) by (auto elim: runsD)
          have "calm s3 s4" using cl(2) by (simp add: calm_def)
          then show ?thesis using True sa cl(1,3) v p None t3(3) by (auto simp: x on_vol_def runs_def)
        qed
      qed
    qed
  next
    case (Some nd)
    show ?thesis
    proof (cases nd)
      case Dir
      have o1: "runs tree s1 (open_file P name 1 s1) (\<lambda>(r, h, info) t. r < 0 \<and> r \<noteq> LFS_ERR_NOENT \<and> t = ?T)"
        using open_dir_runs [of s1 name 1] Some Dir t1 by simp
      show ?thesis by (rule runs_bind [OF o1]) (use Some Dir p in \<open>auto simp: runs_Inr\<close>)
    next
      case (File d a)
      have o1: "runs tree s1 (open_file P name 1 s1) (\<lambda>(r, h, info) t. t = ?T \<and> r = 0 \<and> hd_of h = file_at name 1 d)"
        using open_file_runs [of s1 name d a 1] Some File t1 by (auto elim!: runs_mono)
      show ?thesis
      proof (rule runs_bind [OF o1], clarsimp, goal_cases)
        case (1 h info s2)
        then show ?case
          by (intro runs_bind [OF close_runs]) (use Some File p in \<open>auto simp: runs_Inr\<close>)
      qed
    qed
  qed
  note body = this [unfolded op_consts]
  show ?thesis unfolding SLN_FLASH_LITTLEFS_Mkfile_def prod.case option.case op_consts eq
    by (rule guarded_runs [OF l]) (simp, rule body)
qed

text \<open>A read of a name that is not there says so.\<close>

lemma read_absent_runs:
  assumes l: "lfs_lock s = Some False" and p: "has_parent (tree (vol s)) name" and no: "tree (vol s) name = None"
  shows "runs tree s (SLN_FLASH_LITTLEFS_Read P (Some name) buf offset (Some len) s)
    (\<lambda>r t. t = tree (vol s) \<and> r = (SLN_FLASH_FS_ENOENTRY2, buf, Some len))"
  unfolding SLN_FLASH_LITTLEFS_Read_def prod.case option.case
proof (rule locked_runs [OF l], goal_cases)
  case (1 s1)
  have "runs tree s1 (read_file P name buf offset len s1) (\<lambda>r t. t = tree (vol s) \<and> r = (SLN_FLASH_FS_ENOENTRY2, buf, len))"
    unfolding read_file_def op_consts
  proof (rule runs_bind [OF base_path_runs], clarsimp simp: 1 p, goal_cases)
    case (1 s2)
    then show ?case
      by (intro runs_bind [OF open_absent_runs]) (use no in \<open>auto simp: runs_Inr\<close>)
  qed
  then show ?case by (rule runs_bind) (auto simp: runs_Inr)
qed

end

section \<open>Encrypted files\<close>

lemma enc_ctx_ok [simp]: "ctx_ok (enc_mem enc_ctx)"
  by (simp add: ctx_ok_def enc_mem_def s_flashLittlefsEncCtx_def)

text \<open>What is stored for a text, and the attribute that records its lengths.\<close>

definition seal :: "(u8 list \<Rightarrow> u8 list \<Rightarrow> u8 list) \<Rightarrow> u8 list \<Rightarrow> u8 list" where
  "seal e xs = sealed (e (key (enc_mem enc_ctx))) (iv (enc_mem enc_ctx)) xs"

definition sealed_info :: "u8 list \<Rightarrow> file_encypt_info_t \<Rightarrow> file_encypt_info_t" where
  "sealed_info xs info = info\<lparr>dataPlainLen := of_nat (length xs), dataEncLen := of_nat (sealed_len (length xs))\<rparr>"

text \<open>An entry holds a text: its bytes, or in an encrypted file the sealed text.\<close>

definition holds_text :: "(u8 list \<Rightarrow> u8 list \<Rightarrow> u8 list) \<Rightarrow> node option \<Rightarrow> u8 list \<Rightarrow> bool" where
  "holds_text e n xs \<longleftrightarrow> xs \<noteq> [] \<and> length xs < 4294967280 \<and> (\<exists>d a. n = Some (File d a) \<and>
     (if useEncryption (attr_of n)
      then length xs mod 16 \<noteq> 0 \<and> (\<exists>rest info. d = seal e xs @ rest \<and> attr_of n = sealed_info xs info) \<and>
        length d < 4294967296
      else d = xs))"

locale store_sealed = store_reliable P tree hd_of + dcp_cbc "aes P" e d loaded
  for P :: "('o, 'f, 'd, 'h) platform" and tree hd_of e d loaded
begin

lemma length_seal: "length (seal e xs) = sealed_len (length xs)"
  unfolding seal_def
  by (rule length_sealed [OF cipher]) (simp_all add: enc_mem_def s_flashLittlefsEncCtx_def)

lemma save_sealed_content_runs:
  assumes h: "writable (of_flags (hd_of h))" "\<not> of_bad (hd_of h)" and i: "useEncryption info"
    and n: "unat len = length data" "length data < 4294967280" and k: "key_loaded s"
  shows "runs tree s (write_and_close P h info data len s)
    (\<lambda>ret t. ret = SLN_FLASH_FS_OK \<and> t = (tree (vol s))(of_path (hd_of h) \<mapsto>
         File (put_at (write_pos (hd_of h)) (seal e data) (of_data (hd_of h))) (Some (sealed_info data info)))
       \<or> ret = SLN_FLASH_FS_FAIL \<and> t = tree (vol s))"
proof -
  let ?m = "SLN_Encrypt_Get_Crypt_Length len"
  let ?s = "s\<lparr>os_calls := os_calls s + 1\<rparr>"
  have m: "unat ?m = sealed_len (length data)" using crypt_length [of len] n by simp
  have mm: "?m = of_nat (sealed_len (length data))" "len = of_nat (length data)"
    using m n(1) by (metis of_nat_unat ucast_id)+
  obtain c where enc: "SLN_Encrypt_AES_CBC_PKCS7 (aes P) enc_mem enc_ctx data len (replicate (unat ?m) 0) ?m (crypt ?s) =
      Inr ((SLN_ENCRYPT_STATUS_OK, seal e data), (crypt ?s)\<lparr>dcp := c\<rparr>)"
    using encrypt_ok [of enc_mem enc_ctx "crypt ?s" len data "replicate (unat ?m) 0" ?m] k n(1) m
    by (auto simp: key_loaded_def seal_def)
  let ?s1 = "?s\<lparr>crypt := (crypt ?s)\<lparr>dcp := c\<rparr>\<rparr>"
  have load: "load_at 0 (unat ?m) (seal e data) = Inr (seal e data)"
    using m length_seal [of data] by (simp add: slice_def)
  have info: "info\<lparr>dataPlainLen := len, dataEncLen := ?m\<rparr> = sealed_info data info"
    unfolding sealed_info_def mm(1) unfolding mm(2) ..
  have content: "LFS_SaveFileContent P h info data len s =
      rbind (on_vol (lfs_file_write (fs_api P) h (seal e data)) ?s1) (\<lambda>((r, h'), s).
        Inr ((if r < 0 then SLN_FLASH_FS_FAIL else 0, h', sealed_info data info), s))"
    using i enc load unfolding LFS_SaveFileContent_def Let_def malloc_ok prod.case option.case on_crypt_def
    by (simp add: info)
  have eq: "write_and_close P h info data len s =
      rbind (on_vol (lfs_file_write (fs_api P) h (seal e data)) ?s1) (\<lambda>((r, h'), s).
     rbind (close_file P h' (sealed_info data info) s) (\<lambda>(_, s).
       Inr (if r < 0 then SLN_FLASH_FS_FAIL else SLN_FLASH_FS_OK, s)))"
    unfolding write_and_close_def content
    by (cases "on_vol (lfs_file_write (fs_api P) h (seal e data)) ?s1") auto
  have "calm s ?s1" by (simp add: calm_def)
  moreover have "runs tree ?s1 (write_and_close P h info data len s)
    (\<lambda>ret t. ret = SLN_FLASH_FS_OK \<and> t = (tree (vol ?s1))(of_path (hd_of h) \<mapsto>
         File (put_at (write_pos (hd_of h)) (seal e data) (of_data (hd_of h))) (Some (sealed_info data info)))
       \<or> ret = SLN_FLASH_FS_FAIL \<and> t = tree (vol ?s1))"
    unfolding eq by (rule write_close_runs [OF h])
  ultimately show ?thesis using runs_cong by fastforce
qed

lemma get_sealed_runs:
  assumes h: "hd_of h = file_at name 1 (seal e xs @ rest)"
    and x: "length xs mod 16 \<noteq> 0" "length xs < 4294967280" and k: "key_loaded s"
    and n: "0 < len" "unat len \<le> length buf" and o: "unat offset < length xs"
  shows "runs tree s (get_encrypted P h (sealed_info xs info) offset buf len s)
    (\<lambda>(ret, h', buf', n) t. t = tree (vol s) \<and> of_flags (hd_of h') = 1 \<and> read_back xs offset buf len (ret, Some buf', n))"
proof -
  let ?m = "of_nat (sealed_len (length xs)) :: u32"
  have "sealed_len (length xs) < 4294967296" using x(2) by (auto simp: sealed_len_def)
  then have m: "unat ?m = sealed_len (length xs)" by (simp add: unat_of_nat)
  have m0: "0 < ?m" using m le_sealed_len [of "length xs"] x(1) by (auto simp: word_less_nat_alt)
  let ?buf = "replicate (unat ?m) (0 :: u8)"
  let ?s = "s\<lparr>os_calls := os_calls s + 1\<rparr>\<lparr>os_calls := os_calls s + 1 + 1\<rparr>"
  have len: "unat (of_nat (length xs) :: u32) = length xs" using x(2) by (simp add: unat_of_nat)
  have bytes: "take (unat ?m) (drop (of_pos (hd_of h)) (of_data (hd_of h))) = seal e xs"
    using h m length_seal [of xs] by simp
  obtain h1 s1 where rd: "read_all P h ?buf ?m ?s = Inr ((SLN_FLASH_FS_OK, h1, seal e xs, ?m), s1)"
    "tree (vol s1) = tree (vol s)" "of_flags (hd_of h1) = 1" "calm ?s s1"
  proof (rule runsD [OF read_all_runs [OF _ m0 bytes [symmetric], of ?buf ?s]], goal_cases)
    case 1 then show ?case by (simp add: h)
  next
    case 2 then show ?case by (simp add: m length_seal)
  next
    case (3 r s1)
    then show ?case using h m length_seal [of xs]
      by (auto simp: blit_all intro!: 3(1) split: prod.splits)
  qed
  have k1: "SLN_Encrypt_Key_Loaded (Some enc_ctx) (crypt s1)"
    using rd(4) k by (simp add: calm_def key_loaded_def SLN_Encrypt_Key_Loaded_def)
  obtain p c where dec: "SLN_Decrypt_AES_CBC_PKCS7 (aes P) enc_mem enc_ctx (seal e xs) ?m ?buf ?m (crypt s1) =
      Inr ((SLN_ENCRYPT_STATUS_OK, p, of_nat (length xs)), (crypt s1)\<lparr>dcp := c\<rparr>)"
    "length p = sealed_len (length xs)" "take (length xs) p = xs"
    using decrypt_sealed [of enc_mem enc_ctx "crypt s1" ?m xs ?buf ?m] k1 m x(1) by (auto simp: seal_def)
  define left where "left = of_nat (length xs) - offset"
  have le: "offset \<le> of_nat (length xs)" and gt: "\<not> of_nat (length xs) \<le> offset"
    using o len by (simp_all add: word_le_nat_alt)
  have left: "unat left = length xs - unat offset"
    unfolding left_def by (simp add: unat_sub_le [OF le] len)
  define len1 where "len1 = (if left < len then left else len)"
  have l1: "unat len1 = min (unat len) (length xs - unat offset)"
    by (auto simp: len1_def left word_less_nat_alt)
  have "slice (unat offset) (unat len1) p = slice (unat offset) (unat len) xs"
  proof -
    have "slice (unat offset) (unat len1) p = slice (unat offset) (unat len1) (take (length xs) p)"
      using l1 by (simp add: slice_def drop_take min_def)
    then show ?thesis using l1 dec(3) by (simp add: slice_def min_def)
  qed
  moreover have "unat offset + unat len1 \<le> length p" using l1 o le_sealed_len [of "length xs"] dec(2) by simp
  ultimately have ld: "load_at (unat offset) (unat len1) p = Inr (slice (unat offset) (unat len) xs)" by simp
  have st: "store_at 0 (slice (unat offset) (unat len) xs) buf = Inr (blit 0 (slice (unat offset) (unat len) xs) buf)"
    using n(2) length_slice_le [of "unat offset" "unat len" xs] by simp
  have nn: "len1 = of_nat (length (slice (unat offset) (unat len) xs))"
  proof -
    have "length (slice (unat offset) (unat len) xs) = unat len1" using l1 by (simp add: slice_def min.commute)
    then show ?thesis by (metis of_nat_unat ucast_id)
  qed
  have "get_encrypted P h (sealed_info xs info) offset buf len s =
      Inr ((SLN_FLASH_FS_OK, h1, blit 0 (slice (unat offset) (unat len) xs) buf, len1),
        s1\<lparr>crypt := (crypt s1)\<lparr>dcp := c\<rparr>\<rparr>)"
    using rd(1) dec(1) gt ld st
    unfolding get_encrypted_def Let_def malloc_ok sealed_info_def
    by (cases "left < len") (simp_all add: on_crypt_def malloc_ok left_def [symmetric] len1_def)
  then show ?thesis using rd(2-4) nn by (simp add: runs_def read_back_def calm_def)
qed

text \<open>A file that holds a text gives it back, from any offset inside it.\<close>

lemma get_content_runs:
  assumes t: "holds_text e (tree (vol s) name) xs" and nd: "tree (vol s) name = Some (File bs a)"
    and h: "hd_of h = file_at name 1 bs" "ctz_size (fs_api P) h = of_nat (length bs)" and k: "key_loaded s"
    and n: "0 < len" "unat len \<le> length buf" and o: "unat offset < length xs"
  shows "runs tree s (LFS_GetFileContent P h (attr_of (tree (vol s) name)) offset buf len s)
    (\<lambda>(ret, h', buf', n) t. t = tree (vol s) \<and> of_flags (hd_of h') = 1 \<and> read_back xs offset buf len (ret, Some buf', n))"
proof (cases "useEncryption (attr_of (tree (vol s) name))")
  case True
  then obtain rest info where "bs = seal e xs @ rest" "attr_of (tree (vol s) name) = sealed_info xs info"
    "length xs mod 16 \<noteq> 0" using t nd by (auto simp: holds_text_def)
  then show ?thesis using True t h k n o get_sealed_runs [of h name xs rest s len buf offset info]
    by (simp add: LFS_GetFileContent_def holds_text_def)
next
  case False
  then have "bs = xs" using t nd by (auto simp: holds_text_def)
  then show ?thesis using False t h n o get_plain_runs [of h name xs len buf offset s]
    by (simp add: LFS_GetFileContent_def holds_text_def)
qed

lemma read_runs:
  assumes l: "lfs_lock s = Some False" and t: "holds_text e (tree (vol s) name) xs"
    and p: "has_parent (tree (vol s)) name" and k: "key_loaded s"
    and n: "0 < len" "unat len \<le> length buf" and o: "unat offset < length xs"
  shows "runs tree s (SLN_FLASH_LITTLEFS_Read P (Some name) (Some buf) offset (Some len) s)
    (\<lambda>(ret, buf', n) t. t = tree (vol s) \<and> (\<exists>m. n = Some m \<and> read_back xs offset buf len (ret, buf', m)))"
proof -
  obtain bs a where nd: "tree (vol s) name = Some (File bs a)" using t by (auto simp: holds_text_def)
  have bs: "bs \<noteq> []" "length bs < 4294967296"
    using t nd by (auto simp: holds_text_def length_seal sealed_len_def dest: arg_cong [where f = length] split: if_splits)
  have rf: "runs tree s1 (read_file P name (Some buf) offset len s1)
      (\<lambda>r t. t = tree (vol s) \<and> read_back xs offset buf len r)"
    if "tree (vol s1) = tree (vol s)" "key_loaded s1 = key_loaded s" for s1
  proof -
    have nd1: "tree (vol s1) name = Some (File bs a)" "has_parent (tree (vol s1)) name" using that nd p by simp_all
    have "runs tree s1 (read_file P name (Some buf) offset len s1)
        (\<lambda>r t. t = tree (vol s1) \<and> read_back xs offset buf len r)"
    proof (rule read_file_runs [OF nd1 bs], goal_cases)
      case (1 h s2)
      then have "tree (vol s2) name = Some (File bs a)" "holds_text e (tree (vol s2) name) xs" "key_loaded s2"
        using that t nd k by simp_all
      from get_content_runs [OF this(2,1) 1(1,2) this(3) n o] show ?case using 1(3) by simp
    qed
    then show ?thesis using that by simp
  qed
  have "runs tree s1 (rbind (read_file P name (Some buf) offset len s1) (\<lambda>((ret, data, len), s). Inr ((ret, data, Some len), s)))
      (\<lambda>(ret, buf', n) t. t = tree (vol s) \<and> (\<exists>m. n = Some m \<and> read_back xs offset buf len (ret, buf', m)))"
    if "tree (vol s1) = tree (vol s)" "key_loaded s1 = key_loaded s" for s1
    by (rule runs_bind [OF rf [OF that]]) (auto simp: runs_Inr)
  then show ?thesis unfolding SLN_FLASH_LITTLEFS_Read_def prod.case option.case
    by (intro locked_runs [OF l])
qed

text \<open>A save leaves a file that holds the text, unless a longer plain file was there.\<close>

lemma save_text_runs:
  assumes l: "lfs_lock s = Some False" and k: "key_loaded s"
    and f: "tree (vol s) name \<noteq> Some Dir"
    and n: "unat len = length data" "data \<noteq> []" "length data < 4294967280"
    and fit: "if useEncryption (attr_of (tree (vol s) name)) then length data mod 16 \<noteq> 0 \<and>
        length (content_of (tree (vol s) name)) < 4294967296
      else length (content_of (tree (vol s) name)) \<le> length data"
  shows "\<exists>bs info. runs tree s (SLN_FLASH_LITTLEFS_Save P (Some name) (Some data) len s) (saved (tree (vol s)) name bs info) \<and>
    holds_text e (Some (File bs (Some info))) data"
proof -
  have n0: "0 < len" using n(1,2) by (simp add: word_less_nat_alt)
  show ?thesis
  proof (cases "useEncryption (attr_of (tree (vol s) name))")
    case False
    then show ?thesis
      using save_plain_runs [OF l n0 _ f, of data] n fit
      by (intro exI [of _ data] exI [of _ "attr_of (tree (vol s) name)"]) (simp add: holds_text_def)
  next
    case True
    let ?i = "attr_of (tree (vol s) name)" and ?old = "content_of (tree (vol s) name)"
    have "runs tree s (SLN_FLASH_LITTLEFS_Save P (Some name) (Some data) len s)
       (saved (tree (vol s)) name (seal e data @ drop (length (seal e data)) ?old) (sealed_info data ?i))"
    proof (rule save_runs [OF l n0 f], goal_cases)
      case (1 h s1)
      then show ?case using k
        by (intro runs_mono [OF save_sealed_content_runs [OF _ _ True n(1,3)]])
           (auto simp: write_pos_def created_def)
    qed
    moreover have "holds_text e (Some (File (seal e data @ drop (length (seal e data)) ?old) (Some (sealed_info data ?i)))) data"
      using True fit n by (auto simp: holds_text_def sealed_info_def length_seal sealed_len_def)
    ultimately show ?thesis by blast
  qed
qed

end

end
