(* ===== verification/File_Props.thy ===== *)
theory File_Props
  imports File_Contents Flash_Props
begin

text \<open>
  The properties of the file store and of the block device below it: the bit field of blocks is a
  set, the mark of an erased block is never wrong, what is saved is read back, a clean-up erases
  only blocks that are not in use, and the mutex of the store is free after every operation.
\<close>

section \<open>The block device\<close>

text \<open>C34: The three operations on the bit field of blocks are membership, insertion and removal on the
  set of blocks it stands for, for every block the field has a bit for.\<close>
theorem block_bits_are_a_set:
  assumes "unat block < 32 * length bits"
  shows "is_blockBitSet bits block = Inr (unat block \<in> blocks_of bits) \<and>
    (\<exists>bits'. set_blockBit bits block = Inr bits' \<and> length bits' = length bits \<and>
      blocks_of bits' = insert (unat block) (blocks_of bits)) \<and>
    (\<exists>bits'. clear_blockBit bits block = Inr bits' \<and> length bits' = length bits \<and>
      blocks_of bits' = blocks_of bits - {unat block})"
proof -
  obtain b1 where "set_blockBit bits block = Inr b1" using block_bit_returns(1) assms by blast
  moreover obtain b2 where "clear_blockBit bits block = Inr b2" using block_bit_returns(2) assms by blast
  ultimately show ?thesis using assms set_blockBit_ok clear_blockBit_ok
    by (auto simp: is_blockBitSet_eq)
qed

theorem block_bits_are_a_set_witness:
  "is_blockBitSet [0, 4] 34 = Inr True \<and>
    (\<exists>bits'. set_blockBit [0, 4] 34 = Inr bits' \<and> length bits' = length [0, 4 :: u32] \<and> blocks_of bits' = insert 34 (blocks_of [0, 4])) \<and>
    (\<exists>bits'. clear_blockBit [0, 4] 34 = Inr bits' \<and> length bits' = length [0, 4 :: u32] \<and> blocks_of bits' = blocks_of [0, 4] - {34})"
proof -
  have m: "34 \<in> blocks_of [0, 4]" by (simp add: blocks_of_def)
  show ?thesis using block_bits_are_a_set [of 34 "[0, 4]"] m by simp
qed

text \<open>C21: Whatever littlefs asks of the block device, on a chip that answers: every request returns,
  and a block that is marked as erased is blank after it, so that an erase may be skipped.\<close>
theorem erased_blocks_sound:
  assumes "spi_live X wel polls" and "erased_ok X s"
  shows "\<exists>rs s'. run_ops (bd_serve X) ps s = Inr (rs, s') \<and> length rs = length ps \<and>
    length (s_ErasedBlocks s') = 8 \<and> (\<forall>n\<in>blocks_of (s_ErasedBlocks s'). n < 256 \<and> blank X s' n)"
proof -
  obtain rs s' where r: "run_ops (bd_serve X) ps s = Inr (rs, s')" "erased_ok X s'" "length rs = length ps"
    using spi_live.bd_run_returns [OF assms] by blast
  then show ?thesis using marked_in_range by (auto simp: erased_ok_def)
qed

definition sim_blockdev :: "nor_chip blockdev" where
  "sim_blockdev = \<lparr>blk_board = sim_board, s_ErasedBlocks = replicate 8 0,
     s_flashLittlefsCbs = \<lparr>post_lock_cb = None, post_unlock_cb = None,
       pre_sector_erase_cb = None, post_sector_erase_cb = None\<rparr>, called = []\<rparr>"

lemma sim_erased_ok: "erased_ok X (s\<lparr>s_ErasedBlocks := replicate 8 0\<rparr>)"
proof -
  have "(replicate 8 0 ! (n div 32) :: u32) = 0" if "n < 256" for n :: nat
    using that by (intro nth_replicate) simp
  then show ?thesis by (auto simp: erased_ok_def blocks_of_def)
qed

theorem erased_blocks_sound_witness:
  "\<exists>rs s'. run_ops (bd_serve (nor_sim 1)) [Bd_Erase 3, Bd_Prog 3 0 (replicate 256 7) 256, Bd_Erase 255] sim_blockdev = Inr (rs, s') \<and>
    length rs = 3 \<and> length (s_ErasedBlocks s') = 8 \<and>
    (\<forall>n\<in>blocks_of (s_ErasedBlocks s'). n < 256 \<and> blank (nor_sim 1) s' n)"
proof -
  have "erased_ok (nor_sim 1) sim_blockdev"
    using sim_erased_ok [of "nor_sim 1" sim_blockdev] by (simp add: sim_blockdev_def)
  from erased_blocks_sound [OF sim_live this,
      of "[Bd_Erase 3, Bd_Prog 3 0 (replicate 256 7) 256, Bd_Erase 255]"]
  show ?thesis by (simp add: numeral_3_eq_3)
qed

section \<open>Saved files\<close>

definition sim_lfs :: "(u8 list \<Rightarrow> node option) \<Rightarrow> (u8 list \<Rightarrow> node option, nor_chip, nat \<Rightarrow> u8 list) lfs_st" where
  "sim_lfs t = \<lparr>vol = \<lparr>lfs = t, bdev = sim_blockdev\<rparr>, lfs_lock = Some False, lfsMounted = True,
     crypt = sim_crypt, os_calls = 0\<rparr>"

lemma sim_lfs_simps [simp]:
  "lfs (vol (sim_lfs t)) = t" "lfs_lock (sim_lfs t) = Some False" "key_loaded (sim_lfs t)"
  by (simp_all add: sim_lfs_def key_loaded_def sim_crypt_def enc_ctx_def SLN_Encrypt_Key_Loaded_def)

lemma sim_sealed: "store_sealed sim_platform lfs (\<lambda>h. h) sim_cipher sim_cipher (\<lambda>h. h)"
proof -
  have "aes sim_platform = dcp_sim" by (simp add: sim_platform_def)
  then show ?thesis using sim_store sim_cbc by (simp add: store_sealed_def)
qed

interpretation sim_files: store_sealed sim_platform lfs "\<lambda>h. h" sim_cipher sim_cipher "\<lambda>h. h"
  by (rule sim_sealed)

text \<open>C16: What a save stores is read back from any offset, from a plain file as from an encrypted one:
  the save reports success and the read then returns the bytes and their number, or the save reports a
  failure and an earlier file of that name is as it was. A text on a block boundary in an encrypted file
  and a text shorter than the plain file it replaces are excluded.\<close>
theorem saved_file_read_back:
  assumes S: "store_sealed P tree hd_of e d loaded"
    and s: "lfs_lock s = Some False" "key_loaded s"
    and f: "has_parent (tree (vol s)) name" "tree (vol s) name \<noteq> Some Dir"
    and n: "unat len = length xs" "xs \<noteq> []" "length xs < 4294967280"
    and fit: "if useEncryption (attr_of (tree (vol s) name)) then length xs mod 16 \<noteq> 0 \<and>
        length (content_of (tree (vol s) name)) < 4294967296
      else length (content_of (tree (vol s) name)) \<le> length xs"
    and rd: "0 < n" "unat n \<le> length buf" "unat offset < length xs"
  shows "\<exists>ret s1. SLN_FLASH_LITTLEFS_Save P (Some name) (Some xs) len s = Inr (ret, s1) \<and>
    (ret = SLN_FLASH_FS_OK \<and>
      (\<exists>s2. SLN_FLASH_LITTLEFS_Read P (Some name) (Some buf) offset (Some n) s1 =
        Inr ((SLN_FLASH_FS_OK, Some (blit 0 (slice (unat offset) (unat n) xs) buf),
          Some (of_nat (length (slice (unat offset) (unat n) xs)))), s2))
     \<or> ret = SLN_FLASH_FS_FAIL \<and> (tree (vol s) name \<noteq> None \<longrightarrow> tree (vol s1) = tree (vol s)))"
proof -
  obtain bs info where sv: "runs tree s (SLN_FLASH_LITTLEFS_Save P (Some name) (Some xs) len s) (saved (tree (vol s)) name bs info)"
    and t: "holds_text e (Some (File bs (Some info))) xs"
    using store_sealed.save_text_runs [OF S s f(2) n fit] by blast
  obtain ret s1 where r: "SLN_FLASH_LITTLEFS_Save P (Some name) (Some xs) len s = Inr (ret, s1)" "calm s s1"
    "saved (tree (vol s)) name bs info ret (tree (vol s1))" using sv by (rule runsD)
  show ?thesis
  proof (cases "ret = SLN_FLASH_FS_OK")
    case True
    then have t1: "tree (vol s1) = (tree (vol s))(name \<mapsto> File bs (Some info))"
      using r(3) f(1) by (simp add: saved_def)
    have "lfs_lock s1 = Some False" "key_loaded s1" using s r(2) by (simp_all add: calm_lock calm_key_loaded)
    moreover have "has_parent (tree (vol s1)) name"
      using f(1) base_offset_less [of name] by (auto simp: has_parent_def t1 Let_def)
    moreover have "holds_text e (tree (vol s1) name) xs" using t by (simp add: t1)
    ultimately obtain s2 where "SLN_FLASH_LITTLEFS_Read P (Some name) (Some buf) offset (Some n) s1 =
        Inr ((SLN_FLASH_FS_OK, Some (blit 0 (slice (unat offset) (unat n) xs) buf),
          Some (of_nat (length (slice (unat offset) (unat n) xs)))), s2)"
      using store_sealed.read_runs [OF S _ _ _ _ rd(1,2) rd(3), of s1 name] by (auto simp: read_back_def elim: runsD)
    then show ?thesis using r(1) True by simp
  next
    case False
    then show ?thesis using r f(1) by (auto simp: saved_def)
  qed
qed

theorem saved_file_read_back_witness:
  "\<exists>ret s1. SLN_FLASH_LITTLEFS_Save sim_platform (Some [120]) (Some [1, 2, 3]) 3 (sim_lfs Map.empty) = Inr (ret, s1) \<and>
    (ret = SLN_FLASH_FS_OK \<and>
      (\<exists>s2. SLN_FLASH_LITTLEFS_Read sim_platform (Some [120]) (Some [9, 9, 9, 9]) 1 (Some 4) s1 =
        Inr ((SLN_FLASH_FS_OK, Some [2, 3, 9, 9], Some 2), s2))
     \<or> ret = SLN_FLASH_FS_FAIL \<and> (lfs (vol (sim_lfs Map.empty)) [120] \<noteq> None \<longrightarrow> lfs (vol s1) = lfs (vol (sim_lfs Map.empty))))"
proof -
  have bl: "blit 0 (slice 1 4 [1, 2, 3]) [9, 9, 9, 9] = ([2, 3, 9, 9] :: u8 list)"
    "length (slice 1 4 [1, 2, 3 :: u8]) = 2" by (simp_all add: blit_def slice_def)
  have p: "has_parent Map.empty [120]" by (simp add: has_parent_def)
  show ?thesis
    using saved_file_read_back [OF sim_sealed, of "sim_lfs Map.empty" "[120]" 3 "[1, 2, 3]" 4 "[9, 9, 9, 9]" 1] p bl
    by (simp add: LFS_GetDefaultFileConfig_def)
qed

text \<open>A save does not truncate: over a longer plain file it leaves the end of the old content behind
  the new one, with the attribute and every other entry unchanged; if it fails nothing has changed.\<close>
theorem save_keeps_tail:
  assumes S: "store_reliable P tree hd_of" and s: "lfs_lock s = Some False"
    and f: "has_parent (tree (vol s)) name" "tree (vol s) name = Some (File old (Some info))" "\<not> useEncryption info"
    and n: "0 < len" "unat len = length xs" "length xs < length old"
  shows "\<exists>ret s1. SLN_FLASH_LITTLEFS_Save P (Some name) (Some xs) len s = Inr (ret, s1) \<and>
    (ret = SLN_FLASH_FS_OK \<and>
       tree (vol s1) = (tree (vol s))(name \<mapsto> File (xs @ drop (length xs) old) (Some info)) \<and>
       tree (vol s1) name \<noteq> Some (File xs (Some info))
     \<or> ret = SLN_FLASH_FS_FAIL \<and> tree (vol s1) = tree (vol s))"
proof -
  have "runs tree s (SLN_FLASH_LITTLEFS_Save P (Some name) (Some xs) len s)
      (saved (tree (vol s)) name (xs @ drop (length xs) old) info)"
    using store_reliable.save_plain_runs [OF S s n(1), of xs name] f n by simp
  then show ?thesis using f n(3) by (fastforce simp: saved_def elim: runsD)
qed

definition one_file :: "u8 list \<Rightarrow> u8 list \<Rightarrow> node option" where
  "one_file d = [[120] \<mapsto> File d (Some LFS_GetDefaultFileConfig)]"

theorem save_keeps_tail_witness:
  "\<exists>ret s1. SLN_FLASH_LITTLEFS_Save sim_platform (Some [120]) (Some [7]) 1 (sim_lfs (one_file [1, 2, 3])) = Inr (ret, s1) \<and>
    (ret = SLN_FLASH_FS_OK \<and>
       lfs (vol s1) = (one_file [1, 2, 3])([120] \<mapsto> File [7, 2, 3] (Some LFS_GetDefaultFileConfig)) \<and>
       lfs (vol s1) [120] \<noteq> Some (File [7] (Some LFS_GetDefaultFileConfig))
     \<or> ret = SLN_FLASH_FS_FAIL \<and> lfs (vol s1) = one_file [1, 2, 3])"
proof -
  have p: "has_parent (one_file [1, 2, 3]) [120]" "one_file [1, 2, 3] [120] = Some (File [1, 2, 3] (Some LFS_GetDefaultFileConfig))"
    "\<not> useEncryption LFS_GetDefaultFileConfig"
    by (simp_all add: has_parent_def one_file_def LFS_GetDefaultFileConfig_def)
  show ?thesis
    using save_keeps_tail [OF sim_store, of "sim_lfs (one_file [1, 2, 3])" "[120]" "[1, 2, 3]" LFS_GetDefaultFileConfig 1 "[7]"] p
    by simp
qed

section \<open>The mutex of the store\<close>

text \<open>Whatever operations are called, with whatever results, on any medium: the mutex of the store
  is not held after them.\<close>
theorem store_mutex_released:
  assumes "lfs_lock s \<noteq> Some True" and "run_ops (fs_step P) ps s = Inr (rs, s')"
  shows "lfs_lock s' \<noteq> Some True"
  using assms by (rule fs.run_inv)

theorem store_mutex_released_witness:
  "\<exists>rs s'. run_ops (fs_step sim_platform) [Fs_SetCbs None, Fs_Save None None 0] (sim_lfs Map.empty) = Inr (rs, s') \<and>
    lfs_lock s' \<noteq> Some True"
proof -
  have "run_ops (fs_step sim_platform) [Fs_SetCbs None, Fs_Save None None 0] (sim_lfs Map.empty) =
      Inr ([SLN_FLASH_FS_EINVAL, SLN_FLASH_FS_EINVAL], sim_lfs Map.empty)"
    by (simp add: SLN_FLASH_LITTLEFS_SetCbs_def SLN_FLASH_LITTLEFS_Save_def)
  moreover have "lfs_lock (sim_lfs Map.empty) \<noteq> Some True" by simp
  ultimately show ?thesis using store_mutex_released [of "sim_lfs Map.empty" sim_platform] by blast
qed

text \<open>The one operation that keeps the mutex is the closing of the store: when the volume cannot be
  unmounted it reports the failure with the mutex taken, and the next operation waits for ever.\<close>
theorem failed_deinit_deadlocks:
  assumes "lfs_lock s = Some False" and "\<And>v. \<exists>r v'. lfs_unmount (fs_api P) v = Inr (r, v') \<and> r \<noteq> 0"
  shows "\<exists>s'. SLN_FLASH_LITTLEFS_Deinit P False s = Inr (SLN_FLASH_FS_FAIL, s') \<and>
    SLN_FLASH_LITTLEFS_Erase P (Some name) s' = Inl Deadlock \<and> SLN_FLASH_LITTLEFS_Format P s' = Inl Deadlock"
proof -
  let ?s = "volume_cb post_lock_cb (s\<lparr>lfs_lock := Some True\<rparr>)"
  obtain r v where u: "lfs_unmount (fs_api P) (vol ?s) = Inr (r, v)" "r \<noteq> 0" using assms(2) by blast
  have "SLN_FLASH_LITTLEFS_Deinit P False s = Inr (SLN_FLASH_FS_FAIL, ?s\<lparr>vol := v\<rparr>)"
    using u assms(1) by (simp add: SLN_FLASH_LITTLEFS_Deinit_def lock_store_def on_vol_def)
  moreover have "lfs_lock (?s\<lparr>vol := v\<rparr>) = Some True" by simp
  ultimately show ?thesis
    by (simp add: SLN_FLASH_LITTLEFS_Erase_def SLN_FLASH_LITTLEFS_Format_def locked_def lock_store_def)
qed

definition stuck_platform :: "(handle, u8 list \<Rightarrow> node option, nor_chip, nat \<Rightarrow> u8 list) platform" where
  "stuck_platform = sim_platform\<lparr>fs_api := lfs_sim\<lparr>lfs_unmount := (\<lambda>v. Inr (-1, v))\<rparr>\<rparr>"

theorem failed_deinit_deadlocks_witness:
  "\<exists>s'. SLN_FLASH_LITTLEFS_Deinit stuck_platform False (sim_lfs Map.empty) = Inr (SLN_FLASH_FS_FAIL, s') \<and>
    SLN_FLASH_LITTLEFS_Erase stuck_platform (Some [120]) s' = Inl Deadlock \<and>
    SLN_FLASH_LITTLEFS_Format stuck_platform s' = Inl Deadlock"
  by (rule failed_deinit_deadlocks) (simp_all add: stuck_platform_def)

section \<open>Clean-up\<close>

lemma erased_ok_called [simp]:
  "erased_ok X (d\<lparr>called := c\<rparr>) = erased_ok X d" "erased_ok X (run_cb cb d) = erased_ok X d"
  "blk_board (run_cb cb d) = blk_board d"
  by (cases cb; simp add: erased_ok_def blank_def run_cb_def)+

lemma mark_used_ok:
  "\<forall>b\<in>set bs. unat b < 32 * length used \<Longrightarrow>
    \<exists>u. mark_used bs used = Inr u \<and> length u = length used \<and> blocks_of u = blocks_of used \<union> unat ` set bs"
proof (induction bs arbitrary: used)
  case (Cons b bs)
  then obtain u1 where u1: "set_blockBit used b = Inr u1" using block_bit_returns(1) [of b used] by auto
  then show ?case using Cons.IH [of u1] Cons.prems set_blockBit_ok [OF u1]
    by (auto simp: lfs_traverse_create_used_blocks_def)
qed simp

text \<open>What the loop of a clean-up has done: unused blocks are erased, the others are as they were.\<close>

definition swept :: "'d flexspi_if \<Rightarrow> nat set \<Rightarrow> nat \<Rightarrow> ('f, 'd, 'h) lfs_st \<Rightarrow> ('f, 'd, 'h) lfs_st \<Rightarrow> bool" where
  "swept X used block s s' \<longleftrightarrow> (\<exists>d. vol s' = vol s\<lparr>bdev := d\<rparr> \<and> calm s s' \<and> erased_ok X d \<and>
     (\<forall>n. (\<forall>b<256. b \<notin> used \<longrightarrow> n div 0x1000 \<noteq> 0xE00 + b) \<longrightarrow>
        bflash X (blk_board d) n = bflash X (blk_board (bdev (vol s))) n) \<and>
     blocks_of (s_ErasedBlocks (bdev (vol s))) \<subseteq> blocks_of (s_ErasedBlocks d) \<and>
     (\<forall>b. block \<le> b \<and> b < 256 \<and> b \<notin> used \<longrightarrow> b \<in> blocks_of (s_ErasedBlocks d)))"

context spi_live begin

lemma cleanup_loop_live:
  assumes P: "flexspi P = X" and u: "length used = 8"
  shows "block + n = 256 \<Longrightarrow> erased_ok X (bdev (vol s)) \<Longrightarrow>
    \<exists>s'. cleanup_loop P used start 0 n block s = Inr s' \<and> swept X (blocks_of used) block s s'"
proof (induction n arbitrary: block s)
  case 0
  then show ?case by (auto simp: swept_def intro!: exI [of _ "bdev (vol s)"])
next
  case (Suc n)
  let ?s = "s\<lparr>os_calls := os_calls s + 1\<rparr>"
  have b: "block < 256" "unat (of_nat block :: u32) = block" "block + 1 + n = 256"
    using Suc.prems(1) by (simp_all add: unat_of_nat)
  have used: "is_blockBitSet used (of_nat block) = Inr (block \<in> blocks_of used)"
    unfolding is_blockBitSet_eq b(2) u using b(1) by simp
  show ?case
  proof (cases "block \<in> blocks_of used")
    case True
    obtain s' where s': "cleanup_loop P used start 0 n (block + 1) ?s = Inr s'" "swept X (blocks_of used) (block + 1) ?s s'"
      using Suc.IH [of "block + 1" ?s] b(3) Suc.prems(2) by auto
    have "block + 1 \<le> k" if "block \<le> k" "k \<notin> blocks_of used" for k
      using that True by (cases "k = block") auto
    moreover obtain d where "vol s' = vol ?s\<lparr>bdev := d\<rparr>" "calm ?s s'" "erased_ok X d"
      "\<forall>n. (\<forall>b<256. b \<notin> blocks_of used \<longrightarrow> n div 0x1000 \<noteq> 0xE00 + b) \<longrightarrow>
         bflash X (blk_board d) n = bflash X (blk_board (bdev (vol ?s))) n"
      "blocks_of (s_ErasedBlocks (bdev (vol ?s))) \<subseteq> blocks_of (s_ErasedBlocks d)"
      "\<forall>b. block + 1 \<le> b \<and> b < 256 \<and> b \<notin> blocks_of used \<longrightarrow> b \<in> blocks_of (s_ErasedBlocks d)"
      using s'(2) unfolding swept_def by blast
    ultimately have "swept X (blocks_of used) block s s'"
      unfolding swept_def by (intro exI [of _ d]) (simp add: calm_def)
    then show ?thesis using s'(1) used True by simp
  next
    case False
    obtain d where e: "LFS_FlashErase X (of_nat block) (bdev (vol ?s)) = Inr (0, d)"
      using flash_erase_returns [of "of_nat block" "bdev (vol ?s)"] b Suc.prems(2) by (auto simp: erased_ok_def)
    note ok = flash_erase_ok [OF e, unfolded b(2), OF b(1)]
    have d: "erased_ok X d" "block \<in> blocks_of (s_ErasedBlocks d)"
      "blocks_of (s_ErasedBlocks (bdev (vol s))) \<subseteq> blocks_of (s_ErasedBlocks d)"
      "n div 0x1000 \<noteq> 0xE00 + block \<Longrightarrow> bflash X (blk_board d) n = bflash X (blk_board (bdev (vol s))) n" for n
      using ok Suc.prems(2) by auto
    let ?s1 = "?s\<lparr>vol := vol ?s\<lparr>bdev := d\<rparr>\<rparr>"
    obtain s' where s': "cleanup_loop P used start 0 n (block + 1) ?s1 = Inr s'" "swept X (blocks_of used) (block + 1) ?s1 s'"
      using Suc.IH [of "block + 1" ?s1] b(3) d(1) by auto
    obtain d' where d': "vol s' = vol ?s1\<lparr>bdev := d'\<rparr>" "calm ?s1 s'" "erased_ok X d'"
      "\<And>n. (\<forall>b<256. b \<notin> blocks_of used \<longrightarrow> n div 0x1000 \<noteq> 0xE00 + b) \<Longrightarrow>
         bflash X (blk_board d') n = bflash X (blk_board d) n"
      "blocks_of (s_ErasedBlocks d) \<subseteq> blocks_of (s_ErasedBlocks d')"
      "\<And>b. block + 1 \<le> b \<Longrightarrow> b < 256 \<Longrightarrow> b \<notin> blocks_of used \<Longrightarrow> b \<in> blocks_of (s_ErasedBlocks d')"
      using s'(2) unfolding swept_def by auto
    have "swept X (blocks_of used) block s s'"
      unfolding swept_def
    proof (intro exI [of _ d'] conjI allI impI)
      show "vol s' = (vol s)\<lparr>bdev := d'\<rparr>" "calm s s'" "erased_ok X d'" using d' by (simp_all add: calm_def)
      show "blocks_of (s_ErasedBlocks (bdev (vol s))) \<subseteq> blocks_of (s_ErasedBlocks d')" using d(3) d'(5) by blast
    next
      fix n assume "\<forall>b<256. b \<notin> blocks_of used \<longrightarrow> n div 0x1000 \<noteq> 0xE00 + b"
      then show "bflash X (blk_board d') n = bflash X (blk_board (bdev (vol s))) n"
        using d'(4) [of n] d(4) [of n] b(1) False by simp
    next
      fix k assume "block \<le> k \<and> k < 256 \<and> k \<notin> blocks_of used"
      then show "k \<in> blocks_of (s_ErasedBlocks d')" using d'(5,6) d(2) by (cases "k = block") auto
    qed
    then show ?thesis using s'(1) used False e P by simp
  qed
qed

end

lemma traversal_marked:
  assumes "\<forall>b\<in>set bs. unat b < 256"
  shows "\<exists>u. mark_used bs (replicate (LFS_SECTORS div 32) 0) = Inr u \<and> length u = 8 \<and> blocks_of u = unat ` set bs"
proof -
  have "replicate 8 (0 :: u32) ! (b div 32) = 0" if "b < 256" for b using that by (intro nth_replicate) auto
  then have "blocks_of (replicate 8 0) = {}" by (auto simp: blocks_of_def)
  then show ?thesis using mark_used_ok [of bs "replicate 8 0"] assms by (auto simp: LFS_SECTORS_def)
qed

text \<open>C25: A clean-up without a time limit, on a chip that answers, of a volume whose traversal by littlefs, once
  the mutex is taken, succeeds and names the blocks bs: it reports success, every entry of the volume is as
  before, every block that is not in bs is blank and marked as erased, and no byte outside those blocks has
  changed.\<close>
theorem cleanup_spares_used:
  assumes S: "store P tree hd_of" and X: "spi_live (flexspi P) wel polls"
    and s: "lfs_lock s = Some False" "erased_ok (flexspi P) (bdev (vol s))"
    and t: "lfs_fs_traverse (fs_api P) (vol (volume_cb post_lock_cb (s\<lparr>lfs_lock := Some True\<rparr>))) = Inr ((0, bs), v)"
  shows "\<exists>s'. SLN_FLASH_LITTLEFS_Cleanup P 0 s = Inr (SLN_FLASH_FS_OK, s') \<and>
    tree (vol s') = tree (vol s) \<and>
    (\<forall>b<256. b \<notin> unat ` set bs \<longrightarrow> blank (flexspi P) (bdev (vol s')) b \<and> b \<in> blocks_of (s_ErasedBlocks (bdev (vol s')))) \<and>
    (\<forall>n. (\<forall>b<256. b \<notin> unat ` set bs \<longrightarrow> n div 0x1000 \<noteq> 0xE00 + b) \<longrightarrow>
       bflash (flexspi P) (blk_board (bdev (vol s'))) n = bflash (flexspi P) (blk_board (bdev (vol s))) n)"
proof -
  let ?s = "volume_cb post_lock_cb (s\<lparr>lfs_lock := Some True\<rparr>)"
  have v: "tree v = tree (vol s)" "bdev v = bdev (vol ?s)" "\<forall>b\<in>set bs. unat b < 256"
    "\<And>d. same_blocks (flexspi P) bs (bdev v) d \<Longrightarrow> tree (v\<lparr>bdev := d\<rparr>) = tree v"
    using store.traverse [OF S t] by (auto simp: store.tree_volume_cb [OF S])
  obtain u where u: "mark_used bs (replicate (LFS_SECTORS div 32) 0) = Inr u" "length u = 8" "blocks_of u = unat ` set bs"
    using traversal_marked [OF v(3)] by blast
  let ?s1 = "?s\<lparr>vol := v, os_calls := os_calls s + 1\<rparr>"
  have e: "erased_ok (flexspi P) (bdev (vol ?s1))" using s(2) v(2) by (simp add: volume_cb_def)
  obtain s2 where c: "cleanup_loop P u (ticks P (os_calls s)) 0 LFS_SECTORS 0 ?s1 = Inr s2"
    "swept (flexspi P) (blocks_of u) 0 ?s1 s2"
    using spi_live.cleanup_loop_live [OF X refl u(2) _ e, of 0 256] by (auto simp: LFS_SECTORS_def)
  let ?s3 = "volume_cb post_unlock_cb (s2\<lparr>lfs_lock := Some False\<rparr>)"
  obtain d where d: "vol s2 = v\<lparr>bdev := d\<rparr>" "calm ?s1 s2" "erased_ok (flexspi P) d"
      "\<And>n. (\<forall>b<256. b \<notin> blocks_of u \<longrightarrow> n div 0x1000 \<noteq> 0xE00 + b) \<Longrightarrow>
         bflash (flexspi P) (blk_board d) n = bflash (flexspi P) (blk_board (bdev v)) n"
      "\<And>b. b < 256 \<Longrightarrow> b \<notin> blocks_of u \<Longrightarrow> b \<in> blocks_of (s_ErasedBlocks d)"
    using c(2) unfolding swept_def by auto
  have "same_blocks (flexspi P) bs (bdev v) d"
    unfolding same_blocks_def
  proof (intro ballI allI impI d(4))
    fix b i k assume "b \<in> set bs" "i < (0x1000 :: nat)" "k < (256 :: nat)" "k \<notin> blocks_of u"
    then show "(block_addr (unat b) + i) div 0x1000 \<noteq> 0xE00 + k"
      using u(3) v(3) block_addr_facts(4) [of "unat b" i] by auto
  qed
  then have tree: "tree (vol s2) = tree (vol s)" using v(1,4) d(1) by simp
  have board: "blk_board (bdev v) = blk_board (bdev (vol s))" using v(2) by (simp add: volume_cb_def)
  have "on_vol (lfs_fs_traverse (fs_api P)) ?s = Inr ((0, bs), ?s\<lparr>vol := v\<rparr>)" using t by (simp add: on_vol_def)
  moreover have "os_calls ?s = os_calls s" by (simp add: volume_cb_def)
  ultimately have "SLN_FLASH_LITTLEFS_Cleanup P 0 s = Inr (SLN_FLASH_FS_OK, ?s3)"
    using s(1) u(1) c(1) calm_lock [OF d(2)]
    by (simp add: SLN_FLASH_LITTLEFS_Cleanup_def locked_def lock_store_def unlock_store_def Let_def)
  moreover have "tree (vol ?s3) = tree (vol s)" using tree by (simp add: store.tree_volume_cb [OF S])
  moreover have "blank (flexspi P) (bdev (vol ?s3)) b \<and> b \<in> blocks_of (s_ErasedBlocks (bdev (vol ?s3)))"
    if "b < 256" "b \<notin> blocks_of u" for b
    using d(5) [OF that] marked_in_range [OF d(3), of b] d(1)
    by (simp add: volume_cb_def blank_def run_cb_def split: option.splits)
  moreover have "bflash (flexspi P) (blk_board (bdev (vol ?s3))) n = bflash (flexspi P) (blk_board (bdev (vol s))) n"
    if "\<forall>b<256. b \<notin> blocks_of u \<longrightarrow> n div 0x1000 \<noteq> 0xE00 + b" for n
    using d(4) [OF that] d(1) board by (simp add: volume_cb_def)
  ultimately show ?thesis unfolding u(3) by (intro exI [of _ ?s3]) blast
qed

theorem cleanup_spares_used_witness:
  "\<exists>s'. SLN_FLASH_LITTLEFS_Cleanup sim_platform 0 (sim_lfs (one_file [1])) = Inr (SLN_FLASH_FS_OK, s') \<and>
    lfs (vol s') = one_file [1] \<and>
    (\<forall>b<256. b \<notin> {0, 1} \<longrightarrow> blank (flexspi sim_platform) (bdev (vol s')) b \<and> b \<in> blocks_of (s_ErasedBlocks (bdev (vol s')))) \<and>
    (\<forall>n. (\<forall>b<256. b \<notin> {0, 1} \<longrightarrow> n div 0x1000 \<noteq> 0xE00 + b) \<longrightarrow>
       bflash (flexspi sim_platform) (blk_board (bdev (vol s'))) n =
       bflash (flexspi sim_platform) (blk_board (bdev (vol (sim_lfs (one_file [1]))))) n)"
proof -
  have X: "flexspi sim_platform = nor_sim FLASH_VENDOR_ID" "fs_api sim_platform = lfs_sim" by (simp_all add: sim_platform_def)
  have "erased_ok (flexspi sim_platform) (bdev (vol (sim_lfs (one_file [1]))))"
    using sim_erased_ok [of "flexspi sim_platform" sim_blockdev] by (simp add: sim_lfs_def sim_blockdev_def)
  moreover have "store sim_platform lfs (\<lambda>h. h)" by (rule store_reliable.axioms(1) [OF sim_store])
  ultimately show ?thesis
    using cleanup_spares_used [of sim_platform lfs "\<lambda>h. h" _ _ "sim_lfs (one_file [1])" "[0, 1]"] sim_live [of FLASH_VENDOR_ID] X
    by simp
qed

end
