(* ===== verification/Flash_Device.thy ===== *)
theory Flash_Device
  imports File_Contents
begin

text \<open>
  The flash device of the framework: the handlers of \<open>hal_flash_littlefs.c\<close>, which translate
  the codes of the file store, and \<open>fwk_flash.c\<close>, which passes each call on to the device
  that is registered. A device is its identifier and its table of operations (NULL operations are
  None); the handlers are given the device pointer, here its identifier. The locale
  \<open>file_device\<close> is what the clients of the framework rely on; it is interpreted on the framework
  with the littlefs device.
\<close>

section \<open>Status codes and the table of operations\<close>

definition kStatus_HAL_FlashSuccess :: int where [simp]: "kStatus_HAL_FlashSuccess = 0"
definition kStatus_HAL_FlashFail :: int where [simp]: "kStatus_HAL_FlashFail = 601"
definition kStatus_HAL_FlashInvalidParam :: int where [simp]: "kStatus_HAL_FlashInvalidParam = 602"
definition kStatus_HAL_FlashDirExist :: int where [simp]: "kStatus_HAL_FlashDirExist = 603"
definition kStatus_HAL_FlashFileExist :: int where [simp]: "kStatus_HAL_FlashFileExist = 604"
definition kStatus_HAL_FlashFileNotExist :: int where [simp]: "kStatus_HAL_FlashFileNotExist = 605"

type_synonym ('w, 'r) dev_op = "'w \<Rightarrow> ('r \<times> 'w) outcome"
type_synonym dev_ptr = "int option"
type_synonym path = "u8 list option"

record 'w flash_dev_operator_t =
  op_init :: "(dev_ptr \<Rightarrow> ('w, int) dev_op) option"
  op_format :: "(dev_ptr \<Rightarrow> ('w, int) dev_op) option"
  op_save :: "(dev_ptr \<Rightarrow> path \<Rightarrow> u8 list option \<Rightarrow> u32 \<Rightarrow> ('w, int) dev_op) option"
  op_append :: "(dev_ptr \<Rightarrow> path \<Rightarrow> u8 list option \<Rightarrow> u32 \<Rightarrow> bool \<Rightarrow> ('w, int) dev_op) option"
  op_read :: "(dev_ptr \<Rightarrow> path \<Rightarrow> u8 list option \<Rightarrow> u32 \<Rightarrow> u32 option \<Rightarrow>
    ('w, int \<times> u8 list option \<times> u32 option) dev_op) option"
  op_mkdir :: "(dev_ptr \<Rightarrow> path \<Rightarrow> ('w, int) dev_op) option"
  op_mkfile :: "(dev_ptr \<Rightarrow> path \<Rightarrow> bool \<Rightarrow> ('w, int) dev_op) option"
  op_rm :: "(dev_ptr \<Rightarrow> path \<Rightarrow> ('w, int) dev_op) option"
  op_rename :: "(dev_ptr \<Rightarrow> path \<Rightarrow> path \<Rightarrow> ('w, int) dev_op) option"
  op_cleanup :: "(dev_ptr \<Rightarrow> u32 \<Rightarrow> ('w, int) dev_op) option"

record 'w flash_dev_t =
  dev_id :: int
  ops :: "'w flash_dev_operator_t"

record 'w fwk_flash =
  s_FlashDev :: "'w flash_dev_t option"
  dev_st :: 'w

section \<open>The littlefs handlers\<close>

text \<open>A handler maps the code of the file store to a status of the framework.\<close>

definition translate :: "(int \<Rightarrow> int) \<Rightarrow> ('w, int) dev_op \<Rightarrow> ('w, int) dev_op" where
  "translate f m s = rbind (m s) (\<lambda>(status, s). Inr (f status, s))"

definition ok_or_fail :: "int \<Rightarrow> int" where
  "ok_or_fail status = (if status \<noteq> SLN_FLASH_FS_OK then kStatus_HAL_FlashFail else kStatus_HAL_FlashSuccess)"

definition no_callbacks :: sln_flash_fs_cbs_t where
  "no_callbacks = \<lparr>post_lock_cb = None, post_unlock_cb = None, pre_sector_erase_cb = None, post_sector_erase_cb = None\<rparr>"

definition lfs_init :: "('o, 'f, 'd, 'h) platform \<Rightarrow> ('f, 'd, 'h, int) lfs_op" where
  "lfs_init P s =
    rbind (SLN_Flash_Init (flexspi P) (blk_board (bdev (vol s)))) (\<lambda>b.
    let s = s\<lparr>vol := vol s\<lparr>bdev := bdev (vol s)\<lparr>blk_board := b\<rparr>\<rparr>\<rparr> in
    rbind (SLN_FLASH_LITTLEFS_Init P False s) (\<lambda>(status, s).
    if status = SLN_FLASH_FS_OK then translate ok_or_fail (SLN_FLASH_LITTLEFS_SetCbs (Some no_callbacks)) s
    else Inr (kStatus_HAL_FlashFail, s)))"

text \<open>The clean-up handler returns the code of the file store, not the status it has computed.\<close>

definition lfs_cleanupHandler :: "('o, 'f, 'd, 'h) platform \<Rightarrow> dev_ptr \<Rightarrow> u32 \<Rightarrow> ('f, 'd, 'h, int) lfs_op" where
  "lfs_cleanupHandler P dev timeout_ms s =
    (if dev = None then Inr (kStatus_HAL_FlashInvalidParam, s) else SLN_FLASH_LITTLEFS_Cleanup P timeout_ms s)"

definition lfs_formatHandler :: "('o, 'f, 'd, 'h) platform \<Rightarrow> dev_ptr \<Rightarrow> ('f, 'd, 'h, int) lfs_op" where
  "lfs_formatHandler P dev = translate ok_or_fail (SLN_FLASH_LITTLEFS_Format P)"

definition lfs_rmHandler :: "('o, 'f, 'd, 'h) platform \<Rightarrow> dev_ptr \<Rightarrow> path \<Rightarrow> ('f, 'd, 'h, int) lfs_op" where
  "lfs_rmHandler P dev path s =
    (if dev = None \<or> path = None then Inr (kStatus_HAL_FlashInvalidParam, s)
     else translate (\<lambda>status.
       if status = SLN_FLASH_FS_ENOENTRY2 \<or> status = SLN_FLASH_FS_ENOENTRY then kStatus_HAL_FlashFileNotExist
       else ok_or_fail status) (SLN_FLASH_LITTLEFS_Erase P path) s)"

definition lfs_mkfileHandler ::
    "('o, 'f, 'd, 'h) platform \<Rightarrow> dev_ptr \<Rightarrow> path \<Rightarrow> bool \<Rightarrow> ('f, 'd, 'h, int) lfs_op" where
  "lfs_mkfileHandler P dev path encrypt s =
    (if dev = None \<or> path = None then Inr (kStatus_HAL_FlashInvalidParam, s)
     else translate (\<lambda>status.
       if status = SLN_FLASH_FS_ENOENTRY then kStatus_HAL_FlashFileNotExist
       else if status = SLN_FLASH_FS_FILEEXIST then kStatus_HAL_FlashFileExist
       else ok_or_fail status) (SLN_FLASH_LITTLEFS_Mkfile P path encrypt) s)"

definition lfs_mkdirHandler :: "('o, 'f, 'd, 'h) platform \<Rightarrow> dev_ptr \<Rightarrow> path \<Rightarrow> ('f, 'd, 'h, int) lfs_op" where
  "lfs_mkdirHandler P dev path s =
    (if dev = None \<or> path = None then Inr (kStatus_HAL_FlashInvalidParam, s)
     else translate (\<lambda>status.
       if status = SLN_FLASH_FS_ENOENTRY then kStatus_HAL_FlashFileNotExist
       else if status = SLN_FLASH_FS_FILEEXIST then kStatus_HAL_FlashDirExist
       else ok_or_fail status) (SLN_FLASH_LITTLEFS_Mkdir P path) s)"

definition write_status :: "int \<Rightarrow> int" where
  "write_status status =
    (if status = SLN_FLASH_FS_ENOENTRY2 then kStatus_HAL_FlashFileNotExist else ok_or_fail status)"

definition lfs_writeHandler ::
    "('o, 'f, 'd, 'h) platform \<Rightarrow> dev_ptr \<Rightarrow> path \<Rightarrow> u8 list option \<Rightarrow> u32 \<Rightarrow> ('f, 'd, 'h, int) lfs_op" where
  "lfs_writeHandler P dev path buf sz s =
    (if dev = None \<or> path = None \<or> buf = None \<or> sz = 0 then Inr (kStatus_HAL_FlashInvalidParam, s)
     else translate write_status (SLN_FLASH_LITTLEFS_Save P path buf sz) s)"

definition lfs_appendHandler ::
    "('o, 'f, 'd, 'h) platform \<Rightarrow> dev_ptr \<Rightarrow> path \<Rightarrow> u8 list option \<Rightarrow> u32 \<Rightarrow> bool \<Rightarrow> ('f, 'd, 'h, int) lfs_op" where
  "lfs_appendHandler P dev path buf sz overwrite s =
    (if dev = None \<or> path = None \<or> buf = None \<or> sz = 0 then Inr (kStatus_HAL_FlashInvalidParam, s)
     else translate write_status
       (if overwrite then SLN_FLASH_LITTLEFS_Save P path buf sz else SLN_FLASH_LITTLEFS_Append P path buf sz) s)"

definition lfs_readHandler ::
    "('o, 'f, 'd, 'h) platform \<Rightarrow> dev_ptr \<Rightarrow> path \<Rightarrow> u8 list option \<Rightarrow> u32 \<Rightarrow> u32 option \<Rightarrow>
      ('f, 'd, 'h, int \<times> u8 list option \<times> u32 option) lfs_op" where
  "lfs_readHandler P dev path buf offset sz s =
    (if dev = None \<or> path = None \<or> sz = None then Inr ((kStatus_HAL_FlashInvalidParam, buf, sz), s)
     else rbind (SLN_FLASH_LITTLEFS_Read P path buf offset sz s) (\<lambda>((status, buf, sz), s).
       Inr ((if status = SLN_FLASH_FS_ENOENTRY2 \<or> status = SLN_FLASH_FS_ENOENTRY
             then kStatus_HAL_FlashFileNotExist else ok_or_fail status, buf, sz), s)))"

definition lfs_renameHandler ::
    "('o, 'f, 'd, 'h) platform \<Rightarrow> dev_ptr \<Rightarrow> path \<Rightarrow> path \<Rightarrow> ('f, 'd, 'h, int) lfs_op" where
  "lfs_renameHandler P dev OldPath NewPath s =
    (if dev = None \<or> OldPath = None \<or> NewPath = None then Inr (kStatus_HAL_FlashInvalidParam, s)
     else translate (\<lambda>status.
       if status = SLN_FLASH_FS_ENOENTRY2 \<or> status = SLN_FLASH_FS_ENOENTRY then kStatus_HAL_FlashFileNotExist
       else ok_or_fail status) (SLN_FLASH_LITTLEFS_Rename P OldPath NewPath) s)"

definition s_FlashDev_LittlefsOps :: "('o, 'f, 'd, 'h) platform \<Rightarrow> ('f, 'd, 'h) lfs_st flash_dev_operator_t" where
  "s_FlashDev_LittlefsOps P = \<lparr>
     op_init = Some (\<lambda>_. lfs_init P),
     op_format = Some (lfs_formatHandler P),
     op_save = Some (lfs_writeHandler P),
     op_append = Some (lfs_appendHandler P),
     op_read = Some (lfs_readHandler P),
     op_mkdir = Some (lfs_mkdirHandler P),
     op_mkfile = Some (lfs_mkfileHandler P),
     op_rm = Some (lfs_rmHandler P),
     op_rename = Some (lfs_renameHandler P),
     op_cleanup = Some (lfs_cleanupHandler P)\<rparr>"

definition s_FlashDev_Littlefs :: "('o, 'f, 'd, 'h) platform \<Rightarrow> ('f, 'd, 'h) lfs_st flash_dev_t" where
  "s_FlashDev_Littlefs P = \<lparr>dev_id = 0, ops = s_FlashDev_LittlefsOps P\<rparr>"

section \<open>The framework\<close>

text \<open>A call goes to the registered device, if it has the operation; else the status is \<open>ret\<close>.\<close>

definition fwk_call ::
    "'r \<Rightarrow> ('w flash_dev_operator_t \<Rightarrow> (dev_ptr \<Rightarrow> ('w, 'r) dev_op) option) \<Rightarrow> ('w fwk_flash, 'r) dev_op" where
  "fwk_call ret get s =
    (case s_FlashDev s of None \<Rightarrow> Inr (ret, s)
     | Some d \<Rightarrow> (case get (ops d) of None \<Rightarrow> Inr (ret, s)
       | Some f \<Rightarrow> rbind (f (Some (dev_id d)) (dev_st s)) (\<lambda>(r, w). Inr (r, s\<lparr>dev_st := w\<rparr>))))"

definition FWK_Flash_Init :: "('w fwk_flash, int) dev_op" where
  "FWK_Flash_Init = fwk_call kStatus_HAL_FlashFail op_init"

definition FWK_Flash_Deinit :: "('w fwk_flash, int) dev_op" where
  "FWK_Flash_Deinit s = Inr (kStatus_HAL_FlashSuccess, s)"

definition FWK_Flash_Format :: "('w fwk_flash, int) dev_op" where
  "FWK_Flash_Format = fwk_call kStatus_HAL_FlashFail op_format"

definition FWK_Flash_Save :: "path \<Rightarrow> u8 list option \<Rightarrow> u32 \<Rightarrow> ('w fwk_flash, int) dev_op" where
  "FWK_Flash_Save path buf sz =
    fwk_call kStatus_HAL_FlashFail (\<lambda>d. map_option (\<lambda>f dev. f dev path buf sz) (op_save d))"

definition FWK_Flash_Append :: "path \<Rightarrow> u8 list option \<Rightarrow> u32 \<Rightarrow> bool \<Rightarrow> ('w fwk_flash, int) dev_op" where
  "FWK_Flash_Append path buf sz overwrite =
    fwk_call kStatus_HAL_FlashFail (\<lambda>d. map_option (\<lambda>f dev. f dev path buf sz overwrite) (op_append d))"

definition FWK_Flash_Read ::
    "path \<Rightarrow> u8 list option \<Rightarrow> u32 \<Rightarrow> u32 option \<Rightarrow> ('w fwk_flash, int \<times> u8 list option \<times> u32 option) dev_op" where
  "FWK_Flash_Read path buf offset sz =
    fwk_call (kStatus_HAL_FlashFail, buf, sz) (\<lambda>d. map_option (\<lambda>f dev. f dev path buf offset sz) (op_read d))"

definition FWK_Flash_Mkfile :: "path \<Rightarrow> bool \<Rightarrow> ('w fwk_flash, int) dev_op" where
  "FWK_Flash_Mkfile path encrypt =
    fwk_call kStatus_HAL_FlashFail (\<lambda>d. map_option (\<lambda>f dev. f dev path encrypt) (op_mkfile d))"

definition FWK_Flash_Mkdir :: "path \<Rightarrow> ('w fwk_flash, int) dev_op" where
  "FWK_Flash_Mkdir path = fwk_call kStatus_HAL_FlashFail (\<lambda>d. map_option (\<lambda>f dev. f dev path) (op_mkdir d))"

definition FWK_Flash_Rm :: "path \<Rightarrow> ('w fwk_flash, int) dev_op" where
  "FWK_Flash_Rm path = fwk_call kStatus_HAL_FlashFail (\<lambda>d. map_option (\<lambda>f dev. f dev path) (op_rm d))"

definition FWK_Flash_Rename :: "path \<Rightarrow> path \<Rightarrow> ('w fwk_flash, int) dev_op" where
  "FWK_Flash_Rename oldPath newPath =
    fwk_call kStatus_HAL_FlashFail (\<lambda>d. map_option (\<lambda>f dev. f dev oldPath newPath) (op_rename d))"

definition FWK_Flash_Cleanup :: "u32 \<Rightarrow> ('w fwk_flash, int) dev_op" where
  "FWK_Flash_Cleanup timeout =
    fwk_call kStatus_HAL_FlashFail (\<lambda>d. map_option (\<lambda>f dev. f dev timeout) (op_cleanup d))"

definition FWK_Flash_DeviceRegister :: "'w flash_dev_t option \<Rightarrow> 'w fwk_flash \<Rightarrow> int \<times> 'w fwk_flash" where
  "FWK_Flash_DeviceRegister dev s =
    (if s_FlashDev s = None then (0, s\<lparr>s_FlashDev := dev\<rparr>) else (-1, s))"

section \<open>What the clients rely on\<close>

text \<open>
  The contract of the file operations for plain files, on the tree of entries: a save puts the data in
  front of what the file held or fails, a read returns the first bytes, a missing file is reported as
  such. \<open>ready\<close> is the state between two calls.
\<close>

definition plain :: "node option \<Rightarrow> bool" where
  "plain n \<longleftrightarrow> n \<noteq> Some Dir \<and> \<not> useEncryption (attr_of n)"

locale file_device =
  fixes save :: "path \<Rightarrow> u8 list option \<Rightarrow> u32 \<Rightarrow> ('s, int) dev_op"
    and read :: "path \<Rightarrow> u8 list option \<Rightarrow> u32 \<Rightarrow> u32 option \<Rightarrow> ('s, int \<times> u8 list option \<times> u32 option) dev_op"
    and rm :: "path \<Rightarrow> ('s, int) dev_op"
    and mkdir :: "path \<Rightarrow> ('s, int) dev_op"
    and ready :: "'s \<Rightarrow> bool"
    and entries :: "'s \<Rightarrow> u8 list \<Rightarrow> node option"
  assumes save_file: "ready w \<Longrightarrow> has_parent (entries w) n \<Longrightarrow> plain (entries w n) \<Longrightarrow>
      0 < len \<Longrightarrow> unat len \<le> length data \<Longrightarrow> \<exists>st w'. save (Some n) (Some data) len w = Inr (st, w') \<and> ready w' \<and>
      (st = kStatus_HAL_FlashSuccess \<and> entries w' = (entries w)(n \<mapsto> File (take (unat len) data @
           drop (unat len) (content_of (entries w n))) (Some (attr_of (entries w n))))
       \<or> st = kStatus_HAL_FlashFail \<and> created (entries w) n (entries w'))"
    and read_file: "ready w \<Longrightarrow> has_parent (entries w) n \<Longrightarrow> plain (entries w n) \<Longrightarrow> entries w n = Some (File d a) \<Longrightarrow>
      d \<noteq> [] \<Longrightarrow> length d < 4294967296 \<Longrightarrow> 0 < len \<Longrightarrow> unat len \<le> length buf \<Longrightarrow>
      \<exists>w'. read (Some n) (Some buf) 0 (Some len) w =
        Inr ((kStatus_HAL_FlashSuccess, Some (blit 0 (take (unat len) d) buf),
          Some (of_nat (length (take (unat len) d)))), w') \<and> ready w' \<and> entries w' = entries w"
    and read_none: "ready w \<Longrightarrow> has_parent (entries w) n \<Longrightarrow> entries w n = None \<Longrightarrow>
      \<exists>w'. read (Some n) bufp offset (Some len) w = Inr ((kStatus_HAL_FlashFileNotExist, bufp, Some len), w') \<and>
        ready w' \<and> entries w' = entries w"
    and rm_file: "ready w \<Longrightarrow> has_parent (entries w) n \<Longrightarrow> is_file (entries w n) \<Longrightarrow>
      \<exists>w'. rm (Some n) w = Inr (kStatus_HAL_FlashSuccess, w') \<and> ready w' \<and> entries w' = (entries w)(n := None)"
    and rm_none: "ready w \<Longrightarrow> has_parent (entries w) n \<Longrightarrow> entries w n = None \<Longrightarrow>
      \<exists>w'. rm (Some n) w = Inr (kStatus_HAL_FlashFileNotExist, w') \<and> ready w' \<and> entries w' = entries w"
    and mkdir_there: "ready w \<Longrightarrow> has_parent (entries w) n \<Longrightarrow> entries w n \<noteq> None \<Longrightarrow>
      \<exists>w'. mkdir (Some n) w = Inr (kStatus_HAL_FlashDirExist, w') \<and> ready w' \<and> entries w' = entries w"
    and mkdir_new: "ready w \<Longrightarrow> has_parent (entries w) n \<Longrightarrow> entries w n = None \<Longrightarrow>
      \<exists>st w'. mkdir (Some n) w = Inr (st, w') \<and> ready w' \<and>
        (st = kStatus_HAL_FlashSuccess \<and> entries w' = (entries w)(n \<mapsto> Dir)
         \<or> st = kStatus_HAL_FlashFail \<and> entries w' = entries w)"

text \<open>The framework with the littlefs device registered, over a medium without errors.\<close>

definition lfs_ready :: "('o, 'f, 'd, 'h) platform \<Rightarrow> ('f, 'd, 'h) lfs_st fwk_flash \<Rightarrow> bool" where
  "lfs_ready P w \<longleftrightarrow> s_FlashDev w = Some (s_FlashDev_Littlefs P) \<and> lfs_lock (dev_st w) = Some False"

definition lfs_entries :: "(('f, 'd) volume \<Rightarrow> u8 list \<Rightarrow> node option) \<Rightarrow> ('f, 'd, 'h) lfs_st fwk_flash \<Rightarrow> u8 list \<Rightarrow> node option" where
  "lfs_entries tree w = tree (vol (dev_st w))"

context store_reliable begin

lemma fwk_runs:
  assumes "lfs_ready P w" and "get (s_FlashDev_LittlefsOps P) = Some f"
    and "runs tree (dev_st w) (f (Some 0) (dev_st w)) Q"
  shows "\<exists>r w'. fwk_call ret get w = Inr (r, w') \<and> lfs_ready P w' \<and> Q r (lfs_entries tree w')"
proof -
  obtain r s where r: "f (Some 0) (dev_st w) = Inr (r, s)" "calm (dev_st w) s" "Q r (tree (vol s))"
    using assms(3) by (rule runsD)
  then show ?thesis using assms(1,2) calm_lock [OF r(2)]
    by (auto simp: fwk_call_def lfs_ready_def lfs_entries_def s_FlashDev_Littlefs_def)
qed

lemma lfs_readyD: "lfs_ready P w \<Longrightarrow> lfs_lock (dev_st w) = Some False"
  by (simp add: lfs_ready_def)

lemma translate_runs:
  "runs tree s (m s) R \<Longrightarrow> (\<And>r t. R r t \<Longrightarrow> Q (f r) t) \<Longrightarrow> runs tree s (translate f m s) Q"
  unfolding translate_def by (rule runs_bind, assumption) (simp add: runs_Inr)

lemma plain_text_runs:
  assumes l: "lfs_lock s = Some False" and p: "has_parent (tree (vol s)) name"
    and nd: "tree (vol s) name = Some (File bs a)" "\<not> useEncryption (attr_of (tree (vol s) name))"
    and d: "bs \<noteq> []" "length bs < 4294967296" and n: "0 < len" "unat len \<le> length buf"
  shows "runs tree s (SLN_FLASH_LITTLEFS_Read P (Some name) (Some buf) 0 (Some len) s)
    (\<lambda>r t. t = tree (vol s) \<and> r = (SLN_FLASH_FS_OK, Some (blit 0 (take (unat len) bs) buf),
       Some (of_nat (length (take (unat len) bs)))))"
  unfolding SLN_FLASH_LITTLEFS_Read_def prod.case option.case
proof (rule locked_runs [OF l], goal_cases)
  case (1 s1)
  have nd1: "tree (vol s1) name = Some (File bs a)" "has_parent (tree (vol s1)) name" using 1 nd p by simp_all
  have "runs tree s1 (read_file P name (Some buf) 0 len s1) (\<lambda>r t. t = tree (vol s1) \<and> read_back bs 0 buf len r)"
  proof (rule read_file_runs [OF nd1 d], goal_cases)
    case (1 h s2)
    then show ?case using get_plain_runs [OF 1(1,2) d(2) n, of 0 s2] nd nd1 \<open>tree (vol s1) = tree (vol s)\<close>
      by (simp add: LFS_GetFileContent_def)
  qed
  then show ?case by (rule runs_bind) (use 1 in \<open>auto simp: runs_Inr read_back_def slice_def\<close>)
qed

lemma dev_save:
  assumes w: "lfs_ready P w" and n: "has_parent (lfs_entries tree w) n" "plain (lfs_entries tree w n)"
    and len: "0 < len" "unat len \<le> length data"
  shows "\<exists>st w'. FWK_Flash_Save (Some n) (Some data) len w = Inr (st, w') \<and> lfs_ready P w' \<and>
    (st = kStatus_HAL_FlashSuccess \<and> lfs_entries tree w' = (lfs_entries tree w)(n \<mapsto> File (take (unat len) data @
         drop (unat len) (content_of (lfs_entries tree w n))) (Some (attr_of (lfs_entries tree w n))))
     \<or> st = kStatus_HAL_FlashFail \<and> created (lfs_entries tree w) n (lfs_entries tree w'))"
  unfolding FWK_Flash_Save_def
proof (rule fwk_runs [OF w, where f = "\<lambda>dev. lfs_writeHandler P dev (Some n) (Some data) len"],
    simp add: s_FlashDev_LittlefsOps_def, goal_cases)
  case 1
  have eq: "lfs_writeHandler P (Some 0) (Some n) (Some data) len (dev_st w) =
      translate write_status (SLN_FLASH_LITTLEFS_Save P (Some n) (Some data) len) (dev_st w)"
    using len(1) by (auto simp: lfs_writeHandler_def)
  show ?case unfolding eq
    by (rule translate_runs, rule save_plain_runs [OF lfs_readyD [OF w] len])
       (use n in \<open>auto simp: lfs_entries_def plain_def saved_def created_def write_status_def ok_or_fail_def\<close>)
qed

lemma dev_read:
  assumes w: "lfs_ready P w" and n: "has_parent (lfs_entries tree w) n" "plain (lfs_entries tree w n)" "lfs_entries tree w n = Some (File bs a)"
    and d: "bs \<noteq> []" "length bs < 4294967296" and len: "0 < len" "unat len \<le> length buf"
  shows "\<exists>w'. FWK_Flash_Read (Some n) (Some buf) 0 (Some len) w =
      Inr ((kStatus_HAL_FlashSuccess, Some (blit 0 (take (unat len) bs) buf),
        Some (of_nat (length (take (unat len) bs)))), w') \<and> lfs_ready P w' \<and> lfs_entries tree w' = lfs_entries tree w"
proof -
  have "runs tree (dev_st w) (lfs_readHandler P (Some 0) (Some n) (Some buf) 0 (Some len) (dev_st w))
      (\<lambda>r t. t = lfs_entries tree w \<and> r = (kStatus_HAL_FlashSuccess, Some (blit 0 (take (unat len) bs) buf),
         Some (of_nat (length (take (unat len) bs)))))"
    unfolding lfs_readHandler_def
    by simp (rule runs_bind [OF plain_text_runs [OF lfs_readyD [OF w], of n bs a]],
      use assms in \<open>auto simp: lfs_entries_def runs_Inr plain_def ok_or_fail_def\<close>)
  from fwk_runs [where f = "\<lambda>dev. lfs_readHandler P dev (Some n) (Some buf) 0 (Some len)", OF w _ this,
      of "\<lambda>d. map_option (\<lambda>f dev. f dev (Some n) (Some buf) 0 (Some len)) (op_read d)"]
  show ?thesis by (fastforce simp: FWK_Flash_Read_def s_FlashDev_LittlefsOps_def)
qed

lemma dev_read_none:
  assumes w: "lfs_ready P w" and n: "has_parent (lfs_entries tree w) n" "lfs_entries tree w n = None"
  shows "\<exists>w'. FWK_Flash_Read (Some n) buf offset (Some len) w = Inr ((kStatus_HAL_FlashFileNotExist, buf, Some len), w') \<and>
    lfs_ready P w' \<and> lfs_entries tree w' = lfs_entries tree w"
proof -
  have "runs tree (dev_st w) (lfs_readHandler P (Some 0) (Some n) buf offset (Some len) (dev_st w))
      (\<lambda>r t. t = lfs_entries tree w \<and> r = (kStatus_HAL_FlashFileNotExist, buf, Some len))"
    unfolding lfs_readHandler_def
    by simp (rule runs_bind [OF read_absent_runs [OF lfs_readyD [OF w], of n]],
      use n in \<open>auto simp: lfs_entries_def runs_Inr\<close>)
  from fwk_runs [where f = "\<lambda>dev. lfs_readHandler P dev (Some n) buf offset (Some len)", OF w _ this,
      of "\<lambda>d. map_option (\<lambda>f dev. f dev (Some n) buf offset (Some len)) (op_read d)"]
  show ?thesis by (fastforce simp: FWK_Flash_Read_def s_FlashDev_LittlefsOps_def)
qed

lemma dev_rm:
  assumes w: "lfs_ready P w" and n: "has_parent (lfs_entries tree w) n" "lfs_entries tree w n \<noteq> Some Dir"
  shows "\<exists>w'. FWK_Flash_Rm (Some n) w =
      Inr (if lfs_entries tree w n = None then kStatus_HAL_FlashFileNotExist else kStatus_HAL_FlashSuccess, w') \<and>
    lfs_ready P w' \<and> lfs_entries tree w' = (lfs_entries tree w)(n := None)"
proof -
  define st where "st = (if lfs_entries tree w n = None then kStatus_HAL_FlashFileNotExist else kStatus_HAL_FlashSuccess)"
  have "runs tree (dev_st w) (lfs_rmHandler P (Some 0) (Some n) (dev_st w))
      (\<lambda>r t. t = (lfs_entries tree w)(n := None) \<and> r = st)"
    unfolding lfs_rmHandler_def
    by simp (rule translate_runs, rule erase_runs [OF lfs_readyD [OF w]],
      use n in \<open>auto simp: st_def lfs_entries_def ok_or_fail_def split: if_splits\<close>)
  from fwk_runs [where f = "\<lambda>dev. lfs_rmHandler P dev (Some n)", OF w _ this,
      of "\<lambda>d. map_option (\<lambda>f dev. f dev (Some n)) (op_rm d)"]
  show ?thesis by (fastforce simp: FWK_Flash_Rm_def s_FlashDev_LittlefsOps_def st_def)
qed

lemma dev_mkdir:
  assumes w: "lfs_ready P w" and n: "has_parent (lfs_entries tree w) n"
  shows "\<exists>st w'. FWK_Flash_Mkdir (Some n) w = Inr (st, w') \<and> lfs_ready P w' \<and>
    (if lfs_entries tree w n \<noteq> None then st = kStatus_HAL_FlashDirExist \<and> lfs_entries tree w' = lfs_entries tree w
     else st = kStatus_HAL_FlashSuccess \<and> lfs_entries tree w' = (lfs_entries tree w)(n \<mapsto> Dir)
       \<or> st = kStatus_HAL_FlashFail \<and> lfs_entries tree w' = lfs_entries tree w)"
  unfolding FWK_Flash_Mkdir_def
proof (rule fwk_runs [OF w, where f = "\<lambda>dev. lfs_mkdirHandler P dev (Some n)"],
    simp add: s_FlashDev_LittlefsOps_def, goal_cases)
  case 1
  show ?case unfolding lfs_mkdirHandler_def
    by simp (rule translate_runs, rule mkdir_runs [OF lfs_readyD [OF w]],
      use n in \<open>auto simp: lfs_entries_def ok_or_fail_def split: if_splits\<close>)
qed

lemma littlefs_file_device:
  "file_device FWK_Flash_Save FWK_Flash_Read FWK_Flash_Rm FWK_Flash_Mkdir (lfs_ready P) (lfs_entries tree)"
proof (unfold_locales, goal_cases)
  case 1 then show ?case by (rule dev_save)
next
  case 2 then show ?case by (rule dev_read)
next
  case 3 then show ?case by (rule dev_read_none)
next
  case (4 w n) then show ?case using dev_rm [of w n] by (cases "lfs_entries tree w n" rule: is_file.cases) auto
next
  case (5 w n)
  then show ?case using dev_rm [of w n] by (auto simp: fun_upd_idem)
next
  case (6 w n) then show ?case using dev_mkdir [of w n] by auto
next
  case (7 w n) then show ?case using dev_mkdir [of w n] by auto
qed

end

sublocale store_reliable \<subseteq> device: file_device FWK_Flash_Save FWK_Flash_Read FWK_Flash_Rm FWK_Flash_Mkdir
    "lfs_ready P" "lfs_entries tree"
  by (rule littlefs_file_device)

interpretation sim_device: file_device FWK_Flash_Save FWK_Flash_Read FWK_Flash_Rm FWK_Flash_Mkdir
    "lfs_ready sim_platform" "lfs_entries lfs"
  by (rule store_reliable.littlefs_file_device [OF sim_store])

section \<open>What a client keeps in its files\<close>

text \<open>The entry is a plain file of a size the file system can have; it begins with the \<open>k\<close> bytes
  \<open>bs\<close>.\<close>

definition clean :: "node option \<Rightarrow> bool" where
  "clean nd \<longleftrightarrow> plain nd \<and> length (content_of nd) < 4294967296"

definition stored :: "node option \<Rightarrow> nat \<Rightarrow> u8 list \<Rightarrow> bool" where
  "stored nd k bs \<longleftrightarrow> clean nd \<and> is_file nd \<and> 0 < k \<and> k \<le> length (content_of nd) \<and> take k (content_of nd) = bs"

lemma storedD: "stored nd k bs \<Longrightarrow> clean nd"
  by (simp add: stored_def)

locale framework_flash = file_device FWK_Flash_Save FWK_Flash_Read FWK_Flash_Rm FWK_Flash_Mkdir ready entries
  for ready :: "'w fwk_flash \<Rightarrow> bool" and entries :: "'w fwk_flash \<Rightarrow> u8 list \<Rightarrow> node option"

text \<open>On a device with room a save of a plain file succeeds, and so does a new directory.\<close>

locale roomy_flash = framework_flash +
  assumes room: "ready w \<Longrightarrow> has_parent (entries w) n \<Longrightarrow> plain (entries w n) \<Longrightarrow> 0 < len \<Longrightarrow>
    unat len \<le> length data \<Longrightarrow> FWK_Flash_Save (Some n) (Some data) len w = Inr (st, w') \<Longrightarrow>
    st = kStatus_HAL_FlashSuccess"
    and dir_room: "ready w \<Longrightarrow> has_parent (entries w) n \<Longrightarrow> entries w n = None \<Longrightarrow>
    FWK_Flash_Mkdir (Some n) w = Inr (st, w') \<Longrightarrow> st = kStatus_HAL_FlashSuccess"

context framework_flash begin

lemma read_stored:
  assumes "ready w" and "has_parent (entries w) n" and "stored (entries w n) (unat len) bs" and "unat len \<le> length buf"
  shows "\<exists>w'. FWK_Flash_Read (Some n) (Some buf) 0 (Some len) w =
      Inr ((kStatus_HAL_FlashSuccess, Some (blit 0 bs buf), Some len), w') \<and> ready w' \<and> entries w' = entries w"
proof -
  obtain d a where nd: "entries w n = Some (File d a)" using assms(3) by (auto simp: stored_def is_file_iff)
  have d: "d \<noteq> []" "length d < 4294967296" "take (unat len) d = bs" "unat len \<le> length d" "0 < len"
    using assms(3) nd by (auto simp: stored_def clean_def word_less_nat_alt)
  have "of_nat (length (take (unat len) d)) = len" using d(4) by simp
  then show ?thesis
    using read_file [OF assms(1,2) _ nd d(1,2,5) assms(4)] assms(3) d(3) by (auto simp: stored_def clean_def)
qed

end

context roomy_flash begin

lemma save_stored:
  assumes "ready w" and "has_parent (entries w) n" and "clean (entries w n)" and "0 < len" and "unat len \<le> length data"
  shows "\<exists>w' nd. FWK_Flash_Save (Some n) (Some data) len w = Inr (kStatus_HAL_FlashSuccess, w') \<and> ready w' \<and>
    entries w' = (entries w)(n := nd) \<and> stored nd (unat len) (take (unat len) data)"
proof -
  let ?nd = "Some (File (take (unat len) data @ drop (unat len) (content_of (entries w n))) (Some (attr_of (entries w n))))"
  have p: "plain (entries w n)" using assms(3) by (simp add: clean_def)
  obtain st w' where sv: "FWK_Flash_Save (Some n) (Some data) len w = Inr (st, w')" "ready w'"
      "st = kStatus_HAL_FlashSuccess \<and> entries w' = (entries w)(n := ?nd) \<or> st = kStatus_HAL_FlashFail"
    using save_file [OF assms(1,2) p assms(4,5)] by auto
  have "st = kStatus_HAL_FlashSuccess" by (rule room [OF assms(1,2) p assms(4,5) sv(1)])
  moreover have "stored ?nd (unat len) (take (unat len) data)"
    using assms(3-5) unat_u32_less [of len] by (auto simp: stored_def clean_def plain_def word_less_nat_alt)
  ultimately show ?thesis using sv by auto
qed

end

end
