(* ===== verification/C_Strings.thy ===== *)
theory C_Strings
  imports Prelude
begin

text \<open>
  The functions of the C string library that the command parsers use, on the characters of a string (or
  on a buffer, where a missing NUL is a read outside it), and decimal numbers. String literals of the
  code are written as HOL strings and converted with \<open>ascii\<close>.
\<close>

section \<open>Characters\<close>

definition ascii :: "string \<Rightarrow> u8 list" where
  "ascii = map of_char"

lemma ascii_simps [simp]: "ascii [] = []" "ascii (c # cs) = of_char c # ascii cs"
  by (simp_all add: ascii_def)

lemma length_ascii [simp]: "length (ascii s) = length s"
  by (simp add: ascii_def)

definition toupper :: "u8 \<Rightarrow> u8" where
  "toupper c = (if 97 \<le> c \<and> c \<le> 122 then c - 32 else c)"

definition CR :: u8 where [simp]: "CR = 13"
definition LF :: u8 where [simp]: "LF = 10"

text \<open>The text in a buffer, which must hold a NUL.\<close>

definition c_text :: "u8 list \<Rightarrow> u8 list outcome" where
  "c_text buf = (if 0 \<in> set buf then Inr (cstr buf) else Inl MemFault)"

section \<open>Search\<close>

definition starts_with :: "'a list \<Rightarrow> 'a list \<Rightarrow> bool" where
  "starts_with needle s \<longleftrightarrow> take (length needle) s = needle"

text \<open>The rest of the text from the first place where the pattern occurs.\<close>

fun strstr :: "'a list \<Rightarrow> 'a list \<Rightarrow> 'a list option" where
  "strstr [] needle = (if needle = [] then Some [] else None)"
| "strstr (c # s) needle = (if starts_with needle (c # s) then Some (c # s) else strstr s needle)"

definition occurs :: "'a list \<Rightarrow> 'a list \<Rightarrow> bool" where
  "occurs needle s \<longleftrightarrow> strstr s needle \<noteq> None"

lemma starts_with_iff: "starts_with needle s \<longleftrightarrow> (\<exists>v. s = needle @ v)"
  by (metis append_eq_conv_conj append_take_drop_id starts_with_def)

lemma strstr_Some: "strstr s needle = Some t \<Longrightarrow> \<exists>u v. s = u @ needle @ v \<and> t = needle @ v"
proof (induction s)
  case (Cons c s)
  show ?case
  proof (cases "starts_with needle (c # s)")
    case True
    then show ?thesis using Cons.prems by (auto simp: starts_with_iff intro: exI [of _ "[]"])
  next
    case False
    then obtain u v where "s = u @ needle @ v" "t = needle @ v" using Cons by auto
    then show ?thesis by (intro exI [of _ "c # u"] exI [of _ v]) simp
  qed
qed (simp split: if_splits)

lemma occurs_append: "occurs needle (u @ needle @ v)"
proof (induction u)
  case Nil
  have "starts_with needle (needle @ v)" by (auto simp: starts_with_iff)
  then show ?case by (cases "needle @ v") (auto simp: occurs_def)
qed (auto simp: occurs_def)

lemma occurs_iff: "occurs needle s \<longleftrightarrow> (\<exists>u v. s = u @ needle @ v)"
  using strstr_Some occurs_append by (fastforce simp: occurs_def)

lemma occurs_code [simp]:
  "occurs needle [] \<longleftrightarrow> needle = []"
  "occurs needle (c # s) \<longleftrightarrow> starts_with needle (c # s) \<or> occurs needle s"
  by (simp_all add: occurs_def)

lemma starts_with_simps [simp]:
  "starts_with [] s" "\<not> starts_with (c # cs) []"
  "starts_with (c # cs) (d # ds) \<longleftrightarrow> d = c \<and> starts_with cs ds"
  by (auto simp: starts_with_def)

text \<open>A pattern and a text with one separator each: they meet at the separator.\<close>

definition ends_with :: "'a list \<Rightarrow> 'a list \<Rightarrow> bool" where
  "ends_with needle s \<longleftrightarrow> starts_with (rev needle) (rev s)"

lemma ends_with_iff: "ends_with needle s \<longleftrightarrow> (\<exists>u. s = u @ needle)"
  unfolding ends_with_def starts_with_iff by (metis rev_append rev_rev_ident)

lemma append_sep_eq:
  "c \<notin> set xs \<Longrightarrow> c \<notin> set ys \<Longrightarrow> xs @ c # us = ys @ c # vs \<longleftrightarrow> xs = ys \<and> us = vs"
proof (induction xs arbitrary: ys)
  case Nil
  then show ?case by (cases ys) auto
next
  case (Cons x xs)
  then show ?case by (cases ys) auto
qed

lemma occurs_sep:
  assumes "c \<notin> set t" and "c \<notin> set v" and "c \<notin> set h"
  shows "occurs (h @ c # r) (t @ c # v) \<longleftrightarrow> ends_with h t \<and> starts_with r v"
proof
  assume "occurs (h @ c # r) (t @ c # v)"
  then obtain a b where e: "t @ c # v = a @ (h @ c # r) @ b" by (auto simp: occurs_iff)
  have "c \<notin> set a"
  proof
    assume "c \<in> set a"
    then obtain a1 a2 where a: "a = a1 @ c # a2" "c \<notin> set a1" by (meson split_list_first)
    then have "t = a1 \<and> v = a2 @ (h @ c # r) @ b" using e append_sep_eq [OF assms(1) a(2)] by simp
    then show False using assms(2) by simp
  qed
  then have "t = a @ h \<and> v = r @ b" using e append_sep_eq [OF assms(1), of "a @ h" v "r @ b"] assms(3) by simp
  then show "ends_with h t \<and> starts_with r v" by (auto simp: ends_with_iff starts_with_iff)
next
  assume "ends_with h t \<and> starts_with r v"
  then obtain a b where "t @ c # v = a @ (h @ c # r) @ b" by (auto simp: ends_with_iff starts_with_iff)
  then show "occurs (h @ c # r) (t @ c # v)" using occurs_append by metis
qed

section \<open>Decimal numbers\<close>

fun digits :: "nat \<Rightarrow> u8 list" where
  "digits n = (if n < 10 then [of_nat (48 + n)] else digits (n div 10) @ [of_nat (48 + n mod 10)])"

declare digits.simps [simp del]

fun digits_value :: "u8 list \<Rightarrow> nat" where
  "digits_value [] = 0"
| "digits_value (d # ds) = (unat d - 48) + 10 * digits_value ds"

lemma digit_char: "n < 10 \<Longrightarrow> unat (of_nat (48 + n) :: u8) = 48 + n"
  by (simp only: unat_of_nat) simp

lemma digits_value: "digits_value (rev (digits n)) = n"
proof (induction n rule: digits.induct)
  case (1 n)
  show ?case
  proof (cases "n < 10")
    case True
    then show ?thesis using digit_char [of n] by (subst digits.simps) simp
  next
    case False
    then show ?thesis using digit_char [of "n mod 10"] 1 [OF False] by (subst digits.simps) simp
  qed
qed

lemma digits_inject: "digits n = digits m \<Longrightarrow> n = m"
  by (metis digits_value)

lemma digits_chars: "c \<in> set (digits n) \<Longrightarrow> 48 \<le> unat c \<and> unat c < 58"
proof (induction n rule: digits.induct)
  case (1 n)
  show ?case
  proof (cases "n < 10")
    case True
    then show ?thesis using 1(2) digit_char [of n] by (subst (asm) digits.simps) auto
  next
    case False
    then show ?thesis using 1 digit_char [of "n mod 10"] by (subst (asm) (2) digits.simps) auto
  qed
qed

lemma length_digits:
  assumes "i < 100"
  shows "length (digits i) \<le> 2"
proof (cases "i < 10")
  case True
  then show ?thesis by (subst digits.simps) simp
next
  case False
  then have "digits i = digits (i div 10) @ [of_nat (48 + i mod 10)]" by (simp add: digits.simps [of i])
  moreover have "i div 10 < 10" using assms by simp
  then have "digits (i div 10) = [of_nat (48 + i div 10)]" by (simp add: digits.simps [of "i div 10"])
  ultimately show ?thesis by simp
qed

lemma length_digits_le: "n < 10 ^ Suc k \<Longrightarrow> length (digits n) \<le> Suc k"
proof (induction k arbitrary: n)
  case 0
  then show ?case by (simp add: digits.simps [of n])
next
  case (Suc k)
  have "n div 10 < 10 ^ Suc k" using Suc.prems by (simp add: less_mult_imp_div_less mult.commute)
  then show ?case using Suc.IH [of "n div 10"] by (simp add: digits.simps [of n])
qed

end
