(* ===== verification/Facedb.thy ===== *)
theory Facedb
  imports Flash_Device C_Strings
begin

text \<open>
  The face database of the smart lock, \<open>sln_framework/hal/vision/hal_sln_facedb.c\<close>, with AUTOSAVE
  on: a table of a hundred entries in RAM (a name of 32 bytes and the face feature), a map of flags per
  slot, and one file per saved face under \<open>faceDB/\<close> with a metadata file. The state is the file's
  static variables, the flash framework below it, the bytes an uninitialised local struct happens to
  hold, and the number of operating-system calls made. The heap and the creation of the mutex are
  oracles. A pointer into the table is its offset; NULL is None; a name is its characters before the
  NUL.
\<close>

section \<open>Constants and types\<close>

definition INVALID_ID :: u16 where [simp]: "INVALID_ID = 0xFFFF"
definition MAX_FACE_DB_SIZE :: nat where [simp]: "MAX_FACE_DB_SIZE = 100"
definition FACE_NAME_MAX_LEN :: nat where [simp]: "FACE_NAME_MAX_LEN = 31"
definition FEATURE_VERSION :: u32 where [simp]: "FEATURE_VERSION = 2"
definition MODEL_VERSION :: u32 where [simp]: "MODEL_VERSION = 1"
definition FACEDB_SLOT_EMPTY :: u8 where "FACEDB_SLOT_EMPTY = 0"
definition FACE_SAVED :: u8 where "FACE_SAVED = push_bit 0 1"
definition FACE_UPDATED :: u8 where "FACE_UPDATED = push_bit 1 1"
definition FACE_IN_USE :: u8 where "FACE_IN_USE = push_bit 2 1"

definition kFaceDBStatus_Success :: int where [simp]: "kFaceDBStatus_Success = 0"
definition kFaceDBStatus_NotInit :: int where [simp]: "kFaceDBStatus_NotInit = 2"
definition kFaceDBStatus_NotEnoughMemory :: int where [simp]: "kFaceDBStatus_NotEnoughMemory = 4"
definition kFaceDBStatus_Full :: int where [simp]: "kFaceDBStatus_Full = 5"
definition kFaceDBStatus_WrongID :: int where [simp]: "kFaceDBStatus_WrongID = 6"
definition kFaceDBStatus_WrongParam :: int where [simp]: "kFaceDBStatus_WrongParam = 7"
definition kFaceDBStatus_Failed :: int where [simp]: "kFaceDBStatus_Failed = 8"

text \<open>\<open>"faceDB"\<close> and \<open>"faceDB/Metadata"\<close> in ASCII.\<close>

definition OASIS_FACE_DB_DIR :: "u8 list" where
  "OASIS_FACE_DB_DIR = [102, 97, 99, 101, 68, 66]"
definition OASIS_FACEDATABASE :: "u8 list" where
  "OASIS_FACEDATABASE = OASIS_FACE_DB_DIR @ [47]"
definition METADATA_FILE_NAME :: "u8 list" where
  "METADATA_FILE_NAME = OASIS_FACEDATABASE @ [77, 101, 116, 97, 100, 97, 116, 97]"

text \<open>The struct of 120 bytes, with the two bytes of padding behind the map.\<close>

record facedb_metadata_t =
  featureVersion :: u32
  modelVersion :: u32
  numberFaces :: u16
  faceEntrySize :: u16
  reservedData :: "u8 list"
  faceMapping :: "u8 list"
  padding :: "u8 list"

definition metadata_size :: u32 where [simp]: "metadata_size = 120"

text \<open>The code hands the address of the struct to the flash framework. \<open>encode_metadata\<close> and \<open>decode_metadata\<close>
  stand for that: they are the image of the struct in memory, its members in their order, little-endian, as the
  compiler of the target lays them out.\<close>

definition encode_metadata :: "facedb_metadata_t \<Rightarrow> u8 list" where
  "encode_metadata m = le32 (featureVersion m) @ le32 (modelVersion m) @ le16 (numberFaces m) @
     le16 (faceEntrySize m) @ reservedData m @ faceMapping m @ padding m"

definition decode_metadata :: "u8 list \<Rightarrow> facedb_metadata_t" where
  "decode_metadata bs = \<lparr>featureVersion = de32 bs, modelVersion = de32 (drop 4 bs),
     numberFaces = de16 (drop 8 bs), faceEntrySize = de16 (drop 10 bs),
     reservedData = slice 12 6 bs, faceMapping = slice 18 100 bs, padding = slice 118 2 bs\<rparr>"

text \<open>Size of the name field, where the feature of an entry begins.\<close>

definition facedb_entry_t :: nat where [simp]: "facedb_entry_t = FACE_NAME_MAX_LEN + 1"

record 'w facedb =
  s_FaceEntrySize :: u16
  s_FaceDBSize :: u32
  s_FaceDB :: "u8 list option"
  s_FaceDBLock :: "bool option"
  s_OasisMetadata :: facedb_metadata_t
  fdb_flash :: "'w fwk_flash"
  stack_bytes :: "u8 list"
  fdb_calls :: nat

type_synonym ('w, 'r) fdb_op = "'w facedb \<Rightarrow> ('r \<times> 'w facedb) outcome"

section \<open>Helpers\<close>

definition on_flash :: "('w fwk_flash, 'r) dev_op \<Rightarrow> ('w, 'r) fdb_op" where
  "on_flash f s = rbind (f (fdb_flash s)) (\<lambda>(r, w). Inr (r, s\<lparr>fdb_flash := w\<rparr>))"

text \<open>The table; a dereference of the NULL table has no defined behaviour.\<close>

definition face_db :: "'w facedb \<Rightarrow> u8 list outcome" where
  "face_db s = (case s_FaceDB s of None \<Rightarrow> Inl MemFault | Some db \<Rightarrow> Inr db)"

definition FACE_ENTRY :: "'w facedb \<Rightarrow> u16 \<Rightarrow> nat" where
  "FACE_ENTRY s fid = unat fid * unat (s_FaceEntrySize s)"

definition put_db :: "nat \<Rightarrow> u8 list \<Rightarrow> 'w facedb \<Rightarrow> 'w facedb outcome" where
  "put_db off bytes s = rbind (face_db s) (\<lambda>db. rbind (store_at off bytes db) (\<lambda>db. Inr (s\<lparr>s_FaceDB := Some db\<rparr>)))"

definition mapping_at :: "u16 \<Rightarrow> 'w facedb \<Rightarrow> u8 outcome" where
  "mapping_at fid s = (if unat fid < MAX_FACE_DB_SIZE then Inr (faceMapping (s_OasisMetadata s) ! unat fid) else Inl MemFault)"

definition set_mapping :: "u16 \<Rightarrow> u8 \<Rightarrow> 'w facedb \<Rightarrow> 'w facedb" where
  "set_mapping fid v s =
    s\<lparr>s_OasisMetadata := s_OasisMetadata s\<lparr>faceMapping := (faceMapping (s_OasisMetadata s))[unat fid := v]\<rparr>\<rparr>"

definition add_faces :: "u16 \<Rightarrow> 'w facedb \<Rightarrow> 'w facedb" where
  "add_faces n s = s\<lparr>s_OasisMetadata := s_OasisMetadata s\<lparr>numberFaces := numberFaces (s_OasisMetadata s) + n\<rparr>\<rparr>"

definition has_flag :: "u8 \<Rightarrow> u8 \<Rightarrow> bool" where
  "has_flag f m \<longleftrightarrow> m AND f = f"

definition Facedb_Lock :: "('w, int) fdb_op" where
  "Facedb_Lock s = (case s_FaceDBLock s of None \<Rightarrow> Inl MemFault
     | Some True \<Rightarrow> Inl Deadlock
     | Some False \<Rightarrow> Inr (kFaceDBStatus_Success, s\<lparr>s_FaceDBLock := Some True\<rparr>))"

definition Facedb_Unlock :: "'w facedb \<Rightarrow> 'w facedb" where
  "Facedb_Unlock s = (case s_FaceDBLock s of None \<Rightarrow> s | Some _ \<Rightarrow> s\<lparr>s_FaceDBLock := Some False\<rparr>)"

definition Facedb_SetMetaDataDefault :: "'w facedb \<Rightarrow> 'w facedb" where
  "Facedb_SetMetaDataDefault s = s\<lparr>s_OasisMetadata := s_OasisMetadata s\<lparr>featureVersion := FEATURE_VERSION,
     modelVersion := MODEL_VERSION, numberFaces := 0, faceEntrySize := 0,
     faceMapping := replicate MAX_FACE_DB_SIZE FACEDB_SLOT_EMPTY\<rparr>\<rparr>"

definition Facedb_SetFaceDataDefault :: "'w facedb \<Rightarrow> 'w facedb outcome" where
  "Facedb_SetFaceDataDefault s = put_db 0 (replicate (unat (s_FaceDBSize s)) 0) s"

definition Facedb_GeneratePathFromIndex :: "u16 \<Rightarrow> u8 list" where
  "Facedb_GeneratePathFromIndex fid = OASIS_FACEDATABASE @ digits (unat fid)"

section \<open>Metadata and files\<close>

text \<open>The copy that goes to flash: no slot is marked as used, and slots that are only used are not
  counted; the reserved bytes and the padding of the local struct are never set.\<close>

definition flash_metadata :: "'w facedb \<Rightarrow> facedb_metadata_t" where
  "flash_metadata s =
    (let m = s_OasisMetadata s; used = filter (\<lambda>v. v = FACE_IN_USE) (take MAX_FACE_DB_SIZE (faceMapping m))
     in \<lparr>featureVersion = featureVersion m, modelVersion = modelVersion m,
        numberFaces = numberFaces m - of_nat (length used), faceEntrySize = faceEntrySize m,
        reservedData = take 6 (stack_bytes s),
        faceMapping = map (\<lambda>v. v AND NOT FACE_IN_USE) (take MAX_FACE_DB_SIZE (faceMapping m)),
        padding = drop 6 (stack_bytes s)\<rparr>)"

text \<open>Saved again and again until the save succeeds.\<close>

partial_function (option) update_loop :: "u8 list \<Rightarrow> 'w facedb \<Rightarrow> (int \<times> 'w facedb) outcome option" where
  "update_loop bytes s =
    (case on_flash (FWK_Flash_Save (Some METADATA_FILE_NAME) (Some bytes) metadata_size) s of
       Inl e \<Rightarrow> Some (Inl e)
     | Inr (status, s) \<Rightarrow>
         if status \<noteq> kStatus_HAL_FlashSuccess then update_loop bytes s else Some (Inr (status, s)))"

definition Facedb_UpdateMetadata :: "('w, int) fdb_op" where
  "Facedb_UpdateMetadata s = returns (update_loop (encode_metadata (flash_metadata s)) s)"

text \<open>One file is read into its entry of the table; the number of bytes read becomes the entry size of
  the metadata.\<close>

definition load_face :: "u16 \<Rightarrow> ('w, int) fdb_op" where
  "load_face fid s =
    rbind (face_db s) (\<lambda>db.
    let off = FACE_ENTRY s fid; sz = ucast (faceEntrySize (s_OasisMetadata s)) in
    rbind (on_flash (FWK_Flash_Read (Some (Facedb_GeneratePathFromIndex fid)) (Some (drop off db)) 0 (Some sz)) s)
      (\<lambda>((status, buf, sz), s).
    let s = s\<lparr>s_FaceDB := Some (take off db @ the buf),
              s_OasisMetadata := s_OasisMetadata s\<lparr>faceEntrySize := ucast (the sz)\<rparr>\<rparr>
    in Inr (status, s)))"

text \<open>After a load: the slot is in use, or empty where the file is missing, or the loading stops.\<close>

definition loaded_face :: "u16 \<Rightarrow> int \<Rightarrow> 'w facedb \<Rightarrow> 'w facedb" where
  "loaded_face fid status s =
    (if status = kStatus_HAL_FlashSuccess then set_mapping fid (FACE_SAVED OR FACE_IN_USE) s
     else if status = kStatus_HAL_FlashFileNotExist then add_faces (-1) (set_mapping fid FACEDB_SLOT_EMPTY s)
     else s)"

definition load_stops :: "int \<Rightarrow> bool" where
  "load_stops status \<longleftrightarrow> status \<noteq> kStatus_HAL_FlashSuccess \<and> status \<noteq> kStatus_HAL_FlashFileNotExist"

fun load_loop :: "nat \<Rightarrow> u16 \<Rightarrow> int \<Rightarrow> bool \<Rightarrow> ('w, int \<times> bool) fdb_op" where
  "load_loop 0 fid status updateMetadata s = Inr ((status, updateMetadata), s)"
| "load_loop (Suc n) fid status updateMetadata s =
     rbind (mapping_at fid s) (\<lambda>m.
     if has_flag FACE_SAVED m then
       rbind (load_face fid s) (\<lambda>(status, s).
       let updateMetadata = (updateMetadata \<or> status = kStatus_HAL_FlashFileNotExist); s = loaded_face fid status s
       in if load_stops status then Inr ((status, updateMetadata), s)
          else load_loop n (fid + 1) status updateMetadata s)
     else if has_flag FACE_UPDATED m then
       rbind (load_face fid s) (\<lambda>(status, s).
       let s = loaded_face fid status s
       in if load_stops status then Inr ((status, True), s)
          else load_loop n (fid + 1) status True s)
     else if m \<noteq> FACEDB_SLOT_EMPTY then Inr ((kStatus_HAL_FlashFail, updateMetadata), s)
     else load_loop n (fid + 1) status updateMetadata s)"

definition Facedb_Load :: "('w, int) fdb_op" where
  "Facedb_Load s =
    rbind (load_loop MAX_FACE_DB_SIZE 0 kStatus_HAL_FlashSuccess False s) (\<lambda>((status, updateMetadata), s).
    if status = kStatus_HAL_FlashSuccess \<and> updateMetadata
    then rbind (Facedb_UpdateMetadata s) (\<lambda>(_, s). Inr (status, s))
    else Inr (status, s))"

definition Facedb_SaveFace :: "u16 \<Rightarrow> ('w, int) fdb_op" where
  "Facedb_SaveFace fid s =
    rbind (face_db s) (\<lambda>db.
    rbind (on_flash (FWK_Flash_Save (Some (Facedb_GeneratePathFromIndex fid)) (Some (drop (FACE_ENTRY s fid) db))
      (ucast (s_FaceEntrySize s))) s) (\<lambda>(status, s).
    Inr (status, if status = kStatus_HAL_FlashSuccess then set_mapping fid (FACE_IN_USE OR FACE_SAVED) s else s)))"

definition Facedb_DeleteFaceFromFlash :: "u16 \<Rightarrow> ('w, int) fdb_op" where
  "Facedb_DeleteFaceFromFlash fid s =
    rbind (on_flash (FWK_Flash_Rm (Some (Facedb_GeneratePathFromIndex fid))) s) (\<lambda>(status, s).
    rbind (mapping_at fid s) (\<lambda>m.
    Inr (status, if status = kStatus_HAL_FlashSuccess \<or> status = kStatus_HAL_FlashFileNotExist
                 then set_mapping fid ((m AND NOT FACE_SAVED) AND NOT FACE_UPDATED) s else s)))"

text \<open>The RAM part of a deletion: the entry is cleared and the slot is no longer used nor counted.\<close>

definition clear_face :: "u16 \<Rightarrow> u8 \<Rightarrow> 'w facedb \<Rightarrow> 'w facedb outcome" where
  "clear_face fid m s =
    rbind (put_db (FACE_ENTRY s fid) (replicate (unat (s_FaceEntrySize s)) 0) s) (\<lambda>s.
    Inr (add_faces (-1) (set_mapping fid (m AND NOT FACE_IN_USE) s)))"

fun delete_all_loop :: "nat \<Rightarrow> u16 \<Rightarrow> int \<Rightarrow> bool \<Rightarrow> ('w, int \<times> bool) fdb_op" where
  "delete_all_loop 0 fid status updateMetadata s = Inr ((status, updateMetadata), s)"
| "delete_all_loop (Suc n) fid status updateMetadata s =
     rbind (mapping_at fid s) (\<lambda>m.
     if has_flag FACE_IN_USE m then
       rbind (clear_face fid m s) (\<lambda>s.
       if has_flag FACE_SAVED m \<or> has_flag FACE_UPDATED m then
         rbind (Facedb_DeleteFaceFromFlash fid s) (\<lambda>(status, s).
         if status \<noteq> kStatus_HAL_FlashSuccess \<and> status \<noteq> kStatus_HAL_FlashFileNotExist
         then delete_all_loop n (fid + 1) status updateMetadata s
         else delete_all_loop n (fid + 1) status True s)
       else delete_all_loop n (fid + 1) status updateMetadata s)
     else delete_all_loop n (fid + 1) status updateMetadata s)"

definition Facedb_DeleteAllFaces :: "('w, int) fdb_op" where
  "Facedb_DeleteAllFaces s =
    rbind (delete_all_loop MAX_FACE_DB_SIZE 0 kStatus_HAL_FlashSuccess False s) (\<lambda>((status, updateMetadata), s).
    rbind (if numberFaces (s_OasisMetadata s) \<noteq> 0 \<or> status \<noteq> kStatus_HAL_FlashSuccess
           then rbind (Facedb_SetFaceDataDefault s) (\<lambda>s. Inr (True, Facedb_SetMetaDataDefault s))
           else Inr (updateMetadata, s)) (\<lambda>(updateMetadata, s).
    if status = kStatus_HAL_FlashSuccess \<and> updateMetadata then Facedb_UpdateMetadata s else Inr (status, s)))"

definition Facedb_DeleteFace :: "u16 \<Rightarrow> ('w, int) fdb_op" where
  "Facedb_DeleteFace fid s =
    rbind (mapping_at fid s) (\<lambda>m.
    if has_flag FACE_IN_USE m then
      rbind (clear_face fid m s) (\<lambda>s.
      if has_flag FACE_SAVED m \<or> has_flag FACE_UPDATED m then
        rbind (Facedb_DeleteFaceFromFlash fid s) (\<lambda>(status, s).
        if status \<noteq> kStatus_HAL_FlashSuccess \<and> status \<noteq> kStatus_HAL_FlashFileNotExist
        then Inr (kStatus_HAL_FlashFail, s) else Facedb_UpdateMetadata s)
      else Inr (kStatus_HAL_FlashSuccess, s))
    else Inr (kStatus_HAL_FlashSuccess, s))"

text \<open>\<open>strcmp\<close> of a string with the characters in a buffer; reading on behind the buffer has no
  defined behaviour.\<close>

fun c_streq :: "u8 list \<Rightarrow> u8 list \<Rightarrow> bool outcome" where
  "c_streq xs [] = Inl MemFault"
| "c_streq [] (y # ys) = Inr (y = 0)"
| "c_streq (x # xs) (y # ys) = (if x = y then c_streq xs ys else Inr False)"

fun find_name :: "u8 list \<Rightarrow> nat \<Rightarrow> u16 \<Rightarrow> 'w facedb \<Rightarrow> (int \<times> u16) outcome" where
  "find_name name 0 fid s = Inr (kFaceDBStatus_Failed, INVALID_ID)"
| "find_name name (Suc n) fid s =
     rbind (face_db s) (\<lambda>db.
     rbind (c_streq name (drop (FACE_ENTRY s fid) db)) (\<lambda>eq.
     if eq then Inr (kFaceDBStatus_Success, fid) else find_name name n (fid + 1) s))"

definition Facedb_GetIdFromName :: "u8 list \<Rightarrow> 'w facedb \<Rightarrow> (int \<times> u16) outcome" where
  "Facedb_GetIdFromName name = find_name name MAX_FACE_DB_SIZE 0"

section \<open>Operations\<close>

text \<open>The frame of the operations: the checks, the mutex, the body, the release of the mutex; \<open>out\<close>
  is what the caller gets when the body is not run.\<close>

definition fdb_enter :: "bool \<Rightarrow> ('w, int) fdb_op" where
  "fdb_enter wrong s =
    (if s_FaceDB s = None \<or> s_FaceDBLock s = None then Inr (kFaceDBStatus_NotInit, s)
     else if wrong then Inr (kFaceDBStatus_WrongParam, s)
     else Facedb_Lock s)"

definition fdb_locked :: "bool \<Rightarrow> (int \<Rightarrow> 'r) \<Rightarrow> ('w, 'r) fdb_op \<Rightarrow> ('w, 'r) fdb_op" where
  "fdb_locked wrong out body s =
    rbind (fdb_enter wrong s) (\<lambda>(ret, s).
    if ret = kFaceDBStatus_Success then rbind (body s) (\<lambda>(r, s). Inr (r, Facedb_Unlock s))
    else Inr (out ret, s))"

definition flash_to_status :: "int \<Rightarrow> int" where
  "flash_to_status status = (if status = kStatus_HAL_FlashSuccess then kFaceDBStatus_Success else kFaceDBStatus_Failed)"

definition Facedb_Init :: "('w, int) fdb_op" where
  "Facedb_Init s =
    rbind (on_flash (FWK_Flash_Mkdir (Some OASIS_FACE_DB_DIR)) s) (\<lambda>(status, s).
    rbind (if status = kStatus_HAL_FlashDirExist then
        rbind (on_flash (FWK_Flash_Read (Some METADATA_FILE_NAME) (Some (encode_metadata (s_OasisMetadata s))) 0
          (Some metadata_size)) s) (\<lambda>((status, buf, _), s).
        let s = s\<lparr>s_OasisMetadata := decode_metadata (the buf)\<rparr>; m = s_OasisMetadata s in
        if status = kStatus_HAL_FlashSuccess then
          if featureVersion m \<noteq> FEATURE_VERSION \<or> modelVersion m \<noteq> MODEL_VERSION then
            rbind (Facedb_DeleteAllFaces s) (\<lambda>(_, s).
            let s = Facedb_SetMetaDataDefault s in
            rbind (on_flash (FWK_Flash_Save (Some METADATA_FILE_NAME) (Some (encode_metadata (s_OasisMetadata s)))
              metadata_size) s) (\<lambda>(_, s). Inr (kFaceDBStatus_Success, s)))
          else if s_FaceEntrySize s < faceEntrySize m then Inr (kFaceDBStatus_NotEnoughMemory, s)
          else rbind (Facedb_Load s) (\<lambda>(status, s). Inr (flash_to_status status, s))
        else Inr (kFaceDBStatus_Failed, s))
      else if status = kStatus_HAL_FlashSuccess then
        let s = Facedb_SetMetaDataDefault s in
        rbind (on_flash (FWK_Flash_Save (Some METADATA_FILE_NAME) (Some (encode_metadata (s_OasisMetadata s)))
          metadata_size) s) (\<lambda>(_, s). Inr (kFaceDBStatus_Success, s))
      else Inr (kFaceDBStatus_Failed, s)) (\<lambda>(ret, s).
    Inr (ret, s\<lparr>s_OasisMetadata := s_OasisMetadata s\<lparr>faceEntrySize := s_FaceEntrySize s\<rparr>\<rparr>)))"

definition alloc_db :: "os_if \<Rightarrow> u16 \<Rightarrow> 'w facedb \<Rightarrow> int \<times> 'w facedb" where
  "alloc_db A featureSize s =
    (if s_FaceDB s \<noteq> None then (kFaceDBStatus_Success, s)
     else if featureSize = 0 then (kFaceDBStatus_NotEnoughMemory, s)
     else
       let n = (ucast featureSize + of_nat facedb_entry_t) * of_nat MAX_FACE_DB_SIZE;
           block = heap_block A (fdb_calls s) (unat n)
       in (if block = None then kFaceDBStatus_NotEnoughMemory else kFaceDBStatus_Success,
           s\<lparr>s_FaceDBSize := n, s_FaceDB := block, fdb_calls := fdb_calls s + 1,
             s_FaceEntrySize := featureSize + of_nat facedb_entry_t\<rparr>))"

definition HAL_Facedb_Init :: "os_if \<Rightarrow> u16 \<Rightarrow> ('w, int) fdb_op" where
  "HAL_Facedb_Init A featureSize s =
    (case alloc_db A featureSize s of (status, s) \<Rightarrow>
     let (status, s) =
       (if status = kFaceDBStatus_Success \<and> s_FaceDBLock s = None then
          if sem_ok A (fdb_calls s) then (status, s\<lparr>s_FaceDBLock := Some False, fdb_calls := fdb_calls s + 1\<rparr>)
          else (kFaceDBStatus_NotEnoughMemory, s\<lparr>s_FaceDB := None, fdb_calls := fdb_calls s + 1\<rparr>)
        else (status, s))
     in if status = kFaceDBStatus_Success then Facedb_Init s else Inr (status, s))"

definition HAL_Facedb_GetCount :: "'w facedb \<Rightarrow> int" where
  "HAL_Facedb_GetCount s = uint (numberFaces (s_OasisMetadata s))"

text \<open>The status of the last save decides; the mutex is not released.\<close>

fun save_loop :: "nat \<Rightarrow> u16 \<Rightarrow> int \<Rightarrow> bool \<Rightarrow> ('w, int \<times> bool) fdb_op" where
  "save_loop 0 fid status updateMetadata s = Inr ((status, updateMetadata), s)"
| "save_loop (Suc n) fid status updateMetadata s =
     rbind (mapping_at fid s) (\<lambda>m.
     if has_flag FACE_IN_USE m \<and> \<not> has_flag FACE_SAVED m then
       rbind (Facedb_SaveFace fid s) (\<lambda>(status, s).
       save_loop n (fid + 1) status (updateMetadata \<or> status = kStatus_HAL_FlashSuccess) s)
     else save_loop n (fid + 1) status updateMetadata s)"

definition HAL_Facedb_SaveFace :: "('w, int) fdb_op" where
  "HAL_Facedb_SaveFace s =
    rbind (fdb_enter False s) (\<lambda>(ret, s).
    if ret \<noteq> kFaceDBStatus_Success then Inr (ret, s)
    else
      rbind (save_loop MAX_FACE_DB_SIZE 0 kStatus_HAL_FlashSuccess False s) (\<lambda>((status, updateMetadata), s).
      rbind (if status = kStatus_HAL_FlashSuccess \<and> updateMetadata then Facedb_UpdateMetadata s
             else Inr (status, s)) (\<lambda>(status, s).
      Inr (flash_to_status status, s))))"

text \<open>\<open>sprintf\<close> of the default name, and the NUL that is put behind it.\<close>

definition default_name :: "u16 \<Rightarrow> u8 list" where
  "default_name fid = (let ds = digits (unat fid) in [117, 115, 101, 114, 95] @ replicate (3 - length ds) 48 @ ds)"

definition put_name :: "u16 \<Rightarrow> u8 list option \<Rightarrow> 'w facedb \<Rightarrow> 'w facedb outcome" where
  "put_name fid name s =
    (case name of Some name \<Rightarrow> put_db (FACE_ENTRY s fid) (name @ [0]) s
     | None \<Rightarrow>
       rbind (put_db (FACE_ENTRY s fid) (default_name fid @ [0]) s) (\<lambda>s.
       put_db (FACE_ENTRY s fid + (FACE_NAME_MAX_LEN - 1)) [0] s))"

text \<open>A negative size is converted to a size that no buffer has.\<close>

definition put_feature :: "u16 \<Rightarrow> u8 list \<Rightarrow> int \<Rightarrow> 'w facedb \<Rightarrow> 'w facedb outcome" where
  "put_feature fid face sz s =
    (if sz < 0 then Inl MemFault
     else rbind (load_at 0 (nat sz) face) (\<lambda>bytes. put_db (FACE_ENTRY s fid + facedb_entry_t) bytes s))"

definition HAL_Facedb_AddFace :: "u16 \<Rightarrow> u8 list option \<Rightarrow> u8 list option \<Rightarrow> int \<Rightarrow> ('w, int) fdb_op" where
  "HAL_Facedb_AddFace fid name face sz s =
    fdb_locked (uint (s_FaceEntrySize s) \<le> sz \<or> MAX_FACE_DB_SIZE \<le> unat fid \<or> face = None) (\<lambda>ret. ret) (\<lambda>s.
      rbind (mapping_at fid s) (\<lambda>m.
      if \<not> has_flag FACE_IN_USE m then
        rbind (put_name fid name s) (\<lambda>s.
        rbind (put_feature fid (the face) sz s) (\<lambda>s.
        let s = add_faces 1 (set_mapping fid FACE_IN_USE s) in
        rbind (Facedb_SaveFace fid s) (\<lambda>(status, s).
        if status = kStatus_HAL_FlashSuccess
        then rbind (Facedb_UpdateMetadata s) (\<lambda>(_, s). Inr (kFaceDBStatus_Success, s))
        else Inr (kFaceDBStatus_Failed, s))))
      else Inr (kFaceDBStatus_Success, s))) s"

definition HAL_Facedb_DelFaceWithName :: "u8 list option \<Rightarrow> ('w, int) fdb_op" where
  "HAL_Facedb_DelFaceWithName name =
    fdb_locked (name = None) (\<lambda>ret. ret) (\<lambda>s.
      rbind (Facedb_GetIdFromName (the name) s) (\<lambda>(_, fid).
      if fid \<noteq> INVALID_ID
      then rbind (Facedb_DeleteFace fid s) (\<lambda>(status, s). Inr (flash_to_status status, s))
      else Inr (kFaceDBStatus_Success, s)))"

definition HAL_Facedb_DelFaceWithID :: "u16 \<Rightarrow> ('w, int) fdb_op" where
  "HAL_Facedb_DelFaceWithID fid =
    fdb_locked False (\<lambda>ret. ret) (\<lambda>s.
      if fid = INVALID_ID then rbind (Facedb_DeleteAllFaces s) (\<lambda>(status, s). Inr (flash_to_status status, s))
      else if MAX_FACE_DB_SIZE \<le> unat fid then Inr (kFaceDBStatus_WrongID, s)
      else rbind (mapping_at fid s) (\<lambda>m.
        if has_flag FACE_IN_USE m
        then rbind (Facedb_DeleteFace fid s) (\<lambda>(status, s). Inr (flash_to_status status, s))
        else Inr (kFaceDBStatus_Success, s)))"

text \<open>The identifiers of the used slots, in order, are stored in the array of the caller.\<close>

definition used_ids :: "'w facedb \<Rightarrow> u16 list" where
  "used_ids s = map of_nat (filter (\<lambda>i. has_flag FACE_IN_USE (faceMapping (s_OasisMetadata s) ! i)) [0..<MAX_FACE_DB_SIZE])"

definition HAL_Facedb_GetIds :: "u16 list option \<Rightarrow> ('w, int \<times> u16 list option) fdb_op" where
  "HAL_Facedb_GetIds face_ids =
    fdb_locked (face_ids = None) (\<lambda>ret. (ret, face_ids)) (\<lambda>s.
      rbind (store_at 0 (used_ids s) (the face_ids)) (\<lambda>ids. Inr ((kFaceDBStatus_Success, Some ids), s)))"

definition HAL_Facedb_GetIdsAndFaces ::
    "u16 list option \<Rightarrow> nat option list option \<Rightarrow> ('w, int \<times> u16 list option \<times> nat option list option) fdb_op" where
  "HAL_Facedb_GetIdsAndFaces face_ids pFace =
    fdb_locked (face_ids = None \<or> pFace = None) (\<lambda>ret. (ret, face_ids, pFace)) (\<lambda>s.
      rbind (store_at 0 (used_ids s) (the face_ids)) (\<lambda>ids.
      rbind (store_at 0 (map (\<lambda>i. Some (FACE_ENTRY s i + facedb_entry_t)) (used_ids s)) (the pFace)) (\<lambda>faces.
      Inr ((kFaceDBStatus_Success, Some ids, Some faces), s))))"

text \<open>What the caller's pointer holds after the call is the second part of the result.\<close>

definition HAL_Facedb_GetFace :: "u16 \<Rightarrow> nat option option \<Rightarrow> ('w, int \<times> nat option option) fdb_op" where
  "HAL_Facedb_GetFace fid pFace =
    fdb_locked (pFace = None) (\<lambda>ret. (ret, pFace)) (\<lambda>s.
      if MAX_FACE_DB_SIZE \<le> unat fid then Inr ((kFaceDBStatus_WrongID, Some None), s)
      else rbind (mapping_at fid s) (\<lambda>m.
        if has_flag FACE_IN_USE m
        then Inr ((kFaceDBStatus_Success, Some (Some (FACE_ENTRY s fid + facedb_entry_t))), s)
        else Inr ((kFaceDBStatus_Failed, Some None), s)))"

definition unsaved :: "u8 \<Rightarrow> bool" where
  "unsaved m \<longleftrightarrow> has_flag FACE_IN_USE m \<and> \<not> has_flag FACE_SAVED m"

definition HAL_Facedb_GetSaveStatus :: "u16 \<Rightarrow> 'w facedb \<Rightarrow> bool" where
  "HAL_Facedb_GetSaveStatus fid s =
    (let mapping = faceMapping (s_OasisMetadata s) in
     if unat fid < MAX_FACE_DB_SIZE \<or> fid = INVALID_ID then
       if fid = INVALID_ID then \<not> list_ex (\<lambda>i. unsaved (mapping ! i)) [0..<MAX_FACE_DB_SIZE]
       else \<not> unsaved (mapping ! unat fid)
     else False)"

definition HAL_Facedb_GetName :: "u16 \<Rightarrow> ('w, nat option) fdb_op" where
  "HAL_Facedb_GetName fid =
    fdb_locked (MAX_FACE_DB_SIZE \<le> unat fid) (\<lambda>_. None) (\<lambda>s.
      rbind (mapping_at fid s) (\<lambda>m.
      Inr (if has_flag FACE_IN_USE m then Some (FACE_ENTRY s fid) else None, s)))"

text \<open>The check joins the two conditions with an and, so an identifier out of range or a NULL name gets
  through alone.\<close>

definition HAL_Facedb_UpdateName :: "u16 \<Rightarrow> u8 list option \<Rightarrow> ('w, int) fdb_op" where
  "HAL_Facedb_UpdateName fid name =
    fdb_locked (MAX_FACE_DB_SIZE \<le> unat fid \<and> name = None) (\<lambda>ret. ret) (\<lambda>s.
      rbind (mapping_at fid s) (\<lambda>m.
      if has_flag FACE_IN_USE m then
        (case name of None \<Rightarrow> Inl MemFault
         | Some name \<Rightarrow>
           let nameSize = (if FACE_NAME_MAX_LEN < length name then FACE_NAME_MAX_LEN + 1 else length name + 1) in
           rbind (load_at 0 nameSize (name @ [0])) (\<lambda>bytes.
           rbind (put_db (FACE_ENTRY s fid) bytes s) (\<lambda>s.
           rbind (Facedb_SaveFace fid s) (\<lambda>(_, s). Inr (kFaceDBStatus_Success, s)))))
      else Inr (kFaceDBStatus_Success, s)))"

definition HAL_Facedb_UpdateFace :: "u16 \<Rightarrow> u8 list option \<Rightarrow> u8 list option \<Rightarrow> int \<Rightarrow> ('w, int) fdb_op" where
  "HAL_Facedb_UpdateFace fid name face sz s =
    fdb_locked (uint (s_FaceEntrySize s) \<le> sz \<or> MAX_FACE_DB_SIZE \<le> unat fid \<or> face = None \<or> name = None)
      (\<lambda>ret. ret) (\<lambda>s.
      rbind (mapping_at fid s) (\<lambda>m.
      if has_flag FACE_IN_USE m then
        rbind (put_name fid name s) (\<lambda>s.
        rbind (put_feature fid (the face) sz s) (\<lambda>s.
        rbind (Facedb_SaveFace fid s) (\<lambda>(_, s). Inr (kFaceDBStatus_Success, s))))
      else Inr (kFaceDBStatus_Success, s))) s"

definition HAL_Facedb_GenId :: "u16 option \<Rightarrow> ('w, int \<times> u16 option) fdb_op" where
  "HAL_Facedb_GenId new_id =
    fdb_locked (new_id = None) (\<lambda>ret. (ret, new_id)) (\<lambda>s.
      let m = s_OasisMetadata s in
      if numberFaces m = of_nat MAX_FACE_DB_SIZE then Inr ((kFaceDBStatus_Full, Some INVALID_ID), s)
      else case find (\<lambda>i. \<not> has_flag FACE_IN_USE (faceMapping m ! i)) [0..<MAX_FACE_DB_SIZE] of
          None \<Rightarrow> Inr ((kFaceDBStatus_Success, Some INVALID_ID), s)
        | Some i \<Rightarrow> Inr ((kFaceDBStatus_Success, Some (of_nat i)), s))"

definition HAL_Facedb_GetIdWithName :: "u8 list option \<Rightarrow> u16 option \<Rightarrow> 'w facedb \<Rightarrow> (int \<times> u16) outcome" where
  "HAL_Facedb_GetIdWithName name pId s =
    (case (name, pId) of (Some name, Some _) \<Rightarrow> Facedb_GetIdFromName name s | _ \<Rightarrow> Inl MemFault)"

end
