(* ===== verification/Facedb_Spec.thy ===== *)
theory Facedb_Spec
  imports Facedb
begin

text \<open>
  The face database as a finite map from slots to entries, and the invariant of its RAM part: the table
  and the slot map have their sizes, and the number of faces is the number of used slots. Every
  operation that returns keeps it, on any flash device, whatever the device answers. The slot map is
  the second instance of the interface of flag words.
\<close>

section \<open>Flags of a slot\<close>

definition slot_get :: "u8 \<Rightarrow> u8 \<Rightarrow> bool" where
  "slot_get f w = has_flag f w"

definition slot_put :: "u8 \<Rightarrow> bool \<Rightarrow> u8 \<Rightarrow> u8" where
  "slot_put f v w = (if v then w OR f else w AND NOT f)"

definition one_bit :: "u8 \<Rightarrow> bool" where
  "one_bit f \<longleftrightarrow> (\<exists>k<8. f = push_bit k 1)"

lemma has_flag_bit: "k < 8 \<Longrightarrow> has_flag (push_bit k 1) w = bit w k"
proof -
  assume k: "k < 8"
  have "w AND push_bit k 1 = (if bit w k then push_bit k 1 else 0)"
    by (rule bit_word_eqI) (auto simp: bit_simps)
  moreover have "push_bit k (1 :: u8) \<noteq> 0"
  proof
    assume "push_bit k (1 :: u8) = 0"
    then have "bit (push_bit k (1 :: u8)) k = bit (0 :: u8) k" by (rule arg_cong)
    then show False using k by (auto simp only: bit_push_bit_iff) (simp_all add: bit_simps)
  qed
  ultimately show ?thesis by (auto simp: has_flag_def split: if_splits)
qed

interpretation slot: flag_word slot_get slot_put one_bit "\<lambda>f g. f AND g = 0 \<and> one_bit g"
proof
  fix f v w assume "one_bit f"
  then obtain k where "k < 8" "f = push_bit k 1" by (auto simp: one_bit_def)
  then show "slot_get f (slot_put f v w) = v"
    by (simp only: slot_get_def has_flag_bit) (auto simp: slot_put_def bit_simps)
next
  fix f g v w assume a: "f AND g = 0 \<and> one_bit (g :: u8)"
  then obtain k where k: "k < 8" "g = push_bit k 1" by (auto simp: one_bit_def)
  have "\<not> bit (f AND g) k" using a by simp
  then have "\<not> bit f k" using k by (auto simp: bit_simps)
  then show "slot_get g (slot_put f v w) = slot_get g w"
    using k by (simp only: slot_get_def has_flag_bit) (auto simp: slot_put_def bit_simps)
next
  fix f v u w
  show "slot_put f v (slot_put f u w) = slot_put f v w"
    by (auto simp: slot_put_def intro!: bit_word_eqI) (auto simp: bit_simps)
qed

lemma slot_bits [simp]: "one_bit FACE_IN_USE" "one_bit FACE_SAVED" "one_bit FACE_UPDATED"
proof -
  have bits: "one_bit (push_bit k 1)" if "k < 8" for k using that by (auto simp: one_bit_def)
  show "one_bit FACE_IN_USE" "one_bit FACE_SAVED" "one_bit FACE_UPDATED"
    using bits [of 2] bits [of 0] bits [of 1]
    unfolding FACE_IN_USE_def FACE_SAVED_def FACE_UPDATED_def by simp_all
qed

lemmas slot_defs = FACE_IN_USE_def FACE_SAVED_def FACE_UPDATED_def FACEDB_SLOT_EMPTY_def

lemma slots_apart: "FACE_SAVED AND FACE_IN_USE = 0" "FACE_UPDATED AND FACE_IN_USE = 0"
  by (simp_all add: slot_defs)

text \<open>The code writes the values of a slot in these ways.\<close>

lemma slot_values [simp]:
  "has_flag FACE_IN_USE FACE_IN_USE" "has_flag FACE_IN_USE (FACE_IN_USE OR FACE_SAVED)"
  "has_flag FACE_IN_USE (FACE_SAVED OR FACE_IN_USE)" "\<not> has_flag FACE_IN_USE FACEDB_SLOT_EMPTY"
  "has_flag FACE_SAVED (FACE_IN_USE OR FACE_SAVED)" "\<not> has_flag FACE_SAVED FACE_IN_USE"
  by (simp_all add: has_flag_def slot_defs)

lemma used_after_clear [simp]:
  "\<not> has_flag FACE_IN_USE (m AND NOT FACE_IN_USE)"
  "has_flag FACE_IN_USE ((m AND NOT FACE_SAVED) AND NOT FACE_UPDATED) = has_flag FACE_IN_USE m"
  using slot.get_put_same [of FACE_IN_USE False m]
    slot.get_put_apart [of FACE_UPDATED FACE_IN_USE False "m AND NOT FACE_SAVED"]
    slot.get_put_apart [of FACE_SAVED FACE_IN_USE False m]
  by (simp_all add: slot_get_def slot_put_def slots_apart)

section \<open>The invariant of the RAM part\<close>

definition used :: "'w facedb \<Rightarrow> nat set" where
  "used s = {i. i < 100 \<and> has_flag FACE_IN_USE (faceMapping (s_OasisMetadata s) ! i)}"

definition fdb_wf :: "'w facedb \<Rightarrow> bool" where
  "fdb_wf s \<longleftrightarrow> length (faceMapping (s_OasisMetadata s)) = 100 \<and>
     unat (numberFaces (s_OasisMetadata s)) = card (used s) \<and>
     (\<forall>db. s_FaceDB s = Some db \<longrightarrow> 100 * unat (s_FaceEntrySize s) \<le> length db)"

lemma used_le: "card (used s) \<le> 100" "finite (used s)"
proof -
  have "used s \<subseteq> {..<100}" by (auto simp: used_def)
  from card_mono [OF _ this] show "card (used s) \<le> 100" by simp
  show "finite (used s)" by (simp add: used_def)
qed

lemma free_slot: "card (used s) \<noteq> 100 \<Longrightarrow> \<exists>i<100. i \<notin> used s"
proof (rule ccontr)
  assume c: "card (used s) \<noteq> 100" and "\<not> (\<exists>i<100. i \<notin> used s)"
  then have "used s = {..<100}" by (auto simp: used_def)
  then show False using c by simp
qed

lemma mapping_at_Inr: "mapping_at fid s = Inr m \<longleftrightarrow> unat fid < 100 \<and> m = faceMapping (s_OasisMetadata s) ! unat fid"
  by (auto simp: mapping_at_def)

lemma used_iff: "mapping_at fid s = Inr m \<Longrightarrow> has_flag FACE_IN_USE m \<longleftrightarrow> unat fid \<in> used s"
  by (auto simp: mapping_at_Inr used_def)

lemma used_set_mapping:
  assumes "length (faceMapping (s_OasisMetadata s)) = 100" and "unat fid < 100"
  shows "used (set_mapping fid v s) =
    (if has_flag FACE_IN_USE v then insert (unat fid) (used s) else used s - {unat fid})"
  using assms by (auto simp: used_def set_mapping_def nth_list_update)

lemma used_simps [simp]:
  "used (add_faces n s) = used s" "used (s\<lparr>fdb_flash := w\<rparr>) = used s" "used (s\<lparr>s_FaceDB := d\<rparr>) = used s"
  "used (s\<lparr>s_FaceDBLock := l\<rparr>) = used s"
  by (simp_all add: used_def add_faces_def)

lemma fdb_wf_simps [simp]:
  "fdb_wf (s\<lparr>fdb_flash := w\<rparr>) = fdb_wf s" "fdb_wf (s\<lparr>s_FaceDBLock := l\<rparr>) = fdb_wf s"
  by (simp_all add: fdb_wf_def)

lemma wf_unlock [simp]: "fdb_wf (Facedb_Unlock s) = fdb_wf s"
  by (simp add: Facedb_Unlock_def split: option.split)

lemma wf_put_db: "put_db off bytes s = Inr s' \<Longrightarrow> fdb_wf s \<Longrightarrow>
    fdb_wf s' \<and> s_OasisMetadata s' = s_OasisMetadata s \<and> used s' = used s \<and> fdb_flash s' = fdb_flash s"
  by (auto simp: put_db_def face_db_def fdb_wf_def rbind_Inr_iff used_def split: option.splits dest!: store_at_length)

text \<open>The three ways a slot changes together with the number of faces.\<close>

lemma wf_take_slot:
  assumes "fdb_wf s" and "unat fid < 100" and "unat fid \<notin> used s"
  shows "fdb_wf (add_faces 1 (set_mapping fid FACE_IN_USE s))"
    and "used (add_faces 1 (set_mapping fid FACE_IN_USE s)) = insert (unat fid) (used s)"
proof -
  have len: "length (faceMapping (s_OasisMetadata s)) = 100" using assms(1) by (simp add: fdb_wf_def)
  show u: "used (add_faces 1 (set_mapping fid FACE_IN_USE s)) = insert (unat fid) (used s)"
    by (simp only: used_simps used_set_mapping [OF len assms(2)] slot_values if_True)
  have "insert (unat fid) (used s) \<subseteq> {..<100}" using assms(2) by (auto simp: used_def)
  from card_mono [OF _ this] have "card (used s) < 100" using assms(3) used_le(2) [of s] by simp
  then have "unat (numberFaces (s_OasisMetadata s) + 1) = card (used s) + 1"
    using assms(1) by (simp add: fdb_wf_def unat_word_ariths)
  then show "fdb_wf (add_faces 1 (set_mapping fid FACE_IN_USE s))"
    using assms used_le(2) [of s] u by (simp add: fdb_wf_def add_faces_def set_mapping_def)
qed

lemma wf_free_slot:
  assumes "fdb_wf s" and "unat fid < 100" and "unat fid \<in> used s" and "\<not> has_flag FACE_IN_USE v"
  shows "fdb_wf (add_faces (-1) (set_mapping fid v s))"
    and "used (add_faces (-1) (set_mapping fid v s)) = used s - {unat fid}"
proof -
  have len: "length (faceMapping (s_OasisMetadata s)) = 100" using assms(1) by (simp add: fdb_wf_def)
  show u: "used (add_faces (-1) (set_mapping fid v s)) = used s - {unat fid}"
    using assms(4) by (simp only: used_simps used_set_mapping [OF len assms(2)] if_False)
  have c: "0 < card (used s)" using assms(3) used_le(2) [of s] by (auto simp: card_gt_0_iff)
  then have n: "(1 :: u16) \<le> numberFaces (s_OasisMetadata s)" using assms(1) by (simp add: fdb_wf_def word_le_nat_alt)
  then have "unat (numberFaces (s_OasisMetadata s) - 1) = card (used s) - 1"
    using assms(1) by (simp add: fdb_wf_def unat_sub_le)
  then show "fdb_wf (add_faces (-1) (set_mapping fid v s))"
    using assms(1,3) used_le(2) [of s] u by (simp add: fdb_wf_def add_faces_def set_mapping_def)
qed

lemma wf_keep_slot:
  assumes "fdb_wf s" and "unat fid < 100" and "has_flag FACE_IN_USE v = (unat fid \<in> used s)"
  shows "fdb_wf (set_mapping fid v s)" and "used (set_mapping fid v s) = used s"
proof -
  have len: "length (faceMapping (s_OasisMetadata s)) = 100" using assms(1) by (simp add: fdb_wf_def)
  show u: "used (set_mapping fid v s) = used s"
    using assms(3) by (auto simp: used_set_mapping [OF len assms(2)])
  then show "fdb_wf (set_mapping fid v s)" using assms(1) by (simp add: fdb_wf_def set_mapping_def)
qed

section \<open>Every operation keeps the invariant\<close>

definition wf_used :: "u16 \<Rightarrow> 'w facedb \<Rightarrow> bool" where
  "wf_used fid s \<longleftrightarrow> fdb_wf s \<and> unat fid \<in> used s"

lemma wf_used_wf: "wf_used fid s \<Longrightarrow> fdb_wf s"
  by (simp add: wf_used_def)

lemma always_mono: "always P m \<Longrightarrow> (\<And>s. P s \<Longrightarrow> Q s) \<Longrightarrow> always Q m"
  by (auto simp: always_def)

lemma always_then:
  "always P m \<Longrightarrow> (\<And>r s. P s \<Longrightarrow> always Q (f r s)) \<Longrightarrow> always Q (rbind m (\<lambda>(r, s). f r s))"
  by (auto simp: always_def rbind_Inr_iff)

lemma always_put_db [always_intros]:
  assumes "fdb_wf s" and "\<And>s'. fdb_wf s' \<Longrightarrow> used s' = used s \<Longrightarrow> always Q (f s')"
  shows "always Q (rbind (put_db off bytes s) f)"
proof (cases "put_db off bytes s")
  case (Inr s')
  then show ?thesis using wf_put_db [OF Inr assms(1)] assms(2) [of s'] by simp
qed (simp add: always_Inl)

lemma always_mapping [always_intros]:
  assumes "\<And>m. unat fid < 100 \<Longrightarrow> has_flag FACE_IN_USE m = (unat fid \<in> used s) \<Longrightarrow> always Q (f m)"
  shows "always Q (rbind (mapping_at fid s) f)"
proof (cases "mapping_at fid s")
  case (Inr m)
  then have "always Q (f m)" using assms [of m] used_iff [OF Inr] by (simp add: mapping_at_Inr)
  then show ?thesis using Inr by simp
qed (simp add: always_Inl)

lemmas always_face_db [always_intros] = always_rbind_pure [where m = "face_db s" for s]
lemmas always_find [always_intros] = always_rbind_pure [where m = "Facedb_GetIdFromName name s" for name s]

lemma on_flash_wf [always_intros]:
  "fdb_wf s \<Longrightarrow> always fdb_wf (on_flash f s)" "wf_used fid s \<Longrightarrow> always (wf_used fid) (on_flash f s)"
  by (auto simp: on_flash_def always_def rbind_Inr_iff wf_used_def)

lemma update_loop_frame:
  assumes "update_loop bytes s = Some r"
  shows "\<forall>st s'. r = Inr (st, s') \<longrightarrow> st = kStatus_HAL_FlashSuccess \<and> (\<exists>w. s' = s\<lparr>fdb_flash := w\<rparr>)"
proof (rule update_loop.raw_induct [OF _ assms])
  fix loop bytes s r
  assume IH: "\<And>bytes s r. loop bytes s = Some r \<Longrightarrow>
      \<forall>st s'. r = Inr (st, s') \<longrightarrow> st = kStatus_HAL_FlashSuccess \<and> (\<exists>w. s' = s\<lparr>fdb_flash := w\<rparr>)"
    and eq: "(case on_flash (FWK_Flash_Save (Some METADATA_FILE_NAME) (Some bytes) metadata_size) s of
       Inl e \<Rightarrow> Some (Inl e)
     | Inr (status, s) \<Rightarrow>
         if status \<noteq> kStatus_HAL_FlashSuccess then loop bytes s else Some (Inr (status, s))) = Some r"
  show "\<forall>st s'. r = Inr (st, s') \<longrightarrow> st = kStatus_HAL_FlashSuccess \<and> (\<exists>w. s' = s\<lparr>fdb_flash := w\<rparr>)"
  proof (cases "on_flash (FWK_Flash_Save (Some METADATA_FILE_NAME) (Some bytes) metadata_size) s")
    case (Inl e)
    then show ?thesis using eq by auto
  next
    case (Inr c)
    obtain st s1 where c: "c = (st, s1)" by (cases c)
    obtain w where s1: "s1 = s\<lparr>fdb_flash := w\<rparr>" using Inr c by (auto simp: on_flash_def rbind_Inr_iff)
    show ?thesis
    proof (cases "st = kStatus_HAL_FlashSuccess")
      case True
      then show ?thesis using eq Inr c s1 by auto
    next
      case False
      then have "loop bytes s1 = Some r" using eq Inr c by simp
      from IH [OF this] s1 show ?thesis by auto
    qed
  qed
qed

lemma update_metadata_frame:
  assumes "Facedb_UpdateMetadata s = Inr (st, s')"
  shows "st = kStatus_HAL_FlashSuccess \<and> (\<exists>w. s' = s\<lparr>fdb_flash := w\<rparr>)"
proof (cases "update_loop (encode_metadata (flash_metadata s)) s")
  case (Some r)
  then show ?thesis using assms update_loop_frame [OF Some] by (simp add: Facedb_UpdateMetadata_def)
qed (use assms in \<open>simp add: Facedb_UpdateMetadata_def\<close>)

lemma update_metadata_wf [always_intros]: "fdb_wf s \<Longrightarrow> always fdb_wf (Facedb_UpdateMetadata s)"
  using update_metadata_frame [of s] by (fastforce simp: always_def)

lemma save_face_wf [always_intros]:
  assumes "wf_used fid s"
  shows "always (wf_used fid) (Facedb_SaveFace fid s)"
proof -
  have "wf_used fid (set_mapping fid (FACE_IN_USE OR FACE_SAVED) s1)" if "wf_used fid s1" for s1 :: "'a facedb"
    using that wf_keep_slot [of s1 fid "FACE_IN_USE OR FACE_SAVED"] by (auto simp: wf_used_def used_def)
  then show ?thesis using assms unfolding Facedb_SaveFace_def
    by (intro always_face_db always_then [OF on_flash_wf(2)]) (auto intro: always_Inr)
qed

lemma delete_file_wf [always_intros]:
  assumes "fdb_wf s"
  shows "always fdb_wf (Facedb_DeleteFaceFromFlash fid s)"
  unfolding Facedb_DeleteFaceFromFlash_def
  using assms by (intro always_intros always_then [OF on_flash_wf(1)]) (auto intro: wf_keep_slot)

lemma always_clear_face:
  assumes "fdb_wf s" and "unat fid \<in> used s" and "\<And>s'. fdb_wf s' \<Longrightarrow> always Q (f s')"
  shows "always Q (rbind (clear_face fid m s) f)"
proof -
  have "unat fid < 100" using assms(2) by (simp add: used_def)
  then show ?thesis using assms wf_free_slot(1) [of _ fid "m AND NOT FACE_IN_USE"]
    unfolding clear_face_def rbind_assoc by (intro always_put_db) auto
qed

lemma wf_defaults: "length (faceMapping (s_OasisMetadata s)) = 100 \<Longrightarrow>
    \<forall>db. s_FaceDB s = Some db \<longrightarrow> 100 * unat (s_FaceEntrySize s) \<le> length db \<Longrightarrow> fdb_wf (Facedb_SetMetaDataDefault s)"
  by (auto simp: fdb_wf_def Facedb_SetMetaDataDefault_def used_def)

lemma delete_all_loop_wf [always_intros]: "fdb_wf s \<Longrightarrow> always fdb_wf (delete_all_loop n fid st u s)"
proof (induction n arbitrary: fid st u s)
  case (Suc n)
  then show ?case unfolding delete_all_loop.simps
    by (intro always_mapping always_if always_clear_face always_then [OF delete_file_wf] Suc.IH) auto
qed (simp add: always_Inr)

lemma delete_all_wf [always_intros]:
  assumes "fdb_wf s"
  shows "always fdb_wf (Facedb_DeleteAllFaces s)"
proof -
  have "always fdb_wf (rbind (if numberFaces (s_OasisMetadata s) \<noteq> 0 \<or> st \<noteq> kStatus_HAL_FlashSuccess
           then rbind (Facedb_SetFaceDataDefault s) (\<lambda>s. Inr (True, Facedb_SetMetaDataDefault s))
           else Inr (u, s)) (\<lambda>(u, s).
    if st = kStatus_HAL_FlashSuccess \<and> u then Facedb_UpdateMetadata s else Inr (st, s)))"
    if "fdb_wf s" for st u and s :: "'a facedb"
    using that unfolding Facedb_SetFaceDataDefault_def
    by (intro always_then [where P = fdb_wf] always_if always_put_db)
       (auto intro!: always_Inr update_metadata_wf wf_defaults simp: fdb_wf_def)
  then show ?thesis unfolding Facedb_DeleteAllFaces_def
    using assms by (intro always_then [OF delete_all_loop_wf]) auto
qed

lemma delete_face_wf [always_intros]: "fdb_wf s \<Longrightarrow> always fdb_wf (Facedb_DeleteFace fid s)"
  unfolding Facedb_DeleteFace_def
  by (intro always_mapping always_if always_clear_face always_then [OF delete_file_wf] update_metadata_wf)
     (auto intro: always_Inr)

lemma save_loop_wf: "fdb_wf s \<Longrightarrow> always fdb_wf (save_loop n fid st u s)"
proof (induction n arbitrary: fid st u s)
  case (Suc n)
  show ?case unfolding save_loop.simps
  proof (intro always_mapping always_if)
    fix m assume m: "has_flag FACE_IN_USE m = (unat fid \<in> used s)" "has_flag FACE_IN_USE m \<and> \<not> has_flag FACE_SAVED m"
    then have "wf_used fid s" using Suc.prems by (simp add: wf_used_def)
    then show "always fdb_wf (rbind (Facedb_SaveFace fid s) (\<lambda>(st, s).
        save_loop n (fid + 1) st (u \<or> st = kStatus_HAL_FlashSuccess) s))"
      by (intro always_then [OF save_face_wf] Suc.IH wf_used_wf)
  qed (use Suc in auto)
qed (simp add: always_Inr)

lemma enter_wf: "fdb_wf s \<Longrightarrow> always fdb_wf (fdb_enter wrong s)"
  by (auto simp: fdb_enter_def Facedb_Lock_def always_def split: option.splits bool.splits if_splits)

lemma locked_wf:
  assumes "fdb_wf s" and "\<And>s. fdb_wf s \<Longrightarrow> always fdb_wf (body s)"
  shows "always fdb_wf (fdb_locked wrong out body s)"
  unfolding fdb_locked_def
  using assms by (intro always_then [OF enter_wf] always_if always_then [where P = fdb_wf and m = "body s" for s]) (auto intro: always_Inr)

lemma always_put_name:
  assumes "fdb_wf s" and "\<And>s'. fdb_wf s' \<Longrightarrow> used s' = used s \<Longrightarrow> always Q (f s')"
  shows "always Q (rbind (put_name fid name s) f)"
  using assms unfolding put_name_def
  by (cases name) (auto simp: rbind_assoc intro!: always_put_db)

lemma always_put_feature:
  assumes "fdb_wf s" and "\<And>s'. fdb_wf s' \<Longrightarrow> used s' = used s \<Longrightarrow> always Q (f s')"
  shows "always Q (rbind (put_feature fid face sz s) f)"
proof (cases "sz < 0")
  case True
  then show ?thesis by (simp add: put_feature_def always_Inl)
next
  case False
  have "always Q (rbind (load_at 0 (nat sz) face) (\<lambda>bytes. rbind (put_db (FACE_ENTRY s fid + facedb_entry_t) bytes s) f))"
    using assms by (intro always_rbind_pure always_put_db)
  then show ?thesis using False by (simp add: put_feature_def rbind_assoc)
qed

lemma add_face_wf:
  assumes "fdb_wf s"
  shows "always fdb_wf (HAL_Facedb_AddFace fid name face sz s)"
  unfolding HAL_Facedb_AddFace_def
proof (intro locked_wf [OF assms] always_mapping always_if)
  fix s :: "'a facedb" and m
  assume s: "fdb_wf s" "unat fid < 100" "has_flag FACE_IN_USE m = (unat fid \<in> used s)" "\<not> has_flag FACE_IN_USE m"
  have "always fdb_wf (let s = add_faces 1 (set_mapping fid FACE_IN_USE s2) in
      rbind (Facedb_SaveFace fid s) (\<lambda>(status, s).
        if status = kStatus_HAL_FlashSuccess
        then rbind (Facedb_UpdateMetadata s) (\<lambda>(_, s). Inr (kFaceDBStatus_Success, s))
        else Inr (kFaceDBStatus_Failed, s)))" if "fdb_wf s2" "used s2 = used s" for s2
  proof -
    have "wf_used fid (add_faces 1 (set_mapping fid FACE_IN_USE s2))"
      using wf_take_slot [OF that(1) s(2)] that(2) s(3,4) by (simp add: wf_used_def)
    then show ?thesis unfolding Let_def
      by (intro always_then [OF save_face_wf] always_if always_then [OF update_metadata_wf] always_Inr)
        (auto dest: wf_used_wf)
  qed
  then show "always fdb_wf (rbind (put_name fid name s) (\<lambda>s.
        rbind (put_feature fid (the face) sz s) (\<lambda>s.
        let s = add_faces 1 (set_mapping fid FACE_IN_USE s) in
        rbind (Facedb_SaveFace fid s) (\<lambda>(status, s).
        if status = kStatus_HAL_FlashSuccess
        then rbind (Facedb_UpdateMetadata s) (\<lambda>(_, s). Inr (kFaceDBStatus_Success, s))
        else Inr (kFaceDBStatus_Failed, s)))))"
    using s(1) by (intro always_put_name always_put_feature) auto
qed (auto intro: always_Inr)

lemma save_used_wf:
  "fdb_wf s \<Longrightarrow> unat fid \<in> used s \<Longrightarrow> always fdb_wf (rbind (Facedb_SaveFace fid s) (\<lambda>(_, s). Inr (r, s)))"
  by (intro always_then [OF save_face_wf] always_Inr wf_used_wf) (auto simp: wf_used_def)

lemma update_name_wf: "fdb_wf s \<Longrightarrow> always fdb_wf (HAL_Facedb_UpdateName fid name s)"
  unfolding HAL_Facedb_UpdateName_def Let_def
  by (intro locked_wf always_mapping always_if always_case_option always_rbind_pure [where m = "load_at off n buf" for off n buf]
      always_put_db save_used_wf always_Inl always_Inr) auto

lemma update_face_wf: "fdb_wf s \<Longrightarrow> always fdb_wf (HAL_Facedb_UpdateFace fid name face sz s)"
  unfolding HAL_Facedb_UpdateFace_def
  by (intro locked_wf always_mapping always_if always_put_name always_put_feature save_used_wf always_Inr) auto

lemma delete_id_wf: "fdb_wf s \<Longrightarrow> always fdb_wf (HAL_Facedb_DelFaceWithID fid s)"
  unfolding HAL_Facedb_DelFaceWithID_def
  by (intro locked_wf always_mapping always_if always_then [OF delete_all_wf] always_then [OF delete_face_wf] always_Inr)

lemma delete_name_wf: "fdb_wf s \<Longrightarrow> always fdb_wf (HAL_Facedb_DelFaceWithName name s)"
  unfolding HAL_Facedb_DelFaceWithName_def
  by (intro locked_wf always_find always_case_prod always_if always_then [OF delete_face_wf] always_Inr)

lemma save_all_wf: "fdb_wf s \<Longrightarrow> always fdb_wf (HAL_Facedb_SaveFace s)"
  unfolding HAL_Facedb_SaveFace_def
  by (intro always_then [OF enter_wf] always_then [OF save_loop_wf] always_if always_case_prod_app
      always_then [where P = fdb_wf] always_Inr update_metadata_wf)

datatype fdb_req =
    Db_Save
  | Db_Add u16 "u8 list option" "u8 list option" int
  | Db_DelId u16
  | Db_DelName "u8 list option"
  | Db_UpdName u16 "u8 list option"
  | Db_UpdFace u16 "u8 list option" "u8 list option" int
  | Db_GetFace u16 "nat option option"
  | Db_GetIds "u16 list option"
  | Db_GetIdsAndFaces "u16 list option" "nat option list option"
  | Db_GetName u16
  | Db_GenId "u16 option"

fun fdb_step :: "fdb_req \<Rightarrow> ('w, int) fdb_op" where
  "fdb_step Db_Save = HAL_Facedb_SaveFace"
| "fdb_step (Db_Add fid name face sz) = HAL_Facedb_AddFace fid name face sz"
| "fdb_step (Db_DelId fid) = HAL_Facedb_DelFaceWithID fid"
| "fdb_step (Db_DelName name) = HAL_Facedb_DelFaceWithName name"
| "fdb_step (Db_UpdName fid name) = HAL_Facedb_UpdateName fid name"
| "fdb_step (Db_UpdFace fid name face sz) = HAL_Facedb_UpdateFace fid name face sz"
| "fdb_step (Db_GetFace fid p) = (\<lambda>s. rbind (HAL_Facedb_GetFace fid p s) (\<lambda>((r, _), s). Inr (r, s)))"
| "fdb_step (Db_GetIds ids) = (\<lambda>s. rbind (HAL_Facedb_GetIds ids s) (\<lambda>((r, _), s). Inr (r, s)))"
| "fdb_step (Db_GetIdsAndFaces ids p) = (\<lambda>s. rbind (HAL_Facedb_GetIdsAndFaces ids p s) (\<lambda>((r, _), s). Inr (r, s)))"
| "fdb_step (Db_GetName fid) = (\<lambda>s. rbind (HAL_Facedb_GetName fid s) (\<lambda>(_, s). Inr (0, s)))"
| "fdb_step (Db_GenId p) = (\<lambda>s. rbind (HAL_Facedb_GenId p s) (\<lambda>((r, _), s). Inr (r, s)))"

lemma queries_wf:
  assumes "fdb_wf s"
  shows "always fdb_wf (HAL_Facedb_GetFace fid p s)" and "always fdb_wf (HAL_Facedb_GetIds ids s)"
    and "always fdb_wf (HAL_Facedb_GetIdsAndFaces ids ps s)" and "always fdb_wf (HAL_Facedb_GetName fid s)"
    and "always fdb_wf (HAL_Facedb_GenId q s)"
  unfolding HAL_Facedb_GetFace_def HAL_Facedb_GetIds_def HAL_Facedb_GetIdsAndFaces_def HAL_Facedb_GetName_def
    HAL_Facedb_GenId_def Let_def
  by (intro locked_wf [OF assms] always_mapping always_if always_case_option always_memory always_Inr; assumption)+

lemma fdb_step_wf:
  assumes "fdb_wf s"
  shows "always fdb_wf (fdb_step p s)"
proof -
  have q: "always fdb_wf (rbind m (\<lambda>((r, _), s). Inr (r, s)))" if "always fdb_wf m" for m :: "((int \<times> 'x) \<times> 'a facedb) outcome"
    using that by (auto simp: always_def rbind_Inr_iff)
  have n: "always fdb_wf (rbind m (\<lambda>(_, s). Inr (0, s)))" if "always fdb_wf m" for m :: "(nat option \<times> 'a facedb) outcome"
    using that by (auto simp: always_def rbind_Inr_iff)
  show ?thesis
    using assms by (cases p; simp only: fdb_step.simps)
      (intro q n queries_wf save_all_wf add_face_wf delete_id_wf delete_name_wf update_name_wf update_face_wf; assumption)+
qed

interpretation fdb: kept_invariant fdb_step fdb_wf
  by unfold_locales (auto dest: alwaysD [OF fdb_step_wf])

end
