(* ===== verification/Facedb_Flash.thy ===== *)
theory Facedb_Flash
  imports Facedb_Spec
begin

text \<open>
  The face database over a flash device that keeps the contract of the clients. The contract
  is the locale \<open>framework_flash\<close> of \<open>Flash_Device\<close>. A state is \<open>synced\<close> when every saved slot has its file and the metadata
  file agrees with the slot map: what the operations keep, and what is needed to load the database
  again after a restart.
\<close>

section \<open>Paths\<close>

definition face_path :: "nat \<Rightarrow> u8 list" where
  "face_path i = OASIS_FACEDATABASE @ digits i"

lemma GeneratePath: "i < 65536 \<Longrightarrow> Facedb_GeneratePathFromIndex (of_nat i) = face_path i"
  by (simp add: Facedb_GeneratePathFromIndex_def face_path_def unat_of_nat)

lemma GeneratePath_unat: "Facedb_GeneratePathFromIndex fid = face_path (unat fid)"
  by (simp add: Facedb_GeneratePathFromIndex_def face_path_def)

lemma face_path_inject [simp]: "face_path i = face_path j \<longleftrightarrow> i = j"
  by (auto simp: face_path_def dest: digits_inject)

lemma paths_apart [simp]:
  "face_path i \<noteq> METADATA_FILE_NAME" "METADATA_FILE_NAME \<noteq> face_path i"
  "face_path i \<noteq> OASIS_FACE_DB_DIR" "OASIS_FACE_DB_DIR \<noteq> face_path i"
  "METADATA_FILE_NAME \<noteq> OASIS_FACE_DB_DIR" "OASIS_FACE_DB_DIR \<noteq> METADATA_FILE_NAME"
proof -
  have "77 \<notin> set (digits i)" using digits_chars [of 77 i] by auto
  then show "face_path i \<noteq> METADATA_FILE_NAME"
    by (auto simp: face_path_def METADATA_FILE_NAME_def)
  then show "METADATA_FILE_NAME \<noteq> face_path i" by simp
qed (simp_all add: face_path_def OASIS_FACEDATABASE_def METADATA_FILE_NAME_def)

lemma has_parent_in_dir:
  assumes "47 \<notin> set ys" and "length ys < 200"
  shows "has_parent t (OASIS_FACEDATABASE @ ys) = (t OASIS_FACE_DB_DIR = Some Dir)"
  using has_parent_in [of ys OASIS_FACE_DB_DIR t] assms by (simp add: OASIS_FACEDATABASE_def OASIS_FACE_DB_DIR_def)

section \<open>The metadata in its file\<close>

lemma length_encode_metadata:
  "length (reservedData m) = 6 \<Longrightarrow> length (faceMapping m) = 100 \<Longrightarrow> length (padding m) = 2 \<Longrightarrow>
    length (encode_metadata m) = 120"
  by (simp add: encode_metadata_def)

lemma drop_append_exact: "n = length xs \<Longrightarrow> drop n (xs @ ys) = ys" "n = length xs \<Longrightarrow> take n (xs @ ys) = xs"
  by simp_all

lemma decode_encode_metadata:
  assumes "length (reservedData m) = 6" and "length (faceMapping m) = 100" and "length (padding m) = 2"
  shows "decode_metadata (encode_metadata m) = m"
proof -
  let ?a = "le32 (featureVersion m)" and ?b = "le32 (modelVersion m)" and ?c = "le16 (numberFaces m)"
    and ?d = "le16 (faceEntrySize m)" and ?e = "reservedData m" and ?f = "faceMapping m" and ?g = "padding m"
  have d4: "drop 4 (encode_metadata m) = ?b @ ?c @ ?d @ ?e @ ?f @ ?g" by (simp add: encode_metadata_def)
  have d8: "drop 8 (encode_metadata m) = ?c @ ?d @ ?e @ ?f @ ?g"
    using drop_append_exact(1) [of 4 ?b "?c @ ?d @ ?e @ ?f @ ?g"] d4 drop_drop [of 4 4 "encode_metadata m"] by simp
  have d10: "drop 10 (encode_metadata m) = ?d @ ?e @ ?f @ ?g"
    using drop_append_exact(1) [of 2 ?c "?d @ ?e @ ?f @ ?g"] d8 drop_drop [of 2 8 "encode_metadata m"] by simp
  have d12: "drop 12 (encode_metadata m) = ?e @ ?f @ ?g"
    using drop_append_exact(1) [of 2 ?d "?e @ ?f @ ?g"] d10 drop_drop [of 2 10 "encode_metadata m"] by simp
  have d18: "drop 18 (encode_metadata m) = ?f @ ?g"
    using drop_append_exact(1) [of 6 ?e "?f @ ?g"] d12 drop_drop [of 6 12 "encode_metadata m"] assms by simp
  have d118: "drop 118 (encode_metadata m) = ?g"
    using drop_append_exact(1) [of 100 ?f ?g] d18 drop_drop [of 100 18 "encode_metadata m"] assms by simp
  show ?thesis
    using assms unfolding decode_metadata_def slice_def d4 d8 d10 d12 d18 d118
    by (simp add: encode_metadata_def)
qed

section \<open>States whose files agree with the table\<close>

definition face_entry :: "'w facedb \<Rightarrow> nat \<Rightarrow> u8 list" where
  "face_entry s i = slice (i * unat (s_FaceEntrySize s)) (unat (s_FaceEntrySize s)) (the (s_FaceDB s))"

definition saved_faces :: "'w facedb \<Rightarrow> nat set" where
  "saved_faces s = {i. i < 100 \<and> has_flag FACE_SAVED (faceMapping (s_OasisMetadata s) ! i)}"

definition flash_map :: "u8 list \<Rightarrow> u8 list" where
  "flash_map m = map (\<lambda>v. v AND NOT FACE_IN_USE) m"

definition meta_matches :: "facedb_metadata_t \<Rightarrow> 'w facedb \<Rightarrow> bool" where
  "meta_matches M s \<longleftrightarrow> featureVersion M = FEATURE_VERSION \<and> modelVersion M = MODEL_VERSION \<and>
     (faceEntrySize M = s_FaceEntrySize s \<or> saved_faces s = {} \<and> faceEntrySize M \<le> s_FaceEntrySize s) \<and>
     numberFaces M = of_nat (card (saved_faces s)) \<and>
     faceMapping M = flash_map (faceMapping (s_OasisMetadata s))"

definition files_ok :: "(u8 list \<Rightarrow> node option) \<Rightarrow> bool" where
  "files_ok t \<longleftrightarrow> t OASIS_FACE_DB_DIR = Some Dir \<and> clean (t METADATA_FILE_NAME) \<and> (\<forall>i<100. clean (t (face_path i)))"

definition ram_ok :: "'w facedb \<Rightarrow> bool" where
  "ram_ok s \<longleftrightarrow> fdb_wf s \<and> s_FaceDB s \<noteq> None \<and> 32 < unat (s_FaceEntrySize s) \<and> length (stack_bytes s) = 8 \<and>
     faceEntrySize (s_OasisMetadata s) = s_FaceEntrySize s \<and>
     featureVersion (s_OasisMetadata s) = FEATURE_VERSION \<and> modelVersion (s_OasisMetadata s) = MODEL_VERSION \<and>
     (\<forall>i<100. faceMapping (s_OasisMetadata s) ! i \<in> {FACEDB_SLOT_EMPTY, FACE_IN_USE, FACE_IN_USE OR FACE_SAVED})"

definition faces_stored :: "(u8 list \<Rightarrow> node option) \<Rightarrow> 'w facedb \<Rightarrow> bool" where
  "faces_stored t s \<longleftrightarrow> (\<forall>i\<in>saved_faces s. stored (t (face_path i)) (unat (s_FaceEntrySize s)) (face_entry s i))"

definition synced :: "('w fwk_flash \<Rightarrow> bool) \<Rightarrow> ('w fwk_flash \<Rightarrow> u8 list \<Rightarrow> node option) \<Rightarrow> 'w facedb \<Rightarrow> bool" where
  "synced ready entries s \<longleftrightarrow> ram_ok s \<and> ready (fdb_flash s) \<and> files_ok (entries (fdb_flash s)) \<and>
     faces_stored (entries (fdb_flash s)) s \<and>
     (\<exists>bs. stored (entries (fdb_flash s) METADATA_FILE_NAME) 120 bs \<and> meta_matches (decode_metadata bs) s)"

lemma files_ok_parent:
  assumes "files_ok t"
  shows "has_parent t METADATA_FILE_NAME" and "i < 100 \<Longrightarrow> has_parent t (face_path i)"
proof -
  have d: "t OASIS_FACE_DB_DIR = Some Dir" using assms by (simp add: files_ok_def)
  show "has_parent t METADATA_FILE_NAME"
    unfolding METADATA_FILE_NAME_def by (subst has_parent_in_dir) (simp_all add: d)
  assume i: "i < 100"
  have "47 \<notin> set (digits i)" using digits_chars [of 47 i] by auto
  moreover have "length (digits i) < 200" using length_digits [OF i] by simp
  ultimately show "has_parent t (face_path i)"
    unfolding face_path_def by (subst has_parent_in_dir) (simp_all add: d)
qed

lemma files_ok_update: "files_ok t \<Longrightarrow> clean nd \<Longrightarrow> n \<noteq> OASIS_FACE_DB_DIR \<Longrightarrow> files_ok (t(n := nd))"
  by (auto simp: files_ok_def)

lemma unat_u16_u32: "unat (ucast (E :: u16) :: u32) = unat E"
  by transfer (simp add: min_def)

lemma entry_fits:
  assumes "i < 100" and "100 * (E :: nat) \<le> L"
  shows "i * E + E \<le> L"
proof -
  have "i * E \<le> 99 * E" using assms(1) by (intro mult_le_mono1) simp
  then show ?thesis using assms(2) by linarith
qed

section \<open>Saving\<close>

lemma used_split:
  assumes "ram_ok s"
  shows "card (used s) = card (saved_faces s) +
    length (filter (\<lambda>v. v = FACE_IN_USE) (take MAX_FACE_DB_SIZE (faceMapping (s_OasisMetadata s))))"
proof -
  let ?m = "faceMapping (s_OasisMetadata s)"
  have len: "length ?m = 100" using assms by (simp add: ram_ok_def fdb_wf_def)
  have v: "?m ! i = FACEDB_SLOT_EMPTY \<or> ?m ! i = FACE_IN_USE \<or> ?m ! i = FACE_IN_USE OR FACE_SAVED" if "i < 100" for i
    using assms that by (auto simp: ram_ok_def)
  have ne: "FACE_IN_USE OR FACE_SAVED \<noteq> FACE_IN_USE" "FACEDB_SLOT_EMPTY \<noteq> FACE_IN_USE"
    "\<not> has_flag FACE_SAVED FACEDB_SLOT_EMPTY" by (simp_all add: slot_defs has_flag_def)
  have "used s = saved_faces s \<union> {i. i < 100 \<and> ?m ! i = FACE_IN_USE}"
    using v ne by (fastforce simp: used_def saved_faces_def)
  moreover have "saved_faces s \<inter> {i. i < 100 \<and> ?m ! i = FACE_IN_USE} = {}"
    by (auto simp: saved_faces_def)
  moreover have "finite (saved_faces s)" "finite {i. i < 100 \<and> ?m ! i = FACE_IN_USE}" by (simp_all add: saved_faces_def)
  moreover have "length (filter (\<lambda>v. v = FACE_IN_USE) ?m) = card {i. i < 100 \<and> ?m ! i = FACE_IN_USE}"
    by (simp add: length_filter_conv_card len)
  ultimately show ?thesis using len by (simp add: card_Un_disjoint)
qed

lemma flash_metadata_matches:
  assumes "ram_ok s"
  shows "meta_matches (decode_metadata (encode_metadata (flash_metadata s))) s"
    and "length (encode_metadata (flash_metadata s)) = 120"
proof -
  let ?M = "flash_metadata s"
  have len: "length (faceMapping (s_OasisMetadata s)) = 100" "length (stack_bytes s) = 8"
    using assms by (simp_all add: ram_ok_def fdb_wf_def)
  have parts: "length (reservedData ?M) = 6" "length (faceMapping ?M) = 100" "length (padding ?M) = 2"
    using len by (simp_all add: flash_metadata_def Let_def)
  then show "length (encode_metadata ?M) = 120" by (rule length_encode_metadata)
  let ?k = "length (filter (\<lambda>v. v = FACE_IN_USE) (take MAX_FACE_DB_SIZE (faceMapping (s_OasisMetadata s))))"
  have "unat (numberFaces (s_OasisMetadata s)) = card (saved_faces s) + ?k"
    using assms used_split [OF assms] by (simp add: ram_ok_def fdb_wf_def)
  then have "numberFaces (s_OasisMetadata s) = of_nat (card (saved_faces s)) + of_nat ?k"
    by (metis of_nat_add of_nat_unat ucast_id)
  then have "numberFaces ?M = of_nat (card (saved_faces s))" by (simp add: flash_metadata_def Let_def)
  then show "meta_matches (decode_metadata (encode_metadata ?M)) s"
    unfolding decode_encode_metadata [OF parts]
    using assms len by (simp add: meta_matches_def ram_ok_def flash_map_def flash_metadata_def Let_def)
qed

lemma ram_ok_flash [simp]: "ram_ok (s\<lparr>fdb_flash := w\<rparr>) = ram_ok s"
  by (simp add: ram_ok_def)

lemma saved_faces_simps [simp]:
  "saved_faces (s\<lparr>fdb_flash := w\<rparr>) = saved_faces s" "saved_faces (s\<lparr>s_FaceDB := d\<rparr>) = saved_faces s"
  "saved_faces (add_faces n s) = saved_faces s" "saved_faces (s\<lparr>s_FaceDBLock := l\<rparr>) = saved_faces s"
  by (simp_all add: saved_faces_def add_faces_def)

lemma face_entry_simps [simp]:
  "face_entry (s\<lparr>fdb_flash := w\<rparr>) i = face_entry s i" "face_entry (add_faces n s) i = face_entry s i"
  "face_entry (set_mapping fid v s) i = face_entry s i" "face_entry (s\<lparr>s_FaceDBLock := l\<rparr>) i = face_entry s i"
  by (simp_all add: face_entry_def add_faces_def set_mapping_def)

lemma meta_matches_simps [simp]:
  "meta_matches M (s\<lparr>fdb_flash := w\<rparr>) = meta_matches M s" "meta_matches M (s\<lparr>s_FaceDBLock := l\<rparr>) = meta_matches M s"
  by (simp_all add: meta_matches_def)

context roomy_flash begin

lemma update_metadata_ok:
  assumes r: "ram_ok s" and w: "ready (fdb_flash s)" "files_ok (entries (fdb_flash s))"
  shows "\<exists>w' nd bs. Facedb_UpdateMetadata s = Inr (kStatus_HAL_FlashSuccess, s\<lparr>fdb_flash := w'\<rparr>) \<and> ready w' \<and>
    entries w' = (entries (fdb_flash s))(METADATA_FILE_NAME := nd) \<and> stored nd 120 bs \<and>
    meta_matches (decode_metadata bs) s"
proof -
  let ?bs = "encode_metadata (flash_metadata s)"
  have len: "length ?bs = 120" by (rule flash_metadata_matches(2) [OF r])
  have "clean (entries (fdb_flash s) METADATA_FILE_NAME)" using w(2) by (simp add: files_ok_def)
  from save_stored [OF w(1) files_ok_parent(1) [OF w(2)] this, of metadata_size ?bs]
  obtain w' nd where sv: "FWK_Flash_Save (Some METADATA_FILE_NAME) (Some ?bs) metadata_size (fdb_flash s) =
      Inr (kStatus_HAL_FlashSuccess, w')" "ready w'" "entries w' = (entries (fdb_flash s))(METADATA_FILE_NAME := nd)"
    "stored nd 120 ?bs" using len by auto
  then show ?thesis using flash_metadata_matches(1) [OF r]
    by (auto simp: Facedb_UpdateMetadata_def update_loop.simps [of ?bs s] on_flash_def)
qed

text \<open>After the metadata file has been written a state is synced as soon as its faces are stored.\<close>

lemma synced_after_update:
  assumes r: "ram_ok s" and w: "ready (fdb_flash s)" "files_ok (entries (fdb_flash s))"
    and f: "faces_stored (entries (fdb_flash s)) s"
  shows "\<exists>w'. Facedb_UpdateMetadata s = Inr (kStatus_HAL_FlashSuccess, s\<lparr>fdb_flash := w'\<rparr>) \<and>
    synced ready entries (s\<lparr>fdb_flash := w'\<rparr>)"
proof -
  obtain w' nd bs where u: "Facedb_UpdateMetadata s = Inr (kStatus_HAL_FlashSuccess, s\<lparr>fdb_flash := w'\<rparr>)" "ready w'"
    "entries w' = (entries (fdb_flash s))(METADATA_FILE_NAME := nd)" "stored nd 120 bs" "meta_matches (decode_metadata bs) s"
    using update_metadata_ok [OF r w] by blast
  have "files_ok (entries w')" using files_ok_update [OF w(2) storedD [OF u(4)]] u(3) by simp
  moreover have "faces_stored (entries w') (s\<lparr>fdb_flash := w'\<rparr>)" using f u(3) by (simp add: faces_stored_def)
  ultimately have "synced ready entries (s\<lparr>fdb_flash := w'\<rparr>)"
    using u(2,4,5) r by (simp add: synced_def) (auto simp: u(3))
  then show ?thesis using u(1) by blast
qed

lemma save_face_ok:
  assumes r: "ram_ok s" and w: "ready (fdb_flash s)" "files_ok (entries (fdb_flash s))" and i: "unat fid < 100"
  shows "\<exists>w' nd. Facedb_SaveFace fid s =
      Inr (kStatus_HAL_FlashSuccess, set_mapping fid (FACE_IN_USE OR FACE_SAVED) (s\<lparr>fdb_flash := w'\<rparr>)) \<and> ready w' \<and>
    entries w' = (entries (fdb_flash s))(face_path (unat fid) := nd) \<and>
    stored nd (unat (s_FaceEntrySize s)) (face_entry s (unat fid))"
proof -
  obtain db where db: "s_FaceDB s = Some db" "100 * unat (s_FaceEntrySize s) \<le> length db"
    using r by (auto simp: ram_ok_def fdb_wf_def)
  let ?E = "unat (s_FaceEntrySize s)" and ?n = "ucast (s_FaceEntrySize s) :: u32"
  have n: "unat ?n = ?E" by (rule unat_u16_u32)
  have fit: "FACE_ENTRY s fid + ?E \<le> length db" using entry_fits [OF i db(2)] by (simp add: FACE_ENTRY_def)
  have c: "clean (entries (fdb_flash s) (face_path (unat fid)))" using w(2) i by (simp add: files_ok_def)
  have "0 < ?n" using n r by (simp add: word_less_nat_alt ram_ok_def)
  moreover have "unat ?n \<le> length (drop (FACE_ENTRY s fid) db)" using fit n by simp
  ultimately obtain w' nd where sv: "FWK_Flash_Save (Some (face_path (unat fid))) (Some (drop (FACE_ENTRY s fid) db)) ?n (fdb_flash s) =
      Inr (kStatus_HAL_FlashSuccess, w')" "ready w'" "entries w' = (entries (fdb_flash s))(face_path (unat fid) := nd)"
    "stored nd ?E (take ?E (drop (FACE_ENTRY s fid) db))"
    using save_stored [OF w(1) files_ok_parent(2) [OF w(2) i] c, of ?n "drop (FACE_ENTRY s fid) db"] n by auto
  then show ?thesis using db
    by (auto simp: Facedb_SaveFace_def face_db_def GeneratePath_unat on_flash_def face_entry_def slice_def FACE_ENTRY_def)
qed

end

end
