(* ===== verification/Facedb_Persist.thy ===== *)
theory Facedb_Persist
  imports Facedb_Flash
begin

text \<open>
  What the operations of the face database do on a device that keeps its contract: a face that is added
  is in its slot and in its file, a deleted face is in neither, and loading the files after a restart
  gives the saved faces back, entry for entry. \<open>enrolled\<close>, \<open>removed\<close> and \<open>restored\<close> state the effect
  of the three on the table.
\<close>

definition face_name :: "'w facedb \<Rightarrow> nat \<Rightarrow> u8 list" where
  "face_name s i = cstr (take facedb_entry_t (face_entry s i))"

definition face_feature :: "'w facedb \<Rightarrow> nat \<Rightarrow> u8 list" where
  "face_feature s i = drop facedb_entry_t (face_entry s i)"

lemma saved_set_mapping:
  assumes "length (faceMapping (s_OasisMetadata s)) = 100" and "unat fid < 100"
  shows "saved_faces (set_mapping fid v s) =
    (if has_flag FACE_SAVED v then insert (unat fid) (saved_faces s) else saved_faces s - {unat fid})"
  using assms by (auto simp: saved_faces_def set_mapping_def nth_list_update)

lemma ram_ok_len: "ram_ok s \<Longrightarrow> length (faceMapping (s_OasisMetadata s)) = 100"
  by (simp add: ram_ok_def fdb_wf_def)

lemma set_mapping_fields [simp]:
  "fdb_flash (set_mapping fid v s) = fdb_flash s" "s_FaceDB (set_mapping fid v s) = s_FaceDB s"
  "s_FaceDBLock (set_mapping fid v s) = s_FaceDBLock s" "s_FaceEntrySize (set_mapping fid v s) = s_FaceEntrySize s"
  "fdb_flash (add_faces n s) = fdb_flash s" "s_FaceDB (add_faces n s) = s_FaceDB s"
  "s_FaceDBLock (add_faces n s) = s_FaceDBLock s" "s_FaceEntrySize (add_faces n s) = s_FaceEntrySize s"
  "stack_bytes (set_mapping fid v s) = stack_bytes s" "stack_bytes (add_faces n s) = stack_bytes s"
  "faceMapping (s_OasisMetadata (set_mapping fid v s)) = (faceMapping (s_OasisMetadata s))[unat fid := v]"
  "faceMapping (s_OasisMetadata (add_faces n s)) = faceMapping (s_OasisMetadata s)"
  by (simp_all add: set_mapping_def add_faces_def)

lemma ram_ok_slot:
  assumes "ram_ok s" and "fdb_wf (add_faces n (set_mapping fid v s))" and "unat fid < 100"
    and "v \<in> {FACEDB_SLOT_EMPTY, FACE_IN_USE, FACE_IN_USE OR FACE_SAVED}"
  shows "ram_ok (add_faces n (set_mapping fid v s))"
  using assms by (auto simp: ram_ok_def set_mapping_def add_faces_def fdb_wf_def nth_list_update)

lemma add_faces_0 [simp]: "add_faces 0 s = s"
  by (simp add: add_faces_def)

lemma ram_ok_mark:
  assumes "ram_ok s" and "unat fid \<in> used s"
  shows "ram_ok (set_mapping fid (FACE_IN_USE OR FACE_SAVED) s)"
proof -
  have i: "unat fid < 100" using assms(2) by (simp add: used_def)
  have "fdb_wf s" using assms(1) by (simp add: ram_ok_def)
  then have "fdb_wf (set_mapping fid (FACE_IN_USE OR FACE_SAVED) s)" using assms(2) i by (intro wf_keep_slot) auto
  then show ?thesis using ram_ok_slot [of s 0 fid] assms(1) i by simp
qed

text \<open>Bytes written into one entry do not touch another.\<close>

lemma entries_apart:
  assumes "i \<noteq> j"
  shows "(i :: nat) * E + E \<le> j * E \<or> j * E + E \<le> i * E"
proof (cases "i < j")
  case True
  then have "(i + 1) * E \<le> j * E" by (intro mult_le_mono1) simp
  then show ?thesis by simp
next
  case False
  then have "(j + 1) * E \<le> i * E" using assms by (intro mult_le_mono1) simp
  then show ?thesis by simp
qed

lemma put_db_entry:
  assumes db: "s_FaceDB s = Some db" "100 * unat (s_FaceEntrySize s) \<le> length db"
    and i: "unat fid < 100" and fit: "off + length bs \<le> unat (s_FaceEntrySize s)"
  shows "put_db (FACE_ENTRY s fid + off) bs s = Inr (s\<lparr>s_FaceDB := Some (blit (FACE_ENTRY s fid + off) bs db)\<rparr>)"
    and "face_entry (s\<lparr>s_FaceDB := Some (blit (FACE_ENTRY s fid + off) bs db)\<rparr>) (unat fid) =
      blit off bs (face_entry s (unat fid))"
    and "j < 100 \<Longrightarrow> j \<noteq> unat fid \<Longrightarrow>
      face_entry (s\<lparr>s_FaceDB := Some (blit (FACE_ENTRY s fid + off) bs db)\<rparr>) j = face_entry s j"
proof -
  let ?E = "unat (s_FaceEntrySize s)"
  have e: "unat fid * ?E + ?E \<le> length db" by (rule entry_fits [OF i db(2)])
  then have l: "FACE_ENTRY s fid + off + length bs \<le> length db" using fit by (simp add: FACE_ENTRY_def)
  then show "put_db (FACE_ENTRY s fid + off) bs s = Inr (s\<lparr>s_FaceDB := Some (blit (FACE_ENTRY s fid + off) bs db)\<rparr>)"
    using db by (simp add: put_db_def face_db_def)
  show "face_entry (s\<lparr>s_FaceDB := Some (blit (FACE_ENTRY s fid + off) bs db)\<rparr>) (unat fid) =
      blit off bs (face_entry s (unat fid))"
    using e fit db
    by (intro nth_equalityI) (auto simp: face_entry_def FACE_ENTRY_def buf_simps)
  assume j: "j < 100" "j \<noteq> unat fid"
  have ej: "j * ?E + ?E \<le> length db" by (rule entry_fits [OF j(1) db(2)])
  show "face_entry (s\<lparr>s_FaceDB := Some (blit (FACE_ENTRY s fid + off) bs db)\<rparr>) j = face_entry s j"
    using e ej fit db entries_apart [OF j(2), of ?E]
    by (intro nth_equalityI) (auto simp: face_entry_def FACE_ENTRY_def buf_simps)
qed

lemma ram_ok_db: "ram_ok s \<Longrightarrow> s_FaceDB s = Some db \<Longrightarrow> length db' = length db \<Longrightarrow> ram_ok (s\<lparr>s_FaceDB := Some db'\<rparr>)"
  by (auto simp: ram_ok_def fdb_wf_def)

lemma ram_ok_table:
  assumes "ram_ok s"
  obtains db where "s_FaceDB s = Some db" "100 * unat (s_FaceEntrySize s) \<le> length db" "32 < unat (s_FaceEntrySize s)"
  using assms by (auto simp: ram_ok_def fdb_wf_def)

section \<open>Adding a face\<close>

text \<open>What filling an entry does: the name with its NUL in front, the feature behind the name field.\<close>

definition filled :: "'w facedb \<Rightarrow> u16 \<Rightarrow> u8 list \<Rightarrow> u8 list \<Rightarrow> 'w facedb \<Rightarrow> bool" where
  "filled s fid name feat s' \<longleftrightarrow>
     (\<exists>db'. s' = s\<lparr>s_FaceDB := Some db'\<rparr> \<and> length db' = length (the (s_FaceDB s))) \<and>
     face_entry s' (unat fid) = blit facedb_entry_t feat (blit 0 (name @ [0]) (face_entry s (unat fid))) \<and>
     (\<forall>j<100. j \<noteq> unat fid \<longrightarrow> face_entry s' j = face_entry s j)"

lemma fill_entry:
  assumes r: "ram_ok s" and i: "unat fid < 100" and nm: "length name \<le> 31"
    and sz: "0 \<le> sz" "nat sz \<le> length face" "nat sz + 32 \<le> unat (s_FaceEntrySize s)"
  shows "\<exists>s1 s'. put_name fid (Some name) s = Inr s1 \<and> put_feature fid face sz s1 = Inr s' \<and>
    filled s fid name (take (nat sz) face) s'"
proof -
  obtain db where db: "s_FaceDB s = Some db" "100 * unat (s_FaceEntrySize s) \<le> length db"
    "32 < unat (s_FaceEntrySize s)" using r by (rule ram_ok_table)
  let ?db1 = "blit (FACE_ENTRY s fid) (name @ [0]) db"
  let ?s1 = "s\<lparr>s_FaceDB := Some ?db1\<rparr>"
  have fit1: "0 + length (name @ [0]) \<le> unat (s_FaceEntrySize s)" using nm db(3) by simp
  note p1 = put_db_entry [OF db(1,2) i fit1]
  have e: "unat fid * unat (s_FaceEntrySize s) + unat (s_FaceEntrySize s) \<le> length db" by (rule entry_fits [OF i db(2)])
  then have len: "length ?db1 = length db" using fit1 by (intro length_blit) (simp add: FACE_ENTRY_def)
  let ?feat = "take (nat sz) face"
  have fit2: "32 + length ?feat \<le> unat (s_FaceEntrySize ?s1)" using sz by simp
  have "s_FaceDB ?s1 = Some ?db1" "100 * unat (s_FaceEntrySize ?s1) \<le> length ?db1" using db len by simp_all
  note p2 = put_db_entry [OF this i fit2]
  have E: "FACE_ENTRY ?s1 fid = FACE_ENTRY s fid" by (simp add: FACE_ENTRY_def)
  let ?db2 = "blit (FACE_ENTRY s fid + 32) ?feat ?db1"
  have len2: "length ?db2 = length ?db1" using e fit2 len by (intro length_blit) (simp add: FACE_ENTRY_def)
  have "filled s fid name ?feat (s\<lparr>s_FaceDB := Some ?db2\<rparr>)"
    unfolding filled_def using p1(2,3) p2(2,3) db len len2 E by auto
  moreover have "put_name fid (Some name) s = Inr ?s1" using p1(1) by (simp add: put_name_def)
  moreover have "put_feature fid face sz ?s1 = Inr (s\<lparr>s_FaceDB := Some ?db2\<rparr>)"
    using p2(1) sz E by (simp add: put_feature_def slice_def)
  ultimately show ?thesis by auto
qed

lemma filled_ram:
  assumes "ram_ok s" and "filled s fid name feat s'"
  shows "ram_ok s'" and "used s' = used s" and "saved_faces s' = saved_faces s" and "fdb_flash s' = fdb_flash s"
    and "s_FaceDBLock s' = s_FaceDBLock s" and "s_FaceEntrySize s' = s_FaceEntrySize s"
proof -
  obtain db' where db': "s' = s\<lparr>s_FaceDB := Some db'\<rparr>" "length db' = length (the (s_FaceDB s))"
    using assms(2) by (auto simp: filled_def)
  obtain db where db: "s_FaceDB s = Some db" using assms(1) by (rule ram_ok_table)
  show "ram_ok s'" using ram_ok_db [OF assms(1) db] db' db by simp
qed (use assms(2) in \<open>auto simp: filled_def\<close>)

text \<open>The effect of a successful enrolment.\<close>

definition enrolled :: "'w facedb \<Rightarrow> u16 \<Rightarrow> u8 list \<Rightarrow> u8 list \<Rightarrow> 'w facedb \<Rightarrow> bool" where
  "enrolled s fid name feat s' \<longleftrightarrow> used s' = insert (unat fid) (used s) \<and>
     saved_faces s' = insert (unat fid) (saved_faces s) \<and> s_FaceEntrySize s' = s_FaceEntrySize s \<and>
     face_entry s' (unat fid) = blit facedb_entry_t feat (blit 0 (name @ [0]) (face_entry s (unat fid))) \<and>
     (\<forall>j<100. j \<noteq> unat fid \<longrightarrow> face_entry s' j = face_entry s j)"

lemma locked_run:
  assumes "s_FaceDB s \<noteq> None" and "s_FaceDBLock s = Some False" and "\<not> wrong"
    and "body (s\<lparr>s_FaceDBLock := Some True\<rparr>) = Inr (r, s')" and "s_FaceDBLock s' = Some True"
  shows "fdb_locked wrong out body s = Inr (r, s'\<lparr>s_FaceDBLock := Some False\<rparr>)"
  using assms by (auto simp: fdb_locked_def fdb_enter_def Facedb_Lock_def Facedb_Unlock_def)

lemma lock_simps [simp]:
  "ram_ok (s\<lparr>s_FaceDBLock := l\<rparr>) = ram_ok s" "faces_stored t (s\<lparr>s_FaceDBLock := l\<rparr>) = faces_stored t s"
  "synced ready entries (s\<lparr>s_FaceDBLock := l\<rparr>) = synced ready entries s"
  by (simp_all add: ram_ok_def faces_stored_def synced_def)

lemma faces_stored_flash [simp]: "faces_stored t (s\<lparr>fdb_flash := w\<rparr>) = faces_stored t s"
  by (simp add: faces_stored_def)

lemma saved_less: "i \<in> saved_faces s \<Longrightarrow> i < 100"
  by (simp add: saved_faces_def)

lemma saved_used: "ram_ok s \<Longrightarrow> saved_faces s \<subseteq> used s"
proof
  fix i assume "ram_ok s" "i \<in> saved_faces s"
  then have "i < 100" "has_flag FACE_SAVED (faceMapping (s_OasisMetadata s) ! i)"
    "faceMapping (s_OasisMetadata s) ! i \<in> {FACEDB_SLOT_EMPTY, FACE_IN_USE, FACE_IN_USE OR FACE_SAVED}"
    by (simp_all add: saved_faces_def ram_ok_def)
  then show "i \<in> used s" by (auto simp: used_def has_flag_def slot_defs)
qed

text \<open>Saving one used face, then the metadata.\<close>

context roomy_flash begin

lemma save_then_update:
  assumes r: "ram_ok s" and w: "ready (fdb_flash s)" "files_ok (entries (fdb_flash s))"
    and u: "unat fid \<in> used s"
    and f: "\<forall>i\<in>saved_faces s - {unat fid}. stored (entries (fdb_flash s) (face_path i)) (unat (s_FaceEntrySize s)) (face_entry s i)"
  shows "\<exists>s1 s'. Facedb_SaveFace fid s = Inr (kStatus_HAL_FlashSuccess, s1) \<and>
    Facedb_UpdateMetadata s1 = Inr (kStatus_HAL_FlashSuccess, s') \<and> synced ready entries s' \<and>
    used s' = used s \<and> saved_faces s' = insert (unat fid) (saved_faces s) \<and> s_FaceDB s' = s_FaceDB s \<and>
    s_FaceEntrySize s' = s_FaceEntrySize s \<and> s_FaceDBLock s' = s_FaceDBLock s"
proof -
  have i: "unat fid < 100" using u by (simp add: used_def)
  obtain w1 nd where sv: "Facedb_SaveFace fid s =
      Inr (kStatus_HAL_FlashSuccess, set_mapping fid (FACE_IN_USE OR FACE_SAVED) (s\<lparr>fdb_flash := w1\<rparr>))" "ready w1"
    "entries w1 = (entries (fdb_flash s))(face_path (unat fid) := nd)"
    "stored nd (unat (s_FaceEntrySize s)) (face_entry s (unat fid))"
    using save_face_ok [OF r w i] by blast
  define s1 where "s1 = set_mapping fid (FACE_IN_USE OR FACE_SAVED) (s\<lparr>fdb_flash := w1\<rparr>)"
  have len: "length (faceMapping (s_OasisMetadata s)) = 100" by (rule ram_ok_len [OF r])
  have r1: "ram_ok s1" unfolding s1_def by (rule ram_ok_mark) (use r u in simp_all)
  have sf: "saved_faces s1 = insert (unat fid) (saved_faces s)" unfolding s1_def
    by (subst saved_set_mapping) (use len i in simp_all)
  have us: "used s1 = used s" unfolding s1_def by (subst used_set_mapping) (use len i u in auto)
  have w1: "ready (fdb_flash s1)" "files_ok (entries (fdb_flash s1))"
    using sv(2,3) files_ok_update [OF w(2) storedD [OF sv(4)]] by (simp_all add: s1_def)
  have "faces_stored (entries (fdb_flash s1)) s1"
    unfolding faces_stored_def sf using f sv(3,4) by (auto simp: s1_def)
  from synced_after_update [OF r1 w1 this] obtain w2 where
    "Facedb_UpdateMetadata s1 = Inr (kStatus_HAL_FlashSuccess, s1\<lparr>fdb_flash := w2\<rparr>)"
    "synced ready entries (s1\<lparr>fdb_flash := w2\<rparr>)" by blast
  then show ?thesis using sv(1) sf us
    by (intro exI [of _ s1] exI [of _ "s1\<lparr>fdb_flash := w2\<rparr>"]) (simp add: s1_def)
qed

lemma add_face_ok:
  assumes s: "synced ready entries s" "s_FaceDBLock s = Some False" and i: "unat fid < 100" "unat fid \<notin> used s"
    and nm: "length name \<le> 31"
    and sz: "0 \<le> sz" "nat sz \<le> length face" "nat sz + 32 \<le> unat (s_FaceEntrySize s)"
  shows "\<exists>s'. HAL_Facedb_AddFace fid (Some name) (Some face) sz s = Inr (kFaceDBStatus_Success, s') \<and>
    synced ready entries s' \<and> s_FaceDBLock s' = Some False \<and> enrolled s fid name (take (nat sz) face) s'"
proof -
  define s0 where "s0 = s\<lparr>s_FaceDBLock := Some True\<rparr>"
  have s0: "ram_ok s0" "ready (fdb_flash s0)" "files_ok (entries (fdb_flash s0))" "faces_stored (entries (fdb_flash s0)) s0"
    using s(1) by (simp_all add: synced_def s0_def)
  have sz0: "nat sz + 32 \<le> unat (s_FaceEntrySize s0)" using sz by (simp add: s0_def)
  have u0: "unat fid \<notin> used s0" using i by (simp add: s0_def)
  obtain sn s1 where s1: "filled s0 fid name (take (nat sz) face) s1"
    "put_name fid (Some name) s0 = Inr sn" "put_feature fid face sz sn = Inr s1"
    using fill_entry [OF s0(1) i(1) nm sz(1,2) sz0] by blast
  note f1 = filled_ram [OF s0(1) s1(1)]
  define s2 where "s2 = add_faces 1 (set_mapping fid FACE_IN_USE s1)"
  have wf1: "fdb_wf s1" using f1(1) by (simp add: ram_ok_def)
  have u1: "unat fid \<notin> used s1" using u0 f1(2) by simp
  note t = wf_take_slot [OF wf1 i(1) u1]
  have r2: "ram_ok s2" unfolding s2_def by (rule ram_ok_slot [OF f1(1) t(1) i(1)]) simp
  have "unat fid \<notin> saved_faces s1" using saved_used [OF f1(1)] u1 by blast
  then have sf2: "saved_faces s2 = saved_faces s0"
    using ram_ok_len [OF f1(1)] i(1) f1(3) by (simp add: s2_def saved_set_mapping)
  have us2: "used s2 = insert (unat fid) (used s0)" using t(2) f1(2) by (simp add: s2_def)
  have fe: "face_entry s2 j = face_entry s1 j" for j by (simp add: s2_def)
  have fd: "fdb_flash s2 = fdb_flash s0" "s_FaceEntrySize s2 = s_FaceEntrySize s0" "s_FaceDBLock s2 = Some True"
    using f1(4-6) by (simp_all add: s2_def s0_def)
  have "stored (entries (fdb_flash s2) (face_path i)) (unat (s_FaceEntrySize s2)) (face_entry s2 i)"
    if "i \<in> saved_faces s2 - {unat fid}" for i
    using that s0(4) s1(1) sf2 by (auto simp: fe fd faces_stored_def filled_def saved_faces_def)
  then obtain s3 s4 where s4: "Facedb_SaveFace fid s2 = Inr (kStatus_HAL_FlashSuccess, s3)"
    "Facedb_UpdateMetadata s3 = Inr (kStatus_HAL_FlashSuccess, s4)" "synced ready entries s4"
    "used s4 = used s2" "saved_faces s4 = insert (unat fid) (saved_faces s2)" "s_FaceDB s4 = s_FaceDB s2"
    "s_FaceEntrySize s4 = s_FaceEntrySize s2" "s_FaceDBLock s4 = s_FaceDBLock s2"
    using save_then_update [of s2 fid] r2 s0(2,3) us2 fd by auto
  have fe4: "face_entry s4 j = face_entry s1 j" for j using fe [of j] s4(6,7) by (simp add: face_entry_def)
  obtain m where m: "mapping_at fid s0 = Inr m" "\<not> has_flag FACE_IN_USE m"
    using i(1) u0 by (auto simp: mapping_at_def used_def)
  have ok: "s_FaceDB s \<noteq> None" using s(1) by (simp add: synced_def ram_ok_def)
  have "HAL_Facedb_AddFace fid (Some name) (Some face) sz s = Inr (kFaceDBStatus_Success, s4\<lparr>s_FaceDBLock := Some False\<rparr>)"
    unfolding HAL_Facedb_AddFace_def
  proof (rule locked_run [OF ok s(2)])
    have "sz < uint (s_FaceEntrySize s)" using sz(1,3) unfolding unat_eq_nat_uint by linarith
    then show "\<not> (uint (s_FaceEntrySize s) \<le> sz \<or> MAX_FACE_DB_SIZE \<le> unat fid \<or> Some face = None)" using i(1) by simp
  qed (use m s1(2,3) s4 fd in \<open>simp_all add: s0_def [symmetric] s2_def [symmetric]\<close>)
  moreover have "enrolled s fid name (take (nat sz) face) (s4\<lparr>s_FaceDBLock := Some False\<rparr>)"
    using s4 us2 sf2 fd s1(1) by (simp add: enrolled_def fe4 filled_def s0_def)
  ultimately show ?thesis using s4(3) by auto
qed

end

section \<open>Deleting a face\<close>

definition removed :: "'w facedb \<Rightarrow> u16 \<Rightarrow> 'w facedb \<Rightarrow> bool" where
  "removed s fid s' \<longleftrightarrow> used s' = used s - {unat fid} \<and> saved_faces s' = saved_faces s - {unat fid} \<and>
     s_FaceEntrySize s' = s_FaceEntrySize s \<and> (\<forall>j<100. j \<noteq> unat fid \<longrightarrow> face_entry s' j = face_entry s j)"

text \<open>The state after the slot is given back and the entry cleared.\<close>

definition given_back :: "u16 \<Rightarrow> u8 list \<Rightarrow> 'w facedb \<Rightarrow> 'w facedb" where
  "given_back fid db s = add_faces (-1) (set_mapping fid FACEDB_SLOT_EMPTY (s\<lparr>s_FaceDB := Some db\<rparr>))"

lemma clear_face_run:
  assumes r: "ram_ok s" and i: "unat fid < 100"
  shows "\<exists>db'. length db' = length (the (s_FaceDB s)) \<and>
    clear_face fid m s = Inr (add_faces (-1) (set_mapping fid (m AND NOT FACE_IN_USE) (s\<lparr>s_FaceDB := Some db'\<rparr>))) \<and>
    (\<forall>j<100. j \<noteq> unat fid \<longrightarrow> face_entry (s\<lparr>s_FaceDB := Some db'\<rparr>) j = face_entry s j)"
proof -
  obtain db where db: "s_FaceDB s = Some db" "100 * unat (s_FaceEntrySize s) \<le> length db"
    using r by (rule ram_ok_table)
  let ?z = "replicate (unat (s_FaceEntrySize s)) (0 :: u8)"
  have fit: "0 + length ?z \<le> unat (s_FaceEntrySize s)" by simp
  note p = put_db_entry [OF db i fit]
  have "length (blit (FACE_ENTRY s fid) ?z db) = length db"
    using entry_fits [OF i db(2)] by (intro length_blit) (simp add: FACE_ENTRY_def)
  then show ?thesis using p(1,3) db by (auto simp: clear_face_def)
qed

lemma given_back_ok:
  assumes r: "ram_ok s" and u: "unat fid \<in> used s" and db: "length db = length (the (s_FaceDB s))"
  shows "ram_ok (given_back fid db s)" and "used (given_back fid db s) = used s - {unat fid}"
    and "saved_faces (given_back fid db s) = saved_faces s - {unat fid}"
proof -
  have i: "unat fid < 100" using u by (simp add: used_def)
  obtain db0 where db0: "s_FaceDB s = Some db0" using r by (rule ram_ok_table)
  have r1: "ram_ok (s\<lparr>s_FaceDB := Some db\<rparr>)" using ram_ok_db [OF r db0] db db0 by simp
  then have wf: "fdb_wf (s\<lparr>s_FaceDB := Some db\<rparr>)" by (simp add: ram_ok_def)
  have u1: "unat fid \<in> used (s\<lparr>s_FaceDB := Some db\<rparr>)" using u by simp
  note t = wf_free_slot [OF wf i u1, of FACEDB_SLOT_EMPTY]
  show "ram_ok (given_back fid db s)" unfolding given_back_def
    by (rule ram_ok_slot [OF r1 t(1) i]) simp_all
  show "used (given_back fid db s) = used s - {unat fid}" using t(2) by (simp add: given_back_def)
  have "\<not> has_flag FACE_SAVED FACEDB_SLOT_EMPTY" by (simp add: has_flag_def slot_defs)
  then show "saved_faces (given_back fid db s) = saved_faces s - {unat fid}"
    using ram_ok_len [OF r] i by (simp add: given_back_def saved_set_mapping)
qed

lemma given_back_fields [simp]:
  "fdb_flash (given_back fid db s) = fdb_flash s" "s_FaceDBLock (given_back fid db s) = s_FaceDBLock s"
  "s_FaceEntrySize (given_back fid db s) = s_FaceEntrySize s" "s_FaceDB (given_back fid db s) = Some db"
  "face_entry (given_back fid db s) j = face_entry (s\<lparr>s_FaceDB := Some db\<rparr>) j"
  "(given_back fid db s)\<lparr>fdb_flash := w\<rparr> = given_back fid db (s\<lparr>fdb_flash := w\<rparr>)"
  by (simp_all add: given_back_def) (simp add: add_faces_def set_mapping_def)

text \<open>A face that was never saved leaves no trace in the metadata.\<close>

lemma given_back_unsaved:
  assumes r: "ram_ok s" and i: "unat fid < 100" and m: "faceMapping (s_OasisMetadata s) ! unat fid = FACE_IN_USE"
    and sf: "saved_faces (given_back fid db s) = saved_faces s"
  shows "meta_matches M (given_back fid db s) = meta_matches M s"
proof -
  let ?m = "faceMapping (s_OasisMetadata s)"
  have "flash_map ?m ! unat fid = FACEDB_SLOT_EMPTY"
    using i m ram_ok_len [OF r] by (simp add: flash_map_def slot_defs)
  then have "(flash_map ?m)[unat fid := FACEDB_SLOT_EMPTY] = flash_map ?m" by (metis list_update_id)
  then have "flash_map (?m[unat fid := FACEDB_SLOT_EMPTY]) = flash_map ?m"
    by (simp add: flash_map_def map_update FACEDB_SLOT_EMPTY_def)
  then show ?thesis using sf by (simp add: meta_matches_def) (simp add: given_back_def)
qed

context roomy_flash begin

lemma delete_saved_run:
  assumes s: "synced ready entries s" and i: "unat fid \<in> used s"
    and m: "faceMapping (s_OasisMetadata s) ! unat fid = FACE_IN_USE OR FACE_SAVED"
  shows "\<exists>s'. Facedb_DeleteFace fid s = Inr (kStatus_HAL_FlashSuccess, s') \<and> synced ready entries s' \<and>
    s_FaceDBLock s' = s_FaceDBLock s \<and> removed s fid s' \<and> entries (fdb_flash s') (face_path (unat fid)) = None"
proof -
  have i100: "unat fid < 100" using i by (simp add: used_def)
  have r: "ram_ok s" and w: "ready (fdb_flash s)" and fo: "files_ok (entries (fdb_flash s))"
    and fs: "faces_stored (entries (fdb_flash s)) s" using s by (simp_all add: synced_def)
  have len: "length (faceMapping (s_OasisMetadata s)) = 100" by (rule ram_ok_len [OF r])
  obtain db where db: "length db = length (the (s_FaceDB s))"
    "clear_face fid (FACE_IN_USE OR FACE_SAVED) s =
      Inr (add_faces (-1) (set_mapping fid ((FACE_IN_USE OR FACE_SAVED) AND NOT FACE_IN_USE) (s\<lparr>s_FaceDB := Some db\<rparr>)))"
    "\<forall>j<100. j \<noteq> unat fid \<longrightarrow> face_entry (s\<lparr>s_FaceDB := Some db\<rparr>) j = face_entry s j"
    using clear_face_run [OF r i100] by blast
  have sv: "unat fid \<in> saved_faces s" using i100 m by (simp add: saved_faces_def)
  then have "is_file (entries (fdb_flash s) (face_path (unat fid)))" using fs by (simp add: faces_stored_def stored_def)
  from rm_file [OF w files_ok_parent(2) [OF fo i100] this]
  obtain w1 where w1: "FWK_Flash_Rm (Some (face_path (unat fid))) (fdb_flash s) = Inr (kStatus_HAL_FlashSuccess, w1)"
    "ready w1" "entries w1 = (entries (fdb_flash s))(face_path (unat fid) := None)" by blast
  define s1 where "s1 = given_back fid db (s\<lparr>fdb_flash := w1\<rparr>)"
  have bits: "(FACE_IN_USE OR FACE_SAVED) AND NOT FACE_IN_USE = FACE_SAVED"
    "(FACE_SAVED AND NOT FACE_SAVED) AND NOT FACE_UPDATED = FACEDB_SLOT_EMPTY" by (simp_all add: slot_defs)
  have del: "Facedb_DeleteFaceFromFlash fid (add_faces (-1) (set_mapping fid FACE_SAVED (s\<lparr>s_FaceDB := Some db\<rparr>))) =
      Inr (kStatus_HAL_FlashSuccess, s1)"
    using w1(1) i100 len bits(2)
    by (simp add: Facedb_DeleteFaceFromFlash_def on_flash_def GeneratePath_unat mapping_at_def s1_def given_back_def
        set_mapping_def add_faces_def)
  have r0: "ram_ok (s\<lparr>fdb_flash := w1\<rparr>)" "unat fid \<in> used (s\<lparr>fdb_flash := w1\<rparr>)"
    "length db = length (the (s_FaceDB (s\<lparr>fdb_flash := w1\<rparr>)))" using r i db(1) by simp_all
  note gb = given_back_ok [OF r0, folded s1_def]
  have c: "clean None" by (simp add: clean_def plain_def LFS_GetDefaultFileConfig_def)
  have f1: "ready (fdb_flash s1)" "files_ok (entries (fdb_flash s1))"
    using w1(2,3) files_ok_update [OF fo c, of "face_path (unat fid)"] by (simp_all add: s1_def)
  have fe: "face_entry s1 j = face_entry s j" if "j < 100" "j \<noteq> unat fid" for j
    using db(3) that by (simp add: s1_def face_entry_def)
  have E1: "s_FaceEntrySize s1 = s_FaceEntrySize s" by (simp add: s1_def)
  have "faces_stored (entries (fdb_flash s1)) s1"
    using fs gb(3) w1(3) fe by (auto simp: faces_stored_def saved_faces_def s1_def)
  from synced_after_update [OF gb(1) f1 this] obtain w2 where
    w2: "Facedb_UpdateMetadata s1 = Inr (kStatus_HAL_FlashSuccess, s1\<lparr>fdb_flash := w2\<rparr>)"
    "synced ready entries (s1\<lparr>fdb_flash := w2\<rparr>)" by blast
  have e2: "entries w2 (face_path (unat fid)) = None"
  proof -
    obtain w' nd bs where "Facedb_UpdateMetadata s1 = Inr (kStatus_HAL_FlashSuccess, s1\<lparr>fdb_flash := w'\<rparr>)"
      "entries w' = (entries (fdb_flash s1))(METADATA_FILE_NAME := nd)"
      using update_metadata_ok [OF gb(1) f1] by blast
    moreover from this w2(1) have "w' = w2" by (metis Inr_inject facedb.select_convs(6) facedb.surjective facedb.update_convs(6) prod.inject)
    ultimately show ?thesis using w1(3) by (simp add: s1_def)
  qed
  have mp: "mapping_at fid s = Inr (FACE_IN_USE OR FACE_SAVED)" using i100 m by (simp add: mapping_at_def)
  have "Facedb_DeleteFace fid s = Inr (kStatus_HAL_FlashSuccess, s1\<lparr>fdb_flash := w2\<rparr>)"
    unfolding Facedb_DeleteFace_def mp using db(2) del w2(1) by (simp add: bits(1))
  moreover have "removed s fid (s1\<lparr>fdb_flash := w2\<rparr>)"
    unfolding removed_def using gb(2,3) fe E1 by auto
  ultimately show ?thesis using w2(2) e2 by (intro exI [of _ "s1\<lparr>fdb_flash := w2\<rparr>"]) (simp add: s1_def)
qed

lemma delete_unsaved_run:
  assumes s: "synced ready entries s" and i: "unat fid \<in> used s"
    and m: "faceMapping (s_OasisMetadata s) ! unat fid = FACE_IN_USE"
  shows "\<exists>s'. Facedb_DeleteFace fid s = Inr (kStatus_HAL_FlashSuccess, s') \<and> synced ready entries s' \<and>
    s_FaceDBLock s' = s_FaceDBLock s \<and> removed s fid s'"
proof -
  have i100: "unat fid < 100" using i by (simp add: used_def)
  have r: "ram_ok s" and fs: "faces_stored (entries (fdb_flash s)) s" using s by (simp_all add: synced_def)
  obtain db where db: "length db = length (the (s_FaceDB s))"
    "clear_face fid FACE_IN_USE s =
      Inr (add_faces (-1) (set_mapping fid (FACE_IN_USE AND NOT FACE_IN_USE) (s\<lparr>s_FaceDB := Some db\<rparr>)))"
    "\<forall>j<100. j \<noteq> unat fid \<longrightarrow> face_entry (s\<lparr>s_FaceDB := Some db\<rparr>) j = face_entry s j"
    using clear_face_run [OF r i100] by blast
  define s1 where "s1 = given_back fid db s"
  note gb = given_back_ok [OF r i db(1), folded s1_def]
  have bits: "FACE_IN_USE AND NOT FACE_IN_USE = FACEDB_SLOT_EMPTY" by (simp add: slot_defs)
  have flags: "\<not> has_flag FACE_SAVED FACE_IN_USE" "\<not> has_flag FACE_UPDATED FACE_IN_USE"
    by (simp_all add: has_flag_def slot_defs)
  have no: "unat fid \<notin> saved_faces s" using m flags by (simp add: saved_faces_def)
  then have sf: "saved_faces s1 = saved_faces s" using gb(3) by simp
  have mp: "mapping_at fid s = Inr FACE_IN_USE" using i100 m by (simp add: mapping_at_def)
  have fe: "face_entry s1 j = face_entry s j" if "j < 100" "j \<noteq> unat fid" for j
    using db(3) that by (simp add: s1_def)
  have "Facedb_DeleteFace fid s = Inr (kStatus_HAL_FlashSuccess, s1)"
    unfolding Facedb_DeleteFace_def mp using db(2) flags bits by (simp add: s1_def given_back_def)
  moreover have "removed s fid s1"
    unfolding removed_def using gb(2,3) fe by (simp add: s1_def)
  moreover have "synced ready entries s1"
  proof -
    have "stored (entries (fdb_flash s1) (face_path i)) (unat (s_FaceEntrySize s1)) (face_entry s1 i)"
      if "i \<in> saved_faces s1" for i
    proof -
      have "i \<in> saved_faces s" "i \<noteq> unat fid" "i < 100" using that sf no saved_less by auto
      then show ?thesis using fs fe [of i] by (simp add: faces_stored_def) (simp add: s1_def)
    qed
    then have "faces_stored (entries (fdb_flash s1)) s1" by (simp add: faces_stored_def)
    then show ?thesis using s gb(1) given_back_unsaved [OF r i100 m sf [unfolded s1_def]]
      by (simp add: synced_def s1_def)
  qed
  ultimately show ?thesis by (intro exI [of _ s1]) (simp add: s1_def)
qed

lemma delete_face_ok:
  assumes s: "synced ready entries s" "s_FaceDBLock s = Some False" and i: "unat fid \<in> used s"
  shows "\<exists>s'. HAL_Facedb_DelFaceWithID fid s = Inr (kFaceDBStatus_Success, s') \<and> synced ready entries s' \<and>
    s_FaceDBLock s' = Some False \<and> removed s fid s'"
proof -
  define s0 where "s0 = s\<lparr>s_FaceDBLock := Some True\<rparr>"
  have s0: "synced ready entries s0" "unat fid \<in> used s0" using s(1) i by (simp_all add: s0_def)
  have i100: "unat fid < 100" "fid \<noteq> INVALID_ID" using i by (auto simp: used_def)
  let ?m = "faceMapping (s_OasisMetadata s0) ! unat fid"
  have fl: "has_flag FACE_IN_USE ?m" using s0(2) by (simp add: used_def)
  have "?m \<in> {FACEDB_SLOT_EMPTY, FACE_IN_USE, FACE_IN_USE OR FACE_SAVED}"
    using s0(1) i100 by (simp add: synced_def ram_ok_def)
  then have "?m = FACE_IN_USE \<or> ?m = FACE_IN_USE OR FACE_SAVED" using fl by auto
  then obtain s1 where s1: "Facedb_DeleteFace fid s0 = Inr (kStatus_HAL_FlashSuccess, s1)" "synced ready entries s1"
    "s_FaceDBLock s1 = s_FaceDBLock s0" "removed s0 fid s1"
    using delete_saved_run [OF s0] delete_unsaved_run [OF s0] by blast
  have ok: "s_FaceDB s \<noteq> None" using s(1) by (simp add: synced_def ram_ok_def)
  have mp: "mapping_at fid s0 = Inr ?m" using i100 by (simp add: mapping_at_def)
  have "HAL_Facedb_DelFaceWithID fid s = Inr (kFaceDBStatus_Success, s1\<lparr>s_FaceDBLock := Some False\<rparr>)"
    unfolding HAL_Facedb_DelFaceWithID_def
    by (rule locked_run [OF ok s(2)])
       (use s1 i100 mp fl in \<open>simp_all add: s0_def [symmetric] flash_to_status_def\<close>, simp add: s0_def)
  moreover have "removed s fid (s1\<lparr>s_FaceDBLock := Some False\<rparr>)" using s1(4) by (simp add: removed_def s0_def)
  ultimately show ?thesis using s1(2) by auto
qed

end

section \<open>Restart\<close>

lemma stored_length: "stored nd k bs \<Longrightarrow> length bs = k"
  unfolding stored_def by (metis length_take min.absorb2)

text \<open>The file's static variables after a reset: no table, no mutex; and the effect of a load.\<close>

definition cold :: "'w facedb \<Rightarrow> bool" where
  "cold t \<longleftrightarrow> s_FaceDB t = None \<and> s_FaceDBLock t = None \<and> length (stack_bytes t) = 8 \<and>
     length (encode_metadata (s_OasisMetadata t)) = 120"

definition restored :: "'w facedb \<Rightarrow> 'w facedb \<Rightarrow> bool" where
  "restored s t \<longleftrightarrow> used t = saved_faces s \<and> saved_faces t = saved_faces s \<and> s_FaceEntrySize t = s_FaceEntrySize s \<and>
     (\<forall>i\<in>saved_faces s. face_entry t i = face_entry s i)"

text \<open>The map of the slots after the first \<open>k\<close> have been loaded, from the map in the flash.\<close>

definition loaded_map :: "nat \<Rightarrow> 'w facedb \<Rightarrow> u8 list" where
  "loaded_map k s = map (\<lambda>i. if i < k \<and> i \<in> saved_faces s then FACE_IN_USE OR FACE_SAVED
     else flash_map (faceMapping (s_OasisMetadata s)) ! i) [0..<100]"

lemma flash_map_nth:
  assumes "ram_ok s" and "i < 100"
  shows "flash_map (faceMapping (s_OasisMetadata s)) ! i = (if i \<in> saved_faces s then FACE_SAVED else FACEDB_SLOT_EMPTY)"
proof -
  let ?v = "faceMapping (s_OasisMetadata s) ! i"
  have "?v \<in> {FACEDB_SLOT_EMPTY, FACE_IN_USE, FACE_IN_USE OR FACE_SAVED}" using assms by (simp add: ram_ok_def)
  then have "?v AND NOT FACE_IN_USE = (if has_flag FACE_SAVED ?v then FACE_SAVED else FACEDB_SLOT_EMPTY)"
    by (auto simp: has_flag_def slot_defs)
  then show ?thesis using assms ram_ok_len [OF assms(1)] by (simp add: flash_map_def saved_faces_def)
qed

lemma loaded_map_nth:
  assumes "ram_ok s" and "i < 100"
  shows "loaded_map k s ! i = (if i \<in> saved_faces s then if i < k then FACE_IN_USE OR FACE_SAVED else FACE_SAVED
    else FACEDB_SLOT_EMPTY)"
  using assms flash_map_nth [OF assms] by (simp add: loaded_map_def)

lemma loaded_map_step:
  assumes "ram_ok s" and "k < 100"
  shows "k \<in> saved_faces s \<Longrightarrow> (loaded_map k s)[k := FACE_IN_USE OR FACE_SAVED] = loaded_map (Suc k) s"
    and "k \<notin> saved_faces s \<Longrightarrow> loaded_map k s = loaded_map (Suc k) s"
proof -
  have l: "length (loaded_map j s) = 100" for j by (simp add: loaded_map_def)
  show "(loaded_map k s)[k := FACE_IN_USE OR FACE_SAVED] = loaded_map (Suc k) s" if "k \<in> saved_faces s"
    using that assms by (intro nth_equalityI) (auto simp: l loaded_map_nth nth_list_update)
  show "loaded_map k s = loaded_map (Suc k) s" if "k \<notin> saved_faces s"
    using that assms by (intro nth_equalityI) (auto simp: l loaded_map_nth less_Suc_eq)
qed

definition loading :: "nat \<Rightarrow> 'w facedb \<Rightarrow> 'w facedb \<Rightarrow> bool" where
  "loading k s t \<longleftrightarrow> meta_matches (s_OasisMetadata t\<lparr>faceMapping := flash_map (faceMapping (s_OasisMetadata s))\<rparr>) s \<and>
     faceMapping (s_OasisMetadata t) = loaded_map k s \<and>
     s_FaceEntrySize t = s_FaceEntrySize s \<and> s_FaceDBLock t = Some False \<and> length (stack_bytes t) = 8 \<and>
     (\<exists>db. s_FaceDB t = Some db \<and> length db = 100 * unat (s_FaceEntrySize s)) \<and>
     (\<forall>i\<in>saved_faces s. i < k \<longrightarrow> face_entry t i = face_entry s i)"

lemma face_entry_metadata [simp]: "face_entry (t\<lparr>s_OasisMetadata := m\<rparr>) i = face_entry t i"
  by (simp add: face_entry_def)

lemma top_level_parent:
  assumes "47 \<notin> set p" and "length p < 256"
  shows "has_parent tr p"
proof -
  have "base_offset p n = 0" if "n \<le> length p" for n
    using that
  proof (induction n)
    case (Suc n)
    have "(p @ [0]) ! Suc n \<noteq> 47"
    proof
      assume a: "(p @ [0]) ! Suc n = 47"
      then have "Suc n < length p" using Suc.prems by (auto simp: nth_append split: if_splits)
      then show False using a assms(1) by (auto simp: nth_append dest: nth_mem)
    qed
    then show ?case using Suc by simp
  qed simp
  then show ?thesis using assms(2) by (simp add: has_parent_def)
qed

lemma unat_u16_less: "unat (x :: u16) < 65536"
  using unsigned_less [of x] by simp

lemma ucast_u16_u32 [simp]: "ucast (ucast (E :: u16) :: u32) = E"
  by transfer (simp add: min_def)

lemma blit_drop: "off \<le> length db \<Longrightarrow> take off db @ blit 0 bs (drop off db) = blit off bs db"
  by (simp add: blit_def add.commute)

context framework_flash begin

lemma load_face_run:
  assumes r: "ram_ok s" and w: "ready (fdb_flash t)" "files_ok (entries (fdb_flash t))" and l: "loading k s t"
    and k: "k \<in> saved_faces s" and st: "stored (entries (fdb_flash t) (face_path k)) (unat (s_FaceEntrySize s)) (face_entry s k)"
  shows "\<exists>t1. load_face (of_nat k) t = Inr (kStatus_HAL_FlashSuccess, t1) \<and>
    loading (Suc k) s (set_mapping (of_nat k) (FACE_SAVED OR FACE_IN_USE) t1) \<and>
    ready (fdb_flash t1) \<and> entries (fdb_flash t1) = entries (fdb_flash t)"
proof -
  have k100: "k < 100" using k by (rule saved_less)
  let ?E = "unat (s_FaceEntrySize s)" and ?n = "ucast (s_FaceEntrySize s) :: u32"
  obtain db where db: "s_FaceDB t = Some db" "length db = 100 * ?E" using l by (auto simp: loading_def)
  have fid: "unat (of_nat k :: u16) = k" using k100 by (simp add: unat_of_nat)
  have E: "s_FaceEntrySize t = s_FaceEntrySize s" "faceEntrySize (s_OasisMetadata t) = s_FaceEntrySize s"
    using l k by (auto simp: loading_def meta_matches_def)
  have fit: "k * ?E + ?E \<le> length db" using entry_fits [OF k100] db(2) by simp
  have n: "unat ?n = ?E" by (rule unat_u16_u32)
  have len: "length (face_entry s k) = ?E" using st by (rule stored_length)
  have st': "stored (entries (fdb_flash t) (face_path k)) (unat ?n) (face_entry s k)" using st n by simp
  have buf: "unat ?n \<le> length (drop (k * ?E) db)" using fit n by simp
  from read_stored [OF w(1) files_ok_parent(2) [OF w(2) k100] st' buf] obtain w1 where
    rd: "FWK_Flash_Read (Some (face_path k)) (Some (drop (k * ?E) db)) 0 (Some ?n) (fdb_flash t) =
      Inr ((kStatus_HAL_FlashSuccess, Some (blit 0 (face_entry s k) (drop (k * ?E) db)), Some ?n), w1)"
      "ready w1" "entries w1 = entries (fdb_flash t)" by blast
  define t1 where "t1 = t\<lparr>fdb_flash := w1, s_FaceDB := Some (blit (k * ?E) (face_entry s k) db),
    s_OasisMetadata := s_OasisMetadata t\<lparr>faceEntrySize := s_FaceEntrySize s\<rparr>\<rparr>"
  have "load_face (of_nat k) t = Inr (kStatus_HAL_FlashSuccess, t1)"
    using rd(1) db(1) E fid fit
    by (simp add: load_face_def face_db_def FACE_ENTRY_def GeneratePath_unat on_flash_def blit_drop t1_def)
  moreover have fe1: "face_entry t1 j = slice (j * ?E) ?E (blit (k * ?E) (face_entry s k) db)" for j
    by (subst face_entry_def) (simp add: t1_def E)
  have "face_entry t1 i = face_entry s i" if "i \<in> saved_faces s" "i < Suc k" for i
  proof (cases "i = k")
    case True
    then show ?thesis using slice_blit_same [of "k * ?E" "face_entry s k" db] fit len by (simp add: fe1)
  next
    case False
    have i: "i < 100" using that(1) by (rule saved_less)
    have "slice (i * ?E) ?E (blit (k * ?E) (face_entry s k) db) = slice (i * ?E) ?E db"
      using slice_blit_apart entry_fits [OF i] fit db(2) len entries_apart [OF False, of ?E] by (metis le_refl)
    then have "face_entry t1 i = face_entry t i" using db E unfolding fe1 by (simp add: face_entry_def)
    then show ?thesis using l that False by (simp add: loading_def)
  qed
  moreover have "(loaded_map k s)[k := FACE_SAVED OR FACE_IN_USE] = loaded_map (Suc k) s"
    using loaded_map_step(1) [OF r k100 k] by (simp add: or.commute)
  moreover have "length (blit (k * ?E) (face_entry s k) db) = 100 * ?E"
    using fit len db(2) by (subst length_blit) simp_all
  ultimately show ?thesis using l rd fid E
    by (intro exI [of _ t1]) (simp add: loading_def meta_matches_def set_mapping_def, simp add: t1_def)
qed

lemma load_loop_run:
  assumes r: "ram_ok s" and fs: "faces_stored T s" and fo: "files_ok T"
  shows "ready (fdb_flash t) \<Longrightarrow> entries (fdb_flash t) = T \<Longrightarrow> loading k s t \<Longrightarrow> k + n = 100 \<Longrightarrow>
    \<exists>t'. load_loop n (of_nat k) kStatus_HAL_FlashSuccess False t = Inr ((kStatus_HAL_FlashSuccess, False), t') \<and>
      loading 100 s t' \<and> ready (fdb_flash t') \<and> entries (fdb_flash t') = T"
proof (induction n arbitrary: k t)
  case (Suc n)
  have k: "k < 100" using Suc.prems(4) by simp
  have fid: "unat (of_nat k :: u16) = k" using k by (simp add: unat_of_nat)
  have fm: "faceMapping (s_OasisMetadata t) = loaded_map k s" using Suc.prems(3) by (simp add: loading_def)
  show ?case
  proof (cases "k \<in> saved_faces s")
    case True
    have m: "mapping_at (of_nat k) t = Inr FACE_SAVED"
      using k fid True by (simp add: mapping_at_def fm loaded_map_nth [OF r k])
    have "stored (entries (fdb_flash t) (face_path k)) (unat (s_FaceEntrySize s)) (face_entry s k)"
      using fs True Suc.prems(2) by (simp add: faces_stored_def)
    from load_face_run [OF r Suc.prems(1) _ Suc.prems(3) True this] fo Suc.prems(2) obtain t1 where
      t1: "load_face (of_nat k) t = Inr (kStatus_HAL_FlashSuccess, t1)"
        "loading (Suc k) s (set_mapping (of_nat k) (FACE_SAVED OR FACE_IN_USE) t1)"
        "ready (fdb_flash t1)" "entries (fdb_flash t1) = T" by auto
    have f: "has_flag FACE_SAVED FACE_SAVED" by (simp add: has_flag_def)
    have "load_loop (Suc n) (of_nat k) kStatus_HAL_FlashSuccess False t =
      load_loop n (of_nat (Suc k)) kStatus_HAL_FlashSuccess False (set_mapping (of_nat k) (FACE_SAVED OR FACE_IN_USE) t1)"
      using m t1(1) f by (simp add: loaded_face_def load_stops_def add.commute)
    then show ?thesis using Suc.IH [OF _ _ t1(2)] t1(3,4) Suc.prems(4) by simp
  next
    case False
    have m: "mapping_at (of_nat k) t = Inr FACEDB_SLOT_EMPTY"
      using k fid False by (simp add: mapping_at_def fm loaded_map_nth [OF r k])
    have f: "\<not> has_flag FACE_SAVED FACEDB_SLOT_EMPTY" "\<not> has_flag FACE_UPDATED FACEDB_SLOT_EMPTY"
      by (simp_all add: has_flag_def slot_defs)
    have loading_next: "loading (Suc k) s t"
      using Suc.prems(3) loaded_map_step(2) [OF r k False] False by (auto simp: loading_def less_Suc_eq)
    have "load_loop (Suc n) (of_nat k) kStatus_HAL_FlashSuccess False t =
      load_loop n (of_nat (Suc k)) kStatus_HAL_FlashSuccess False t"
      using m f by (simp add: add.commute)
    then show ?thesis using Suc.IH [of t "Suc k"] Suc.prems loading_next by simp
  qed
qed simp

end

lemma loading_done:
  assumes r: "ram_ok s" and l: "loading 100 s t"
    and t': "t' = t\<lparr>s_OasisMetadata := s_OasisMetadata t\<lparr>faceEntrySize := s_FaceEntrySize t\<rparr>\<rparr>"
  shows "ram_ok t'" and "restored s t'" and "meta_matches M s \<Longrightarrow> meta_matches M t'"
proof -
  have fm: "faceMapping (s_OasisMetadata t') = loaded_map 100 s" using l by (simp add: loading_def t')
  have len: "length (loaded_map 100 s) = 100" by (simp add: loaded_map_def)
  have nth: "loaded_map 100 s ! i = (if i \<in> saved_faces s then FACE_IN_USE OR FACE_SAVED else FACEDB_SLOT_EMPTY)"
    if "i < 100" for i using loaded_map_nth [OF r that, of 100] that by simp
  have no: "\<not> has_flag FACE_SAVED FACEDB_SLOT_EMPTY" by (simp add: has_flag_def slot_defs)
  have us: "used t' = saved_faces s" unfolding used_def fm using nth saved_less by (auto split: if_splits)
  have sf: "saved_faces t' = saved_faces s"
    unfolding saved_faces_def [of t'] fm using nth no saved_less by (auto split: if_splits)
  have "face_entry t' i = face_entry s i" if "i \<in> saved_faces s" for i
    using l that saved_less [OF that] by (simp add: loading_def t')
  then show "restored s t'" using l us sf by (simp add: restored_def loading_def t')
  have sub: "saved_faces s \<subseteq> {..<100}" using saved_less by auto
  have "card (saved_faces s) \<le> 100" using card_mono [OF _ sub] by simp
  then have "unat (of_nat (card (saved_faces s)) :: u16) = card (saved_faces s)" by (simp add: unat_of_nat)
  then have "unat (numberFaces (s_OasisMetadata t')) = card (used t')"
    using l us by (simp add: loading_def meta_matches_def t')
  then show "ram_ok t'" using r l fm len nth us
    by (auto simp: ram_ok_def fdb_wf_def loading_def meta_matches_def t')
  have "flash_map (loaded_map 100 s) = flash_map (faceMapping (s_OasisMetadata s))"
  proof (intro nth_equalityI)
    fix i assume "i < length (flash_map (loaded_map 100 s))"
    then have i: "i < 100" by (simp add: flash_map_def len)
    then have "flash_map (loaded_map 100 s) ! i = loaded_map 100 s ! i AND NOT FACE_IN_USE"
      by (simp add: flash_map_def len)
    then show "flash_map (loaded_map 100 s) ! i = flash_map (faceMapping (s_OasisMetadata s)) ! i"
      unfolding flash_map_nth [OF r i] using nth [OF i] by (simp add: slot_defs)
  qed (simp add: flash_map_def len ram_ok_len [OF r])
  then show "meta_matches M s \<Longrightarrow> meta_matches M t'"
    using l fm sf by (simp add: meta_matches_def loading_def t')
qed

text \<open>The table and the mutex of a started program.\<close>

lemma init_allocates:
  assumes t: "cold t" and f: "0 < unat featureSize" "unat featureSize + 32 < 65536"
    and A: "heap_block A (fdb_calls t) (100 * (unat featureSize + 32)) = Some db"
      "length db = 100 * (unat featureSize + 32)" "sem_ok A (fdb_calls t + 1)"
  shows "\<exists>n. unat (featureSize + 32) = unat featureSize + 32 \<and>
    HAL_Facedb_Init A featureSize t = Facedb_Init (t\<lparr>s_FaceDBSize := n, s_FaceDB := Some db,
      s_FaceEntrySize := featureSize + 32, s_FaceDBLock := Some False, fdb_calls := fdb_calls t + 2\<rparr>)"
proof -
  have E: "unat (featureSize + 32) = unat featureSize + 32" using f(2) by (simp add: unat_word_ariths)
  have nz: "featureSize \<noteq> 0" using f(1) by auto
  define n :: u32 where "n = (ucast featureSize + 32) * 100"
  have "unat n = 100 * (unat featureSize + 32)"
    using f(2) by (simp add: n_def unat_word_ariths unat_u16_u32)
  then have al: "alloc_db A featureSize t = (kFaceDBStatus_Success, t\<lparr>s_FaceDBSize := n, s_FaceDB := Some db,
      fdb_calls := fdb_calls t + 1, s_FaceEntrySize := featureSize + 32\<rparr>)"
    using t nz A by (simp add: alloc_db_def cold_def n_def)
  have "HAL_Facedb_Init A featureSize t = Facedb_Init (t\<lparr>s_FaceDBSize := n, s_FaceDB := Some db,
      s_FaceEntrySize := featureSize + 32, s_FaceDBLock := Some False, fdb_calls := fdb_calls t + 2\<rparr>)"
    using al A(3) t by (simp add: HAL_Facedb_Init_def cold_def)
  then show ?thesis using E by blast
qed

context framework_flash begin

lemma init_run:
  assumes s: "synced ready entries s" and w: "ready (fdb_flash t)" "entries (fdb_flash t) = entries (fdb_flash s)"
    and t: "s_FaceEntrySize t = s_FaceEntrySize s" "s_FaceDBLock t = Some False" "length (stack_bytes t) = 8"
      "length (encode_metadata (s_OasisMetadata t)) = 120"
      "s_FaceDB t = Some db" "length db = 100 * unat (s_FaceEntrySize s)"
  shows "\<exists>t'. Facedb_Init t = Inr (kFaceDBStatus_Success, t') \<and> synced ready entries t' \<and>
    s_FaceDBLock t' = Some False \<and> restored s t'"
proof -
  let ?T = "entries (fdb_flash s)"
  have r: "ram_ok s" and fo: "files_ok ?T" and fs: "faces_stored ?T s" using s by (simp_all add: synced_def)
  obtain bs where bs: "stored (?T METADATA_FILE_NAME) 120 bs" "meta_matches (decode_metadata bs) s"
    using s by (auto simp: synced_def)
  have "has_parent (entries (fdb_flash t)) OASIS_FACE_DB_DIR" by (rule top_level_parent) (simp_all add: OASIS_FACE_DB_DIR_def)
  moreover have "entries (fdb_flash t) OASIS_FACE_DB_DIR \<noteq> None" using fo w(2) by (simp add: files_ok_def)
  ultimately obtain w1 where w1: "FWK_Flash_Mkdir (Some OASIS_FACE_DB_DIR) (fdb_flash t) = Inr (kStatus_HAL_FlashDirExist, w1)"
    "ready w1" "entries w1 = ?T" using mkdir_there [OF w(1)] w(2) by auto
  let ?buf = "encode_metadata (s_OasisMetadata t)"
  have u120: "unat (120 :: u32) = 120" by simp
  have "stored (entries w1 METADATA_FILE_NAME) (unat metadata_size) bs" "has_parent (entries w1) METADATA_FILE_NAME"
    "unat metadata_size \<le> length ?buf" using bs(1) files_ok_parent(1) [OF fo] t(4) by (simp_all add: w1(3))
  from read_stored [OF w1(2) this(2,1,3)] obtain w2 where
    w2: "FWK_Flash_Read (Some METADATA_FILE_NAME) (Some ?buf) 0 (Some metadata_size) w1 =
      Inr ((kStatus_HAL_FlashSuccess, Some bs, Some metadata_size), w2)" "ready w2" "entries w2 = ?T"
    using blit_all [of bs ?buf] stored_length [OF bs(1)] t(4) by (auto simp: w1(3))
  define t2 where "t2 = t\<lparr>fdb_flash := w2, s_OasisMetadata := decode_metadata bs\<rparr>"
  have "loading 0 s t2" using bs(2) t(1,2,3,5,6) r
    by (auto simp: loading_def meta_matches_def t2_def loaded_map_def ram_ok_len flash_map_def intro!: nth_equalityI)
  from load_loop_run [OF r fs fo _ _ this, of 100] w2(2,3) obtain t3 where
    t3: "load_loop 100 0 kStatus_HAL_FlashSuccess False t2 = Inr ((kStatus_HAL_FlashSuccess, False), t3)"
      "loading 100 s t3" "ready (fdb_flash t3)" "entries (fdb_flash t3) = ?T" by (auto simp: t2_def)
  define t4 where "t4 = t3\<lparr>s_OasisMetadata := s_OasisMetadata t3\<lparr>faceEntrySize := s_FaceEntrySize t3\<rparr>\<rparr>"
  note fin = loading_done [OF r t3(2) t4_def]
  have "Facedb_Load t2 = Inr (kStatus_HAL_FlashSuccess, t3)" using t3(1) by (simp add: Facedb_Load_def)
  moreover have "\<not> s_FaceEntrySize s < faceEntrySize (decode_metadata bs)" using bs(2) by (auto simp: meta_matches_def)
  ultimately have "Facedb_Init t = Inr (kFaceDBStatus_Success, t4)"
    unfolding Facedb_Init_def on_flash_def using w1(1) w2(1) bs(2) t(1)
    by (simp add: Let_def meta_matches_def t2_def t4_def flash_to_status_def)
  moreover have "faces_stored ?T t4"
    using fs fin(2) by (simp add: faces_stored_def restored_def)
  then have "synced ready entries t4" using fin(1) t3(3,4) fo bs fin(3)
    by (auto simp: synced_def t4_def)
  ultimately show ?thesis using fin(2) t3(2) by (auto simp: t4_def loading_def)
qed

lemma restart_ok:
  assumes s: "synced ready entries s" and w: "ready (fdb_flash t)" "entries (fdb_flash t) = entries (fdb_flash s)"
    and t: "cold t" and E: "unat featureSize + 32 = unat (s_FaceEntrySize s)"
    and A: "heap_block A (fdb_calls t) (100 * unat (s_FaceEntrySize s)) = Some db"
      "length db = 100 * unat (s_FaceEntrySize s)" "sem_ok A (fdb_calls t + 1)"
  shows "\<exists>t'. HAL_Facedb_Init A featureSize t = Inr (kFaceDBStatus_Success, t') \<and> synced ready entries t' \<and>
    s_FaceDBLock t' = Some False \<and> restored s t'"
proof -
  have "32 < unat (s_FaceEntrySize s)" using s by (simp add: synced_def ram_ok_def)
  then have f: "0 < unat featureSize" "unat featureSize + 32 < 65536" using E unat_u16_less [of "s_FaceEntrySize s"] by simp_all
  obtain n where n: "unat (featureSize + 32) = unat featureSize + 32"
    "HAL_Facedb_Init A featureSize t = Facedb_Init (t\<lparr>s_FaceDBSize := n, s_FaceDB := Some db,
      s_FaceEntrySize := featureSize + 32, s_FaceDBLock := Some False, fdb_calls := fdb_calls t + 2\<rparr>)"
    using init_allocates [OF t f] A E by metis
  have "featureSize + 32 = s_FaceEntrySize s" using n(1) E by (simp add: word_unat_eq_iff)
  then show ?thesis using n(2) init_run [OF s, of "t\<lparr>s_FaceDBSize := n, s_FaceDB := Some db,
      s_FaceEntrySize := featureSize + 32, s_FaceDBLock := Some False, fdb_calls := fdb_calls t + 2\<rparr>" db] w t A(2)
    by (simp add: cold_def)
qed

end

text \<open>The first start on a volume that has no database: the directory and the metadata are created.\<close>

definition no_database :: "(u8 list \<Rightarrow> node option) \<Rightarrow> bool" where
  "no_database t \<longleftrightarrow> t OASIS_FACE_DB_DIR = None \<and> t METADATA_FILE_NAME = None \<and> (\<forall>i<100. t (face_path i) = None)"

definition fresh_table :: "'w facedb \<Rightarrow> 'w facedb" where
  "fresh_table t = (let s = Facedb_SetMetaDataDefault t in
     s\<lparr>s_OasisMetadata := s_OasisMetadata s\<lparr>faceEntrySize := s_FaceEntrySize t\<rparr>\<rparr>)"

lemma fresh_table_ok:
  assumes "32 < unat (s_FaceEntrySize t)" and "length (stack_bytes t) = 8" and "s_FaceDB t = Some db"
    and "100 * unat (s_FaceEntrySize t) \<le> length db"
  shows "ram_ok (fresh_table t)" and "used (fresh_table t) = {}" and "saved_faces (fresh_table t) = {}"
proof -
  have no: "\<not> has_flag FACE_SAVED FACEDB_SLOT_EMPTY" by (simp add: has_flag_def slot_defs)
  have fm: "faceMapping (s_OasisMetadata (fresh_table t)) = replicate 100 FACEDB_SLOT_EMPTY"
    by (simp add: fresh_table_def Facedb_SetMetaDataDefault_def Let_def)
  show u: "used (fresh_table t) = {}" by (auto simp: used_def fm)
  show "saved_faces (fresh_table t) = {}" using no by (auto simp: saved_faces_def fm)
  show "ram_ok (fresh_table t)" using assms u fm
    by (simp add: ram_ok_def fdb_wf_def) (simp add: fresh_table_def Facedb_SetMetaDataDefault_def Let_def)
qed

context roomy_flash begin

lemma first_init_run:
  assumes w: "ready (fdb_flash t)" "no_database (entries (fdb_flash t))"
    and t: "32 < unat (s_FaceEntrySize t)" "s_FaceDBLock t = Some False" "length (stack_bytes t) = 8"
      "length (encode_metadata (s_OasisMetadata t)) = 120" "length (reservedData (s_OasisMetadata t)) = 6"
      "length (padding (s_OasisMetadata t)) = 2"
      "s_FaceDB t = Some db" "100 * unat (s_FaceEntrySize t) \<le> length db"
  shows "\<exists>t'. Facedb_Init t = Inr (kFaceDBStatus_Success, t') \<and> synced ready entries t' \<and>
    s_FaceDBLock t' = Some False \<and> used t' = {} \<and> saved_faces t' = {} \<and> s_FaceEntrySize t' = s_FaceEntrySize t"
proof -
  let ?T = "entries (fdb_flash t)"
  have par: "has_parent ?T OASIS_FACE_DB_DIR" by (rule top_level_parent) (simp_all add: OASIS_FACE_DB_DIR_def)
  have none: "?T OASIS_FACE_DB_DIR = None" using w(2) by (simp add: no_database_def)
  obtain st w1 where mk: "FWK_Flash_Mkdir (Some OASIS_FACE_DB_DIR) (fdb_flash t) = Inr (st, w1)" "ready w1"
    "st = kStatus_HAL_FlashSuccess \<and> entries w1 = ?T(OASIS_FACE_DB_DIR \<mapsto> Dir) \<or> st = kStatus_HAL_FlashFail \<and> entries w1 = ?T"
    using mkdir_new [OF w(1) par none] by blast
  have st: "st = kStatus_HAL_FlashSuccess" by (rule dir_room [OF w(1) par none mk(1)])
  then have e1: "entries w1 = ?T(OASIS_FACE_DB_DIR \<mapsto> Dir)" using mk(3) by auto
  have c: "clean None" by (simp add: clean_def plain_def LFS_GetDefaultFileConfig_def)
  have fo: "files_ok (entries w1)" using w(2) c by (simp add: files_ok_def e1 no_database_def)
  define s1 where "s1 = Facedb_SetMetaDataDefault (t\<lparr>fdb_flash := w1\<rparr>)"
  let ?bs = "encode_metadata (s_OasisMetadata s1)"
  have parts: "length (reservedData (s_OasisMetadata s1)) = 6" "length (faceMapping (s_OasisMetadata s1)) = 100"
    "length (padding (s_OasisMetadata s1)) = 2"
    using t(5,6) by (simp_all add: s1_def Facedb_SetMetaDataDefault_def)
  have len: "length ?bs = 120" by (rule length_encode_metadata [OF parts])
  have fl: "fdb_flash s1 = w1" by (simp add: s1_def Facedb_SetMetaDataDefault_def)
  have cm: "clean (entries w1 METADATA_FILE_NAME)" using fo by (simp add: files_ok_def)
  from save_stored [OF mk(2) files_ok_parent(1) [OF fo] cm, of metadata_size ?bs] len
  obtain w2 nd where sv: "FWK_Flash_Save (Some METADATA_FILE_NAME) (Some ?bs) metadata_size w1 =
      Inr (kStatus_HAL_FlashSuccess, w2)" "ready w2" "entries w2 = (entries w1)(METADATA_FILE_NAME := nd)"
    "stored nd 120 ?bs" by auto
  define t' where "t' = fresh_table (t\<lparr>fdb_flash := w2\<rparr>)"
  have ft: "ram_ok t'" "used t' = {}" "saved_faces t' = {}"
    unfolding t'_def by (rule fresh_table_ok; use t in simp)+
  have "Facedb_Init t = Inr (kFaceDBStatus_Success, t')"
    unfolding Facedb_Init_def on_flash_def using mk(1) st sv(1) fl
    by (simp add: Let_def s1_def [symmetric]) (simp add: t'_def fresh_table_def s1_def Facedb_SetMetaDataDefault_def Let_def)
  moreover have "meta_matches (s_OasisMetadata s1) t'"
    by (simp add: meta_matches_def ft(3))
       (simp add: s1_def t'_def fresh_table_def Facedb_SetMetaDataDefault_def Let_def flash_map_def slot_defs)
  then have "meta_matches (decode_metadata ?bs) t'" by (simp only: decode_encode_metadata [OF parts])
  then have "synced ready entries t'" using ft sv(2-4) files_ok_update [OF fo storedD [OF sv(4)]]
    by (auto simp: synced_def faces_stored_def) (auto simp: t'_def fresh_table_def Facedb_SetMetaDataDefault_def Let_def)
  ultimately show ?thesis using ft t(2)
    by (intro exI [of _ t']) (simp, simp add: t'_def fresh_table_def Facedb_SetMetaDataDefault_def Let_def)
qed

end

end
