(* ===== verification/Facedb_Vault.thy ===== *)
theory Facedb_Vault
  imports Facedb_Persist
begin

text \<open>
  The face database refines a finite map from slots to a name and a feature: enrolling adds an entry to
  a free slot, removing deletes one, a restart changes nothing. The code does this through its table,
  its slot map and its files; \<open>vault\<close> reads the map off a state. The simulation step is proved for
  every device with room, and runs of operations with restarts in between follow from it.
\<close>

section \<open>The specification\<close>

datatype vault_op = Enroll u16 "u8 list" "u8 list" | Remove u16 | Restart

fun vault_spec :: "vault_op \<Rightarrow> (nat \<rightharpoonup> u8 list \<times> u8 list) \<Rightarrow> (nat \<rightharpoonup> u8 list \<times> u8 list)" where
  "vault_spec (Enroll fid name feat) m = (if m (unat fid) = None then m(unat fid \<mapsto> (name, feat)) else m)"
| "vault_spec (Remove fid) m = m(unat fid := None)"
| "vault_spec Restart m = m"

fun vault_allowed :: "u16 \<Rightarrow> vault_op \<Rightarrow> bool" where
  "vault_allowed featureSize (Enroll fid name feat) =
     (unat fid < 100 \<and> length name \<le> 31 \<and> 0 \<notin> set name \<and> length feat = unat featureSize)"
| "vault_allowed featureSize (Remove fid) = (unat fid < 100)"
| "vault_allowed featureSize Restart = True"

section \<open>The implementation\<close>

definition vault :: "'w facedb \<Rightarrow> nat \<rightharpoonup> u8 list \<times> u8 list" where
  "vault s i = (if i \<in> saved_faces s then Some (face_name s i, face_feature s i) else None)"

text \<open>The static variables of the file when the program starts.\<close>

definition reset_statics :: "'w facedb \<Rightarrow> 'w facedb" where
  "reset_statics s = s\<lparr>s_FaceEntrySize := 0, s_FaceDBSize := 0, s_FaceDB := None, s_FaceDBLock := None,
     s_OasisMetadata := \<lparr>featureVersion = 0, modelVersion = 0, numberFaces = 0, faceEntrySize = 0,
       reservedData = replicate 6 0, faceMapping = replicate 100 0, padding = replicate 2 0\<rparr>\<rparr>"

fun vault_step :: "os_if \<Rightarrow> u16 \<Rightarrow> vault_op \<Rightarrow> ('w, int) fdb_op" where
  "vault_step A featureSize (Enroll fid name feat) =
     HAL_Facedb_AddFace fid (Some name) (Some feat) (int (length feat))"
| "vault_step A featureSize (Remove fid) = HAL_Facedb_DelFaceWithID fid"
| "vault_step A featureSize Restart = (\<lambda>s. HAL_Facedb_Init A featureSize (reset_statics s))"

definition os_provides :: "os_if \<Rightarrow> u16 \<Rightarrow> bool" where
  "os_provides A featureSize \<longleftrightarrow> 0 < featureSize \<and> unat featureSize + 32 < 65536 \<and>
     (\<forall>n. \<exists>db. heap_block A n (100 * (unat featureSize + 32)) = Some db \<and> length db = 100 * (unat featureSize + 32)) \<and>
     (\<forall>n. sem_ok A n)"

definition settled :: "('w fwk_flash \<Rightarrow> bool) \<Rightarrow> ('w fwk_flash \<Rightarrow> u8 list \<Rightarrow> node option) \<Rightarrow> u16 \<Rightarrow> 'w facedb \<Rightarrow> bool" where
  "settled ready entries featureSize s \<longleftrightarrow> synced ready entries s \<and> s_FaceDBLock s = Some False \<and>
     used s = saved_faces s \<and> unat (s_FaceEntrySize s) = unat featureSize + 32"

lemma vault_empty: "saved_faces s = {} \<Longrightarrow> vault s = Map.empty"
  by (rule ext) (simp add: vault_def)

lemma reset_cold: "length (stack_bytes s) = 8 \<Longrightarrow> cold (reset_statics s)"
  by (simp add: cold_def reset_statics_def encode_metadata_def)

lemma length_face_entry:
  assumes "ram_ok s" and "i < 100"
  shows "length (face_entry s i) = unat (s_FaceEntrySize s)"
proof -
  obtain db where "s_FaceDB s = Some db" "100 * unat (s_FaceEntrySize s) \<le> length db" using assms(1) by (rule ram_ok_table)
  then show ?thesis using entry_fits [OF assms(2)] by (simp add: face_entry_def length_slice)
qed

lemma filled_entry:
  assumes "length e = 32 + length feat" and "length name \<le> 31" and "0 \<notin> set name"
  shows "cstr (take 32 (blit 32 feat (blit 0 (name @ [0]) e))) = name" and "drop 32 (blit 32 feat (blit 0 (name @ [0]) e)) = feat"
proof -
  let ?h = "blit 0 (name @ [0]) e"
  have l: "length ?h = 32 + length feat" using assms by (subst length_blit) simp_all
  have h: "?h = name @ 0 # drop (length name + 1) e" by (simp add: blit_def)
  have "take 32 (blit 32 feat ?h) = take 32 ?h" using l by (simp add: blit_def [of 32])
  also have "\<dots> = name @ 0 # take (31 - length name) (drop (length name + 1) e)"
  proof -
    have "take 32 (0 # ys) = 0 # take 31 ys" for ys :: "u8 list" by (simp add: take_Cons')
    then show ?thesis unfolding h using assms(2) by (simp add: take_Cons')
  qed
  finally show "cstr (take 32 (blit 32 feat ?h)) = name" using assms(3) by simp
  show "drop 32 (blit 32 feat ?h) = feat" using l by (simp add: blit_def [of 32])
qed

lemma vault_enrolled:
  assumes r: "ram_ok s" and e: "enrolled s fid name feat s'" and i: "unat fid < 100" and nm: "length name \<le> 31" "0 \<notin> set name"
    and E: "unat (s_FaceEntrySize s) = length feat + 32"
  shows "vault s' = (vault s)(unat fid \<mapsto> (name, feat))"
proof
  fix j
  show "vault s' j = ((vault s)(unat fid \<mapsto> (name, feat))) j"
  proof (cases "j = unat fid")
    case True
    have "length (face_entry s (unat fid)) = 32 + length feat" using length_face_entry [OF r i] E by simp
    from filled_entry [OF this nm] show ?thesis
      using e True by (simp add: vault_def enrolled_def face_name_def face_feature_def)
  next
    case False
    then show ?thesis using e saved_less [of j s]
      by (auto simp: vault_def enrolled_def face_name_def face_feature_def)
  qed
qed

lemma vault_removed: "removed s fid s' \<Longrightarrow> vault s' = (vault s)(unat fid := None)"
  by (rule ext) (auto simp: vault_def removed_def face_name_def face_feature_def saved_faces_def)

lemma vault_restored: "restored s s' \<Longrightarrow> vault s' = vault s"
  by (rule ext) (auto simp: vault_def restored_def face_name_def face_feature_def)

text \<open>A used slot is not overwritten, and the caller is told that all is well; an unused slot is not
  deleted.\<close>

lemma add_used:
  assumes "s_FaceDB s \<noteq> None" and "s_FaceDBLock s = Some False" and "unat fid \<in> used s"
    and "sz < uint (s_FaceEntrySize s)"
  shows "HAL_Facedb_AddFace fid name (Some face) sz s = Inr (kFaceDBStatus_Success, s)"
proof -
  have i: "unat fid < 100" "has_flag FACE_IN_USE (faceMapping (s_OasisMetadata s) ! unat fid)"
    using assms(3) by (simp_all add: used_def)
  have "HAL_Facedb_AddFace fid name (Some face) sz s =
      Inr (kFaceDBStatus_Success, (s\<lparr>s_FaceDBLock := Some True\<rparr>)\<lparr>s_FaceDBLock := Some False\<rparr>)"
    unfolding HAL_Facedb_AddFace_def
    by (rule locked_run [OF assms(1,2)]) (use assms(4) i in \<open>simp_all add: mapping_at_def\<close>)
  then show ?thesis using assms(2) by (cases s) simp
qed

lemma delete_unused:
  assumes "s_FaceDB s \<noteq> None" and "s_FaceDBLock s = Some False" and "unat fid \<notin> used s" and "unat fid < 100"
  shows "HAL_Facedb_DelFaceWithID fid s = Inr (kFaceDBStatus_Success, s)"
proof -
  have i: "\<not> has_flag FACE_IN_USE (faceMapping (s_OasisMetadata s) ! unat fid)" "fid \<noteq> INVALID_ID"
    using assms(3,4) by (auto simp: used_def)
  have "HAL_Facedb_DelFaceWithID fid s =
      Inr (kFaceDBStatus_Success, (s\<lparr>s_FaceDBLock := Some True\<rparr>)\<lparr>s_FaceDBLock := Some False\<rparr>)"
    unfolding HAL_Facedb_DelFaceWithID_def
    by (rule locked_run [OF assms(1,2)]) (use assms(4) i in \<open>simp_all add: mapping_at_def\<close>)
  then show ?thesis using assms(2) by (cases s) simp
qed

context roomy_flash begin

lemma vault_simulates:
  assumes A: "os_provides A featureSize" and s: "settled ready entries featureSize s" and p: "vault_allowed featureSize p"
  shows "\<exists>r s'. vault_step A featureSize p s = Inr (r, s') \<and> settled ready entries featureSize s' \<and>
    vault s' = vault_spec p (vault s)"
proof -
  have sy: "synced ready entries s" "s_FaceDBLock s = Some False" and us: "used s = saved_faces s"
    and E: "unat (s_FaceEntrySize s) = unat featureSize + 32" using s by (simp_all add: settled_def)
  have r: "ram_ok s" and db: "s_FaceDB s \<noteq> None" using sy(1) by (simp_all add: synced_def ram_ok_def)
  show ?thesis
  proof (cases p)
    case (Enroll fid name feat)
    show ?thesis
    proof (cases "unat fid \<in> used s")
      case True
      have "uint (s_FaceEntrySize s) = int (unat (s_FaceEntrySize s))" by simp
      also have "\<dots> = int (length feat + 32)" using E p Enroll by simp
      finally have "int (length feat) < uint (s_FaceEntrySize s)" by simp
      from add_used [OF db sy(2) True this] have "vault_step A featureSize p s = Inr (kFaceDBStatus_Success, s)"
        by (simp add: Enroll)
      moreover have "vault_spec p (vault s) = vault s" using Enroll True us by (simp add: vault_def [of s])
      ultimately show ?thesis using s by simp
    next
      case False
      have a: "unat fid < 100" "length name \<le> 31" "0 \<notin> set name" "length feat = unat featureSize"
        using p Enroll by simp_all
      obtain s' where s': "HAL_Facedb_AddFace fid (Some name) (Some feat) (int (length feat)) s = Inr (kFaceDBStatus_Success, s')"
        "synced ready entries s'" "s_FaceDBLock s' = Some False" "enrolled s fid name feat s'"
        using add_face_ok [OF sy a(1) False a(2), of "int (length feat)" feat] E a(4) by auto
      have "settled ready entries featureSize s'" using s' us E by (simp add: settled_def enrolled_def)
      moreover have "vault s' = (vault s)(unat fid \<mapsto> (name, feat))"
        by (rule vault_enrolled [OF r s'(4) a(1-3)]) (use E a(4) in simp)
      moreover have "vault s (unat fid) = None" using False us by (simp add: vault_def)
      ultimately show ?thesis using s'(1) Enroll by simp
    qed
  next
    case (Remove fid)
    show ?thesis
    proof (cases "unat fid \<in> used s")
      case True
      obtain s' where s': "HAL_Facedb_DelFaceWithID fid s = Inr (kFaceDBStatus_Success, s')"
        "synced ready entries s'" "s_FaceDBLock s' = Some False" "removed s fid s'"
        using delete_face_ok [OF sy True] by blast
      then show ?thesis using Remove us E vault_removed [OF s'(4)]
        by (intro exI [of _ "kFaceDBStatus_Success"] exI [of _ s']) (simp add: settled_def removed_def)
    next
      case False
      have i: "unat fid < 100" using p Remove by simp
      have "vault s (unat fid) = None" using False us by (simp add: vault_def)
      then have "(vault s)(unat fid := None) = vault s" by (rule fun_upd_idem)
      then show ?thesis using delete_unused [OF db sy(2) False i] s Remove by simp
    qed
  next
    case Restart
    let ?t = "reset_statics s"
    have f: "fdb_flash ?t = fdb_flash s" "stack_bytes ?t = stack_bytes s" by (simp_all add: reset_statics_def)
    have w: "ready (fdb_flash ?t)" "entries (fdb_flash ?t) = entries (fdb_flash s)" using sy(1) f by (simp_all add: synced_def)
    have c: "cold ?t" using r by (intro reset_cold) (simp add: ram_ok_def)
    obtain db where db: "heap_block A (fdb_calls ?t) (100 * unat (s_FaceEntrySize s)) = Some db"
      "length db = 100 * unat (s_FaceEntrySize s)" "sem_ok A (fdb_calls ?t + 1)"
      using A E unfolding os_provides_def by metis
    obtain s' where s': "HAL_Facedb_Init A featureSize ?t = Inr (kFaceDBStatus_Success, s')" "synced ready entries s'"
      "s_FaceDBLock s' = Some False" "restored s s'"
      using restart_ok [OF sy(1) w c E [symmetric] db] by blast
    then show ?thesis using Restart E vault_restored [OF s'(4)]
      by (intro exI [of _ "kFaceDBStatus_Success"] exI [of _ s']) (simp add: settled_def restored_def)
  qed
qed

lemma vault_implements:
  "os_provides A featureSize \<Longrightarrow>
    implements (vault_step A featureSize) (settled ready entries featureSize) (vault_allowed featureSize) vault vault_spec"
  by unfold_locales (rule vault_simulates)

lemma first_start:
  assumes O: "os_provides A featureSize" and t: "cold t"
    and m: "length (reservedData (s_OasisMetadata t)) = 6" "length (padding (s_OasisMetadata t)) = 2"
    and w: "ready (fdb_flash t)" "no_database (entries (fdb_flash t))"
  shows "\<exists>s. HAL_Facedb_Init A featureSize t = Inr (kFaceDBStatus_Success, s) \<and>
    settled ready entries featureSize s \<and> vault s = Map.empty"
proof -
  obtain db where A: "heap_block A (fdb_calls t) (100 * (unat featureSize + 32)) = Some db"
    "length db = 100 * (unat featureSize + 32)" "sem_ok A (fdb_calls t + 1)" and f: "0 < featureSize" "unat featureSize + 32 < 65536"
    using O unfolding os_provides_def by blast
  have f0: "0 < unat featureSize" using f(1) by (simp add: word_less_nat_alt)
  obtain n where n: "HAL_Facedb_Init A featureSize t = Facedb_Init (t\<lparr>s_FaceDBSize := n, s_FaceDB := Some db,
      s_FaceEntrySize := featureSize + 32, s_FaceDBLock := Some False, fdb_calls := fdb_calls t + 2\<rparr>)"
    "unat (featureSize + 32) = unat featureSize + 32"
    using init_allocates [OF t f0 f(2) A] by auto
  let ?t = "t\<lparr>s_FaceDBSize := n, s_FaceDB := Some db, s_FaceEntrySize := featureSize + 32, s_FaceDBLock := Some False,
      fdb_calls := fdb_calls t + 2\<rparr>"
  have "\<exists>s. Facedb_Init ?t = Inr (kFaceDBStatus_Success, s) \<and> synced ready entries s \<and> s_FaceDBLock s = Some False \<and>
    used s = {} \<and> saved_faces s = {} \<and> s_FaceEntrySize s = s_FaceEntrySize ?t"
    by (rule first_init_run) (use w t m A(2) n(2) f0 in \<open>auto simp: cold_def\<close>)
  then show ?thesis using n by (auto simp: settled_def vault_empty)
qed

end

end
