(* ===== verification/Flash_Sim.thy ===== *)
theory Flash_Sim
  imports Flash_Device File_Props
begin

text \<open>
  A device with room: the file store over the volume in memory never fails to save a plain file or to
  make a directory, so the framework with this store registered is an instance of the contract its
  clients are verified against.
\<close>

lemma sim_api [simp]: "fs_api sim_platform = lfs_sim" "heap_ok sim_platform t n"
  by (simp_all add: sim_platform_def)

lemma sim_base_path:
  "has_parent (lfs (vol s)) n \<Longrightarrow> \<exists>s'. LFS_CheckBasePath sim_platform n s = Inr (SLN_FLASH_FS_OK, s') \<and> vol s' = vol s"
  by (auto simp: LFS_CheckBasePath_def has_parent_def Let_def pvPortMalloc_def on_vol_def)

lemma sim_open_save: 
  assumes "lfs (vol s) n \<noteq> Some Dir"
  shows "\<exists>s' h. open_file sim_platform n 258 s = Inr ((0, h, LFS_GetDefaultFileConfig), s') \<and> attr_of (lfs (vol s') n) = attr_of (lfs (vol s) n)"
  using assms
  by (auto simp: open_file_def on_vol_def lfs_sim_def creating_def readable_def split: option.split node.split)

lemma sim_attr: "\<exists>s'. load_attr sim_platform n LFS_GetDefaultFileConfig s = Inr (attr_of (lfs (vol s) n), s') \<and> vol s' = vol s"
  by (cases "lfs (vol s) n" rule: attr_of.cases) (auto simp: load_attr_def on_vol_def lfs_sim_def)

lemma sim_write_close:
  "\<not> useEncryption info \<Longrightarrow> unat len \<le> length data \<Longrightarrow> \<exists>s'. write_and_close sim_platform h info data len s = Inr (SLN_FLASH_FS_OK, s')"
  by (auto simp: write_and_close_def LFS_SaveFileContent_def on_vol_def close_file_def)

lemma sim_save_ok:
  assumes "lfs_lock s = Some False" "has_parent (lfs (vol s)) n" "plain (lfs (vol s) n)" "0 < len" "unat len \<le> length data"
  shows "\<exists>s'. SLN_FLASH_LITTLEFS_Save sim_platform (Some n) (Some data) len s = Inr (SLN_FLASH_FS_OK, s')"
proof -
  let ?s = "volume_cb post_lock_cb (s\<lparr>lfs_lock := Some True\<rparr>)"
  have t: "lfs (vol ?s) = lfs (vol s)" by (simp add: volume_cb_def)
  obtain s1 where s1: "LFS_CheckBasePath sim_platform n ?s = Inr (SLN_FLASH_FS_OK, s1)" "vol s1 = vol ?s"
    using sim_base_path [of ?s n] assms(2) t by auto
  obtain s2 h where s2: "open_file sim_platform n 258 s1 = Inr ((0, h, LFS_GetDefaultFileConfig), s2)"
     "attr_of (lfs (vol s2) n) = attr_of (lfs (vol s) n)"
    using sim_open_save [of s1 n] assms(3) s1(2) t by (auto simp: plain_def)
  obtain s3 where s3: "load_attr sim_platform n LFS_GetDefaultFileConfig s2 = Inr (attr_of (lfs (vol s) n), s3)"
    using sim_attr [of n s2] s2(2) by auto
  obtain s4 where s4: "write_and_close sim_platform h (attr_of (lfs (vol s) n)) data len s3 = Inr (SLN_FLASH_FS_OK, s4)"
    using sim_write_close assms(3,5) unfolding plain_def by blast
  show ?thesis using assms(1,4) s1 s2 s3 s4
    by (auto simp: SLN_FLASH_LITTLEFS_Save_def locked_def lock_store_def op_consts)
qed

lemma sim_mkdir_ok:
  assumes "lfs_lock s = Some False" "has_parent (lfs (vol s)) n" "lfs (vol s) n = None"
  shows "\<exists>s'. SLN_FLASH_LITTLEFS_Mkdir sim_platform (Some n) s = Inr (SLN_FLASH_FS_OK, s')"
proof -
  let ?s = "volume_cb post_lock_cb (s\<lparr>lfs_lock := Some True\<rparr>)"
  have t: "lfs (vol ?s) = lfs (vol s)" by (simp add: volume_cb_def)
  obtain s1 where s1: "LFS_CheckBasePath sim_platform n ?s = Inr (SLN_FLASH_FS_OK, s1)" "vol s1 = vol ?s"
    using sim_base_path [of ?s n] assms(2) t by auto
  have "lfs_mkdir lfs_sim n (vol s1) = Inr (0, (vol s1)\<lparr>lfs := (lfs (vol s1))(n \<mapsto> Dir)\<rparr>)"
    using assms(3) s1(2) t by (simp add: lfs_sim_def)
  then show ?thesis using assms(1) s1(1)
    by (auto simp: SLN_FLASH_LITTLEFS_Mkdir_def locked_def lock_store_def on_vol_def)
qed

lemma sim_roomy: "roomy_flash (lfs_ready sim_platform) (lfs_entries lfs)"
proof (intro roomy_flash.intro framework_flash.intro store_reliable.littlefs_file_device [OF sim_store] roomy_flash_axioms.intro, goal_cases)
  case (1 w n len data st w')
  then have r: "s_FlashDev w = Some (s_FlashDev_Littlefs sim_platform)" "lfs_lock (dev_st w) = Some False"
    "has_parent (lfs (vol (dev_st w))) n" "plain (lfs (vol (dev_st w)) n)"
    by (simp_all add: lfs_ready_def lfs_entries_def)
  obtain s' where "SLN_FLASH_LITTLEFS_Save sim_platform (Some n) (Some data) len (dev_st w) = Inr (SLN_FLASH_FS_OK, s')"
    using sim_save_ok [OF r(2-4) 1(4,5)] by blast
  moreover have "len \<noteq> 0" using 1(4) by auto
  ultimately show ?case using 1 r(1)
    by (auto simp: FWK_Flash_Save_def fwk_call_def s_FlashDev_Littlefs_def s_FlashDev_LittlefsOps_def lfs_writeHandler_def
        translate_def write_status_def ok_or_fail_def)
next
  case (2 w n st w')
  then have r: "s_FlashDev w = Some (s_FlashDev_Littlefs sim_platform)" "lfs_lock (dev_st w) = Some False"
    "has_parent (lfs (vol (dev_st w))) n" "lfs (vol (dev_st w)) n = None"
    by (simp_all add: lfs_ready_def lfs_entries_def)
  obtain s' where "SLN_FLASH_LITTLEFS_Mkdir sim_platform (Some n) (dev_st w) = Inr (SLN_FLASH_FS_OK, s')"
    using sim_mkdir_ok [OF r(2-4)] by blast
  then show ?case using 2(4) r(1)
    by (auto simp: FWK_Flash_Mkdir_def fwk_call_def s_FlashDev_Littlefs_def s_FlashDev_LittlefsOps_def lfs_mkdirHandler_def
        translate_def ok_or_fail_def)
qed

interpretation sim_framework: framework_flash "lfs_ready sim_platform" "lfs_entries lfs"
  by (rule roomy_flash.axioms(1) [OF sim_roomy])

interpretation sim_roomy: roomy_flash "lfs_ready sim_platform" "lfs_entries lfs"
  by (rule sim_roomy)

text \<open>The state of the store on a volume in memory.\<close>

type_synonym sim_state = "(u8 list \<Rightarrow> node option, nor_chip, nat \<Rightarrow> u8 list) lfs_st"

text \<open>An operating system that provides what is asked for.\<close>

definition sim_os :: os_if where
  "sim_os = \<lparr>heap_block = (\<lambda>_ n. Some (replicate n 0)), sem_ok = (\<lambda>_. True)\<rparr>"

end
