(* ===== verification/Facedb_Sim.thy ===== *)
theory Facedb_Sim
  imports Facedb_Vault Flash_Sim
begin

text \<open>
  The face database on the device with room of \<open>Flash_Sim\<close>: the refinement holds there, and two
  starting states for the witnesses.
\<close>

lemma sim_os: "0 < featureSize \<Longrightarrow> unat featureSize + 32 < 65536 \<Longrightarrow> os_provides sim_os featureSize"
  by (simp add: os_provides_def sim_os_def)

interpretation sim_vault: implements "vault_step sim_os 256" "settled (lfs_ready sim_platform) (lfs_entries lfs) 256"
    "vault_allowed 256" vault vault_spec
  by (rule roomy_flash.vault_implements [OF sim_roomy], rule sim_os) simp_all

text \<open>A program that has just started, with the store on a volume.\<close>

definition sim_facedb :: "(u8 list \<Rightarrow> node option) \<Rightarrow> sim_state facedb" where
  "sim_facedb t = reset_statics \<lparr>s_FaceEntrySize = 0, s_FaceDBSize = 0, s_FaceDB = None, s_FaceDBLock = None,
     s_OasisMetadata = undefined, fdb_flash = \<lparr>s_FlashDev = Some (s_FlashDev_Littlefs sim_platform), dev_st = sim_lfs t\<rparr>,
     stack_bytes = replicate 8 0, fdb_calls = 0\<rparr>"

lemma sim_facedb_simps [simp]:
  "cold (sim_facedb t)" "lfs_ready sim_platform (fdb_flash (sim_facedb t))" "lfs_entries lfs (fdb_flash (sim_facedb t)) = t"
proof -
  show "cold (sim_facedb t)" unfolding sim_facedb_def by (rule reset_cold) simp
qed (simp_all add: sim_facedb_def reset_statics_def lfs_ready_def lfs_entries_def)

lemma sim_facedb_metadata [simp]:
  "length (reservedData (s_OasisMetadata (sim_facedb t))) = 6" "length (padding (s_OasisMetadata (sim_facedb t))) = 2"
  by (simp_all add: sim_facedb_def reset_statics_def)

text \<open>A database with entries of 64 bytes, a given map, an empty volume and a free mutex.\<close>

definition locked_sim :: "u8 list \<Rightarrow> sim_state facedb" where
  "locked_sim m = (sim_facedb Map.empty)\<lparr>s_FaceEntrySize := 64, s_FaceDB := Some (replicate 6400 0),
     s_FaceDBLock := Some False, s_OasisMetadata := (s_OasisMetadata (sim_facedb Map.empty))\<lparr>faceMapping := m\<rparr>\<rparr>"

lemma locked_sim_simps [simp]:
  "s_FaceEntrySize (locked_sim m) = 64" "s_FaceDB (locked_sim m) = Some (replicate 6400 0)"
  "s_FaceDBLock (locked_sim m) = Some False" "faceMapping (s_OasisMetadata (locked_sim m)) = m"
  "lfs_ready sim_platform (fdb_flash (locked_sim m))" "lfs_entries lfs (fdb_flash (locked_sim m)) = Map.empty"
  by (simp_all add: locked_sim_def)

end
