(* ===== verification/Facedb_Start.thy ===== *)
theory Facedb_Start
  imports Facedb_Sim
begin

text \<open>
  The start of the face database on a store that holds anything: what a successful \<open>HAL_Facedb_Init\<close>
  establishes. The metadata in the flash are taken as they are, so the number of faces is exact after the
  start only when it was exact in the flash; that is the case for a new directory, for metadata of another
  version, which are thrown away, and for what the database itself has written.
\<close>

section \<open>Buffers\<close>

text \<open>A read of the store fills the buffer it is given and does not change its length.\<close>

lemma read_loop_length:
  assumes "read_loop P fl data k len s = Some r"
  shows "\<forall>st f data' n s'. r = Inr ((st, f, data', n), s') \<longrightarrow> length data' = length data"
proof (rule read_loop.raw_induct [OF _ assms], goal_cases)
  case (1 loop P fl data k len s r)
  show ?case
  proof (cases "on_vol (lfs_file_read (fs_api P) fl len) s")
    case (Inr c)
    obtain m bytes fl' s' where c: "c = ((m, bytes, fl'), s')" by (cases c) auto
    show ?thesis
    proof (cases "m \<le> 0 \<or> (\<exists>e. store_at (unat k) bytes data = Inl e)")
      case True
      then show ?thesis using 1(2) Inr c by (auto split: if_splits)
    next
      case False
      then obtain data' where d: "store_at (unat k) bytes data = Inr data'" by (cases "store_at (unat k) bytes data") auto
      have l: "length data' = length data" using store_at_length [OF d] .
      show ?thesis
      proof (cases "0 < len - of_int m")
        case True
        then have "loop P fl' data' (k + of_int m) (len - of_int m) s' = Some r" using 1(2) Inr c False d by (simp add: Let_def)
        from 1(1) [OF this] l show ?thesis by simp
      qed (use 1(2) Inr c False d l in \<open>auto simp: Let_def\<close>)
    qed
  qed (use 1(2) in auto)
qed

lemma read_all_length: "read_all P fl data len s = Inr ((st, f, data', n), s') \<Longrightarrow> length data' = length data"
  using read_loop_length [of P fl data 0 len s] by (cases "read_loop P fl data 0 len s") (auto simp: read_all_def)

lemma content_length:
  assumes "LFS_GetFileContent P fl info offset buf len s = Inr ((st, f, buf', n), s')"
  shows "length buf' = length buf"
proof (cases "useEncryption info")
  case True
  then show ?thesis using assms
    by (auto simp: LFS_GetFileContent_def get_encrypted_def Let_def rbind_Inr_iff split: prod.splits option.splits if_splits dest: store_at_length)
next
  case False
  then show ?thesis using assms
    by (auto simp: LFS_GetFileContent_def get_plain_def rbind_Inr_iff split: prod.splits if_splits dest: read_all_length)
qed

lemma read_file_length:
  assumes "read_file P name (Some buf) offset len s = Inr ((st, data, n), s')"
  shows "\<exists>bs. data = Some bs \<and> length bs = length buf"
proof -
  obtain r1 s1 where c: "LFS_CheckBasePath P name s = Inr (r1, s1)" using assms by (auto simp: read_file_def rbind_Inr_iff)
  obtain r fl info s2 where o: "r1 = SLN_FLASH_FS_OK \<Longrightarrow> open_file P name LFS_O_RDONLY s1 = Inr ((r, fl, info), s2)"
    using assms c by (cases "r1 = SLN_FLASH_FS_OK") (auto simp: read_file_def rbind_Inr_iff)
  show ?thesis
  proof (cases "r1 \<noteq> SLN_FLASH_FS_OK \<or> r = LFS_ERR_NOENT \<or> r < 0")
    case True
    then show ?thesis using assms c o by (auto simp: read_file_def split: if_splits)
  next
    case False
    show ?thesis
    proof (cases "ctz_size (fs_api P) fl = 0")
      case True
      then obtain b where "store_at 0 (replicate (unat len) 0) buf = Inr b" "data = Some b"
        using assms c o False by (auto simp: read_file_def rbind_Inr_iff)
      then show ?thesis using store_at_length by blast
    next
      case nz: False
      then have e: "rbind (LFS_GetFileContent P fl info offset buf len s2) (\<lambda>((ret, fl, buf, len), s).
          rbind (on_vol (lfs_file_seek (fs_api P) fl 0) s) (\<lambda>((_, fl), s).
          rbind (close_file P fl info s) (\<lambda>(_, s). Inr ((ret, Some buf, len), s)))) = Inr ((st, data, n), s')"
        using assms c o False by (simp add: read_file_def)
      obtain r2 fl2 b n2 s3 where g: "LFS_GetFileContent P fl info offset buf len s2 = Inr ((r2, fl2, b, n2), s3)"
        using e by (cases "LFS_GetFileContent P fl info offset buf len s2") auto
      have "data = Some b" using e unfolding g by (auto simp: rbind_Inr_iff)
      then show ?thesis using content_length [OF g] by simp
    qed
  qed
qed

lemma store_read_length:
  "SLN_FLASH_LITTLEFS_Read P name (Some buf) offset (Some len) s = Inr ((st, data, n), s') \<Longrightarrow>
    (\<exists>bs. data = Some bs \<and> length bs = length buf) \<and> n \<noteq> None"
  by (auto simp: SLN_FLASH_LITTLEFS_Read_def locked_def rbind_Inr_iff split: option.splits prod.splits if_splits dest!: read_file_length)

definition buffers_kept :: "'w fwk_flash \<Rightarrow> bool" where
  "buffers_kept w \<longleftrightarrow> (\<forall>p b off n st b' n' w'. FWK_Flash_Read p (Some b) off (Some n) w = Inr ((st, b', n'), w') \<longrightarrow>
     (\<exists>bs. b' = Some bs \<and> length bs = length b) \<and> n' \<noteq> None)"

definition on_littlefs :: "('o, 'f, 'd, 'h) platform \<Rightarrow> ('f, 'd, 'h) lfs_st fwk_flash \<Rightarrow> bool" where
  "on_littlefs P w \<longleftrightarrow> s_FlashDev w = Some (s_FlashDev_Littlefs P)"

lemma littlefs_buffers: "on_littlefs P w \<Longrightarrow> buffers_kept w"
  by (auto simp: on_littlefs_def buffers_kept_def FWK_Flash_Read_def fwk_call_def s_FlashDev_Littlefs_def s_FlashDev_LittlefsOps_def
      lfs_readHandler_def rbind_Inr_iff split: if_splits prod.splits dest!: store_read_length)

lemma littlefs_stays:
  "on_littlefs P w \<Longrightarrow> FWK_Flash_Read p b off n w = Inr (r, w') \<Longrightarrow> on_littlefs P w'"
  "on_littlefs P w \<Longrightarrow> FWK_Flash_Mkdir p w = Inr (r', w') \<Longrightarrow> on_littlefs P w'"
  by (auto simp: on_littlefs_def FWK_Flash_Read_def FWK_Flash_Mkdir_def fwk_call_def rbind_Inr_iff split: option.splits)

section \<open>Metadata that count\<close>

definition marked :: "facedb_metadata_t \<Rightarrow> nat set" where
  "marked m = {i. i < 100 \<and> (has_flag FACE_SAVED (faceMapping m ! i) \<or> has_flag FACE_UPDATED (faceMapping m ! i))}"

definition counted :: "facedb_metadata_t \<Rightarrow> bool" where
  "counted m \<longleftrightarrow> length (faceMapping m) = 100 \<and> unat (numberFaces m) = card (marked m) \<and>
     (\<forall>i<100. \<not> has_flag FACE_IN_USE (faceMapping m ! i))"

text \<open>The metadata a start finds: when the directory exists and the file can be read.\<close>

definition counted_volume :: "'w facedb \<Rightarrow> bool" where
  "counted_volume s \<longleftrightarrow> (\<forall>w1 b n w2. FWK_Flash_Mkdir (Some OASIS_FACE_DB_DIR) (fdb_flash s) = Inr (kStatus_HAL_FlashDirExist, w1) \<longrightarrow>
     FWK_Flash_Read (Some METADATA_FILE_NAME) (Some (encode_metadata (s_OasisMetadata s))) 0 (Some metadata_size) w1 =
       Inr ((kStatus_HAL_FlashSuccess, Some b, n), w2) \<longrightarrow> counted (decode_metadata b))"

text \<open>What the database writes counts, unless a removed face is still marked because its file could not be
  removed.\<close>

lemma written_counted:
  assumes s: "fdb_wf s" and v: "\<forall>i<100. faceMapping (s_OasisMetadata s) ! i \<in> {FACEDB_SLOT_EMPTY, FACE_IN_USE, FACE_IN_USE OR FACE_SAVED}"
  shows "counted (flash_metadata s)"
proof -
  let ?f = "faceMapping (s_OasisMetadata s)"
  have len: "length ?f = 100" and n: "unat (numberFaces (s_OasisMetadata s)) = card (used s)" using s by (simp_all add: fdb_wf_def)
  let ?only = "{i. i < 100 \<and> ?f ! i = FACE_IN_USE}"
  have new: "length (filter (\<lambda>v. v = FACE_IN_USE) ?f) = card ?only" using len by (simp add: length_filter_conv_card)
  have flags: "has_flag FACE_IN_USE FACE_IN_USE" "has_flag FACE_IN_USE (FACE_IN_USE OR FACE_SAVED)" "\<not> has_flag FACE_IN_USE FACEDB_SLOT_EMPTY"
    "FACE_IN_USE OR FACE_SAVED \<noteq> FACE_IN_USE" by (simp_all add: has_flag_def slot_defs)
  have sub: "?only \<subseteq> used s" using flags(1) by (auto simp: used_def)
  have m: "marked (flash_metadata s) = used s - ?only"
  proof (rule set_eqI)
    fix i
    have "faceMapping (flash_metadata s) ! i = ?f ! i AND NOT FACE_IN_USE" if "i < 100" using that len by (simp add: flash_metadata_def Let_def)
    then show "i \<in> marked (flash_metadata s) \<longleftrightarrow> i \<in> used s - ?only"
      using v by (cases "i < 100") (auto simp: marked_def used_def has_flag_def slot_defs)
  qed
  have "card ?only \<le> card (used s)" using card_mono [OF used_le(2) sub] .
  moreover have "card (used s) < 65536" using used_le(1) [of s] by simp
  ultimately have "unat (numberFaces (s_OasisMetadata s) - of_nat (card ?only)) = card (used s) - card ?only"
    using n by (subst unat_sub_le) (simp_all add: word_le_nat_alt unat_of_nat take_bit_nat_eq_self)
  moreover have "card (marked (flash_metadata s)) = card (used s) - card ?only" unfolding m using sub used_le(2) [of s]
    by (intro card_Diff_subset) (auto intro: finite_subset)
  moreover have "\<not> has_flag FACE_IN_USE (faceMapping (flash_metadata s) ! i)" if "i < 100" for i
    using that len by (simp add: flash_metadata_def Let_def)
  ultimately show ?thesis using len new by (simp add: counted_def) (simp add: flash_metadata_def Let_def)
qed

section \<open>Loading\<close>

text \<open>The table has room for its hundred entries.\<close>

definition fits :: "'w facedb \<Rightarrow> bool" where
  "fits s \<longleftrightarrow> (\<forall>db. s_FaceDB s = Some db \<longrightarrow> 100 * unat (s_FaceEntrySize s) \<le> length db)"

text \<open>After \<open>k\<close> slots: the loaded ones are in use, the others are as in the flash.\<close>

definition loading_to :: "nat \<Rightarrow> 'w facedb \<Rightarrow> bool" where
  "loading_to k s \<longleftrightarrow> fits s \<and> length (faceMapping (s_OasisMetadata s)) = 100 \<and>
     (\<forall>i. k \<le> i \<and> i < 100 \<longrightarrow> \<not> has_flag FACE_IN_USE (faceMapping (s_OasisMetadata s) ! i)) \<and>
     unat (numberFaces (s_OasisMetadata s)) = card (used s \<union> {i \<in> marked (s_OasisMetadata s). k \<le> i})"

lemma load_ends_wf: "loading_to 100 s \<Longrightarrow> fdb_wf s"
proof -
  assume l: "loading_to 100 s"
  have e: "{i \<in> marked (s_OasisMetadata s). 100 \<le> i} = {}" by (auto simp: marked_def)
  show ?thesis using l unfolding loading_to_def e by (simp add: fdb_wf_def fits_def)
qed

lemma load_face_frame:
  assumes "on_littlefs P (fdb_flash s)" and "load_face fid s = Inr (st, t)"
  shows "on_littlefs P (fdb_flash t) \<and> (fits s \<longrightarrow> fits t) \<and> faceMapping (s_OasisMetadata t) = faceMapping (s_OasisMetadata s) \<and>
    numberFaces (s_OasisMetadata t) = numberFaces (s_OasisMetadata s)"
proof -
  let ?sz = "ucast (faceEntrySize (s_OasisMetadata s)) :: u32"
  obtain db b n w where db: "s_FaceDB s = Some db"
    and rd: "FWK_Flash_Read (Some (Facedb_GeneratePathFromIndex fid)) (Some (drop (FACE_ENTRY s fid) db)) 0 (Some ?sz) (fdb_flash s) = Inr ((st, b, n), w)"
    and t: "t = s\<lparr>fdb_flash := w, s_FaceDB := Some (take (FACE_ENTRY s fid) db @ the b),
      s_OasisMetadata := s_OasisMetadata s\<lparr>faceEntrySize := ucast (the n)\<rparr>\<rparr>"
    using assms(2) by (auto simp: load_face_def face_db_def on_flash_def rbind_Inr_iff Let_def split: option.splits)
  obtain bs where b: "b = Some bs" "length bs = length (drop (FACE_ENTRY s fid) db)"
    using littlefs_buffers [OF assms(1)] rd unfolding buffers_kept_def by blast
  then have "length (take (FACE_ENTRY s fid) db @ the b) = length db" by simp
  then show ?thesis using t db littlefs_stays(1) [OF assms(1) rd] by (auto simp: fits_def)
qed

lemma marked_cong: "faceMapping m = faceMapping m' \<Longrightarrow> marked m = marked m'"
  by (simp add: marked_def)

lemma no_flags: "\<not> has_flag FACE_SAVED FACEDB_SLOT_EMPTY" "\<not> has_flag FACE_UPDATED FACEDB_SLOT_EMPTY"
  by (simp_all add: has_flag_def slot_defs)

lemma load_skips:
  assumes l: "loading_to k s" and k: "k < 100" and m: "faceMapping (s_OasisMetadata s) ! k = FACEDB_SLOT_EMPTY"
  shows "loading_to (Suc k) s"
proof -
  have "{i \<in> marked (s_OasisMetadata s). k \<le> i} = {i \<in> marked (s_OasisMetadata s). Suc k \<le> i}"
    using m no_flags by (auto simp: marked_def Suc_le_eq order_le_less)
  then show ?thesis using l by (simp add: loading_to_def)
qed

lemma load_takes:
  assumes l: "loading_to (unat fid) s" and k: "unat fid < 100" "unat fid \<in> marked (s_OasisMetadata s)"
    and st: "\<not> load_stops st"
  shows "loading_to (Suc (unat fid)) (loaded_face fid st s)"
proof -
  let ?k = "unat fid" and ?m = "s_OasisMetadata s"
  have len: "length (faceMapping ?m) = 100" using l by (simp add: loading_to_def)
  have out: "?k \<notin> used s" using l k(1) by (auto simp: loading_to_def used_def)
  have rest: "{i \<in> marked (s_OasisMetadata (set_mapping fid v s)). Suc ?k \<le> i} = {i \<in> marked ?m. Suc ?k \<le> i}" for v
    using len by (auto simp: marked_def set_mapping_def nth_list_update)
  have split: "{i \<in> marked ?m. ?k \<le> i} = insert ?k {i \<in> marked ?m. Suc ?k \<le> i}" using k(2) by (auto simp: Suc_le_eq order_le_less)
  have later: "\<forall>i. Suc ?k \<le> i \<and> i < 100 \<longrightarrow> \<not> has_flag FACE_IN_USE (faceMapping (s_OasisMetadata (set_mapping fid v s)) ! i)" for v
    using l len by (auto simp: loading_to_def set_mapping_def nth_list_update)
  have keep: "fits (set_mapping fid v s)" "length (faceMapping (s_OasisMetadata (set_mapping fid v s))) = 100"
    "numberFaces (s_OasisMetadata (set_mapping fid v s)) = numberFaces ?m" for v
    using l by (simp_all add: loading_to_def fits_def set_mapping_def)
  consider "st = kStatus_HAL_FlashSuccess" | "st = kStatus_HAL_FlashFileNotExist" "st \<noteq> kStatus_HAL_FlashSuccess"
    using st by (auto simp: load_stops_def)
  then show ?thesis
  proof cases
    case 1
    have "used (set_mapping fid (FACE_SAVED OR FACE_IN_USE) s) = insert ?k (used s)" by (simp add: used_set_mapping [OF len k(1)])
    then show ?thesis using 1 l keep later rest split by (simp add: loaded_face_def loading_to_def)
  next
    case 2
    let ?s = "set_mapping fid FACEDB_SLOT_EMPTY s" and ?rest = "{i \<in> marked ?m. Suc ?k \<le> i}"
    have u: "used ?s = used s" using out by (simp add: used_set_mapping [OF len k(1)])
    have fin: "finite (used s \<union> ?rest)" using used_le(2) [of s] by (auto simp: marked_def)
    have "unat (numberFaces ?m) = Suc (card (used s \<union> ?rest))"
      using l fin out unfolding loading_to_def split by simp
    then have "unat (numberFaces ?m - 1) = card (used s \<union> ?rest)"
      by (subst unat_sub_le) (simp_all add: word_le_nat_alt)
    then have "unat (numberFaces (s_OasisMetadata (add_faces (-1) ?s))) = card (used s \<union> ?rest)"
      using keep(3) by (simp add: add_faces_def)
    moreover have "fits (add_faces (-1) ?s)" "faceMapping (s_OasisMetadata (add_faces (-1) ?s)) = faceMapping (s_OasisMetadata ?s)"
      using keep(1) by (simp_all add: add_faces_def fits_def)
    ultimately show ?thesis using 2 keep(2) later u rest marked_cong [of "s_OasisMetadata (add_faces (-1) ?s)" "s_OasisMetadata ?s"]
      unfolding loaded_face_def loading_to_def by simp
  qed
qed

lemma loaded_flash [simp]: "fdb_flash (loaded_face fid st s) = fdb_flash s"
  by (simp add: loaded_face_def set_mapping_def add_faces_def)

lemma load_loop_counts:
  "loading_to (unat fid) s \<Longrightarrow> unat fid + n = 100 \<Longrightarrow> on_littlefs P (fdb_flash s) \<Longrightarrow>
    load_loop n fid st0 u0 s = Inr ((st, u), t) \<Longrightarrow> st = kStatus_HAL_FlashSuccess \<Longrightarrow> loading_to 100 t"
proof (induction n arbitrary: fid s st0 u0)
  case (Suc n)
  let ?m = "faceMapping (s_OasisMetadata s) ! unat fid"
  have k: "unat fid < 100" using Suc.prems(2) by simp
  then have next_id: "unat (fid + 1) = Suc (unat fid)" by (simp add: unat_word_ariths)
  have at: "mapping_at fid s = Inr ?m" using k by (simp add: mapping_at_def)
  consider (marked) "has_flag FACE_SAVED ?m \<or> has_flag FACE_UPDATED ?m"
    | (empty) "\<not> has_flag FACE_SAVED ?m" "\<not> has_flag FACE_UPDATED ?m" "?m = FACEDB_SLOT_EMPTY"
    | (bad) "\<not> has_flag FACE_SAVED ?m" "\<not> has_flag FACE_UPDATED ?m" "?m \<noteq> FACEDB_SLOT_EMPTY" by blast
  then show ?case
  proof cases
    case marked
    obtain st1 s1 where f: "load_face fid s = Inr (st1, s1)"
      using Suc.prems(4) at marked by (auto simp: rbind_Inr_iff split: if_splits)
    note frame = load_face_frame [OF Suc.prems(3) f]
    have "marked (s_OasisMetadata s1) = marked (s_OasisMetadata s)" "used s1 = used s" using frame by (simp_all add: marked_def used_def)
    then have l1: "loading_to (unat fid) s1" "unat fid \<in> marked (s_OasisMetadata s1)"
      using Suc.prems(1) frame marked k by (auto simp: loading_to_def) (auto simp: marked_def)
    have go: "\<not> load_stops st1"
    proof
      assume "load_stops st1"
      then show False using Suc.prems(4,5) at marked f by (auto simp: load_stops_def Let_def split: if_splits)
    qed
    obtain u1 where "load_loop n (fid + 1) st1 u1 (loaded_face fid st1 s1) = Inr ((st, u), t)"
      using Suc.prems(4) at marked f go by (auto simp: Let_def split: if_splits)
    then show ?thesis using Suc.IH [of "fid + 1" "loaded_face fid st1 s1" st1 u1] load_takes [OF l1(1) k l1(2) go] next_id Suc.prems(2,5) frame by simp
  next
    case empty
    then have "load_loop n (fid + 1) st0 u0 s = Inr ((st, u), t)" using Suc.prems(4) at by simp
    then show ?thesis using Suc.IH [of "fid + 1" s st0 u0] load_skips [OF Suc.prems(1) k empty(3)] next_id Suc.prems(2,3,5) by simp
  next
    case bad
    then show ?thesis using Suc.prems(4,5) at by simp
  qed
qed simp

section \<open>The start\<close>

lemma default_wf: "fits s \<Longrightarrow> fdb_wf (Facedb_SetMetaDataDefault s)"
  by (auto simp: fdb_wf_def fits_def Facedb_SetMetaDataDefault_def used_def has_flag_def slot_defs)

text \<open>Metadata of another version: the table keeps its size while everything is removed.\<close>

lemma table_upd [simp]:
  "fits (set_mapping fid v s) = fits s" "fits (add_faces n s) = fits s" "fits (s\<lparr>fdb_flash := w\<rparr>) = fits s"
  "fits (s\<lparr>s_OasisMetadata := m\<rparr>) = fits s" "fits (Facedb_SetMetaDataDefault s) = fits s" "fits (s\<lparr>s_FaceDBLock := l\<rparr>) = fits s"
  by (simp_all add: fits_def set_mapping_def add_faces_def Facedb_SetMetaDataDefault_def)

lemma table_put: "fits s \<Longrightarrow> put_db off bytes s = Inr s' \<Longrightarrow> fits s'"
  by (auto simp: put_db_def face_db_def fits_def rbind_Inr_iff split: option.splits dest!: store_at_length)

lemma table_on_flash: "fits s \<Longrightarrow> always fits (on_flash f s)"
  by (auto simp: on_flash_def always_def rbind_Inr_iff)

lemma table_delete_file: "fits s \<Longrightarrow> always fits (Facedb_DeleteFaceFromFlash fid s)"
  unfolding Facedb_DeleteFaceFromFlash_def
  by (intro always_then [OF table_on_flash] always_rbind_pure always_Inr) simp_all

lemma table_clear: "fits s \<Longrightarrow> clear_face fid m s = Inr s' \<Longrightarrow> fits s'"
  by (auto simp: clear_face_def rbind_Inr_iff dest: table_put)

lemma table_after_clear: "fits s \<Longrightarrow> (\<And>s'. fits s' \<Longrightarrow> always Q (f s')) \<Longrightarrow> always Q (rbind (clear_face fid m s) f)"
  using table_clear [of s fid m] by (cases "clear_face fid m s") (auto simp: always_Inl)

lemma table_delete_loop: "fits s \<Longrightarrow> always fits (delete_all_loop n fid st u s)"
proof (induction n arbitrary: fid st u s)
  case (Suc n)
  show ?case unfolding delete_all_loop.simps
    by (intro always_rbind_pure always_if table_after_clear always_then [OF table_delete_file] Suc.IH) (assumption | rule Suc.prems)+
qed (simp add: always_Inr)

lemma table_delete_all:
  assumes "fits s" and "Facedb_DeleteAllFaces s = Inr (st, t)"
  shows "fits t"
proof -
  obtain st1 u1 s1 where 1: "delete_all_loop MAX_FACE_DB_SIZE 0 kStatus_HAL_FlashSuccess False s = Inr ((st1, u1), s1)"
    and 2: "rbind (if numberFaces (s_OasisMetadata s1) \<noteq> 0 \<or> st1 \<noteq> kStatus_HAL_FlashSuccess
           then rbind (Facedb_SetFaceDataDefault s1) (\<lambda>s. Inr (True, Facedb_SetMetaDataDefault s))
           else Inr (u1, s1)) (\<lambda>(u, s).
    if st1 = kStatus_HAL_FlashSuccess \<and> u then Facedb_UpdateMetadata s else Inr (st1, s)) = Inr (st, t)"
    using assms(2) unfolding Facedb_DeleteAllFaces_def by (elim rbind_InrE) (auto split: prod.splits)
  have t1: "fits s1" using alwaysD [OF table_delete_loop [OF assms(1)] 1] .
  obtain u2 s2 where 3: "fits s2" "(if st1 = kStatus_HAL_FlashSuccess \<and> u2 then Facedb_UpdateMetadata s2 else Inr (st1, s2)) = Inr (st, t)"
  proof (cases "numberFaces (s_OasisMetadata s1) \<noteq> 0 \<or> st1 \<noteq> kStatus_HAL_FlashSuccess")
    case True
    then obtain x where x: "put_db 0 (replicate (unat (s_FaceDBSize s1)) 0) s1 = Inr x"
      "(if st1 = kStatus_HAL_FlashSuccess then Facedb_UpdateMetadata (Facedb_SetMetaDataDefault x) else Inr (st1, Facedb_SetMetaDataDefault x)) = Inr (st, t)"
      using 2 by (auto simp: Facedb_SetFaceDataDefault_def rbind_Inr_iff)
    then show ?thesis using that [of "Facedb_SetMetaDataDefault x" True] table_put [OF t1 x(1)] by simp
  next
    case False
    then show ?thesis using that [of s1 u1] 2 t1 by simp
  qed
  then show ?thesis using update_metadata_frame [of s2 st t] by (auto split: if_splits)
qed

lemma init_counts:
  assumes s: "fits s" "on_littlefs P (fdb_flash s)" "counted_volume s" and run: "Facedb_Init s = Inr (kFaceDBStatus_Success, t)"
  shows "fdb_wf t"
proof -
  have last: "fdb_wf (s1\<lparr>s_OasisMetadata := s_OasisMetadata s1\<lparr>faceEntrySize := e\<rparr>\<rparr>) = fdb_wf s1" for s1 :: "('a, 'b, 'c) lfs_st facedb" and e
    by (simp add: fdb_wf_def used_def)
  obtain st w1 where mk: "FWK_Flash_Mkdir (Some OASIS_FACE_DB_DIR) (fdb_flash s) = Inr (st, w1)"
    using run by (auto simp: Facedb_Init_def on_flash_def rbind_Inr_iff)
  let ?s1 = "s\<lparr>fdb_flash := w1\<rparr>"
  have lf1: "on_littlefs P w1" using littlefs_stays(2) [OF s(2) mk] .
  consider (exists) "st = kStatus_HAL_FlashDirExist" | (new) "st = kStatus_HAL_FlashSuccess"
    | (bad) "st \<noteq> kStatus_HAL_FlashDirExist" "st \<noteq> kStatus_HAL_FlashSuccess" by blast
  then show ?thesis
  proof cases
    case new
    then obtain w where "t = (Facedb_SetMetaDataDefault ?s1)\<lparr>fdb_flash := w, s_OasisMetadata :=
        (s_OasisMetadata (Facedb_SetMetaDataDefault ?s1))\<lparr>faceEntrySize := s_FaceEntrySize s\<rparr>\<rparr>"
      using run mk by (auto simp: Facedb_Init_def on_flash_def rbind_Inr_iff Let_def Facedb_SetMetaDataDefault_def)
    then show ?thesis using default_wf [of ?s1] s(1) by (simp add: fdb_wf_def used_def)
  next
    case bad
    then show ?thesis using run mk by (simp add: Facedb_Init_def on_flash_def)
  next
    case exists
    obtain st2 b n w2 where rd: "FWK_Flash_Read (Some METADATA_FILE_NAME) (Some (encode_metadata (s_OasisMetadata s))) 0 (Some metadata_size) w1 =
        Inr ((st2, b, n), w2)"
      using run mk exists by (auto simp: Facedb_Init_def on_flash_def rbind_Inr_iff)
    let ?m = "decode_metadata (the b)" and ?s2 = "s\<lparr>fdb_flash := w2, s_OasisMetadata := decode_metadata (the b)\<rparr>"
    have ok: "st2 = kStatus_HAL_FlashSuccess" using run mk exists rd by (auto simp: Facedb_Init_def on_flash_def Let_def split: if_splits)
    obtain bs where bs: "b = Some bs" using littlefs_buffers [OF lf1] rd unfolding buffers_kept_def by blast
    have c: "counted ?m" using s(3) mk exists rd ok bs by (auto simp: counted_volume_def)
    have lf2: "on_littlefs P (fdb_flash ?s2)" using littlefs_stays(1) [OF lf1 rd] by simp
    have tb: "fits ?s2" using s(1) by (simp add: fits_def)
    show ?thesis
    proof (cases "featureVersion ?m \<noteq> FEATURE_VERSION \<or> modelVersion ?m \<noteq> MODEL_VERSION")
      case True
      then obtain r s3 w where d: "Facedb_DeleteAllFaces ?s2 = Inr (r, s3)"
        and t: "t = (Facedb_SetMetaDataDefault s3)\<lparr>fdb_flash := w, s_OasisMetadata :=
        (s_OasisMetadata (Facedb_SetMetaDataDefault s3))\<lparr>faceEntrySize := s_FaceEntrySize s3\<rparr>\<rparr>"
        using run mk exists rd ok by (auto simp: Facedb_Init_def on_flash_def rbind_Inr_iff Let_def Facedb_SetMetaDataDefault_def)
      then show ?thesis using default_wf [OF table_delete_all [OF tb d]] by (simp add: fdb_wf_def used_def)
    next
      case False
      then obtain st3 s3 where l: "Facedb_Load ?s2 = Inr (st3, s3)" "st3 = kStatus_HAL_FlashSuccess"
        and t: "t = s3\<lparr>s_OasisMetadata := s_OasisMetadata s3\<lparr>faceEntrySize := s_FaceEntrySize s3\<rparr>\<rparr>"
        using run mk exists rd ok by (auto simp: Facedb_Init_def on_flash_def rbind_Inr_iff Let_def flash_to_status_def split: if_splits)
      obtain u s4 where lp: "load_loop MAX_FACE_DB_SIZE 0 kStatus_HAL_FlashSuccess False ?s2 = Inr ((st3, u), s4)"
        and s3: "s3 = s4 \<or> (\<exists>x. Facedb_UpdateMetadata s4 = Inr (x, s3))"
        using l(1) by (auto simp: Facedb_Load_def rbind_Inr_iff split: if_splits)
      have none: "used ?s2 = {}" using c by (auto simp: used_def counted_def)
      have all: "{i \<in> marked ?m. 0 \<le> i} = marked ?m" by simp
      have "loading_to (unat (0 :: u16)) ?s2" using tb c none all by (simp add: loading_to_def counted_def)
      then have "loading_to 100 s4" using load_loop_counts [OF _ _ lf2 lp l(2)] by simp
      then have "fdb_wf s4" by (rule load_ends_wf)
      then have "fdb_wf s3" using s3 update_metadata_frame [of s4] by fastforce
      then show ?thesis unfolding t last .
    qed
  qed
qed

text \<open>From power on, with memory as long as it was asked for.\<close>

lemma start_counts:
  assumes s: "s_FaceDB s = None" "on_littlefs P (fdb_flash s)" "counted_volume s"
    and A: "\<And>n k b. heap_block A n k = Some b \<Longrightarrow> length b = k"
    and run: "HAL_Facedb_Init A featureSize s = Inr (kFaceDBStatus_Success, t)"
  shows "fdb_wf t"
proof -
  let ?n = "(ucast featureSize + of_nat facedb_entry_t) * of_nat MAX_FACE_DB_SIZE :: u32"
  obtain b where b: "heap_block A (fdb_calls s) (unat ?n) = Some b" and f: "featureSize \<noteq> 0"
    using run s(1) by (cases "heap_block A (fdb_calls s) (unat ?n)") (auto simp: HAL_Facedb_Init_def alloc_db_def Let_def split: if_splits)
  have "unat (ucast featureSize :: u32) = unat featureSize" by (rule unat_u16_u32)
  moreover have "unat featureSize < 65536" using unsigned_less [of featureSize] by simp
  ultimately have n: "unat ?n = (unat featureSize + 32) * 100" by (simp add: unat_word_ariths)
  have "unat (featureSize + 32 :: u16) \<le> unat featureSize + 32" by (simp add: unat_word_ariths)
  then have tb: "100 * unat (featureSize + of_nat facedb_entry_t :: u16) \<le> length b" using A [OF b] n by simp
  obtain s1 where run1: "Facedb_Init s1 = Inr (kFaceDBStatus_Success, t)" and s1: "s_FaceDB s1 = Some b"
    "s_FaceEntrySize s1 = featureSize + of_nat facedb_entry_t" "fdb_flash s1 = fdb_flash s" "s_OasisMetadata s1 = s_OasisMetadata s"
    using run s(1) b f by (auto simp: HAL_Facedb_Init_def alloc_db_def Let_def split: if_splits)
  have "fits s1" using tb s1 by (simp add: fits_def)
  moreover have "counted_volume s1" using s(3) s1 by (simp add: counted_volume_def)
  ultimately show ?thesis using init_counts [OF _ _ _ run1] s(2) s1(3) by simp
qed

end
