(* ===== verification/Facedb_Props.thy ===== *)
theory Facedb_Props
  imports Facedb_Start
begin

text \<open>
  Properties of the face database: from a successful start on the number of faces is the number of used slots, the operations
  refine a finite map that survives restarts, new identifiers are free; and the behaviours behind three faults: the mutex kept by the save, the size check that lets a
  feature run into the next slot, and the checks of a name update.
\<close>

section \<open>The table and its files\<close>

text \<open>C20: From power on, on any store and any chip: when the start succeeds, then after any sequence of
  calls that returns, the number of faces the database reports is the number of slots in use, at most a
  hundred. The metadata the start may find in the flash must count the slots they mark. A new directory has
  none, metadata of another version are thrown away, and what the database writes counts, unless a removed face
  is still marked because its file could not be removed (the lemma written_counted). After a start that fails in the
  middle of loading the number and the slots may differ.\<close>
theorem facedb_count_exact:
  assumes "s_FaceDB s = None" and "on_littlefs P (fdb_flash s)" and "counted_volume s"
    and "\<And>n k b. heap_block A n k = Some b \<Longrightarrow> length b = k"
    and "HAL_Facedb_Init A featureSize s = Inr (kFaceDBStatus_Success, t)" and "run_ops fdb_step ps t = Inr (rs, u)"
  shows "HAL_Facedb_GetCount u = int (card (used u)) \<and> HAL_Facedb_GetCount u \<le> 100"
proof -
  have "fdb_wf t" using start_counts [OF assms(1-5)] .
  then have "fdb_wf u" using assms(6) by (rule fdb.run_inv)
  then have n: "unat (numberFaces (s_OasisMetadata u)) = card (used u)" by (simp add: fdb_wf_def)
  have "uint (numberFaces (s_OasisMetadata u)) = int (unat (numberFaces (s_OasisMetadata u)))" by simp
  then show ?thesis using n used_le(1) [of u] by (simp add: HAL_Facedb_GetCount_def)
qed

lemma no_database_empty: "no_database Map.empty"
  by (simp add: no_database_def)

lemma sim_counted: "counted_volume (sim_facedb Map.empty)"
proof -
  have r: "lfs_ready sim_platform (fdb_flash (sim_facedb Map.empty))" by simp
  have "st = kStatus_HAL_FlashSuccess" if "FWK_Flash_Mkdir (Some OASIS_FACE_DB_DIR) (fdb_flash (sim_facedb Map.empty)) = Inr (st, w)" for st w
    using roomy_flash.dir_room [OF sim_roomy r _ _ that] top_level_parent [of OASIS_FACE_DB_DIR] by (simp add: OASIS_FACE_DB_DIR_def)
  then show ?thesis by (auto simp: counted_volume_def)
qed

lemma vault_slots: "settled ready entries featureSize s \<Longrightarrow> used s = dom (vault s)"
  by (auto simp: settled_def vault_def dom_def)

theorem facedb_count_exact_witness:
  "\<exists>s rs t. HAL_Facedb_Init sim_os 256 (sim_facedb Map.empty) = Inr (kFaceDBStatus_Success, s) \<and>
    run_ops fdb_step [Db_Add 3 (Some [97]) (Some (replicate 256 7)) 256, Db_Add 5 (Some [98]) (Some (replicate 256 8)) 256,
      Db_DelId 3] s = Inr (rs, t) \<and>
    HAL_Facedb_GetCount t = 1 \<and> used t = {5}"
proof -
  have o: "os_provides sim_os 256" by (rule sim_os) simp_all
  obtain s where s: "HAL_Facedb_Init sim_os 256 (sim_facedb Map.empty) = Inr (kFaceDBStatus_Success, s)"
    "settled (lfs_ready sim_platform) (lfs_entries lfs) 256 s" "vault s = Map.empty"
    using roomy_flash.first_start [OF sim_roomy o, of "sim_facedb Map.empty"] no_database_empty by auto
  let ?ps = "[Enroll 3 [97] (replicate 256 7), Enroll 5 [98] (replicate 256 8), Remove 3]"
  let ?qs = "[Db_Add 3 (Some [97]) (Some (replicate 256 7)) 256, Db_Add 5 (Some [98]) (Some (replicate 256 8)) 256, Db_DelId 3]"
  have a: "list_all (vault_allowed 256) ?ps" by simp
  have "fold vault_spec ?ps Map.empty = [5 \<mapsto> ([98], replicate 256 8)]" by (auto simp: fun_eq_iff)
  then have f: "dom (fold vault_spec ?ps Map.empty) = {5}" by simp
  obtain rs t where t: "run_ops (vault_step sim_os 256) ?ps s = Inr (rs, t)"
    "settled (lfs_ready sim_platform) (lfs_entries lfs) 256 t" "vault t = fold vault_spec ?ps (vault s)"
    using sim_vault.run_implements [OF s(2) a] by blast
  have u: "used t = {5}" using vault_slots [OF t(2)] f unfolding t(3) s(3) by simp
  have run: "run_ops fdb_step ?qs s = Inr (rs, t)" using t(1) by simp
  have "s_FaceDB (sim_facedb Map.empty) = None" "on_littlefs sim_platform (fdb_flash (sim_facedb Map.empty))"
    by (simp_all add: sim_facedb_def reset_statics_def on_littlefs_def)
  from facedb_count_exact [OF this sim_counted _ s(1) run] have "HAL_Facedb_GetCount t = int (card (used t))"
    by (simp add: sim_os_def)
  then show ?thesis using s(1) run u by (intro exI [of _ s] exI [of _ rs] exI [of _ t]) simp
qed

text \<open>The first start on a volume without a database creates one: the call succeeds, no slot is in
  use, and table, map and files agree.\<close>
theorem first_start_empty:
  assumes R: "roomy_flash ready entries" and O: "os_provides A featureSize" and t: "cold t"
    and m: "length (reservedData (s_OasisMetadata t)) = 6" "length (padding (s_OasisMetadata t)) = 2"
    and w: "ready (fdb_flash t)" "no_database (entries (fdb_flash t))"
  shows "\<exists>s. HAL_Facedb_Init A featureSize t = Inr (kFaceDBStatus_Success, s) \<and>
    settled ready entries featureSize s \<and> vault s = Map.empty"
  by (rule roomy_flash.first_start [OF assms])

theorem first_start_empty_witness:
  "\<exists>s. HAL_Facedb_Init sim_os 256 (sim_facedb Map.empty) = Inr (kFaceDBStatus_Success, s) \<and>
    settled (lfs_ready sim_platform) (lfs_entries lfs) 256 s \<and> vault s = Map.empty"
  by (rule first_start_empty [OF sim_roomy]) (simp_all add: sim_os no_database_empty)

text \<open>C3: The database refines a finite map from slots to a name and a feature: over any run of
  enrolments, removals and restarts on a device with room, every operation returns and the map read off
  the state is the one the specification computes; a restart changes nothing, so a face that was
  enrolled is there after it, name and feature, and a removed one is not.\<close>
theorem facedb_refines_vault:
  assumes "roomy_flash ready entries" and "os_provides A featureSize" and "settled ready entries featureSize s"
    and "list_all (vault_allowed featureSize) ps"
  shows "\<exists>rs t. run_ops (vault_step A featureSize) ps s = Inr (rs, t) \<and> settled ready entries featureSize t \<and>
    vault t = fold vault_spec ps (vault s)"
  using implements.run_implements [OF roomy_flash.vault_implements [OF assms(1,2)] assms(3,4)] .

theorem facedb_refines_vault_witness:
  "\<exists>(s :: sim_state facedb) rs t. run_ops (vault_step sim_os 256)
      [Enroll 3 [97] (replicate 256 7), Enroll 5 [98] (replicate 256 8), Restart, Remove 3, Restart] s = Inr (rs, t) \<and>
    vault s = Map.empty \<and> vault t = [5 \<mapsto> ([98], replicate 256 8)]"
proof -
  have o: "os_provides sim_os 256" by (rule sim_os) simp_all
  obtain s where s: "settled (lfs_ready sim_platform) (lfs_entries lfs) 256 s" "vault s = Map.empty"
    using roomy_flash.first_start [OF sim_roomy o, of "sim_facedb Map.empty"] no_database_empty by auto
  let ?ps = "[Enroll 3 [97] (replicate 256 7), Enroll 5 [98] (replicate 256 8), Restart, Remove 3, Restart]"
  have a: "list_all (vault_allowed 256) ?ps" by simp
  have f: "fold vault_spec ?ps Map.empty = [5 \<mapsto> ([98], replicate 256 8)]"
    by (auto simp: fun_eq_iff)
  obtain rs t where "run_ops (vault_step sim_os 256) ?ps s = Inr (rs, t)" "vault t = [5 \<mapsto> ([98], replicate 256 8)]"
    using facedb_refines_vault [OF sim_roomy o s(1) a, unfolded s(2) f] by blast
  then show ?thesis using s(2) by (intro exI [of _ s] exI [of _ rs] exI [of _ t]) simp
qed

text \<open>A new identifier is the lowest slot that is not in use; when all hundred are taken the call
  says so. The database is unchanged.\<close>
theorem gen_id_fresh:
  assumes "fdb_wf s" and "s_FaceDB s \<noteq> None" and "s_FaceDBLock s = Some False"
  shows "HAL_Facedb_GenId (Some p) s =
    Inr ((if card (used s) = 100 then (kFaceDBStatus_Full, Some INVALID_ID)
      else (kFaceDBStatus_Success, Some (of_nat (LEAST i. i < 100 \<and> i \<notin> used s)))), s)"
proof -
  let ?m = "s_OasisMetadata s"
  have n: "unat (numberFaces ?m) = card (used s)" using assms(1) by (simp add: fdb_wf_def)
  then have full: "numberFaces ?m = of_nat MAX_FACE_DB_SIZE \<longleftrightarrow> card (used s) = 100" by (simp add: word_unat_eq_iff)
  have free: "\<not> has_flag FACE_IN_USE (faceMapping ?m ! i) \<longleftrightarrow> i \<notin> used s" if "i < 100" for i
    using that by (simp add: used_def)
  have "(if card (used s) = 100 then (kFaceDBStatus_Full, Some INVALID_ID)
      else case find (\<lambda>i. \<not> has_flag FACE_IN_USE (faceMapping ?m ! i)) [0..<MAX_FACE_DB_SIZE] of
          None \<Rightarrow> (kFaceDBStatus_Success, Some INVALID_ID) | Some i \<Rightarrow> (kFaceDBStatus_Success, Some (of_nat i))) =
      (if card (used s) = 100 then (kFaceDBStatus_Full, Some INVALID_ID)
      else (kFaceDBStatus_Success, Some (of_nat (LEAST i. i < 100 \<and> i \<notin> used s))))" (is "?a = ?b")
  proof (cases "card (used s) = 100")
    case False
    obtain i where i: "i < 100" "i \<notin> used s" using False free_slot by blast
    define k where "k = (LEAST i. i < 100 \<and> i \<notin> used s)"
    have k: "k < 100" "k \<notin> used s" unfolding k_def using LeastI [of "\<lambda>i. i < 100 \<and> i \<notin> used s"] i by blast+
    have less: "j \<in> used s" if "j < k" for j
      using not_less_Least [of j "\<lambda>i. i < 100 \<and> i \<notin> used s"] that k(1) unfolding k_def by auto
    have "find (\<lambda>i. \<not> has_flag FACE_IN_USE (faceMapping ?m ! i)) [0..<100] = Some k"
      unfolding find_Some_iff by (rule exI [of _ k]) (use k less free in auto)
    then show ?thesis using False by (simp add: k_def)
  qed simp
  then have b: "?a = ?b" .
  let ?s = "s\<lparr>s_FaceDBLock := Some True\<rparr>"
  have "HAL_Facedb_GenId (Some p) s = Inr (?b, ?s\<lparr>s_FaceDBLock := Some False\<rparr>)"
    unfolding HAL_Facedb_GenId_def Let_def
    by (rule locked_run [OF assms(2,3)]) (use b full in \<open>auto split: option.splits if_splits\<close>)
  then show ?thesis using assms(3) by (cases s) simp
qed

theorem gen_id_fresh_witness:
  "\<exists>s. HAL_Facedb_GenId (Some 7) (s :: sim_state facedb) = Inr ((kFaceDBStatus_Success, Some (of_nat (LEAST i. i < 100 \<and> i \<notin> used s))), s)"
proof -
  let ?s = "locked_sim (replicate 100 0)"
  have u: "used ?s = {}" by (auto simp: used_def has_flag_def slot_defs)
  then have "fdb_wf ?s" by (simp add: fdb_wf_def) (simp add: locked_sim_def sim_facedb_def reset_statics_def)
  then show ?thesis using gen_id_fresh [of ?s 7] u by (intro exI [of _ ?s]) simp
qed

section \<open>Three faults\<close>

text \<open>The body of an operation under the mutex keeps it, and does not lose the table.\<close>

definition held :: "'w facedb \<Rightarrow> bool" where
  "held s \<longleftrightarrow> s_FaceDBLock s = Some True \<and> s_FaceDB s \<noteq> None"

lemma held_simps [simp]:
  "held (s\<lparr>fdb_flash := w\<rparr>) = held s" "held (set_mapping fid v s) = held s"
  by (simp_all add: held_def)

lemma held_save_face: "held s \<Longrightarrow> always held (Facedb_SaveFace fid s)"
  by (auto simp: Facedb_SaveFace_def face_db_def on_flash_def always_def rbind_Inr_iff split: option.splits if_splits)

lemma held_update: "held s \<Longrightarrow> always held (Facedb_UpdateMetadata s)"
  using update_metadata_frame [of s] by (fastforce simp: always_def)

lemma held_save_loop: "held s \<Longrightarrow> always held (save_loop n fid st u s)"
proof (induction n arbitrary: fid st u s)
  case (Suc n)
  then show ?case unfolding save_loop.simps
    by (intro always_mapping always_if always_then [OF held_save_face] Suc.IH)
qed (simp add: always_Inr)

lemma held_deadlock: "held s \<Longrightarrow> fdb_enter False s = Inl Deadlock"
  by (auto simp: held_def fdb_enter_def Facedb_Lock_def)

text \<open>C36: The call that saves the faces never gives the mutex back: once it has returned, the next
  operation of the database waits for ever.\<close>
theorem save_keeps_mutex:
  assumes "s_FaceDB s \<noteq> None" and "s_FaceDBLock s = Some False" and "HAL_Facedb_SaveFace s = Inr (r, t)"
  shows "HAL_Facedb_SaveFace t = Inl Deadlock \<and> HAL_Facedb_DelFaceWithID fid t = Inl Deadlock \<and>
    HAL_Facedb_GenId (Some p) t = Inl Deadlock"
proof -
  have "fdb_enter False s = Inr (kFaceDBStatus_Success, s\<lparr>s_FaceDBLock := Some True\<rparr>)"
    using assms(1,2) by (auto simp: fdb_enter_def Facedb_Lock_def)
  moreover have h: "held (s\<lparr>s_FaceDBLock := Some True\<rparr>)" using assms(1) by (simp add: held_def)
  have "always held (rbind (save_loop MAX_FACE_DB_SIZE 0 kStatus_HAL_FlashSuccess False (s\<lparr>s_FaceDBLock := Some True\<rparr>))
     (\<lambda>((status, updateMetadata), s).
      rbind (if status = kStatus_HAL_FlashSuccess \<and> updateMetadata then Facedb_UpdateMetadata s
             else Inr (status, s)) (\<lambda>(status, s). Inr (flash_to_status status, s))))"
    by (intro always_then [OF held_save_loop [OF h]] always_case_prod_app always_then [where P = held] always_if
        held_update always_Inr)
  ultimately have "held t" using assms(3) by (simp add: HAL_Facedb_SaveFace_def always_def)
  then show ?thesis
    by (simp add: HAL_Facedb_SaveFace_def HAL_Facedb_DelFaceWithID_def HAL_Facedb_GenId_def fdb_locked_def held_deadlock)
qed

text \<open>C37: The size of a feature is compared with the size of a whole entry, name included: a feature one
  byte shorter than an entry is accepted and its last 31 bytes become the name of the next slot.\<close>
theorem add_face_overflows:
  assumes db: "s_FaceDB s = Some db" "100 * unat (s_FaceEntrySize s) \<le> length db" "32 \<le> unat (s_FaceEntrySize s)"
    and l: "s_FaceDBLock s = Some False" and i: "unat fid < 99" "unat fid \<notin> used s" and nm: "length name \<le> 31"
    and f: "length face = unat (s_FaceEntrySize s) - 1"
    and run: "HAL_Facedb_AddFace fid (Some name) (Some face) (int (length face)) s = Inr (r, t)"
  shows "take 31 (face_entry t (unat fid + 1)) = drop (unat (s_FaceEntrySize s) - 32) face"
proof -
  let ?E = "unat (s_FaceEntrySize s)" and ?o = "unat fid * unat (s_FaceEntrySize s)"
  let ?s = "s\<lparr>s_FaceDBLock := Some True\<rparr>"
  have fits: "(unat fid + 1) * ?E + ?E \<le> length db" using entry_fits [OF _ db(2), of "unat fid + 1"] i(1) by simp
  have room: "?o + 32 + length face \<le> length db" using fits f db(3) by simp
  let ?db1 = "blit ?o (name @ [0]) db" and ?db2 = "blit (?o + 32) face (blit ?o (name @ [0]) db)"
  have l1: "length ?db1 = length db" using fits nm db(3) by (intro length_blit) simp
  have l2: "length ?db2 = length db" using fits f db(3) l1 by (subst length_blit) simp_all
  have nu: "mapping_at fid ?s = Inr m \<Longrightarrow> \<not> has_flag FACE_IN_USE m" for m
    using i by (auto simp: mapping_at_def used_def)
  obtain m where m: "mapping_at fid ?s = Inr m" using i(1) by (simp add: mapping_at_def)
  have p1: "put_name fid (Some name) ?s = Inr (?s\<lparr>s_FaceDB := Some ?db1\<rparr>)"
    using db(1) fits nm db(3) by (simp add: put_name_def put_db_def face_db_def FACE_ENTRY_def)
  have p2: "put_feature fid face (int (length face)) (?s\<lparr>s_FaceDB := Some ?db1\<rparr>) = Inr (?s\<lparr>s_FaceDB := Some ?db2\<rparr>)"
    using room l1 by (simp add: put_feature_def put_db_def face_db_def FACE_ENTRY_def slice_def)
  have g: "int (length face) < uint (s_FaceEntrySize s)"
  proof -
    have "uint (s_FaceEntrySize s) = int ?E" by simp
    then show ?thesis using f db(3) by linarith
  qed
  have e: "fdb_enter (uint (s_FaceEntrySize s) \<le> int (length face) \<or> MAX_FACE_DB_SIZE \<le> unat fid \<or> Some face = None) s =
      Inr (kFaceDBStatus_Success, ?s)"
    using db(1) l g i(1) by (simp add: fdb_enter_def Facedb_Lock_def)
  define Q where "Q = (\<lambda>u :: 'a facedb. s_FaceDB u = Some ?db2 \<and> s_FaceEntrySize u = s_FaceEntrySize s)"
  have Q: "always Q (Facedb_SaveFace fid u)" "always Q (Facedb_UpdateMetadata u)" if "Q u" for u
    using that update_metadata_frame [of u]
    by (fastforce simp: Q_def Facedb_SaveFace_def face_db_def on_flash_def always_def rbind_Inr_iff)+
  have "always Q (HAL_Facedb_AddFace fid (Some name) (Some face) (int (length face)) s)"
    unfolding HAL_Facedb_AddFace_def fdb_locked_def e
    using m nu [OF m] p1 p2
    by (simp, intro always_then [where P = Q] always_if Q always_Inr) (auto simp: Q_def Facedb_Unlock_def split: option.split)
  then have t: "s_FaceDB t = Some ?db2" "s_FaceEntrySize t = s_FaceEntrySize s" using run by (simp_all add: always_def Q_def)
  show ?thesis
  proof (intro nth_equalityI)
    show "length (take 31 (face_entry t (unat fid + 1))) = length (drop (?E - 32) face)"
      using fits f db(3) l2 by (simp add: t face_entry_def length_slice)
    fix k assume k: "k < length (take 31 (face_entry t (unat fid + 1)))"
    then have "k < 31" "k < ?E" using fits l2 by (simp_all add: t face_entry_def length_slice)
    then show "take 31 (face_entry t (unat fid + 1)) ! k = drop (?E - 32) face ! k"
      using fits f db(3) l1 l2 by (simp add: t face_entry_def nth_slice nth_blit)
  qed
qed

lemma sim_held_back:
  "\<exists>r t. HAL_Facedb_SaveFace (locked_sim (replicate 100 0)) = Inr (r, t)"
proof -
  let ?m = "replicate 100 (0 :: u8)"
  have i: "save_loop n fid st u (locked_sim ?m\<lparr>s_FaceDBLock := Some True\<rparr>) =
      Inr ((st, u), locked_sim ?m\<lparr>s_FaceDBLock := Some True\<rparr>)" if "unat fid + n \<le> 100" for n fid st u
    using that
  proof (induction n arbitrary: fid)
    case (Suc n)
    have "unat (fid + 1) = unat fid + 1" using Suc.prems by (simp add: unat_word_ariths)
    moreover have "\<not> has_flag FACE_IN_USE 0" by (simp add: has_flag_def slot_defs)
    ultimately show ?case using Suc by (simp add: mapping_at_def)
  qed simp
  have "fdb_enter False (locked_sim ?m) = Inr (kFaceDBStatus_Success, locked_sim ?m\<lparr>s_FaceDBLock := Some True\<rparr>)"
    by (simp add: fdb_enter_def Facedb_Lock_def)
  then show ?thesis using i [of 0 100] by (simp add: HAL_Facedb_SaveFace_def)
qed

theorem save_keeps_mutex_witness:
  "\<exists>r t. HAL_Facedb_SaveFace (locked_sim (replicate 100 0)) = Inr (r, t) \<and> HAL_Facedb_SaveFace t = Inl Deadlock \<and>
    HAL_Facedb_DelFaceWithID 3 t = Inl Deadlock \<and> HAL_Facedb_GenId (Some 0) t = Inl Deadlock"
proof -
  obtain r t where run: "HAL_Facedb_SaveFace (locked_sim (replicate 100 0)) = Inr (r, t)" using sim_held_back by blast
  show ?thesis using run save_keeps_mutex [OF _ _ run] by auto
qed

text \<open>Without a flash device every save fails at once.\<close>

definition no_device :: "u8 list \<Rightarrow> sim_state facedb" where
  "no_device m = (locked_sim m)\<lparr>fdb_flash := \<lparr>s_FlashDev = None, dev_st = sim_lfs Map.empty\<rparr>\<rparr>"

lemma no_device_simps [simp]:
  "s_FaceEntrySize (no_device m) = 64" "s_FaceDB (no_device m) = Some (replicate 6400 0)"
  "s_FaceDBLock (no_device m) = Some False" "faceMapping (s_OasisMetadata (no_device m)) = m"
  "s_FlashDev (fdb_flash (no_device m)) = None"
  by (simp_all add: no_device_def)

lemma no_device_save:
  "s_FlashDev (fdb_flash s) = None \<Longrightarrow> s_FaceDB s \<noteq> None \<Longrightarrow> Facedb_SaveFace fid s = Inr (kStatus_HAL_FlashFail, s)"
  by (auto simp: Facedb_SaveFace_def face_db_def on_flash_def FWK_Flash_Save_def fwk_call_def)

theorem add_face_overflows_witness:
  "\<exists>r t. HAL_Facedb_AddFace 3 (Some [97]) (Some (replicate 63 5)) 63 (no_device (replicate 100 0)) = Inr (r, t) \<and>
    take 31 (face_entry t 4) = replicate 31 5"
proof -
  let ?s = "no_device (replicate 100 0)"
  have nu: "\<not> has_flag FACE_IN_USE 0" by (simp add: has_flag_def slot_defs)
  have e: "fdb_enter (uint (s_FaceEntrySize ?s) \<le> 63 \<or> MAX_FACE_DB_SIZE \<le> unat (3 :: u16) \<or> Some (replicate 63 (5 :: u8)) = None) ?s =
      Inr (kFaceDBStatus_Success, ?s\<lparr>s_FaceDBLock := Some True\<rparr>)"
    by (simp add: fdb_enter_def Facedb_Lock_def)
  have "\<exists>r t. HAL_Facedb_AddFace 3 (Some [97]) (Some (replicate 63 5)) 63 ?s = Inr (r, t)"
    unfolding HAL_Facedb_AddFace_def fdb_locked_def e
    using nu by (simp add: mapping_at_def put_name_def put_feature_def put_db_def face_db_def FACE_ENTRY_def
        load_at_def store_at_def length_blit length_slice no_device_save)
  then obtain r t where run: "HAL_Facedb_AddFace 3 (Some [97]) (Some (replicate 63 5)) 63 ?s = Inr (r, t)" by blast
  have "3 \<notin> used ?s" using nu by (simp add: used_def)
  then show ?thesis
    using add_face_overflows [of ?s "replicate 6400 0" 3 "[97]" "replicate 63 5" r t] run by auto
qed

text \<open>The three ways the checks of a name update fail.\<close>

lemma update_name_cases:
  assumes "s_FaceDB s = Some db" and "100 * unat (s_FaceEntrySize s) \<le> length db" and "32 \<le> unat (s_FaceEntrySize s)"
    and "s_FaceDBLock s = Some False" and "length (faceMapping (s_OasisMetadata s)) = 100"
  shows "100 \<le> unat fid \<Longrightarrow> HAL_Facedb_UpdateName fid (Some name) s = Inl MemFault"
    and "unat fid \<in> used s \<Longrightarrow> HAL_Facedb_UpdateName fid None s = Inl MemFault"
    and "unat fid \<in> used s \<Longrightarrow> 32 \<le> length name \<Longrightarrow> 0 \<notin> set name \<Longrightarrow>
      HAL_Facedb_UpdateName fid (Some name) s = Inr (r, t) \<Longrightarrow> 0 \<notin> set (take 32 (face_entry t (unat fid)))"
proof -
  let ?s = "s\<lparr>s_FaceDBLock := Some True\<rparr>"
  have e: "fdb_enter (MAX_FACE_DB_SIZE \<le> unat fid \<and> n = None) s = Inr (kFaceDBStatus_Success, ?s)"
    if "unat fid < 100 \<or> n \<noteq> None" for n :: "u8 list option"
    using that assms by (auto simp: fdb_enter_def Facedb_Lock_def)
  show "HAL_Facedb_UpdateName fid (Some name) s = Inl MemFault" if "100 \<le> unat fid"
    using that e [of "Some name"] by (simp add: HAL_Facedb_UpdateName_def fdb_locked_def mapping_at_def)
  show "HAL_Facedb_UpdateName fid None s = Inl MemFault" if "unat fid \<in> used s"
  proof -
    have "unat fid < 100" "has_flag FACE_IN_USE (faceMapping (s_OasisMetadata s) ! unat fid)"
      using that by (simp_all add: used_def)
    then show ?thesis using e [of None] by (simp add: HAL_Facedb_UpdateName_def fdb_locked_def mapping_at_def)
  qed
  assume u: "unat fid \<in> used s" and n: "32 \<le> length name" "0 \<notin> set name"
    and run: "HAL_Facedb_UpdateName fid (Some name) s = Inr (r, t)"
  have i: "unat fid < 100" "has_flag FACE_IN_USE (faceMapping (s_OasisMetadata s) ! unat fid)" using u by (simp_all add: used_def)
  have fit: "0 + length (take 32 name) \<le> unat (s_FaceEntrySize ?s)" using assms(3) by simp
  have "s_FaceDB ?s = Some db" "100 * unat (s_FaceEntrySize ?s) \<le> length db" using assms by simp_all
  note p = put_db_entry [OF this i(1) fit]
  define Q where "Q = (\<lambda>u :: 'a facedb. face_entry u (unat fid) = blit 0 (take 32 name) (face_entry ?s (unat fid)))"
  have Q: "always Q (Facedb_SaveFace fid u)" if "Q u" for u
    using that by (auto simp: Q_def Facedb_SaveFace_def face_db_def on_flash_def always_def rbind_Inr_iff split: option.splits)
  have "always Q (HAL_Facedb_UpdateName fid (Some name) s)"
    unfolding HAL_Facedb_UpdateName_def fdb_locked_def e [of "Some name", simplified]
    using e [of "Some name"] i n p(1) p(2)
    by (simp add: mapping_at_def slice_def, intro always_then [where P = Q] Q always_Inr)
       (auto simp: Q_def Facedb_Unlock_def split: option.split)
  then have t: "face_entry t (unat fid) = blit 0 (take 32 name) (face_entry ?s (unat fid))"
    using run by (simp add: always_def Q_def)
  have "take 32 (face_entry t (unat fid)) = take 32 name" using n(1) by (simp add: t blit_def)
  then show "0 \<notin> set (take 32 (face_entry t (unat fid)))" using n(2) by (auto dest: in_set_takeD)
qed

text \<open>A name update joins the checks of identifier and name with an and, so each wrong argument gets
  through when the other is right: an identifier out of range reads past the slot map, a NULL name is
  dereferenced; and a name that is too long is stored without its NUL.\<close>
theorem update_name_unchecked:
  assumes "s_FaceDB s = Some db" and "100 * unat (s_FaceEntrySize s) \<le> length db" and "32 \<le> unat (s_FaceEntrySize s)"
    and "s_FaceDBLock s = Some False" and "length (faceMapping (s_OasisMetadata s)) = 100"
  shows "(100 \<le> unat fid \<longrightarrow> HAL_Facedb_UpdateName fid (Some name) s = Inl MemFault) \<and>
    (unat fid \<in> used s \<longrightarrow> HAL_Facedb_UpdateName fid None s = Inl MemFault) \<and>
    (unat fid \<in> used s \<and> 32 \<le> length name \<and> 0 \<notin> set name \<longrightarrow>
      (\<forall>r t. HAL_Facedb_UpdateName fid (Some name) s = Inr (r, t) \<longrightarrow> 0 \<notin> set (take 32 (face_entry t (unat fid)))))"
  using update_name_cases [OF assms] by blast

theorem update_name_unchecked_witness:
  "\<exists>s :: sim_state facedb. HAL_Facedb_UpdateName 200 (Some [97]) s = Inl MemFault \<and> HAL_Facedb_UpdateName 3 None s = Inl MemFault \<and>
    (\<exists>r t. HAL_Facedb_UpdateName 3 (Some (replicate 40 65)) s = Inr (r, t) \<and> 0 \<notin> set (take 32 (face_entry t 3)))"
proof -
  let ?s = "no_device (replicate 100 4)" and ?long = "replicate 40 (65 :: u8)"
  have u: "3 \<in> used ?s" "has_flag FACE_IN_USE 4" by (simp_all add: used_def has_flag_def slot_defs)
  have "\<exists>r t. HAL_Facedb_UpdateName 3 (Some ?long) ?s = Inr (r, t)"
    using u by (simp add: HAL_Facedb_UpdateName_def fdb_locked_def fdb_enter_def Facedb_Lock_def mapping_at_def Let_def
        load_at_def put_db_def face_db_def FACE_ENTRY_def store_at_def length_slice no_device_save)
  then obtain r t where run: "HAL_Facedb_UpdateName 3 (Some ?long) ?s = Inr (r, t)" by blast
  show ?thesis
    using update_name_unchecked [of ?s "replicate 6400 0" 200 "[97]"] update_name_unchecked [of ?s "replicate 6400 0" 3 ?long] u run
    by (intro exI [of _ ?s]) auto
qed

end
