(* ===== verification/Lpc_Faceid.thy ===== *)
theory Lpc_Faceid
  imports C_Strings
begin

text \<open>
  The link of the power controller (the LPC845) to the face recognition module,
  \<open>lpc845_low_power_control/source/app_faceid.c\<close>: the interrupt handler that collects a command line
  from the serial port, and the parser of the lines. The state is the file's static variables; the
  pointer into the buffer that is kept for printing, and the printing, are left out.
\<close>

definition FACEID_RX_BUFFER_SIZE :: nat where [simp]: "FACEID_RX_BUFFER_SIZE = 256"

definition FACEIDIDLE :: u32 where [simp]: "FACEIDIDLE = 0"
definition FACEIDUNLOCK :: u32 where [simp]: "FACEIDUNLOCK = 1"
definition FACEIDVALIDE :: u32 where [simp]: "FACEIDVALIDE = 5"
definition FACEIDUNVALIDE :: u32 where [simp]: "FACEIDUNVALIDE = 6"
definition FACEIDPWROFFACK :: u32 where [simp]: "FACEIDPWROFFACK = 7"
definition FACEIDPWROFFNACK :: u32 where [simp]: "FACEIDPWROFFNACK = 8"

record faceid_st =
  g_FACEIDCmdStatus :: u8
  g_CommandBuf :: "u8 list"
  g_FACEIDRecvBuf :: "u8 list"
  g_FACEIDrxIndex :: u16

text \<open>The static variables at reset.\<close>

definition faceid_reset :: faceid_st where
  "faceid_reset = \<lparr>g_FACEIDCmdStatus = 0, g_CommandBuf = replicate FACEID_RX_BUFFER_SIZE 0,
     g_FACEIDRecvBuf = replicate FACEID_RX_BUFFER_SIZE 0, g_FACEIDrxIndex = 0\<rparr>"

section \<open>The interrupt handler\<close>

text \<open>The two characters before the index, in either order, are CR and LF.\<close>

definition line_ended :: "u8 list \<Rightarrow> u16 \<Rightarrow> bool" where
  "line_ended buf i \<longleftrightarrow> 2 \<le> i \<and>
     (buf ! (unat i - 2) = CR \<and> buf ! (unat i - 1) = LF \<or> buf ! (unat i - 1) = CR \<and> buf ! (unat i - 2) = LF)"

text \<open>The argument is the character in the receive register, None when the flag says there is none.\<close>

definition FACEID_USART_IRQHANDLER :: "u8 option \<Rightarrow> faceid_st \<Rightarrow> faceid_st outcome" where
  "FACEID_USART_IRQHANDLER rx s = (case rx of None \<Rightarrow> Inr s | Some data \<Rightarrow>
     rbind (store_at (unat (g_FACEIDrxIndex s)) [data] (g_FACEIDRecvBuf s)) (\<lambda>buf.
     let i = g_FACEIDrxIndex s + 1;
         (buf, i) = (if unat i = FACEID_RX_BUFFER_SIZE then (replicate FACEID_RX_BUFFER_SIZE 0, 0) else (buf, i))
     in Inr (if line_ended buf i
       then s\<lparr>g_FACEIDCmdStatus := 1, g_CommandBuf := buf,
              g_FACEIDRecvBuf := replicate FACEID_RX_BUFFER_SIZE 0, g_FACEIDrxIndex := 0\<rparr>
       else s\<lparr>g_FACEIDRecvBuf := buf, g_FACEIDrxIndex := i\<rparr>)))"

section \<open>The parser\<close>

text \<open>Upper case up to the first equals sign; without that and without a NUL it leaves the buffer.\<close>

fun strupr :: "u8 list \<Rightarrow> u8 list outcome" where
  "strupr [] = Inl MemFault"
| "strupr (c # str) = (if c = 61 \<or> c = 0 then Inr (c # str) else rbind (strupr str) (\<lambda>str. Inr (toupper c # str)))"

definition faceid_task :: "u8 list \<Rightarrow> (u32 \<times> u8 list) outcome" where
  "faceid_task buf =
    rbind (strupr buf) (\<lambda>buf.
    rbind (c_text buf) (\<lambda>text.
    Inr (if occurs (ascii ''AT+PWOFFRSP=ACK'') text then FACEIDPWROFFACK
      else if occurs (ascii ''AT+PWOFFRSP=NACK'') text then FACEIDPWROFFNACK
      else if occurs (ascii ''AT+FACERES=FAIL'') text then FACEIDUNVALIDE
      else if occurs (ascii ''AT+FACERES='') text then FACEIDVALIDE
      else if occurs (ascii ''AT+FACEREG=OK'') text then 0
      else if occurs (ascii ''AT+FACEREG=DUPLICATE'') text then 0
      else if occurs (ascii ''AT+FACEREG=FAIL'') text then 0
      else if occurs (ascii ''AT+FACEREG='') text then 0
      else if occurs (ascii ''AT+FACEDREG=OK'') text then 0
      else if occurs (ascii ''AT+FACEDEL=SUCCESS'') text then 0
      else if occurs (ascii ''AT+FACEDEL=FAIL'') text then 0
      else if occurs (ascii ''AT+FACERREG=DUPLICATE'') text then 0
      else if occurs (ascii ''AT+FACERREG=OK'') text then 0
      else if occurs (ascii ''AT+FACERREG=FAIL'') text then 0
      else if occurs (ascii ''AT+FACERREG='') text then 0
      else 0, buf)))"

text \<open>Runs with the interrupt disabled, so in one piece.\<close>

definition APP_FACEID_Task :: "faceid_st \<Rightarrow> (u32 \<times> faceid_st) outcome" where
  "APP_FACEID_Task s =
    (if g_FACEIDCmdStatus s = 1 then
       rbind (faceid_task (g_CommandBuf s)) (\<lambda>(ret, _).
       let s = s\<lparr>g_CommandBuf := replicate FACEID_RX_BUFFER_SIZE 0, g_FACEIDCmdStatus := 0\<rparr>
       in Inr (if ret = FACEIDVALIDE then FACEIDUNLOCK
               else if ret = FACEIDPWROFFACK then FACEIDPWROFFACK
               else if ret = FACEIDPWROFFNACK then FACEIDPWROFFNACK
               else FACEIDIDLE, s))
     else Inr (FACEIDIDLE, s))"

text \<open>The request sent before the module is powered off.\<close>

definition power_off_request :: "u8 list" where
  "power_off_request = ascii ''AT+PWOFFREQ='' @ [CR, LF]"

section \<open>The buffers\<close>

text \<open>The index is inside the buffer and nothing is stored behind it, so the last byte of the buffer, and of
  every line copied out of it, is a NUL.\<close>

definition rx_wf :: "faceid_st \<Rightarrow> bool" where
  "rx_wf s \<longleftrightarrow> length (g_FACEIDRecvBuf s) = 256 \<and> length (g_CommandBuf s) = 256 \<and> unat (g_FACEIDrxIndex s) < 256 \<and>
     (\<forall>k. unat (g_FACEIDrxIndex s) \<le> k \<and> k < 256 \<longrightarrow> g_FACEIDRecvBuf s ! k = 0) \<and> g_CommandBuf s ! 255 = 0"

lemma rx_wf_reset [simp]: "rx_wf faceid_reset"
  by (simp add: rx_wf_def faceid_reset_def)

lemma index_Suc: "unat (i :: u16) < 256 \<Longrightarrow> unat (i + 1) = unat i + 1"
  by (simp add: unat_word_ariths)

lemma irq_keeps_wf:
  assumes "rx_wf s"
  shows "\<exists>s'. FACEID_USART_IRQHANDLER rx s = Inr s' \<and> rx_wf s'"
proof (cases rx)
  case (Some data)
  let ?i = "unat (g_FACEIDrxIndex s)"
  let ?b = "blit ?i [data] (g_FACEIDRecvBuf s)"
  have i: "unat (g_FACEIDrxIndex s + 1) = ?i + 1" "?i < 256" "length (g_FACEIDRecvBuf s) = 256"
    using assms index_Suc by (simp_all add: rx_wf_def)
  have b: "length ?b = 256" "\<And>k. ?i < k \<Longrightarrow> k < 256 \<Longrightarrow> ?b ! k = 0"
    using assms by (auto simp: rx_wf_def length_blit nth_blit)
  show ?thesis
  proof (cases "?i = 255")
    case True
    then show ?thesis using assms i Some
      by (simp add: FACEID_USART_IRQHANDLER_def line_ended_def) (simp add: rx_wf_def)
  next
    case False
    then have "?i < 255" using i(2) by simp
    then show ?thesis using assms i b Some
      by (auto simp: FACEID_USART_IRQHANDLER_def rx_wf_def Let_def)
  qed
qed (simp add: assms FACEID_USART_IRQHANDLER_def)

lemma toupper_0 [simp]: "toupper c = 0 \<longleftrightarrow> c = 0"
proof -
  have "c - 32 \<noteq> 0" if "97 \<le> c" using that by (auto simp: word_le_nat_alt)
  then show ?thesis by (auto simp: toupper_def)
qed

definition upper_head :: "u8 list \<Rightarrow> u8 list" where
  "upper_head s = map toupper (takeWhile (\<lambda>c. c \<noteq> 61) s) @ dropWhile (\<lambda>c. c \<noteq> 61) s"

lemma strupr_text: "0 \<in> set buf \<Longrightarrow> \<exists>buf'. strupr buf = Inr buf' \<and> 0 \<in> set buf' \<and> cstr buf' = upper_head (cstr buf)"
proof (induction buf)
  case (Cons c buf)
  show ?case
  proof (cases "c = 61 \<or> c = 0")
    case True
    then show ?thesis using Cons.prems by (auto simp: upper_head_def cstr_def)
  next
    case False
    then obtain buf' where "strupr buf = Inr buf'" "0 \<in> set buf'" "cstr buf' = upper_head (cstr buf)" using Cons by auto
    then show ?thesis using False by (auto simp: upper_head_def cstr_def)
  qed
qed simp

text \<open>What a line means to the parser.\<close>

definition verdict :: "u8 list \<Rightarrow> u32" where
  "verdict text = (if occurs (ascii ''AT+PWOFFRSP=ACK'') text then FACEIDPWROFFACK
      else if occurs (ascii ''AT+PWOFFRSP=NACK'') text then FACEIDPWROFFNACK
      else if occurs (ascii ''AT+FACERES=FAIL'') text then FACEIDIDLE
      else if occurs (ascii ''AT+FACERES='') text then FACEIDUNLOCK
      else FACEIDIDLE)"

lemma task_idle: "g_FACEIDCmdStatus s \<noteq> 1 \<Longrightarrow> APP_FACEID_Task s = Inr (FACEIDIDLE, s)"
  by (simp add: APP_FACEID_Task_def)

lemma task_verdict:
  assumes "g_FACEIDCmdStatus s = 1" and "0 \<in> set (g_CommandBuf s)"
  shows "APP_FACEID_Task s = Inr (verdict (upper_head (cstr (g_CommandBuf s))),
    s\<lparr>g_CommandBuf := replicate 256 0, g_FACEIDCmdStatus := 0\<rparr>)"
proof -
  obtain buf where b: "strupr (g_CommandBuf s) = Inr buf" "0 \<in> set buf" "cstr buf = upper_head (cstr (g_CommandBuf s))"
    using strupr_text [OF assms(2)] by blast
  have e: "(if P then 0 else 0 :: u32) = 0" for P by simp
  show ?thesis
    unfolding APP_FACEID_Task_def faceid_task_def verdict_def b(1) c_text_def e
    using assms b by (simp add: Let_def)
qed

lemma rx_wf_nul: "rx_wf s \<Longrightarrow> 0 \<in> set (g_CommandBuf s)"
  using nth_mem [of 255 "g_CommandBuf s"] by (simp add: rx_wf_def)

lemma task_keeps_wf: "rx_wf s \<Longrightarrow> \<exists>r s'. APP_FACEID_Task s = Inr (r, s') \<and> rx_wf s'"
  using task_idle [of s] task_verdict [of s] rx_wf_nul [of s] by (cases "g_FACEIDCmdStatus s = 1") (auto simp: rx_wf_def)

section \<open>Receiving a line\<close>

fun receive :: "u8 list \<Rightarrow> faceid_st \<Rightarrow> faceid_st outcome" where
  "receive [] s = Inr s"
| "receive (c # cs) s = rbind (FACEID_USART_IRQHANDLER (Some c) s) (receive cs)"

lemma receive_append: "receive (xs @ ys) s = rbind (receive xs s) (receive ys)"
proof (induction xs arbitrary: s)
  case (Cons x xs)
  then have "receive (xs @ ys) = (\<lambda>s. rbind (receive xs s) (receive ys))" by (rule ext)
  then show ?case by (simp add: rbind_assoc)
qed simp

text \<open>The handler with the first characters of a line in the buffer.\<close>

definition collected :: "u8 list \<Rightarrow> faceid_st \<Rightarrow> faceid_st" where
  "collected xs s = s\<lparr>g_FACEIDRecvBuf := xs @ replicate (256 - length xs) 0, g_FACEIDrxIndex := of_nat (length xs)\<rparr>"

definition no_line_end :: "u8 list \<Rightarrow> bool" where
  "no_line_end xs \<longleftrightarrow> (\<forall>k. Suc k < length xs \<longrightarrow> {xs ! k, xs ! Suc k} \<noteq> {CR, LF})"

lemma collect_char:
  assumes "length xs < 255"
  shows "FACEID_USART_IRQHANDLER (Some c) (collected xs s) =
    Inr (if 1 \<le> length xs \<and> {last xs, c} = {CR, LF}
      then s\<lparr>g_FACEIDCmdStatus := 1, g_CommandBuf := (xs @ [c]) @ replicate (255 - length xs) 0,
             g_FACEIDRecvBuf := replicate 256 0, g_FACEIDrxIndex := 0\<rparr>
      else collected (xs @ [c]) s)"
proof -
  have i: "unat (of_nat (length xs) :: u16) = length xs" using assms by (simp add: unat_of_nat)
  have i1: "unat (of_nat (length xs) + 1 :: u16) = Suc (length xs)" using index_Suc [of "of_nat (length xs)"] assms i by simp
  have b: "blit (length xs) [c] (xs @ replicate (256 - length xs) 0) = (xs @ [c]) @ replicate (255 - length xs) 0"
    using assms by (simp add: blit_def)
  have e: "line_ended ((xs @ [c]) @ replicate (255 - length xs) 0) (of_nat (length xs) + 1) \<longleftrightarrow>
      1 \<le> length xs \<and> {last xs, c} = {CR, LF}"
  proof (cases xs rule: rev_cases)
    case Nil
    then show ?thesis by (simp add: line_ended_def)
  next
    case (snoc ys y)
    then have "2 \<le> (of_nat (length xs) + 1 :: u16)" using i1 by (simp add: word_le_nat_alt)
    moreover have "Suc (length xs) - 2 = length ys" "Suc (length xs) - 1 = length ys + 1" using snoc by simp_all
    ultimately show ?thesis unfolding line_ended_def i1 using snoc by (auto simp: nth_append doubleton_eq_iff)
  qed
  show ?thesis
    unfolding FACEID_USART_IRQHANDLER_def option.case
    using assms i i1 b e by (simp add: collected_def Let_def)
qed

lemma receive_text:
  "length xs + length ys < 255 \<Longrightarrow> no_line_end (xs @ ys) \<Longrightarrow> receive ys (collected xs s) = Inr (collected (xs @ ys) s)"
proof (induction ys arbitrary: xs)
  case (Cons y ys)
  have n: "\<not> (1 \<le> length xs \<and> {last xs, y} = {CR, LF})"
  proof (cases xs rule: rev_cases)
    case (snoc zs z)
    have "(xs @ y # ys) ! length zs = z" "(xs @ y # ys) ! Suc (length zs) = y" "last xs = z"
      using snoc by (simp_all add: nth_append)
    moreover have "{(xs @ y # ys) ! length zs, (xs @ y # ys) ! Suc (length zs)} \<noteq> {CR, LF}"
      by (rule Cons.prems(2) [unfolded no_line_end_def, rule_format]) (simp add: snoc)
    ultimately show ?thesis by metis
  qed simp
  have "length xs < 255" using Cons.prems(1) by simp
  then have "FACEID_USART_IRQHANDLER (Some y) (collected xs s) = Inr (collected (xs @ [y]) s)"
    using collect_char [of xs y s] by (simp only: n if_False)
  then show ?case using Cons by simp
qed simp

text \<open>A whole line, from an empty buffer.\<close>

definition has_line :: "u8 list \<Rightarrow> faceid_st \<Rightarrow> faceid_st" where
  "has_line line s = s\<lparr>g_FACEIDCmdStatus := 1, g_CommandBuf := (line @ [CR, LF]) @ replicate (254 - length line) 0,
     g_FACEIDRecvBuf := replicate 256 0, g_FACEIDrxIndex := 0\<rparr>"

lemma receive_line:
  assumes "collected [] s = s" and "length line < 253" and "CR \<notin> set line" and "LF \<notin> set line"
  shows "receive (line @ [CR, LF]) s = Inr (has_line line s)"
proof -
  have nl: "no_line_end (line @ [CR])"
    unfolding no_line_end_def
  proof (intro allI impI)
    fix k assume k: "Suc k < length (line @ [CR])"
    then have "(line @ [CR]) ! k \<in> set line" by (simp add: nth_append)
    then show "{(line @ [CR]) ! k, (line @ [CR]) ! Suc k} \<noteq> {CR, LF}"
      using assms(3,4) by (metis doubleton_eq_iff)
  qed
  have "receive (line @ [CR]) s = Inr (collected (line @ [CR]) s)"
    using receive_text [of "[]" "line @ [CR]" s] assms(1,2) nl by simp
  moreover have "receive [LF] (collected (line @ [CR]) s) = Inr (has_line line s)"
    using collect_char [of "line @ [CR]" LF s] assms(2) by (simp add: has_line_def)
  ultimately show ?thesis using receive_append [of "line @ [CR]" "[LF]" s] by simp
qed

lemma cstr_line: "0 \<notin> set line \<Longrightarrow> length line < 254 \<Longrightarrow> cstr (g_CommandBuf (has_line line s)) = line @ [CR, LF]"
proof -
  assume l: "0 \<notin> set line" "length line < 254"
  have "replicate (254 - length line) (0 :: u8) = 0 # replicate (253 - length line) 0"
    using l(2) by (cases "254 - length line") (auto simp: Suc_diff_Suc)
  then show "cstr (g_CommandBuf (has_line line s)) = line @ [CR, LF]"
    using l(1) cstr_append_nul [of "line @ [CR, LF]"] by (simp add: has_line_def del: cstr_append_nul)
qed

text \<open>What the task makes of a received line.\<close>

lemma task_line:
  assumes "0 \<notin> set line" and "length line < 254"
  shows "\<exists>s'. APP_FACEID_Task (has_line line s) = Inr (verdict (upper_head (line @ [CR, LF])), s') \<and>
    g_FACEIDCmdStatus s' = 0"
proof -
  have "0 \<in> set (g_CommandBuf (has_line line s))" using assms(2) by (simp add: has_line_def)
  then show ?thesis using task_verdict [of "has_line line s"] cstr_line [OF assms] by (simp add: has_line_def)
qed

end
