(* ===== verification/Lpc_Main.thy ===== *)
theory Lpc_Main
  imports Lpc_Faceid
begin

text \<open>
  The main loop of the power controller, \<open>lpc845_low_power_control/source/main.c\<close>: a state machine that
  powers the face recognition module, waits for a recognised face or for the end of a time slice,
  asks the module to prepare for power-off, and cuts its power. The main thread and the three
  interrupts (serial port, motion sensor, timer) interleave; a wait loop advances one round at a time,
  and everything the main thread does between two wait rounds is one step. The pins, the timer and the
  sleep mode of the chip are the hardware; the debug output and the clock set-up are left out.
\<close>

definition RT_POWER_ON_DELAY_MS :: nat where [simp]: "RT_POWER_ON_DELAY_MS = 100"
definition RT_POWER_ON_DURATION_MS :: nat where [simp]: "RT_POWER_ON_DURATION_MS = 30000"
definition RT_POWER_OFF_RSP_WAIT_MS :: nat where [simp]: "RT_POWER_OFF_RSP_WAIT_MS = 5000"

datatype lpc_state_t =
  LPC_STATE_POWER_ON | LPC_STATE_NORMAL_WORK | LPC_STATE_PRE_DEEP_POWER_DOWN | LPC_STATE_DEEP_POWER_DOWN

text \<open>
  \<open>waiting\<close>: the main thread is in the wait loop of the state, not at its beginning. \<open>ctimer\<close> is the
  period of the running timer, which stops when it matches. \<open>uart_out\<close> lists what was sent, with the
  state of the transmit pin at the time. \<open>asleep\<close>: in deep power-down.
\<close>

record lpc_st =
  faceid :: faceid_st
  is_human_detected :: bool
  is_wkt_alarmed :: bool
  lpc_state :: lpc_state_t
  waiting :: bool
  ctimer :: "nat option"
  pwr_ctl :: bool
  uart_tx :: bool
  uart_out :: "(bool \<times> u8 list) list"
  asleep :: bool

text \<open>Reset: the static variables have their initial values, the transmit pin is off; serial output before
  the reset is kept in the record.\<close>

definition lpc_boot :: "(bool \<times> u8 list) list \<Rightarrow> bool \<Rightarrow> lpc_st" where
  "lpc_boot out pin = \<lparr>faceid = faceid_reset, is_human_detected = False, is_wkt_alarmed = False,
     lpc_state = LPC_STATE_POWER_ON, waiting = False, ctimer = None, pwr_ctl = pin, uart_tx = False,
     uart_out = out, asleep = False\<rparr>"

section \<open>The interrupts\<close>

definition pint_interrupt_callback :: "bool \<Rightarrow> lpc_st \<Rightarrow> lpc_st" where
  "pint_interrupt_callback pin s = (if \<not> pin then s\<lparr>is_human_detected := True\<rparr> else s)"

definition ctimer_match0_callback :: "lpc_st \<Rightarrow> lpc_st" where
  "ctimer_match0_callback s = s\<lparr>is_wkt_alarmed := True\<rparr>"

definition CTimer_start :: "nat \<Rightarrow> lpc_st \<Rightarrow> lpc_st" where
  "CTimer_start ms s = s\<lparr>ctimer := Some ms\<rparr>"

definition CTIMER_StopTimer :: "lpc_st \<Rightarrow> lpc_st" where
  "CTIMER_StopTimer s = s\<lparr>ctimer := None\<rparr>"

section \<open>The module\<close>

definition APP_FACEID_Init :: "lpc_st \<Rightarrow> lpc_st" where
  "APP_FACEID_Init s = s\<lparr>faceid := faceid s\<lparr>g_FACEIDCmdStatus := 0, g_CommandBuf := replicate FACEID_RX_BUFFER_SIZE 0\<rparr>,
     pwr_ctl := True\<rparr>"

definition APP_FACEID_Deinit :: "lpc_st \<Rightarrow> lpc_st" where
  "APP_FACEID_Deinit s = s\<lparr>pwr_ctl := False\<rparr>"

definition APP_FACEID_RequestPowerOff :: "lpc_st \<Rightarrow> lpc_st" where
  "APP_FACEID_RequestPowerOff s = s\<lparr>uart_out := uart_out s @ [(uart_tx s, power_off_request)]\<rparr>"

definition poll_faceid :: "lpc_st \<Rightarrow> (u32 \<times> lpc_st) outcome" where
  "poll_faceid s = rbind (APP_FACEID_Task (faceid s)) (\<lambda>(r, f). Inr (r, s\<lparr>faceid := f\<rparr>))"

section \<open>The main loop\<close>

definition go :: "lpc_state_t \<Rightarrow> lpc_st \<Rightarrow> lpc_st" where
  "go st s = s\<lparr>lpc_state := st, waiting := False\<rparr>"

definition power_on :: "lpc_st \<Rightarrow> lpc_st" where
  "power_on s =
    (if \<not> waiting s then
       (CTimer_start RT_POWER_ON_DELAY_MS ((APP_FACEID_Init s)\<lparr>is_human_detected := False, is_wkt_alarmed := False\<rparr>))
         \<lparr>waiting := True\<rparr>
     else if is_wkt_alarmed s then go LPC_STATE_NORMAL_WORK s
     else s)"

definition normal_work :: "lpc_st \<Rightarrow> lpc_st outcome" where
  "normal_work s =
    (if \<not> waiting s then
       Inr ((CTimer_start RT_POWER_ON_DURATION_MS (s\<lparr>is_wkt_alarmed := False\<rparr>))\<lparr>waiting := True\<rparr>)
     else if is_wkt_alarmed s then Inr (go LPC_STATE_PRE_DEEP_POWER_DOWN s)
     else rbind (poll_faceid s) (\<lambda>(r, s).
       if r = FACEIDUNLOCK then Inr (go LPC_STATE_PRE_DEEP_POWER_DOWN s)
       else if is_human_detected s then
         Inr (CTimer_start RT_POWER_ON_DURATION_MS
           ((CTIMER_StopTimer s)\<lparr>is_wkt_alarmed := False, is_human_detected := False\<rparr>))
       else Inr s))"

definition pre_deep_power_down :: "lpc_st \<Rightarrow> lpc_st outcome" where
  "pre_deep_power_down s =
    (if \<not> waiting s then
       let s = (APP_FACEID_RequestPowerOff (s\<lparr>uart_tx := True\<rparr>))\<lparr>uart_tx := False, is_wkt_alarmed := False\<rparr>
       in Inr ((CTimer_start RT_POWER_OFF_RSP_WAIT_MS (CTIMER_StopTimer s))\<lparr>waiting := True\<rparr>)
     else rbind (poll_faceid s) (\<lambda>(ret, s).
       if ret = FACEIDPWROFFACK then Inr (go LPC_STATE_DEEP_POWER_DOWN s)
       else if is_wkt_alarmed s then Inr (go LPC_STATE_DEEP_POWER_DOWN s)
       else Inr s))"

definition deep_power_down :: "lpc_st \<Rightarrow> lpc_st" where
  "deep_power_down s =
    (let s = APP_FACEID_Deinit s
     in if is_human_detected s then go LPC_STATE_POWER_ON (s\<lparr>is_human_detected := False\<rparr>)
        else s\<lparr>asleep := True\<rparr>)"

definition lpc_main :: "lpc_st \<Rightarrow> lpc_st outcome" where
  "lpc_main s = (case lpc_state s of
     LPC_STATE_POWER_ON \<Rightarrow> Inr (power_on s)
   | LPC_STATE_NORMAL_WORK \<Rightarrow> normal_work s
   | LPC_STATE_PRE_DEEP_POWER_DOWN \<Rightarrow> pre_deep_power_down s
   | LPC_STATE_DEEP_POWER_DOWN \<Rightarrow> Inr (deep_power_down s))"

section \<open>Steps\<close>

text \<open>
  Deep power-down ends with a wake-up on the motion sensor: the chip restarts, or, should the call
  return, the loop goes on with the next state.
\<close>

datatype lpc_event = Main | Uart "u8 option" | Pint bool | Match | Restarted | Resumed

inductive lpc_step :: "lpc_st \<Rightarrow> lpc_event \<Rightarrow> lpc_st \<Rightarrow> bool" where
  main: "\<not> asleep s \<Longrightarrow> lpc_main s = Inr s' \<Longrightarrow> lpc_step s Main s'"
| uart: "\<not> asleep s \<Longrightarrow> FACEID_USART_IRQHANDLER rx (faceid s) = Inr f \<Longrightarrow> lpc_step s (Uart rx) (s\<lparr>faceid := f\<rparr>)"
| pint: "\<not> asleep s \<Longrightarrow> lpc_step s (Pint pin) (pint_interrupt_callback pin s)"
| match: "\<not> asleep s \<Longrightarrow> ctimer s \<noteq> None \<Longrightarrow> lpc_step s Match (ctimer_match0_callback (s\<lparr>ctimer := None\<rparr>))"
| restarted: "asleep s \<Longrightarrow> lpc_step s Restarted (lpc_boot (uart_out s) (pwr_ctl s))"
| resumed: "asleep s \<Longrightarrow> lpc_step s Resumed (go LPC_STATE_POWER_ON (s\<lparr>asleep := False\<rparr>))"

inductive lpc_run :: "lpc_st \<Rightarrow> lpc_event list \<Rightarrow> lpc_st \<Rightarrow> bool" where
  stop: "lpc_run s [] s"
| step: "lpc_step s e s' \<Longrightarrow> lpc_run s' es t \<Longrightarrow> lpc_run s (e # es) t"

inductive_cases lpc_stepE: "lpc_step s e s'"
inductive_cases lpc_runE [elim!]: "lpc_run s [] t" "lpc_run s (e # es) t"
inductive_simps lpc_step_simps: "lpc_step s Main s'" "lpc_step s (Uart rx) s'" "lpc_step s (Pint pin) s'"
  "lpc_step s Match s'" "lpc_step s Restarted s'" "lpc_step s Resumed s'"
inductive_simps lpc_run_simps [simp]: "lpc_run s [] t" "lpc_run s (e # es) t"

lemma lpc_run_append: "lpc_run s xs u \<Longrightarrow> lpc_run u ys t \<Longrightarrow> lpc_run s (xs @ ys) t"
  by (induction rule: lpc_run.induct) auto

text \<open>Characters from the serial port.\<close>

lemma run_receive:
  "\<not> asleep s \<Longrightarrow> receive cs (faceid s) = Inr f \<Longrightarrow> lpc_run s (map (\<lambda>c. Uart (Some c)) cs) (s\<lparr>faceid := f\<rparr>)"
proof (induction cs arbitrary: s)
  case (Cons c cs)
  then obtain f1 where f1: "FACEID_USART_IRQHANDLER (Some c) (faceid s) = Inr f1" "receive cs f1 = Inr f"
    by (auto simp: rbind_Inr_iff)
  then show ?case using Cons.IH [of "s\<lparr>faceid := f1\<rparr>"] Cons.prems(1) by (auto simp: lpc_step_simps)
qed simp

section \<open>The invariant\<close>

text \<open>
  The buffers are well formed; a wait loop is never entered without a running timer or a pending alarm;
  the module has power while the controller waits for it; and the power is only cut after a request
  that went out with the transmit pin on.
\<close>

definition requested :: "lpc_st \<Rightarrow> bool" where
  "requested s \<longleftrightarrow> uart_out s \<noteq> [] \<and> last (uart_out s) = (True, power_off_request)"

definition lpc_inv :: "lpc_st \<Rightarrow> bool" where
  "lpc_inv s \<longleftrightarrow> rx_wf (faceid s) \<and> \<not> uart_tx s \<and>
     (waiting s \<longrightarrow> (ctimer s \<noteq> None \<or> is_wkt_alarmed s) \<and> pwr_ctl s \<and> lpc_state s \<noteq> LPC_STATE_DEEP_POWER_DOWN) \<and>
     (lpc_state s = LPC_STATE_NORMAL_WORK \<or> lpc_state s = LPC_STATE_PRE_DEEP_POWER_DOWN \<longrightarrow> pwr_ctl s) \<and>
     (lpc_state s = LPC_STATE_PRE_DEEP_POWER_DOWN \<and> waiting s \<or> lpc_state s = LPC_STATE_DEEP_POWER_DOWN \<longrightarrow> requested s) \<and>
     (asleep s \<longrightarrow> lpc_state s = LPC_STATE_DEEP_POWER_DOWN \<and> \<not> pwr_ctl s)"

lemma lpc_inv_boot [simp]: "lpc_inv (lpc_boot out pin)"
  by (simp add: lpc_inv_def lpc_boot_def)

lemma rx_wf_init: "rx_wf f \<Longrightarrow> rx_wf (f\<lparr>g_FACEIDCmdStatus := 0, g_CommandBuf := replicate 256 0\<rparr>)"
  by (simp add: rx_wf_def)

lemmas lpc_defs = go_def power_on_def normal_work_def pre_deep_power_down_def deep_power_down_def
  CTimer_start_def CTIMER_StopTimer_def APP_FACEID_Init_def APP_FACEID_Deinit_def APP_FACEID_RequestPowerOff_def
  pint_interrupt_callback_def ctimer_match0_callback_def

lemma poll_keeps: "rx_wf (faceid s) \<Longrightarrow> \<exists>r f. poll_faceid s = Inr (r, s\<lparr>faceid := f\<rparr>) \<and> rx_wf f"
  using task_keeps_wf [of "faceid s"] by (auto simp: poll_faceid_def)

lemma main_keeps:
  assumes "lpc_inv s" and "\<not> asleep s"
  shows "\<exists>s'. lpc_main s = Inr s' \<and> lpc_inv s'"
proof -
  have "rx_wf (faceid s)" using assms(1) by (simp add: lpc_inv_def)
  from poll_keeps [OF this] obtain r f where poll: "poll_faceid s = Inr (r, s\<lparr>faceid := f\<rparr>)" "rx_wf f" by blast
  show ?thesis
  proof (cases "lpc_state s")
    case LPC_STATE_POWER_ON
    then show ?thesis using assms rx_wf_init by (auto simp: lpc_main_def lpc_inv_def lpc_defs)
  next
    case LPC_STATE_NORMAL_WORK
    then show ?thesis using assms poll by (auto simp: lpc_main_def lpc_inv_def lpc_defs)
  next
    case LPC_STATE_PRE_DEEP_POWER_DOWN
    then show ?thesis using assms poll by (auto simp: lpc_main_def lpc_inv_def lpc_defs requested_def Let_def)
  next
    case LPC_STATE_DEEP_POWER_DOWN
    then show ?thesis using assms by (auto simp: lpc_main_def lpc_inv_def lpc_defs requested_def Let_def)
  qed
qed

lemma step_keeps:
  assumes "lpc_step s e s'" and "lpc_inv s"
  shows "lpc_inv s'"
  using assms
proof (cases rule: lpc_step.cases)
  case main
  then show ?thesis using main_keeps assms(2) by fastforce
next
  case (uart rx f)
  then show ?thesis using irq_keeps_wf [of "faceid s" rx] assms(2) by (auto simp: lpc_inv_def requested_def)
next
  case restarted
  then show ?thesis by simp
qed (use assms(2) in \<open>auto simp: lpc_inv_def lpc_defs requested_def\<close>)

lemma run_keeps: "lpc_run s es t \<Longrightarrow> lpc_inv s \<Longrightarrow> lpc_inv t"
  by (induction rule: lpc_run.induct) (auto dest: step_keeps)

text \<open>No step of the program is refused: the main loop and every interrupt handler return.\<close>

lemma steps_possible:
  assumes "lpc_inv s" and "\<not> asleep s"
  shows "\<exists>s'. lpc_step s Main s'" and "\<exists>s'. lpc_step s (Uart rx) s'" and "\<exists>s'. lpc_step s (Pint pin) s'"
proof -
  obtain s' where "lpc_main s = Inr s'" using main_keeps [OF assms] by blast
  then show "\<exists>s'. lpc_step s Main s'" using assms(2) lpc_step.main by blast
  have "rx_wf (faceid s)" using assms(1) by (simp add: lpc_inv_def)
  then obtain f where "FACEID_USART_IRQHANDLER rx (faceid s) = Inr f" using irq_keeps_wf by blast
  then show "\<exists>s'. lpc_step s (Uart rx) s'" using assms(2) lpc_step.uart by blast
  show "\<exists>s'. lpc_step s (Pint pin) s'" using assms(2) lpc_step.pint by blast
qed

end
