(* ===== verification/At_Commands.thy ===== *)
theory At_Commands
  imports C_Strings
begin

text \<open>
  The command link of the face recognition module to the power controller,
  \<open>rt106f_smart_lock/source/sln_at_commands.c\<close>: the reader of command lines, the parser, one round of the
  task for a command, the responses, the report of a recognition result, and the vote on a power-off
  request. The state is the file's static variables, with a record of what was sent and of the events
  given to the framework. The serial driver delivers the characters of a list; where the list ends
  the task waits for more. Built without HEADLESS_ENABLE and with WIFI_ENABLED.
\<close>

section \<open>Constants and types\<close>

definition AT_COMMANDS_BUFF_SIZE :: nat where [simp]: "AT_COMMANDS_BUFF_SIZE = 1024"
definition AT_COMMANDS_RSP_BUFF_SIZE :: nat where [simp]: "AT_COMMANDS_RSP_BUFF_SIZE = 32"
definition AT_COMMANDS_EMPTY_LIMIT :: u32 where [simp]: "AT_COMMANDS_EMPTY_LIMIT = 0"
definition AT_COMMANDS_RREG_LIMIT :: u32 where [simp]: "AT_COMMANDS_RREG_LIMIT = 817"
definition MAX_DUPLICATE_RESP_LEN :: nat where [simp]: "MAX_DUPLICATE_RESP_LEN = 42"
definition ADD_FACE_NAME_SIZE :: nat where [simp]: "ADD_FACE_NAME_SIZE = 31"

definition AT_COMMAND_FACEREG_IN_PROGRESS :: nat where [simp]: "AT_COMMAND_FACEREG_IN_PROGRESS = 0"
definition AT_COMMAND_FACEDEREG_IN_PROGRESS :: nat where [simp]: "AT_COMMAND_FACEDEREG_IN_PROGRESS = 1"
definition AT_COMMAND_PARA_UPDATE_IN_PROGRESS :: nat where [simp]: "AT_COMMAND_PARA_UPDATE_IN_PROGRESS = 2"

datatype sln_at_command_t = FACEECHO_OK | FACEECHO_FALSE | FACEREG | FACEDREG | FACERREG | FACEREG_RSP | FACERREG_RSP
  | FACEDEL | FACEDEL_RSP | FACERES | FACEMODE | FACEMODE_CONFIRM | ATCOMMAND_ERROR | PWOFFREQ | PWOFFRSP

text \<open>
  The event handed to the framework: a registration with the name, if one was given; a deletion with
  the identifier, if one was given; a remote registration with its flag, length and data block.
\<close>

datatype at_event = AddUser "u8 list option" | DelUser "u16 option" | AddUserRemote u32 u32 "u8 list"

text \<open>The members of a recognition result that are read.\<close>

datatype oasis_lite_state_t = kOASISLiteState_Recognition | kOASISLiteState_Registration
  | kOASISLiteState_DeRegistration | kOASISLiteState_RemoteRegistration | kOASISLiteState_Count

record oasis_lite_result_t =
  state :: oasis_lite_state_t
  face_id :: int
  fake_face :: bool
  result :: u32

definition kOASISLiteRecognitionResult_Success :: u32 where [simp]: "kOASISLiteRecognitionResult_Success = 1"
definition kOASISLiteRegistrationResult_Invalid :: u32 where [simp]: "kOASISLiteRegistrationResult_Invalid = 0"
definition kOASISLiteRegistrationResult_Success :: u32 where [simp]: "kOASISLiteRegistrationResult_Success = 1"
definition kOASISLiteRegistrationResult_Duplicated :: u32 where [simp]: "kOASISLiteRegistrationResult_Duplicated = 2"
definition kOASISLiteRegistrationResult_Timeout :: u32 where [simp]: "kOASISLiteRegistrationResult_Timeout = 3"
definition kOASISLiteDeregistrationResult_Invalid :: u32 where [simp]: "kOASISLiteDeregistrationResult_Invalid = 0"
definition kOASISLiteDeregistrationResult_Success :: u32 where [simp]: "kOASISLiteDeregistrationResult_Success = 1"
definition kOASISLiteDeregistrationResult_Timeout :: u32 where [simp]: "kOASISLiteDeregistrationResult_Timeout = 2"

text \<open>\<open>regData\<close> is the heap block of a remote registration that waits for its response;
  \<open>blocking_timer\<close> the one-shot timer of two seconds (None: not created; Some: is it running).\<close>

record at_st =
  s_commands_buf :: "u8 list"
  s_response_buff :: "u8 list"
  s_lpuart_char :: u8
  s_current_idx :: u32
  s_ATCommandPowerOffStatus :: u32
  blocking_timer :: "bool option"
  has_callback :: bool
  regData :: "u8 list option"
  at_sent :: "u8 list list"
  at_events :: "at_event list"
  at_calls :: nat

section \<open>The library functions of the parser\<close>

text \<open>The library's \<open>strupr\<close> goes on to the NUL.\<close>

fun strupr_all :: "u8 list \<Rightarrow> u8 list outcome" where
  "strupr_all [] = Inl MemFault"
| "strupr_all (c # str) = (if c = 0 then Inr (c # str) else rbind (strupr_all str) (\<lambda>str. Inr (toupper c # str)))"

definition decimal :: "int \<Rightarrow> u8 list" where
  "decimal i = (if i < 0 then 45 # digits (nat (- i)) else digits (nat i))"

definition is_digit :: "u8 \<Rightarrow> bool" where
  "is_digit c \<longleftrightarrow> 48 \<le> c \<and> c \<le> 57"

definition is_space :: "u8 \<Rightarrow> bool" where
  "is_space c \<longleftrightarrow> c = 32 \<or> 9 \<le> c \<and> c \<le> 13"

fun digits_to_int :: "int \<Rightarrow> u8 list \<Rightarrow> int" where
  "digits_to_int n [] = n"
| "digits_to_int n (c # cs) = (if is_digit c then digits_to_int (10 * n + (uint c - 48)) cs else n)"

text \<open>\<open>atoi\<close>: white space, a sign, digits; out of range it saturates, as \<open>strtol\<close> does.\<close>

definition atoi :: "u8 list \<Rightarrow> int" where
  "atoi s = (let s = dropWhile is_space s;
       v = (case s of c # t \<Rightarrow> if c = 45 then - digits_to_int 0 t else if c = 43 then digits_to_int 0 t else digits_to_int 0 s
            | [] \<Rightarrow> 0)
     in max (- 2147483648) (min 2147483647 v))"

section \<open>Parsing\<close>

definition after :: "u8 list \<Rightarrow> u8 list \<Rightarrow> u8 list option" where
  "after needle s = map_option (drop (length needle)) (strstr s needle)"

definition ATCommand_of :: "u8 list \<Rightarrow> sln_at_command_t" where
  "ATCommand_of text =
    (case strstr text (ascii ''AT+'') of None \<Rightarrow> ATCOMMAND_ERROR
      | Some result_str \<Rightarrow>
        (case after (ascii ''FACEECHO='') result_str of
          Some r \<Rightarrow> if starts_with (ascii ''OK'') r then FACEECHO_OK
                    else if starts_with (ascii ''FALSE'') r then FACEECHO_FALSE else ATCOMMAND_ERROR
        | None \<Rightarrow>
          if occurs (ascii ''FACEREG='') result_str then FACEREG
          else if occurs (ascii ''FACEDREG='') result_str then FACEDREG
          else if occurs (ascii ''FACERREG='') result_str then FACERREG
          else if occurs (ascii ''FACEDEL='') result_str then FACEDEL
          else if occurs (ascii ''PWOFFREQ='') result_str then PWOFFREQ
          else ATCOMMAND_ERROR))"

definition Parse_ATCommand :: "u8 list \<Rightarrow> (sln_at_command_t \<times> u8 list) outcome" where
  "Parse_ATCommand rcv_buff =
    rbind (strupr_all rcv_buff) (\<lambda>buf.
    rbind (c_text buf) (\<lambda>text.
    Inr (ATCommand_of text, buf)))"

text \<open>The characters of a command up to the limit character, or as many as the limit; None when the task
  still waits for the next one.\<close>

fun read_command :: "u32 \<Rightarrow> u8 \<Rightarrow> u8 list \<Rightarrow> at_st \<Rightarrow> (u8 list option \<times> at_st) outcome" where
  "read_command limit limit_char [] s = Inr (None, s)"
| "read_command limit limit_char (c # input) s =
     rbind (store_at (unat (s_current_idx s)) [c] (s_commands_buf s)) (\<lambda>buf.
     let i = s_current_idx s + 1;
         i = (if AT_COMMANDS_BUFF_SIZE \<le> unat i then 0 else i);
         s = s\<lparr>s_lpuart_char := c, s_commands_buf := buf, s_current_idx := i\<rparr>
     in if limit = 0 \<and> c = limit_char then Inr (Some input, s)
        else if i = limit then Inr (Some input, s)
        else read_command limit limit_char input (if c = 0 \<and> limit = 0 then s\<lparr>s_current_idx := 0\<rparr> else s))"

section \<open>Responses\<close>

definition response_head :: "sln_at_command_t \<Rightarrow> u8 list option" where
  "response_head command = (case command of
     FACEREG_RSP \<Rightarrow> Some (ascii ''AT+FACEREG='')
   | FACERREG_RSP \<Rightarrow> Some (ascii ''AT+FACERREG='')
   | FACEDEL_RSP \<Rightarrow> Some (ascii ''AT+FACEDEL='')
   | FACERES \<Rightarrow> Some (ascii ''AT+FACERES='')
   | FACEMODE \<Rightarrow> Some (ascii ''AT+FACEMODE='')
   | PWOFFRSP \<Rightarrow> Some (ascii ''AT+PWOFFRSP='')
   | _ \<Rightarrow> None)"

text \<open>
  \<open>snprintf\<close> stores at most 31 characters and the NUL but returns the length of the whole text, and
  that many bytes are sent from the buffer. For another command the size is -1 as an unsigned number.
\<close>

definition Send_ATCommnd_Response :: "sln_at_command_t \<Rightarrow> u8 list \<Rightarrow> at_st \<Rightarrow> (int \<times> at_st) outcome" where
  "Send_ATCommnd_Response command value s =
    (case response_head command of
       Some head \<Rightarrow>
         let text = head @ value @ [CR, LF] in
         rbind (store_at 0 (take (AT_COMMANDS_RSP_BUFF_SIZE - 1) text @ [0]) (s_response_buff s)) (\<lambda>buff.
         rbind (load_at 0 (length text) buff) (\<lambda>bytes.
         Inr (0, s\<lparr>s_response_buff := buff, at_sent := at_sent s @ [bytes]\<rparr>)))
     | None \<Rightarrow> Inl MemFault)"

text \<open>The response of the framework to an event. The identifiers are the numbers of the event enum, the
  result that of the recognition library; a NULL name must not be formatted or copied.\<close>

definition kEventFaceRecID_AddUserRemote :: u32 where [simp]: "kEventFaceRecID_AddUserRemote = 257"
definition kEventFaceRecID_DelUser :: u32 where [simp]: "kEventFaceRecID_DelUser = 258"
definition OASIS_REG_RESULT_OK :: u8 where [simp]: "OASIS_REG_RESULT_OK = 0"
definition OASIS_REG_RESULT_DUP :: u8 where [simp]: "OASIS_REG_RESULT_DUP = 1"

record remote_reg_result_t =
  reg_result :: u8
  reg_name :: "u8 list option"

definition remote_response :: "remote_reg_result_t \<Rightarrow> bool \<Rightarrow> at_st \<Rightarrow> (int \<times> at_st) outcome" where
  "remote_response res ok s =
    (if ok then
       if reg_result res = OASIS_REG_RESULT_OK then
         (case reg_name res of None \<Rightarrow> Inl MemFault | Some name \<Rightarrow> Send_ATCommnd_Response FACERREG_RSP name s)
       else if reg_result res = OASIS_REG_RESULT_DUP then
         (case reg_name res of None \<Rightarrow> Inl MemFault
          | Some name \<Rightarrow> if MAX_DUPLICATE_RESP_LEN < length (ascii ''DUPLICATE'') + length name + 1 then Inl MemFault
              else Send_ATCommnd_Response FACERREG_RSP (ascii ''DUPLICATE'' @ name) s)
       else Send_ATCommnd_Response FACERREG_RSP (ascii ''FAIL'') s
     else Send_ATCommnd_Response FACERREG_RSP (ascii ''FAIL'') s)"

definition ATCommands_InputDev_Respons :: "u32 \<Rightarrow> remote_reg_result_t option \<Rightarrow> bool \<Rightarrow> at_st \<Rightarrow> (int \<times> at_st) outcome" where
  "ATCommands_InputDev_Respons eventId response ok s =
    (case response of None \<Rightarrow> Inr (-1, s) | Some res \<Rightarrow>
       if eventId = kEventFaceRecID_DelUser then
         rbind (Send_ATCommnd_Response FACEDEL_RSP (if ok then ascii ''SUCCESS'' else ascii ''FAIL'') s) (\<lambda>(_, s). Inr (0, s))
       else if eventId = kEventFaceRecID_AddUserRemote then
         rbind (remote_response res ok s) (\<lambda>(_, s). Inr (0, s\<lparr>regData := None\<rparr>))
       else Inr (0, s))"

section \<open>A round of the task\<close>

text \<open>The event is given to the framework when the input manager has set its callback.\<close>

definition notify :: "at_event \<Rightarrow> at_st \<Rightarrow> at_st" where
  "notify e s = (if has_callback s then s\<lparr>at_events := at_events s @ [e]\<rparr> else s)"

text \<open>A store of a NUL in the command buffer; an index below zero is outside it.\<close>

definition end_string :: "int \<Rightarrow> at_st \<Rightarrow> at_st outcome" where
  "end_string i s = (if i < 0 then Inl MemFault
     else rbind (store_at (nat i) [0] (s_commands_buf s)) (\<lambda>buf. Inr (s\<lparr>s_commands_buf := buf\<rparr>)))"

text \<open>The arguments of a command up to the CR, which is replaced by a NUL.\<close>

definition read_argument :: "u8 list \<Rightarrow> at_st \<Rightarrow> (u8 list option \<times> at_st) outcome" where
  "read_argument input s =
    rbind (read_command AT_COMMANDS_EMPTY_LIMIT CR input (s\<lparr>s_current_idx := 0\<rparr>)) (\<lambda>(rest, s).
    case rest of None \<Rightarrow> Inr (None, s)
    | Some rest \<Rightarrow> rbind (end_string (uint (s_current_idx s) - 1) s) (\<lambda>s. Inr (Some rest, s)))"

definition face_reg :: "u8 list \<Rightarrow> at_st \<Rightarrow> (u8 list option \<times> at_st) outcome" where
  "face_reg input s =
    rbind (read_argument input s) (\<lambda>(rest, s).
    case rest of None \<Rightarrow> Inr (None, s) | Some rest \<Rightarrow>
      rbind (c_text (s_commands_buf s)) (\<lambda>name.
      if \<not> has_callback s then Inr (Some rest, s)
      else if name = [] then Inr (Some rest, notify (AddUser None) s)
      else if ADD_FACE_NAME_SIZE < length name + 1 then Inl MemFault
      else Inr (Some rest, notify (AddUser (Some name)) s)))"

definition face_rreg :: "os_if \<Rightarrow> u8 list \<Rightarrow> at_st \<Rightarrow> (u8 list option \<times> at_st) outcome" where
  "face_rreg A input s =
    rbind (read_command AT_COMMANDS_RREG_LIMIT CR input (s\<lparr>s_current_idx := 0\<rparr>)) (\<lambda>(rest, s).
    case rest of None \<Rightarrow> Inr (None, s) | Some rest \<Rightarrow>
      let isReRegister = (if s_commands_buf s ! 0 = 0 then 0 else 1);
          dataLen = AT_COMMANDS_RREG_LIMIT - 1;
          block = heap_block A (at_calls s) (unat dataLen);
          s = s\<lparr>at_calls := at_calls s + 1\<rparr>
      in case block of
           None \<Rightarrow> rbind (Send_ATCommnd_Response FACERREG_RSP (ascii ''FAIL'') (s\<lparr>regData := None\<rparr>)) (\<lambda>(_, s). Inr (Some rest, s))
         | Some block \<Rightarrow> rbind (load_at 5 (unat dataLen) (s_commands_buf s)) (\<lambda>bytes.
             rbind (store_at 0 bytes block) (\<lambda>block.
             Inr (Some rest, notify (AddUserRemote isReRegister dataLen block) (s\<lparr>regData := Some block\<rparr>)))))"

definition face_del :: "u8 list \<Rightarrow> at_st \<Rightarrow> (u8 list option \<times> at_st) outcome" where
  "face_del input s =
    rbind (read_argument input s) (\<lambda>(rest, s).
    case rest of None \<Rightarrow> Inr (None, s) | Some rest \<Rightarrow>
      rbind (c_text (s_commands_buf s)) (\<lambda>arg.
      Inr (Some rest, notify (DelUser (Some (of_int (atoi arg)))) s)))"

definition pwoff_req :: "at_st \<Rightarrow> (int \<times> at_st) outcome" where
  "pwoff_req s = Send_ATCommnd_Response PWOFFRSP (if s_ATCommandPowerOffStatus s = 0 then ascii ''ACK'' else ascii ''NACK'') s"

text \<open>One round: a command up to its equals sign, and what it asks for.\<close>

definition SLN_ATCommands_Task :: "os_if \<Rightarrow> u8 list \<Rightarrow> at_st \<Rightarrow> (u8 list option \<times> at_st) outcome" where
  "SLN_ATCommands_Task A input s =
    rbind (read_command AT_COMMANDS_EMPTY_LIMIT 61 input (s\<lparr>s_current_idx := 0\<rparr>)) (\<lambda>(rest, s).
    case rest of None \<Rightarrow> Inr (None, s) | Some rest \<Rightarrow>
      rbind (end_string (uint (s_current_idx s)) s) (\<lambda>s.
      rbind (Parse_ATCommand (s_commands_buf s)) (\<lambda>(command, buf).
      let s = s\<lparr>s_commands_buf := buf\<rparr> in
      rbind (case command of
          FACEREG \<Rightarrow> face_reg rest s
        | FACEDREG \<Rightarrow> Inr (Some rest, notify (DelUser None) s)
        | FACERREG \<Rightarrow> face_rreg A rest s
        | FACEDEL \<Rightarrow> face_del rest s
        | PWOFFREQ \<Rightarrow> rbind (pwoff_req s) (\<lambda>(_, s). Inr (Some rest, s))
        | _ \<Rightarrow> Inr (Some rest, s)) (\<lambda>(rest, s).
      Inr (rest, if rest = None then s else s\<lparr>s_lpuart_char := 0, s_current_idx := 0\<rparr>)))))"

section \<open>The recognition result\<close>

definition vote :: "nat \<Rightarrow> bool \<Rightarrow> at_st \<Rightarrow> at_st" where
  "vote n on s = s\<lparr>s_ATCommandPowerOffStatus :=
     (if on then s_ATCommandPowerOffStatus s OR push_bit n 1 else s_ATCommandPowerOffStatus s AND NOT (push_bit n 1))\<rparr>"

text \<open>The number is written to an array of three characters.\<close>

definition send_id :: "sln_at_command_t \<Rightarrow> int \<Rightarrow> at_st \<Rightarrow> at_st outcome" where
  "send_id command i s = (if 3 < length (decimal i) + 1 then Inl MemFault
     else rbind (Send_ATCommnd_Response command (decimal i) s) (\<lambda>(_, s). Inr s))"

definition send_word :: "sln_at_command_t \<Rightarrow> string \<Rightarrow> at_st \<Rightarrow> at_st outcome" where
  "send_word command w s = rbind (Send_ATCommnd_Response command (ascii w) s) (\<lambda>(_, s). Inr s)"

definition APP_OutputDev_ATCommands_InferCompleteDecode :: "bool \<Rightarrow> oasis_lite_result_t \<Rightarrow> at_st \<Rightarrow> at_st outcome" where
  "APP_OutputDev_ATCommands_InferCompleteDecode fromLpm inferResult s =
    rbind (if fromLpm then send_word FACEMODE ''LP'' s else Inr s) (\<lambda>s.
    rbind (if fake_face inferResult then send_word FACEREG_RSP ''FAKE'' s else Inr s) (\<lambda>s.
    case state inferResult of
      kOASISLiteState_Recognition \<Rightarrow>
        if result inferResult = kOASISLiteRecognitionResult_Success then send_id FACERES (face_id inferResult) s
        else Inr s
    | kOASISLiteState_Registration \<Rightarrow>
        let s = vote AT_COMMAND_FACEREG_IN_PROGRESS (result inferResult = kOASISLiteRegistrationResult_Invalid) s in
        if result inferResult = kOASISLiteRegistrationResult_Success then send_id FACEREG_RSP (face_id inferResult) s
        else if result inferResult = kOASISLiteRegistrationResult_Timeout then send_word FACEREG_RSP ''FAIL'' s
        else if result inferResult = kOASISLiteRegistrationResult_Duplicated then send_word FACEREG_RSP ''DUPLICATE'' s
        else Inr s
    | kOASISLiteState_DeRegistration \<Rightarrow>
        let s = vote AT_COMMAND_FACEDEREG_IN_PROGRESS (result inferResult = kOASISLiteDeregistrationResult_Invalid) s in
        if result inferResult = kOASISLiteDeregistrationResult_Success then send_word FACEDEL_RSP ''SUCCESS'' s
        else if result inferResult = kOASISLiteDeregistrationResult_Timeout then send_word FACEDEL_RSP ''FAIL'' s
        else Inr s
    | _ \<Rightarrow> Inr s))"

section \<open>The vote on a power-off request\<close>

text \<open>The events that delay it, by their numbers: the settings of the common events, then the
  operations on faces. The loop runs to the size of the array in bytes.\<close>

definition s_eventIDList4PowerOff :: "u32 list" where
  "s_eventIDList4PowerOff = [1, 3, 5, 7, 9, 10, 12, 26, 28, 256, 257, 258, 259, 262, 263, 265, 267]"

fun id_loop :: "u32 \<Rightarrow> nat \<Rightarrow> nat \<Rightarrow> bool outcome" where
  "id_loop eventID 0 i = Inr False"
| "id_loop eventID (Suc n) i =
     (if length s_eventIDList4PowerOff \<le> i then Inl MemFault
      else if eventID = s_eventIDList4PowerOff ! i then Inr True
      else id_loop eventID n (i + 1))"

definition APP_OutputDev_ATCommands_InputNotify :: "os_if \<Rightarrow> u32 \<Rightarrow> at_st \<Rightarrow> at_st outcome" where
  "APP_OutputDev_ATCommands_InputNotify A eventID s =
    (let s = (if blocking_timer s = None
              then s\<lparr>blocking_timer := (if sem_ok A (at_calls s) then Some False else None), at_calls := at_calls s + 1\<rparr>
              else s)
     in rbind (id_loop eventID (4 * length s_eventIDList4PowerOff) 0) (\<lambda>found.
        if found then
          (case blocking_timer s of None \<Rightarrow> Inl MemFault
           | Some _ \<Rightarrow> Inr ((vote AT_COMMAND_PARA_UPDATE_IN_PROGRESS True s)\<lparr>blocking_timer := Some True\<rparr>))
        else Inr s))"

definition BlockingTimerCallback :: "at_st \<Rightarrow> at_st" where
  "BlockingTimerCallback s = (vote AT_COMMAND_PARA_UPDATE_IN_PROGRESS False s)\<lparr>blocking_timer := Some False\<rparr>"

end
