(* ===== verification/Lock_Link.thy ===== *)
theory Lock_Link
  imports Lpc_Main At_Commands
begin

text \<open>
  The two ends of the serial link together: the face recognition module reports results as lines of
  text, the power controller parses them. Lemmas on the responses that fit the buffer, on the lines
  the parser tells apart, on the lines of a recognition result, and on the command lines the module
  reads.
\<close>

section \<open>Responses that fit\<close>

lemma send_fits:
  assumes "response_head c = Some h" and "length h + length v < 30" and "length (s_response_buff s) = 32"
  shows "\<exists>buff. Send_ATCommnd_Response c v s =
      Inr (0, s\<lparr>s_response_buff := buff, at_sent := at_sent s @ [h @ v @ [CR, LF]]\<rparr>) \<and> length buff = 32"
proof -
  let ?t = "h @ v @ [CR, LF]"
  have l: "length ?t \<le> 31" using assms(2) by simp
  then have t: "take 31 ?t = ?t" by simp
  have b: "length (blit 0 (?t @ [0]) (s_response_buff s)) = 32" using l assms(3) by (subst length_blit) simp_all
  have "slice 0 (length ?t) (blit 0 (?t @ [0]) (s_response_buff s)) = ?t" by (simp add: slice_def blit_def)
  then have "load_at 0 (length ?t) (blit 0 (?t @ [0]) (s_response_buff s)) = Inr ?t" using b l by simp
  moreover have "store_at 0 (?t @ [0]) (s_response_buff s) = Inr (blit 0 (?t @ [0]) (s_response_buff s))"
    using l assms(3) by simp
  moreover have "Send_ATCommnd_Response c v s = rbind (store_at 0 (take 31 ?t @ [0]) (s_response_buff s)) (\<lambda>buff.
      rbind (load_at 0 (length ?t) buff) (\<lambda>bytes. Inr (0, s\<lparr>s_response_buff := buff, at_sent := at_sent s @ [bytes]\<rparr>)))"
    by (simp add: Send_ATCommnd_Response_def assms(1) Let_def)
  ultimately show ?thesis using b unfolding t by auto
qed

text \<open>A text too long for the buffer is sent from behind it.\<close>

lemma send_overreads:
  assumes "response_head c = Some h" and "30 < length h + length v" and "length (s_response_buff s) = 32"
  shows "Send_ATCommnd_Response c v s = Inl MemFault"
  using assms by (simp add: Send_ATCommnd_Response_def load_at_def length_blit Let_def)

lemma response_heads:
  "response_head FACEREG_RSP = Some (ascii ''AT+FACEREG='')" "response_head FACERREG_RSP = Some (ascii ''AT+FACERREG='')"
  "response_head FACEDEL_RSP = Some (ascii ''AT+FACEDEL='')" "response_head FACERES = Some (ascii ''AT+FACERES='')"
  "response_head FACEMODE = Some (ascii ''AT+FACEMODE='')" "response_head PWOFFRSP = Some (ascii ''AT+PWOFFRSP='')"
  by (simp_all add: response_head_def)

section \<open>Lines the parser tells apart\<close>

lemma verdict_sep:
  assumes "61 \<notin> set t" and "61 \<notin> set v"
  shows "verdict (t @ 61 # v) =
    (if ends_with (ascii ''AT+PWOFFRSP'') t \<and> starts_with (ascii ''ACK'') v then FACEIDPWROFFACK
     else if ends_with (ascii ''AT+PWOFFRSP'') t \<and> starts_with (ascii ''NACK'') v then FACEIDPWROFFNACK
     else if ends_with (ascii ''AT+FACERES'') t \<and> \<not> starts_with (ascii ''FAIL'') v then FACEIDUNLOCK
     else FACEIDIDLE)"
proof -
  have p: "ascii ''AT+PWOFFRSP=ACK'' = ascii ''AT+PWOFFRSP'' @ 61 # ascii ''ACK''"
    "ascii ''AT+PWOFFRSP=NACK'' = ascii ''AT+PWOFFRSP'' @ 61 # ascii ''NACK''"
    "ascii ''AT+FACERES=FAIL'' = ascii ''AT+FACERES'' @ 61 # ascii ''FAIL''"
    "ascii ''AT+FACERES='' = ascii ''AT+FACERES'' @ 61 # []"
    by simp_all
  have n: "61 \<notin> set (ascii ''AT+PWOFFRSP'')" "61 \<notin> set (ascii ''AT+FACERES'')" by simp_all
  show ?thesis
    unfolding verdict_def p occurs_sep [OF assms n(1)] occurs_sep [OF assms n(2)] by auto
qed

lemma upper_head_sep: "61 \<notin> set t \<Longrightarrow> upper_head (t @ 61 # v) = map toupper t @ 61 # v"
  by (simp add: upper_head_def takeWhile_append dropWhile_append)

lemma toupper_not_sep: "61 \<notin> set t \<Longrightarrow> 61 \<notin> set (map toupper t)"
proof -
  have "c - 32 \<noteq> 61" if "97 \<le> c" for c :: u8
  proof
    assume "c - 32 = 61"
    then have "c = 93" by (simp add: algebra_simps)
    then show False using that by simp
  qed
  then show "61 \<notin> set t \<Longrightarrow> 61 \<notin> set (map toupper t)" by (auto simp: toupper_def)
qed

definition at_line :: "u8 list \<Rightarrow> u8 list \<Rightarrow> u8 list" where
  "at_line head v = head @ 61 # v @ [CR, LF]"

text \<open>Characters a line may consist of.\<close>

definition plain_text :: "u8 list \<Rightarrow> bool" where
  "plain_text v \<longleftrightarrow> 0 \<notin> set v \<and> CR \<notin> set v \<and> LF \<notin> set v"

lemma verdict_line:
  assumes "61 \<notin> set head" and "61 \<notin> set v"
  shows "verdict (upper_head (at_line head v)) = verdict (map toupper head @ 61 # v @ [CR, LF])"
  using assms by (simp add: at_line_def upper_head_sep)

section \<open>The controller and a line\<close>

text \<open>The controller waits for a recognised face, with an empty receive buffer.\<close>

definition listening :: "lpc_st \<Rightarrow> bool" where
  "listening s \<longleftrightarrow> lpc_state s = LPC_STATE_NORMAL_WORK \<and> waiting s \<and> \<not> is_wkt_alarmed s \<and> \<not> asleep s \<and>
     collected [] (faceid s) = faceid s"

text \<open>The characters arrive and the main loop has its next round: it leaves the wait loop, as it does on
  its unlock verdict.\<close>

definition opens_lock :: "lpc_st \<Rightarrow> u8 list \<Rightarrow> bool" where
  "opens_lock s m \<longleftrightarrow> (\<exists>t. lpc_run s (map (\<lambda>c. Uart (Some c)) m @ [Main]) t \<and> lpc_state t = LPC_STATE_PRE_DEEP_POWER_DOWN)"

lemma lpc_step_det: "lpc_step s e t \<Longrightarrow> lpc_step s e u \<Longrightarrow> t = u"
  by (auto elim!: lpc_step.cases)

lemma lpc_run_det: "lpc_run s es t \<Longrightarrow> lpc_run s es u \<Longrightarrow> t = u"
proof (induction arbitrary: u rule: lpc_run.induct)
  case (step s e s' es t)
  then show ?case using lpc_step_det by blast
qed auto

lemma lpc_run_appendE:
  assumes "lpc_run s (xs @ ys) t"
  obtains u where "lpc_run s xs u" and "lpc_run u ys t"
  using assms by (induction xs arbitrary: s thesis) (auto simp: lpc_run.stop intro: lpc_run.step)

lemma opens_lock_iff:
  assumes s: "listening s" and l: "plain_text l" "length l < 253"
  shows "opens_lock s (l @ [CR, LF]) \<longleftrightarrow> verdict (upper_head (l @ [CR, LF])) = FACEIDUNLOCK"
proof -
  let ?f = "has_line l (faceid s)" and ?m = "map (\<lambda>c. Uart (Some c)) (l @ [CR, LF])"
  have f: "receive (l @ [CR, LF]) (faceid s) = Inr ?f"
    using receive_line [of "faceid s" l] s l by (simp add: listening_def plain_text_def)
  have "\<not> asleep s" using s by (simp add: listening_def)
  from run_receive [OF this f] have r: "lpc_run s ?m (s\<lparr>faceid := ?f\<rparr>)" by simp
  have "length l < 254" "0 \<notin> set l" using l by (simp_all add: plain_text_def)
  from task_line [OF this(2,1), of "faceid s"] obtain f' where
    t: "APP_FACEID_Task ?f = Inr (verdict (upper_head (l @ [CR, LF])), f')" by blast
  have m: "lpc_main (s\<lparr>faceid := ?f\<rparr>) = normal_work (s\<lparr>faceid := ?f\<rparr>)" using s by (simp add: lpc_main_def listening_def)
  have n: "\<exists>u. normal_work (s\<lparr>faceid := ?f\<rparr>) = Inr u \<and>
      (lpc_state u = LPC_STATE_PRE_DEEP_POWER_DOWN \<longleftrightarrow> verdict (upper_head (l @ [CR, LF])) = FACEIDUNLOCK)"
    using s t by (simp add: normal_work_def poll_faceid_def listening_def go_def CTimer_start_def CTIMER_StopTimer_def)
  then obtain u where u: "lpc_main (s\<lparr>faceid := ?f\<rparr>) = Inr u"
    "lpc_state u = LPC_STATE_PRE_DEEP_POWER_DOWN \<longleftrightarrow> verdict (upper_head (l @ [CR, LF])) = FACEIDUNLOCK"
    using m by auto
  have "lpc_run s (?m @ [Main]) u"
    by (rule lpc_run_append [OF r]) (use u(1) s in \<open>simp add: lpc_step_simps listening_def\<close>)
  then show ?thesis using u(2) lpc_run_det unfolding opens_lock_def by metis
qed

section \<open>The report of a recognition result\<close>

definition report :: "bool \<Rightarrow> oasis_lite_result_t \<Rightarrow> u8 list list" where
  "report fromLpm r =
    (if fromLpm then [at_line (ascii ''AT+FACEMODE'') (ascii ''LP'')] else []) @
    (if fake_face r then [at_line (ascii ''AT+FACEREG'') (ascii ''FAKE'')] else []) @
    (case state r of
       kOASISLiteState_Recognition \<Rightarrow>
         if result r = kOASISLiteRecognitionResult_Success then [at_line (ascii ''AT+FACERES'') (decimal (face_id r))] else []
     | kOASISLiteState_Registration \<Rightarrow>
         if result r = kOASISLiteRegistrationResult_Success then [at_line (ascii ''AT+FACEREG'') (decimal (face_id r))]
         else if result r = kOASISLiteRegistrationResult_Timeout then [at_line (ascii ''AT+FACEREG'') (ascii ''FAIL'')]
         else if result r = kOASISLiteRegistrationResult_Duplicated then [at_line (ascii ''AT+FACEREG'') (ascii ''DUPLICATE'')]
         else []
     | kOASISLiteState_DeRegistration \<Rightarrow>
         if result r = kOASISLiteDeregistrationResult_Success then [at_line (ascii ''AT+FACEDEL'') (ascii ''SUCCESS'')]
         else if result r = kOASISLiteDeregistrationResult_Timeout then [at_line (ascii ''AT+FACEDEL'') (ascii ''FAIL'')]
         else []
     | _ \<Rightarrow> [])"

lemma decimal_id:
  assumes "0 \<le> i" and "i < 100"
  shows "length (decimal i) \<le> 2" and "decimal i \<noteq> []" and "c \<in> set (decimal i) \<Longrightarrow> 48 \<le> unat c \<and> unat c < 58"
proof -
  have n: "nat i < 100" using assms by simp
  show "length (decimal i) \<le> 2" using length_digits [OF n] assms by (simp add: decimal_def)
  show "decimal i \<noteq> []" using assms by (simp add: decimal_def digits.simps [of "nat i"])
  show "c \<in> set (decimal i) \<Longrightarrow> 48 \<le> unat c \<and> unat c < 58" using digits_chars assms by (simp add: decimal_def)
qed

lemma send_line:
  assumes "response_head c = Some (head @ [61])" and "length head + length v < 29" and "length (s_response_buff s) = 32"
  shows "\<exists>buff. Send_ATCommnd_Response c v s =
      Inr (0, s\<lparr>s_response_buff := buff, at_sent := at_sent s @ [at_line head v]\<rparr>) \<and> length buff = 32"
  using send_fits [OF assms(1) _ assms(3), of v] assms(2) by (simp add: at_line_def)

text \<open>Sending keeps the buffer's size and appends what it sends.\<close>

definition sends :: "at_st outcome \<Rightarrow> at_st \<Rightarrow> u8 list list \<Rightarrow> bool" where
  "sends m s ms \<longleftrightarrow> (\<exists>s'. m = Inr s' \<and> at_sent s' = at_sent s @ ms \<and> length (s_response_buff s') = 32)"

lemma sends_word:
  assumes "response_head c = Some (head @ [61])" and "length head + length w < 29" and "length (s_response_buff s) = 32"
  shows "sends (send_word c w s) s [at_line head (ascii w)]"
  using send_line [OF assms(1) _ assms(3), of "ascii w"] assms(2) by (auto simp: send_word_def sends_def)

lemma sends_id:
  assumes "response_head c = Some (head @ [61])" and "length head < 27" and "length (s_response_buff s) = 32"
    and "0 \<le> i" and "i < 100"
  shows "sends (send_id c i s) s [at_line head (decimal i)]"
  using send_line [OF assms(1) _ assms(3), of "decimal i"] decimal_id(1) [OF assms(4,5)] assms(2)
  by (auto simp: send_id_def sends_def)

lemma sends_nothing: "length (s_response_buff s) = 32 \<Longrightarrow> sends (Inr s) s []"
  by (simp add: sends_def)

lemma sends_then:
  "sends m s ms \<Longrightarrow> (\<And>s'. length (s_response_buff s') = 32 \<Longrightarrow> sends (f s') s' ns) \<Longrightarrow> sends (rbind m f) s (ms @ ns)"
  by (fastforce simp: sends_def)

lemma vote_frame [simp]: "at_sent (vote n b s) = at_sent s" "s_response_buff (vote n b s) = s_response_buff s"
  by (simp_all add: vote_def)

lemma sends_vote: "sends m (vote n b s) ms \<longleftrightarrow> sends m s ms"
  by (simp add: sends_def)

lemma heads_sep:
  "response_head FACEREG_RSP = Some (ascii ''AT+FACEREG'' @ [61])" "response_head FACERREG_RSP = Some (ascii ''AT+FACERREG'' @ [61])"
  "response_head FACEDEL_RSP = Some (ascii ''AT+FACEDEL'' @ [61])" "response_head FACERES = Some (ascii ''AT+FACERES'' @ [61])"
  "response_head FACEMODE = Some (ascii ''AT+FACEMODE'' @ [61])" "response_head PWOFFRSP = Some (ascii ''AT+PWOFFRSP'' @ [61])"
  by (simp_all add: response_head_def)

lemma decode_state:
  assumes b: "length (s_response_buff s) = 32" and i: "0 \<le> face_id r" "face_id r < 100"
  shows "state r = kOASISLiteState_Recognition \<Longrightarrow> sends (send_id FACERES (face_id r) s) s [at_line (ascii ''AT+FACERES'') (decimal (face_id r))]"
    and "sends (send_id FACEREG_RSP (face_id r) s) s [at_line (ascii ''AT+FACEREG'') (decimal (face_id r))]"
    and "length w \<le> 9 \<Longrightarrow> sends (send_word FACEREG_RSP w s) s [at_line (ascii ''AT+FACEREG'') (ascii w)]"
    and "length w \<le> 9 \<Longrightarrow> sends (send_word FACEDEL_RSP w s) s [at_line (ascii ''AT+FACEDEL'') (ascii w)]"
    and "length w \<le> 9 \<Longrightarrow> sends (send_word FACEMODE w s) s [at_line (ascii ''AT+FACEMODE'') (ascii w)]"
  by (rule sends_id [OF heads_sep(4) _ b i] sends_id [OF heads_sep(1) _ b i] sends_word [OF heads_sep(1) _ b]
      sends_word [OF heads_sep(3) _ b] sends_word [OF heads_sep(5) _ b]; simp)+

text \<open>The identifier of a face is sent for a successful recognition and a successful registration only; other
  results carry any number, often -1.\<close>

definition shows_id :: "oasis_lite_result_t \<Rightarrow> bool" where
  "shows_id r \<longleftrightarrow> state r = kOASISLiteState_Recognition \<and> result r = kOASISLiteRecognitionResult_Success \<or>
     state r = kOASISLiteState_Registration \<and> result r = kOASISLiteRegistrationResult_Success"

lemma decode_report_id:
  assumes b: "length (s_response_buff s) = 32" and i: "0 \<le> face_id r" "face_id r < 100"
  shows "sends (APP_OutputDev_ATCommands_InferCompleteDecode fromLpm r s) s (report fromLpm r)"
  unfolding APP_OutputDev_ATCommands_InferCompleteDecode_def report_def Let_def
proof (rule sends_then, goal_cases)
  case 1
  then show ?case using decode_state(5) [OF b i, of "''LP''"] sends_nothing [OF b] by simp
next
  case (2 s1)
  show ?case
  proof (rule sends_then, goal_cases)
    case 1
    then show ?case using decode_state(3) [OF 2 i, of "''FAKE''"] sends_nothing [OF 2] by simp
  next
    case (2 s2)
    have v: "length (s_response_buff (vote n x s2)) = 32" for n x using 2 by simp
    note voted = decode_state [OF v i, unfolded sends_vote] sends_nothing [OF v, unfolded sends_vote]
    show ?case
      by (cases "state r") (auto simp del: ascii_simps intro!: decode_state(1) [OF 2 i] sends_nothing [OF 2] voted)
  qed
qed

lemma without_id:
  "\<not> shows_id r \<Longrightarrow> APP_OutputDev_ATCommands_InferCompleteDecode fromLpm (r\<lparr>face_id := 0\<rparr>) s = APP_OutputDev_ATCommands_InferCompleteDecode fromLpm r s"
  "\<not> shows_id r \<Longrightarrow> report fromLpm (r\<lparr>face_id := 0\<rparr>) = report fromLpm r"
  by (cases "state r"; simp add: shows_id_def APP_OutputDev_ATCommands_InferCompleteDecode_def report_def Let_def)+

lemma decode_report:
  assumes b: "length (s_response_buff s) = 32" and i: "shows_id r \<Longrightarrow> 0 \<le> face_id r \<and> face_id r < 100"
  shows "sends (APP_OutputDev_ATCommands_InferCompleteDecode fromLpm r s) s (report fromLpm r)"
proof (cases "shows_id r")
  case True
  then show ?thesis using decode_report_id [OF b] i by blast
next
  case False
  then show ?thesis using decode_report_id [OF b, of "r\<lparr>face_id := 0\<rparr>" fromLpm] without_id by simp
qed

section \<open>The command lines the module reads\<close>

lemma index_Suc32: "unat (i :: u32) < 1024 \<Longrightarrow> unat (i + 1) = unat i + 1"
  using unat_add_small [of i 1] by simp

lemma read_plain:
  "unat (s_current_idx s) + length xs < 1023 \<Longrightarrow> length (s_commands_buf s) = 1024 \<Longrightarrow> 0 \<notin> set xs \<Longrightarrow> lc \<notin> set xs \<Longrightarrow>
    read_command 0 lc (xs @ lc # rest) s = Inr (Some rest, s\<lparr>s_lpuart_char := lc,
      s_commands_buf := blit (unat (s_current_idx s)) (xs @ [lc]) (s_commands_buf s),
      s_current_idx := s_current_idx s + of_nat (length xs) + 1\<rparr>)"
proof (induction xs arbitrary: s)
  case Nil
  have "unat (s_current_idx s + 1) = unat (s_current_idx s) + 1" using Nil.prems by (intro index_Suc32) simp
  then show ?case using Nil.prems by (simp add: Let_def)
next
  case (Cons x xs)
  let ?i = "s_current_idx s" and ?b = "s_commands_buf s"
  have i: "unat (?i + 1) = unat ?i + 1" using Cons.prems(1) by (intro index_Suc32) simp
  have n: "?i + 1 \<noteq> 0" using i by (metis Suc_eq_plus1 nat.distinct(1) unat_0)
  have b: "length (blit (unat ?i) [x] ?b) = 1024" using Cons.prems by (subst length_blit) simp_all
  have blit: "blit (unat ?i + 1) ys (blit (unat ?i) [x] ?b) = blit (unat ?i) (x # ys) ?b" for ys
    using Cons.prems(1,2) by (simp add: blit_def add.commute)
  have "read_command 0 lc ((x # xs) @ lc # rest) s = read_command 0 lc (xs @ lc # rest)
      (s\<lparr>s_lpuart_char := x, s_commands_buf := blit (unat ?i) [x] ?b, s_current_idx := ?i + 1\<rparr>)"
    using Cons.prems n i by (auto simp: Let_def)
  then show ?case using Cons.IH [of "s\<lparr>s_lpuart_char := x, s_commands_buf := blit (unat ?i) [x] ?b, s_current_idx := ?i + 1\<rparr>"]
      Cons.prems i b blit by (simp add: add.assoc)
qed

lemma strupr_all_text: "0 \<notin> set xs \<Longrightarrow> strupr_all (xs @ 0 # ys) = Inr (map toupper xs @ 0 # ys)"
  by (induction xs) auto

lemma toupper_nul: "0 \<notin> set xs \<Longrightarrow> 0 \<notin> set (map toupper xs)"
proof
  assume n: "0 \<notin> set xs" "0 \<in> set (map toupper xs)"
  then obtain c where "c \<in> set xs" "toupper c = 0" by auto
  then show False using n(1) by simp
qed

lemma parse_text:
  "0 \<notin> set cmd \<Longrightarrow> Parse_ATCommand (cmd @ 0 # ys) = Inr (ATCommand_of (map toupper cmd), map toupper cmd @ 0 # ys)"
  using toupper_nul [of cmd] by (simp add: Parse_ATCommand_def strupr_all_text c_text_def)

text \<open>What the round does once the command is parsed.\<close>

definition serve :: "os_if \<Rightarrow> sln_at_command_t \<Rightarrow> u8 list \<Rightarrow> at_st \<Rightarrow> (u8 list option \<times> at_st) outcome" where
  "serve A command rest s =
    rbind (case command of
        FACEREG \<Rightarrow> face_reg rest s
      | FACEDREG \<Rightarrow> Inr (Some rest, notify (DelUser None) s)
      | FACERREG \<Rightarrow> face_rreg A rest s
      | FACEDEL \<Rightarrow> face_del rest s
      | PWOFFREQ \<Rightarrow> rbind (pwoff_req s) (\<lambda>(_, s). Inr (Some rest, s))
      | _ \<Rightarrow> Inr (Some rest, s)) (\<lambda>(rest, s).
    Inr (rest, if rest = None then s else s\<lparr>s_lpuart_char := 0, s_current_idx := 0\<rparr>))"

lemma round_command:
  assumes b: "length (s_commands_buf s) = 1024" and t: "length cmd < 1000" "0 \<notin> set cmd" "61 \<notin> set cmd"
  shows "\<exists>buf i. SLN_ATCommands_Task A (cmd @ 61 # rest) s =
      serve A (ATCommand_of (map toupper cmd @ [61])) rest (s\<lparr>s_lpuart_char := 61, s_current_idx := i, s_commands_buf := buf\<rparr>) \<and>
    length buf = 1024"
proof -
  let ?b1 = "blit 0 (cmd @ [61]) (s_commands_buf s)" and ?i = "of_nat (length cmd) + 1 :: u32"
  have i: "unat ?i = length cmd + 1"
  proof -
    have "unat (of_nat (length cmd) :: u32) = length cmd" using t(1) by (simp add: unat_of_nat)
    then show ?thesis using index_Suc32 [of "of_nat (length cmd)"] t(1) by simp
  qed
  have r: "read_command 0 61 (cmd @ 61 # rest) (s\<lparr>s_current_idx := 0\<rparr>) =
      Inr (Some rest, s\<lparr>s_lpuart_char := 61, s_commands_buf := ?b1, s_current_idx := ?i\<rparr>)"
    using read_plain [of "s\<lparr>s_current_idx := 0\<rparr>" cmd 61 rest] b t by simp
  let ?b2 = "(cmd @ [61]) @ 0 # drop (length cmd + 2) (s_commands_buf s)"
  have "store_at (length cmd + 1) [0] ?b1 = Inr ?b2"
    using b t(1) by (simp add: store_at_def length_blit) (simp add: blit_def)
  moreover have "nat (uint ?i) = length cmd + 1" using i by (simp add: nat_uint_eq)
  ultimately have e: "end_string (uint ?i) (s\<lparr>s_lpuart_char := 61, s_commands_buf := ?b1, s_current_idx := ?i\<rparr>) =
      Inr (s\<lparr>s_lpuart_char := 61, s_commands_buf := ?b2, s_current_idx := ?i\<rparr>)"
    by (simp add: end_string_def)
  let ?b3 = "map toupper (cmd @ [61]) @ 0 # drop (length cmd + 2) (s_commands_buf s)"
  have p: "Parse_ATCommand ?b2 = Inr (ATCommand_of (map toupper (cmd @ [61])), ?b3)"
    using t(2) by (intro parse_text) simp
  have m: "map toupper (cmd @ [61]) = map toupper cmd @ [61]" by (simp add: toupper_def)
  define s2 where "s2 = s\<lparr>s_lpuart_char := 61, s_commands_buf := ?b2, s_current_idx := ?i\<rparr>"
  have s2: "s_commands_buf s2 = ?b2"
    "s2\<lparr>s_commands_buf := ?b3\<rparr> = s\<lparr>s_lpuart_char := 61, s_current_idx := ?i, s_commands_buf := ?b3\<rparr>"
    by (simp_all add: s2_def)
  have "SLN_ATCommands_Task A (cmd @ 61 # rest) s = serve A (ATCommand_of (map toupper (cmd @ [61]))) rest (s2\<lparr>s_commands_buf := ?b3\<rparr>)"
  proof -
    obtain c b3 where p': "Parse_ATCommand (s_commands_buf s2) = Inr (c, b3)" and
      c: "c = ATCommand_of (map toupper (cmd @ [61]))" "b3 = ?b3" using p [folded s2(1)] by blast
    show ?thesis unfolding SLN_ATCommands_Task_def serve_def c [symmetric] using r e [folded s2_def] p' by (simp add: Let_def)
  qed
  moreover have "length ?b3 = 1024" using b t(1) by simp
  ultimately show ?thesis unfolding s2(2) unfolding m by blast
qed

lemma read_argument_plain:
  assumes "length (s_commands_buf s) = 1024" and "length arg < 1023" and "0 \<notin> set arg" and "CR \<notin> set arg"
  shows "\<exists>buf i. read_argument (arg @ CR # rest) s =
      Inr (Some rest, s\<lparr>s_lpuart_char := CR, s_commands_buf := buf, s_current_idx := i\<rparr>) \<and>
    length buf = 1024 \<and> c_text buf = Inr arg"
proof -
  let ?b1 = "blit 0 (arg @ [CR]) (s_commands_buf s)" and ?i = "of_nat (length arg) + 1 :: u32"
  have r: "read_command 0 CR (arg @ CR # rest) (s\<lparr>s_current_idx := 0\<rparr>) =
      Inr (Some rest, s\<lparr>s_lpuart_char := CR, s_commands_buf := ?b1, s_current_idx := ?i\<rparr>)"
    using read_plain [of "s\<lparr>s_current_idx := 0\<rparr>" arg CR rest] assms by simp
  have "unat (of_nat (length arg) :: u32) = length arg" using assms(2) by (simp add: unat_of_nat)
  then have "unat ?i = length arg + 1" using index_Suc32 [of "of_nat (length arg)"] assms(2) by simp
  then have i: "uint ?i - 1 = int (length arg)" by (metis add_diff_cancel_right' of_nat_1 of_nat_add uint_nat)
  let ?b2 = "arg @ 0 # drop (length arg + 1) (s_commands_buf s)"
  have "store_at (length arg) [0] ?b1 = Inr ?b2"
    using assms(1,2) by (simp add: store_at_def length_blit) (simp add: blit_def)
  then have "end_string (uint ?i - 1) (s\<lparr>s_lpuart_char := CR, s_commands_buf := ?b1, s_current_idx := ?i\<rparr>) =
      Inr (s\<lparr>s_lpuart_char := CR, s_commands_buf := ?b2, s_current_idx := ?i\<rparr>)"
    unfolding end_string_def i by simp
  then have "read_argument (arg @ CR # rest) s = Inr (Some rest, s\<lparr>s_lpuart_char := CR, s_commands_buf := ?b2, s_current_idx := ?i\<rparr>)"
    unfolding read_argument_def using r by simp
  moreover have "length ?b2 = 1024" using assms(1,2) by simp
  moreover have "c_text ?b2 = Inr arg" using assms(3) by (simp add: c_text_def)
  ultimately show ?thesis by blast
qed

text \<open>The module between two commands.\<close>

definition at_idle :: at_st where
  "at_idle = \<lparr>s_commands_buf = replicate 1024 0, s_response_buff = replicate 32 0, s_lpuart_char = 0, s_current_idx = 0,
     s_ATCommandPowerOffStatus = 0, blocking_timer = None, has_callback = True, regData = None, at_sent = [], at_events = [], at_calls = 0\<rparr>"

end
