(* ===== verification/Lock_Props.thy ===== *)
theory Lock_Props
  imports Lock_Link
begin

text \<open>
  Properties of the power controller together with the recognition module: its state machine never
  waits without a timer and never cuts the power unasked, it only leaves its watch for a recognised
  face, and it does not heed a refusal of the power-off request.
\<close>

section \<open>The power controller\<close>

text \<open>C7: Whatever the serial port, the motion sensor and the timer do after a start: the buffers of the
  parser stay well formed, the main loop and the interrupt handlers return, a wait loop is never
  without a running timer or a pending alarm, the module has power while the controller waits for it,
  and its power is only cut after a request sent with the transmit pin on.\<close>
theorem controller_safe:
  assumes "lpc_run (lpc_boot out pin) es s"
  shows "rx_wf (faceid s) \<and>
    (\<not> asleep s \<longrightarrow> (\<exists>t. lpc_step s Main t) \<and> (\<forall>rx. \<exists>t. lpc_step s (Uart rx) t)) \<and>
    (waiting s \<longrightarrow> (ctimer s \<noteq> None \<or> is_wkt_alarmed s) \<and> pwr_ctl s) \<and>
    (lpc_state s = LPC_STATE_DEEP_POWER_DOWN \<longrightarrow> uart_out s \<noteq> [] \<and> last (uart_out s) = (True, power_off_request))"
proof -
  have i: "lpc_inv s" using run_keeps [OF assms] by simp
  have "\<not> asleep s \<Longrightarrow> (\<exists>t. lpc_step s Main t) \<and> (\<forall>rx. \<exists>t. lpc_step s (Uart rx) t)"
    using steps_possible [OF i] by blast
  then show ?thesis using i by (auto simp: lpc_inv_def requested_def)
qed

text \<open>A start, and the three states of the watch reached from it.\<close>

definition at_watch :: lpc_st where
  "at_watch = (lpc_boot [] False)\<lparr>faceid := faceid_reset, is_wkt_alarmed := False, lpc_state := LPC_STATE_NORMAL_WORK,
     waiting := True, ctimer := Some 30000, pwr_ctl := True\<rparr>"

definition at_request :: lpc_st where
  "at_request = at_watch\<lparr>lpc_state := LPC_STATE_PRE_DEEP_POWER_DOWN, ctimer := Some 5000, uart_out := [(True, power_off_request)]\<rparr>"

lemma faceid_reset_init [simp]:
  "faceid_reset\<lparr>g_FACEIDCmdStatus := 0, g_CommandBuf := replicate 256 0\<rparr> = faceid_reset"
  by (simp add: faceid_reset_def)

lemma boot_to_watch: "lpc_run (lpc_boot [] False) [Main, Match, Main, Main] at_watch"
  by (simp add: lpc_step_simps lpc_main_def lpc_defs lpc_boot_def at_watch_def)

lemma watch_to_request: "lpc_run at_watch [Match, Main, Main] at_request"
  by (simp add: lpc_step_simps lpc_main_def lpc_defs lpc_boot_def at_watch_def at_request_def Let_def)

lemma idle_reset [simp]: "collected [] faceid_reset = faceid_reset"
  by (simp add: collected_def faceid_reset_def)

lemma watch_listens: "listening at_watch"
  by (simp add: listening_def at_watch_def lpc_boot_def)

theorem controller_safe_witness:
  "waiting at_request \<and> pwr_ctl at_request \<and> (\<exists>t. lpc_step at_request Main t)"
  using controller_safe [OF lpc_run_append [OF boot_to_watch watch_to_request]]
  by (auto simp: at_request_def at_watch_def lpc_boot_def)

text \<open>C39: A refusal is ignored: after the line with NACK the controller goes on waiting, and when its timer
  has run out it cuts the power all the same.\<close>
theorem nack_ignored:
  assumes "lpc_state s = LPC_STATE_PRE_DEEP_POWER_DOWN" and "waiting s" and "\<not> asleep s" and "\<not> is_wkt_alarmed s"
    and "ctimer s \<noteq> None" and "collected [] (faceid s) = faceid s"
  shows "\<exists>t. lpc_run s (map (\<lambda>c. Uart (Some c)) (at_line (ascii ''AT+PWOFFRSP'') (ascii ''NACK'')) @ [Main, Match, Main, Main]) t \<and>
    \<not> pwr_ctl t"
proof -
  let ?l = "ascii ''AT+PWOFFRSP=NACK''" and ?m = "at_line (ascii ''AT+PWOFFRSP'') (ascii ''NACK'')"
  let ?f = "has_line ?l (faceid s)"
  have m: "?m = ?l @ [CR, LF]" by (simp add: at_line_def)
  have f: "receive ?m (faceid s) = Inr ?f"
    unfolding m by (rule receive_line [OF assms(6)]) simp_all
  have r: "lpc_run s (map (\<lambda>c. Uart (Some c)) ?m) (s\<lparr>faceid := ?f\<rparr>)" by (rule run_receive [OF assms(3) f])
  have l: "0 \<notin> set ?l" "length ?l < 254" by simp_all
  have v: "verdict (upper_head (?l @ [CR, LF])) = FACEIDPWROFFNACK"
    using verdict_line [of "ascii ''AT+PWOFFRSP''" "ascii ''NACK''"] unfolding m
    by (simp add: toupper_def verdict_def)
  obtain f1 where f1: "APP_FACEID_Task ?f = Inr (FACEIDPWROFFNACK, f1)" "g_FACEIDCmdStatus f1 = 0"
    using task_line [OF l, of "faceid s"] v by auto
  have f2: "APP_FACEID_Task f1 = Inr (FACEIDIDLE, f1)" using f1(2) by (intro task_idle) simp
  let ?s1 = "s\<lparr>faceid := f1\<rparr>" and ?s2 = "s\<lparr>faceid := f1, ctimer := None, is_wkt_alarmed := True\<rparr>"
  have st: "lpc_step (s\<lparr>faceid := ?f\<rparr>) Main ?s1" "lpc_step ?s1 Match ?s2"
    using assms f1 by (simp_all add: lpc_step_simps lpc_main_def pre_deep_power_down_def poll_faceid_def ctimer_match0_callback_def)
  let ?s3 = "go LPC_STATE_DEEP_POWER_DOWN (?s2\<lparr>faceid := f1\<rparr>)"
  have st3: "lpc_step ?s2 Main ?s3"
    using assms f2 by (simp add: lpc_step_simps lpc_main_def pre_deep_power_down_def poll_faceid_def)
  have "\<exists>t. lpc_step ?s3 Main t \<and> \<not> pwr_ctl t"
    using assms(3) by (simp add: lpc_step_simps lpc_main_def deep_power_down_def APP_FACEID_Deinit_def go_def Let_def)
  then obtain t where "lpc_step ?s3 Main t" "\<not> pwr_ctl t" by blast
  then have "lpc_run (s\<lparr>faceid := ?f\<rparr>) [Main, Match, Main, Main] t"
    using st st3 by (meson lpc_run.intros)
  from lpc_run_append [OF r this] show ?thesis using \<open>\<not> pwr_ctl t\<close> by blast
qed

theorem nack_ignored_witness:
  "\<exists>t. lpc_run at_request
      (map (\<lambda>c. Uart (Some c)) (at_line (ascii ''AT+PWOFFRSP'') (ascii ''NACK'')) @ [Main, Match, Main, Main]) t \<and> \<not> pwr_ctl t"
  by (rule nack_ignored) (simp_all add: at_request_def at_watch_def lpc_boot_def)

section \<open>From a recognised face to the lock\<close>

lemma report_cases:
  assumes "m \<in> set (report fromLpm r)"
  obtains head w where "m = at_line head (ascii w)" "head \<in> {ascii ''AT+FACEREG'', ascii ''AT+FACEDEL'', ascii ''AT+FACEMODE''}"
      "w \<in> {''LP'', ''FAKE'', ''FAIL'', ''DUPLICATE'', ''SUCCESS''}"
    | "m = at_line (ascii ''AT+FACEREG'') (decimal (face_id r))"
    | "m = at_line (ascii ''AT+FACERES'') (decimal (face_id r))" "state r = kOASISLiteState_Recognition"
      "result r = kOASISLiteRecognitionResult_Success"
  using assms that
  by (auto simp: report_def simp del: ascii_simps split: if_splits oasis_lite_state_t.splits)

lemma report_recognised:
  "state r = kOASISLiteState_Recognition \<Longrightarrow> result r = kOASISLiteRecognitionResult_Success \<Longrightarrow>
    at_line (ascii ''AT+FACERES'') (decimal (face_id r)) \<in> set (report fromLpm r)"
  by (simp add: report_def)

lemma heads_upper:
  "map toupper (ascii ''AT+FACERES'') = ascii ''AT+FACERES''" "map toupper (ascii ''AT+FACEREG'') = ascii ''AT+FACEREG''"
  "map toupper (ascii ''AT+FACEDEL'') = ascii ''AT+FACEDEL''" "map toupper (ascii ''AT+FACEMODE'') = ascii ''AT+FACEMODE''"
  by (simp_all add: toupper_def)

lemma word_line_idle:
  assumes "head \<in> {ascii ''AT+FACEREG'', ascii ''AT+FACEDEL'', ascii ''AT+FACEMODE''}"
    and "w \<in> {''LP'', ''FAKE'', ''FAIL'', ''DUPLICATE'', ''SUCCESS''}"
  shows "verdict (upper_head (at_line head (ascii w))) = FACEIDIDLE \<and> plain_text (head @ 61 # ascii w) \<and>
    length (head @ 61 # ascii w) < 253"
proof -
  have h: "61 \<notin> set head \<and> plain_text head \<and> length head \<le> 11 \<and> map toupper head = head \<and>
      \<not> ends_with (ascii ''AT+PWOFFRSP'') head \<and> \<not> ends_with (ascii ''AT+FACERES'') head"
    using assms(1) by (elim insertE emptyE) (simp_all add: plain_text_def ends_with_def toupper_def)
  have w: "61 \<notin> set (ascii w) \<and> plain_text (ascii w) \<and> length (ascii w) \<le> 9"
    using assms(2) by (elim insertE emptyE) (simp_all add: plain_text_def)
  have "61 \<notin> set (ascii w @ [CR, LF])" using w by simp
  then have "verdict (upper_head (at_line head (ascii w))) = FACEIDIDLE"
    using verdict_line [of head "ascii w"] verdict_sep [of head "ascii w @ [CR, LF]"] h w by simp
  then show ?thesis using h w by (auto simp: plain_text_def)
qed

lemma id_line:
  assumes "0 \<le> i" and "i < 100" and "head \<in> {ascii ''AT+FACERES'', ascii ''AT+FACEREG''}"
  shows "verdict (upper_head (at_line head (decimal i))) = (if head = ascii ''AT+FACERES'' then FACEIDUNLOCK else FACEIDIDLE) \<and>
    plain_text (head @ 61 # decimal i) \<and> length (head @ 61 # decimal i) < 253"
proof -
  have d: "c \<in> set (decimal i) \<Longrightarrow> c \<noteq> 0 \<and> c \<noteq> 13 \<and> c \<noteq> 10 \<and> c \<noteq> 61 \<and> c \<noteq> 70" for c
    using decimal_id(3) [OF assms(1,2), of c] by auto
  obtain d0 ds where ds: "decimal i = d0 # ds" "d0 \<noteq> 70" using decimal_id(2) [OF assms(1,2)] d by (cases "decimal i") auto
  have "61 \<notin> set head" "61 \<notin> set (decimal i)" "61 \<notin> set (decimal i @ [CR, LF])" "map toupper head = head"
    using assms(3) heads_upper d by auto
  then have "verdict (upper_head (at_line head (decimal i))) = (if head = ascii ''AT+FACERES'' then FACEIDUNLOCK else FACEIDIDLE)"
    using verdict_line [of head "decimal i"] verdict_sep [of head "decimal i @ [CR, LF]"] assms(3) ds
    by (auto simp: ends_with_def)
  moreover have "plain_text (head @ 61 # decimal i)" using assms(3) d by (auto simp: plain_text_def)
  ultimately show ?thesis using assms(3) decimal_id(1) [OF assms(1,2)] by auto
qed

lemma opens_line:
  assumes "listening s" and "plain_text (head @ 61 # v)" and "length (head @ 61 # v) < 253"
  shows "opens_lock s (at_line head v) \<longleftrightarrow> verdict (upper_head (at_line head v)) = FACEIDUNLOCK"
  using opens_lock_iff [OF assms] by (simp add: at_line_def)

lemma report_opens_id:
  assumes "0 \<le> face_id r" and "face_id r < 100" and "listening s"
  shows "(\<exists>m\<in>set (report fromLpm r). opens_lock s m) \<longleftrightarrow>
      state r = kOASISLiteState_Recognition \<and> result r = kOASISLiteRecognitionResult_Success"
proof
  assume "\<exists>m\<in>set (report fromLpm r). opens_lock s m"
  then obtain m where m: "m \<in> set (report fromLpm r)" "opens_lock s m" by blast
  from m(1) show "state r = kOASISLiteState_Recognition \<and> result r = kOASISLiteRecognitionResult_Success"
  proof (cases rule: report_cases)
    case (1 head w)
    then show ?thesis using m(2) word_line_idle [OF 1(2,3)] opens_line [OF assms(3)] by fastforce
  next
    case 2
    have "ascii ''AT+FACEREG'' \<noteq> ascii ''AT+FACERES''" by simp
    then show ?thesis using m(2) 2 id_line [OF assms(1,2), of "ascii ''AT+FACEREG''"]
        opens_line [OF assms(3), of "ascii ''AT+FACEREG''" "decimal (face_id r)"] by fastforce
  qed simp
next
  assume "state r = kOASISLiteState_Recognition \<and> result r = kOASISLiteRecognitionResult_Success"
  moreover have "opens_lock s (at_line (ascii ''AT+FACERES'') (decimal (face_id r)))"
    using id_line [OF assms(1,2), of "ascii ''AT+FACERES''"] opens_line [OF assms(3)] by fastforce
  ultimately show "\<exists>m\<in>set (report fromLpm r). opens_lock s m" using report_recognised by blast
qed

lemma report_opens:
  assumes "shows_id r \<Longrightarrow> 0 \<le> face_id r \<and> face_id r < 100" and "listening s"
  shows "(\<exists>m\<in>set (report fromLpm r). opens_lock s m) \<longleftrightarrow>
      state r = kOASISLiteState_Recognition \<and> result r = kOASISLiteRecognitionResult_Success"
proof (cases "shows_id r")
  case True
  then show ?thesis using report_opens_id [of r s fromLpm] assms by blast
next
  case False
  then show ?thesis using report_opens_id [of "r\<lparr>face_id := 0\<rparr>" s fromLpm] assms(2) without_id(2) by simp
qed

text \<open>C5: From a result of the recognition to the lock, for results of every kind (recognised, unknown, invalid,
  timeout, of registrations and deletions): the module reports the result on the serial line, and a line
  of the report makes the listening controller leave its watch if and only if the result is that of a
  recognised face. (The mark of a fake face does not matter.) A result that shows an identifier, that is a
  success of a recognition or a registration, has one of two digits; the identifier of the others is not
  looked at, and is -1 when there is no face.\<close>
theorem only_recognition_unlocks:
  assumes "length (s_response_buff a) = 32" and "shows_id r \<Longrightarrow> 0 \<le> face_id r \<and> face_id r < 100" and "listening s"
  shows "\<exists>a' ms. APP_OutputDev_ATCommands_InferCompleteDecode fromLpm r a = Inr a' \<and> at_sent a' = at_sent a @ ms \<and>
    ((\<exists>m\<in>set ms. opens_lock s m) \<longleftrightarrow>
      state r = kOASISLiteState_Recognition \<and> result r = kOASISLiteRecognitionResult_Success)"
  using decode_report [OF assms(1,2), of fromLpm] report_opens [OF assms(2,3), of fromLpm] unfolding sends_def by blast

theorem only_recognition_unlocks_witness:
  "(\<exists>a' ms. APP_OutputDev_ATCommands_InferCompleteDecode False
      \<lparr>state = kOASISLiteState_Recognition, face_id = 42, fake_face = False, result = 1\<rparr> at_idle = Inr a' \<and>
    at_sent a' = ms \<and> (\<exists>m\<in>set ms. opens_lock at_watch m)) \<and>
  (\<exists>a' ms. APP_OutputDev_ATCommands_InferCompleteDecode False
      \<lparr>state = kOASISLiteState_Recognition, face_id = - 1, fake_face = True, result = 2\<rparr> at_idle = Inr a' \<and>
    at_sent a' = ms \<and> \<not> (\<exists>m\<in>set ms. opens_lock at_watch m))" (is "?known \<and> ?unknown")
proof (rule conjI)
  show ?known
    using only_recognition_unlocks [of at_idle "\<lparr>state = kOASISLiteState_Recognition, face_id = 42, fake_face = False, result = 1\<rparr>"
      at_watch False] watch_listens by (simp add: at_idle_def)
  show ?unknown
    using only_recognition_unlocks [of at_idle "\<lparr>state = kOASISLiteState_Recognition, face_id = - 1, fake_face = True, result = 2\<rparr>"
      at_watch False] watch_listens by (simp add: at_idle_def shows_id_def)
qed

end
