(* ===== verification/At_Props.thy ===== *)
theory At_Props
  imports Lock_Link Flash_Sim
begin

text \<open>
  Properties of the command link of the face recognition module: what it does for each command line,
  its vote on a power-off request as three flags; and the behaviours behind three faults: an event
  list that is read past its end, an argument that overruns the command buffer, and a remote result
  whose text does not fit its buffers.
\<close>

section \<open>Command lines\<close>

lemma digit_value: "n < 10 \<Longrightarrow> is_digit (of_nat (48 + n)) \<and> uint (of_nat (48 + n) :: u8) = 48 + int n"
proof -
  assume n: "n < 10"
  have u: "unat (of_nat (48 + n) :: u8) = 48 + n" using n by (simp only: unat_of_nat) simp
  then have "uint (of_nat (48 + n) :: u8) = 48 + int n" by (metis of_nat_add of_nat_numeral uint_nat)
  moreover have "is_digit (of_nat (48 + n))" unfolding is_digit_def word_le_nat_alt u using n by simp
  ultimately show ?thesis by simp
qed

lemma digits_to_int_append: "\<forall>c\<in>set xs. is_digit c \<Longrightarrow> digits_to_int n (xs @ ys) = digits_to_int (digits_to_int n xs) ys"
  by (induction xs arbitrary: n) simp_all

lemma is_digit_range: "48 \<le> unat c \<and> unat c < 58 \<longleftrightarrow> is_digit c"
  by (auto simp: is_digit_def word_le_nat_alt)

lemma digits_to_int_digits: "digits_to_int 0 (digits n) = int n"
proof (induction n rule: digits.induct)
  case (1 n)
  show ?case
  proof (cases "n < 10")
    case True
    then show ?thesis using digit_value [OF True] by (subst digits.simps) simp
  next
    case False
    have d: "\<forall>c\<in>set (digits (n div 10)). is_digit c" using digits_chars is_digit_range by blast
    have "n mod 10 < 10" by simp
    note v = digit_value [OF this]
    have "digits n = digits (n div 10) @ [of_nat (48 + n mod 10)]" using False by (simp add: digits.simps [of n])
    then have "digits_to_int 0 (digits n) = 10 * int (n div 10) + int (n mod 10)"
      using digits_to_int_append [OF d, of 0 "[of_nat (48 + n mod 10)]"] v 1 [OF False] by simp
    then show ?thesis by presburger
  qed
qed

lemma atoi_digits:
  assumes "n < 65536"
  shows "atoi (digits n) = int n"
proof -
  obtain c cs where d: "digits n = c # cs" by (cases "digits n") (auto simp: digits.simps [of n] split: if_splits)
  then have c: "48 \<le> unat c" "unat c < 58" using digits_chars [of c n] by auto
  have "\<not> is_space c" "c \<noteq> 45" "c \<noteq> 43" using c by (auto simp: is_space_def word_le_nat_alt)
  then show ?thesis using assms d digits_to_int_digits [of n] by (simp add: atoi_def Let_def)
qed

lemma command_codes:
  "ATCommand_of (ascii ''AT+FACEREG='') = FACEREG" "ATCommand_of (ascii ''AT+FACEDREG='') = FACEDREG"
  "ATCommand_of (ascii ''AT+FACEDEL='') = FACEDEL" "ATCommand_of (ascii ''AT+PWOFFREQ='') = PWOFFREQ"
  by code_simp+

lemma round_for:
  assumes "length (s_commands_buf s) = 1024" and "ATCommand_of (ascii (w @ ''='')) = c"
    and "length w < 1000" and "0 \<notin> set (ascii w)" and "61 \<notin> set (ascii w)" and "map toupper (ascii w) = ascii w"
  shows "\<exists>buf i. SLN_ATCommands_Task A (ascii w @ 61 # rest) s =
      serve A c rest (s\<lparr>s_lpuart_char := 61, s_current_idx := i, s_commands_buf := buf\<rparr>) \<and> length buf = 1024"
proof -
  have "ascii (w @ ''='') = ascii w @ [61]" by (simp add: ascii_def)
  then show ?thesis using round_command [OF assms(1), of "ascii w" A rest] assms(2-6) by simp
qed

text \<open>C23: A command line is served: a registration with a name of at most 30 characters, a registration
  without a name, a deletion of an identifier written in decimal and a deletion of the user in front of
  the camera give the framework the event they stand for, and the task goes on behind the line.\<close>
theorem command_lines_served:
  assumes s: "length (s_commands_buf s) = 1024" "has_callback s"
    and n: "length name \<le> 30" "0 \<notin> set name" "CR \<notin> set name" and i: "i < 65536"
  shows "(\<exists>t. SLN_ATCommands_Task A (ascii ''AT+FACEREG'' @ 61 # name @ CR # rest) s = Inr (Some rest, t) \<and>
      at_events t = at_events s @ [AddUser (if name = [] then None else Some name)] \<and> s_current_idx t = 0) \<and>
    (\<exists>t. SLN_ATCommands_Task A (ascii ''AT+FACEDEL'' @ 61 # digits i @ CR # rest) s = Inr (Some rest, t) \<and>
      at_events t = at_events s @ [DelUser (Some (of_nat i))] \<and> s_current_idx t = 0) \<and>
    (\<exists>t. SLN_ATCommands_Task A (ascii ''AT+FACEDREG'' @ 61 # rest) s = Inr (Some rest, t) \<and>
      at_events t = at_events s @ [DelUser None] \<and> s_current_idx t = 0)"
proof (intro conjI)
  obtain buf k where r: "SLN_ATCommands_Task A (ascii ''AT+FACEREG'' @ 61 # name @ CR # rest) s =
      serve A FACEREG (name @ CR # rest) (s\<lparr>s_lpuart_char := 61, s_current_idx := k, s_commands_buf := buf\<rparr>)" "length buf = 1024"
    using round_for [OF s(1), of "''AT+FACEREG''" FACEREG A "name @ CR # rest"] command_codes by (auto simp: toupper_def)
  let ?s = "s\<lparr>s_lpuart_char := 61, s_current_idx := k, s_commands_buf := buf\<rparr>"
  obtain buf2 k2 where "read_argument (name @ CR # rest) ?s =
      Inr (Some rest, ?s\<lparr>s_lpuart_char := CR, s_commands_buf := buf2, s_current_idx := k2\<rparr>)" "c_text buf2 = Inr name"
    using read_argument_plain [of ?s name rest] r(2) n by auto
  then show "\<exists>t. SLN_ATCommands_Task A (ascii ''AT+FACEREG'' @ 61 # name @ CR # rest) s = Inr (Some rest, t) \<and>
      at_events t = at_events s @ [AddUser (if name = [] then None else Some name)] \<and> s_current_idx t = 0"
    unfolding r(1) using s(2) n(1) by (simp add: serve_def face_reg_def notify_def)
next
  obtain buf k where r: "SLN_ATCommands_Task A (ascii ''AT+FACEDEL'' @ 61 # digits i @ CR # rest) s =
      serve A FACEDEL (digits i @ CR # rest) (s\<lparr>s_lpuart_char := 61, s_current_idx := k, s_commands_buf := buf\<rparr>)" "length buf = 1024"
    using round_for [OF s(1), of "''AT+FACEDEL''" FACEDEL A "digits i @ CR # rest"] command_codes by (auto simp: toupper_def)
  let ?s = "s\<lparr>s_lpuart_char := 61, s_current_idx := k, s_commands_buf := buf\<rparr>"
  have d: "0 \<notin> set (digits i)" "CR \<notin> set (digits i)" using digits_chars [of _ i] by fastforce+
  have "length (digits i) < 1023" using length_digits_le [of i 4] i by simp
  from read_argument_plain [of ?s "digits i" rest] this d r(2)
  obtain buf2 k2 where "read_argument (digits i @ CR # rest) ?s =
      Inr (Some rest, ?s\<lparr>s_lpuart_char := CR, s_commands_buf := buf2, s_current_idx := k2\<rparr>)" "c_text buf2 = Inr (digits i)"
    by auto
  then show "\<exists>t. SLN_ATCommands_Task A (ascii ''AT+FACEDEL'' @ 61 # digits i @ CR # rest) s = Inr (Some rest, t) \<and>
      at_events t = at_events s @ [DelUser (Some (of_nat i))] \<and> s_current_idx t = 0"
    unfolding r(1) using s(2) atoi_digits [OF i] by (simp add: serve_def face_del_def notify_def)
next
  obtain buf k where "SLN_ATCommands_Task A (ascii ''AT+FACEDREG'' @ 61 # rest) s =
      serve A FACEDREG rest (s\<lparr>s_lpuart_char := 61, s_current_idx := k, s_commands_buf := buf\<rparr>)"
    using round_for [OF s(1), of "''AT+FACEDREG''" FACEDREG A rest] command_codes by (auto simp: toupper_def)
  then show "\<exists>t. SLN_ATCommands_Task A (ascii ''AT+FACEDREG'' @ 61 # rest) s = Inr (Some rest, t) \<and>
      at_events t = at_events s @ [DelUser None] \<and> s_current_idx t = 0"
    using s(2) by (simp add: serve_def notify_def)
qed

theorem command_lines_served_witness:
  "\<exists>t. SLN_ATCommands_Task sim_os (ascii ''AT+FACEREG'' @ 61 # ascii ''Ann'' @ CR # []) at_idle = Inr (Some [], t) \<and>
    at_events t = [AddUser (Some (ascii ''Ann''))]"
  using command_lines_served [of at_idle "ascii ''Ann''" 7 sim_os "[]"] by (auto simp: at_idle_def)

section \<open>The vote\<close>

interpretation votes: flag_word "\<lambda>n s. bit (s_ATCommandPowerOffStatus s) n" vote "\<lambda>n. n < 32" "(\<noteq>)"
proof
  show "bit (s_ATCommandPowerOffStatus (vote n v s)) n = v" if "n < 32" for n v s
    using that by (auto simp: vote_def bit_simps)
  show "bit (s_ATCommandPowerOffStatus (vote m v s)) n = bit (s_ATCommandPowerOffStatus s) n" if "m \<noteq> n" for m n v s
    using that by (cases "n < 32") (auto simp: vote_def bit_simps dest: bit_imp_le_length)
  have "(w OR b) AND NOT b = w AND NOT b" "(w AND NOT b) OR b = w OR b" for w b :: u32
    by (auto intro: bit_word_eqI simp: bit_simps)
  then show "vote m v (vote m u s) = vote m v s" for m u v s by (simp add: vote_def)
qed

datatype at_op = Infer bool oasis_lite_result_t | Notify u32 | TimerFires

fun at_step :: "os_if \<Rightarrow> at_op \<Rightarrow> at_st \<Rightarrow> (unit \<times> at_st) outcome" where
  "at_step A (Infer fromLpm r) s = rbind (APP_OutputDev_ATCommands_InferCompleteDecode fromLpm r s) (\<lambda>s. Inr ((), s))"
| "at_step A (Notify e) s = rbind (APP_OutputDev_ATCommands_InputNotify A e s) (\<lambda>s. Inr ((), s))"
| "at_step A TimerFires s = Inr ((), BlockingTimerCallback s)"

text \<open>The three reasons to refuse: a registration, a deletion, a change of settings in progress.\<close>

fun votes_spec :: "at_op \<Rightarrow> bool \<times> bool \<times> bool \<Rightarrow> bool \<times> bool \<times> bool" where
  "votes_spec (Infer fromLpm r) (reg, dereg, para) =
     (if state r = kOASISLiteState_Registration then (result r = 0, dereg, para)
      else if state r = kOASISLiteState_DeRegistration then (reg, result r = 0, para) else (reg, dereg, para))"
| "votes_spec (Notify e) (reg, dereg, para) = (reg, dereg, True)"
| "votes_spec TimerFires (reg, dereg, para) = (reg, dereg, False)"

fun at_allowed :: "at_op \<Rightarrow> bool" where
  "at_allowed (Infer fromLpm r) = (shows_id r \<longrightarrow> 0 \<le> face_id r \<and> face_id r < 100)"
| "at_allowed _ = True"

text \<open>The events in the list; the others end in a read behind it.\<close>

fun listed :: "at_op \<Rightarrow> bool" where
  "listed (Notify e) = (e \<in> set s_eventIDList4PowerOff)"
| "listed _ = True"

definition at_voted :: "at_op \<Rightarrow> bool" where
  "at_voted p \<longleftrightarrow> at_allowed p \<and> listed p"

definition votes_of :: "at_st \<Rightarrow> bool \<times> bool \<times> bool" where
  "votes_of s = (bit (s_ATCommandPowerOffStatus s) 0, bit (s_ATCommandPowerOffStatus s) 1, bit (s_ATCommandPowerOffStatus s) 2)"

definition at_wf :: "at_st \<Rightarrow> bool" where
  "at_wf s \<longleftrightarrow> length (s_response_buff s) = 32 \<and> (\<forall>n\<ge>3. \<not> bit (s_ATCommandPowerOffStatus s) n)"

lemma votes_of_vote:
  "votes_of (vote 0 v s) = (v, snd (votes_of s))" "votes_of (vote (Suc 0) v s) = (fst (votes_of s), v, snd (snd (votes_of s)))"
  "votes_of (vote 2 v s) = (fst (votes_of s), fst (snd (votes_of s)), v)"
  using votes.get_put_same [of _ v s] votes.get_put_apart [of _ _ v s] by (simp_all add: votes_of_def)

lemma at_wf_vote: "n < 3 \<Longrightarrow> at_wf (vote n v s) = at_wf s"
  using votes.get_put_apart [of n _ v s] by (auto simp: at_wf_def)

lemma status_zero: "at_wf s \<Longrightarrow> s_ATCommandPowerOffStatus s = 0 \<longleftrightarrow> votes_of s = (False, False, False)"
proof -
  assume w: "at_wf s"
  have "s_ATCommandPowerOffStatus s = 0" if "votes_of s = (False, False, False)"
  proof (rule bit_word_eqI)
    fix n assume "n < LENGTH(32)"
    have "n = 0 \<or> n = 1 \<or> n = 2 \<or> 3 \<le> n" by arith
    then show "bit (s_ATCommandPowerOffStatus s) n \<longleftrightarrow> bit (0 :: u32) n"
      using w that by (auto simp: at_wf_def votes_of_def)
  qed
  then show ?thesis by (auto simp: votes_of_def)
qed

text \<open>Sending leaves the votes alone.\<close>

lemma send_keeps_votes:
  "Send_ATCommnd_Response c v s = Inr (r, t) \<Longrightarrow> s_ATCommandPowerOffStatus t = s_ATCommandPowerOffStatus s"
  by (auto simp: Send_ATCommnd_Response_def rbind_Inr_iff Let_def split: option.splits)

lemma sender_keeps_votes:
  "send_id c i s = Inr t \<Longrightarrow> s_ATCommandPowerOffStatus t = s_ATCommandPowerOffStatus s"
  "send_word c w s = Inr t \<Longrightarrow> s_ATCommandPowerOffStatus t = s_ATCommandPowerOffStatus s"
  by (auto simp: send_id_def send_word_def rbind_Inr_iff split: if_splits prod.splits dest: send_keeps_votes)

lemma votes_of_cong: "s_ATCommandPowerOffStatus t = s_ATCommandPowerOffStatus s \<Longrightarrow> votes_of t = votes_of s"
  by (simp add: votes_of_def)

lemma decode_votes:
  assumes "APP_OutputDev_ATCommands_InferCompleteDecode fromLpm r s = Inr t"
  shows "s_ATCommandPowerOffStatus t = s_ATCommandPowerOffStatus
    (if state r = kOASISLiteState_Registration then vote 0 (result r = 0) s
     else if state r = kOASISLiteState_DeRegistration then vote 1 (result r = 0) s else s)"
proof -
  have v: "s_ATCommandPowerOffStatus (vote n b s1) = s_ATCommandPowerOffStatus (vote n b s)"
    if "s_ATCommandPowerOffStatus s1 = s_ATCommandPowerOffStatus s" for n b s1 using that by (simp add: vote_def)
  obtain s1 where s1: "(if fromLpm then send_word FACEMODE ''LP'' s else Inr s) = Inr s1"
    and r1: "rbind (if fake_face r then send_word FACEREG_RSP ''FAKE'' s1 else Inr s1) (\<lambda>s. case state r of
      kOASISLiteState_Recognition \<Rightarrow>
        if result r = kOASISLiteRecognitionResult_Success then send_id FACERES (face_id r) s else Inr s
    | kOASISLiteState_Registration \<Rightarrow>
        let s = vote AT_COMMAND_FACEREG_IN_PROGRESS (result r = kOASISLiteRegistrationResult_Invalid) s in
        if result r = kOASISLiteRegistrationResult_Success then send_id FACEREG_RSP (face_id r) s
        else if result r = kOASISLiteRegistrationResult_Timeout then send_word FACEREG_RSP ''FAIL'' s
        else if result r = kOASISLiteRegistrationResult_Duplicated then send_word FACEREG_RSP ''DUPLICATE'' s
        else Inr s
    | kOASISLiteState_DeRegistration \<Rightarrow>
        let s = vote AT_COMMAND_FACEDEREG_IN_PROGRESS (result r = kOASISLiteDeregistrationResult_Invalid) s in
        if result r = kOASISLiteDeregistrationResult_Success then send_word FACEDEL_RSP ''SUCCESS'' s
        else if result r = kOASISLiteDeregistrationResult_Timeout then send_word FACEDEL_RSP ''FAIL'' s
        else Inr s
    | _ \<Rightarrow> Inr s) = Inr t"
    using assms unfolding APP_OutputDev_ATCommands_InferCompleteDecode_def by (rule rbind_InrE)
  from r1 obtain s2 where s2: "(if fake_face r then send_word FACEREG_RSP ''FAKE'' s1 else Inr s1) = Inr s2"
    by (rule rbind_InrE)
  have e1: "s_ATCommandPowerOffStatus s1 = s_ATCommandPowerOffStatus s"
    using s1 sender_keeps_votes(2) by (auto split: if_splits)
  have e2: "s_ATCommandPowerOffStatus s2 = s_ATCommandPowerOffStatus s"
    using s2 e1 sender_keeps_votes(2) by (fastforce split: if_splits)
  note k = sender_keeps_votes v [OF e2]
  show ?thesis using r1 e2 unfolding s2 rbind_simps Let_def
    by (cases "state r") (auto split: if_splits dest!: sender_keeps_votes simp: k)
qed

lemma id_loop_finds:
  "e \<in> set (drop i s_eventIDList4PowerOff) \<Longrightarrow> length s_eventIDList4PowerOff - i \<le> n \<Longrightarrow> id_loop e n i = Inr True"
proof (induction n arbitrary: i)
  case (Suc n)
  have i: "i < length s_eventIDList4PowerOff" using Suc.prems(1) by (cases "i < length s_eventIDList4PowerOff") auto
  show ?case
  proof (cases "e = s_eventIDList4PowerOff ! i")
    case False
    then have "e \<in> set (drop (Suc i) s_eventIDList4PowerOff)"
      using Suc.prems(1) Cons_nth_drop_Suc [OF i] by (metis set_ConsD)
    then have "id_loop e n (i + 1) = Inr True" using Suc.prems(2) by (intro Suc.IH) simp_all
    then show ?thesis using False i by simp
  qed (use i in simp)
qed simp

lemma id_loop_misses:
  "e \<notin> set (drop i s_eventIDList4PowerOff) \<Longrightarrow> length s_eventIDList4PowerOff - i < n \<Longrightarrow> id_loop e n i = Inl MemFault"
proof (induction n arbitrary: i)
  case (Suc n)
  show ?case
  proof (cases "i < length s_eventIDList4PowerOff")
    case True
    then have "e \<noteq> s_eventIDList4PowerOff ! i" "e \<notin> set (drop (Suc i) s_eventIDList4PowerOff)"
      using Suc.prems(1) Cons_nth_drop_Suc [OF True] by (metis list.set_intros)+
    then have "id_loop e n (i + 1) = Inl MemFault" using Suc.prems(2) True by (intro Suc.IH) simp_all
    then show ?thesis using True \<open>e \<noteq> _\<close> by simp
  qed simp
qed simp

lemma at_simulates:
  assumes ok: "\<And>n. sem_ok A n" and s: "at_wf s" and p: "at_voted p"
  shows "\<exists>r t. at_step A p s = Inr (r, t) \<and> at_wf t \<and> votes_of t = votes_spec p (votes_of s)"
proof (cases p)
  case (Infer fromLpm r)
  obtain t where t: "APP_OutputDev_ATCommands_InferCompleteDecode fromLpm r s = Inr t" "length (s_response_buff t) = 32"
    using decode_report [of s r fromLpm] s p Infer by (auto simp: sends_def at_wf_def at_voted_def)
  note d = decode_votes [OF t(1)]
  have "at_wf t"
    using t(2) s d at_wf_vote [of 0 "result r = 0" s] at_wf_vote [of 1 "result r = 0" s]
    by (auto simp: at_wf_def split: if_splits)
  moreover have "votes_of t = votes_spec p (votes_of s)"
    using votes_of_cong [OF d] by (cases "votes_of s") (auto simp: Infer votes_of_vote)
  ultimately show ?thesis using t(1) Infer by auto
next
  case (Notify e)
  then have "id_loop e (4 * length s_eventIDList4PowerOff) 0 = Inr True" using p by (intro id_loop_finds) (simp_all add: at_voted_def)
  then have "\<exists>x. APP_OutputDev_ATCommands_InputNotify A e s = Inr x \<and> length (s_response_buff x) = length (s_response_buff s) \<and>
      s_ATCommandPowerOffStatus x = s_ATCommandPowerOffStatus (vote 2 True s)"
    using ok by (cases "blocking_timer s") (simp_all add: APP_OutputDev_ATCommands_InputNotify_def Let_def vote_def)
  then obtain x where x: "APP_OutputDev_ATCommands_InputNotify A e s = Inr x"
    "length (s_response_buff x) = length (s_response_buff s)"
    "s_ATCommandPowerOffStatus x = s_ATCommandPowerOffStatus (vote 2 True s)" by blast
  have "at_wf x" using x(2,3) at_wf_vote [of 2 True s] s by (auto simp: at_wf_def)
  then show ?thesis using x Notify votes_of_cong [OF x(3)] by (cases "votes_of s") (simp add: votes_of_vote)
next
  case TimerFires
  then show ?thesis using s at_wf_vote [of 2 False s] votes_of_vote(3) [of False s]
    by (cases "votes_of s") (auto simp: BlockingTimerCallback_def at_wf_def votes_of_def)
qed

lemma at_implements: "(\<And>n. sem_ok A n) \<Longrightarrow> implements (at_step A) at_wf at_voted votes_of votes_spec"
  by unfold_locales (rule at_simulates)

interpretation sim_votes: implements "at_step sim_os" at_wf at_voted votes_of votes_spec
  by (rule at_implements) (simp add: sim_os_def)

lemma stray_step: "\<not> listed p \<Longrightarrow> at_step A p s = Inl MemFault"
  using id_loop_misses [of _ 0 "4 * length s_eventIDList4PowerOff"]
  by (cases p) (simp_all add: APP_OutputDev_ATCommands_InputNotify_def Let_def s_eventIDList4PowerOff_def)

lemma stray_run:
  assumes "\<And>n. sem_ok A n"
  shows "at_wf s \<Longrightarrow> list_all at_allowed ps \<Longrightarrow> \<not> list_all listed ps \<Longrightarrow> run_ops (at_step A) ps s = Inl MemFault"
proof (induction ps arbitrary: s)
  case (Cons p ps)
  show ?case
  proof (cases "listed p")
    case True
    then obtain r t where "at_step A p s = Inr (r, t)" "at_wf t"
      using at_simulates [of A s p] assms Cons.prems by (auto simp: at_voted_def)
    then show ?thesis using Cons.IH [of t] Cons.prems True by simp
  qed (simp add: stray_step)
qed simp

text \<open>C19: Over any sequence of results, notifications of events and runs of the timer: when all the events
  are in the list of those that delay a power-off, a power-off request after them is answered with ACK if and
  only if no registration, no deletion and no change of settings is in progress, and with NACK otherwise;
  when another event is among them, its notification reads behind the list. A result that shows an
  identifier has one of two digits; other results have any number.\<close>
theorem power_off_answer:
  assumes "\<And>n. sem_ok A n" and "at_wf s" and "list_all at_allowed ps"
  shows "if list_all listed ps then
      \<exists>rs t u. run_ops (at_step A) ps s = Inr (rs, t) \<and> pwoff_req t = Inr (0, u) \<and>
        at_sent u = at_sent t @ [at_line (ascii ''AT+PWOFFRSP'')
          (if fold votes_spec ps (votes_of s) = (False, False, False) then ascii ''ACK'' else ascii ''NACK'')]
    else run_ops (at_step A) ps s = Inl MemFault"
proof (cases "list_all listed ps")
  case False
  then show ?thesis using stray_run [OF assms] by simp
next
  case True
  then have v: "list_all at_voted ps" using assms(3) by (simp add: list_all_iff at_voted_def)
  obtain rs t where t: "run_ops (at_step A) ps s = Inr (rs, t)" "at_wf t" "votes_of t = fold votes_spec ps (votes_of s)"
    using implements.run_implements [OF at_implements [OF assms(1)] assms(2) v] by blast
  let ?v = "if s_ATCommandPowerOffStatus t = 0 then ascii ''ACK'' else ascii ''NACK''"
  have "length (ascii ''AT+PWOFFRSP'') + length ?v < 29" by simp
  from send_line [OF heads_sep(6) this, of t] t(2) obtain b where
    "Send_ATCommnd_Response PWOFFRSP ?v t =
      Inr (0, t\<lparr>s_response_buff := b, at_sent := at_sent t @ [at_line (ascii ''AT+PWOFFRSP'') ?v]\<rparr>)"
    by (auto simp: at_wf_def)
  then have "pwoff_req t = Inr (0, t\<lparr>s_response_buff := b, at_sent := at_sent t @ [at_line (ascii ''AT+PWOFFRSP'') ?v]\<rparr>)"
    by (simp add: pwoff_req_def)
  then show ?thesis using t(1) True unfolding status_zero [OF t(2)] t(3) by fastforce
qed

theorem power_off_answer_witness:
  "(\<exists>rs t u. run_ops (at_step sim_os) [Notify 265, TimerFires, Infer False \<lparr>state = kOASISLiteState_Registration, face_id = - 1,
      fake_face = False, result = 0\<rparr>] at_idle = Inr (rs, t) \<and> pwoff_req t = Inr (0, u) \<and>
    at_sent u = at_sent t @ [at_line (ascii ''AT+PWOFFRSP'') (ascii ''NACK'')]) \<and>
  run_ops (at_step sim_os) [TimerFires, Notify 261] at_idle = Inl MemFault" (is "?delayed \<and> ?stray")
proof (rule conjI)
  have w: "at_wf at_idle" "votes_of at_idle = (False, False, False)" by (simp_all add: at_wf_def votes_of_def at_idle_def)
  show ?delayed
    using power_off_answer [of sim_os at_idle "[Notify 265, TimerFires, Infer False \<lparr>state = kOASISLiteState_Registration, face_id = - 1,
      fake_face = False, result = 0\<rparr>]"] w by (simp add: sim_os_def s_eventIDList4PowerOff_def shows_id_def)
  show ?stray using power_off_answer [of sim_os at_idle "[TimerFires, Notify 261]"] w by (simp add: sim_os_def s_eventIDList4PowerOff_def)
qed

section \<open>Three faults\<close>

text \<open>The loop over the events that delay a power-off counts the bytes of the list, not its entries: an
  event that is not in the list makes it read on behind the list.\<close>
theorem stray_event_overreads:
  assumes "e \<notin> set s_eventIDList4PowerOff"
  shows "APP_OutputDev_ATCommands_InputNotify A e s = Inl MemFault"
  using id_loop_misses [of e 0 "4 * length s_eventIDList4PowerOff"] assms
  by (simp add: APP_OutputDev_ATCommands_InputNotify_def Let_def s_eventIDList4PowerOff_def)

theorem stray_event_overreads_witness:
  "APP_OutputDev_ATCommands_InputNotify sim_os 261 at_idle = Inl MemFault"
  by (rule stray_event_overreads) (simp add: s_eventIDList4PowerOff_def)

text \<open>An argument that fills the buffer.\<close>

lemma read_full:
  "unat (s_current_idx s) + length xs = 1024 \<Longrightarrow> xs \<noteq> [] \<Longrightarrow> length (s_commands_buf s) = 1024 \<Longrightarrow> 0 \<notin> set xs \<Longrightarrow> lc \<notin> set xs \<Longrightarrow>
    \<exists>t. read_command 0 lc (xs @ rest) s = Inr (Some rest, t) \<and> s_current_idx t = 0"
proof (induction xs arbitrary: s)
  case (Cons x xs)
  let ?i = "s_current_idx s" and ?b = "s_commands_buf s"
  have i: "unat (?i + 1) = unat ?i + 1" using Cons.prems(1) by (intro index_Suc32) simp
  have b: "length (blit (unat ?i) [x] ?b) = 1024" using Cons.prems by (subst length_blit) simp_all
  show ?case
  proof (cases "xs = []")
    case True
    then show ?thesis using Cons.prems i by (simp add: Let_def)
  next
    case False
    let ?s = "s\<lparr>s_lpuart_char := x, s_commands_buf := blit (unat ?i) [x] ?b, s_current_idx := ?i + 1\<rparr>"
    have "?i + 1 \<noteq> 0" using i by (metis Suc_eq_plus1 nat.distinct(1) unat_0)
    moreover have "unat ?i + 1 < 1024" using Cons.prems(1) False by (cases xs) simp_all
    ultimately have "read_command 0 lc ((x # xs) @ rest) s = read_command 0 lc (xs @ rest) ?s"
      using Cons.prems i by (auto simp: Let_def)
    then show ?thesis using Cons.IH [of ?s] Cons.prems i b False by simp
  qed
qed simp

text \<open>An argument of as many characters as the command buffer has bytes, without the CR that ends it,
  sets the index back to zero and ends the read; the task then stores a NUL before the buffer.\<close>
theorem long_argument_underruns:
  assumes "length (s_commands_buf s) = 1024" and "length xs = 1024" and "0 \<notin> set xs" and "CR \<notin> set xs"
  shows "SLN_ATCommands_Task A (ascii ''AT+FACEREG'' @ 61 # xs @ rest) s = Inl MemFault"
proof -
  obtain buf i where r: "SLN_ATCommands_Task A (ascii ''AT+FACEREG'' @ 61 # xs @ rest) s =
      serve A FACEREG (xs @ rest) (s\<lparr>s_lpuart_char := 61, s_current_idx := i, s_commands_buf := buf\<rparr>)" "length buf = 1024"
    using round_for [OF assms(1), of "''AT+FACEREG''" FACEREG A "xs @ rest"] command_codes by (auto simp: toupper_def)
  let ?s = "s\<lparr>s_lpuart_char := 61, s_commands_buf := buf, s_current_idx := 0\<rparr>"
  have "xs \<noteq> []" using assms(2) by auto
  then obtain t where "read_command 0 CR (xs @ rest) ?s = Inr (Some rest, t)" "s_current_idx t = 0"
    using read_full [of ?s xs CR rest] assms r(2) by auto
  then show ?thesis unfolding r(1) by (simp add: serve_def face_reg_def read_argument_def end_string_def)
qed

theorem long_argument_underruns_witness:
  "SLN_ATCommands_Task sim_os (ascii ''AT+FACEREG'' @ 61 # replicate 1024 65 @ []) at_idle = Inl MemFault"
  by (rule long_argument_underruns) (simp_all add: at_idle_def)

text \<open>The answer to a remote registration leaves its buffers: a duplicate whose stored name has more
  than nine characters is sent from behind the response buffer, and a successful registration, for
  which the recognition device passes no name, formats a NULL pointer.\<close>
theorem remote_result_faults:
  assumes "length (s_response_buff s) = 32" and "9 < length name"
  shows "ATCommands_InputDev_Respons kEventFaceRecID_AddUserRemote (Some \<lparr>reg_result = OASIS_REG_RESULT_DUP, reg_name = Some name\<rparr>) True s =
      Inl MemFault \<and>
    ATCommands_InputDev_Respons kEventFaceRecID_AddUserRemote (Some \<lparr>reg_result = OASIS_REG_RESULT_OK, reg_name = None\<rparr>) True s =
      Inl MemFault"
  using send_overreads [OF response_heads(2) _ assms(1), of "ascii ''DUPLICATE'' @ name"] assms(2)
  by (simp add: ATCommands_InputDev_Respons_def remote_response_def)

theorem remote_result_faults_witness:
  "ATCommands_InputDev_Respons kEventFaceRecID_AddUserRemote
      (Some \<lparr>reg_result = OASIS_REG_RESULT_DUP, reg_name = Some (ascii ''Anna-Maria'')\<rparr>) True at_idle = Inl MemFault"
  using remote_result_faults [of at_idle "ascii ''Anna-Maria''"] by (simp add: at_idle_def)

end
