(* ===== verification/Fwk_Config.thy ===== *)
theory Fwk_Config
  imports Flash_Device C_Strings
begin

text \<open>
  The configuration store of the framework, \<open>sln_framework/core/fwk_config.c\<close>: the settings of the
  framework and a block of application data, each kept in RAM and in a file, with a metadata file that
  holds their versions and sizes. The state is the file's static variables and the flash framework
  below it; the heap and the creation of the mutex are oracles. Enumerations take one byte, as the
  compiler of the build (arm-none-eabi) lays them out. Logging is left out.
\<close>

section \<open>Constants and types\<close>

definition FWK_MAJOR_VERSION :: u32 where [simp]: "FWK_MAJOR_VERSION = 2"
definition FWK_MINOR_VERSION :: u32 where [simp]: "FWK_MINOR_VERSION = 0"

definition VERSION :: u32 where
  "VERSION = (push_bit 16 FWK_MAJOR_VERSION AND 0xFF00) OR (FWK_MINOR_VERSION AND 0xFF)"

definition CONFIG_DIR :: "u8 list" where "CONFIG_DIR = ascii ''cfg''"
definition CONFIG_METADATA_FILE :: "u8 list" where "CONFIG_METADATA_FILE = CONFIG_DIR @ ascii ''/Metadata''"
definition FWK_CONFIG_FILE_NAME :: "u8 list" where "FWK_CONFIG_FILE_NAME = CONFIG_DIR @ ascii ''/fwk_cfg''"
definition APP_CONFIG_FILE_NAME :: "u8 list" where "APP_CONFIG_FILE_NAME = CONFIG_DIR @ ascii ''/app_cfg''"

definition kSLNConfigStatus_Success :: int where [simp]: "kSLNConfigStatus_Success = 0"
definition kSLNConfigStatus_Error :: int where [simp]: "kSLNConfigStatus_Error = 501"

definition kLOGLevel_Debug :: u8 where [simp]: "kLOGLevel_Debug = 2"
definition kLOGLevel_Invalid :: u8 where [simp]: "kLOGLevel_Invalid = 5"
definition kDisplayType_RGB :: u8 where [simp]: "kDisplayType_RGB = 0"
definition kDisplayType_Invalid :: u8 where [simp]: "kDisplayType_Invalid = 3"
definition kDisplayOutput_Panel :: u8 where [simp]: "kDisplayOutput_Panel = 0"
definition kDisplayOutput_Invalid :: u8 where [simp]: "kDisplayOutput_Invalid = 3"
definition kConnectivityType_BLE :: u8 where [simp]: "kConnectivityType_BLE = 0"
definition kConnectivityType_Invalid :: u8 where [simp]: "kConnectivityType_Invalid = 3"

record fwk_metadata_t =
  fwkDataVersion :: u32
  fwkDataSize :: u32
  appDataVersion :: u32
  appDataSize :: u32

definition sizeof_metadata :: u32 where [simp]: "sizeof_metadata = 16"

definition encode_fwk_metadata :: "fwk_metadata_t \<Rightarrow> u8 list" where
  "encode_fwk_metadata m = le32 (fwkDataVersion m) @ le32 (fwkDataSize m) @ le32 (appDataVersion m) @ le32 (appDataSize m)"

definition decode_fwk_metadata :: "u8 list \<Rightarrow> fwk_metadata_t" where
  "decode_fwk_metadata bs = \<lparr>fwkDataVersion = de32 bs, fwkDataSize = de32 (drop 4 bs),
     appDataVersion = de32 (drop 8 bs), appDataSize = de32 (drop 12 bs)\<rparr>"

record fwk_config_t =
  logLevel :: u8
  displayType :: u8
  displayOutput :: u8
  connectivityType :: u8

definition sizeof_fwk_config :: u32 where [simp]: "sizeof_fwk_config = 4"

definition encode_fwk_config :: "fwk_config_t \<Rightarrow> u8 list" where
  "encode_fwk_config c = [logLevel c, displayType c, displayOutput c, connectivityType c]"

definition decode_fwk_config :: "u8 list \<Rightarrow> fwk_config_t" where
  "decode_fwk_config bs = \<lparr>logLevel = bs ! 0, displayType = bs ! 1, displayOutput = bs ! 2, connectivityType = bs ! 3\<rparr>"

record 'w cfg_st =
  s_FWKConfig :: fwk_config_t
  app_data :: "u8 list option"
  app_version :: u32
  app_size :: u32
  s_FWKConfigLock :: "bool option"
  s_Metadata :: fwk_metadata_t
  cfg_flash :: "'w fwk_flash"
  cfg_calls :: nat

type_synonym ('w, 'r) cfg_op = "'w cfg_st \<Rightarrow> ('r \<times> 'w cfg_st) outcome"

definition default_fwk_config :: fwk_config_t where
  "default_fwk_config = \<lparr>logLevel = kLOGLevel_Debug, displayType = kDisplayType_RGB,
     displayOutput = kDisplayOutput_Panel, connectivityType = kConnectivityType_BLE\<rparr>"

section \<open>Lock, load and save\<close>

definition on_cfg_flash :: "('w fwk_flash, 'r) dev_op \<Rightarrow> ('w, 'r) cfg_op" where
  "on_cfg_flash f s = rbind (f (cfg_flash s)) (\<lambda>(r, w). Inr (r, s\<lparr>cfg_flash := w\<rparr>))"

definition Config_Lock :: "('w, int) cfg_op" where
  "Config_Lock s = (case s_FWKConfigLock s of None \<Rightarrow> Inr (kSLNConfigStatus_Error, s)
     | Some True \<Rightarrow> Inl Deadlock
     | Some False \<Rightarrow> Inr (kSLNConfigStatus_Success, s\<lparr>s_FWKConfigLock := Some True\<rparr>))"

definition Config_Unlock :: "'w cfg_st \<Rightarrow> 'w cfg_st" where
  "Config_Unlock s = (if s_FWKConfigLock s = None then s else s\<lparr>s_FWKConfigLock := Some False\<rparr>)"

definition AppConfigSave :: "('w, int) cfg_op" where
  "AppConfigSave s = on_cfg_flash (FWK_Flash_Save (Some APP_CONFIG_FILE_NAME) (app_data s) (app_size s)) s"

text \<open>The block is cleared, then filled from the file; its size becomes the number of bytes read.\<close>

definition AppConfigLoad :: "('w, int) cfg_op" where
  "AppConfigLoad s = (case app_data s of None \<Rightarrow> Inl MemFault | Some block \<Rightarrow>
     rbind (store_at 0 (replicate (unat (app_size s)) 0) block) (\<lambda>block.
     rbind (on_cfg_flash (FWK_Flash_Read (Some APP_CONFIG_FILE_NAME) (Some block) 0 (Some (app_size s)))
             (s\<lparr>app_data := Some block\<rparr>)) (\<lambda>((status, block, sz), s).
     Inr (status, s\<lparr>app_data := block, app_size := the sz\<rparr>))))"

definition MetadataSave :: "('w, int) cfg_op" where
  "MetadataSave s =
    on_cfg_flash (FWK_Flash_Save (Some CONFIG_METADATA_FILE) (Some (encode_fwk_metadata (s_Metadata s))) sizeof_metadata) s"

definition MetadataLoad :: "('w, int) cfg_op" where
  "MetadataLoad s =
    rbind (on_cfg_flash (FWK_Flash_Read (Some CONFIG_METADATA_FILE) (Some (replicate (unat sizeof_metadata) 0)) 0 (Some sizeof_metadata))
            (s\<lparr>s_Metadata := decode_fwk_metadata (replicate 16 0)\<rparr>)) (\<lambda>((status, bytes, _), s).
    Inr (status, s\<lparr>s_Metadata := decode_fwk_metadata (the bytes)\<rparr>))"

definition FwkConfig_Save :: "('w, int) cfg_op" where
  "FwkConfig_Save s =
    on_cfg_flash (FWK_Flash_Save (Some FWK_CONFIG_FILE_NAME) (Some (encode_fwk_config (s_FWKConfig s))) sizeof_fwk_config) s"

definition FwkConfig_Load :: "('w, int) cfg_op" where
  "FwkConfig_Load s =
    rbind (on_cfg_flash (FWK_Flash_Read (Some FWK_CONFIG_FILE_NAME) (Some (replicate (unat sizeof_fwk_config) 0)) 0 (Some sizeof_fwk_config))
            (s\<lparr>s_FWKConfig := decode_fwk_config (replicate 4 0)\<rparr>)) (\<lambda>((status, bytes, _), s).
    Inr (status, s\<lparr>s_FWKConfig := decode_fwk_config (the bytes)\<rparr>))"

section \<open>Initialisation\<close>

text \<open>The settings of the framework: of another version they are replaced by the ones in RAM.\<close>

definition init_fwk_config :: "('w, int) cfg_op" where
  "init_fwk_config s =
    (if fwkDataVersion (s_Metadata s) \<noteq> VERSION then
       rbind (FwkConfig_Save s) (\<lambda>(status, s).
       if status = kStatus_HAL_FlashSuccess
       then MetadataSave (s\<lparr>s_Metadata := s_Metadata s\<lparr>fwkDataVersion := VERSION, fwkDataSize := sizeof_fwk_config\<rparr>\<rparr>)
       else Inr (status, s))
     else FwkConfig_Load s)"

text \<open>The application data, when there is some; otherwise the status stays.\<close>

definition init_app_config :: "os_if \<Rightarrow> int \<Rightarrow> ('w, int) cfg_op" where
  "init_app_config A status s =
    (if appDataVersion (s_Metadata s) = 0 then Inr (status, s)
     else let block = heap_block A (cfg_calls s) (unat (appDataSize (s_Metadata s)));
              s = s\<lparr>cfg_calls := cfg_calls s + 1, app_data := block\<rparr>
       in if block = None then Inr (kSLNConfigStatus_Error, s)
          else AppConfigLoad (s\<lparr>app_size := appDataSize (s_Metadata s), app_version := appDataVersion (s_Metadata s)\<rparr>))"

definition Config_Init :: "os_if \<Rightarrow> ('w, int) cfg_op" where
  "Config_Init A s =
    rbind (on_cfg_flash (FWK_Flash_Mkdir (Some CONFIG_DIR)) s) (\<lambda>(status, s).
    if status = kStatus_HAL_FlashDirExist then
      rbind (MetadataLoad s) (\<lambda>(status, s).
      if status = kStatus_HAL_FlashSuccess
      then rbind (init_fwk_config s) (\<lambda>(status, s). init_app_config A status s)
      else Inr (status, s))
    else if status = kStatus_HAL_FlashSuccess then
      rbind (FwkConfig_Save s) (\<lambda>(status, s).
      if status = kStatus_HAL_FlashSuccess
      then MetadataSave (s\<lparr>s_Metadata := \<lparr>fwkDataVersion = VERSION, fwkDataSize = sizeof_fwk_config,
             appDataVersion = 0, appDataSize = 0\<rparr>\<rparr>)
      else Inr (status, s))
    else Inr (status, s))"

definition FWK_Config_Init :: "os_if \<Rightarrow> ('w, int) cfg_op" where
  "FWK_Config_Init A s =
    (if s_FWKConfigLock s = None then
       let s = s\<lparr>s_FWKConfigLock := (if sem_ok A (cfg_calls s) then Some False else None), cfg_calls := cfg_calls s + 1\<rparr>
       in if s_FWKConfigLock s = None then Inr (kSLNConfigStatus_Error, s)
          else rbind (Config_Lock s) (\<lambda>(ret, s).
            if ret = kSLNConfigStatus_Success then rbind (Config_Init A s) (\<lambda>(ret, s). Inr (ret, Config_Unlock s))
            else Inr (ret, s))
     else Inr (kSLNConfigStatus_Success, s))"

definition FWK_Config_Deinit :: "('w, int) cfg_op" where
  "FWK_Config_Deinit s = Inr (kSLNConfigStatus_Success, s)"

section \<open>The settings of the framework\<close>

text \<open>A valid value is stored in RAM and in the file under the mutex.\<close>

definition save_setting :: "bool \<Rightarrow> (fwk_config_t \<Rightarrow> fwk_config_t) \<Rightarrow> ('w, int) cfg_op" where
  "save_setting valid upd s =
    (if valid then
       rbind (Config_Lock s) (\<lambda>(ret, s).
       if ret = kSLNConfigStatus_Success
       then rbind (FwkConfig_Save (s\<lparr>s_FWKConfig := upd (s_FWKConfig s)\<rparr>)) (\<lambda>(ret, s). Inr (ret, Config_Unlock s))
       else Inr (ret, s))
     else Inr (kSLNConfigStatus_Error, s))"

definition FWK_Config_SetConnectivityType :: "u8 \<Rightarrow> ('w, int) cfg_op" where
  "FWK_Config_SetConnectivityType conType =
    save_setting (conType \<ge> kConnectivityType_BLE \<and> conType < kConnectivityType_Invalid) (\<lambda>c. c\<lparr>connectivityType := conType\<rparr>)"

definition FWK_Config_GetConnectivityType :: "'w cfg_st \<Rightarrow> u8" where
  "FWK_Config_GetConnectivityType s = connectivityType (s_FWKConfig s)"

definition FWK_Config_GetLogLevel :: "'w cfg_st \<Rightarrow> u8" where
  "FWK_Config_GetLogLevel s = logLevel (s_FWKConfig s)"

definition FWK_Config_SetLogLevel :: "u8 \<Rightarrow> ('w, int) cfg_op" where
  "FWK_Config_SetLogLevel level = save_setting (level < kLOGLevel_Invalid) (\<lambda>c. c\<lparr>logLevel := level\<rparr>)"

definition FWK_Config_GetDisplayType :: "('w, u8) cfg_op" where
  "FWK_Config_GetDisplayType s =
    rbind (Config_Lock s) (\<lambda>(ret, s).
    if ret = kSLNConfigStatus_Success then Inr (displayType (s_FWKConfig s), Config_Unlock s)
    else Inr (kDisplayType_Invalid, s))"

text \<open>The status of the save is put in an inner variable of the same name; the outer one is returned.\<close>

definition FWK_Config_SetDisplayType :: "u8 \<Rightarrow> ('w, int) cfg_op" where
  "FWK_Config_SetDisplayType dtype s =
    (if dtype \<ge> kDisplayType_RGB \<and> dtype < kDisplayType_Invalid then
       rbind (save_setting True (\<lambda>c. c\<lparr>displayType := dtype\<rparr>) s) (\<lambda>(_, s). Inr (kSLNConfigStatus_Error, s))
     else Inr (kSLNConfigStatus_Error, s))"

definition FWK_Config_GetDisplayOutput :: "('w, u8) cfg_op" where
  "FWK_Config_GetDisplayOutput s =
    rbind (Config_Lock s) (\<lambda>(ret, s).
    if ret = kSLNConfigStatus_Success then Inr (displayOutput (s_FWKConfig s), Config_Unlock s)
    else Inr (kDisplayOutput_Invalid, s))"

definition FWK_Config_SetDisplayOutput :: "u8 \<Rightarrow> ('w, int) cfg_op" where
  "FWK_Config_SetDisplayOutput out =
    save_setting (out \<ge> kDisplayOutput_Panel \<and> out < kDisplayOutput_Invalid) (\<lambda>c. c\<lparr>displayOutput := out\<rparr>)"

section \<open>The application data\<close>

text \<open>A block of another size is freed and a new one is allocated.\<close>

definition fit_block :: "os_if \<Rightarrow> u32 \<Rightarrow> 'w cfg_st \<Rightarrow> 'w cfg_st" where
  "fit_block A sz s = (if sz \<noteq> app_size s
     then s\<lparr>app_data := heap_block A (cfg_calls s) (unat sz), cfg_calls := cfg_calls s + 1\<rparr> else s)"

definition FWK_Config_SetAppData :: "os_if \<Rightarrow> u8 list \<Rightarrow> u32 \<Rightarrow> u32 \<Rightarrow> ('w, int) cfg_op" where
  "FWK_Config_SetAppData A data sz ver s =
    rbind (Config_Lock s) (\<lambda>(ret, s).
    rbind (if ret = kSLNConfigStatus_Success then
        let s = fit_block A sz s in
        rbind (case app_data s of None \<Rightarrow> Inr (kSLNConfigStatus_Error, s)
          | Some block \<Rightarrow>
              rbind (load_at 0 (unat sz) data) (\<lambda>bytes.
              rbind (store_at 0 bytes block) (\<lambda>block.
              AppConfigSave (s\<lparr>app_version := ver, app_size := sz, app_data := Some block\<rparr>)))) (\<lambda>(ret, s).
        if ret = kSLNConfigStatus_Success
        then MetadataSave (s\<lparr>s_Metadata := s_Metadata s\<lparr>appDataVersion := ver, appDataSize := sz\<rparr>\<rparr>)
        else Inr (ret, s))
      else Inr (ret, s)) (\<lambda>(ret, s).
    Inr (ret, Config_Unlock s)))"

definition FWK_Config_GetAppDataVersion :: "'w cfg_st \<Rightarrow> u32" where
  "FWK_Config_GetAppDataVersion s = app_version s"

definition FWK_Config_GetAppDataSize :: "'w cfg_st \<Rightarrow> u32" where
  "FWK_Config_GetAppDataSize s = app_size s"

text \<open>The pointer to the block, or NULL; the mutex is taken for the caller, also when the block is NULL.\<close>

definition FWK_Config_LockAppData :: "('w, bool) cfg_op" where
  "FWK_Config_LockAppData s =
    rbind (Config_Lock s) (\<lambda>(ret, s).
    Inr (ret = kSLNConfigStatus_Success \<and> app_data s \<noteq> None, s))"

definition FWK_Config_UnlockAppData :: "bool \<Rightarrow> 'w cfg_st \<Rightarrow> 'w cfg_st outcome" where
  "FWK_Config_UnlockAppData save s =
    (if save then rbind (AppConfigSave s) (\<lambda>(_, s). Inr (Config_Unlock s)) else Inr (Config_Unlock s))"

end
