(* ===== verification/Smart_Lock_Config.thy ===== *)
theory Smart_Lock_Config
  imports Fwk_Config
begin

text \<open>
  The settings of the smart lock application, \<open>sln_framework/hal/vision/hal_smart_lock_config.c\<close>, kept in
  the block of application data of \<open>Fwk_Config\<close>, and the handler of the events that read and change
  settings. Built for the 2D smart lock without voice. A pointer to the block is the block itself,
  read and written as the struct of 20 bytes with its two bytes of padding.
\<close>

section \<open>The struct\<close>

definition APP_CONFIG_VERSION :: u32 where
  "APP_CONFIG_VERSION = (push_bit 16 0 AND 0xFF00) OR (4 AND 0xFF)"

definition MINIMUM_FACE_REC_THRESHOLD :: u32 where [simp]: "MINIMUM_FACE_REC_THRESHOLD = 600"
definition DEFAULT_FACE_REC_THRESHOLD :: u32 where [simp]: "DEFAULT_FACE_REC_THRESHOLD = 800"
definition MAXIMUM_FACE_REC_THRESHOLD :: u32 where [simp]: "MAXIMUM_FACE_REC_THRESHOLD = 900"
definition kOASISLiteMode_Count :: u8 where [simp]: "kOASISLiteMode_Count = 2"

record smart_lock_config_t =
  mode :: u8
  irPwm :: u8
  whitePwm :: u8
  sleepMode :: u8
  speakerVolume :: u32
  password :: "u8 list"
  config_padding :: "u8 list"
  faceRecThreshold :: u32

definition sizeof_smart_lock_config :: u32 where [simp]: "sizeof_smart_lock_config = 20"

definition encode_config :: "smart_lock_config_t \<Rightarrow> u8 list" where
  "encode_config c = [mode c, irPwm c, whitePwm c, sleepMode c] @ le32 (speakerVolume c) @ password c @
     config_padding c @ le32 (faceRecThreshold c)"

definition decode_config :: "u8 list \<Rightarrow> smart_lock_config_t" where
  "decode_config bs = \<lparr>mode = bs ! 0, irPwm = bs ! 1, whitePwm = bs ! 2, sleepMode = bs ! 3,
     speakerVolume = de32 (drop 4 bs), password = slice 8 6 bs, config_padding = slice 14 2 bs,
     faceRecThreshold = de32 (drop 16 bs)\<rparr>"

text \<open>Reading and writing a member through the pointer.\<close>

definition config_get :: "(smart_lock_config_t \<Rightarrow> 'a) \<Rightarrow> 'w cfg_st \<Rightarrow> 'a outcome" where
  "config_get f s = (case app_data s of None \<Rightarrow> Inl MemFault | Some block \<Rightarrow>
     rbind (load_at 0 (unat sizeof_smart_lock_config) block) (\<lambda>bs. Inr (f (decode_config bs))))"

definition config_put :: "(smart_lock_config_t \<Rightarrow> smart_lock_config_t) \<Rightarrow> 'w cfg_st \<Rightarrow> 'w cfg_st outcome" where
  "config_put f s = (case app_data s of None \<Rightarrow> Inl MemFault | Some block \<Rightarrow>
     rbind (load_at 0 (unat sizeof_smart_lock_config) block) (\<lambda>bs.
     rbind (store_at 0 (encode_config (f (decode_config bs))) block) (\<lambda>block. Inr (s\<lparr>app_data := Some block\<rparr>))))"

section \<open>Getters and setters\<close>

text \<open>Every getter and setter locks the block; a getter returns a default when there is none.\<close>

definition get_field :: "'a \<Rightarrow> (smart_lock_config_t \<Rightarrow> 'a) \<Rightarrow> ('w, 'a) cfg_op" where
  "get_field dflt f s =
    rbind (FWK_Config_LockAppData s) (\<lambda>(there, s).
    if there then
      rbind (config_get f s) (\<lambda>v. rbind (FWK_Config_UnlockAppData False s) (\<lambda>s. Inr (v, s)))
    else Inr (dflt, s))"

definition set_field :: "bool \<Rightarrow> (smart_lock_config_t \<Rightarrow> smart_lock_config_t) \<Rightarrow> ('w, int) cfg_op" where
  "set_field valid f s =
    rbind (FWK_Config_LockAppData s) (\<lambda>(there, s).
    if \<not> valid then rbind (FWK_Config_UnlockAppData False s) (\<lambda>s. Inr (kSLNConfigStatus_Error, s))
    else if there then
      rbind (config_put f s) (\<lambda>s. rbind (FWK_Config_UnlockAppData True s) (\<lambda>s. Inr (kSLNConfigStatus_Success, s)))
    else Inr (kSLNConfigStatus_Error, s))"

definition HAL_OutputDev_SmartLockConfig_GetMode :: "('w, u8) cfg_op" where
  "HAL_OutputDev_SmartLockConfig_GetMode = get_field kOASISLiteMode_Count mode"

definition HAL_OutputDev_SmartLockConfig_SetMode :: "u8 \<Rightarrow> ('w, int) cfg_op" where
  "HAL_OutputDev_SmartLockConfig_SetMode m = set_field True (\<lambda>c. c\<lparr>mode := m\<rparr>)"

definition HAL_OutputDev_SmartLockConfig_GetIrPwm :: "('w, u8) cfg_op" where
  "HAL_OutputDev_SmartLockConfig_GetIrPwm = get_field (-1) irPwm"

definition HAL_OutputDev_SmartLockConfig_SetIrPwm :: "u8 \<Rightarrow> ('w, int) cfg_op" where
  "HAL_OutputDev_SmartLockConfig_SetIrPwm brightness = set_field (\<not> 100 < brightness) (\<lambda>c. c\<lparr>irPwm := brightness\<rparr>)"

definition HAL_OutputDev_SmartLockConfig_GetWhitePwm :: "('w, u8) cfg_op" where
  "HAL_OutputDev_SmartLockConfig_GetWhitePwm = get_field (-1) whitePwm"

definition HAL_OutputDev_SmartLockConfig_SetWhitePwm :: "u8 \<Rightarrow> ('w, int) cfg_op" where
  "HAL_OutputDev_SmartLockConfig_SetWhitePwm brightness = set_field (\<not> 100 < brightness) (\<lambda>c. c\<lparr>whitePwm := brightness\<rparr>)"

text \<open>The password in the caller's array of six bytes, with the status.\<close>

definition HAL_OutputDev_SmartLockConfig_GetPassword :: "u8 list \<Rightarrow> ('w, int \<times> u8 list) cfg_op" where
  "HAL_OutputDev_SmartLockConfig_GetPassword pw =
    get_field (kSLNConfigStatus_Error, pw) (\<lambda>c. (kSLNConfigStatus_Success, password c))"

definition HAL_OutputDev_SmartLockConfig_SetPassword :: "u8 list \<Rightarrow> ('w, int) cfg_op" where
  "HAL_OutputDev_SmartLockConfig_SetPassword pw s =
    rbind (FWK_Config_LockAppData s) (\<lambda>(there, s).
    if there then
      rbind (load_at 0 6 pw) (\<lambda>bytes.
      rbind (config_put (\<lambda>c. c\<lparr>password := bytes\<rparr>) s) (\<lambda>s.
      rbind (FWK_Config_UnlockAppData True s) (\<lambda>s. Inr (kSLNConfigStatus_Success, s))))
    else Inr (kSLNConfigStatus_Error, s))"

definition HAL_OutputDev_SmartLockConfig_SetSpeakerVolume :: "u32 \<Rightarrow> ('w, int) cfg_op" where
  "HAL_OutputDev_SmartLockConfig_SetSpeakerVolume v = set_field (\<not> 100 < v) (\<lambda>c. c\<lparr>speakerVolume := v\<rparr>)"

definition HAL_OutputDev_SmartLockConfig_GetSpeakerVolume :: "('w, u32) cfg_op" where
  "HAL_OutputDev_SmartLockConfig_GetSpeakerVolume = get_field (-1) speakerVolume"

definition HAL_OutputDev_SmartLockConfig_GetSleepMode :: "('w, u8) cfg_op" where
  "HAL_OutputDev_SmartLockConfig_GetSleepMode = get_field (-1) sleepMode"

definition HAL_OutputDev_SmartLockConfig_SetSleepMode :: "u8 \<Rightarrow> ('w, int) cfg_op" where
  "HAL_OutputDev_SmartLockConfig_SetSleepMode m = set_field (m = 0 \<or> m = 1) (\<lambda>c. c\<lparr>sleepMode := m\<rparr>)"

text \<open>The threshold in the caller's variable, None when it is left as it was.\<close>

definition HAL_OutputDev_SmartLockConfig_GetFaceRecThreshold :: "('w, int \<times> u32 option) cfg_op" where
  "HAL_OutputDev_SmartLockConfig_GetFaceRecThreshold =
    get_field (kSLNConfigStatus_Error, None) (\<lambda>c. (kSLNConfigStatus_Success, Some (faceRecThreshold c)))"

text \<open>A value out of range leaves the block locked.\<close>

definition HAL_OutputDev_SmartLockConfig_SetFaceRecThreshold :: "u32 \<Rightarrow> ('w, int) cfg_op" where
  "HAL_OutputDev_SmartLockConfig_SetFaceRecThreshold threshold s =
    rbind (FWK_Config_LockAppData s) (\<lambda>(there, s).
    if there \<and> threshold \<ge> MINIMUM_FACE_REC_THRESHOLD \<and> threshold \<le> MAXIMUM_FACE_REC_THRESHOLD then
      rbind (config_put (\<lambda>c. c\<lparr>faceRecThreshold := threshold\<rparr>) s) (\<lambda>s.
      rbind (FWK_Config_UnlockAppData True s) (\<lambda>s. Inr (kSLNConfigStatus_Success, s)))
    else Inr (kSLNConfigStatus_Error, s))"

section \<open>Initialisation\<close>

definition default_config :: smart_lock_config_t where
  "default_config = \<lparr>mode = 0, irPwm = 100, whitePwm = 0, sleepMode = 0, speakerVolume = 100,
     password = ascii ''000000'', config_padding = [0, 0], faceRecThreshold = DEFAULT_FACE_REC_THRESHOLD\<rparr>"

definition HAL_OutputDev_SmartLockConfig_Init :: "os_if \<Rightarrow> ('w, int) cfg_op" where
  "HAL_OutputDev_SmartLockConfig_Init A s =
    rbind (FWK_Config_Init A s) (\<lambda>(ret, s).
    if ret = kSLNConfigStatus_Success \<and> FWK_Config_GetAppDataVersion s \<noteq> APP_CONFIG_VERSION then
      rbind (FWK_Config_SetAppData A (encode_config default_config) sizeof_smart_lock_config APP_CONFIG_VERSION s) (\<lambda>(_, s).
      Inr (ret, s))
    else Inr (ret, s))"

section \<open>Events\<close>

datatype cfg_event = GetLogLevel | SetLogLevel u8 | GetDisplayOutput | SetDisplayOutput u8
  | SetConnectivityType u8 | GetConnectivityType | GetFaceRecThreshold | SetFaceRecThreshold u32 | OtherEvent

datatype event_status_t = kEventStatus_Ok | kEventStatus_Error | kEventStatus_NonBlocking | kEventStatus_WrongParam

text \<open>What is handed to the respond function: the value of the setting, or the range and the value of the
  threshold (None: the variable was never written).\<close>

datatype cfg_answer = Setting u8 | Threshold u32 u32 "u32 option" | NewThreshold u32

type_synonym cfg_reply = "(event_status_t \<times> cfg_answer) option"

definition reply :: "bool \<Rightarrow> event_status_t \<Rightarrow> cfg_answer \<Rightarrow> cfg_reply" where
  "reply respond status a = (if respond then Some (status, a) else None)"

text \<open>A setting is written when it changes; only the general error code counts as a failure.\<close>

definition change_setting :: "bool \<Rightarrow> u8 \<Rightarrow> u8 \<Rightarrow> ('w, int) cfg_op \<Rightarrow> ('w, cfg_reply) cfg_op" where
  "change_setting respond old new put s =
    (if old \<noteq> new then
       rbind (put s) (\<lambda>(status, s).
       Inr (reply respond (if status = kSLNConfigStatus_Error then kEventStatus_Error else kEventStatus_Ok) (Setting new), s))
     else Inr (reply respond kEventStatus_Ok (Setting new), s))"

fun HAL_OutputDev_ConfigInputNotify :: "bool \<Rightarrow> cfg_event \<Rightarrow> ('w, cfg_reply) cfg_op" where
  "HAL_OutputDev_ConfigInputNotify respond GetLogLevel s =
     Inr (reply respond kEventStatus_Ok (Setting (FWK_Config_GetLogLevel s)), s)"
| "HAL_OutputDev_ConfigInputNotify respond (SetLogLevel l) s =
     change_setting respond (FWK_Config_GetLogLevel s) l (FWK_Config_SetLogLevel l) s"
| "HAL_OutputDev_ConfigInputNotify respond GetDisplayOutput s =
     rbind (FWK_Config_GetDisplayOutput s) (\<lambda>(d, s). Inr (reply respond kEventStatus_Ok (Setting d), s))"
| "HAL_OutputDev_ConfigInputNotify respond (SetDisplayOutput d) s =
     rbind (FWK_Config_GetDisplayOutput s) (\<lambda>(old, s). change_setting respond old d (FWK_Config_SetDisplayOutput d) s)"
| "HAL_OutputDev_ConfigInputNotify respond (SetConnectivityType c) s =
     change_setting respond (FWK_Config_GetConnectivityType s) c (FWK_Config_SetConnectivityType c) s"
| "HAL_OutputDev_ConfigInputNotify respond GetConnectivityType s =
     Inr (reply respond kEventStatus_Ok (Setting (FWK_Config_GetConnectivityType s)), s)"
| "HAL_OutputDev_ConfigInputNotify respond GetFaceRecThreshold s =
     rbind (HAL_OutputDev_SmartLockConfig_GetFaceRecThreshold s) (\<lambda>((ret, v), s).
     Inr (reply respond (if ret = kSLNConfigStatus_Success then kEventStatus_Ok else kEventStatus_Error)
       (Threshold MINIMUM_FACE_REC_THRESHOLD MAXIMUM_FACE_REC_THRESHOLD v), s))"
| "HAL_OutputDev_ConfigInputNotify respond (SetFaceRecThreshold v) s =
     rbind (HAL_OutputDev_SmartLockConfig_SetFaceRecThreshold v s) (\<lambda>(ret, s).
     Inr (reply respond (if ret = kSLNConfigStatus_Success then kEventStatus_Ok else kEventStatus_Error) (NewThreshold v), s))"
| "HAL_OutputDev_ConfigInputNotify respond OtherEvent s = Inr (None, s)"

end
