(* ===== verification/Config_Vault.thy ===== *)
theory Config_Vault
  imports Smart_Lock_Config
begin

text \<open>
  The configuration store refines a pair of values, the settings of the framework and those of the smart
  lock: a setter in range changes one of them, a setter out of range and a restart change nothing. The
  code does this through two structures in RAM, three files and a mutex; \<open>settings\<close> reads the values off
  a state. The step is proved for every flash device with room.
\<close>

section \<open>The struct in memory\<close>

definition config_wf :: "smart_lock_config_t \<Rightarrow> bool" where
  "config_wf c \<longleftrightarrow> length (password c) = 6 \<and> length (config_padding c) = 2"

lemma config_value: "config_wf c \<Longrightarrow> decode_config (encode_config c) = c"
  by (cases c) (simp add: config_wf_def decode_config_def encode_config_def slice_def)

lemma length_encode_config: "config_wf c \<Longrightarrow> length (encode_config c) = 20"
  by (simp add: config_wf_def encode_config_def)

lemma decode_wf: "length b = 20 \<Longrightarrow> config_wf (decode_config b)"
  by (simp add: config_wf_def decode_config_def slice_def)

lemma fwk_config_value: "decode_fwk_config (encode_fwk_config f) = f"
  by (simp add: decode_fwk_config_def encode_fwk_config_def)

lemma metadata_value: "decode_fwk_metadata (encode_fwk_metadata m) = m"
  by (simp add: decode_fwk_metadata_def encode_fwk_metadata_def)

lemma length_fwk_files [simp]: "length (encode_fwk_config f) = 4" "length (encode_fwk_metadata m) = 16"
  by (simp_all add: encode_fwk_config_def encode_fwk_metadata_def)

text \<open>The mask of \<open>VERSION\<close> and the one of the application's version drop the major number.\<close>

lemma VERSION_zero: "VERSION = 0" and APP_CONFIG_VERSION_4: "APP_CONFIG_VERSION = 4"
  by (simp_all add: VERSION_def APP_CONFIG_VERSION_def)

section \<open>The files\<close>

definition config_files :: "(u8 list \<Rightarrow> node option) \<Rightarrow> bool" where
  "config_files t \<longleftrightarrow> t CONFIG_DIR = Some Dir \<and>
     clean (t CONFIG_METADATA_FILE) \<and> clean (t FWK_CONFIG_FILE_NAME) \<and> clean (t APP_CONFIG_FILE_NAME)"

definition config_names :: "u8 list set" where
  "config_names = {CONFIG_METADATA_FILE, FWK_CONFIG_FILE_NAME, APP_CONFIG_FILE_NAME}"

lemmas config_name_defs = CONFIG_DIR_def CONFIG_METADATA_FILE_def FWK_CONFIG_FILE_NAME_def APP_CONFIG_FILE_NAME_def

lemma config_names_differ [simp]:
  "CONFIG_DIR \<noteq> CONFIG_METADATA_FILE" "CONFIG_DIR \<noteq> FWK_CONFIG_FILE_NAME" "CONFIG_DIR \<noteq> APP_CONFIG_FILE_NAME"
  "CONFIG_METADATA_FILE \<noteq> CONFIG_DIR" "FWK_CONFIG_FILE_NAME \<noteq> CONFIG_DIR" "APP_CONFIG_FILE_NAME \<noteq> CONFIG_DIR"
  "CONFIG_METADATA_FILE \<noteq> FWK_CONFIG_FILE_NAME" "FWK_CONFIG_FILE_NAME \<noteq> CONFIG_METADATA_FILE"
  "CONFIG_METADATA_FILE \<noteq> APP_CONFIG_FILE_NAME" "APP_CONFIG_FILE_NAME \<noteq> CONFIG_METADATA_FILE"
  "FWK_CONFIG_FILE_NAME \<noteq> APP_CONFIG_FILE_NAME" "APP_CONFIG_FILE_NAME \<noteq> FWK_CONFIG_FILE_NAME"
  by (simp_all add: config_name_defs)

lemma config_parents:
  assumes "t CONFIG_DIR = Some Dir" and "n \<in> config_names"
  shows "has_parent t n"
proof -
  have "CONFIG_DIR \<noteq> []" by (simp add: CONFIG_DIR_def)
  then have "has_parent t (CONFIG_DIR @ 47 # ys)" if "47 \<notin> set ys" "length ys < 200" for ys
    using has_parent_in [OF that(1), of CONFIG_DIR t] that(2) assms(1) by (simp add: CONFIG_DIR_def)
  from this [of "ascii ''Metadata''"] this [of "ascii ''fwk_cfg''"] this [of "ascii ''app_cfg''"] show ?thesis
    using assms(2) by (auto simp: config_names_def CONFIG_METADATA_FILE_def FWK_CONFIG_FILE_NAME_def APP_CONFIG_FILE_NAME_def)
qed

lemma config_dir_parent: "has_parent t CONFIG_DIR"
  by (rule has_parent_flat) (simp_all add: CONFIG_DIR_def)

section \<open>The specification\<close>

datatype config_op = Event bool cfg_event | SetDisplayType u8 | SetMode u8 | SetIrPwm u8 | SetWhitePwm u8
  | SetPassword "u8 list" | SetSpeakerVolume u32 | SetSleepMode u8 | SetThreshold u32 | Reboot

type_synonym settings_t = "fwk_config_t \<times> smart_lock_config_t"

definition put_when :: "bool \<Rightarrow> ('a \<Rightarrow> 'a) \<Rightarrow> 'a \<Rightarrow> 'a" where
  [simp]: "put_when valid f x = (if valid then f x else x)"

fun event_spec :: "cfg_event \<Rightarrow> settings_t \<Rightarrow> settings_t" where
  "event_spec (SetLogLevel l) = apfst (put_when (l < 5) (\<lambda>c. c\<lparr>logLevel := l\<rparr>))"
| "event_spec (SetDisplayOutput d) = apfst (put_when (d < 3) (\<lambda>c. c\<lparr>displayOutput := d\<rparr>))"
| "event_spec (SetConnectivityType t) = apfst (put_when (t < 3) (\<lambda>c. c\<lparr>connectivityType := t\<rparr>))"
| "event_spec (SetFaceRecThreshold v) = apsnd (\<lambda>c. c\<lparr>faceRecThreshold := v\<rparr>)"
| "event_spec _ = id"

fun settings_spec :: "config_op \<Rightarrow> settings_t \<Rightarrow> settings_t" where
  "settings_spec (Event respond e) = event_spec e"
| "settings_spec (SetDisplayType d) = apfst (put_when (d < 3) (\<lambda>c. c\<lparr>displayType := d\<rparr>))"
| "settings_spec (SetMode m) = apsnd (\<lambda>c. c\<lparr>mode := m\<rparr>)"
| "settings_spec (SetIrPwm b) = apsnd (put_when (b \<le> 100) (\<lambda>c. c\<lparr>irPwm := b\<rparr>))"
| "settings_spec (SetWhitePwm b) = apsnd (put_when (b \<le> 100) (\<lambda>c. c\<lparr>whitePwm := b\<rparr>))"
| "settings_spec (SetPassword pw) = apsnd (\<lambda>c. c\<lparr>password := take 6 pw\<rparr>)"
| "settings_spec (SetSpeakerVolume v) = apsnd (put_when (v \<le> 100) (\<lambda>c. c\<lparr>speakerVolume := v\<rparr>))"
| "settings_spec (SetSleepMode m) = apsnd (put_when (m = 0 \<or> m = 1) (\<lambda>c. c\<lparr>sleepMode := m\<rparr>))"
| "settings_spec (SetThreshold v) = apsnd (\<lambda>c. c\<lparr>faceRecThreshold := v\<rparr>)"
| "settings_spec Reboot = id"

text \<open>What the callers must keep to: a threshold in range and a password of six bytes.\<close>

fun config_allowed :: "config_op \<Rightarrow> bool" where
  "config_allowed (Event _ (SetFaceRecThreshold v)) = (600 \<le> v \<and> v \<le> 900)"
| "config_allowed (SetThreshold v) = (600 \<le> v \<and> v \<le> 900)"
| "config_allowed (SetPassword pw) = (6 \<le> length pw)"
| "config_allowed _ = True"

section \<open>The implementation\<close>

definition settings :: "'w cfg_st \<Rightarrow> settings_t" where
  "settings s = (s_FWKConfig s, decode_config (the (app_data s)))"

text \<open>The static variables when the program starts.\<close>

definition cfg_statics :: "'w cfg_st \<Rightarrow> 'w cfg_st" where
  "cfg_statics s = s\<lparr>s_FWKConfig := default_fwk_config, app_data := None, app_version := 0, app_size := 0,
     s_FWKConfigLock := None, s_Metadata := decode_fwk_metadata (replicate 16 0)\<rparr>"

fun config_step :: "os_if \<Rightarrow> config_op \<Rightarrow> 'w cfg_st \<Rightarrow> (unit \<times> 'w cfg_st) outcome" where
  "config_step A (Event respond e) s = rbind (HAL_OutputDev_ConfigInputNotify respond e s) (\<lambda>(_, s). Inr ((), s))"
| "config_step A (SetDisplayType d) s = rbind (FWK_Config_SetDisplayType d s) (\<lambda>(_, s). Inr ((), s))"
| "config_step A (SetMode m) s = rbind (HAL_OutputDev_SmartLockConfig_SetMode m s) (\<lambda>(_, s). Inr ((), s))"
| "config_step A (SetIrPwm b) s = rbind (HAL_OutputDev_SmartLockConfig_SetIrPwm b s) (\<lambda>(_, s). Inr ((), s))"
| "config_step A (SetWhitePwm b) s = rbind (HAL_OutputDev_SmartLockConfig_SetWhitePwm b s) (\<lambda>(_, s). Inr ((), s))"
| "config_step A (SetPassword pw) s = rbind (HAL_OutputDev_SmartLockConfig_SetPassword pw s) (\<lambda>(_, s). Inr ((), s))"
| "config_step A (SetSpeakerVolume v) s = rbind (HAL_OutputDev_SmartLockConfig_SetSpeakerVolume v s) (\<lambda>(_, s). Inr ((), s))"
| "config_step A (SetSleepMode m) s = rbind (HAL_OutputDev_SmartLockConfig_SetSleepMode m s) (\<lambda>(_, s). Inr ((), s))"
| "config_step A (SetThreshold v) s = rbind (HAL_OutputDev_SmartLockConfig_SetFaceRecThreshold v s) (\<lambda>(_, s). Inr ((), s))"
| "config_step A Reboot s = rbind (HAL_OutputDev_SmartLockConfig_Init A (cfg_statics s)) (\<lambda>(_, s). Inr ((), s))"

definition config_os :: "os_if \<Rightarrow> bool" where
  "config_os A \<longleftrightarrow> (\<forall>n. \<exists>b. heap_block A n 20 = Some b \<and> length b = 20) \<and> (\<forall>n. sem_ok A n)"

text \<open>Between two calls the mutex is free and the three files hold what is in RAM.\<close>

definition saved_metadata :: fwk_metadata_t where
  "saved_metadata = \<lparr>fwkDataVersion = 0, fwkDataSize = 4, appDataVersion = 4, appDataSize = 20\<rparr>"

definition config_kept :: "('w fwk_flash \<Rightarrow> bool) \<Rightarrow> ('w fwk_flash \<Rightarrow> u8 list \<Rightarrow> node option) \<Rightarrow> 'w cfg_st \<Rightarrow> bool" where
  "config_kept ready entries s \<longleftrightarrow> ready (cfg_flash s) \<and> s_FWKConfigLock s = Some False \<and>
     entries (cfg_flash s) CONFIG_DIR = Some Dir \<and> app_size s = 20 \<and> app_version s = 4 \<and>
     s_Metadata s = saved_metadata \<and>
     stored (entries (cfg_flash s) CONFIG_METADATA_FILE) 16 (encode_fwk_metadata saved_metadata) \<and>
     stored (entries (cfg_flash s) FWK_CONFIG_FILE_NAME) 4 (encode_fwk_config (s_FWKConfig s)) \<and>
     (\<exists>b. app_data s = Some b \<and> length b = 20 \<and> stored (entries (cfg_flash s) APP_CONFIG_FILE_NAME) 20 b)"

lemma config_keptE:
  assumes "config_kept ready entries s"
  obtains b where "app_data s = Some b" "length b = 20" "stored (entries (cfg_flash s) APP_CONFIG_FILE_NAME) 20 b"
    "ready (cfg_flash s)" "s_FWKConfigLock s = Some False" "config_files (entries (cfg_flash s))"
  using assms by (auto simp: config_kept_def config_files_def dest: storedD)

lemma relock [simp]: "s_FWKConfigLock s = Some False \<Longrightarrow> s\<lparr>s_FWKConfigLock := Some False\<rparr> = s"
  by (cases s) simp

context roomy_flash begin

lemma config_save:
  assumes "ready (cfg_flash s)" and "config_files (entries (cfg_flash s))" and "n \<in> config_names"
    and "0 < len" and "unat len = length data"
  shows "\<exists>w nd. on_cfg_flash (FWK_Flash_Save (Some n) (Some data) len) s = Inr (kStatus_HAL_FlashSuccess, s\<lparr>cfg_flash := w\<rparr>) \<and>
    ready w \<and> entries w = (entries (cfg_flash s))(n := nd) \<and> stored nd (length data) data"
proof -
  have c: "clean (entries (cfg_flash s) n)" and d: "entries (cfg_flash s) CONFIG_DIR = Some Dir"
    using assms(2,3) by (auto simp: config_files_def config_names_def)
  have u: "unat len \<le> length data" using assms(5) by simp
  have p: "has_parent (entries (cfg_flash s)) n" by (rule config_parents) (use d assms(3) in auto)
  obtain w nd where "FWK_Flash_Save (Some n) (Some data) len (cfg_flash s) = Inr (kStatus_HAL_FlashSuccess, w)"
    "ready w" "entries w = (entries (cfg_flash s))(n := nd)" "stored nd (unat len) (take (unat len) data)"
    using save_stored [OF assms(1) p c assms(4) u] by blast
  then show ?thesis using assms(5) by (auto simp: on_cfg_flash_def)
qed

lemma fwk_setting_kept:
  assumes s: "config_kept ready entries s"
  shows "\<exists>s'. save_setting True upd s = Inr (kStatus_HAL_FlashSuccess, s') \<and> config_kept ready entries s' \<and>
    settings s' = apfst upd (settings s)"
proof -
  obtain b where b: "app_data s = Some b" "length b = 20" "stored (entries (cfg_flash s) APP_CONFIG_FILE_NAME) 20 b"
    "ready (cfg_flash s)" "s_FWKConfigLock s = Some False" "config_files (entries (cfg_flash s))" by (rule config_keptE [OF s])
  let ?s = "s\<lparr>s_FWKConfigLock := Some True, s_FWKConfig := upd (s_FWKConfig s)\<rparr>"
  obtain w nd where w: "FwkConfig_Save ?s = Inr (kStatus_HAL_FlashSuccess, ?s\<lparr>cfg_flash := w\<rparr>)" "ready w"
    "entries w = (entries (cfg_flash s))(FWK_CONFIG_FILE_NAME := nd)" "stored nd 4 (encode_fwk_config (upd (s_FWKConfig s)))"
    using config_save [of ?s FWK_CONFIG_FILE_NAME 4 "encode_fwk_config (upd (s_FWKConfig s))"] b
    by (auto simp: config_names_def FwkConfig_Save_def)
  have "save_setting True upd s = Inr (kStatus_HAL_FlashSuccess, ?s\<lparr>cfg_flash := w, s_FWKConfigLock := Some False\<rparr>)"
    using b(5) w(1) by (simp add: save_setting_def Config_Lock_def Config_Unlock_def)
  moreover have "config_kept ready entries (?s\<lparr>cfg_flash := w, s_FWKConfigLock := Some False\<rparr>)"
    using s w(2-4) by (simp add: config_kept_def)
  ultimately show ?thesis by (auto simp: settings_def)
qed

lemma config_get_kept: "config_kept ready entries s \<Longrightarrow> get_field dflt f s = Inr (f (snd (settings s)), s)"
  by (erule config_keptE)
     (simp add: get_field_def FWK_Config_LockAppData_def Config_Lock_def config_get_def FWK_Config_UnlockAppData_def
       Config_Unlock_def settings_def slice_def)

text \<open>A member is changed in the block, and the block is saved.\<close>

lemma block_put_kept:
  assumes s: "config_kept ready entries s" and f: "config_wf (f (snd (settings s)))"
  shows "\<exists>s1 s'. config_put f (s\<lparr>s_FWKConfigLock := Some True\<rparr>) = Inr s1 \<and> FWK_Config_UnlockAppData True s1 = Inr s' \<and>
    config_kept ready entries s' \<and> settings s' = apsnd f (settings s)"
proof -
  obtain b where b: "app_data s = Some b" "length b = 20" "stored (entries (cfg_flash s) APP_CONFIG_FILE_NAME) 20 b"
    "ready (cfg_flash s)" "s_FWKConfigLock s = Some False" "config_files (entries (cfg_flash s))" by (rule config_keptE [OF s])
  define c where "c = f (decode_config b)"
  have c: "config_wf c" using f b(1) by (simp add: c_def settings_def)
  let ?s = "s\<lparr>s_FWKConfigLock := Some True, app_data := Some (encode_config c)\<rparr>"
  have "config_put f (s\<lparr>s_FWKConfigLock := Some True\<rparr>) = Inr ?s"
    using b(1,2) length_encode_config [OF c] by (simp add: config_put_def c_def slice_def blit_all)
  moreover obtain w nd where w: "AppConfigSave ?s = Inr (kStatus_HAL_FlashSuccess, ?s\<lparr>cfg_flash := w\<rparr>)" "ready w"
    "entries w = (entries (cfg_flash s))(APP_CONFIG_FILE_NAME := nd)" "stored nd 20 (encode_config c)"
    using config_save [of ?s APP_CONFIG_FILE_NAME 20 "encode_config c"] b(4,6) s length_encode_config [OF c]
    by (auto simp: config_names_def AppConfigSave_def config_kept_def)
  then have "FWK_Config_UnlockAppData True ?s = Inr (?s\<lparr>cfg_flash := w, s_FWKConfigLock := Some False\<rparr>)"
    by (simp add: FWK_Config_UnlockAppData_def Config_Unlock_def)
  moreover have "config_kept ready entries (?s\<lparr>cfg_flash := w, s_FWKConfigLock := Some False\<rparr>)"
    using s w(2-4) length_encode_config [OF c] by (simp add: config_kept_def)
  ultimately show ?thesis using config_value [OF c] b(1) by (simp add: settings_def c_def)
qed

lemma lock_kept:
  "config_kept ready entries s \<Longrightarrow> FWK_Config_LockAppData s = Inr (True, s\<lparr>s_FWKConfigLock := Some True\<rparr>)"
  by (erule config_keptE) (simp add: FWK_Config_LockAppData_def Config_Lock_def)

lemma settings_wf: "config_kept ready entries s \<Longrightarrow> config_wf (snd (settings s))"
  by (erule config_keptE) (simp add: settings_def decode_wf)

lemma set_field_kept:
  assumes s: "config_kept ready entries s" and f: "config_wf (f (snd (settings s)))"
  shows "\<exists>r s'. set_field valid f s = Inr (r, s') \<and> config_kept ready entries s' \<and>
    settings s' = apsnd (put_when valid f) (settings s)"
proof (cases valid)
  case True
  then show ?thesis using block_put_kept [OF s, of f, OF f] by (auto simp: set_field_def lock_kept [OF s])
next
  case False
  have "s_FWKConfigLock s = Some False" using s by (rule config_keptE)
  then show ?thesis using s False
    by (simp add: set_field_def lock_kept [OF s] FWK_Config_UnlockAppData_def Config_Unlock_def apsnd_def map_prod_def case_prod_beta)
qed

lemma fwk_setter_kept:
  assumes s: "config_kept ready entries s"
  shows "\<exists>r s'. save_setting valid upd s = Inr (r, s') \<and> config_kept ready entries s' \<and>
    settings s' = apfst (put_when valid upd) (settings s)"
proof (cases valid)
  case True
  then show ?thesis using fwk_setting_kept [OF s, of upd] by auto
next
  case False
  then show ?thesis using s by (auto simp: save_setting_def apfst_def map_prod_def)
qed

lemma change_setting_kept:
  assumes s: "config_kept ready entries s" and same: "old = new \<Longrightarrow> upd (fst (settings s)) = fst (settings s)"
  shows "\<exists>r s'. change_setting respond old new (save_setting valid upd) s = Inr (r, s') \<and> config_kept ready entries s' \<and>
    settings s' = apfst (put_when valid upd) (settings s)"
proof (cases "old = new")
  case True
  then show ?thesis using s same by (cases "settings s") (auto simp: change_setting_def)
next
  case False
  then show ?thesis using fwk_setter_kept [OF s, of valid upd] by (auto simp: change_setting_def)
qed

lemma output_kept: "config_kept ready entries s \<Longrightarrow> FWK_Config_GetDisplayOutput s = Inr (displayOutput (fst (settings s)), s)"
  by (erule config_keptE) (simp add: FWK_Config_GetDisplayOutput_def Config_Lock_def Config_Unlock_def settings_def)

lemma event_simulates:
  assumes s: "config_kept ready entries s" and e: "config_allowed (Event respond e)"
  shows "\<exists>r s'. HAL_OutputDev_ConfigInputNotify respond e s = Inr (r, s') \<and> config_kept ready entries s' \<and>
    settings s' = event_spec e (settings s)"
proof (cases e)
  case (SetLogLevel l)
  then show ?thesis using change_setting_kept [OF s, of "FWK_Config_GetLogLevel s" l "\<lambda>c. c\<lparr>logLevel := l\<rparr>" respond "l < 5"]
    by (simp add: FWK_Config_SetLogLevel_def [abs_def] FWK_Config_GetLogLevel_def settings_def)
next
  case (SetDisplayOutput d)
  then show ?thesis using change_setting_kept [OF s, of "displayOutput (fst (settings s))" d "\<lambda>c. c\<lparr>displayOutput := d\<rparr>" respond "d < 3"]
    by (simp add: FWK_Config_SetDisplayOutput_def output_kept [OF s])
next
  case (SetConnectivityType t)
  then show ?thesis using change_setting_kept [OF s, of "FWK_Config_GetConnectivityType s" t "\<lambda>c. c\<lparr>connectivityType := t\<rparr>" respond "t < 3"]
    by (simp add: FWK_Config_SetConnectivityType_def FWK_Config_GetConnectivityType_def settings_def)
next
  case (SetFaceRecThreshold v)
  have "config_wf ((snd (settings s))\<lparr>faceRecThreshold := v\<rparr>)" using settings_wf [OF s] by (simp add: config_wf_def)
  from block_put_kept [OF s, of "\<lambda>c. c\<lparr>faceRecThreshold := v\<rparr>", OF this] show ?thesis
    using SetFaceRecThreshold e by (auto simp: HAL_OutputDev_SmartLockConfig_SetFaceRecThreshold_def lock_kept [OF s])
next
  case GetFaceRecThreshold
  then show ?thesis using s
    by (auto simp: HAL_OutputDev_SmartLockConfig_GetFaceRecThreshold_def config_get_kept [OF s])
qed (use s output_kept [OF s] in auto)

section \<open>Starting\<close>

lemma config_read:
  assumes "ready (cfg_flash s)" and "entries (cfg_flash s) CONFIG_DIR = Some Dir" and "n \<in> config_names"
    and "stored (entries (cfg_flash s) n) (unat len) bs" and "length buf = unat len"
  shows "\<exists>w. on_cfg_flash (FWK_Flash_Read (Some n) (Some buf) 0 (Some len)) s =
      Inr ((kStatus_HAL_FlashSuccess, Some bs, Some len), s\<lparr>cfg_flash := w\<rparr>) \<and> ready w \<and> entries w = entries (cfg_flash s)"
proof -
  have p: "has_parent (entries (cfg_flash s)) n" by (rule config_parents) (use assms in auto)
  have "length bs = length buf" using assms(4,5) by (auto simp: stored_def)
  then show ?thesis using read_stored [OF assms(1) p assms(4), of buf] assms(5) by (auto simp: on_cfg_flash_def blit_all)
qed

lemma metadata_load:
  assumes "ready (cfg_flash s)" and "entries (cfg_flash s) CONFIG_DIR = Some Dir"
    and m: "stored (entries (cfg_flash s) CONFIG_METADATA_FILE) 16 (encode_fwk_metadata m)"
  shows "\<exists>w. MetadataLoad s = Inr (kStatus_HAL_FlashSuccess, s\<lparr>cfg_flash := w, s_Metadata := m\<rparr>) \<and>
    ready w \<and> entries w = entries (cfg_flash s)"
proof -
  define t where "t = s\<lparr>s_Metadata := decode_fwk_metadata (replicate 16 0)\<rparr>"
  have f: "cfg_flash t = cfg_flash s" by (simp add: t_def)
  obtain w where "on_cfg_flash (FWK_Flash_Read (Some CONFIG_METADATA_FILE) (Some (replicate 16 0)) 0 (Some 16)) t =
      Inr ((kStatus_HAL_FlashSuccess, Some (encode_fwk_metadata m), Some 16), t\<lparr>cfg_flash := w\<rparr>)" "ready w" "entries w = entries (cfg_flash s)"
    using config_read [of t CONFIG_METADATA_FILE 16 "encode_fwk_metadata m" "replicate 16 0"] assms by (auto simp: config_names_def f)
  then show ?thesis unfolding MetadataLoad_def t_def [symmetric] by (simp add: metadata_value) (auto simp: t_def)
qed

lemma fwk_load:
  assumes "ready (cfg_flash s)" and "entries (cfg_flash s) CONFIG_DIR = Some Dir"
    and m: "stored (entries (cfg_flash s) FWK_CONFIG_FILE_NAME) 4 (encode_fwk_config c)"
  shows "\<exists>w. FwkConfig_Load s = Inr (kStatus_HAL_FlashSuccess, s\<lparr>cfg_flash := w, s_FWKConfig := c\<rparr>) \<and>
    ready w \<and> entries w = entries (cfg_flash s)"
proof -
  define t where "t = s\<lparr>s_FWKConfig := decode_fwk_config (replicate 4 0)\<rparr>"
  have f: "cfg_flash t = cfg_flash s" by (simp add: t_def)
  obtain w where "on_cfg_flash (FWK_Flash_Read (Some FWK_CONFIG_FILE_NAME) (Some (replicate 4 0)) 0 (Some 4)) t =
      Inr ((kStatus_HAL_FlashSuccess, Some (encode_fwk_config c), Some 4), t\<lparr>cfg_flash := w\<rparr>)" "ready w" "entries w = entries (cfg_flash s)"
    using config_read [of t FWK_CONFIG_FILE_NAME 4 "encode_fwk_config c" "replicate 4 0"] assms by (auto simp: config_names_def f)
  then show ?thesis unfolding FwkConfig_Load_def t_def [symmetric] by (simp add: fwk_config_value) (auto simp: t_def)
qed

lemma app_load:
  assumes "ready (cfg_flash s)" and "entries (cfg_flash s) CONFIG_DIR = Some Dir"
    and m: "stored (entries (cfg_flash s) APP_CONFIG_FILE_NAME) (unat (app_size s)) b"
    and blk: "app_data s = Some blk" "length blk = unat (app_size s)"
  shows "\<exists>w. AppConfigLoad s = Inr (kStatus_HAL_FlashSuccess, s\<lparr>app_data := Some b, cfg_flash := w\<rparr>) \<and>
    ready w \<and> entries w = entries (cfg_flash s)"
proof -
  let ?blk = "blit 0 (replicate (unat (app_size s)) 0) blk"
  define t where "t = s\<lparr>app_data := Some ?blk\<rparr>"
  have f: "cfg_flash t = cfg_flash s" by (simp add: t_def)
  have "length ?blk = unat (app_size s)" using blk(2) by (simp add: blit_def)
  then obtain w where w: "on_cfg_flash (FWK_Flash_Read (Some APP_CONFIG_FILE_NAME) (Some ?blk) 0 (Some (app_size s))) t =
      Inr ((kStatus_HAL_FlashSuccess, Some b, Some (app_size s)), t\<lparr>cfg_flash := w\<rparr>)" "ready w" "entries w = entries (cfg_flash s)"
    using config_read [of t APP_CONFIG_FILE_NAME "app_size s" b ?blk] assms by (auto simp: config_names_def f)
  have "AppConfigLoad s = rbind (on_cfg_flash (FWK_Flash_Read (Some APP_CONFIG_FILE_NAME) (Some ?blk) 0 (Some (app_size s))) t)
      (\<lambda>((status, block, sz), s). Inr (status, s\<lparr>app_data := block, app_size := the sz\<rparr>))"
    using blk by (simp add: AppConfigLoad_def t_def)
  also have "\<dots> = Inr (kStatus_HAL_FlashSuccess, t\<lparr>cfg_flash := w, app_data := Some b, app_size := app_size s\<rparr>)" using w(1) by simp
  also have "t\<lparr>cfg_flash := w, app_data := Some b, app_size := app_size s\<rparr> = s\<lparr>app_data := Some b, cfg_flash := w\<rparr>"
    by (cases s) (simp add: t_def)
  finally show ?thesis using w(2,3) by blast
qed

lemma reboot_kept:
  assumes A: "config_os A" and s: "config_kept ready entries s"
  shows "\<exists>s'. HAL_OutputDev_SmartLockConfig_Init A (cfg_statics s) = Inr (kSLNConfigStatus_Success, s') \<and>
    config_kept ready entries s' \<and> settings s' = settings s"
proof -
  obtain b where b: "app_data s = Some b" "length b = 20" "stored (entries (cfg_flash s) APP_CONFIG_FILE_NAME) 20 b"
    "ready (cfg_flash s)" by (rule config_keptE [OF s])
  let ?e = "entries (cfg_flash s)"
  have d: "?e CONFIG_DIR = Some Dir" and m: "stored (?e CONFIG_METADATA_FILE) 16 (encode_fwk_metadata saved_metadata)"
    and f: "stored (?e FWK_CONFIG_FILE_NAME) 4 (encode_fwk_config (s_FWKConfig s))" using s by (simp_all add: config_kept_def)
  define s0 where "s0 = (cfg_statics s)\<lparr>cfg_calls := cfg_calls s + 1, s_FWKConfigLock := Some True\<rparr>"
  have "entries (cfg_flash s) CONFIG_DIR \<noteq> None" using d by simp
  from mkdir_there [OF b(4) config_dir_parent this]
  obtain w1 where w1: "FWK_Flash_Mkdir (Some CONFIG_DIR) (cfg_flash s) = Inr (kStatus_HAL_FlashDirExist, w1)" "ready w1" "entries w1 = ?e"
    by blast
  define s1 where "s1 = s0\<lparr>cfg_flash := w1\<rparr>"
  have s1: "on_cfg_flash (FWK_Flash_Mkdir (Some CONFIG_DIR)) s0 = Inr (kStatus_HAL_FlashDirExist, s1)"
    using w1(1) by (simp add: on_cfg_flash_def s0_def s1_def cfg_statics_def)
  obtain w2 where w2: "MetadataLoad s1 = Inr (kStatus_HAL_FlashSuccess, s1\<lparr>cfg_flash := w2, s_Metadata := saved_metadata\<rparr>)"
    "ready w2" "entries w2 = ?e"
    using metadata_load [of s1 saved_metadata] w1 d m by (auto simp: s1_def)
  define s2 where "s2 = s1\<lparr>cfg_flash := w2, s_Metadata := saved_metadata\<rparr>"
  obtain w3 where w3: "FwkConfig_Load s2 = Inr (kStatus_HAL_FlashSuccess, s2\<lparr>cfg_flash := w3, s_FWKConfig := s_FWKConfig s\<rparr>)"
    "ready w3" "entries w3 = ?e"
    using fwk_load [of s2 "s_FWKConfig s"] w2 d f by (auto simp: s2_def)
  obtain blk where blk: "heap_block A (cfg_calls s + 1) 20 = Some blk" "length blk = 20" using A by (auto simp: config_os_def)
  define s3 where "s3 = s2\<lparr>cfg_flash := w3, s_FWKConfig := s_FWKConfig s\<rparr>"
  have i3: "init_fwk_config s2 = Inr (kStatus_HAL_FlashSuccess, s3)"
    using w3(1) by (simp add: init_fwk_config_def s2_def [symmetric] s3_def) (simp add: s2_def saved_metadata_def VERSION_zero)
  define s4 where "s4 = s3\<lparr>cfg_calls := cfg_calls s + 2, app_data := Some blk, app_size := 20, app_version := 4\<rparr>"
  have i4: "init_app_config A kStatus_HAL_FlashSuccess s3 = AppConfigLoad s4"
    using blk(1) by (simp add: init_app_config_def s4_def s3_def s2_def s1_def s0_def saved_metadata_def cfg_statics_def)
  obtain w5 where w5: "AppConfigLoad s4 = Inr (kStatus_HAL_FlashSuccess, s4\<lparr>app_data := Some b, cfg_flash := w5\<rparr>)"
    "ready w5" "entries w5 = ?e"
    using app_load [of s4 b blk] w3 d b(3) blk(2) by (auto simp: s4_def s3_def)
  define s5 where "s5 = s4\<lparr>app_data := Some b, cfg_flash := w5, s_FWKConfigLock := Some False\<rparr>"
  have "FWK_Config_Init A (cfg_statics s) = Inr (kSLNConfigStatus_Success, s5)"
  proof -
    have "FWK_Config_Init A (cfg_statics s) = rbind (Config_Init A s0) (\<lambda>(ret, s). Inr (ret, Config_Unlock s))"
      using A by (simp add: FWK_Config_Init_def Config_Lock_def s0_def cfg_statics_def config_os_def)
    also have "Config_Init A s0 = AppConfigLoad s4"
      using s1 w2(1) i3 i4 by (simp add: Config_Init_def s2_def)
    finally show ?thesis using w5(1) by (simp add: Config_Unlock_def s5_def s4_def s3_def s2_def s1_def s0_def)
  qed
  then have "HAL_OutputDev_SmartLockConfig_Init A (cfg_statics s) = Inr (kSLNConfigStatus_Success, s5)"
    by (simp add: HAL_OutputDev_SmartLockConfig_Init_def FWK_Config_GetAppDataVersion_def APP_CONFIG_VERSION_4 s5_def s4_def)
  moreover have "config_kept ready entries s5" using b(2,3) w5(2,3) d m f
    by (simp add: config_kept_def s5_def s4_def s3_def s2_def s1_def s0_def)
  moreover have "settings s5 = settings s" using b(1) by (simp add: settings_def s5_def s4_def s3_def)
  ultimately show ?thesis by blast
qed

lemma config_simulates:
  assumes A: "config_os A" and s: "config_kept ready entries s" and p: "config_allowed p"
  shows "\<exists>r s'. config_step A p s = Inr (r, s') \<and> config_kept ready entries s' \<and> settings s' = settings_spec p (settings s)"
proof -
  have wf: "length (password (snd (settings s))) = 6" "length (config_padding (snd (settings s))) = 2"
    using settings_wf [OF s] by (simp_all add: config_wf_def)
  have field: "\<exists>s'. rbind (set_field valid f s) (\<lambda>(_, s). Inr ((), s)) = Inr ((), s') \<and> config_kept ready entries s' \<and>
      settings s' = apsnd (put_when valid f) (settings s)" if "config_wf (f (snd (settings s)))" for valid f
    using set_field_kept [OF s, of f valid, OF that] by auto
  show ?thesis
  proof (cases p)
    case (Event respond e)
    then show ?thesis using event_simulates [OF s, of respond e] p by auto
  next
    case (SetDisplayType d)
    obtain r s' where "save_setting (d < 3) (\<lambda>c. c\<lparr>displayType := d\<rparr>) s = Inr (r, s')" "config_kept ready entries s'"
      "settings s' = apfst (put_when (d < 3) (\<lambda>c. c\<lparr>displayType := d\<rparr>)) (settings s)"
      using fwk_setter_kept [OF s] by blast
    then show ?thesis using SetDisplayType
      by (cases "d < 3") (auto simp: FWK_Config_SetDisplayType_def save_setting_def)
  next
    case (SetPassword pw)
    have "config_wf ((snd (settings s))\<lparr>password := take 6 pw\<rparr>)" using wf p SetPassword by (simp add: config_wf_def)
    from block_put_kept [OF s, of "\<lambda>c. c\<lparr>password := take 6 pw\<rparr>", OF this] show ?thesis
      using SetPassword p by (auto simp: HAL_OutputDev_SmartLockConfig_SetPassword_def lock_kept [OF s] slice_def)
  next
    case (SetThreshold v)
    have "config_wf ((snd (settings s))\<lparr>faceRecThreshold := v\<rparr>)" using wf by (simp add: config_wf_def)
    from block_put_kept [OF s, of "\<lambda>c. c\<lparr>faceRecThreshold := v\<rparr>", OF this] show ?thesis
      using SetThreshold p by (auto simp: HAL_OutputDev_SmartLockConfig_SetFaceRecThreshold_def lock_kept [OF s])
  next
    case Reboot
    then show ?thesis using reboot_kept [OF A s] by auto
  next
    case (SetMode m)
    then show ?thesis using field [of "\<lambda>c. c\<lparr>mode := m\<rparr>" True] wf
      by (simp add: HAL_OutputDev_SmartLockConfig_SetMode_def config_wf_def put_when_def [abs_def])
  next
    case (SetIrPwm b)
    then show ?thesis using field [of "\<lambda>c. c\<lparr>irPwm := b\<rparr>" "b \<le> 100"] wf
      by (simp add: HAL_OutputDev_SmartLockConfig_SetIrPwm_def config_wf_def not_less)
  next
    case (SetWhitePwm b)
    then show ?thesis using field [of "\<lambda>c. c\<lparr>whitePwm := b\<rparr>" "b \<le> 100"] wf
      by (simp add: HAL_OutputDev_SmartLockConfig_SetWhitePwm_def config_wf_def not_less)
  next
    case (SetSpeakerVolume v)
    then show ?thesis using field [of "\<lambda>c. c\<lparr>speakerVolume := v\<rparr>" "v \<le> 100"] wf
      by (simp add: HAL_OutputDev_SmartLockConfig_SetSpeakerVolume_def config_wf_def not_less)
  next
    case (SetSleepMode m)
    then show ?thesis using field [of "\<lambda>c. c\<lparr>sleepMode := m\<rparr>" "m = 0 \<or> m = 1"] wf
      by (simp add: HAL_OutputDev_SmartLockConfig_SetSleepMode_def config_wf_def)
  qed
qed

lemma config_implements:
  "config_os A \<Longrightarrow> implements (config_step A) (config_kept ready entries) config_allowed settings settings_spec"
  by unfold_locales (rule config_simulates)

lemma set_app_data_run:
  assumes "Config_Lock s = Inr (kSLNConfigStatus_Success, t)" and "fit_block A sz t = u" and "app_data u = Some blk"
    and "load_at 0 (unat sz) data = Inr bytes" and "store_at 0 bytes blk = Inr blk'"
    and "u\<lparr>app_version := ver, app_size := sz, app_data := Some blk'\<rparr> = v" and "AppConfigSave v = Inr (kStatus_HAL_FlashSuccess, w)"
    and "w\<lparr>s_Metadata := s_Metadata w\<lparr>appDataVersion := ver, appDataSize := sz\<rparr>\<rparr> = x"
    and "MetadataSave x = Inr (kStatus_HAL_FlashSuccess, y)"
  shows "FWK_Config_SetAppData A data sz ver s = Inr (kSLNConfigStatus_Success, Config_Unlock y)"
  using assms by (simp add: FWK_Config_SetAppData_def)

lemma config_first_start:
  assumes A: "config_os A" and w: "ready (cfg_flash s)" and e: "entries (cfg_flash s) CONFIG_DIR = None"
    and c: "\<And>n. n \<in> config_names \<Longrightarrow> clean (entries (cfg_flash s) n)"
  shows "\<exists>t. HAL_OutputDev_SmartLockConfig_Init A (cfg_statics s) = Inr (kSLNConfigStatus_Success, t) \<and>
    config_kept ready entries t \<and> settings t = (default_fwk_config, default_config)"
proof -
  define s0 where "s0 = (cfg_statics s)\<lparr>cfg_calls := cfg_calls s + 1, s_FWKConfigLock := Some True\<rparr>"
  have f0: "cfg_flash s0 = cfg_flash s" by (simp add: s0_def cfg_statics_def)
  obtain w1 where w1: "FWK_Flash_Mkdir (Some CONFIG_DIR) (cfg_flash s) = Inr (kStatus_HAL_FlashSuccess, w1)" "ready w1"
    "entries w1 = (entries (cfg_flash s))(CONFIG_DIR \<mapsto> Dir)"
    using mkdir_new [OF w config_dir_parent e] dir_room [OF w config_dir_parent e] by fastforce
  define s1 where "s1 = s0\<lparr>cfg_flash := w1\<rparr>"
  have s1: "on_cfg_flash (FWK_Flash_Mkdir (Some CONFIG_DIR)) s0 = Inr (kStatus_HAL_FlashSuccess, s1)"
    using w1(1) by (simp add: on_cfg_flash_def f0 s1_def)
  have f1: "config_files (entries w1)" using c w1(3) by (simp add: config_files_def config_names_def)
  obtain w2 n2 where w2: "FwkConfig_Save s1 = Inr (kStatus_HAL_FlashSuccess, s1\<lparr>cfg_flash := w2\<rparr>)" "ready w2"
    "entries w2 = (entries w1)(FWK_CONFIG_FILE_NAME := n2)" "stored n2 4 (encode_fwk_config default_fwk_config)"
    using config_save [of s1 FWK_CONFIG_FILE_NAME 4 "encode_fwk_config default_fwk_config"] w1(2) f1
    by (auto simp: FwkConfig_Save_def config_names_def s1_def s0_def cfg_statics_def)
  have f2: "config_files (entries w2)" using f1 w2(3) storedD [OF w2(4)] by (simp add: config_files_def)
  let ?m = "\<lparr>fwkDataVersion = VERSION, fwkDataSize = sizeof_fwk_config, appDataVersion = 0, appDataSize = 0\<rparr>"
  define s2 where "s2 = s1\<lparr>cfg_flash := w2, s_Metadata := ?m\<rparr>"
  obtain w3 n3 where w3: "MetadataSave s2 = Inr (kStatus_HAL_FlashSuccess, s2\<lparr>cfg_flash := w3\<rparr>)" "ready w3"
    "entries w3 = (entries w2)(CONFIG_METADATA_FILE := n3)" "stored n3 16 (encode_fwk_metadata ?m)"
    using config_save [of s2 CONFIG_METADATA_FILE 16 "encode_fwk_metadata ?m"] w2(2) f2
    by (auto simp: MetadataSave_def config_names_def s2_def)
  have f3: "config_files (entries w3)" using f2 w3(3) storedD [OF w3(4)] by (simp add: config_files_def)
  define s3 where "s3 = s2\<lparr>cfg_flash := w3, s_FWKConfigLock := Some False\<rparr>"
  have i: "FWK_Config_Init A (cfg_statics s) = Inr (kSLNConfigStatus_Success, s3)"
  proof -
    have "FWK_Config_Init A (cfg_statics s) = rbind (Config_Init A s0) (\<lambda>(ret, s). Inr (ret, Config_Unlock s))"
      using A by (simp add: FWK_Config_Init_def Config_Lock_def s0_def cfg_statics_def config_os_def)
    also have "Config_Init A s0 = MetadataSave s2"
      using s1 w2(1) by (simp add: Config_Init_def s2_def)
    finally show ?thesis using w3(1) by (simp add: Config_Unlock_def s3_def s2_def s1_def s0_def)
  qed
  obtain blk where blk: "heap_block A (cfg_calls s + 1) 20 = Some blk" "length blk = 20" using A by (auto simp: config_os_def)
  have D: "length (encode_config default_config) = 20" "config_wf default_config"
    by (simp_all add: encode_config_def default_config_def config_wf_def)
  define s4 where "s4 = s3\<lparr>s_FWKConfigLock := Some True, cfg_calls := cfg_calls s + 2, app_version := 4, app_size := 20,
      app_data := Some (encode_config default_config)\<rparr>"
  have f4: "cfg_flash s4 = w3" by (simp add: s4_def s3_def)
  obtain w4 n4 where w4: "AppConfigSave s4 = Inr (kStatus_HAL_FlashSuccess, s4\<lparr>cfg_flash := w4\<rparr>)" "ready w4"
    "entries w4 = (entries w3)(APP_CONFIG_FILE_NAME := n4)" "stored n4 20 (encode_config default_config)"
    using config_save [of s4 APP_CONFIG_FILE_NAME 20 "encode_config default_config"] w3(2) f3 D(1)
    by (auto simp: AppConfigSave_def config_names_def f4) (simp add: s4_def)
  have f5: "config_files (entries w4)" using f3 w4(3) storedD [OF w4(4)] by (simp add: config_files_def)
  define s5 where "s5 = s4\<lparr>cfg_flash := w4, s_Metadata := saved_metadata\<rparr>"
  obtain w5 n5 where w5: "MetadataSave s5 = Inr (kStatus_HAL_FlashSuccess, s5\<lparr>cfg_flash := w5\<rparr>)" "ready w5"
    "entries w5 = (entries w4)(CONFIG_METADATA_FILE := n5)" "stored n5 16 (encode_fwk_metadata saved_metadata)"
    using config_save [of s5 CONFIG_METADATA_FILE 16 "encode_fwk_metadata saved_metadata"] w4(2) f5
    by (auto simp: MetadataSave_def config_names_def s5_def)
  define s6 where "s6 = s5\<lparr>cfg_flash := w5, s_FWKConfigLock := Some False\<rparr>"
  have "FWK_Config_SetAppData A (encode_config default_config) 20 4 s3 = Inr (kSLNConfigStatus_Success, s6)"
  proof -
    let ?t = "s3\<lparr>s_FWKConfigLock := Some True\<rparr>"
    let ?blk = "?t\<lparr>app_data := Some blk, cfg_calls := cfg_calls s + 2\<rparr>"
    have lk: "Config_Lock s3 = Inr (kSLNConfigStatus_Success, ?t)" by (simp add: Config_Lock_def s3_def)
    have "app_size ?t = 0" "cfg_calls ?t = cfg_calls s + 1" by (simp_all add: s3_def s2_def s1_def s0_def cfg_statics_def)
    then have fit: "fit_block A 20 ?t = ?blk" using blk(1) by (simp add: fit_block_def)
    have ld: "load_at 0 20 (encode_config default_config) = Inr (encode_config default_config)"
      "store_at 0 (encode_config default_config) blk = Inr (encode_config default_config)"
      using D(1) blk(2) by (simp_all add: slice_def blit_all)
    have s4: "?blk\<lparr>app_version := 4, app_size := 20, app_data := Some (encode_config default_config)\<rparr> = s4"
      by (cases s3) (simp add: s4_def)
    have "s_Metadata s4 = ?m" by (simp add: s4_def s3_def s2_def)
    then have s5: "s4\<lparr>cfg_flash := w4\<rparr>\<lparr>s_Metadata := s_Metadata (s4\<lparr>cfg_flash := w4\<rparr>)\<lparr>appDataVersion := 4, appDataSize := 20\<rparr>\<rparr> = s5"
      by (simp add: s5_def saved_metadata_def VERSION_zero)
    have "FWK_Config_SetAppData A (encode_config default_config) 20 4 s3 = Inr (kSLNConfigStatus_Success, Config_Unlock (s5\<lparr>cfg_flash := w5\<rparr>))"
      by (rule set_app_data_run [OF lk fit _ _ _ s4 w4(1) s5 w5(1)]) (use ld in simp_all)
    then show ?thesis by (simp add: Config_Unlock_def s6_def s5_def s4_def)
  qed
  then have "HAL_OutputDev_SmartLockConfig_Init A (cfg_statics s) = Inr (kSLNConfigStatus_Success, s6)"
    using i by (simp add: HAL_OutputDev_SmartLockConfig_Init_def FWK_Config_GetAppDataVersion_def APP_CONFIG_VERSION_4)
      (simp add: s3_def s2_def s1_def s0_def cfg_statics_def)
  moreover have "config_kept ready entries s6"
    using w5(2-4) w4(3,4) w3(3) w2(3,4) w1(3) D(1)
    by (simp add: config_kept_def s6_def s5_def s4_def s3_def s2_def s1_def s0_def cfg_statics_def)
  moreover have "settings s6 = (default_fwk_config, default_config)"
    using config_value [OF D(2)] by (simp add: settings_def s6_def s5_def s4_def s3_def s2_def s1_def s0_def cfg_statics_def)
  ultimately show ?thesis by blast
qed

end

section \<open>A start without metadata\<close>

context framework_flash begin

lemma start_without_metadata:
  assumes A: "config_os A" and w: "ready (cfg_flash s)" and d: "entries (cfg_flash s) CONFIG_DIR = Some Dir"
    and m: "entries (cfg_flash s) CONFIG_METADATA_FILE = None"
  shows "\<exists>t. HAL_OutputDev_SmartLockConfig_Init A (cfg_statics s) = Inr (kStatus_HAL_FlashFileNotExist, t) \<and>
    s_FWKConfigLock t = Some False \<and> app_data t = None \<and> ready (cfg_flash t) \<and> entries (cfg_flash t) = entries (cfg_flash s)"
proof -
  define s0 where "s0 = (cfg_statics s)\<lparr>cfg_calls := cfg_calls s + 1, s_FWKConfigLock := Some True\<rparr>"
  have "entries (cfg_flash s) CONFIG_DIR \<noteq> None" using d by simp
  from mkdir_there [OF w config_dir_parent this]
  obtain w1 where w1: "FWK_Flash_Mkdir (Some CONFIG_DIR) (cfg_flash s) = Inr (kStatus_HAL_FlashDirExist, w1)" "ready w1"
    "entries w1 = entries (cfg_flash s)" by blast
  define s1 where "s1 = s0\<lparr>cfg_flash := w1, s_Metadata := decode_fwk_metadata (replicate 16 0)\<rparr>"
  have p: "has_parent (entries w1) CONFIG_METADATA_FILE" by (rule config_parents) (use d w1(3) in \<open>auto simp: config_names_def\<close>)
  have "entries w1 CONFIG_METADATA_FILE = None" using m w1(3) by simp
  from read_none [OF w1(2) p this, of "Some (replicate 16 0)" 0 16]
  obtain w2 where w2: "FWK_Flash_Read (Some CONFIG_METADATA_FILE) (Some (replicate 16 0)) 0 (Some 16) w1 =
      Inr ((kStatus_HAL_FlashFileNotExist, Some (replicate 16 0), Some 16), w2)" "ready w2" "entries w2 = entries w1" by blast
  have rd: "on_cfg_flash (FWK_Flash_Read (Some CONFIG_METADATA_FILE) (Some (replicate 16 0)) 0 (Some 16)) s1 =
      Inr ((kStatus_HAL_FlashFileNotExist, Some (replicate 16 0), Some 16), s1\<lparr>cfg_flash := w2\<rparr>)"
    using w2(1) by (simp add: on_cfg_flash_def s1_def)
  define t where "t = s1\<lparr>cfg_flash := w2, s_FWKConfigLock := Some False\<rparr>"
  have "FWK_Config_Init A (cfg_statics s) = rbind (Config_Init A s0) (\<lambda>(ret, s). Inr (ret, Config_Unlock s))"
    using A by (simp add: FWK_Config_Init_def Config_Lock_def s0_def cfg_statics_def config_os_def)
  also have "Config_Init A s0 = rbind (MetadataLoad (s0\<lparr>cfg_flash := w1\<rparr>)) (\<lambda>(status, s).
      if status = kStatus_HAL_FlashSuccess then rbind (init_fwk_config s) (\<lambda>(status, s). init_app_config A status s)
      else Inr (status, s))"
    using w1(1) by (simp add: Config_Init_def on_cfg_flash_def s0_def cfg_statics_def)
  also have "MetadataLoad (s0\<lparr>cfg_flash := w1\<rparr>) = Inr (kStatus_HAL_FlashFileNotExist, s1\<lparr>cfg_flash := w2\<rparr>)"
  proof -
    have "(s0\<lparr>cfg_flash := w1\<rparr>)\<lparr>s_Metadata := decode_fwk_metadata (replicate 16 0)\<rparr> = s1" by (simp add: s1_def)
    moreover have "(s1\<lparr>cfg_flash := w2\<rparr>)\<lparr>s_Metadata := decode_fwk_metadata (replicate 16 0)\<rparr> = s1\<lparr>cfg_flash := w2\<rparr>"
      by (cases s0) (simp add: s1_def)
    ultimately show ?thesis using rd by (simp add: MetadataLoad_def del: kStatus_HAL_FlashFileNotExist_def)
  qed
  finally have "FWK_Config_Init A (cfg_statics s) = Inr (kStatus_HAL_FlashFileNotExist, t)"
    by (simp add: Config_Unlock_def t_def s1_def s0_def)
  then have "HAL_OutputDev_SmartLockConfig_Init A (cfg_statics s) = Inr (kStatus_HAL_FlashFileNotExist, t)"
    by (simp add: HAL_OutputDev_SmartLockConfig_Init_def)
  then show ?thesis using w2(2,3) w1(3) by (auto simp: t_def s1_def s0_def cfg_statics_def)
qed

end

end
