(* ===== verification/Config_Props.thy ===== *)
theory Config_Props
  imports Config_Vault Flash_Sim
begin

text \<open>
  Properties of the configuration store: what is set is kept over restarts, what a first start gives,
  and three behaviours the callers see when something is refused or fails.
\<close>

lemma sim_config_os: "config_os sim_os"
  by (simp add: config_os_def sim_os_def)

interpretation sim_config: implements "config_step sim_os" "config_kept (lfs_ready sim_platform) (lfs_entries lfs)"
    config_allowed settings settings_spec
  by (rule roomy_flash.config_implements [OF sim_roomy sim_config_os])

text \<open>A program that has just started, with the store on an empty volume.\<close>

definition sim_cfg :: "sim_state cfg_st" where
  "sim_cfg = cfg_statics \<lparr>s_FWKConfig = default_fwk_config, app_data = None, app_version = 0, app_size = 0,
     s_FWKConfigLock = None, s_Metadata = saved_metadata,
     cfg_flash = \<lparr>s_FlashDev = Some (s_FlashDev_Littlefs sim_platform), dev_st = sim_lfs Map.empty\<rparr>, cfg_calls = 0\<rparr>"

lemma sim_cfg_simps [simp]:
  "lfs_ready sim_platform (cfg_flash sim_cfg)" "lfs_entries lfs (cfg_flash sim_cfg) = Map.empty" "cfg_statics sim_cfg = sim_cfg"
  by (simp_all add: sim_cfg_def cfg_statics_def lfs_ready_def lfs_entries_def)

lemma clean_None [simp]: "clean None"
  by (simp add: clean_def plain_def LFS_GetDefaultFileConfig_def)

lemma sim_cfg_started:
  "\<exists>t. HAL_OutputDev_SmartLockConfig_Init sim_os sim_cfg = Inr (kSLNConfigStatus_Success, t) \<and>
    config_kept (lfs_ready sim_platform) (lfs_entries lfs) t \<and> settings t = (default_fwk_config, default_config)"
  using roomy_flash.config_first_start [OF sim_roomy sim_config_os, of sim_cfg] by simp

section \<open>Settings\<close>

text \<open>C8: The configuration store refines a pair of values: over any sequence of setters, events and
  restarts, on a device with room, each operation returns, a value in range replaces the old one, a value
  out of range is ignored, and a restart reads back from the files exactly what was set.\<close>
theorem config_refines_settings:
  assumes "roomy_flash ready entries" and "config_os A" and "config_kept ready entries s" and "list_all config_allowed ps"
  shows "\<exists>rs t. run_ops (config_step A) ps s = Inr (rs, t) \<and> config_kept ready entries t \<and>
    settings t = fold settings_spec ps (settings s)"
  using implements.run_implements [OF roomy_flash.config_implements [OF assms(1,2)] assms(3,4)] .

theorem config_refines_settings_witness:
  "\<exists>(s :: sim_state cfg_st) rs t. run_ops (config_step sim_os)
      [Event True (SetLogLevel 4), SetIrPwm 40, Reboot, SetIrPwm 101, SetThreshold 850, Reboot] s = Inr (rs, t) \<and>
    settings t = (default_fwk_config\<lparr>logLevel := 4\<rparr>, default_config\<lparr>irPwm := 40, faceRecThreshold := 850\<rparr>)"
proof -
  let ?ps = "[Event True (SetLogLevel 4), SetIrPwm 40, Reboot, SetIrPwm 101, SetThreshold 850, Reboot]"
  obtain s where s: "config_kept (lfs_ready sim_platform) (lfs_entries lfs) (s :: sim_state cfg_st)"
    "settings s = (default_fwk_config, default_config)" using sim_cfg_started by blast
  have a: "list_all config_allowed ?ps" by simp
  have "fold settings_spec ?ps (settings s) =
      (default_fwk_config\<lparr>logLevel := 4\<rparr>, default_config\<lparr>irPwm := 40, faceRecThreshold := 850\<rparr>)"
    by (simp add: s(2))
  then show ?thesis using config_refines_settings [OF sim_roomy sim_config_os s(1) a] by metis
qed

text \<open>A first start on a volume without a configuration directory creates the three files with the
  default settings: logs at level 2, the RGB panel, a threshold of 800 and the password of zeros.\<close>
theorem config_first_defaults:
  assumes "roomy_flash ready entries" and "config_os A" and "ready (cfg_flash s)" and "entries (cfg_flash s) = Map.empty"
  shows "\<exists>t. HAL_OutputDev_SmartLockConfig_Init A (cfg_statics s) = Inr (kSLNConfigStatus_Success, t) \<and>
    config_kept ready entries t \<and> settings t = (default_fwk_config, default_config)"
  using roomy_flash.config_first_start [OF assms(1-3)] assms(4) by simp

theorem config_first_defaults_witness:
  "\<exists>t. HAL_OutputDev_SmartLockConfig_Init sim_os sim_cfg = Inr (kSLNConfigStatus_Success, t) \<and>
    settings t = (default_fwk_config, default_config)"
  using config_first_defaults [OF sim_roomy sim_config_os, of sim_cfg] by auto

section \<open>Refusals and failures\<close>

text \<open>A face recognition threshold out of range is refused with an error event, and the mutex of the
  store is kept: the next event that reads or changes a locked setting never returns.\<close>
theorem threshold_keeps_mutex:
  assumes "s_FWKConfigLock s = Some False" and "v < 600 \<or> 900 < v"
  shows "\<exists>t. HAL_OutputDev_ConfigInputNotify True (SetFaceRecThreshold v) s = Inr (Some (kEventStatus_Error, NewThreshold v), t) \<and>
    HAL_OutputDev_ConfigInputNotify r GetFaceRecThreshold t = Inl Deadlock \<and>
    HAL_OutputDev_ConfigInputNotify r (SetFaceRecThreshold 800) t = Inl Deadlock \<and>
    HAL_OutputDev_ConfigInputNotify r GetDisplayOutput t = Inl Deadlock \<and>
    HAL_OutputDev_SmartLockConfig_SetIrPwm b t = Inl Deadlock"
  using assms
  by (auto simp: HAL_OutputDev_SmartLockConfig_SetFaceRecThreshold_def FWK_Config_LockAppData_def Config_Lock_def reply_def
      HAL_OutputDev_SmartLockConfig_GetFaceRecThreshold_def get_field_def FWK_Config_GetDisplayOutput_def
      HAL_OutputDev_SmartLockConfig_SetIrPwm_def set_field_def)

theorem threshold_keeps_mutex_witness:
  "\<exists>t. HAL_OutputDev_ConfigInputNotify True (SetFaceRecThreshold 1000) (sim_cfg\<lparr>s_FWKConfigLock := Some False\<rparr>) =
      Inr (Some (kEventStatus_Error, NewThreshold 1000), t) \<and>
    HAL_OutputDev_ConfigInputNotify True GetFaceRecThreshold t = Inl Deadlock"
  using threshold_keeps_mutex [of "sim_cfg\<lparr>s_FWKConfigLock := Some False\<rparr>" 1000 True 0] by auto

text \<open>Setting the display type stores a valid value in RAM and in its file, and always reports an
  error: the status of the save goes to an inner variable.\<close>
theorem display_type_reports_error:
  assumes "roomy_flash ready entries" and "config_kept ready entries s" and "d < 3"
  shows "\<exists>t. FWK_Config_SetDisplayType d s = Inr (kSLNConfigStatus_Error, t) \<and> config_kept ready entries t \<and>
    FWK_Config_GetDisplayType t = Inr (d, t)"
proof -
  obtain t where t: "save_setting True (\<lambda>c. c\<lparr>displayType := d\<rparr>) s = Inr (kStatus_HAL_FlashSuccess, t)"
    "config_kept ready entries t" "settings t = apfst (\<lambda>c. c\<lparr>displayType := d\<rparr>) (settings s)"
    using roomy_flash.fwk_setting_kept [OF assms(1,2)] by blast
  have "s_FWKConfigLock t = Some False" "displayType (s_FWKConfig t) = d" using t(2,3) by (auto simp: config_kept_def settings_def)
  then have "FWK_Config_GetDisplayType t = Inr (d, t)"
    by (simp add: FWK_Config_GetDisplayType_def Config_Lock_def Config_Unlock_def)
  then show ?thesis using t(1,2) assms(3) by (auto simp: FWK_Config_SetDisplayType_def)
qed

theorem display_type_reports_error_witness:
  "\<exists>(s :: sim_state cfg_st) t. FWK_Config_SetDisplayType 2 s = Inr (kSLNConfigStatus_Error, t) \<and> FWK_Config_GetDisplayType t = Inr (2, t)"
proof -
  obtain s where s: "config_kept (lfs_ready sim_platform) (lfs_entries lfs) (s :: sim_state cfg_st)" using sim_cfg_started by blast
  then show ?thesis using display_type_reports_error [OF sim_roomy s, of 2] by auto
qed

text \<open>When a new log level cannot be saved the event is answered with Ok: the handler tests for the
  general error of the configuration store, and a failed save returns the code of the flash device.\<close>
theorem failed_save_answered_ok:
  assumes "s_FWKConfigLock s = Some False" and "l < 5" and "logLevel (s_FWKConfig s) \<noteq> l"
    and "FwkConfig_Save (s\<lparr>s_FWKConfigLock := Some True, s_FWKConfig := (s_FWKConfig s)\<lparr>logLevel := l\<rparr>\<rparr>) = Inr (kStatus_HAL_FlashFail, t)"
  shows "HAL_OutputDev_ConfigInputNotify True (SetLogLevel l) s = Inr (Some (kEventStatus_Ok, Setting l), Config_Unlock t)"
  using assms
  by (simp add: change_setting_def reply_def FWK_Config_GetLogLevel_def FWK_Config_SetLogLevel_def save_setting_def Config_Lock_def)

theorem failed_save_answered_ok_witness:
  "\<exists>t. HAL_OutputDev_ConfigInputNotify True (SetLogLevel 4)
      (sim_cfg\<lparr>s_FWKConfigLock := Some False, cfg_flash := \<lparr>s_FlashDev = None, dev_st = sim_lfs Map.empty\<rparr>\<rparr>) =
    Inr (Some (kEventStatus_Ok, Setting 4), t)"
proof -
  define s where "s = sim_cfg\<lparr>s_FWKConfigLock := Some False, cfg_flash := \<lparr>s_FlashDev = None, dev_st = sim_lfs Map.empty\<rparr>\<rparr>"
  have fails: "\<exists>t. FwkConfig_Save (s\<lparr>s_FWKConfigLock := Some True, s_FWKConfig := c\<rparr>) = Inr (kStatus_HAL_FlashFail, t)" for c
    by (simp add: FwkConfig_Save_def on_cfg_flash_def FWK_Flash_Save_def fwk_call_def s_def)
  obtain t where t: "FwkConfig_Save (s\<lparr>s_FWKConfigLock := Some True, s_FWKConfig := (s_FWKConfig s)\<lparr>logLevel := 4\<rparr>\<rparr>) =
      Inr (kStatus_HAL_FlashFail, t)" using fails by blast
  have "s_FWKConfigLock s = Some False" "logLevel (s_FWKConfig s) \<noteq> 4"
    by (simp_all add: s_def sim_cfg_def cfg_statics_def default_fwk_config_def)
  then have "HAL_OutputDev_ConfigInputNotify True (SetLogLevel 4) s = Inr (Some (kEventStatus_Ok, Setting 4), Config_Unlock t)"
    by (intro failed_save_answered_ok [OF _ _ _ t]) simp_all
  then show ?thesis unfolding s_def by blast
qed

text \<open>C40: When the first start was interrupted after the directory was made and before the metadata was
  written, every later start fails and leaves no block of settings; the first access to a setting
  answers with a default and keeps the mutex, the second never returns; and the next start finds the
  same files, so this lasts.\<close>
theorem missing_metadata_locks_out:
  assumes "framework_flash ready entries" and "config_os A" and "ready (cfg_flash s)"
    and "entries (cfg_flash s) CONFIG_DIR = Some Dir" and "entries (cfg_flash s) CONFIG_METADATA_FILE = None"
  shows "\<exists>t u. HAL_OutputDev_SmartLockConfig_Init A (cfg_statics s) = Inr (kStatus_HAL_FlashFileNotExist, t) \<and>
    HAL_OutputDev_SmartLockConfig_GetIrPwm t = Inr (255, u) \<and> HAL_OutputDev_SmartLockConfig_GetIrPwm u = Inl Deadlock \<and>
    ready (cfg_flash u) \<and> entries (cfg_flash u) = entries (cfg_flash s)"
proof -
  obtain t where t: "HAL_OutputDev_SmartLockConfig_Init A (cfg_statics s) = Inr (kStatus_HAL_FlashFileNotExist, t)"
    "s_FWKConfigLock t = Some False" "app_data t = None" "ready (cfg_flash t)" "entries (cfg_flash t) = entries (cfg_flash s)"
    using framework_flash.start_without_metadata [OF assms] by blast
  let ?u = "t\<lparr>s_FWKConfigLock := Some True\<rparr>"
  have "HAL_OutputDev_SmartLockConfig_GetIrPwm t = Inr (255, ?u)" "HAL_OutputDev_SmartLockConfig_GetIrPwm ?u = Inl Deadlock"
    using t(2,3) by (simp_all add: HAL_OutputDev_SmartLockConfig_GetIrPwm_def get_field_def FWK_Config_LockAppData_def Config_Lock_def)
  then show ?thesis using t by (intro exI [of _ t] exI [of _ ?u]) simp
qed

text \<open>A volume with the directory only.\<close>

definition cut_off :: "sim_state cfg_st" where
  "cut_off = sim_cfg\<lparr>cfg_flash := \<lparr>s_FlashDev = Some (s_FlashDev_Littlefs sim_platform), dev_st = sim_lfs [CONFIG_DIR \<mapsto> Dir]\<rparr>\<rparr>"

theorem missing_metadata_locks_out_witness:
  "\<exists>t u. HAL_OutputDev_SmartLockConfig_Init sim_os (cfg_statics cut_off) = Inr (605, t) \<and>
    HAL_OutputDev_SmartLockConfig_GetIrPwm t = Inr (255, u) \<and> HAL_OutputDev_SmartLockConfig_GetIrPwm u = Inl Deadlock"
proof -
  have f: "framework_flash (lfs_ready sim_platform) (lfs_entries lfs)" by (rule roomy_flash.axioms(1) [OF sim_roomy])
  have c: "lfs_ready sim_platform (cfg_flash cut_off)" "lfs_entries lfs (cfg_flash cut_off) CONFIG_DIR = Some Dir"
    "lfs_entries lfs (cfg_flash cut_off) CONFIG_METADATA_FILE = None"
    by (simp_all add: cut_off_def lfs_ready_def lfs_entries_def)
  show ?thesis using missing_metadata_locks_out [OF f sim_config_os c] by auto
qed

end
