(* ===== verification/Fwk_Timer.thy ===== *)
theory Fwk_Timer
  imports Prelude
begin

text \<open>
  The framework's timers, \<open>sln_framework/core/fwk_timer.c\<close>, over the software timers of the operating
  system. A client keeps a pointer per timer, its slot; the address of the slot is the identity the
  operating system hands back when the timer expires. The operating system is its documented
  behaviour: a table of timers with period, expiry and a flag that says whether they run, commands
  that take effect at once (its timer task has the highest priority) unless the command queue refuses
  them, and a clock of one tick per millisecond. Whether memory, mutexes, timers and places in the
  queue are there is an oracle per call. Logging, and the name that only the log shows, are left out.
\<close>

section \<open>State\<close>

record 's rtos_timer =
  period :: nat
  expiry :: nat
  active :: bool
  reloads :: bool
  owner :: 's

record 'f fwk_timer_t =
  handle :: nat
  func :: 'f
  has_lock :: bool
  autoReload :: bool

record ('s, 'f) timers =
  slot :: "'s \<Rightarrow> 'f fwk_timer_t option"
  rtos_timers :: "nat \<Rightarrow> 's rtos_timer option"
  next_handle :: nat
  ticks :: nat
  tm_calls :: nat

record rtos_if =
  heap_gives :: "nat \<Rightarrow> bool"
  mutex_made :: "nat \<Rightarrow> bool"
  timer_made :: "nat \<Rightarrow> bool"
  start_queued :: "nat \<Rightarrow> bool"
  reset_queued :: "nat \<Rightarrow> bool"
  stop_queued :: "nat \<Rightarrow> bool"
  delete_queued :: "nat \<Rightarrow> bool"

type_synonym ('s, 'f, 'r) tm_op = "('s, 'f) timers \<Rightarrow> ('r \<times> ('s, 'f) timers) outcome"

section \<open>Operations\<close>

definition set_slot :: "'s \<Rightarrow> 'f fwk_timer_t option \<Rightarrow> ('s, 'f) timers \<Rightarrow> ('s, 'f) timers" where
  "set_slot s t T = T\<lparr>slot := (slot T)(s := t)\<rparr>"

definition set_rtos :: "nat \<Rightarrow> 's rtos_timer option \<Rightarrow> ('s, 'f) timers \<Rightarrow> ('s, 'f) timers" where
  "set_rtos h r T = T\<lparr>rtos_timers := (rtos_timers T)(h := r)\<rparr>"

text \<open>The slot is cleared first, whatever it held; a timer that was running there goes on running.\<close>

definition FWK_Timer_Start :: "rtos_if \<Rightarrow> nat \<Rightarrow> bool \<Rightarrow> 'f \<Rightarrow> 's \<Rightarrow> ('s, 'f, int) tm_op" where
  "FWK_Timer_Start R ms reload f s T =
    (let n = tm_calls T; h = next_handle T; T = (set_slot s None T)\<lparr>tm_calls := n + 1\<rparr> in
     if \<not> heap_gives R n then Inr (-1, T)
     else if \<not> timer_made R n then Inr (-1, T)
     else
       let r = \<lparr>period = ms, expiry = ticks T + ms, active = False, reloads = reload, owner = s\<rparr>;
           T = (set_rtos h (Some r) T)\<lparr>next_handle := h + 1\<rparr> in
       if start_queued R n then
         Inr (0, set_slot s (Some \<lparr>handle = h, func = f, has_lock = mutex_made R n, autoReload = reload\<rparr>)
           (set_rtos h (Some (r\<lparr>active := True\<rparr>)) T))
       else Inr (-1, if delete_queued R n then set_rtos h None T else T))"

definition FWK_Timer_Reset :: "rtos_if \<Rightarrow> 's \<Rightarrow> ('s, 'f, int) tm_op" where
  "FWK_Timer_Reset R s T =
    (case slot T s of None \<Rightarrow> Inr (-1, T) | Some t \<Rightarrow>
     case rtos_timers T (handle t) of None \<Rightarrow> Inl MemFault | Some r \<Rightarrow>
       if active r then
         let n = tm_calls T; T = T\<lparr>tm_calls := n + 1\<rparr> in
         if reset_queued R n then Inr (0, set_rtos (handle t) (Some (r\<lparr>expiry := ticks T + period r\<rparr>)) T)
         else Inr (-1, T)
       else Inr (-1, T))"

text \<open>To take a mutex that could not be created is an assertion of the operating system, which loops for
  ever with interrupts off.\<close>

definition FWK_Timer_Stop :: "rtos_if \<Rightarrow> 's \<Rightarrow> ('s, 'f, int) tm_op" where
  "FWK_Timer_Stop R s T =
    (case slot T s of None \<Rightarrow> Inr (-1, T) | Some t \<Rightarrow>
     if \<not> has_lock t then Inl Livelock else
     case rtos_timers T (handle t) of None \<Rightarrow> Inl MemFault | Some r \<Rightarrow>
       let n = tm_calls T; T = T\<lparr>tm_calls := n + 1\<rparr>;
           T = (if active r \<and> stop_queued R n then set_rtos (handle t) (Some (r\<lparr>active := False\<rparr>)) T else T);
           T = (if delete_queued R n then set_rtos (handle t) None T else T)
       in Inr (0, set_slot s None T))"

definition FWK_Timer_GetRemainingTime :: "'s \<Rightarrow> ('s, 'f) timers \<Rightarrow> u32 outcome" where
  "FWK_Timer_GetRemainingTime s T =
    (case slot T s of None \<Rightarrow> Inr (-1) | Some t \<Rightarrow>
     case rtos_timers T (handle t) of None \<Rightarrow> Inl MemFault | Some r \<Rightarrow>
       if active r then Inr (of_nat (expiry r) - of_nat (ticks T)) else Inr (-1))"

text \<open>
  What the operating system calls when a timer expires. The client's state \<open>u\<close> holds the timers; \<open>call\<close>
  runs a callback function on it. It is the timer the slot holds now whose function runs, and which is
  stopped afterwards.
\<close>

definition FWK_Timer_Callback ::
    "rtos_if \<Rightarrow> ('u \<Rightarrow> ('s, 'f) timers) \<Rightarrow> (('s, 'f) timers \<Rightarrow> 'u \<Rightarrow> 'u) \<Rightarrow> ('f \<Rightarrow> 'u \<Rightarrow> (unit \<times> 'u) outcome) \<Rightarrow>
      's \<Rightarrow> 'u \<Rightarrow> (unit \<times> 'u) outcome" where
  "FWK_Timer_Callback R get put call s u =
    (case slot (get u) s of None \<Rightarrow> Inr ((), u) | Some t \<Rightarrow>
     rbind (call (func t) u) (\<lambda>(_, u).
     case slot (get u) s of None \<Rightarrow> Inr ((), u) | Some t \<Rightarrow>
       if autoReload t then Inr ((), u)
       else rbind (FWK_Timer_Stop R s (get u)) (\<lambda>(_, T). Inr ((), put T u))))"

text \<open>The operating system: time passes; a running timer whose time has come stops, or is armed again,
  and its callback runs.\<close>

definition rtos_fire :: "nat \<Rightarrow> ('s, 'f) timers \<Rightarrow> ('s \<times> ('s, 'f) timers) option" where
  "rtos_fire h T =
    (case rtos_timers T h of None \<Rightarrow> None | Some r \<Rightarrow>
     if active r \<and> expiry r \<le> ticks T
     then Some (owner r, set_rtos h (Some (if reloads r then r\<lparr>expiry := expiry r + period r\<rparr> else r\<lparr>active := False\<rparr>)) T)
     else None)"

definition rtos_expire ::
    "rtos_if \<Rightarrow> ('u \<Rightarrow> ('s, 'f) timers) \<Rightarrow> (('s, 'f) timers \<Rightarrow> 'u \<Rightarrow> 'u) \<Rightarrow> ('f \<Rightarrow> 'u \<Rightarrow> (unit \<times> 'u) outcome) \<Rightarrow>
      nat \<Rightarrow> 'u \<Rightarrow> (unit \<times> 'u) outcome" where
  "rtos_expire R get put call h u =
    (case rtos_fire h (get u) of None \<Rightarrow> Inr ((), u)
     | Some (s, T) \<Rightarrow> FWK_Timer_Callback R get put call s (put T u))"

section \<open>Slots that point to their timers\<close>

text \<open>Every timer in a slot is one the operating system knows, created for that slot.\<close>

definition timers_wf :: "('s, 'f) timers \<Rightarrow> bool" where
  "timers_wf T \<longleftrightarrow> (\<forall>h. next_handle T \<le> h \<longrightarrow> rtos_timers T h = None) \<and>
     (\<forall>s t. slot T s = Some t \<longrightarrow> (\<exists>r. rtos_timers T (handle t) = Some r \<and> owner r = s))"

lemma timers_wfD:
  "timers_wf T \<Longrightarrow> slot T s = Some t \<Longrightarrow> \<exists>r. rtos_timers T (handle t) = Some r \<and> owner r = s"
  by (simp add: timers_wf_def)

lemma slot_handles_apart:
  "timers_wf T \<Longrightarrow> slot T s = Some t \<Longrightarrow> slot T s' = Some t' \<Longrightarrow> s \<noteq> s' \<Longrightarrow> handle t \<noteq> handle t'"
  using timers_wfD [of T s t] timers_wfD [of T s' t'] by auto

lemma set_simps [simp]:
  "slot (set_slot s t T) = (slot T)(s := t)" "slot (set_rtos h r T) = slot T"
  "rtos_timers (set_slot s t T) = rtos_timers T" "rtos_timers (set_rtos h r T) = (rtos_timers T)(h := r)"
  "next_handle (set_slot s t T) = next_handle T" "next_handle (set_rtos h r T) = next_handle T"
  "ticks (set_slot s t T) = ticks T" "ticks (set_rtos h r T) = ticks T"
  "tm_calls (set_slot s t T) = tm_calls T" "tm_calls (set_rtos h r T) = tm_calls T"
  by (simp_all add: set_slot_def set_rtos_def)

lemma start_wf: "timers_wf T \<Longrightarrow> FWK_Timer_Start R ms reload f s T = Inr (r, T') \<Longrightarrow> timers_wf T'"
  by (auto simp: FWK_Timer_Start_def timers_wf_def Let_def split: if_splits) (metis le_refl option.distinct(1))+

lemma handle_known: "timers_wf T \<Longrightarrow> rtos_timers T h = Some r \<Longrightarrow> h < next_handle T"
  by (auto simp: timers_wf_def not_le [symmetric])

lemma reset_wf:
  assumes "timers_wf T" and "FWK_Timer_Reset R s T = Inr (r, T')"
  shows "timers_wf T'"
proof (cases "slot T s")
  case (Some t)
  then show ?thesis using assms timers_wfD [OF assms(1) Some] handle_known [OF assms(1), of "handle t"]
    by (fastforce simp: FWK_Timer_Reset_def timers_wf_def Let_def split: if_splits option.splits)
qed (use assms in \<open>simp add: FWK_Timer_Reset_def\<close>)

lemma wf_drop:
  assumes w: "timers_wf T" and s: "slot T s = Some t"
  shows "timers_wf (set_slot s None (set_rtos (handle t) r T))"
proof -
  have "h = handle t \<Longrightarrow> h < next_handle T" for h using handle_known [OF w] timers_wfD [OF w s] by auto
  moreover have "slot T s' = Some t' \<Longrightarrow> s' \<noteq> s \<Longrightarrow> handle t' \<noteq> handle t" for s' t'
    using slot_handles_apart [OF w _ s] by blast
  ultimately show ?thesis using w by (auto simp: timers_wf_def not_le [symmetric])
qed

lemma wf_calls [simp]: "timers_wf (T\<lparr>tm_calls := n\<rparr>) = timers_wf T"
  by (simp add: timers_wf_def)

lemma wf_clear: "timers_wf T \<Longrightarrow> timers_wf (set_slot s None T)"
  by (auto simp: timers_wf_def)

lemma stop_run:
  assumes w: "timers_wf T" and s: "slot T s = Some t" and l: "has_lock t"
  shows "\<exists>r. rtos_timers T (handle t) = Some r \<and> FWK_Timer_Stop R s T = Inr (0, (set_slot s None
    (set_rtos (handle t) (if delete_queued R (tm_calls T) then None
       else Some (if stop_queued R (tm_calls T) then r\<lparr>active := False\<rparr> else r)) T))\<lparr>tm_calls := tm_calls T + 1\<rparr>)"
proof -
  obtain r where r: "rtos_timers T (handle t) = Some r" "owner r = s" using timers_wfD [OF w s] by blast
  have i: "r\<lparr>active := False\<rparr> = r" if "\<not> active r" using that by (cases r) simp
  show ?thesis using r s l i
    by (auto simp: FWK_Timer_Stop_def Let_def set_slot_def set_rtos_def fun_upd_idem)
qed

lemma stop_wf:
  assumes w: "timers_wf T" and "FWK_Timer_Stop R s T = Inr (r, T')"
  shows "timers_wf T' \<and> slot T' = (slot T)(s := None) \<and> ticks T' = ticks T"
proof (cases "slot T s")
  case None
  then show ?thesis using assms by (auto simp: FWK_Timer_Stop_def fun_upd_idem)
next
  case (Some t)
  have l: "has_lock t" using assms(2) Some by (auto simp: FWK_Timer_Stop_def split: if_splits)
  show ?thesis using stop_run [OF w Some l, of R] wf_drop [OF w Some] assms(2) by auto
qed

section \<open>A service that keeps its slots\<close>

text \<open>
  What a client of the timers relies on: the operations keep the slots well formed, and after a stop
  the slot is empty. With an operating system that always grants what it is asked for, they also
  return.
\<close>

datatype ('s, 'f) tm_req = Tm_Start nat bool 'f 's | Tm_Reset 's | Tm_Stop 's

fun tm_step :: "rtos_if \<Rightarrow> ('s, 'f) tm_req \<Rightarrow> ('s, 'f, int) tm_op" where
  "tm_step R (Tm_Start ms reload f s) = FWK_Timer_Start R ms reload f s"
| "tm_step R (Tm_Reset s) = FWK_Timer_Reset R s"
| "tm_step R (Tm_Stop s) = FWK_Timer_Stop R s"

interpretation tm: kept_invariant "tm_step R" timers_wf for R
proof
  fix s p r s' assume "timers_wf s" "tm_step R p s = Inr (r, s')"
  then show "timers_wf s'" by (cases p) (auto dest: start_wf reset_wf stop_wf)
qed

definition rtos_grants :: "rtos_if \<Rightarrow> bool" where
  "rtos_grants R \<longleftrightarrow> (\<forall>n. heap_gives R n \<and> mutex_made R n \<and> timer_made R n \<and> start_queued R n \<and> reset_queued R n \<and>
     stop_queued R n \<and> delete_queued R n)"

definition timers_locked :: "('s, 'f) timers \<Rightarrow> bool" where
  "timers_locked T \<longleftrightarrow> timers_wf T \<and> (\<forall>s t. slot T s = Some t \<longrightarrow> has_lock t)"

lemma timers_lockedD: "timers_locked T \<Longrightarrow> timers_wf T" "timers_locked T \<Longrightarrow> slot T s = Some t \<Longrightarrow> has_lock t"
  by (simp_all add: timers_locked_def)

lemma start_run:
  assumes "rtos_grants R"
  shows "FWK_Timer_Start R ms reload f s T = Inr (0, T\<lparr>
      slot := (slot T)(s \<mapsto> \<lparr>handle = next_handle T, func = f, has_lock = True, autoReload = reload\<rparr>),
      rtos_timers := (rtos_timers T)(next_handle T \<mapsto>
        \<lparr>period = ms, expiry = ticks T + ms, active = True, reloads = reload, owner = s\<rparr>),
      next_handle := next_handle T + 1, tm_calls := tm_calls T + 1\<rparr>)"
  using assms by (simp add: FWK_Timer_Start_def rtos_grants_def Let_def set_slot_def set_rtos_def)

lemma start_locked:
  "timers_locked T \<Longrightarrow> mutex_made R (tm_calls T) \<Longrightarrow> FWK_Timer_Start R ms reload f s T = Inr (r, T') \<Longrightarrow> timers_locked T'"
  using start_wf [of T R ms reload f s r T']
  by (auto simp: timers_locked_def FWK_Timer_Start_def Let_def split: if_splits)

lemma start_returns: "\<exists>r T'. FWK_Timer_Start R ms reload f s T = Inr (r, T') \<and> ticks T' = ticks T"
  by (simp add: FWK_Timer_Start_def Let_def)

lemma reset_returns:
  assumes w: "timers_wf T"
  shows "\<exists>r T'. FWK_Timer_Reset R s T = Inr (r, T') \<and> slot T' = slot T \<and> ticks T' = ticks T"
proof (cases "slot T s")
  case (Some t)
  then show ?thesis using timers_wfD [OF w Some] by (auto simp: FWK_Timer_Reset_def Let_def)
qed (simp add: FWK_Timer_Reset_def)

lemma stop_returns:
  assumes "timers_locked T"
  shows "\<exists>r T'. FWK_Timer_Stop R s T = Inr (r, T') \<and> timers_locked T' \<and> slot T' = (slot T)(s := None) \<and> ticks T' = ticks T"
proof -
  note w = timers_lockedD(1) [OF assms]
  have "\<exists>r T'. FWK_Timer_Stop R s T = Inr (r, T')"
  proof (cases "slot T s")
    case (Some t)
    then show ?thesis using stop_run [OF w Some timers_lockedD(2) [OF assms Some], of R] by blast
  qed (simp add: FWK_Timer_Stop_def)
  then obtain r T' where f: "FWK_Timer_Stop R s T = Inr (r, T')" by blast
  from stop_wf [OF w f] assms have "timers_locked T'" by (auto simp: timers_locked_def)
  then show ?thesis using f stop_wf [OF w f] by blast
qed

text \<open>Where an operating system with mutexes is given, the service is never stuck.\<close>

lemma tm_live:
  assumes "\<forall>n. mutex_made R n"
  shows "live_invariant (tm_step R) timers_locked"
proof
  fix s p r s' assume s: "timers_locked s" "tm_step R p s = Inr (r, s')"
  show "timers_locked s'"
  proof (cases p)
    case (Tm_Start ms reload f i)
    then show ?thesis using s assms start_locked by fastforce
  next
    case (Tm_Reset i)
    then show ?thesis using s reset_returns [OF timers_lockedD(1) [OF s(1)], of R i] reset_wf [OF timers_lockedD(1) [OF s(1)]]
      by (auto simp: timers_locked_def)
  next
    case (Tm_Stop i)
    then show ?thesis using s stop_returns [OF s(1), of R i] by auto
  qed
next
  fix s p assume s: "timers_locked s"
  show "\<exists>r s'. tm_step R p s = Inr (r, s')"
  proof (cases p)
    case (Tm_Start ms reload f i)
    then show ?thesis using start_returns [of R ms reload f i s] by auto
  next
    case (Tm_Reset i)
    then show ?thesis using reset_returns [OF timers_lockedD(1) [OF s], of R i] by auto
  next
    case (Tm_Stop i)
    then show ?thesis using stop_returns [OF s, of R i] by auto
  qed
qed

end
