(* ===== verification/Lpm_Manager.thy ===== *)
theory Lpm_Manager
  imports Prelude
begin

text \<open>
  The low-power manager of the framework, \<open>sln_framework/core/fwk_lpm_manager.c\<close>: one low-power device, a
  list of requests with a usage count each, and the decision to go to sleep when nobody uses the
  system. The operations of the device are a parameter, functions on the manager's state, because a
  device calls the manager back; a NULL operation is None where the code tests it. A pointer to a
  requesting device is a number, NULL is zero. A list that was never initialised is None. Enumerations
  are numbers where the code compares them. Logging is left out.
\<close>

section \<open>Constants and types\<close>

definition kStatus_HAL_LpmSuccess :: int where [simp]: "kStatus_HAL_LpmSuccess = 0"
definition kStatus_HAL_LpmError :: int where [simp]: "kStatus_HAL_LpmError = 801"
definition kStatus_HAL_LpmRegisterFail :: int where [simp]: "kStatus_HAL_LpmRegisterFail = 802"
definition kStatus_HAL_LpmUnregisterFail :: int where [simp]: "kStatus_HAL_LpmUnregisterFail = 803"
definition kStatus_HAL_LpmLockNull :: int where [simp]: "kStatus_HAL_LpmLockNull = 804"
definition kStatus_HAL_LpmLockError :: int where [simp]: "kStatus_HAL_LpmLockError = 805"
definition kStatus_HAL_LpmRuntimeGetFail :: int where [simp]: "kStatus_HAL_LpmRuntimeGetFail = 806"
definition kStatus_HAL_LpmRuntimePutFail :: int where [simp]: "kStatus_HAL_LpmRuntimePutFail = 807"
definition kStatus_HAL_LpmRuntimeSetFail :: int where [simp]: "kStatus_HAL_LpmRuntimeSetFail = 808"
definition kStatus_HAL_LpmTimerNull :: int where [simp]: "kStatus_HAL_LpmTimerNull = 809"
definition kStatus_HAL_LpmTimerFail :: int where [simp]: "kStatus_HAL_LpmTimerFail = 810"

datatype hal_lpm_mode_t = kLPMMode_SNVS | kLPMMode_STANDBY | kLPMMode_Invalid

definition kLPMManagerStatus_SleepDisable :: u8 where [simp]: "kLPMManagerStatus_SleepDisable = 0"
definition kLPMManagerStatus_SleepEnable :: u8 where [simp]: "kLPMManagerStatus_SleepEnable = 1"

record lpm_request_item_t =
  item_dev :: nat
  requestName :: "u8 list"
  usageCount :: u8

record hal_lpm_request_t =
  req_dev :: nat
  req_name :: "u8 list"

record 'd lpm_manager =
  lpm_dev :: "'d option"
  enable :: u8
  currentMode :: hal_lpm_mode_t
  lpmRequestList :: "lpm_request_item_t list option"
  pre_sleep_sent :: "nat list"

type_synonym ('d, 'r) lpm_op = "'d lpm_manager \<Rightarrow> ('r \<times> 'd lpm_manager) outcome"

text \<open>The tasks that exist are part of the surroundings, with the heap.\<close>

record 'd lpm_dev_operator_t =
  dev_init :: "('d, int) lpm_op option"
  openTimer :: "('d, int) lpm_op option"
  stopTimer :: "('d, int) lpm_op"
  openPreEnterTimer :: "('d, int) lpm_op"
  stopPreEnterTimer :: "('d, int) lpm_op"
  enterSleep :: "(hal_lpm_mode_t \<Rightarrow> ('d, int) lpm_op) option"
  dev_lock :: "('d, int) lpm_op option"
  dev_unlock :: "('d, int) lpm_op option"

section \<open>Lock and timers\<close>

definition FWK_LpmManager_Lock :: "'d lpm_dev_operator_t \<Rightarrow> ('d, int) lpm_op" where
  "FWK_LpmManager_Lock D m = (case (lpm_dev m, dev_lock D) of (Some _, Some f) \<Rightarrow> f m | _ \<Rightarrow> Inr (kStatus_HAL_LpmLockNull, m))"

definition FWK_LpmManager_Unlock :: "'d lpm_dev_operator_t \<Rightarrow> ('d, int) lpm_op" where
  "FWK_LpmManager_Unlock D m = (case (lpm_dev m, dev_unlock D) of (Some _, Some f) \<Rightarrow> f m | _ \<Rightarrow> Inr (kStatus_HAL_LpmLockNull, m))"

definition FWK_LpmManager_PreEnterSleepTimerCallback :: "'d lpm_dev_operator_t \<Rightarrow> ('d, int) lpm_op" where
  "FWK_LpmManager_PreEnterSleepTimerCallback D m =
    (case (lpm_dev m, enterSleep D) of
       (Some _, Some sleep) \<Rightarrow>
         rbind (stopPreEnterTimer D m) (\<lambda>(_, m).
         let m = m\<lparr>enable := kLPMManagerStatus_SleepDisable\<rparr> in sleep (currentMode m) m)
     | _ \<Rightarrow> Inr (kStatus_HAL_LpmError, m))"

text \<open>The tasks from the camera's to the last of the framework's, as far as they run, are told.\<close>

definition FWK_LpmManager_PreEnterSleep :: "'d lpm_dev_operator_t \<Rightarrow> (nat \<Rightarrow> bool) \<Rightarrow> ('d, int) lpm_op" where
  "FWK_LpmManager_PreEnterSleep D running m =
    openPreEnterTimer D (if currentMode m = kLPMMode_SNVS
      then m\<lparr>pre_sleep_sent := pre_sleep_sent m @ filter running [0..<8]\<rparr> else m)"

definition in_use :: "lpm_request_item_t \<Rightarrow> bool" where
  "in_use r \<longleftrightarrow> item_dev r \<noteq> 0 \<and> 0 < sint (usageCount r)"

definition FWK_LpmManager_TimerCallback :: "'d lpm_dev_operator_t \<Rightarrow> (nat \<Rightarrow> bool) \<Rightarrow> ('d, int) lpm_op" where
  "FWK_LpmManager_TimerCallback D running m =
    (if enable m = kLPMManagerStatus_SleepEnable then
       case lpmRequestList m of None \<Rightarrow> Inl MemFault
       | Some rs \<Rightarrow>
           if \<not> list_ex in_use rs \<and> rs \<noteq> [] \<and> lpm_dev m \<noteq> None \<and> enterSleep D \<noteq> None then
             rbind (stopTimer D m) (\<lambda>(_, m).
             rbind (FWK_LpmManager_PreEnterSleep D running m) (\<lambda>(_, m). Inr (kStatus_HAL_LpmSuccess, m)))
           else Inr (kStatus_HAL_LpmSuccess, m)
     else Inr (kStatus_HAL_LpmSuccess, m))"

section \<open>Start and registration\<close>

definition FWK_LpmManager_Init :: "('d, int) lpm_op" where
  "FWK_LpmManager_Init m = Inr (kStatus_HAL_LpmSuccess, m\<lparr>lpm_dev := None, enable := kLPMManagerStatus_SleepDisable,
     currentMode := kLPMMode_Invalid, lpmRequestList := Some []\<rparr>)"

definition FWK_LpmManager_Deinit :: "('d, int) lpm_op" where
  "FWK_LpmManager_Deinit m = Inr (kStatus_HAL_LpmSuccess, m)"

definition call_dev :: "int \<Rightarrow> ('d, int) lpm_op option \<Rightarrow> ('d, int) lpm_op" where
  "call_dev ret f m = (case (lpm_dev m, f) of (Some _, Some f) \<Rightarrow> f m | _ \<Rightarrow> Inr (ret, m))"

definition FWK_LpmManager_Start :: "'d lpm_dev_operator_t \<Rightarrow> ('d, int) lpm_op" where
  "FWK_LpmManager_Start D m =
    rbind (call_dev (if lpm_dev m = None then kStatus_HAL_LpmError else kStatus_HAL_LpmSuccess) (dev_init D) m) (\<lambda>(ret, m).
    rbind (call_dev ret (openTimer D) m) (\<lambda>(ret, m).
    Inr (ret, m\<lparr>enable := kLPMManagerStatus_SleepEnable\<rparr>)))"

definition FWK_LpmManager_DeviceRegister :: "'d \<Rightarrow> ('d, int) lpm_op" where
  "FWK_LpmManager_DeviceRegister d m = Inr (kStatus_HAL_LpmSuccess, m\<lparr>lpm_dev := Some d\<rparr>)"

text \<open>A list that is not there yet is made by the initialisation of the whole manager.\<close>

definition FWK_LpmManager_RegisterRequestHandler :: "bool \<Rightarrow> hal_lpm_request_t \<Rightarrow> ('d, int) lpm_op" where
  "FWK_LpmManager_RegisterRequestHandler heap req m =
    rbind (if lpmRequestList m = None then FWK_LpmManager_Init m else Inr (kStatus_HAL_LpmSuccess, m)) (\<lambda>(ret, m).
    if \<not> heap then Inr (kStatus_HAL_LpmRegisterFail, m)
    else Inr (ret, m\<lparr>lpmRequestList := Some (the (lpmRequestList m) @
      [\<lparr>item_dev = req_dev req, requestName = req_name req, usageCount = 0\<rparr>])\<rparr>))"

text \<open>The first item of the device: changed, removed, or not found.\<close>

fun on_first :: "nat \<Rightarrow> (lpm_request_item_t \<Rightarrow> lpm_request_item_t list) \<Rightarrow> lpm_request_item_t list \<Rightarrow> lpm_request_item_t list option" where
  "on_first d f [] = None"
| "on_first d f (r # rs) = (if item_dev r = d then Some (f r @ rs) else map_option ((#) r) (on_first d f rs))"

definition FWK_LpmManager_UnregisterRequestHandler :: "hal_lpm_request_t \<Rightarrow> ('d, int) lpm_op" where
  "FWK_LpmManager_UnregisterRequestHandler req m =
    (case lpmRequestList m of None \<Rightarrow> Inr (kStatus_HAL_LpmError, m)
     | Some rs \<Rightarrow> case on_first (req_dev req) (\<lambda>r. []) rs of
           None \<Rightarrow> Inr (kStatus_HAL_LpmUnregisterFail, m)
         | Some rs \<Rightarrow> Inr (kStatus_HAL_LpmSuccess, m\<lparr>lpmRequestList := Some rs\<rparr>))"

section \<open>Usage counts\<close>

text \<open>The frame of the three operations on a count; \<open>f\<close> is the change, \<open>fail\<close> the status for an unknown
  device.\<close>

definition change_usage :: "'d lpm_dev_operator_t \<Rightarrow> (u8 \<Rightarrow> u8) \<Rightarrow> int \<Rightarrow> hal_lpm_request_t \<Rightarrow> ('d, int) lpm_op" where
  "change_usage D f fail req m =
    (if lpmRequestList m = None then Inr (kStatus_HAL_LpmError, m)
     else rbind (FWK_LpmManager_Lock D m) (\<lambda>(ret, m).
       if ret \<noteq> kStatus_HAL_LpmSuccess then Inr (ret, m)
       else
         let (ret, m) = (case on_first (req_dev req) (\<lambda>r. [r\<lparr>usageCount := f (usageCount r)\<rparr>]) (the (lpmRequestList m)) of
             None \<Rightarrow> (fail, m)
           | Some rs \<Rightarrow> (kStatus_HAL_LpmSuccess, m\<lparr>lpmRequestList := Some rs\<rparr>))
         in rbind (FWK_LpmManager_Unlock D m) (\<lambda>(_, m). Inr (ret, m))))"

definition FWK_LpmManager_RuntimeGet :: "'d lpm_dev_operator_t \<Rightarrow> hal_lpm_request_t \<Rightarrow> ('d, int) lpm_op" where
  "FWK_LpmManager_RuntimeGet D = change_usage D (\<lambda>c. c + 1) kStatus_HAL_LpmRuntimeGetFail"

definition FWK_LpmManager_RuntimePut :: "'d lpm_dev_operator_t \<Rightarrow> hal_lpm_request_t \<Rightarrow> ('d, int) lpm_op" where
  "FWK_LpmManager_RuntimePut D = change_usage D (\<lambda>c. c - 1) kStatus_HAL_LpmRuntimePutFail"

definition FWK_LpmManager_RuntimeSet :: "'d lpm_dev_operator_t \<Rightarrow> hal_lpm_request_t \<Rightarrow> u8 \<Rightarrow> ('d, int) lpm_op" where
  "FWK_LpmManager_RuntimeSet D req count = change_usage D (\<lambda>_. count) kStatus_HAL_LpmRuntimeSetFail req"

text \<open>The sum of the counts goes to the caller's variable; it is zero when the status is an error.\<close>

definition FWK_LpmManager_RequestStatus :: "'d lpm_dev_operator_t \<Rightarrow> ('d, int \<times> u32) lpm_op" where
  "FWK_LpmManager_RequestStatus D m =
    (if lpmRequestList m = None then Inr ((kStatus_HAL_LpmError, 0), m)
     else rbind (FWK_LpmManager_Lock D m) (\<lambda>(ret, m).
       if ret \<noteq> kStatus_HAL_LpmSuccess then Inr ((ret, 0), m)
       else
         let total = sum_list (map (\<lambda>r. scast (usageCount r)) (filter (\<lambda>r. item_dev r \<noteq> 0) (the (lpmRequestList m)))) in
         rbind (FWK_LpmManager_Unlock D m) (\<lambda>(_, m). Inr ((ret, total), m))))"

section \<open>Sleep\<close>

definition FWK_LpmManager_SetSleepMode :: "'d lpm_dev_operator_t \<Rightarrow> hal_lpm_mode_t \<Rightarrow> ('d, int) lpm_op" where
  "FWK_LpmManager_SetSleepMode D md m =
    rbind (FWK_LpmManager_Lock D m) (\<lambda>(ret, m).
    if ret \<noteq> kStatus_HAL_LpmSuccess then Inr (kStatus_HAL_LpmError, m)
    else rbind (FWK_LpmManager_Unlock D (m\<lparr>currentMode := md\<rparr>)) (\<lambda>(_, m). Inr (ret, m)))"

definition FWK_LpmManager_EnableSleepMode :: "'d lpm_dev_operator_t \<Rightarrow> u8 \<Rightarrow> ('d, int) lpm_op" where
  "FWK_LpmManager_EnableSleepMode D en m =
    rbind (FWK_LpmManager_Lock D m) (\<lambda>(ret, m).
    if ret \<noteq> kStatus_HAL_LpmSuccess then Inr (kStatus_HAL_LpmError, m)
    else
      rbind (if enable m \<noteq> en then
          if en \<noteq> 0 then
            (case (lpm_dev m, openTimer D) of
               (Some _, Some open) \<Rightarrow> rbind (open m) (\<lambda>(ret, m). Inr (ret, if ret = 0 then m\<lparr>enable := en\<rparr> else m))
             | _ \<Rightarrow> Inr (ret, m))
          else
            rbind (stopTimer D m) (\<lambda>(_, m).
            rbind (stopPreEnterTimer D m) (\<lambda>(ret, m). Inr (ret, m\<lparr>enable := en\<rparr>)))
        else Inr (ret, m)) (\<lambda>(ret, m).
      rbind (FWK_LpmManager_Unlock D m) (\<lambda>(_, m). Inr (ret, m))))"

end
