(* ===== verification/Oasis_Lite.thy ===== *)
theory Oasis_Lite
  imports Facedb Smart_Lock_Config At_Commands Fwk_Timer Lpm_Manager
begin

text \<open>
  The face recognition engine of the smart lock,
  \<open>sln_framework/hal/vision/hal_vision_algo_oasis_lite2D.c\<close>, and the part of
  \<open>sln_framework/core/fwk_vision_algo_manager.c\<close> that feeds it frames and events. Types, state, the callbacks
  the recognition library makes, timers and the handling of one frame are here; the events are in
  \<open>Oasis_Events\<close>. The library itself is third-party and a parameter: a tree of the calls it makes, each
  with a continuation for the answer. The state is the file's static variables with the components
  below (timers, face database, settings, low-power manager, and the flash that two of them share) and a
  record of what was sent. Handlers run one at a time. Built for the 2D smart lock without
  HEADLESS_ENABLE; logging and profiling are left out.
\<close>

section \<open>Constants and types\<close>

definition RESULT_TIMER :: nat where [simp]: "RESULT_TIMER = 2000"
definition REGISTERING_TIMER :: nat where [simp]: "REGISTERING_TIMER = 25000"
definition DEREGISTERING_TIMER :: nat where [simp]: "DEREGISTERING_TIMER = 25000"
definition RECOGNITION_TIMER :: nat where [simp]: "RECOGNITION_TIMER = 25000"
definition DETECT_FACE_TIMER :: nat where [simp]: "DETECT_FACE_TIMER = 10000"
definition QUALITY_CHECK_TIMER :: nat where [simp]: "QUALITY_CHECK_TIMER = 1500"
definition RESULT_NAME_SIZE :: nat where [simp]: "RESULT_NAME_SIZE = 31"

text \<open>The modes of the library that occur, the pause while a result is shown, and the stop.\<close>

datatype run_flag = OASIS_DET_ONLY | OASIS_DET_REC | OASIS_DET_REC_REG | OASIS_DET_REC_DEREG | OASIS_RUN_FLAG_NUM | OASIS_RUN_FLAG_STOP

datatype oasis_slot = DetFaceTimer | RegTimer | DeregTimer | RecTimer | ResultTimer | QualityCheckTimer

datatype oasis_cb = Cb_noface_detected | Cb_registration | Cb_deregistration | Cb_rec | Cb_result | Cb_quality_check

definition kOASISLiteRecognitionResult_Invalid :: u32 where [simp]: "kOASISLiteRecognitionResult_Invalid = 0"
definition kOASISLiteRecognitionResult_Unknown :: u32 where [simp]: "kOASISLiteRecognitionResult_Unknown = 2"
definition kOASISLiteRecognitionResult_Timeout :: u32 where [simp]: "kOASISLiteRecognitionResult_Timeout = 3"
definition kOASISLiteMode_SmartLock :: u8 where [simp]: "kOASISLiteMode_SmartLock = 0"

datatype quality_check = kOasisLiteQualityCheck_Ok | kOasisLiteQualityCheck_SmallFace | kOasisLiteQualityCheck_Blurry
  | kOasisLiteQualityCheck_SideFace | kOasisLiteQualityCheck_Brightness | kOasisLiteQualityCheck_FakeFace

text \<open>The rectangle of a face box; its landmarks are not read. A byte of a union has one name.\<close>

type_synonym face_box_t = "int list"

record oasis_lite_debug_t =
  sim :: u32
  dbg_faceID :: u32
  isOk :: u8
  isSmallFace :: u8
  isBlurry :: u8
  isSideFace :: u8
  rgbFake :: u8
  irFake :: u8
  hasMask :: u8
  hasGlasses :: u8
  irBrightness :: u8
  rgbBrightness :: u8

text \<open>The result; the three results of the union are one number. \<open>process\<close> is the remaining time, which
  the code divides by the duration of the timer.\<close>

record oasis_result =
  res_state :: oasis_lite_state_t
  face_count :: u8
  face_box :: face_box_t
  face_recognized :: bool
  res_face_id :: int
  res_name :: "u8 list"
  res_quality :: quality_check
  res_result :: u32
  process :: u32
  debug_info :: oasis_lite_debug_t

definition zero_debug :: oasis_lite_debug_t where
  "zero_debug = \<lparr>sim = 0, dbg_faceID = 0, isOk = 0, isSmallFace = 0, isBlurry = 0, isSideFace = 0, rgbFake = 0, irFake = 0,
     hasMask = 0, hasGlasses = 0, irBrightness = 0, rgbBrightness = 0\<rparr>"

definition zero_result :: oasis_result where
  "zero_result = \<lparr>res_state = kOASISLiteState_Recognition, face_count = 0, face_box = replicate 4 0, face_recognized = False,
     res_face_id = 0, res_name = replicate RESULT_NAME_SIZE 0, res_quality = kOasisLiteQualityCheck_Ok, res_result = 0,
     process = 0, debug_info = zero_debug\<rparr>"

text \<open>The part of a result that the AT command link reads.\<close>

definition at_view :: "oasis_result \<Rightarrow> oasis_lite_result_t" where
  "at_view r = \<lparr>state = res_state r, face_id = res_face_id r,
     fake_face = (res_quality r = kOasisLiteQualityCheck_FakeFace), result = res_result r\<rparr>"

section \<open>The recognition library\<close>

definition OASIS_REC_RESULT_KNOWN_FACE :: u8 where [simp]: "OASIS_REC_RESULT_KNOWN_FACE = 0"
definition OASIS_REC_RESULT_UNKNOWN_FACE :: u8 where [simp]: "OASIS_REC_RESULT_UNKNOWN_FACE = 1"
definition OASIS_REG_RESULT_INVALID :: u8 where [simp]: "OASIS_REG_RESULT_INVALID = 255"
definition OASIS_DEREG_RESULT_OK :: u8 where [simp]: "OASIS_DEREG_RESULT_OK = 0"
definition OASIS_QUALITY_RESULT_FACE_OK :: u8 where [simp]: "OASIS_QUALITY_RESULT_FACE_OK = 0"
definition OASIS_QUALITY_RESULT_FACE_ORIENTATION_UNMATCH :: u8 where [simp]: "OASIS_QUALITY_RESULT_FACE_ORIENTATION_UNMATCH = 2"
definition OASIS_QUALITY_RESULT_FACE_BLUR :: u8 where [simp]: "OASIS_QUALITY_RESULT_FACE_BLUR = 3"
definition OASIS_QUALITY_RESULT_IR_FAKE :: u8 where [simp]: "OASIS_QUALITY_RESULT_IR_FAKE = 4"
definition OASIS_QUALITY_RESULT_RGB_FAKE :: u8 where [simp]: "OASIS_QUALITY_RESULT_RGB_FAKE = 5"
definition OASISLT_INT_FRAME_IDX_IR :: u8 where [simp]: "OASISLT_INT_FRAME_IDX_IR = 1"

datatype oasis_evt = OASISLT_EVT_DET_START | OASISLT_EVT_DET_COMPLETE | OASISLT_EVT_QUALITY_CHK_START
  | OASISLT_EVT_QUALITY_CHK_COMPLETE | OASISLT_EVT_REC_START | OASISLT_EVT_REC_COMPLETE | OASISLT_EVT_REG_START
  | OASISLT_EVT_REG_IN_PROGRESS | OASISLT_EVT_REG_COMPLETE | OASISLT_EVT_DEREG_START | OASISLT_EVT_DEREG_COMPLETE

record oasis_cb_para =
  faceBoxRGB :: "face_box_t option"
  faceID :: u16
  regResult :: u8
  deregResult :: u8
  recResult :: u8
  qualityResult :: u8
  reserved :: "nat \<Rightarrow> u32"

text \<open>
  The callbacks with their arguments. The arrays and the counter of \<open>GetFaces\<close> come from the library
  and go back to it, with the memory the face pointers point into; so does the identifier that
  \<open>AddFace\<close> may store.
\<close>

datatype oasis_call = EvtCb oasis_evt oasis_cb_para | GetFaces "u16 list option" "nat option list option" u32
  | AddFace "u8 list option" | UpdateFace u16 "u8 list option" | DeleteFace u16 | AdjustBrightness u8 u8

datatype oasis_answer = Nothing | Faces int "u16 list option" "nat option list option" u32 "u8 list option"
  | Added int "u16 option" | Answer int

datatype 'r oasis_lib = Return 'r | Call oasis_call "oasis_answer \<Rightarrow> 'r oasis_lib"

text \<open>What surrounds the engine: the heap and the operating system, the places in the message queues (those of
  the receivers of results, and of the camera for requests of frames, by the number of the message), the
  functions of the library by the number of the call, and the low-power device.\<close>

record 'd oasis_env =
  os :: os_if
  rtos :: rtos_if
  message_ok :: "nat \<Rightarrow> bool"
  request_ok :: "nat \<Rightarrow> bool"
  OASISLT_init :: "nat \<Rightarrow> int \<times> u32"
  OASISLT_getFaceItemSize :: u32
  OASISLT_run_extend :: "nat \<Rightarrow> run_flag \<Rightarrow> int oasis_lib"
  OASISLT_registration_by_feature :: "nat \<Rightarrow> u8 list \<Rightarrow> u16 \<Rightarrow> (u8 \<times> u16) oasis_lib"
  lpm_ops :: "'d lpm_dev_operator_t"

section \<open>State\<close>

datatype name_ptr = Name_NULL | Name_Buffer | Name_Block "u8 list"

datatype frame_id = kVAlgoFrameID_RGB | kVAlgoFrameID_IR

datatype oasis_response = Rsp_DelFace | Rsp_Remote remote_reg_result_t | Rsp_Event | Rsp_Count int | Rsp_UpdateFace
  | Rsp_UserList "(u16 \<times> bool \<times> u8 list) list" | Rsp_Lpm u8 | Rsp_Stopped bool

record ('w, 'd) oasis =
  run_flag :: run_flag
  prevRunFlag :: run_flag
  res :: oasis_result
  timers :: "(oasis_slot, oasis_cb) timers"
  timer_timeout :: bool
  timerTimeoutQualityCheck :: bool
  qualityCheck :: quality_check
  has_dev :: bool
  oasis_mode :: u8
  s_UserName :: "u8 list"
  s_UserNameReference :: name_ptr
  s_blockingList :: u16
  recogTH :: "u32 option"
  supported :: "frame_id \<Rightarrow> bool"
  frameReady :: "frame_id \<Rightarrow> bool"
  in_flight :: "frame_id \<Rightarrow> nat"
  refused :: "frame_id \<Rightarrow> bool"
  req_count :: nat
  fdb :: "'w facedb"
  cfg :: "'w cfg_st"
  flash :: "'w fwk_flash"
  lpm :: "'d lpm_manager"
  results :: "oasis_result list"
  responses :: "(oasis_response \<times> event_status_t) list"
  cam_events :: "(bool \<times> u8) list"
  msg_count :: nat
  os_calls :: nat
  lib_calls :: nat
  lib_log :: "oasis_call list"

type_synonym ('w, 'd, 'r) oas_op = "('w, 'd) oasis \<Rightarrow> ('r \<times> ('w, 'd) oasis) outcome"

text \<open>The components: each operation on a part of the state.\<close>

definition on_tm :: "(oasis_slot, oasis_cb, 'r) tm_op \<Rightarrow> ('w, 'd, 'r) oas_op" where
  "on_tm f s = rbind (f (timers s)) (\<lambda>(r, T). Inr (r, s\<lparr>timers := T\<rparr>))"

definition on_fdb :: "('w, 'r) fdb_op \<Rightarrow> ('w, 'd, 'r) oas_op" where
  "on_fdb f s = rbind (f ((fdb s)\<lparr>fdb_flash := flash s\<rparr>)) (\<lambda>(r, d). Inr (r, s\<lparr>fdb := d, flash := fdb_flash d\<rparr>))"

definition on_cfg :: "('w, 'r) cfg_op \<Rightarrow> ('w, 'd, 'r) oas_op" where
  "on_cfg f s = rbind (f ((cfg s)\<lparr>cfg_flash := flash s\<rparr>)) (\<lambda>(r, c). Inr (r, s\<lparr>cfg := c, flash := cfg_flash c\<rparr>))"

definition on_lpm :: "('d, 'r) lpm_op \<Rightarrow> ('w, 'd, 'r) oas_op" where
  "on_lpm f s = rbind (f (lpm s)) (\<lambda>(r, m). Inr (r, s\<lparr>lpm := m\<rparr>))"

section \<open>Messages to the framework\<close>

definition oasis_lite_dev_response :: "bool \<Rightarrow> oasis_response \<Rightarrow> event_status_t \<Rightarrow> ('w, 'd) oasis \<Rightarrow> ('w, 'd) oasis" where
  "oasis_lite_dev_response respond r status s = (if respond then s\<lparr>responses := responses s @ [(r, status)]\<rparr> else s)"

text \<open>The request message of every supported frame goes to the camera. When the camera's queue has no place the
  request is gone: nobody looks at what \<open>FWK_Message_Put\<close> returns. A request that was taken is in flight until
  its frame comes; \<open>refused\<close> says of the last request for a frame that it was lost.\<close>

definition request_frame :: "'d oasis_env \<Rightarrow> frame_id \<Rightarrow> ('w, 'd) oasis \<Rightarrow> ('w, 'd) oasis" where
  "request_frame E i s =
    (if supported s i then
       let ok = request_ok E (req_count s) in
       s\<lparr>in_flight := (in_flight s)(i := in_flight s i + (if ok then 1 else 0)), refused := (refused s)(i := \<not> ok), req_count := req_count s + 1\<rparr>
     else s)"

definition oasis_lite_dev_RequestFrame :: "'d oasis_env \<Rightarrow> ('w, 'd) oasis \<Rightarrow> ('w, 'd) oasis" where
  "oasis_lite_dev_RequestFrame E s = request_frame E kVAlgoFrameID_IR (request_frame E kVAlgoFrameID_RGB s)"

lemma request_keeps [simp]:
  "run_flag (oasis_lite_dev_RequestFrame E s) = run_flag s" "prevRunFlag (oasis_lite_dev_RequestFrame E s) = prevRunFlag s"
  "res (oasis_lite_dev_RequestFrame E s) = res s" "timers (oasis_lite_dev_RequestFrame E s) = timers s"
  "timer_timeout (oasis_lite_dev_RequestFrame E s) = timer_timeout s" "has_dev (oasis_lite_dev_RequestFrame E s) = has_dev s"
  "oasis_mode (oasis_lite_dev_RequestFrame E s) = oasis_mode s" "s_UserName (oasis_lite_dev_RequestFrame E s) = s_UserName s"
  "s_UserNameReference (oasis_lite_dev_RequestFrame E s) = s_UserNameReference s"
  "s_blockingList (oasis_lite_dev_RequestFrame E s) = s_blockingList s" "supported (oasis_lite_dev_RequestFrame E s) = supported s"
  "frameReady (oasis_lite_dev_RequestFrame E s) = frameReady s" "fdb (oasis_lite_dev_RequestFrame E s) = fdb s"
  "cfg (oasis_lite_dev_RequestFrame E s) = cfg s" "flash (oasis_lite_dev_RequestFrame E s) = flash s"
  "lpm (oasis_lite_dev_RequestFrame E s) = lpm s" "results (oasis_lite_dev_RequestFrame E s) = results s"
  "lib_calls (oasis_lite_dev_RequestFrame E s) = lib_calls s" "qualityCheck (oasis_lite_dev_RequestFrame E s) = qualityCheck s"
  by (simp_all add: oasis_lite_dev_RequestFrame_def request_frame_def Let_def)

lemma request_asks:
  "supported s i \<Longrightarrow> 0 < in_flight (oasis_lite_dev_RequestFrame E s) i \<or> refused (oasis_lite_dev_RequestFrame E s) i"
  by (cases i) (simp_all add: oasis_lite_dev_RequestFrame_def request_frame_def Let_def)

text \<open>A copy of the result is sent to the output devices, when there is memory for the message.\<close>

definition oasis_lite_dev_notify_result :: "'d oasis_env \<Rightarrow> ('w, 'd) oasis \<Rightarrow> ('w, 'd) oasis" where
  "oasis_lite_dev_notify_result E s =
    (if has_dev s then s\<lparr>results := (if message_ok E (msg_count s) then results s @ [res s] else results s), msg_count := msg_count s + 1\<rparr>
     else s)"

definition oasis_lite_dev_camera_exposure_control :: "'d oasis_env \<Rightarrow> bool \<times> u8 \<Rightarrow> ('w, 'd) oasis \<Rightarrow> ('w, 'd) oasis" where
  "oasis_lite_dev_camera_exposure_control E e s =
    (if has_dev s then s\<lparr>cam_events := (if message_ok E (msg_count s) then cam_events s @ [e] else cam_events s), msg_count := msg_count s + 1\<rparr>
     else s)"

section \<open>Timers\<close>

definition start_timer :: "'d oasis_env \<Rightarrow> nat \<Rightarrow> oasis_cb \<Rightarrow> oasis_slot \<Rightarrow> ('w, 'd, unit) oas_op" where
  "start_timer E ms f sl s = rbind (on_tm (FWK_Timer_Start (rtos E) ms False f sl) s) (\<lambda>(_, s). Inr ((), s))"

definition stop_timer :: "'d oasis_env \<Rightarrow> oasis_slot \<Rightarrow> ('w, 'd, unit) oas_op" where
  "stop_timer E sl s =
    (if slot (timers s) sl = None then Inr ((), s)
     else rbind (on_tm (FWK_Timer_Stop (rtos E) sl) s) (\<lambda>(_, s). Inr ((), s)))"

definition oasis_timers_stop :: "'d oasis_env \<Rightarrow> ('w, 'd, unit) oas_op" where
  "oasis_timers_stop E s =
    rbind (stop_timer E RegTimer s) (\<lambda>(_, s).
    rbind (stop_timer E DetFaceTimer s) (\<lambda>(_, s).
    rbind (stop_timer E DeregTimer s) (\<lambda>(_, s).
    rbind (stop_timer E RecTimer s) (\<lambda>(_, s).
    rbind (stop_timer E ResultTimer s) (\<lambda>(_, s).
    stop_timer E QualityCheckTimer
      (if slot (timers s) QualityCheckTimer = None then s else s\<lparr>qualityCheck := kOasisLiteQualityCheck_Ok\<rparr>))))))"

section \<open>Start and stop\<close>

definition oasis_start_recognition :: "'d oasis_env \<Rightarrow> ('w, 'd, unit) oas_op" where
  "oasis_start_recognition E s =
    (if run_flag s = OASIS_RUN_FLAG_STOP then Inr ((), s)
     else rbind (oasis_timers_stop E s) (\<lambda>(_, s).
       let s = oasis_lite_dev_notify_result E (s\<lparr>run_flag := OASIS_DET_REC, res := zero_result\<rparr>) in
       rbind (start_timer E RECOGNITION_TIMER Cb_rec RecTimer s) (\<lambda>(_, s).
       start_timer E DETECT_FACE_TIMER Cb_noface_detected DetFaceTimer s)))"

definition oasis_start_registration :: "'d oasis_env \<Rightarrow> ('w, 'd, unit) oas_op" where
  "oasis_start_registration E s =
    (if run_flag s = OASIS_RUN_FLAG_STOP then Inr ((), s)
     else rbind (oasis_timers_stop E s) (\<lambda>(_, s).
       let s = oasis_lite_dev_notify_result E
             (s\<lparr>run_flag := OASIS_DET_REC_REG, res := zero_result\<lparr>res_state := kOASISLiteState_Registration\<rparr>\<rparr>) in
       rbind (start_timer E DETECT_FACE_TIMER Cb_noface_detected DetFaceTimer s) (\<lambda>(_, s).
       rbind (start_timer E REGISTERING_TIMER Cb_registration RegTimer s) (\<lambda>(_, s).
       Inr ((), s\<lparr>qualityCheck := kOasisLiteQualityCheck_Ok\<rparr>)))))"

definition oasis_start_deregistration :: "'d oasis_env \<Rightarrow> ('w, 'd, unit) oas_op" where
  "oasis_start_deregistration E s =
    (if run_flag s = OASIS_RUN_FLAG_STOP then Inr ((), s)
     else rbind (oasis_timers_stop E s) (\<lambda>(_, s).
       let s = oasis_lite_dev_notify_result E (s\<lparr>res := zero_result\<lparr>res_state := kOASISLiteState_DeRegistration\<rparr>\<rparr>) in
       rbind (start_timer E DETECT_FACE_TIMER Cb_noface_detected DetFaceTimer s) (\<lambda>(_, s).
       rbind (start_timer E DEREGISTERING_TIMER Cb_deregistration DeregTimer s) (\<lambda>(_, s).
       Inr ((), s\<lparr>qualityCheck := kOasisLiteQualityCheck_Ok, run_flag := OASIS_DET_REC_DEREG\<rparr>)))))"

text \<open>True is \<open>kOasis_Success\<close>.\<close>

definition oasis_start :: "'d oasis_env \<Rightarrow> ('w, 'd, bool) oas_op" where
  "oasis_start E s =
    (if s_blockingList s = 0 then
       let s = oasis_lite_dev_RequestFrame E s in
       rbind (oasis_start_recognition E (s\<lparr>run_flag := prevRunFlag s, prevRunFlag := OASIS_RUN_FLAG_STOP\<rparr>)) (\<lambda>(_, s).
       Inr (True, s))
     else Inr (False, s))"

definition oasis_stop :: "'d oasis_env \<Rightarrow> ('w, 'd, unit) oas_op" where
  "oasis_stop E s =
    rbind (oasis_timers_stop E s) (\<lambda>(_, s).
    Inr ((), oasis_lite_dev_notify_result E (s\<lparr>prevRunFlag := run_flag s, run_flag := OASIS_RUN_FLAG_STOP, res := zero_result\<rparr>)))"

definition set_blocker_bit :: "nat \<Rightarrow> ('w, 'd) oasis \<Rightarrow> ('w, 'd) oasis" where
  "set_blocker_bit n s = s\<lparr>s_blockingList := s_blockingList s OR push_bit n 1\<rparr>"

definition clear_blocker_bit :: "nat \<Rightarrow> ('w, 'd) oasis \<Rightarrow> ('w, 'd) oasis" where
  "clear_blocker_bit n s = s\<lparr>s_blockingList := s_blockingList s AND NOT (push_bit n 1)\<rparr>"

definition check_blocker_bit :: "nat \<Rightarrow> ('w, 'd) oasis \<Rightarrow> u8" where
  "check_blocker_bit n s = ucast (drop_bit n (s_blockingList s) AND 1)"

section \<open>Expired timers\<close>

definition oasis_timer_rec :: "'d oasis_env \<Rightarrow> ('w, 'd, unit) oas_op" where
  "oasis_timer_rec E s = rbind (stop_timer E DetFaceTimer s) (\<lambda>(_, s). Inr ((), s\<lparr>timer_timeout := True\<rparr>))"

definition oasis_timer_registration :: "'d oasis_env \<Rightarrow> ('w, 'd, unit) oas_op" where
  "oasis_timer_registration E s = rbind (stop_timer E DetFaceTimer s) (\<lambda>(_, s). Inr ((), s\<lparr>timer_timeout := True\<rparr>))"

definition oasis_timer_deregistration :: "'d oasis_env \<Rightarrow> ('w, 'd, unit) oas_op" where
  "oasis_timer_deregistration E s = rbind (stop_timer E DetFaceTimer s) (\<lambda>(_, s). Inr ((), s\<lparr>timer_timeout := True\<rparr>))"

definition oasis_timer_quality_check :: "('w, 'd, unit) oas_op" where
  "oasis_timer_quality_check s = Inr ((), s\<lparr>timerTimeoutQualityCheck := True\<rparr>)"

definition oasis_timer_noface_detected :: "'d oasis_env \<Rightarrow> ('w, 'd, unit) oas_op" where
  "oasis_timer_noface_detected E s = rbind (oasis_timers_stop E s) (\<lambda>(_, s). Inr ((), s\<lparr>timer_timeout := True\<rparr>))"

text \<open>The status of the low-power manager's answer is not looked at.\<close>

definition oasis_timer_result :: "'d oasis_env \<Rightarrow> ('w, 'd, unit) oas_op" where
  "oasis_timer_result E s =
    (if res_state (res s) = kOASISLiteState_Recognition then
       rbind (on_cfg HAL_OutputDev_SmartLockConfig_GetSleepMode s) (\<lambda>(md, s).
       if md = kLPMManagerStatus_SleepEnable then
         rbind (on_lpm (FWK_LpmManager_RequestStatus (lpm_ops E)) s) (\<lambda>((_, total), s).
         if total = 0 then
           rbind (on_lpm (FWK_LpmManager_EnableSleepMode (lpm_ops E) kLPMManagerStatus_SleepEnable) s) (\<lambda>(_, s).
           Inr ((), s\<lparr>run_flag := OASIS_RUN_FLAG_NUM\<rparr>))
         else oasis_start_recognition E s)
       else oasis_start_recognition E s)
     else oasis_start_recognition E s)"

fun oasis_callback :: "'d oasis_env \<Rightarrow> oasis_cb \<Rightarrow> ('w, 'd, unit) oas_op" where
  "oasis_callback E Cb_noface_detected s = oasis_timer_noface_detected E s"
| "oasis_callback E Cb_registration s = oasis_timer_registration E s"
| "oasis_callback E Cb_deregistration s = oasis_timer_deregistration E s"
| "oasis_callback E Cb_rec s = oasis_timer_rec E s"
| "oasis_callback E Cb_result s = oasis_timer_result E s"
| "oasis_callback E Cb_quality_check s = oasis_timer_quality_check s"

definition oasis_expire :: "'d oasis_env \<Rightarrow> nat \<Rightarrow> ('w, 'd, unit) oas_op" where
  "oasis_expire E = rtos_expire (rtos E) timers (\<lambda>T s. s\<lparr>timers := T\<rparr>) (oasis_callback E)"

end
