(* ===== verification/Oasis_Run.thy ===== *)
theory Oasis_Run
  imports Oasis_Lite
begin

text \<open>
  One frame of the recognition engine: the callbacks of the library
  (\<open>_oasis_lite_EvtCb\<close> and the operations on the face database), the run of the library through them, the
  timeout, the decision on the result, and the start of the engine. All from
  \<open>hal_vision_algo_oasis_lite2D.c\<close>.
\<close>

section \<open>Events of the library\<close>

definition upd_res :: "(oasis_result \<Rightarrow> oasis_result) \<Rightarrow> ('w, 'd) oasis \<Rightarrow> ('w, 'd) oasis" where
  "upd_res f s = s\<lparr>res := f (res s)\<rparr>"

definition upd_debug :: "(oasis_lite_debug_t \<Rightarrow> oasis_lite_debug_t) \<Rightarrow> ('w, 'd) oasis \<Rightarrow> ('w, 'd) oasis" where
  "upd_debug f = upd_res (\<lambda>r. r\<lparr>debug_info := f (debug_info r)\<rparr>)"

text \<open>The name of a face: NULL, or the characters the pointer into the table leads to.\<close>

definition face_name_of :: "u16 \<Rightarrow> ('w, 'd, u8 list option) oas_op" where
  "face_name_of fid s =
    rbind (on_fdb (HAL_Facedb_GetName fid) s) (\<lambda>(p, s).
    case p of None \<Rightarrow> Inr (None, s)
    | Some off \<Rightarrow> rbind (face_db (fdb s)) (\<lambda>db. rbind (c_text (drop off db)) (\<lambda>name. Inr (Some name, s))))"

text \<open>\<open>strcpy\<close> to the name of the result.\<close>

definition copy_name :: "u8 list \<Rightarrow> ('w, 'd, unit) oas_op" where
  "copy_name name s =
    rbind (store_at 0 (name @ [0]) (res_name (res s))) (\<lambda>buf. Inr ((), upd_res (\<lambda>r. r\<lparr>res_name := buf\<rparr>) s))"

definition copy_face_name :: "u16 \<Rightarrow> ('w, 'd, unit) oas_op" where
  "copy_face_name fid s =
    rbind (face_name_of fid s) (\<lambda>(name, s). case name of None \<Rightarrow> Inl MemFault | Some name \<Rightarrow> copy_name name s)"

definition detection_complete :: "oasis_cb_para \<Rightarrow> ('w, 'd, unit) oas_op" where
  "detection_complete para s =
    Inr ((), upd_res (\<lambda>r. case faceBoxRGB para of
        None \<Rightarrow> r\<lparr>res_face_id := - 1, face_count := 0\<rparr>
      | Some b \<Rightarrow> r\<lparr>res_face_id := - 1, face_count := 1, face_box := b\<rparr>) s)"

definition quality_of :: "u8 \<Rightarrow> quality_check" where
  "quality_of q =
    (if q = OASIS_QUALITY_RESULT_FACE_ORIENTATION_UNMATCH then kOasisLiteQualityCheck_SideFace
     else if q = OASIS_QUALITY_RESULT_FACE_BLUR then kOasisLiteQualityCheck_Blurry
     else if q = OASIS_QUALITY_RESULT_IR_FAKE \<or> q = OASIS_QUALITY_RESULT_RGB_FAKE then kOasisLiteQualityCheck_FakeFace
     else kOasisLiteQualityCheck_Ok)"

definition quality_debug :: "u8 \<Rightarrow> oasis_lite_debug_t \<Rightarrow> oasis_lite_debug_t" where
  "quality_debug q d =
    (if q = OASIS_QUALITY_RESULT_FACE_OK then d\<lparr>isOk := 1\<rparr>
     else if q = OASIS_QUALITY_RESULT_FACE_ORIENTATION_UNMATCH then d\<lparr>isSideFace := 1\<rparr>
     else if q = OASIS_QUALITY_RESULT_FACE_BLUR then d\<lparr>isBlurry := 1\<rparr>
     else if q = OASIS_QUALITY_RESULT_IR_FAKE then d\<lparr>irFake := 1\<rparr>
     else if q = OASIS_QUALITY_RESULT_RGB_FAKE then d\<lparr>rgbFake := 1\<rparr> else d)"

definition quality_complete :: "'d oasis_env \<Rightarrow> oasis_cb_para \<Rightarrow> ('w, 'd, unit) oas_op" where
  "quality_complete E para s =
    (let s = upd_debug (\<lambda>d. quality_debug (qualityResult para)
               (d\<lparr>irBrightness := ucast (reserved para 10), rgbBrightness := ucast (reserved para 12)\<rparr>)) s;
         q = quality_of (qualityResult para) in
     if q \<noteq> qualityCheck s then
       rbind (stop_timer E QualityCheckTimer (s\<lparr>qualityCheck := q\<rparr>)) (\<lambda>(_, s).
       if q \<noteq> kOasisLiteQualityCheck_Ok then start_timer E QUALITY_CHECK_TIMER Cb_quality_check QualityCheckTimer s
       else Inr ((), s))
     else Inr ((), s))"

definition recognition_complete :: "oasis_cb_para \<Rightarrow> ('w, 'd, unit) oas_op" where
  "recognition_complete para s =
    (let debug = upd_debug (\<lambda>d. d\<lparr>sim := reserved para 0, dbg_faceID := ucast (faceID para)\<rparr>) in
     if recResult para = OASIS_REC_RESULT_KNOWN_FACE then
       let s = debug (upd_res (\<lambda>r. r\<lparr>res_result := kOASISLiteRecognitionResult_Success, face_recognized := True,
             res_face_id := uint (faceID para)\<rparr>) s) in
       rbind (face_name_of (faceID para) s) (\<lambda>(name, s).
       copy_name (case name of Some n \<Rightarrow> n | None \<Rightarrow> default_name (faceID para)) s)
     else if recResult para = OASIS_REC_RESULT_UNKNOWN_FACE then
       Inr ((), debug (upd_res (\<lambda>r. r\<lparr>res_result := kOASISLiteRecognitionResult_Unknown, face_recognized := True,
         res_face_id := - 1\<rparr>) s))
     else Inr ((), upd_res (\<lambda>r. r\<lparr>res_result := kOASISLiteRecognitionResult_Invalid, face_recognized := False,
         res_face_id := - 1\<rparr>) s))"

text \<open>The identifier is unsigned, so the test that it is not negative always holds.\<close>

definition registration_complete :: "oasis_cb_para \<Rightarrow> ('w, 'd, unit) oas_op" where
  "registration_complete para s =
    (if regResult para = OASIS_REG_RESULT_OK then
       copy_face_name (faceID para)
         (upd_res (\<lambda>r. r\<lparr>res_result := kOASISLiteRegistrationResult_Success, res_face_id := uint (faceID para)\<rparr>) s)
     else if regResult para = OASIS_REG_RESULT_DUP then
       copy_face_name (faceID para)
         (upd_res (\<lambda>r. r\<lparr>res_result := kOASISLiteRegistrationResult_Duplicated, res_face_id := uint (faceID para)\<rparr>) s)
     else Inr ((), upd_res (\<lambda>r. r\<lparr>res_result := kOASISLiteRegistrationResult_Invalid, res_face_id := - 1\<rparr>) s))"

fun oasis_lite_EvtCb :: "'d oasis_env \<Rightarrow> oasis_evt \<Rightarrow> oasis_cb_para \<Rightarrow> ('w, 'd, unit) oas_op" where
  "oasis_lite_EvtCb E OASISLT_EVT_DET_START para s = Inr ((), upd_debug (\<lambda>_. zero_debug\<lparr>dbg_faceID := 0xFFFF\<rparr>) s)"
| "oasis_lite_EvtCb E OASISLT_EVT_DET_COMPLETE para s = detection_complete para s"
| "oasis_lite_EvtCb E OASISLT_EVT_QUALITY_CHK_COMPLETE para s = quality_complete E para s"
| "oasis_lite_EvtCb E OASISLT_EVT_REC_COMPLETE para s = recognition_complete para s"
| "oasis_lite_EvtCb E OASISLT_EVT_REG_COMPLETE para s = registration_complete para s"
| "oasis_lite_EvtCb E OASISLT_EVT_DEREG_START para s =
     Inr ((), upd_res (\<lambda>r. r\<lparr>res_face_id := - 1, res_result := kOASISLiteDeregistrationResult_Invalid\<rparr>) s)"
| "oasis_lite_EvtCb E OASISLT_EVT_DEREG_COMPLETE para s =
     Inr ((), if deregResult para = OASIS_DEREG_RESULT_OK
              then upd_res (\<lambda>r. r\<lparr>res_result := kOASISLiteDeregistrationResult_Success\<rparr>) s else s)"
| "oasis_lite_EvtCb E _ para s = Inr ((), s)"

section \<open>The database for the library\<close>

definition oasis_lite_GetFaces ::
    "u16 list option \<Rightarrow> nat option list option \<Rightarrow> u32 \<Rightarrow> ('w, 'd, oasis_answer) oas_op" where
  "oasis_lite_GetFaces ids faces num s =
    (let dbCount = HAL_Facedb_GetCount (fdb s) in
     if num = 0 then Inr (Faces 0 ids faces (word_of_int dbCount) (s_FaceDB (fdb s)), s)
     else rbind (on_fdb (HAL_Facedb_GetIdsAndFaces ids faces) s) (\<lambda>((_, ids, faces), s).
       Inr (Faces 0 ids faces num (s_FaceDB (fdb s)), s)))"

text \<open>The answer is zero on every path.\<close>

definition oasis_lite_DeleteFace :: "u16 \<Rightarrow> ('w, 'd, oasis_answer) oas_op" where
  "oasis_lite_DeleteFace fid s =
    (if fid \<noteq> INVALID_ID then
       rbind (if res_state (res s) = kOASISLiteState_DeRegistration then copy_face_name fid s else Inr ((), s)) (\<lambda>(_, s).
       rbind (on_fdb (HAL_Facedb_DelFaceWithID fid) s) (\<lambda>(_, s). Inr (Answer 0, s)))
     else Inr (Answer 0, s))"

text \<open>The characters of the name that waits for the next face.\<close>

definition reference_name :: "('w, 'd) oasis \<Rightarrow> u8 list option outcome" where
  "reference_name s = (case s_UserNameReference s of
     Name_NULL \<Rightarrow> Inr None
   | Name_Buffer \<Rightarrow> rbind (c_text (s_UserName s)) (\<lambda>n. Inr (Some n))
   | Name_Block b \<Rightarrow> rbind (c_text b) (\<lambda>n. Inr (Some n)))"

definition oasis_lite_AddFace :: "'d oasis_env \<Rightarrow> u8 list option \<Rightarrow> ('w, 'd, oasis_answer) oas_op" where
  "oasis_lite_AddFace E faceData s =
    (let faceItemSize = sint (OASISLT_getFaceItemSize E) in
     rbind (on_fdb (HAL_Facedb_GenId (Some 0)) s) (\<lambda>((status, newFaceId), s).
     if status = kFaceDBStatus_Success \<and> the newFaceId \<noteq> INVALID_ID then
       rbind (reference_name s) (\<lambda>name.
       rbind (on_fdb (HAL_Facedb_AddFace (the newFaceId) name faceData faceItemSize) s) (\<lambda>(status, s).
       if status = kFaceDBStatus_Success then Inr (Added 0 newFaceId, s\<lparr>s_UserNameReference := Name_NULL\<rparr>)
       else Inr (Added (- 1) newFaceId, s)))
     else Inr (Added (- 1) None, s)))"

definition oasis_lite_UpdateFace :: "'d oasis_env \<Rightarrow> u16 \<Rightarrow> u8 list option \<Rightarrow> ('w, 'd, oasis_answer) oas_op" where
  "oasis_lite_UpdateFace E fid faceData s =
    rbind (face_name_of fid s) (\<lambda>(name, s).
    rbind (on_fdb (HAL_Facedb_UpdateFace fid name faceData (sint (OASISLT_getFaceItemSize E))) s) (\<lambda>(ret, s).
    Inr (Answer ret, s)))"

text \<open>Only the camera exposure is driven; the infrared camera or the colour one.\<close>

definition oasis_lite_AdjustBrightness :: "'d oasis_env \<Rightarrow> u8 \<Rightarrow> u8 \<Rightarrow> ('w, 'd, unit) oas_op" where
  "oasis_lite_AdjustBrightness E frameIdx direction s =
    Inr ((), oasis_lite_dev_camera_exposure_control E (frameIdx = OASISLT_INT_FRAME_IDX_IR, direction) s)"

section \<open>A run of the library\<close>

fun serve_call :: "'d oasis_env \<Rightarrow> oasis_call \<Rightarrow> ('w, 'd, oasis_answer) oas_op" where
  "serve_call E (EvtCb evt para) s = rbind (oasis_lite_EvtCb E evt para s) (\<lambda>(_, s). Inr (Nothing, s))"
| "serve_call E (GetFaces ids faces num) s = oasis_lite_GetFaces ids faces num s"
| "serve_call E (AddFace faceData) s = oasis_lite_AddFace E faceData s"
| "serve_call E (UpdateFace fid faceData) s = oasis_lite_UpdateFace E fid faceData s"
| "serve_call E (DeleteFace fid) s = oasis_lite_DeleteFace fid s"
| "serve_call E (AdjustBrightness i d) s = rbind (oasis_lite_AdjustBrightness E i d s) (\<lambda>(_, s). Inr (Nothing, s))"

text \<open>The calls are kept in a list, which no code reads.\<close>

primrec run_lib :: "'d oasis_env \<Rightarrow> 'r oasis_lib \<Rightarrow> ('w, 'd, 'r) oas_op" where
  "run_lib E (Return r) = (\<lambda>s. Inr (r, s))"
| "run_lib E (Call c k) = (\<lambda>s. rbind (serve_call E c s) (\<lambda>(a, s). run_lib E (k a) (s\<lparr>lib_log := lib_log s @ [c]\<rparr>)))"

section \<open>The decision\<close>

definition oasis_lite_check_timeout :: "('w, 'd) oasis \<Rightarrow> ('w, 'd) oasis" where
  "oasis_lite_check_timeout s =
    (case res_state (res s) of
       kOASISLiteState_Recognition \<Rightarrow>
         if res_result (res s) = kOASISLiteRecognitionResult_Success then s\<lparr>timer_timeout := False\<rparr>
         else if timer_timeout s then
           s\<lparr>res := (res s)\<lparr>res_result := kOASISLiteRecognitionResult_Timeout\<rparr>, timer_timeout := False\<rparr>
         else s
     | kOASISLiteState_Registration \<Rightarrow>
         if res_result (res s) = kOASISLiteRegistrationResult_Success \<or>
            res_result (res s) = kOASISLiteRegistrationResult_Duplicated then s\<lparr>timer_timeout := False\<rparr>
         else if timer_timeout s then
           s\<lparr>res := zero_result\<lparr>res_state := kOASISLiteState_Registration, res_result := kOASISLiteRegistrationResult_Timeout\<rparr>,
             timer_timeout := False\<rparr>
         else s
     | kOASISLiteState_DeRegistration \<Rightarrow>
         if res_result (res s) = kOASISLiteDeregistrationResult_Success then s\<lparr>timer_timeout := False\<rparr>
         else if timer_timeout s then
           s\<lparr>res := zero_result\<lparr>res_state := kOASISLiteState_DeRegistration, res_result := kOASISLiteDeregistrationResult_Timeout\<rparr>,
             timer_timeout := False\<rparr>
         else s
     | _ \<Rightarrow> s)"

text \<open>A face in the picture gives the detection timer its full time again.\<close>

definition face_seen :: "'d oasis_env \<Rightarrow> ('w, 'd, unit) oas_op" where
  "face_seen E s =
    (if slot (timers s) DetFaceTimer \<noteq> None \<and> face_count (res s) = 1
     then rbind (on_tm (FWK_Timer_Reset (rtos E) DetFaceTimer) s) (\<lambda>(_, s). Inr ((), s)) else Inr ((), s))"

definition put_process :: "oasis_slot \<Rightarrow> ('w, 'd, unit) oas_op" where
  "put_process sl s =
    (if slot (timers s) sl = None then Inr ((), upd_res (\<lambda>r. r\<lparr>process := 0\<rparr>) s)
     else rbind (FWK_Timer_GetRemainingTime sl (timers s)) (\<lambda>t. Inr ((), upd_res (\<lambda>r. r\<lparr>process := t\<rparr>) s)))"

definition lock_decision :: "'d oasis_env \<Rightarrow> ('w, 'd, bool) oas_op" where
  "lock_decision E s =
    (case res_state (res s) of
       kOASISLiteState_Recognition \<Rightarrow>
         if oasis_mode s = kOASISLiteMode_SmartLock then
           rbind (face_seen E s) (\<lambda>(_, s).
           Inr (res_result (res s) = kOASISLiteRecognitionResult_Success \<or>
                res_result (res s) = kOASISLiteRecognitionResult_Timeout, s))
         else Inr (False, s)
     | kOASISLiteState_Registration \<Rightarrow>
         rbind (face_seen E s) (\<lambda>(_, s).
         rbind (put_process RegTimer s) (\<lambda>(_, s).
         Inr (kOASISLiteRegistrationResult_Invalid < res_result (res s), s)))
     | kOASISLiteState_DeRegistration \<Rightarrow>
         rbind (face_seen E s) (\<lambda>(_, s).
         rbind (put_process DeregTimer s) (\<lambda>(_, s).
         Inr (kOASISLiteDeregistrationResult_Invalid < res_result (res s), s)))
     | _ \<Rightarrow> Inr (False, s))"

definition process_inference_result :: "'d oasis_env \<Rightarrow> ('w, 'd, unit) oas_op" where
  "process_inference_result E s =
    (if \<not> has_dev s then Inr ((), s)
     else
       rbind (lock_decision E s) (\<lambda>(lockOasis, s).
       let s = oasis_lite_dev_notify_result E s in
       if lockOasis then
         rbind (oasis_timers_stop E (s\<lparr>run_flag := OASIS_RUN_FLAG_NUM\<rparr>)) (\<lambda>(_, s).
         start_timer E RESULT_TIMER Cb_result ResultTimer s)
       else Inr ((), s)))"

section \<open>A frame\<close>

datatype hal_valgo_status = kStatus_HAL_ValgoSuccess | kStatus_HAL_ValgoMallocError | kStatus_HAL_ValgoInitError
  | kStatus_HAL_ValgoError | kStatus_HAL_ValgoStop

definition state_of_flag :: "run_flag \<Rightarrow> oasis_lite_state_t" where
  "state_of_flag f = (case f of OASIS_DET_REC_REG \<Rightarrow> kOASISLiteState_Registration
     | OASIS_DET_REC_DEREG \<Rightarrow> kOASISLiteState_DeRegistration | _ \<Rightarrow> kOASISLiteState_Recognition)"

definition advertise_quality :: "('w, 'd) oasis \<Rightarrow> ('w, 'd) oasis" where
  "advertise_quality s =
    (if timerTimeoutQualityCheck s \<or> slot (timers s) QualityCheckTimer = None
     then s\<lparr>timerTimeoutQualityCheck := False, res := (res s)\<lparr>res_quality := qualityCheck s\<rparr>,
            qualityCheck := kOasisLiteQualityCheck_Ok\<rparr>
     else s)"

definition HAL_VisionAlgoDev_OasisLite_Run :: "'d oasis_env \<Rightarrow> ('w, 'd, hal_valgo_status) oas_op" where
  "HAL_VisionAlgoDev_OasisLite_Run E s =
    rbind (if run_flag s \<noteq> OASIS_RUN_FLAG_NUM \<and> run_flag s \<noteq> OASIS_RUN_FLAG_STOP then
        let n = lib_calls s; flag = run_flag s;
            s = s\<lparr>res := zero_result\<lparr>res_state := state_of_flag flag\<rparr>, lib_calls := n + 1, lib_log := []\<rparr> in
        rbind (run_lib E (OASISLT_run_extend E n flag) s) (\<lambda>(_, s).
        process_inference_result E (oasis_lite_check_timeout (advertise_quality s)))
      else Inr ((), s)) (\<lambda>(_, s).
    Inr (if run_flag s = OASIS_RUN_FLAG_STOP then kStatus_HAL_ValgoStop else kStatus_HAL_ValgoSuccess, s))"

section \<open>Start and end of the engine\<close>

text \<open>The static variables after registration; the static buffers keep their zeros.\<close>

definition HAL_VisionAlgo_OasisLite2D_Register :: "u8 \<Rightarrow> ('w, 'd) oasis \<Rightarrow> ('w, 'd) oasis" where
  "HAL_VisionAlgo_OasisLite2D_Register md s =
    s\<lparr>run_flag := OASIS_DET_ONLY, prevRunFlag := OASIS_DET_ONLY, res := zero_result, timers := (timers s)\<lparr>slot := Map.empty\<rparr>,
      timer_timeout := False, timerTimeoutQualityCheck := False, qualityCheck := kOasisLiteQualityCheck_Ok,
      has_dev := False, oasis_mode := md, recogTH := None\<rparr>"

text \<open>A block of the heap, by size; the contents do not matter.\<close>

definition take_block :: "'d oasis_env \<Rightarrow> nat \<Rightarrow> ('w, 'd) oasis \<Rightarrow> u8 list option \<times> ('w, 'd) oasis" where
  "take_block E n s = (heap_block (os E) (os_calls s) n, s\<lparr>os_calls := os_calls s + 1\<rparr>)"

definition OASIS_INIT_INVALID_MEMORYPOOL :: int where [simp]: "OASIS_INIT_INVALID_MEMORYPOOL = 7"

text \<open>The library says how much memory it needs and is initialised again with it; without the memory the
  code waits in an empty loop.\<close>

definition init_library :: "'d oasis_env \<Rightarrow> ('w, 'd, int) oas_op" where
  "init_library E s =
    (let n = lib_calls s; (ret, sz) = OASISLT_init E n; s = s\<lparr>lib_calls := n + 1\<rparr> in
     if ret = OASIS_INIT_INVALID_MEMORYPOOL then
       case take_block E (unat sz) s of
         (None, s) \<Rightarrow> Inl Livelock
       | (Some _, s) \<Rightarrow> Inr (fst (OASISLT_init E (n + 1)), s\<lparr>lib_calls := n + 2\<rparr>)
     else Inr (ret, s))"

text \<open>The threshold of the settings, the library, the face database, and the first recognition.\<close>

definition load_threshold :: "('w, 'd, unit) oas_op" where
  "load_threshold s =
    rbind (on_cfg HAL_OutputDev_SmartLockConfig_GetFaceRecThreshold s) (\<lambda>((ret, th), s).
    Inr ((), s\<lparr>recogTH := (case th of
        Some v \<Rightarrow> if ret = kSLNConfigStatus_Success \<and> MINIMUM_FACE_REC_THRESHOLD \<le> v \<and> v \<le> MAXIMUM_FACE_REC_THRESHOLD
                  then Some v else None
      | None \<Rightarrow> None)\<rparr>))"

definition init_engine :: "'d oasis_env \<Rightarrow> ('w, 'd, hal_valgo_status) oas_op" where
  "init_engine E s =
    rbind (load_threshold (s\<lparr>run_flag := OASIS_DET_REC, prevRunFlag := OASIS_RUN_FLAG_NUM\<rparr>)) (\<lambda>(_, s).
    rbind (init_library E s) (\<lambda>(oasisRet, s).
    if oasisRet \<noteq> 0 then Inr (kStatus_HAL_ValgoInitError, s)
    else rbind (on_fdb (HAL_Facedb_Init (os E) (ucast (OASISLT_getFaceItemSize E))) s) (\<lambda>(st, s).
      if st \<noteq> kFaceDBStatus_Success then Inr (kStatus_HAL_ValgoInitError, s)
      else rbind (oasis_start_recognition E s) (\<lambda>(_, s). Inr (kStatus_HAL_ValgoSuccess, s)))))"

definition HAL_VisionAlgoDev_OasisLite_Init :: "nat \<Rightarrow> nat \<Rightarrow> 'd oasis_env \<Rightarrow> ('w, 'd, hal_valgo_status) oas_op" where
  "HAL_VisionAlgoDev_OasisLite_Init rgbSize irSize E s =
    (case take_block E rgbSize (s\<lparr>has_dev := True, supported := (\<lambda>i. i = kVAlgoFrameID_RGB)\<rparr>) of
       (None, s) \<Rightarrow> Inr (kStatus_HAL_ValgoMallocError, s)
     | (Some _, s) \<Rightarrow>
     case take_block E irSize (s\<lparr>supported := (\<lambda>_. True)\<rparr>) of
       (None, s) \<Rightarrow> Inr (kStatus_HAL_ValgoMallocError, s)
     | (Some _, s) \<Rightarrow> init_engine E s)"

definition HAL_VisionAlgoDev_OasisLite_Deinit :: "('w, 'd, hal_valgo_status) oas_op" where
  "HAL_VisionAlgoDev_OasisLite_Deinit s =
    rbind (on_fdb HAL_Facedb_SaveFace s) (\<lambda>(status, s).
    if status = kFaceDBStatus_Success then
      rbind (FWK_Flash_Cleanup 400 (flash s)) (\<lambda>(_, w). Inr (kStatus_HAL_ValgoSuccess, s\<lparr>flash := w\<rparr>))
    else Inr (kStatus_HAL_ValgoError, s))"

end
