(* ===== verification/Oasis_Events.thy ===== *)
theory Oasis_Events
  imports Oasis_Run
begin

text \<open>
  The events of the recognition engine (\<open>HAL_VisionAlgoDev_OasisLite_InputNotify\<close>), and the message handler of
  \<open>sln_framework/core/fwk_vision_algo_manager.c\<close> that gives it frames and events. A step is one message, one
  expired timer, or time that passes. The member of the event a handler reads is its argument; \<open>respond\<close>
  says whether the sender gave a function for the answer.
\<close>

section \<open>Events\<close>

text \<open>
  The registration with the 31 bytes of the name when there is one; the deletion with identifier or
  name; the remote registration with flag, length and block.
\<close>

datatype oasis_event = Ev_AddUser "u8 list option" | Ev_DelUserAll | Ev_DelUser "u16 option" "u8 list option"
  | Ev_AddUserRemote bool u32 "u8 list" | Ev_SaveUserList | Ev_GetUserList | Ev_GetUserCount
  | Ev_UpdateUserInfo u32 "u8 list" | Ev_GetLPMTrigger | Ev_SetLPMTrigger u8 | Ev_RecordingStart | Ev_RecordingStop
  | Ev_OasisGetState | Ev_OasisSetState bool | Ev_Other

definition status_of :: "bool \<Rightarrow> event_status_t" where
  "status_of ok = (if ok then kEventStatus_Ok else kEventStatus_Error)"

definition add_user :: "'d oasis_env \<Rightarrow> u8 list option \<Rightarrow> ('w, 'd, unit) oas_op" where
  "add_user E name s =
    (case name of
       Some bytes \<Rightarrow>
         rbind (load_at 0 FACE_NAME_MAX_LEN bytes) (\<lambda>bytes.
         rbind (store_at 0 bytes (s_UserName s)) (\<lambda>buf.
         oasis_start_registration E (s\<lparr>s_UserName := buf, s_UserNameReference := Name_Buffer\<rparr>)))
     | None \<Rightarrow>
         let s = s\<lparr>s_UserNameReference := Name_NULL\<rparr> in
         if run_flag s = OASIS_DET_REC_REG then oasis_start_recognition E s else oasis_start_registration E s)"

definition delete_with :: "bool \<Rightarrow> ('w, int) fdb_op \<Rightarrow> ('w, 'd, unit) oas_op" where
  "delete_with respond f s =
    rbind (on_fdb f s) (\<lambda>(status, s).
    Inr ((), oasis_lite_dev_response respond Rsp_DelFace (status_of (status = kFaceDBStatus_Success)) s))"

text \<open>The name is read as a C string.\<close>

definition del_user :: "'d oasis_env \<Rightarrow> bool \<Rightarrow> u16 option \<Rightarrow> u8 list option \<Rightarrow> ('w, 'd, unit) oas_op" where
  "del_user E respond fid name s =
    (case (fid, name) of
       (Some fid, _) \<Rightarrow> delete_with respond (HAL_Facedb_DelFaceWithID fid) s
     | (None, Some name) \<Rightarrow> rbind (c_text name) (\<lambda>name. delete_with respond (HAL_Facedb_DelFaceWithName (Some name)) s)
     | (None, None) \<Rightarrow>
         if run_flag s = OASIS_DET_REC_DEREG then oasis_start_recognition E s else oasis_start_deregistration E s)"

definition lib_register :: "'d oasis_env \<Rightarrow> u8 list \<Rightarrow> u16 \<Rightarrow> ('w, 'd, u8 \<times> u16) oas_op" where
  "lib_register E feature fid s =
    run_lib E (OASISLT_registration_by_feature E (lib_calls s) feature fid) (s\<lparr>lib_calls := lib_calls s + 1\<rparr>)"

text \<open>An array of identifiers on the heap, as long as the database has faces.\<close>

definition halfwords :: "nat \<Rightarrow> u8 list \<Rightarrow> u16 list" where
  "halfwords n bs = map (\<lambda>i. de16 (drop (2 * i) bs)) [0..<n]"

definition take_ids :: "'d oasis_env \<Rightarrow> ('w, 'd) oasis \<Rightarrow> u16 list option \<times> ('w, 'd) oasis" where
  "take_ids E s =
    (let n = nat (HAL_Facedb_GetCount (fdb s)); (b, s) = take_block E (2 * n) s in (map_option (halfwords n) b, s))"

definition load_id :: "nat \<Rightarrow> u16 list option \<Rightarrow> u16 outcome" where
  "load_id i ids = (case ids of None \<Rightarrow> Inl MemFault | Some ids \<Rightarrow>
     rbind (load_at i 1 ids) (\<lambda>xs. Inr (hd xs)))"

text \<open>The faces are searched for the name; the first match is updated with the feature. The array is
  used whether or not it could be allocated.\<close>

fun reregister :: "'d oasis_env \<Rightarrow> u8 list \<Rightarrow> u8 list \<Rightarrow> u16 list option \<Rightarrow> nat \<Rightarrow> nat \<Rightarrow> ('w, 'd, u8) oas_op" where
  "reregister E name feature ids i 0 s = Inr (OASIS_REG_RESULT_INVALID, s)"
| "reregister E name feature ids i (Suc n) s =
     rbind (load_id i ids) (\<lambda>fid.
     rbind (face_name_of fid s) (\<lambda>(other, s).
     case other of None \<Rightarrow> Inl MemFault
     | Some other \<Rightarrow>
         if name = other then rbind (lib_register E feature fid s) (\<lambda>((r, _), s). Inr (r, s))
         else reregister E name feature ids (i + 1) n s))"

definition add_user_remote :: "'d oasis_env \<Rightarrow> bool \<Rightarrow> bool \<Rightarrow> u32 \<Rightarrow> u8 list \<Rightarrow> ('w, 'd, unit) oas_op" where
  "add_user_remote E respond isReRegister dataLen block s =
    (if dataLen = OASISLT_getFaceItemSize E + 32 then
       let feature = drop 32 block in
       rbind (if isReRegister then
           case take_ids E s of (ids, s) \<Rightarrow>
           rbind (on_fdb (HAL_Facedb_GetIds ids) s) (\<lambda>((_, ids), s).
           let n = nat (HAL_Facedb_GetCount (fdb s)) in
           if n = 0 then Inr (\<lparr>reg_result = OASIS_REG_RESULT_INVALID, reg_name = None\<rparr>, s)
           else rbind (c_text block) (\<lambda>name.
             rbind (reregister E name feature ids 0 n s) (\<lambda>(r, s). Inr (\<lparr>reg_result = r, reg_name = None\<rparr>, s))))
         else
           rbind (lib_register E feature INVALID_ID (s\<lparr>s_UserNameReference := Name_Block block\<rparr>)) (\<lambda>((r, fid), s).
           if r = OASIS_REG_RESULT_DUP
           then rbind (face_name_of fid s) (\<lambda>(name, s). Inr (\<lparr>reg_result = r, reg_name = name\<rparr>, s))
           else Inr (\<lparr>reg_result = r, reg_name = None\<rparr>, s))) (\<lambda>(r, s).
       Inr ((), oasis_lite_dev_response respond (Rsp_Remote r) kEventStatus_Ok s))
     else Inr ((), oasis_lite_dev_response respond
       (Rsp_Remote \<lparr>reg_result = OASIS_REG_RESULT_INVALID, reg_name = None\<rparr>) kEventStatus_Error s))"

definition save_user_list :: "bool \<Rightarrow> ('w, 'd, unit) oas_op" where
  "save_user_list respond s =
    (if HAL_Facedb_GetSaveStatus INVALID_ID (fdb s)
     then Inr ((), oasis_lite_dev_response respond Rsp_Event kEventStatus_Ok s)
     else rbind (on_fdb HAL_Facedb_SaveFace s) (\<lambda>(ret, s).
       Inr ((), oasis_lite_dev_response respond Rsp_Event (status_of (ret = kFaceDBStatus_Success)) s)))"

text \<open>The 32 bytes behind the name pointer are copied.\<close>

fun user_infos :: "u16 list option \<Rightarrow> nat \<Rightarrow> nat \<Rightarrow> ('w, 'd, (u16 \<times> bool \<times> u8 list) list) oas_op" where
  "user_infos ids i 0 s = Inr ([], s)"
| "user_infos ids i (Suc n) s =
     rbind (load_id i ids) (\<lambda>fid.
     rbind (on_fdb (HAL_Facedb_GetName fid) s) (\<lambda>(p, s).
     case p of None \<Rightarrow> Inl MemFault
     | Some off \<Rightarrow>
         rbind (face_db (fdb s)) (\<lambda>db.
         rbind (load_at off 32 db) (\<lambda>name.
         rbind (user_infos ids (i + 1) n s) (\<lambda>(infos, s).
         Inr ((fid, HAL_Facedb_GetSaveStatus fid (fdb s), name) # infos, s))))))"

definition get_user_list :: "'d oasis_env \<Rightarrow> bool \<Rightarrow> ('w, 'd, unit) oas_op" where
  "get_user_list E respond s =
    (let n = nat (HAL_Facedb_GetCount (fdb s)) in
     case take_ids E s of
       (None, s) \<Rightarrow> Inr ((), oasis_lite_dev_response respond (Rsp_UserList []) kEventStatus_Ok s)
     | (Some ids, s) \<Rightarrow>
         case take_block E (40 * n) s of
           (None, s) \<Rightarrow> Inr ((), s)
         | (Some _, s) \<Rightarrow>
             rbind (on_fdb (HAL_Facedb_GetIds (Some ids)) s) (\<lambda>((_, ids), s).
             rbind (user_infos ids 0 n s) (\<lambda>(infos, s).
             Inr ((), oasis_lite_dev_response respond (Rsp_UserList infos) kEventStatus_Ok s))))"

definition update_user :: "bool \<Rightarrow> u32 \<Rightarrow> u8 list \<Rightarrow> ('w, 'd, unit) oas_op" where
  "update_user respond uid name s =
    rbind (c_text name) (\<lambda>name.
    rbind (on_fdb (HAL_Facedb_UpdateName (ucast uid) (Some name)) s) (\<lambda>(status, s).
    Inr ((), oasis_lite_dev_response respond Rsp_UpdateFace (status_of (status = kFaceDBStatus_Success)) s)))"

text \<open>The timers are started whether or not they run.\<close>

definition set_lpm_trigger :: "'d oasis_env \<Rightarrow> bool \<Rightarrow> u8 \<Rightarrow> ('w, 'd, unit) oas_op" where
  "set_lpm_trigger E respond md s =
    (if md = kLPMManagerStatus_SleepEnable then
       rbind (if run_flag s = OASIS_DET_REC then
           rbind (start_timer E RECOGNITION_TIMER Cb_rec RecTimer s) (\<lambda>(_, s).
           start_timer E DETECT_FACE_TIMER Cb_noface_detected DetFaceTimer s)
         else Inr ((), s)) (\<lambda>(_, s).
       rbind (on_cfg (HAL_OutputDev_SmartLockConfig_SetSleepMode kLPMManagerStatus_SleepEnable) s) (\<lambda>(_, s).
       Inr ((), oasis_lite_dev_response respond (Rsp_Lpm md) kEventStatus_Ok s)))
     else if md = kLPMManagerStatus_SleepDisable then
       rbind (stop_timer E RecTimer s) (\<lambda>(_, s).
       rbind (stop_timer E DetFaceTimer s) (\<lambda>(_, s).
       rbind (on_lpm (FWK_LpmManager_EnableSleepMode (lpm_ops E) kLPMManagerStatus_SleepDisable) s) (\<lambda>(_, s).
       rbind (on_cfg (HAL_OutputDev_SmartLockConfig_SetSleepMode kLPMManagerStatus_SleepDisable) s) (\<lambda>(_, s).
       Inr ((), oasis_lite_dev_response respond (Rsp_Lpm md) kEventStatus_Ok s)))))
     else Inr ((), oasis_lite_dev_response respond (Rsp_Lpm md) kEventStatus_WrongParam s))"

definition kOasisBlockingList_UserInput :: nat where [simp]: "kOasisBlockingList_UserInput = 1"
definition kOasisBlockingList_Record :: nat where [simp]: "kOasisBlockingList_Record = 2"

definition recording_start :: "'d oasis_env \<Rightarrow> ('w, 'd, unit) oas_op" where
  "recording_start E s =
    (let s = set_blocker_bit kOasisBlockingList_Record s in
     if run_flag s \<noteq> OASIS_RUN_FLAG_STOP then oasis_stop E s else Inr ((), s))"

definition recording_stop :: "'d oasis_env \<Rightarrow> ('w, 'd, unit) oas_op" where
  "recording_stop E s =
    (let s = clear_blocker_bit kOasisBlockingList_Record s in
     if prevRunFlag s \<noteq> OASIS_RUN_FLAG_STOP then rbind (oasis_start E s) (\<lambda>(_, s). Inr ((), s)) else Inr ((), s))"

text \<open>The argument says whether the engine shall stop; so does the state in the answer.\<close>

definition oasis_set_state :: "'d oasis_env \<Rightarrow> bool \<Rightarrow> bool \<Rightarrow> ('w, 'd, unit) oas_op" where
  "oasis_set_state E respond stop s =
    (if stop then
       let s = set_blocker_bit kOasisBlockingList_UserInput s in
       if run_flag s \<noteq> OASIS_RUN_FLAG_STOP then
         rbind (oasis_stop E s) (\<lambda>(_, s). Inr ((), oasis_lite_dev_response respond (Rsp_Stopped True) kEventStatus_Ok s))
       else Inr ((), oasis_lite_dev_response respond (Rsp_Stopped True) kEventStatus_Error s)
     else if run_flag s = OASIS_RUN_FLAG_STOP then
       rbind (oasis_start E (clear_blocker_bit kOasisBlockingList_UserInput s)) (\<lambda>(ok, s).
       Inr ((), oasis_lite_dev_response respond (Rsp_Stopped (\<not> ok)) (status_of ok) s))
     else Inr ((), oasis_lite_dev_response respond (Rsp_Stopped False) kEventStatus_Error s))"

fun HAL_VisionAlgoDev_OasisLite_InputNotify :: "'d oasis_env \<Rightarrow> bool \<Rightarrow> oasis_event \<Rightarrow> ('w, 'd, unit) oas_op" where
  "HAL_VisionAlgoDev_OasisLite_InputNotify E respond (Ev_AddUser name) s = add_user E name s"
| "HAL_VisionAlgoDev_OasisLite_InputNotify E respond Ev_DelUserAll s =
     delete_with respond (HAL_Facedb_DelFaceWithID INVALID_ID) s"
| "HAL_VisionAlgoDev_OasisLite_InputNotify E respond (Ev_DelUser fid name) s = del_user E respond fid name s"
| "HAL_VisionAlgoDev_OasisLite_InputNotify E respond (Ev_AddUserRemote re len block) s =
     add_user_remote E respond re len block s"
| "HAL_VisionAlgoDev_OasisLite_InputNotify E respond Ev_SaveUserList s = save_user_list respond s"
| "HAL_VisionAlgoDev_OasisLite_InputNotify E respond Ev_GetUserList s = get_user_list E respond s"
| "HAL_VisionAlgoDev_OasisLite_InputNotify E respond Ev_GetUserCount s =
     Inr ((), oasis_lite_dev_response respond (Rsp_Count (HAL_Facedb_GetCount (fdb s))) kEventStatus_Ok s)"
| "HAL_VisionAlgoDev_OasisLite_InputNotify E respond (Ev_UpdateUserInfo uid name) s = update_user respond uid name s"
| "HAL_VisionAlgoDev_OasisLite_InputNotify E respond Ev_GetLPMTrigger s =
     rbind (on_cfg HAL_OutputDev_SmartLockConfig_GetSleepMode s) (\<lambda>(md, s).
     Inr ((), oasis_lite_dev_response respond (Rsp_Lpm md) kEventStatus_Ok s))"
| "HAL_VisionAlgoDev_OasisLite_InputNotify E respond (Ev_SetLPMTrigger md) s = set_lpm_trigger E respond md s"
| "HAL_VisionAlgoDev_OasisLite_InputNotify E respond Ev_RecordingStart s = recording_start E s"
| "HAL_VisionAlgoDev_OasisLite_InputNotify E respond Ev_RecordingStop s = recording_stop E s"
| "HAL_VisionAlgoDev_OasisLite_InputNotify E respond Ev_OasisGetState s =
     Inr ((), oasis_lite_dev_response respond (Rsp_Stopped (run_flag s = OASIS_RUN_FLAG_STOP)) kEventStatus_Ok s)"
| "HAL_VisionAlgoDev_OasisLite_InputNotify E respond (Ev_OasisSetState stop) s = oasis_set_state E respond stop s"
| "HAL_VisionAlgoDev_OasisLite_InputNotify E respond Ev_Other s = Inr ((), s)"

section \<open>The manager's messages\<close>

text \<open>A frame has arrived. The engine runs when all supported frames are there, and asks for the next
  ones unless it has stopped; whether the camera takes the requests is not looked at.\<close>

definition all_ready :: "('w, 'd) oasis \<Rightarrow> bool" where
  "all_ready s \<longleftrightarrow> (\<forall>i\<in>{kVAlgoFrameID_RGB, kVAlgoFrameID_IR}. supported s i \<longrightarrow> frameReady s i)"

definition response_frame :: "'d oasis_env \<Rightarrow> frame_id \<Rightarrow> ('w, 'd, unit) oas_op" where
  "response_frame E i s =
    (let s = s\<lparr>frameReady := (frameReady s)(i := True), in_flight := (in_flight s)(i := in_flight s i - 1)\<rparr> in
     if all_ready s then
       rbind (HAL_VisionAlgoDev_OasisLite_Run E s) (\<lambda>(status, s).
       let s = s\<lparr>frameReady := (\<lambda>i. frameReady s i \<and> \<not> supported s i)\<rparr> in
       Inr ((), if status = kStatus_HAL_ValgoSuccess then oasis_lite_dev_RequestFrame E s else s))
     else Inr ((), s))"

text \<open>At the start of the task: the engine is initialised and the first frames are asked for.\<close>

definition VisionAlgoManager_TaskInit :: "nat \<Rightarrow> nat \<Rightarrow> 'd oasis_env \<Rightarrow> ('w, 'd, bool) oas_op" where
  "VisionAlgoManager_TaskInit rgbSize irSize E s =
    rbind (HAL_VisionAlgoDev_OasisLite_Init rgbSize irSize E s) (\<lambda>(ret, s).
    if ret \<noteq> kStatus_HAL_ValgoSuccess then Inr (False, s) else Inr (True, oasis_lite_dev_RequestFrame E s))"

datatype oasis_step = Frame frame_id | Input bool oasis_event | PreSleep | Expire nat | Tick nat

fun oasis_do :: "'d oasis_env \<Rightarrow> oasis_step \<Rightarrow> ('w, 'd, unit) oas_op" where
  "oasis_do E (Frame i) s = (if in_flight s i = 0 then Inr ((), s) else response_frame E i s)"
| "oasis_do E (Input respond e) s = HAL_VisionAlgoDev_OasisLite_InputNotify E respond e s"
| "oasis_do E PreSleep s = rbind (HAL_VisionAlgoDev_OasisLite_Deinit s) (\<lambda>(_, s). Inr ((), s))"
| "oasis_do E (Expire h) s = oasis_expire E h s"
| "oasis_do E (Tick n) s = Inr ((), s\<lparr>timers := (timers s)\<lparr>ticks := ticks (timers s) + n\<rparr>\<rparr>)"

end
