(* ===== verification/Oasis_Inv.thy ===== *)
theory Oasis_Inv
  imports Oasis_Events
begin

text \<open>
  The invariant of the recognition engine, kept by every step whatever the library, the operating system
  and the flash do: the engine is stopped exactly while something blocks it, a stopped engine has no
  timer and knows what to go back to, and a running engine waits for frames it has asked for (which the camera's
  queue may have refused). Below the events
  nothing touches what the invariant speaks of, apart from the timers: the predicate \<open>frame_kept\<close> is
  carried through the operations by their shape.
\<close>

section \<open>Operations below the events\<close>

definition stopped :: "('w, 'd) oasis \<Rightarrow> bool" where
  "stopped s \<longleftrightarrow> run_flag s = OASIS_RUN_FLAG_STOP"

definition view :: "('w, 'd) oasis \<Rightarrow> u16 \<times> (frame_id \<Rightarrow> bool) \<times> (frame_id \<Rightarrow> nat) \<times> (frame_id \<Rightarrow> bool) \<times> (frame_id \<Rightarrow> bool) \<times> run_flag \<times> bool" where
  "view s = (s_blockingList s, supported s, in_flight s, refused s, frameReady s, prevRunFlag s, stopped s)"

text \<open>Only the result timer's slot holds a timer that shows the end of a result, and not in a stopped engine.\<close>

definition timers_ok :: "bool \<Rightarrow> (oasis_slot, oasis_cb) timers \<Rightarrow> bool" where
  "timers_ok st T \<longleftrightarrow> timers_wf T \<and> (\<forall>sl t. slot T sl = Some t \<longrightarrow> func t = Cb_result \<longrightarrow> sl = ResultTimer \<and> \<not> st)"

definition frame_kept :: "u16 \<times> (frame_id \<Rightarrow> bool) \<times> (frame_id \<Rightarrow> nat) \<times> (frame_id \<Rightarrow> bool) \<times> (frame_id \<Rightarrow> bool) \<times> run_flag \<times> bool \<Rightarrow> ('w, 'd) oasis \<Rightarrow> bool" where
  "frame_kept v s \<longleftrightarrow> timers_ok (stopped s) (timers s) \<and> view s = v"

lemma frame_kept_upd [simp]:
  "frame_kept v (s\<lparr>res := x1\<rparr>) = frame_kept v s" "frame_kept v (s\<lparr>timer_timeout := x2\<rparr>) = frame_kept v s"
  "frame_kept v (s\<lparr>timerTimeoutQualityCheck := x3\<rparr>) = frame_kept v s" "frame_kept v (s\<lparr>qualityCheck := x4\<rparr>) = frame_kept v s"
  "frame_kept v (s\<lparr>s_UserName := x5\<rparr>) = frame_kept v s" "frame_kept v (s\<lparr>s_UserNameReference := x6\<rparr>) = frame_kept v s"
  "frame_kept v (s\<lparr>fdb := x7\<rparr>) = frame_kept v s" "frame_kept v (s\<lparr>cfg := x8\<rparr>) = frame_kept v s"
  "frame_kept v (s\<lparr>flash := x9\<rparr>) = frame_kept v s" "frame_kept v (s\<lparr>lpm := x10\<rparr>) = frame_kept v s"
  "frame_kept v (s\<lparr>results := x11\<rparr>) = frame_kept v s" "frame_kept v (s\<lparr>responses := x12\<rparr>) = frame_kept v s"
  "frame_kept v (s\<lparr>cam_events := x13\<rparr>) = frame_kept v s" "frame_kept v (s\<lparr>msg_count := x14\<rparr>) = frame_kept v s"
  "frame_kept v (s\<lparr>os_calls := x15\<rparr>) = frame_kept v s" "frame_kept v (s\<lparr>lib_calls := x16\<rparr>) = frame_kept v s"
  "frame_kept v (s\<lparr>lib_log := x17\<rparr>) = frame_kept v s"
  by (simp_all add: frame_kept_def view_def stopped_def)

lemma frame_kept_helpers [simp]:
  "frame_kept v (upd_res f s) = frame_kept v s" "frame_kept v (upd_debug g s) = frame_kept v s"
  "frame_kept v (oasis_lite_dev_notify_result E s) = frame_kept v s"
  "frame_kept v (oasis_lite_dev_response b rsp st s) = frame_kept v s"
  "frame_kept v (oasis_lite_dev_camera_exposure_control E e s) = frame_kept v s"
  "frame_kept v (advertise_quality s) = frame_kept v s"
  by (simp_all add: upd_res_def upd_debug_def oasis_lite_dev_notify_result_def oasis_lite_dev_response_def
      oasis_lite_dev_camera_exposure_control_def advertise_quality_def)

lemma frame_kept_check [simp]: "frame_kept v (oasis_lite_check_timeout s) = frame_kept v s"
  by (auto simp: oasis_lite_check_timeout_def split: oasis_lite_state_t.split)

lemma frame_kept_flag: "frame_kept v s \<Longrightarrow> \<not> stopped s \<Longrightarrow> f \<noteq> OASIS_RUN_FLAG_STOP \<Longrightarrow> frame_kept v (s\<lparr>run_flag := f\<rparr>)"
  by (auto simp: frame_kept_def view_def stopped_def)

lemma kept_stopped: "frame_kept v s \<Longrightarrow> frame_kept v s' \<Longrightarrow> stopped s' = stopped s"
  by (auto simp: frame_kept_def view_def)

lemma take_block_kept: "take_block E n s = (b, s') \<Longrightarrow> frame_kept v s' = frame_kept v s"
  by (auto simp: take_block_def)

lemma always_part:
  assumes "frame_kept v s"
  shows "always (frame_kept v) (on_fdb f s)" and "always (frame_kept v) (on_cfg g s)" and "always (frame_kept v) (on_lpm h s)"
  using assms by (auto simp: on_fdb_def on_cfg_def on_lpm_def always_def rbind_Inr_iff)

lemma always_tm:
  assumes "frame_kept v s" and "\<And>r T'. f (timers s) = Inr (r, T') \<Longrightarrow> timers_ok (stopped s) T'"
  shows "always (frame_kept v) (on_tm f s)"
  using assms by (auto simp: on_tm_def always_def rbind_Inr_iff frame_kept_def view_def stopped_def)

lemma always_seq: "always P m \<Longrightarrow> (\<And>r s. P s \<Longrightarrow> always P (f r s)) \<Longrightarrow> always P (rbind m (\<lambda>(r, s). f r s))"
  by (rule always_rbind)

lemma start_slots:
  "FWK_Timer_Start R ms reload f sl T = Inr (r, T') \<Longrightarrow>
    slot T' = (slot T)(sl := None) \<or> (\<exists>t. slot T' = (slot T)(sl \<mapsto> t) \<and> func t = f)"
  by (auto simp: FWK_Timer_Start_def Let_def split: if_splits)

definition start_allowed :: "oasis_cb \<Rightarrow> oasis_slot \<Rightarrow> bool \<Rightarrow> bool" where
  "start_allowed f sl st \<longleftrightarrow> (f = Cb_result \<longrightarrow> sl = ResultTimer \<and> \<not> st)"

lemma start_allowed_simps [simp]: "f \<noteq> Cb_result \<Longrightarrow> start_allowed f sl st" "start_allowed Cb_result ResultTimer False"
  by (simp_all add: start_allowed_def)

lemma start_timer_kept:
  assumes "frame_kept v s" and "start_allowed f sl (stopped s)"
  shows "always (frame_kept v) (start_timer E ms f sl s)"
proof -
  have "timers_ok (stopped s) T'" if "FWK_Timer_Start (rtos E) ms False f sl (timers s) = Inr (r, T')" for r T'
    using start_wf [OF _ that] start_slots [OF that] assms
    by (auto simp: frame_kept_def timers_ok_def start_allowed_def split: if_splits)
  then show ?thesis unfolding start_timer_def using assms(1) by (intro always_seq [OF always_tm] always_Inr) auto
qed

lemma stop_timer_kept:
  assumes "frame_kept v s"
  shows "always (frame_kept v) (stop_timer E sl s)"
proof -
  have "timers_ok (stopped s) T'" if "FWK_Timer_Stop (rtos E) sl (timers s) = Inr (r, T')" for r T'
    using stop_wf [OF _ that] assms by (auto simp: frame_kept_def timers_ok_def split: if_splits)
  then show ?thesis unfolding stop_timer_def using assms by (intro always_if always_Inr always_seq [OF always_tm]) auto
qed

lemma timers_stop_kept: "frame_kept v s \<Longrightarrow> always (frame_kept v) (oasis_timers_stop E s)"
  unfolding oasis_timers_stop_def
  by (intro always_seq [OF stop_timer_kept] stop_timer_kept) simp_all

lemma start_recognition_kept:
  assumes "frame_kept v s"
  shows "always (frame_kept v) (oasis_start_recognition E s)"
proof (cases "stopped s")
  case True
  then show ?thesis using assms by (simp add: oasis_start_recognition_def stopped_def always_Inr)
next
  case False
  have flag: "frame_kept v s' \<Longrightarrow> frame_kept v (s'\<lparr>run_flag := OASIS_DET_REC\<rparr>)" for s' :: "('a, 'b) oasis"
    using assms False by (intro frame_kept_flag) (auto simp: frame_kept_def view_def)
  show ?thesis using False unfolding oasis_start_recognition_def Let_def stopped_def
    by (simp, intro always_seq [OF timers_stop_kept] always_seq [OF start_timer_kept] start_timer_kept) (simp_all add: assms flag)
qed

lemma start_registration_kept:
  assumes "frame_kept v s"
  shows "always (frame_kept v) (oasis_start_registration E s)"
proof (cases "stopped s")
  case True
  then show ?thesis using assms by (simp add: oasis_start_registration_def stopped_def always_Inr)
next
  case False
  have flag: "frame_kept v s' \<Longrightarrow> frame_kept v (s'\<lparr>run_flag := OASIS_DET_REC_REG\<rparr>)" for s' :: "('a, 'b) oasis"
    using assms False by (intro frame_kept_flag) (auto simp: frame_kept_def view_def)
  show ?thesis using False unfolding oasis_start_registration_def Let_def stopped_def
    by (simp, intro always_seq [OF timers_stop_kept] always_seq [OF start_timer_kept] always_Inr) (simp_all add: assms flag)
qed

lemma start_deregistration_kept:
  assumes "frame_kept v s"
  shows "always (frame_kept v) (oasis_start_deregistration E s)"
proof (cases "stopped s")
  case True
  then show ?thesis using assms by (simp add: oasis_start_deregistration_def stopped_def always_Inr)
next
  case False
  have flag: "frame_kept v s' \<Longrightarrow> frame_kept v (s'\<lparr>run_flag := OASIS_DET_REC_DEREG\<rparr>)" for s' :: "('a, 'b) oasis"
    using assms False by (intro frame_kept_flag) (auto simp: frame_kept_def view_def)
  show ?thesis using False unfolding oasis_start_deregistration_def Let_def stopped_def
    by (simp, intro always_seq [OF timers_stop_kept] always_seq [OF start_timer_kept] always_Inr) (simp_all add: assms flag)
qed

section \<open>The library\<close>

lemma always_pure: "(\<And>x. always Q (f x)) \<Longrightarrow> always Q (rbind m f)"
  by (cases m) (auto simp: always_def)

lemma name_kept: "frame_kept v s \<Longrightarrow> always (frame_kept v) (face_name_of fid s)"
  unfolding face_name_of_def
  by (intro always_seq [OF always_part(1)] always_case_option always_pure always_Inr)

lemma copy_kept: "frame_kept v s \<Longrightarrow> always (frame_kept v) (copy_name n s)"
  unfolding copy_name_def by (intro always_pure always_Inr) simp

lemma copy_face_kept: "frame_kept v s \<Longrightarrow> always (frame_kept v) (copy_face_name fid s)"
  unfolding copy_face_name_def by (intro always_seq [OF name_kept] always_case_option always_Inl copy_kept)

lemma quality_kept: "frame_kept v s \<Longrightarrow> always (frame_kept v) (quality_complete E para s)"
  unfolding quality_complete_def Let_def
  by (intro always_if always_seq [OF stop_timer_kept] start_timer_kept always_Inr) simp_all

lemma recognition_kept: "frame_kept v s \<Longrightarrow> always (frame_kept v) (recognition_complete para s)"
  unfolding recognition_complete_def Let_def
  by (intro always_if always_seq [OF name_kept] copy_kept always_Inr) simp_all

lemma registration_kept: "frame_kept v s \<Longrightarrow> always (frame_kept v) (registration_complete para s)"
  unfolding registration_complete_def by (intro always_if copy_face_kept always_Inr) simp_all

lemma EvtCb_kept: "frame_kept v s \<Longrightarrow> always (frame_kept v) (oasis_lite_EvtCb E evt para s)"
  by (cases evt) (auto simp: detection_complete_def intro!: quality_kept recognition_kept registration_kept always_Inr)

lemma call_kept:
  assumes "frame_kept v s"
  shows "always (frame_kept v) (serve_call E c s)"
proof (cases c)
  case (EvtCb evt para)
  then show ?thesis using assms by (auto intro!: always_seq [OF EvtCb_kept] always_Inr)
next
  case (GetFaces ids faces num)
  then show ?thesis using assms
    by (auto simp: oasis_lite_GetFaces_def Let_def intro!: always_if always_Inr always_seq [OF always_part(1)])
next
  case (AddFace faceData)
  show ?thesis unfolding AddFace serve_call.simps oasis_lite_AddFace_def Let_def
    by (intro always_seq [OF always_part(1)] always_case_prod_app always_if always_pure always_Inr; simp add: assms)
next
  case (UpdateFace fid faceData)
  then show ?thesis using assms
    by (auto simp: oasis_lite_UpdateFace_def intro!: always_seq [OF name_kept] always_seq [OF always_part(1)] always_Inr)
next
  case (DeleteFace fid)
  then show ?thesis using assms
    by (auto simp: oasis_lite_DeleteFace_def intro!: always_if always_seq [where P = "frame_kept v"] copy_face_kept always_part(1) always_Inr)
next
  case (AdjustBrightness i d)
  then show ?thesis using assms by (simp add: oasis_lite_AdjustBrightness_def always_Inr)
qed

lemma lib_kept: "frame_kept v s \<Longrightarrow> always (frame_kept v) (run_lib E t s)"
proof (induction t arbitrary: s)
  case (Call c k)
  show ?case by (simp, rule always_seq [OF call_kept [OF Call.prems]]) (auto intro!: Call.IH)
qed (simp add: always_Inr)

section \<open>Frames\<close>

lemma reset_slots: "FWK_Timer_Reset R sl T = Inr (r, T') \<Longrightarrow> slot T' = slot T"
  by (auto simp: FWK_Timer_Reset_def Let_def split: option.splits if_splits)

lemma seen_kept:
  assumes "frame_kept v s"
  shows "always (frame_kept v) (face_seen E s)"
proof -
  have "timers_ok (stopped s) T'" if "FWK_Timer_Reset (rtos E) DetFaceTimer (timers s) = Inr (r, T')" for r T'
    using reset_wf [OF _ that] reset_slots [OF that] assms by (auto simp: frame_kept_def timers_ok_def)
  then show ?thesis unfolding face_seen_def using assms by (intro always_if always_Inr always_seq [OF always_tm]) auto
qed

lemma process_kept: "frame_kept v s \<Longrightarrow> always (frame_kept v) (put_process sl s)"
  unfolding put_process_def by (intro always_if always_pure always_Inr) simp_all

lemma decision_kept: "frame_kept v s \<Longrightarrow> always (frame_kept v) (lock_decision E s)"
  unfolding lock_decision_def
  by (cases "res_state (res s)") (auto intro!: always_if always_seq [OF seen_kept] always_seq [OF process_kept] always_Inr)

lemma inference_kept:
  assumes "frame_kept v s" and "\<not> stopped s"
  shows "always (frame_kept v) (process_inference_result E s)"
proof -
  have "frame_kept v s' \<Longrightarrow> frame_kept v (s'\<lparr>run_flag := OASIS_RUN_FLAG_NUM\<rparr>)" for s' :: "('a, 'b) oasis"
    using assms by (intro frame_kept_flag) (auto simp: frame_kept_def view_def)
  moreover have allowed: "start_allowed Cb_result ResultTimer (stopped s')" if "frame_kept v s'" for s' :: "('a, 'b) oasis"
    using kept_stopped [OF assms(1) that] assms(2) by simp
  ultimately show ?thesis using assms(1) unfolding process_inference_result_def Let_def
    using allowed by (auto intro!: always_if always_seq [OF decision_kept] always_seq [OF timers_stop_kept] start_timer_kept always_Inr)
qed

lemma run_kept:
  assumes "frame_kept v s"
  shows "always (frame_kept v) (HAL_VisionAlgoDev_OasisLite_Run E s)"
proof (cases "stopped s")
  case True
  then show ?thesis using assms by (simp add: HAL_VisionAlgoDev_OasisLite_Run_def stopped_def always_Inr)
next
  case False
  have "always (frame_kept v) (process_inference_result E (oasis_lite_check_timeout (advertise_quality s')))"
    if "frame_kept v s'" for s' :: "('a, 'b) oasis"
  proof (rule inference_kept)
    show f: "frame_kept v (oasis_lite_check_timeout (advertise_quality s'))" using that by simp
    show "\<not> stopped (oasis_lite_check_timeout (advertise_quality s'))" using kept_stopped [OF assms f] False by simp
  qed
  then show ?thesis using assms unfolding HAL_VisionAlgoDev_OasisLite_Run_def Let_def
    by (auto intro!: always_if always_seq [where P = "frame_kept v"] lib_kept always_Inr)
qed

section \<open>Events and messages\<close>

lemma reregister_kept: "frame_kept v s \<Longrightarrow> always (frame_kept v) (reregister E name feature ids i n s)"
proof (induction n arbitrary: i s)
  case (Suc n)
  show ?case unfolding reregister.simps lib_register_def
    by (intro always_pure always_seq [OF name_kept] always_case_option always_Inl always_if always_seq [OF lib_kept]
        always_case_prod_app always_Inr Suc.IH) (simp_all add: Suc.prems)
qed (simp add: always_Inr)

lemma user_infos_kept: "frame_kept v s \<Longrightarrow> always (frame_kept v) (user_infos ids i n s)"
proof (induction n arbitrary: i s)
  case (Suc n)
  show ?case unfolding user_infos.simps
    by (intro always_pure always_seq [OF always_part(1)] always_case_option always_Inl always_seq [OF Suc.IH] always_Inr)
      (simp_all add: Suc.prems)
qed (simp add: always_Inr)

lemma take_ids_kept: "take_ids E s = (b, s') \<Longrightarrow> frame_kept v s' = frame_kept v s"
  by (auto simp: take_ids_def take_block_def Let_def)

lemma remote_kept:
  assumes "frame_kept v s"
  shows "always (frame_kept v) (add_user_remote E respond re len block s)"
  unfolding add_user_remote_def Let_def lib_register_def
  by (intro always_if always_seq [where P = "frame_kept v"] always_Inr always_case_prod always_part(1) always_case_prod_app
      always_pure reregister_kept lib_kept name_kept; simp add: assms take_ids_kept)

lemma user_list_kept:
  assumes "frame_kept v s"
  shows "always (frame_kept v) (get_user_list E respond s)"
  unfolding get_user_list_def Let_def
  by (intro always_case_prod always_case_option always_Inr always_seq [OF always_part(1)] always_case_prod_app
      always_seq [OF user_infos_kept]; simp add: assms take_ids_kept take_block_kept)

lemma trigger_kept:
  assumes "frame_kept v s"
  shows "always (frame_kept v) (set_lpm_trigger E respond md s)"
  unfolding set_lpm_trigger_def
  by (intro always_if always_seq [where P = "frame_kept v"] start_timer_kept stop_timer_kept always_part always_Inr; simp add: assms)

text \<open>The events that leave the blockers and the stop alone.\<close>

fun plain_event :: "oasis_event \<Rightarrow> bool" where
  "plain_event Ev_RecordingStart = False"
| "plain_event Ev_RecordingStop = False"
| "plain_event (Ev_OasisSetState _) = False"
| "plain_event _ = True"

lemma delete_kept: "frame_kept v s \<Longrightarrow> always (frame_kept v) (delete_with respond f s)"
  unfolding delete_with_def by (intro always_seq [OF always_part(1)] always_Inr) simp_all

lemma plain_kept:
  assumes "frame_kept v s" and "plain_event e"
  shows "always (frame_kept v) (HAL_VisionAlgoDev_OasisLite_InputNotify E respond e s)"
proof (cases e)
  case (Ev_AddUser name)
  then show ?thesis using assms(1)
    by (cases name) (auto simp: add_user_def Let_def intro!: always_pure start_recognition_kept start_registration_kept)
next
  case (Ev_DelUser fid name)
  then show ?thesis using assms(1)
    by (auto simp: del_user_def intro!: always_pure delete_kept start_recognition_kept start_deregistration_kept split: option.split)
next
  case Ev_SaveUserList
  then show ?thesis using assms(1)
    by (auto simp: save_user_list_def intro!: always_if always_Inr always_seq [OF always_part(1)])
next
  case (Ev_UpdateUserInfo uid name)
  show ?thesis unfolding Ev_UpdateUserInfo HAL_VisionAlgoDev_OasisLite_InputNotify.simps update_user_def
    by (intro always_pure always_seq [OF always_part(1)] always_Inr) (simp_all add: assms)
next
  case Ev_GetLPMTrigger
  then show ?thesis using assms(1) by (auto intro!: always_Inr always_seq [OF always_part(2)])
qed (use assms in \<open>auto intro!: delete_kept remote_kept user_list_kept trigger_kept always_Inr\<close>)

section \<open>The invariant\<close>

fun good_view :: "u16 \<times> (frame_id \<Rightarrow> bool) \<times> (frame_id \<Rightarrow> nat) \<times> (frame_id \<Rightarrow> bool) \<times> (frame_id \<Rightarrow> bool) \<times> run_flag \<times> bool \<Rightarrow> bool" where
  "good_view (blocked, su, fl, lost, ready, prev, st) \<longleftrightarrow>
     st = (blocked \<noteq> 0) \<and> (st \<longrightarrow> prev \<noteq> OASIS_RUN_FLAG_STOP) \<and> (\<exists>i. su i \<and> \<not> ready i) \<and>
     (\<not> st \<longrightarrow> (\<forall>i. su i \<longrightarrow> 0 < fl i \<or> lost i \<or> ready i))"

definition engine_ok :: "('w, 'd) oasis \<Rightarrow> bool" where
  "engine_ok s \<longleftrightarrow> timers_ok (stopped s) (timers s) \<and> good_view (view s)"

lemma engine_okI: "frame_kept v s \<Longrightarrow> good_view v \<Longrightarrow> engine_ok s"
  by (simp add: engine_ok_def frame_kept_def)

lemma engine_okD: "engine_ok s \<Longrightarrow> frame_kept (view s) s"
  by (simp add: engine_ok_def frame_kept_def)

lemma always_engine: "good_view v \<Longrightarrow> always (frame_kept v) m \<Longrightarrow> always engine_ok m"
  by (auto simp: always_def intro: engine_okI)

lemma all_frames: "(\<exists>i. P (i :: frame_id)) \<longleftrightarrow> P kVAlgoFrameID_RGB \<or> P kVAlgoFrameID_IR"
  by (metis frame_id.exhaust)

lemma all_ready_iff: "all_ready s \<longleftrightarrow> \<not> (\<exists>i. supported s i \<and> \<not> frameReady s i)"
  unfolding all_ready_def all_frames by auto

lemma stop_timer_runs:
  assumes "timers_wf (timers s)" and "stop_timer E sl s = Inr (r, s')"
  shows "\<exists>T. s' = s\<lparr>timers := T\<rparr> \<and> timers_wf T \<and> slot T = (slot (timers s))(sl := None)"
proof (cases "slot (timers s) sl")
  case None
  then have "s' = s\<lparr>timers := timers s\<rparr>" using assms(2) by (simp add: stop_timer_def)
  then show ?thesis using assms(1) None by (intro exI [of _ "timers s"]) (simp add: fun_upd_idem)
next
  case (Some t)
  then show ?thesis using assms(2) stop_wf [OF assms(1)] by (auto simp: stop_timer_def on_tm_def rbind_Inr_iff)
qed

text \<open>After all timers are stopped every slot is empty; nothing else has changed.\<close>

lemma timers_stop_runs:
  assumes "timers_wf (timers s)" and "oasis_timers_stop E s = Inr (r, s')"
  shows "\<exists>q T. s' = s\<lparr>qualityCheck := q, timers := T\<rparr> \<and> timers_wf T \<and> slot T = Map.empty"
proof -
  obtain s1 s2 s3 s4 s5 where st: "stop_timer E RegTimer s = Inr ((), s1)" "stop_timer E DetFaceTimer s1 = Inr ((), s2)"
    "stop_timer E DeregTimer s2 = Inr ((), s3)" "stop_timer E RecTimer s3 = Inr ((), s4)" "stop_timer E ResultTimer s4 = Inr ((), s5)"
    "stop_timer E QualityCheckTimer (if slot (timers s5) QualityCheckTimer = None then s5
      else s5\<lparr>qualityCheck := kOasisLiteQualityCheck_Ok\<rparr>) = Inr (r, s')"
    using assms(2) by (auto simp: oasis_timers_stop_def rbind_Inr_iff)
  from stop_timer_runs [OF assms(1) st(1)] obtain T1 where
    s1: "s1 = s\<lparr>timers := T1\<rparr>" "timers_wf T1" "slot T1 = (slot (timers s))(RegTimer := None)" by blast
  then obtain T2 where s2: "s2 = s\<lparr>timers := T2\<rparr>" "timers_wf T2" "slot T2 = (slot T1)(DetFaceTimer := None)"
    using stop_timer_runs [OF _ st(2)] by auto
  then obtain T3 where s3: "s3 = s\<lparr>timers := T3\<rparr>" "timers_wf T3" "slot T3 = (slot T2)(DeregTimer := None)"
    using stop_timer_runs [OF _ st(3)] by auto
  then obtain T4 where s4: "s4 = s\<lparr>timers := T4\<rparr>" "timers_wf T4" "slot T4 = (slot T3)(RecTimer := None)"
    using stop_timer_runs [OF _ st(4)] by auto
  then obtain T5 where s5: "s5 = s\<lparr>timers := T5\<rparr>" "timers_wf T5" "slot T5 = (slot T4)(ResultTimer := None)"
    using stop_timer_runs [OF _ st(5)] by auto
  have q: "s\<lparr>timers := T\<rparr> = s\<lparr>qualityCheck := qualityCheck s, timers := T\<rparr>" for T by (cases s) simp
  obtain T q where T: "s' = s\<lparr>qualityCheck := q, timers := T\<rparr>" "timers_wf T" "slot T = (slot T5)(QualityCheckTimer := None)"
  proof (cases "slot (timers s5) QualityCheckTimer = None")
    case True
    then obtain T where "s' = s\<lparr>timers := T\<rparr>" "timers_wf T" "slot T = (slot T5)(QualityCheckTimer := None)"
      using stop_timer_runs [OF _ st(6)] s5 by auto
    then show ?thesis using that [of T "qualityCheck s"] q [of T] by metis
  next
    case False
    then obtain T where "s' = s5\<lparr>qualityCheck := kOasisLiteQualityCheck_Ok, timers := T\<rparr>" "timers_wf T"
      "slot T = (slot T5)(QualityCheckTimer := None)"
      using stop_timer_runs [OF _ st(6)] s5(1,2) by auto
    moreover have "s\<lparr>timers := T5, qualityCheck := q, timers := T\<rparr> = s\<lparr>qualityCheck := q, timers := T\<rparr>" for T q by (cases s) simp
    ultimately show ?thesis using that [of T kOasisLiteQualityCheck_Ok] s5(1) by auto
  qed
  have "slot T sl = None" for sl using T(3) s5(3) s4(3) s3(3) s2(3) s1(3) by (cases sl) simp_all
  then show ?thesis using T(1,2) by auto
qed

lemma ok_wf: "engine_ok s \<Longrightarrow> timers_wf (timers s)"
  by (simp add: engine_ok_def timers_ok_def)

lemma view_simps [simp]:
  "view (oasis_lite_dev_notify_result E s) = view s" "timers (oasis_lite_dev_notify_result E s) = timers s"
  "stopped (oasis_lite_dev_notify_result E s) = stopped s" "view (oasis_lite_dev_response b r st s) = view s"
  "timers (oasis_lite_dev_response b r st s) = timers s" "stopped (oasis_lite_dev_response b r st s) = stopped s"
  by (simp_all add: oasis_lite_dev_notify_result_def oasis_lite_dev_response_def view_def stopped_def)

lemma ok_response [simp]: "engine_ok (oasis_lite_dev_response b r st s) = engine_ok s"
  by (simp add: engine_ok_def)

text \<open>To stop a running engine after something has blocked it.\<close>

lemma stop_ok:
  assumes "timers_wf (timers s)" and "good_view (0, supported s, in_flight s, refused s, frameReady s, prevRunFlag s, False)"
    and "\<not> stopped s" and "s_blockingList s \<noteq> 0"
  shows "always engine_ok (oasis_stop E s)"
proof -
  have "engine_ok (oasis_lite_dev_notify_result E (s'\<lparr>prevRunFlag := run_flag s', run_flag := OASIS_RUN_FLAG_STOP, res := zero_result\<rparr>))"
    if "oasis_timers_stop E s = Inr (r, s')" for r s'
    using timers_stop_runs [OF assms(1) that] assms(2-4)
    by (auto simp: engine_ok_def timers_ok_def view_def stopped_def oasis_lite_dev_notify_result_def)
  then show ?thesis by (auto simp: oasis_stop_def always_def rbind_Inr_iff)
qed

lemma start_ok:
  assumes "timers_ok (stopped s) (timers s)" and "prevRunFlag s \<noteq> OASIS_RUN_FLAG_STOP"
    and "\<exists>i. supported s i \<and> \<not> frameReady s i" and "s_blockingList s = 0"
  shows "always engine_ok (oasis_start E s)"
proof -
  let ?s = "(oasis_lite_dev_RequestFrame E s)\<lparr>run_flag := prevRunFlag (oasis_lite_dev_RequestFrame E s), prevRunFlag := OASIS_RUN_FLAG_STOP\<rparr>"
  have "timers_ok False (timers ?s)" using assms(1) by (auto simp: timers_ok_def)
  moreover have v: "view ?s = (0, supported s, in_flight ?s, refused ?s, frameReady s, OASIS_RUN_FLAG_STOP, False)"
    using assms(2,4) by (simp add: view_def stopped_def)
  moreover have "\<not> stopped ?s" using v by (simp add: view_def)
  ultimately have "frame_kept (view ?s) ?s" by (simp add: frame_kept_def)
  moreover have "\<forall>i. supported s i \<longrightarrow> 0 < in_flight ?s i \<or> refused ?s i" using request_asks [of s _ E] by simp
  then have "good_view (view ?s)" unfolding v using assms(3) by auto
  ultimately have "always engine_ok (oasis_start_recognition E ?s)" using always_engine start_recognition_kept by blast
  then show ?thesis using assms(4) by (auto simp: oasis_start_def Let_def intro!: always_rbind always_Inr)
qed

lemma start_refused: "s_blockingList s \<noteq> 0 \<Longrightarrow> oasis_start E s = Inr (False, s)"
  by (simp add: oasis_start_def)

lemma set_bit_nonzero: "n < 16 \<Longrightarrow> (b :: u16) OR push_bit n 1 \<noteq> 0"
proof
  assume n: "n < 16" and "b OR push_bit n 1 = 0"
  then have "bit (b OR push_bit n 1) n = bit (0 :: u16) n" by simp
  then show False using n by (simp add: bit_simps)
qed

lemma recording_start_ok:
  assumes "engine_ok s"
  shows "always engine_ok (recording_start E s)"
proof -
  have "always engine_ok (oasis_stop E (set_blocker_bit 2 s))" if "\<not> stopped s"
    by (rule stop_ok) (use assms that set_bit_nonzero [of 2 "s_blockingList s"] in \<open>auto simp: engine_ok_def timers_ok_def view_def set_blocker_bit_def stopped_def\<close>)
  moreover have "engine_ok (set_blocker_bit 2 s)" if "stopped s"
    using assms that set_bit_nonzero [of 2 "s_blockingList s"] by (auto simp: engine_ok_def view_def stopped_def set_blocker_bit_def)
  ultimately show ?thesis by (auto simp: recording_start_def Let_def stopped_def set_blocker_bit_def intro: always_Inr)
qed

lemma recording_stop_ok:
  assumes "engine_ok s"
  shows "always engine_ok (recording_stop E s)"
proof (cases "s_blockingList (clear_blocker_bit 2 s) = 0 \<and> prevRunFlag s \<noteq> OASIS_RUN_FLAG_STOP")
  case True
  have "always engine_ok (oasis_start E (clear_blocker_bit 2 s))"
    by (rule start_ok) (use assms True in \<open>auto simp: engine_ok_def view_def clear_blocker_bit_def stopped_def\<close>)
  then show ?thesis using True
    by (auto simp: recording_stop_def Let_def clear_blocker_bit_def intro!: always_seq [where P = engine_ok] always_Inr)
next
  case False
  have "engine_ok (clear_blocker_bit 2 s)"
    using assms False by (auto simp: engine_ok_def view_def clear_blocker_bit_def stopped_def)
  then show ?thesis using False
    by (auto simp: recording_stop_def Let_def start_refused clear_blocker_bit_def always_Inr)
qed

lemma set_state_ok:
  assumes "engine_ok s"
  shows "always engine_ok (oasis_set_state E respond stop s)"
proof (cases stop)
  case True
  have "always engine_ok (oasis_stop E (set_blocker_bit 1 s))" if "\<not> stopped s"
    by (rule stop_ok) (use assms that set_bit_nonzero [of 1 "s_blockingList s"] in \<open>auto simp: engine_ok_def timers_ok_def view_def set_blocker_bit_def stopped_def\<close>)
  moreover have "engine_ok (set_blocker_bit 1 s)" if "stopped s"
    using assms that set_bit_nonzero [of 1 "s_blockingList s"] by (auto simp: engine_ok_def view_def stopped_def set_blocker_bit_def)
  ultimately show ?thesis using True
    by (auto simp: oasis_set_state_def Let_def stopped_def set_blocker_bit_def intro!: always_seq [where P = engine_ok] always_Inr)
next
  case False
  show ?thesis
  proof (cases "stopped s")
    case st: True
    then have p: "prevRunFlag s \<noteq> OASIS_RUN_FLAG_STOP" using assms by (simp add: engine_ok_def view_def)
    have "always engine_ok (oasis_start E (clear_blocker_bit 1 s))"
    proof (cases "s_blockingList (clear_blocker_bit 1 s) = 0")
      case True
      then show ?thesis
        by (intro start_ok) (use assms p in \<open>auto simp: engine_ok_def view_def clear_blocker_bit_def stopped_def\<close>)
    next
      case nz: False
      have "engine_ok (clear_blocker_bit 1 s)"
        using assms nz by (auto simp: engine_ok_def view_def clear_blocker_bit_def stopped_def)
      then show ?thesis using nz by (simp add: start_refused always_Inr)
    qed
    then show ?thesis using False st
      by (auto simp: oasis_set_state_def stopped_def intro!: always_seq [where P = engine_ok] always_Inr)
  next
    case nst: False
    then show ?thesis using False assms by (simp add: oasis_set_state_def stopped_def always_Inr)
  qed
qed

section \<open>Frames, timers, steps\<close>

lemma frame_ok:
  assumes "engine_ok s" and "0 < in_flight s i"
  shows "always engine_ok (response_frame E i s)"
proof -
  let ?s = "s\<lparr>frameReady := (frameReady s)(i := True), in_flight := (in_flight s)(i := in_flight s i - 1)\<rparr>"
  have k: "frame_kept (view ?s) ?s" using assms(1) by (simp add: engine_ok_def frame_kept_def stopped_def)
  let ?next = "\<lambda>(status, s). let s = s\<lparr>frameReady := (\<lambda>i. frameReady s i \<and> \<not> supported s i)\<rparr> in
       Inr ((), if status = kStatus_HAL_ValgoSuccess then oasis_lite_dev_RequestFrame E s else s)"
  have next_ok: "engine_ok s'" if r: "HAL_VisionAlgoDev_OasisLite_Run E ?s = Inr p" and s': "?next p = Inr (u, s')" for p u s'
  proof -
    obtain status s1 where p: "p = (status, s1)" by (cases p)
    define s2 where s2: "s2 = s1\<lparr>frameReady := \<lambda>i. frameReady s1 i \<and> \<not> supported s1 i\<rparr>"
    have s2': "s' = (if status = kStatus_HAL_ValgoSuccess then oasis_lite_dev_RequestFrame E s2 else s2)"
      using s' p s2 by (auto simp: Let_def)
    note r = r [unfolded p]
    have f: "frame_kept (view ?s) s1" using run_kept [OF k] r by (auto dest: alwaysD)
    have st: "(status = kStatus_HAL_ValgoSuccess) = (\<not> stopped s1)"
      using r by (auto simp: HAL_VisionAlgoDev_OasisLite_Run_def rbind_Inr_iff stopped_def)
    have asks: "\<forall>i. supported s2 i \<longrightarrow> 0 < in_flight (oasis_lite_dev_RequestFrame E s2) i \<or> refused (oasis_lite_dev_RequestFrame E s2) i"
      using request_asks by blast
    have same: "stopped (oasis_lite_dev_RequestFrame E s2) = stopped s1" "supported s2 = supported s1"
      by (simp_all add: s2 stopped_def)
    show ?thesis
    proof (cases "stopped s1")
      case True
      then show ?thesis unfolding s2' using f assms s2 st
        by (auto simp: engine_ok_def frame_kept_def view_def stopped_def)
    next
      case False
      have w: "view s1 = view ?s" "timers_ok False (timers s1)" using f False by (simp_all add: frame_kept_def)
      have "good_view (view (oasis_lite_dev_RequestFrame E s2))"
        using asks False same w(1) assms(1) by (auto simp: view_def engine_ok_def stopped_def s2)
      then show ?thesis unfolding s2' using w(2) False st
        by (simp add: engine_ok_def same) (simp add: s2)
    qed
  qed
  show ?thesis
  proof (cases "all_ready ?s")
    case True
    have "always engine_ok (rbind (HAL_VisionAlgoDev_OasisLite_Run E ?s) ?next)"
      unfolding always_def rbind_Inr_iff using next_ok by blast
    then show ?thesis using True by (simp add: response_frame_def Let_def)
  next
    case False
    have "engine_ok ?s" using assms False unfolding all_ready_iff by (auto simp: engine_ok_def view_def stopped_def)
    then show ?thesis using False by (simp add: response_frame_def Let_def always_Inr)
  qed
qed

lemma timer_result_kept:
  assumes "frame_kept v s" and "\<not> stopped s"
  shows "always (frame_kept v) (oasis_timer_result E s)"
proof -
  have flag: "frame_kept v s' \<Longrightarrow> frame_kept v (s'\<lparr>run_flag := OASIS_RUN_FLAG_NUM\<rparr>)" for s' :: "('a, 'b) oasis"
    using assms(2) kept_stopped [OF assms(1)] by (intro frame_kept_flag) simp_all
  show ?thesis unfolding oasis_timer_result_def
    by (intro always_if always_seq [OF always_part(2)] always_seq [OF always_part(3)] always_case_prod_app always_Inr flag
        start_recognition_kept; simp add: assms)
qed

lemma callback_kept:
  assumes "frame_kept v s" and "cb = Cb_result \<Longrightarrow> \<not> stopped s"
  shows "always (frame_kept v) (oasis_callback E cb s)"
  using assms
  by (cases cb) (auto simp: oasis_timer_rec_def oasis_timer_registration_def oasis_timer_deregistration_def
      oasis_timer_noface_detected_def oasis_timer_quality_check_def
      intro!: always_seq [OF stop_timer_kept] always_seq [OF timers_stop_kept] timer_result_kept always_Inr)

lemma fire_slots:
  assumes "timers_wf T" and "rtos_fire h T = Some (sl, T')"
  shows "timers_wf T' \<and> slot T' = slot T"
proof -
  obtain r where r: "rtos_timers T h = Some r" using assms(2) by (auto simp: rtos_fire_def split: option.splits)
  then show ?thesis using assms handle_known [OF assms(1) r]
    by (auto simp: rtos_fire_def timers_wf_def split: if_splits) fastforce+
qed

lemma expire_kept:
  assumes "frame_kept v s"
  shows "always (frame_kept v) (oasis_expire E h s)"
proof (cases "rtos_fire h (timers s)")
  case None
  then show ?thesis using assms by (simp add: oasis_expire_def rtos_expire_def always_Inr)
next
  case (Some p)
  obtain sl T where p: "p = (sl, T)" by (cases p)
  let ?s = "s\<lparr>timers := T\<rparr>"
  have T: "timers_wf T" "slot T = slot (timers s)"
    using fire_slots [of "timers s" h sl T] Some p assms by (simp_all add: frame_kept_def timers_ok_def)
  then have k: "frame_kept v ?s" using assms by (auto simp: frame_kept_def timers_ok_def view_def stopped_def)
  show ?thesis
  proof (cases "slot T sl")
    case None
    then show ?thesis using Some p k by (simp add: oasis_expire_def rtos_expire_def FWK_Timer_Callback_def always_Inr)
  next
    case (Some t)
    have cb: "always (frame_kept v) (oasis_callback E (func t) ?s)"
      using k Some by (intro callback_kept) (auto simp: frame_kept_def timers_ok_def stopped_def)
    have "always (frame_kept v) (rbind (FWK_Timer_Stop (rtos E) sl (timers s')) (\<lambda>(_, T). Inr ((), s'\<lparr>timers := T\<rparr>)))"
      if s': "frame_kept v s'" for s' :: "('a, 'b) oasis"
    proof -
      have "frame_kept v (s'\<lparr>timers := T'\<rparr>)" if "FWK_Timer_Stop (rtos E) sl (timers s') = Inr (r, T')" for r T'
        using stop_wf [OF _ that] s' by (auto simp: frame_kept_def timers_ok_def view_def stopped_def split: if_splits)
      then show ?thesis by (auto simp: always_def rbind_Inr_iff)
    qed
    then show ?thesis using cb Some \<open>rtos_fire h (timers s) = Some p\<close> p
      by (auto simp: oasis_expire_def rtos_expire_def FWK_Timer_Callback_def
          intro!: always_seq [where P = "frame_kept v"] always_case_option always_if always_Inr)
  qed
qed

lemma do_ok:
  assumes "engine_ok s"
  shows "always engine_ok (oasis_do E p s)"
proof -
  have g: "good_view (view s)" using assms by (simp add: engine_ok_def)
  note k = engine_okD [OF assms]
  show ?thesis
  proof (cases p)
    case (Frame i)
    then show ?thesis using assms frame_ok [OF assms] by (auto intro: always_Inr)
  next
    case (Input respond e)
    show ?thesis
    proof (cases "plain_event e")
      case True
      show ?thesis using always_engine [OF g plain_kept [OF k True]] Input by simp
    next
      case False
      then show ?thesis using Input recording_start_ok [OF assms] recording_stop_ok [OF assms] set_state_ok [OF assms]
        by (cases e) auto
    qed
  next
    case PreSleep
    have "frame_kept v s \<Longrightarrow> always (frame_kept v) (HAL_VisionAlgoDev_OasisLite_Deinit s)" for v and s :: "('a, 'b) oasis"
      unfolding HAL_VisionAlgoDev_OasisLite_Deinit_def
      by (intro always_seq [OF always_part(1)] always_if always_pure always_Inr always_case_prod) auto
    then have "always engine_ok (HAL_VisionAlgoDev_OasisLite_Deinit s)" using always_engine [OF g] k by blast
    then show ?thesis unfolding PreSleep oasis_do.simps by (rule always_seq) (rule always_Inr)
  next
    case (Expire h)
    then show ?thesis using always_engine [OF g expire_kept [OF k]] by simp
  next
    case (Tick n)
    have "engine_ok (s\<lparr>timers := (timers s)\<lparr>ticks := ticks (timers s) + n\<rparr>\<rparr>)"
      using assms by (auto simp: engine_ok_def timers_ok_def timers_wf_def view_def stopped_def)
    then show ?thesis unfolding Tick oasis_do.simps by (rule always_Inr)
  qed
qed

interpretation engine: kept_invariant "oasis_do E" engine_ok for E
  by unfold_locales (auto dest: alwaysD [OF do_ok])

end
