(* ===== verification/Oasis_Report.thy ===== *)
theory Oasis_Report
  imports Oasis_Inv Facedb_Spec
begin

text \<open>
  What a frame shows: the result that leaves the engine is a function of the calls the recognition
  library made while it looked at the frame, in their order, and of an expired timer. The function is
  \<open>reported\<close>, one call at a time; the engine's name lookups, timers, database work and messages do not
  show in it.
\<close>

section \<open>The calls\<close>

text \<open>Result, face identifier and number of faces, the three facts of a result that others act on.\<close>

type_synonym facts = "u32 \<times> int \<times> u8"

fun reported :: "oasis_call \<Rightarrow> facts \<Rightarrow> facts" where
  "reported (EvtCb OASISLT_EVT_DET_COMPLETE para) (r, i, n) = (r, - 1, if faceBoxRGB para = None then 0 else 1)"
| "reported (EvtCb OASISLT_EVT_REC_COMPLETE para) (r, i, n) =
     (if recResult para = OASIS_REC_RESULT_KNOWN_FACE then (kOASISLiteRecognitionResult_Success, uint (faceID para), n)
      else if recResult para = OASIS_REC_RESULT_UNKNOWN_FACE then (kOASISLiteRecognitionResult_Unknown, - 1, n)
      else (kOASISLiteRecognitionResult_Invalid, - 1, n))"
| "reported (EvtCb OASISLT_EVT_REG_COMPLETE para) (r, i, n) =
     (if regResult para = OASIS_REG_RESULT_OK then (kOASISLiteRegistrationResult_Success, uint (faceID para), n)
      else if regResult para = OASIS_REG_RESULT_DUP then (kOASISLiteRegistrationResult_Duplicated, uint (faceID para), n)
      else (kOASISLiteRegistrationResult_Invalid, - 1, n))"
| "reported (EvtCb OASISLT_EVT_DEREG_START para) (r, i, n) = (kOASISLiteDeregistrationResult_Invalid, - 1, n)"
| "reported (EvtCb OASISLT_EVT_DEREG_COMPLETE para) (r, i, n) =
     (if deregResult para = OASIS_DEREG_RESULT_OK then kOASISLiteDeregistrationResult_Success else r, i, n)"
| "reported c f = f"

definition facts_of :: "oasis_result \<Rightarrow> facts" where
  "facts_of r = (res_result r, res_face_id r, face_count r)"

definition rest :: "('w, 'd) oasis \<Rightarrow> oasis_result list \<times> oasis_call list \<times> bool \<times> run_flag \<times> bool \<times> u8 \<times> oasis_lite_state_t" where
  "rest s = (results s, lib_log s, timer_timeout s, run_flag s, has_dev s, oasis_mode s, res_state (res s))"

definition same :: "facts \<Rightarrow> oasis_result list \<times> oasis_call list \<times> bool \<times> run_flag \<times> bool \<times> u8 \<times> oasis_lite_state_t \<Rightarrow> ('w, 'd) oasis \<Rightarrow> bool" where
  "same f x s \<longleftrightarrow> facts_of (res s) = f \<and> rest s = x"

lemma same_upd [simp]:
  "same f x (s\<lparr>timers := x1\<rparr>) = same f x s" "same f x (s\<lparr>timerTimeoutQualityCheck := x2\<rparr>) = same f x s"
  "same f x (s\<lparr>qualityCheck := x3\<rparr>) = same f x s" "same f x (s\<lparr>s_UserNameReference := x4\<rparr>) = same f x s"
  "same f x (s\<lparr>fdb := x5\<rparr>) = same f x s" "same f x (s\<lparr>flash := x6\<rparr>) = same f x s"
  "same f x (s\<lparr>cam_events := x7\<rparr>) = same f x s" "same f x (s\<lparr>msg_count := x8\<rparr>) = same f x s"
  "same f x (s\<lparr>lib_calls := x9\<rparr>) = same f x s"
  by (simp_all add: same_def rest_def)

lemma same_helpers [simp]:
  "same f x (upd_debug g s) = same f x s" "same f x (oasis_lite_dev_camera_exposure_control E e s) = same f x s"
  "same f x (upd_res (\<lambda>r. r\<lparr>res_name := nm\<rparr>) s) = same f x s" "same f x (upd_res (\<lambda>r. r\<lparr>process := p\<rparr>) s) = same f x s"
  "same f x (advertise_quality s) = same f x s"
  by (auto simp: same_def rest_def facts_of_def upd_debug_def upd_res_def oasis_lite_dev_camera_exposure_control_def advertise_quality_def)

lemma same_start: "same f x s \<Longrightarrow> always (same f x) (start_timer E ms cb sl s)"
  by (auto simp: start_timer_def on_tm_def always_def rbind_Inr_iff)

lemma same_stop: "same f x s \<Longrightarrow> always (same f x) (stop_timer E sl s)"
  by (auto simp: stop_timer_def on_tm_def always_def rbind_Inr_iff)

lemma same_timers_stop: "same f x s \<Longrightarrow> always (same f x) (oasis_timers_stop E s)"
  unfolding oasis_timers_stop_def by (intro always_seq [OF same_stop] same_stop) simp_all

lemma same_fdb: "same f x s \<Longrightarrow> always (same f x) (on_fdb g s)"
  by (auto simp: on_fdb_def always_def rbind_Inr_iff)

lemma same_name: "same f x s \<Longrightarrow> always (same f x) (face_name_of fid s)"
  unfolding face_name_of_def by (intro always_seq [OF same_fdb] always_case_option always_pure always_Inr)

lemma same_copy: "same f x s \<Longrightarrow> always (same f x) (copy_name n s)"
  unfolding copy_name_def by (intro always_pure always_Inr) simp

lemma same_copy_face: "same f x s \<Longrightarrow> always (same f x) (copy_face_name fid s)"
  unfolding copy_face_name_def by (intro always_seq [OF same_name] always_case_option always_Inl same_copy)

lemma same_quality: "same f x s \<Longrightarrow> always (same f x) (quality_complete E para s)"
  unfolding quality_complete_def Let_def
  by (intro always_if always_seq [OF same_stop] same_start always_Inr) simp_all

text \<open>A callback changes the three facts as \<open>reported\<close> says.\<close>

lemma evt_reported:
  assumes "same f x s"
  shows "always (same (reported (EvtCb evt para) f) x) (oasis_lite_EvtCb E evt para s)"
proof -
  obtain r i n where f: "f = (r, i, n)" by (cases f)
  have upd: "same (r', i', n) x (upd_res g s)"
    if "res_result (g (res s)) = r'" "res_face_id (g (res s)) = i'" "face_count (g (res s)) = face_count (res s)"
      "res_state (g (res s)) = res_state (res s)" for g r' i'
    using assms that by (auto simp: f same_def facts_of_def rest_def upd_res_def)
  show ?thesis
  proof (cases evt)
    case OASISLT_EVT_DET_COMPLETE
    then show ?thesis using assms
      by (auto simp: f detection_complete_def same_def facts_of_def rest_def upd_res_def always_def split: option.splits)
  next
    case OASISLT_EVT_QUALITY_CHK_COMPLETE
    then show ?thesis using same_quality [OF assms] by (simp add: f)
  next
    case OASISLT_EVT_REC_COMPLETE
    then show ?thesis
      by (auto simp: f recognition_complete_def Let_def intro!: always_seq [OF same_name] same_copy always_Inr upd)
  next
    case OASISLT_EVT_REG_COMPLETE
    then show ?thesis by (auto simp: f registration_complete_def intro!: same_copy_face always_Inr upd)
  next
    case OASISLT_EVT_DEREG_START
    then show ?thesis by (auto simp: f intro!: always_Inr upd)
  next
    case OASISLT_EVT_DEREG_COMPLETE
    then show ?thesis using assms upd [of "\<lambda>r. r\<lparr>res_result := kOASISLiteDeregistrationResult_Success\<rparr>" _ i]
      by (auto simp: f same_def facts_of_def intro!: always_Inr)
  qed (use assms in \<open>simp_all add: f always_Inr\<close>)
qed

lemma call_reported:
  assumes "same f x s"
  shows "always (same (reported c f) x) (serve_call E c s)"
proof (cases c)
  case (EvtCb evt para)
  show ?thesis unfolding EvtCb serve_call.simps
    by (rule always_seq [OF evt_reported [OF assms]]) (rule always_Inr)
next
  case (GetFaces ids faces num)
  then show ?thesis using assms
    by (auto simp: oasis_lite_GetFaces_def Let_def intro!: always_if always_Inr always_seq [OF same_fdb])
next
  case (AddFace faceData)
  then have r: "reported c f = f" by simp
  show ?thesis unfolding r unfolding AddFace serve_call.simps oasis_lite_AddFace_def Let_def
    by (intro always_seq [OF same_fdb] always_case_prod_app always_if always_pure always_Inr; simp add: assms)
next
  case (UpdateFace fid faceData)
  then show ?thesis using assms
    by (auto simp: oasis_lite_UpdateFace_def intro!: always_seq [OF same_name] always_seq [OF same_fdb] always_Inr)
next
  case (DeleteFace fid)
  then show ?thesis using assms
    by (auto simp: oasis_lite_DeleteFace_def intro!: always_if always_seq [where P = "same f x"] same_copy_face same_fdb always_Inr)
next
  case (AdjustBrightness i d)
  then show ?thesis using assms by (simp add: oasis_lite_AdjustBrightness_def always_Inr)
qed

text \<open>A run of the library changes them as the list of its calls says.\<close>

definition followed :: "facts \<Rightarrow> oasis_result list \<times> bool \<times> run_flag \<times> bool \<times> u8 \<times> oasis_lite_state_t \<Rightarrow> ('w, 'd) oasis \<Rightarrow> bool" where
  "followed f x s \<longleftrightarrow> facts_of (res s) = fold reported (lib_log s) f \<and>
     (results s, timer_timeout s, run_flag s, has_dev s, oasis_mode s, res_state (res s)) = x"

lemma lib_reported:
  fixes s :: "('w, 'd) oasis"
  shows "followed f x s \<Longrightarrow> always (followed f x) (run_lib E t s)"
proof (induction t arbitrary: s)
  case (Call c k)
  let ?same = "same (reported c (facts_of (res s))) (rest s)"
  have call: "always ?same (serve_call E c s)" by (rule call_reported) (simp add: same_def)
  have log: "followed f x (s'\<lparr>lib_log := lib_log s' @ [c]\<rparr>)" if "?same s'" for s' :: "('w, 'd) oasis"
    using that Call.prems by (auto simp: same_def followed_def rest_def)
  show ?case unfolding run_lib.simps
    by (rule always_then [OF call]) (rule Call.IH [OF rangeI log])
qed (simp add: always_Inr)

section \<open>The end of a frame\<close>

fun timed_out :: "oasis_lite_state_t \<Rightarrow> facts \<Rightarrow> facts" where
  "timed_out kOASISLiteState_Recognition (r, i, n) =
     (if r = kOASISLiteRecognitionResult_Success then r else kOASISLiteRecognitionResult_Timeout, i, n)"
| "timed_out kOASISLiteState_Registration (r, i, n) =
     (if r = kOASISLiteRegistrationResult_Success \<or> r = kOASISLiteRegistrationResult_Duplicated then (r, i, n)
      else (kOASISLiteRegistrationResult_Timeout, 0, 0))"
| "timed_out kOASISLiteState_DeRegistration (r, i, n) =
     (if r = kOASISLiteDeregistrationResult_Success then (r, i, n) else (kOASISLiteDeregistrationResult_Timeout, 0, 0))"
| "timed_out _ f = f"

text \<open>With which result the engine stops to look at frames until the result has been shown.\<close>

fun decides :: "u8 \<Rightarrow> oasis_lite_state_t \<Rightarrow> u32 \<Rightarrow> bool" where
  "decides md kOASISLiteState_Recognition r \<longleftrightarrow> md = kOASISLiteMode_SmartLock \<and>
     (r = kOASISLiteRecognitionResult_Success \<or> r = kOASISLiteRecognitionResult_Timeout)"
| "decides md kOASISLiteState_Registration r \<longleftrightarrow> kOASISLiteRegistrationResult_Invalid < r"
| "decides md kOASISLiteState_DeRegistration r \<longleftrightarrow> kOASISLiteDeregistrationResult_Invalid < r"
| "decides md _ r \<longleftrightarrow> False"

lemma same_seen: "same f x s \<Longrightarrow> always (same f x) (face_seen E s)"
  by (auto simp: face_seen_def on_tm_def always_def rbind_Inr_iff)

lemma same_process: "same f x s \<Longrightarrow> always (same f x) (put_process sl s)"
  unfolding put_process_def by (intro always_if always_pure always_Inr) simp_all

lemma decision_same:
  assumes "lock_decision E s = Inr (b, s')"
  shows "same (facts_of (res s)) (rest s) s' \<and> b = decides (oasis_mode s) (res_state (res s)) (res_result (res s))"
proof -
  let ?same = "same (facts_of (res s)) (rest s)"
  have s: "?same s" by (simp add: same_def)
  have r: "res_result (res s1) = res_result (res s)" if "?same s1" for s1 :: "('a, 'b) oasis"
    using that by (simp add: same_def facts_of_def)
  have seen: "?same s1 \<and> res_result (res s1) = res_result (res s)" if "face_seen E s = Inr (u, s1)" for u s1
    using alwaysD [OF same_seen [OF s] that] r by blast
  have counted: "?same s' \<and> b = g s'"
    if m: "rbind (face_seen E s) (\<lambda>(_, s). rbind (put_process sl s) (\<lambda>(_, s). Inr (g s, s))) = Inr (b, s')" for sl g
  proof -
    obtain u s1 v where "face_seen E s = Inr (u, s1)" "put_process sl s1 = Inr (v, s')" "b = g s'"
      using m by (auto simp: rbind_Inr_iff)
    then show ?thesis using seen same_process alwaysD by metis
  qed
  show ?thesis
  proof (cases "res_state (res s)")
    case kOASISLiteState_Recognition
    show ?thesis
    proof (cases "oasis_mode s = kOASISLiteMode_SmartLock")
      case True
      then obtain u where "face_seen E s = Inr (u, s')" "b = (res_result (res s') = kOASISLiteRecognitionResult_Success \<or>
          res_result (res s') = kOASISLiteRecognitionResult_Timeout)"
        using assms kOASISLiteState_Recognition by (auto simp: lock_decision_def rbind_Inr_iff)
      then show ?thesis using seen [of u s'] True kOASISLiteState_Recognition by simp
    next
      case False
      then show ?thesis using assms s kOASISLiteState_Recognition by (simp add: lock_decision_def)
    qed
  next
    case kOASISLiteState_Registration
    then have "?same s' \<and> b = (kOASISLiteRegistrationResult_Invalid < res_result (res s'))"
      using assms by (intro counted [of RegTimer]) (simp add: lock_decision_def)
    then show ?thesis using r [of s'] kOASISLiteState_Registration by simp
  next
    case kOASISLiteState_DeRegistration
    then have "?same s' \<and> b = (kOASISLiteDeregistrationResult_Invalid < res_result (res s'))"
      using assms by (intro counted [of DeregTimer]) (simp add: lock_decision_def)
    then show ?thesis using r [of s'] kOASISLiteState_DeRegistration by simp
  qed (use assms s in \<open>simp_all add: lock_decision_def\<close>)
qed

lemma check_facts:
  "facts_of (res (oasis_lite_check_timeout s)) =
     (if timer_timeout s then timed_out (res_state (res s)) (facts_of (res s)) else facts_of (res s))"
  "res_state (res (oasis_lite_check_timeout s)) = res_state (res s)" "results (oasis_lite_check_timeout s) = results s"
  "lib_log (oasis_lite_check_timeout s) = lib_log s" "run_flag (oasis_lite_check_timeout s) = run_flag s"
  "has_dev (oasis_lite_check_timeout s) = has_dev s" "oasis_mode (oasis_lite_check_timeout s) = oasis_mode s"
  by (auto simp: oasis_lite_check_timeout_def facts_of_def zero_result_def split: oasis_lite_state_t.split)

lemma check_clears: "res_state (res s) \<in> {kOASISLiteState_Recognition, kOASISLiteState_Registration, kOASISLiteState_DeRegistration} \<Longrightarrow>
    \<not> timer_timeout (oasis_lite_check_timeout s)"
  by (auto simp: oasis_lite_check_timeout_def)

lemma inference_shows:
  assumes "process_inference_result E s = Inr (u, t)" and "has_dev s" and "\<forall>n. message_ok E n"
  shows "\<exists>r. results t = results s @ [r] \<and> facts_of r = facts_of (res s) \<and> res_state r = res_state (res s) \<and>
    run_flag t = (if decides (oasis_mode s) (res_state r) (res_result r) then OASIS_RUN_FLAG_NUM else run_flag s) \<and>
    lib_log t = lib_log s \<and> timer_timeout t = timer_timeout s"
proof -
  obtain b s1 where d: "lock_decision E s = Inr (b, s1)" using assms(1,2)
    by (auto simp: process_inference_result_def rbind_Inr_iff)
  note k = decision_same [OF d]
  let ?s2 = "oasis_lite_dev_notify_result E s1"
  have s1: "results s1 = results s" "has_dev s1" "facts_of (res s1) = facts_of (res s)" "res_state (res s1) = res_state (res s)"
    "run_flag s1 = run_flag s" "lib_log s1 = lib_log s" "timer_timeout s1 = timer_timeout s"
    using k assms(2) by (auto simp: same_def rest_def)
  have s2: "?s2 = s1\<lparr>results := results s @ [res s1], msg_count := msg_count s1 + 1\<rparr>"
    using assms(3) s1 by (simp add: oasis_lite_dev_notify_result_def)
  have r: "res_result (res s1) = res_result (res s)" using s1(3) by (simp add: facts_of_def)
  show ?thesis
  proof (cases b)
    case True
    let ?s3 = "?s2\<lparr>run_flag := OASIS_RUN_FLAG_NUM\<rparr>"
    have s3: "same (facts_of (res ?s3)) (rest ?s3) ?s3" by (simp add: same_def)
    have "always (same (facts_of (res ?s3)) (rest ?s3)) (rbind (oasis_timers_stop E ?s3) (\<lambda>(_, s). start_timer E RESULT_TIMER Cb_result ResultTimer s))"
      by (rule always_seq [OF same_timers_stop [OF s3] same_start])
    then have "same (facts_of (res ?s3)) (rest ?s3) t" using assms(1,2) d True
      by (auto simp: process_inference_result_def Let_def always_def)
    then show ?thesis using True k s1 s2 r by (auto simp: same_def rest_def)
  next
    case False
    then have "t = ?s2" using assms(1,2) d by (simp add: process_inference_result_def Let_def)
    then show ?thesis using False k s1 s2 r by auto
  qed
qed

lemma flag_states: "state_of_flag f \<in> {kOASISLiteState_Recognition, kOASISLiteState_Registration, kOASISLiteState_DeRegistration}"
  by (cases f) (simp_all add: state_of_flag_def)

lemma frame_result:
  assumes run: "HAL_VisionAlgoDev_OasisLite_Run E s = Inr (st, t)" and "run_flag s \<notin> {OASIS_RUN_FLAG_NUM, OASIS_RUN_FLAG_STOP}"
    and dev: "has_dev s" and msg: "\<forall>n. message_ok E n"
  shows "\<exists>r. results t = results s @ [r] \<and> res_state r = state_of_flag (run_flag s) \<and>
    facts_of r = (if timer_timeout s then timed_out (state_of_flag (run_flag s)) else id) (fold reported (lib_log t) (0, 0, 0)) \<and>
    run_flag t = (if decides (oasis_mode s) (res_state r) (res_result r) then OASIS_RUN_FLAG_NUM else run_flag s) \<and>
    \<not> timer_timeout t"
proof -
  let ?s0 = "s\<lparr>res := zero_result\<lparr>res_state := state_of_flag (run_flag s)\<rparr>, lib_calls := lib_calls s + 1, lib_log := []\<rparr>"
  let ?x = "(results s, timer_timeout s, run_flag s, has_dev s, oasis_mode s, state_of_flag (run_flag s))"
  obtain r0 s1 where s1: "run_lib E (OASISLT_run_extend E (lib_calls s) (run_flag s)) ?s0 = Inr (r0, s1)"
    "process_inference_result E (oasis_lite_check_timeout (advertise_quality s1)) = Inr ((), t)"
    using run assms(2) by (auto simp: HAL_VisionAlgoDev_OasisLite_Run_def Let_def rbind_Inr_iff)
  have "followed (0, 0, 0) ?x ?s0" by (simp add: followed_def facts_of_def zero_result_def)
  then have f: "followed (0, 0, 0) ?x s1" using alwaysD [OF lib_reported s1(1)] by blast
  let ?s2 = "advertise_quality s1"
  have "same (facts_of (res s1)) (rest s1) s1" by (simp add: same_def)
  then have "same (facts_of (res s1)) (rest s1) ?s2" by simp
  then have s2: "facts_of (res ?s2) = fold reported (lib_log s1) (0, 0, 0)" "lib_log ?s2 = lib_log s1" "timer_timeout ?s2 = timer_timeout s"
      "run_flag ?s2 = run_flag s" "has_dev ?s2" "oasis_mode ?s2 = oasis_mode s" "res_state (res ?s2) = state_of_flag (run_flag s)" "results ?s2 = results s"
    using f dev by (auto simp: same_def followed_def rest_def)
  have "\<not> timer_timeout (oasis_lite_check_timeout ?s2)" using check_clears [of ?s2] flag_states [of "run_flag s"] s2(7) by simp
  then show ?thesis using inference_shows [OF s1(2)] s2 msg by (auto simp: check_facts)
qed

end
