(* ===== verification/Oasis_Modes.thy ===== *)
theory Oasis_Modes
  imports Oasis_Report
begin

text \<open>
  The engine under control: the events that start and end a registration, a deregistration, a recording
  or the engine itself, as operations on three values, which mode the engine is in, who blocks it, and
  whether it is to go on when the last blocker leaves. The code does this through its flags, timers and
  messages; \<open>modes\<close> reads the three values off a state. With mutexes for its timers the engine returns
  from every such event.
\<close>

section \<open>The specification\<close>

datatype control = Toggle_registration | Named_registration "u8 list" | Toggle_deregistration | Recording bool | Halt bool
  | Ask_state | Wait nat

type_synonym modes = "run_flag \<times> nat set \<times> bool"

definition toggled :: "run_flag \<Rightarrow> run_flag \<Rightarrow> run_flag" where
  "toggled g f = (if f = OASIS_RUN_FLAG_STOP then f else if f = g then OASIS_DET_REC else g)"

text \<open>The last blocker leaves: the engine looks for known faces, whatever it did before.\<close>

definition unblock :: "nat \<Rightarrow> modes \<Rightarrow> modes" where
  "unblock n m = (case m of (f, B, again) \<Rightarrow>
     if again \<and> B \<subseteq> {n} then (OASIS_DET_REC, {}, False) else (f, B - {n}, again))"

definition block :: "nat \<Rightarrow> modes \<Rightarrow> modes" where
  "block n m = (case m of (f, B, again) \<Rightarrow> (OASIS_RUN_FLAG_STOP, insert n B, again \<or> f \<noteq> OASIS_RUN_FLAG_STOP))"

fun control_spec :: "control \<Rightarrow> modes \<Rightarrow> modes" where
  "control_spec Toggle_registration m = (case m of (f, B, again) \<Rightarrow> (toggled OASIS_DET_REC_REG f, B, again))"
| "control_spec (Named_registration name) m =
     (case m of (f, B, again) \<Rightarrow> (if f = OASIS_RUN_FLAG_STOP then f else OASIS_DET_REC_REG, B, again))"
| "control_spec Toggle_deregistration m = (case m of (f, B, again) \<Rightarrow> (toggled OASIS_DET_REC_DEREG f, B, again))"
| "control_spec (Recording on) m =
     (if on then block kOasisBlockingList_Record m else unblock kOasisBlockingList_Record m)"
| "control_spec (Halt on) m =
     (if on then block kOasisBlockingList_UserInput m
      else if fst m = OASIS_RUN_FLAG_STOP then unblock kOasisBlockingList_UserInput m else m)"
| "control_spec _ m = m"

section \<open>The implementation\<close>

fun control_step :: "control \<Rightarrow> oasis_step" where
  "control_step Toggle_registration = Input False (Ev_AddUser None)"
| "control_step (Named_registration name) = Input False (Ev_AddUser (Some name))"
| "control_step Toggle_deregistration = Input False (Ev_DelUser None None)"
| "control_step (Recording on) = Input False (if on then Ev_RecordingStart else Ev_RecordingStop)"
| "control_step (Halt on) = Input True (Ev_OasisSetState on)"
| "control_step Ask_state = Input True Ev_OasisGetState"
| "control_step (Wait n) = Tick n"

text \<open>The name of a registration is the array of 31 bytes of its event.\<close>

fun control_allowed :: "control \<Rightarrow> bool" where
  "control_allowed (Named_registration name) = (length name = 31)"
| "control_allowed _ = True"

definition blockers :: "('w, 'd) oasis \<Rightarrow> nat set" where
  "blockers s = {n. bit (s_blockingList s) n}"

definition modes :: "('w, 'd) oasis \<Rightarrow> modes" where
  "modes s = (run_flag s, blockers s, prevRunFlag s \<noteq> OASIS_RUN_FLAG_STOP)"

definition in_control :: "('w, 'd) oasis \<Rightarrow> bool" where
  "in_control s \<longleftrightarrow> engine_ok s \<and> timers_locked (timers s) \<and> length (s_UserName s) = 64"

lemma blockers_none: "blockers s = {} \<longleftrightarrow> s_blockingList s = 0"
proof
  assume "blockers s = {}"
  then have "\<not> bit (s_blockingList s) n" for n by (auto simp: blockers_def)
  then show "s_blockingList s = 0" by (intro bit_eqI) simp
qed (simp add: blockers_def)

lemma blockers_set: "n < 16 \<Longrightarrow> {k. bit (w OR push_bit n 1 :: u16) k} = insert n {k. bit w k}"
  by (auto simp: bit_simps)

lemma blockers_clear: "{k. bit (w AND NOT (push_bit n 1) :: u16) k} = {k. bit w k} - {n}"
  by (auto simp: bit_simps dest: bit_imp_le_length)

lemmas blockers_bits = blockers_set [simplified] blockers_clear [simplified]

section \<open>Operations that return\<close>

text \<open>The timers have mutexes, and the values \<open>v\<close> are as they were.\<close>

definition flags :: "('w, 'd) oasis \<Rightarrow> run_flag \<times> u16 \<times> run_flag \<times> nat" where
  "flags s = (run_flag s, s_blockingList s, prevRunFlag s, length (s_UserName s))"

definition steady :: "run_flag \<times> u16 \<times> run_flag \<times> nat \<Rightarrow> ('w, 'd) oasis \<Rightarrow> bool" where
  "steady v s \<longleftrightarrow> timers_locked (timers s) \<and> flags s = v"

lemma steady_simps [simp]:
  "steady v (s\<lparr>qualityCheck := x1\<rparr>) = steady v s" "steady v (s\<lparr>res := x2\<rparr>) = steady v s"
  "steady v (oasis_lite_dev_notify_result E s) = steady v s" "steady v (oasis_lite_dev_response b r st s) = steady v s"
  "steady v (oasis_lite_dev_RequestFrame E s) = steady v s" "steady v (s\<lparr>s_UserNameReference := x3\<rparr>) = steady v s"
  by (simp_all add: steady_def flags_def oasis_lite_dev_notify_result_def oasis_lite_dev_response_def)

lemma steady_start:
  assumes "steady v s" and "\<forall>n. mutex_made (rtos E) n"
  shows "reaches (steady v) (start_timer E ms cb sl s)"
proof -
  obtain r T where T: "FWK_Timer_Start (rtos E) ms False cb sl (timers s) = Inr (r, T)"
    using start_returns [of "rtos E" ms False cb sl "timers s"] by blast
  have "timers_locked T" using start_locked [OF _ _ T] assms by (simp add: steady_def)
  then show ?thesis using assms(1) T by (simp add: start_timer_def on_tm_def reaches_def steady_def flags_def)
qed

lemma steady_stop:
  assumes "steady v s"
  shows "reaches (steady v) (stop_timer E sl s)"
proof (cases "slot (timers s) sl = None")
  case True
  then show ?thesis using assms by (simp add: stop_timer_def reaches_Inr)
next
  case False
  obtain r T where "FWK_Timer_Stop (rtos E) sl (timers s) = Inr (r, T)" "timers_locked T"
    using stop_returns [of "timers s" "rtos E" sl] assms by (auto simp: steady_def)
  then show ?thesis using assms False by (simp add: stop_timer_def on_tm_def reaches_def steady_def flags_def)
qed

lemma steady_timers_stop: "steady v s \<Longrightarrow> reaches (steady v) (oasis_timers_stop E s)"
  unfolding oasis_timers_stop_def by (intro reaches_bind [OF steady_stop] steady_stop) auto

lemma steady_flag: "steady (f, b, p, n) s \<Longrightarrow> steady (f', b, p, n) (s\<lparr>run_flag := f'\<rparr>)"
  by (simp add: steady_def flags_def)

lemma start_recognition_steady:
  assumes "\<forall>n. mutex_made (rtos E) n" and "steady (f, b, p, n) s" and "f \<noteq> OASIS_RUN_FLAG_STOP"
  shows "reaches (steady (OASIS_DET_REC, b, p, n)) (oasis_start_recognition E s)"
proof -
  have "run_flag s \<noteq> OASIS_RUN_FLAG_STOP" using assms(2,3) by (simp add: steady_def flags_def)
  then show ?thesis unfolding oasis_start_recognition_def Let_def
    by (simp, intro reaches_bind [OF steady_timers_stop [OF assms(2)]] reaches_bind [OF steady_start [OF _ assms(1)]] steady_start [OF _ assms(1)])
      (simp_all add: steady_flag)
qed

lemma start_registration_steady:
  assumes "\<forall>n. mutex_made (rtos E) n" and "steady (f, b, p, n) s" and "f \<noteq> OASIS_RUN_FLAG_STOP"
  shows "reaches (steady (OASIS_DET_REC_REG, b, p, n)) (oasis_start_registration E s)"
proof -
  have "run_flag s \<noteq> OASIS_RUN_FLAG_STOP" using assms(2,3) by (simp add: steady_def flags_def)
  then show ?thesis unfolding oasis_start_registration_def Let_def
    by (simp, intro reaches_bind [OF steady_timers_stop [OF assms(2)]] reaches_bind [OF steady_start [OF _ assms(1)]] reaches_Inr)
      (simp_all add: steady_flag)
qed

lemma start_deregistration_steady:
  assumes "\<forall>n. mutex_made (rtos E) n" and "steady (f, b, p, n) s" and "f \<noteq> OASIS_RUN_FLAG_STOP"
  shows "reaches (steady (OASIS_DET_REC_DEREG, b, p, n)) (oasis_start_deregistration E s)"
proof -
  have "run_flag s \<noteq> OASIS_RUN_FLAG_STOP" using assms(2,3) by (simp add: steady_def flags_def)
  then show ?thesis unfolding oasis_start_deregistration_def Let_def
    by (simp, intro reaches_bind [OF steady_timers_stop [OF assms(2)]] reaches_bind [OF steady_start [OF _ assms(1)]] reaches_Inr)
      (auto intro: steady_flag)
qed

lemma stop_steady:
  assumes "steady (f, b, p, n) s"
  shows "reaches (steady (OASIS_RUN_FLAG_STOP, b, f, n)) (oasis_stop E s)"
  unfolding oasis_stop_def
  by (intro reaches_bind [OF steady_timers_stop [OF assms]] reaches_Inr)
    (simp add: steady_def flags_def oasis_lite_dev_notify_result_def)

lemma start_steady:
  assumes "\<forall>n. mutex_made (rtos E) n" and "steady (f, 0, p, n) s" and "p \<noteq> OASIS_RUN_FLAG_STOP"
  shows "reaches (steady (OASIS_DET_REC, 0, OASIS_RUN_FLAG_STOP, n)) (oasis_start E s)"
proof -
  let ?s = "(oasis_lite_dev_RequestFrame E s)\<lparr>run_flag := p, prevRunFlag := OASIS_RUN_FLAG_STOP\<rparr>"
  have "steady (p, 0, OASIS_RUN_FLAG_STOP, n) ?s" "s_blockingList s = 0" "prevRunFlag (oasis_lite_dev_RequestFrame E s) = p"
    using assms(2) by (simp_all add: steady_def flags_def)
  then show ?thesis using start_recognition_steady [OF assms(1) _ assms(3), of 0 OASIS_RUN_FLAG_STOP n ?s]
    by (simp add: oasis_start_def Let_def, intro reaches_bind reaches_Inr) simp_all
qed

section \<open>The simulation\<close>

fun modes_of :: "run_flag \<times> u16 \<times> run_flag \<times> nat \<Rightarrow> modes" where
  "modes_of (f, b, p, n) = (f, {k. bit b k}, p \<noteq> OASIS_RUN_FLAG_STOP)"

lemma steady_modes: "steady v s \<Longrightarrow> modes s = modes_of v"
  by (auto simp: steady_def flags_def modes_def blockers_def)

text \<open>A blocker comes.\<close>

lemma block_steady:
  assumes "steady (f, b, p, n) s" and "k < 16" and "f = OASIS_RUN_FLAG_STOP \<Longrightarrow> p \<noteq> OASIS_RUN_FLAG_STOP"
  shows "\<exists>v. reaches (steady v) (if run_flag s \<noteq> OASIS_RUN_FLAG_STOP then oasis_stop E (set_blocker_bit k s) else Inr ((), set_blocker_bit k s)) \<and>
    modes_of v = block k (modes_of (f, b, p, n)) \<and> snd (snd (snd v)) = n"
proof -
  have s: "steady (f, b OR push_bit k 1, p, n) (set_blocker_bit k s)" "run_flag s = f"
    using assms(1) by (simp_all add: steady_def flags_def set_blocker_bit_def)
  show ?thesis
  proof (cases "f = OASIS_RUN_FLAG_STOP")
    case True
    then show ?thesis using s assms(2,3)
      by (intro exI [of _ "(f, b OR push_bit k 1, p, n)"]) (simp add: reaches_Inr block_def blockers_bits)
  next
    case False
    then show ?thesis using s stop_steady [OF s(1)] assms(2)
      by (intro exI [of _ "(OASIS_RUN_FLAG_STOP, b OR push_bit k 1, f, n)"]) (simp add: block_def blockers_bits)
  qed
qed

text \<open>A blocker leaves.\<close>

lemma word_bits_empty: "{k. bit (b :: u16) k} \<subseteq> {n} \<longleftrightarrow> b AND NOT (push_bit n 1) = 0"
proof -
  have "{k. bit b k} \<subseteq> {n} \<longleftrightarrow> {k. bit (b AND NOT (push_bit n 1)) k} = {}" by (simp only: blockers_clear) blast
  also have "\<dots> \<longleftrightarrow> b AND NOT (push_bit n 1) = 0"
  proof
    assume "{k. bit (b AND NOT (push_bit n 1)) k} = {}"
    then have "\<not> bit (b AND NOT (push_bit n 1)) k" for k by blast
    then show "b AND NOT (push_bit n 1) = 0" by (intro bit_eqI) simp
  qed simp
  finally show ?thesis .
qed

lemma unblock_steady:
  assumes m: "\<forall>n. mutex_made (rtos E) n" and s: "steady (f, b, p, n) s" and p: "p \<noteq> OASIS_RUN_FLAG_STOP"
  shows "\<exists>v. reaches (steady v) (oasis_start E (clear_blocker_bit k s)) \<and>
    modes_of v = unblock k (modes_of (f, b, p, n)) \<and> snd (snd (snd v)) = n"
proof -
  let ?b = "b AND NOT (push_bit k 1)"
  have s1: "steady (f, ?b, p, n) (clear_blocker_bit k s)" "s_blockingList (clear_blocker_bit k s) = ?b"
    using s by (simp_all add: steady_def flags_def clear_blocker_bit_def)
  show ?thesis
  proof (cases "?b = 0")
    case True
    then show ?thesis using start_steady [OF m _ p, of f n "clear_blocker_bit k s"] s1 p word_bits_empty [of b k]
      by (intro exI [of _ "(OASIS_DET_REC, 0, OASIS_RUN_FLAG_STOP, n)"]) (simp add: unblock_def)
  next
    case False
    then show ?thesis using s1 p word_bits_empty [of b k] start_refused [of "clear_blocker_bit k s" E]
      by (intro exI [of _ "(f, ?b, p, n)"]) (simp add: unblock_def reaches_Inr blockers_bits)
  qed
qed

lemma control_simulates:
  assumes m: "\<forall>n. mutex_made (rtos E) n" and s: "in_control s" and a: "control_allowed p"
  shows "\<exists>v. reaches (steady v) (oasis_do E (control_step p) s) \<and> modes_of v = control_spec p (modes s) \<and> snd (snd (snd v)) = 64"
proof -
  obtain f b q where v: "flags s = (f, b, q, 64)" "f = run_flag s" "b = s_blockingList s" "q = prevRunFlag s"
    using s by (auto simp: in_control_def flags_def)
  then have st: "steady (f, b, q, 64) s" using s by (simp add: in_control_def steady_def)
  have ok: "f = OASIS_RUN_FLAG_STOP \<longleftrightarrow> b \<noteq> 0" "f = OASIS_RUN_FLAG_STOP \<Longrightarrow> q \<noteq> OASIS_RUN_FLAG_STOP"
    using s v by (auto simp: in_control_def engine_ok_def view_def stopped_def)
  note mo = steady_modes [OF st]
  have toggle: "reaches (steady (toggled g f, b, q, 64)) (if run_flag s' = g then oasis_start_recognition E s' else x)"
    if "f \<noteq> OASIS_RUN_FLAG_STOP \<Longrightarrow> reaches (steady (g, b, q, 64)) x" "f = OASIS_RUN_FLAG_STOP \<Longrightarrow> x = Inr ((), s')"
      "g \<noteq> OASIS_RUN_FLAG_STOP" "steady (f, b, q, 64) s'" for g s' x
    using that start_recognition_steady [OF m that(4)] by (auto simp: toggled_def reaches_Inr steady_def flags_def)
  have stopped: "oasis_start_registration E s' = Inr ((), s')" "oasis_start_deregistration E s' = Inr ((), s')"
    if "f = OASIS_RUN_FLAG_STOP" "steady (f, b, q, k) s'" for s' k
    using that by (simp_all add: oasis_start_registration_def oasis_start_deregistration_def steady_def flags_def)
  have answered: "reaches (steady w) (rbind x (\<lambda>(r, s). Inr ((), oasis_lite_dev_response c (f r) (g r) s)))" if "reaches (steady w) x"
    for w c f g and x :: "('r \<times> ('b, 'a) oasis) outcome"
    by (rule reaches_bind [OF that]) (simp add: reaches_Inr)
  show ?thesis
  proof (cases p)
    case Toggle_registration
    have "steady (f, b, q, 64) (s\<lparr>s_UserNameReference := Name_NULL\<rparr>)" using st by simp
    from toggle [OF start_registration_steady [OF m this] stopped(1) [OF _ this] _ this] this show ?thesis using mo Toggle_registration
      by (intro exI [of _ "(toggled OASIS_DET_REC_REG f, b, q, 64)"]) (simp add: add_user_def Let_def)
  next
    case (Named_registration name)
    let ?s = "s\<lparr>s_UserName := blit 0 name (s_UserName s), s_UserNameReference := Name_Buffer\<rparr>"
    have n: "length name = 31" "length (s_UserName s) = 64" using a s Named_registration by (simp_all add: in_control_def)
    then have "steady (f, b, q, 64) ?s" using st by (simp add: steady_def flags_def length_blit)
    then have "reaches (steady (if f = OASIS_RUN_FLAG_STOP then f else OASIS_DET_REC_REG, b, q, 64)) (oasis_start_registration E ?s)"
      using start_registration_steady [OF m, of f b q 64 ?s] stopped(1) [of _ ?s] by (auto simp: reaches_Inr)
    moreover have "slice 0 31 name = name" using n slice_full [of name] by simp
    ultimately show ?thesis using mo n Named_registration
      by (intro exI [of _ "(if f = OASIS_RUN_FLAG_STOP then f else OASIS_DET_REC_REG, b, q, 64)"])
        (simp add: add_user_def FACE_NAME_MAX_LEN_def)
  next
    case Toggle_deregistration
    from toggle [OF start_deregistration_steady [OF m st] stopped(2) [OF _ st] _ st] show ?thesis using mo Toggle_deregistration
      by (intro exI [of _ "(toggled OASIS_DET_REC_DEREG f, b, q, 64)"]) (simp add: del_user_def)
  next
    case (Recording on)
    show ?thesis
    proof (cases on)
      case True
      have r: "run_flag (set_blocker_bit 2 s) = run_flag s" by (simp add: set_blocker_bit_def)
      from block_steady [OF st _ ok(2), of 2 E] obtain w where
        "reaches (steady w) (if run_flag s \<noteq> OASIS_RUN_FLAG_STOP then oasis_stop E (set_blocker_bit 2 s) else Inr ((), set_blocker_bit 2 s))"
          "modes_of w = block 2 (modes_of (f, b, q, 64))" "snd (snd (snd w)) = 64" by auto
      then show ?thesis using True mo Recording
        by (intro exI [of _ w]) (simp add: recording_start_def Let_def r)
    next
      case False
      have p: "prevRunFlag (clear_blocker_bit 2 s) = q" using v by (simp add: clear_blocker_bit_def)
      show ?thesis
      proof (cases "q = OASIS_RUN_FLAG_STOP")
        case True
        have "steady (f, b AND NOT (push_bit 2 1), q, 64) (clear_blocker_bit 2 s)"
          using st by (simp add: steady_def flags_def clear_blocker_bit_def)
        then show ?thesis using True False p mo Recording
          by (intro exI [of _ "(f, b AND NOT (push_bit 2 1), q, 64)"])
            (simp add: recording_stop_def unblock_def reaches_Inr blockers_clear [of b 2, simplified])
      next
        case nq: False
        from unblock_steady [OF m st nq, of 2] obtain w where
          "reaches (steady w) (oasis_start E (clear_blocker_bit 2 s))" "modes_of w = unblock 2 (modes_of (f, b, q, 64))" "snd (snd (snd w)) = 64"
          by blast
        then show ?thesis using False nq p mo Recording
          by (intro exI [of _ w]) (simp add: recording_stop_def, rule reaches_bind, assumption, rule reaches_Inr)
      qed
    qed
  next
    case (Halt on)
    show ?thesis
    proof (cases on)
      case True
      from block_steady [OF st _ ok(2), of 1 E] obtain w where
        w: "reaches (steady w) (if run_flag s \<noteq> OASIS_RUN_FLAG_STOP then oasis_stop E (set_blocker_bit 1 s) else Inr ((), set_blocker_bit 1 s))"
          "modes_of w = block 1 (modes_of (f, b, q, 64))" "snd (snd (snd w)) = 64" by auto
      have f: "run_flag (set_blocker_bit 1 s) = run_flag s" by (simp add: set_blocker_bit_def)
      show ?thesis using w True mo Halt f answered [of w "oasis_stop E (set_blocker_bit 1 s)" True "\<lambda>_. Rsp_Stopped True" "\<lambda>_. kEventStatus_Ok"]
        by (intro exI [of _ w]) (auto simp: oasis_set_state_def reaches_def split: if_splits)
    next
      case False
      show ?thesis
      proof (cases "f = OASIS_RUN_FLAG_STOP")
        case True
        from unblock_steady [OF m st ok(2) [OF True], of 1] obtain w where
          w: "reaches (steady w) (oasis_start E (clear_blocker_bit 1 s))" "modes_of w = unblock 1 (modes_of (f, b, q, 64))" "snd (snd (snd w)) = 64"
          by blast
        show ?thesis using w False True mo Halt v(2)
            answered [of w "oasis_start E (clear_blocker_bit 1 s)" True "\<lambda>r. Rsp_Stopped (\<not> r)" status_of]
          by (intro exI [of _ w]) (simp add: oasis_set_state_def)
      next
        case nf: False
        then show ?thesis using False mo Halt v(2) st
          by (intro exI [of _ "(f, b, q, 64)"]) (simp add: oasis_set_state_def reaches_Inr)
      qed
    qed
  next
    case Ask_state
    then show ?thesis using st mo by (intro exI [of _ "(f, b, q, 64)"]) (simp add: reaches_Inr)
  next
    case (Wait n)
    have "steady (f, b, q, 64) (s\<lparr>timers := (timers s)\<lparr>ticks := ticks (timers s) + n\<rparr>\<rparr>)"
      using st by (simp add: steady_def flags_def timers_locked_def timers_wf_def)
    then show ?thesis using Wait mo by (intro exI [of _ "(f, b, q, 64)"]) (simp add: reaches_Inr)
  qed
qed

lemma control_implements:
  fixes E :: "'d oasis_env"
  assumes m: "\<forall>n. mutex_made (rtos E) n"
  shows "implements (\<lambda>p. oasis_do E (control_step p)) (in_control :: ('w, 'd) oasis \<Rightarrow> bool) control_allowed modes control_spec"
proof
  fix s :: "('w, 'd) oasis" and p assume s: "in_control s" and a: "control_allowed p"
  obtain v where v: "reaches (steady v) (oasis_do E (control_step p) s)" "modes_of v = control_spec p (modes s)" "snd (snd (snd v)) = 64"
    using control_simulates [OF m s a] by blast
  obtain r s' where r: "oasis_do E (control_step p) s = Inr (r, s')" "steady v s'" using v(1) by (auto simp: reaches_def)
  have "engine_ok s'" using engine.step_inv [OF _ r(1)] s by (simp add: in_control_def)
  then have "in_control s'" using r(2) v(3) by (auto simp: in_control_def steady_def flags_def)
  then show "\<exists>r s'. oasis_do E (control_step p) s = Inr (r, s') \<and> in_control s' \<and> modes s' = control_spec p (modes s)"
    using r steady_modes [OF r(2)] v(2) by auto
qed

end
