(* ===== verification/Oasis_Sim.thy ===== *)
theory Oasis_Sim
  imports Oasis_Modes Facedb_Props Config_Props
begin

text \<open>
  The start of the engine, and the engine on the device with room of \<open>Flash_Sim\<close>, with an operating system that grants everything, no
  low-power device and a given behaviour of the recognition library.
\<close>

section \<open>Surroundings\<close>

definition sim_rtos :: rtos_if where
  "sim_rtos = \<lparr>heap_gives = (\<lambda>_. True), mutex_made = (\<lambda>_. True), timer_made = (\<lambda>_. True), start_queued = (\<lambda>_. True),
     reset_queued = (\<lambda>_. True), stop_queued = (\<lambda>_. True), delete_queued = (\<lambda>_. True)\<rparr>"

lemma sim_grants: "rtos_grants sim_rtos" "mutex_made sim_rtos n"
  by (simp_all add: rtos_grants_def sim_rtos_def)

definition no_lpm :: "unit lpm_dev_operator_t" where
  "no_lpm = \<lparr>dev_init = None, openTimer = None, stopTimer = (\<lambda>m. Inr (0, m)), openPreEnterTimer = (\<lambda>m. Inr (0, m)),
     stopPreEnterTimer = (\<lambda>m. Inr (0, m)), enterSleep = None, dev_lock = None, dev_unlock = None\<rparr>"

definition sim_env :: "(nat \<Rightarrow> run_flag \<Rightarrow> int oasis_lib) \<Rightarrow> unit oasis_env" where
  "sim_env lib = \<lparr>os = sim_os, rtos = sim_rtos, message_ok = (\<lambda>_. True), request_ok = (\<lambda>_. True), OASISLT_init = (\<lambda>_. (0, 0)),
     OASISLT_getFaceItemSize = 256, OASISLT_run_extend = lib,
     OASISLT_registration_by_feature = (\<lambda>_ _ _. Return (OASIS_REG_RESULT_INVALID, INVALID_ID)), lpm_ops = no_lpm\<rparr>"

lemma sim_env_simps [simp]:
  "os (sim_env lib) = sim_os" "rtos (sim_env lib) = sim_rtos" "message_ok (sim_env lib) n" "request_ok (sim_env lib) n" "OASISLT_init (sim_env lib) k = (0, 0)"
  "OASISLT_getFaceItemSize (sim_env lib) = 256" "OASISLT_run_extend (sim_env lib) = lib" "lpm_ops (sim_env lib) = no_lpm"
  by (simp_all add: sim_env_def)

definition sim_settings :: "smart_lock_config_t \<Rightarrow> sim_state cfg_st" where
  "sim_settings c = sim_cfg\<lparr>s_FWKConfigLock := Some False, app_data := Some (encode_config c)\<rparr>"

definition sim_engine :: "(sim_state, unit) oasis" where
  "sim_engine = HAL_VisionAlgo_OasisLite2D_Register kOASISLiteMode_SmartLock
     \<lparr>run_flag = OASIS_DET_ONLY, prevRunFlag = OASIS_DET_ONLY, res = zero_result,
      timers = \<lparr>slot = Map.empty, rtos_timers = Map.empty, next_handle = 0, ticks = 0, tm_calls = 0\<rparr>,
      timer_timeout = False, timerTimeoutQualityCheck = False, qualityCheck = kOasisLiteQualityCheck_Ok, has_dev = False,
      oasis_mode = 0, s_UserName = replicate 64 0, s_UserNameReference = Name_NULL, s_blockingList = 0, recogTH = None,
      supported = (\<lambda>_. False), frameReady = (\<lambda>_. False), in_flight = (\<lambda>_. 0), refused = (\<lambda>_. False), req_count = 0, fdb = sim_facedb Map.empty,
      cfg = sim_settings default_config, flash = fdb_flash (sim_facedb Map.empty), lpm = \<lparr>lpm_dev = None, enable = 0,
      currentMode = kLPMMode_Invalid, lpmRequestList = None, pre_sleep_sent = []\<rparr>, results = [], responses = [],
      cam_events = [], msg_count = 0, os_calls = 0, lib_calls = 0, lib_log = []\<rparr>"

lemma sim_engine_simps [simp]:
  "timers_wf (timers sim_engine)" "slot (timers sim_engine) sl = None" "timers_locked (timers sim_engine)"
  "s_blockingList sim_engine = 0" "frameReady sim_engine i = False" "length (s_UserName sim_engine) = 64"
  "cfg sim_engine = sim_settings default_config" "fdb sim_engine = sim_facedb Map.empty" "flash sim_engine = fdb_flash (sim_facedb Map.empty)"
  "oasis_mode sim_engine = kOASISLiteMode_SmartLock" "results sim_engine = []" "timer_timeout sim_engine = False"
  "rtos_timers (timers sim_engine) h = None" "ticks (timers sim_engine) = 0"
  by (simp_all add: sim_engine_def HAL_VisionAlgo_OasisLite2D_Register_def timers_wf_def timers_locked_def)

text \<open>The settings answer, and give their mutex back.\<close>

lemma sim_sleep_mode:
  assumes c: "config_wf c"
  shows "HAL_OutputDev_SmartLockConfig_GetSleepMode ((sim_settings c)\<lparr>cfg_flash := w\<rparr>) = Inr (sleepMode c, (sim_settings c)\<lparr>cfg_flash := w\<rparr>)"
    and "HAL_OutputDev_SmartLockConfig_GetFaceRecThreshold ((sim_settings c)\<lparr>cfg_flash := w\<rparr>) =
     Inr ((kSLNConfigStatus_Success, Some (faceRecThreshold c)), (sim_settings c)\<lparr>cfg_flash := w\<rparr>)"
proof -
  have s: "slice 0 20 (encode_config c) = encode_config c"
    using length_encode_config [OF c] slice_full [of "encode_config c"] by simp
  show "HAL_OutputDev_SmartLockConfig_GetSleepMode ((sim_settings c)\<lparr>cfg_flash := w\<rparr>) = Inr (sleepMode c, (sim_settings c)\<lparr>cfg_flash := w\<rparr>)"
    "HAL_OutputDev_SmartLockConfig_GetFaceRecThreshold ((sim_settings c)\<lparr>cfg_flash := w\<rparr>) =
     Inr ((kSLNConfigStatus_Success, Some (faceRecThreshold c)), (sim_settings c)\<lparr>cfg_flash := w\<rparr>)"
    using length_encode_config [OF c] config_value [OF c] s
    by (simp_all add: HAL_OutputDev_SmartLockConfig_GetSleepMode_def HAL_OutputDev_SmartLockConfig_GetFaceRecThreshold_def
        get_field_def FWK_Config_LockAppData_def FWK_Config_UnlockAppData_def Config_Lock_def Config_Unlock_def config_get_def
        sim_settings_def)
qed

lemma default_config_simps [simp]: "config_wf default_config" "sleepMode default_config = kLPMManagerStatus_SleepDisable"
  "faceRecThreshold default_config = 800"
  by (simp_all add: config_wf_def default_config_def)

section \<open>The start of the engine\<close>

definition registered :: "('w, 'd) oasis \<Rightarrow> bool" where
  "registered s \<longleftrightarrow> timers_locked (timers s) \<and> slot (timers s) = Map.empty \<and> s_blockingList s = 0 \<and>
     frameReady s = (\<lambda>_. False) \<and> length (s_UserName s) = 64"

definition fresh :: "('w, 'd) oasis \<Rightarrow> ('w, 'd) oasis \<Rightarrow> bool" where
  "fresh s s' \<longleftrightarrow> timers s' = timers s \<and> s_blockingList s' = s_blockingList s \<and> supported s' = supported s \<and>
     frameReady s' = frameReady s \<and> in_flight s' = in_flight s \<and> refused s' = refused s \<and> s_UserName s' = s_UserName s \<and> run_flag s' = run_flag s \<and>
     prevRunFlag s' = prevRunFlag s"

lemma fresh_refl: "fresh s s"
  by (simp add: fresh_def)

lemma fresh_threshold: "load_threshold s = Inr (u, s') \<Longrightarrow> fresh s s'"
  by (auto simp: load_threshold_def on_cfg_def rbind_Inr_iff fresh_def)

lemma fresh_library: "init_library E s = Inr (r, s') \<Longrightarrow> fresh s s'"
  by (auto simp: init_library_def take_block_def Let_def fresh_def split: prod.splits option.splits if_splits)

lemma fresh_fdb: "on_fdb f s = Inr (r, s') \<Longrightarrow> fresh s s'"
  by (auto simp: on_fdb_def rbind_Inr_iff fresh_def)

lemma init_start:
  assumes "init_engine E s = Inr (kStatus_HAL_ValgoSuccess, t)"
  shows "\<exists>s'. fresh (s\<lparr>run_flag := OASIS_DET_REC, prevRunFlag := OASIS_RUN_FLAG_NUM\<rparr>) s' \<and> oasis_start_recognition E s' = Inr ((), t)"
proof -
  let ?s = "s\<lparr>run_flag := OASIS_DET_REC, prevRunFlag := OASIS_RUN_FLAG_NUM\<rparr>"
  obtain s1 r s2 st s3 where s: "load_threshold ?s = Inr ((), s1)" "init_library E s1 = Inr (r, s2)"
    "on_fdb (HAL_Facedb_Init (os E) (ucast (OASISLT_getFaceItemSize E))) s2 = Inr (st, s3)" "oasis_start_recognition E s3 = Inr ((), t)"
    using assms unfolding init_engine_def rbind_Inr_iff by (auto simp: rbind_Inr_iff split: if_splits)
  have "fresh ?s s3" using fresh_threshold [OF s(1)] fresh_library [OF s(2)] fresh_fdb [OF s(3)] by (simp add: fresh_def)
  then show ?thesis using s(4) by blast
qed

lemma task_init_ok:
  assumes s: "registered s" and m: "\<forall>n. mutex_made (rtos E) n" and run: "VisionAlgoManager_TaskInit rgb ir E s = Inr (True, t)"
  shows "in_control t \<and> modes t = (OASIS_DET_REC, {}, True)"
proof -
  obtain t0 where t0: "HAL_VisionAlgoDev_OasisLite_Init rgb ir E s = Inr (kStatus_HAL_ValgoSuccess, t0)" "t = oasis_lite_dev_RequestFrame E t0"
    using run by (auto simp: VisionAlgoManager_TaskInit_def rbind_Inr_iff split: if_splits)
  obtain s1 where s1: "init_engine E s1 = Inr (kStatus_HAL_ValgoSuccess, t0)" "timers s1 = timers s" "s_blockingList s1 = s_blockingList s"
    "supported s1 = (\<lambda>_. True)" "frameReady s1 = frameReady s" "in_flight s1 = in_flight s" "refused s1 = refused s" "s_UserName s1 = s_UserName s"
    using t0(1) by (auto simp: HAL_VisionAlgoDev_OasisLite_Init_def take_block_def split: option.splits)
  obtain s' where "fresh (s1\<lparr>run_flag := OASIS_DET_REC, prevRunFlag := OASIS_RUN_FLAG_NUM\<rparr>) s'"
    and st: "oasis_start_recognition E s' = Inr ((), t0)" using init_start [OF s1(1)] by blast
  then have s': "run_flag s' = OASIS_DET_REC" "prevRunFlag s' = OASIS_RUN_FLAG_NUM" "timers s' = timers s"
    "s_blockingList s' = s_blockingList s" "supported s' = (\<lambda>_. True)" "frameReady s' = frameReady s"
    "in_flight s' = in_flight s" "refused s' = refused s" "s_UserName s' = s_UserName s" using s1 by (simp_all add: fresh_def)
  let ?v = "(0, \<lambda>_. True, in_flight s, refused s, \<lambda>_. False, OASIS_RUN_FLAG_NUM, False)"
  have "frame_kept ?v s'" using s s' by (simp add: frame_kept_def timers_ok_def view_def stopped_def registered_def timers_locked_def)
  then have k: "frame_kept ?v t0" using alwaysD [OF start_recognition_kept st] by blast
  have "steady (OASIS_DET_REC, 0, OASIS_RUN_FLAG_NUM, 64) s'" using s s' by (simp add: steady_def flags_def registered_def)
  then have "steady (OASIS_DET_REC, 0, OASIS_RUN_FLAG_NUM, 64) t0" using start_recognition_steady [OF m, of OASIS_DET_REC] st
    by (fastforce simp: reaches_def)
  then have l: "timers_locked (timers t)" "flags t = (OASIS_DET_REC, 0, OASIS_RUN_FLAG_NUM, 64)"
    using t0(2) by (simp_all add: steady_def flags_def)
  have "engine_ok t" using k t0(2) request_asks [of t0 _ E] by (auto simp: engine_ok_def frame_kept_def view_def stopped_def)
  then show ?thesis using l by (simp add: in_control_def flags_def modes_def blockers_def)
qed

lemma sim_registered: "registered sim_engine"
  by (simp add: registered_def fun_eq_iff)

text \<open>The parts that starting and stopping leave alone.\<close>

definition parts :: "('w, 'd) oasis \<Rightarrow> 'w facedb \<times> 'w cfg_st \<times> 'w fwk_flash \<times> 'd lpm_manager \<times> bool \<times> u8 \<times> nat \<times> name_ptr \<times> u8 list" where
  "parts s = (fdb s, cfg s, flash s, lpm s, has_dev s, oasis_mode s, lib_calls s, s_UserNameReference s, s_UserName s)"

lemma parts_simps [simp]:
  "parts (s\<lparr>timers := x1\<rparr>) = parts s" "parts (s\<lparr>qualityCheck := x2\<rparr>) = parts s" "parts (s\<lparr>res := x3\<rparr>) = parts s"
  "parts (s\<lparr>run_flag := x4\<rparr>) = parts s" "parts (oasis_lite_dev_notify_result E s) = parts s"
  "parts (oasis_lite_dev_RequestFrame E s) = parts s"
  by (simp_all add: parts_def oasis_lite_dev_notify_result_def)

lemma parts_timer: "parts s = x \<Longrightarrow> always (\<lambda>s. parts s = x) (stop_timer E sl s)" "parts s = x \<Longrightarrow> always (\<lambda>s. parts s = x) (start_timer E ms cb sl s)"
  by (auto simp: start_timer_def stop_timer_def on_tm_def always_def rbind_Inr_iff)

lemma parts_timers_stop: "parts s = x \<Longrightarrow> always (\<lambda>s. parts s = x) (oasis_timers_stop E s)"
  unfolding oasis_timers_stop_def by (intro always_seq [OF parts_timer(1)] parts_timer(1)) auto

lemma parts_start_recognition: "parts s = x \<Longrightarrow> always (\<lambda>s. parts s = x) (oasis_start_recognition E s)"
  unfolding oasis_start_recognition_def Let_def
  by (intro always_if always_Inr always_seq [OF parts_timers_stop] always_seq [OF parts_timer(2)] parts_timer(2)) simp_all

lemma parts_start_registration: "parts s = x \<Longrightarrow> always (\<lambda>s. parts s = x) (oasis_start_registration E s)"
  unfolding oasis_start_registration_def Let_def
  by (intro always_if always_Inr always_seq [OF parts_timers_stop] always_seq [OF parts_timer(2)]) simp_all

lemma sim_facedb_flash [simp]: "(sim_facedb m)\<lparr>fdb_flash := fdb_flash (sim_facedb m)\<rparr> = sim_facedb m"
  by (simp add: sim_facedb_def reset_statics_def)

text \<open>The engine starts: on an empty volume, with the settings in memory.\<close>

lemma sim_started:
  "\<exists>t. VisionAlgoManager_TaskInit 100 100 (sim_env lib) sim_engine = Inr (True, t) \<and> in_control t \<and>
    modes t = (OASIS_DET_REC, {}, True) \<and> settled (lfs_ready sim_platform) (lfs_entries lfs) 256 ((fdb t)\<lparr>fdb_flash := flash t\<rparr>) \<and>
    vault (fdb t) = Map.empty \<and> has_dev t"
proof -
  obtain d where d: "HAL_Facedb_Init sim_os 256 (sim_facedb Map.empty) = Inr (kFaceDBStatus_Success, d)"
    "settled (lfs_ready sim_platform) (lfs_entries lfs) 256 d" "vault d = Map.empty"
    using roomy_flash.first_start [OF sim_roomy sim_os, of 256 "sim_facedb Map.empty"] no_database_empty by auto
  let ?s = "sim_engine\<lparr>has_dev := True, supported := (\<lambda>_. True), os_calls := 2, run_flag := OASIS_DET_REC, prevRunFlag := OASIS_RUN_FLAG_NUM,
     cfg := (sim_settings default_config)\<lparr>cfg_flash := flash sim_engine\<rparr>, recogTH := Some 800, lib_calls := 1, fdb := d, flash := fdb_flash d\<rparr>"
  have st: "steady (OASIS_DET_REC, 0, OASIS_RUN_FLAG_NUM, 64) ?s" by (simp add: steady_def flags_def)
  have "\<forall>n. mutex_made (rtos (sim_env lib)) n" by (simp add: sim_grants)
  from start_recognition_steady [OF this st] obtain t where t: "oasis_start_recognition (sim_env lib) ?s = Inr ((), t)"
    by (auto simp: reaches_def)
  have "init_engine (sim_env lib) (sim_engine\<lparr>has_dev := True, supported := (\<lambda>_. True), os_calls := 2\<rparr>) =
      rbind (oasis_start_recognition (sim_env lib) ?s) (\<lambda>(_, s). Inr (kStatus_HAL_ValgoSuccess, s))"
    using d(1) by (simp add: init_engine_def load_threshold_def on_cfg_def on_fdb_def init_library_def Let_def sim_sleep_mode
        sim_engine_def HAL_VisionAlgo_OasisLite2D_Register_def)
  moreover have "sim_engine\<lparr>has_dev := True, supported := (\<lambda>i. i = kVAlgoFrameID_RGB), os_calls := os_calls sim_engine + 1,
        supported := (\<lambda>_. True), os_calls := os_calls sim_engine + 1 + 1\<rparr> =
      sim_engine\<lparr>has_dev := True, supported := (\<lambda>_. True), os_calls := 2\<rparr>"
    by (simp add: sim_engine_def HAL_VisionAlgo_OasisLite2D_Register_def)
  ultimately have run: "VisionAlgoManager_TaskInit 100 100 (sim_env lib) sim_engine = Inr (True, oasis_lite_dev_RequestFrame (sim_env lib) t)"
    using t by (simp add: VisionAlgoManager_TaskInit_def HAL_VisionAlgoDev_OasisLite_Init_def take_block_def sim_os_def)
  have p: "parts t = parts ?s" using alwaysD [OF parts_start_recognition t] by blast
  have "fdb (oasis_lite_dev_RequestFrame (sim_env lib) t) = d" "flash (oasis_lite_dev_RequestFrame (sim_env lib) t) = fdb_flash d" "has_dev (oasis_lite_dev_RequestFrame (sim_env lib) t)"
    using p by (simp_all add: parts_def)
  moreover have "d\<lparr>fdb_flash := fdb_flash d\<rparr> = d" by simp
  ultimately show ?thesis using run task_init_ok [OF sim_registered _ run] d(2,3) by (simp add: sim_grants)
qed

section \<open>A running engine\<close>

definition sim_running :: "run_flag \<Rightarrow> smart_lock_config_t \<Rightarrow> (sim_state, unit) oasis" where
  "sim_running f c = sim_engine\<lparr>has_dev := True, run_flag := f, prevRunFlag := OASIS_RUN_FLAG_NUM, supported := (\<lambda>_. True),
     in_flight := (\<lambda>_. 1), cfg := sim_settings c\<rparr>"

lemma sim_running_ok:
  "f \<noteq> OASIS_RUN_FLAG_STOP \<Longrightarrow> engine_ok (sim_running f c)" "run_flag (sim_running f c) = f" "has_dev (sim_running f c)"
  "results (sim_running f c) = []" "timer_timeout (sim_running f c) = False" "oasis_mode (sim_running f c) = kOASISLiteMode_SmartLock"
  by (simp_all add: sim_running_def engine_ok_def timers_ok_def view_def stopped_def)

definition sim_para :: "u8 \<Rightarrow> u16 \<Rightarrow> oasis_cb_para" where
  "sim_para r fid = \<lparr>faceBoxRGB = Some [1, 2, 3, 4], faceID = fid, regResult = r, deregResult = r, recResult = r, qualityResult = 0,
     reserved = (\<lambda>_. 0)\<rparr>"

text \<open>A library that finds a face it knows.\<close>

definition sim_known :: "nat \<Rightarrow> run_flag \<Rightarrow> int oasis_lib" where
  "sim_known _ _ = Call (EvtCb OASISLT_EVT_DET_COMPLETE (sim_para 0 42)) (\<lambda>_.
     Call (EvtCb OASISLT_EVT_REC_COMPLETE (sim_para 0 42)) (\<lambda>_. Return 0))"

lemma sim_known_runs:
  "\<exists>t. HAL_VisionAlgoDev_OasisLite_Run (sim_env sim_known) (sim_running OASIS_DET_REC c) = Inr (kStatus_HAL_ValgoSuccess, t) \<and>
    lib_log t = [EvtCb OASISLT_EVT_DET_COMPLETE (sim_para 0 42), EvtCb OASISLT_EVT_REC_COMPLETE (sim_para 0 42)] \<and>
    run_flag t = OASIS_RUN_FLAG_NUM \<and> cfg t = (sim_settings c)\<lparr>cfg_flash := cfg_flash (cfg t)\<rparr> \<and> lpm_dev (lpm t) = None"
proof -
  have n: "face_name_of 42 s = Inr (None, s)" if "fdb s = sim_facedb Map.empty" "flash s = fdb_flash (sim_facedb Map.empty)" for s :: "(sim_state, unit) oasis"
    using that by (cases s) (simp add: face_name_of_def on_fdb_def HAL_Facedb_GetName_def fdb_locked_def fdb_enter_def sim_facedb_def reset_statics_def)
  obtain nm where nm: "store_at 0 (default_name 42 @ [0]) (replicate 31 0) = Inr nm"
    by (simp add: store_at_def default_name_def digits.simps)
  show ?thesis
    by (simp add: HAL_VisionAlgoDev_OasisLite_Run_def Let_def sim_known_def sim_running_def sim_engine_def HAL_VisionAlgo_OasisLite2D_Register_def detection_complete_def
      recognition_complete_def sim_para_def n upd_res_def upd_debug_def copy_name_def nm process_inference_result_def oasis_lite_check_timeout_def
      advertise_quality_def lock_decision_def face_seen_def state_of_flag_def oasis_lite_dev_notify_result_def zero_result_def
      oasis_timers_stop_def stop_timer_def start_timer_def on_tm_def start_run [OF sim_grants(1)])
qed

end
