(* ===== verification/Oasis_Props.thy ===== *)
theory Oasis_Props
  imports Oasis_Sim Lock_Props
begin

text \<open>
  Properties of the recognition engine: it runs or is blocked and asks for its frames, its control
  events act as a small machine of modes, and what it shows is what the library reported, through to the
  lock.
\<close>

section \<open>Running and stopping\<close>

text \<open>C9: After its start the engine, whatever events, frames and timers come, whatever the library, the heap,
  the timers and the flash do and whichever requests the camera's queue takes, as long as it returns: it is
  stopped exactly while something blocks it; while it is stopped it knows that it has to go on; while it runs,
  each camera frame it needs is there, or a request for it is with the camera, or the last request for it was
  refused by the camera's queue; and one of the frames is not there. So as long as no last request was refused
  a requested frame is still to come. (A refused request is not repeated.) It is assumed that the operating
  system can make the timers' mutexes.\<close>
theorem engine_keeps_running:
  assumes "registered s" and "\<forall>n. mutex_made (rtos E) n" and "VisionAlgoManager_TaskInit rgb ir E s = Inr (True, t)"
    and "run_ops (oasis_do E) ps t = Inr (rs, u)"
  shows "(run_flag u = OASIS_RUN_FLAG_STOP \<longleftrightarrow> s_blockingList u \<noteq> 0) \<and>
    (run_flag u = OASIS_RUN_FLAG_STOP \<longrightarrow> prevRunFlag u \<noteq> OASIS_RUN_FLAG_STOP) \<and>
    (run_flag u \<noteq> OASIS_RUN_FLAG_STOP \<longrightarrow> (\<forall>i. supported u i \<longrightarrow> 0 < in_flight u i \<or> frameReady u i \<or> refused u i) \<and>
      (\<exists>i. supported u i \<and> \<not> frameReady u i \<and> (refused u i \<or> 0 < in_flight u i)))"
proof -
  have "engine_ok t" using task_init_ok [OF assms(1-3)] by (simp add: in_control_def)
  then have "engine_ok u" using engine.run_inv assms(4) by blast
  then show ?thesis by (auto simp: engine_ok_def view_def stopped_def)
qed

theorem engine_keeps_running_witness:
  "\<exists>t rs u. VisionAlgoManager_TaskInit 100 100 (sim_env (\<lambda>_ _. Return 0)) sim_engine = Inr (True, t) \<and>
    run_ops (oasis_do (sim_env (\<lambda>_ _. Return 0))) [Input False Ev_RecordingStart, Tick 5, Input False Ev_RecordingStop] t = Inr (rs, u) \<and>
    (run_flag u = OASIS_RUN_FLAG_STOP \<longleftrightarrow> s_blockingList u \<noteq> 0)"
proof -
  let ?E = "sim_env (\<lambda>_ _. Return 0)"
  obtain t where t: "VisionAlgoManager_TaskInit 100 100 ?E sim_engine = Inr (True, t)" "in_control t" using sim_started by blast
  have m: "\<forall>n. mutex_made (rtos ?E) n" by (simp add: sim_grants)
  obtain rs u where "run_ops (\<lambda>p. oasis_do ?E (control_step p)) [Recording True, Wait 5, Recording False] t = Inr (rs, u)"
    using implements.run_implements [OF control_implements [OF m] t(2), of "[Recording True, Wait 5, Recording False]"] by auto
  then have r: "run_ops (oasis_do ?E) [Input False Ev_RecordingStart, Tick 5, Input False Ev_RecordingStop] t = Inr (rs, u)" by simp
  show ?thesis using t(1) r engine_keeps_running [OF sim_registered m t(1) r] by blast
qed

text \<open>C10: The events that control the engine implement the machine of modes: over any sequence of them,
  with time passing in between, the engine returns each time and its mode, its blockers and whether it
  goes on are what the specification computes.\<close>
theorem control_refines_modes:
  assumes "\<forall>n. mutex_made (rtos E) n" and "in_control s" and "list_all control_allowed ps"
  shows "\<exists>rs t. run_ops (\<lambda>p. oasis_do E (control_step p)) ps s = Inr (rs, t) \<and> in_control t \<and>
    modes t = fold control_spec ps (modes s)"
  using implements.run_implements [OF control_implements [OF assms(1)] assms(2,3)] .

text \<open>A registration that a recording interrupts is forgotten; two blockers have to leave.\<close>

theorem control_refines_modes_witness:
  "\<exists>t rs u. VisionAlgoManager_TaskInit 100 100 (sim_env (\<lambda>_ _. Return 0)) sim_engine = Inr (True, t) \<and>
    run_ops (\<lambda>p. oasis_do (sim_env (\<lambda>_ _. Return 0)) (control_step p))
      [Toggle_registration, Recording True, Halt True, Recording False, Halt False] t = Inr (rs, u) \<and>
    modes u = (OASIS_DET_REC, {}, False)"
proof -
  let ?E = "sim_env (\<lambda>_ _. Return 0)" and ?ps = "[Toggle_registration, Recording True, Halt True, Recording False, Halt False]"
  obtain t where t: "VisionAlgoManager_TaskInit 100 100 ?E sim_engine = Inr (True, t)" "in_control t" "modes t = (OASIS_DET_REC, {}, True)"
    using sim_started by blast
  have f: "fold control_spec ?ps (OASIS_DET_REC, {}, True) = (OASIS_DET_REC, {}, False)"
    by (auto simp: toggled_def block_def unblock_def)
  have m: "\<forall>n. mutex_made (rtos ?E) n" by (simp add: sim_grants)
  show ?thesis using control_refines_modes [OF m t(2), of ?ps, unfolded t(3) f] t(1) by auto
qed

section \<open>What a frame shows\<close>

text \<open>C17: A frame shows one result: its state is the engine's mode, and its number, identifier and face
  count are a function of the calls the library made, or those of a timeout; the engine stops to look at
  frames exactly when the result decides, and an expired timer has been used up.\<close>
theorem frame_result_reported:
  assumes "HAL_VisionAlgoDev_OasisLite_Run E s = Inr (st, t)" and "run_flag s \<notin> {OASIS_RUN_FLAG_NUM, OASIS_RUN_FLAG_STOP}"
    and "has_dev s" and "\<forall>n. message_ok E n"
  shows "\<exists>r. results t = results s @ [r] \<and> res_state r = state_of_flag (run_flag s) \<and>
    (res_result r, res_face_id r, face_count r) =
      (if timer_timeout s then timed_out (state_of_flag (run_flag s)) else id) (fold reported (lib_log t) (0, 0, 0)) \<and>
    run_flag t = (if decides (oasis_mode s) (res_state r) (res_result r) then OASIS_RUN_FLAG_NUM else run_flag s) \<and>
    \<not> timer_timeout t"
  using frame_result [OF assms] by (simp add: facts_of_def)

theorem frame_result_reported_witness:
  "\<exists>t r. HAL_VisionAlgoDev_OasisLite_Run (sim_env sim_known) (sim_running OASIS_DET_REC default_config) =
      Inr (kStatus_HAL_ValgoSuccess, t) \<and> results t = [r] \<and> res_state r = kOASISLiteState_Recognition \<and>
    (res_result r, res_face_id r, face_count r) = (kOASISLiteRecognitionResult_Success, 42, 1) \<and> run_flag t = OASIS_RUN_FLAG_NUM"
proof -
  obtain t where t: "HAL_VisionAlgoDev_OasisLite_Run (sim_env sim_known) (sim_running OASIS_DET_REC default_config) =
      Inr (kStatus_HAL_ValgoSuccess, t)"
    "lib_log t = [EvtCb OASISLT_EVT_DET_COMPLETE (sim_para 0 42), EvtCb OASISLT_EVT_REC_COMPLETE (sim_para 0 42)]"
    using sim_known_runs by blast
  show ?thesis using t frame_result_reported [OF t(1)] by (auto simp: sim_para_def state_of_flag_def sim_running_ok)
qed

lemma recognition_opens:
  assumes "length (s_response_buff a) = 32" and "listening c" and st: "state r = kOASISLiteState_Recognition"
    and "result r = kOASISLiteRecognitionResult_Success \<Longrightarrow> 0 \<le> face_id r \<and> face_id r < 100"
  shows "\<exists>a'. APP_OutputDev_ATCommands_InferCompleteDecode fromLpm r a = Inr a' \<and> at_sent a' = at_sent a @ report fromLpm r \<and>
    ((\<exists>m\<in>set (report fromLpm r). opens_lock c m) \<longleftrightarrow> result r = kOASISLiteRecognitionResult_Success)"
proof -
  have "shows_id r \<Longrightarrow> 0 \<le> face_id r \<and> face_id r < 100" using st assms(4) by (simp add: shows_id_def)
  then show ?thesis using decode_report [OF assms(1), of r fromLpm] report_opens [of r c fromLpm] assms(2) st by (auto simp: sends_def)
qed

text \<open>C6: From a camera frame to the lock: in recognition, the report of the frame's result that the module
  sends makes the listening controller leave its watch, as it does to unlock, if and only if the calls of
  the library make the result a success, which without a registration is: the last word on the face was
  that it is known.\<close>
theorem frame_opens_lock:
  assumes "HAL_VisionAlgoDev_OasisLite_Run E s = Inr (st, t)" and "run_flag s = OASIS_DET_REC" and "has_dev s" and "\<forall>n. message_ok E n"
    and "length (s_response_buff a) = 32" and "listening c" and "fold reported (lib_log t) (0, 0, 0) = (x, i, n)"
    and "x = kOASISLiteRecognitionResult_Success \<Longrightarrow> 0 \<le> i \<and> i < 100"
  shows "\<exists>r a' ms. results t = results s @ [r] \<and> APP_OutputDev_ATCommands_InferCompleteDecode fromLpm (at_view r) a = Inr a' \<and>
    at_sent a' = at_sent a @ ms \<and> ((\<exists>m\<in>set ms. opens_lock c m) \<longleftrightarrow> x = kOASISLiteRecognitionResult_Success)"
proof -
  obtain r where r: "results t = results s @ [r]" "res_state r = kOASISLiteState_Recognition"
    "facts_of r = (if timer_timeout s then timed_out kOASISLiteState_Recognition else id) (x, i, n)"
    using frame_result [OF assms(1) _ assms(3,4)] assms(2,7) by (auto simp: state_of_flag_def)
  have f: "result (at_view r) = kOASISLiteRecognitionResult_Success \<longleftrightarrow> x = kOASISLiteRecognitionResult_Success" "face_id (at_view r) = i"
    "state (at_view r) = kOASISLiteState_Recognition"
    using r(2,3) by (auto simp: at_view_def facts_of_def split: if_splits)
  show ?thesis using recognition_opens [OF assms(5,6) f(3), of fromLpm] f assms(8) r(1) by metis
qed

theorem frame_opens_lock_witness:
  "\<exists>t r a' ms. HAL_VisionAlgoDev_OasisLite_Run (sim_env sim_known) (sim_running OASIS_DET_REC default_config) =
      Inr (kStatus_HAL_ValgoSuccess, t) \<and> results t = [r] \<and>
    APP_OutputDev_ATCommands_InferCompleteDecode False (at_view r) at_idle = Inr a' \<and> at_sent a' = ms \<and> (\<exists>m\<in>set ms. opens_lock at_watch m)"
proof -
  obtain t where t: "HAL_VisionAlgoDev_OasisLite_Run (sim_env sim_known) (sim_running OASIS_DET_REC default_config) =
      Inr (kStatus_HAL_ValgoSuccess, t)"
    "lib_log t = [EvtCb OASISLT_EVT_DET_COMPLETE (sim_para 0 42), EvtCb OASISLT_EVT_REC_COMPLETE (sim_para 0 42)]"
    using sim_known_runs by blast
  have l: "fold reported (lib_log t) (0, 0, 0) = (kOASISLiteRecognitionResult_Success, 42, 1)" using t(2) by (simp add: sim_para_def)
  show ?thesis using frame_opens_lock [OF t(1) _ _ _ _ watch_listens l, of at_idle False] t(1) by (simp add: at_idle_def sim_running_ok)
qed

end
