(* ===== verification/Oasis_Timing.thy ===== *)
theory Oasis_Timing
  imports Oasis_Sim
begin

text \<open>
  After a decision: the result is shown for two seconds by a timer of the operating system, then the
  engine looks for known faces again, or goes to sleep when the settings say so.
\<close>

section \<open>The result timer\<close>

definition showing :: "nat \<Rightarrow> nat \<Rightarrow> ('w, 'd) oasis \<Rightarrow> bool" where
  "showing h e s \<longleftrightarrow> run_flag s = OASIS_RUN_FLAG_NUM \<and> timers_locked (timers s) \<and>
     slot (timers s) = [ResultTimer \<mapsto> \<lparr>handle = h, func = Cb_result, has_lock = True, autoReload = False\<rparr>] \<and>
     rtos_timers (timers s) h = Some \<lparr>period = RESULT_TIMER, expiry = e, active = True, reloads = False, owner = ResultTimer\<rparr>"

lemma decided_run:
  assumes run: "HAL_VisionAlgoDev_OasisLite_Run E s = Inr (st, t)" and fl: "run_flag s \<notin> {OASIS_RUN_FLAG_NUM, OASIS_RUN_FLAG_STOP}"
    and dev: "has_dev s" and k: "frame_kept v s" and num: "run_flag t = OASIS_RUN_FLAG_NUM"
  shows "\<exists>s4. timers_wf (timers s4) \<and> slot (timers s4) = Map.empty \<and> start_timer E RESULT_TIMER Cb_result ResultTimer s4 = Inr ((), t) \<and>
    res_state (res s4) = state_of_flag (run_flag s)"
proof -
  let ?s0 = "s\<lparr>res := zero_result\<lparr>res_state := state_of_flag (run_flag s)\<rparr>, lib_calls := lib_calls s + 1, lib_log := []\<rparr>"
  let ?x = "(results s, timer_timeout s, run_flag s, has_dev s, oasis_mode s, state_of_flag (run_flag s))"
  obtain r0 s1 where s1: "run_lib E (OASISLT_run_extend E (lib_calls s) (run_flag s)) ?s0 = Inr (r0, s1)"
    "process_inference_result E (oasis_lite_check_timeout (advertise_quality s1)) = Inr ((), t)"
    using run fl by (auto simp: HAL_VisionAlgoDev_OasisLite_Run_def Let_def rbind_Inr_iff)
  let ?s2 = "oasis_lite_check_timeout (advertise_quality s1)"
  have k0: "frame_kept v ?s0" using k by simp
  have k2: "frame_kept v ?s2" using alwaysD [OF lib_kept [OF k0] s1(1)] by simp
  have "followed (0, 0, 0) ?x ?s0" by (simp add: followed_def facts_of_def zero_result_def)
  from alwaysD [OF lib_reported [OF this] s1(1)] have s2: "has_dev ?s2" "run_flag ?s2 = run_flag s" "res_state (res ?s2) = state_of_flag (run_flag s)"
    using dev by (auto simp: followed_def check_facts advertise_quality_def)
  obtain b s3 where d: "lock_decision E ?s2 = Inr (b, s3)" using s1(2) s2(1) by (auto simp: process_inference_result_def rbind_Inr_iff)
  have s3: "frame_kept v s3" "res_state (res s3) = state_of_flag (run_flag s)" "run_flag s3 = run_flag s"
    using alwaysD [OF decision_kept [OF k2] d] decision_same [OF d] s2 by (auto simp: same_def rest_def)
  let ?n = "oasis_lite_dev_notify_result E s3"
  have n: "run_flag ?n = run_flag s" "timers ?n = timers s3" "res ?n = res s3" using s3 by (simp_all add: oasis_lite_dev_notify_result_def)
  have b using s1(2) s2(1) d num n fl by (auto simp: process_inference_result_def Let_def split: if_splits)
  then obtain u s4 where s4: "oasis_timers_stop E (?n\<lparr>run_flag := OASIS_RUN_FLAG_NUM\<rparr>) = Inr (u, s4)"
    "start_timer E RESULT_TIMER Cb_result ResultTimer s4 = Inr ((), t)"
    using s1(2) s2(1) d by (auto simp: process_inference_result_def Let_def rbind_Inr_iff simp del: RESULT_TIMER_def)
  have "timers_wf (timers (?n\<lparr>run_flag := OASIS_RUN_FLAG_NUM\<rparr>))" using s3(1) n by (simp add: frame_kept_def timers_ok_def)
  from timers_stop_runs [OF this s4(1)] obtain q T where "s4 = ?n\<lparr>run_flag := OASIS_RUN_FLAG_NUM, qualityCheck := q, timers := T\<rparr>"
    "timers_wf T" "slot T = Map.empty" by blast
  then show ?thesis using s4(2) n s3(2) by (intro exI [of _ s4]) simp
qed

lemma run_shows:
  assumes "HAL_VisionAlgoDev_OasisLite_Run E s = Inr (st, t)" and "run_flag s \<notin> {OASIS_RUN_FLAG_NUM, OASIS_RUN_FLAG_STOP}"
    and "has_dev s" and "engine_ok s" and "run_flag t = OASIS_RUN_FLAG_NUM" and R: "rtos_grants (rtos E)"
  shows "\<exists>h. showing h (ticks (timers t) + RESULT_TIMER) t \<and> res_state (res t) = state_of_flag (run_flag s)"
proof -
  obtain s4 where s4: "timers_wf (timers s4)" "slot (timers s4) = Map.empty"
      "start_timer E RESULT_TIMER Cb_result ResultTimer s4 = Inr ((), t)" "res_state (res s4) = state_of_flag (run_flag s)"
    using decided_run [OF assms(1-3) engine_okD [OF assms(4)] assms(5)] by blast
  have l: "timers_locked (timers s4)" using s4(1,2) by (simp add: timers_locked_def)
  obtain r T where T: "FWK_Timer_Start (rtos E) RESULT_TIMER False Cb_result ResultTimer (timers s4) = Inr (r, T)" "t = s4\<lparr>timers := T\<rparr>"
    using s4(3) by (auto simp: start_timer_def on_tm_def rbind_Inr_iff)
  have "timers_locked T" using start_locked [OF l _ T(1)] R by (simp add: rtos_grants_def)
  then show ?thesis using T s4(2,4) assms(5) start_run [OF R, of RESULT_TIMER False Cb_result ResultTimer "timers s4"]
    by (intro exI [of _ "next_handle (timers s4)"]) (auto simp: showing_def)
qed

lemma early_nothing:
  assumes "showing h e s" and "ticks (timers s) + k < e"
  shows "run_ops (oasis_do E) [Tick k, Expire h] s = Inr ([(), ()], s\<lparr>timers := (timers s)\<lparr>ticks := ticks (timers s) + k\<rparr>\<rparr>)"
  using assms by (simp add: showing_def oasis_expire_def rtos_expire_def rtos_fire_def)

text \<open>When its time has come the timer's callback runs, on a timer that no longer runs.\<close>

definition fired :: "nat \<Rightarrow> nat \<Rightarrow> ('w, 'd) oasis \<Rightarrow> ('w, 'd) oasis" where
  "fired h n s = s\<lparr>timers := set_rtos h (Some \<lparr>period = RESULT_TIMER, expiry = expiry (the (rtos_timers (timers s) h)), active = False,
     reloads = False, owner = ResultTimer\<rparr>) ((timers s)\<lparr>ticks := ticks (timers s) + n\<rparr>)\<rparr>"

lemma fired_locked:
  assumes "showing h e s"
  shows "timers_locked (timers (fired h n s))" and "slot (timers (fired h n s)) = slot (timers s)" and "flags (fired h n s) = flags s"
    and "parts (fired h n s) = parts s" and "res (fired h n s) = res s" and "results (fired h n s) = results s"
proof -
  have "h < next_handle (timers s)" using assms handle_known [of "timers s" h] by (auto simp: showing_def timers_locked_def)
  then show "timers_locked (timers (fired h n s))" using assms
    by (auto simp: fired_def showing_def timers_locked_def timers_wf_def)
qed (simp_all add: fired_def flags_def parts_def)

lemma expire_runs:
  assumes "showing h e s" and "e \<le> ticks (timers s) + n"
  shows "oasis_do E (Expire h) (s\<lparr>timers := (timers s)\<lparr>ticks := ticks (timers s) + n\<rparr>\<rparr>) =
    rbind (oasis_timer_result E (fired h n s)) (\<lambda>(_, u). case slot (timers u) ResultTimer of None \<Rightarrow> Inr ((), u)
      | Some t \<Rightarrow> if autoReload t then Inr ((), u) else rbind (FWK_Timer_Stop (rtos E) ResultTimer (timers u)) (\<lambda>(_, T). Inr ((), u\<lparr>timers := T\<rparr>)))"
  using assms
  by (simp add: showing_def oasis_expire_def rtos_expire_def rtos_fire_def FWK_Timer_Callback_def fired_def)

text \<open>With sleep switched off, or after a registration or deregistration, recognition starts again.\<close>

lemma awake_restarts:
  fixes s :: "('w, 'd) oasis"
  assumes s: "showing h e s" and "\<forall>n. mutex_made (rtos E) n"
    and a: "res_state (res s) = kOASISLiteState_Recognition \<Longrightarrow>
      \<exists>c. HAL_OutputDev_SmartLockConfig_GetSleepMode ((cfg s)\<lparr>cfg_flash := flash s\<rparr>) = Inr (kLPMManagerStatus_SleepDisable, c)"
  shows "\<exists>u. oasis_timer_result E (fired h n s) = Inr ((), u) \<and> timers_locked (timers u) \<and> run_flag u = OASIS_DET_REC"
proof -
  let ?s = "fired h n s"
  have f: "timers_locked (timers ?s)" "run_flag ?s = OASIS_RUN_FLAG_NUM" "res ?s = res s" "cfg ?s = cfg s" "flash ?s = flash s"
    using fired_locked [OF s, of n] s by (auto simp: flags_def parts_def showing_def)
  have go: "\<exists>u. oasis_start_recognition E s' = Inr ((), u) \<and> timers_locked (timers u) \<and> run_flag u = OASIS_DET_REC"
    if "timers s' = timers ?s" "run_flag s' = OASIS_RUN_FLAG_NUM" for s' :: "('w, 'd) oasis"
  proof -
    have "steady (OASIS_RUN_FLAG_NUM, s_blockingList s', prevRunFlag s', length (s_UserName s')) s'"
      using that f(1) by (simp add: steady_def flags_def)
    from start_recognition_steady [OF assms(2) this] show ?thesis by (auto simp: reaches_def steady_def flags_def)
  qed
  show ?thesis
  proof (cases "res_state (res s) = kOASISLiteState_Recognition")
    case True
    then obtain c where "HAL_OutputDev_SmartLockConfig_GetSleepMode ((cfg s)\<lparr>cfg_flash := flash s\<rparr>) = Inr (kLPMManagerStatus_SleepDisable, c)"
      using a by blast
    then show ?thesis using True f go [of "?s\<lparr>cfg := c, flash := cfg_flash c\<rparr>"] by (simp add: oasis_timer_result_def on_cfg_def)
  next
    case False
    then show ?thesis using f go [of ?s] by (simp add: oasis_timer_result_def)
  qed
qed

lemma restarted:
  assumes s: "showing h e s" and "e \<le> ticks (timers s) + n"
    and u: "oasis_timer_result E (fired h n s) = Inr ((), u)" "timers_locked (timers u)"
  shows "\<exists>T. run_ops (oasis_do E) [Tick n, Expire h] s = Inr ([(), ()], u\<lparr>timers := T\<rparr>) \<and> timers_locked T \<and>
    ((\<forall>t. slot (timers u) ResultTimer = Some t \<longrightarrow> \<not> autoReload t) \<longrightarrow> slot T = (slot (timers u))(ResultTimer := None))"
proof (cases "slot (timers u) ResultTimer")
  case None
  have "u\<lparr>timers := timers u\<rparr> = u" by simp
  then show ?thesis using None u expire_runs [OF assms(1,2), of E]
    by (intro exI [of _ "timers u"]) (simp add: fun_upd_idem)
next
  case (Some t)
  obtain r T where T: "FWK_Timer_Stop (rtos E) ResultTimer (timers u) = Inr (r, T)" "timers_locked T"
    "slot T = (slot (timers u))(ResultTimer := None)" using stop_returns [OF u(2)] by blast
  have "u\<lparr>timers := timers u\<rparr> = u" by simp
  then show ?thesis using Some u T expire_runs [OF assms(1,2), of E]
    by (intro exI [of _ "if autoReload t then timers u else T"]) simp
qed

text \<open>With sleep switched on and no low-power device nothing is started: every slot is empty.\<close>

lemma asleep_stays:
  assumes s: "showing h e s" and st: "res_state (res s) = kOASISLiteState_Recognition"
    and g: "HAL_OutputDev_SmartLockConfig_GetSleepMode ((cfg s)\<lparr>cfg_flash := flash s\<rparr>) = Inr (kLPMManagerStatus_SleepEnable, c)"
    and l: "lpm_dev (lpm s) = None"
  shows "oasis_timer_result E (fired h n s) = Inr ((), (fired h n s)\<lparr>cfg := c, flash := cfg_flash c\<rparr>)"
proof -
  let ?s = "fired h n s" and ?D = "lpm_ops E"
  have f: "run_flag ?s = OASIS_RUN_FLAG_NUM" "res ?s = res s" "cfg ?s = cfg s" "flash ?s = flash s" "lpm ?s = lpm s"
    using fired_locked [OF s, of n] s by (auto simp: flags_def parts_def showing_def)
  have k: "FWK_LpmManager_Lock ?D (lpm s) = Inr (kStatus_HAL_LpmLockNull, lpm s)" using l by (simp add: FWK_LpmManager_Lock_def)
  have "\<exists>r. FWK_LpmManager_RequestStatus ?D (lpm s) = Inr ((r, 0), lpm s)" using k by (simp add: FWK_LpmManager_RequestStatus_def)
  then obtain r where r: "FWK_LpmManager_RequestStatus ?D (lpm s) = Inr ((r, 0), lpm s)" by blast
  have e: "FWK_LpmManager_EnableSleepMode ?D kLPMManagerStatus_SleepEnable (lpm s) = Inr (kStatus_HAL_LpmError, lpm s)"
    using k by (simp add: FWK_LpmManager_EnableSleepMode_def)
  have same: "x\<lparr>lpm := lpm x\<rparr> = x" "run_flag x = OASIS_RUN_FLAG_NUM \<Longrightarrow> x\<lparr>run_flag := OASIS_RUN_FLAG_NUM\<rparr> = x" for x :: "('a, 'b) oasis"
    by (cases x; simp)+
  let ?x = "?s\<lparr>cfg := c, flash := cfg_flash c\<rparr>"
  have "?x\<lparr>lpm := lpm s\<rparr> = ?x" using same(1) [of ?x] f by simp
  then show ?thesis using st f g r e same(2) [of ?x] by (simp add: oasis_timer_result_def on_cfg_def on_lpm_def)
qed

section \<open>Nothing happens without an event\<close>

text \<open>The engine neither looks at frames nor waits for a timer.\<close>

definition idle_engine :: "('w, 'd) oasis \<Rightarrow> bool" where
  "idle_engine s \<longleftrightarrow> run_flag s = OASIS_RUN_FLAG_NUM \<and> slot (timers s) = Map.empty"

fun unattended :: "oasis_step \<Rightarrow> bool" where
  "unattended (Input _ _) = False"
| "unattended PreSleep = False"
| "unattended _ = True"

lemma idle_run: "run_flag s = OASIS_RUN_FLAG_NUM \<Longrightarrow> HAL_VisionAlgoDev_OasisLite_Run E s = Inr (kStatus_HAL_ValgoSuccess, s)"
  by (simp add: HAL_VisionAlgoDev_OasisLite_Run_def)

lemma idle_step:
  assumes "idle_engine s" and "unattended p"
  shows "\<exists>t. oasis_do E p s = Inr ((), t) \<and> idle_engine t \<and> results t = results s"
proof (cases p)
  case (Frame i)
  then show ?thesis using assms
    by (simp add: idle_run response_frame_def Let_def idle_engine_def)
next
  case (Expire h)
  show ?thesis
  proof (cases "rtos_fire h (timers s)")
    case None
    then show ?thesis using Expire assms by (simp add: oasis_expire_def rtos_expire_def)
  next
    case (Some q)
    then have "slot (snd q) = Map.empty" using assms by (auto simp: rtos_fire_def idle_engine_def split: option.splits if_splits)
    then show ?thesis using Expire Some assms
      by (cases q) (simp add: oasis_expire_def rtos_expire_def FWK_Timer_Callback_def idle_engine_def)
  qed
qed (use assms in \<open>simp_all add: idle_engine_def\<close>)

lemma idle_runs:
  "idle_engine s \<Longrightarrow> list_all unattended ps \<Longrightarrow>
    \<exists>rs t. run_ops (oasis_do E) ps s = Inr (rs, t) \<and> idle_engine t \<and> results t = results s"
proof (induction ps arbitrary: s)
  case (Cons p ps)
  obtain t where t: "oasis_do E p s = Inr ((), t)" "idle_engine t" "results t = results s"
    using idle_step [OF Cons.prems(1), of p E] Cons.prems(2) by auto
  then show ?case using Cons.IH [OF t(2)] Cons.prems(2) by force
qed simp

section \<open>The properties\<close>

text \<open>C18: When a frame has decided, the result is shown for two seconds and not a tick less, whatever was
  decided; then, with sleep switched off or after a registration or deregistration, the engine looks for
  known faces again.\<close>
theorem result_then_recognition:
  assumes "HAL_VisionAlgoDev_OasisLite_Run E s = Inr (st, t)" and "run_flag s \<notin> {OASIS_RUN_FLAG_NUM, OASIS_RUN_FLAG_STOP}"
    and "has_dev s" and "engine_ok s" and "run_flag t = OASIS_RUN_FLAG_NUM" and "rtos_grants (rtos E)"
    and "run_flag s \<in> {OASIS_DET_REC_REG, OASIS_DET_REC_DEREG} \<or>
      HAL_OutputDev_SmartLockConfig_GetSleepMode ((cfg t)\<lparr>cfg_flash := flash t\<rparr>) = Inr (kLPMManagerStatus_SleepDisable, c)"
  shows "\<exists>h. (\<forall>k < 2000. \<exists>v. run_ops (oasis_do E) [Tick k, Expire h] t = Inr ([(), ()], v) \<and> run_flag v = OASIS_RUN_FLAG_NUM \<and> res v = res t) \<and>
    (\<exists>u. run_ops (oasis_do E) [Tick 2000, Expire h] t = Inr ([(), ()], u) \<and> run_flag u = OASIS_DET_REC)"
proof -
  obtain h where h: "showing h (ticks (timers t) + 2000) t" "res_state (res t) = state_of_flag (run_flag s)"
    using run_shows [OF assms(1-6)] by auto
  have early: "\<exists>v. run_ops (oasis_do E) [Tick k, Expire h] t = Inr ([(), ()], v) \<and> run_flag v = OASIS_RUN_FLAG_NUM \<and> res v = res t"
    if "k < 2000" for k
    using early_nothing [OF h(1), of k E] that h(1) by (simp add: showing_def)
  have m: "\<forall>n. mutex_made (rtos E) n" using assms(6) by (simp add: rtos_grants_def)
  obtain u where u: "oasis_timer_result E (fired h 2000 t) = Inr ((), u)" "timers_locked (timers u)" "run_flag u = OASIS_DET_REC"
    using awake_restarts [OF h(1) m, of 2000] h(2) assms(7) by (auto simp: state_of_flag_def)
  obtain T where "run_ops (oasis_do E) [Tick 2000, Expire h] t = Inr ([(), ()], u\<lparr>timers := T\<rparr>)"
    using restarted [OF h(1) _ u(1,2)] by auto
  then show ?thesis using early u(3) by (intro exI [of _ h]) auto
qed

theorem result_then_recognition_witness:
  "\<exists>t h v u. HAL_VisionAlgoDev_OasisLite_Run (sim_env sim_known) (sim_running OASIS_DET_REC default_config) = Inr (kStatus_HAL_ValgoSuccess, t) \<and>
    run_ops (oasis_do (sim_env sim_known)) [Tick 1999, Expire h] t = Inr ([(), ()], v) \<and> run_flag v = OASIS_RUN_FLAG_NUM \<and>
    run_ops (oasis_do (sim_env sim_known)) [Tick 2000, Expire h] t = Inr ([(), ()], u) \<and> run_flag u = OASIS_DET_REC"
proof -
  obtain t where t: "HAL_VisionAlgoDev_OasisLite_Run (sim_env sim_known) (sim_running OASIS_DET_REC default_config) = Inr (kStatus_HAL_ValgoSuccess, t)"
    "run_flag t = OASIS_RUN_FLAG_NUM" "cfg t = (sim_settings default_config)\<lparr>cfg_flash := cfg_flash (cfg t)\<rparr>"
    using sim_known_runs [of default_config] by blast
  have "(cfg t)\<lparr>cfg_flash := flash t\<rparr> = (sim_settings default_config)\<lparr>cfg_flash := flash t\<rparr>" by (subst t(3)) simp
  then have "HAL_OutputDev_SmartLockConfig_GetSleepMode ((cfg t)\<lparr>cfg_flash := flash t\<rparr>) =
      Inr (kLPMManagerStatus_SleepDisable, (sim_settings default_config)\<lparr>cfg_flash := flash t\<rparr>)"
    using sim_sleep_mode(1) [of default_config] by simp
  from result_then_recognition [OF t(1) _ _ _ t(2), OF _ _ _ _ disjI2 [OF this]] obtain h u where
    early: "\<forall>k < 2000. \<exists>v. run_ops (oasis_do (sim_env sim_known)) [Tick k, Expire h] t = Inr ([(), ()], v) \<and> run_flag v = OASIS_RUN_FLAG_NUM \<and> res v = res t"
    and u: "run_ops (oasis_do (sim_env sim_known)) [Tick 2000, Expire h] t = Inr ([(), ()], u)" "run_flag u = OASIS_DET_REC"
    by (auto simp: sim_running_ok sim_grants)
  obtain v where v: "run_ops (oasis_do (sim_env sim_known)) [Tick 1999, Expire h] t = Inr ([(), ()], v)" "run_flag v = OASIS_RUN_FLAG_NUM"
    using early [rule_format, of 1999] by auto
  show ?thesis using t(1) u v by blast
qed

text \<open>C27: With sleep switched on and no low-power device registered, the decision of a recognition ends
  recognition: when its two seconds are over the engine waits for ever, and frames, timers and time show
  no further result until an event comes.\<close>
theorem sleep_without_device_pauses:
  assumes "HAL_VisionAlgoDev_OasisLite_Run E s = Inr (st, t)" and "run_flag s = OASIS_DET_REC"
    and "has_dev s" and "engine_ok s" and "run_flag t = OASIS_RUN_FLAG_NUM" and "rtos_grants (rtos E)"
    and "HAL_OutputDev_SmartLockConfig_GetSleepMode ((cfg t)\<lparr>cfg_flash := flash t\<rparr>) = Inr (kLPMManagerStatus_SleepEnable, c)"
    and "lpm_dev (lpm t) = None" and "list_all unattended ps"
  shows "\<exists>h u rs v. run_ops (oasis_do E) [Tick 2000, Expire h] t = Inr ([(), ()], u) \<and> run_ops (oasis_do E) ps u = Inr (rs, v) \<and>
    run_flag v = OASIS_RUN_FLAG_NUM \<and> results v = results t"
proof -
  obtain h where h: "showing h (ticks (timers t) + 2000) t" "res_state (res t) = kOASISLiteState_Recognition"
    using run_shows [OF assms(1) _ assms(3-6)] assms(2) by (auto simp: state_of_flag_def)
  note f = fired_locked [OF h(1), of 2000]
  let ?u = "(fired h 2000 t)\<lparr>cfg := c, flash := cfg_flash c\<rparr>"
  have u: "oasis_timer_result E (fired h 2000 t) = Inr ((), ?u)" by (rule asleep_stays [OF h assms(7,8)])
  have a: "\<forall>x. slot (timers ?u) ResultTimer = Some x \<longrightarrow> \<not> autoReload x" using f(2) h(1) by (simp add: showing_def)
  obtain T where T: "run_ops (oasis_do E) [Tick 2000, Expire h] t = Inr ([(), ()], ?u\<lparr>timers := T\<rparr>)"
    "slot T = (slot (timers ?u))(ResultTimer := None)"
    using restarted [OF h(1) _ u] f(1) a by auto
  have "idle_engine (?u\<lparr>timers := T\<rparr>)" using T(2) f(2,3) h(1) by (auto simp: idle_engine_def showing_def flags_def)
  from idle_runs [OF this assms(9)] obtain rs v where
    "run_ops (oasis_do E) ps (?u\<lparr>timers := T\<rparr>) = Inr (rs, v)" "idle_engine v" "results v = results (?u\<lparr>timers := T\<rparr>)" by blast
  then show ?thesis using T(1) f(6) by (intro exI [of _ h] exI [of _ "?u\<lparr>timers := T\<rparr>"] exI [of _ rs] exI [of _ v]) (simp add: idle_engine_def)
qed

theorem sleep_without_device_pauses_witness:
  "\<exists>t h u rs v. HAL_VisionAlgoDev_OasisLite_Run (sim_env sim_known) (sim_running OASIS_DET_REC (default_config\<lparr>sleepMode := 1\<rparr>)) =
      Inr (kStatus_HAL_ValgoSuccess, t) \<and> run_ops (oasis_do (sim_env sim_known)) [Tick 2000, Expire h] t = Inr ([(), ()], u) \<and>
    run_ops (oasis_do (sim_env sim_known)) [Frame kVAlgoFrameID_RGB, Frame kVAlgoFrameID_IR, Tick 60000, Expire 0] u = Inr (rs, v) \<and>
    run_flag v = OASIS_RUN_FLAG_NUM \<and> results v = results t"
proof -
  let ?c = "default_config\<lparr>sleepMode := 1\<rparr>" and ?ps = "[Frame kVAlgoFrameID_RGB, Frame kVAlgoFrameID_IR, Tick 60000, Expire 0]"
  obtain t where t: "HAL_VisionAlgoDev_OasisLite_Run (sim_env sim_known) (sim_running OASIS_DET_REC ?c) = Inr (kStatus_HAL_ValgoSuccess, t)"
    "run_flag t = OASIS_RUN_FLAG_NUM" "cfg t = (sim_settings ?c)\<lparr>cfg_flash := cfg_flash (cfg t)\<rparr>" "lpm_dev (lpm t) = None"
    using sim_known_runs [of ?c] by blast
  have "(cfg t)\<lparr>cfg_flash := flash t\<rparr> = (sim_settings ?c)\<lparr>cfg_flash := flash t\<rparr>" by (subst t(3)) simp
  moreover have "config_wf ?c" using default_config_simps(1) by (simp add: config_wf_def)
  ultimately have g: "HAL_OutputDev_SmartLockConfig_GetSleepMode ((cfg t)\<lparr>cfg_flash := flash t\<rparr>) =
      Inr (kLPMManagerStatus_SleepEnable, (sim_settings ?c)\<lparr>cfg_flash := flash t\<rparr>)"
    using sim_sleep_mode(1) [of ?c] by simp
  have ok: "engine_ok (sim_running OASIS_DET_REC ?c)" "list_all unattended ?ps" by (simp_all add: sim_running_ok)
  have R: "rtos_grants (rtos (sim_env sim_known))" by (simp add: sim_grants)
  show ?thesis using sleep_without_device_pauses [OF t(1) sim_running_ok(2,3) ok(1) t(2) R g t(4) ok(2)] t(1) by blast
qed

end
