(* ===== verification/Oasis_Enroll.thy ===== *)
theory Oasis_Enroll
  imports Oasis_Timing
begin

text \<open>
  A registration from the event with the name to the stored face: the event waits for the next face,
  the library hands one over, the face database stores it under a free slot, and the result names the
  slot. The face database's promise (\<open>Facedb_Vault\<close>) is used on the engine's copy of it. What the library does
  in such a run is a predicate on its tree of calls, \<open>registers\<close>, which follows its header.
\<close>

section \<open>The database in the engine\<close>

definition db_of :: "('w, 'd) oasis \<Rightarrow> 'w facedb" where
  "db_of s = (fdb s)\<lparr>fdb_flash := flash s\<rparr>"

lemma vault_flash [simp]: "vault (d\<lparr>fdb_flash := w\<rparr>) = vault d" "used (d\<lparr>fdb_flash := w\<rparr>) = used d"
  by (rule ext, simp add: vault_def saved_faces_def face_name_def face_feature_def face_entry_def) (simp add: used_def)

lemma vault_db_of [simp]: "vault (db_of s) = vault (fdb s)" "used (db_of s) = used (fdb s)"
  by (simp_all add: db_of_def)

lemma on_fdb_db: "on_fdb f s = rbind (f (db_of s)) (\<lambda>(r, d). Inr (r, s\<lparr>fdb := d, flash := fdb_flash d\<rparr>))"
  by (simp add: on_fdb_def db_of_def)

lemma settledD:
  assumes "settled ready entries fs d"
  shows "s_FaceDB d \<noteq> None" "s_FaceDBLock d = Some False" "fdb_wf d" "ram_ok d" "unat (s_FaceEntrySize d) = unat fs + 32"
    "used d = saved_faces d"
  using assms by (auto simp: settled_def synced_def ram_ok_def)

text \<open>A stored face is found under its identifier.\<close>

lemma name_found:
  assumes d: "settled ready entries fs d" and v: "vault d (unat fid) = Some (name, feat)" and i: "unat fid < 100" and n: "length name \<le> 31"
    and s: "db_of s = d"
  shows "face_name_of fid s = Inr (Some name, s\<lparr>fdb := d, flash := fdb_flash d\<rparr>)"
proof -
  obtain db where db: "s_FaceDB d = Some db" "100 * unat (s_FaceEntrySize d) \<le> length db" using ram_ok_table [OF settledD(4) [OF d]] by blast
  let ?o = "unat fid * unat (s_FaceEntrySize d)"
  have sv: "unat fid \<in> saved_faces d" "face_name d (unat fid) = name" using v by (auto simp: vault_def split: if_splits)
  then have u: "has_flag FACE_IN_USE (faceMapping (s_OasisMetadata d) ! unat fid)" using settledD(6) [OF d] by (auto simp: used_def)
  let ?l = "d\<lparr>s_FaceDBLock := Some True\<rparr>"
  have "HAL_Facedb_GetName fid d = Inr (Some ?o, ?l\<lparr>s_FaceDBLock := Some False\<rparr>)"
    unfolding HAL_Facedb_GetName_def
    by (rule locked_run [OF settledD(1,2) [OF d]]) (use i u in \<open>simp_all add: mapping_at_def FACE_ENTRY_def\<close>)
  moreover have "?l\<lparr>s_FaceDBLock := Some False\<rparr> = d" using settledD(2) [OF d] by (cases d) simp
  ultimately have g: "HAL_Facedb_GetName fid d = Inr (Some ?o, d)" by simp
  have fits: "?o + unat (s_FaceEntrySize d) \<le> length db" using entry_fits [OF i db(2)] .
  have e: "take 32 (face_entry d (unat fid)) = take 32 (drop ?o db)"
    using settledD(5) [OF d] db(1) by (simp add: face_entry_def slice_def)
  have l: "length (take 32 (drop ?o db)) = 32" using fits settledD(5) [OF d] by simp
  have nm: "cstr (take 32 (drop ?o db)) = name" using sv(2) e by (simp add: face_name_def)
  have z: "0 \<in> set (take 32 (drop ?o db))"
  proof (rule ccontr)
    assume "0 \<notin> set (take 32 (drop ?o db))"
    then have "cstr (take 32 (drop ?o db)) = take 32 (drop ?o db)" unfolding cstr_def by (subst takeWhile_eq_all_conv) auto
    then show False using l nm n by simp
  qed
  have "c_text (drop ?o db) = Inr name"
  proof -
    have "cstr (take 32 (drop ?o db) @ drop 32 (drop ?o db)) = cstr (take 32 (drop ?o db))"
      unfolding cstr_def using z by (intro takeWhile_append1) auto
    moreover have "0 \<in> set (drop ?o db)" using z by (meson in_set_takeD)
    ultimately show ?thesis using nm by (simp only: append_take_drop_id c_text_def if_True)
  qed
  then show ?thesis using g db(1) s by (simp add: face_name_of_def on_fdb_db face_db_def)
qed

lemma sint_wider: "sint (ucast (w :: u16) :: u32) = int (unat w)"
proof -
  have b: "uint w < 65536" "0 \<le> uint w" using uint_lt2p [of w] by simp_all
  have "uint (ucast w :: u32) = uint w" using b by (simp add: unsigned_ucast_eq take_bit_int_eq_self)
  moreover have "signed_take_bit 31 (uint w) = uint w"
  proof (rule signed_take_bit_int_eq_self)
    show "- (2 ^ 31) \<le> uint w" using b(2) by (rule order_trans [rotated]) simp
    show "uint w < 2 ^ 31" using b(1) by simp
  qed
  ultimately show ?thesis by (simp add: sint_uint)
qed

text \<open>The library hands over a face: it is stored in a free slot under the name that waits.\<close>

lemma add_face_runs:
  assumes R: "roomy_flash ready entries" and d: "settled ready entries fs (db_of s)" and sz: "OASISLT_getFaceItemSize E = ucast fs"
    and nm: "s_UserNameReference s = Name_Buffer" "c_text (s_UserName s) = Inr name" "length name \<le> 31" "0 \<notin> set name"
    and room: "card (used (fdb s)) < 100" and face: "length face = unat fs"
  shows "\<exists>fid d'. unat fid < 100 \<and> vault (fdb s) (unat fid) = None \<and>
    oasis_lite_AddFace E (Some face) s = Inr (Added 0 (Some fid), s\<lparr>fdb := d', flash := fdb_flash d', s_UserNameReference := Name_NULL\<rparr>) \<and>
    settled ready entries fs d' \<and> vault d' = (vault (fdb s))(unat fid \<mapsto> (name, face))"
proof -
  note D = settledD [OF d]
  define i where "i = (LEAST i. i < 100 \<and> i \<notin> used (db_of s))"
  obtain k where "k < 100" "k \<notin> used (db_of s)" using free_slot [of "db_of s"] room by auto
  then have i: "i < 100" "i \<notin> used (db_of s)" unfolding i_def using LeastI [of "\<lambda>i. i < 100 \<and> i \<notin> used (db_of s)"] by blast+
  let ?fid = "of_nat i :: u16"
  have u: "unat ?fid = i" using i(1) by (simp add: unat_of_nat)
  have g: "HAL_Facedb_GenId (Some 0) (db_of s) = Inr ((kFaceDBStatus_Success, Some ?fid), db_of s)"
    using gen_id_fresh [OF D(3,1,2), of 0] room by (simp add: i_def)
  have f: "sint (ucast fs :: u32) = int (unat fs)" by (rule sint_wider)
  obtain d' where d': "HAL_Facedb_AddFace ?fid (Some name) (Some face) (int (unat fs)) (db_of s) = Inr (kFaceDBStatus_Success, d')"
    "synced ready entries d'" "s_FaceDBLock d' = Some False" "enrolled (db_of s) ?fid name (take (unat fs) face) d'"
    using roomy_flash.add_face_ok [OF R _ D(2), of ?fid name "int (unat fs)" face] d i u nm(3) D(5) face by (auto simp: settled_def)
  have e: "enrolled (db_of s) ?fid name face d'" using d'(4) face by simp
  have "settled ready entries fs d'" using d' e D(5,6) by (simp add: settled_def enrolled_def)
  moreover have "vault d' = (vault (db_of s))(unat ?fid \<mapsto> (name, face))"
    by (rule vault_enrolled [OF D(4) e]) (use u i nm D(5) face in simp_all)
  moreover have "vault (fdb s) i = None" using i(2) D(6) by (simp add: vault_def db_of_def saved_faces_def)
  moreover have "?fid \<noteq> INVALID_ID"
  proof
    assume "?fid = INVALID_ID"
    then have "unat ?fid = unat (INVALID_ID :: u16)" by simp
    then show False using u i(1) by simp
  qed
  moreover have "db_of (s\<lparr>fdb := db_of s, flash := fdb_flash (db_of s)\<rparr>) = db_of s" by (simp add: db_of_def)
  ultimately show ?thesis using u i(1) g d'(1) nm f sz
    by (intro exI [of _ ?fid] exI [of _ d']) (simp add: oasis_lite_AddFace_def on_fdb_db reference_name_def Let_def)
qed

section \<open>Through a frame\<close>

text \<open>What a run of the engine leaves alone, together with its control.\<close>

definition kept :: "run_flag \<times> u16 \<times> run_flag \<times> nat \<Rightarrow> 'w facedb \<times> 'w cfg_st \<times> 'w fwk_flash \<times> 'd lpm_manager \<times> bool \<times> u8 \<times> nat \<times> name_ptr \<times> u8 list \<Rightarrow>
    ('w, 'd) oasis \<Rightarrow> bool" where
  "kept v x s \<longleftrightarrow> steady v s \<and> parts s = x"

lemma kept_both: "reaches (steady v) m \<Longrightarrow> always (\<lambda>s. parts s = x) m \<Longrightarrow> reaches (kept v x) m"
  by (auto simp: reaches_def always_def kept_def)

lemma kept_timers:
  assumes "kept v x s"
  shows "reaches (kept v x) (oasis_timers_stop E s)" "\<forall>n. mutex_made (rtos E) n \<Longrightarrow> reaches (kept v x) (start_timer E ms cb sl s)"
  using assms by (auto simp: kept_def [of v x s] intro!: kept_both steady_timers_stop parts_timers_stop steady_start parts_timer)

lemma kept_seen:
  assumes "kept v x s"
  shows "reaches (kept v x) (face_seen E s)"
proof -
  have l: "timers_locked (timers s)" using assms by (simp add: kept_def steady_def)
  obtain r T where T: "FWK_Timer_Reset (rtos E) DetFaceTimer (timers s) = Inr (r, T)" "slot T = slot (timers s)"
    using reset_returns [OF timers_lockedD(1) [OF l]] by blast
  then have "timers_locked T" using l reset_wf [OF timers_lockedD(1) [OF l] T(1)] by (simp add: timers_locked_def)
  then show ?thesis using assms T by (simp add: face_seen_def on_tm_def reaches_def kept_def steady_def flags_def)
qed

lemma kept_process:
  assumes "kept v x s"
  shows "reaches (kept v x) (put_process sl s)"
proof -
  have k: "kept v x (upd_res f s)" for f using assms by (simp add: kept_def upd_res_def)
  have "timers_wf (timers s)" using assms by (simp add: kept_def steady_def timers_locked_def)
  then obtain t where "slot (timers s) sl \<noteq> None \<longrightarrow> FWK_Timer_GetRemainingTime sl (timers s) = Inr t"
    by (fastforce simp: FWK_Timer_GetRemainingTime_def dest: timers_wfD)
  then show ?thesis using k by (auto simp: put_process_def reaches_def)
qed

lemma kept_decision:
  assumes "kept v x s"
  shows "reaches (kept v x) (lock_decision E s)"
  unfolding lock_decision_def
  by (cases "res_state (res s)")
    (auto intro!: reaches_bind [OF kept_seen [OF assms]] reaches_bind [OF kept_process] reaches_Inr simp: assms)

lemma kept_inference:
  assumes "kept (f, b, p, n) x s" and "\<forall>n. mutex_made (rtos E) n"
  shows "\<exists>t. process_inference_result E s = Inr ((), t) \<and> parts t = x \<and> timers_locked (timers t)"
proof (cases "has_dev s")
  case True
  obtain d s1 where s1: "lock_decision E s = Inr (d, s1)" "kept (f, b, p, n) x s1" using kept_decision [OF assms(1), of E] by (auto simp: reaches_def)
  let ?s2 = "oasis_lite_dev_notify_result E s1"
  have k: "kept (OASIS_RUN_FLAG_NUM, b, p, n) x (?s2\<lparr>run_flag := OASIS_RUN_FLAG_NUM\<rparr>)" "kept (f, b, p, n) x ?s2"
    using s1(2) by (auto simp: kept_def intro!: steady_flag)
  have "reaches (kept (OASIS_RUN_FLAG_NUM, b, p, n) x) (rbind (oasis_timers_stop E (?s2\<lparr>run_flag := OASIS_RUN_FLAG_NUM\<rparr>)) (\<lambda>(_, s).
      start_timer E RESULT_TIMER Cb_result ResultTimer s))"
    by (rule reaches_bind [OF kept_timers(1) [OF k(1)]]) (rule kept_timers(2) [OF _ assms(2)])
  then show ?thesis using True s1(1) k(2)
    by (cases d) (auto simp: process_inference_result_def Let_def reaches_def kept_def steady_def)
qed (use assms in \<open>simp add: process_inference_result_def kept_def steady_def\<close>)

lemma kept_ending: "kept v x s \<Longrightarrow> kept v x (oasis_lite_check_timeout (advertise_quality s))"
proof -
  assume s: "kept v x s"
  have "kept v x (advertise_quality s)" using s by (simp add: advertise_quality_def kept_def steady_def flags_def parts_def)
  moreover have "kept v x (oasis_lite_check_timeout t)" if "kept v x t" for t :: "('a, 'b) oasis"
    using that by (auto simp: oasis_lite_check_timeout_def kept_def steady_def flags_def parts_def split: oasis_lite_state_t.split)
  ultimately show ?thesis by blast
qed

section \<open>A library that registers\<close>

text \<open>The library is third-party code; what it may do in a run is documented in \<open>oasislite2D_runtime.h\<close>. In
  \<open>registers d face\<close> it does what the header says of a run in registration mode that adds a face: any number
  of detection, quality and recognition events, of reads of the database \<open>d\<close> and of brightness controls, as
  long as the face is not recognised; then \<open>AddFace\<close>; and after it the completion with the identifier it was
  given. The answers of the engine to its calls are those the database gives.\<close>

fun db_answer :: "'w facedb \<Rightarrow> oasis_call \<Rightarrow> oasis_answer" where
  "db_answer d (GetFaces ids faces num) =
     (if num = 0 then Faces 0 ids faces (word_of_int (HAL_Facedb_GetCount d)) (s_FaceDB d)
      else case HAL_Facedb_GetIdsAndFaces ids faces d of
        Inr ((_, ids, faces), _) \<Rightarrow> Faces 0 ids faces num (s_FaceDB d) | _ \<Rightarrow> Nothing)"
| "db_answer d _ = Nothing"

text \<open>Calls that leave the result of the run alone; the arrays for the faces have room for all of them.\<close>

fun aside :: "'w facedb \<Rightarrow> oasis_call \<Rightarrow> bool" where
  "aside d (EvtCb e para) \<longleftrightarrow> e \<in> {OASISLT_EVT_DET_START, OASISLT_EVT_QUALITY_CHK_START, OASISLT_EVT_QUALITY_CHK_COMPLETE,
     OASISLT_EVT_REC_START, OASISLT_EVT_REG_START, OASISLT_EVT_REG_IN_PROGRESS}"
| "aside d (GetFaces ids faces num) \<longleftrightarrow> num = 0 \<or>
     (\<exists>l m. ids = Some l \<and> faces = Some m \<and> card (used d) \<le> length l \<and> card (used d) \<le> length m)"
| "aside d (AdjustBrightness i b) \<longleftrightarrow> True"
| "aside d _ \<longleftrightarrow> False"

text \<open>The end of the detection, and of a recognition that does not know the face.\<close>

fun looks :: "oasis_call \<Rightarrow> bool" where
  "looks (EvtCb e para) \<longleftrightarrow> e = OASISLT_EVT_DET_COMPLETE \<or>
     e = OASISLT_EVT_REC_COMPLETE \<and> recResult para \<noteq> OASIS_REC_RESULT_KNOWN_FACE"
| "looks _ \<longleftrightarrow> False"

primrec finishes :: "'w facedb \<Rightarrow> 'r oasis_lib \<Rightarrow> bool" where
  "finishes d (Return r) = True"
| "finishes d (Call c k) = (aside d c \<and> finishes d (k (db_answer d c)))"

definition completes_with :: "u16 \<Rightarrow> oasis_call \<Rightarrow> bool" where
  "completes_with fid c \<longleftrightarrow> (case c of EvtCb e para \<Rightarrow>
     e = OASISLT_EVT_REG_COMPLETE \<and> regResult para = OASIS_REG_RESULT_OK \<and> faceID para = fid | _ \<Rightarrow> False)"

primrec completes :: "'w facedb \<Rightarrow> u16 \<Rightarrow> 'r oasis_lib \<Rightarrow> bool" where
  "completes d fid (Return r) = False"
| "completes d fid (Call c k) = (if completes_with fid c then finishes d (k Nothing)
     else (aside d c \<or> looks c) \<and> completes d fid (k (db_answer d c)))"

primrec registers :: "'w facedb \<Rightarrow> u8 list \<Rightarrow> 'r oasis_lib \<Rightarrow> bool" where
  "registers d face (Return r) = False"
| "registers d face (Call c k) = (if c = AddFace (Some face)
     then \<forall>fid (d' :: 'w facedb). used d' = insert (unat fid) (used d) \<longrightarrow> completes d' fid (k (Added 0 (Some fid)))
     else (aside d c \<or> looks c) \<and> registers d face (k (db_answer d c)))"

section \<open>The engine under it\<close>

text \<open>What stays under the calls of the library: database, control, timers, the name that waits.\<close>

definition undisturbed :: "'w facedb \<Rightarrow> run_flag \<times> u16 \<times> run_flag \<times> nat \<Rightarrow> bool \<times> u8 \<times> nat \<times> name_ptr \<times> u8 list \<Rightarrow> ('w, 'd) oasis \<Rightarrow> bool" where
  "undisturbed d v w s \<longleftrightarrow> db_of s = d \<and> steady v s \<and> length (res_name (res s)) = 31 \<and>
     (has_dev s, oasis_mode s, lib_calls s, s_UserNameReference s, s_UserName s) = w"

lemma undisturbed_upd [simp]:
  "undisturbed d v w (s\<lparr>lib_log := x1\<rparr>) = undisturbed d v w s" "undisturbed d v w (s\<lparr>qualityCheck := x2\<rparr>) = undisturbed d v w s"
  "undisturbed d v w (s\<lparr>cam_events := x3\<rparr>) = undisturbed d v w s" "undisturbed d v w (s\<lparr>msg_count := x4\<rparr>) = undisturbed d v w s"
  "undisturbed d v w (upd_debug f s) = undisturbed d v w s"
  by (simp_all add: undisturbed_def db_of_def steady_def flags_def upd_debug_def upd_res_def)

lemma undisturbed_result: "undisturbed d v w s \<Longrightarrow> (\<And>r. res_name (f r) = res_name r) \<Longrightarrow> undisturbed d v w (upd_res f s)"
  by (simp add: undisturbed_def db_of_def upd_res_def)

lemma undisturbed_timers:
  assumes "undisturbed d v w s" and "reaches (steady v) m" and "\<And>r t. m = Inr (r, t) \<Longrightarrow> parts t = parts s \<and> res t = res s"
  shows "reaches (undisturbed d v w) m"
  using assms by (fastforce simp: reaches_def undisturbed_def parts_def db_of_def)

lemma undisturbed_start: "undisturbed d v w s \<Longrightarrow> \<forall>n. mutex_made (rtos E) n \<Longrightarrow> reaches (undisturbed d v w) (start_timer E ms cb sl s)"
  using steady_start [of v s E ms cb sl] by (intro undisturbed_timers) (auto simp: undisturbed_def start_timer_def on_tm_def rbind_Inr_iff)

lemma undisturbed_stop: "undisturbed d v w s \<Longrightarrow> reaches (undisturbed d v w) (stop_timer E sl s)"
  using steady_stop [of v s E sl] by (intro undisturbed_timers) (auto simp: undisturbed_def stop_timer_def on_tm_def rbind_Inr_iff split: if_splits)

lemma undisturbed_quality:
  assumes "undisturbed d v w s" and "\<forall>n. mutex_made (rtos E) n"
  shows "reaches (undisturbed d v w) (quality_complete E para s)"
  unfolding quality_complete_def Let_def
  by (intro reaches_if reaches_bind [OF undisturbed_stop] reaches_Inr undisturbed_start [OF _ assms(2)]) (simp_all add: assms(1))

lemma undisturbed_event:
  assumes "undisturbed d v w s" and "\<forall>n. mutex_made (rtos E) n" and "aside d (EvtCb e para) \<or> looks (EvtCb e para)"
  shows "reaches (undisturbed d v w) (oasis_lite_EvtCb E e para s)"
  using assms undisturbed_quality [OF assms(1,2), of para]
  by (cases e) (auto simp: detection_complete_def recognition_complete_def Let_def intro!: reaches_Inr undisturbed_result split: option.splits)

text \<open>The database with its faces, read without a change.\<close>

lemma used_ids_length: "length (used_ids d) = card (used d)"
proof -
  let ?P = "\<lambda>i. has_flag FACE_IN_USE (faceMapping (s_OasisMetadata d) ! i)"
  have "length (used_ids d) = card (set (filter ?P [0..<100]))"
    by (subst distinct_card) (simp_all add: used_ids_def)
  also have "set (filter ?P [0..<100]) = used d" by (auto simp: used_def)
  finally show ?thesis .
qed

lemma faces_read:
  assumes "settled ready entries fs d" and "card (used d) \<le> length ids" and "card (used d) \<le> length faces"
  shows "\<exists>ids' faces'. HAL_Facedb_GetIdsAndFaces (Some ids) (Some faces) d = Inr ((kFaceDBStatus_Success, ids', faces'), d)"
proof -
  let ?l = "d\<lparr>s_FaceDBLock := Some True\<rparr>"
  let ?f = "map (\<lambda>i. Some (FACE_ENTRY ?l i + facedb_entry_t)) (used_ids ?l)"
  have n: "length (used_ids ?l) = card (used d)" by (simp add: used_ids_length)
  have u: "?l\<lparr>s_FaceDBLock := Some False\<rparr> = d" using settledD(2) [OF assms(1)] by (cases d) simp
  have "HAL_Facedb_GetIdsAndFaces (Some ids) (Some faces) d =
    Inr ((kFaceDBStatus_Success, Some (blit 0 (used_ids ?l) ids), Some (blit 0 ?f faces)), ?l\<lparr>s_FaceDBLock := Some False\<rparr>)"
    unfolding HAL_Facedb_GetIdsAndFaces_def
    by (rule locked_run [OF settledD(1,2) [OF assms(1)]]) (use n assms(2,3) in \<open>simp_all add: store_at_def\<close>)
  then show ?thesis unfolding u by blast
qed

lemma undisturbed_call:
  assumes c: "undisturbed d v w s" and m: "\<forall>n. mutex_made (rtos E) n" and d: "settled ready entries fs d" and a: "aside d c \<or> looks c"
  shows "\<exists>t. serve_call E c s = Inr (db_answer d c, t) \<and> undisturbed d v w t"
proof (cases c)
  case (EvtCb e para)
  obtain r t where "oasis_lite_EvtCb E e para s = Inr (r, t)" "undisturbed d v w t" using undisturbed_event [OF c m] a EvtCb by (auto simp: reaches_def)
  then show ?thesis using EvtCb by simp
next
  case (GetFaces ids faces num)
  have db: "HAL_Facedb_GetCount (fdb s) = HAL_Facedb_GetCount d" "s_FaceDB (fdb s) = s_FaceDB d" "(fdb s)\<lparr>fdb_flash := flash s\<rparr> = d"
    using c by (auto simp: undisturbed_def db_of_def HAL_Facedb_GetCount_def)
  show ?thesis
  proof (cases "num = 0")
    case True
    then show ?thesis using GetFaces c db by (simp add: oasis_lite_GetFaces_def)
  next
    case False
    then obtain l f where lf: "ids = Some l" "faces = Some f" "card (used d) \<le> length l" "card (used d) \<le> length f" using a GetFaces by auto
    obtain ids' faces' where r: "HAL_Facedb_GetIdsAndFaces (Some l) (Some f) d = Inr ((kFaceDBStatus_Success, ids', faces'), d)"
      using faces_read [OF d lf(3,4)] by blast
    have "undisturbed d v w (s\<lparr>fdb := d, flash := fdb_flash d\<rparr>)" using c by (simp add: undisturbed_def db_of_def steady_def flags_def)
    then show ?thesis using GetFaces False lf r db by (simp add: oasis_lite_GetFaces_def on_fdb_def)
  qed
next
  case (AdjustBrightness i b)
  then show ?thesis using c by (auto simp: oasis_lite_AdjustBrightness_def oasis_lite_dev_camera_exposure_control_def)
qed (use a in auto)

lemma aside_reports: "aside d c \<Longrightarrow> reported c f = f"
  by (cases c; cases f) auto

lemma lib_finishes:
  assumes m: "\<forall>n. mutex_made (rtos E) n" and d: "settled ready entries fs d"
  shows "finishes d c \<Longrightarrow> undisturbed d v w s \<Longrightarrow> \<exists>r t. run_lib E c s = Inr (r, t) \<and> undisturbed d v w t \<and> facts_of (res t) = facts_of (res s)"
proof (induction c arbitrary: s)
  case (Call c k)
  have a: "aside d c" "finishes d (k (db_answer d c))" using Call.prems(1) by simp_all
  obtain t where t: "serve_call E c s = Inr (db_answer d c, t)" "undisturbed d v w t" using undisturbed_call [OF Call.prems(2) m d] a(1) by blast
  have "same (facts_of (res s)) (rest s) s" by (simp add: same_def)
  from alwaysD [OF call_reported [OF this] t(1)] have f: "facts_of (res t) = facts_of (res s)"
    using aside_reports [OF a(1)] by (simp add: same_def)
  show ?case using Call.IH [OF rangeI a(2), of "t\<lparr>lib_log := lib_log t @ [c]\<rparr>"] t f by simp
qed simp

text \<open>The completion: the name of the face is found and copied into the result.\<close>

lemma completion_runs:
  assumes c: "undisturbed d v w s" and d: "settled ready entries fs d" and p: "completes_with fid c"
    and f: "vault d (unat fid) = Some (name, feat)" "unat fid < 100" "length name \<le> 30"
  shows "\<exists>t n. serve_call E c s = Inr (Nothing, t) \<and> undisturbed d v w t \<and>
    facts_of (res t) = (kOASISLiteRegistrationResult_Success, uint fid, n)"
proof -
  obtain para where e: "c = EvtCb OASISLT_EVT_REG_COMPLETE para" "regResult para = OASIS_REG_RESULT_OK" "faceID para = fid"
    using p by (auto simp: completes_with_def split: oasis_call.splits)
  let ?s = "upd_res (\<lambda>r. r\<lparr>res_result := kOASISLiteRegistrationResult_Success, res_face_id := uint fid\<rparr>) s"
  have c1: "undisturbed d v w ?s" by (rule undisturbed_result [OF c]) simp
  then have db: "db_of ?s = d" "length (res_name (res ?s)) = 31" by (simp_all add: undisturbed_def)
  have n: "face_name_of fid ?s = Inr (Some name, ?s\<lparr>fdb := d, flash := fdb_flash d\<rparr>)"
    by (rule name_found [OF d f(1,2) _ db(1)]) (use f(3) in simp)
  let ?u = "?s\<lparr>fdb := d, flash := fdb_flash d\<rparr>"
  have c2: "undisturbed d v w ?u" using c1 by (simp add: undisturbed_def db_of_def steady_def flags_def)
  let ?t = "upd_res (\<lambda>r. r\<lparr>res_name := blit 0 (name @ [0]) (res_name (res ?u))\<rparr>) ?u"
  have l: "length (res_name (res ?u)) = 31" using c2 by (simp add: undisturbed_def)
  have "copy_name name ?u = Inr ((), ?t)" using f(3) l by (simp add: copy_name_def)
  then have "serve_call E c s = Inr (Nothing, ?t)" using e n by (simp add: registration_complete_def copy_face_name_def)
  moreover have "undisturbed d v w ?t" using c2 f(3) l by (auto simp: undisturbed_def db_of_def upd_res_def length_blit steady_def flags_def)
  moreover have "facts_of (res ?t) = (kOASISLiteRegistrationResult_Success, uint fid, face_count (res s))"
    by (simp add: facts_of_def upd_res_def)
  ultimately show ?thesis by blast
qed

lemma lib_completes:
  assumes m: "\<forall>n. mutex_made (rtos E) n" and d: "settled ready entries fs d"
    and f: "vault d (unat fid) = Some (name, feat)" "unat fid < 100" "length name \<le> 30"
  shows "completes d fid c \<Longrightarrow> undisturbed d v w s \<Longrightarrow>
    \<exists>r t n. run_lib E c s = Inr (r, t) \<and> undisturbed d v w t \<and> facts_of (res t) = (kOASISLiteRegistrationResult_Success, uint fid, n)"
proof (induction c arbitrary: s)
  case (Call c k)
  show ?case
  proof (cases "completes_with fid c")
    case True
    obtain t n where t: "serve_call E c s = Inr (Nothing, t)" "undisturbed d v w t" "facts_of (res t) = (kOASISLiteRegistrationResult_Success, uint fid, n)"
      using completion_runs [OF Call.prems(2) d True f] by blast
    have "finishes d (k Nothing)" using Call.prems(1) True by simp
    from lib_finishes [OF m d this, of v w "t\<lparr>lib_log := lib_log t @ [c]\<rparr>"] show ?thesis using t by auto
  next
    case False
    then have a: "aside d c \<or> looks c" "completes d fid (k (db_answer d c))" using Call.prems(1) by simp_all
    obtain t where t: "serve_call E c s = Inr (db_answer d c, t)" "undisturbed d v w t" using undisturbed_call [OF Call.prems(2) m d a(1)] by blast
    show ?thesis using Call.IH [OF rangeI a(2), of "t\<lparr>lib_log := lib_log t @ [c]\<rparr>"] t by simp
  qed
qed simp

lemma lib_registers:
  assumes m: "\<forall>n. mutex_made (rtos E) n" and R: "roomy_flash ready entries" and d: "settled ready entries fs d"
    and sz: "OASISLT_getFaceItemSize E = ucast fs" and room: "card (used d) < 100" and face: "length face = unat fs"
    and nm: "c_text uname = Inr name" "length name \<le> 30" "0 \<notin> set name"
  shows "registers d face c \<Longrightarrow> undisturbed d v (h, md, k0, Name_Buffer, uname) s \<Longrightarrow>
    \<exists>(fid :: u16) d' r t n. run_lib E c s = Inr (r, t) \<and> undisturbed d' v (h, md, k0, Name_NULL, uname) t \<and> settled ready entries fs d' \<and>
      unat fid < 100 \<and> vault d (unat fid) = None \<and> vault d' = (vault d)(unat fid \<mapsto> (name, face)) \<and>
      facts_of (res t) = (kOASISLiteRegistrationResult_Success, uint fid, n)"
proof (induction c arbitrary: s)
  case (Call c k)
  show ?case
  proof (cases "c = AddFace (Some face)")
    case True
    have s: "db_of s = d" "s_UserNameReference s = Name_Buffer" "s_UserName s = uname" using Call.prems(2) by (simp_all add: undisturbed_def)
    have v: "vault (fdb s) = vault d" "used (fdb s) = used d" using s(1) vault_db_of [of s] by simp_all
    obtain fid d' where a: "unat fid < 100" "vault d (unat fid) = None"
      "oasis_lite_AddFace E (Some face) s = Inr (Added 0 (Some fid), s\<lparr>fdb := d', flash := fdb_flash d', s_UserNameReference := Name_NULL\<rparr>)"
      "settled ready entries fs d'" "vault d' = (vault d)(unat fid \<mapsto> (name, face))"
      using add_face_runs [OF R _ sz, of s name face] d s v nm room face by auto
    let ?t = "s\<lparr>fdb := d', flash := fdb_flash d', s_UserNameReference := Name_NULL, lib_log := lib_log s @ [c]\<rparr>"
    have t: "undisturbed d' v (h, md, k0, Name_NULL, uname) ?t" using Call.prems(2) by (auto simp: undisturbed_def db_of_def steady_def flags_def)
    have "used d' = insert (unat fid) (used d)" using vault_slots [OF d] vault_slots [OF a(4)] a(5) by simp
    then have "completes d' fid (k (Added 0 (Some fid)))" using Call.prems(1) True by simp
    from lib_completes [OF m a(4) _ a(1) nm(2) this t] obtain r u n where "run_lib E (k (Added 0 (Some fid))) ?t = Inr (r, u)"
      "undisturbed d' v (h, md, k0, Name_NULL, uname) u" "facts_of (res u) = (kOASISLiteRegistrationResult_Success, uint fid, n)"
      using a(5) by auto
    moreover have "run_lib E (Call c k) s = run_lib E (k (Added 0 (Some fid))) ?t" using a(3) True by simp
    ultimately show ?thesis using a(1,2,4,5) by metis
  next
    case False
    then have a: "aside d c \<or> looks c" "registers d face (k (db_answer d c))" using Call.prems(1) by simp_all
    obtain t where t: "serve_call E c s = Inr (db_answer d c, t)" "undisturbed d v (h, md, k0, Name_Buffer, uname) t"
      using undisturbed_call [OF Call.prems(2) m d a(1)] by blast
    show ?thesis using Call.IH [OF rangeI a(2), of "t\<lparr>lib_log := lib_log t @ [c]\<rparr>"] t by simp
  qed
qed simp

section \<open>A registration\<close>

lemma cstr_shorter: "0 \<in> set xs \<Longrightarrow> length (cstr xs) < length xs"
  unfolding cstr_def by (induction xs) auto

text \<open>The event with the name puts it into the buffer of the engine.\<close>

lemma named_registration:
  assumes m: "\<forall>n. mutex_made (rtos E) n" and s: "in_control s" "run_flag s \<noteq> OASIS_RUN_FLAG_STOP" and b: "length bytes = 31" "0 \<in> set bytes"
  shows "\<exists>t. oasis_do E (Input r (Ev_AddUser (Some bytes))) s = Inr ((), t) \<and> run_flag t = OASIS_DET_REC_REG \<and> timers_locked (timers t) \<and>
    fdb t = fdb s \<and> flash t = flash s \<and> has_dev t = has_dev s \<and> lib_calls t = lib_calls s \<and> s_UserNameReference t = Name_Buffer \<and>
    c_text (s_UserName t) = Inr (cstr bytes)"
proof -
  let ?s = "s\<lparr>s_UserName := bytes @ drop 31 (s_UserName s), s_UserNameReference := Name_Buffer\<rparr>"
  have l: "length (s_UserName s) = 64" "timers_locked (timers s)" using s(1) by (simp_all add: in_control_def)
  have st: "steady (run_flag s, s_blockingList s, prevRunFlag s, 64) ?s" using l b(1) by (simp add: steady_def flags_def)
  obtain t where t: "oasis_start_registration E ?s = Inr ((), t)" "steady (OASIS_DET_REC_REG, s_blockingList s, prevRunFlag s, 64) t"
    using start_registration_steady [OF m st s(2)] by (auto simp: reaches_def)
  have p: "parts t = parts ?s" using alwaysD [OF parts_start_registration t(1)] by blast
  have "oasis_do E (Input r (Ev_AddUser (Some bytes))) s = Inr ((), t)"
    using t(1) l(1) b(1) by (simp add: add_user_def store_at_def blit_def slice_def)
  moreover have "c_text (bytes @ drop 31 (s_UserName s)) = Inr (cstr bytes)"
    using b(2) by (simp add: c_text_def cstr_def)
  ultimately show ?thesis using t(2) p by (auto simp: parts_def steady_def flags_def)
qed

text \<open>The frame after the event.\<close>

lemma frame_registers:
  assumes R: "roomy_flash ready entries" and m: "\<forall>n. mutex_made (rtos E) n" "\<forall>n. message_ok E n" and sz: "OASISLT_getFaceItemSize E = ucast fs"
    and t: "run_flag t = OASIS_DET_REC_REG" "timers_locked (timers t)" "has_dev t" "s_UserNameReference t = Name_Buffer"
    and nm: "c_text (s_UserName t) = Inr name" "length name \<le> 30" "0 \<notin> set name" and face: "length face = unat fs"
    and d: "settled ready entries fs (db_of t)" "card (used (db_of t)) < 100"
      "registers (db_of t) face (OASISLT_run_extend E (lib_calls t) OASIS_DET_REC_REG)"
  shows "\<exists>(fid :: u16) u r. HAL_VisionAlgoDev_OasisLite_Run E t = Inr (kStatus_HAL_ValgoSuccess, u) \<and> unat fid < 100 \<and>
    vault (db_of t) (unat fid) = None \<and> vault (db_of u) = (vault (db_of t))(unat fid \<mapsto> (name, face)) \<and>
    settled ready entries fs (db_of u) \<and> results u = results t @ [r] \<and> res_state r = kOASISLiteState_Registration \<and>
    facts_of r = (kOASISLiteRegistrationResult_Success, uint fid, face_count r) \<and> run_flag u = OASIS_RUN_FLAG_NUM"
proof -
  let ?lib = "OASISLT_run_extend E (lib_calls t) OASIS_DET_REC_REG" and ?d = "db_of t"
  let ?s0 = "t\<lparr>res := zero_result\<lparr>res_state := kOASISLiteState_Registration\<rparr>, lib_calls := lib_calls t + 1, lib_log := []\<rparr>"
  have s0: "undisturbed ?d (flags t) (True, oasis_mode t, lib_calls t + 1, Name_Buffer, s_UserName t) ?s0"
    using t by (simp add: undisturbed_def db_of_def zero_result_def steady_def flags_def)
  obtain fid :: u16 and d' r0 s1 n where s1: "run_lib E ?lib ?s0 = Inr (r0, s1)"
    "undisturbed d' (flags t) (True, oasis_mode t, lib_calls t + 1, Name_NULL, s_UserName t) s1" "settled ready entries fs d'"
    "unat fid < 100" "vault ?d (unat fid) = None" "vault d' = (vault ?d)(unat fid \<mapsto> (name, face))"
    "facts_of (res s1) = (kOASISLiteRegistrationResult_Success, uint fid, n)"
    using lib_registers [OF m(1) R d(1) sz d(2) face nm d(3) s0] by blast
  have k1: "db_of s1 = d'" "steady (flags t) s1" "has_dev s1" using s1(2) by (simp_all add: undisturbed_def)
  let ?s2 = "oasis_lite_check_timeout (advertise_quality s1)"
  have "kept (flags t) (parts s1) s1" using k1(2) by (simp add: kept_def)
  from kept_ending [OF this] have k: "kept (flags t) (parts s1) ?s2" .
  obtain u where u: "process_inference_result E ?s2 = Inr ((), u)" "parts u = parts s1"
    using kept_inference [OF k [unfolded flags_def] m(1)] by blast
  have "followed (0, 0, 0) (results t, timer_timeout t, run_flag t, has_dev t, oasis_mode t, kOASISLiteState_Registration) ?s0"
    by (simp add: followed_def facts_of_def zero_result_def)
  from alwaysD [OF lib_reported [OF this] s1(1)] have s: "results ?s2 = results t" "res_state (res s1) = kOASISLiteState_Registration"
    by (simp_all add: followed_def check_facts advertise_quality_def)
  have "same (facts_of (res s1)) (rest s1) (advertise_quality s1)" by (simp only: same_helpers) (simp add: same_def)
  then have q: "facts_of (res ?s2) = facts_of (res s1)" "res_state (res ?s2) = kOASISLiteState_Registration" "has_dev ?s2"
    using s1(7) s(2) k1(3) by (auto simp: check_facts same_def rest_def)
  obtain r where r: "results u = results ?s2 @ [r]" "facts_of r = facts_of (res ?s2)" "res_state r = res_state (res ?s2)"
      "run_flag u = (if decides (oasis_mode ?s2) (res_state r) (res_result r) then OASIS_RUN_FLAG_NUM else run_flag ?s2)"
    using inference_shows [OF u(1) q(3) m(2)] by blast
  have w: "results u = results t @ [r]" "res_state r = kOASISLiteState_Registration" "run_flag u = OASIS_RUN_FLAG_NUM"
    "facts_of r = (kOASISLiteRegistrationResult_Success, uint fid, face_count r)"
    using r s(1) q s1(7) by (auto simp: facts_of_def)
  have "HAL_VisionAlgoDev_OasisLite_Run E t = Inr (kStatus_HAL_ValgoSuccess, u)"
    using t(1) s1(1) u(1) w(3) by (simp add: HAL_VisionAlgoDev_OasisLite_Run_def Let_def state_of_flag_def)
  moreover have "db_of u = d'" using u(2) k1(1) by (simp add: parts_def db_of_def)
  ultimately show ?thesis using s1(3-6) w by (intro exI [of _ fid] exI [of _ u] exI [of _ r]) simp
qed

section \<open>The property\<close>

text \<open>C4: A registration, from the event that brings the name to the stored face. In the next picture the library
  does what its header documents of a run that adds a face: detection, quality and recognition events, reads of
  the database, the face added, the completion with the identifier it got. Then the face is stored in a free slot under
  the name of the event, the database is saved, every other face stays, and the result that leaves the engine
  says so and names the slot; then the engine shows it. The mutexes exist, the queues take the messages and the
  flash has room.\<close>
theorem registration_stored:
  assumes R: "roomy_flash ready entries" and "settled ready entries fs ((fdb s)\<lparr>fdb_flash := flash s\<rparr>)"
    and "OASISLT_getFaceItemSize E = ucast fs" and "\<forall>n. mutex_made (rtos E) n" and "\<forall>n. message_ok E n"
    and "in_control s" and "run_flag s \<noteq> OASIS_RUN_FLAG_STOP" and "has_dev s" and "card (used (fdb s)) < 100"
    and "length bytes = 31" and "0 \<in> set bytes" and "length face = unat fs"
    and "registers ((fdb s)\<lparr>fdb_flash := flash s\<rparr>) face (OASISLT_run_extend E (lib_calls s) OASIS_DET_REC_REG)"
  shows "\<exists>t u i r. run_ops (oasis_do E) [Input a (Ev_AddUser (Some bytes))] s = Inr ([()], t) \<and>
    HAL_VisionAlgoDev_OasisLite_Run E t = Inr (kStatus_HAL_ValgoSuccess, u) \<and> i < 100 \<and> vault (fdb s) i = None \<and>
    vault (fdb u) = (vault (fdb s))(i \<mapsto> (cstr bytes, face)) \<and> settled ready entries fs ((fdb u)\<lparr>fdb_flash := flash u\<rparr>) \<and>
    results u = results t @ [r] \<and> res_state r = kOASISLiteState_Registration \<and>
    res_result r = kOASISLiteRegistrationResult_Success \<and> res_face_id r = int i \<and> run_flag u = OASIS_RUN_FLAG_NUM"
proof -
  obtain t where t: "oasis_do E (Input a (Ev_AddUser (Some bytes))) s = Inr ((), t)" "run_flag t = OASIS_DET_REC_REG"
    "timers_locked (timers t)" "fdb t = fdb s" "flash t = flash s" "has_dev t = has_dev s" "lib_calls t = lib_calls s"
    "s_UserNameReference t = Name_Buffer" "c_text (s_UserName t) = Inr (cstr bytes)"
    using named_registration [OF assms(4,6,7,10,11), of a] by blast
  have c: "length (cstr bytes) \<le> 30" "0 \<notin> set (cstr bytes)" using cstr_shorter [OF assms(11)] assms(10) by simp_all
  have db: "db_of t = db_of s" using t(4,5) by (simp add: db_of_def)
  have d: "settled ready entries fs (db_of t)" "card (used (db_of t)) < 100"
    "registers (db_of t) face (OASISLT_run_extend E (lib_calls t) OASIS_DET_REC_REG)"
    using assms(2,9,13) t(7) unfolding db by (simp_all add: db_of_def)
  obtain fid :: u16 and u r where u: "HAL_VisionAlgoDev_OasisLite_Run E t = Inr (kStatus_HAL_ValgoSuccess, u)" "unat fid < 100"
    "vault (db_of t) (unat fid) = None" "vault (db_of u) = (vault (db_of t))(unat fid \<mapsto> (cstr bytes, face))"
    "settled ready entries fs (db_of u)" "results u = results t @ [r]" "res_state r = kOASISLiteState_Registration"
    "facts_of r = (kOASISLiteRegistrationResult_Success, uint fid, face_count r)" "run_flag u = OASIS_RUN_FLAG_NUM"
    using frame_registers [OF R assms(4,5,3) t(2,3) _ t(8,9) c assms(12) d] t(6) assms(8) by auto
  have v: "vault (fdb u) = (vault (fdb s))(unat fid \<mapsto> (cstr bytes, face))" "vault (fdb s) (unat fid) = None"
    "settled ready entries fs ((fdb u)\<lparr>fdb_flash := flash u\<rparr>)" "res_result r = kOASISLiteRegistrationResult_Success" "res_face_id r = int (unat fid)"
    using u(3,4,5,8) t(4) by (simp_all add: db_of_def facts_of_def)
  have "run_ops (oasis_do E) [Input a (Ev_AddUser (Some bytes))] s = Inr ([()], t)" using t(1) by simp
  then show ?thesis
    by (rule_tac exI [of _ t], rule_tac exI [of _ u], rule_tac exI [of _ "unat fid"], rule_tac exI [of _ r]) (intro conjI u v)
qed

text \<open>The first user, "A", of an empty database, with the calls of the header in their order; the library asks how
  many faces there are and registers when none of them is the face.\<close>

definition sim_registering :: "u8 list \<Rightarrow> int oasis_lib" where
  "sim_registering face =
    Call (EvtCb OASISLT_EVT_DET_START (sim_para 0 0)) (\<lambda>_. Call (EvtCb OASISLT_EVT_DET_COMPLETE (sim_para 0 0)) (\<lambda>_.
    Call (EvtCb OASISLT_EVT_QUALITY_CHK_START (sim_para 0 0)) (\<lambda>_. Call (EvtCb OASISLT_EVT_QUALITY_CHK_COMPLETE (sim_para 0 0)) (\<lambda>_.
    Call (EvtCb OASISLT_EVT_REC_START (sim_para 0 0)) (\<lambda>_. Call (GetFaces None None 0) (\<lambda>a. case a of
      Faces _ _ _ n _ \<Rightarrow> if n = 0 then
        Call (EvtCb OASISLT_EVT_REC_COMPLETE (sim_para 1 0)) (\<lambda>_. Call (EvtCb OASISLT_EVT_REG_START (sim_para 0 0)) (\<lambda>_.
        Call (EvtCb OASISLT_EVT_REG_IN_PROGRESS (sim_para 0 0)) (\<lambda>_. Call (AddFace (Some face)) (\<lambda>b. case b of
          Added r (Some fid) \<Rightarrow> if r = 0 then Call (EvtCb OASISLT_EVT_REG_COMPLETE (sim_para 0 fid)) (\<lambda>_. Return 0) else Return r
        | _ \<Rightarrow> Return (- 1)))))
      else Return 0
    | _ \<Rightarrow> Return (- 1)))))))"

lemma sim_registers: "HAL_Facedb_GetCount d = 0 \<Longrightarrow> registers d face (sim_registering face)"
  by (simp add: sim_registering_def sim_para_def completes_with_def)

theorem registration_stored_witness:
  "\<exists>s t u i r. VisionAlgoManager_TaskInit 100 100 (sim_env (\<lambda>_ _. sim_registering (replicate 256 7))) sim_engine = Inr (True, s) \<and>
    run_ops (oasis_do (sim_env (\<lambda>_ _. sim_registering (replicate 256 7)))) [Input False (Ev_AddUser (Some (65 # replicate 30 0)))] s =
      Inr ([()], t) \<and>
    HAL_VisionAlgoDev_OasisLite_Run (sim_env (\<lambda>_ _. sim_registering (replicate 256 7))) t = Inr (kStatus_HAL_ValgoSuccess, u) \<and>
    i < 100 \<and> vault (fdb u) = [i \<mapsto> ([65], replicate 256 7)] \<and> results u = results t @ [r] \<and> res_face_id r = int i"
proof -
  let ?E = "sim_env (\<lambda>_ _. sim_registering (replicate 256 7))"
  obtain s where s: "VisionAlgoManager_TaskInit 100 100 ?E sim_engine = Inr (True, s)" "in_control s" "modes s = (OASIS_DET_REC, {}, True)"
    "settled (lfs_ready sim_platform) (lfs_entries lfs) 256 ((fdb s)\<lparr>fdb_flash := flash s\<rparr>)" "vault (fdb s) = Map.empty" "has_dev s"
    using sim_started by blast
  have e: "used (fdb s) = {}" using vault_slots [OF s(4)] s(5) by simp
  then have c: "card (used (fdb s)) < 100" by simp
  have "numberFaces (s_OasisMetadata (fdb s)) = 0" using settledD(3) [OF s(4)] e by (simp add: fdb_wf_def unat_eq_zero)
  then have "HAL_Facedb_GetCount ((fdb s)\<lparr>fdb_flash := flash s\<rparr>) = 0" by (simp add: HAL_Facedb_GetCount_def)
  then have l: "registers ((fdb s)\<lparr>fdb_flash := flash s\<rparr>) (replicate 256 7) (OASISLT_run_extend ?E (lib_calls s) OASIS_DET_REC_REG)"
    using sim_registers by simp
  have f: "run_flag s \<noteq> OASIS_RUN_FLAG_STOP" using s(3) by (simp add: modes_def)
  have m: "\<forall>n. mutex_made (rtos ?E) n" "\<forall>n. message_ok ?E n" "OASISLT_getFaceItemSize ?E = ucast (256 :: u16)" by (simp_all add: sim_grants)
  have b: "length (65 # replicate 30 0 :: u8 list) = 31" "(0 :: u8) \<in> set (65 # replicate 30 0)" "length (replicate 256 7 :: u8 list) = unat (256 :: u16)"
    by simp_all
  have n: "cstr (65 # replicate 30 0) = [65]" by (simp add: cstr_def)
  show ?thesis using registration_stored [OF sim_roomy s(4) m(3) m(1,2) s(2) f s(6) c b l, of False] s(1,5) unfolding n by auto
qed

section \<open>A timeout of before\<close>

lemma timeout_kept: "timer_timeout s = b \<Longrightarrow> always (\<lambda>s. timer_timeout s = b) (oasis_start_registration E s)"
  unfolding oasis_start_registration_def Let_def oasis_timers_stop_def
  by (intro always_if always_Inr always_seq [where P = "\<lambda>s. timer_timeout s = b"];
    auto simp: stop_timer_def start_timer_def on_tm_def always_def rbind_Inr_iff oasis_lite_dev_notify_result_def split: if_splits)

text \<open>C28: A timer that ran out is not forgotten when a registration begins: when a user asks for one while the
  mark of an expired timer of the recognition before is still set, the first picture ends the registration
  with a timeout, unless that very picture registers the user or finds him registered.\<close>
theorem old_timeout_ends_registration:
  assumes "\<forall>n. mutex_made (rtos E) n" and "\<forall>n. message_ok E n" and "in_control s"
    and "run_flag s \<notin> {OASIS_RUN_FLAG_STOP, OASIS_DET_REC_REG}" and "has_dev s" and "timer_timeout s"
    and "run_ops (oasis_do E) [Input a (Ev_AddUser None)] s = Inr (rs, t)" and "HAL_VisionAlgoDev_OasisLite_Run E t = Inr (st, u)"
    and "fst (fold reported (lib_log u) (0, 0, 0)) \<notin> {kOASISLiteRegistrationResult_Success, kOASISLiteRegistrationResult_Duplicated}"
  shows "\<exists>r. results u = results t @ [r] \<and> res_state r = kOASISLiteState_Registration \<and>
    res_result r = kOASISLiteRegistrationResult_Timeout \<and> run_flag u = OASIS_RUN_FLAG_NUM"
proof -
  let ?s = "s\<lparr>s_UserNameReference := Name_NULL\<rparr>"
  have go: "oasis_start_registration E ?s = Inr ((), t)" using assms(4,7) by (auto simp: add_user_def rbind_Inr_iff)
  have st: "steady (run_flag s, s_blockingList s, prevRunFlag s, 64) ?s" using assms(3) by (simp add: in_control_def steady_def flags_def)
  have "steady (OASIS_DET_REC_REG, s_blockingList s, prevRunFlag s, 64) t"
    using start_registration_steady [OF assms(1) st] assms(4) go by (auto simp: reaches_def)
  then have f: "run_flag t = OASIS_DET_REC_REG" by (simp add: steady_def flags_def)
  have p: "timer_timeout t" using alwaysD [OF timeout_kept go, of True] assms(6) by simp
  have d: "has_dev t" using alwaysD [OF parts_start_registration [OF refl] go] assms(5) by (simp add: parts_def)
  obtain x i n where x: "fold reported (lib_log u) (0, 0, 0) = (x, i, n)" by (cases "fold reported (lib_log u) (0, 0, 0)")
  obtain r where "results u = results t @ [r]" "res_state r = kOASISLiteState_Registration"
    "facts_of r = timed_out kOASISLiteState_Registration (x, i, n)"
    "run_flag u = (if decides (oasis_mode t) (res_state r) (res_result r) then OASIS_RUN_FLAG_NUM else run_flag t)"
    using frame_result [OF assms(8) _ d assms(2)] f p x by (auto simp: state_of_flag_def)
  then show ?thesis using assms(9) x by (auto simp: facts_of_def)
qed

text \<open>A library that sees no face.\<close>

lemma silent_run:
  assumes "OASISLT_run_extend E (lib_calls s) (run_flag s) = Return 0" and "run_flag s \<notin> {OASIS_RUN_FLAG_NUM, OASIS_RUN_FLAG_STOP}"
    and "timers_locked (timers s)" and "\<forall>n. mutex_made (rtos E) n" and "\<forall>n. message_ok E n" and "has_dev s"
  shows "\<exists>st t. HAL_VisionAlgoDev_OasisLite_Run E s = Inr (st, t) \<and> lib_log t = []"
proof -
  let ?s0 = "s\<lparr>res := zero_result\<lparr>res_state := state_of_flag (run_flag s)\<rparr>, lib_calls := lib_calls s + 1, lib_log := []\<rparr>"
  let ?s2 = "oasis_lite_check_timeout (advertise_quality ?s0)"
  have "kept (flags ?s0) (parts ?s0) ?s0" using assms(3) by (simp add: kept_def steady_def)
  from kept_ending [OF this] have k: "kept (flags ?s0) (parts ?s0) ?s2" .
  obtain t where t: "process_inference_result E ?s2 = Inr ((), t)" using kept_inference [OF k [unfolded flags_def] assms(4)] by blast
  have "has_dev ?s2" "lib_log ?s2 = []" using assms(6) by (simp_all add: check_facts advertise_quality_def)
  then have "lib_log t = []" using inference_shows [OF t _ assms(5)] by auto
  then show ?thesis using assms(1,2) t by (simp add: HAL_VisionAlgoDev_OasisLite_Run_def Let_def)
qed

theorem old_timeout_ends_registration_witness:
  "\<exists>s t st u r. VisionAlgoManager_TaskInit 100 100 (sim_env (\<lambda>_ _. Return 0)) sim_engine = Inr (True, s) \<and>
    run_ops (oasis_do (sim_env (\<lambda>_ _. Return 0))) [Input False (Ev_AddUser None)] (s\<lparr>timer_timeout := True\<rparr>) = Inr ([()], t) \<and>
    HAL_VisionAlgoDev_OasisLite_Run (sim_env (\<lambda>_ _. Return 0)) t = Inr (st, u) \<and> results u = results t @ [r] \<and>
    res_result r = kOASISLiteRegistrationResult_Timeout"
proof -
  let ?E = "sim_env (\<lambda>_ _. Return 0)"
  obtain s where s: "VisionAlgoManager_TaskInit 100 100 ?E sim_engine = Inr (True, s)" "in_control s" "modes s = (OASIS_DET_REC, {}, True)" "has_dev s"
    using sim_started by blast
  let ?s = "s\<lparr>timer_timeout := True\<rparr>"
  have s1: "in_control ?s" "run_flag ?s = OASIS_DET_REC" "has_dev ?s" "timer_timeout ?s"
    using s(2-4) by (auto simp: in_control_def engine_ok_def view_def timers_ok_def modes_def stopped_def)
  have m: "\<forall>n. mutex_made (rtos ?E) n" "\<forall>n. message_ok ?E n" by (simp_all add: sim_grants)
  let ?named = "?s\<lparr>s_UserNameReference := Name_NULL\<rparr>"
  have st: "steady (OASIS_DET_REC, s_blockingList s, prevRunFlag s, 64) ?named" using s1(1,2) by (simp add: in_control_def steady_def flags_def)
  obtain t where t: "oasis_start_registration ?E ?named = Inr ((), t)" "steady (OASIS_DET_REC_REG, s_blockingList s, prevRunFlag s, 64) t"
    using start_registration_steady [OF m(1) st] by (auto simp: reaches_def)
  have f: "run_flag t = OASIS_DET_REC_REG" "timers_locked (timers t)" using t(2) by (simp_all add: steady_def flags_def)
  have d: "has_dev t" using alwaysD [OF parts_start_registration [OF refl] t(1)] s(4) by (simp add: parts_def)
  have r: "run_ops (oasis_do ?E) [Input False (Ev_AddUser None)] ?s = Inr ([()], t)" using t(1) s1(2) by (simp add: add_user_def)
  obtain st u where u: "HAL_VisionAlgoDev_OasisLite_Run ?E t = Inr (st, u)" "lib_log u = []"
    using silent_run [OF _ _ f(2) m d] f(1) by auto
  show ?thesis using old_timeout_ends_registration [OF m s1(1) _ s1(3,4) r u(1)] s1(2) u s(1) r by auto
qed

end
