(* ===== verification/Lpm_Standby.thy ===== *)
theory Lpm_Standby
  imports Lpm_Manager
begin

text \<open>
  The standby device, \<open>sln_framework/hal/misc/hal_lpm_standby.c\<close>, as a device of the low-power manager, and
  the manager's promise on top of it: the usage counts count, and the manager does not go to sleep
  while one of them is positive. The device's state is its two timers (None: not created; Some: does it
  run) and its mutex (None: not created; Some: is it taken); that timers and mutex can be created and
  commands are queued is a parameter. It is used from a task, not from an interrupt; the back light and
  the preview of the display are one flag.
\<close>

section \<open>The device\<close>

record lpm_dev_t =
  timer :: "bool option"
  preEnterSleepTimer :: "bool option"
  lock :: "bool option"
  display_on :: bool

record standby_if =
  timer_created :: bool
  pre_timer_created :: bool
  mutex_created :: bool
  queued :: bool

definition put_dev :: "lpm_dev_t \<Rightarrow> lpm_dev_t lpm_manager \<Rightarrow> lpm_dev_t lpm_manager" where
  "put_dev d m = m\<lparr>lpm_dev := Some d\<rparr>"

definition HAL_LpmDev_Lock :: "(lpm_dev_t, int) lpm_op" where
  "HAL_LpmDev_Lock m = (case lpm_dev m of None \<Rightarrow> Inl MemFault | Some d \<Rightarrow>
     case lock d of None \<Rightarrow> Inr (kStatus_HAL_LpmLockNull, m)
     | Some True \<Rightarrow> Inl Deadlock
     | Some False \<Rightarrow> Inr (kStatus_HAL_LpmSuccess, put_dev (d\<lparr>lock := Some True\<rparr>) m))"

definition HAL_LpmDev_Unlock :: "(lpm_dev_t, int) lpm_op" where
  "HAL_LpmDev_Unlock m = (case lpm_dev m of None \<Rightarrow> Inl MemFault | Some d \<Rightarrow>
     case lock d of None \<Rightarrow> Inr (kStatus_HAL_LpmLockNull, m)
     | Some True \<Rightarrow> Inr (kStatus_HAL_LpmSuccess, put_dev (d\<lparr>lock := Some False\<rparr>) m)
     | Some False \<Rightarrow> Inr (kStatus_HAL_LpmLockError, m))"

text \<open>To start or stop a timer: its state is set when the command is queued.\<close>

definition turn :: "standby_if \<Rightarrow> (lpm_dev_t \<Rightarrow> bool option) \<Rightarrow> (bool option \<Rightarrow> lpm_dev_t \<Rightarrow> lpm_dev_t) \<Rightarrow> bool \<Rightarrow> (lpm_dev_t, int) lpm_op" where
  "turn S get put on m = (case lpm_dev m of None \<Rightarrow> Inl MemFault | Some d \<Rightarrow>
     if get d = None then Inr (kStatus_HAL_LpmTimerNull, m)
     else if queued S then Inr (kStatus_HAL_LpmSuccess, put_dev (put (Some on) d) m)
     else Inr (kStatus_HAL_LpmTimerFail, m))"

definition HAL_LpmDev_OpenTimer :: "standby_if \<Rightarrow> (lpm_dev_t, int) lpm_op" where
  "HAL_LpmDev_OpenTimer S = turn S timer (\<lambda>t d. d\<lparr>timer := t\<rparr>) True"

definition HAL_LpmDev_StopTimer :: "standby_if \<Rightarrow> (lpm_dev_t, int) lpm_op" where
  "HAL_LpmDev_StopTimer S = turn S timer (\<lambda>t d. d\<lparr>timer := t\<rparr>) False"

definition HAL_LpmDev_OpenPreEnterSleepTimer :: "standby_if \<Rightarrow> (lpm_dev_t, int) lpm_op" where
  "HAL_LpmDev_OpenPreEnterSleepTimer S = turn S preEnterSleepTimer (\<lambda>t d. d\<lparr>preEnterSleepTimer := t\<rparr>) True"

definition HAL_LpmDev_StopPreEnterSleepTimer :: "standby_if \<Rightarrow> (lpm_dev_t, int) lpm_op" where
  "HAL_LpmDev_StopPreEnterSleepTimer S = turn S preEnterSleepTimer (\<lambda>t d. d\<lparr>preEnterSleepTimer := t\<rparr>) False"

definition HAL_LpmDev_EnterSleep :: "hal_lpm_mode_t \<Rightarrow> (lpm_dev_t, int) lpm_op" where
  "HAL_LpmDev_EnterSleep md m =
    Inr (kStatus_HAL_LpmSuccess, if md = kLPMMode_STANDBY then m\<lparr>lpm_dev := map_option (\<lambda>d. d\<lparr>display_on := False\<rparr>) (lpm_dev m)\<rparr> else m)"

text \<open>The operations without the initialisation, which itself goes through the manager.\<close>

definition standby_core :: "standby_if \<Rightarrow> lpm_dev_t lpm_dev_operator_t" where
  "standby_core S = \<lparr>dev_init = None, openTimer = Some (HAL_LpmDev_OpenTimer S), stopTimer = HAL_LpmDev_StopTimer S,
     openPreEnterTimer = HAL_LpmDev_OpenPreEnterSleepTimer S, stopPreEnterTimer = HAL_LpmDev_StopPreEnterSleepTimer S,
     enterSleep = Some HAL_LpmDev_EnterSleep, dev_lock = Some HAL_LpmDev_Lock, dev_unlock = Some HAL_LpmDev_Unlock\<rparr>"

definition HAL_LpmDev_Init :: "standby_if \<Rightarrow> (lpm_dev_t, int) lpm_op" where
  "HAL_LpmDev_Init S m = (case lpm_dev m of None \<Rightarrow> Inl MemFault | Some d \<Rightarrow>
     let d = d\<lparr>timer := (if timer_created S then Some False else None)\<rparr> in
     if timer d = None then Inr (kStatus_HAL_LpmTimerNull, put_dev d m)
     else
       let d = d\<lparr>preEnterSleepTimer := (if pre_timer_created S then Some False else None)\<rparr> in
       if preEnterSleepTimer d = None then Inr (kStatus_HAL_LpmTimerNull, put_dev d m)
       else
         let d = d\<lparr>lock := (if mutex_created S then Some False else None)\<rparr> in
         if lock d = None then Inr (kStatus_HAL_LpmLockNull, put_dev d m)
         else rbind (FWK_LpmManager_SetSleepMode (standby_core S) kLPMMode_STANDBY (put_dev d m)) (\<lambda>(_, m).
           Inr (kStatus_HAL_LpmSuccess, m)))"

definition s_LpmDevOperators :: "standby_if \<Rightarrow> lpm_dev_t lpm_dev_operator_t" where
  "s_LpmDevOperators S = (standby_core S)\<lparr>dev_init := Some (HAL_LpmDev_Init S)\<rparr>"

definition HAL_LpmDev_Standby_Register :: "(lpm_dev_t, int) lpm_op" where
  "HAL_LpmDev_Standby_Register m =
    rbind (FWK_LpmManager_DeviceRegister \<lparr>timer = None, preEnterSleepTimer = None, lock = None, display_on = True\<rparr> m) (\<lambda>(_, m).
    Inr (0, m))"

section \<open>Interface: a device whose mutex works\<close>

text \<open>
  What the manager needs of the device: its mutex can be taken when it is free, and giving it back
  restores the device as it was.
\<close>

locale lockable_device =
  fixes D :: "'d lpm_dev_operator_t"
    and free :: "'d \<Rightarrow> bool"
    and held :: "'d \<Rightarrow> 'd"
  assumes lock_free: "lpm_dev m = Some d \<Longrightarrow> free d \<Longrightarrow> FWK_LpmManager_Lock D m = Inr (0, m\<lparr>lpm_dev := Some (held d)\<rparr>)"
    and unlock_held: "lpm_dev m = Some (held d) \<Longrightarrow> free d \<Longrightarrow> FWK_LpmManager_Unlock D m = Inr (0, m\<lparr>lpm_dev := Some d\<rparr>)"
begin

lemma change_usage_run:
  assumes "lpm_dev m = Some d" and "free d" and "lpmRequestList m = Some rs"
  shows "change_usage D f fail req m =
    (case on_first (req_dev req) (\<lambda>r. [r\<lparr>usageCount := f (usageCount r)\<rparr>]) rs of
       None \<Rightarrow> Inr (fail, m) | Some rs' \<Rightarrow> Inr (0, m\<lparr>lpmRequestList := Some rs'\<rparr>))"
proof -
  have d: "m\<lparr>lpm_dev := Some d\<rparr> = m" using assms(1) by (cases m) simp
  have c: "m\<lparr>lpm_dev := x, lpmRequestList := l, lpm_dev := Some d\<rparr> = m\<lparr>lpmRequestList := l\<rparr>" for x l
    using assms(1) by (cases m) simp
  show ?thesis
    using assms lock_free [OF assms(1,2)] unlock_held [OF _ assms(2), of "m\<lparr>lpm_dev := Some (held d)\<rparr>"]
      unlock_held [OF _ assms(2), of "m\<lparr>lpm_dev := Some (held d), lpmRequestList := l\<rparr>" for l]
    by (auto simp: change_usage_def Let_def d c split: option.split)
qed

lemma request_status_run:
  assumes "lpm_dev m = Some d" and "free d" and "lpmRequestList m = Some rs"
  shows "FWK_LpmManager_RequestStatus D m =
    Inr ((0, sum_list (map (\<lambda>r. scast (usageCount r)) (filter (\<lambda>r. item_dev r \<noteq> 0) rs))), m)"
proof -
  have d: "m\<lparr>lpm_dev := Some d\<rparr> = m" using assms(1) by (cases m) simp
  show ?thesis
    using assms lock_free [OF assms(1,2)] unlock_held [OF _ assms(2), of "m\<lparr>lpm_dev := Some (held d)\<rparr>"]
    by (simp add: FWK_LpmManager_RequestStatus_def Let_def d)
qed

end

interpretation standby: lockable_device "s_LpmDevOperators S" "\<lambda>d. lock d = Some False" "\<lambda>d. d\<lparr>lock := Some True\<rparr>" for S
proof
  fix m :: "lpm_dev_t lpm_manager" and d
  assume "lpm_dev m = Some (d\<lparr>lock := Some True\<rparr>)" "lock d = Some False"
  moreover from this(2) have "d\<lparr>lock := Some False\<rparr> = d" by (cases d) simp
  ultimately show "FWK_LpmManager_Unlock (s_LpmDevOperators S) m = Inr (0, m\<lparr>lpm_dev := Some d\<rparr>)"
    by (simp add: FWK_LpmManager_Unlock_def s_LpmDevOperators_def standby_core_def HAL_LpmDev_Unlock_def put_dev_def)
qed (simp add: FWK_LpmManager_Lock_def s_LpmDevOperators_def standby_core_def HAL_LpmDev_Lock_def put_dev_def)

section \<open>The counts\<close>

text \<open>The count of a device, read off the first item that names it.\<close>

fun count_of :: "lpm_request_item_t list \<Rightarrow> nat \<Rightarrow> u8 option" where
  "count_of [] d = None"
| "count_of (r # rs) d = (if item_dev r = d then Some (usageCount r) else count_of rs d)"

lemma on_first_count:
  "on_first d (\<lambda>r. [r\<lparr>usageCount := f (usageCount r)\<rparr>]) rs =
    (case count_of rs d of None \<Rightarrow> None | Some c \<Rightarrow> on_first d (\<lambda>r. [r\<lparr>usageCount := f c\<rparr>]) rs)"
  by (induction rs) (auto split: option.splits)

lemma on_first_counts:
  assumes "on_first d (\<lambda>r. [r\<lparr>usageCount := f (usageCount r)\<rparr>]) rs = Some rs'"
  shows "count_of rs' e = (if e = d then map_option f (count_of rs e) else count_of rs e) \<and> map item_dev rs' = map item_dev rs"
  using assms by (induction rs arbitrary: rs') (auto split: if_splits)

lemma on_first_None: "on_first d f rs = None \<longleftrightarrow> count_of rs d = None"
  by (induction rs) auto

lemma counted_used: "count_of rs d = Some c \<Longrightarrow> d \<noteq> 0 \<Longrightarrow> 0 < sint c \<Longrightarrow> list_ex in_use rs"
  by (induction rs) (auto simp: in_use_def split: if_splits)

datatype usage_op = Get nat | Put nat | Set nat u8

fun usage_step :: "'d lpm_dev_operator_t \<Rightarrow> usage_op \<Rightarrow> ('d, int) lpm_op" where
  "usage_step D (Get d) = FWK_LpmManager_RuntimeGet D \<lparr>req_dev = d, req_name = []\<rparr>"
| "usage_step D (Put d) = FWK_LpmManager_RuntimePut D \<lparr>req_dev = d, req_name = []\<rparr>"
| "usage_step D (Set d c) = FWK_LpmManager_RuntimeSet D \<lparr>req_dev = d, req_name = []\<rparr> c"

fun usage_spec :: "usage_op \<Rightarrow> (nat \<rightharpoonup> u8) \<Rightarrow> (nat \<rightharpoonup> u8)" where
  "usage_spec (Get d) m = m(d := map_option (\<lambda>c. c + 1) (m d))"
| "usage_spec (Put d) m = m(d := map_option (\<lambda>c. c - 1) (m d))"
| "usage_spec (Set d c) m = m(d := map_option (\<lambda>_. c) (m d))"

definition standby_idle :: "lpm_dev_t lpm_manager \<Rightarrow> bool" where
  "standby_idle m \<longleftrightarrow> (\<exists>d rs. lpm_dev m = Some d \<and> lock d = Some False \<and> lpmRequestList m = Some rs)"

definition counts :: "'d lpm_manager \<Rightarrow> nat \<rightharpoonup> u8" where
  "counts m = count_of (the (lpmRequestList m))"

lemma change_simulates:
  assumes "standby_idle m"
  shows "\<exists>r m'. change_usage (s_LpmDevOperators S) f fail req m = Inr (r, m') \<and> standby_idle m' \<and>
    counts m' = (counts m)(req_dev req := map_option f (counts m (req_dev req)))"
proof -
  obtain d rs where m: "lpm_dev m = Some d" "lock d = Some False" "lpmRequestList m = Some rs"
    using assms by (auto simp: standby_idle_def)
  show ?thesis
  proof (cases "on_first (req_dev req) (\<lambda>r. [r\<lparr>usageCount := f (usageCount r)\<rparr>]) rs")
    case None
    then have "counts m (req_dev req) = None" using m by (simp add: on_first_None counts_def)
    then have "(counts m)(req_dev req := map_option f (counts m (req_dev req))) = counts m" by (simp add: fun_upd_idem)
    then show ?thesis using standby.change_usage_run [OF m, of S f fail req] None assms by auto
  next
    case (Some rs')
    have "counts (m\<lparr>lpmRequestList := Some rs'\<rparr>) = (counts m)(req_dev req := map_option f (counts m (req_dev req)))"
      using on_first_counts [OF Some] m by (auto simp: counts_def)
    then show ?thesis using standby.change_usage_run [OF m, of S f fail req] Some m by (auto simp: standby_idle_def)
  qed
qed

interpretation usage: implements "usage_step (s_LpmDevOperators S)" standby_idle "\<lambda>_. True" counts usage_spec for S
proof
  fix m :: "lpm_dev_t lpm_manager" and p assume m: "standby_idle m"
  show "\<exists>r m'. usage_step (s_LpmDevOperators S) p m = Inr (r, m') \<and> standby_idle m' \<and> counts m' = usage_spec p (counts m)"
  proof (cases p)
    case (Get d)
    then show ?thesis using change_simulates [OF m, of S "\<lambda>c. c + 1" kStatus_HAL_LpmRuntimeGetFail "\<lparr>req_dev = d, req_name = []\<rparr>"]
      by (auto simp: FWK_LpmManager_RuntimeGet_def)
  next
    case (Put d)
    then show ?thesis using change_simulates [OF m, of S "\<lambda>c. c - 1" kStatus_HAL_LpmRuntimePutFail "\<lparr>req_dev = d, req_name = []\<rparr>"]
      by (auto simp: FWK_LpmManager_RuntimePut_def)
  next
    case (Set d c)
    then show ?thesis using change_simulates [OF m, of S "\<lambda>_. c" kStatus_HAL_LpmRuntimeSetFail "\<lparr>req_dev = d, req_name = []\<rparr>"]
      by (auto simp: FWK_LpmManager_RuntimeSet_def)
  qed
qed

text \<open>With a device in use the periodic check changes nothing.\<close>

lemma used_stays_awake:
  assumes "lpmRequestList m = Some rs" and "list_ex in_use rs"
  shows "FWK_LpmManager_TimerCallback D running m = Inr (0, m)"
  using assms by (simp add: FWK_LpmManager_TimerCallback_def)

text \<open>The gets less the puts of a device, and its count while this number fits.\<close>

fun net :: "usage_op list \<Rightarrow> nat \<Rightarrow> int" where
  "net [] d = 0"
| "net (Get e # ps) d = (if e = d then 1 else 0) + net ps d"
| "net (Put e # ps) d = (if e = d then - 1 else 0) + net ps d"
| "net (Set e c # ps) d = net ps d"

lemma net_counts:
  assumes "list_all (\<lambda>p. case p of Set _ _ \<Rightarrow> False | _ \<Rightarrow> True) ps" and "m d = Some c"
  shows "fold usage_spec ps m d = Some (c + word_of_int (net ps d))"
  using assms
proof (induction ps arbitrary: m c)
  case (Cons p ps)
  have "\<exists>k. usage_spec p m d = Some (c + word_of_int k) \<and> net (p # ps) d = k + net ps d"
    using Cons.prems by (cases p) (auto intro: exI [of _ 0] exI [of _ 1] exI [of _ "- 1"])
  then obtain k where k: "usage_spec p m d = Some (c + word_of_int k)" "net (p # ps) d = k + net ps d" by blast
  show ?case using Cons.IH [of "usage_spec p m"] Cons.prems(1) k by (simp add: add.assoc)
qed simp

end
