(* ===== verification/Lpm_Props.thy ===== *)
theory Lpm_Props
  imports Lpm_Standby
begin

text \<open>
  Properties of the low-power manager with the standby device: who uses the system keeps it awake, up to
  the width of the count.
\<close>

text \<open>C29: Users of the system keep it awake: after any sequence of gets and puts the count of a registered
  device is its gets less its puts, and while that number is positive and fits the eight bits the periodic
  check returns and changes nothing, whatever the other devices did.\<close>
theorem users_keep_awake:
  assumes "standby_idle m" and "counts m d = Some 0" and "d \<noteq> 0"
    and "list_all (\<lambda>p. case p of Set _ _ \<Rightarrow> False | _ \<Rightarrow> True) ps" and "0 < net ps d" and "net ps d < 128"
  shows "\<exists>rs t. run_ops (usage_step (s_LpmDevOperators S)) ps m = Inr (rs, t) \<and> counts t d = Some (word_of_int (net ps d)) \<and>
    FWK_LpmManager_TimerCallback (s_LpmDevOperators S) running t = Inr (kStatus_HAL_LpmSuccess, t)"
proof -
  obtain rs t where t: "run_ops (usage_step (s_LpmDevOperators S)) ps m = Inr (rs, t)" "standby_idle t" "counts t = fold usage_spec ps (counts m)"
    using usage.run_implements [OF assms(1), of ps S] by (auto simp: list_all_iff)
  have c: "counts t d = Some (word_of_int (net ps d))" using net_counts [of ps "counts m" d 0] assms(2,4) t(3) by simp
  have "sint (word_of_int (net ps d) :: u8) = signed_take_bit 7 (net ps d)" by (simp add: signed_of_int)
  also have "\<dots> = net ps d" using assms(5,6) by (intro signed_take_bit_int_eq_self) simp_all
  finally have "0 < sint (word_of_int (net ps d) :: u8)" using assms(5) by simp
  moreover obtain l where l: "lpmRequestList t = Some l" using t(2) by (auto simp: standby_idle_def)
  ultimately have "list_ex in_use l" using counted_used [of l d] c assms(3) by (simp add: counts_def)
  then show ?thesis using t(1) c used_stays_awake [OF l] by auto
qed

definition standby_started :: "lpm_dev_t lpm_manager" where
  "standby_started = \<lparr>lpm_dev = Some \<lparr>timer = Some True, preEnterSleepTimer = Some False, lock = Some False, display_on = True\<rparr>,
     enable = kLPMManagerStatus_SleepEnable, currentMode = kLPMMode_STANDBY,
     lpmRequestList = Some [\<lparr>item_dev = 7, requestName = [], usageCount = 0\<rparr>, \<lparr>item_dev = 9, requestName = [], usageCount = 0\<rparr>],
     pre_sleep_sent = []\<rparr>"

theorem users_keep_awake_witness:
  "\<exists>rs t. run_ops (usage_step (s_LpmDevOperators \<lparr>timer_created = True, pre_timer_created = True, mutex_created = True, queued = True\<rparr>))
      [Get 7, Get 9, Put 9, Get 7, Put 7] standby_started = Inr (rs, t) \<and> counts t 7 = Some 1 \<and>
    FWK_LpmManager_TimerCallback (s_LpmDevOperators \<lparr>timer_created = True, pre_timer_created = True, mutex_created = True, queued = True\<rparr>)
      (\<lambda>_. True) t = Inr (0, t)"
  using users_keep_awake [of standby_started 7 "[Get 7, Get 9, Put 9, Get 7, Put 7]"
      "\<lparr>timer_created = True, pre_timer_created = True, mutex_created = True, queued = True\<rparr>" "\<lambda>_. True"]
  by (simp add: standby_started_def standby_idle_def counts_def)

text \<open>The gets of the only user, one by one.\<close>

lemma gets_run:
  assumes "lpm_dev m = Some d" and "lock d = Some False" and "lpmRequestList m = Some [r]"
  shows "run_ops (usage_step (s_LpmDevOperators S)) (replicate n (Get (item_dev r))) m =
    Inr (replicate n 0, m\<lparr>lpmRequestList := Some [r\<lparr>usageCount := usageCount r + of_nat n\<rparr>]\<rparr>)"
  using assms
proof (induction n arbitrary: m r)
  case (Suc n)
  let ?r = "r\<lparr>usageCount := usageCount r + 1\<rparr>" and ?req = "\<lparr>req_dev = item_dev r, req_name = []\<rparr>"
  have "FWK_LpmManager_RuntimeGet (s_LpmDevOperators S) ?req m = Inr (0, m\<lparr>lpmRequestList := Some [?r]\<rparr>)"
    using standby.change_usage_run [OF Suc.prems, of S "\<lambda>c. c + 1" _ ?req] by (simp add: FWK_LpmManager_RuntimeGet_def)
  then show ?case using Suc.IH [of "m\<lparr>lpmRequestList := Some [?r]\<rparr>" ?r] Suc.prems by (simp add: add.assoc)
next
  case 0
  then show ?case by (cases m) simp
qed

lemma pre_enter_runs:
  assumes "lpm_dev m = Some d" and "preEnterSleepTimer d \<noteq> None" and "queued S"
  shows "\<exists>u. FWK_LpmManager_PreEnterSleep (s_LpmDevOperators S) running m = Inr (0, u) \<and>
    lpm_dev u = Some (d\<lparr>preEnterSleepTimer := Some True\<rparr>)"
  using assms
  by (cases "currentMode m = kLPMMode_SNVS")
    (simp_all add: FWK_LpmManager_PreEnterSleep_def s_LpmDevOperators_def standby_core_def HAL_LpmDev_OpenPreEnterSleepTimer_def turn_def put_dev_def)

text \<open>The count is eight bits wide and signed: 128 users of one device are a negative count, and the
  periodic check sends the system to sleep while all of them use it.\<close>
theorem too_many_users_sleep:
  assumes "lpm_dev m = Some d" and "lock d = Some False" and "timer d \<noteq> None" and "preEnterSleepTimer d \<noteq> None"
    and "lpmRequestList m = Some [\<lparr>item_dev = i, requestName = nm, usageCount = 0\<rparr>]" and "enable m = kLPMManagerStatus_SleepEnable"
    and "queued S"
  shows "\<exists>rs t u. run_ops (usage_step (s_LpmDevOperators S)) (replicate 128 (Get i)) m = Inr (rs, t) \<and> rs = replicate 128 0 \<and>
    FWK_LpmManager_TimerCallback (s_LpmDevOperators S) running t = Inr (kStatus_HAL_LpmSuccess, u) \<and>
    map_option preEnterSleepTimer (lpm_dev u) = Some (Some True)"
proof -
  let ?r = "\<lparr>item_dev = i, requestName = nm, usageCount = 128\<rparr>" and ?D = "s_LpmDevOperators S"
  let ?t = "m\<lparr>lpmRequestList := Some [?r]\<rparr>"
  have t: "run_ops (usage_step ?D) (replicate 128 (Get i)) m = Inr (replicate 128 0, ?t)"
    using gets_run [OF assms(1,2,5), of S 128] by simp
  let ?d = "d\<lparr>timer := Some False\<rparr>"
  have stop: "stopTimer ?D ?t = Inr (0, ?t\<lparr>lpm_dev := Some ?d\<rparr>)"
    using assms by (simp add: s_LpmDevOperators_def standby_core_def HAL_LpmDev_StopTimer_def turn_def put_dev_def)
  obtain u where u: "FWK_LpmManager_PreEnterSleep ?D running (?t\<lparr>lpm_dev := Some ?d\<rparr>) = Inr (0, u)"
    "lpm_dev u = Some (?d\<lparr>preEnterSleepTimer := Some True\<rparr>)"
    using pre_enter_runs [of "?t\<lparr>lpm_dev := Some ?d\<rparr>" ?d S running] assms(4,7) by auto
  have "enterSleep ?D \<noteq> None" by (simp add: s_LpmDevOperators_def standby_core_def)
  then have "FWK_LpmManager_TimerCallback ?D running ?t = Inr (kStatus_HAL_LpmSuccess, u)"
    using assms(1,6) stop u(1) by (simp add: FWK_LpmManager_TimerCallback_def in_use_def)
  then show ?thesis using t u(2) by auto
qed

theorem too_many_users_sleep_witness:
  "\<exists>rs t u. run_ops (usage_step (s_LpmDevOperators \<lparr>timer_created = True, pre_timer_created = True, mutex_created = True, queued = True\<rparr>))
      (replicate 128 (Get 7)) (standby_started\<lparr>lpmRequestList := Some [\<lparr>item_dev = 7, requestName = [], usageCount = 0\<rparr>]\<rparr>) = Inr (rs, t) \<and>
    FWK_LpmManager_TimerCallback (s_LpmDevOperators \<lparr>timer_created = True, pre_timer_created = True, mutex_created = True, queued = True\<rparr>)
      (\<lambda>_. True) t = Inr (kStatus_HAL_LpmSuccess, u) \<and> map_option preEnterSleepTimer (lpm_dev u) = Some (Some True)"
proof -
  let ?S = "\<lparr>timer_created = True, pre_timer_created = True, mutex_created = True, queued = True\<rparr>"
  let ?m = "standby_started\<lparr>lpmRequestList := Some [\<lparr>item_dev = 7, requestName = [], usageCount = 0\<rparr>]\<rparr>"
  let ?d = "\<lparr>timer = Some True, preEnterSleepTimer = Some False, lock = Some False, display_on = True\<rparr>"
  have "lpm_dev ?m = Some ?d" "lock ?d = Some False" "timer ?d \<noteq> None" "preEnterSleepTimer ?d \<noteq> None"
    "lpmRequestList ?m = Some [\<lparr>item_dev = 7, requestName = [], usageCount = 0\<rparr>]" "enable ?m = kLPMManagerStatus_SleepEnable" "queued ?S"
    by (simp_all add: standby_started_def)
  from too_many_users_sleep [OF this, of "\<lambda>_. True"] show ?thesis by blast
qed

end
