(* ===== verification/Fwk_Message.thy ===== *)
theory Fwk_Message
  imports Prelude
begin

text \<open>
  Messages and tasks of the framework, \<open>sln_framework/core/fwk_message.c\<close> and \<open>fwk_task.c\<close>, with the memory
  the messages live in. A message is a static of a manager or a block of the heap; its payload is a
  pointer to a block of the heap, to a buffer that belongs to a device, or NULL. The heap is an explicit
  store, so that a message or a payload that was freed cannot be read, and freed only once: both are
  \<open>MemFault\<close>. A queue has ten places and holds pointers to messages. The operating system's part is its
  documented behaviour: a send that does not wait fails when the queue is full, a task that receives
  waits for a message. Putting a message from an interrupt is the same code.

  The log is modelled where it touches the memory of a message that is no longer the sender's: when the
  log level is verbose, the line after a send reads the message that was sent. Other tasks may run between
  the two, so the reading is a step of its own (\<open>log_reads\<close> are the messages still to be read).
\<close>

section \<open>Tasks, messages and memory\<close>

definition kFWKTaskID_Camera :: nat where [simp]: "kFWKTaskID_Camera = 0"
definition kFWKTaskID_Display :: nat where [simp]: "kFWKTaskID_Display = 1"
definition kFWKTaskID_VisionAlgo :: nat where [simp]: "kFWKTaskID_VisionAlgo = 2"
definition kFWKTaskID_VoiceAlgo :: nat where [simp]: "kFWKTaskID_VoiceAlgo = 3"
definition kFWKTaskID_Output :: nat where [simp]: "kFWKTaskID_Output = 4"
definition kFWKTaskID_Input :: nat where [simp]: "kFWKTaskID_Input = 5"
definition kFWKTaskID_Audio :: nat where [simp]: "kFWKTaskID_Audio = 6"
definition kFWKTaskID_Multicore :: nat where [simp]: "kFWKTaskID_Multicore = 7"
definition kFWKTaskID_APPStart :: nat where [simp]: "kFWKTaskID_APPStart = 8"
definition kFWKTaskID_COUNT :: nat where [simp]: "kFWKTaskID_COUNT = 18"

definition mainQUEUE_LENGTH :: nat where [simp]: "mainQUEUE_LENGTH = 10"

datatype fwk_message_id_t = kFWKMessageID_VAlgoResultUpdate | kFWKMessageID_VAlgoASRResultUpdate
  | kFWKMessageID_DispatcherRequestShowOverlay | kFWKMessageID_InputReceive | kFWKMessageID_InputNotify
  | kFWKMessageID_InputAudioReceived | kFWKMessageID_InputFrameworkReceived | kFWKMessageID_InputFrameworkGetComponents
  | kFWKMessageID_InputFrameworkGetDeviceConfigs | kFWKMessageID_LpmPreEnterSleep | kFWKMessageID_AudioDump | kFWKMessageID_Invalid

datatype framework_events_t = kFrameworkEvents_GetManagerInfo | kFrameworkEvents_GetManagerComponents | kFrameworkEvents_GetDeviceConfigs

record framework_request_t =
  frameworkEventId :: framework_events_t
  managerId :: nat
  deviceName :: "u8 list"
  respond :: bool

text \<open>\<open>event_info_t\<close> and \<open>msg_info_t\<close> have the same values.\<close>

definition kMsgInfo_DualCore :: nat where [simp]: "kMsgInfo_DualCore = 0"
definition kMsgInfo_Local :: nat where [simp]: "kMsgInfo_Local = 1"
definition kMsgInfo_Remote :: nat where [simp]: "kMsgInfo_Remote = 2"
definition kMsgInfo_Invalid :: nat where [simp]: "kMsgInfo_Invalid = 3"

datatype data_ptr = Heap_Data nat | Dev_Data nat

text \<open>The parts of the union at the end of a payload are fields of their own; the identifier of a message
  says which of them is used.\<close>

record fwk_message_t =
  msg_id :: fwk_message_id_t
  freeAfterConsumed :: bool
  isMulticoreMessage :: bool
  msgInfo :: nat
  devId :: nat
  payload_free :: bool
  payload_data :: "data_ptr option"
  payload_size :: nat
  input_copy :: bool
  receiverList :: u32
  overlay_surface :: "nat option"
  frameworkRequest :: framework_request_t

datatype msg_ptr = Heap_Msg nat | Input_Msg nat | Lpm_Msg

definition zero_message :: fwk_message_t where
  "zero_message = \<lparr>msg_id = kFWKMessageID_Invalid, freeAfterConsumed = False, isMulticoreMessage = False, msgInfo = kMsgInfo_DualCore,
     devId = 0, payload_free = False, payload_data = None, payload_size = 0, input_copy = False, receiverList = 0, overlay_surface = None,
     frameworkRequest = \<lparr>frameworkEventId = kFrameworkEvents_GetManagerInfo, managerId = 0, deviceName = [], respond = False\<rparr>\<rparr>"

text \<open>Devices and receivers as far as the managers look at them; NULL operations are False. What a device is
  given is kept in a list, which no code reads; so are the answers to a framework request.\<close>

record fwk_dev =
  dev_id :: nat
  dev_name :: "u8 list"
  has_inputNotify :: bool
  has_deinit :: bool

record output_dev =
  out_dev :: nat
  out_name :: "u8 list"
  is_ui :: bool
  surface :: nat

record output_receiver =
  pDev :: output_dev
  has_inferenceComplete :: bool
  has_notify :: bool
  has_dump :: bool

datatype algo_source = kOutputAlgoSource_Vision | kOutputAlgoSource_Voice | kOutputAlgoSource_LPM

datatype handed = Notified | Inference algo_source | Dumped | Deinited

datatype fwk_answer = Task_Info nat | Component nat nat "u8 list" | Finished

record fwk =
  s_MessageQueue :: "nat \<Rightarrow> msg_ptr list option"
  s_TaskList :: "nat \<Rightarrow> bool"
  heap_msgs :: "nat \<Rightarrow> fwk_message_t option"
  heap_data :: "nat \<Rightarrow> u8 list option"
  input_msgs :: "nat \<Rightarrow> fwk_message_t"
  lpmNotifyMsg :: fwk_message_t
  dev_buffers :: "nat \<Rightarrow> u8 list"
  next_block :: nat
  heap_calls :: nat
  devs :: "nat \<Rightarrow> fwk_dev option list"
  outEventReceiverList :: "output_receiver list"
  uiReceiverCount :: int
  s_SleepModeIsOn :: bool
  pOverlaySurface :: "nat option"
  given :: "(nat \<times> nat \<times> handed \<times> u8 list option) list"
  answers :: "(framework_events_t \<times> fwk_answer) list"
  log_verbose :: bool
  log_reads :: "msg_ptr list"

type_synonym 'r fwk_op = "fwk \<Rightarrow> ('r \<times> fwk) outcome"

text \<open>The surroundings: which requests for memory the heap grants, whether queues and tasks can be made,
  and the status the output devices return for a result, by the number of the call.\<close>

record fwk_env =
  heap_grants :: "nat \<Rightarrow> bool"
  queue_made :: "nat \<Rightarrow> bool"
  task_made :: "nat \<Rightarrow> bool"
  inference_status :: "nat \<Rightarrow> int"

section \<open>Memory\<close>

definition get_msg :: "msg_ptr \<Rightarrow> fwk \<Rightarrow> fwk_message_t outcome" where
  "get_msg r s = (case r of
     Heap_Msg n \<Rightarrow> (case heap_msgs s n of None \<Rightarrow> Inl MemFault | Some m \<Rightarrow> Inr m)
   | Input_Msg i \<Rightarrow> Inr (input_msgs s i) | Lpm_Msg \<Rightarrow> Inr (lpmNotifyMsg s))"

definition put_msg :: "msg_ptr \<Rightarrow> fwk_message_t \<Rightarrow> fwk \<Rightarrow> fwk" where
  "put_msg r m s = (case r of
     Heap_Msg n \<Rightarrow> s\<lparr>heap_msgs := (heap_msgs s)(n \<mapsto> m)\<rparr>
   | Input_Msg i \<Rightarrow> s\<lparr>input_msgs := (input_msgs s)(i := m)\<rparr> | Lpm_Msg \<Rightarrow> s\<lparr>lpmNotifyMsg := m\<rparr>)"

text \<open>A message, or a payload, from the heap: None when there is no memory.\<close>

definition malloc_msg :: "fwk_env \<Rightarrow> fwk_message_t \<Rightarrow> fwk \<Rightarrow> msg_ptr option \<times> fwk" where
  "malloc_msg E m s =
    (let n = next_block s; s' = s\<lparr>heap_calls := heap_calls s + 1\<rparr> in
     if heap_grants E (heap_calls s) then (Some (Heap_Msg n), s'\<lparr>heap_msgs := (heap_msgs s)(n \<mapsto> m), next_block := n + 1\<rparr>)
     else (None, s'))"

definition malloc_data :: "fwk_env \<Rightarrow> u8 list \<Rightarrow> fwk \<Rightarrow> data_ptr option \<times> fwk" where
  "malloc_data E bs s =
    (let n = next_block s; s' = s\<lparr>heap_calls := heap_calls s + 1\<rparr> in
     if heap_grants E (heap_calls s) then (Some (Heap_Data n), s'\<lparr>heap_data := (heap_data s)(n \<mapsto> bs), next_block := n + 1\<rparr>)
     else (None, s'))"

definition free_msg :: "msg_ptr \<Rightarrow> unit fwk_op" where
  "free_msg r s = (case r of
     Heap_Msg n \<Rightarrow> if heap_msgs s n = None then Inl MemFault else Inr ((), s\<lparr>heap_msgs := (heap_msgs s)(n := None)\<rparr>)
   | _ \<Rightarrow> Inl MemFault)"

definition free_data :: "data_ptr option \<Rightarrow> unit fwk_op" where
  "free_data p s = (case p of
     None \<Rightarrow> Inr ((), s)
   | Some (Heap_Data n) \<Rightarrow> if heap_data s n = None then Inl MemFault else Inr ((), s\<lparr>heap_data := (heap_data s)(n := None)\<rparr>)
   | Some (Dev_Data k) \<Rightarrow> Inl MemFault)"

text \<open>What a pointer to a payload leads to.\<close>

definition read_data :: "data_ptr option \<Rightarrow> fwk \<Rightarrow> u8 list option outcome" where
  "read_data p s = (case p of
     None \<Rightarrow> Inr None
   | Some (Heap_Data n) \<Rightarrow> (case heap_data s n of None \<Rightarrow> Inl MemFault | Some bs \<Rightarrow> Inr (Some bs))
   | Some (Dev_Data k) \<Rightarrow> Inr (Some (dev_buffers s k)))"

text \<open>\<open>memcpy\<close> out of a payload.\<close>

definition copy_data :: "data_ptr option \<Rightarrow> nat \<Rightarrow> fwk \<Rightarrow> u8 list outcome" where
  "copy_data p n s = rbind (read_data p s) (\<lambda>b. case b of None \<Rightarrow> Inl MemFault | Some bs \<Rightarrow> load_at 0 n bs)"

section \<open>Queues\<close>

definition FWK_Message_RegisterQueue :: "nat \<Rightarrow> bool fwk_op" where
  "FWK_Message_RegisterQueue t s =
    (if t < kFWKTaskID_COUNT then Inr (True, s\<lparr>s_MessageQueue := (s_MessageQueue s)(t \<mapsto> [])\<rparr>) else Inr (False, s))"

definition queue_send :: "nat \<Rightarrow> msg_ptr \<Rightarrow> bool fwk_op" where
  "queue_send t r s = (case s_MessageQueue s t of
     None \<Rightarrow> Inl MemFault
   | Some q \<Rightarrow> if length q < mainQUEUE_LENGTH then Inr (True, s\<lparr>s_MessageQueue := (s_MessageQueue s)(t \<mapsto> q @ [r])\<rparr>)
               else Inr (False, s))"

text \<open>A line of the log names the message it is about.\<close>

definition log_line :: "msg_ptr \<Rightarrow> fwk \<Rightarrow> fwk" where
  "log_line r s = (if log_verbose s then s\<lparr>log_reads := log_reads s @ [r]\<rparr> else s)"

definition read_log :: "unit fwk_op" where
  "read_log s = (case log_reads s of [] \<Rightarrow> Inr ((), s) | r # rs \<Rightarrow> rbind (get_msg r s) (\<lambda>_. Inr ((), s\<lparr>log_reads := rs\<rparr>)))"

text \<open>After a send to the other core there are two lines before the next send.\<close>

definition FWK_Message_Put :: "nat \<Rightarrow> msg_ptr \<Rightarrow> bool fwk_op" where
  "FWK_Message_Put t r s =
    rbind (get_msg r s) (\<lambda>m.
    rbind (if isMulticoreMessage m \<and> s_MessageQueue s kFWKTaskID_Multicore \<noteq> None
           then rbind (queue_send kFWKTaskID_Multicore r s) (\<lambda>(ret, s). Inr (ret, if ret then log_line r (log_line r s) else s))
           else Inr (True, s)) (\<lambda>(ret, s).
    if msgInfo m = kMsgInfo_Remote \<or> s_MessageQueue s t = None then Inr (ret, s)
    else rbind (queue_send t r s) (\<lambda>(ret, s). Inr (ret, if ret then log_line r s else s))))"

section \<open>Tasks\<close>

text \<open>A task that cannot be made is an endless loop; a queue that cannot be made leaves the task out. The
  first action of the task, its initialisation, is not part of the start.\<close>

definition FWK_Task_Start :: "fwk_env \<Rightarrow> nat \<Rightarrow> unit fwk_op" where
  "FWK_Task_Start E t s =
    (if queue_made E t then
       rbind (FWK_Message_RegisterQueue t s) (\<lambda>(_, s).
       if task_made E t then Inr ((), s\<lparr>s_TaskList := (s_TaskList s)(t := True)\<rparr>) else Inl Livelock)
     else Inr ((), s))"

definition FWK_Task_IsRegistered :: "nat \<Rightarrow> fwk \<Rightarrow> bool" where
  "FWK_Task_IsRegistered t s = s_TaskList s t"

definition FWK_Task_GetCount :: "fwk \<Rightarrow> u8" where
  "FWK_Task_GetCount s = of_nat (length (filter (s_TaskList s) [0..<kFWKTaskID_APPStart]))"

text \<open>One turn of a task: the message it waited for, its handler, and the end of the message. The last test
  reads the message again when the task is the one for the other core.\<close>

definition consume :: "nat \<Rightarrow> msg_ptr \<Rightarrow> unit fwk_op" where
  "consume t r s =
    rbind (get_msg r s) (\<lambda>m.
    if \<not> freeAfterConsumed m then Inr ((), s)
    else
      rbind (if \<not> isMulticoreMessage m \<or> t \<noteq> kFWKTaskID_Multicore
             then free_msg r (put_msg r (m\<lparr>freeAfterConsumed := False\<rparr>) s) else Inr ((), s)) (\<lambda>(_, s).
      if t \<noteq> kFWKTaskID_Multicore then Inr ((), s)
      else rbind (get_msg r s) (\<lambda>m.
        if isMulticoreMessage m \<and> msgInfo m = kMsgInfo_Remote then
          rbind (if payload_free m then free_data (payload_data m) (put_msg r (m\<lparr>payload_free := False\<rparr>) s) else Inr ((), s)) (\<lambda>(_, s).
          rbind (get_msg r s) (\<lambda>m. free_msg r (put_msg r (m\<lparr>freeAfterConsumed := False\<rparr>) s)))
        else Inr ((), s))))"

definition fwk_task_proc :: "(nat \<Rightarrow> msg_ptr \<Rightarrow> unit fwk_op) \<Rightarrow> nat \<Rightarrow> unit fwk_op" where
  "fwk_task_proc msgHandle t s =
    (if \<not> s_TaskList s t then Inr ((), s)
     else case s_MessageQueue s t of
       Some (r # q) \<Rightarrow>
         rbind (msgHandle t r (s\<lparr>s_MessageQueue := (s_MessageQueue s)(t \<mapsto> q)\<rparr>)) (\<lambda>(_, s). consume t r s)
     | _ \<Rightarrow> Inr ((), s))"

end
