(* ===== verification/Fwk_Managers.thy ===== *)
theory Fwk_Managers
  imports Fwk_Message
begin

text \<open>
  The managers between the devices: \<open>fwk_input_manager.c\<close>, \<open>fwk_output_manager.c\<close>, and of the camera, display
  and vision algorithm managers what they do with events and framework requests (the frames of the
  recognition are in \<open>Oasis_Events\<close>). A device's operation is a line in the list of what devices were
  given; what a device tells a manager in turn, from its operation, its task or an interrupt, is a step
  of its own.
\<close>

section \<open>Payloads\<close>

definition free_payload :: "msg_ptr \<Rightarrow> unit fwk_op" where
  "free_payload r s =
    rbind (get_msg r s) (\<lambda>m.
    if payload_free m then free_data (payload_data m) (put_msg r (m\<lparr>payload_free := False\<rparr>) s) else Inr ((), s))"

text \<open>Memory for a copy, and the copy.\<close>

definition copy_payload :: "fwk_env \<Rightarrow> data_ptr option \<Rightarrow> nat \<Rightarrow> data_ptr option fwk_op" where
  "copy_payload E p n s =
    (if heap_grants E (heap_calls s) then rbind (copy_data p n s) (\<lambda>bs. Inr (malloc_data E bs s))
     else Inr (malloc_data E [] s))"

definition give :: "nat \<Rightarrow> nat \<Rightarrow> handed \<Rightarrow> u8 list option \<Rightarrow> fwk \<Rightarrow> fwk" where
  "give t d h b s = s\<lparr>given := given s @ [(t, d, h, b)]\<rparr>"

fun notify_devs :: "nat \<Rightarrow> msg_ptr \<Rightarrow> fwk_dev option list \<Rightarrow> unit fwk_op" where
  "notify_devs t r [] s = Inr ((), s)"
| "notify_devs t r (None # ds) s = notify_devs t r ds s"
| "notify_devs t r (Some d # ds) s =
     (if has_inputNotify d then
        rbind (get_msg r s) (\<lambda>m. rbind (read_data (payload_data m) s) (\<lambda>b. notify_devs t r ds (give t (dev_id d) Notified b s)))
      else notify_devs t r ds s)"

text \<open>An event for the devices of a manager.\<close>

definition input_notify :: "nat \<Rightarrow> msg_ptr \<Rightarrow> unit fwk_op" where
  "input_notify t r s = rbind (notify_devs t r (devs s t) s) (\<lambda>(_, s). free_payload r s)"

definition answer :: "framework_request_t \<Rightarrow> framework_events_t \<Rightarrow> fwk_answer \<Rightarrow> fwk \<Rightarrow> fwk" where
  "answer req e a s = (if respond req then s\<lparr>answers := answers s @ [(e, a)]\<rparr> else s)"

fun answer_devs :: "nat \<Rightarrow> framework_request_t \<Rightarrow> fwk_dev option list \<Rightarrow> fwk \<Rightarrow> fwk" where
  "answer_devs t req [] s = answer req kFrameworkEvents_GetManagerComponents Finished s"
| "answer_devs t req (None # ds) s = answer_devs t req ds s"
| "answer_devs t req (Some d # ds) s =
     answer_devs t req ds (answer req kFrameworkEvents_GetManagerComponents (Component t (dev_id d) (dev_name d)) s)"

definition get_components :: "nat \<Rightarrow> msg_ptr \<Rightarrow> unit fwk_op" where
  "get_components t r s = rbind (get_msg r s) (\<lambda>m. Inr ((), answer_devs t (frameworkRequest m) (devs s t) s))"

section \<open>Registration\<close>

text \<open>The first free place, whose number is the identifier of the device.\<close>

fun first_free :: "nat \<Rightarrow> 'a option list \<Rightarrow> nat option" where
  "first_free i [] = None"
| "first_free i (None # ds) = Some i"
| "first_free i (Some d # ds) = first_free (i + 1) ds"

definition DeviceRegister :: "nat \<Rightarrow> fwk_dev \<Rightarrow> int fwk_op" where
  "DeviceRegister t d s = (case first_free 0 (devs s t) of
     None \<Rightarrow> Inr (- 1, s)
   | Some i \<Rightarrow> Inr (0, s\<lparr>devs := (devs s)(t := (devs s t)[i := Some (d\<lparr>dev_id := i\<rparr>)])\<rparr>))"

section \<open>The input manager\<close>

datatype input_event = Event_Recv nat nat nat bool u32 | Event_Audio nat | Event_Framework framework_request_t

text \<open>The place of a device in the table. An empty place is followed before it is compared.\<close>

fun find_dev :: "nat \<Rightarrow> nat \<Rightarrow> fwk_dev option list \<Rightarrow> nat option outcome" where
  "find_dev d i [] = Inr None"
| "find_dev d i (None # ds) = Inl MemFault"
| "find_dev d i (Some x # ds) = (if dev_id x = d then Inr (Some i) else find_dev d (i + 1) ds)"

text \<open>Each device has one message, which is filled in and sent whether or not it still waits in a queue.\<close>

definition fill_message :: "nat \<Rightarrow> input_event \<Rightarrow> fwk_message_t \<Rightarrow> nat \<times> fwk_message_t" where
  "fill_message d e m = (case e of
     Event_Framework req \<Rightarrow> (kFWKTaskID_Input, m\<lparr>msg_id := kFWKMessageID_InputFrameworkReceived, frameworkRequest := req\<rparr>)
   | Event_Recv info n data copy rl \<Rightarrow>
       (let m = m\<lparr>msg_id := kFWKMessageID_InputReceive, devId := d, receiverList := rl, payload_data := Some (Dev_Data data),
                  input_copy := copy, payload_size := n, payload_free := False\<rparr> in
        (kFWKTaskID_Input, if info \<noteq> kMsgInfo_Local \<and> info < kMsgInfo_Invalid then m\<lparr>isMulticoreMessage := True\<rparr> else m))
   | Event_Audio data \<Rightarrow>
       (kFWKTaskID_Audio, m\<lparr>msg_id := kFWKMessageID_InputAudioReceived, devId := d, payload_data := Some (Dev_Data data),
          payload_free := False\<rparr>))"

definition InputManager_DeviceCallback :: "nat \<Rightarrow> input_event \<Rightarrow> int fwk_op" where
  "InputManager_DeviceCallback d e s =
    rbind (find_dev d 0 (devs s kFWKTaskID_Input)) (\<lambda>i. case i of
      None \<Rightarrow> Inr (- 1, s)
    | Some i \<Rightarrow> (case fill_message d e (input_msgs s i) of (t, m) \<Rightarrow>
        rbind (FWK_Message_Put t (Input_Msg i) (put_msg (Input_Msg i) m s)) (\<lambda>(_, s). Inr (0, s))))"

text \<open>A copy of the event for one task.\<close>

definition forward :: "fwk_env \<Rightarrow> fwk_message_t \<Rightarrow> nat \<Rightarrow> unit fwk_op" where
  "forward E m t s =
    (let m' = zero_message\<lparr>freeAfterConsumed := True, msg_id := kFWKMessageID_InputNotify, devId := devId m\<rparr> in
     case malloc_msg E m' s of
       (None, s) \<Rightarrow> Inr ((), s)
     | (Some r, s) \<Rightarrow>
         if input_copy m then
           rbind (copy_payload E (payload_data m) (payload_size m) s) (\<lambda>(p, s).
           case p of
             None \<Rightarrow> free_msg r s
           | Some d \<Rightarrow> rbind (FWK_Message_Put t r (put_msg r (m'\<lparr>payload_data := Some d, payload_free := True, payload_size := payload_size m\<rparr>) s))
               (\<lambda>(_, s). Inr ((), s)))
         else
           rbind (FWK_Message_Put t r (put_msg r (m'\<lparr>payload_data := payload_data m, payload_size := payload_size m\<rparr>) s)) (\<lambda>(_, s). Inr ((), s)))"

fun forward_loop :: "fwk_env \<Rightarrow> fwk_message_t \<Rightarrow> nat list \<Rightarrow> unit fwk_op" where
  "forward_loop E m [] s = Inr ((), s)"
| "forward_loop E m (t # ts) s =
     (if bit (receiverList m) t \<and> FWK_Task_IsRegistered t s
      then rbind (forward E m t s) (\<lambda>(_, s). forward_loop E m ts s) else forward_loop E m ts s)"

text \<open>The device of the message, or the last place of the table.\<close>

fun dev_of :: "nat \<Rightarrow> fwk_dev option list \<Rightarrow> fwk_dev option" where
  "dev_of d [] = None"
| "dev_of d [x] = x"
| "dev_of d (x # y # ds) = (case x of Some x' \<Rightarrow> if dev_id x' = d then x else dev_of d (y # ds) | None \<Rightarrow> dev_of d (y # ds))"

definition input_receive :: "fwk_env \<Rightarrow> msg_ptr \<Rightarrow> unit fwk_op" where
  "input_receive E r s =
    rbind (get_msg r s) (\<lambda>m.
    rbind (if dev_of (devId m) (devs s kFWKTaskID_Input) \<noteq> None then forward_loop E m [kFWKTaskID_Camera..<kFWKTaskID_COUNT] s
           else Inr ((), s)) (\<lambda>(_, s).
    rbind (get_msg r s) (\<lambda>m.
    if payload_free m then
      rbind (free_payload r s) (\<lambda>(_, s). rbind (get_msg r s) (\<lambda>m. Inr ((), put_msg r (m\<lparr>payload_data := None\<rparr>) s)))
    else Inr ((), s))))"

fun answer_infos :: "framework_request_t \<Rightarrow> nat list \<Rightarrow> u8 \<Rightarrow> fwk \<Rightarrow> fwk" where
  "answer_infos req [] n s = answer req kFrameworkEvents_GetManagerInfo Finished s"
| "answer_infos req (t # ts) n s =
     (if 0 < n then
        if s_TaskList s t then answer_infos req ts (n - 1) (answer req kFrameworkEvents_GetManagerInfo (Task_Info t) s)
        else answer_infos req ts n s
      else answer req kFrameworkEvents_GetManagerInfo Finished s)"

definition FrameworkMessageHandler :: "fwk_env \<Rightarrow> framework_request_t \<Rightarrow> unit fwk_op" where
  "FrameworkMessageHandler E req s = (case frameworkEventId req of
     kFrameworkEvents_GetManagerInfo \<Rightarrow> Inr ((), answer_infos req [0..<kFWKTaskID_COUNT] (FWK_Task_GetCount s) s)
   | kFrameworkEvents_GetManagerComponents \<Rightarrow>
       if kFWKTaskID_COUNT \<le> managerId req then Inl MemFault
       else if FWK_Task_IsRegistered (managerId req) s then
         (case malloc_msg E (zero_message\<lparr>freeAfterConsumed := True, msg_id := kFWKMessageID_InputFrameworkGetComponents,
              frameworkRequest := req\<rparr>) s of
            (None, s) \<Rightarrow> Inr ((), s)
          | (Some r, s) \<Rightarrow> rbind (FWK_Message_Put (managerId req) r s) (\<lambda>(_, s). Inr ((), s)))
       else Inr ((), answer req kFrameworkEvents_GetManagerComponents Finished s)
   | kFrameworkEvents_GetDeviceConfigs \<Rightarrow> Inr ((), s))"

definition InputManager_MessageHandle :: "fwk_env \<Rightarrow> msg_ptr \<Rightarrow> unit fwk_op" where
  "InputManager_MessageHandle E r s =
    rbind (get_msg r s) (\<lambda>m. case msg_id m of
      kFWKMessageID_InputFrameworkReceived \<Rightarrow> FrameworkMessageHandler E (frameworkRequest m) s
    | kFWKMessageID_InputNotify \<Rightarrow> input_notify kFWKTaskID_Input r s
    | kFWKMessageID_InputReceive \<Rightarrow> input_receive E r s
    | kFWKMessageID_InputFrameworkGetComponents \<Rightarrow> get_components kFWKTaskID_Input r s
    | _ \<Rightarrow> Inr ((), s))"

section \<open>Events that devices and algorithms send\<close>

record sent_event =
  event_info :: nat
  event_data :: nat
  event_size :: nat
  event_copy :: bool

text \<open>A message from the heap with the payload of the device or a copy of it; \<open>m\<close> is the message up to there.\<close>

definition send_event :: "fwk_env \<Rightarrow> nat \<Rightarrow> fwk_message_t \<Rightarrow> sent_event \<Rightarrow> unit fwk_op" where
  "send_event E t m e s =
    (let m = m\<lparr>freeAfterConsumed := True, msgInfo := (if event_info e < kMsgInfo_Invalid then event_info e else msgInfo m),
               isMulticoreMessage := (event_info e \<noteq> kMsgInfo_Local \<and> event_info e < kMsgInfo_Invalid)\<rparr> in
     case malloc_msg E m s of
       (None, s) \<Rightarrow> Inr ((), s)
     | (Some r, s) \<Rightarrow>
         if \<not> event_copy e then
           rbind (FWK_Message_Put t r (put_msg r (m\<lparr>payload_data := Some (Dev_Data (event_data e))\<rparr>) s)) (\<lambda>(_, s). Inr ((), s))
         else
           rbind (copy_payload E (Some (Dev_Data (event_data e))) (event_size e) s) (\<lambda>(p, s).
           case p of
             None \<Rightarrow> free_msg r s
           | Some d \<Rightarrow> rbind (FWK_Message_Put t r (put_msg r (m\<lparr>payload_data := Some d, payload_free := True, payload_size := event_size e\<rparr>) s))
               (\<lambda>(_, s). Inr ((), s))))"

datatype output_event_id_t = kOutputEvent_SpeakerToAfeFeedback | kOutputEvent_VisionAlgoInputNotify | kOutputEvent_VoiceAlgoInputNotify
  | kOutputEvent_OutputInputNotify

fun output_target :: "output_event_id_t \<Rightarrow> nat" where
  "output_target kOutputEvent_VisionAlgoInputNotify = kFWKTaskID_VisionAlgo"
| "output_target kOutputEvent_VoiceAlgoInputNotify = kFWKTaskID_VoiceAlgo"
| "output_target kOutputEvent_OutputInputNotify = kFWKTaskID_Output"
| "output_target kOutputEvent_SpeakerToAfeFeedback = kFWKTaskID_Audio"

definition OutputManager_DeviceCallback :: "fwk_env \<Rightarrow> nat \<Rightarrow> output_event_id_t \<Rightarrow> sent_event \<Rightarrow> unit fwk_op" where
  "OutputManager_DeviceCallback E d i e = send_event E (output_target i) (zero_message\<lparr>msg_id := kFWKMessageID_InputNotify, devId := d\<rparr>) e"

datatype valgo_event_id_t = kVAlgoEvent_VisionResultUpdate | kVAlgoEvent_VisionLedPwmControl | kVAlgoEvent_VisionCamExpControl
  | kVAlgoEvent_VisionRecordControl

fun algo_target :: "valgo_event_id_t \<Rightarrow> nat \<times> fwk_message_id_t" where
  "algo_target kVAlgoEvent_VisionResultUpdate = (kFWKTaskID_Output, kFWKMessageID_VAlgoResultUpdate)"
| "algo_target kVAlgoEvent_VisionLedPwmControl = (kFWKTaskID_Output, kFWKMessageID_InputNotify)"
| "algo_target kVAlgoEvent_VisionCamExpControl = (kFWKTaskID_Camera, kFWKMessageID_InputNotify)"
| "algo_target kVAlgoEvent_VisionRecordControl = (kFWKTaskID_VisionAlgo, kFWKMessageID_InputNotify)"

definition VisionAlgoManager_DeviceCallback :: "fwk_env \<Rightarrow> nat \<Rightarrow> valgo_event_id_t \<Rightarrow> sent_event \<Rightarrow> unit fwk_op" where
  "VisionAlgoManager_DeviceCallback E d i e =
    send_event E (fst (algo_target i)) (zero_message\<lparr>msg_id := snd (algo_target i), devId := d, payload_size := event_size e\<rparr>) e"

section \<open>The output manager\<close>

definition show_overlay :: "fwk_env \<Rightarrow> output_dev \<Rightarrow> unit fwk_op" where
  "show_overlay E d s =
    (case malloc_msg E (zero_message\<lparr>msg_id := kFWKMessageID_DispatcherRequestShowOverlay, freeAfterConsumed := True,
         overlay_surface := Some (surface d)\<rparr>) s of
       (None, s) \<Rightarrow> Inr ((), s)
     | (Some r, s) \<Rightarrow> rbind (FWK_Message_Put kFWKTaskID_Camera r s) (\<lambda>(_, s). Inr ((), s)))"

definition source_of :: "fwk_message_id_t \<Rightarrow> algo_source" where
  "source_of i = (if i = kFWKMessageID_VAlgoASRResultUpdate then kOutputAlgoSource_Voice
     else if i = kFWKMessageID_VAlgoResultUpdate then kOutputAlgoSource_Vision else kOutputAlgoSource_LPM)"

fun infer_devs :: "fwk_env \<Rightarrow> msg_ptr \<Rightarrow> output_receiver list \<Rightarrow> unit fwk_op" where
  "infer_devs E r [] s = Inr ((), s)"
| "infer_devs E r (x # xs) s =
     (if \<not> has_inferenceComplete x then infer_devs E r xs s
      else
        rbind (get_msg r s) (\<lambda>m. rbind (read_data (payload_data m) s) (\<lambda>b.
        let src = source_of (msg_id m); status = inference_status E (length (given s));
            s = give kFWKTaskID_Output (out_dev (pDev x)) (Inference src) b s in
        rbind (if src = kOutputAlgoSource_LPM then Inr ((), s\<lparr>s_SleepModeIsOn := True\<rparr>)
               else if status = 0 \<and> is_ui (pDev x) then show_overlay E (pDev x) s else Inr ((), s)) (\<lambda>(_, s).
        infer_devs E r xs s))))"

fun notify_receivers :: "msg_ptr \<Rightarrow> output_receiver list \<Rightarrow> unit fwk_op" where
  "notify_receivers r [] s = Inr ((), s)"
| "notify_receivers r (x # xs) s =
     (if has_notify x then
        rbind (get_msg r s) (\<lambda>m. rbind (read_data (payload_data m) s) (\<lambda>b.
        notify_receivers r xs (give kFWKTaskID_Output (out_dev (pDev x)) Notified b s)))
      else notify_receivers r xs s)"

fun dump_receivers :: "msg_ptr \<Rightarrow> output_receiver list \<Rightarrow> unit fwk_op" where
  "dump_receivers r [] s = Inr ((), s)"
| "dump_receivers r (x # xs) s =
     (if has_dump x then
        rbind (get_msg r s) (\<lambda>m. rbind (read_data (payload_data m) s) (\<lambda>b.
        dump_receivers r xs (give kFWKTaskID_Output (out_dev (pDev x)) Dumped b s)))
      else dump_receivers r xs s)"

fun answer_receivers :: "framework_request_t \<Rightarrow> output_receiver list \<Rightarrow> fwk \<Rightarrow> fwk" where
  "answer_receivers req [] s = answer req kFrameworkEvents_GetManagerComponents Finished s"
| "answer_receivers req (x # xs) s = answer_receivers req xs
     (answer req kFrameworkEvents_GetManagerComponents (Component kFWKTaskID_Output (out_dev (pDev x)) (out_name (pDev x))) s)"

text \<open>The configuration of a device is its identity; the first receiver with the name answers alone.\<close>

definition answer_configs :: "framework_request_t \<Rightarrow> output_receiver list \<Rightarrow> fwk \<Rightarrow> fwk" where
  "answer_configs req xs s = (case filter (\<lambda>x. out_name (pDev x) = deviceName req) xs of
     x # _ \<Rightarrow> answer req kFrameworkEvents_GetDeviceConfigs (Component kFWKTaskID_Output (out_dev (pDev x)) (out_name (pDev x))) s
   | [] \<Rightarrow> answer req kFrameworkEvents_GetDeviceConfigs Finished s)"

text \<open>In sleep mode a result is left as it is, with its payload.\<close>

definition OutputManager_MessageHandle :: "fwk_env \<Rightarrow> msg_ptr \<Rightarrow> unit fwk_op" where
  "OutputManager_MessageHandle E r s =
    rbind (get_msg r s) (\<lambda>m.
    if msg_id m \<in> {kFWKMessageID_VAlgoASRResultUpdate, kFWKMessageID_VAlgoResultUpdate, kFWKMessageID_LpmPreEnterSleep} then
      if s_SleepModeIsOn s then Inr ((), s)
      else rbind (infer_devs E r (outEventReceiverList s) s) (\<lambda>(_, s). free_payload r s)
    else if msg_id m = kFWKMessageID_InputNotify then
      rbind (notify_receivers r (outEventReceiverList s) s) (\<lambda>(_, s). free_payload r s)
    else if msg_id m = kFWKMessageID_AudioDump then
      rbind (dump_receivers r (outEventReceiverList s) s) (\<lambda>(_, s). free_payload r s)
    else if msg_id m = kFWKMessageID_InputFrameworkGetComponents then
      Inr ((), answer_receivers (frameworkRequest m) (outEventReceiverList s) s)
    else if msg_id m = kFWKMessageID_InputFrameworkGetDeviceConfigs then
      Inr ((), answer_configs (frameworkRequest m) (outEventReceiverList s) s)
    else Inr ((), s))"

definition FWK_OutputManager_RegisterEventHandler :: "fwk_env \<Rightarrow> output_receiver \<Rightarrow> int fwk_op" where
  "FWK_OutputManager_RegisterEventHandler E x s =
    (if is_ui (pDev x) \<and> uiReceiverCount s = 1 then Inr (- 1, s)
     else
       let s = (if is_ui (pDev x) then s\<lparr>uiReceiverCount := uiReceiverCount s + 1\<rparr> else s);
           n = heap_calls s; s = s\<lparr>heap_calls := n + 1\<rparr> in
       if heap_grants E n then Inr (0, s\<lparr>outEventReceiverList := outEventReceiverList s @ [x]\<rparr>) else Inr (0, s))"

fun remove_receiver :: "nat \<Rightarrow> output_receiver list \<Rightarrow> output_receiver list option" where
  "remove_receiver d [] = None"
| "remove_receiver d (x # xs) = (if out_dev (pDev x) = d then Some xs else map_option ((#) x) (remove_receiver d xs))"

definition FWK_OutputManager_UnregisterEventHandler :: "output_dev \<Rightarrow> int fwk_op" where
  "FWK_OutputManager_UnregisterEventHandler d s = (case remove_receiver (out_dev d) (outEventReceiverList s) of
     None \<Rightarrow> Inr (0, s)
   | Some xs \<Rightarrow> Inr (0, s\<lparr>outEventReceiverList := xs, uiReceiverCount := (if is_ui d then uiReceiverCount s - 1 else uiReceiverCount s)\<rparr>))"

section \<open>The other managers\<close>

fun deinit_devs :: "nat \<Rightarrow> fwk_dev option list \<Rightarrow> fwk \<Rightarrow> fwk" where
  "deinit_devs t [] s = s"
| "deinit_devs t (None # ds) s = deinit_devs t ds s"
| "deinit_devs t (Some d # ds) s = deinit_devs t ds (if has_deinit d then give t (dev_id d) Deinited None s else s)"

definition CameraManager_MessageHandle :: "msg_ptr \<Rightarrow> unit fwk_op" where
  "CameraManager_MessageHandle r s =
    rbind (get_msg r s) (\<lambda>m. case msg_id m of
      kFWKMessageID_DispatcherRequestShowOverlay \<Rightarrow> Inr ((), s\<lparr>pOverlaySurface := overlay_surface m\<rparr>)
    | kFWKMessageID_InputNotify \<Rightarrow> input_notify kFWKTaskID_Camera r s
    | kFWKMessageID_LpmPreEnterSleep \<Rightarrow> Inr ((), deinit_devs kFWKTaskID_Camera (devs s kFWKTaskID_Camera) s)
    | kFWKMessageID_InputFrameworkGetComponents \<Rightarrow> get_components kFWKTaskID_Camera r s
    | _ \<Rightarrow> Inr ((), s))"

definition DisplayManager_MessageHandle :: "msg_ptr \<Rightarrow> unit fwk_op" where
  "DisplayManager_MessageHandle r s =
    rbind (get_msg r s) (\<lambda>m. case msg_id m of
      kFWKMessageID_InputNotify \<Rightarrow> input_notify kFWKTaskID_Display r s
    | kFWKMessageID_InputFrameworkGetComponents \<Rightarrow> get_components kFWKTaskID_Display r s
    | _ \<Rightarrow> Inr ((), s))"

definition VisionAlgoManager_MessageHandle :: "msg_ptr \<Rightarrow> unit fwk_op" where
  "VisionAlgoManager_MessageHandle r s =
    rbind (get_msg r s) (\<lambda>m. case msg_id m of
      kFWKMessageID_LpmPreEnterSleep \<Rightarrow> Inr ((), deinit_devs kFWKTaskID_VisionAlgo (take 1 (devs s kFWKTaskID_VisionAlgo)) s)
    | kFWKMessageID_InputNotify \<Rightarrow> input_notify kFWKTaskID_VisionAlgo r s
    | kFWKMessageID_InputFrameworkGetComponents \<Rightarrow> get_components kFWKTaskID_VisionAlgo r s
    | _ \<Rightarrow> Inr ((), s))"

text \<open>The other tasks are not started by this application.\<close>

definition msgHandle :: "fwk_env \<Rightarrow> nat \<Rightarrow> msg_ptr \<Rightarrow> unit fwk_op" where
  "msgHandle E t r s =
    (if t = kFWKTaskID_Camera then CameraManager_MessageHandle r s
     else if t = kFWKTaskID_Display then DisplayManager_MessageHandle r s
     else if t = kFWKTaskID_VisionAlgo then VisionAlgoManager_MessageHandle r s
     else if t = kFWKTaskID_Output then OutputManager_MessageHandle E r s
     else if t = kFWKTaskID_Input then InputManager_MessageHandle E r s
     else Inr ((), s))"

section \<open>Sleep\<close>

text \<open>The message of the low-power manager to the tasks that run, one message for all of them.\<close>

fun put_all :: "msg_ptr \<Rightarrow> nat list \<Rightarrow> unit fwk_op" where
  "put_all r [] s = Inr ((), s)"
| "put_all r (t # ts) s = (if s_TaskList s t then rbind (FWK_Message_Put t r s) (\<lambda>(_, s). put_all r ts s) else put_all r ts s)"

definition notify_sleep :: "unit fwk_op" where
  "notify_sleep s = put_all Lpm_Msg [kFWKTaskID_Camera..<kFWKTaskID_APPStart]
     (s\<lparr>lpmNotifyMsg := (lpmNotifyMsg s)\<lparr>freeAfterConsumed := False, msg_id := kFWKMessageID_LpmPreEnterSleep\<rparr>\<rparr>)"

section \<open>Steps\<close>

text \<open>Devices and algorithms tell the managers something, in any order, and change their buffers; a task takes
  its turn, from the message it received to the end of its handler; a line of the log is written.\<close>

datatype fwk_step = Input_Event nat input_event | Output_Event nat output_event_id_t sent_event | Algo_Event nat valgo_event_id_t sent_event
  | Sleep_Notice | Turn nat | Dev_Writes nat "u8 list" | Handler_Comes output_receiver | Handler_Goes output_dev | Log_Line

fun fwk_do :: "fwk_env \<Rightarrow> fwk_step \<Rightarrow> unit fwk_op" where
  "fwk_do E (Input_Event d e) s = rbind (InputManager_DeviceCallback d e s) (\<lambda>(_, s). Inr ((), s))"
| "fwk_do E (Output_Event d i e) s = OutputManager_DeviceCallback E d i e s"
| "fwk_do E (Algo_Event d i e) s = VisionAlgoManager_DeviceCallback E d i e s"
| "fwk_do E Sleep_Notice s = notify_sleep s"
| "fwk_do E (Turn t) s = fwk_task_proc (msgHandle E) t s"
| "fwk_do E (Dev_Writes k bs) s = Inr ((), s\<lparr>dev_buffers := (dev_buffers s)(k := bs)\<rparr>)"
| "fwk_do E (Handler_Comes x) s = rbind (FWK_OutputManager_RegisterEventHandler E x s) (\<lambda>(_, s). Inr ((), s))"
| "fwk_do E (Handler_Goes d) s = rbind (FWK_OutputManager_UnregisterEventHandler d s) (\<lambda>(_, s). Inr ((), s))"
| "fwk_do E Log_Line s = read_log s"

end
