(* ===== verification/Fwk_Memory.thy ===== *)
theory Fwk_Memory
  imports Fwk_Managers
begin

text \<open>
  Who owns the memory of the messages. A message of the heap waits in one queue, once, or is in the hands
  of the task that took it; a payload of the heap belongs to one message. So no message and no payload
  is read after it was freed or freed twice, whatever the devices send, in any interleaving with the
  turns of the tasks, and whether or not there is memory or room in the queues. That holds without the
  task for the other core, whose end of a message reads it again, and with a log below verbose, whose
  lines read a message after it was sent.
\<close>

section \<open>Well-formed memory\<close>

text \<open>A payload of the heap that can be reached through a message is the message's own.\<close>

definition payload_ok :: "fwk_message_t \<Rightarrow> bool" where
  "payload_ok m \<longleftrightarrow> (\<forall>b. payload_data m = Some (Heap_Data b) \<longrightarrow> payload_free m)"

definition sendable :: "fwk_message_t \<Rightarrow> bool" where
  "sendable m \<longleftrightarrow> freeAfterConsumed m \<and> msg_id m \<noteq> kFWKMessageID_InputReceive \<and> msg_id m \<noteq> kFWKMessageID_InputFrameworkReceived"

definition owns :: "fwk_message_t \<Rightarrow> nat \<Rightarrow> bool" where
  "owns m b \<longleftrightarrow> payload_free m \<and> payload_data m = Some (Heap_Data b)"

text \<open>The statics, when the device buffers have the lengths \<open>L\<close>.\<close>

definition static_ok :: "(nat \<Rightarrow> nat) \<Rightarrow> fwk_message_t \<Rightarrow> bool" where
  "static_ok L m \<longleftrightarrow> \<not> freeAfterConsumed m \<and> \<not> payload_free m \<and> (\<forall>b. payload_data m \<noteq> Some (Heap_Data b)) \<and>
     (msg_id m = kFWKMessageID_InputReceive \<and> input_copy m \<longrightarrow> (\<exists>k. payload_data m = Some (Dev_Data k) \<and> payload_size m \<le> L k)) \<and>
     (msg_id m = kFWKMessageID_InputFrameworkReceived \<longrightarrow> managerId (frameworkRequest m) < kFWKTaskID_COUNT)"

definition heap_ok :: "fwk \<Rightarrow> bool" where
  "heap_ok s \<longleftrightarrow>
     (\<forall>n m. heap_msgs s n = Some m \<longrightarrow> n < next_block s \<and> sendable m \<and> (payload_free m \<longrightarrow> (\<exists>b. owns m b \<and> heap_data s b \<noteq> None))) \<and>
     (\<forall>b. heap_data s b \<noteq> None \<longrightarrow> b < next_block s) \<and>
     (\<forall>n n' m m' b. heap_msgs s n = Some m \<longrightarrow> heap_msgs s n' = Some m' \<longrightarrow> owns m b \<longrightarrow> owns m' b \<longrightarrow> n = n')"

definition queues_ok :: "fwk \<Rightarrow> bool" where
  "queues_ok s \<longleftrightarrow> (\<forall>t q n. s_MessageQueue s t = Some q \<longrightarrow> Heap_Msg n \<in> set q \<longrightarrow>
     (\<exists>m. heap_msgs s n = Some m \<and> payload_ok m) \<and> count_list q (Heap_Msg n) = 1 \<and>
     (\<forall>t' q'. t' \<noteq> t \<longrightarrow> s_MessageQueue s t' = Some q' \<longrightarrow> Heap_Msg n \<notin> set q'))"

definition mem_ok :: "fwk_dev option list \<Rightarrow> (nat \<Rightarrow> nat) \<Rightarrow> fwk \<Rightarrow> bool" where
  "mem_ok D L s \<longleftrightarrow> devs s kFWKTaskID_Input = D \<and> (\<forall>k. length (dev_buffers s k) = L k) \<and> s_MessageQueue s kFWKTaskID_Multicore = None \<and>
     \<not> log_verbose s \<and> log_reads s = [] \<and> (\<forall>i. static_ok L (input_msgs s i)) \<and> static_ok L (lpmNotifyMsg s) \<and> heap_ok s \<and> queues_ok s"

text \<open>A message in the hands of a task is in no queue.\<close>

definition in_hand :: "msg_ptr \<Rightarrow> fwk \<Rightarrow> bool" where
  "in_hand r s \<longleftrightarrow> (\<forall>n. r = Heap_Msg n \<longrightarrow> heap_msgs s n \<noteq> None \<and> (\<forall>t q. s_MessageQueue s t = Some q \<longrightarrow> Heap_Msg n \<notin> set q))"

definition whole :: "msg_ptr \<Rightarrow> fwk \<Rightarrow> bool" where
  "whole r s \<longleftrightarrow> (\<forall>n m. r = Heap_Msg n \<longrightarrow> heap_msgs s n = Some m \<longrightarrow> payload_ok m)"

definition busy :: "fwk_dev option list \<Rightarrow> (nat \<Rightarrow> nat) \<Rightarrow> msg_ptr set \<Rightarrow> fwk \<Rightarrow> bool" where
  "busy D L R s \<longleftrightarrow> mem_ok D L s \<and> (\<forall>r\<in>R. in_hand r s \<and> whole r s)"

text \<open>The message of a turn, before and after its handler; \<open>R\<close> are messages that nobody will handle again.\<close>

definition taken :: "fwk_dev option list \<Rightarrow> (nat \<Rightarrow> nat) \<Rightarrow> msg_ptr set \<Rightarrow> msg_ptr \<Rightarrow> fwk \<Rightarrow> bool" where
  "taken D L R r s \<longleftrightarrow> busy D L (insert r R) s \<and> (\<forall>n. r = Heap_Msg n \<longrightarrow> r \<notin> R)"

definition spent :: "fwk_dev option list \<Rightarrow> (nat \<Rightarrow> nat) \<Rightarrow> msg_ptr set \<Rightarrow> msg_ptr \<Rightarrow> fwk \<Rightarrow> bool" where
  "spent D L R r s \<longleftrightarrow> busy D L R s \<and> in_hand r s \<and> (\<forall>n. r = Heap_Msg n \<longrightarrow> r \<notin> R)"

lemma busy_mem: "busy D L R s \<Longrightarrow> mem_ok D L s"
  by (simp add: busy_def)

lemma busy_less: "busy D L R s \<Longrightarrow> R' \<subseteq> R \<Longrightarrow> busy D L R' s"
  by (auto simp: busy_def)

lemma taken_spent: "taken D L R r s \<Longrightarrow> spent D L R r s"
  by (auto simp: busy_def taken_def spent_def)

lemma takenD: "taken D L R r s \<Longrightarrow> busy D L (insert r R) s"
  by (simp add: taken_def)

lemma busy_none: "busy D L {} = mem_ok D L"
  by (rule ext) (simp add: busy_def)

lemmas mem_defs = mem_ok_def heap_ok_def queues_ok_def in_hand_def whole_def

lemma mem_upd [simp]:
  "busy D L R (s\<lparr>given := x1\<rparr>) = busy D L R s" "busy D L R (s\<lparr>answers := x2\<rparr>) = busy D L R s"
  "busy D L R (s\<lparr>heap_calls := x3\<rparr>) = busy D L R s" "busy D L R (s\<lparr>s_SleepModeIsOn := x4\<rparr>) = busy D L R s"
  "busy D L R (s\<lparr>pOverlaySurface := x5\<rparr>) = busy D L R s" "busy D L R (s\<lparr>outEventReceiverList := x6\<rparr>) = busy D L R s"
  "busy D L R (s\<lparr>uiReceiverCount := x7\<rparr>) = busy D L R s"
  by (simp_all add: busy_def mem_defs)

lemma heap_okD:
  "heap_ok s \<Longrightarrow> heap_msgs s n = Some m \<Longrightarrow> n < next_block s \<and> sendable m"
  "heap_ok s \<Longrightarrow> heap_msgs s n = Some m \<Longrightarrow> payload_free m \<Longrightarrow> \<exists>b. owns m b \<and> heap_data s b \<noteq> None"
  "heap_ok s \<Longrightarrow> heap_data s b = Some bs \<Longrightarrow> b < next_block s"
  "heap_ok s \<Longrightarrow> heap_msgs s n = Some m \<Longrightarrow> heap_msgs s n' = Some m' \<Longrightarrow> owns m b \<Longrightarrow> owns m' b \<Longrightarrow> n = n'"
  unfolding heap_ok_def by blast+

lemma heap_fresh: "heap_ok s \<Longrightarrow> heap_msgs s (next_block s) = None" "heap_ok s \<Longrightarrow> heap_data s (next_block s) = None"
proof -
  assume h: "heap_ok s"
  show "heap_msgs s (next_block s) = None" using heap_okD(1) [OF h, of "next_block s"] by (cases "heap_msgs s (next_block s)") auto
next
  assume h: "heap_ok s"
  show "heap_data s (next_block s) = None" using heap_okD(3) [OF h, of "next_block s"] by (cases "heap_data s (next_block s)") auto
qed

lemma busyD:
  "busy D L R s \<Longrightarrow> heap_ok s" "busy D L R s \<Longrightarrow> queues_ok s"
  by (auto simp: busy_def mem_ok_def)

lemma busy_msg:
  assumes "busy D L R s" and "Heap_Msg n \<in> R"
  shows "\<exists>m. heap_msgs s n = Some m \<and> payload_ok m"
proof -
  have h: "in_hand (Heap_Msg n) s" "whole (Heap_Msg n) s" using assms by (auto simp: busy_def)
  then obtain m where "heap_msgs s n = Some m" by (auto simp: in_hand_def)
  then show ?thesis using h(2) by (auto simp: whole_def)
qed

lemma busy_out: "busy D L R s \<Longrightarrow> Heap_Msg n \<in> R \<Longrightarrow> s_MessageQueue s t = Some q \<Longrightarrow> Heap_Msg n \<notin> set q"
  by (auto simp: busy_def in_hand_def)

section \<open>Messages in hand\<close>

lemma in_hand_get: "spent D L R r s \<Longrightarrow> \<exists>m. get_msg r s = Inr m"
  by (cases r) (auto simp: spent_def in_hand_def get_msg_def)

lemma busy_get: "busy D L R s \<Longrightarrow> r \<in> R \<Longrightarrow> \<exists>m. get_msg r s = Inr m"
  by (cases r) (auto simp: get_msg_def dest: busy_msg)

lemma busy_read:
  assumes "busy D L R s" and "r \<in> R" and "get_msg r s = Inr m"
  shows "\<exists>b. read_data (payload_data m) s = Inr b"
proof (cases r)
  case (Heap_Msg n)
  then have m: "heap_msgs s n = Some m" using assms(3) by (auto simp: get_msg_def split: option.splits)
  have "payload_ok m" using assms(1,2) Heap_Msg m by (auto simp: busy_def whole_def)
  moreover have "payload_free m \<Longrightarrow> \<exists>b. owns m b \<and> heap_data s b \<noteq> None" using assms(1) m by (auto simp: busy_def mem_ok_def heap_ok_def)
  ultimately show ?thesis by (auto simp: read_data_def payload_ok_def owns_def split: option.splits data_ptr.splits)
next
  case (Input_Msg i)
  then have "static_ok L m" using assms(1,3) by (auto simp: busy_def mem_ok_def get_msg_def)
  then show ?thesis by (auto simp: read_data_def static_ok_def split: option.splits data_ptr.splits)
next
  case Lpm_Msg
  then have "static_ok L m" using assms(1,3) by (auto simp: busy_def mem_ok_def get_msg_def)
  then show ?thesis by (auto simp: read_data_def static_ok_def split: option.splits data_ptr.splits)
qed

lemma new_message:
  assumes b: "busy D L R s" and m: "sendable m" "\<not> payload_free m" "payload_ok m"
  shows "(\<exists>s'. malloc_msg E m s = (None, s') \<and> busy D L R s') \<or>
    (\<exists>n s'. malloc_msg E m s = (Some (Heap_Msg n), s') \<and> busy D L (insert (Heap_Msg n) R) s' \<and> Heap_Msg n \<notin> R)"
proof (cases "heap_grants E (heap_calls s)")
  case True
  let ?n = "next_block s"
  let ?s = "s\<lparr>heap_calls := heap_calls s + 1, heap_msgs := (heap_msgs s)(?n \<mapsto> m), next_block := ?n + 1\<rparr>"
  note fresh = heap_fresh [OF busyD(1) [OF b]]
  have out: "s_MessageQueue s t = Some q \<Longrightarrow> Heap_Msg ?n \<notin> set q" for t q
    using b fresh(1) by (fastforce simp: busy_def mem_ok_def queues_ok_def)
  have R: "Heap_Msg ?n \<notin> R" using b fresh(1) by (auto simp: busy_def in_hand_def)
  note H = busyD(1) [OF b]
  have "heap_ok ?s" unfolding heap_ok_def
  proof (intro conjI allI impI)
    fix n' m' assume "heap_msgs ?s n' = Some m'"
    then show "n' < next_block ?s" "sendable m'" "payload_free m' \<Longrightarrow> \<exists>b. owns m' b \<and> heap_data ?s b \<noteq> None"
      using heap_okD(1,2) [OF H, of n' m'] m by (auto split: if_splits)
  next
    fix b assume "heap_data ?s b \<noteq> None"
    then show "b < next_block ?s" using heap_okD(3) [OF H, of b] by auto
  next
    fix n1 n2 m1 m2 b assume "heap_msgs ?s n1 = Some m1" "heap_msgs ?s n2 = Some m2" "owns m1 b" "owns m2 b"
    then show "n1 = n2" using heap_okD(4) [OF H, of n1 m1 n2 m2 b] m(2) by (auto simp: owns_def split: if_splits)
  qed
  moreover have "queues_ok ?s" using b out by (auto simp: busy_def mem_ok_def queues_ok_def)
  moreover have "in_hand r ?s \<and> whole r ?s" if "r \<in> insert (Heap_Msg ?n) R" for r
    using that b out m(3) R by (auto simp: busy_def in_hand_def whole_def)
  ultimately have "busy D L (insert (Heap_Msg ?n) R) ?s" using b by (simp add: busy_def mem_ok_def)
  then show ?thesis using True R by (simp add: malloc_msg_def Let_def)
qed (use b in \<open>simp add: malloc_msg_def Let_def\<close>)

definition unowned :: "nat \<Rightarrow> fwk \<Rightarrow> bool" where
  "unowned b s \<longleftrightarrow> (\<forall>n m. heap_msgs s n = Some m \<longrightarrow> \<not> owns m b)"

lemma new_data:
  assumes b: "busy D L R s"
  shows "(\<exists>s'. malloc_data E bs s = (None, s') \<and> busy D L R s') \<or>
    (\<exists>k s'. malloc_data E bs s = (Some (Heap_Data k), s') \<and> busy D L R s' \<and> heap_data s' k = Some bs \<and> unowned k s')"
proof (cases "heap_grants E (heap_calls s)")
  case True
  let ?n = "next_block s"
  let ?s = "s\<lparr>heap_calls := heap_calls s + 1, heap_data := (heap_data s)(?n \<mapsto> bs), next_block := ?n + 1\<rparr>"
  note H = busyD(1,2) [OF b]
  note fresh = heap_fresh(2) [OF H(1)]
  have u: "unowned ?n ?s" unfolding unowned_def
  proof (intro allI impI notI)
    fix n m assume "heap_msgs ?s n = Some m" "owns m ?n"
    then show False using heap_okD(2) [OF H(1), of n m] fresh by (auto simp: owns_def)
  qed
  have "heap_ok ?s" unfolding heap_ok_def
  proof (intro conjI allI impI)
    fix n' m' assume "heap_msgs ?s n' = Some m'"
    then have m: "heap_msgs s n' = Some m'" by simp
    show "n' < next_block ?s" "sendable m'" using heap_okD(1) [OF H(1) m] by auto
    assume "payload_free m'"
    then obtain b where "owns m' b" "heap_data s b \<noteq> None" using heap_okD(2) [OF H(1) m] by blast
    then have "owns m' b \<and> heap_data ?s b \<noteq> None" by auto
    then show "\<exists>b. owns m' b \<and> heap_data ?s b \<noteq> None" by blast
  next
    fix b assume "heap_data ?s b \<noteq> None"
    then show "b < next_block ?s" using heap_okD(3) [OF H(1), of b] by (auto split: if_splits)
  next
    fix n1 n2 m1 m2 b assume "heap_msgs ?s n1 = Some m1" "heap_msgs ?s n2 = Some m2" "owns m1 b" "owns m2 b"
    then show "n1 = n2" using heap_okD(4) [OF H(1), of n1 m1 n2 m2 b] by auto
  qed
  moreover have "queues_ok ?s" using H(2) by (simp add: queues_ok_def)
  ultimately have "busy D L R ?s" using b by (auto simp: busy_def mem_ok_def in_hand_def whole_def)
  then show ?thesis using True u by (simp add: malloc_data_def Let_def)
qed (use b in \<open>simp add: malloc_data_def Let_def\<close>)

lemma fill_in:
  assumes b: "busy D L R s" and r: "Heap_Msg n \<in> R" and m: "sendable m" "payload_ok m"
    and p: "payload_free m \<Longrightarrow> \<exists>k. owns m k \<and> heap_data s k \<noteq> None \<and> unowned k s"
  shows "busy D L R (put_msg (Heap_Msg n) m s)"
proof -
  let ?s = "put_msg (Heap_Msg n) m s"
  have q: "s_MessageQueue s t = Some q \<Longrightarrow> Heap_Msg n \<notin> set q" for t q using b r by (auto simp: busy_def in_hand_def)
  have u: "owns m k \<Longrightarrow> heap_msgs s n' = Some m' \<Longrightarrow> \<not> owns m' k" for k n' m'
    using p by (auto simp: owns_def unowned_def)
  note H = busyD(1) [OF b]
  obtain m0 where "heap_msgs s n = Some m0" using busy_msg [OF b r] by blast
  then have lt: "n < next_block s" using heap_okD(1) [OF H] by blast
  have "heap_ok ?s" unfolding heap_ok_def
  proof (intro conjI allI impI)
    fix n' m' assume "heap_msgs ?s n' = Some m'"
    then show "n' < next_block ?s" "sendable m'" "payload_free m' \<Longrightarrow> \<exists>b. owns m' b \<and> heap_data ?s b \<noteq> None"
      using H m p lt by (auto simp: heap_ok_def put_msg_def split: if_splits)
  next
    fix b assume "heap_data ?s b \<noteq> None"
    then show "b < next_block ?s" using H by (auto simp: heap_ok_def put_msg_def)
  next
    fix n1 n2 m1 m2 b assume "heap_msgs ?s n1 = Some m1" "heap_msgs ?s n2 = Some m2" "owns m1 b" "owns m2 b"
    then show "n1 = n2" using H u by (auto simp: heap_ok_def put_msg_def split: if_splits)
  qed
  moreover have "queues_ok ?s" using b q by (auto simp: busy_def mem_ok_def queues_ok_def put_msg_def)
  moreover have "in_hand r' ?s \<and> whole r' ?s" if "r' \<in> R" for r'
    using b that m(2) q by (auto simp: busy_def in_hand_def whole_def put_msg_def)
  ultimately show ?thesis using b by (simp add: busy_def mem_ok_def put_msg_def)
qed

lemma drop_keeps:
  assumes m: "mem_ok D L s" and h: "in_hand (Heap_Msg n) s"
  shows "mem_ok D L (s\<lparr>heap_msgs := (heap_msgs s)(n := None)\<rparr>)"
proof -
  let ?s = "s\<lparr>heap_msgs := (heap_msgs s)(n := None)\<rparr>"
  have "heap_ok ?s" using m by (auto simp: mem_ok_def heap_ok_def)
  moreover have "queues_ok ?s" unfolding queues_ok_def
  proof (intro allI impI)
    fix t q' n' assume a: "s_MessageQueue ?s t = Some q'" "Heap_Msg n' \<in> set q'"
    then have "n' \<noteq> n" using h by (auto simp: in_hand_def)
    then show "(\<exists>m. heap_msgs ?s n' = Some m \<and> payload_ok m) \<and> count_list q' (Heap_Msg n') = 1 \<and>
        (\<forall>t' q''. t' \<noteq> t \<longrightarrow> s_MessageQueue ?s t' = Some q'' \<longrightarrow> Heap_Msg n' \<notin> set q'')"
      using m a by (auto simp: mem_ok_def queues_ok_def)
  qed
  ultimately show ?thesis using m by (simp add: mem_ok_def)
qed

lemma drop_busy: "busy D L R s \<Longrightarrow> in_hand (Heap_Msg n) s \<Longrightarrow> Heap_Msg n \<notin> R \<Longrightarrow> busy D L R (s\<lparr>heap_msgs := (heap_msgs s)(n := None)\<rparr>)"
  using drop_keeps [OF busy_mem] by (auto simp: busy_def in_hand_def whole_def)

lemma drop_message:
  assumes b: "busy D L (insert (Heap_Msg n) R) s" and r: "Heap_Msg n \<notin> R"
  shows "reaches (busy D L R) (free_msg (Heap_Msg n) s)"
proof -
  have h: "in_hand (Heap_Msg n) s" "busy D L R s" using b by (simp_all add: busy_def)
  then show ?thesis using drop_busy [OF h(2,1) r] by (simp add: free_msg_def reaches_def in_hand_def)
qed

section \<open>Putting a message into a queue\<close>

lemma enqueue:
  assumes b: "busy D L (insert r R) s" and r: "\<And>n. r = Heap_Msg n \<Longrightarrow> r \<notin> R" and q: "s_MessageQueue s t = Some q"
  shows "busy D L R (s\<lparr>s_MessageQueue := (s_MessageQueue s)(t \<mapsto> q @ [r])\<rparr>)"
proof -
  let ?s = "s\<lparr>s_MessageQueue := (s_MessageQueue s)(t \<mapsto> q @ [r])\<rparr>"
  have out: "Heap_Msg n \<notin> set q'" if "r = Heap_Msg n" "s_MessageQueue s t' = Some q'" for n t' q'
    using busy_out [OF b, of n t' q'] that by simp
  have Q: "queues_ok s" using busyD(2) [OF b] .
  have "queues_ok ?s" unfolding queues_ok_def
  proof (intro allI impI)
    fix t0 q0 n assume a: "s_MessageQueue ?s t0 = Some q0" "Heap_Msg n \<in> set q0"
    show "(\<exists>m. heap_msgs ?s n = Some m \<and> payload_ok m) \<and> count_list q0 (Heap_Msg n) = 1 \<and>
        (\<forall>t' q'. t' \<noteq> t0 \<longrightarrow> s_MessageQueue ?s t' = Some q' \<longrightarrow> Heap_Msg n \<notin> set q')"
    proof (cases "r = Heap_Msg n")
      case True
      then have "t0 = t" "q0 = q @ [r]" using a out by (auto split: if_splits)
      moreover have "count_list q (Heap_Msg n) = 0" using out [OF True q] by (simp add: count_list_0_iff)
      ultimately show ?thesis using True out busy_msg [OF b, of n] by auto
    next
      case False
      obtain q1 where q1: "s_MessageQueue s t0 = Some q1" "Heap_Msg n \<in> set q1" and c: "count_list q0 (Heap_Msg n) = count_list q1 (Heap_Msg n)"
        using a False q by (auto split: if_splits)
      then have "(\<exists>m. heap_msgs s n = Some m \<and> payload_ok m) \<and> count_list q1 (Heap_Msg n) = 1 \<and>
        (\<forall>t' q'. t' \<noteq> t0 \<longrightarrow> s_MessageQueue s t' = Some q' \<longrightarrow> Heap_Msg n \<notin> set q')" using Q unfolding queues_ok_def by blast
      then show ?thesis using c False q by auto
    qed
  qed
  moreover have "in_hand r' ?s \<and> whole r' ?s" if "r' \<in> R" for r'
    using b that r q by (auto simp: busy_def in_hand_def whole_def)
  moreover have "t \<noteq> kFWKTaskID_Multicore" using b q by (auto simp: busy_def mem_ok_def)
  ultimately show ?thesis using b by (simp add: busy_def mem_ok_def heap_ok_def)
qed

lemma log_quiet: "busy D L R s \<Longrightarrow> log_line r s = s" "mem_ok D L s \<Longrightarrow> log_line r s = s"
  by (simp_all add: busy_def mem_ok_def log_line_def)

lemma put_keeps:
  assumes b: "busy D L (insert r R) s" and r: "\<And>n. r = Heap_Msg n \<Longrightarrow> r \<notin> R"
  shows "reaches (busy D L R) (FWK_Message_Put t r s)"
proof -
  obtain m where m: "get_msg r s = Inr m" using busy_get [OF b, of r] by blast
  have b': "busy D L R s" using busy_less [OF b, of R] by blast
  have "s_MessageQueue s kFWKTaskID_Multicore = None" using b by (simp add: busy_def mem_ok_def)
  then show ?thesis using m b' enqueue [OF b r] log_quiet(1) [OF enqueue [OF b r]]
    by (auto simp: FWK_Message_Put_def queue_send_def reaches_def split: option.splits)
qed

lemma put_fresh: "busy D L (insert (Heap_Msg n) R) s \<Longrightarrow> Heap_Msg n \<notin> R \<Longrightarrow> reaches (busy D L R) (FWK_Message_Put t (Heap_Msg n) s)"
  by (rule put_keeps) auto

lemma put_static:
  assumes "busy D L R s" and "\<And>n. r \<noteq> Heap_Msg n"
  shows "reaches (busy D L R) (FWK_Message_Put t r s)"
proof (rule put_keeps)
  show "busy D L (insert r R) s" using assms by (auto simp: busy_def in_hand_def whole_def)
qed (use assms in auto)

end
