(* ===== verification/Fwk_Safety.thy ===== *)
theory Fwk_Safety
  imports Fwk_Memory
begin

text \<open>
  Every operation of the managers keeps the memory of the messages well-formed (\<open>Fwk_Memory\<close>), and with
  that every run of devices and tasks returns.
\<close>

section \<open>Sending\<close>

lemma copy_keeps:
  assumes b: "busy D L R s" and k: "len \<le> L k"
  shows "\<exists>p s'. copy_payload E (Some (Dev_Data k)) len s = Inr (p, s') \<and> busy D L R s' \<and>
    (p = None \<or> (\<exists>j. p = Some (Heap_Data j) \<and> heap_data s' j \<noteq> None \<and> unowned j s'))"
proof -
  have "length (dev_buffers s k) = L k" using b by (simp add: busy_def mem_ok_def)
  then have "copy_data (Some (Dev_Data k)) len s = Inr (take len (dev_buffers s k))"
    using k by (simp add: copy_data_def read_data_def load_at_def slice_def)
  then obtain bs where "copy_payload E (Some (Dev_Data k)) len s = Inr (malloc_data E bs s)"
    by (cases "heap_grants E (heap_calls s)") (auto simp: copy_payload_def)
  then show ?thesis using new_data [OF b, of E bs] by auto
qed

lemma put_plain:
  assumes "busy D L (insert (Heap_Msg n) R) s" and "Heap_Msg n \<notin> R" and "sendable m" "payload_ok m" "\<not> payload_free m"
  shows "reaches (busy D L R) (rbind (FWK_Message_Put t (Heap_Msg n) (put_msg (Heap_Msg n) m s)) (\<lambda>(_, s). Inr ((), s)))"
  using assms by (blast intro: reaches_bind reaches_Inr put_fresh fill_in)

lemma put_copied:
  assumes b: "busy D L (insert (Heap_Msg n) R) s" and r: "Heap_Msg n \<notin> R" and k: "len \<le> L k" and m: "sendable m"
  shows "reaches (busy D L R) (rbind (copy_payload E (Some (Dev_Data k)) len s) (\<lambda>(p, s). case p of
      None \<Rightarrow> free_msg (Heap_Msg n) s
    | Some d \<Rightarrow> rbind (FWK_Message_Put t (Heap_Msg n) (put_msg (Heap_Msg n)
        (m\<lparr>payload_data := Some d, payload_free := True, payload_size := len\<rparr>) s)) (\<lambda>(_, s). Inr ((), s))))"
proof -
  obtain p s' where c: "copy_payload E (Some (Dev_Data k)) len s = Inr (p, s')" and b': "busy D L (insert (Heap_Msg n) R) s'"
    and p: "p = None \<or> (\<exists>j. p = Some (Heap_Data j) \<and> heap_data s' j \<noteq> None \<and> unowned j s')" using copy_keeps [OF b k] by blast
  show ?thesis
  proof (cases p)
    case None
    then show ?thesis using c drop_message [OF b' r] by simp
  next
    case (Some d)
    then obtain j where j: "d = Heap_Data j" "heap_data s' j \<noteq> None" "unowned j s'" using p by auto
    let ?m = "m\<lparr>payload_data := Some d, payload_free := True, payload_size := len\<rparr>"
    have "busy D L (insert (Heap_Msg n) R) (put_msg (Heap_Msg n) ?m s')"
      by (rule fill_in [OF b']) (use j m in \<open>auto simp: sendable_def payload_ok_def owns_def\<close>)
    then have "reaches (busy D L R) (FWK_Message_Put t (Heap_Msg n) (put_msg (Heap_Msg n) ?m s'))" using r by (rule put_fresh)
    then show ?thesis using c Some by (auto simp: reaches_def)
  qed
qed

text \<open>What a message offers for a copy.\<close>

definition copyable :: "(nat \<Rightarrow> nat) \<Rightarrow> fwk_message_t \<Rightarrow> bool" where
  "copyable L m \<longleftrightarrow> (\<forall>b. payload_data m \<noteq> Some (Heap_Data b)) \<and>
     (input_copy m \<longrightarrow> (\<exists>k. payload_data m = Some (Dev_Data k) \<and> payload_size m \<le> L k))"

lemma forward_keeps:
  assumes b: "busy D L R s" and m: "copyable L m"
  shows "reaches (busy D L R) (forward E m t s)"
proof -
  let ?m = "zero_message\<lparr>freeAfterConsumed := True, msg_id := kFWKMessageID_InputNotify, devId := devId m\<rparr>"
  have s: "sendable ?m" "\<not> payload_free ?m" "payload_ok ?m" by (simp_all add: sendable_def zero_message_def payload_ok_def)
  consider s' where "malloc_msg E ?m s = (None, s')" "busy D L R s'"
    | n s' where "malloc_msg E ?m s = (Some (Heap_Msg n), s')" "busy D L (insert (Heap_Msg n) R) s'" "Heap_Msg n \<notin> R"
    using new_message [OF b s, of E] by blast
  then show ?thesis
  proof cases
    case 1
    then show ?thesis by (simp add: forward_def reaches_Inr)
  next
    case 2
    show ?thesis
    proof (cases "input_copy m")
      case True
      then obtain k where k: "payload_data m = Some (Dev_Data k)" "payload_size m \<le> L k" using m by (auto simp: copyable_def)
      show ?thesis using put_copied [OF 2(2,3) k(2) s(1), of E t] 2(1) True k(1) by (simp add: forward_def)
    next
      case False
      let ?m' = "?m\<lparr>payload_data := payload_data m, payload_size := payload_size m\<rparr>"
      have "sendable ?m'" "payload_ok ?m'" "\<not> payload_free ?m'"
        using m by (auto simp: sendable_def zero_message_def payload_ok_def copyable_def)
      then show ?thesis using put_plain [OF 2(2,3), of ?m' t] 2(1) False by (simp add: forward_def)
    qed
  qed
qed

lemma forward_loop_keeps: "busy D L R s \<Longrightarrow> copyable L m \<Longrightarrow> reaches (busy D L R) (forward_loop E m ts s)"
proof (induction ts arbitrary: s)
  case (Cons t ts)
  then show ?case by (auto intro!: reaches_bind [OF forward_keeps])
qed (simp add: reaches_Inr)

lemma send_event_keeps:
  assumes b: "busy D L R s" and m: "msg_id m \<noteq> kFWKMessageID_InputReceive" "msg_id m \<noteq> kFWKMessageID_InputFrameworkReceived"
    "\<not> payload_free m" "payload_data m = None" and e: "event_copy e \<Longrightarrow> event_size e \<le> L (event_data e)"
  shows "reaches (busy D L R) (send_event E t m e s)"
proof -
  let ?m = "m\<lparr>freeAfterConsumed := True, msgInfo := (if event_info e < kMsgInfo_Invalid then event_info e else msgInfo m),
               isMulticoreMessage := (event_info e \<noteq> kMsgInfo_Local \<and> event_info e < kMsgInfo_Invalid)\<rparr>"
  have s: "sendable ?m" "\<not> payload_free ?m" "payload_ok ?m" using m by (auto simp: sendable_def payload_ok_def)
  consider s' where "malloc_msg E ?m s = (None, s')" "busy D L R s'"
    | n s' where "malloc_msg E ?m s = (Some (Heap_Msg n), s')" "busy D L (insert (Heap_Msg n) R) s'" "Heap_Msg n \<notin> R"
    using new_message [OF b s, of E] by blast
  then show ?thesis
  proof cases
    case 1
    then show ?thesis by (simp only: send_event_def Let_def prod.case option.case reaches_Inr)
  next
    case 2
    show ?thesis
    proof (cases "event_copy e")
      case True
      show ?thesis using put_copied [OF 2(2,3) e [OF True] s(1), of E t] True
        by (simp only: send_event_def Let_def 2(1) prod.case option.case) simp
    next
      case False
      let ?m' = "?m\<lparr>payload_data := Some (Dev_Data (event_data e))\<rparr>"
      have "sendable ?m'" "payload_ok ?m'" "\<not> payload_free ?m'" using m by (auto simp: sendable_def payload_ok_def)
      then show ?thesis using put_plain [OF 2(2,3), of ?m' t] False
        by (simp only: send_event_def Let_def 2(1) prod.case option.case) simp
    qed
  qed
qed

section \<open>The end of a message\<close>

lemma reaches_weaken: "reaches P m \<Longrightarrow> (\<And>s. P s \<Longrightarrow> Q s) \<Longrightarrow> reaches Q m"
  by (auto simp: reaches_def)

lemma static_msg: "mem_ok D L s \<Longrightarrow> get_msg r s = Inr m \<Longrightarrow> (\<And>n. r \<noteq> Heap_Msg n) \<Longrightarrow> static_ok L m"
  by (cases r) (auto simp: mem_ok_def get_msg_def)

lemma heap_msg: "get_msg (Heap_Msg n) s = Inr m \<Longrightarrow> heap_msgs s n = Some m"
  by (auto simp: get_msg_def split: option.splits)

lemma spent_free_data:
  assumes tk: "taken D L R (Heap_Msg n) s" and m: "heap_msgs s n = Some m" "owns m k"
  shows "spent D L R (Heap_Msg n) (s\<lparr>heap_msgs := (heap_msgs s)(n \<mapsto> m\<lparr>payload_free := False\<rparr>), heap_data := (heap_data s)(k := None)\<rparr>)"
proof -
  let ?s = "s\<lparr>heap_msgs := (heap_msgs s)(n \<mapsto> m\<lparr>payload_free := False\<rparr>), heap_data := (heap_data s)(k := None)\<rparr>"
  have b: "busy D L (insert (Heap_Msg n) R) s" and R: "Heap_Msg n \<notin> R" using tk by (auto simp: taken_def)
  note H = busyD(1) [OF b]
  have q: "s_MessageQueue s t = Some q \<Longrightarrow> Heap_Msg n \<notin> set q" for t q using busy_out [OF b] by simp
  have "heap_ok ?s" unfolding heap_ok_def
  proof (intro conjI allI impI)
    fix n' m' assume a: "heap_msgs ?s n' = Some m'"
    show "n' < next_block ?s" "sendable m'"
      using a heap_okD(1) [OF H, of n' m'] heap_okD(1) [OF H m(1)] by (auto simp: sendable_def split: if_splits)
    assume f: "payload_free m'"
    then have n: "n' \<noteq> n" "heap_msgs s n' = Some m'" using a by (auto split: if_splits)
    then obtain b where o: "owns m' b" "heap_data s b \<noteq> None" using heap_okD(2) [OF H n(2) f] by blast
    then have "b \<noteq> k" using heap_okD(4) [OF H n(2) m(1) o(1)] m(2) n(1) by auto
    then show "\<exists>b. owns m' b \<and> heap_data ?s b \<noteq> None" using o by auto
  next
    fix b assume "heap_data ?s b \<noteq> None"
    then show "b < next_block ?s" using heap_okD(3) [OF H, of b] by (auto split: if_splits)
  next
    fix n1 n2 m1 m2 b assume "heap_msgs ?s n1 = Some m1" "heap_msgs ?s n2 = Some m2" "owns m1 b" "owns m2 b"
    then show "n1 = n2" using heap_okD(4) [OF H, of n1 m1 n2 m2 b] by (auto simp: owns_def split: if_splits)
  qed
  moreover have "queues_ok ?s" unfolding queues_ok_def
  proof (intro allI impI)
    fix t0 q0 n' assume a: "s_MessageQueue ?s t0 = Some q0" "Heap_Msg n' \<in> set q0"
    then have "n' \<noteq> n" using q by auto
    moreover have "(\<exists>m. heap_msgs s n' = Some m \<and> payload_ok m) \<and> count_list q0 (Heap_Msg n') = 1 \<and>
        (\<forall>t' q'. t' \<noteq> t0 \<longrightarrow> s_MessageQueue s t' = Some q' \<longrightarrow> Heap_Msg n' \<notin> set q')"
      using busyD(2) [OF b] a unfolding queues_ok_def by simp
    ultimately show "(\<exists>m. heap_msgs ?s n' = Some m \<and> payload_ok m) \<and> count_list q0 (Heap_Msg n') = 1 \<and>
        (\<forall>t' q'. t' \<noteq> t0 \<longrightarrow> s_MessageQueue ?s t' = Some q' \<longrightarrow> Heap_Msg n' \<notin> set q')" by auto
  qed
  ultimately have "mem_ok D L ?s" using busy_mem [OF b] by (simp add: mem_ok_def)
  moreover have "in_hand r ?s \<and> whole r ?s" if "r \<in> R" for r
    using b that R by (auto simp: busy_def in_hand_def whole_def)
  ultimately show ?thesis using q R by (auto simp: spent_def busy_def in_hand_def)
qed

lemma free_payload_keeps:
  assumes tk: "taken D L R r s"
  shows "reaches (spent D L R r) (free_payload r s)"
proof -
  note b = takenD [OF tk]
  obtain m where m: "get_msg r s = Inr m" using busy_get [OF b, of r] by blast
  show ?thesis
  proof (cases "payload_free m")
    case False
    then show ?thesis using m taken_spent [OF tk] by (simp add: free_payload_def reaches_Inr)
  next
    case True
    then obtain n where r: "r = Heap_Msg n" using static_msg [OF busy_mem [OF b] m] by (auto simp: static_ok_def)
    then have m': "heap_msgs s n = Some m" using m heap_msg by blast
    then obtain k where k: "owns m k" "heap_data s k \<noteq> None" using heap_okD(2) [OF busyD(1) [OF b] m' True] by blast
    then show ?thesis using spent_free_data [OF tk [unfolded r] m' k(1)] m True
      by (auto simp: free_payload_def r put_msg_def free_data_def owns_def reaches_def)
  qed
qed

lemma consume_keeps:
  assumes s: "spent D L R r s" and t: "t \<noteq> kFWKTaskID_Multicore"
  shows "reaches (busy D L R) (consume t r s)"
proof -
  have M: "busy D L R s" using s by (simp add: spent_def)
  obtain m where m: "get_msg r s = Inr m" using in_hand_get [OF s] by blast
  show ?thesis
  proof (cases "freeAfterConsumed m")
    case False
    then show ?thesis using m M by (simp add: consume_def reaches_Inr)
  next
    case True
    then obtain n where r: "r = Heap_Msg n" using static_msg [OF busy_mem [OF M] m] by (auto simp: static_ok_def)
    then have "busy D L R (s\<lparr>heap_msgs := (heap_msgs s)(n := None)\<rparr>)" using s by (simp add: spent_def drop_busy)
    then show ?thesis using m True t by (simp add: consume_def r put_msg_def free_msg_def reaches_Inr)
  qed
qed

lemma dequeue_keeps:
  assumes bu: "busy D L R s" and q: "s_MessageQueue s t = Some (r # q)"
  shows "taken D L R r (s\<lparr>s_MessageQueue := (s_MessageQueue s)(t \<mapsto> q)\<rparr>)"
proof -
  let ?s = "s\<lparr>s_MessageQueue := (s_MessageQueue s)(t \<mapsto> q)\<rparr>"
  note m = busy_mem [OF bu]
  have Q: "(\<exists>m. heap_msgs s n = Some m \<and> payload_ok m) \<and> count_list q0 (Heap_Msg n) = 1 \<and>
      (\<forall>t' q'. t' \<noteq> t0 \<longrightarrow> s_MessageQueue s t' = Some q' \<longrightarrow> Heap_Msg n \<notin> set q')"
    if "s_MessageQueue s t0 = Some q0" "Heap_Msg n \<in> set q0" for t0 q0 n
    using m that unfolding mem_ok_def queues_ok_def by blast
  have "queues_ok ?s" unfolding queues_ok_def
  proof (intro allI impI)
    fix t0 q0 n assume a: "s_MessageQueue ?s t0 = Some q0" "Heap_Msg n \<in> set q0"
    show "(\<exists>m. heap_msgs ?s n = Some m \<and> payload_ok m) \<and> count_list q0 (Heap_Msg n) = 1 \<and>
        (\<forall>t' q'. t' \<noteq> t0 \<longrightarrow> s_MessageQueue ?s t' = Some q' \<longrightarrow> Heap_Msg n \<notin> set q')"
    proof (cases "t0 = t")
      case True
      then have n: "Heap_Msg n \<in> set q" "q0 = q" using a by auto
      then have "r \<noteq> Heap_Msg n" using Q [OF q, of n] count_list_0_iff [of q "Heap_Msg n"] by auto
      then show ?thesis using Q [OF q, of n] n True by auto
    next
      case False
      then have o: "s_MessageQueue s t0 = Some q0" using a by simp
      show ?thesis using Q [OF o a(2)] False q by (auto split: if_splits)
    qed
  qed
  moreover have "in_hand r ?s" unfolding in_hand_def
  proof (intro allI impI conjI)
    fix n assume n: "r = Heap_Msg n"
    then have c: "(\<exists>m. heap_msgs s n = Some m \<and> payload_ok m) \<and> count_list (r # q) (Heap_Msg n) = 1 \<and>
      (\<forall>t' q'. t' \<noteq> t \<longrightarrow> s_MessageQueue s t' = Some q' \<longrightarrow> Heap_Msg n \<notin> set q')" using Q [OF q, of n] by simp
    then show "heap_msgs ?s n \<noteq> None" by auto
    fix t0 q0 assume "s_MessageQueue ?s t0 = Some q0"
    then show "Heap_Msg n \<notin> set q0" using c n count_list_0_iff [of q "Heap_Msg n"] by (auto split: if_splits)
  qed
  moreover have "whole r ?s" unfolding whole_def
  proof (intro allI impI)
    fix n m assume "r = Heap_Msg n" "heap_msgs ?s n = Some m"
    then show "payload_ok m" using Q [OF q, of n] by auto
  qed
  moreover have "in_hand r' ?s \<and> whole r' ?s" if "r' \<in> R" for r'
    using bu that q by (fastforce simp: busy_def in_hand_def whole_def)
  moreover have "r \<notin> R" if "r = Heap_Msg n" for n using busy_out [OF bu _ q, of n] that by auto
  moreover have "t \<noteq> kFWKTaskID_Multicore" using m q by (auto simp: mem_ok_def)
  ultimately show ?thesis using m by (auto simp: taken_def busy_def mem_ok_def heap_ok_def)
qed

section \<open>Handlers\<close>

lemma give_keeps [simp]: "busy D L R (give t d h b s) = busy D L R s"
  by (simp add: give_def)

lemma answer_keeps [simp]: "busy D L R (answer req e a s) = busy D L R s"
  by (simp add: answer_def)

lemma answer_devs_keeps [simp]: "busy D L R (answer_devs t req ds s) = busy D L R s"
  by (induction t req ds s rule: answer_devs.induct) simp_all

lemma answer_infos_keeps [simp]: "busy D L R (answer_infos req ts n s) = busy D L R s"
  by (induction req ts n s rule: answer_infos.induct) simp_all

lemma answer_receivers_keeps [simp]: "busy D L R (answer_receivers req xs s) = busy D L R s"
  by (induction req xs s rule: answer_receivers.induct) simp_all

lemma answer_configs_keeps [simp]: "busy D L R (answer_configs req xs s) = busy D L R s"
  by (simp add: answer_configs_def split: list.splits)

lemma deinit_devs_keeps [simp]: "busy D L R (deinit_devs t ds s) = busy D L R s"
  by (induction t ds s rule: deinit_devs.induct) simp_all

text \<open>The message in hand can be read, and so can its payload.\<close>

lemma busy_use: "busy D L R s \<Longrightarrow> r \<in> R \<Longrightarrow> \<exists>m b. get_msg r s = Inr m \<and> read_data (payload_data m) s = Inr b"
  using busy_get busy_read by meson

lemma notify_devs_keeps: "busy D L R s \<Longrightarrow> r \<in> R \<Longrightarrow> reaches (busy D L R) (notify_devs t r ds s)"
proof (induction t r ds s rule: notify_devs.induct)
  case (3 t r d ds s)
  then show ?case using busy_use [OF 3(3,4)] by auto
qed (simp_all add: reaches_Inr)

lemma notify_receivers_keeps: "busy D L R s \<Longrightarrow> r \<in> R \<Longrightarrow> reaches (busy D L R) (notify_receivers r xs s)"
proof (induction r xs s rule: notify_receivers.induct)
  case (2 r x xs s)
  then show ?case using busy_use [OF 2(3,4)] by auto
qed (simp add: reaches_Inr)

lemma dump_receivers_keeps: "busy D L R s \<Longrightarrow> r \<in> R \<Longrightarrow> reaches (busy D L R) (dump_receivers r xs s)"
proof (induction r xs s rule: dump_receivers.induct)
  case (2 r x xs s)
  then show ?case using busy_use [OF 2(3,4)] by auto
qed (simp add: reaches_Inr)

lemma show_overlay_keeps:
  assumes b: "busy D L R s"
  shows "reaches (busy D L R) (show_overlay E d s)"
proof -
  let ?m = "zero_message\<lparr>msg_id := kFWKMessageID_DispatcherRequestShowOverlay, freeAfterConsumed := True, overlay_surface := Some (surface d)\<rparr>"
  have m: "sendable ?m" "\<not> payload_free ?m" "payload_ok ?m" by (simp_all add: sendable_def zero_message_def payload_ok_def)
  show ?thesis using new_message [OF b m, of E]
    by (auto simp: show_overlay_def intro!: reaches_Inr reaches_bind [OF put_fresh])
qed

lemma infer_devs_keeps: "busy D L R s \<Longrightarrow> r \<in> R \<Longrightarrow> reaches (busy D L R) (infer_devs E r xs s)"
proof (induction xs arbitrary: s)
  case (Cons x xs)
  obtain m b where m: "get_msg r s = Inr m" "read_data (payload_data m) s = Inr b" using busy_use [OF Cons.prems] by blast
  show ?case using m Cons
    by (auto simp: Let_def intro!: reaches_bind [of "busy D L R"] reaches_if reaches_Inr show_overlay_keeps)
qed (simp add: reaches_Inr)

text \<open>What keeps the memory leaves the message in hand, and at the end its payload is freed.\<close>

lemma reaches_spent: "taken D L R r s \<Longrightarrow> reaches (busy D L (insert r R)) m \<Longrightarrow> reaches (spent D L R r) m"
  by (auto simp: taken_def spent_def busy_def intro: reaches_weaken)

lemma spent_state: "taken D L R r s \<Longrightarrow> busy D L (insert r R) s' \<Longrightarrow> reaches (spent D L R r) (Inr (u, s'))"
  by (blast intro: reaches_spent reaches_Inr)

lemma then_free:
  assumes tk: "taken D L R r s" and m: "reaches (busy D L (insert r R)) m"
  shows "reaches (spent D L R r) (rbind m (\<lambda>(_, s). free_payload r s))"
proof -
  have "reaches (taken D L R r) m" using tk m by (auto simp: taken_def intro: reaches_weaken)
  then show ?thesis by (rule reaches_bind) (rule free_payload_keeps)
qed

lemma input_notify_keeps: "taken D L R r s \<Longrightarrow> reaches (spent D L R r) (input_notify t r s)"
  unfolding input_notify_def by (rule then_free) (auto intro: notify_devs_keeps takenD)

lemma get_components_keeps:
  assumes tk: "taken D L R r s"
  shows "reaches (spent D L R r) (get_components t r s)"
proof -
  obtain m where m: "get_msg r s = Inr m" using busy_get [OF takenD [OF tk], of r] by blast
  show ?thesis unfolding get_components_def m rbind_simps(2) by (rule spent_state [OF tk]) (simp add: takenD [OF tk])
qed

lemma OutputManager_keeps:
  assumes tk: "taken D L R r s"
  shows "reaches (spent D L R r) (OutputManager_MessageHandle E r s)"
proof -
  note b = takenD [OF tk]
  obtain m where m: "get_msg r s = Inr m" using busy_get [OF b, of r] by blast
  note f = then_free [OF tk infer_devs_keeps [OF b insertI1]] then_free [OF tk notify_receivers_keeps [OF b insertI1]]
    then_free [OF tk dump_receivers_keeps [OF b insertI1]]
  show ?thesis unfolding OutputManager_MessageHandle_def m rbind_simps(2)
    by (intro reaches_if f spent_state [OF tk]) (simp_all add: b)
qed

lemma Camera_keeps:
  assumes tk: "taken D L R r s"
  shows "reaches (spent D L R r) (CameraManager_MessageHandle r s)"
proof -
  obtain m where m: "get_msg r s = Inr m" using busy_get [OF takenD [OF tk], of r] by blast
  note f = spent_state [OF tk] input_notify_keeps [OF tk] get_components_keeps [OF tk]
  show ?thesis by (cases "msg_id m") (simp_all add: CameraManager_MessageHandle_def m f takenD [OF tk])
qed

lemma Display_keeps:
  assumes tk: "taken D L R r s"
  shows "reaches (spent D L R r) (DisplayManager_MessageHandle r s)"
proof -
  obtain m where m: "get_msg r s = Inr m" using busy_get [OF takenD [OF tk], of r] by blast
  note f = spent_state [OF tk] input_notify_keeps [OF tk] get_components_keeps [OF tk]
  show ?thesis by (cases "msg_id m") (simp_all add: DisplayManager_MessageHandle_def m f takenD [OF tk])
qed

lemma VisionAlgo_keeps:
  assumes tk: "taken D L R r s"
  shows "reaches (spent D L R r) (VisionAlgoManager_MessageHandle r s)"
proof -
  obtain m where m: "get_msg r s = Inr m" using busy_get [OF takenD [OF tk], of r] by blast
  note f = spent_state [OF tk] input_notify_keeps [OF tk] get_components_keeps [OF tk]
  show ?thesis by (cases "msg_id m") (simp_all add: VisionAlgoManager_MessageHandle_def m f takenD [OF tk])
qed

section \<open>The input manager\<close>

text \<open>An event as it comes, and a request of the other side, are statics of the input manager.\<close>

lemma received_static:
  assumes b: "busy D L R s" and m: "get_msg r s = Inr m"
    and i: "msg_id m = kFWKMessageID_InputReceive \<or> msg_id m = kFWKMessageID_InputFrameworkReceived"
  shows "(\<forall>n. r \<noteq> Heap_Msg n) \<and> static_ok L m"
proof -
  have n: "r \<noteq> Heap_Msg n" for n
    using heap_okD(1) [OF busyD(1) [OF b], of n m] m i heap_msg by (auto simp: sendable_def)
  then show ?thesis using static_msg [OF busy_mem [OF b] m] by blast
qed

lemma Framework_keeps:
  assumes b: "busy D L R s" and q: "managerId req < kFWKTaskID_COUNT"
  shows "reaches (busy D L R) (FrameworkMessageHandler E req s)"
proof -
  let ?m = "zero_message\<lparr>freeAfterConsumed := True, msg_id := kFWKMessageID_InputFrameworkGetComponents, frameworkRequest := req\<rparr>"
  have m: "sendable ?m" "\<not> payload_free ?m" "payload_ok ?m" by (simp_all add: sendable_def zero_message_def payload_ok_def)
  show ?thesis using new_message [OF b m, of E] b q
    by (auto simp: FrameworkMessageHandler_def split: framework_events_t.splits intro!: reaches_Inr reaches_bind [OF put_fresh])
qed

lemma input_receive_keeps:
  assumes b: "busy D L (insert r R) s" and m: "get_msg r s = Inr m" and i: "msg_id m = kFWKMessageID_InputReceive"
  shows "reaches (busy D L (insert r R)) (input_receive E r s)"
proof -
  have r: "\<And>n. r \<noteq> Heap_Msg n" and o: "static_ok L m" using received_static [OF b m] i by auto
  have c: "copyable L m" using o i by (auto simp: static_ok_def copyable_def)
  have e: "reaches (busy D L (insert r R)) (rbind (get_msg r s') (\<lambda>m. if payload_free m then f m else Inr ((), s')))"
    if b': "busy D L (insert r R) s'" for s' and f :: "fwk_message_t \<Rightarrow> (unit \<times> fwk) outcome"
  proof -
    obtain m' where m': "get_msg r s' = Inr m'" using busy_get [OF b'] by blast
    then have "\<not> payload_free m'" using static_msg [OF busy_mem [OF b'] m' r] by (simp add: static_ok_def)
    then show ?thesis using m' b' by (simp add: reaches_Inr)
  qed
  show ?thesis unfolding input_receive_def m rbind_simps(2)
    by (rule reaches_bind [of "busy D L (insert r R)"]) (use b c e in \<open>auto intro: forward_loop_keeps reaches_Inr\<close>)
qed

lemma Input_keeps:
  assumes tk: "taken D L R r s"
  shows "reaches (spent D L R r) (InputManager_MessageHandle E r s)"
proof -
  note b = takenD [OF tk]
  obtain m where m: "get_msg r s = Inr m" using busy_get [OF b, of r] by blast
  note q = received_static [OF b m]
  consider (receive) "msg_id m = kFWKMessageID_InputReceive" | (request) "msg_id m = kFWKMessageID_InputFrameworkReceived"
    | (other) "msg_id m \<noteq> kFWKMessageID_InputReceive" "msg_id m \<noteq> kFWKMessageID_InputFrameworkReceived" by blast
  then show ?thesis
  proof cases
    case receive
    then show ?thesis using reaches_spent [OF tk input_receive_keeps [OF b m receive]] m by (simp add: InputManager_MessageHandle_def)
  next
    case request
    then have "managerId (frameworkRequest m) < kFWKTaskID_COUNT" using q by (simp add: static_ok_def)
    then show ?thesis using reaches_spent [OF tk Framework_keeps [OF b]] m request by (simp add: InputManager_MessageHandle_def)
  next
    case other
    then show ?thesis using m reaches_spent [OF tk reaches_Inr [of "busy D L (insert r R)", OF b]]
        input_notify_keeps [OF tk] get_components_keeps [OF tk]
      by (cases "msg_id m") (simp_all add: InputManager_MessageHandle_def)
  qed
qed

lemma msgHandle_keeps:
  assumes tk: "taken D L R r s"
  shows "reaches (spent D L R r) (msgHandle E t r s)"
  unfolding msgHandle_def
  by (intro reaches_if Camera_keeps Display_keeps VisionAlgo_keeps OutputManager_keeps Input_keeps reaches_Inr taken_spent tk)

lemma turn_keeps:
  assumes m: "busy D L R s"
  shows "reaches (busy D L R) (fwk_task_proc (msgHandle E) t s)"
proof (cases "s_TaskList s t \<and> (\<exists>r q. s_MessageQueue s t = Some (r # q))")
  case True
  then obtain r q where q: "s_TaskList s t" "s_MessageQueue s t = Some (r # q)" by blast
  then have "t \<noteq> kFWKTaskID_Multicore" using busy_mem [OF m] by (auto simp: mem_ok_def)
  then show ?thesis using q reaches_bind [OF msgHandle_keeps [OF dequeue_keeps [OF m q(2)]] consume_keeps]
    by (simp add: fwk_task_proc_def)
next
  case False
  then show ?thesis using m by (auto simp: fwk_task_proc_def split: option.splits list.splits intro: reaches_Inr)
qed

section \<open>Runs\<close>

text \<open>What devices may do: a device that was registered, a request for a task that exists, a copy no longer
  than the buffer it is made from, and buffers that keep their lengths.\<close>

fun event_allowed :: "(nat \<Rightarrow> nat) \<Rightarrow> input_event \<Rightarrow> bool" where
  "event_allowed L (Event_Recv info n data copy rl) \<longleftrightarrow> (copy \<longrightarrow> n \<le> L data)"
| "event_allowed L (Event_Audio data) \<longleftrightarrow> True"
| "event_allowed L (Event_Framework req) \<longleftrightarrow> managerId req < kFWKTaskID_COUNT"

fun step_allowed :: "fwk_dev option list \<Rightarrow> (nat \<Rightarrow> nat) \<Rightarrow> fwk_step \<Rightarrow> bool" where
  "step_allowed D L (Input_Event d e) \<longleftrightarrow> find_dev d 0 D \<noteq> Inl MemFault \<and> event_allowed L e"
| "step_allowed D L (Output_Event d i e) \<longleftrightarrow> (event_copy e \<longrightarrow> event_size e \<le> L (event_data e))"
| "step_allowed D L (Algo_Event d i e) \<longleftrightarrow> (event_copy e \<longrightarrow> event_size e \<le> L (event_data e))"
| "step_allowed D L (Dev_Writes k bs) \<longleftrightarrow> length bs = L k"
| "step_allowed D L _ \<longleftrightarrow> True"

lemma find_dev_out: "find_dev d i D = Inl x \<Longrightarrow> x = MemFault"
  by (induction d i D rule: find_dev.induct) (auto split: if_splits)

lemma fill_message_static:
  "static_ok L m \<Longrightarrow> event_allowed L e \<Longrightarrow> fill_message d e m = (t, m') \<Longrightarrow> static_ok L m'"
  by (cases e) (auto simp: fill_message_def static_ok_def Let_def split: if_splits)

lemma set_static:
  assumes "busy D L R s" and "static_ok L m" and "r = Input_Msg i \<or> r = Lpm_Msg"
  shows "busy D L R (put_msg r m s)"
proof -
  let ?s = "put_msg r m s"
  have same: "heap_msgs ?s = heap_msgs s" "heap_data ?s = heap_data s" "s_MessageQueue ?s = s_MessageQueue s" "next_block ?s = next_block s"
    "devs ?s = devs s" "dev_buffers ?s = dev_buffers s" "log_verbose ?s = log_verbose s" "log_reads ?s = log_reads s" using assms(3) by (auto simp: put_msg_def)
  have "static_ok L (lpmNotifyMsg ?s)" "\<And>i. static_ok L (input_msgs ?s i)"
    using assms by (auto simp: busy_def mem_ok_def put_msg_def)
  then have "mem_ok D L ?s" using busy_mem [OF assms(1)] by (simp add: mem_ok_def heap_ok_def queues_ok_def same)
  then show ?thesis using assms(1) by (simp add: busy_def in_hand_def whole_def same)
qed

lemma input_event_keeps:
  assumes m: "busy D L R s" and a: "find_dev d 0 D \<noteq> Inl MemFault" "event_allowed L e"
  shows "reaches (busy D L R) (InputManager_DeviceCallback d e s)"
proof -
  have D: "devs s kFWKTaskID_Input = D" using busy_mem [OF m] by (simp add: mem_ok_def)
  obtain i where i: "find_dev d 0 D = Inr i" using a(1) find_dev_out [of d 0 D] by (cases "find_dev d 0 D") auto
  show ?thesis
  proof (cases i)
    case None
    then show ?thesis using D i m unfolding InputManager_DeviceCallback_def by (simp add: reaches_Inr)
  next
    case (Some j)
    obtain t m' where f: "fill_message d e (input_msgs s j) = (t, m')" by (cases "fill_message d e (input_msgs s j)")
    have "static_ok L (input_msgs s j)" using busy_mem [OF m] by (simp add: mem_ok_def)
    then have "static_ok L m'" using fill_message_static a(2) f by blast
    then have "busy D L R (put_msg (Input_Msg j) m' s)" using set_static [OF m] by blast
    then have "reaches (busy D L R) (FWK_Message_Put t (Input_Msg j) (put_msg (Input_Msg j) m' s))" by (rule put_static) simp
    then show ?thesis using D i Some f unfolding InputManager_DeviceCallback_def by (auto simp: reaches_def)
  qed
qed

lemma put_all_keeps: "busy D L R s \<Longrightarrow> reaches (busy D L R) (put_all Lpm_Msg ts s)"
proof (induction ts arbitrary: s)
  case (Cons t ts)
  have "reaches (busy D L R) (FWK_Message_Put t Lpm_Msg s)" using put_static [OF Cons.prems] by simp
  then show ?case using Cons by (auto intro: reaches_bind)
qed (simp add: reaches_Inr)

lemma notify_sleep_keeps:
  assumes m: "busy D L R s"
  shows "reaches (busy D L R) (notify_sleep s)"
proof -
  let ?m = "(lpmNotifyMsg s)\<lparr>freeAfterConsumed := False, msg_id := kFWKMessageID_LpmPreEnterSleep\<rparr>"
  have "static_ok L ?m" using busy_mem [OF m] by (simp add: mem_ok_def static_ok_def)
  then have "busy D L R (put_msg Lpm_Msg ?m s)" using set_static [OF m] by blast
  then show ?thesis by (simp add: notify_sleep_def put_msg_def put_all_keeps)
qed

lemma register_keeps: "busy D L R s \<Longrightarrow> reaches (busy D L R) (FWK_OutputManager_RegisterEventHandler E x s)"
  by (simp add: FWK_OutputManager_RegisterEventHandler_def Let_def reaches_def)

lemma unregister_keeps: "busy D L R s \<Longrightarrow> reaches (busy D L R) (FWK_OutputManager_UnregisterEventHandler d s)"
  by (auto simp: FWK_OutputManager_UnregisterEventHandler_def reaches_def split: option.splits)

lemma output_event_keeps:
  assumes "busy D L R s" and "event_copy e \<Longrightarrow> event_size e \<le> L (event_data e)"
  shows "reaches (busy D L R) (OutputManager_DeviceCallback E d i e s)"
  unfolding OutputManager_DeviceCallback_def
  by (rule send_event_keeps [OF assms(1) _ _ _ _ assms(2)]) (simp_all add: zero_message_def)

lemma algo_event_keeps:
  assumes "busy D L R s" and "event_copy e \<Longrightarrow> event_size e \<le> L (event_data e)"
  shows "reaches (busy D L R) (VisionAlgoManager_DeviceCallback E d i e s)"
proof -
  have "snd (algo_target i) \<noteq> kFWKMessageID_InputReceive" "snd (algo_target i) \<noteq> kFWKMessageID_InputFrameworkReceived"
    by (cases i; simp)+
  then show ?thesis unfolding VisionAlgoManager_DeviceCallback_def
    by (intro send_event_keeps [OF assms(1) _ _ _ _ assms(2)]) (simp_all add: zero_message_def)
qed

lemma fwk_step_keeps:
  assumes m: "busy D L R s" and a: "step_allowed D L p"
  shows "reaches (busy D L R) (fwk_do E p s)"
proof (cases p)
  case (Input_Event d e)
  then show ?thesis using a m by (auto intro!: reaches_bind [OF input_event_keeps] reaches_Inr)
next
  case (Dev_Writes k bs)
  then show ?thesis using m a by (auto simp: busy_def mem_ok_def heap_ok_def queues_ok_def in_hand_def whole_def intro!: reaches_Inr)
next
  case (Handler_Comes x)
  then show ?thesis using m by (auto intro!: reaches_bind [OF register_keeps] reaches_Inr)
next
  case (Handler_Goes d)
  then show ?thesis using m by (auto intro!: reaches_bind [OF unregister_keeps] reaches_Inr)
next
  case Log_Line
  then show ?thesis using m by (simp add: read_log_def busy_def mem_ok_def reaches_Inr)
qed (use m a notify_sleep_keeps turn_keeps output_event_keeps algo_event_keeps in auto)

interpretation fwk: guarded_invariant "fwk_do E" "busy D L R" "step_allowed D L" for E D L R
  by unfold_locales (rule fwk_step_keeps)

end
