(* ===== verification/Fwk_Deliver.thy ===== *)
theory Fwk_Deliver
  imports Fwk_Safety
begin

text \<open>
  One event on its way: the copies the input manager makes for the tasks of the receiver list, each
  waiting in its task's queue, and the turns in which the tasks hand them to their devices. At the end
  the queues and the heap are as empty as they were.
\<close>

section \<open>Quiet, and an event in flight\<close>

definition quiet :: "fwk \<Rightarrow> bool" where
  "quiet s \<longleftrightarrow> s_MessageQueue s = (\<lambda>t. if s_TaskList s t then Some [] else None) \<and> heap_msgs s = Map.empty \<and> heap_data s = Map.empty"

definition note_of :: "fwk_message_t \<Rightarrow> nat \<Rightarrow> bool" where
  "note_of m b \<longleftrightarrow> msg_id m = kFWKMessageID_InputNotify \<and> freeAfterConsumed m \<and> owns m b"

text \<open>The tasks \<open>T\<close> have a copy of the bytes to hand out, and there is nothing else in the memory; \<open>W\<close> are the
  statics that wait in the queues of the other tasks.\<close>

definition waits :: "u8 list \<Rightarrow> nat \<Rightarrow> fwk \<Rightarrow> bool" where
  "waits bs t s \<longleftrightarrow> (\<exists>n b m. s_MessageQueue s t = Some [Heap_Msg n] \<and> heap_msgs s n = Some m \<and> note_of m b \<and> heap_data s b = Some bs)"

definition flight :: "(nat \<Rightarrow> msg_ptr list) \<Rightarrow> nat set \<Rightarrow> u8 list \<Rightarrow> fwk \<Rightarrow> bool" where
  "flight W T bs s \<longleftrightarrow> (\<forall>t\<in>T. waits bs t s) \<and>
     (\<forall>t. t \<notin> T \<longrightarrow> s_MessageQueue s t = (if s_TaskList s t then Some (W t) else None)) \<and>
     (\<forall>n. heap_msgs s n \<noteq> None \<longrightarrow> (\<exists>t\<in>T. s_MessageQueue s t = Some [Heap_Msg n])) \<and>
     (\<forall>b. heap_data s b \<noteq> None \<longrightarrow> (\<exists>n m. heap_msgs s n = Some m \<and> owns m b))"

lemma flight_quiet: "flight (\<lambda>_. []) {} bs s \<longleftrightarrow> quiet s"
  by (auto simp: flight_def quiet_def)

text \<open>What the delivery does not touch.\<close>

definition same_devices :: "fwk \<Rightarrow> fwk \<Rightarrow> bool" where
  "same_devices s s' \<longleftrightarrow> devs s' = devs s \<and> s_TaskList s' = s_TaskList s \<and> outEventReceiverList s' = outEventReceiverList s \<and>
     input_msgs s' = input_msgs s \<and> dev_buffers s' = dev_buffers s"

definition deliveries :: "fwk \<Rightarrow> u8 list \<Rightarrow> nat \<Rightarrow> (nat \<times> nat \<times> handed \<times> u8 list option) list" where
  "deliveries s bs t =
    (if t = kFWKTaskID_Output then map (\<lambda>x. (t, out_dev (pDev x), Notified, Some bs)) (filter has_notify (outEventReceiverList s))
     else map (\<lambda>d. (t, dev_id d, Notified, Some bs)) (filter has_inputNotify (List.map_filter id (devs s t))))"

definition handles_notes :: "nat \<Rightarrow> bool" where
  "handles_notes t \<longleftrightarrow> t \<in> {kFWKTaskID_Camera, kFWKTaskID_Display, kFWKTaskID_VisionAlgo, kFWKTaskID_Output, kFWKTaskID_Input}"

section \<open>Copies for the tasks\<close>

lemma forward_flight:
  assumes m: "mem_ok D L s" and f: "flight W T bs s" and t: "t \<notin> T" "s_TaskList s t" "W t = []" and E: "\<And>k. heap_grants E k"
    and c: "input_copy m" "payload_data m = Some (Dev_Data k)" "payload_size m \<le> L k" "bs = take (payload_size m) (dev_buffers s k)"
  shows "\<exists>s'. forward E m t s = Inr ((), s') \<and> mem_ok D L s' \<and> flight W (insert t T) bs s' \<and> same_devices s s' \<and> given s' = given s"
proof -
  let ?N = "next_block s"
  let ?m = "zero_message\<lparr>freeAfterConsumed := True, msg_id := kFWKMessageID_InputNotify, devId := devId m,
    payload_data := Some (Heap_Data (?N + 1)), payload_free := True, payload_size := payload_size m\<rparr>"
  let ?s = "s\<lparr>heap_calls := heap_calls s + 1 + 1, heap_msgs := (heap_msgs s)(?N \<mapsto> ?m), heap_data := (heap_data s)(?N + 1 \<mapsto> bs),
    next_block := ?N + 1 + 1, s_MessageQueue := (s_MessageQueue s)(t \<mapsto> [Heap_Msg ?N])\<rparr>"
  have q: "s_MessageQueue s t = Some []" using f t by (simp add: flight_def)
  have len: "length (dev_buffers s k) = L k" using m by (simp add: mem_ok_def)
  have "\<not> log_verbose s" using m by (simp add: mem_ok_def)
  then have run: "forward E m t s = Inr ((), ?s)"
    using E q c len by (simp add: forward_def malloc_msg_def copy_payload_def copy_data_def read_data_def load_at_def slice_def
        malloc_data_def Let_def FWK_Message_Put_def put_msg_def get_msg_def zero_message_def queue_send_def log_line_def)
  have cp: "copyable L m" using c by (auto simp: copyable_def)
  have ok: "mem_ok D L ?s" using forward_keeps [of D L "{}" s m E t] m cp run by (simp add: busy_none reaches_def)
  have h: "heap_ok s" using m by (simp add: mem_ok_def)
  have fresh: "heap_msgs s ?N = None" "heap_data s (?N + 1) = None"
    using heap_fresh [OF h] heap_okD(3) [OF h, of "?N + 1"] by (cases "heap_data s (?N + 1)"; simp)+
  have "waits bs t' ?s" if "t' \<in> T" for t'
  proof -
    have "waits bs t' s" using f that by (simp add: flight_def)
    then obtain n b m' where w: "s_MessageQueue s t' = Some [Heap_Msg n]" "heap_msgs s n = Some m'" "note_of m' b" "heap_data s b = Some bs"
      unfolding waits_def by blast
    then have "t' \<noteq> t" "n \<noteq> ?N" "b \<noteq> ?N + 1" using t that fresh by auto
    then show ?thesis using w by (auto simp: waits_def)
  qed
  moreover have "waits bs t ?s" by (auto simp: waits_def note_of_def owns_def)
  moreover have "\<exists>t'\<in>insert t T. s_MessageQueue ?s t' = Some [Heap_Msg n]" if a: "heap_msgs ?s n \<noteq> None" for n
  proof (cases "n = ?N")
    case False
    then have "heap_msgs s n \<noteq> None" using a by simp
    then obtain t' where "t' \<in> T" "s_MessageQueue s t' = Some [Heap_Msg n]" using f unfolding flight_def by blast
    then show ?thesis using t by auto
  qed simp
  moreover have "\<exists>n m. heap_msgs ?s n = Some m \<and> owns m b" if a: "heap_data ?s b \<noteq> None" for b
  proof (cases "b = ?N + 1")
    case True
    then show ?thesis by (auto simp: owns_def)
  next
    case False
    then have "heap_data s b \<noteq> None" using a by simp
    then obtain n m' where o: "heap_msgs s n = Some m'" "owns m' b" using f unfolding flight_def by blast
    then have "n \<noteq> ?N" using fresh by auto
    then show ?thesis using o by (intro exI [of _ n] exI [of _ m']) simp
  qed
  moreover have "s_MessageQueue ?s t' = (if s_TaskList ?s t' then Some (W t') else None)" if "t' \<notin> insert t T" for t'
    using f that by (simp add: flight_def)
  ultimately have "flight W (insert t T) bs ?s" unfolding flight_def by blast
  then show ?thesis using run ok by (simp add: same_devices_def)
qed

lemma same_devices_trans: "same_devices s s' \<Longrightarrow> same_devices s' s'' \<Longrightarrow> same_devices s s''"
  by (simp add: same_devices_def)

lemma forward_loop_flight:
  assumes E: "\<And>k. heap_grants E k" and c: "input_copy m" "payload_data m = Some (Dev_Data k)" "payload_size m \<le> L k"
  shows "mem_ok D L s \<Longrightarrow> flight W T bs s \<Longrightarrow> distinct ts \<Longrightarrow> set ts \<inter> T = {} \<Longrightarrow> bs = take (payload_size m) (dev_buffers s k) \<Longrightarrow>
    \<forall>t\<in>set ts. bit (receiverList m) t \<longrightarrow> W t = [] \<Longrightarrow>
    \<exists>s'. forward_loop E m ts s = Inr ((), s') \<and> mem_ok D L s' \<and> flight W (T \<union> {t \<in> set ts. bit (receiverList m) t \<and> s_TaskList s t}) bs s' \<and>
      same_devices s s' \<and> given s' = given s"
proof (induction ts arbitrary: s T)
  case Nil
  then show ?case by (simp add: same_devices_def)
next
  case (Cons t ts)
  show ?case
  proof (cases "bit (receiverList m) t \<and> s_TaskList s t")
    case True
    obtain s1 where s1: "forward E m t s = Inr ((), s1)" "mem_ok D L s1" "flight W (insert t T) bs s1" "same_devices s s1"
      "given s1 = given s"
      using forward_flight [OF Cons.prems(1,2) _ _ _ E c Cons.prems(5), of t] True Cons.prems(4,6) by auto
    have "set ts \<inter> insert t T = {}" "bs = take (payload_size m) (dev_buffers s1 k)" using Cons.prems s1 by (auto simp: same_devices_def)
    then obtain s2 where s2: "forward_loop E m ts s1 = Inr ((), s2)" "mem_ok D L s2"
      "flight W (insert t T \<union> {t \<in> set ts. bit (receiverList m) t \<and> s_TaskList s1 t}) bs s2" "same_devices s1 s2"
      "given s2 = given s1"
      using Cons.IH [OF s1(2,3)] Cons.prems(3,6) by auto
    have "insert t T \<union> {t \<in> set ts. bit (receiverList m) t \<and> s_TaskList s1 t} =
        T \<union> {x \<in> set (t # ts). bit (receiverList m) x \<and> s_TaskList s x}" using True s1(4) by (auto simp: same_devices_def)
    then show ?thesis using s1 s2 True same_devices_trans [OF s1(4) s2(4)] by (simp add: FWK_Task_IsRegistered_def)
  next
    case False
    then have "{x \<in> set (t # ts). bit (receiverList m) x \<and> s_TaskList s x} = {x \<in> set ts. bit (receiverList m) x \<and> s_TaskList s x}" by auto
    moreover have "forward_loop E m (t # ts) s = forward_loop E m ts s" using False by (auto simp: FWK_Task_IsRegistered_def)
    ultimately show ?thesis using Cons.IH [OF Cons.prems(1,2) _ _ Cons.prems(5)] Cons.prems(3,4,6) by simp
  qed
qed

section \<open>Turns\<close>

lemma get_given [simp]: "get_msg r (s\<lparr>given := x\<rparr>) = get_msg r s"
  by (simp add: get_msg_def split: msg_ptr.splits)

lemma read_given [simp]: "read_data p (s\<lparr>given := x\<rparr>) = read_data p s"
  by (simp add: read_data_def split: option.splits data_ptr.splits)

lemma notify_devs_run:
  "get_msg r s = Inr m \<Longrightarrow> read_data (payload_data m) s = Inr (Some bs) \<Longrightarrow> notify_devs t r ds s =
    Inr ((), s\<lparr>given := given s @ map (\<lambda>d. (t, dev_id d, Notified, Some bs)) (filter has_inputNotify (List.map_filter id ds))\<rparr>)"
  by (induction t r ds s rule: notify_devs.induct) (auto simp: give_def map_filter_simps)

lemma notify_receivers_run:
  "get_msg r s = Inr m \<Longrightarrow> read_data (payload_data m) s = Inr (Some bs) \<Longrightarrow> notify_receivers r xs s =
    Inr ((), s\<lparr>given := given s @ map (\<lambda>x. (kFWKTaskID_Output, out_dev (pDev x), Notified, Some bs)) (filter has_notify xs)\<rparr>)"
  by (induction r xs s rule: notify_receivers.induct) (auto simp: give_def)

lemma handle_note:
  assumes m: "heap_msgs s n = Some m" "note_of m b" "heap_data s b = Some bs" and t: "handles_notes t"
  shows "msgHandle E t (Heap_Msg n) s = Inr ((), s\<lparr>given := given s @ deliveries s bs t,
    heap_msgs := (heap_msgs s)(n \<mapsto> m\<lparr>payload_free := False\<rparr>), heap_data := (heap_data s)(b := None)\<rparr>)"
proof -
  have g: "get_msg (Heap_Msg n) s = Inr m" "msg_id m = kFWKMessageID_InputNotify" "payload_free m" "payload_data m = Some (Heap_Data b)"
    using m by (auto simp: get_msg_def note_of_def owns_def)
  then have r: "read_data (payload_data m) s = Inr (Some bs)" using m by (simp add: read_data_def)
  note run = notify_devs_run [OF g(1) r] notify_receivers_run [OF g(1) r]
  have fr: "free_payload (Heap_Msg n) (s\<lparr>given := x\<rparr>) = Inr ((), s\<lparr>given := x,
      heap_msgs := (heap_msgs s)(n \<mapsto> m\<lparr>payload_free := False\<rparr>), heap_data := (heap_data s)(b := None)\<rparr>)" for x
    using g m by (simp add: free_payload_def get_msg_def put_msg_def free_data_def)
  show ?thesis using t g run fr
    by (auto simp: handles_notes_def msgHandle_def deliveries_def CameraManager_MessageHandle_def DisplayManager_MessageHandle_def
        VisionAlgoManager_MessageHandle_def InputManager_MessageHandle_def OutputManager_MessageHandle_def input_notify_def)
qed

lemma turn_flight:
  assumes m: "mem_ok D L s" and f: "flight W (insert t T) bs s" and t: "t \<notin> T" "s_TaskList s t" "handles_notes t" "W t = []"
  shows "\<exists>s'. fwk_do E (Turn t) s = Inr ((), s') \<and> mem_ok D L s' \<and> flight W T bs s' \<and> same_devices s s' \<and>
    given s' = given s @ deliveries s bs t"
proof -
  have "waits bs t s" using f by (simp add: flight_def)
  then obtain n b ms where w: "s_MessageQueue s t = Some [Heap_Msg n]" "heap_msgs s n = Some ms" "note_of ms b" "heap_data s b = Some bs"
    unfolding waits_def by blast
  let ?s = "s\<lparr>s_MessageQueue := (s_MessageQueue s)(t \<mapsto> []), given := given s @ deliveries s bs t,
    heap_msgs := (heap_msgs s)(n := None), heap_data := (heap_data s)(b := None)\<rparr>"
  have own: "owns ms b" "freeAfterConsumed ms" using w(3) by (auto simp: note_of_def)
  have t7: "t \<noteq> kFWKTaskID_Multicore" using t(3) by (auto simp: handles_notes_def)
  have dl: "deliveries (s\<lparr>s_MessageQueue := x\<rparr>) bs t = deliveries s bs t" for x by (simp add: deliveries_def)
  have run: "fwk_do E (Turn t) s = Inr ((), ?s)"
    using handle_note [of "s\<lparr>s_MessageQueue := (s_MessageQueue s)(t \<mapsto> [])\<rparr>" n ms b bs t E] w t own t7
    by (simp add: fwk_task_proc_def consume_def get_msg_def put_msg_def free_msg_def dl)
  have ok: "mem_ok D L ?s" using fwk_step_keeps [of D L "{}" s "Turn t" E] m run by (simp add: busy_none reaches_def)
  have h: "heap_ok s" and Q: "queues_ok s" using m by (simp_all add: mem_ok_def)
  have alone: "n' \<noteq> n" if "s_MessageQueue s t' = Some [Heap_Msg n']" "t' \<noteq> t" for t' n'
    using Q w(1) that unfolding queues_ok_def by (metis list.set_intros(1))
  have "waits bs t' ?s" if T: "t' \<in> T" for t'
  proof -
    have "waits bs t' s" using f T by (simp add: flight_def)
    then obtain n' b' m' where w': "s_MessageQueue s t' = Some [Heap_Msg n']" "heap_msgs s n' = Some m'" "note_of m' b'" "heap_data s b' = Some bs"
      unfolding waits_def by blast
    have "t' \<noteq> t" using T t(1) by blast
    moreover have n: "n' \<noteq> n" using alone [OF w'(1)] calculation by blast
    moreover have "b' \<noteq> b" using heap_okD(4) [OF h w'(2) w(2), of b'] w'(3) own(1) n by (auto simp: note_of_def)
    ultimately show ?thesis using w' by (auto simp: waits_def)
  qed
  moreover have "s_MessageQueue ?s t' = (if s_TaskList ?s t' then Some (W t') else None)" if "t' \<notin> T" for t'
    using f that t(2,4) by (auto simp: flight_def)
  moreover have "\<exists>t'\<in>T. s_MessageQueue ?s t' = Some [Heap_Msg n']" if a: "heap_msgs ?s n' \<noteq> None" for n'
  proof -
    have n: "n' \<noteq> n" "heap_msgs s n' \<noteq> None" using a by (auto split: if_splits)
    then obtain t' where t': "t' \<in> insert t T" "s_MessageQueue s t' = Some [Heap_Msg n']" using f unfolding flight_def by blast
    then have "t' \<noteq> t" using w(1) n by auto
    then show ?thesis using t' by auto
  qed
  moreover have "\<exists>n m. heap_msgs ?s n = Some m \<and> owns m b'" if a: "heap_data ?s b' \<noteq> None" for b'
  proof -
    have b: "b' \<noteq> b" "heap_data s b' \<noteq> None" using a by (auto split: if_splits)
    then obtain n' m' where n': "heap_msgs s n' = Some m'" "owns m' b'" using f unfolding flight_def by blast
    then have "n' \<noteq> n" using w(2) own(1) b by (auto simp: owns_def)
    then show ?thesis using n' by (intro exI [of _ n'] exI [of _ m']) simp
  qed
  ultimately have "flight W T bs ?s" unfolding flight_def by blast
  then show ?thesis using run ok by (simp add: same_devices_def)
qed

lemma same_deliveries: "same_devices s s' \<Longrightarrow> deliveries s' = deliveries s"
  by (simp add: deliveries_def same_devices_def fun_eq_iff)

lemma turns_flight:
  "mem_ok D L s \<Longrightarrow> flight W (set ts) bs s \<Longrightarrow> distinct ts \<Longrightarrow> \<forall>t\<in>set ts. s_TaskList s t \<and> handles_notes t \<and> W t = [] \<Longrightarrow>
    \<exists>rs s'. run_ops (fwk_do E) (map Turn ts) s = Inr (rs, s') \<and> mem_ok D L s' \<and> flight W {} bs s' \<and> same_devices s s' \<and>
      given s' = given s @ concat (map (deliveries s bs) ts)"
proof (induction ts arbitrary: s)
  case Nil
  then show ?case by (simp add: same_devices_def)
next
  case (Cons t ts)
  then obtain s1 where s1: "fwk_do E (Turn t) s = Inr ((), s1)" "mem_ok D L s1" "flight W (set ts) bs s1" "same_devices s s1"
    "given s1 = given s @ deliveries s bs t"
    using turn_flight [of D L s W t "set ts" bs E] by auto
  have "\<forall>t\<in>set ts. s_TaskList s1 t \<and> handles_notes t \<and> W t = []" "distinct ts" using Cons.prems(3,4) s1(4) by (auto simp: same_devices_def)
  then obtain rs s2 where s2: "run_ops (fwk_do E) (map Turn ts) s1 = Inr (rs, s2)" "mem_ok D L s2" "flight W {} bs s2" "same_devices s1 s2"
    "given s2 = given s1 @ concat (map (deliveries s1 bs) ts)" using Cons.IH [OF s1(2,3)] by blast
  then show ?case using s1 same_deliveries [OF s1(4)] same_devices_trans [OF s1(4) s2(4)] by simp
qed

section \<open>The event\<close>

lemma find_dev_of: "find_dev d i ds = Inr (Some j) \<Longrightarrow> dev_of d ds \<noteq> None"
proof (induction d i ds rule: find_dev.induct)
  case (3 d i x ds)
  then show ?case by (cases ds) (auto split: if_splits)
qed simp_all

lemma run_append: "run_ops step (ps @ qs) s = rbind (run_ops step ps s) (\<lambda>(rs, t). rbind (run_ops step qs t) (\<lambda>(rs', u). Inr (rs @ rs', u)))"
proof (induction ps arbitrary: s)
  case Nil
  show ?case by (cases "run_ops step qs s") auto
next
  case (Cons p ps)
  show ?case by (cases "step p s") (auto simp: Cons rbind_assoc rbind_def split: sum.splits)
qed

text \<open>The devices write to their buffers while something waits.\<close>

fun written :: "(nat \<times> u8 list) list \<Rightarrow> (nat \<Rightarrow> u8 list) \<Rightarrow> nat \<Rightarrow> u8 list" where
  "written [] B = B"
| "written ((j, w) # ws) B = written ws (B(j := w))"

lemma writes_run: "run_ops (fwk_do E) (map (\<lambda>(j, w). Dev_Writes j w) ws) s =
    Inr (map (\<lambda>_. ()) ws, s\<lparr>dev_buffers := written ws (dev_buffers s)\<rparr>)"
proof (induction ws arbitrary: s)
  case (Cons w ws)
  then show ?case by (cases w) simp
qed simp

lemma writes_flight:
  assumes "mem_ok D L s" and "flight W T bs s" and "list_all (\<lambda>w. length (snd w) = L (fst w)) ws"
  shows "mem_ok D L (s\<lparr>dev_buffers := written ws (dev_buffers s)\<rparr>) \<and> flight W T bs (s\<lparr>dev_buffers := written ws (dev_buffers s)\<rparr>)"
proof -
  have "list_all (step_allowed D L) (map (\<lambda>(j, w). Dev_Writes j w) ws)" using assms(3) by (induction ws) auto
  from fwk.run_safe [of D L "{}" s, OF _ this] have "mem_ok D L (s\<lparr>dev_buffers := written ws (dev_buffers s)\<rparr>)"
    using assms(1) writes_run by (auto simp: busy_none)
  then show ?thesis using assms(2) by (simp add: flight_def waits_def)
qed

text \<open>A device sends an event: its message has the event's content and one more place in the queue. Then the
  input task takes a message from the queue.\<close>

definition event_message :: "nat \<Rightarrow> input_event \<Rightarrow> nat \<Rightarrow> fwk \<Rightarrow> fwk_message_t" where
  "event_message d e i s = snd (fill_message d e (input_msgs s i))"

lemma event_content:
  "msg_id (event_message d (Event_Recv info n k True rl) i s) = kFWKMessageID_InputReceive"
  "devId (event_message d (Event_Recv info n k True rl) i s) = d"
  "receiverList (event_message d (Event_Recv info n k True rl) i s) = rl"
  "payload_data (event_message d (Event_Recv info n k True rl) i s) = Some (Dev_Data k)"
  "input_copy (event_message d (Event_Recv info n k True rl) i s)"
  "payload_size (event_message d (Event_Recv info n k True rl) i s) = n"
  "msgInfo (event_message d (Event_Recv info n k True rl) i s) = msgInfo (input_msgs s i)"
  by (simp_all add: event_message_def fill_message_def Let_def)

lemma event_queued:
  assumes m: "mem_ok D L s" and f: "flight W {} bs s" and t: "s_TaskList s kFWKTaskID_Input" "length (W kFWKTaskID_Input) < mainQUEUE_LENGTH"
    and d: "find_dev d 0 D = Inr (Some i)" "msgInfo (input_msgs s i) \<noteq> kMsgInfo_Remote" and n: "n \<le> L k"
  shows "\<exists>s'. fwk_do E (Input_Event d (Event_Recv info n k True rl)) s = Inr ((), s') \<and> mem_ok D L s' \<and>
    flight (W(kFWKTaskID_Input := W kFWKTaskID_Input @ [Input_Msg i])) {} bs s' \<and>
    same_devices (s\<lparr>input_msgs := (input_msgs s)(i := event_message d (Event_Recv info n k True rl) i s)\<rparr>) s' \<and> given s' = given s"
proof -
  let ?e = "Event_Recv info n k True rl" and ?q = "W kFWKTaskID_Input"
  let ?m = "event_message d ?e i s"
  let ?s = "s\<lparr>input_msgs := (input_msgs s)(i := ?m), s_MessageQueue := (s_MessageQueue s)(kFWKTaskID_Input \<mapsto> ?q @ [Input_Msg i])\<rparr>"
  have f1: "fill_message d ?e (input_msgs s i) = (kFWKTaskID_Input, ?m)" by (simp add: event_message_def fill_message_def Let_def)
  have D: "devs s kFWKTaskID_Input = D" "s_MessageQueue s kFWKTaskID_Multicore = None" "\<not> log_verbose s" using m by (simp_all add: mem_ok_def)
  have q: "s_MessageQueue s kFWKTaskID_Input = Some ?q" using f t by (simp add: flight_def)
  have run: "fwk_do E (Input_Event d ?e) s = Inr ((), ?s)"
    using d D f1 q t event_content(7) [of d info n k rl i s]
    by (simp add: InputManager_DeviceCallback_def put_msg_def FWK_Message_Put_def get_msg_def queue_send_def log_line_def)
  have "step_allowed D L (Input_Event d ?e)" using d(1) n by simp
  then have "reaches (mem_ok D L) (fwk_do E (Input_Event d ?e) s)" using fwk_step_keeps [of D L "{}" s _ E] m by (simp only: busy_none)
  then have "mem_ok D L ?s" unfolding run by (simp add: reaches_def)
  moreover have "flight (W(kFWKTaskID_Input := ?q @ [Input_Msg i])) {} bs ?s" using f t by (auto simp: flight_def)
  ultimately show ?thesis using run by (auto simp: same_devices_def)
qed

lemma input_turn_flight:
  assumes m: "mem_ok D L s" and f: "flight W {} bs s" and t: "s_TaskList s kFWKTaskID_Input" "W kFWKTaskID_Input = Input_Msg i # q"
    and E: "\<And>k. heap_grants E k" and d: "find_dev d 0 D = Inr (Some i)"
    and c: "input_msgs s i = event_message d (Event_Recv info n k True rl) i s0" and n: "n \<le> L k"
    and free: "\<forall>t<kFWKTaskID_COUNT. bit rl t \<longrightarrow> (W(kFWKTaskID_Input := q)) t = []"
  shows "\<exists>s'. fwk_do E (Turn kFWKTaskID_Input) s = Inr ((), s') \<and> mem_ok D L s' \<and>
    flight (W(kFWKTaskID_Input := q)) {t. t < kFWKTaskID_COUNT \<and> bit rl t \<and> s_TaskList s t} (take n (dev_buffers s k)) s' \<and>
    same_devices s s' \<and> given s' = given s"
proof -
  let ?r = "Input_Msg i" and ?bs = "take n (dev_buffers s k)"
  let ?s0 = "s\<lparr>s_MessageQueue := (s_MessageQueue s)(kFWKTaskID_Input \<mapsto> q)\<rparr>"
  note g = event_content [of d info n k rl i s0, folded c]
  have Q: "s_MessageQueue s kFWKTaskID_Input = Some (?r # q)" using f t by (simp add: flight_def)
  have "taken D L {} ?r ?s0" using dequeue_keeps [of D L "{}" s, OF _ Q] m by (simp add: busy_none)
  then have m0: "mem_ok D L ?s0" by (simp add: taken_def busy_def)
  have D: "devs s kFWKTaskID_Input = D" using m by (simp add: mem_ok_def)
  have f0: "flight (W(kFWKTaskID_Input := q)) {} ?bs ?s0" using f t by (auto simp: flight_def)
  define ts where "ts = [kFWKTaskID_Camera..<kFWKTaskID_COUNT]"
  have ts: "distinct ts" "set ts \<inter> {} = {}" "t \<in> set ts \<longleftrightarrow> t < kFWKTaskID_COUNT" for t
    by (simp_all only: ts_def distinct_upt Int_empty_right set_upt atLeastLessThan_iff kFWKTaskID_Camera_def le0 simp_thms)
  have e: "?bs = take (payload_size (input_msgs s i)) (dev_buffers ?s0 k)" "payload_size (input_msgs s i) \<le> L k"
    using g(6) n by simp_all
  have fr: "\<forall>t\<in>set ts. bit (receiverList (input_msgs s i)) t \<longrightarrow> (W(kFWKTaskID_Input := q)) t = []"
    unfolding g(3) using free ts(3) by blast
  obtain s2 where s2: "forward_loop E (input_msgs s i) ts ?s0 = Inr ((), s2)" "mem_ok D L s2"
    "flight (W(kFWKTaskID_Input := q)) ({} \<union> {t \<in> set ts. bit (receiverList (input_msgs s i)) t \<and> s_TaskList ?s0 t}) ?bs s2"
    "same_devices ?s0 s2" "given s2 = given ?s0"
    using forward_loop_flight [OF E g(5,4) e(2) m0 f0 ts(1,2) e(1) fr] by blast
  obtain m2 where m2: "get_msg ?r s2 = Inr m2" "\<not> payload_free m2" "\<not> freeAfterConsumed m2"
    using s2(2) by (auto simp: get_msg_def mem_ok_def static_ok_def)
  have "dev_of d D \<noteq> None" using find_dev_of [OF d] .
  then have "InputManager_MessageHandle E ?r ?s0 = Inr ((), s2)"
    using s2(1) [unfolded ts_def] m2 g(1,2) D
    by (simp add: InputManager_MessageHandle_def input_receive_def get_msg_def del: kFWKTaskID_Camera_def kFWKTaskID_COUNT_def)
  then have "msgHandle E kFWKTaskID_Input ?r ?s0 = Inr ((), s2)" by (simp add: msgHandle_def)
  then have "fwk_do E (Turn kFWKTaskID_Input) s = Inr ((), s2)"
    using t(1) Q m2 by (simp add: fwk_task_proc_def consume_def)
  moreover have "{} \<union> {t \<in> set ts. bit (receiverList (input_msgs s i)) t \<and> s_TaskList ?s0 t} = {t. t < kFWKTaskID_COUNT \<and> bit rl t \<and> s_TaskList s t}"
    unfolding g(3) using ts(3) by auto
  moreover have "same_devices s s2" "given s2 = given s" using s2(4,5) by (simp_all add: same_devices_def)
  ultimately show ?thesis using s2(2,3) by (intro exI [of _ s2] conjI) (simp_all only:)
qed

text \<open>The input task and the tasks of the receivers take their turns, from when the event is the first in the
  input task's queue.\<close>

lemma event_handed_out:
  assumes m: "mem_ok D L s" and f: "flight W {} bs s" and t: "s_TaskList s kFWKTaskID_Input" "W kFWKTaskID_Input = Input_Msg i # q"
    and E: "\<And>k. heap_grants E k" and d: "find_dev d 0 D = Inr (Some i)"
    and c: "input_msgs s i = event_message d (Event_Recv info n k True rl) i s0" and n: "n \<le> L k"
    and free: "\<forall>t<kFWKTaskID_COUNT. bit rl t \<longrightarrow> (W(kFWKTaskID_Input := q)) t = []"
    and ws: "list_all (\<lambda>w. length (snd w) = L (fst w)) ws"
    and ts: "distinct ts" "set ts = {t. t < kFWKTaskID_COUNT \<and> bit rl t \<and> s_TaskList s t}" "list_all handles_notes ts"
  shows "\<exists>rs s'. run_ops (fwk_do E) ([Turn kFWKTaskID_Input] @ map (\<lambda>(j, w). Dev_Writes j w) ws @ map Turn ts) s = Inr (rs, s') \<and> mem_ok D L s' \<and>
    flight (W(kFWKTaskID_Input := q)) {} (take n (dev_buffers s k)) s' \<and> same_devices (s\<lparr>dev_buffers := written ws (dev_buffers s)\<rparr>) s' \<and>
    given s' = given s @ concat (map (deliveries s (take n (dev_buffers s k))) ts)"
proof -
  let ?bs = "take n (dev_buffers s k)" and ?W = "W(kFWKTaskID_Input := q)"
  have receivers: "{t. t < kFWKTaskID_COUNT \<and> bit rl t \<and> s_TaskList s t} = set ts" using ts(2) by simp
  note turn = input_turn_flight [OF m f t E d c n free, unfolded receivers]
  obtain s1 where s1: "fwk_do E (Turn kFWKTaskID_Input) s = Inr ((), s1)" "mem_ok D L s1" "flight ?W (set ts) ?bs s1" "same_devices s s1"
    "given s1 = given s" using turn by blast
  let ?s2 = "s1\<lparr>dev_buffers := written ws (dev_buffers s1)\<rparr>"
  have s2: "mem_ok D L ?s2" "flight ?W (set ts) ?bs ?s2" using writes_flight [OF s1(2,3) ws] by blast+
  have same: "same_devices (s\<lparr>dev_buffers := written ws (dev_buffers s)\<rparr>) ?s2" using s1(4) by (simp add: same_devices_def)
  have "\<forall>t\<in>set ts. s_TaskList ?s2 t \<and> handles_notes t \<and> ?W t = []"
  proof
    fix t assume a: "t \<in> set ts"
    then have "t < kFWKTaskID_COUNT" "bit rl t" "s_TaskList s t" using ts(2) by auto
    then show "s_TaskList ?s2 t \<and> handles_notes t \<and> ?W t = []" using free a ts(3) s1(4)
      by (intro conjI) (simp_all add: list_all_iff same_devices_def del: fun_upd_apply)
  qed
  then obtain rs s3 where s3: "run_ops (fwk_do E) (map Turn ts) ?s2 = Inr (rs, s3)" "mem_ok D L s3" "flight ?W {} ?bs s3" "same_devices ?s2 s3"
    "given s3 = given ?s2 @ concat (map (deliveries ?s2 ?bs) ts)" using turns_flight [OF s2 ts(1), of E] by blast
  have dl: "deliveries ?s2 = deliveries s" using same by (simp add: deliveries_def same_devices_def fun_eq_iff)
  have "run_ops (fwk_do E) ([Turn kFWKTaskID_Input] @ map (\<lambda>(j, w). Dev_Writes j w) ws @ map Turn ts) s = Inr (() # map (\<lambda>_. ()) ws @ rs, s3)"
    using s1(1) s3(1) by (simp add: run_append writes_run)
  then show ?thesis using s3 same_devices_trans [OF same s3(4)] dl s1(5) by (intro exI [of _ s3] exI conjI) simp_all
qed

corollary event_handed_out_still:
  assumes "mem_ok D L s" and "flight W {} bs s" and "s_TaskList s kFWKTaskID_Input" "W kFWKTaskID_Input = Input_Msg i # q"
    and "\<And>k. heap_grants E k" and "find_dev d 0 D = Inr (Some i)"
    and "input_msgs s i = event_message d (Event_Recv info n k True rl) i s0" and "n \<le> L k"
    and "\<forall>t<kFWKTaskID_COUNT. bit rl t \<longrightarrow> (W(kFWKTaskID_Input := q)) t = []"
    and "distinct ts" "set ts = {t. t < kFWKTaskID_COUNT \<and> bit rl t \<and> s_TaskList s t}" "list_all handles_notes ts"
  shows "\<exists>rs s'. run_ops (fwk_do E) (Turn kFWKTaskID_Input # map Turn ts) s = Inr (rs, s') \<and> mem_ok D L s' \<and>
    flight (W(kFWKTaskID_Input := q)) {} (take n (dev_buffers s k)) s' \<and> same_devices s s' \<and>
    given s' = given s @ concat (map (deliveries s (take n (dev_buffers s k))) ts)"
  using event_handed_out [OF assms(1-9) _ assms(10-12), where ws = "[]"]
  by (simp only: written.simps list.map append_Nil append_Cons list.pred_inject fwk.surjective [symmetric] simp_thms) (simp add: same_devices_def)

end
