(* ===== verification/Fwk_Props.thy ===== *)
theory Fwk_Props
  imports Fwk_Deliver
begin

text \<open>
  The properties of the framework's messages: memory is used safely in every run, but for what a verbose
  log reads; an event reaches its receivers with the bytes its buffer has when the input task forwards
  it, and leaves nothing behind; and the two ways in which an event or the memory of a message is lost.
\<close>

section \<open>A sample\<close>

text \<open>The lock with its input, output and vision tasks, a device for input and a receiver.\<close>

definition sample_dev :: "nat \<Rightarrow> fwk_dev" where
  "sample_dev i = \<lparr>dev_id = i, dev_name = [], has_inputNotify = True, has_deinit = False\<rparr>"

definition sample_receiver :: output_receiver where
  "sample_receiver = \<lparr>pDev = \<lparr>out_dev = 7, out_name = [], is_ui = False, surface = 0\<rparr>, has_inferenceComplete = True, has_notify = True,
     has_dump = False\<rparr>"

definition sample_fwk :: fwk where
  "sample_fwk = \<lparr>s_MessageQueue = (\<lambda>t. if t \<in> {2, 4, 5} then Some [] else None), s_TaskList = (\<lambda>t. t \<in> {2, 4, 5}), heap_msgs = Map.empty,
     heap_data = Map.empty, input_msgs = (\<lambda>i. zero_message\<lparr>msg_id := kFWKMessageID_InputReceive, devId := i\<rparr>), lpmNotifyMsg = zero_message,
     dev_buffers = (\<lambda>k. [1, 2, 3]), next_block = 0, heap_calls = 0, devs = (\<lambda>t. if t = 5 then [Some (sample_dev 0)] else [Some (sample_dev 1)]),
     outEventReceiverList = [sample_receiver], uiReceiverCount = 0, s_SleepModeIsOn = False, pOverlaySurface = None, given = [], answers = [],
     log_verbose = False, log_reads = []\<rparr>"

definition sample_env :: fwk_env where
  "sample_env = \<lparr>heap_grants = (\<lambda>_. True), queue_made = (\<lambda>_. True), task_made = (\<lambda>_. True), inference_status = (\<lambda>_. 0)\<rparr>"

lemma sample_ok: "mem_ok [Some (sample_dev 0)] (\<lambda>k. 3) sample_fwk"
  by (simp add: mem_ok_def sample_fwk_def static_ok_def zero_message_def heap_ok_def queues_ok_def)

text \<open>A sample with a full queue.\<close>

definition full_fwk :: fwk where
  "full_fwk = sample_fwk\<lparr>s_MessageQueue := (s_MessageQueue sample_fwk)(4 \<mapsto> replicate 10 Lpm_Msg)\<rparr>"

lemma full_ok: "mem_ok [Some (sample_dev 0)] (\<lambda>k. 3) full_fwk"
  by (simp add: mem_ok_def full_fwk_def sample_fwk_def static_ok_def zero_message_def heap_ok_def queues_ok_def)

section \<open>Safety\<close>

text \<open>C11: No message and no payload of the framework is read after it was freed, or freed twice. For every
  well-formed state, every sequence of events that the devices send, buffers they change, handlers that come
  and go, sleep notices and turns of tasks, in any order, with any answers of the heap and any room in the
  queues, the run returns and the state is well-formed again. That assumes: no task for the other core is
  registered (with one, the end of a message reads it after it was freed); the log level is below verbose; a
  device that sends is registered, names a manager that exists, asks for copies no longer than its buffer, and
  buffers keep their lengths; and the turn of a task, like the call of a device, is one step.\<close>

theorem no_dangling:
  assumes "mem_ok D L s" and "list_all (step_allowed D L) ps"
  shows "\<exists>rs t. run_ops (fwk_do E) ps s = Inr (rs, t) \<and> mem_ok D L t"
  using fwk.run_safe [of D L "{}" s ps E] assms by (simp add: busy_none)

theorem no_dangling_witness:
  "\<exists>rs t. run_ops (fwk_do sample_env) [Algo_Event 0 kVAlgoEvent_VisionResultUpdate \<lparr>event_info = 1, event_data = 0, event_size = 3, event_copy = True\<rparr>,
     Turn 4, Sleep_Notice, Turn 4, Turn 5] sample_fwk = Inr (rs, t) \<and> mem_ok [Some (sample_dev 0)] (\<lambda>k. 3) t"
  by (rule no_dangling [OF sample_ok]) simp

section \<open>A verbose log\<close>

text \<open>The result in the hands of the output task, and its line of the log still to be written.\<close>

definition logged :: "nat \<Rightarrow> fwk_message_t \<Rightarrow> fwk \<Rightarrow> bool" where
  "logged n m s \<longleftrightarrow> heap_msgs s n = Some m \<and> n < next_block s \<and> (\<exists>b. read_data (payload_data m) s = Inr b) \<and>
     (\<forall>b. payload_data m = Some (Heap_Data b) \<longrightarrow> b < next_block s) \<and> (\<exists>rest. log_reads s = Heap_Msg n # rest)"

lemma logged_upd [simp]:
  "logged n m (s\<lparr>given := x1\<rparr>) = logged n m s" "logged n m (s\<lparr>heap_calls := x2\<rparr>) = logged n m s"
  "logged n m (s\<lparr>s_SleepModeIsOn := x3\<rparr>) = logged n m s" "logged n m (s\<lparr>s_MessageQueue := x4\<rparr>) = logged n m s"
  by (simp_all add: logged_def read_data_def split: option.splits data_ptr.splits)

lemma logged_line: "logged n m s \<Longrightarrow> logged n m (log_line r s)"
  by (auto simp: logged_def log_line_def read_data_def split: option.splits data_ptr.splits)

lemma logged_put:
  assumes "logged n m s" and "get_msg r s = Inr m'" and "\<not> isMulticoreMessage m'"
  shows "reaches (logged n m) (FWK_Message_Put t r s)"
  using assms logged_line by (auto simp: FWK_Message_Put_def queue_send_def reaches_def split: option.splits)

lemma logged_overlay:
  assumes l: "logged n m s"
  shows "reaches (logged n m) (show_overlay E d s)"
proof (cases "heap_grants E (heap_calls s)")
  case True
  let ?m = "zero_message\<lparr>msg_id := kFWKMessageID_DispatcherRequestShowOverlay, freeAfterConsumed := True, overlay_surface := Some (surface d)\<rparr>"
  let ?s = "s\<lparr>heap_calls := heap_calls s + 1, heap_msgs := (heap_msgs s)(next_block s \<mapsto> ?m), next_block := next_block s + 1\<rparr>"
  have "logged n m ?s" using l by (auto simp: logged_def read_data_def split: option.splits data_ptr.splits)
  then have "reaches (logged n m) (FWK_Message_Put kFWKTaskID_Camera (Heap_Msg (next_block s)) ?s)"
    by (rule logged_put [where m' = ?m]) (simp_all add: get_msg_def zero_message_def)
  then show ?thesis using True by (auto simp: show_overlay_def malloc_msg_def Let_def intro: reaches_bind reaches_Inr)
qed (use l in \<open>simp add: show_overlay_def malloc_msg_def Let_def reaches_Inr\<close>)

lemma logged_infer: "logged n m s \<Longrightarrow> reaches (logged n m) (infer_devs E (Heap_Msg n) xs s)"
proof (induction xs arbitrary: s)
  case (Cons x xs)
  then have "heap_msgs s n = Some m" by (simp add: logged_def)
  moreover obtain b where "read_data (payload_data m) s = Inr b" using Cons.prems by (auto simp: logged_def)
  ultimately show ?case using Cons
    by (auto simp: get_msg_def Let_def give_def intro!: reaches_bind [of "logged n m"] reaches_if reaches_Inr logged_overlay)
qed (simp add: reaches_Inr)

lemma logged_result:
  assumes l: "logged n m s" and m: "msg_id m = kFWKMessageID_VAlgoResultUpdate" "payload_free m \<Longrightarrow> \<exists>b. payload_data m = Some (Heap_Data b)"
  shows "reaches (\<lambda>s. (\<exists>m'. heap_msgs s n = Some m' \<and> freeAfterConsumed m' = freeAfterConsumed m) \<and> (\<exists>rest. log_reads s = Heap_Msg n # rest))
    (msgHandle E kFWKTaskID_Output (Heap_Msg n) s)"
proof -
  have free: "reaches (\<lambda>s. (\<exists>m'. heap_msgs s n = Some m' \<and> freeAfterConsumed m' = freeAfterConsumed m) \<and> (\<exists>rest. log_reads s = Heap_Msg n # rest))
      (free_payload (Heap_Msg n) s')" if "logged n m s'" for s'
  proof (cases "payload_free m")
    case True
    then obtain b where "payload_data m = Some (Heap_Data b)" using m(2) by blast
    then show ?thesis using that True
      by (auto simp: logged_def free_payload_def get_msg_def put_msg_def free_data_def read_data_def reaches_def split: option.splits)
  qed (use that in \<open>simp add: logged_def free_payload_def get_msg_def reaches_def\<close>)
  have g: "get_msg (Heap_Msg n) s = Inr m" using l by (simp add: logged_def get_msg_def)
  show ?thesis
  proof (cases "s_SleepModeIsOn s")
    case True
    then show ?thesis using g l m(1) by (simp add: msgHandle_def OutputManager_MessageHandle_def logged_def reaches_Inr)
  next
    case False
    then show ?thesis using reaches_bind [OF logged_infer [OF l, of E "outEventReceiverList s"] free] g m(1)
      by (simp add: msgHandle_def OutputManager_MessageHandle_def)
  qed
qed

lemma logged_event:
  assumes q: "quiet s" and v: "log_verbose s" "log_reads s = []" and t: "s_TaskList s kFWKTaskID_Output" "\<not> s_TaskList s kFWKTaskID_Multicore"
    and E: "\<forall>j. heap_grants E j" and e: "event_info e \<noteq> kMsgInfo_Remote" "event_copy e \<Longrightarrow> event_size e \<le> length (dev_buffers s (event_data e))"
  shows "\<exists>n m u. fwk_do E (Algo_Event d kVAlgoEvent_VisionResultUpdate e) s = Inr ((), u) \<and> s_MessageQueue u kFWKTaskID_Output = Some [Heap_Msg n] \<and>
    s_TaskList u = s_TaskList s \<and> logged n m u \<and> msg_id m = kFWKMessageID_VAlgoResultUpdate \<and> freeAfterConsumed m \<and>
    (payload_free m \<longrightarrow> (\<exists>b. payload_data m = Some (Heap_Data b)))"
proof -
  have Q: "s_MessageQueue s kFWKTaskID_Output = Some []" "s_MessageQueue s kFWKTaskID_Multicore = None" using q t by (simp_all add: quiet_def)
  show ?thesis
  proof (cases "event_copy e")
    case True
    then show ?thesis using E Q v t e
      by (simp add: VisionAlgoManager_DeviceCallback_def send_event_def Let_def malloc_msg_def copy_payload_def copy_data_def zero_message_def
          read_data_def load_at_def slice_def malloc_data_def FWK_Message_Put_def put_msg_def get_msg_def queue_send_def log_line_def logged_def)
  next
    case False
    then show ?thesis using E Q v t e
      by (simp add: VisionAlgoManager_DeviceCallback_def send_event_def Let_def malloc_msg_def zero_message_def
          read_data_def FWK_Message_Put_def put_msg_def get_msg_def queue_send_def log_line_def logged_def)
  qed
qed

text \<open>C35: With the log level at verbose, the framework reads a message after it was freed. From a state with
  empty queues and heap, with memory granted and no task for the other core, an algorithm sends a result; the
  output task, which comes before the algorithm's, takes it, hands it to its devices and frees it; then the
  line after the send in FWK_Message_Put reads the identifier of the message: a read of freed memory. For any
  receivers, any result and any answers of the devices.\<close>

theorem verbose_log_reads_freed:
  assumes "quiet s" and "log_verbose s" "log_reads s = []" and "s_TaskList s kFWKTaskID_Output" "\<not> s_TaskList s kFWKTaskID_Multicore"
    and "\<forall>j. heap_grants E j" and "event_info e \<noteq> kMsgInfo_Remote" "event_copy e \<Longrightarrow> event_size e \<le> length (dev_buffers s (event_data e))"
  shows "run_ops (fwk_do E) [Algo_Event d kVAlgoEvent_VisionResultUpdate e, Turn kFWKTaskID_Output, Log_Line] s = Inl MemFault"
proof -
  obtain n m u where u: "fwk_do E (Algo_Event d kVAlgoEvent_VisionResultUpdate e) s = Inr ((), u)"
    "s_MessageQueue u kFWKTaskID_Output = Some [Heap_Msg n]" "s_TaskList u = s_TaskList s" "logged n m u"
    and m: "msg_id m = kFWKMessageID_VAlgoResultUpdate" "freeAfterConsumed m" "payload_free m \<longrightarrow> (\<exists>b. payload_data m = Some (Heap_Data b))"
    using logged_event [OF assms] by blast
  have "logged n m (u\<lparr>s_MessageQueue := (s_MessageQueue u)(kFWKTaskID_Output \<mapsto> [])\<rparr>)" using u(4) by simp
  from logged_result [OF this m(1), of E] m(2,3) obtain w m' rest where
    w: "msgHandle E kFWKTaskID_Output (Heap_Msg n) (u\<lparr>s_MessageQueue := (s_MessageQueue u)(kFWKTaskID_Output \<mapsto> [])\<rparr>) = Inr ((), w)"
    "heap_msgs w n = Some m'" "freeAfterConsumed m'" "log_reads w = Heap_Msg n # rest" by (auto simp: reaches_def)
  then have "fwk_do E (Turn kFWKTaskID_Output) u = Inr ((), w\<lparr>heap_msgs := (heap_msgs w)(n := None)\<rparr>)"
    using u(2,3) assms(4) by (simp add: fwk_task_proc_def consume_def get_msg_def put_msg_def free_msg_def)
  then show ?thesis using u(1) w(4) by (simp add: read_log_def get_msg_def)
qed

theorem verbose_log_reads_freed_witness:
  "run_ops (fwk_do sample_env) [Algo_Event 0 kVAlgoEvent_VisionResultUpdate \<lparr>event_info = 1, event_data = 0, event_size = 3, event_copy = True\<rparr>,
     Turn kFWKTaskID_Output, Log_Line] (sample_fwk\<lparr>log_verbose := True\<rparr>) = Inl MemFault"
  by (rule verbose_log_reads_freed) (simp_all add: quiet_def sample_fwk_def sample_env_def fun_eq_iff)

section \<open>Delivery\<close>

text \<open>C12: An event of a device reaches every receiver once. From a state in which all queues and the heap are
  empty, with every request for memory granted, a registered device sends n bytes of its buffer k, to be
  copied, for the tasks ts; the input task takes its turn and then each of the tasks. Devices write to their
  buffers before and after the input task's turn. Every device of the tasks that takes notices is given, once
  and in the order of the turns, the first n bytes the buffer has when the input task makes the copies (not
  those it had when the event was sent), and at the end queues and heap are empty again.\<close>

theorem event_delivered:
  assumes s: "mem_ok D L s" "quiet s" "s_TaskList s kFWKTaskID_Input" and E: "\<forall>j. heap_grants E j"
    and d: "find_dev d 0 D = Inr (Some i)" "msgInfo (input_msgs s i) \<noteq> kMsgInfo_Remote" and n: "n \<le> L k"
    and w: "list_all (\<lambda>w. length (snd w) = L (fst w)) ws" "list_all (\<lambda>w. length (snd w) = L (fst w)) ws'"
    and ts: "distinct ts" "set ts = {t. t < kFWKTaskID_COUNT \<and> bit rl t \<and> s_TaskList s t}" "list_all handles_notes ts"
  shows "\<exists>rs u. run_ops (fwk_do E) (Input_Event d (Event_Recv info n k True rl) # map (\<lambda>(j, w). Dev_Writes j w) ws @
      [Turn kFWKTaskID_Input] @ map (\<lambda>(j, w). Dev_Writes j w) ws' @ map Turn ts) s = Inr (rs, u) \<and> mem_ok D L u \<and> quiet u \<and>
    given u = given s @ concat (map (deliveries s (take n (written ws (dev_buffers s) k))) ts)"
proof -
  let ?e = "Event_Recv info n k True rl" and ?W = "\<lambda>_. []" and ?W1 = "(\<lambda>_. [])(kFWKTaskID_Input := [Input_Msg i])"
  have g: "\<And>j. heap_grants E j" using E by blast
  have f0: "flight ?W {} [] s" using s(2) by (simp add: flight_quiet)
  obtain s1 where s1: "fwk_do E (Input_Event d ?e) s = Inr ((), s1)" "mem_ok D L s1" "flight ?W1 {} [] s1" "given s1 = given s"
    "same_devices (s\<lparr>input_msgs := (input_msgs s)(i := event_message d ?e i s)\<rparr>) s1"
    using event_queued [OF s(1) f0 s(3) _ d n, of E info rl] by auto
  let ?s2 = "s1\<lparr>dev_buffers := written ws (dev_buffers s1)\<rparr>"
  have s2: "mem_ok D L ?s2" "flight ?W1 {} [] ?s2" using writes_flight [OF s1(2,3) w(1)] by blast+
  have t2: "s_TaskList ?s2 = s_TaskList s" "input_msgs ?s2 i = event_message d ?e i s" "dev_buffers s1 = dev_buffers s"
    "deliveries ?s2 = deliveries s" using s1(5) by (simp_all add: same_devices_def deliveries_def fun_eq_iff)
  have up: "?W1(kFWKTaskID_Input := []) = ?W" by auto
  obtain rs3 s3 where s3: "run_ops (fwk_do E) ([Turn kFWKTaskID_Input] @ map (\<lambda>(j, w). Dev_Writes j w) ws' @ map Turn ts) ?s2 = Inr (rs3, s3)"
    "mem_ok D L s3" "flight ?W {} (take n (dev_buffers ?s2 k)) s3"
    "given s3 = given ?s2 @ concat (map (deliveries ?s2 (take n (dev_buffers ?s2 k))) ts)"
    using event_handed_out [OF s2 _ _ g d(1) t2(2) n _ w(2) ts(1) _ ts(3), of "[]", unfolded up t2(1)] s(3) ts(2) by auto
  have run: "run_ops (fwk_do E) (Input_Event d ?e # map (\<lambda>(j, w). Dev_Writes j w) ws @ rest) s =
      rbind (run_ops (fwk_do E) rest ?s2) (\<lambda>(rs, u). Inr (() # map (\<lambda>_. ()) ws @ rs, u))" for rest
    using s1(1) by (cases "run_ops (fwk_do E) rest ?s2") (auto simp: run_append writes_run)
  show ?thesis using s3 s1(4) t2 unfolding run by (simp add: flight_quiet)
qed

theorem event_delivered_witness:
  "\<exists>rs u. run_ops (fwk_do sample_env) (Input_Event 0 (Event_Recv 1 2 9 True 0x14) # map (\<lambda>(j, w). Dev_Writes j w) [(9, [4, 5, 6])] @
      [Turn kFWKTaskID_Input] @ map (\<lambda>(j, w). Dev_Writes j w) [(9, [7, 8, 9])] @ map Turn [2, 4]) sample_fwk = Inr (rs, u) \<and>
    mem_ok [Some (sample_dev 0)] (\<lambda>k. 3) u \<and> quiet u \<and>
    given u = given sample_fwk @ concat (map (deliveries sample_fwk [4, 5]) [2, 4])"
proof -
  have ts: "set [2, 4] = {t. t < kFWKTaskID_COUNT \<and> bit (0x14 :: u32) t \<and> s_TaskList sample_fwk t}"
    by (auto simp: sample_fwk_def)
  have bytes: "take 2 (written [(9, [4, 5, 6])] (dev_buffers sample_fwk) 9) = [4, 5]" by simp
  show ?thesis unfolding bytes [symmetric]
    by (rule event_delivered [OF sample_ok _ _ _ _ _ _ _ _ _ ts])
      (simp_all add: quiet_def sample_fwk_def sample_env_def sample_dev_def zero_message_def handles_notes_def fun_eq_iff)
qed

section \<open>What is lost\<close>

lemma send_refused:
  assumes s: "mem_ok D L s" and q: "s_MessageQueue s (fst (algo_target i)) = Some q" "length q = mainQUEUE_LENGTH"
    and E: "\<forall>j. heap_grants E j" and e: "event_copy e" "event_size e \<le> L (event_data e)"
  shows "\<exists>n u. fwk_do E (Algo_Event d i e) s = Inr ((), u) \<and> heap_msgs s n = None \<and> s_MessageQueue u = s_MessageQueue s \<and> busy D L {Heap_Msg n} u"
proof -
  let ?N = "next_block s" and ?k = "event_data e"
  let ?m = "zero_message\<lparr>msg_id := snd (algo_target i), devId := d, payload_size := event_size e, freeAfterConsumed := True,
    msgInfo := (if event_info e < kMsgInfo_Invalid then event_info e else msgInfo zero_message),
    isMulticoreMessage := (event_info e \<noteq> kMsgInfo_Local \<and> event_info e < kMsgInfo_Invalid)\<rparr>"
  let ?m' = "?m\<lparr>payload_data := Some (Heap_Data (?N + 1)), payload_free := True, payload_size := event_size e\<rparr>"
  have m: "sendable ?m" "\<not> payload_free ?m" "payload_ok ?m" by (cases i; simp add: sendable_def payload_ok_def zero_message_def)+
  have fresh: "heap_msgs s ?N = None" using heap_fresh s by (simp add: mem_ok_def)
  let ?s1 = "s\<lparr>heap_calls := heap_calls s + 1, heap_msgs := (heap_msgs s)(?N \<mapsto> ?m), next_block := ?N + 1\<rparr>"
  have b1: "busy D L {Heap_Msg ?N} ?s1"
    using new_message [of D L "{}" s ?m E] s m E by (auto simp: busy_none malloc_msg_def Let_def)
  let ?bs = "take (event_size e) (dev_buffers s ?k)"
  let ?s2 = "?s1\<lparr>heap_calls := heap_calls s + 1 + 1, heap_data := (heap_data s)(?N + 1 \<mapsto> ?bs), next_block := ?N + 1 + 1\<rparr>"
  have b2: "busy D L {Heap_Msg ?N} ?s2 \<and> unowned (?N + 1) ?s2"
    using new_data [OF b1, of E ?bs] E by (auto simp: malloc_data_def Let_def)
  have b3: "busy D L {Heap_Msg ?N} (put_msg (Heap_Msg ?N) ?m' ?s2)"
    by (rule fill_in) (use b2 m in \<open>auto simp: sendable_def payload_ok_def owns_def\<close>)
  have "s_MessageQueue s kFWKTaskID_Multicore = None" "length (dev_buffers s ?k) = L ?k" using s by (simp_all add: mem_ok_def)
  then have "fwk_do E (Algo_Event d i e) s = Inr ((), put_msg (Heap_Msg ?N) ?m' ?s2)"
    using E e q by (simp add: VisionAlgoManager_DeviceCallback_def send_event_def Let_def malloc_msg_def copy_payload_def copy_data_def
        read_data_def load_at_def slice_def malloc_data_def FWK_Message_Put_def put_msg_def get_msg_def queue_send_def)
  then show ?thesis using fresh b3 by (intro exI [of _ ?N]) (simp add: put_msg_def)
qed

text \<open>C30: A result for which the queue of its receiver is full is never freed. When an algorithm sends an event
  with a copy of its payload and the queue of the target task has ten messages, the call returns with the
  queues as they were, and the message it made stays in the heap in every later run of devices and tasks
  (within what step_allowed says of them).\<close>

theorem full_queue_leaks:
  assumes s: "mem_ok D L s" and q: "s_MessageQueue s (fst (algo_target i)) = Some q" "length q = mainQUEUE_LENGTH"
    and E: "\<forall>j. heap_grants E j" and e: "event_copy e" "event_size e \<le> L (event_data e)"
  shows "\<exists>n u. fwk_do E (Algo_Event d i e) s = Inr ((), u) \<and> heap_msgs s n = None \<and> s_MessageQueue u = s_MessageQueue s \<and>
    (\<forall>ps. list_all (step_allowed D L) ps \<longrightarrow> (\<exists>rs v. run_ops (fwk_do E) ps u = Inr (rs, v) \<and> heap_msgs v n \<noteq> None))"
proof -
  obtain n u where u: "fwk_do E (Algo_Event d i e) s = Inr ((), u)" "heap_msgs s n = None" "s_MessageQueue u = s_MessageQueue s"
    "busy D L {Heap_Msg n} u" using send_refused [OF s q E e] by blast
  have "\<exists>rs v. run_ops (fwk_do E) ps u = Inr (rs, v) \<and> heap_msgs v n \<noteq> None" if "list_all (step_allowed D L) ps" for ps
    using fwk.run_safe [OF u(4) that, of E] busy_msg by fastforce
  then show ?thesis using u by blast
qed

theorem full_queue_leaks_witness:
  "\<exists>n u. fwk_do sample_env (Algo_Event 0 kVAlgoEvent_VisionResultUpdate \<lparr>event_info = 1, event_data = 0, event_size = 3, event_copy = True\<rparr>) full_fwk =
      Inr ((), u) \<and> heap_msgs full_fwk n = None \<and> s_MessageQueue u = s_MessageQueue full_fwk \<and>
    (\<exists>rs v. run_ops (fwk_do sample_env) [Turn 4, Turn 5] u = Inr (rs, v) \<and> heap_msgs v n \<noteq> None)"
proof -
  have q: "s_MessageQueue full_fwk (fst (algo_target kVAlgoEvent_VisionResultUpdate)) = Some (replicate 10 Lpm_Msg)"
    by (simp add: full_fwk_def)
  have "\<forall>j. heap_grants sample_env j" by (simp add: sample_env_def)
  note leak = full_queue_leaks [OF full_ok q _ this, of "\<lparr>event_info = 1, event_data = 0, event_size = 3, event_copy = True\<rparr>" 0, simplified]
  have "list_all (step_allowed [Some (sample_dev 0)] (\<lambda>k. 3)) [Turn 4, Turn 5]" by simp
  then show ?thesis using leak by (elim exE conjE allE [where x = "[Turn 4, Turn 5]"] impE) auto
qed

text \<open>C31: A device that sends a second event before the input task has taken the first loses the first and
  delivers the second twice. From a state in which all queues and the heap are empty, with memory granted, one
  device sends two events with copies; the input task, the receivers of the second event, and again both, take
  their turns. The receivers of the second event are given its bytes twice; the bytes and the receivers of the
  first event do not matter. (The input task is not a receiver itself.)\<close>

theorem second_event_overwrites:
  assumes s: "mem_ok D L s" "quiet s" "s_TaskList s kFWKTaskID_Input" and E: "\<forall>j. heap_grants E j"
    and d: "find_dev d 0 D = Inr (Some i)" "msgInfo (input_msgs s i) \<noteq> kMsgInfo_Remote" and n: "n1 \<le> L k1" "n2 \<le> L k2"
    and ts: "distinct ts" "set ts = {t. t < kFWKTaskID_COUNT \<and> bit rl2 t \<and> s_TaskList s t}" "list_all handles_notes ts"
    and own: "\<not> bit rl2 kFWKTaskID_Input"
  shows "\<exists>rs u. run_ops (fwk_do E) ([Input_Event d (Event_Recv info1 n1 k1 True rl1), Input_Event d (Event_Recv info2 n2 k2 True rl2)] @
      (Turn kFWKTaskID_Input # map Turn ts) @ (Turn kFWKTaskID_Input # map Turn ts)) s = Inr (rs, u) \<and> quiet u \<and>
    (let bytes = take n2 (dev_buffers s k2) in
     given u = given s @ concat (map (deliveries s bytes) ts) @ concat (map (deliveries s bytes) ts))"
proof -
  let ?e1 = "Event_Recv info1 n1 k1 True rl1" and ?e2 = "Event_Recv info2 n2 k2 True rl2"
  let ?W = "\<lambda>_. []" and ?W1 = "(\<lambda>_. [])(kFWKTaskID_Input := [Input_Msg i])" and ?W2 = "(\<lambda>_. [])(kFWKTaskID_Input := [Input_Msg i, Input_Msg i])"
  have g: "\<And>j. heap_grants E j" using E by blast
  have f0: "flight ?W {} [] s" using s(2) by (simp add: flight_quiet)
  obtain s1 where s1: "fwk_do E (Input_Event d ?e1) s = Inr ((), s1)" "mem_ok D L s1" "flight ?W1 {} [] s1" "given s1 = given s"
    "same_devices (s\<lparr>input_msgs := (input_msgs s)(i := event_message d ?e1 i s)\<rparr>) s1"
    using event_queued [OF s(1) f0 s(3) _ d n(1), of E info1 rl1] by auto
  have t1: "s_TaskList s1 kFWKTaskID_Input" "msgInfo (input_msgs s1 i) \<noteq> kMsgInfo_Remote" using s1(5) s(3) d(2) event_content(7)
    by (simp_all add: same_devices_def)
  obtain s2 where s2: "fwk_do E (Input_Event d ?e2) s1 = Inr ((), s2)" "mem_ok D L s2" "flight ?W2 {} [] s2" "given s2 = given s"
    "same_devices (s1\<lparr>input_msgs := (input_msgs s1)(i := event_message d ?e2 i s1)\<rparr>) s2"
    using event_queued [OF s1(2,3) t1(1) _ d(1) t1(2) n(2), of E info2 rl2] s1(4) by auto
  have t2: "s_TaskList s2 = s_TaskList s" "input_msgs s2 i = event_message d ?e2 i s1" "dev_buffers s2 = dev_buffers s"
    "deliveries s2 = deliveries s" using s1(5) s2(5) by (simp_all add: same_devices_def deliveries_def fun_eq_iff)
  have up: "?W2(kFWKTaskID_Input := [Input_Msg i]) = ?W1" "?W1(kFWKTaskID_Input := []) = ?W" by auto
  have free1: "\<forall>t<kFWKTaskID_COUNT. bit rl2 t \<longrightarrow> (?W2(kFWKTaskID_Input := [Input_Msg i])) t = []" using own by auto
  have free2: "\<forall>t<kFWKTaskID_COUNT. bit rl2 t \<longrightarrow> (?W1(kFWKTaskID_Input := [])) t = []" by simp
  let ?bs = "take n2 (dev_buffers s k2)" and ?turns = "Turn kFWKTaskID_Input # map Turn ts"
  obtain rs3 s3 where s3: "run_ops (fwk_do E) ?turns s2 = Inr (rs3, s3)" "mem_ok D L s3" "flight ?W1 {} ?bs s3" "same_devices s2 s3"
    "given s3 = given s2 @ concat (map (deliveries s ?bs) ts)"
    using event_handed_out_still [OF s2(2,3) _ _ g d(1) t2(2) n(2) free1 ts(1) _ ts(3), unfolded up t2] s(3) ts(2) by auto
  have t3: "s_TaskList s3 = s_TaskList s" "input_msgs s3 i = event_message d ?e2 i s1" "dev_buffers s3 = dev_buffers s" "deliveries s3 = deliveries s"
    using s3(4) t2 same_deliveries [OF s3(4)] by (simp_all add: same_devices_def)
  obtain rs4 s4 where s4: "run_ops (fwk_do E) ?turns s3 = Inr (rs4, s4)" "flight ?W {} ?bs s4"
    "given s4 = given s3 @ concat (map (deliveries s ?bs) ts)"
    using event_handed_out_still [OF s3(2,3) _ _ g d(1) t3(2) n(2) free2 ts(1) _ ts(3), unfolded up t3] s(3) ts(2) by auto
  have "run_ops (fwk_do E) [Input_Event d ?e1, Input_Event d ?e2] s = Inr ([(), ()], s2)" using s1(1) s2(1) by simp
  then have "run_ops (fwk_do E) ([Input_Event d ?e1, Input_Event d ?e2] @ ?turns @ ?turns) s = Inr ([(), ()] @ rs3 @ rs4, s4)"
    by (simp only: run_append [of _ _ ?turns] run_append [of _ _ "?turns @ ?turns"] s3(1) s4(1) rbind_simps prod.case)
  then show ?thesis using s4(2,3) s3(5) s2(4) by (simp add: flight_quiet Let_def)
qed

theorem second_event_overwrites_witness:
  "\<exists>rs u. run_ops (fwk_do sample_env) ([Input_Event 0 (Event_Recv 1 1 8 True 0x4), Input_Event 0 (Event_Recv 1 3 9 True 0x14)] @
      (Turn kFWKTaskID_Input # map Turn [2, 4]) @ (Turn kFWKTaskID_Input # map Turn [2, 4])) sample_fwk = Inr (rs, u) \<and> quiet u \<and>
    (let bytes = take 3 (dev_buffers sample_fwk 9) in given u = given sample_fwk @
       concat (map (deliveries sample_fwk bytes) [2, 4]) @ concat (map (deliveries sample_fwk bytes) [2, 4]))"
proof -
  have ts: "set [2, 4] = {t. t < kFWKTaskID_COUNT \<and> bit (0x14 :: u32) t \<and> s_TaskList sample_fwk t}"
    by (auto simp: sample_fwk_def)
  show ?thesis
    by (rule second_event_overwrites [OF sample_ok _ _ _ _ _ _ _ _ ts])
      (simp_all add: quiet_def sample_fwk_def sample_env_def sample_dev_def zero_message_def handles_notes_def fun_eq_iff)
qed

end
