(* ===== verification/Spec2Isabelle.thy ===== *)
theory Spec2Isabelle
  imports Update_Props File_Props Facedb_Props Lock_Props At_Props Config_Props Oasis_Props Oasis_Enroll Lpm_Props Fwk_Props
begin

text \<open>
  A verification library for the own code of the vision smart lock. The product has three programs: the
  boot loader of the RT106F board (\<open>src/rt106f_bootloader\<close>), the smart lock application on the same board
  (\<open>src/rt106f_smart_lock\<close>), and the firmware of the LPC845 power controller
  (\<open>src/lpc845_low_power_control\<close>), which powers the board and talks to the application over a serial
  line. Each theory translates one or two source files; functions keep their names, without a leading
  underscore, static variables are the fields of a record of that component, and a run that never
  returns or leaves its memory is an error value of \<open>Prelude\<close> (\<open>Deadlock\<close>, \<open>Livelock\<close>, \<open>MemFault\<close>),
  apart from the status codes, which are ordinary values.

  The boot loader.
  \<open>Flexspi_Nor\<close> is \<open>flexspi_nor_flash_ops.c\<close>: the commands of the NOR chip over the FLEXSPI driver, a
  parameter. \<open>Sln_Flash\<close> is \<open>sln_flash.c\<close>: page and sector writes with interrupts and cache off.
  \<open>Fica_Types\<close>, \<open>Fica_Driver\<close> and \<open>Fica_Program\<close> are \<open>fica_definition.h\<close> and \<open>flash_ica_driver.c\<close>: the table
  of images and its flags in flash with its copy in RAM, and the programming of a new image.
  \<open>Msc_Vfs\<close> and \<open>Usb_Disk\<close> are \<open>sln_msc_vfs.c\<close> and \<open>disk.c\<close>: an image that arrives as sectors of a USB
  disk. \<open>Boot\<close> is \<open>bootloader.c\<close>: which image is started. \<open>Fica_Spec\<close> and \<open>Fica_Update\<close> state what the
  driver promises (a table, a flag word, a bank of bytes); \<open>Flash_Props\<close> and \<open>Update_Props\<close> hold the
  properties: a complete update puts exactly the image in its bank and the boot loader starts it.

  The application's storage.
  \<open>Sln_Encrypt\<close> is \<open>sln_encrypt.c\<close> over the crypto coprocessor, \<open>Lfs_Blockdev\<close> and \<open>Sln_Littlefs\<close> are
  \<open>sln_flash_littlefs.c\<close>: the block device below littlefs and the file store above it. littlefs is a
  parameter; \<open>File_Store\<close> states its documented behaviour on the tree of entries of a volume,
  \<open>File_Contents\<close> what each operation of the store does to the tree, \<open>File_Props\<close> the properties.
  \<open>Flash_Device\<close> is \<open>fwk_flash.c\<close> with \<open>hal_flash_littlefs.c\<close>, and the contract its clients rely on (the
  locales \<open>file_device\<close>, \<open>framework_flash\<close> and, for a device that is never full, \<open>roomy_flash\<close>);
  \<open>Flash_Sim\<close> interprets it on a volume in memory.
  \<open>Facedb\<close> is \<open>hal_sln_facedb.c\<close>, the database of faces. \<open>Facedb_Spec\<close> has the invariant of its slot map,
  \<open>Facedb_Flash\<close> and \<open>Facedb_Persist\<close> what the operations leave in the files, \<open>Facedb_Vault\<close> the
  refinement of a finite map, \<open>Facedb_Start\<close> what a start finds on a store that holds anything, \<open>Facedb_Props\<close>
  the properties.
  \<open>Fwk_Config\<close> and \<open>Smart_Lock_Config\<close> are \<open>fwk_config.c\<close> and \<open>hal_smart_lock_config.c\<close>, the settings;
  \<open>Config_Vault\<close> shows that they refine a pair of values, \<open>Config_Props\<close> holds the properties. Both
  refinements include restarts, which reset the RAM and read the files back.

  The lock.
  \<open>C_Strings\<close> has the string functions the parsers call. \<open>Lpc_Faceid\<close> and \<open>Lpc_Main\<close> are
  \<open>app_faceid.c\<close> and \<open>main.c\<close> of the power controller: a step relation in which the main loop, the serial
  port, the motion sensor and the timer interleave. \<open>At_Commands\<close> is \<open>sln_at_commands.c\<close>, the other end of
  the line. \<open>Lock_Link\<close> puts the two ends together; \<open>Lock_Props\<close> and \<open>At_Props\<close> hold the properties.

  The recognition.
  \<open>Fwk_Timer\<close> is \<open>fwk_timer.c\<close> over the software timers of the operating system, \<open>Lpm_Manager\<close> and
  \<open>Lpm_Standby\<close> are \<open>fwk_lpm_manager.c\<close> and \<open>hal_lpm_standby.c\<close>, with the properties in \<open>Lpm_Props\<close>.
  \<open>Oasis_Lite\<close>, \<open>Oasis_Run\<close> and \<open>Oasis_Events\<close> are \<open>hal_vision_algo_oasis_lite2D.c\<close>, the engine that runs the
  face recognition library on the camera's frames, with the part of \<open>fwk_vision_algo_manager.c\<close> that
  drives it. Its state holds those of the timers, the face database, the settings and the low-power
  manager, and it calls their operations as they are modelled. The library is a parameter, a tree of
  the callbacks it makes and of what it does with their answers, so that every property holds for all
  of its behaviours. \<open>Oasis_Inv\<close> has the invariant of the engine under every event, frame and timer;
  \<open>Oasis_Report\<close> says what a frame shows as a function of the library's calls; \<open>Oasis_Modes\<close> is the
  machine of modes that the control events implement. A request for a frame goes through the queue of the camera
  manager, which may refuse it; the request is then lost, and the state says so (\<open>refused\<close>). \<open>Oasis_Sim\<close> starts the engine on the simulated
  volume. \<open>Oasis_Props\<close> holds the properties of running, control and results, up to the lock;
  \<open>Oasis_Timing\<close> what happens after a decision; \<open>Oasis_Enroll\<close> a registration from its event to the
  stored face, for every library that makes the calls its header documents for one.

  The framework.
  \<open>Fwk_Message\<close> is \<open>fwk_message.c\<close> and \<open>fwk_task.c\<close>: messages, their memory, the queues of the tasks and
  the turn of a task. \<open>Fwk_Managers\<close> is \<open>fwk_input_manager.c\<close> and \<open>fwk_output_manager.c\<close>, and of the camera,
  display and vision algorithm managers what they do with events. \<open>Fwk_Memory\<close> has the invariant that says
  who owns which block of the heap, \<open>Fwk_Safety\<close> that every operation keeps it, also beside messages that
  were lost, \<open>Fwk_Deliver\<close> the way of one event to its receivers; \<open>Fwk_Props\<close> holds the properties. The
  devices, algorithms and interrupts that send events and the turns of the tasks are steps in any order;
  what the devices do with an event is a step of its own when it comes back to the managers. The lines of the
  log that \<open>FWK_Message_Put\<close> writes after it has sent a message read that message; with the log level at verbose
  each is a step of its own, which may come after the receiver's turn. The safety of the memory is for levels
  below that, for devices that keep their interface and for a system without a multicore task.

  Interfaces. A locale stands wherever one component relies on another: \<open>flexspi\<close> for the bus driver,
  \<open>block_cipher\<close> for the coprocessor, \<open>littlefs\<close> and \<open>store_reliable\<close> for the file system, \<open>file_device\<close>
  and its extensions for the flash framework; and for contracts that several components provide:
  \<open>kept_invariant\<close>, \<open>live_invariant\<close>, \<open>guarded_invariant\<close>, \<open>flag_word\<close> and \<open>implements\<close>; and \<open>lockable_device\<close> for what the
  low-power manager needs of its device. Each is interpreted on the
  definitions of the model, and the hardware and third-party ones on simulations (a chip with its
  busy bit, a block cipher, a volume in memory) that also serve the witnesses.

  Loops and bounds. Loops that count are recursion on the number of rounds that are left, taken from the
  code's own bound. The wait for the busy bit of the chip and the reads of a file, which may not end,
  are partial functions whose value None is \<open>Livelock\<close>; properties that say a call returns prove it.
  Integers keep the width the code gives them, where it can wrap. The clock of the timers counts
  milliseconds without wrapping; commands to a timer take effect at once, because the task that carries
  them out has the highest priority. A handler of the engine runs to its end before the next one, as its
  one task runs them; an expired timer comes in between. A turn of a task of the framework is one step too:
  but for the lines of the log, that another task runs in the middle of it is not modelled.

  Build. 16 MB of flash, no bootstrap image, the 2D smart lock without voice, WiFi, AUTOSAVE of faces;
  enumerations of the target take the fewest bytes that hold them.

  Not modelled. The SDK's drivers, FreeRTOS, littlefs, lwIP, mbedTLS, cJSON, LVGL and the USB and BLE
  stacks are third-party code. The firmware update server of the boot loader calls functions of the
  FICA driver that the repository does not define, so no build contains it. The copies of the flash library in the
  application have the text of the boot loader's. Of the camera and
  display managers the way of a frame through their buffers and the graphics library is left out, and
  with it the static messages of frames; there is no multicore task. The user interface, the cameras, the displays, the wireless bridges,
  the Android application and the face recognition library itself, which is a binary, are left out. Of
  the engine the landmarks, the angles in floating point, the brightness of the LEDs and the profiler are
  left out; a name that does not fit the buffer of the result is a fault of memory.
\<close>

end
